(* ===== verification/Prelude.thy ===== *)
theory Prelude
  imports Complex_Main "HOL-Library.Word" "HOL-Library.Char_ord" "HOL-Library.List_Lexorder"
begin

text \<open>
  The prelude of the development: the model's basic types (byte strings, Python exceptions
  as values), decimal and hexadecimal spelling, the string predicates the code uses, and the
  generic lemmas on lists, association lists and digits that the component theories share.
  Python strings are \<^typ>\<open>string\<close>s, that is sequences of code points below 256; every
  operation on text in the modelled code treats code points one by one, so the restriction
  leaves out inputs and no behaviour on the inputs it keeps.
\<close>

named_theorems py_defs \<open>definitions unfolded by the component proofs\<close>
named_theorems codec_simps \<open>round-trip equations of the codecs\<close>
named_theorems inv_intros \<open>preservation of component invariants\<close>

type_synonym bytes = "8 word list"

section \<open>Exceptions as values\<close>

datatype exn_class =
    TypeError | ValueError | OverflowError | KeyError | AttributeError | RuntimeError
  | PermissionError | FileExistsError | DIDKeyError | BinasciiError
  | ClaimConflict | MissionNotFound | StepNotFound
  | MoneyRejected | TradeRejected | TradeConflict | TamperedTeamConfigError
  | SpineSemanticConflict | ImportError | SettlementFailed | ProofLimitExceeded
  | ClaimRejected | OSError | PaymentAttemptRejected | PaymentAttemptConflict | PaymentWitnessRejected
  | ConnectionError | TimeoutError | CommerceEnvelopeRejected

datatype exn = Exn (exn_cls: exn_class) (exn_msg: string)

type_synonym 'a res = "exn + 'a"

abbreviation raise :: "exn_class \<Rightarrow> string \<Rightarrow> 'a res" where
  "raise c m \<equiv> Inl (Exn c m)"

definition bindR :: "'a res \<Rightarrow> ('a \<Rightarrow> 'b res) \<Rightarrow> 'b res" where
  "bindR m f = (case m of Inl e \<Rightarrow> Inl e | Inr x \<Rightarrow> f x)"

lemma bindR_simps [simp]:
  "bindR (Inl e) f = Inl e"
  "bindR (Inr x) f = f x"
  by (simp_all add: bindR_def)

lemma bindR_Inr_iff: "bindR m f = Inr y \<longleftrightarrow> (\<exists>x. m = Inr x \<and> f x = Inr y)"
  by (cases m) auto

lemma bindR_Inl_iff:
  "bindR m f = Inl e \<longleftrightarrow> m = Inl e \<or> (\<exists>x. m = Inr x \<and> f x = Inl e)"
  by (cases m) auto

text \<open>\<open>if not condition: raise\<close>.\<close>

definition ensure :: "bool \<Rightarrow> exn_class \<Rightarrow> string \<Rightarrow> 'a res \<Rightarrow> 'a res" where
  "ensure b c m k = (if b then k else raise c m)"

lemma ensure_simps [simp]: "ensure True c m k = k" "ensure False c m k = raise c m"
  by (simp_all add: ensure_def)

lemma ensure_Inr_iff: "ensure b c m k = Inr x \<longleftrightarrow> b \<and> k = Inr x"
  by (simp add: ensure_def)

lemma ensure_Inl_iff: "ensure b c m k = Inl e \<longleftrightarrow> (b \<and> k = Inl e) \<or> (\<not> b \<and> e = Exn c m)"
  by (auto simp: ensure_def)

lemmas res_iffs = bindR_Inr_iff bindR_Inl_iff ensure_Inr_iff ensure_Inl_iff

text \<open>A list comprehension whose element expression may raise.\<close>

fun mapR :: "('a \<Rightarrow> 'b res) \<Rightarrow> 'a list \<Rightarrow> 'b list res" where
  "mapR f [] = Inr []"
| "mapR f (x # xs) = bindR (f x) (\<lambda>y. bindR (mapR f xs) (\<lambda>ys. Inr (y # ys)))"

lemma mapR_Inr_iff: "mapR f xs = Inr ys \<longleftrightarrow> list_all2 (\<lambda>x y. f x = Inr y) xs ys"
  by (induction xs arbitrary: ys) (auto simp: bindR_Inr_iff list_all2_Cons1)

lemma mapR_Inr: "(\<And>x. x \<in> set xs \<Longrightarrow> f x = Inr (g x)) \<Longrightarrow> mapR f xs = Inr (map g xs)"
  by (induction xs) auto

text \<open>\<open>ValueError\<close> and its subclasses, as an \<open>except ValueError\<close> clause catches them.
  \<open>DIDKeyError\<close> derives from \<open>Exception\<close> alone and is not one of them.\<close>

definition is_value_error :: "exn \<Rightarrow> bool" where
  "is_value_error e \<longleftrightarrow> exn_cls e \<in> {ValueError, BinasciiError, SpineSemanticConflict, MoneyRejected, ProofLimitExceeded, PaymentAttemptRejected, CommerceEnvelopeRejected}"

text \<open>Run a handler on the exceptions a clause catches, and let the others pass.\<close>

definition try_except :: "'a res \<Rightarrow> (exn \<Rightarrow> bool) \<Rightarrow> (exn \<Rightarrow> 'a res) \<Rightarrow> 'a res" where
  "try_except m caught h = (case m of Inl e \<Rightarrow> if caught e then h e else Inl e | Inr x \<Rightarrow> Inr x)"

lemma try_except_simps [simp]:
  "try_except (Inr x) c h = Inr x"
  "try_except (Inl e) c h = (if c e then h e else Inl e)"
  by (simp_all add: try_except_def)

section \<open>Decimal and hexadecimal spelling\<close>

definition digit_char :: "nat \<Rightarrow> char" where
  "digit_char d = char_of (48 + d)"

definition is_digit :: "char \<Rightarrow> bool" where
  "is_digit c \<longleftrightarrow> 48 \<le> (of_char c :: nat) \<and> (of_char c :: nat) \<le> 57"

definition digit_val :: "char \<Rightarrow> nat" where
  "digit_val c = of_char c - 48"

fun nat_str :: "nat \<Rightarrow> string" where
  "nat_str n = (if n < 10 then [digit_char n] else nat_str (n div 10) @ [digit_char (n mod 10)])"

declare nat_str.simps [simp del]

definition int_str :: "int \<Rightarrow> string" where
  "int_str i = (if i < 0 then ''-'' @ nat_str (nat (- i)) else nat_str (nat i))"

definition digits_val :: "string \<Rightarrow> nat" where
  "digits_val s = foldl (\<lambda>n c. n * 10 + digit_val c) 0 s"

lemma of_char_char_of_small: "n < 256 \<Longrightarrow> (of_char (char_of n) :: nat) = n"
  by simp

lemma of_char_less_256 [simp]: "(of_char c :: nat) < 256"
  by (metis nat_of_char_less_256)

lemma digit_char_val [simp]: "d < 10 \<Longrightarrow> digit_val (digit_char d) = d"
  by (simp add: digit_char_def digit_val_def)

lemma is_digit_digit_char [simp]: "d < 10 \<Longrightarrow> is_digit (digit_char d)"
  by (simp add: digit_char_def is_digit_def)

lemma digit_char_of_val: "is_digit c \<Longrightarrow> digit_char (digit_val c) = c"
  by (simp add: is_digit_def digit_char_def digit_val_def)

lemma nat_str_not_Nil [simp]: "nat_str n \<noteq> []"
  by (subst nat_str.simps) simp

lemma nat_str_digits: "c \<in> set (nat_str n) \<Longrightarrow> is_digit c"
proof (induction n rule: nat_str.induct)
  case (1 n)
  show ?case
  proof (cases "n < 10")
    case True
    with "1.prems" show ?thesis by (simp add: nat_str.simps [of n])
  next
    case False
    with "1.prems" consider "c \<in> set (nat_str (n div 10))" | "c = digit_char (n mod 10)"
      by (auto simp: nat_str.simps [of n])
    then show ?thesis using "1.IH" [OF False] by cases auto
  qed
qed

lemma digits_val_snoc: "digits_val (s @ [c]) = digits_val s * 10 + digit_val c"
  by (simp add: digits_val_def)

lemma digits_val_nat_str [simp]: "digits_val (nat_str n) = n"
proof (induction n rule: nat_str.induct)
  case (1 n)
  show ?case
  proof (cases "n < 10")
    case True
    then show ?thesis by (simp add: nat_str.simps [of n] digits_val_def)
  next
    case False
    with "1.IH" show ?thesis by (simp add: nat_str.simps [of n] digits_val_snoc)
  qed
qed

lemma nat_str_inject [simp]: "nat_str m = nat_str n \<longleftrightarrow> m = n"
  by (metis digits_val_nat_str)

lemma nat_str_hd: "0 < n \<Longrightarrow> hd (nat_str n) \<noteq> CHR ''0''"
proof (induction n rule: nat_str.induct)
  case (1 n)
  show ?case
  proof (cases "n < 10")
    case True
    with "1.prems" have "(of_char (digit_char n) :: nat) \<noteq> of_char (CHR ''0'')"
      by (simp add: digit_char_def)
    with True show ?thesis by (auto simp: nat_str.simps [of n])
  next
    case False
    with "1.IH" [OF False] show ?thesis by (simp add: nat_str.simps [of n])
  qed
qed

lemma nat_str_zero: "nat_str 0 = ''0''"
  by code_simp

definition hex_char :: "nat \<Rightarrow> char" where
  "hex_char d = (if d < 10 then char_of (48 + d) else char_of (87 + d))"

definition hex_val :: "char \<Rightarrow> nat option" where
  "hex_val c = (let n = of_char c in
     if 48 \<le> n \<and> n \<le> 57 then Some (n - 48)
     else if 97 \<le> n \<and> n \<le> 102 then Some (n - 87)
     else if 65 \<le> n \<and> n \<le> 70 then Some (n - 55)
     else None)"

definition is_lower_hex :: "char \<Rightarrow> bool" where
  "is_lower_hex c \<longleftrightarrow> is_digit c \<or> (97 \<le> (of_char c :: nat) \<and> (of_char c :: nat) \<le> 102)"

lemma hex_val_hex_char [simp]: "d < 16 \<Longrightarrow> hex_val (hex_char d) = Some d"
  by (simp add: hex_val_def hex_char_def)

lemma is_lower_hex_hex_char [simp]: "d < 16 \<Longrightarrow> is_lower_hex (hex_char d)"
  by (simp add: is_lower_hex_def is_digit_def hex_char_def)

text \<open>\<open>bytes.hex()\<close> and \<open>bytes.fromhex\<close>. Python's \<open>fromhex\<close> skips ASCII whitespace between
  bytes; the model does the same.\<close>

fun bytes_hex :: "bytes \<Rightarrow> string" where
  "bytes_hex [] = []"
| "bytes_hex (b # bs) = hex_char (unat b div 16) # hex_char (unat b mod 16) # bytes_hex bs"

definition is_ascii_space :: "char \<Rightarrow> bool" where
  "is_ascii_space c \<longleftrightarrow> (of_char c :: nat) \<in> {9, 10, 11, 12, 13, 32}"

fun fromhex :: "string \<Rightarrow> bytes res" where
  "fromhex [] = Inr []"
| "fromhex [c] = (if is_ascii_space c then Inr [] else raise ValueError ''non-hexadecimal number'')"
| "fromhex (c # d # s) =
     (if is_ascii_space c then fromhex (d # s)
      else case (hex_val c, hex_val d) of
        (Some x, Some y) \<Rightarrow> bindR (fromhex s) (\<lambda>bs. Inr (word_of_nat (16 * x + y) # bs))
      | _ \<Rightarrow> raise ValueError ''non-hexadecimal number'')"

lemma not_space_hex_char [simp]: "d < 16 \<Longrightarrow> \<not> is_ascii_space (hex_char d)"
  by (auto simp: is_ascii_space_def hex_char_def)

lemma unat_byte_less: "unat (b :: 8 word) < 256"
  using unsigned_less [of b] by simp

lemma byte_split: "word_of_nat (16 * (unat b div 16) + unat b mod 16) = (b :: 8 word)"
proof -
  have "16 * (unat b div 16) + unat b mod 16 = unat b" by presburger
  then show ?thesis by simp
qed

lemma fromhex_bytes_hex [simp]: "fromhex (bytes_hex bs) = Inr bs"
proof (induction bs)
  case Nil
  then show ?case by simp
next
  case (Cons b bs)
  have "unat b div 16 < 16" "unat b mod 16 < 16"
    using unat_byte_less [of b] by auto
  with Cons show ?case by (simp add: byte_split)
qed

lemma length_bytes_hex [simp]: "length (bytes_hex bs) = 2 * length bs"
  by (induction bs) auto

lemma bytes_hex_lower: "c \<in> set (bytes_hex bs) \<Longrightarrow> is_lower_hex c"
proof (induction bs)
  case Nil
  then show ?case by simp
next
  case (Cons b bs)
  have "unat b div 16 < 16" "unat b mod 16 < 16"
    using unat_byte_less [of b] by auto
  with Cons show ?case by auto
qed

lemma bytes_hex_inject [simp]: "bytes_hex a = bytes_hex b \<longleftrightarrow> a = b"
  by (metis fromhex_bytes_hex Inr_inject)

section \<open>Text and bytes\<close>

definition ascii_bytes :: "string \<Rightarrow> bytes" where
  "ascii_bytes s = map (\<lambda>c. word_of_nat (of_char c)) s"

definition byte_char :: "8 word \<Rightarrow> char" where
  "byte_char b = char_of (unat b)"

lemma unat_of_char_byte [simp]: "unat (word_of_nat (of_char c) :: 8 word) = of_char c"
  by (simp add: unat_of_nat take_bit_eq_mod)

lemma byte_char_of_char [simp]: "byte_char (word_of_nat (of_char c)) = c"
  by (simp add: byte_char_def)

lemma of_char_byte_char: "word_of_nat (of_char (byte_char b)) = b"
  using unat_byte_less [of b] by (simp add: byte_char_def)

lemma map_byte_char_ascii [simp]: "map byte_char (ascii_bytes s) = s"
  by (simp add: ascii_bytes_def comp_def)

lemma ascii_bytes_inject [simp]: "ascii_bytes s = ascii_bytes t \<longleftrightarrow> s = t"
  by (metis map_byte_char_ascii)

lemma length_ascii_bytes [simp]: "length (ascii_bytes s) = length s"
  by (simp add: ascii_bytes_def)

text \<open>UTF-8 for code points below 256: one byte below 128, two bytes from there on.\<close>

definition utf8_char :: "char \<Rightarrow> bytes" where
  "utf8_char c = (let n = of_char c in
     if n < 128 then [word_of_nat n] else [word_of_nat (192 + n div 64), word_of_nat (128 + n mod 64)])"

definition utf8 :: "string \<Rightarrow> bytes" where
  "utf8 s = concat (map utf8_char s)"

fun utf8_decode :: "bytes \<Rightarrow> string option" where
  "utf8_decode [] = Some []"
| "utf8_decode [b] = (if unat b < 128 then Some [byte_char b] else None)"
| "utf8_decode (b # b' # bs) =
     (if unat b < 128 then map_option (Cons (byte_char b)) (utf8_decode (b' # bs))
      else if (unat b = 194 \<or> unat b = 195) \<and> 128 \<le> unat b' \<and> unat b' < 192
      then map_option (Cons (char_of ((unat b - 192) * 64 + (unat b' - 128)))) (utf8_decode bs)
      else None)"

lemma unat_word_of_nat_byte: "n < 256 \<Longrightarrow> unat (word_of_nat n :: 8 word) = n"
  by (simp add: unat_of_nat take_bit_eq_mod)

lemma utf8_decode_low:
  "unat b < 128 \<Longrightarrow> utf8_decode (b # bs) = map_option (Cons (byte_char b)) (utf8_decode bs)"
  by (cases bs) auto

lemma utf8_Cons: "utf8 (c # s) = utf8_char c @ utf8 s"
  by (simp add: utf8_def)

lemma utf8_decode_utf8 [simp]: "utf8_decode (utf8 s) = Some s"
proof (induction s)
  case Nil
  then show ?case by (simp add: utf8_def)
next
  case (Cons c s)
  let ?n = "of_char c :: nat"
  show ?case
  proof (cases "?n < 128")
    case True
    then show ?thesis
      using Cons by (simp add: utf8_Cons utf8_char_def Let_def utf8_decode_low)
  next
    case False
    have n: "?n < 256" by simp
    from False n have d: "?n div 64 = 2 \<or> ?n div 64 = 3" by arith
    have m: "?n mod 64 < 64" by simp
    let ?a = "word_of_nat (192 + ?n div 64) :: 8 word" and ?b = "word_of_nat (128 + ?n mod 64) :: 8 word"
    have a: "unat ?a = 192 + ?n div 64" by (rule unat_word_of_nat_byte) (use d in auto)
    have b: "unat ?b = 128 + ?n mod 64" by (rule unat_word_of_nat_byte) (use m in simp)
    have u: "utf8 (c # s) = ?a # ?b # utf8 s"
      using False by (simp only: utf8_Cons utf8_char_def Let_def if_False append_Cons append_Nil)
    have n64: "(unat ?a - 192) * 64 + (unat ?b - 128) = ?n" unfolding a b by simp
    have "\<not> unat ?a < 128" "unat ?a = 194 \<or> unat ?a = 195" "128 \<le> unat ?b" "unat ?b < 192"
      unfolding a b using d m by auto
    then show ?thesis unfolding u by (simp only: utf8_decode.simps n64 if_False if_True simp_thms)
        (use Cons in simp)
  qed
qed

lemma utf8_inject [simp]: "utf8 s = utf8 t \<longleftrightarrow> s = t"
  by (metis utf8_decode_utf8 option.inject)

section \<open>String predicates\<close>

definition startswith :: "string \<Rightarrow> string \<Rightarrow> bool" where
  "startswith s p \<longleftrightarrow> take (length p) s = p"

definition endswith :: "string \<Rightarrow> string \<Rightarrow> bool" where
  "endswith s p \<longleftrightarrow> length p \<le> length s \<and> drop (length s - length p) s = p"

fun contains :: "string \<Rightarrow> string \<Rightarrow> bool" where
  "contains [] p = (p = [])"
| "contains (c # s) p = (startswith (c # s) p \<or> contains s p)"

definition py_isalnum :: "char \<Rightarrow> bool" where
  "py_isalnum c = (let n = of_char c in
     (48 \<le> n \<and> n \<le> 57) \<or> (65 \<le> n \<and> n \<le> 90) \<or> (97 \<le> n \<and> n \<le> 122)
     \<or> n \<in> {170, 178, 179, 181, 185, 186, 188, 189, 190}
     \<or> (192 \<le> n \<and> n \<le> 255 \<and> n \<noteq> 215 \<and> n \<noteq> (247 :: nat)))"

definition py_isspace :: "char \<Rightarrow> bool" where
  "py_isspace c \<longleftrightarrow> (of_char c :: nat) \<in> {9, 10, 11, 12, 13, 28, 29, 30, 31, 32, 133, 160}"

definition strip_char :: "(char \<Rightarrow> bool) \<Rightarrow> string \<Rightarrow> string" where
  "strip_char P s = rev (dropWhile P (rev (dropWhile P s)))"

definition py_strip :: "string \<Rightarrow> string" where
  "py_strip s = strip_char py_isspace s"

definition lower_char :: "char \<Rightarrow> char" where
  "lower_char c = (let n = of_char c in
     if (65 \<le> n \<and> n \<le> 90) \<or> (192 \<le> n \<and> n \<le> 222 \<and> n \<noteq> 215)
     then char_of (n + 32 :: nat) else c)"

definition py_lower :: "string \<Rightarrow> string" where
  "py_lower s = map lower_char s"

definition join :: "string \<Rightarrow> string list \<Rightarrow> string" where
  "join sep xs = (case xs of [] \<Rightarrow> [] | x # r \<Rightarrow> x @ concat (map (\<lambda>y. sep @ y) r))"

lemma startswith_append [simp]: "startswith (p @ s) p"
  by (simp add: startswith_def)

lemma startswith_iff: "startswith s p \<longleftrightarrow> (\<exists>r. s = p @ r)"
  unfolding startswith_def by (metis append_eq_conv_conj append_take_drop_id)

lemma contains_iff: "contains s p \<longleftrightarrow> (\<exists>a b. s = a @ p @ b)"
proof (induction s)
  case Nil
  then show ?case by auto
next
  case (Cons c s)
  have "(\<exists>a b. c # s = a @ p @ b) \<longleftrightarrow> startswith (c # s) p \<or> (\<exists>a b. s = a @ p @ b)"
  proof
    assume "\<exists>a b. c # s = a @ p @ b"
    then obtain a b where "c # s = a @ p @ b" by blast
    then show "startswith (c # s) p \<or> (\<exists>a b. s = a @ p @ b)"
      by (cases a) (auto simp: startswith_iff)
  next
    assume "startswith (c # s) p \<or> (\<exists>a b. s = a @ p @ b)"
    then show "\<exists>a b. c # s = a @ p @ b"
      by (metis append_Cons append_Nil startswith_iff)
  qed
  with Cons show ?case by simp
qed

section \<open>\<open>util/io.py\<close>: safe file names\<close>

definition id_char_ok :: "char \<Rightarrow> bool" where
  "id_char_ok c \<longleftrightarrow> py_isalnum c \<or> c \<in> set ''_-.''"

definition safe_id :: "string \<Rightarrow> string" where
  "safe_id s =
     (if s = [] then ''anon''
      else let safe0 = map (\<lambda>c. if id_char_ok c then c else CHR ''-'') s;
               safe1 = strip_char (\<lambda>c. c = CHR ''-'') safe0;
               safe = (if safe1 = [] then ''anon'' else safe1)
           in if safe = ''.'' \<or> safe = ''..'' \<or> contains safe ''/'' \<or> contains safe [char_of (92 :: nat)]
              then ''anon'' else take 200 safe)"

section \<open>Association lists\<close>

lemma map_of_map_snd:
  "map_of (map (\<lambda>(k, v). (k, f v)) xs) k = map_option f (map_of xs k)"
  by (induction xs) auto

lemma distinct_fst_map_of:
  "distinct (map fst xs) \<Longrightarrow> (k, v) \<in> set xs \<longleftrightarrow> map_of xs k = Some v"
  by simp

lemma distinct_single: "distinct xs \<Longrightarrow> set xs = {x} \<Longrightarrow> xs = [x]"
  by (cases xs; cases "tl xs") auto

fun assoc_put :: "'k \<Rightarrow> 'v \<Rightarrow> ('k \<times> 'v) list \<Rightarrow> ('k \<times> 'v) list" where
  "assoc_put k v [] = [(k, v)]"
| "assoc_put k v ((k', v') # xs) = (if k = k' then (k, v) # xs else (k', v') # assoc_put k v xs)"

lemma map_of_assoc_put [simp]: "map_of (assoc_put k v xs) = (map_of xs)(k \<mapsto> v)"
  by (induction xs) auto

lemma keys_assoc_put [simp]: "set (map fst (assoc_put k v xs)) = insert k (set (map fst xs))"
  by (induction k v xs rule: assoc_put.induct) (simp_all, blast)

lemma distinct_assoc_put: "distinct (map fst xs) \<Longrightarrow> distinct (map fst (assoc_put k v xs))"
  by (induction k v xs rule: assoc_put.induct) (auto simp del: set_map simp: keys_assoc_put)

section \<open>Positional notation\<close>

text \<open>\<open>int.from_bytes(\<dots>, "big")\<close> and the base-58 loops are the same two functions at different
  radices: reading digits by Horner's rule and producing them by repeated division.\<close>

definition from_digits :: "nat \<Rightarrow> nat list \<Rightarrow> nat" where
  "from_digits b ds = foldl (\<lambda>n d. n * b + d) 0 ds"

function base_digits :: "nat \<Rightarrow> nat \<Rightarrow> nat list" where
  "base_digits b n = (if n = 0 \<or> b < 2 then [] else base_digits b (n div b) @ [n mod b])"
  by pat_completeness auto
termination
  by (relation "measure (\<lambda>(b, n). n)") auto

declare base_digits.simps [simp del]

locale radix =
  fixes base :: nat
  assumes base_ge: "2 \<le> base"
begin

lemma base_digits_0 [simp]: "base_digits base 0 = []"
  by (simp add: base_digits.simps)

lemma base_digits_pos:
  "0 < n \<Longrightarrow> base_digits base n = base_digits base (n div base) @ [n mod base]"
  using base_ge by (subst base_digits.simps) simp

lemma from_digits_snoc: "from_digits base (ds @ [d]) = from_digits base ds * base + d"
  by (simp add: from_digits_def)

lemma digits_induct [case_names zero pos]:
  assumes "P 0" "\<And>n. 0 < n \<Longrightarrow> P (n div base) \<Longrightarrow> P n"
  shows "P n"
proof (induction n rule: less_induct)
  case (less n)
  show ?case
  proof (cases "n = 0")
    case False
    moreover have "n div base < n" using False base_ge by simp
    ultimately show ?thesis using assms(2) less by simp
  qed (simp add: assms(1))
qed

lemma from_base_digits [simp]: "from_digits base (base_digits base n) = n"
proof (induction n rule: digits_induct)
  case zero
  then show ?case by (simp add: from_digits_def)
next
  case (pos n)
  then show ?case by (simp add: base_digits_pos from_digits_snoc)
qed

lemma base_digits_bound: "d \<in> set (base_digits base n) \<Longrightarrow> d < base"
proof (induction n rule: digits_induct)
  case (pos n)
  then show ?case using base_ge by (auto simp: base_digits_pos)
qed simp

lemma base_digits_hd: "base_digits base n \<noteq> [] \<Longrightarrow> hd (base_digits base n) \<noteq> 0"
proof (induction n rule: digits_induct)
  case (pos n)
  show ?case
  proof (cases "base_digits base (n div base) = []")
    case True
    then have "n div base = 0" by (metis from_base_digits from_digits_def foldl_Nil)
    then have "n < base" using base_ge by (simp add: div_eq_0_iff)
    with pos True show ?thesis by (simp add: base_digits_pos)
  next
    case False
    with pos show ?thesis by (simp add: base_digits_pos)
  qed
qed simp

lemma from_digits_Cons0: "from_digits base (0 # ds) = from_digits base ds"
  by (simp add: from_digits_def)

lemma from_digits_zeros: "from_digits base (replicate k 0 @ ds) = from_digits base ds"
  by (induction k) (simp_all add: from_digits_Cons0)

lemma from_digits_less: "\<forall>d \<in> set ds. d < base \<Longrightarrow> from_digits base ds < base ^ length ds"
proof (induction ds rule: rev_induct)
  case (snoc d ds)
  then have "from_digits base ds + 1 \<le> base ^ length ds" "d < base" by auto
  then have "(from_digits base ds + 1) * base \<le> base ^ length ds * base" by (intro mult_right_mono) simp_all
  then show ?case using \<open>d < base\<close> by (simp add: from_digits_snoc algebra_simps)
qed (simp add: from_digits_def)

lemma length_base_digits: "n < base ^ k \<Longrightarrow> length (base_digits base n) \<le> k"
proof (induction k arbitrary: n)
  case (Suc k)
  then have "n div base < base ^ k" using base_ge by (simp add: less_mult_imp_div_less mult.commute)
  with Suc.IH show ?case by (cases "n = 0") (simp_all add: base_digits_pos)
qed simp

lemma base_from_digits:
  "\<forall>d \<in> set ds. d < base \<Longrightarrow> base_digits base (from_digits base ds) = dropWhile (\<lambda>d. d = 0) ds"
proof (induction ds rule: rev_induct)
  case Nil
  then show ?case by (simp add: from_digits_def)
next
  case (snoc d ds)
  let ?n = "from_digits base ds"
  have d: "d < base" and IH: "base_digits base ?n = dropWhile (\<lambda>d. d = 0) ds" using snoc by auto
  show ?case
  proof (cases "?n * base + d = 0")
    case True
    then have "base_digits base ?n = []" "d = 0" using base_ge by auto
    then have "\<forall>x \<in> set ds. x = 0" using IH by simp
    moreover have "from_digits base (ds @ [d]) = 0" using True by (simp add: from_digits_snoc)
    ultimately show ?thesis using \<open>d = 0\<close> by simp
  next
    case False
    have "(?n * base + d) div base = ?n" "(?n * base + d) mod base = d" using d by auto
    then have "base_digits base (?n * base + d) = dropWhile (\<lambda>d. d = 0) ds @ [d]"
      using False IH by (simp add: base_digits_pos)
    moreover have "dropWhile (\<lambda>d. d = 0) (ds @ [d]) = dropWhile (\<lambda>d. d = 0) ds @ [d]"
    proof (cases "\<forall>x \<in> set ds. x = 0")
      case True
      then have "dropWhile (\<lambda>d. d = 0) ds = []" by simp
      then have "?n = 0" using IH by (metis from_base_digits from_digits_def foldl_Nil)
      then have "d \<noteq> 0" using False by simp
      with True show ?thesis by (simp add: dropWhile_append)
    next
      case False
      then show ?thesis by (auto simp: dropWhile_append)
    qed
    ultimately show ?thesis by (simp add: from_digits_snoc)
  qed
qed

end

section \<open>The contract of a codec\<close>

text \<open>An encoder and a decoder that may raise: decoding an encoding gives the value back. From it
  follows that the encoder is injective on the values it is meant for.\<close>

locale codec =
  fixes ok :: "'a \<Rightarrow> bool"
    and enc :: "'a \<Rightarrow> 'b"
    and dec :: "'b \<Rightarrow> 'a res"
  assumes dec_enc: "ok x \<Longrightarrow> dec (enc x) = Inr x"
begin

lemma enc_inject: "ok x \<Longrightarrow> ok y \<Longrightarrow> enc x = enc y \<longleftrightarrow> x = y"
  by (metis dec_enc Inr_inject)

end

text \<open>Two codecs in sequence are a codec: the inner one's texts are values of the outer one.\<close>

locale codec_chain =
  inner: codec ok1 enc1 dec1 + outer: codec ok2 enc2 dec2
  for ok1 :: "'a \<Rightarrow> bool" and enc1 :: "'a \<Rightarrow> 'b" and dec1 :: "'b \<Rightarrow> 'a res"
  and ok2 :: "'b \<Rightarrow> bool" and enc2 :: "'b \<Rightarrow> 'c" and dec2 :: "'c \<Rightarrow> 'b res" +
  assumes chain_ok: "ok1 x \<Longrightarrow> ok2 (enc1 x)"
begin

sublocale chain: codec ok1 "\<lambda>x. enc2 (enc1 x)" "\<lambda>t. bindR (dec2 t) dec1"
  by unfold_locales (simp add: inner.dec_enc outer.dec_enc chain_ok)

end

interpretation hex: codec "\<lambda>_. True" bytes_hex fromhex
  by unfold_locales simp

interpretation b58: radix 58
  by unfold_locales simp

interpretation b256: radix 256
  by unfold_locales simp

section \<open>Big-endian integers\<close>

text \<open>\<open>int.from_bytes(b, "big")\<close>, \<open>n.to_bytes(k, "big")\<close> for a number that fits in k bytes, and
  \<open>n.bit_length()\<close>.\<close>

definition from_bytes_big :: "bytes \<Rightarrow> nat" where
  "from_bytes_big b = from_digits 256 (map unat b)"

fun be_bytes :: "nat \<Rightarrow> nat \<Rightarrow> bytes" where
  "be_bytes 0 n = []"
| "be_bytes (Suc k) n = be_bytes k (n div 256) @ [word_of_nat (n mod 256)]"

function bit_length :: "nat \<Rightarrow> nat" where
  "bit_length n = (if n = 0 then 0 else Suc (bit_length (n div 2)))"
  by pat_completeness auto

termination by (relation "measure id") auto

declare bit_length.simps [simp del]

lemma length_be_bytes [simp]: "length (be_bytes k n) = k"
  by (induction k arbitrary: n) auto

lemma bit_length_0 [simp]: "bit_length 0 = 0"
  by (simp add: bit_length.simps)

lemma bit_length_pos: "0 < n \<Longrightarrow> bit_length n = Suc (bit_length (n div 2))"
  by (simp add: bit_length.simps)

lemma bit_length_le: "n < 2 ^ k \<Longrightarrow> bit_length n \<le> k"
proof (induction k arbitrary: n)
  case (Suc k)
  then have "n div 2 < 2 ^ k" by auto
  with Suc.IH show ?case by (cases "n = 0") (simp_all add: bit_length_pos)
qed simp

lemma bit_length_shift: "2 ^ k \<le> n \<Longrightarrow> bit_length n = k + bit_length (n div 2 ^ k)"
proof (induction k arbitrary: n)
  case (Suc k)
  then have "0 < n" "2 ^ k \<le> n div 2" by (auto intro: Nat.gr0I)
  then show ?case using Suc.IH by (simp add: bit_length_pos div_mult2_eq)
qed simp

lemma byte_length: "length (base_digits 256 n) = (bit_length n + 7) div 8"
proof (induction n rule: b256.digits_induct)
  case (pos n)
  show ?case
  proof (cases "n < 256")
    case True
    then have "bit_length n \<le> 8" "1 \<le> bit_length n"
      using bit_length_le [of n 8] pos.hyps by (simp_all add: bit_length_pos)
    moreover have "length (base_digits 256 n) = 1"
      using True pos.hyps by (simp add: b256.base_digits_pos)
    ultimately show ?thesis by auto
  next
    case False
    then have "bit_length n = 8 + bit_length (n div 256)"
      using bit_length_shift [of 8 n] by simp
    then show ?thesis using pos by (simp add: b256.base_digits_pos)
  qed
qed simp

lemma be_bytes_digits: "be_bytes (length (base_digits 256 n)) n = map word_of_nat (base_digits 256 n)"
proof (induction n rule: b256.digits_induct)
  case (pos n)
  then show ?case by (simp add: b256.base_digits_pos)
qed simp

lemma to_bytes_min: "be_bytes ((bit_length n + 7) div 8) n = map word_of_nat (base_digits 256 n)"
  by (simp add: be_bytes_digits flip: byte_length)

end
