(* ===== verification/Py_Value.thy ===== *)
theory Py_Value
  imports Prelude
begin

text \<open>
  The dynamic values of the program: what a JSON document, an event payload or a keyword
  argument can hold. \<open>PDict\<close> keeps insertion order, as Python's dict does; its keys are values
  themselves, because the canonical serializer has to refuse the keys that are not strings.
  A finite float carries its exact value and its \<open>repr\<close> text; \<open>POther\<close> is an object of any
  other class, with its class name and its \<open>str\<close> text. The operations are those of the
  language the code uses: truthiness, \<open>dict.get\<close>, \<open>==\<close>, \<open>str\<close>, \<open>repr\<close> and \<open>int\<close>.
\<close>

section \<open>Values\<close>

datatype pyfloat = FFin rat string | FInf | FNegInf | FNan

datatype pyval =
    PNone
  | PBool bool
  | PInt int
  | PFloat pyfloat
  | PStr string
  | PList "pyval list"
  | PDict "(pyval \<times> pyval) list"
  | POther string string

type_synonym pydict = "(pyval \<times> pyval) list"

definition obj :: "(string \<times> pyval) list \<Rightarrow> pydict" where
  "obj kvs = map (\<lambda>(k, v). (PStr k, v)) kvs"

definition dget :: "pydict \<Rightarrow> string \<Rightarrow> pyval option" where
  "dget d k = map_of d (PStr k)"

definition dhas :: "pydict \<Rightarrow> string \<Rightarrow> bool" where
  "dhas d k \<longleftrightarrow> dget d k \<noteq> None"

definition dget_or :: "pydict \<Rightarrow> string \<Rightarrow> pyval \<Rightarrow> pyval" where
  "dget_or d k dflt = (case dget d k of None \<Rightarrow> dflt | Some v \<Rightarrow> v)"

definition dput :: "pydict \<Rightarrow> string \<Rightarrow> pyval \<Rightarrow> pydict" where
  "dput d k v = assoc_put (PStr k) v d"

definition without_key :: "string \<Rightarrow> pydict \<Rightarrow> pydict" where
  "without_key k d = filter (\<lambda>(k', v). k' \<noteq> PStr k) d"

definition same_keys :: "pydict \<Rightarrow> string list \<Rightarrow> bool" where
  "same_keys d ks \<longleftrightarrow> set (map fst d) = PStr ` set ks"

definition is_str :: "pyval \<Rightarrow> bool" where
  "is_str v = (case v of PStr _ \<Rightarrow> True | _ \<Rightarrow> False)"

definition is_dict :: "pyval \<Rightarrow> bool" where
  "is_dict v = (case v of PDict _ \<Rightarrow> True | _ \<Rightarrow> False)"

text \<open>\<open>isinstance(v, int) and not isinstance(v, bool)\<close>, as an option.\<close>

definition strict_int :: "pyval \<Rightarrow> int option" where
  "strict_int v = (case v of PInt i \<Rightarrow> Some i | _ \<Rightarrow> None)"

definition nonempty_str :: "pyval option \<Rightarrow> bool" where
  "nonempty_str v = (case v of Some (PStr s) \<Rightarrow> s \<noteq> [] | _ \<Rightarrow> False)"

fun truthy :: "pyval \<Rightarrow> bool" where
  "truthy PNone = False"
| "truthy (PBool b) = b"
| "truthy (PInt i) = (i \<noteq> 0)"
| "truthy (PFloat f) = (case f of FFin q _ \<Rightarrow> q \<noteq> 0 | _ \<Rightarrow> True)"
| "truthy (PStr s) = (s \<noteq> [])"
| "truthy (PList xs) = (xs \<noteq> [])"
| "truthy (PDict d) = (d \<noteq> [])"
| "truthy (POther _ _) = True"

lemma dget_obj: "dget (obj kvs) k = map_of kvs k"
  by (induction kvs) (auto simp: dget_def obj_def)

lemma dget_simps [simp]:
  "dget [] k = None"
  "dget ((PStr k', v) # d) k = (if k = k' then Some v else dget d k)"
  by (auto simp: dget_def)

lemma dget_dput [simp]: "dget (dput d k v) k' = (if k' = k then Some v else dget d k')"
  by (auto simp: dget_def dput_def)

lemma dget_without_key [simp]:
  "dget (without_key k d) k' = (if k' = k then None else dget d k')"
  by (induction d) (auto simp: dget_def without_key_def)

lemma dget_in_set: "dget d k = Some v \<Longrightarrow> (PStr k, v) \<in> set d"
  by (simp add: dget_def map_of_SomeD)

lemma nonempty_strE:
  assumes "nonempty_str v"
  obtains s where "v = Some (PStr s)" "s \<noteq> []"
  using assms by (auto simp: nonempty_str_def split: option.splits pyval.splits)

section \<open>Equality\<close>

text \<open>Python's \<open>==\<close>: numbers compare by value across bool, int and float; dicts compare as
  mappings.\<close>

definition num_of :: "pyval \<Rightarrow> rat option" where
  "num_of v = (case v of
     PBool b \<Rightarrow> Some (if b then 1 else 0)
   | PInt i \<Rightarrow> Some (of_int i)
   | PFloat (FFin q _) \<Rightarrow> Some q
   | _ \<Rightarrow> None)"

definition num_eq :: "pyval \<Rightarrow> pyval \<Rightarrow> bool" where
  "num_eq v w = (case (v, w) of
     (PFloat FInf, PFloat FInf) \<Rightarrow> True
   | (PFloat FNegInf, PFloat FNegInf) \<Rightarrow> True
   | _ \<Rightarrow> (case (num_of v, num_of w) of (Some p, Some q) \<Rightarrow> p = q | _ \<Rightarrow> False))"

function (sequential) py_eq :: "pyval \<Rightarrow> pyval \<Rightarrow> bool"
  and py_eq_list :: "pyval list \<Rightarrow> pyval list \<Rightarrow> bool"
  and py_eq_sub :: "pydict \<Rightarrow> pydict \<Rightarrow> bool"
  and py_eq_has :: "pyval \<Rightarrow> pyval \<Rightarrow> pydict \<Rightarrow> bool"
where
  "py_eq PNone w = (w = PNone)"
| "py_eq (PStr s) w = (w = PStr s)"
| "py_eq (PList xs) w = (case w of PList ys \<Rightarrow> py_eq_list xs ys | _ \<Rightarrow> False)"
| "py_eq (PDict d) w = (case w of PDict e \<Rightarrow> length d = length e \<and> py_eq_sub d e | _ \<Rightarrow> False)"
| "py_eq (POther n s) w = (w = POther n s)"
| "py_eq v w = num_eq v w"
| "py_eq_list [] ys = (ys = [])"
| "py_eq_list (x # xs) ys = (case ys of [] \<Rightarrow> False | y # ys' \<Rightarrow> py_eq x y \<and> py_eq_list xs ys')"
| "py_eq_sub [] e = True"
| "py_eq_sub ((k, v) # d) e = (py_eq_has k v e \<and> py_eq_sub d e)"
| "py_eq_has k v [] = False"
| "py_eq_has k v ((k', v') # e) = ((py_eq k k' \<and> py_eq v v') \<or> py_eq_has k v e)"
  by pat_completeness auto

termination
  by (relation "measures
        [\<lambda>x. case x of
            Inl (Inl (v, w)) \<Rightarrow> size v
          | Inl (Inr (xs, ys)) \<Rightarrow> size_list size xs
          | Inr (Inl (d, e)) \<Rightarrow> size_list (size_prod size size) d
          | Inr (Inr (k, v, e)) \<Rightarrow> Suc (size k + size v),
         \<lambda>x. case x of Inr (Inr (k, v, e)) \<Rightarrow> Suc (length e) | _ \<Rightarrow> 0]")
    auto

lemma py_eq_PStr [simp]: "py_eq v (PStr s) \<longleftrightarrow> v = PStr s" "py_eq (PStr s) v \<longleftrightarrow> v = PStr s"
  by (cases v; auto simp: num_eq_def num_of_def split: pyfloat.splits)+

lemma py_eq_PInt: "py_eq v (PInt i) \<longleftrightarrow> num_of v = Some (of_int i)"
  by (cases v) (auto simp: num_eq_def num_of_def split: pyfloat.splits)

section \<open>\<open>repr\<close>, \<open>str\<close> and \<open>int\<close>\<close>

definition hex2 :: "nat \<Rightarrow> string" where
  "hex2 n = [hex_char (n div 16), hex_char (n mod 16)]"

definition bslash :: char where
  "bslash = char_of (92 :: nat)"

definition repr_char :: "char \<Rightarrow> char \<Rightarrow> string" where
  "repr_char quote c = (let n = of_char c in
     if c = quote \<or> c = bslash then [bslash, c]
     else if n = 10 then [bslash, CHR ''n'']
     else if n = 13 then [bslash, CHR ''r'']
     else if n = 9 then [bslash, CHR ''t'']
     else if n < 32 \<or> (127 \<le> n \<and> n \<le> 160) \<or> n = (173 :: nat) then bslash # CHR ''x'' # hex2 n
     else [c])"

definition str_repr :: "string \<Rightarrow> string" where
  "str_repr s =
     (let sq = char_of (39 :: nat); dq = char_of (34 :: nat);
          quote = (if sq \<in> set s \<and> dq \<notin> set s then dq else sq)
      in quote # concat (map (repr_char quote) s) @ [quote])"

definition float_repr :: "pyfloat \<Rightarrow> string" where
  "float_repr f = (case f of FFin _ s \<Rightarrow> s | FInf \<Rightarrow> ''inf'' | FNegInf \<Rightarrow> ''-inf'' | FNan \<Rightarrow> ''nan'')"

function (sequential) py_repr :: "pyval \<Rightarrow> string"
  and repr_items :: "pyval list \<Rightarrow> string"
  and repr_pairs :: "pydict \<Rightarrow> string" where
  "py_repr PNone = ''None''"
| "py_repr (PBool b) = (if b then ''True'' else ''False'')"
| "py_repr (PInt i) = int_str i"
| "py_repr (PFloat f) = float_repr f"
| "py_repr (PStr s) = str_repr s"
| "py_repr (PList xs) = ''['' @ repr_items xs @ '']''"
| "py_repr (PDict d) = ''{'' @ repr_pairs d @ ''}''"
| "py_repr (POther _ s) = s"
| "repr_items [] = []"
| "repr_items [x] = py_repr x"
| "repr_items (x # xs) = py_repr x @ '', '' @ repr_items xs"
| "repr_pairs [] = []"
| "repr_pairs [(k, v)] = py_repr k @ '': '' @ py_repr v"
| "repr_pairs ((k, v) # d) = py_repr k @ '': '' @ py_repr v @ '', '' @ repr_pairs d"
  by pat_completeness auto

termination
  by (relation "measure (\<lambda>x. case x of
        Inl v \<Rightarrow> size v
      | Inr (Inl xs) \<Rightarrow> size_list size xs
      | Inr (Inr d) \<Rightarrow> size_list (size_prod size size) d)") auto

definition py_str :: "pyval \<Rightarrow> string" where
  "py_str v = (case v of PStr s \<Rightarrow> s | _ \<Rightarrow> py_repr v)"

lemma py_str_PStr [simp]: "py_str (PStr s) = s"
  by (simp add: py_str_def)

lemma py_str_PNone [simp]: "py_str PNone = ''None''"
  by (simp add: py_str_def)

definition strs_repr :: "string list \<Rightarrow> string" where
  "strs_repr xs = py_repr (PList (map PStr xs))"

text \<open>\<open>int(v)\<close>. A float truncates towards zero, an infinity raises \<open>OverflowError\<close>, NaN raises
  \<open>ValueError\<close>. A string is stripped of whitespace and read as an optionally signed run of
  digits; underscores between digits are allowed.\<close>

definition rat_trunc :: "rat \<Rightarrow> int" where
  "rat_trunc q = (if 0 \<le> q then \<lfloor>q\<rfloor> else - \<lfloor>- q\<rfloor>)"

fun digit_groups :: "bool \<Rightarrow> string \<Rightarrow> bool" where
  "digit_groups prev_digit [] = prev_digit"
| "digit_groups prev_digit (c # s) =
     (if is_digit c then digit_groups True s
      else if c = CHR ''_'' \<and> prev_digit then digit_groups False s
      else False)"

definition parse_int :: "string \<Rightarrow> int res" where
  "parse_int s0 =
     (let s = py_strip s0;
          neg = startswith s ''-'';
          body = (if neg \<or> startswith s ''+'' then drop 1 s else s)
      in if digit_groups False body
         then Inr ((if neg then - 1 else 1) * int (digits_val (filter is_digit body)))
         else raise ValueError ''invalid literal for int() with base 10'')"

definition py_int :: "pyval \<Rightarrow> int res" where
  "py_int v = (case v of
     PBool b \<Rightarrow> Inr (if b then 1 else 0)
   | PInt i \<Rightarrow> Inr i
   | PFloat (FFin q _) \<Rightarrow> Inr (rat_trunc q)
   | PFloat FNan \<Rightarrow> raise ValueError ''cannot convert float NaN to integer''
   | PFloat _ \<Rightarrow> raise OverflowError ''cannot convert float infinity to integer''
   | PStr s \<Rightarrow> parse_int s
   | _ \<Rightarrow> raise TypeError ''int() argument must be a string, a bytes-like object or a real number'')"

lemma py_int_PInt [simp]: "py_int (PInt i) = Inr i"
  by (simp add: py_int_def)

section \<open>\<open>dict\<close>\<close>

text \<open>\<open>dict(v)\<close>: a dict is copied; a sequence must consist of pairs (two-element sequences with a hashable first
  element); anything else is not iterable.\<close>

definition pair_of :: "pyval \<Rightarrow> (pyval \<times> pyval) res" where
  "pair_of v =
     (let items = (case v of
          PStr s \<Rightarrow> Inr (map (\<lambda>c. PStr [c]) s)
        | PList xs \<Rightarrow> Inr xs
        | PDict d \<Rightarrow> Inr (map fst d)
        | _ \<Rightarrow> raise TypeError ''cannot convert dictionary update sequence element to a sequence'')
      in bindR items (\<lambda>xs. case xs of
           [k, w] \<Rightarrow> (case k of
                PList _ \<Rightarrow> raise TypeError ''unhashable type: list''
              | PDict _ \<Rightarrow> raise TypeError ''unhashable type: dict''
              | _ \<Rightarrow> Inr (k, w))
         | _ \<Rightarrow> raise ValueError ''dictionary update sequence element has the wrong length''))"

fun dict_pairs :: "pydict \<Rightarrow> pyval list \<Rightarrow> pydict res" where
  "dict_pairs acc [] = Inr acc"
| "dict_pairs acc (x # xs) = bindR (pair_of x) (\<lambda>(k, v). dict_pairs (assoc_put k v acc) xs)"

definition py_dict :: "pyval \<Rightarrow> pydict res" where
  "py_dict v = (case v of
     PDict d \<Rightarrow> Inr d
   | PList xs \<Rightarrow> dict_pairs [] xs
   | PStr s \<Rightarrow> dict_pairs [] (map (\<lambda>c. PStr [c]) s)
   | _ \<Rightarrow> raise TypeError ''object is not iterable'')"

lemma py_dict_PDict [simp]: "py_dict (PDict d) = Inr d"
  by (simp add: py_dict_def)

section \<open>Iteration and comparison\<close>

definition type_name :: "pyval \<Rightarrow> string" where
  "type_name v = (case v of
     PNone \<Rightarrow> ''NoneType'' | PBool _ \<Rightarrow> ''bool'' | PInt _ \<Rightarrow> ''int'' | PFloat _ \<Rightarrow> ''float''
   | PStr _ \<Rightarrow> ''str'' | PList _ \<Rightarrow> ''list'' | PDict _ \<Rightarrow> ''dict'' | POther n _ \<Rightarrow> n)"

text \<open>Iterating a value (characters of a text, elements of a list, keys of a dict), and \<open>set(v)\<close>,
  which needs hashable elements.\<close>

definition hashable :: "pyval \<Rightarrow> bool" where
  "hashable v = (case v of PList _ \<Rightarrow> False | PDict _ \<Rightarrow> False | _ \<Rightarrow> True)"

definition py_iter :: "pyval \<Rightarrow> pyval list res" where
  "py_iter v = (case v of
     PStr s \<Rightarrow> Inr (map (\<lambda>c. PStr [c]) s)
   | PList xs \<Rightarrow> Inr xs
   | PDict d \<Rightarrow> Inr (map fst d)
   | _ \<Rightarrow> raise TypeError ''object is not iterable'')"

definition py_set :: "pyval \<Rightarrow> pyval list res" where
  "py_set v = bindR (py_iter v) (\<lambda>xs. ensure (list_all hashable xs) TypeError ''unhashable type'' (Inr xs))"

text \<open>\<open>i < v\<close> and \<open>v < i\<close> for an integer and any value; NaN is not below anything.\<close>

definition int_below :: "int \<Rightarrow> pyval \<Rightarrow> bool res" where
  "int_below i v = (case v of
     PFloat FInf \<Rightarrow> Inr True
   | PFloat FNegInf \<Rightarrow> Inr False
   | PFloat FNan \<Rightarrow> Inr False
   | _ \<Rightarrow> (case num_of v of Some q \<Rightarrow> Inr (of_int i < q) | None \<Rightarrow> raise TypeError ''not supported between instances''))"

definition int_above :: "int \<Rightarrow> pyval \<Rightarrow> bool res" where
  "int_above i v = (case v of
     PFloat FInf \<Rightarrow> Inr False
   | PFloat FNegInf \<Rightarrow> Inr True
   | PFloat FNan \<Rightarrow> Inr False
   | _ \<Rightarrow> (case num_of v of Some q \<Rightarrow> Inr (q < of_int i) | None \<Rightarrow> raise TypeError ''not supported between instances''))"

end
