(* ===== verification/Json_Text.thy ===== *)
theory Json_Text
  imports Py_Value "HOL-Library.Multiset"
begin

text \<open>
  The two functions of the standard \<open>json\<close> module the program uses: \<open>json.dumps\<close> with
  \<open>sort_keys=True\<close> and no whitespace (with \<open>ensure_ascii\<close> on or off), and \<open>json.loads\<close>.
  The reader follows the module's scanner: whitespace between tokens, strict strings, the
  three non-finite constants, and a later duplicate key replacing an earlier one in place.
  It runs on fuel; one unit per character of the text is enough, because every call of the
  scanner consumes a character (\<open>json_loads\<close> gives it that much). A float it reads keeps its
  literal as text and the exact decimal as its numeric part; a string escape beyond code
  point 255 is outside the model's alphabet and reads as a failure.
  The main fact is the round trip: what \<open>dumps\<close> writes, \<open>loads\<close> reads back as the same
  value with its keys sorted.
\<close>

section \<open>Writing\<close>

definition esc_char :: "bool \<Rightarrow> char \<Rightarrow> string" where
  "esc_char asc c = (let n = of_char c in
     if n = 34 then [bslash, c]
     else if n = 92 then [bslash, c]
     else if n = 10 then [bslash, CHR ''n'']
     else if n = 13 then [bslash, CHR ''r'']
     else if n = 9 then [bslash, CHR ''t'']
     else if n = 12 then [bslash, CHR ''f'']
     else if n = 8 then [bslash, CHR ''b'']
     else if n < 32 \<or> (asc \<and> 127 \<le> n) then bslash # CHR ''u'' # CHR ''0'' # CHR ''0'' # hex2 n
     else [c])"

definition dquote :: char where
  "dquote = char_of (34 :: nat)"

definition quote :: "bool \<Rightarrow> string \<Rightarrow> string" where
  "quote asc s = dquote # concat (map (esc_char asc) s) @ [dquote]"

definition json_float :: "pyfloat \<Rightarrow> string" where
  "json_float f = (case f of
     FFin _ s \<Rightarrow> s | FInf \<Rightarrow> ''Infinity'' | FNegInf \<Rightarrow> ''-Infinity'' | FNan \<Rightarrow> ''NaN'')"

definition key_text :: "pyval \<Rightarrow> string" where
  "key_text k = (case k of PStr s \<Rightarrow> s | _ \<Rightarrow> [])"

function (sequential) dump_raw :: "bool \<Rightarrow> pyval \<Rightarrow> string"
  and dump_elems :: "bool \<Rightarrow> pyval list \<Rightarrow> string"
  and dump_members :: "bool \<Rightarrow> pydict \<Rightarrow> string"
where
  "dump_raw asc PNone = ''null''"
| "dump_raw asc (PBool b) = (if b then ''true'' else ''false'')"
| "dump_raw asc (PInt i) = int_str i"
| "dump_raw asc (PFloat f) = json_float f"
| "dump_raw asc (PStr s) = quote asc s"
| "dump_raw asc (PList xs) =
     (case xs of [] \<Rightarrow> ''[]'' | _ \<Rightarrow> CHR ''['' # dump_elems asc xs)"
| "dump_raw asc (PDict d) =
     (case d of [] \<Rightarrow> ''{}'' | _ \<Rightarrow> CHR ''{'' # dump_members asc d)"
| "dump_raw asc (POther _ _) = []"
| "dump_elems asc [] = '']''"
| "dump_elems asc (x # xs) =
     dump_raw asc x @ (case xs of [] \<Rightarrow> '']'' | _ \<Rightarrow> CHR '','' # dump_elems asc xs)"
| "dump_members asc [] = ''}''"
| "dump_members asc ((k, v) # d) =
     quote asc (key_text k) @ CHR '':'' # dump_raw asc v @
       (case d of [] \<Rightarrow> ''}'' | _ \<Rightarrow> CHR '','' # dump_members asc d)"
  by pat_completeness auto

termination
  by (relation "measure (\<lambda>x. case x of
        Inl (asc, v) \<Rightarrow> size v
      | Inr (Inl (asc, xs)) \<Rightarrow> size_list size xs
      | Inr (Inr (asc, d)) \<Rightarrow> size_list (size_prod size size) d)") auto

text \<open>\<open>sort_keys=True\<close> sorts every object by its keys, at every level.\<close>

function (sequential) canon :: "pyval \<Rightarrow> pyval"
  and canon_list :: "pyval list \<Rightarrow> pyval list"
  and canon_pairs :: "pydict \<Rightarrow> pydict"
where
  "canon (PList xs) = PList (canon_list xs)"
| "canon (PDict d) = PDict (sort_key (\<lambda>p. key_text (fst p)) (canon_pairs d))"
| "canon v = v"
| "canon_list [] = []"
| "canon_list (x # xs) = canon x # canon_list xs"
| "canon_pairs [] = []"
| "canon_pairs ((k, v) # d) = (k, canon v) # canon_pairs d"
  by pat_completeness auto

termination
  by (relation "measure (\<lambda>x. case x of
        Inl v \<Rightarrow> size v
      | Inr (Inl xs) \<Rightarrow> size_list size xs
      | Inr (Inr d) \<Rightarrow> size_list (size_prod size size) d)") auto

definition json_dumps :: "bool \<Rightarrow> pyval \<Rightarrow> string" where
  "json_dumps asc v = dump_raw asc (canon v)"

section \<open>Reading\<close>

definition json_ws :: "char \<Rightarrow> bool" where
  "json_ws c \<longleftrightarrow> (of_char c :: nat) \<in> {32, 9, 10, 13}"

definition skip_ws :: "string \<Rightarrow> string" where
  "skip_ws s = dropWhile json_ws s"

definition simple_escape :: "char \<Rightarrow> char option" where
  "simple_escape c = (let n = of_char c :: nat in
     if n = 34 \<or> n = 92 \<or> n = 47 then Some c
     else if c = CHR ''b'' then Some (char_of (8 :: nat))
     else if c = CHR ''f'' then Some (char_of (12 :: nat))
     else if c = CHR ''n'' then Some (char_of (10 :: nat))
     else if c = CHR ''r'' then Some (char_of (13 :: nat))
     else if c = CHR ''t'' then Some (char_of (9 :: nat))
     else None)"

definition hex4 :: "char \<Rightarrow> char \<Rightarrow> char \<Rightarrow> char \<Rightarrow> nat option" where
  "hex4 a b c d = (case (hex_val a, hex_val b, hex_val c, hex_val d) of
     (Some w, Some x, Some y, Some z) \<Rightarrow> Some (((w * 16 + x) * 16 + y) * 16 + z)
   | _ \<Rightarrow> None)"

text \<open>The characters of a string literal after its opening quote.\<close>

fun scan_string :: "string \<Rightarrow> (string \<times> string) option" where
  "scan_string [] = None"
| "scan_string (c # s) =
     (if c = dquote then Some ([], s)
      else if c = bslash then
        (case s of
           e # a # b # x # y # r \<Rightarrow>
             (if e = CHR ''u'' then
                (case hex4 a b x y of
                   Some n \<Rightarrow> if n < 256 then map_option (\<lambda>(t, r'). (char_of n # t, r')) (scan_string r)
                             else None
                 | None \<Rightarrow> None)
              else case simple_escape e of
                   Some c' \<Rightarrow> map_option (\<lambda>(t, r'). (c' # t, r')) (scan_string (a # b # x # y # r))
                 | None \<Rightarrow> None)
         | e # r \<Rightarrow>
             (case simple_escape e of
                Some c' \<Rightarrow> map_option (\<lambda>(t, r'). (c' # t, r')) (scan_string r)
              | None \<Rightarrow> None)
         | [] \<Rightarrow> None)
      else if (of_char c :: nat) < 32 then None
      else map_option (\<lambda>(t, r). (c # t, r)) (scan_string s))"

definition scan_frac :: "string \<Rightarrow> string \<times> string" where
  "scan_frac s = (case s of
     c # r \<Rightarrow> (if c = CHR ''.'' \<and> takeWhile is_digit r \<noteq> []
              then (takeWhile is_digit r, dropWhile is_digit r) else ([], s))
   | [] \<Rightarrow> ([], s))"

definition scan_exp :: "string \<Rightarrow> (bool \<times> string \<times> string)" where
  "scan_exp s = (case s of
     c # r \<Rightarrow> (if c = CHR ''e'' \<or> c = CHR ''E'' then
        (let neg = startswith r ''-'';
             r' = (if neg \<or> startswith r ''+'' then drop 1 r else r)
         in if takeWhile is_digit r' \<noteq> []
            then (neg, takeWhile is_digit r', dropWhile is_digit r') else (False, [], s))
      else (False, [], s))
   | [] \<Rightarrow> (False, [], s))"

definition int_part :: "string \<Rightarrow> (string \<times> string) option" where
  "int_part s = (case s of
     [] \<Rightarrow> None
   | c # r \<Rightarrow> (if c = CHR ''0'' then Some (''0'', r)
               else if is_digit c then Some (takeWhile is_digit s, dropWhile is_digit s)
               else None))"

definition scan_number :: "string \<Rightarrow> (pyval \<times> string) option" where
  "scan_number s0 =
     (let neg = startswith s0 ''-'';
          s = (if neg then drop 1 s0 else s0)
      in case int_part s of
           None \<Rightarrow> None
         | Some (ip, s1) \<Rightarrow>
             (case scan_frac s1 of (fr, s2) \<Rightarrow>
              case scan_exp s2 of (eneg, ex, s3) \<Rightarrow>
                if fr = [] \<and> ex = []
                then Some (PInt ((if neg then - 1 else 1) * int (digits_val ip)), s3)
                else (let q0 = of_nat (digits_val (ip @ fr)) / 10 ^ length fr :: rat;
                          p = 10 ^ digits_val ex;
                          q1 = (if eneg then q0 / p else q0 * p)
                      in Some (PFloat (FFin (if neg then - q1 else q1)
                                 (take (length s0 - length s3) s0)), s3))))"

fun parse_value :: "nat \<Rightarrow> string \<Rightarrow> (pyval \<times> string) option"
  and parse_elems :: "nat \<Rightarrow> string \<Rightarrow> (pyval list \<times> string) option"
  and parse_members :: "nat \<Rightarrow> pydict \<Rightarrow> string \<Rightarrow> (pydict \<times> string) option"
where
  "parse_value 0 s = None"
| "parse_value (Suc n) s = (case s of
     [] \<Rightarrow> None
   | c # r \<Rightarrow>
     if c = dquote then map_option (\<lambda>(t, r'). (PStr t, r')) (scan_string r)
     else if c = CHR ''{'' then
       (case skip_ws r of
          [] \<Rightarrow> None
        | d # r' \<Rightarrow> if d = CHR ''}'' then Some (PDict [], r')
                    else map_option (\<lambda>(kvs, r2). (PDict kvs, r2)) (parse_members n [] (d # r')))
     else if c = CHR ''['' then
       (case skip_ws r of
          [] \<Rightarrow> None
        | d # r' \<Rightarrow> if d = CHR '']'' then Some (PList [], r')
                    else map_option (\<lambda>(xs, r2). (PList xs, r2)) (parse_elems n (d # r')))
     else if startswith s ''null'' then Some (PNone, drop 4 s)
     else if startswith s ''true'' then Some (PBool True, drop 4 s)
     else if startswith s ''false'' then Some (PBool False, drop 5 s)
     else case scan_number s of
            Some res \<Rightarrow> Some res
          | None \<Rightarrow>
              if startswith s ''NaN'' then Some (PFloat FNan, drop 3 s)
              else if startswith s ''Infinity'' then Some (PFloat FInf, drop 8 s)
              else if startswith s ''-Infinity'' then Some (PFloat FNegInf, drop 9 s)
              else None)"
| "parse_elems 0 s = None"
| "parse_elems (Suc n) s = (case parse_value n s of
     None \<Rightarrow> None
   | Some (v, r) \<Rightarrow> (case skip_ws r of
        [] \<Rightarrow> None
      | d # r' \<Rightarrow> if d = CHR '']'' then Some ([v], r')
                  else if d = CHR '','' then map_option (\<lambda>(xs, r2). (v # xs, r2)) (parse_elems n (skip_ws r'))
                  else None))"
| "parse_members 0 acc s = None"
| "parse_members (Suc n) acc s = (case s of
     [] \<Rightarrow> None
   | c # r \<Rightarrow> if c \<noteq> dquote then None
     else case scan_string r of
       None \<Rightarrow> None
     | Some (k, r1) \<Rightarrow> (case skip_ws r1 of
         [] \<Rightarrow> None
       | d # r2 \<Rightarrow> if d \<noteq> CHR '':'' then None
         else case parse_value n (skip_ws r2) of
           None \<Rightarrow> None
         | Some (v, r3) \<Rightarrow>
             (let acc' = assoc_put (PStr k) v acc
              in case skip_ws r3 of
                   [] \<Rightarrow> None
                 | e # r4 \<Rightarrow> if e = CHR ''}'' then Some (acc', r4)
                             else if e = CHR '','' then parse_members n acc' (skip_ws r4)
                             else None)))"

definition json_loads :: "string \<Rightarrow> pyval option" where
  "json_loads s = (case parse_value (Suc (length s)) (skip_ws s) of
     Some (v, r) \<Rightarrow> if skip_ws r = [] then Some v else None
   | None \<Rightarrow> None)"

section \<open>Well-formed documents\<close>

text \<open>What the canonical serializer accepts: no float, no foreign object, every key a string, and
  no key twice (a Python dict has each key once).\<close>

function (sequential) wf_json :: "pyval \<Rightarrow> bool"
  and wf_json_list :: "pyval list \<Rightarrow> bool"
  and wf_json_pairs :: "pydict \<Rightarrow> bool"
where
  "wf_json (PFloat _) = False"
| "wf_json (POther _ _) = False"
| "wf_json (PList xs) = wf_json_list xs"
| "wf_json (PDict d) = (distinct (map fst d) \<and> wf_json_pairs d)"
| "wf_json _ = True"
| "wf_json_list [] = True"
| "wf_json_list (x # xs) = (wf_json x \<and> wf_json_list xs)"
| "wf_json_pairs [] = True"
| "wf_json_pairs ((k, v) # d) = (is_str k \<and> wf_json v \<and> wf_json_pairs d)"
  by pat_completeness auto

termination
  by (relation "measure (\<lambda>x. case x of
        Inl v \<Rightarrow> size v
      | Inr (Inl xs) \<Rightarrow> size_list size xs
      | Inr (Inr d) \<Rightarrow> size_list (size_prod size size) d)") auto

text \<open>What can follow a value inside a document.\<close>

definition delim :: "string \<Rightarrow> bool" where
  "delim r \<longleftrightarrow> r = [] \<or> hd r \<in> set '',]}'' \<or> json_ws (hd r)"

section \<open>The reader undoes the writer\<close>

lemma char_eq_char_of: "n < 256 \<Longrightarrow> c = char_of n \<longleftrightarrow> of_char c = (n :: nat)"
  by auto

lemma quote_chars:
  "c = dquote \<longleftrightarrow> of_char c = (34 :: nat)"
  "c = bslash \<longleftrightarrow> of_char c = (92 :: nat)"
  unfolding dquote_def bslash_def by (simp_all add: char_eq_char_of)

lemma bslash_neq_dquote [simp]: "bslash \<noteq> dquote" "dquote \<noteq> bslash"
  by code_simp+

lemma hex4_hex2: "n < 256 \<Longrightarrow> hex4 (CHR ''0'') (CHR ''0'') (hex_char (n div 16)) (hex_char (n mod 16)) = Some n"
proof -
  assume n: "n < 256"
  have z: "hex_val (CHR ''0'') = Some 0" by code_simp
  have "n div 16 < 16" using n by simp
  then have "hex_val (hex_char (n div 16)) = Some (n div 16)" by simp
  moreover have "hex_val (hex_char (n mod 16)) = Some (n mod 16)" by simp
  ultimately show ?thesis using z by (simp add: hex4_def)
qed

declare scan_string.simps [simp del]

lemma scan_string_dquote: "scan_string (dquote # s) = Some ([], s)"
  by (simp add: scan_string.simps)

lemma scan_string_plain:
  "c \<noteq> dquote \<Longrightarrow> c \<noteq> bslash \<Longrightarrow> \<not> (of_char c :: nat) < 32 \<Longrightarrow>
   scan_string (c # s) = map_option (\<lambda>(t, r). (c # t, r)) (scan_string s)"
  by (subst scan_string.simps) simp

lemma scan_string_simple:
  assumes "simple_escape e = Some c" "e \<noteq> CHR ''u''"
  shows "scan_string (bslash # e # t) = map_option (\<lambda>(u, r). (c # u, r)) (scan_string t)"
proof -
  consider "\<exists>a b x y r. t = a # b # x # y # r" | "t = []" | a where "t = [a]" | a b where "t = [a, b]"
    | a b x where "t = [a, b, x]"
    by (metis list.exhaust)
  then show ?thesis
    by cases (use assms in \<open>auto simp: scan_string.simps(2) [of bslash]\<close>)
qed

lemma scan_string_u:
  assumes "hex4 a b x y = Some n" "n < 256"
  shows "scan_string (bslash # CHR ''u'' # a # b # x # y # r)
     = map_option (\<lambda>(t, r'). (char_of n # t, r')) (scan_string r)"
  using assms by (subst scan_string.simps) simp

lemma simple_escapes:
  "simple_escape (CHR ''n'') = Some (char_of (10::nat))"
  "simple_escape (CHR ''r'') = Some (char_of (13::nat))"
  "simple_escape (CHR ''t'') = Some (char_of (9::nat))"
  "simple_escape (CHR ''f'') = Some (char_of (12::nat))"
  "simple_escape (CHR ''b'') = Some (char_of (8::nat))"
  by code_simp+

lemma simple_escape_self:
  "of_char c = (34::nat) \<or> of_char c = (92::nat) \<Longrightarrow> simple_escape c = Some c \<and> c \<noteq> CHR ''u''"
  by (auto simp: simple_escape_def)

lemma scan_string_esc:
  "scan_string (esc_char asc c @ t) = map_option (\<lambda>(u, r). (c # u, r)) (scan_string t)"
proof -
  let ?n = "of_char c :: nat"
  consider (self) "?n = 34 \<or> ?n = 92" | (n) "?n = 10" | (r) "?n = 13" | (t) "?n = 9"
    | (f) "?n = 12" | (b) "?n = 8"
    | (u) "?n \<notin> {34, 92, 10, 13, 9, 12, 8}" "?n < 32 \<or> (asc \<and> 127 \<le> ?n)"
    | (plain) "?n \<notin> {34, 92, 10, 13, 9, 12, 8}" "\<not> (?n < 32 \<or> (asc \<and> 127 \<le> ?n))"
    by blast
  then show ?thesis
  proof cases
    case self
    then have "esc_char asc c = [bslash, c]" by (auto simp: esc_char_def Let_def)
    with self show ?thesis
      using scan_string_simple simple_escape_self by simp
  next
    case n
    then have "esc_char asc c = [bslash, CHR ''n'']" "c = char_of (10::nat)"
      by (auto simp: esc_char_def Let_def char_eq_char_of)
    then show ?thesis using scan_string_simple [OF simple_escapes(1)] by simp
  next
    case r
    then have "esc_char asc c = [bslash, CHR ''r'']" "c = char_of (13::nat)"
      by (auto simp: esc_char_def Let_def char_eq_char_of)
    then show ?thesis using scan_string_simple [OF simple_escapes(2)] by simp
  next
    case t
    then have "esc_char asc c = [bslash, CHR ''t'']" "c = char_of (9::nat)"
      by (auto simp: esc_char_def Let_def char_eq_char_of)
    then show ?thesis using scan_string_simple [OF simple_escapes(3)] by simp
  next
    case f
    then have "esc_char asc c = [bslash, CHR ''f'']" "c = char_of (12::nat)"
      by (auto simp: esc_char_def Let_def char_eq_char_of)
    then show ?thesis using scan_string_simple [OF simple_escapes(4)] by simp
  next
    case b
    then have "esc_char asc c = [bslash, CHR ''b'']" "c = char_of (8::nat)"
      by (auto simp: esc_char_def Let_def char_eq_char_of)
    then show ?thesis using scan_string_simple [OF simple_escapes(5)] by simp
  next
    case u
    then have "esc_char asc c = bslash # CHR ''u'' # CHR ''0'' # CHR ''0'' # hex2 ?n"
      by (auto simp: esc_char_def Let_def)
    moreover have "?n < 256" by simp
    ultimately show ?thesis
      using scan_string_u [OF hex4_hex2] by (simp add: hex2_def)
  next
    case plain
    then have "esc_char asc c = [c]" by (auto simp: esc_char_def Let_def)
    with plain show ?thesis by (simp add: quote_chars scan_string_plain)
  qed
qed

lemma scan_string_quote:
  "scan_string (concat (map (esc_char asc) s) @ dquote # rest) = Some (s, rest)"
  by (induction s) (simp_all add: scan_string_dquote scan_string_esc)

lemma delim_simps [simp]:
  "delim []" "delim (CHR '','' # r)" "delim (CHR '']'' # r)" "delim (CHR ''}'' # r)"
  by (simp_all add: delim_def)

lemma delim_not_digit: "delim (c # r) \<Longrightarrow> \<not> is_digit c \<and> c \<noteq> CHR ''.'' \<and> c \<noteq> CHR ''e'' \<and> c \<noteq> CHR ''E''"
  by (auto simp: delim_def is_digit_def json_ws_def)

lemma delim_scan: "delim r \<Longrightarrow> scan_frac r = ([], r)" "delim r \<Longrightarrow> scan_exp r = (False, [], r)"
  by (cases r; auto simp: scan_frac_def scan_exp_def dest: delim_not_digit)+

lemma hd_nat_str_digit: "is_digit (hd (nat_str n))"
  by (rule nat_str_digits [of _ n]) simp

lemma nat_str_cases:
  obtains "n = 0" "nat_str n = ''0''"
  | c s where "nat_str n = c # s" "is_digit c" "c \<noteq> CHR ''0''"
proof (cases "n = 0")
  case True
  then show ?thesis using that(1) by (simp add: nat_str_zero)
next
  case False
  then have "hd (nat_str n) \<noteq> CHR ''0''" by (simp add: nat_str_hd)
  then show ?thesis
    using that(2) hd_nat_str_digit [of n] by (cases "nat_str n") simp_all
qed

lemma int_part_nat_str: "delim r \<Longrightarrow> int_part (nat_str n @ r) = Some (nat_str n, r)"
proof -
  assume r: "delim r"
  have t: "takeWhile is_digit r = []" "dropWhile is_digit r = r"
    using r by (cases r; auto dest: delim_not_digit)+
  show ?thesis
  proof (cases rule: nat_str_cases [of n])
    case 1
    then show ?thesis by (simp add: int_part_def)
  next
    case 2
    have "takeWhile is_digit (nat_str n @ r) = nat_str n @ takeWhile is_digit r"
      by (rule takeWhile_append2) (rule nat_str_digits)
    moreover have "dropWhile is_digit (nat_str n @ r) = dropWhile is_digit r"
      by (rule dropWhile_append2) (rule nat_str_digits)
    ultimately have "takeWhile is_digit (nat_str n @ r) = nat_str n" "dropWhile is_digit (nat_str n @ r) = r"
      by (simp_all only: t append_Nil2)
    with 2 show ?thesis by (simp add: int_part_def)
  qed
qed

lemma startswith_Cons: "startswith (c # s) (p # ps) \<longleftrightarrow> c = p \<and> startswith s ps"
  by (simp add: startswith_def)

lemma startswith_Nil [simp]: "startswith s []"
  by (simp add: startswith_def)

lemma nat_str_not_minus: "\<not> startswith (nat_str n @ r) ''-''"
  using hd_nat_str_digit [of n]
  by (cases "nat_str n") (auto simp: startswith_Cons is_digit_def)

lemma scan_number_int: "delim r \<Longrightarrow> scan_number (int_str i @ r) = Some (PInt i, r)"
proof (cases "i < 0")
  case True
  assume r: "delim r"
  from True show ?thesis
    by (simp add: int_str_def scan_number_def Let_def startswith_Cons int_part_nat_str r delim_scan)
next
  case False
  assume r: "delim r"
  from False show ?thesis
    by (simp add: int_str_def scan_number_def Let_def nat_str_not_minus int_part_nat_str r delim_scan)
qed

lemma int_str_head:
  obtains c s where "int_str i = c # s" "is_digit c \<or> c = CHR ''-''"
  using hd_nat_str_digit [of "nat i"]
  by (cases "i < 0"; cases "nat_str (nat i)") (auto simp: int_str_def)

lemma skip_ws_id: "\<not> json_ws c \<Longrightarrow> skip_ws (c # s) = c # s"
  by (simp add: skip_ws_def)

lemma not_ws [simp]:
  "\<not> json_ws dquote" "\<not> json_ws (CHR ''['')" "\<not> json_ws (CHR ''{'')" "\<not> json_ws (CHR '']'')"
  "\<not> json_ws (CHR ''}'')" "\<not> json_ws (CHR '','')" "\<not> json_ws (CHR '':'')" "\<not> json_ws (CHR ''n'')"
  "\<not> json_ws (CHR ''t'')" "\<not> json_ws (CHR ''f'')" "\<not> json_ws (CHR ''-'')"
  by code_simp+

lemma digit_not_special:
  "is_digit c \<Longrightarrow> \<not> json_ws c \<and> c \<noteq> dquote \<and> c \<noteq> CHR ''['' \<and> c \<noteq> CHR ''{'' \<and> c \<noteq> CHR '']''
     \<and> c \<noteq> CHR ''n'' \<and> c \<noteq> CHR ''t'' \<and> c \<noteq> CHR ''f''"
  by (auto simp: is_digit_def json_ws_def quote_chars)

lemma dquote_neq [simp]:
  "dquote \<noteq> CHR '']''" "dquote \<noteq> CHR ''}''" "CHR ''['' \<noteq> dquote" "CHR ''{'' \<noteq> dquote" "CHR ''n'' \<noteq> dquote"
  "CHR ''t'' \<noteq> dquote" "CHR ''f'' \<noteq> dquote" "CHR ''-'' \<noteq> dquote" "dquote \<noteq> CHR ''-''"
  by code_simp+

lemma dump_raw_head_ex:
  "wf_json v \<Longrightarrow> \<exists>c s. dump_raw asc v = c # s \<and> \<not> json_ws c \<and> c \<noteq> CHR '']''"
proof (cases v)
  case (PInt i)
  obtain c s where "int_str i = c # s" "is_digit c \<or> c = CHR ''-''" by (rule int_str_head)
  with PInt show ?thesis using digit_not_special [of c] by auto
qed (simp_all add: quote_def split: list.splits)

lemma dump_raw_head:
  assumes "wf_json v"
  obtains c s where "dump_raw asc v = c # s" "\<not> json_ws c" "c \<noteq> CHR '']''"
  using dump_raw_head_ex [OF assms] by blast

lemma parse_value_int:
  assumes "delim r" "length (int_str i) \<le> n"
  shows "parse_value n (int_str i @ r) = Some (PInt i, r)"
proof -
  obtain c s where cs: "int_str i = c # s" "is_digit c \<or> c = CHR ''-''" by (rule int_str_head)
  then have ne: "c \<noteq> dquote" "c \<noteq> CHR ''{''" "c \<noteq> CHR ''[''" "c \<noteq> CHR ''n''" "c \<noteq> CHR ''t''" "c \<noteq> CHR ''f''"
    using digit_not_special [of c] by auto
  from cs assms(2) obtain m where n: "n = Suc m" by (cases n) auto
  have sn: "scan_number (c # s @ r) = Some (PInt i, r)"
    using scan_number_int [OF assms(1), of i] cs by simp
  show ?thesis
    unfolding n cs(1) append_Cons parse_value.simps list.case
    by (simp only: ne if_False startswith_Cons simp_thms sn option.case)
qed

lemma parse_value_str:
  assumes "length (quote asc s) \<le> n"
  shows "parse_value n (quote asc s @ r) = Some (PStr s, r)"
proof -
  from assms obtain m where "n = Suc m" by (cases n) (auto simp: quote_def)
  then show ?thesis by (simp add: quote_def scan_string_quote)
qed

lemma wf_json_pairs_keys: "wf_json_pairs d \<Longrightarrow> (k, v) \<in> set d \<Longrightarrow> is_str k"
  by (induction d) auto

lemma assoc_put_new: "k \<notin> set (map fst acc) \<Longrightarrow> assoc_put k v acc = acc @ [(k, v)]"
  by (induction acc) auto

text \<open>One lemma per construct: the reader undoes the writer on a list, on the elements after the
  opening bracket, on an object and on its members, given that it does so on the parts.\<close>

lemma parse_value_list:
  assumes w: "wf_json_list (x # ys)" and n: "length (dump_raw asc (PList (x # ys))) \<le> n"
    and IH: "\<And>m. length (dump_elems asc (x # ys)) \<le> m \<Longrightarrow>
       parse_elems m (dump_elems asc (x # ys) @ r) = Some (x # ys, r)"
  shows "parse_value n (dump_raw asc (PList (x # ys)) @ r) = Some (PList (x # ys), r)"
proof -
  have wx: "wf_json x" using w by simp
  obtain c s where cs: "dump_raw asc x = c # s" "\<not> json_ws c" "c \<noteq> CHR '']''"
    using dump_raw_head [OF wx] .
  then obtain s' where el: "dump_elems asc (x # ys) = c # s'" by simp
  obtain m where n: "n = Suc m" and m: "length (dump_elems asc (x # ys)) \<le> m"
    using n by (cases n) auto
  have "parse_elems m (c # s' @ r) = Some (x # ys, r)" using IH [OF m] unfolding el by simp
  moreover have "dump_raw asc (PList (x # ys)) = CHR ''['' # c # s'" using el by simp
  ultimately show ?thesis using cs by (simp add: n skip_ws_id)
qed

lemma parse_elems_step:
  assumes w: "wf_json_list (x # xs)" and n: "length (dump_elems asc (x # xs)) \<le> n"
    and IH1: "\<And>m t. length (dump_raw asc x) \<le> m \<Longrightarrow> delim t \<Longrightarrow>
       parse_value m (dump_raw asc x @ t) = Some (x, t)"
    and IH2: "\<And>m. xs \<noteq> [] \<Longrightarrow> length (dump_elems asc xs) \<le> m \<Longrightarrow>
       parse_elems m (dump_elems asc xs @ r) = Some (xs, r)"
  shows "parse_elems n (dump_elems asc (x # xs) @ r) = Some (x # xs, r)"
proof -
  have "length (dump_raw asc x) < n" using n by (auto split: list.splits)
  then obtain m where n': "n = Suc m" and m: "length (dump_raw asc x) \<le> m" by (cases n) auto
  show ?thesis
  proof (cases xs)
    case Nil
    with IH1 [OF m] show ?thesis by (simp add: n' skip_ws_id)
  next
    case (Cons y ys)
    then have "wf_json y" using w by simp
    then obtain c s where cs: "dump_raw asc y = c # s" "\<not> json_ws c" using dump_raw_head by metis
    then obtain s' where el: "dump_elems asc xs = c # s'" using Cons by simp
    have "parse_elems m (dump_elems asc xs @ r) = Some (xs, r)"
      using IH2 [of m] n Cons by (simp add: n')
    moreover have "parse_value m (dump_raw asc x @ CHR '','' # dump_elems asc xs @ r)
        = Some (x, CHR '','' # dump_elems asc xs @ r)"
      using IH1 [OF m] by simp
    moreover have "dump_elems asc (x # xs) = dump_raw asc x @ CHR '','' # dump_elems asc xs"
      using Cons by simp
    ultimately show ?thesis using cs(2) unfolding el by (simp add: n' skip_ws_id)
  qed
qed

lemma parse_value_dict:
  assumes n: "length (dump_raw asc (PDict (p # d))) \<le> n"
    and IH: "\<And>m. length (dump_members asc (p # d)) \<le> m \<Longrightarrow>
       parse_members m [] (dump_members asc (p # d) @ r) = Some (p # d, r)"
  shows "parse_value n (dump_raw asc (PDict (p # d)) @ r) = Some (PDict (p # d), r)"
proof -
  obtain s' where el: "dump_members asc (p # d) = dquote # s'" by (cases p) (simp add: quote_def)
  obtain m where n': "n = Suc m" and m: "length (dump_members asc (p # d)) \<le> m"
    using n by (cases n) auto
  have "parse_members m [] (dquote # s' @ r) = Some (p # d, r)" using IH [OF m] unfolding el by simp
  moreover have "dump_raw asc (PDict (p # d)) = CHR ''{'' # dquote # s'" using el by simp
  ultimately show ?thesis by (simp add: n' skip_ws_id)
qed

lemma parse_members_step:
  assumes w: "wf_json v" "is_str k" and new: "k \<notin> set (map fst acc)"
    and n: "length (dump_members asc ((k, v) # d)) \<le> n"
    and IH1: "\<And>m t. length (dump_raw asc v) \<le> m \<Longrightarrow> delim t \<Longrightarrow>
       parse_value m (dump_raw asc v @ t) = Some (v, t)"
    and IH2: "\<And>m. d \<noteq> [] \<Longrightarrow> length (dump_members asc d) \<le> m \<Longrightarrow>
       parse_members m (acc @ [(k, v)]) (dump_members asc d @ r) = Some (acc @ (k, v) # d, r)"
  shows "parse_members n acc (dump_members asc ((k, v) # d) @ r) = Some (acc @ (k, v) # d, r)"
proof -
  obtain key where k: "k = PStr key" using w(2) by (cases k) (auto simp: is_str_def)
  have "length (dump_raw asc v) < n" using n by (auto split: list.splits)
  then obtain m where n': "n = Suc m" and m: "length (dump_raw asc v) \<le> m" by (cases n) auto
  obtain c s where cs: "dump_raw asc v = c # s" "\<not> json_ws c" using dump_raw_head [OF w(1)] by metis
  have val: "parse_value m (c # s @ t) = Some (v, t)" if "delim t" for t
    using IH1 [OF m that] cs by simp
  show ?thesis
  proof (cases d)
    case Nil
    then show ?thesis using cs val [of "CHR ''}'' # r"] new
      by (simp add: n' k quote_def key_text_def scan_string_quote skip_ws_id assoc_put_new)
  next
    case (Cons p d')
    obtain s' where el: "dump_members asc d = dquote # s'" using Cons by (cases p) (simp add: quote_def)
    have "length (dump_members asc d) \<le> m" using n Cons n' by simp
    then have "parse_members m (acc @ [(k, v)]) (dump_members asc d @ r) = Some (acc @ (k, v) # d, r)"
      using IH2 Cons by simp
    then show ?thesis using cs val [of "CHR '','' # dump_members asc d @ r"] el new Cons
      by (simp add: n' k quote_def key_text_def scan_string_quote skip_ws_id assoc_put_new)
  qed
qed

lemma parse_dump:
  "wf_json v \<Longrightarrow> delim r \<Longrightarrow> length (dump_raw asc v) \<le> n \<Longrightarrow>
     parse_value n (dump_raw asc v @ r) = Some (v, r)"
  "wf_json_list xs \<Longrightarrow> xs \<noteq> [] \<Longrightarrow> length (dump_elems asc xs) \<le> n \<Longrightarrow>
     parse_elems n (dump_elems asc xs @ r) = Some (xs, r)"
  "wf_json_pairs d \<Longrightarrow> d \<noteq> [] \<Longrightarrow> distinct (map fst (acc @ d)) \<Longrightarrow> length (dump_members asc d) \<le> n \<Longrightarrow>
     parse_members n acc (dump_members asc d @ r) = Some (acc @ d, r)"
proof (induction asc v and asc xs and asc d arbitrary: n r and n r and n r acc
    rule: dump_raw_dump_elems_dump_members.induct)
  case (1 asc)
  then show ?case by (cases n) (simp_all add: startswith_Cons)
next
  case (2 asc b)
  then show ?case by (cases b; cases n) (simp_all add: startswith_Cons)
next
  case (3 asc i)
  then show ?case by (simp add: parse_value_int)
next
  case (5 asc s)
  then show ?case by (simp add: parse_value_str)
next
  case (6 asc xs)
  show ?case
  proof (cases xs)
    case Nil
    with 6 show ?thesis by (cases n) (simp_all add: skip_ws_id)
  next
    case (Cons x ys)
    show ?thesis unfolding Cons
      by (rule parse_value_list) (use 6 Cons in \<open>simp_all del: dump_elems.simps\<close>)
  qed
next
  case (7 asc d)
  show ?case
  proof (cases d)
    case Nil
    with 7 show ?thesis by (cases n) (simp_all add: skip_ws_id)
  next
    case (Cons p d')
    show ?thesis unfolding Cons
      by (rule parse_value_dict) (use 7 Cons in \<open>simp_all del: dump_members.simps\<close>)
  qed
next
  case (10 asc x xs)
  show ?case by (rule parse_elems_step) (use 10 in \<open>auto simp: neq_Nil_conv simp del: dump_elems.simps\<close>)
next
  case (12 asc k v d)
  show ?case
    by (rule parse_members_step) (use 12 in \<open>auto simp: neq_Nil_conv simp del: dump_members.simps\<close>)
qed simp_all

section \<open>Sorted keys\<close>

lemma keys_canon_pairs [simp]: "map fst (canon_pairs d) = map fst d"
  by (induction d) auto

lemma wf_json_pairs_iff: "wf_json_pairs d \<longleftrightarrow> (\<forall>(k, v) \<in> set d. is_str k \<and> wf_json v)"
  by (induction d) auto

lemma distinct_fst_sort_key [simp]:
  "distinct (map fst (sort_key f d)) \<longleftrightarrow> distinct (map fst d)"
proof -
  have "mset (map fst (sort_key f d)) = mset (map fst d)" by simp
  then show ?thesis by (rule mset_eq_imp_distinct_iff)
qed

lemma wf_json_canon:
  "wf_json v \<Longrightarrow> wf_json (canon v)"
  "wf_json_list xs \<Longrightarrow> wf_json_list (canon_list xs)"
  "wf_json_pairs d \<Longrightarrow> wf_json_pairs (canon_pairs d)"
proof (induction v and xs and d rule: canon_canon_list_canon_pairs.induct)
  case (2 d)
  have "distinct (map fst (sort_key (\<lambda>p. key_text (fst p)) (canon_pairs d)))"
    using 2 by (simp add: distinct_fst_sort_key)
  with 2 show ?case by (auto simp: wf_json_pairs_iff)
qed auto

lemma json_loads_dumps_ws:
  assumes "wf_json v" "list_all json_ws w"
  shows "json_loads (json_dumps asc v @ w) = Some (canon v)"
proof -
  have v: "wf_json (canon v)" using assms(1) by (rule wf_json_canon)
  obtain c s where cs: "dump_raw asc (canon v) = c # s" "\<not> json_ws c"
    using dump_raw_head [OF v] by metis
  have w: "delim w" "skip_ws w = []" using assms(2) by (cases w; simp add: delim_def skip_ws_def list_all_iff)+
  have "parse_value (Suc (length (c # s @ w))) ((c # s) @ w) = Some (canon v, w)"
    using parse_dump(1) [OF v w(1), of asc "Suc (length (c # s @ w))"] cs by (simp del: parse_value.simps)
  then show ?thesis
    unfolding json_loads_def json_dumps_def cs(1) append_Cons skip_ws_id [OF cs(2)] option.case prod.case
    using w(2) by simp
qed

lemma json_loads_dumps: "wf_json v \<Longrightarrow> json_loads (json_dumps asc v) = Some (canon v)"
  using json_loads_dumps_ws [of v "[]" asc] by simp

lemma json_dumps_inject:
  assumes "wf_json v" "wf_json w"
  shows "json_dumps asc v = json_dumps asc w \<longleftrightarrow> canon v = canon w"
  by (metis json_loads_dumps [OF assms(1)] json_loads_dumps [OF assms(2)] json_dumps_def option.inject)

lemma key_text_inj: "inj_on key_text {k. is_str k}"
  by (auto simp: inj_on_def is_str_def key_text_def split: pyval.splits)

lemma sort_pairs_perm:
  assumes "mset d = mset e" "distinct (map fst d)" "\<forall>k \<in> set (map fst d). is_str k"
  shows "sort_key (\<lambda>p. key_text (fst p)) d = sort_key (\<lambda>p. key_text (fst p)) e"
proof (rule sort_key_inj_key_eq)
  show "mset d = mset (sort_key (\<lambda>p. key_text (fst p)) e)" using assms(1) by simp
  show "inj_on (\<lambda>p. key_text (fst p)) (set d)"
    using assms(2,3) key_text_inj
    by (auto simp: inj_on_def distinct_map)
  show "sorted (map (\<lambda>p. key_text (fst p)) (sort_key (\<lambda>p. key_text (fst p)) e))" by simp
qed

lemma mset_canon_pairs: "mset (canon_pairs d) = image_mset (\<lambda>(k, v). (k, canon v)) (mset d)"
  by (induction d) auto

lemma canon_perm:
  assumes "mset d = mset e" "wf_json (PDict d)"
  shows "canon (PDict d) = canon (PDict e)"
proof -
  have "mset (canon_pairs d) = mset (canon_pairs e)" using assms(1) by (simp add: mset_canon_pairs)
  then show ?thesis using assms(2)
    by (force simp: wf_json_pairs_iff intro!: sort_pairs_perm)
qed

lemma dget_canon:
  assumes "wf_json (PDict d)" "canon (PDict d) = PDict e"
  shows "dget e k = map_option canon (dget d k)"
proof -
  have "mset e = mset (canon_pairs d)" and d: "distinct (map fst d)" using assms by auto
  then have "distinct (map fst e)" and s: "set e = set (canon_pairs d)"
    by (metis keys_canon_pairs mset_map mset_eq_imp_distinct_iff, metis set_mset_mset)
  then have "map_of e = map_of (canon_pairs d)"
    by (metis d keys_canon_pairs map_of_inject_set)
  moreover have "map_of (canon_pairs d) q = map_option canon (map_of d q)" for q
    by (induction d) auto
  ultimately show ?thesis by (simp add: dget_def)
qed

end
