(* ===== verification/Canonical_Json.thy ===== *)
theory Canonical_Json
  imports Json_Text
begin

text \<open>
  \<open>nth_dao/canonical_json.py\<close>: the serializer under every signed or hashed object. The
  validator walks the value and reports the JSON path of the first thing it refuses; the
  serializer refuses a root that is not a dict, validates, and writes the sorted compact
  text as UTF-8. The normalizer turns the floats of old event payloads into plain decimal text.
  The theorems: the validator accepts exactly the clean trees, two accepted
  objects have the same bytes exactly when they are the same object up to key order, and the
  bytes parse back to the object.
\<close>

section \<open>The validator\<close>

function (sequential) validate_canonical_json_value :: "pyval \<Rightarrow> string \<Rightarrow> unit res"
  and validate_items :: "pyval list \<Rightarrow> nat \<Rightarrow> string \<Rightarrow> unit res"
  and validate_members :: "pydict \<Rightarrow> string \<Rightarrow> unit res"
where
  "validate_canonical_json_value (PFloat _) path =
     raise TypeError (''canonical_json rejects float at '' @ path @ ''; use int or decimal string'')"
| "validate_canonical_json_value (PList xs) path = validate_items xs 0 path"
| "validate_canonical_json_value (PDict d) path = validate_members d path"
| "validate_canonical_json_value (POther n s) path =
     raise TypeError (''canonical_json does not support '' @ n @ '' at '' @ path)"
| "validate_canonical_json_value _ path = Inr ()"
| "validate_items [] idx path = Inr ()"
| "validate_items (item # items) idx path =
     bindR (validate_canonical_json_value item (path @ ''['' @ nat_str idx @ '']''))
       (\<lambda>_. validate_items items (idx + 1) path)"
| "validate_members [] path = Inr ()"
| "validate_members ((key, item) # d) path =
     (case key of
        PStr k \<Rightarrow> bindR (validate_canonical_json_value item (path @ ''.'' @ k))
                    (\<lambda>_. validate_members d path)
      | _ \<Rightarrow> raise TypeError (''canonical_json object keys must be strings at '' @ path @ ''; got ''
               @ type_name key))"
  by pat_completeness auto

termination
  by (relation "measure (\<lambda>x. case x of
        Inl (v, _) \<Rightarrow> size v
      | Inr (Inl (xs, _)) \<Rightarrow> size_list size xs
      | Inr (Inr (d, _)) \<Rightarrow> size_list (size_prod size size) d)") auto

section \<open>The serializer\<close>

definition canonical_json :: "pyval \<Rightarrow> bytes res" where
  "canonical_json data =
     (if \<not> is_dict data
      then raise TypeError (''canonical_json root must be a dict, got '' @ type_name data)
      else bindR (validate_canonical_json_value data ''$'')
             (\<lambda>_. Inr (utf8 (json_dumps False data))))"

section \<open>The normalizer\<close>

text \<open>\<open>format(Decimal(text), "f")\<close> for the text \<open>repr\<close> gives a finite float: the coefficient's
  digits without leading zeros, the decimal exponent, and the point placed without an exponent.\<close>

definition drop_zeros :: "string \<Rightarrow> string" where
  "drop_zeros ds = (let r = dropWhile (\<lambda>c. c = CHR ''0'') ds in if r = [] then ''0'' else r)"

definition decimal_parts :: "string \<Rightarrow> bool \<times> string \<times> int" where
  "decimal_parts text =
     (let neg = startswith text ''-'';
          body = (if neg then drop 1 text else text);
          mant = takeWhile (\<lambda>c. c \<noteq> CHR ''e'') body;
          etext = drop (length mant + 1) body;
          e = (if etext = [] then 0
               else if startswith etext ''-'' then - int (digits_val (drop 1 etext))
               else int (digits_val (filter is_digit etext)));
          ip = takeWhile (\<lambda>c. c \<noteq> CHR ''.'') mant;
          fp = drop (length ip + 1) mant
      in (neg, drop_zeros (ip @ fp), e - int (length fp)))"

definition decimal_fixed :: "string \<Rightarrow> string" where
  "decimal_fixed text =
     (case decimal_parts text of (neg, ds, e) \<Rightarrow>
        let dotplace = e + int (length ds);
            intpart = (if dotplace \<le> 0 then ''0''
                       else if dotplace > int (length ds) then ds @ replicate (nat (dotplace - int (length ds))) (CHR ''0'')
                       else take (nat dotplace) ds);
            fracpart = (if dotplace < 0 then replicate (nat (- dotplace)) (CHR ''0'') @ ds
                        else drop (nat dotplace) ds)
        in (if neg then ''-'' else []) @ intpart @ (if fracpart = [] then [] else CHR ''.'' # fracpart))"

function (sequential) normalize_for_canonical_json :: "pyval \<Rightarrow> string \<Rightarrow> pyval res"
  and normalize_items :: "pyval list \<Rightarrow> nat \<Rightarrow> string \<Rightarrow> pyval list res"
  and normalize_members :: "pydict \<Rightarrow> string \<Rightarrow> pydict res"
where
  "normalize_for_canonical_json (PFloat f) path =
     (case f of
        FFin _ text \<Rightarrow> Inr (PStr (decimal_fixed text))
      | _ \<Rightarrow> raise ValueError (''non-finite float at '' @ path))"
| "normalize_for_canonical_json (PList xs) path =
     bindR (normalize_items xs 0 path) (\<lambda>ys. Inr (PList ys))"
| "normalize_for_canonical_json (PDict d) path =
     bindR (normalize_members d path) (\<lambda>e. Inr (PDict e))"
| "normalize_for_canonical_json (POther n s) path =
     raise TypeError (''cannot normalize '' @ n @ '' for canonical JSON at '' @ path)"
| "normalize_for_canonical_json v path = Inr v"
| "normalize_items [] idx path = Inr []"
| "normalize_items (item # items) idx path =
     bindR (normalize_for_canonical_json item (path @ ''['' @ nat_str idx @ '']''))
       (\<lambda>y. bindR (normalize_items items (idx + 1) path) (\<lambda>ys. Inr (y # ys)))"
| "normalize_members [] path = Inr []"
| "normalize_members ((key, item) # d) path =
     (case key of
        PStr k \<Rightarrow> bindR (normalize_for_canonical_json item (path @ ''.'' @ k))
                    (\<lambda>y. bindR (normalize_members d path) (\<lambda>e. Inr ((key, y) # e)))
      | _ \<Rightarrow> raise TypeError (''canonical JSON object keys must be strings at '' @ path @ ''; got ''
               @ type_name key))"
  by pat_completeness auto

termination
  by (relation "measure (\<lambda>x. case x of
        Inl (v, _) \<Rightarrow> size v
      | Inr (Inl (xs, _)) \<Rightarrow> size_list size xs
      | Inr (Inr (d, _)) \<Rightarrow> size_list (size_prod size size) d)") auto

section \<open>What a Python dict always satisfies\<close>

text \<open>Every dict in the tree has each key once. This holds of every Python value; the model's
  association lists can violate it, so theorems carry it as a hypothesis.\<close>

function (sequential) keys_once :: "pyval \<Rightarrow> bool"
  and keys_once_list :: "pyval list \<Rightarrow> bool"
  and keys_once_pairs :: "pydict \<Rightarrow> bool"
where
  "keys_once (PList xs) = keys_once_list xs"
| "keys_once (PDict d) = (distinct (map fst d) \<and> keys_once_pairs d)"
| "keys_once _ = True"
| "keys_once_list [] = True"
| "keys_once_list (x # xs) = (keys_once x \<and> keys_once_list xs)"
| "keys_once_pairs [] = True"
| "keys_once_pairs ((k, v) # d) = (keys_once v \<and> keys_once_pairs d)"
  by pat_completeness auto

termination
  by (relation "measure (\<lambda>x. case x of
        Inl v \<Rightarrow> size v
      | Inr (Inl xs) \<Rightarrow> size_list size xs
      | Inr (Inr d) \<Rightarrow> size_list (size_prod size size) d)") auto

text \<open>Whatever \<open>json.loads\<close> returns has each key once.\<close>

lemma keys_once_pairs_assoc_put: "keys_once_pairs d \<Longrightarrow> keys_once v \<Longrightarrow> keys_once_pairs (assoc_put k v d)"
  by (induction d) auto

lemma scan_number_keys_once: "scan_number s = Some (v, r) \<Longrightarrow> keys_once v"
  by (auto simp: scan_number_def Let_def split: option.splits if_splits prod.splits)

lemma parse_keys_once:
  "parse_value n s = Some (v, r) \<Longrightarrow> keys_once v"
  "parse_elems n s = Some (xs, r) \<Longrightarrow> keys_once_list xs"
  "keys_once_pairs acc \<Longrightarrow> distinct (map fst acc) \<Longrightarrow> parse_members n acc s = Some (d, r) \<Longrightarrow>
    keys_once_pairs d \<and> distinct (map fst d)"
proof (induction n s and n s and n acc s arbitrary: v r and xs r and d r rule: parse_value_parse_elems_parse_members.induct)
  case (2 n s)
  show ?case
  proof (cases s)
    case Nil
    then show ?thesis using 2 by simp
  next
    case (Cons c t)
    consider "c = dquote" | "c = CHR ''{''" | "c = CHR ''[''" | "c \<noteq> dquote \<and> c \<noteq> CHR ''{'' \<and> c \<noteq> CHR ''[''" by blast
    then show ?thesis
    proof cases
      case 1
      then show ?thesis using "2.prems" Cons by auto
    next
      case b: 2
      then show ?thesis using "2.prems" "2.IH"(1) [OF Cons] Cons by (auto split: list.splits if_splits)
    next
      case 3
      then show ?thesis using "2.prems" "2.IH"(2) [OF Cons] Cons by (auto split: list.splits if_splits)
    next
      case 4
      then show ?thesis using "2.prems" scan_number_keys_once [of s] Cons by (auto split: if_splits option.splits)
    qed
  qed
next
  case (4 n s)
  then show ?case by (auto split: option.splits if_splits list.splits)
next
  case (6 n acc s)
  then show ?case
    by (auto simp: keys_once_pairs_assoc_put distinct_assoc_put Let_def split: option.splits if_splits list.splits)
qed auto

lemma json_loads_keys_once: "json_loads s = Some v \<Longrightarrow> keys_once v"
  using parse_keys_once(1) unfolding json_loads_def by (fastforce split: option.splits if_splits simp del: parse_value.simps)
section \<open>Properties\<close>

lemma is_str_cases: "is_str k \<longleftrightarrow> (\<exists>s. k = PStr s)"
  by (cases k) (auto simp: is_str_def)

lemma validate_iff_wf:
  "keys_once v \<Longrightarrow> validate_canonical_json_value v path = Inr () \<longleftrightarrow> wf_json v"
  "keys_once_list xs \<Longrightarrow> validate_items xs idx path = Inr () \<longleftrightarrow> wf_json_list xs"
  "keys_once_pairs d \<Longrightarrow> validate_members d path = Inr () \<longleftrightarrow> wf_json_pairs d"
proof (induction v path and xs idx path and d path
    rule: validate_canonical_json_value_validate_items_validate_members.induct)
qed (auto simp: bindR_Inr_iff is_str_def split: pyval.splits)

lemma wf_keys_once:
  "wf_json v \<Longrightarrow> keys_once v"
  "wf_json_list xs \<Longrightarrow> keys_once_list xs"
  "wf_json_pairs d \<Longrightarrow> keys_once_pairs d"
  by (induction v and xs and d rule: wf_json_wf_json_list_wf_json_pairs.induct) auto

lemma validate_error:
  "validate_canonical_json_value v path = Inl e \<Longrightarrow> exn_cls e = TypeError"
  "validate_items xs idx path = Inl e \<Longrightarrow> exn_cls e = TypeError"
  "validate_members d path = Inl e \<Longrightarrow> exn_cls e = TypeError"
proof (induction v path and xs idx path and d path
    rule: validate_canonical_json_value_validate_items_validate_members.induct)
qed (auto simp: bindR_Inl_iff split: pyval.splits)

lemma canonical_json_wf: "wf_json (PDict d) \<Longrightarrow> canonical_json (PDict d) = Inr (utf8 (json_dumps False (PDict d)))"
  using validate_iff_wf(1) [of "PDict d" "''$''"] wf_keys_once(1) [of "PDict d"]
  by (simp add: canonical_json_def is_dict_def)

lemma canonical_json_Inr:
  assumes "canonical_json v = Inr bs" "keys_once v"
  obtains d where "v = PDict d" "wf_json v" "bs = utf8 (json_dumps False v)"
proof -
  obtain d where "v = PDict d" using assms(1)
    by (cases v) (auto simp: canonical_json_def is_dict_def)
  moreover have "validate_canonical_json_value v ''$'' = Inr ()" and bs: "bs = utf8 (json_dumps False v)"
    using assms(1) by (auto simp: canonical_json_def bindR_Inr_iff split: if_splits)
  ultimately show thesis using that validate_iff_wf(1) assms(2) by blast
qed

text \<open>Canonical bytes identify the object: for two clean objects (no floats, no foreign
  objects, string keys), the serializer's outputs agree exactly when the objects are equal up
  to the order of keys, at every level. A signature or hash over the bytes is a signature or
  hash over the object.\<close>

lemma canonical_json_injective:
  assumes "keys_once v" "keys_once w" "canonical_json v = Inr a" "canonical_json w = Inr b"
  shows "a = b \<longleftrightarrow> canon v = canon w"
proof -
  have "wf_json v" "a = utf8 (json_dumps False v)" using canonical_json_Inr [OF assms(3,1)] by blast+
  moreover have "wf_json w" "b = utf8 (json_dumps False w)" using canonical_json_Inr [OF assms(4,2)] by blast+
  ultimately show ?thesis by (simp add: json_dumps_inject)
qed

lemma canonical_json_injective_demo:
  "(ascii_bytes ''{'' @ 34 # ascii_bytes ''a'' @ 34 # ascii_bytes '':1}'' =
    ascii_bytes ''{'' @ 34 # ascii_bytes ''a'' @ 34 # ascii_bytes '':2}'')
   \<longleftrightarrow> canon (PDict [(PStr ''a'', PInt 1)]) = canon (PDict [(PStr ''a'', PInt 2)])"
  by (rule canonical_json_injective) code_simp+

text \<open>Key order does not matter: any permutation of the members of an accepted object gives
  the same bytes.\<close>

lemma canonical_json_key_order:
  assumes "keys_once (PDict d)" "mset e = mset d" "canonical_json (PDict d) = Inr bs"
  shows "canonical_json (PDict e) = Inr bs"
proof -
  have wd: "wf_json (PDict d)" and bs: "bs = utf8 (json_dumps False (PDict d))"
    using canonical_json_Inr [OF assms(3,1)] by blast+
  have "distinct (map fst e)" using wd assms(2) by (metis wf_json.simps(4) mset_map mset_eq_imp_distinct_iff)
  then have "wf_json (PDict e)"
    using wd mset_eq_setD [OF assms(2)] by (auto simp: wf_json_pairs_iff)
  then show ?thesis
    using canon_perm [OF assms(2) [symmetric] wd] bs by (simp add: canonical_json_wf json_dumps_def)
qed

lemma canonical_json_key_order_demo:
  "canonical_json (PDict [(PStr ''b'', PNone), (PStr ''a'', PInt 1)]) =
   canonical_json (PDict [(PStr ''a'', PInt 1), (PStr ''b'', PNone)])"
proof -
  have "canonical_json (PDict [(PStr ''a'', PInt 1), (PStr ''b'', PNone)]) =
      Inr (utf8 (json_dumps False (PDict [(PStr ''a'', PInt 1), (PStr ''b'', PNone)])))"
    by (simp add: canonical_json_wf is_str_def)
  then show ?thesis
    using canonical_json_key_order [of "[(PStr ''a'', PInt 1), (PStr ''b'', PNone)]"
        "[(PStr ''b'', PNone), (PStr ''a'', PInt 1)]"]
    by (simp add: add_mset_commute)
qed

text \<open>C36. The bytes parse back: the UTF-8 decoding of the canonical bytes is a JSON document
  that reads as the object itself, keys sorted.\<close>

theorem canonical_json_roundtrip:
  assumes "keys_once v" "canonical_json v = Inr bs"
  shows "\<exists>t. utf8_decode bs = Some t \<and> json_loads t = Some (canon v)"
  by (rule canonical_json_Inr [OF assms(2,1)]) (simp add: json_loads_dumps del: canon.simps)

theorem canonical_json_roundtrip_witness:
  "\<exists>t. utf8_decode (ascii_bytes ''{'' @ 34 # ascii_bytes ''a'' @ 34 # ascii_bytes '':[1,true]}'') = Some t
     \<and> json_loads t = Some (canon (PDict [(PStr ''a'', PList [PInt 1, PBool True])]))"
  by (rule canonical_json_roundtrip) code_simp+

text \<open>The serializer is total: on a Python value it returns bytes exactly when the value is a
  dict with no float, no foreign object and only string keys anywhere, and in every other case
  it raises \<open>TypeError\<close>.\<close>

lemma canonical_json_outcome:
  assumes "keys_once v"
  shows "case canonical_json v of
           Inr bs \<Rightarrow> is_dict v \<and> wf_json v
         | Inl e \<Rightarrow> exn_cls e = TypeError \<and> \<not> (is_dict v \<and> wf_json v)"
  using validate_iff_wf(1) [OF assms, of "''$''"] validate_error(1) [of v "''$''"]
  by (cases "validate_canonical_json_value v ''$''") (auto simp: canonical_json_def)

lemma canonical_json_outcome_demo:
  "case canonical_json (PDict [(PStr ''a'', PFloat FInf)]) of
     Inr bs \<Rightarrow> is_dict (PDict [(PStr ''a'', PFloat FInf)]) \<and> wf_json (PDict [(PStr ''a'', PFloat FInf)])
   | Inl e \<Rightarrow> exn_cls e = TypeError
       \<and> \<not> (is_dict (PDict [(PStr ''a'', PFloat FInf)]) \<and> wf_json (PDict [(PStr ''a'', PFloat FInf)]))"
  by (rule canonical_json_outcome) simp

lemma normalize_keys: "normalize_members d path = Inr e \<Longrightarrow> map fst e = map fst d"
  by (induction d arbitrary: e) (auto simp: bindR_Inr_iff split: pyval.splits)

lemma normalize_wf:
  "keys_once v \<Longrightarrow> normalize_for_canonical_json v path = Inr w \<Longrightarrow> wf_json w"
  "keys_once_list xs \<Longrightarrow> normalize_items xs idx path = Inr ys \<Longrightarrow> wf_json_list ys"
  "keys_once_pairs d \<Longrightarrow> normalize_members d path = Inr e \<Longrightarrow> wf_json_pairs e"
proof (induction v path and xs idx path and d path arbitrary: w and ys and e
    rule: normalize_for_canonical_json_normalize_items_normalize_members.induct)
  case (3 d path)
  then show ?case by (auto simp: bindR_Inr_iff normalize_keys)
qed (auto simp: bindR_Inr_iff is_str_def split: pyfloat.splits pyval.splits)

text \<open>Normalized payloads are always serializable: when the normalizer returns on a dict,
  the canonical serializer accepts the result.\<close>

lemma normalize_then_canonical:
  assumes "keys_once (PDict d)" "normalize_for_canonical_json (PDict d) path = Inr w"
  shows "\<exists>bs. canonical_json w = Inr bs"
proof -
  obtain e where "w = PDict e" using assms(2) by (auto simp: bindR_Inr_iff)
  then show ?thesis using normalize_wf(1) [OF assms] by (metis canonical_json_wf)
qed

lemma normalize_then_canonical_witness:
  "\<exists>bs. canonical_json (PDict [(PStr ''p'', PStr ''0.00001'')]) = Inr bs"
  by (rule normalize_then_canonical [of "[(PStr ''p'', PFloat (FFin (1 / 100000) ''1e-05''))]" "''$''"])
    code_simp+

section \<open>A clean value equals itself\<close>

lemma py_eq_sub_refl:
  "(\<And>k v. (k, v) \<in> set d \<Longrightarrow> py_eq k k \<and> py_eq v v) \<Longrightarrow> set d \<subseteq> set e \<Longrightarrow> py_eq_sub d e"
proof (induction d)
  case (Cons p d)
  obtain k v where p: "p = (k, v)" by fastforce
  have "(k, v) \<in> set e' \<Longrightarrow> py_eq_has k v e'" for e'
    by (induction e') (use Cons.prems(1) [of k v] p in auto)
  then show ?case using Cons p by auto
qed simp

lemma py_eq_refl:
  "wf_json v \<Longrightarrow> py_eq v v"
  "wf_json_list xs \<Longrightarrow> py_eq_list xs xs"
  "wf_json_pairs d \<Longrightarrow> (k, w) \<in> set d \<Longrightarrow> py_eq k k \<and> py_eq w w"
proof (induction v and xs and d arbitrary: and and k w rule: wf_json_wf_json_list_wf_json_pairs.induct)
  case (4 d)
  then show ?case using py_eq_sub_refl [of d d] by auto
qed (auto simp: num_eq_def num_of_def is_str_cases)

end
