(* ===== verification/Base64url.thy ===== *)
theory Base64url
  imports Prelude
begin

text \<open>
  \<open>nth_dao/b64u.py\<close>: base64url without padding. The encoder writes groups of three bytes as four
  characters and strips the padding; the decoder restores the padding and calls
  \<open>base64.b64decode(..., altchars=b"-_", validate=True)\<close>. That call translates
  \<open>-\<close> and \<open>_\<close> to \<open>+\<close> and \<open>/\<close> before reading, so it also reads the two standard characters.
  Padding is read in the last group only, and bits of the last character beyond the last byte
  are dropped, as the library does.
\<close>

definition b64_alphabet :: string where
  "b64_alphabet = ''ABCDEFGHIJKLMNOPQRSTUVWXYZabcdefghijklmnopqrstuvwxyz0123456789-_''"

definition b64_char :: "nat \<Rightarrow> char" where
  "b64_char n = b64_alphabet ! n"

definition b64_val :: "char \<Rightarrow> nat option" where
  "b64_val c = (if c = CHR ''+'' then Some 62 else if c = CHR ''/'' then Some 63
     else map_of (zip b64_alphabet [0..<64]) c)"

fun b64u_encode :: "bytes \<Rightarrow> string" where
  "b64u_encode [] = []"
| "b64u_encode [x] = [b64_char (unat x div 4), b64_char (unat x mod 4 * 16)]"
| "b64u_encode [x, y] =
     [b64_char (unat x div 4), b64_char (unat x mod 4 * 16 + unat y div 16), b64_char (unat y mod 16 * 4)]"
| "b64u_encode (x # y # z # rest) =
     b64_char (unat x div 4) # b64_char (unat x mod 4 * 16 + unat y div 16)
       # b64_char (unat y mod 16 * 4 + unat z div 64) # b64_char (unat z mod 64) # b64u_encode rest"

definition b64_2 :: "nat \<Rightarrow> nat \<Rightarrow> 8 word" where
  "b64_2 a b = word_of_nat (a * 4 + b div 16)"

definition b64_3 :: "nat \<Rightarrow> nat \<Rightarrow> 8 word" where
  "b64_3 b c = word_of_nat (b mod 16 * 16 + c div 4)"

definition b64_4 :: "nat \<Rightarrow> nat \<Rightarrow> 8 word" where
  "b64_4 c d = word_of_nat (c mod 4 * 64 + d)"

abbreviation b64_error :: "'a res" where
  "b64_error \<equiv> raise BinasciiError ''Invalid base64-encoded string''"

fun b64_groups :: "string \<Rightarrow> bytes res" where
  "b64_groups [] = Inr []"
| "b64_groups (a # b # c # d # rest) =
     (case (b64_val a, b64_val b) of
        (Some va, Some vb) \<Rightarrow>
          if d = CHR ''='' \<and> rest = []
          then if c = CHR ''='' then Inr [b64_2 va vb]
               else (case b64_val c of Some vc \<Rightarrow> Inr [b64_2 va vb, b64_3 vb vc] | None \<Rightarrow> b64_error)
          else (case (b64_val c, b64_val d) of
                  (Some vc, Some vd) \<Rightarrow>
                    bindR (b64_groups rest) (\<lambda>bs. Inr (b64_2 va vb # b64_3 vb vc # b64_4 vc vd # bs))
                | _ \<Rightarrow> b64_error)
      | _ \<Rightarrow> b64_error)"
| "b64_groups _ = b64_error"

definition b64u_decode :: "string \<Rightarrow> bytes res" where
  "b64u_decode s =
     (if s = [] then Inr []
      else let padded = s @ replicate ((4 - length s mod 4) mod 4) (CHR ''='')
           in if list_all (\<lambda>c. of_char c < (128 :: nat)) padded then b64_groups padded
              else raise ValueError ''ordinal not in range(128)'')"

section \<open>Round trip\<close>

lemma b64_table: "\<forall>n \<in> set [0..<64]. b64_val (b64_char n) = Some n \<and> b64_char n \<noteq> CHR ''='' \<and> of_char (b64_char n) < (128 :: nat)"
  by code_simp

lemma b64_val_char [simp]: "n < 64 \<Longrightarrow> b64_val (b64_char n) = Some n"
  and b64_char_not_pad [simp]: "n < 64 \<Longrightarrow> b64_char n \<noteq> CHR ''=''"
  and b64_char_ascii [simp]: "n < 64 \<Longrightarrow> of_char (b64_char n) < (128 :: nat)"
  using b64_table by auto

lemma byte_bounds [simp]:
  "unat (x :: 8 word) div 4 < 64" "unat x mod 4 * 16 < 64" "unat x mod 4 * 16 + unat (y :: 8 word) div 16 < 64"
  "unat y mod 16 * 4 < 64" "unat y mod 16 * 4 + unat (z :: 8 word) div 64 < 64" "unat z mod 64 < 64"
  using unat_byte_less [of x] unat_byte_less [of y] unat_byte_less [of z] by auto

lemma b64_join [simp]:
  "b64_2 (unat x div 4) (unat x mod 4 * 16) = x"
  "b64_2 (unat x div 4) (unat x mod 4 * 16 + unat y div 16) = x"
  "b64_3 (unat x mod 4 * 16 + unat y div 16) (unat y mod 16 * 4) = y"
  "b64_3 (unat x mod 4 * 16 + unat y div 16) (unat y mod 16 * 4 + unat z div 64) = y"
  "b64_4 (unat y mod 16 * 4 + unat z div 64) (unat z mod 64) = z"
proof -
  have y: "(unat x mod 4 * 16 + unat y div 16) div 16 = unat x mod 4"
    "(unat x mod 4 * 16 + unat y div 16) mod 16 = unat y div 16"
    using unat_byte_less [of y] by auto
  have z: "(unat y mod 16 * 4 + unat z div 64) div 4 = unat y mod 16"
    "(unat y mod 16 * 4 + unat z div 64) mod 4 = unat z div 64"
    using unat_byte_less [of z] by auto
  show "b64_2 (unat x div 4) (unat x mod 4 * 16) = x"
    "b64_2 (unat x div 4) (unat x mod 4 * 16 + unat y div 16) = x"
    "b64_3 (unat x mod 4 * 16 + unat y div 16) (unat y mod 16 * 4) = y"
    "b64_3 (unat x mod 4 * 16 + unat y div 16) (unat y mod 16 * 4 + unat z div 64) = y"
    "b64_4 (unat y mod 16 * 4 + unat z div 64) (unat z mod 64) = z"
    unfolding b64_2_def b64_3_def b64_4_def y z by simp_all
qed

lemma b64_groups_encode:
  "b64_groups (b64u_encode bs @ replicate ((4 - length (b64u_encode bs) mod 4) mod 4) (CHR ''='')) = Inr bs"
  by (induction bs rule: b64u_encode.induct) (simp_all add: numeral_2_eq_2)

lemma b64u_encode_ascii: "c \<in> set (b64u_encode bs) \<Longrightarrow> of_char c < (128 :: nat)"
  by (induction bs rule: b64u_encode.induct) auto

lemma length_b64u: "length (b64u_encode bs) \<le> 2 * length bs"
  by (induction bs rule: b64u_encode.induct) auto

lemma b64u_decode_encode [simp]: "b64u_decode (b64u_encode bs) = Inr bs"
proof (cases "b64u_encode bs = []")
  case True
  then have "bs = []" by (cases bs rule: b64u_encode.cases) auto
  with True show ?thesis by (simp add: b64u_decode_def)
next
  case False
  then show ?thesis
    by (simp add: b64u_decode_def b64_groups_encode list_all_iff b64u_encode_ascii ball_Un
        set_replicate_conv_if)
qed

interpretation b64u: codec "\<lambda>_. True" b64u_encode b64u_decode
  by unfold_locales simp

text \<open>Base64url round trip: every byte string decodes back from its unpadded encoding, so
  the encoder is injective.\<close>

lemma b64u_roundtrip:
  "b64u_decode (b64u_encode bs) = Inr bs \<and> (b64u_encode bs = b64u_encode cs \<longleftrightarrow> bs = cs)"
  using b64u.dec_enc b64u.enc_inject by blast

text \<open>The decoder reads more texts than the encoder writes: besides the URL-safe alphabet
  it takes \<open>+\<close> and \<open>/\<close>, which its documentation says raise an error, and a last
  character with spare bits set, so one byte string has several texts.\<close>

lemma b64u_decode_not_strict:
  "b64u_decode ''+/+/'' = b64u_decode ''-_-_'' \<and> b64u_decode ''-_-_'' = Inr [251, 255, 191]
   \<and> b64u_decode ''QQ'' = Inr [65] \<and> b64u_decode ''QR'' = Inr [65]"
  by code_simp

end
