(* ===== verification/Did_Key.thy ===== *)
theory Did_Key
  imports Py_Value
begin

text \<open>
  \<open>nth_dao/did_key.py\<close>: base58btc and the \<open>did:key\<close> form of an Ed25519 public key. The loops are
  the code's: repeated division by 58 that prepends characters, and the running sum of the
  reader; leading zero bytes are leading \<open>1\<close> characters. The theorems: the two base58
  functions are inverse bijections between byte strings and alphabet texts, hence a public key
  has exactly one \<open>did:key\<close> string and every accepted string is the encoding of its key.
\<close>

definition b58_alphabet :: string where
  "b58_alphabet = ''123456789ABCDEFGHJKLMNPQRSTUVWXYZabcdefghijkmnopqrstuvwxyz''"

definition b58_char :: "nat \<Rightarrow> char" where
  "b58_char n = b58_alphabet ! n"

definition b58_index :: "char \<Rightarrow> nat option" where
  "b58_index c = map_of (zip b58_alphabet [0..<58]) c"

function b58_loop :: "nat \<Rightarrow> string \<Rightarrow> string" where
  "b58_loop num out = (if 0 < num then b58_loop (num div 58) (b58_char (num mod 58) # out) else out)"
  by pat_completeness auto

termination by (relation "measure fst") auto

declare b58_loop.simps [simp del]

definition b58encode :: "bytes \<Rightarrow> string" where
  "b58encode b =
     (if b = [] then []
      else let n_zero = length (takeWhile (\<lambda>byte. byte = 0) b)
           in replicate n_zero (CHR ''1'') @ b58_loop (from_bytes_big b) [])"

fun b58_sum :: "nat \<Rightarrow> string \<Rightarrow> nat res" where
  "b58_sum num [] = Inr num"
| "b58_sum num (ch # s) =
     (case b58_index ch of
        None \<Rightarrow> raise DIDKeyError (''invalid base58 character '' @ str_repr [ch])
      | Some i \<Rightarrow> b58_sum (num * 58 + i) s)"

definition b58decode :: "string \<Rightarrow> bytes res" where
  "b58decode s =
     (if s = [] then Inr []
      else let n_zero = length (takeWhile (\<lambda>ch. ch = CHR ''1'') s)
           in bindR (b58_sum 0 s) (\<lambda>num.
                let body = (if num = 0 then [] else be_bytes ((bit_length num + 7) div 8) num)
                in Inr (replicate n_zero 0 @ body)))"

section \<open>\<open>did:key\<close>\<close>

definition multicodec_ed25519_pub :: bytes where
  "multicodec_ed25519_pub = [0xed, 0x01]"

definition did_key_prefix :: string where
  "did_key_prefix = ''did:key:''"

definition encode_ed25519_did_key :: "bytes \<Rightarrow> string res" where
  "encode_ed25519_did_key pubkey =
     (if length pubkey \<noteq> 32
      then raise DIDKeyError (''Ed25519 pubkey must be 32 bytes; got '' @ nat_str (length pubkey))
      else Inr (did_key_prefix @ ''z'' @ b58encode (multicodec_ed25519_pub @ pubkey)))"

definition encode_ed25519_did_key_hex :: "string \<Rightarrow> string res" where
  "encode_ed25519_did_key_hex pubkey_hex =
     (case fromhex pubkey_hex of
        Inl e \<Rightarrow> raise DIDKeyError (''pubkey_hex not valid hex: '' @ exn_msg e)
      | Inr pubkey \<Rightarrow> encode_ed25519_did_key pubkey)"

definition decode_ed25519_did_key :: "string \<Rightarrow> bytes res" where
  "decode_ed25519_did_key did =
     (if \<not> startswith did did_key_prefix
      then raise DIDKeyError (''did string must start with '' @ str_repr did_key_prefix @ ''; got '' @ str_repr did)
      else let body = drop (length did_key_prefix) did in
      if \<not> startswith body ''z''
      then raise DIDKeyError (''only base58btc multibase is supported; got '' @ str_repr (take 1 body))
      else bindR (b58decode (drop 1 body)) (\<lambda>raw.
        if take 2 raw \<noteq> multicodec_ed25519_pub
        then raise DIDKeyError (''multicodec prefix must be Ed25519-pub (ed01); got '' @ str_repr (bytes_hex (take 2 raw)))
        else let pubkey = drop 2 raw in
        if length pubkey \<noteq> 32
        then raise DIDKeyError (''decoded pubkey must be 32 bytes; got '' @ nat_str (length pubkey))
        else Inr pubkey))"

definition decode_ed25519_did_key_hex :: "string \<Rightarrow> string res" where
  "decode_ed25519_did_key_hex did = bindR (decode_ed25519_did_key did) (\<lambda>pk. Inr (bytes_hex pk))"

definition is_did_key :: "pyval \<Rightarrow> bool" where
  "is_did_key s = (case s of
     PStr t \<Rightarrow> startswith t did_key_prefix
       \<and> (case decode_ed25519_did_key t of Inr _ \<Rightarrow> True | Inl _ \<Rightarrow> False)
   | _ \<Rightarrow> False)"

text \<open>\<open>s.split(":", 2)\<close> for a text that starts with \<open>did:\<close>: the part up to the next colon and the rest.\<close>

definition parse_did :: "pyval \<Rightarrow> (string \<times> string) res" where
  "parse_did s = (case s of
     PStr t \<Rightarrow>
       if \<not> startswith t ''did:'' then raise DIDKeyError (''not a DID string: '' @ str_repr t)
       else let rest = drop 4 t; mthd = takeWhile (\<lambda>c. c \<noteq> CHR '':'') rest in
       if CHR '':'' \<notin> set rest then raise DIDKeyError (''DID must have format did:<method>:<id>; got '' @ str_repr t)
       else let msid = drop (length mthd + 1) rest in
       if mthd = [] \<or> msid = [] then raise DIDKeyError (''DID method or id is empty: '' @ str_repr t)
       else Inr (mthd, msid)
   | _ \<Rightarrow> raise DIDKeyError (''not a DID string: '' @ py_repr s))"

section \<open>Base58 is a bijection\<close>

lemma b58_table: "\<forall>n \<in> set [0..<58]. b58_index (b58_char n) = Some n"
  by code_simp

lemma b58_index_char [simp]: "n < 58 \<Longrightarrow> b58_index (b58_char n) = Some n"
  using b58_table by simp

lemma b58_index_Some: "b58_index c = Some n \<Longrightarrow> n < 58 \<and> b58_char n = c"
proof -
  assume "b58_index c = Some n"
  then have "(c, n) \<in> set (zip b58_alphabet [0..<58])"
    by (auto simp: b58_index_def dest: map_of_SomeD)
  then show ?thesis by (auto simp: set_zip b58_char_def)
qed

lemma b58_char_0: "b58_char 0 = CHR ''1''"
  by code_simp

lemma b58_char_eq_1: "n < 58 \<Longrightarrow> b58_char n = CHR ''1'' \<longleftrightarrow> n = 0"
  using b58_index_char [of n] b58_index_char [of 0] b58_char_0 by (metis option.inject zero_less_numeral)

lemma b58_loop_digits: "b58_loop n out = map b58_char (base_digits 58 n) @ out"
proof (induction n out rule: b58_loop.induct)
  case (1 num out)
  then show ?case by (subst b58_loop.simps) (simp add: b58.base_digits_pos)
qed

lemma b58_sum_digits:
  "b58_sum num s = Inr m \<longleftrightarrow>
    (\<exists>ds. s = map b58_char ds \<and> (\<forall>d \<in> set ds. d < 58) \<and> m = foldl (\<lambda>n d. n * 58 + d) num ds)"
proof (induction num s arbitrary: m rule: b58_sum.induct)
  case (2 num ch s)
  show ?case
  proof (cases "b58_index ch")
    case None
    then have "\<not> (\<exists>d < 58. ch = b58_char d)" by auto
    then show ?thesis using None by (auto simp: Cons_eq_map_conv)
  next
    case (Some i)
    note i = b58_index_Some [OF Some]
    have "ch = b58_char d \<and> d < 58 \<longleftrightarrow> d = i" for d using i b58_index_char Some by (metis option.inject)
    then show ?thesis using 2 [OF Some] Some
      by (simp add: Cons_eq_map_conv) (metis (no_types, lifting) foldl_Cons list.set_intros set_ConsD list.set_intros(2))
  qed
qed auto

lemma b58_sum_error: "b58_sum num s = Inl e \<Longrightarrow> exn_cls e = DIDKeyError"
  by (induction num s rule: b58_sum.induct) (auto split: option.splits)

lemma takeWhile_map_b58:
  "\<forall>d \<in> set ds. d < 58 \<Longrightarrow>
    length (takeWhile (\<lambda>ch. ch = CHR ''1'') (map b58_char ds)) = length (takeWhile (\<lambda>d. d = 0) ds)"
  by (induction ds) (auto simp: b58_char_eq_1)

lemma zeros_dropWhile: "replicate (length (takeWhile (\<lambda>d. d = z) ds)) z @ dropWhile (\<lambda>d. d = z) ds = ds"
  by (induction ds) auto

lemma leading_zeros:
  fixes ds :: "nat list"
  assumes "hd ds \<noteq> 0 \<or> ds = []"
  shows "length (takeWhile (\<lambda>d. d = 0) (replicate k 0 @ ds)) = k"
    and "dropWhile (\<lambda>d. d = 0) (replicate k 0 @ ds) = ds"
proof -
  have "takeWhile (\<lambda>d. d = 0) ds = []" "dropWhile (\<lambda>d. d = 0) ds = ds" using assms by (cases ds; auto)+
  then show "length (takeWhile (\<lambda>d. d = 0) (replicate k 0 @ ds)) = k"
    "dropWhile (\<lambda>d. d = 0) (replicate k 0 @ ds) = ds"
    by (induction k) simp_all
qed

text \<open>Both directions go through the digit lists: a byte string with k leading zeros corresponds
  to a base-58 digit list with k leading zeros and the same value.\<close>

definition b58_digits :: "bytes \<Rightarrow> nat list" where
  "b58_digits b = replicate (length (takeWhile (\<lambda>x. x = 0) b)) 0 @ base_digits 58 (from_bytes_big b)"

definition b58_bytes :: "nat list \<Rightarrow> bytes" where
  "b58_bytes ds = replicate (length (takeWhile (\<lambda>d. d = 0) ds)) 0
     @ map word_of_nat (base_digits 256 (from_digits 58 ds))"

lemma b58encode_digits: "b58encode b = map b58_char (b58_digits b)"
  by (simp add: b58encode_def b58_digits_def b58_loop_digits b58_char_0 from_bytes_big_def from_digits_def)

lemma b58decode_digits:
  "b58decode s = Inr b \<longleftrightarrow> (\<exists>ds. s = map b58_char ds \<and> (\<forall>d \<in> set ds. d < 58) \<and> b = b58_bytes ds)"
proof (cases "s = []")
  case True
  then show ?thesis by (auto simp: b58decode_def b58_bytes_def from_digits_def)
next
  case False
  have "b58decode s = Inr b \<longleftrightarrow> (\<exists>ds. s = map b58_char ds \<and> (\<forall>d \<in> set ds. d < 58) \<and>
      b = replicate (length (takeWhile (\<lambda>ch. ch = CHR ''1'') s)) 0
        @ map word_of_nat (base_digits 256 (from_digits 58 ds)))"
    using False
    by (auto simp: b58decode_def bindR_Inr_iff b58_sum_digits to_bytes_min from_digits_def Let_def)
  then show ?thesis by (auto simp: b58_bytes_def takeWhile_map_b58)
qed

lemma map_unat_word_of_nat: "\<forall>d \<in> set ds. d < 256 \<Longrightarrow> map unat (map word_of_nat ds :: bytes) = ds"
  by (induction ds) (auto simp: unat_word_of_nat_byte)

lemma b58_bytes_digits: "b58_bytes (b58_digits b) = b"
proof -
  let ?n = "from_bytes_big b"
  have z: "length (takeWhile (\<lambda>d. d = 0) (b58_digits b)) = length (takeWhile (\<lambda>x. x = 0) b)"
    unfolding b58_digits_def by (rule leading_zeros(1)) (use b58.base_digits_hd in blast)
  have "from_digits 58 (b58_digits b) = ?n"
    by (simp add: b58_digits_def b58.from_digits_zeros)
  moreover have "base_digits 256 ?n = dropWhile (\<lambda>d. d = 0) (map unat b)"
    unfolding from_bytes_big_def by (rule b256.base_from_digits) (use unat_byte_less in auto)
  moreover have "dropWhile (\<lambda>d. d = 0) (map unat b) = map unat (dropWhile (\<lambda>x. x = 0) b)"
    by (simp add: dropWhile_map o_def unat_eq_zero)
  ultimately show ?thesis
    by (simp add: b58_bytes_def z o_def zeros_dropWhile)
qed

lemma b58_digits_bytes:
  assumes "\<forall>d \<in> set ds. d < 58"
  shows "b58_digits (b58_bytes ds) = ds"
proof -
  let ?n = "from_digits 58 ds"
  let ?z = "length (takeWhile (\<lambda>d. d = 0) ds)"
  have u: "map unat (b58_bytes ds) = replicate ?z 0 @ base_digits 256 ?n"
    using map_unat_word_of_nat [of "base_digits 256 ?n"] b256.base_digits_bound
    by (simp add: b58_bytes_def)
  have "length (takeWhile (\<lambda>x. x = 0) (b58_bytes ds)) = length (takeWhile (\<lambda>d. d = 0) (map unat (b58_bytes ds)))"
    by (simp add: takeWhile_map o_def unat_eq_zero)
  also have "\<dots> = ?z" unfolding u by (rule leading_zeros(1)) (use b256.base_digits_hd in blast)
  finally have z: "length (takeWhile (\<lambda>x. x = 0) (b58_bytes ds)) = ?z" .
  have "from_bytes_big (b58_bytes ds) = ?n"
    by (simp add: from_bytes_big_def u b256.from_digits_zeros)
  then show ?thesis
    using b58.base_from_digits [OF assms] by (simp add: b58_digits_def z zeros_dropWhile)
qed

lemma b58_digits_bound: "\<forall>d \<in> set (b58_digits b). d < 58"
  using b58.base_digits_bound by (auto simp: b58_digits_def)

lemma b58decode_iff: "b58decode s = Inr b \<longleftrightarrow> s = b58encode b"
proof
  assume "b58decode s = Inr b"
  then show "s = b58encode b" using b58_digits_bytes by (auto simp: b58decode_digits b58encode_digits)
next
  assume "s = b58encode b"
  then show "b58decode s = Inr b"
    using b58_bytes_digits b58_digits_bound unfolding b58decode_digits b58encode_digits by metis
qed

interpretation b58_codec: codec "\<lambda>_. True" b58encode b58decode
  by unfold_locales (simp add: b58decode_iff)

section \<open>Keys and their DIDs\<close>

lemma decode_did_iff: "decode_ed25519_did_key did = Inr pk \<longleftrightarrow> encode_ed25519_did_key pk = Inr did"
proof
  assume "decode_ed25519_did_key did = Inr pk"
  then obtain s where did: "did = did_key_prefix @ ''z'' @ s" and "length pk = 32"
    and dec: "b58decode s = Inr (multicodec_ed25519_pub @ pk)"
    by (auto simp: decode_ed25519_did_key_def bindR_Inr_iff startswith_iff Let_def split: if_splits)
      (metis append_take_drop_id)
  then show "encode_ed25519_did_key pk = Inr did"
    by (simp add: encode_ed25519_did_key_def b58decode_iff)
next
  assume "encode_ed25519_did_key pk = Inr did"
  then have "length pk = 32" "did = did_key_prefix @ ''z'' @ b58encode (multicodec_ed25519_pub @ pk)"
    by (auto simp: encode_ed25519_did_key_def split: if_splits)
  moreover have "b58decode (b58encode (multicodec_ed25519_pub @ pk)) = Inr (multicodec_ed25519_pub @ pk)"
    by (simp add: b58decode_iff)
  ultimately show "decode_ed25519_did_key did = Inr pk"
    by (simp add: decode_ed25519_did_key_def startswith_def multicodec_ed25519_pub_def)
qed

interpretation did_codec: codec "\<lambda>pk. length pk = 32"
  "\<lambda>pk. did_key_prefix @ ''z'' @ b58encode (multicodec_ed25519_pub @ pk)" decode_ed25519_did_key
  by unfold_locales (simp add: decode_did_iff encode_ed25519_did_key_def)

lemma b58encode_length: "length (b58encode b) \<le> 3 * length b"
proof -
  have "from_bytes_big b < 256 ^ length b"
    using b256.from_digits_less [of "map unat b"] unat_byte_less by (auto simp: from_bytes_big_def)
  also have "\<dots> \<le> (58 ^ 2) ^ length b" by (rule power_mono) simp_all
  finally have "length (base_digits 58 (from_bytes_big b)) \<le> 2 * length b"
    using b58.length_base_digits by (simp only: power_mult [symmetric])
  moreover have "length (takeWhile (\<lambda>x. x = 0) b) \<le> length b" by (rule length_takeWhile_le)
  ultimately show ?thesis by (simp add: b58encode_digits b58_digits_def)
qed

lemma did_length: "encode_ed25519_did_key pk = Inr did \<Longrightarrow> length did \<le> 111"
  using b58encode_length [of "multicodec_ed25519_pub @ pk"]
  by (auto simp: encode_ed25519_did_key_def multicodec_ed25519_pub_def did_key_prefix_def split: if_splits)

lemma did_length_pos: "encode_ed25519_did_key pk = Inr did \<Longrightarrow> did \<noteq> []"
  by (auto simp: encode_ed25519_did_key_def did_key_prefix_def split: if_splits)

lemma is_did_key_iff: "is_did_key (PStr s) \<longleftrightarrow> (\<exists>pk. encode_ed25519_did_key pk = Inr s)"
proof -
  have "decode_ed25519_did_key s = Inr pk \<Longrightarrow> startswith s did_key_prefix" for pk
    by (auto simp: decode_ed25519_did_key_def split: if_splits)
  then show ?thesis
    by (cases "decode_ed25519_did_key s") (auto simp: is_did_key_def simp flip: decode_did_iff)
qed

text \<open>C35. \<open>did:key\<close> strings and Ed25519 keys correspond one to one: the decoder returns a key
  exactly on the string the encoder writes for it, so a key has one DID and a DID one key, and
  no second spelling of a DID is accepted.\<close>

theorem did_key_bijection:
  "decode_ed25519_did_key did = Inr pk \<longleftrightarrow> encode_ed25519_did_key pk = Inr did"
  by (rule decode_did_iff)

end
