(* ===== verification/Identity.thy ===== *)
theory Identity
  imports Canonical_Json Base64url Sha256 Did_Key
begin

text \<open>
  \<open>nth_dao/identity.py\<close>: agent identifiers derived from an Ed25519 public key and identities
  that sign and verify. PyNaCl is a third-party package, so its three functions and
  whether it is installed are the record \<open>nacl\<close>, a parameter of every definition that signs or
  verifies; \<open>ed25519_ok\<close> names what the code relies on: a 32-byte seed has a 32-byte public
  key, signatures are 64 bytes long, and a signature verifies under its own key. Unforgeability is never
  assumed.
\<close>

section \<open>PyNaCl\<close>

record nacl =
  nacl_available :: bool
  nacl_pub :: "bytes \<Rightarrow> bytes"
  nacl_sign :: "bytes \<Rightarrow> bytes \<Rightarrow> bytes"
  nacl_verify :: "bytes \<Rightarrow> bytes \<Rightarrow> bytes \<Rightarrow> bool"

definition ed25519_ok :: "nacl \<Rightarrow> bool" where
  "ed25519_ok n \<longleftrightarrow> nacl_available n \<and>
     (\<forall>seed msg. length seed = 32 \<longrightarrow>
        length (nacl_pub n seed) = 32 \<and> length (nacl_sign n seed msg) = 64 \<and>
        nacl_verify n (nacl_pub n seed) msg (nacl_sign n seed msg))"

section \<open>Agent identifiers\<close>

record agent_id =
  aid_value :: string
  aid_cryptographic :: bool
  aid_pubkey_hex :: string

definition agent_id_short_len :: nat where
  "agent_id_short_len = 12"

definition agentid_from_string :: "string \<Rightarrow> agent_id res" where
  "agentid_from_string a =
     (if a = [] then raise ValueError ''agent_id must not be empty''
      else Inr \<lparr>aid_value = a, aid_cryptographic = False, aid_pubkey_hex = []\<rparr>)"

definition agentid_from_pubkey :: "string \<Rightarrow> agent_id res" where
  "agentid_from_pubkey pubkey_hex =
     (if pubkey_hex = [] then raise ValueError ''pubkey_hex must not be empty''
      else case fromhex pubkey_hex of
        Inl e \<Rightarrow> raise ValueError (''pubkey_hex must be valid hex: '' @ exn_msg e)
      | Inr pubkey \<Rightarrow>
          if length pubkey \<noteq> 32
          then raise ValueError (''Ed25519 pubkey must be 32 bytes; got '' @ nat_str (length pubkey))
          else Inr \<lparr>aid_value = take agent_id_short_len (sha256_hex pubkey),
                    aid_cryptographic = True, aid_pubkey_hex = pubkey_hex\<rparr>)"

section \<open>Identities\<close>

record identity =
  id_agent :: agent_id
  id_label :: pyval
  id_metadata :: pyval
  id_signing_key :: "bytes option"
  id_verify_key :: "bytes option"

text \<open>\<open>x or y\<close> on byte strings: an absent or empty one is false.\<close>

definition bytes_truthy :: "bytes option \<Rightarrow> bool" where
  "bytes_truthy b = (case b of None \<Rightarrow> False | Some bs \<Rightarrow> bs \<noteq> [])"

definition bytes_or :: "bytes option \<Rightarrow> bytes option \<Rightarrow> bytes option" where
  "bytes_or a b = (if bytes_truthy a then a else b)"

definition or_empty_dict :: "pyval \<Rightarrow> pyval" where
  "or_empty_dict m = (if truthy m then m else PDict [])"

definition identity_from_string :: "string \<Rightarrow> pyval \<Rightarrow> pyval \<Rightarrow> identity res" where
  "identity_from_string a label metadata =
     bindR (agentid_from_string a) (\<lambda>aid.
       Inr \<lparr>id_agent = aid, id_label = label, id_metadata = or_empty_dict metadata,
            id_signing_key = None, id_verify_key = None\<rparr>)"

definition id_pubkey_hex :: "identity \<Rightarrow> string" where
  "id_pubkey_hex i = (case id_verify_key i of
     Some vk \<Rightarrow> if vk \<noteq> [] then bytes_hex vk else aid_pubkey_hex (id_agent i)
   | None \<Rightarrow> aid_pubkey_hex (id_agent i))"

definition as_did :: "identity \<Rightarrow> string res" where
  "as_did i =
     (if id_pubkey_hex i = []
      then raise ValueError ''as_did() requires a cryptographic identity; plain agent_ids have no did:key form''
      else encode_ed25519_did_key_hex (id_pubkey_hex i))"

definition from_did :: "string \<Rightarrow> pyval \<Rightarrow> pyval \<Rightarrow> identity res" where
  "from_did did label metadata =
     bindR (decode_ed25519_did_key did) (\<lambda>pubkey.
     bindR (agentid_from_pubkey (bytes_hex pubkey)) (\<lambda>aid.
       Inr \<lparr>id_agent = aid, id_label = label, id_metadata = or_empty_dict metadata,
            id_signing_key = None, id_verify_key = Some pubkey\<rparr>))"

text \<open>\<open>generate\<close> with the random seed as an argument; saving the file is left to the caller.\<close>

definition identity_generate :: "nacl \<Rightarrow> bytes \<Rightarrow> pyval \<Rightarrow> pyval \<Rightarrow> identity res" where
  "identity_generate n seed label metadata =
     (if \<not> nacl_available n then raise ImportError ''AgentIdentity.generate() requires PyNaCl.''
      else let verify = nacl_pub n seed in
        bindR (agentid_from_pubkey (bytes_hex verify)) (\<lambda>aid.
          Inr \<lparr>id_agent = aid, id_label = label, id_metadata = or_empty_dict metadata,
               id_signing_key = Some seed, id_verify_key = Some verify\<rparr>))"

definition can_sign :: "nacl \<Rightarrow> identity \<Rightarrow> bool" where
  "can_sign n i \<longleftrightarrow> nacl_available n \<and> bytes_truthy (id_signing_key i) \<and> bytes_truthy (id_verify_key i)"

definition identity_sign :: "nacl \<Rightarrow> identity \<Rightarrow> bytes \<Rightarrow> bytes res" where
  "identity_sign n i payload =
     (if \<not> can_sign n i
      then raise RuntimeError (''Agent '' @ aid_value (id_agent i) @ '' has no signing key.'')
      else let seed = the (id_signing_key i) in
        if length seed \<noteq> 32 then raise ValueError ''The seed must be exactly 32 bytes long''
        else Inr (nacl_sign n seed payload))"

definition sign_json :: "nacl \<Rightarrow> identity \<Rightarrow> pyval \<Rightarrow> string res" where
  "sign_json n i data =
     bindR (canonical_json data) (\<lambda>payload. bindR (identity_sign n i payload) (\<lambda>s. Inr (bytes_hex s)))"

definition identity_verify :: "nacl \<Rightarrow> identity \<Rightarrow> bytes \<Rightarrow> bytes \<Rightarrow> bytes option \<Rightarrow> bool" where
  "identity_verify n i payload signature pubkey =
     (nacl_available n \<and>
      (let verify_key = bytes_or pubkey (id_verify_key i)
       in bytes_truthy verify_key \<and> nacl_verify n (the verify_key) payload signature))"

definition verify_json :: "nacl \<Rightarrow> identity \<Rightarrow> pyval \<Rightarrow> string \<Rightarrow> string option \<Rightarrow> bool" where
  "verify_json n i data signature_hex pubkey_hex =
     (case bindR (case pubkey_hex of
                    Some h \<Rightarrow> if h = [] then Inr None else bindR (fromhex h) (\<lambda>b. Inr (Some b))
                  | None \<Rightarrow> Inr None) (\<lambda>pubkey.
           bindR (fromhex signature_hex) (\<lambda>signature.
           bindR (canonical_json data) (\<lambda>payload. Inr (pubkey, signature, payload)))) of
        Inl _ \<Rightarrow> False
      | Inr (pubkey, signature, payload) \<Rightarrow> identity_verify n i payload signature pubkey)"

definition fingerprint :: "identity \<Rightarrow> string" where
  "fingerprint i =
     (let payload = (if id_pubkey_hex i = [] then aid_value (id_agent i) else id_pubkey_hex i)
      in take 16 (sha256_hex (utf8 payload)))"

section \<open>The identity file\<close>

text \<open>The fields \<open>load\<close> reads of the JSON that \<open>save\<close> writes, as \<open>data.get\<close> returns them.\<close>

record identity_file =
  f_agent_id :: "string option"
  f_label :: pyval
  f_pubkey :: string
  f_metadata :: pyval
  f_private_key :: string

definition identity_save :: "identity \<Rightarrow> identity_file" where
  "identity_save i =
     \<lparr>f_agent_id = Some (aid_value (id_agent i)), f_label = id_label i, f_pubkey = id_pubkey_hex i,
      f_metadata = id_metadata i,
      f_private_key = (case id_signing_key i of Some sk \<Rightarrow> bytes_hex sk | None \<Rightarrow> [])\<rparr>"

definition identity_load :: "nacl \<Rightarrow> identity_file \<Rightarrow> identity res" where
  "identity_load n f =
     (if f_private_key f \<noteq> [] \<and> f_pubkey f \<noteq> []
      then if \<not> nacl_available n then raise ImportError ''AgentIdentity.load() with a keypair requires PyNaCl.''
      else (case (fromhex (f_private_key f), fromhex (f_pubkey f)) of
        (Inr signing, Inr verify) \<Rightarrow>
          if length signing \<noteq> 32 then raise ValueError ''The seed must be exactly 32 bytes long''
          else if nacl_pub n signing \<noteq> verify
          then raise ValueError ''keypair mismatch: private_key does not derive the stored pubkey''
          else bindR (agentid_from_pubkey (f_pubkey f)) (\<lambda>aid.
            Inr \<lparr>id_agent = aid, id_label = f_label f, id_metadata = f_metadata f,
                 id_signing_key = Some signing, id_verify_key = Some verify\<rparr>)
      | _ \<Rightarrow> raise ValueError ''identity file has malformed hex keys'')
      else identity_from_string (case f_agent_id f of Some a \<Rightarrow> a | None \<Rightarrow> ''anonymous'')
             (f_label f) (f_metadata f))"

section \<open>Well-formed signing identities\<close>

text \<open>What \<open>generate\<close> and \<open>load\<close> return: a seed, its own public key, and the identifier of that key.\<close>

definition signer_ok :: "nacl \<Rightarrow> identity \<Rightarrow> bool" where
  "signer_ok n i \<longleftrightarrow> (case (id_signing_key i, id_verify_key i) of
     (Some seed, Some vk) \<Rightarrow> length seed = 32 \<and> vk = nacl_pub n seed \<and> agentid_from_pubkey (bytes_hex vk) = Inr (id_agent i)
   | _ \<Rightarrow> False)"

lemma signer_okE:
  assumes "signer_ok n i"
  obtains seed where "id_signing_key i = Some seed" "id_verify_key i = Some (nacl_pub n seed)"
    "length seed = 32" "agentid_from_pubkey (bytes_hex (nacl_pub n seed)) = Inr (id_agent i)"
  using assms by (auto simp: signer_ok_def split: option.splits)

lemma ed25519_okD:
  assumes "ed25519_ok n" "length seed = 32"
  shows "nacl_available n" "length (nacl_pub n seed) = 32" "length (nacl_sign n seed msg) = 64"
    "nacl_verify n (nacl_pub n seed) msg (nacl_sign n seed msg)"
  using assms by (auto simp: ed25519_ok_def)

lemma len32_nonempty [simp]: "length xs = 32 \<Longrightarrow> xs \<noteq> []"
  by auto

lemma agentid_from_pubkey_ok:
  "length pk = 32 \<Longrightarrow> agentid_from_pubkey (bytes_hex pk) =
     Inr \<lparr>aid_value = take 12 (sha256_hex pk), aid_cryptographic = True, aid_pubkey_hex = bytes_hex pk\<rparr>"
  using bytes_hex_inject [of pk "[]"] by (auto simp: agentid_from_pubkey_def agent_id_short_len_def)

lemma generate_signer:
  "ed25519_ok n \<Longrightarrow> length seed = 32 \<Longrightarrow> \<exists>i. identity_generate n seed l m = Inr i \<and> signer_ok n i"
  using ed25519_okD [of n seed] by (simp add: identity_generate_def agentid_from_pubkey_ok signer_ok_def Let_def)

lemma signer_pubkey_hex:
  "ed25519_ok n \<Longrightarrow> signer_ok n i \<Longrightarrow> id_pubkey_hex i = bytes_hex (nacl_pub n (the (id_signing_key i)))"
  by (erule signer_okE) (simp add: id_pubkey_hex_def ed25519_okD)

lemma signer_did:
  assumes "ed25519_ok n" "signer_ok n i"
  obtains did where "as_did i = Inr did" "decode_ed25519_did_key did = Inr (nacl_pub n (the (id_signing_key i)))"
proof -
  obtain seed where s: "id_signing_key i = Some seed" "length seed = 32" using assms(2) by (rule signer_okE)
  then have l: "length (nacl_pub n seed) = 32" using ed25519_okD assms(1) by blast
  then obtain did where did: "encode_ed25519_did_key (nacl_pub n seed) = Inr did"
    by (simp add: encode_ed25519_did_key_def)
  moreover have "as_did i = Inr did"
    using did l bytes_hex_inject [of "nacl_pub n seed" "[]"]
    by (auto simp: as_did_def signer_pubkey_hex [OF assms] s encode_ed25519_did_key_hex_def)
  ultimately show thesis using that s by (simp add: decode_did_iff)
qed

lemma signer_sign:
  assumes "ed25519_ok n" "signer_ok n i"
  shows "identity_sign n i payload = Inr (nacl_sign n (the (id_signing_key i)) payload)"
  using assms(2) ed25519_okD [OF assms(1)]
  by (elim signer_okE) (simp add: identity_sign_def can_sign_def bytes_truthy_def)

lemma from_did_verify_key:
  assumes "from_did did l m = Inr v"
  shows "\<exists>pk. decode_ed25519_did_key did = Inr pk \<and> id_verify_key v = Some pk \<and> id_signing_key v = None \<and> length pk = 32"
proof -
  obtain pk where "decode_ed25519_did_key did = Inr pk" "id_verify_key v = Some pk" "id_signing_key v = None"
    using assms by (auto simp: from_did_def bindR_Inr_iff)
  moreover from this(1) have "length pk = 32"
    by (auto simp: decode_did_iff encode_ed25519_did_key_def split: if_splits)
  ultimately show ?thesis by blast
qed

lemma from_did_total: "decode_ed25519_did_key did = Inr pk \<Longrightarrow> \<exists>v. from_did did l m = Inr v \<and> id_verify_key v = Some pk"
proof -
  assume d: "decode_ed25519_did_key did = Inr pk"
  then have "length pk = 32" by (auto simp: decode_did_iff encode_ed25519_did_key_def split: if_splits)
  with d show ?thesis by (simp add: from_did_def agentid_from_pubkey_ok)
qed

lemma verify_None:
  "nacl_available n \<Longrightarrow> id_verify_key v = Some pk \<Longrightarrow> pk \<noteq> [] \<Longrightarrow>
    identity_verify n v payload s None = nacl_verify n pk payload s"
  by (simp add: identity_verify_def bytes_or_def bytes_truthy_def)

text \<open>The DID of a signer resolves to a verify-only identity that accepts the signer's signatures.\<close>

lemma sign_verify_via_did:
  assumes "ed25519_ok n" "signer_ok n i" "as_did i = Inr did" "identity_sign n i payload = Inr s"
  shows "\<exists>v. from_did did l m = Inr v \<and> identity_verify n v payload s None \<and> length s = 64"
proof -
  obtain seed where seed: "id_signing_key i = Some seed" "length seed = 32" using assms(2) by (rule signer_okE)
  note ok = ed25519_okD [OF assms(1) seed(2)]
  have "decode_ed25519_did_key did = Inr (nacl_pub n seed)"
    using signer_did [OF assms(1,2)] assms(3) seed(1) by (metis Inr_inject option.sel)
  then obtain v where "from_did did l m = Inr v" "id_verify_key v = Some (nacl_pub n seed)"
    using from_did_total by blast
  moreover have "s = nacl_sign n seed payload" using signer_sign [OF assms(1,2)] assms(4) seed(1) by simp
  ultimately show ?thesis using ok by (auto simp: verify_None)
qed

section \<open>A concrete signature scheme for witnesses\<close>

text \<open>A stand-in that meets \<open>ed25519_ok\<close>: the public key is the seed and the signature a
  fixed-size block that starts with the payload's length. It shows the hypothesis can hold and lets
  witnesses compute.\<close>

definition demo_nacl :: nacl where
  "demo_nacl = \<lparr>nacl_available = True, nacl_pub = (\<lambda>seed. seed),
     nacl_sign = (\<lambda>seed msg. seed @ take 32 (msg @ replicate 32 0)),
     nacl_verify = (\<lambda>pk msg s. s = pk @ take 32 (msg @ replicate 32 0))\<rparr>"

definition demo_seed :: "nat \<Rightarrow> bytes" where
  "demo_seed k = replicate 32 (word_of_nat k)"

definition demo_identity :: "nat \<Rightarrow> identity" where
  "demo_identity k = projr (identity_generate demo_nacl (demo_seed k) (PStr ''demo'') PNone)"

lemma demo_nacl_ok: "ed25519_ok demo_nacl"
  by (auto simp: ed25519_ok_def demo_nacl_def min_def)

lemma demo_signer: "signer_ok demo_nacl (demo_identity k)"
  using generate_signer [OF demo_nacl_ok, of "demo_seed k" "PStr ''demo''" PNone]
  by (auto simp: demo_identity_def demo_seed_def)

section \<open>Properties\<close>

text \<open>Signatures verify through the DID: for a well-formed signing identity, signing a
  payload succeeds, and the verify-only identity that its \<open>did:key\<close> resolves to accepts the
  signature. The verifying side never holds the signing key.\<close>

lemma sign_then_verify_did:
  assumes "ed25519_ok n" "signer_ok n i"
  shows "\<exists>did s v. as_did i = Inr did \<and> identity_sign n i payload = Inr s \<and> from_did did l m = Inr v
           \<and> identity_verify n v payload s None \<and> \<not> can_sign n v"
proof -
  obtain did where did: "as_did i = Inr did" using signer_did [OF assms] by metis
  obtain s where s: "identity_sign n i payload = Inr s" using signer_sign [OF assms] by blast
  obtain v where v: "from_did did l m = Inr v" "identity_verify n v payload s None"
    using sign_verify_via_did [OF assms did s] by blast
  moreover have "\<not> can_sign n v" using from_did_verify_key [OF v(1)] by (auto simp: can_sign_def bytes_truthy_def)
  ultimately show ?thesis using did s by blast
qed

lemma sign_then_verify_did_demo:
  "\<exists>did s v. as_did (demo_identity 7) = Inr did \<and> identity_sign demo_nacl (demo_identity 7) [1, 2] = Inr s
     \<and> from_did did (PStr []) PNone = Inr v \<and> identity_verify demo_nacl v [1, 2] s None \<and> \<not> can_sign demo_nacl v"
  by (rule sign_then_verify_did [OF demo_nacl_ok demo_signer])

text \<open>The identity file: loading what a well-formed signing identity saved gives the
  identity back, and an identity with a signing key comes out of a file only with that key's own
  public key, so a file whose public key was swapped is refused.\<close>

lemma identity_file_roundtrip:
  assumes "ed25519_ok n"
  shows "(signer_ok n i \<longrightarrow> identity_load n (identity_save i) = Inr i)
       \<and> (identity_load n f = Inr j \<and> id_signing_key j = Some sk \<longrightarrow> id_verify_key j = Some (nacl_pub n sk))"
proof
  show "signer_ok n i \<longrightarrow> identity_load n (identity_save i) = Inr i"
  proof
    assume i: "signer_ok n i"
    obtain seed where s: "id_signing_key i = Some seed" "id_verify_key i = Some (nacl_pub n seed)" "length seed = 32"
      "agentid_from_pubkey (bytes_hex (nacl_pub n seed)) = Inr (id_agent i)" using i by (rule signer_okE)
    have "bytes_hex seed \<noteq> []" "bytes_hex (nacl_pub n seed) \<noteq> []"
      using s ed25519_okD [OF assms s(3)] bytes_hex_inject [of _ "[]"] by (metis bytes_hex.simps(1) len32_nonempty)+
    then show "identity_load n (identity_save i) = Inr i"
      using s ed25519_okD [OF assms s(3)]
      by (simp add: identity_load_def identity_save_def signer_pubkey_hex [OF assms i])
  qed
  show "identity_load n f = Inr j \<and> id_signing_key j = Some sk \<longrightarrow> id_verify_key j = Some (nacl_pub n sk)"
    by (auto simp: identity_load_def identity_from_string_def bindR_Inr_iff
        split: if_splits sum.splits)
qed

lemma identity_file_roundtrip_demo:
  "identity_load demo_nacl (identity_save (demo_identity 3)) = Inr (demo_identity 3)"
  using identity_file_roundtrip [OF demo_nacl_ok, of "demo_identity 3"] demo_signer by blast

end
