(* ===== verification/Spine_Event.thy ===== *)
theory Spine_Event
  imports Identity
begin

text \<open>
  \<open>nth_dao/spine/event.py\<close>: the signed causal event. \<open>from_dict\<close> validates an untyped document
  field by field, \<open>sign_event\<close> hashes the canonical core and signs the digest, and
  \<open>verify_event\<close> revalidates, recomputes the hash and checks the author's signature. The
  verdict is a pair, or an exception when one that the code does not catch escapes.
\<close>

section \<open>Data\<close>

record spine_event =
  ev_seq :: int
  ev_prev_hash :: string
  ev_type :: string
  ev_payload :: pydict
  ev_author_did :: string
  ev_ts_ms :: int
  ev_content_hash :: string
  ev_sig :: string

definition genesis_prev :: string where
  "genesis_prev = replicate 64 (CHR ''0'')"

definition max_spine_payload_bytes :: nat where
  "max_spine_payload_bytes = 1024 * 1024"

definition is_hash :: "string \<Rightarrow> bool" where
  "is_hash s \<longleftrightarrow> length s = 64 \<and> list_all is_lower_hex s"

definition type_start :: "char \<Rightarrow> bool" where
  "type_start c \<longleftrightarrow> is_digit c \<or> (97 \<le> (of_char c :: nat) \<and> of_char c \<le> (122 :: nat))"

definition is_event_type :: "string \<Rightarrow> bool" where
  "is_event_type s \<longleftrightarrow> s \<noteq> [] \<and> type_start (hd s) \<and> length s \<le> 128
     \<and> list_all (\<lambda>c. type_start c \<or> c \<in> set ''._-'') s"

definition event_fields :: "string list" where
  "event_fields = [''seq'', ''prev_hash'', ''type'', ''payload'', ''author_did'', ''ts_ms'', ''content_hash'', ''sig'']"

definition event_content_hash :: "pydict \<Rightarrow> string res" where
  "event_content_hash core = bindR (canonical_json (PDict core)) (\<lambda>bs. Inr (sha256_hex bs))"

definition mk_core :: "int \<Rightarrow> string \<Rightarrow> string \<Rightarrow> pydict \<Rightarrow> string \<Rightarrow> int \<Rightarrow> pydict" where
  "mk_core seq prev_hash typ payload author_did ts_ms = obj
     [(''seq'', PInt seq), (''prev_hash'', PStr prev_hash), (''type'', PStr typ), (''payload'', PDict payload),
      (''author_did'', PStr author_did), (''ts_ms'', PInt ts_ms)]"

definition ev_core :: "spine_event \<Rightarrow> pydict" where
  "ev_core e = mk_core (ev_seq e) (ev_prev_hash e) (ev_type e) (ev_payload e) (ev_author_did e) (ev_ts_ms e)"

definition event_to_dict :: "spine_event \<Rightarrow> pydict" where
  "event_to_dict e = ev_core e @ obj [(''content_hash'', PStr (ev_content_hash e)), (''sig'', PStr (ev_sig e))]"

section \<open>Validation\<close>

definition payload_checked :: "pydict \<Rightarrow> 'a res \<Rightarrow> 'a res" where
  "payload_checked payload k =
     (case canonical_json (PDict payload) of
        Inl _ \<Rightarrow> raise ValueError ''spine event payload is not canonical JSON''
      | Inr bs \<Rightarrow> ensure (length bs \<le> max_spine_payload_bytes) ValueError ''spine event payload exceeds byte limit'' k)"

definition strict_int_from :: "int \<Rightarrow> pyval option \<Rightarrow> bool" where
  "strict_int_from lo v = (case v of Some (PInt i) \<Rightarrow> lo \<le> i | _ \<Rightarrow> False)"

definition str_with :: "(string \<Rightarrow> bool) \<Rightarrow> pyval option \<Rightarrow> bool" where
  "str_with P v = (case v of Some (PStr s) \<Rightarrow> P s | _ \<Rightarrow> False)"

fun the_int :: "pyval option \<Rightarrow> int" where
  "the_int (Some (PInt i)) = i"
| "the_int _ = 0"

fun the_str :: "pyval option \<Rightarrow> string" where
  "the_str (Some (PStr s)) = s"
| "the_str _ = []"

fun the_dict :: "pyval option \<Rightarrow> pydict" where
  "the_dict (Some (PDict d)) = d"
| "the_dict _ = []"

definition event_from_fields :: "pydict \<Rightarrow> spine_event" where
  "event_from_fields d = \<lparr>ev_seq = the_int (dget d ''seq''), ev_prev_hash = the_str (dget d ''prev_hash''),
     ev_type = the_str (dget d ''type''), ev_payload = the_dict (dget d ''payload''),
     ev_author_did = the_str (dget d ''author_did''), ev_ts_ms = the_int (dget d ''ts_ms''),
     ev_content_hash = the_str (dget d ''content_hash''), ev_sig = the_str (dget d ''sig'')\<rparr>"

definition event_from_dict :: "pyval \<Rightarrow> spine_event res" where
  "event_from_dict v = (case v of
     PDict d \<Rightarrow>
       ensure (same_keys d event_fields) ValueError ''spine event has missing or unknown fields'' (
       ensure (strict_int_from 0 (dget d ''seq'')) ValueError ''spine event seq must be a non-negative integer'' (
       ensure (strict_int_from 1 (dget d ''ts_ms'')) ValueError ''spine event ts_ms must be a positive integer'' (
       ensure (str_with is_hash (dget d ''prev_hash'')) ValueError ''spine event prev_hash is invalid'' (
       ensure (str_with is_hash (dget d ''content_hash'')) ValueError ''spine event content_hash is invalid'' (
       ensure (str_with is_event_type (dget d ''type'')) ValueError ''spine event type is invalid'' (
       ensure (case dget d ''payload'' of Some p \<Rightarrow> is_dict p | None \<Rightarrow> False) ValueError ''spine event payload must be an object'' (
       ensure (nonempty_str (dget d ''author_did'')) ValueError ''spine event author_did is invalid'' (
       ensure (nonempty_str (dget d ''sig'')) ValueError ''spine event sig is invalid'' (
       payload_checked (the_dict (dget d ''payload'')) (Inr (event_from_fields d)))))))))))
   | _ \<Rightarrow> raise ValueError ''spine event has missing or unknown fields'')"

section \<open>Signing and verifying\<close>

definition sign_event :: "nacl \<Rightarrow> identity \<Rightarrow> int \<Rightarrow> string \<Rightarrow> string \<Rightarrow> pydict \<Rightarrow> int \<Rightarrow> spine_event res" where
  "sign_event n i seq prev_hash typ payload ts_ms =
     ensure (0 \<le> seq) ValueError ''spine event seq must be a non-negative integer'' (
     ensure (0 < ts_ms) ValueError ''spine event ts_ms must be a positive integer'' (
     ensure (is_hash prev_hash) ValueError ''spine event prev_hash is invalid'' (
     ensure (is_event_type typ) ValueError ''spine event type is invalid'' (
     payload_checked payload (
     bindR (as_did i) (\<lambda>did.
     let core = mk_core seq prev_hash typ payload did ts_ms in
     bindR (event_content_hash core) (\<lambda>content_hash.
     bindR (fromhex content_hash) (\<lambda>digest.
     bindR (identity_sign n i digest) (\<lambda>signature.
     event_from_dict (PDict (core @ obj [(''content_hash'', PStr content_hash), (''sig'', PStr (b64u_encode signature))])))))))))))"

definition verify_event :: "nacl \<Rightarrow> spine_event \<Rightarrow> (bool \<times> string) res" where
  "verify_event n event =
     (case bindR (event_from_dict (PDict (event_to_dict event))) (\<lambda>validated. event_content_hash (ev_core validated)) of
        Inl e \<Rightarrow>
          if exn_cls e \<in> {TypeError, OverflowError} \<or> is_value_error e
          then Inr (False, ''invalid event structure: '' @ exn_msg e) else Inl e
      | Inr recomputed \<Rightarrow>
          if recomputed \<noteq> ev_content_hash event then Inr (False, ''content_hash mismatch (tampered core)'')
          else case bindR (from_did (ev_author_did event) (PStr []) PNone) (\<lambda>verifier.
                      bindR (b64u_decode (ev_sig event)) (\<lambda>sig_bytes. Inr (verifier, sig_bytes))) of
            Inl e \<Rightarrow>
              if exn_cls e = TypeError \<or> is_value_error e
              then Inr (False, ''bad author_did/sig encoding: '' @ exn_msg e) else Inl e
          | Inr (verifier, sig_bytes) \<Rightarrow>
              if length sig_bytes \<noteq> 64 \<or> b64u_encode sig_bytes \<noteq> ev_sig event
              then Inr (False, ''signature encoding is not canonical'')
              else bindR (fromhex (ev_content_hash event)) (\<lambda>digest.
                if \<not> identity_verify n verifier digest sig_bytes None then Inr (False, ''signature invalid'')
                else Inr (True, ''ok'')))"

section \<open>Well-formed events\<close>

text \<open>The structural checks as one predicate on the typed event, and the clean payload that
  Python's dicts and the canonical serializer guarantee.\<close>

definition payload_clean :: "pydict \<Rightarrow> bool" where
  "payload_clean p \<longleftrightarrow> wf_json (PDict p) \<and> length (utf8 (json_dumps False (PDict p))) \<le> max_spine_payload_bytes"

definition event_wf :: "spine_event \<Rightarrow> bool" where
  "event_wf e \<longleftrightarrow> 0 \<le> ev_seq e \<and> 0 < ev_ts_ms e \<and> is_hash (ev_prev_hash e) \<and> is_hash (ev_content_hash e)
     \<and> is_event_type (ev_type e) \<and> ev_author_did e \<noteq> [] \<and> ev_sig e \<noteq> [] \<and> payload_clean (ev_payload e)"

lemmas event_dict_defs = event_to_dict_def ev_core_def mk_core_def obj_def

lemma dget_event_dict:
  "dget (event_to_dict e) ''seq'' = Some (PInt (ev_seq e))"
  "dget (event_to_dict e) ''prev_hash'' = Some (PStr (ev_prev_hash e))"
  "dget (event_to_dict e) ''type'' = Some (PStr (ev_type e))"
  "dget (event_to_dict e) ''payload'' = Some (PDict (ev_payload e))"
  "dget (event_to_dict e) ''author_did'' = Some (PStr (ev_author_did e))"
  "dget (event_to_dict e) ''ts_ms'' = Some (PInt (ev_ts_ms e))"
  "dget (event_to_dict e) ''content_hash'' = Some (PStr (ev_content_hash e))"
  "dget (event_to_dict e) ''sig'' = Some (PStr (ev_sig e))"
  by (simp_all add: event_dict_defs)

lemma event_dict_keys: "map fst (event_to_dict e) = map PStr event_fields"
  by (simp add: event_dict_defs event_fields_def)

lemma event_dict_same_keys: "same_keys (event_to_dict e) event_fields"
  by (simp add: same_keys_def event_dict_keys)

lemma payload_checked_clean:
  "keys_once (PDict p) \<Longrightarrow> payload_checked p k = Inr x \<longleftrightarrow> payload_clean p \<and> k = Inr x"
  using canonical_json_wf [of p] validate_iff_wf(1) [of "PDict p" "''$''"]
  by (cases "canonical_json (PDict p)")
    (auto simp: payload_checked_def payload_clean_def ensure_Inr_iff canonical_json_def is_dict_def res_iffs)

lemma payload_checked_error: "payload_checked p k = Inl e \<Longrightarrow> k = Inr x \<Longrightarrow> exn_cls e = ValueError"
  by (auto simp: payload_checked_def res_iffs split: sum.splits)

text \<open>Reading back a dict whose members are the event's, in any order.\<close>

lemma from_dict_of_fields:
  assumes "same_keys d event_fields" "event_from_fields d = e" "keys_once (PDict (ev_payload e))"
    "dget d ''seq'' = Some (PInt (ev_seq e))" "dget d ''prev_hash'' = Some (PStr (ev_prev_hash e))"
    "dget d ''type'' = Some (PStr (ev_type e))" "dget d ''payload'' = Some (PDict (ev_payload e))"
    "dget d ''author_did'' = Some (PStr (ev_author_did e))" "dget d ''ts_ms'' = Some (PInt (ev_ts_ms e))"
    "dget d ''content_hash'' = Some (PStr (ev_content_hash e))" "dget d ''sig'' = Some (PStr (ev_sig e))"
  shows "event_from_dict (PDict d) = Inr e \<longleftrightarrow> event_wf e"
  using assms
  by (auto simp: event_from_dict_def ensure_Inr_iff strict_int_from_def str_with_def nonempty_str_def
      is_dict_def event_wf_def payload_checked_clean simp del: keys_once.simps)

lemma from_dict_to_dict:
  assumes "keys_once (PDict (ev_payload e))"
  shows "event_from_dict (PDict (event_to_dict e)) = Inr x \<longleftrightarrow> event_wf e \<and> x = e"
proof -
  have f: "event_from_fields (event_to_dict e) = e"
    by (simp add: event_from_fields_def dget_event_dict)
  have "event_from_dict (PDict (event_to_dict e)) = Inr e \<longleftrightarrow> event_wf e"
    by (rule from_dict_of_fields [OF event_dict_same_keys f assms]) (simp_all add: dget_event_dict)
  moreover have "event_from_dict (PDict (event_to_dict e)) = Inr x \<Longrightarrow> x = e"
    using payload_checked_clean [OF assms]
    by (auto simp: event_from_dict_def ensure_Inr_iff f dget_event_dict payload_checked_def split: sum.splits)
  ultimately show ?thesis by blast
qed

lemma from_dict_error: "event_from_dict v = Inl e \<Longrightarrow> exn_cls e = ValueError"
  by (auto simp: event_from_dict_def res_iffs payload_checked_error split: pyval.splits)

lemma event_wf_keys_once: "event_wf e \<Longrightarrow> keys_once (PDict (ev_payload e))"
  using wf_keys_once(1) by (auto simp: event_wf_def payload_clean_def simp del: keys_once.simps)

lemma wf_core: "wf_json (PDict (ev_core e)) \<longleftrightarrow> wf_json (PDict (ev_payload e))"
  by (auto simp: ev_core_def mk_core_def obj_def is_str_def)

lemma wf_event_dict: "wf_json (PDict (event_to_dict e)) \<longleftrightarrow> wf_json (PDict (ev_payload e))"
  by (auto simp: event_dict_defs is_str_def)

lemma content_hash_wf:
  "event_wf e \<Longrightarrow> event_content_hash (ev_core e) = Inr (sha256_hex (utf8 (json_dumps False (PDict (ev_core e)))))"
  using wf_core [of e] by (simp add: event_content_hash_def event_wf_def payload_clean_def canonical_json_wf)

lemma is_hash_sha [simp]: "is_hash (sha256_hex m)"
  by (auto simp: is_hash_def list_all_iff sha256_hex_lower)

lemma fromhex_sha [simp]: "fromhex (sha256_hex m) = Inr (sha256 m)"
  by (simp add: sha256_hex_def)

definition hash_ok :: "spine_event \<Rightarrow> bool" where
  "hash_ok e \<longleftrightarrow> ev_content_hash e = sha256_hex (utf8 (json_dumps False (PDict (ev_core e))))"

definition sig_ok :: "nacl \<Rightarrow> spine_event \<Rightarrow> bool" where
  "sig_ok n e \<longleftrightarrow> (\<exists>pk s digest. decode_ed25519_did_key (ev_author_did e) = Inr pk \<and> ev_sig e = b64u_encode s
     \<and> length s = 64 \<and> fromhex (ev_content_hash e) = Inr digest \<and> nacl_available n \<and> nacl_verify n pk digest s)"

lemma verify_event_structure:
  assumes "keys_once (PDict (ev_payload e))"
  shows "verify_event n e = Inr (True, m) \<longleftrightarrow> event_wf e \<and> hash_ok e \<and> sig_ok n e \<and> m = ''ok''" (is "?L \<longleftrightarrow> ?R")
proof
  assume L: ?L
  then obtain validated where v: "event_from_dict (PDict (event_to_dict e)) = Inr validated"
    by (auto simp: verify_event_def res_iffs split: sum.splits if_splits)
  then have w: "event_wf e" and ve: "validated = e" using from_dict_to_dict [OF assms] by auto
  note L' = L [unfolded verify_event_def v ve bindR_simps content_hash_wf [OF w]]
  then have h: "hash_ok e" by (auto simp: hash_ok_def split: if_splits)
  obtain verifier s where f: "from_did (ev_author_did e) (PStr []) PNone = Inr verifier" "b64u_decode (ev_sig e) = Inr s"
    using L' by (auto simp: res_iffs split: sum.splits if_splits)
  obtain pk where pk: "decode_ed25519_did_key (ev_author_did e) = Inr pk" "id_verify_key verifier = Some pk" "length pk = 32"
    using from_did_verify_key [OF f(1)] by blast
  have "length s = 64" "b64u_encode s = ev_sig e" "nacl_available n" "m = ''ok''"
    "nacl_verify n pk (sha256 (utf8 (json_dumps False (PDict (ev_core e))))) s"
    using L' f h pk
    by (auto simp: hash_ok_def identity_verify_def bytes_or_def bytes_truthy_def res_iffs split: if_splits)
  then show ?R using w h pk(1) unfolding sig_ok_def by (metis fromhex_sha hash_ok_def)
next
  assume R: ?R
  then obtain pk s digest where s: "decode_ed25519_did_key (ev_author_did e) = Inr pk" "ev_sig e = b64u_encode s"
    "length s = 64" "fromhex (ev_content_hash e) = Inr digest" "nacl_available n" "nacl_verify n pk digest s"
    by (auto simp: sig_ok_def)
  obtain verifier where f: "from_did (ev_author_did e) (PStr []) PNone = Inr verifier" "id_verify_key verifier = Some pk"
    using from_did_total [OF s(1)] by blast
  have "pk \<noteq> []" using s(1) by (auto simp: decode_did_iff encode_ed25519_did_key_def split: if_splits)
  moreover have "event_from_dict (PDict (event_to_dict e)) = Inr e" using from_dict_to_dict [OF assms] R by blast
  ultimately show ?L using R s f content_hash_wf [of e]
    by (simp add: verify_event_def hash_ok_def verify_None)
qed

section \<open>Signing gives a verifiable event\<close>

definition signed_event :: "nacl \<Rightarrow> identity \<Rightarrow> int \<Rightarrow> string \<Rightarrow> string \<Rightarrow> pydict \<Rightarrow> int \<Rightarrow> spine_event" where
  "signed_event n i seq prev_hash typ payload ts_ms =
     (let did = projr (as_did i);
          msg = utf8 (json_dumps False (PDict (mk_core seq prev_hash typ payload did ts_ms)))
      in \<lparr>ev_seq = seq, ev_prev_hash = prev_hash, ev_type = typ, ev_payload = payload, ev_author_did = did,
          ev_ts_ms = ts_ms, ev_content_hash = sha256_hex msg,
          ev_sig = b64u_encode (nacl_sign n (the (id_signing_key i)) (sha256 msg))\<rparr>)"

lemma b64u_encode_Nil: "b64u_encode bs = [] \<longleftrightarrow> bs = []"
  by (cases bs rule: b64u_encode.cases) auto

lemma signed_event_ok:
  assumes ed: "ed25519_ok n" and signer: "signer_ok n i"
    and "0 \<le> seq" "0 < ts" "is_hash prev" "is_event_type typ" "payload_clean p"
  shows "sign_event n i seq prev typ p ts = Inr (signed_event n i seq prev typ p ts)"
    and "event_wf (signed_event n i seq prev typ p ts)"
    and "hash_ok (signed_event n i seq prev typ p ts)"
    and "sig_ok n (signed_event n i seq prev typ p ts)"
proof -
  let ?e = "signed_event n i seq prev typ p ts"
  obtain did where did: "as_did i = Inr did"
    and dec: "decode_ed25519_did_key did = Inr (nacl_pub n (the (id_signing_key i)))"
    using signer_did [OF ed signer] by metis
  obtain seed where seed: "id_signing_key i = Some seed" "length seed = 32" using signer by (rule signer_okE)
  note ok = ed25519_okD [OF ed seed(2)]
  have "did \<noteq> []" using dec by (auto simp: decode_ed25519_did_key_def startswith_def did_key_prefix_def)
  moreover have "nacl_sign n seed m \<noteq> []" for m using ok(3) [of m] by auto
  ultimately show w: "event_wf ?e"
    using assms did by (simp add: event_wf_def signed_event_def Let_def b64u_encode_Nil seed)
  show h: "hash_ok ?e" by (simp add: hash_ok_def signed_event_def Let_def ev_core_def)
  show "sig_ok n ?e"
    using dec ok did seed by (auto simp: sig_ok_def signed_event_def Let_def)
  have k: "keys_once (PDict p)" using \<open>payload_clean p\<close> wf_keys_once(1) by (simp add: payload_clean_def del: keys_once.simps)
  have core: "mk_core seq prev typ p did ts = ev_core ?e" and
    d: "mk_core seq prev typ p did ts @ obj [(''content_hash'', PStr (ev_content_hash ?e)), (''sig'', PStr (ev_sig ?e))] = event_to_dict ?e"
    using did by (simp_all add: signed_event_def Let_def event_to_dict_def ev_core_def)
  have "event_content_hash (mk_core seq prev typ p did ts) = Inr (ev_content_hash ?e)"
    using content_hash_wf [OF w] h core by (simp add: hash_ok_def)
  moreover have "fromhex (ev_content_hash ?e) = Inr (sha256 (utf8 (json_dumps False (PDict (ev_core ?e)))))"
    using h by (simp add: hash_ok_def)
  moreover have "b64u_encode (nacl_sign n seed (sha256 (utf8 (json_dumps False (PDict (ev_core ?e)))))) = ev_sig ?e"
    using did seed core [symmetric] by (simp add: signed_event_def Let_def)
  moreover have "event_from_dict (PDict (event_to_dict ?e)) = Inr ?e"
    using from_dict_to_dict [of ?e ?e] event_wf_keys_once [OF w] w by blast
  ultimately show "sign_event n i seq prev typ p ts = Inr ?e"
    using assms did d signer_sign [OF ed signer] seed
    by (simp add: sign_event_def payload_checked_clean [OF k])
qed

lemma signed_event_only:
  assumes "ed25519_ok n" "signer_ok n i" "sign_event n i seq prev typ p ts = Inr e" "keys_once (PDict p)"
  shows "0 \<le> seq \<and> 0 < ts \<and> is_hash prev \<and> is_event_type typ \<and> payload_clean p \<and> e = signed_event n i seq prev typ p ts"
proof -
  have c: "0 \<le> seq" "0 < ts" "is_hash prev" "is_event_type typ" "payload_clean p"
    using assms by (auto simp: sign_event_def ensure_Inr_iff payload_checked_clean)
  with signed_event_ok(1) [OF assms(1,2) this] assms(3) show ?thesis by simp
qed

lemma signed_event_sel [simp]:
  "ev_seq (signed_event n i seq prev typ p ts) = seq"
  "ev_prev_hash (signed_event n i seq prev typ p ts) = prev"
  "ev_type (signed_event n i seq prev typ p ts) = typ"
  "ev_payload (signed_event n i seq prev typ p ts) = p"
  "ev_author_did (signed_event n i seq prev typ p ts) = projr (as_did i)"
  "ev_ts_ms (signed_event n i seq prev typ p ts) = ts"
  by (simp_all add: signed_event_def Let_def)

lemma is_hash_genesis [simp]: "is_hash genesis_prev"
  by code_simp

lemma payload_clean_Nil [simp]: "payload_clean []"
proof -
  have "length (utf8 ''{}'') = 2" by code_simp
  then show ?thesis by (simp add: payload_clean_def json_dumps_def max_spine_payload_bytes_def)
qed

section \<open>Properties\<close>

text \<open>What a node signs, every verifier accepts: with valid arguments \<open>sign_event\<close> returns an
  event with exactly those arguments and the signer's DID as author, and \<open>verify_event\<close> on it
  answers \<open>(True, "ok")\<close>.\<close>

lemma sign_event_verifies:
  assumes "ed25519_ok n" "signer_ok n i" "0 \<le> seq" "0 < ts" "is_hash prev" "is_event_type typ"
    "keys_once (PDict p)" "canonical_json (PDict p) = Inr bs" "length bs \<le> max_spine_payload_bytes"
  shows "\<exists>e did. sign_event n i seq prev typ p ts = Inr e \<and> verify_event n e = Inr (True, ''ok'')
      \<and> as_did i = Inr did \<and> ev_core e = mk_core seq prev typ p did ts"
proof -
  have p: "payload_clean p"
    using canonical_json_Inr [OF assms(8,7)] assms(9) by (metis payload_clean_def)
  note s = signed_event_ok [OF assms(1-6) p]
  obtain did where did: "as_did i = Inr did" using signer_did [OF assms(1,2)] by metis
  have "verify_event n (signed_event n i seq prev typ p ts) = Inr (True, ''ok'')"
    using verify_event_structure [OF event_wf_keys_once] s by blast
  with s(1) did show ?thesis by (auto simp: ev_core_def)
qed

lemma sign_event_verifies_demo:
  "\<exists>e did. sign_event demo_nacl (demo_identity 1) 0 genesis_prev ''a.b'' [] 5 = Inr e
     \<and> verify_event demo_nacl e = Inr (True, ''ok'') \<and> as_did (demo_identity 1) = Inr did
     \<and> ev_core e = mk_core 0 genesis_prev ''a.b'' [] did 5"
proof (rule sign_event_verifies [OF demo_nacl_ok demo_signer])
  show "canonical_json (PDict []) = Inr (ascii_bytes ''{}'')" by code_simp
  show "length (ascii_bytes ''{}'') \<le> max_spine_payload_bytes" by (simp add: max_spine_payload_bytes_def)
  show "is_event_type ''a.b''" by code_simp
qed simp_all

lemma core_bytes_inject:
  assumes "event_wf e" "event_wf e'" "json_dumps False (PDict (ev_core e)) = json_dumps False (PDict (ev_core e'))"
  shows "ev_seq e = ev_seq e' \<and> ev_prev_hash e = ev_prev_hash e' \<and> ev_type e = ev_type e' \<and>
    canon (PDict (ev_payload e)) = canon (PDict (ev_payload e')) \<and> ev_author_did e = ev_author_did e' \<and> ev_ts_ms e = ev_ts_ms e'"
proof -
  have w: "wf_json (PDict (ev_core e))" "wf_json (PDict (ev_core e'))"
    using assms(1,2) wf_core by (auto simp: event_wf_def payload_clean_def)
  obtain c where c: "canon (PDict (ev_core e)) = PDict c" by simp
  moreover have "canon (PDict (ev_core e')) = PDict c"
    using assms(3) json_dumps_inject [OF w] c by simp
  ultimately have "map_option canon (dget (ev_core e) k) = map_option canon (dget (ev_core e') k)" for k
    using dget_canon [OF w(1)] dget_canon [OF w(2)] by metis
  from this [of "''seq''"] this [of "''prev_hash''"] this [of "''type''"] this [of "''payload''"]
    this [of "''author_did''"] this [of "''ts_ms''"]
  show ?thesis by (simp add: ev_core_def mk_core_def obj_def del: canon.simps(2))
qed

text \<open>Two verified events with one content hash agree on the whole core, or their core bytes are
  a SHA-256 collision.\<close>

lemma same_hash_same_core:
  assumes "event_wf e" "hash_ok e" "event_wf e'" "hash_ok e'" "ev_content_hash e = ev_content_hash e'"
  shows "(ev_seq e = ev_seq e' \<and> ev_prev_hash e = ev_prev_hash e' \<and> ev_type e = ev_type e' \<and>
      canon (PDict (ev_payload e)) = canon (PDict (ev_payload e')) \<and> ev_author_did e = ev_author_did e' \<and> ev_ts_ms e = ev_ts_ms e')
    \<or> sha_collision (utf8 (json_dumps False (PDict (ev_core e)))) (utf8 (json_dumps False (PDict (ev_core e'))))"
proof -
  consider "json_dumps False (PDict (ev_core e)) = json_dumps False (PDict (ev_core e'))"
    | "sha_collision (utf8 (json_dumps False (PDict (ev_core e)))) (utf8 (json_dumps False (PDict (ev_core e'))))"
    using assms(2,4,5) by (auto simp: hash_ok_def sha256_hex_eq_iff)
  then show ?thesis using core_bytes_inject [OF assms(1,3)] by cases blast+
qed

text \<open>Verification does not fail closed on a crafted author: an event whose structure and content hash
  are right but whose \<open>author_did\<close> is no \<open>did:key\<close> makes \<open>verify_event\<close> raise \<open>DIDKeyError\<close>
  (not a \<open>ValueError\<close>, so not caught) instead of answering \<open>(False, reason)\<close>.\<close>

lemma verify_event_bad_did_raises:
  assumes "event_wf e" "hash_ok e" "\<not> is_did_key (PStr (ev_author_did e))"
  shows "\<exists>m. verify_event n e = Inl (Exn DIDKeyError m)"
proof -
  obtain x where x: "decode_ed25519_did_key (ev_author_did e) = Inl x"
    using assms(3) by (cases "decode_ed25519_did_key (ev_author_did e)") (auto simp: is_did_key_iff decode_did_iff)
  then obtain m where m: "x = Exn DIDKeyError m"
    using b58_sum_error by (cases x) (force simp: decode_ed25519_did_key_def b58decode_def res_iffs Let_def split: if_splits)
  have "event_from_dict (PDict (event_to_dict e)) = Inr e"
    using from_dict_to_dict [OF event_wf_keys_once] assms(1) by blast
  then show ?thesis using x m assms content_hash_wf [OF assms(1)]
    by (simp add: verify_event_def hash_ok_def from_did_def is_value_error_def)
qed

definition bad_author_event :: spine_event where
  "bad_author_event = (let e = \<lparr>ev_seq = 0, ev_prev_hash = genesis_prev, ev_type = ''x'', ev_payload = [],
       ev_author_did = ''mallory'', ev_ts_ms = 1, ev_content_hash = [], ev_sig = ''AA''\<rparr>
     in e\<lparr>ev_content_hash := sha256_hex (utf8 (json_dumps False (PDict (ev_core e))))\<rparr>)"

lemma verify_event_bad_did_raises_demo:
  "\<exists>m. verify_event demo_nacl bad_author_event = Inl (Exn DIDKeyError m)"
proof (rule verify_event_bad_did_raises)
  have "is_event_type ''x''" by code_simp
  then show "event_wf bad_author_event" by (simp add: bad_author_event_def event_wf_def Let_def)
  show "hash_ok bad_author_event" by (simp add: bad_author_event_def hash_ok_def Let_def ev_core_def)
  have "\<not> is_did_key (PStr ''mallory'')" by code_simp
  then show "\<not> is_did_key (PStr (ev_author_did bad_author_event))" by (simp add: bad_author_event_def Let_def)
qed

end
