(* ===== verification/Hash_Chain.thy ===== *)
theory Hash_Chain
  imports Main
begin

text \<open>
  The contract of a hash chain: records that name the hash of their predecessor and carry their own
  position, where equal hashes mean the same content or a visible collision. Whoever
  provides such records gets the history theorem: the hash of the last record fixes the
  whole sequence.
\<close>

locale hash_chain =
  fixes good :: "'e \<Rightarrow> bool"
    and hash :: "'e \<Rightarrow> 'h"
    and prev :: "'e \<Rightarrow> 'h"
    and pos :: "'e \<Rightarrow> int"
    and same :: "'e \<Rightarrow> 'e \<Rightarrow> bool"
    and collide :: "'e \<Rightarrow> 'e \<Rightarrow> bool"
    and root :: 'h
  assumes hash_binds: "good x \<Longrightarrow> good y \<Longrightarrow> hash x = hash y \<Longrightarrow> same x y \<or> collide x y"
    and same_prev: "same x y \<Longrightarrow> prev x = prev y"
    and same_pos: "same x y \<Longrightarrow> pos x = pos y"
begin

fun linked :: "'h \<Rightarrow> int \<Rightarrow> 'e list \<Rightarrow> bool" where
  "linked h k [] = True"
| "linked h k (x # xs) = (good x \<and> prev x = h \<and> pos x = k \<and> linked (hash x) (k + 1) xs)"

definition tip :: "'h \<Rightarrow> 'e list \<Rightarrow> 'h" where
  "tip h xs = (if xs = [] then h else hash (last xs))"

lemma tip_simps [simp]: "tip h [] = h" "tip h (x # xs) = tip (hash x) xs" "tip h (xs @ [x]) = hash x"
  by (simp_all add: tip_def)

lemma linked_append: "linked h k (xs @ ys) \<longleftrightarrow> linked h k xs \<and> linked (tip h xs) (k + int (length xs)) ys"
  by (induction xs arbitrary: h k) (auto simp: algebra_simps)

lemma linked_snoc:
  "linked h k (xs @ [x]) \<longleftrightarrow> linked h k xs \<and> good x \<and> prev x = tip h xs \<and> pos x = k + int (length xs)"
  by (simp add: linked_append)

lemma linked_good: "linked h k xs \<Longrightarrow> x \<in> set xs \<Longrightarrow> good x"
  by (induction xs arbitrary: h k) auto

lemma linked_nth_pos: "linked h k xs \<Longrightarrow> j < length xs \<Longrightarrow> pos (xs ! j) = k + int j"
proof (induction xs arbitrary: h k j)
  case (Cons x xs)
  then show ?case by (cases j) auto
qed simp

lemma history:
  assumes "linked root 0 xs" "linked root 0 ys" "xs \<noteq> []" "ys \<noteq> []" "hash (last xs) = hash (last ys)"
  shows "list_all2 same xs ys \<or> (\<exists>x \<in> set xs. \<exists>y \<in> set ys. collide x y)"
  using assms
proof (induction xs arbitrary: ys rule: rev_induct)
  case (snoc x xs)
  obtain ys' y where ys: "ys = ys' @ [y]" using snoc.prems(4) by (cases ys rule: rev_cases) auto
  have x: "linked root 0 xs" "good x" "prev x = tip root xs" "pos x = int (length xs)"
    and y: "linked root 0 ys'" "good y" "prev y = tip root ys'" "pos y = int (length ys')"
    using snoc.prems(1,2) by (auto simp: ys linked_snoc)
  consider "collide x y" | "same x y" using hash_binds [OF x(2) y(2)] snoc.prems(5) by (auto simp: ys)
  then show ?case
  proof cases
    case 1
    then show ?thesis by (auto simp: ys)
  next
    case 2
    then have len: "length xs = length ys'" and tips: "tip root xs = tip root ys'"
      using same_pos [OF 2] same_prev [OF 2] x y by auto
    show ?thesis
    proof (cases "xs = []")
      case True
      with len 2 show ?thesis by (simp add: ys)
    next
      case False
      with len have "ys' \<noteq> []" by auto
      with snoc.IH [OF x(1) y(1) False] tips False have
        "list_all2 same xs ys' \<or> (\<exists>x \<in> set xs. \<exists>y \<in> set ys'. collide x y)"
        by (simp add: tip_def)
      with 2 show ?thesis by (auto simp: ys list_all2_appendI)
    qed
  qed
qed simp

text \<open>A shorter valid history of the same chain is a prefix of the longer one, record by record.\<close>

lemma history_prefix:
  assumes "linked root 0 xs" "linked root 0 (ys @ zs)" "xs \<noteq> []" "ys \<noteq> []" "hash (last xs) = hash (last ys)"
  shows "list_all2 same xs ys \<or> (\<exists>x \<in> set xs. \<exists>y \<in> set ys. collide x y)"
  using assms history by (simp add: linked_append)

end

end
