(* ===== verification/Spine_Log.thy ===== *)
theory Spine_Log
  imports Spine_Event Hash_Chain
begin

text \<open>
  \<open>nth_dao/spine/log.py\<close>: the append-only signed log of one node. The files are byte strings: the
  JSONL log and the pending append intent, each absent or present. Reading splits the log into
  lines, decodes each, and checks sequence, links and signatures in order, stopping at the first
  fault; a prefix can be verified up to a byte offset. An append writes the intent, then the record, then removes
  the intent; recovery redoes an interrupted append from its intent. The in-memory head is
  part of the state; the verified-events cache is not: it is keyed by a digest of the whole file
  and returns what the scan returned for that content. Process locks are held for a whole
  operation, so operations are steps on this state.
\<close>

section \<open>State\<close>

record spine_disk =
  log_file :: "bytes option"
  pending_file :: "bytes option"

record spine_log = spine_disk +
  head_hash :: string
  head_seq :: int

definition newline :: "8 word" where
  "newline = 10"

definition max_spine_line_bytes :: nat where
  "max_spine_line_bytes = 2 * 1024 * 1024"

definition max_spine_append_intent_bytes :: nat where
  "max_spine_append_intent_bytes = max_spine_line_bytes + 1024"

definition max_spine_append_batch :: nat where
  "max_spine_append_batch = 1000"

definition max_spine_append_batch_bytes :: nat where
  "max_spine_append_batch_bytes = 8 * 1024 * 1024"

definition file_bytes :: "bytes option \<Rightarrow> bytes" where
  "file_bytes f = (case f of None \<Rightarrow> [] | Some bs \<Rightarrow> bs)"

section \<open>Encoding\<close>

definition encode_event :: "spine_event \<Rightarrow> bytes" where
  "encode_event e = ascii_bytes (json_dumps True (PDict (event_to_dict e)))"

definition encode_payload :: "pyval \<Rightarrow> bytes res" where
  "encode_payload payload = (case payload of
     PDict p \<Rightarrow> (case canonical_json payload of
        Inl _ \<Rightarrow> raise ValueError ''spine event payload is not canonical JSON''
      | Inr encoded \<Rightarrow> ensure (length encoded \<le> max_spine_payload_bytes) ValueError
                         ''spine event payload exceeds byte limit'' (Inr encoded))
   | _ \<Rightarrow> raise ValueError ''payload must be an object'')"

text \<open>\<open>json.loads\<close> of UTF-8 bytes the module itself wrote.\<close>

definition loads_bytes :: "bytes \<Rightarrow> pyval res" where
  "loads_bytes bs = (case Option.bind (utf8_decode bs) json_loads of
     None \<Rightarrow> raise ValueError ''unparseable'' | Some v \<Rightarrow> Inr v)"

definition snapshot_payload :: "pyval \<Rightarrow> pydict res" where
  "snapshot_payload payload = bindR (encode_payload payload) (\<lambda>bs. bindR (loads_bytes bs) (\<lambda>v.
     case v of PDict d \<Rightarrow> Inr d | _ \<Rightarrow> raise ValueError ''payload must be an object''))"

definition charge_batch_bytes :: "nat \<Rightarrow> nat \<Rightarrow> nat res" where
  "charge_batch_bytes used additional =
     ensure (used + additional \<le> max_spine_append_batch_bytes) ValueError
       ''spine append batch exceeds byte budget'' (Inr (used + additional))"

definition snapshot_event :: "spine_event \<Rightarrow> spine_event" where
  "snapshot_event e =
     (case Option.bind (utf8_decode (encode_event e)) json_loads of
        Some (PDict d) \<Rightarrow> event_from_fields d
      | _ \<Rightarrow> e)"

definition intent_document :: "nat \<Rightarrow> bytes \<Rightarrow> pydict" where
  "intent_document base_size line = obj
     [(''version'', PInt 1), (''base_size'', PInt (int base_size)), (''line'', PStr (map byte_char line)),
      (''line_sha256'', PStr (sha256_hex line))]"

definition encode_append_intent :: "nat \<Rightarrow> bytes \<Rightarrow> bytes res" where
  "encode_append_intent base_size line =
     (let encoded = ascii_bytes (json_dumps True (PDict (intent_document base_size line)))
      in ensure (length encoded \<le> max_spine_append_intent_bytes) ValueError
           ''spine append intent exceeds byte limit'' (Inr encoded))"

definition ascii_decode :: "bytes \<Rightarrow> string option" where
  "ascii_decode bs = (if list_all (\<lambda>b. unat b < 128) bs then Some (map byte_char bs) else None)"

definition intent_fields :: "string list" where
  "intent_fields = [''version'', ''base_size'', ''line'', ''line_sha256'']"

definition read_append_intent :: "bytes option \<Rightarrow> (nat \<times> bytes) option res" where
  "read_append_intent pending = (case pending of
     None \<Rightarrow> Inr None
   | Some raw \<Rightarrow>
       ensure (1 \<le> length raw \<and> length raw \<le> max_spine_append_intent_bytes) ValueError
         ''spine append intent exceeds byte limit'' (
       case Option.bind (ascii_decode raw) json_loads of
         None \<Rightarrow> raise ValueError ''spine append intent is unparseable''
       | Some (PDict d) \<Rightarrow>
           ensure (same_keys d intent_fields) ValueError ''spine append intent structure is invalid'' (
           ensure (py_eq (dget_or d ''version'' PNone) (PInt 1) \<and> strict_int_from 0 (dget d ''base_size'')
                   \<and> is_str (dget_or d ''line'' PNone) \<and> is_str (dget_or d ''line_sha256'' PNone))
             ValueError ''spine append intent fields are invalid'' (
           let line_text = the_str (dget d ''line''); line = ascii_bytes line_text in
           ensure (list_all (\<lambda>c. of_char c < (128 :: nat)) line_text) ValueError
             ''spine append intent line is not ASCII'' (
           ensure (1 \<le> length line \<and> length line \<le> max_spine_line_bytes
                   \<and> char_of (10 :: nat) \<notin> set line_text \<and> char_of (13 :: nat) \<notin> set line_text
                   \<and> sha256_hex line = the_str (dget d ''line_sha256''))
             ValueError ''spine append intent line is invalid''
             (Inr (Some (nat (the_int (dget d ''base_size'')), line))))))
       | _ \<Rightarrow> raise ValueError ''spine append intent structure is invalid''))"

section \<open>Reading and verifying\<close>

text \<open>\<open>readline\<close>: the lines of a file, each with its newline, the last one possibly without.\<close>

fun lines_of :: "bytes \<Rightarrow> bytes list" where
  "lines_of [] = []"
| "lines_of (b # bs) =
     (if b = newline then [b] # lines_of bs
      else case lines_of bs of [] \<Rightarrow> [[b]] | l # ls \<Rightarrow> (b # l) # ls)"

definition line_error :: "nat \<Rightarrow> string \<Rightarrow> string" where
  "line_error line_number msg = ''line '' @ nat_str line_number @ '': '' @ msg"

definition decode_line :: "bytes \<Rightarrow> nat \<Rightarrow> spine_event res" where
  "decode_line raw line_number =
     ensure (length raw \<le> max_spine_line_bytes) ValueError (line_error line_number ''event exceeds byte limit'') (
     case Option.bind (utf8_decode raw) json_loads of
       None \<Rightarrow> raise ValueError (line_error line_number ''unparseable'')
     | Some document \<Rightarrow>
         (case event_from_dict document of
            Inl e \<Rightarrow> raise ValueError (line_error line_number (''invalid event structure ('' @ exn_msg e @ '')''))
          | Inr e \<Rightarrow> Inr e))"

definition blank_line :: "bytes \<Rightarrow> bool" where
  "blank_line raw \<longleftrightarrow> list_all (\<lambda>b. unat b \<in> {32, 9, 10, 11, 12, 13}) raw"

type_synonym scan_result = "(bool \<times> string \<times> spine_event list) res"

fun scan_lines :: "nacl \<Rightarrow> nat option \<Rightarrow> nat \<Rightarrow> nat \<Rightarrow> string \<Rightarrow> int \<Rightarrow> spine_event list \<Rightarrow> bytes list \<Rightarrow> scan_result" where
  "scan_lines n stop line_number consumed prev seq events [] =
     (if stop \<noteq> None \<and> stop \<noteq> Some consumed
      then Inr (False, ''spine append intent base exceeds log size'', events)
      else Inr (True, ''ok'', events))"
| "scan_lines n stop line_number consumed prev seq events (raw # rest) =
     (let lnum = line_number + 1; consumed' = consumed + length raw in
      if max_spine_line_bytes < length raw then Inr (False, line_error lnum ''event exceeds byte limit'', events)
      else if stop \<noteq> None \<and> the stop < consumed'
      then Inr (False, ''spine append intent base is not line-aligned'', events)
      else if last raw \<noteq> newline then Inr (False, line_error lnum ''incomplete final record'', events)
      else if blank_line raw
      then if stop = Some consumed' then Inr (True, ''ok'', events)
           else scan_lines n stop lnum consumed' prev seq events rest
      else case decode_line raw lnum of
        Inl e \<Rightarrow> if exn_cls e = TypeError \<or> is_value_error e then Inr (False, exn_msg e, events) else Inl e
      | Inr event \<Rightarrow>
          if ev_seq event \<noteq> seq
          then Inr (False, ''seq gap at '' @ int_str (ev_seq event) @ '' (expected '' @ int_str seq @ '')'', events)
          else if ev_prev_hash event \<noteq> prev
          then Inr (False, ''chain break at seq '' @ int_str (ev_seq event), events)
          else case verify_event n event of
            Inl e \<Rightarrow> if exn_cls e = TypeError \<or> is_value_error e then Inr (False, exn_msg e, events) else Inl e
          | Inr (ok, reason) \<Rightarrow>
              if \<not> ok then Inr (False, ''event '' @ int_str (ev_seq event) @ '': '' @ reason, events)
              else if stop = Some consumed' then Inr (True, ''ok'', events @ [event])
              else scan_lines n stop lnum consumed' (ev_content_hash event) (seq + 1) (events @ [event]) rest)"

definition verified_events :: "nacl \<Rightarrow> bytes option \<Rightarrow> nat option \<Rightarrow> scan_result" where
  "verified_events n file stop = (case file of
     None \<Rightarrow> if stop \<in> {None, Some 0} then Inr (True, ''ok'', [])
             else Inr (False, ''spine append intent base exceeds log size'', [])
   | Some bs \<Rightarrow> if stop = Some 0 then Inr (True, ''ok'', [])
                else scan_lines n stop 0 0 genesis_prev 0 [] (lines_of bs))"

section \<open>Recovery\<close>

text \<open>The dataclass equality of events: fields by \<open>==\<close>.\<close>

definition event_eq :: "spine_event \<Rightarrow> spine_event \<Rightarrow> bool" where
  "event_eq a b \<longleftrightarrow> ev_seq a = ev_seq b \<and> ev_prev_hash a = ev_prev_hash b \<and> ev_type a = ev_type b
     \<and> py_eq (PDict (ev_payload a)) (PDict (ev_payload b)) \<and> ev_author_did a = ev_author_did b
     \<and> ev_ts_ms a = ev_ts_ms b \<and> ev_content_hash a = ev_content_hash b \<and> ev_sig a = ev_sig b"

definition last_event :: "spine_event list \<Rightarrow> spine_event option" where
  "last_event es = (if es = [] then None else Some (last es))"

definition next_seq :: "spine_event list \<Rightarrow> int" where
  "next_seq es = (case last_event es of None \<Rightarrow> 0 | Some e \<Rightarrow> ev_seq e + 1)"

definition next_prev :: "spine_event list \<Rightarrow> string" where
  "next_prev es = (case last_event es of None \<Rightarrow> genesis_prev | Some e \<Rightarrow> ev_content_hash e)"

text \<open>What the checks before the first write of recovery establish: the intent's offset and record,
  and its event.\<close>

definition check_intent :: "nacl \<Rightarrow> identity \<Rightarrow> bytes option \<Rightarrow> nat \<Rightarrow> bytes \<Rightarrow> spine_event res" where
  "check_intent n i file base_size line =
     (let bs = file_bytes file in
      ensure (base_size \<le> length bs) ValueError ''spine append intent base exceeds log size'' (
      ensure (base_size = 0 \<or> bs ! (base_size - 1) = newline) ValueError
        ''spine append intent base is not line-aligned'' (
      bindR (verified_events n file (Some base_size)) (\<lambda>(ok, reason, prefix_events).
      ensure ok ValueError (''spine append intent prefix is corrupt: '' @ reason) (
      bindR (decode_line line (length prefix_events + 1)) (\<lambda>event.
      ensure (encode_event event = line) ValueError ''spine append intent event is not canonical'' (
      bindR (verify_event n event) (\<lambda>(valid, verify_reason).
      bindR (as_did i) (\<lambda>did.
      ensure (ev_seq event = next_seq prefix_events \<and> ev_prev_hash event = next_prev prefix_events
              \<and> ev_author_did event = did \<and> valid) ValueError
        (''spine append intent event is unauthorized or does not extend the verified prefix: '' @ verify_reason) (
      let record = line @ [newline]; existing_suffix = take (length record) (drop base_size bs) in
      ensure (existing_suffix = take (length existing_suffix) record) ValueError
        ''spine append tail conflicts with signed intent'' (Inr event)))))))))))"

definition recovered_file :: "bytes option \<Rightarrow> nat \<Rightarrow> bytes \<Rightarrow> bytes option" where
  "recovered_file file base_size line =
     (let bs = file_bytes file; record = line @ [newline] in
      if length bs - base_size < length record then Some (take base_size bs @ record) else file)"

definition recover_pending_append :: "nacl \<Rightarrow> identity \<Rightarrow> 'a spine_disk_scheme \<Rightarrow> 'a spine_disk_scheme \<times> unit res" where
  "recover_pending_append n i d =
     (case read_append_intent (pending_file d) of
        Inl e \<Rightarrow> (d, Inl e)
      | Inr None \<Rightarrow> (d, Inr ())
      | Inr (Some (base_size, line)) \<Rightarrow>
          (case check_intent n i (log_file d) base_size line of
             Inl e \<Rightarrow> (d, Inl e)
           | Inr event \<Rightarrow>
               let d' = d\<lparr>log_file := recovered_file (log_file d) base_size line\<rparr> in
               (case verified_events n (log_file d') None of
                  Inl e \<Rightarrow> (d', Inl e)
                | Inr (ok, reason, events) \<Rightarrow>
                    if \<not> ok then (d', raise ValueError (''recovered spine append is corrupt: '' @ reason))
                    else if int (length events) \<le> ev_seq event \<or> \<not> event_eq (events ! nat (ev_seq event)) event
                    then (d', raise ValueError ''recovered spine append does not match signed intent'')
                    else (d'\<lparr>pending_file := None\<rparr>, Inr ()))))"

section \<open>Appending\<close>

definition prepare_append :: "nacl \<Rightarrow> identity \<Rightarrow> string \<Rightarrow> pydict \<Rightarrow> int \<Rightarrow> spine_event option \<Rightarrow> nat \<Rightarrow> (spine_event \<times> bytes) res" where
  "prepare_append n i event_type payload ts_ms prior base_size =
     bindR (sign_event n i (case prior of Some l \<Rightarrow> ev_seq l + 1 | None \<Rightarrow> 0)
              (case prior of Some l \<Rightarrow> ev_content_hash l | None \<Rightarrow> genesis_prev) event_type payload ts_ms) (\<lambda>event.
     let line = encode_event event in
     ensure (length line \<le> max_spine_line_bytes) ValueError ''spine event exceeds line byte limit'' (
     bindR (encode_append_intent base_size line) (\<lambda>_. Inr (event, line))))"

text \<open>The three durable writes of one append, and the states between them. The intent is replaced
  atomically; the record may be torn.\<close>

definition write_intent :: "bytes \<Rightarrow> 'a spine_disk_scheme \<Rightarrow> 'a spine_disk_scheme" where
  "write_intent line d =
     (case encode_append_intent (length (file_bytes (log_file d))) line of
        Inr encoded \<Rightarrow> d\<lparr>pending_file := Some encoded\<rparr> | Inl _ \<Rightarrow> d)"

definition write_record :: "bytes \<Rightarrow> 'a spine_disk_scheme \<Rightarrow> 'a spine_disk_scheme" where
  "write_record record d = d\<lparr>log_file := Some (file_bytes (log_file d) @ record)\<rparr>"

definition clear_intent :: "'a spine_disk_scheme \<Rightarrow> 'a spine_disk_scheme" where
  "clear_intent d = d\<lparr>pending_file := None\<rparr>"

definition append_prepared :: "spine_event \<Rightarrow> bytes \<Rightarrow> spine_log \<Rightarrow> spine_log" where
  "append_prepared event line s =
     (clear_intent (write_record (line @ [newline]) (write_intent line s)))
       \<lparr>head_hash := ev_content_hash event, head_seq := ev_seq event\<rparr>"

text \<open>The head of an operation that first recovers and scans: the events of the log, or why not.\<close>

definition open_verified :: "nacl \<Rightarrow> identity \<Rightarrow> string \<Rightarrow> spine_log \<Rightarrow> spine_log \<times> spine_event list res" where
  "open_verified n i purpose s =
     (case recover_pending_append n i s of
        (s', Inl e) \<Rightarrow> (s', Inl e)
      | (s', Inr _) \<Rightarrow>
          (case verified_events n (log_file s') None of
             Inl e \<Rightarrow> (s', Inl e)
           | Inr (ok, reason, events) \<Rightarrow>
               if ok then (s', Inr events)
               else (s', raise ValueError (''spine log is corrupt and cannot be '' @ purpose @ '': '' @ reason))))"

definition spine_append :: "nacl \<Rightarrow> identity \<Rightarrow> string \<Rightarrow> pyval \<Rightarrow> int \<Rightarrow> spine_log \<Rightarrow> spine_log \<times> spine_event res" where
  "spine_append n i event_type payload ts_ms s =
     (case snapshot_payload payload of
        Inl e \<Rightarrow> (s, Inl e)
      | Inr p \<Rightarrow>
          (case open_verified n i ''appended'' s of
             (s', Inl e) \<Rightarrow> (s', Inl e)
           | (s', Inr events) \<Rightarrow>
               (case prepare_append n i event_type p ts_ms (last_event events) (length (file_bytes (log_file s'))) of
                  Inl e \<Rightarrow> (s', Inl e)
                | Inr (event, line) \<Rightarrow> (append_prepared event line s', Inr (snapshot_event event)))))"

section \<open>The text of an event line\<close>

definition printable :: "char \<Rightarrow> bool" where
  "printable c \<longleftrightarrow> 32 \<le> (of_char c :: nat) \<and> (of_char c :: nat) < 127"

lemma printable_simps [simp]:
  "printable (CHR '','')" "printable (CHR '':'')" "printable (CHR ''['')" "printable (CHR '']'')"
  "printable (CHR ''{'')" "printable (CHR ''}'')" "printable dquote" "printable bslash"
  by (simp_all add: printable_def dquote_def bslash_def)

lemma printable_letters [simp]:
  "printable (CHR ''n'')" "printable (CHR ''u'')" "printable (CHR ''l'')" "printable (CHR ''t'')" "printable (CHR ''r'')"
  "printable (CHR ''e'')" "printable (CHR ''f'')" "printable (CHR ''a'')" "printable (CHR ''s'')" "printable (CHR ''-'')"
  by (simp_all add: printable_def)

lemma printable_hex_char: "d < 16 \<Longrightarrow> printable (hex_char d)"
  using is_lower_hex_hex_char [of d] by (auto simp: printable_def is_lower_hex_def is_digit_def)

lemma printable_hex2: "m < 256 \<Longrightarrow> list_all printable (hex2 m)"
  by (simp add: hex2_def printable_hex_char)

lemma printable_esc: "list_all printable (esc_char True a)"
  using printable_hex2 [of "of_char a"]
  by (auto simp: esc_char_def Let_def printable_def bslash_def)

lemma printable_quote [simp]: "list_all printable (quote True s)"
  using printable_esc by (induction s) (simp_all add: quote_def)

lemma printable_digit: "is_digit c \<Longrightarrow> printable c"
  by (simp add: is_digit_def printable_def)

lemma printable_nat [simp]: "list_all printable (nat_str m)"
  using nat_str_digits printable_digit by (auto simp: list_all_iff)

lemma printable_int [simp]: "list_all printable (int_str i)"
  by (simp add: int_str_def)

lemma printable_elems:
  "list_all printable (dump_elems True (x # xs)) \<longleftrightarrow>
     list_all printable (dump_raw True x) \<and> list_all printable (dump_elems True xs)"
  by (cases xs) (simp_all del: dump_elems.simps(2) add: dump_elems.simps(2) [of True x])

lemma printable_members:
  "list_all printable (dump_members True ((k, v) # d)) \<longleftrightarrow>
     list_all printable (dump_raw True v) \<and> list_all printable (dump_members True d)"
  by (cases d) (simp_all del: dump_members.simps(2) add: dump_members.simps(2) [of True k])

lemma printable_containers:
  "list_all printable (dump_raw True (PList xs)) \<longleftrightarrow> list_all printable (dump_elems True xs)"
  "list_all printable (dump_raw True (PDict d)) \<longleftrightarrow> list_all printable (dump_members True d)"
  by (cases xs; simp del: dump_elems.simps(2)) (cases d; simp del: dump_members.simps(2))

lemma dump_raw_printable:
  "wf_json v \<Longrightarrow> list_all printable (dump_raw True v)"
  "wf_json_list xs \<Longrightarrow> list_all printable (dump_elems True xs)"
  "wf_json_pairs d \<Longrightarrow> list_all printable (dump_members True d)"
proof (induction v and xs and d rule: wf_json_wf_json_list_wf_json_pairs.induct)
qed (simp_all add: printable_elems printable_members printable_containers
    del: dump_elems.simps(2) dump_members.simps(2) dump_raw.simps(6,7))

lemma json_dumps_printable: "wf_json v \<Longrightarrow> list_all printable (json_dumps True v)"
  using dump_raw_printable(1) wf_json_canon(1) unfolding json_dumps_def by blast

lemma utf8_printable: "list_all printable s \<Longrightarrow> utf8 s = ascii_bytes s"
  by (induction s) (auto simp: utf8_def utf8_char_def ascii_bytes_def printable_def)

lemma canon_pairs_map: "canon_pairs d = map (\<lambda>(k, v). (k, canon v)) d"
  by (induction d) auto

lemma canon_idem:
  "canon (canon v) = canon v" "canon_list (canon_list xs) = canon_list xs" "canon_pairs (canon_pairs d) = canon_pairs d"
proof (induction v and xs and d rule: canon_canon_list_canon_pairs.induct)
  case (2 d)
  let ?s = "sort_key (\<lambda>p. key_text (fst p)) (canon_pairs d)"
  have "\<forall>p \<in> set (canon_pairs d). (\<lambda>(k, v). (k, canon v)) p = p"
    using 2 by (metis canon_pairs_map map_eq_conv map_ident)
  then have "canon_pairs ?s = ?s" unfolding canon_pairs_map [of ?s] by (intro map_idI) (simp only: set_sort)
  then show ?case by (simp add: sort_key_id_if_sorted)
qed auto

section \<open>Lines decode to the events they encode\<close>

definition event_canonical :: "spine_event \<Rightarrow> bool" where
  "event_canonical e \<longleftrightarrow> event_wf e \<and> canon (PDict (ev_payload e)) = PDict (ev_payload e)"

definition record_of :: "spine_event \<Rightarrow> bytes" where
  "record_of e = encode_event e @ [newline]"

definition log_bytes :: "spine_event list \<Rightarrow> bytes" where
  "log_bytes es = concat (map record_of es)"

lemma log_bytes_simps [simp]:
  "log_bytes [] = []" "log_bytes (e # es) = record_of e @ log_bytes es" "log_bytes (es @ fs) = log_bytes es @ log_bytes fs"
  "record_of e \<noteq> []" "log_bytes es = [] \<longleftrightarrow> es = []"
  by (cases es; simp add: log_bytes_def record_of_def)+

lemma event_text_printable: "event_wf e \<Longrightarrow> list_all printable (json_dumps True (PDict (event_to_dict e)))"
  using wf_event_dict [of e] by (intro json_dumps_printable) (simp add: event_wf_def payload_clean_def)

lemma utf8_decode_ascii:
  "\<forall>c \<in> set s. (of_char c :: nat) < 128 \<Longrightarrow> utf8_decode (ascii_bytes s) = Some s"
proof -
  assume "\<forall>c \<in> set s. (of_char c :: nat) < 128"
  then have "utf8 s = ascii_bytes s" by (induction s) (auto simp: utf8_def utf8_char_def ascii_bytes_def)
  then show ?thesis by (metis utf8_decode_utf8)
qed

lemma printable_ascii: "list_all printable s \<Longrightarrow> \<forall>c \<in> set s. (of_char c :: nat) < 128"
  by (auto simp: list_all_iff printable_def)

lemma ascii_newline: "[newline] = ascii_bytes [char_of (10 :: nat)]"
  by (simp add: newline_def ascii_bytes_def of_char_char_of_small)

lemma unat_newline [simp]: "unat newline = 10"
  by (simp add: newline_def)

lemma encode_event_no_newline: "event_wf e \<Longrightarrow> newline \<notin> set (encode_event e)"
proof
  assume e: "event_wf e" and "newline \<in> set (encode_event e)"
  then obtain c where c: "c \<in> set (json_dumps True (PDict (event_to_dict e)))" and "word_of_nat (of_char c) = newline"
    by (auto simp: encode_event_def ascii_bytes_def)
  then have "(of_char c :: nat) = 10"
    by (metis unat_newline unat_of_char_byte)
  then show False using event_text_printable [OF e] c by (auto simp: list_all_iff printable_def)
qed

lemma encode_event_head: "event_wf e \<Longrightarrow> \<exists>r. encode_event e = word_of_nat 123 # r"
proof -
  obtain d where d: "canon (PDict (event_to_dict e)) = PDict d" by simp
  then have "length d = length (event_to_dict e)"
    by (metis canon.simps(2) canon_pairs_map length_map length_sort pyval.inject(6))
  then have "d \<noteq> []" by (auto simp: event_dict_defs)
  then show ?thesis using d
    by (cases d) (simp_all add: encode_event_def json_dumps_def ascii_bytes_def del: dump_members.simps canon.simps)
qed

lemma record_not_blank: "event_wf e \<Longrightarrow> \<not> blank_line (encode_event e @ w)"
  using encode_event_head [of e] by (auto simp: blank_line_def unat_word_of_nat_byte)

lemma canon_event_dict:
  assumes "event_canonical e" "canon (PDict (event_to_dict e)) = PDict d"
  shows "event_from_fields d = e" "event_from_dict (PDict d) = Inr e"
proof -
  have w: "wf_json (PDict (event_to_dict e))" and k: "keys_once (PDict (ev_payload e))"
    using assms(1) wf_event_dict event_wf_keys_once by (auto simp: event_canonical_def event_wf_def payload_clean_def)
  have p: "canon (PDict (ev_payload e)) = PDict (ev_payload e)" using assms(1) by (simp add: event_canonical_def)
  note g = dget_canon [OF w assms(2)]
  have g': "dget d ''seq'' = Some (PInt (ev_seq e))" "dget d ''prev_hash'' = Some (PStr (ev_prev_hash e))"
    "dget d ''type'' = Some (PStr (ev_type e))" "dget d ''payload'' = Some (PDict (ev_payload e))"
    "dget d ''author_did'' = Some (PStr (ev_author_did e))" "dget d ''ts_ms'' = Some (PInt (ev_ts_ms e))"
    "dget d ''content_hash'' = Some (PStr (ev_content_hash e))" "dget d ''sig'' = Some (PStr (ev_sig e))"
    by (simp_all add: g dget_event_dict p del: canon.simps(2))
  show f: "event_from_fields d = e" by (simp add: event_from_fields_def g')
  have "set (map fst d) = set (map fst (event_to_dict e))"
    using assms(2) by (force simp: canon_pairs_map image_iff split_beta)
  then have "same_keys d event_fields" by (simp add: same_keys_def event_dict_keys)
  then show "event_from_dict (PDict d) = Inr e"
    using from_dict_of_fields [OF _ f k] g' assms(1) by (simp add: event_canonical_def)
qed

lemma loads_event_line:
  assumes "event_wf e" "list_all json_ws w"
  shows "Option.bind (utf8_decode (encode_event e @ ascii_bytes w)) json_loads = Some (canon (PDict (event_to_dict e)))"
proof -
  let ?t = "json_dumps True (PDict (event_to_dict e))"
  have "\<forall>c \<in> set (?t @ w). (of_char c :: nat) < 128"
    using printable_ascii [OF event_text_printable [OF assms(1)]] assms(2) by (auto simp: list_all_iff json_ws_def)
  then have "utf8_decode (encode_event e @ ascii_bytes w) = Some (?t @ w)"
    using utf8_decode_ascii [of "?t @ w"] by (simp add: encode_event_def ascii_bytes_def)
  moreover have "wf_json (PDict (event_to_dict e))" using assms(1) wf_event_dict by (simp add: event_wf_def payload_clean_def)
  ultimately show ?thesis using json_loads_dumps_ws assms(2) by (simp del: canon.simps)
qed

lemma decode_event_line:
  assumes "event_canonical e" "list_all json_ws w" "length (encode_event e @ ascii_bytes w) \<le> max_spine_line_bytes"
  shows "decode_line (encode_event e @ ascii_bytes w) lnum = Inr e"
proof -
  obtain d where d: "canon (PDict (event_to_dict e)) = PDict d" by simp
  have "event_wf e" using assms(1) by (simp add: event_canonical_def)
  then show ?thesis
    using loads_event_line [OF _ assms(2)] canon_event_dict(2) [OF assms(1) d] assms(3) d
    by (simp add: decode_line_def del: canon.simps)
qed

lemma decode_record:
  assumes "event_canonical e" "length (encode_event e) < max_spine_line_bytes"
  shows "decode_line (record_of e) lnum = Inr e"
  unfolding record_of_def ascii_newline
  by (rule decode_event_line [OF assms(1)]) (use assms(2) in \<open>auto simp: json_ws_def of_char_char_of_small\<close>)

lemma decode_bare:
  assumes "event_canonical e" "length (encode_event e) \<le> max_spine_line_bytes"
  shows "decode_line (encode_event e) lnum = Inr e"
  using decode_event_line [OF assms(1), of "[]"] assms(2) by (simp add: ascii_bytes_def)

lemma snapshot_canonical: "event_canonical e \<Longrightarrow> snapshot_event e = e"
proof -
  assume e: "event_canonical e"
  obtain d where d: "canon (PDict (event_to_dict e)) = PDict d" by simp
  have "event_wf e" using e by (simp add: event_canonical_def)
  then show ?thesis
    using loads_event_line [of e "[]"] canon_event_dict(1) [OF e d] d
    by (simp add: snapshot_event_def ascii_bytes_def del: canon.simps)
qed

section \<open>Scanning\<close>

fun chain_from :: "nacl \<Rightarrow> string \<Rightarrow> int \<Rightarrow> spine_event list \<Rightarrow> bool" where
  "chain_from n prev seq [] = True"
| "chain_from n prev seq (e # es) =
     (ev_seq e = seq \<and> ev_prev_hash e = prev \<and> verify_event n e = Inr (True, ''ok'')
      \<and> chain_from n (ev_content_hash e) (seq + 1) es)"

definition storable :: "spine_event \<Rightarrow> bool" where
  "storable e \<longleftrightarrow> event_canonical e \<and> length (encode_event e) < max_spine_line_bytes"

lemma lines_of_append: "newline \<notin> set xs \<Longrightarrow> lines_of (xs @ newline # ys) = (xs @ [newline]) # lines_of ys"
  by (induction xs) auto

lemma lines_of_record: "event_wf e \<Longrightarrow> lines_of (record_of e @ bs) = record_of e # lines_of bs"
  using lines_of_append [OF encode_event_no_newline] by (simp add: record_of_def)

lemma lines_of_log: "list_all storable es \<Longrightarrow> lines_of (log_bytes es @ bs) = map record_of es @ lines_of bs"
  by (induction es) (auto simp: storable_def event_canonical_def lines_of_record)

lemma scan_record:
  assumes "storable e" "ev_seq e = seq" "ev_prev_hash e = prev" "verify_event n e = Inr (True, ''ok'')"
    "stop = None \<or> consumed + length (record_of e) \<le> the stop"
  shows "scan_lines n stop lnum consumed prev seq acc (record_of e # rest) =
    (if stop = Some (consumed + length (record_of e)) then Inr (True, ''ok'', acc @ [e])
     else scan_lines n stop (lnum + 1) (consumed + length (record_of e)) (ev_content_hash e) (seq + 1) (acc @ [e]) rest)"
proof -
  have e: "event_canonical e" "length (encode_event e) < max_spine_line_bytes" using assms(1) by (auto simp: storable_def)
  have "event_wf e" using e(1) by (simp add: event_canonical_def)
  then have "\<not> blank_line (record_of e)" by (simp add: record_of_def record_not_blank)
  moreover have "length (record_of e) \<le> max_spine_line_bytes" "last (record_of e) = newline"
    using e(2) by (simp_all add: record_of_def)
  ultimately show ?thesis
    using assms(2-) decode_record [OF e] by (auto simp: Let_def)
qed

lemma scan_log:
  assumes "list_all storable es" "chain_from n prev seq es"
  shows "scan_lines n None lnum consumed prev seq acc (map record_of es) = Inr (True, ''ok'', acc @ es)"
  using assms
proof (induction es arbitrary: lnum consumed prev seq acc)
  case (Cons e es)
  then show ?case using scan_record [of e seq prev n None] by (simp del: scan_lines.simps(2))
qed simp

lemma scan_log_stop:
  assumes "list_all storable es" "chain_from n prev seq es" "es \<noteq> []"
  shows "scan_lines n (Some (consumed + length (log_bytes es))) lnum consumed prev seq acc (map record_of es @ rest)
    = Inr (True, ''ok'', acc @ es)"
  using assms
proof (induction es arbitrary: lnum consumed prev seq acc)
  case (Cons e es)
  show ?case
  proof (cases "es = []")
    case True
    then show ?thesis using Cons.prems scan_record [of e seq prev n]
      by (simp del: scan_lines.simps(2))
  next
    case False
    then show ?thesis
      using Cons.prems Cons.IH [OF _ _ False, of "ev_content_hash e" "seq + 1" "consumed + length (record_of e)"]
        scan_record [of e seq prev n "Some (consumed + length (log_bytes (e # es)))" consumed]
      by (simp add: add.assoc del: scan_lines.simps(2))
  qed
qed simp

lemma verified_log:
  "list_all storable es \<Longrightarrow> chain_from n genesis_prev 0 es \<Longrightarrow>
    verified_events n (Some (log_bytes es)) None = Inr (True, ''ok'', es)"
  using scan_log lines_of_log [of es "[]"] by (simp add: verified_events_def)

lemma verified_prefix:
  assumes "list_all storable es" "chain_from n genesis_prev 0 es"
  shows "verified_events n (Some (log_bytes es @ bs)) (Some (length (log_bytes es))) = Inr (True, ''ok'', es)"
proof (cases "es = []")
  case False
  then show ?thesis using scan_log_stop [OF assms False, of 0] lines_of_log [OF assms(1)]
    by (simp add: verified_events_def)
qed (simp add: verified_events_def)

section \<open>What the scan accepts is a chain\<close>

lemma keys_once_dget: "keys_once_pairs d \<Longrightarrow> dget d k = Some v \<Longrightarrow> keys_once v"
  by (induction d) (auto simp: dget_def split: if_splits)

lemma from_dict_payload:
  assumes "event_from_dict v = Inr e" "keys_once v"
  shows "keys_once (PDict (ev_payload e))"
proof -
  obtain d where v: "v = PDict d" and e: "e = event_from_fields d"
    using assms(1) by (auto simp: event_from_dict_def ensure_Inr_iff payload_checked_def split: pyval.splits sum.splits)
  have "keys_once (PDict (the_dict (dget d ''payload'')))"
    using keys_once_dget [of d "''payload''"] assms(2) v
    by (cases "dget d ''payload''" rule: the_dict.cases) auto
  then show ?thesis by (simp add: e event_from_fields_def)
qed

lemma decode_line_keys: "decode_line raw lnum = Inr e \<Longrightarrow> keys_once (PDict (ev_payload e))"
  unfolding decode_line_def ensure_Inr_iff
  using from_dict_payload json_loads_keys_once
  by (auto simp: Option.bind_eq_Some_conv split: option.splits sum.splits)

definition chain_events :: "spine_event list \<Rightarrow> bool" where
  "chain_events es \<longleftrightarrow> (\<forall>e \<in> set es. keys_once (PDict (ev_payload e)))"

lemma scan_sound:
  "scan_lines n stop lnum consumed prev seq acc lines = Inr (True, m, evs) \<Longrightarrow>
    \<exists>es. evs = acc @ es \<and> chain_from n prev seq es \<and> chain_events es"
proof (induction n stop lnum consumed prev seq acc lines rule: scan_lines.induct)
  case (1 n stop lnum consumed prev seq events)
  then show ?case by (auto simp: chain_events_def split: if_splits)
next
  case (2 n stop lnum consumed prev seq events raw rest)
  let ?c = "consumed + length raw"
  have basic: "\<not> max_spine_line_bytes < length raw" "\<not> (stop \<noteq> None \<and> the stop < ?c)" "last raw = newline"
    using "2.prems" by (auto simp: Let_def split: if_splits)
  show ?case
  proof (cases "blank_line raw")
    case True
    then show ?thesis
      using "2.prems" basic "2.IH"(1) [OF refl refl basic(1,2) _ True] by (auto simp: Let_def chain_events_def split: if_splits)
  next
    case False
    obtain e where e: "decode_line raw (lnum + 1) = Inr e"
      using "2.prems" basic False by (auto simp: Let_def split: sum.splits if_splits)
    have link: "ev_seq e = seq" "ev_prev_hash e = prev"
      using "2.prems" basic False e by (auto simp: Let_def split: if_splits)
    obtain r where v: "verify_event n e = Inr (True, r)"
      using "2.prems" basic False e link by (auto simp: Let_def split: sum.splits if_splits)
    then have ok: "verify_event n e = Inr (True, ''ok'')" using verify_event_structure [OF decode_line_keys [OF e]] by blast
    have k: "keys_once (PDict (ev_payload e))" using decode_line_keys [OF e] .
    show ?thesis
    proof (cases "stop = Some ?c")
      case True
      then have "evs = events @ [e]" using "2.prems" basic False e link v by (simp add: Let_def)
      then show ?thesis using link ok k by (auto simp: chain_events_def)
    next
      case nostop: False
      then have "scan_lines n stop (lnum + 1) ?c (ev_content_hash e) (seq + 1) (events @ [e]) rest = Inr (True, m, evs)"
        using "2.prems" basic False e link v by (auto simp: Let_def)
      then obtain es where "evs = (events @ [e]) @ es" "chain_from n (ev_content_hash e) (seq + 1) es" "chain_events es"
        using "2.IH"(2) [OF refl refl basic(1,2) _ False e _ _ v refl _ nostop] link basic(3) by auto
      then show ?thesis using link ok k by (intro exI [of _ "e # es"]) (auto simp: chain_events_def)
    qed
  qed
qed

lemma verified_sound:
  "verified_events n file stop = Inr (True, m, evs) \<Longrightarrow> chain_from n genesis_prev 0 evs \<and> chain_events evs"
  using scan_sound by (fastforce simp: verified_events_def chain_events_def split: option.splits if_splits)

section \<open>The spine is a hash chain\<close>

definition core_bytes :: "spine_event \<Rightarrow> bytes" where
  "core_bytes e = utf8 (json_dumps False (PDict (ev_core e)))"

definition core_same :: "spine_event \<Rightarrow> spine_event \<Rightarrow> bool" where
  "core_same e e' \<longleftrightarrow> ev_seq e = ev_seq e' \<and> ev_prev_hash e = ev_prev_hash e' \<and> ev_type e = ev_type e' \<and>
      canon (PDict (ev_payload e)) = canon (PDict (ev_payload e')) \<and> ev_author_did e = ev_author_did e' \<and> ev_ts_ms e = ev_ts_ms e'"

interpretation spine: hash_chain "\<lambda>e. event_wf e \<and> hash_ok e" ev_content_hash ev_prev_hash ev_seq core_same
  "\<lambda>e e'. sha_collision (core_bytes e) (core_bytes e')" genesis_prev
proof unfold_locales
  fix x y
  assume "event_wf x \<and> hash_ok x" "event_wf y \<and> hash_ok y" "ev_content_hash x = ev_content_hash y"
  then show "core_same x y \<or> sha_collision (core_bytes x) (core_bytes y)"
    using same_hash_same_core [of x y] unfolding core_same_def core_bytes_def by blast
qed (auto simp: core_same_def)

lemma chain_linked: "chain_from n h k es \<Longrightarrow> chain_events es \<Longrightarrow> spine.linked h k es"
proof (induction es arbitrary: h k)
  case (Cons e es)
  have "event_wf e \<and> hash_ok e"
    using verify_event_structure [of e n "''ok''"] Cons.prems by (simp add: chain_events_def del: keys_once.simps)
  with Cons show ?case by (simp add: chain_events_def)
qed simp

lemma chain_append:
  "chain_from n h k (es @ fs) \<longleftrightarrow> chain_from n h k es \<and> chain_from n (spine.tip h es) (k + int (length es)) fs"
  by (induction es arbitrary: h k) (auto simp: algebra_simps)

end
