(* ===== verification/Json_Size.thy ===== *)
theory Json_Size
  imports Canonical_Json
begin

text \<open>
  How long canonical JSON is. The stores compare the encoded length of what they write with fixed limits;
  \<open>json_bound\<close> is an upper bound that is computed from the value alone, so that a transition with
  small fields can be shown to pass those limits.
\<close>

lemma length_esc: "length (esc_char asc c) \<le> 6"
  by (simp add: esc_char_def Let_def hex2_def)

lemma length_quote: "length (quote asc s) \<le> 2 + 6 * length s"
proof -
  have "length (concat (map (esc_char asc) s)) \<le> 6 * length s"
    by (induction s) (use length_esc in \<open>auto simp: le_SucI add_mono\<close>)
  then show ?thesis by (simp add: quote_def)
qed

function (sequential) json_bound :: "pyval \<Rightarrow> nat"
  and bound_list :: "pyval list \<Rightarrow> nat"
  and bound_pairs :: "pydict \<Rightarrow> nat"
where
  "json_bound (PInt i) = length (int_str i)"
| "json_bound (PFloat f) = length (json_float f)"
| "json_bound (PStr s) = 2 + 6 * length s"
| "json_bound (PList xs) = 2 + bound_list xs"
| "json_bound (PDict d) = 2 + bound_pairs d"
| "json_bound _ = 5"
| "bound_list [] = 0"
| "bound_list (x # xs) = json_bound x + 1 + bound_list xs"
| "bound_pairs [] = 0"
| "bound_pairs ((k, v) # d) = 2 + 6 * length (key_text k) + json_bound v + 2 + bound_pairs d"
  by pat_completeness auto

termination
  by (relation "measure (\<lambda>x. case x of
        Inl v \<Rightarrow> size v
      | Inr (Inl xs) \<Rightarrow> size_list size xs
      | Inr (Inr d) \<Rightarrow> size_list (size_prod size size) d)") auto

lemma bound_list_append [simp]: "bound_list (xs @ ys) = bound_list xs + bound_list ys"
  by (induction xs) simp_all

lemma bound_pairs_append [simp]: "bound_pairs (xs @ ys) = bound_pairs xs + bound_pairs ys"
  by (induction xs rule: induct_list012) auto

lemma bound_pairs_sum: "bound_pairs d = sum_list (map (\<lambda>(k, v). 4 + 6 * length (key_text k) + json_bound v) d)"
  by (induction d) auto

lemma bound_canon: "json_bound (canon v) = json_bound v" "bound_list (canon_list xs) = bound_list xs" "bound_pairs (canon_pairs d) = bound_pairs d"
proof (induction v and xs and d rule: canon_canon_list_canon_pairs.induct)
  case (2 d)
  have "bound_pairs (sort_key (\<lambda>p. key_text (fst p)) (canon_pairs d)) = bound_pairs (canon_pairs d)"
    by (simp only: bound_pairs_sum sum_mset_sum_list [symmetric] mset_map mset_sort)
  then show ?case using 2 by simp
qed simp_all

lemma length_dump:
  "length (dump_raw asc v) \<le> json_bound v" "length (dump_elems asc xs) \<le> 1 + bound_list xs" "length (dump_members asc d) \<le> 1 + bound_pairs d"
proof (induction asc v and asc xs and asc d rule: dump_raw_dump_elems_dump_members.induct)
  case (12 asc k v d)
  have "length (dump_members asc ((k, v) # d)) \<le> length (quote asc (key_text k)) + length (dump_raw asc v) + 2 + length (dump_members asc d)"
    by (cases d) simp_all
  then show ?case using 12 length_quote [of asc "key_text k"] unfolding bound_pairs.simps by (cases d) auto
next
  case (10 asc x xs)
  have "length (dump_elems asc (x # xs)) \<le> length (dump_raw asc x) + 1 + (if xs = [] then 0 else length (dump_elems asc xs))"
    by (cases xs) simp_all
  then show ?case using 10 unfolding bound_list.simps by (cases xs) auto
next
  case (6 asc xs)
  then show ?case by (cases xs) simp_all
next
  case (7 asc d)
  then show ?case by (cases d) simp_all
next
  case (5 asc s)
  then show ?case using length_quote [of asc s] by simp
qed simp_all

lemma length_utf8: "length (utf8 s) \<le> 2 * length s"
  by (induction s) (auto simp: utf8_def utf8_char_def Let_def)

lemma canonical_json_bound:
  assumes "wf_json (PDict d)"
  obtains bs where "canonical_json (PDict d) = Inr bs" "length bs \<le> 2 * json_bound (PDict d)"
proof -
  have "length (json_dumps False (PDict d)) \<le> json_bound (PDict d)"
    using length_dump(1) [of False "canon (PDict d)"] by (simp only: json_dumps_def bound_canon(1))
  then show thesis using that [OF canonical_json_wf [OF assms]] length_utf8 [of "json_dumps False (PDict d)"] by linarith
qed

end
