(* ===== verification/Spine_Recovery.thy ===== *)
theory Spine_Recovery
  imports Spine_Log Json_Size
begin

text \<open>
  Appending and recovering, over the scan of \<open>Spine_Log\<close>: the abstract log is a list of events,
  \<open>log_rep\<close> says which file contents represent it, and the operations of the
  file-based log are shown to implement list append. The crash relation lists every disk an
  interrupted append can leave behind; recovery brings each back to the old or the new list.
\<close>

section \<open>Representation\<close>

definition log_rep :: "nacl \<Rightarrow> 'a spine_disk_scheme \<Rightarrow> spine_event list \<Rightarrow> bool" where
  "log_rep n d es \<longleftrightarrow> pending_file d = None \<and> file_bytes (log_file d) = log_bytes es
     \<and> list_all storable es \<and> chain_from n genesis_prev 0 es"

lemma file_bytes_simps [simp]: "file_bytes None = []" "file_bytes (Some bs) = bs"
  by (simp_all add: file_bytes_def)

lemma storable_events: "list_all storable es \<Longrightarrow> chain_events es"
  using event_wf_keys_once
  by (auto simp: list_all_iff storable_def event_canonical_def chain_events_def simp del: keys_once.simps)

lemma chain_next:
  assumes "chain_from n genesis_prev 0 es"
  shows "next_seq es = int (length es)" "next_prev es = spine.tip genesis_prev es"
proof -
  have "ev_seq (last es) = int (length es) - 1" if "es \<noteq> []"
    using assms that chain_append [of n genesis_prev 0 "butlast es" "[last es]"]
    by (auto simp: append_butlast_last_id Suc_le_eq of_nat_diff)
  then show "next_seq es = int (length es)" by (simp add: next_seq_def last_event_def)
  show "next_prev es = spine.tip genesis_prev es" by (simp add: next_prev_def last_event_def spine.tip_def)
qed

lemma chain_snoc:
  "chain_from n genesis_prev 0 (es @ [e]) \<longleftrightarrow> chain_from n genesis_prev 0 es \<and> ev_seq e = next_seq es
     \<and> ev_prev_hash e = next_prev es \<and> verify_event n e = Inr (True, ''ok'')"
  using chain_next [of n es] by (auto simp: chain_append)

lemma verified_rep:
  "list_all storable es \<Longrightarrow> chain_from n genesis_prev 0 es \<Longrightarrow> file_bytes f = log_bytes es \<Longrightarrow>
     verified_events n f None = Inr (True, ''ok'', es)"
  using verified_log [of es n] log_bytes_simps(5) [of es] by (cases f) (simp_all add: verified_events_def)

lemma open_rep: "log_rep n s es \<Longrightarrow> open_verified n i what s = (s, Inr es)"
  using verified_rep [of es n "log_file s"]
  by (simp add: open_verified_def recover_pending_append_def read_append_intent_def log_rep_def)

section \<open>Payload snapshots are canonical\<close>

lemma canon_same_bytes: "json_dumps asc (canon v) = json_dumps asc v"
  by (simp add: json_dumps_def canon_idem)

lemma snapshot_payload_ok:
  assumes "snapshot_payload v = Inr p" "keys_once v"
  shows "payload_clean p" "canon v = PDict p" "canon (PDict p) = PDict p"
proof -
  obtain d where v: "v = PDict d" using assms(1) by (cases v) (auto simp: snapshot_payload_def encode_payload_def)
  obtain bs where bs: "canonical_json v = Inr bs" "length bs \<le> max_spine_payload_bytes"
    and l: "bindR (loads_bytes bs) (\<lambda>v. case v of PDict d \<Rightarrow> Inr d | _ \<Rightarrow> raise ValueError ''payload must be an object'') = Inr p"
    using assms(1) v by (auto simp: snapshot_payload_def encode_payload_def ensure_Inr_iff bindR_Inr_iff split: sum.splits)
  have w: "wf_json v" "bs = utf8 (json_dumps False v)" using canonical_json_Inr [OF bs(1) assms(2)] by blast+
  then show c: "canon v = PDict p" using l v by (simp add: loads_bytes_def json_loads_dumps)
  then show "canon (PDict p) = PDict p" using canon_idem(1) [of v] by simp
  show "payload_clean p"
    using w bs(2) c wf_json_canon(1) [of v] canon_same_bytes [of False v] by (simp add: payload_clean_def)
qed

section \<open>Append implements list append\<close>

lemma prepare_ok:
  assumes "ed25519_ok n" "signer_ok n i" "prepare_append n i ty p ts (last_event es) base = Inr (e, line)"
    "payload_clean p" "canon (PDict p) = PDict p"
  shows "line = encode_event e" "event_canonical e" "length line \<le> max_spine_line_bytes"
    "ev_seq e = next_seq es" "ev_prev_hash e = next_prev es" "ev_payload e = p" "ev_type e = ty" "ev_ts_ms e = ts"
    "verify_event n e = Inr (True, ''ok'')" "as_did i = Inr (ev_author_did e)"
    "\<exists>bs. encode_append_intent base line = Inr bs"
proof -
  have s: "sign_event n i (next_seq es) (next_prev es) ty p ts = Inr e" and l: "line = encode_event e"
    and rest: "length line \<le> max_spine_line_bytes" "\<exists>bs. encode_append_intent base line = Inr bs"
    using assms(3) by (auto simp: prepare_append_def res_iffs next_seq_def next_prev_def Let_def split: option.splits)
  have k: "keys_once (PDict p)" using assms(4) wf_keys_once(1) by (simp add: payload_clean_def del: keys_once.simps)
  note so = signed_event_only [OF assms(1,2) s k]
  have e: "e = signed_event n i (next_seq es) (next_prev es) ty p ts" using so by blast
  have ok: "event_wf e" "hash_ok e" "sig_ok n e"
    unfolding e using so by (auto intro!: signed_event_ok [OF assms(1,2)])
  show "line = encode_event e" by (rule l)
  show "event_canonical e" using ok e assms(5) by (simp add: event_canonical_def del: canon.simps)
  show "length line \<le> max_spine_line_bytes" "\<exists>bs. encode_append_intent base line = Inr bs" using rest by auto
  show "verify_event n e = Inr (True, ''ok'')"
    using verify_event_structure [OF event_wf_keys_once] ok by blast
  show "as_did i = Inr (ev_author_did e)" using signer_did [OF assms(1,2)] e by (metis signed_event_sel(5) sum.sel(2))
  show "ev_seq e = next_seq es" "ev_prev_hash e = next_prev es" "ev_payload e = p" "ev_type e = ty" "ev_ts_ms e = ts"
    by (simp_all add: e)
qed

lemma append_prepared_rep:
  assumes "log_rep n s es" "event_canonical e" "length (encode_event e) < max_spine_line_bytes"
    "ev_seq e = next_seq es" "ev_prev_hash e = next_prev es" "verify_event n e = Inr (True, ''ok'')"
  shows "log_rep n (append_prepared e (encode_event e) s) (es @ [e])"
  using assms
  by (auto simp: log_rep_def append_prepared_def clear_intent_def write_record_def write_intent_def
      chain_snoc storable_def record_of_def split: sum.splits)

lemma append_cases:
  assumes "log_rep n s es"
  shows "(case spine_append n i ty v ts s of
      (s', Inl _) \<Rightarrow> s' = s
    | (s', Inr r) \<Rightarrow> \<exists>p e. snapshot_payload v = Inr p \<and> s' = append_prepared e (encode_event e) s \<and> r = snapshot_event e
        \<and> prepare_append n i ty p ts (last_event es) (length (log_bytes es)) = Inr (e, encode_event e))"
proof -
  have b: "file_bytes (log_file s) = log_bytes es" using assms by (simp add: log_rep_def)
  have "prepare_append n i ty p ts l k = Inr (e, line) \<Longrightarrow> line = encode_event e" for p l k e line
    by (auto simp: prepare_append_def res_iffs Let_def)
  then show ?thesis
    by (auto simp: spine_append_def open_rep [OF assms] b split: sum.split)
qed

text \<open>C3. Append is list append: on a log that represents the events \<open>es\<close>, a successful
  \<open>append\<close> returns an event with the requested type, timestamp and payload (keys sorted),
  signed by this node and linked to the last event, and the files then represent \<open>es @ [e]\<close>:
  a full verification accepts them. A failed append leaves the state as it was.
  The one exception is a line of exactly the limit, which the writer takes and the reader refuses.\<close>

theorem spine_append_refines:
  assumes "ed25519_ok n" "signer_ok n i" "log_rep n s es" "keys_once v"
  shows "case spine_append n i ty v ts s of
      (s', Inl _) \<Rightarrow> s' = s
    | (s', Inr e) \<Rightarrow> length (encode_event e) \<noteq> max_spine_line_bytes \<longrightarrow>
        log_rep n s' (es @ [e]) \<and> verified_events n (log_file s') None = Inr (True, ''ok'', es @ [e])
        \<and> ev_type e = ty \<and> ev_ts_ms e = ts \<and> PDict (ev_payload e) = canon v \<and> as_did i = Inr (ev_author_did e)
        \<and> head_hash s' = ev_content_hash e \<and> head_seq s' = int (length es)"
proof -
  obtain s' r where a: "spine_append n i ty v ts s = (s', r)" by fastforce
  note c = append_cases [OF assms(3), where i = i and ty = ty and v = v and ts = ts, unfolded a prod.case]
  show ?thesis
  proof (cases r)
    case (Inl x)
    then show ?thesis using a c by simp
  next
    case (Inr e)
    then obtain p f where p: "snapshot_payload v = Inr p" and s': "s' = append_prepared f (encode_event f) s"
      and e: "e = snapshot_event f"
      and f: "prepare_append n i ty p ts (last_event es) (length (log_bytes es)) = Inr (f, encode_event f)"
      using c by auto
    note pl = snapshot_payload_ok [OF p assms(4)]
    note ok = prepare_ok [OF assms(1,2) f pl(1,3)]
    have ef: "e = f" using e snapshot_canonical [OF ok(2)] by simp
    have "log_rep n s' (es @ [e])" if "length (encode_event e) \<noteq> max_spine_line_bytes"
      unfolding s' ef using that ok ef by (intro append_prepared_rep [OF assms(3) ok(2)]) auto
    moreover from this have "verified_events n (log_file s') None = Inr (True, ''ok'', es @ [e])"
      if "length (encode_event e) \<noteq> max_spine_line_bytes"
      using that verified_rep by (auto simp: log_rep_def)
    moreover have "head_hash s' = ev_content_hash e" "head_seq s' = int (length es)"
      using ok ef chain_next(1) assms(3) by (auto simp: s' append_prepared_def log_rep_def)
    ultimately show ?thesis using a Inr ok ef pl(2) by simp
  qed
qed

definition empty_log :: spine_log where
  "empty_log = \<lparr>log_file = None, pending_file = None, head_hash = genesis_prev, head_seq = - 1\<rparr>"

lemma empty_log_rep [simp]: "log_rep n empty_log []"
  by (simp add: log_rep_def empty_log_def)

theorem spine_append_refines_witness:
  "case spine_append demo_nacl (demo_identity 1) ''t'' (PDict []) 9 empty_log of
      (s', Inl _) \<Rightarrow> s' = empty_log
    | (s', Inr e) \<Rightarrow> length (encode_event e) \<noteq> max_spine_line_bytes \<longrightarrow>
        log_rep demo_nacl s' ([] @ [e]) \<and> verified_events demo_nacl (log_file s') None = Inr (True, ''ok'', [] @ [e])
        \<and> ev_type e = ''t'' \<and> ev_ts_ms e = 9 \<and> PDict (ev_payload e) = canon (PDict [])
        \<and> as_did (demo_identity 1) = Inr (ev_author_did e)
        \<and> head_hash s' = ev_content_hash e \<and> head_seq s' = int (length ([] :: spine_event list))"
  by (rule spine_append_refines [OF demo_nacl_ok demo_signer]) simp_all

text \<open>The condition on the length is the gap between writer and reader: the writer checks the line, the
  reader the line with its newline, so a line of exactly \<open>MAX_SPINE_LINE_BYTES\<close> passes the first
  check and not the second.\<close>

lemma line_limit_gap:
  assumes "length line = max_spine_line_bytes" "newline \<notin> set line"
  shows "verified_events n (Some (line @ [newline])) None = Inr (False, line_error 1 ''event exceeds byte limit'', [])"
  using assms lines_of_append [OF assms(2), of "[]"] by (simp add: verified_events_def)

section \<open>The append intent\<close>

lemma wf_intent: "wf_json (PDict (intent_document base line))"
  by (simp add: intent_document_def obj_def is_str_def)

lemma dget_intent:
  assumes "canon (PDict (intent_document base line)) = PDict d"
  shows "dget d ''version'' = Some (PInt 1)" "dget d ''base_size'' = Some (PInt (int base))"
    "dget d ''line'' = Some (PStr (map byte_char line))" "dget d ''line_sha256'' = Some (PStr (sha256_hex line))"
    "same_keys d intent_fields"
proof -
  note g = dget_canon [OF wf_intent assms]
  show "dget d ''version'' = Some (PInt 1)" "dget d ''base_size'' = Some (PInt (int base))"
    "dget d ''line'' = Some (PStr (map byte_char line))" "dget d ''line_sha256'' = Some (PStr (sha256_hex line))"
    by (simp_all add: g intent_document_def obj_def)
  have "set (map fst d) = set (map fst (intent_document base line))"
    using assms by (force simp: canon_pairs_map image_iff split_beta)
  then show "same_keys d intent_fields" by (simp add: same_keys_def intent_fields_def intent_document_def obj_def)
qed

lemma ascii_bytes_Nil: "ascii_bytes s = [] \<longleftrightarrow> s = []"
  by (simp add: ascii_bytes_def)

lemma ascii_decode_text: "list_all printable s \<Longrightarrow> ascii_decode (ascii_bytes s) = Some s"
  using map_byte_char_ascii [of s] by (auto simp: ascii_decode_def ascii_bytes_def list_all_iff printable_def)

lemma read_intent:
  assumes "encode_append_intent base (ascii_bytes line) = Inr bs" "list_all printable line" "line \<noteq> []"
    "length line \<le> max_spine_line_bytes"
  shows "read_append_intent (Some bs) = Inr (Some (base, ascii_bytes line))"
proof -
  let ?t = "json_dumps True (PDict (intent_document base (ascii_bytes line)))"
  obtain d where d: "canon (PDict (intent_document base (ascii_bytes line))) = PDict d" by simp
  have bs: "bs = ascii_bytes ?t" "length bs \<le> max_spine_append_intent_bytes"
    using assms(1) by (auto simp: encode_append_intent_def Let_def ensure_Inr_iff)
  have "?t \<noteq> []" using dump_raw_head [OF wf_json_canon(1) [OF wf_intent]] by (metis json_dumps_def list.distinct(1))
  then have "bs \<noteq> []" using bs(1) by (simp add: ascii_bytes_def)
  moreover have "Option.bind (ascii_decode bs) json_loads = Some (PDict d)"
    using json_dumps_printable [OF wf_intent] json_loads_dumps [OF wf_intent, of True base "ascii_bytes line"] d
    by (simp add: bs(1) ascii_decode_text del: canon.simps)
  moreover have "\<forall>c \<in> set line. (of_char c :: nat) < 128" "char_of (10 :: nat) \<notin> set line" "char_of (13 :: nat) \<notin> set line"
    using assms(2) by (auto simp: list_all_iff printable_def of_char_char_of_small dest!: bspec)
  ultimately show ?thesis
    using bs(2) assms(3,4) dget_intent [OF d]
    by (simp add: read_append_intent_def dget_or_def strict_int_from_def is_str_def py_eq_PInt num_of_def
        list_all_iff Let_def Suc_le_eq ascii_bytes_Nil)
qed

section \<open>Equality of events\<close>

lemma event_eq_refl: "event_wf e \<Longrightarrow> event_eq e e"
  using py_eq_refl(1) by (auto simp: event_eq_def event_wf_def payload_clean_def simp del: py_eq.simps)

section \<open>Crash and recovery\<close>

text \<open>Every disk an append interrupted at any point can leave: before the intent is durable, after it,
  with any part of the record written, and after the intent is removed.\<close>

inductive crash_of :: "bytes \<Rightarrow> spine_log \<Rightarrow> spine_log \<Rightarrow> bool" for line s where
  not_started: "crash_of line s s"
| intent_only: "crash_of line s (write_intent line s)"
| torn: "k \<le> length (line @ [newline]) \<Longrightarrow> crash_of line s (write_record (take k (line @ [newline])) (write_intent line s))"
| finished: "crash_of line s (clear_intent (write_record (line @ [newline]) (write_intent line s)))"

lemma recover_no_intent: "pending_file d = None \<Longrightarrow> recover_pending_append n i d = (d, Inr ())"
  by (simp add: recover_pending_append_def read_append_intent_def)

text \<open>The preparation of an append that recovery meets: the event and what it satisfies.\<close>

definition prepared_for :: "nacl \<Rightarrow> identity \<Rightarrow> spine_event list \<Rightarrow> spine_event \<Rightarrow> bool" where
  "prepared_for n i es e \<longleftrightarrow> storable e \<and> ev_seq e = next_seq es \<and> ev_prev_hash e = next_prev es
     \<and> verify_event n e = Inr (True, ''ok'') \<and> as_did i = Inr (ev_author_did e)"

lemma log_bytes_last: "es \<noteq> [] \<Longrightarrow> last (log_bytes es) = newline"
  by (cases es rule: rev_cases) (simp_all add: record_of_def)

lemma check_intent_ok:
  assumes "list_all storable es" "chain_from n genesis_prev 0 es" "prepared_for n i es e"
    "file_bytes f = log_bytes es @ take k (record_of e)"
  shows "check_intent n i f (length (log_bytes es)) (encode_event e) = Inr e"
proof -
  let ?b = "length (log_bytes es)"
  have e: "event_canonical e" "length (encode_event e) < max_spine_line_bytes" "event_wf e"
    using assms(3) by (auto simp: prepared_for_def storable_def event_canonical_def)
  have v: "verified_events n f (Some ?b) = Inr (True, ''ok'', es)"
    using verified_prefix [OF assms(1,2)] assms(4) by (cases f) (auto simp: verified_events_def)
  have "?b = 0 \<or> file_bytes f ! (?b - 1) = newline"
  proof (cases "es = []")
    case False
    then have "?b - 1 < ?b" by simp
    then have "file_bytes f ! (?b - 1) = log_bytes es ! (?b - 1)" by (simp only: assms(4) nth_append if_True)
    also have "\<dots> = last (log_bytes es)" using False by (simp add: last_conv_nth)
    finally show ?thesis using log_bytes_last [OF False] by simp
  qed simp
  moreover have "take (length (record_of e)) (drop ?b (file_bytes f)) = take k (record_of e)"
    by (simp add: assms(4) min_def)
  ultimately show ?thesis
    using assms(3,4) v decode_bare [OF e(1)] e(2)
    by (simp add: check_intent_def prepared_for_def record_of_def Let_def min_def)
qed

lemma recovered_file_ok:
  assumes "file_bytes f = log_bytes es @ take k (record_of e)"
  shows "file_bytes (recovered_file f (length (log_bytes es)) (encode_event e)) = log_bytes (es @ [e])"
proof (cases "k < length (record_of e)")
  case True
  then show ?thesis using assms by (simp add: recovered_file_def Let_def record_of_def)
next
  case False
  then show ?thesis using assms by (simp add: recovered_file_def Let_def record_of_def)
qed

lemma recover_torn:
  assumes "list_all storable es" "chain_from n genesis_prev 0 es" "prepared_for n i es e"
    "file_bytes (log_file d) = log_bytes es @ take k (record_of e)"
    "encode_append_intent (length (log_bytes es)) (encode_event e) = Inr bs" "pending_file d = Some bs"
  shows "\<exists>d'. recover_pending_append n i d = (d', Inr ()) \<and> log_rep n d' (es @ [e])"
proof -
  let ?f = "recovered_file (log_file d) (length (log_bytes es)) (encode_event e)"
  have e: "event_wf e" "length (encode_event e) \<le> max_spine_line_bytes"
    using assms(3) by (auto simp: prepared_for_def storable_def event_canonical_def)
  have enc: "encode_event e = ascii_bytes (json_dumps True (PDict (event_to_dict e)))" by (simp add: encode_event_def)
  have "json_dumps True (PDict (event_to_dict e)) \<noteq> []" using encode_event_head [OF e(1)] by (auto simp: enc ascii_bytes_def)
  then have r: "read_append_intent (pending_file d) = Inr (Some (length (log_bytes es), encode_event e))"
    using read_intent [OF assms(5) [unfolded enc] event_text_printable [OF e(1)]] e(2) assms(6) by (simp add: enc)
  have st: "list_all storable (es @ [e])" and ch: "chain_from n genesis_prev 0 (es @ [e])"
    using assms(1-3) by (auto simp: prepared_for_def chain_snoc)
  have v: "verified_events n ?f None = Inr (True, ''ok'', es @ [e])"
    by (rule verified_rep [OF st ch recovered_file_ok [OF assms(4)]])
  have "ev_seq e = int (length es)" using assms(2,3) chain_next(1) by (auto simp: prepared_for_def)
  then show ?thesis
    using r v check_intent_ok [OF assms(1-4)] event_eq_refl [OF e(1)] st ch recovered_file_ok [OF assms(4)]
    by (simp add: recover_pending_append_def Let_def log_rep_def)
qed

lemma crash_recovers:
  assumes "log_rep n s es" "prepared_for n i es e"
    "encode_append_intent (length (log_bytes es)) (encode_event e) = Inr bs" "crash_of (encode_event e) s c"
  shows "\<exists>c'. recover_pending_append n i c = (c', Inr ()) \<and> (log_rep n c' es \<or> log_rep n c' (es @ [e]))"
proof -
  note rep = assms(1) [unfolded log_rep_def]
  have w: "write_intent (encode_event e) s = s\<lparr>pending_file := Some bs\<rparr>"
    using rep assms(3) by (simp add: write_intent_def)
  note torn = recover_torn [OF _ _ assms(2) _ assms(3)]
  from assms(4) show ?thesis
  proof (cases rule: crash_of.cases)
    case not_started
    then show ?thesis using assms(1) rep by (auto simp: recover_no_intent)
  next
    case intent_only
    then show ?thesis using torn [where d = c and k = 0] rep by (auto simp: w)
  next
    case (torn k)
    then show ?thesis using recover_torn [OF _ _ assms(2) _ assms(3), where d = c and k = k] rep
      by (auto simp: w write_record_def record_of_def)
  next
    case finished
    then have "log_rep n c (es @ [e])"
      using rep assms(2) by (auto simp: w clear_intent_def write_record_def log_rep_def prepared_for_def chain_snoc record_of_def)
    moreover have "pending_file c = None" using finished by (simp add: clear_intent_def)
    ultimately show ?thesis by (auto simp: recover_no_intent)
  qed
qed

section \<open>How long a line is\<close>

definition member_size :: "bool \<Rightarrow> pyval \<times> pyval \<Rightarrow> nat" where
  "member_size asc m = length (quote asc (key_text (fst m))) + length (dump_raw asc (snd m)) + 2"

lemma length_members: "d \<noteq> [] \<Longrightarrow> length (dump_members asc d) = sum_list (map (member_size asc) d)"
proof (induction d)
  case (Cons m d)
  obtain k v where "m = (k, v)" by fastforce
  then show ?case using Cons by (cases d) (simp_all add: member_size_def)
qed simp

lemma length_dict:
  assumes "d \<noteq> []"
  shows "length (json_dumps asc (PDict d)) = 1 + sum_list (map (\<lambda>m. member_size asc (fst m, canon (snd m))) d)"
proof -
  let ?s = "sort_key (\<lambda>p. key_text (fst p)) (canon_pairs d)"
  have "length ?s = length d" by (simp add: canon_pairs_map)
  then have "?s \<noteq> []" using assms by (metis length_0_conv)
  then have "length (json_dumps asc (PDict d)) = 1 + sum_list (map (member_size asc) ?s)"
    using length_members [of ?s asc] by (cases ?s) (simp_all add: json_dumps_def del: dump_members.simps)
  moreover have "sum_list (map (member_size asc) ?s) = sum_list (map (member_size asc) (canon_pairs d))"
    by (simp only: sum_mset_sum_list [symmetric] mset_map mset_sort)
  ultimately show ?thesis by (simp add: canon_pairs_map o_def split_beta)
qed

lemma line_bound:
  assumes "length (dump_raw True (canon (PDict (ev_payload e)))) \<le> 500" "length (ev_author_did e) \<le> 111" "length (ev_sig e) \<le> 128" "length (ev_type e) \<le> 128"
    "length (ev_prev_hash e) = 64" "length (ev_content_hash e) = 64"
    "length (int_str (ev_seq e)) \<le> 20" "length (int_str (ev_ts_ms e)) \<le> 20"
  shows "length (encode_event e) \<le> 5000"
proof -
  have q: "length s \<le> m \<Longrightarrow> length (quote True s) \<le> 2 + 6 * m" for s m
    using length_quote [of True s] by linarith
  have k: "length (quote True ''seq'') \<le> 20" "length (quote True ''prev_hash'') \<le> 56" "length (quote True ''type'') \<le> 26"
    "length (quote True ''payload'') \<le> 44" "length (quote True ''author_did'') \<le> 62" "length (quote True ''ts_ms'') \<le> 32"
    "length (quote True ''content_hash'') \<le> 74" "length (quote True ''sig'') \<le> 20"
    by (rule order.trans [OF length_quote], simp)+
  have v: "length (quote True (ev_author_did e)) \<le> 2 + 6 * 111" "length (quote True (ev_sig e)) \<le> 2 + 6 * 128"
    "length (quote True (ev_type e)) \<le> 2 + 6 * 128" "length (quote True (ev_prev_hash e)) \<le> 2 + 6 * 64"
    "length (quote True (ev_content_hash e)) \<le> 2 + 6 * 64"
    using assms by (intro q; simp)+
  have "event_to_dict e \<noteq> []" by (simp add: event_dict_defs)
  then show "length (encode_event e) \<le> 5000"
    using length_dict [of "event_to_dict e" True] k v assms
    by (simp add: encode_event_def event_dict_defs member_size_def key_text_def del: canon.simps(2))
qed

lemma intent_bound:
  assumes "length line \<le> 5000" "length (int_str (int base)) \<le> 20"
  shows "\<exists>bs. encode_append_intent base line = Inr bs"
proof -
  have q: "length s \<le> m \<Longrightarrow> length (quote True s) \<le> 2 + 6 * m" for s m
    using length_quote [of True s] by linarith
  have "length (quote True ''version'') \<le> 100" "length (quote True ''base_size'') \<le> 100" "length (quote True ''line'') \<le> 100"
    "length (quote True ''line_sha256'') \<le> 100" by (rule order.trans [OF length_quote], simp)+
  moreover have "length (quote True (map byte_char line)) \<le> 2 + 6 * 5000" "length (quote True (sha256_hex line)) \<le> 2 + 6 * 64"
    using assms by (intro q; simp)+
  moreover have "length (int_str 1) \<le> 20" by (simp add: int_str_def nat_str.simps)
  moreover have "intent_document base line \<noteq> []" by (simp add: intent_document_def obj_def)
  ultimately have "length (json_dumps True (PDict (intent_document base line))) \<le> 40000"
    using length_dict [of "intent_document base line" True] assms(2)
    by (simp add: intent_document_def obj_def member_size_def key_text_def)
  then show ?thesis
    by (simp add: encode_append_intent_def Let_def max_spine_append_intent_bytes_def max_spine_line_bytes_def)
qed

lemma int_str_small: "0 \<le> i \<Longrightarrow> i < 10 \<Longrightarrow> length (int_str i) \<le> 20"
  by (simp add: int_str_def nat_str.simps)

text \<open>A concrete first append, for the witness.\<close>

definition demo_payload :: pydict where
  "demo_payload = [(PStr ''id'', PStr ''x'')]"

definition demo_event :: spine_event where
  "demo_event = signed_event demo_nacl (demo_identity 1) 0 genesis_prev ''t'' demo_payload 9"

definition demo_text :: string where
  "demo_text = json_dumps False (PDict demo_payload)"

lemma demo_text_facts:
  "length (utf8 demo_text) = 10" "json_loads demo_text = Some (PDict demo_payload)"
  "canon (PDict demo_payload) = PDict demo_payload" "length (dump_raw True (PDict demo_payload)) = 10"
  "wf_json (PDict demo_payload)"
  by code_simp+

lemma demo_payload_clean: "payload_clean demo_payload"
  using demo_text_facts by (simp add: payload_clean_def demo_text_def max_spine_payload_bytes_def del: wf_json.simps)

lemma demo_event_facts:
  "sign_event demo_nacl (demo_identity 1) 0 genesis_prev ''t'' demo_payload 9 = Inr demo_event"
  "length (encode_event demo_event) \<le> 5000"
proof -
  have ty: "is_event_type ''t''" by code_simp
  note ok = signed_event_ok [OF demo_nacl_ok demo_signer, of 0 9 genesis_prev "''t''" demo_payload 1]
  show "sign_event demo_nacl (demo_identity 1) 0 genesis_prev ''t'' demo_payload 9 = Inr demo_event"
    unfolding demo_event_def by (rule ok(1)) (simp_all add: ty demo_payload_clean)
  obtain did where d: "as_did (demo_identity 1) = Inr did" and l: "length did \<le> 111"
    using signer_did [OF demo_nacl_ok demo_signer, of 1] did_length by (metis decode_did_iff)
  obtain seed where seed: "id_signing_key (demo_identity 1) = Some seed" "length seed = 32"
    using demo_signer by (rule signer_okE)
  have "length (ev_sig demo_event) \<le> 2 * 64"
    using length_b64u ed25519_okD(3) [OF demo_nacl_ok seed(2)] seed(1)
    by (metis (no_types, lifting) demo_event_def signed_event_def spine_event.select_convs(8) option.sel)
  then show "length (encode_event demo_event) \<le> 5000"
    using d l int_str_small
    by (intro line_bound)
      (simp_all add: demo_event_def signed_event_def Let_def genesis_prev_def demo_text_facts(3,4) del: canon.simps(2) dump_raw.simps(7))
qed

lemma demo_prepare:
  "prepare_append demo_nacl (demo_identity 1) ''t'' demo_payload 9 (last_event []) (length (log_bytes [])) = Inr (demo_event, encode_event demo_event)"
proof -
  obtain bs where "encode_append_intent 0 (encode_event demo_event) = Inr bs"
    using intent_bound [OF demo_event_facts(2), of 0] by (auto simp: int_str_def nat_str.simps)
  then show ?thesis
    using demo_event_facts by (simp add: prepare_append_def last_event_def Let_def max_spine_line_bytes_def)
qed

lemma demo_snapshot: "snapshot_payload (PDict demo_payload) = Inr demo_payload"
  using demo_text_facts
  by (simp add: snapshot_payload_def encode_payload_def max_spine_payload_bytes_def loads_bytes_def canonical_json_wf
      demo_text_def del: wf_json.simps canon.simps)

lemma demo_rep: "log_rep demo_nacl (append_prepared demo_event (encode_event demo_event) empty_log) [demo_event]"
proof -
  note ok = prepare_ok [OF demo_nacl_ok demo_signer demo_prepare demo_payload_clean demo_text_facts(3)]
  have "length (encode_event demo_event) < max_spine_line_bytes"
    using demo_event_facts(2) by (simp add: max_spine_line_bytes_def)
  then show ?thesis using append_prepared_rep [OF empty_log_rep ok(2) _ ok(4,5,9)] by simp
qed

text \<open>C1. Appends survive a crash whole or not at all: interrupt an append at any point, with any
  part of the record on disk; recovery then succeeds, and the log represents either the events before
  the append or those events followed by the new one, with no intent left.\<close>

theorem append_crash_atomic:
  assumes "ed25519_ok n" "signer_ok n i" "log_rep n s es" "keys_once v" "snapshot_payload v = Inr p"
    "prepare_append n i ty p ts (last_event es) (length (log_bytes es)) = Inr (e, line)"
    "length line \<noteq> max_spine_line_bytes" "crash_of line s c"
  shows "\<exists>c'. recover_pending_append n i c = (c', Inr ()) \<and> (log_rep n c' es \<or> log_rep n c' (es @ [e]))"
proof -
  note ok = prepare_ok [OF assms(1,2,6) snapshot_payload_ok(1,3) [OF assms(5,4)]]
  have "prepared_for n i es e" using ok assms(7) by (auto simp: prepared_for_def storable_def)
  then show ?thesis using crash_recovers [OF assms(3)] ok(1,11) assms(8) by blast
qed

theorem append_crash_atomic_witness:
  "\<exists>c'. recover_pending_append demo_nacl (demo_identity 1)
          (write_record (take 7 (encode_event demo_event @ [newline])) (write_intent (encode_event demo_event) empty_log)) = (c', Inr ())
      \<and> (log_rep demo_nacl c' [] \<or> log_rep demo_nacl c' ([] @ [demo_event]))"
proof (rule append_crash_atomic [OF demo_nacl_ok demo_signer empty_log_rep _ demo_snapshot demo_prepare])
  show "length (encode_event demo_event) \<noteq> max_spine_line_bytes"
    using demo_event_facts(2) by (simp add: max_spine_line_bytes_def)
  have "7 \<le> length (encode_event demo_event @ [newline]) \<or> take 7 (encode_event demo_event @ [newline])
      = take (length (encode_event demo_event @ [newline])) (encode_event demo_event @ [newline])"
    by (metis nat_le_linear take_all order.refl)
  then show "crash_of (encode_event demo_event) empty_log
      (write_record (take 7 (encode_event demo_event @ [newline])) (write_intent (encode_event demo_event) empty_log))"
    by (metis crash_of.torn order.refl)
qed (simp add: demo_payload_def)

text \<open>C2. The head commits to the history: two logs that both verify and end in the same content hash
  hold the same events, core by core (type, payload, author, time, position and link), unless two of their
  cores are a SHA-256 collision.\<close>

theorem head_commits_history:
  assumes "verified_events n f None = Inr (True, m, es)" "verified_events n f' None = Inr (True, m', es')"
    "es \<noteq> []" "es' \<noteq> []" "ev_content_hash (last es) = ev_content_hash (last es')"
  shows "list_all2 core_same es es' \<or> (\<exists>e \<in> set es. \<exists>e' \<in> set es'. sha_collision (core_bytes e) (core_bytes e'))"
proof -
  have "spine.linked genesis_prev 0 es" "spine.linked genesis_prev 0 es'"
    using verified_sound [OF assms(1)] verified_sound [OF assms(2)] chain_linked by blast+
  then show ?thesis using spine.history assms(3-5) by blast
qed

theorem head_commits_history_witness:
  "list_all2 core_same [demo_event] [demo_event]
    \<or> (\<exists>e \<in> set [demo_event]. \<exists>e' \<in> set [demo_event]. sha_collision (core_bytes e) (core_bytes e'))"
proof (rule head_commits_history)
  show "verified_events demo_nacl (Some (log_bytes [demo_event])) None = Inr (True, ''ok'', [demo_event])"
    using demo_rep by (intro verified_log) (simp_all add: log_rep_def)
  then show "verified_events demo_nacl (Some (log_bytes [demo_event])) None = Inr (True, ''ok'', [demo_event])" .
qed simp_all

end
