(* ===== verification/Spine_Unique.thy ===== *)
theory Spine_Unique
  imports Spine_Recovery
begin

text \<open>
  The idempotent writes and the queries of \<open>nth_dao/spine/log.py\<close>: \<open>append_unique_many\<close> resolves a
  batch of payloads against the semantic keys already in the log, prepares every new event before the
  first write, and then writes them; \<open>find_unique_event\<close>, \<open>get_verified_event\<close>,
  \<open>reconcile_append\<close> and \<open>verify_chain\<close> recover and scan first. An owner of a semantic key is an
  existing event (by its sequence number) or a planned one (by its place in the batch).
\<close>

section \<open>Semantic keys\<close>

datatype owner = Existing nat | Planned nat

type_synonym skey = "string \<times> string"

type_synonym owners = "(skey \<times> owner) list"

definition payload_keys :: "string list \<Rightarrow> pydict \<Rightarrow> skey list" where
  "payload_keys flds p = concat (map (\<lambda>f. case dget p f of Some (PStr v) \<Rightarrow> if v \<noteq> [] then [(f, v)] else [] | _ \<Rightarrow> []) flds)"

definition event_keys :: "string \<Rightarrow> string list \<Rightarrow> spine_event \<Rightarrow> skey list" where
  "event_keys ty flds e = (if ev_type e = ty then payload_keys flds (ev_payload e) else [])"

definition semantic_index :: "string \<Rightarrow> string list \<Rightarrow> spine_event list \<Rightarrow> owners" where
  "semantic_index ty flds events =
     concat (map (\<lambda>e. map (\<lambda>k. (k, Existing (nat (ev_seq e)))) (event_keys ty flds e)) events)"

definition owners_of :: "owners \<Rightarrow> skey \<Rightarrow> owner list" where
  "owners_of owners key = remdups (map snd (filter (\<lambda>(k, _). k = key) owners))"

section \<open>The batch\<close>

definition fields_ok :: "string list \<Rightarrow> bool" where
  "fields_ok flds \<longleftrightarrow> flds \<noteq> [] \<and> list_all (\<lambda>f. f \<noteq> []) flds \<and> distinct flds"

fun encode_batch :: "nat \<Rightarrow> pyval list \<Rightarrow> (nat \<times> pydict list) res" where
  "encode_batch used [] = Inr (used, [])"
| "encode_batch used (payload # payloads) =
     bindR (encode_payload payload) (\<lambda>encoded.
     bindR (charge_batch_bytes used (length encoded)) (\<lambda>used'.
     bindR (snapshot_payload payload) (\<lambda>p.
     bindR (encode_batch used' payloads) (\<lambda>(used'', ps). Inr (used'', p # ps)))))"

definition unique_fields_present :: "string list \<Rightarrow> pydict \<Rightarrow> bool" where
  "unique_fields_present flds p \<longleftrightarrow> list_all (\<lambda>f. nonempty_str (dget p f)) flds"

definition owner_payload :: "spine_event list \<Rightarrow> pydict list \<Rightarrow> owner \<Rightarrow> pydict" where
  "owner_payload events planned own = (case own of Existing k \<Rightarrow> ev_payload (events ! k) | Planned k \<Rightarrow> planned ! k)"

fun resolve_batch :: "string list \<Rightarrow> spine_event list \<Rightarrow> (spine_event \<Rightarrow> unit res) \<Rightarrow> owners \<Rightarrow> pydict list
    \<Rightarrow> pydict list \<Rightarrow> (pydict list \<times> (owner \<times> bool) list) res" where
  "resolve_batch flds events validate owners planned [] = Inr (planned, [])"
| "resolve_batch flds events validate owners planned (payload # payloads) =
     (case remdups (concat (map (owners_of owners) (payload_keys flds payload))) of
        [] \<Rightarrow>
          let own = Planned (length planned) in
          bindR (resolve_batch flds events validate (owners @ map (\<lambda>k. (k, own)) (payload_keys flds payload))
                   (planned @ [payload]) payloads) (\<lambda>(planned', rs). Inr (planned', (own, True) # rs))
      | [own] \<Rightarrow>
          bindR (case own of Existing k \<Rightarrow> validate (snapshot_event (events ! k)) | Planned _ \<Rightarrow> Inr ()) (\<lambda>_.
          bindR (canonical_json (PDict (owner_payload events planned own))) (\<lambda>a.
          bindR (canonical_json (PDict payload)) (\<lambda>b.
          ensure (a = b) SpineSemanticConflict ''spine semantic event key has conflicting payload'' (
          bindR (resolve_batch flds events validate owners planned payloads)
            (\<lambda>(planned', rs). Inr (planned', (own, False) # rs))))))
      | _ \<Rightarrow> raise SpineSemanticConflict ''spine contains duplicate semantic event keys'')"

fun prepare_batch :: "nacl \<Rightarrow> identity \<Rightarrow> string \<Rightarrow> int \<Rightarrow> (spine_event \<Rightarrow> unit res) \<Rightarrow> nat \<Rightarrow> spine_event option \<Rightarrow> nat
    \<Rightarrow> pydict list \<Rightarrow> (nat \<times> spine_event list) res" where
  "prepare_batch n i ty ts validate used prior base [] = Inr (used, [])"
| "prepare_batch n i ty ts validate used prior base (payload # planned) =
     bindR (prepare_append n i ty payload ts prior base) (\<lambda>(event, line).
     bindR (charge_batch_bytes used (length line + 1)) (\<lambda>used'.
     bindR (validate (snapshot_event event)) (\<lambda>_.
     bindR (prepare_batch n i ty ts validate used' (Some event) (base + length line + 1) planned)
       (\<lambda>(used'', prepared). Inr (used'', event # prepared)))))"

definition owner_event :: "spine_event list \<Rightarrow> spine_event list \<Rightarrow> owner \<Rightarrow> spine_event" where
  "owner_event events prepared own = (case own of Existing k \<Rightarrow> events ! k | Planned k \<Rightarrow> prepared ! k)"

fun batch_results :: "spine_event list \<Rightarrow> spine_event list \<Rightarrow> nat \<Rightarrow> (owner \<times> bool) list \<Rightarrow> (spine_event \<times> bool) list res" where
  "batch_results events prepared used [] = Inr []"
| "batch_results events prepared used ((own, created) # rs) =
     (let event = owner_event events prepared own in
      bindR (charge_batch_bytes used (length (encode_event event))) (\<lambda>used'.
      bindR (batch_results events prepared used' rs) (\<lambda>views. Inr ((snapshot_event event, created) # views))))"

definition append_all :: "spine_event list \<Rightarrow> spine_log \<Rightarrow> spine_log" where
  "append_all prepared s = foldl (\<lambda>s event. append_prepared event (encode_event event) s) s prepared"

definition append_unique_many :: "nacl \<Rightarrow> identity \<Rightarrow> string \<Rightarrow> pyval list \<Rightarrow> string list \<Rightarrow> int
    \<Rightarrow> (spine_event \<Rightarrow> unit res) \<Rightarrow> spine_log \<Rightarrow> spine_log \<times> (spine_event \<times> bool) list res" where
  "append_unique_many n i ty payloads flds ts validate s =
     (if \<not> fields_ok flds then (s, raise ValueError ''unique_payload_fields must be unique non-empty strings'')
      else if payloads = [] then (s, Inr [])
      else if max_spine_append_batch < length payloads
      then (s, raise ValueError (''payload batch exceeds '' @ nat_str max_spine_append_batch @ '' events''))
      else case encode_batch 0 payloads of
        Inl e \<Rightarrow> (s, Inl e)
      | Inr (used, ps) \<Rightarrow>
          if \<not> list_all (unique_fields_present flds) ps
          then (s, raise ValueError ''unique payload field must be a non-empty string'')
          else case open_verified n i ''appended'' s of
            (s', Inl e) \<Rightarrow> (s', Inl e)
          | (s', Inr events) \<Rightarrow>
              (case bindR (resolve_batch flds events validate (semantic_index ty flds events) [] ps) (\<lambda>(planned, rs).
                   bindR (prepare_batch n i ty ts validate used (last_event events) (length (file_bytes (log_file s'))) planned) (\<lambda>(used', prepared).
                   bindR (batch_results events prepared used' rs) (\<lambda>views. Inr (prepared, views)))) of
                Inl e \<Rightarrow> (s', Inl e)
              | Inr (prepared, views) \<Rightarrow> (append_all prepared s', Inr views)))"

definition append_unique :: "nacl \<Rightarrow> identity \<Rightarrow> string \<Rightarrow> pyval \<Rightarrow> string list \<Rightarrow> int \<Rightarrow> spine_log
    \<Rightarrow> spine_log \<times> (spine_event \<times> bool) res" where
  "append_unique n i ty payload flds ts s =
     (case append_unique_many n i ty [payload] flds ts (\<lambda>_. Inr ()) s of
        (s', Inl e) \<Rightarrow> (s', Inl e)
      | (s', Inr views) \<Rightarrow> (s', Inr (hd views)))"

section \<open>Queries\<close>

definition bounded_name :: "string \<Rightarrow> bool" where
  "bounded_name v \<longleftrightarrow> v \<noteq> [] \<and> length v \<le> 2048"

definition find_unique_event :: "nacl \<Rightarrow> identity \<Rightarrow> string \<Rightarrow> string \<Rightarrow> string \<Rightarrow> spine_log \<Rightarrow> spine_log \<times> spine_event option res" where
  "find_unique_event n i ty field val s =
     (if \<not> bounded_name ty then (s, raise ValueError ''event_type must be a bounded non-empty string'')
      else if \<not> bounded_name field then (s, raise ValueError ''payload_field must be a bounded non-empty string'')
      else if \<not> bounded_name val then (s, raise ValueError ''payload_value must be a bounded non-empty string'')
      else case open_verified n i ''queried'' s of
        (s', Inl e) \<Rightarrow> (s', Inl e)
      | (s', Inr events) \<Rightarrow>
          (case owners_of (semantic_index ty [field] events) (field, val) of
             [] \<Rightarrow> (s', Inr None)
           | [Existing k] \<Rightarrow>
               if k < length events then (s', Inr (Some (snapshot_event (events ! k))))
               else (s', raise RuntimeError ''spine semantic index is inconsistent'')
           | [Planned _] \<Rightarrow> (s', raise RuntimeError ''spine semantic index is inconsistent'')
           | _ \<Rightarrow> (s', raise ValueError ''spine contains duplicate semantic event keys'')))"

definition get_verified_event :: "nacl \<Rightarrow> identity \<Rightarrow> string \<Rightarrow> spine_log \<Rightarrow> spine_log \<times> spine_event option res" where
  "get_verified_event n i event_id s =
     (if \<not> is_hash event_id then (s, raise ValueError ''event_id must be a lowercase SHA-256 digest'')
      else case open_verified n i ''queried'' s of
        (s', Inl e) \<Rightarrow> (s', Inl e)
      | (s', Inr events) \<Rightarrow> (s', Inr (map_option snapshot_event (find (\<lambda>e. ev_content_hash e = event_id) events))))"

definition reconcile_append :: "nacl \<Rightarrow> identity \<Rightarrow> string \<Rightarrow> spine_log \<Rightarrow> spine_log \<times> spine_event option res" where
  "reconcile_append n i event_id s =
     (if \<not> is_hash event_id then (s, raise ValueError ''event_id must be 64 lowercase hexadecimal characters'')
      else case open_verified n i ''reconcile an append'' s of
        (s', Inl e) \<Rightarrow> (s', Inl e)
      | (s', Inr events) \<Rightarrow>
          (s'\<lparr>head_hash := next_prev events,
              head_seq := (case last_event events of Some e \<Rightarrow> ev_seq e | None \<Rightarrow> - 1)\<rparr>,
           Inr (map_option snapshot_event (find (\<lambda>e. ev_content_hash e = event_id) events))))"

definition verified_snapshot :: "nacl \<Rightarrow> identity \<Rightarrow> spine_log \<Rightarrow> spine_log \<times> spine_event list res" where
  "verified_snapshot n i s = (case open_verified n i ''read as a verified snapshot'' s of
     (s', Inl e) \<Rightarrow> (s', Inl e) | (s', Inr events) \<Rightarrow> (s', Inr (map snapshot_event events)))"

text \<open>\<open>verify_chain\<close> reports; an exception it does not catch escapes.\<close>

definition verify_chain :: "nacl \<Rightarrow> identity \<Rightarrow> spine_log \<Rightarrow> spine_log \<times> (bool \<times> string) res" where
  "verify_chain n i s = (case recover_pending_append n i s of
     (s', Inl e) \<Rightarrow> (s', if exn_cls e = TypeError \<or> is_value_error e then Inr (False, exn_msg e) else Inl e)
   | (s', Inr _) \<Rightarrow> (s', bindR (verified_events n (log_file s') None) (\<lambda>(ok, reason, _). Inr (ok, reason))))"

section \<open>Owners and keys\<close>

definition keys_unique :: "string \<Rightarrow> string list \<Rightarrow> spine_event list \<Rightarrow> bool" where
  "keys_unique ty flds es \<longleftrightarrow> (\<forall>a < length es. \<forall>b < length es. a \<noteq> b \<longrightarrow>
     set (event_keys ty flds (es ! a)) \<inter> set (event_keys ty flds (es ! b)) = {})"

lemma set_owners_of: "set (owners_of ow k) = {x. (k, x) \<in> set ow}"
  by (force simp: owners_of_def)

lemma set_matched:
  "set (remdups (concat (map (owners_of ow) ks))) = {x. \<exists>k \<in> set ks. (k, x) \<in> set ow}"
  by (auto simp: set_owners_of)

lemma semantic_index_iff:
  assumes "chain_from n genesis_prev 0 es" "list_all storable es"
  shows "(k, x) \<in> set (semantic_index ty flds es) \<longleftrightarrow>
    (case x of Existing j \<Rightarrow> j < length es \<and> k \<in> set (event_keys ty flds (es ! j)) | Planned _ \<Rightarrow> False)"
proof -
  have pos: "j < length es \<Longrightarrow> nat (ev_seq (es ! j)) = j" for j
    using spine.linked_nth_pos [OF chain_linked [OF assms(1) storable_events [OF assms(2)]]] by simp
  have "(k, x) \<in> set (semantic_index ty flds es) \<longleftrightarrow>
      (\<exists>e \<in> set es. x = Existing (nat (ev_seq e)) \<and> k \<in> set (event_keys ty flds e))"
    by (auto simp: semantic_index_def)
  also have "\<dots> \<longleftrightarrow> (\<exists>j < length es. x = Existing j \<and> k \<in> set (event_keys ty flds (es ! j)))"
  proof
    assume "\<exists>e \<in> set es. x = Existing (nat (ev_seq e)) \<and> k \<in> set (event_keys ty flds e)"
    then obtain e where e: "e \<in> set es" "x = Existing (nat (ev_seq e))" "k \<in> set (event_keys ty flds e)" by blast
    from e(1) obtain j where "j < length es" "es ! j = e" by (auto simp: in_set_conv_nth)
    then show "\<exists>j < length es. x = Existing j \<and> k \<in> set (event_keys ty flds (es ! j))" using e pos by auto
  next
    assume "\<exists>j < length es. x = Existing j \<and> k \<in> set (event_keys ty flds (es ! j))"
    then obtain j where "j < length es" "x = Existing j" "k \<in> set (event_keys ty flds (es ! j))" by blast
    then show "\<exists>e \<in> set es. x = Existing (nat (ev_seq e)) \<and> k \<in> set (event_keys ty flds e)"
      using pos by (intro bexI [of _ "es ! j"]) simp_all
  qed
  finally show ?thesis by (auto split: owner.splits)
qed

text \<open>The owner table of a batch in progress: existing events and planned payloads with their keys,
  all keys of planned payloads owned once.\<close>

definition table_ok :: "string \<Rightarrow> string list \<Rightarrow> spine_event list \<Rightarrow> pydict list \<Rightarrow> owners \<Rightarrow> bool" where
  "table_ok ty flds es planned ow \<longleftrightarrow> (\<forall>k x. (k, x) \<in> set ow \<longleftrightarrow>
     (case x of Existing j \<Rightarrow> j < length es \<and> k \<in> set (event_keys ty flds (es ! j))
      | Planned j \<Rightarrow> j < length planned \<and> k \<in> set (payload_keys flds (planned ! j))))"

definition planned_fresh :: "string \<Rightarrow> string list \<Rightarrow> spine_event list \<Rightarrow> pydict list \<Rightarrow> bool" where
  "planned_fresh ty flds es planned \<longleftrightarrow> (\<forall>j < length planned.
     (\<forall>e \<in> set es. set (event_keys ty flds e) \<inter> set (payload_keys flds (planned ! j)) = {})
     \<and> (\<forall>k < j. set (payload_keys flds (planned ! k)) \<inter> set (payload_keys flds (planned ! j)) = {}))"

lemma table_okD:
  assumes "table_ok ty flds es planned ow"
  shows "(k, Existing j) \<in> set ow \<longleftrightarrow> j < length es \<and> k \<in> set (event_keys ty flds (es ! j))"
    "(k, Planned j) \<in> set ow \<longleftrightarrow> j < length planned \<and> k \<in> set (payload_keys flds (planned ! j))"
  using assms [unfolded table_ok_def, rule_format, of k "Existing j"]
    assms [unfolded table_ok_def, rule_format, of k "Planned j"] by simp_all

lemma table_extend:
  assumes "table_ok ty flds es planned ow"
  shows "table_ok ty flds es (planned @ [p]) (ow @ map (\<lambda>k. (k, Planned (length planned))) (payload_keys flds p))"
  unfolding table_ok_def
proof (intro allI)
  fix k x
  show "(k, x) \<in> set (ow @ map (\<lambda>k. (k, Planned (length planned))) (payload_keys flds p)) \<longleftrightarrow>
     (case x of Existing j \<Rightarrow> j < length es \<and> k \<in> set (event_keys ty flds (es ! j))
      | Planned j \<Rightarrow> j < length (planned @ [p]) \<and> k \<in> set (payload_keys flds ((planned @ [p]) ! j)))"
    using assms [unfolded table_ok_def, rule_format, of k x]
    by (cases x) (auto simp: nth_append less_Suc_eq)
qed

lemma fresh_extend:
  assumes "table_ok ty flds es planned ow" "planned_fresh ty flds es planned"
    "\<forall>k \<in> set (payload_keys flds p). \<forall>x. (k, x) \<notin> set ow"
  shows "planned_fresh ty flds es (planned @ [p])"
proof -
  have e: "set (event_keys ty flds e) \<inter> set (payload_keys flds p) = {}" if mem: "e \<in> set es" for e
  proof -
    from mem obtain j where "j < length es" "e = es ! j" by (auto simp: in_set_conv_nth)
    then have "k \<in> set (event_keys ty flds e) \<Longrightarrow> (k, Existing j) \<in> set ow" for k
      using table_okD [OF assms(1)] by simp
    then show ?thesis using assms(3) by blast
  qed
  have q: "set (payload_keys flds (planned ! j)) \<inter> set (payload_keys flds p) = {}" if "j < length planned" for j
  proof -
    have "k \<in> set (payload_keys flds (planned ! j)) \<Longrightarrow> (k, Planned j) \<in> set ow" for k
      using table_okD [OF assms(1)] that by simp
    then show ?thesis using assms(3) by blast
  qed
  show ?thesis using assms(2) e q by (simp add: planned_fresh_def nth_append less_Suc_eq)
qed

lemma owners_range:
  assumes "table_ok ty flds es planned ow" "(k, x) \<in> set ow"
  shows "case x of Existing j \<Rightarrow> j < length es | Planned j \<Rightarrow> j < length planned"
  using assms(2) assms(1) [unfolded table_ok_def, rule_format, of k x] by (cases x) auto

text \<open>What resolution returns: the planned payloads stay fresh, and every payload is either planned
  itself or owned by something with the same canonical payload.\<close>

definition resolved :: "spine_event list \<Rightarrow> pydict list \<Rightarrow> pydict \<Rightarrow> owner \<times> bool \<Rightarrow> bool" where
  "resolved es planned p r \<longleftrightarrow>
     canonical_json (PDict (owner_payload es planned (fst r))) = canonical_json (PDict p)
     \<and> (case fst r of Existing j \<Rightarrow> j < length es \<and> \<not> snd r | Planned j \<Rightarrow> j < length planned)"

lemma resolve_batch_ok:
  assumes "resolve_batch flds es validate ow planned ps = Inr (planned', rs)"
    "table_ok ty flds es planned ow" "planned_fresh ty flds es planned"
  shows "(\<exists>ext. planned' = planned @ ext \<and> set ext \<subseteq> set ps) \<and> planned_fresh ty flds es planned'
    \<and> list_all2 (resolved es planned') ps rs"
  using assms
proof (induction ps arbitrary: ow planned planned' rs)
  case Nil
  then show ?case by simp
next
  case (Cons p ps)
  let ?m = "remdups (concat (map (owners_of ow) (payload_keys flds p)))"
  consider "?m = []" | own where "?m = [own]" | x y zs where "?m = x # y # zs"
    by (cases ?m; cases "tl ?m") auto
  then show ?case
  proof cases
    case 1
    let ?o = "Planned (length planned)"
    obtain rs' where r: "resolve_batch flds es validate (ow @ map (\<lambda>k. (k, ?o)) (payload_keys flds p)) (planned @ [p]) ps = Inr (planned', rs')"
      and rs: "rs = (?o, True) # rs'"
      using Cons.prems(1) 1 by (auto simp: Let_def bindR_Inr_iff)
    have free: "\<forall>k \<in> set (payload_keys flds p). \<forall>x. (k, x) \<notin> set ow" using set_matched [of ow "payload_keys flds p"] 1 by auto
    from Cons.IH [OF r table_extend [OF Cons.prems(2)] fresh_extend [OF Cons.prems(2,3) free]]
    obtain ext where ext: "planned' = (planned @ [p]) @ ext" "set ext \<subseteq> set ps" "planned_fresh ty flds es planned'"
      "list_all2 (resolved es planned') ps rs'" by blast
    then have "resolved es planned' p (?o, True)" by (simp add: resolved_def owner_payload_def nth_append)
    then show ?thesis using ext rs by auto
  next
    case (2 own)
    obtain rs' where r: "resolve_batch flds es validate ow planned ps = Inr (planned', rs')" and rs: "rs = (own, False) # rs'"
      and same: "canonical_json (PDict (owner_payload es planned own)) = canonical_json (PDict p)"
      using Cons.prems(1) 2 by (auto simp: bindR_Inr_iff ensure_Inr_iff)
    have "own \<in> set ?m" using 2 by simp
    then obtain k where "(k, own) \<in> set ow" unfolding set_matched by blast
    note range = owners_range [OF Cons.prems(2) this]
    obtain ext where ext: "planned' = planned @ ext" "set ext \<subseteq> set ps" "planned_fresh ty flds es planned'"
      "list_all2 (resolved es planned') ps rs'"
      using Cons.IH [OF r Cons.prems(2,3)] by blast
    have "resolved es planned' p (own, False)"
      using same range ext(1) by (auto simp: resolved_def owner_payload_def nth_append split: owner.splits)
    then show ?thesis using rs ext by auto
  next
    case 3
    then show ?thesis using Cons.prems(1) by simp
  qed
qed

text \<open>Which payloads are planned: exactly those whose keys belong to no event of the log and to no payload planned before.\<close>

definition keys_free :: "string \<Rightarrow> string list \<Rightarrow> spine_event list \<Rightarrow> pydict list \<Rightarrow> pydict \<Rightarrow> bool" where
  "keys_free ty flds es planned p \<longleftrightarrow> (\<forall>e \<in> set es. set (event_keys ty flds e) \<inter> set (payload_keys flds p) = {})
     \<and> (\<forall>q \<in> set planned. set (payload_keys flds q) \<inter> set (payload_keys flds p) = {})"

lemma keys_free_iff:
  assumes "table_ok ty flds es planned ow"
  shows "keys_free ty flds es planned p \<longleftrightarrow> remdups (concat (map (owners_of ow) (payload_keys flds p))) = []"
proof -
  have "keys_free ty flds es planned p \<longleftrightarrow> (\<forall>k \<in> set (payload_keys flds p). \<forall>x. (k, x) \<notin> set ow)"
  proof
    assume f: "keys_free ty flds es planned p"
    show "\<forall>k \<in> set (payload_keys flds p). \<forall>x. (k, x) \<notin> set ow"
    proof (intro ballI allI)
      fix k x assume "k \<in> set (payload_keys flds p)"
      then have "k \<notin> set (event_keys ty flds e)" if "e \<in> set es" for e using f that by (auto simp: keys_free_def)
      moreover have "k \<notin> set (payload_keys flds q)" if "q \<in> set planned" for q using f that \<open>k \<in> _\<close> by (auto simp: keys_free_def)
      ultimately show "(k, x) \<notin> set ow" by (cases x) (simp_all add: table_okD [OF assms])
    qed
  next
    assume f: "\<forall>k \<in> set (payload_keys flds p). \<forall>x. (k, x) \<notin> set ow"
    have "set (event_keys ty flds e) \<inter> set (payload_keys flds p) = {}" if mem: "e \<in> set es" for e
    proof -
      obtain j where "j < length es" "e = es ! j" using mem by (auto simp: in_set_conv_nth)
      then have "k \<in> set (event_keys ty flds e) \<Longrightarrow> (k, Existing j) \<in> set ow" for k by (simp add: table_okD [OF assms])
      then show ?thesis using f by blast
    qed
    moreover have "set (payload_keys flds q) \<inter> set (payload_keys flds p) = {}" if mem: "q \<in> set planned" for q
    proof -
      obtain j where "j < length planned" "q = planned ! j" using mem by (auto simp: in_set_conv_nth)
      then have "k \<in> set (payload_keys flds q) \<Longrightarrow> (k, Planned j) \<in> set ow" for k by (simp add: table_okD [OF assms])
      then show ?thesis using f by blast
    qed
    ultimately show "keys_free ty flds es planned p" by (simp add: keys_free_def)
  qed
  also have "\<dots> \<longleftrightarrow> set (remdups (concat (map (owners_of ow) (payload_keys flds p)))) = {}" unfolding set_matched by blast
  finally show ?thesis by (simp only: set_empty)
qed

fun plan_ok :: "string \<Rightarrow> string list \<Rightarrow> spine_event list \<Rightarrow> pydict list \<Rightarrow> pydict list \<Rightarrow> (owner \<times> bool) list \<Rightarrow> pydict list \<Rightarrow> bool" where
  "plan_ok ty flds es planned [] rs planned' \<longleftrightarrow> rs = [] \<and> planned' = planned"
| "plan_ok ty flds es planned (p # ps) rs planned' \<longleftrightarrow> (\<exists>own created rs'. rs = (own, created) # rs' \<and> (created \<longleftrightarrow> keys_free ty flds es planned p)
     \<and> (if created then own = Planned (length planned) else case own of Existing j \<Rightarrow> j < length es | Planned j \<Rightarrow> j < length planned)
     \<and> plan_ok ty flds es (if created then planned @ [p] else planned) ps rs' planned')"

lemma resolve_batch_plan:
  assumes "resolve_batch flds es validate ow planned ps = Inr (planned', rs)" "table_ok ty flds es planned ow"
  shows "plan_ok ty flds es planned ps rs planned'"
  using assms
proof (induction ps arbitrary: ow planned rs)
  case (Cons p ps)
  let ?m = "remdups (concat (map (owners_of ow) (payload_keys flds p)))"
  consider "?m = []" | own where "?m = [own]" | x y zs where "?m = x # y # zs"
    by (cases ?m; cases "tl ?m") auto
  then show ?case
  proof cases
    case 1
    let ?o = "Planned (length planned)"
    obtain rs' where r: "resolve_batch flds es validate (ow @ map (\<lambda>k. (k, ?o)) (payload_keys flds p)) (planned @ [p]) ps = Inr (planned', rs')"
      and rs: "rs = (?o, True) # rs'"
      using Cons.prems(1) 1 by (auto simp: Let_def bindR_Inr_iff)
    have "keys_free ty flds es planned p" unfolding keys_free_iff [OF Cons.prems(2)] by (rule 1)
    then show ?thesis using Cons.IH [OF r table_extend [OF Cons.prems(2)]] rs by auto
  next
    case (2 own)
    obtain rs' where r: "resolve_batch flds es validate ow planned ps = Inr (planned', rs')" and rs: "rs = (own, False) # rs'"
      using Cons.prems(1) 2 by (auto simp: bindR_Inr_iff ensure_Inr_iff)
    have "own \<in> set ?m" using 2 by simp
    then obtain k where "(k, own) \<in> set ow" unfolding set_matched by blast
    note range = owners_range [OF Cons.prems(2) this]
    have "\<not> keys_free ty flds es planned p" unfolding keys_free_iff [OF Cons.prems(2)] 2 by simp
    then show ?thesis using Cons.IH [OF r Cons.prems(2)] rs range by auto
  next
    case 3
    then show ?thesis using Cons.prems(1) by simp
  qed
qed simp

lemma plan_ok_extends: "plan_ok ty flds es planned ps rs planned' \<Longrightarrow> \<exists>ext. planned' = planned @ ext"
proof (induction ps arbitrary: planned rs)
  case (Cons p ps)
  then show ?case by (fastforce split: if_splits)
qed simp

section \<open>Preparing and writing a batch\<close>

definition payload_ready :: "pydict \<Rightarrow> bool" where
  "payload_ready p \<longleftrightarrow> payload_clean p \<and> canon (PDict p) = PDict p"

lemma prepare_batch_ok:
  assumes "ed25519_ok n" "signer_ok n i" "prepare_batch n i ty ts validate used (last_event es) base planned = Inr (used', prepared)"
    "list_all payload_ready planned" "chain_from n genesis_prev 0 es"
  shows "map ev_payload prepared = planned \<and> list_all (\<lambda>e. ev_type e = ty \<and> event_canonical e \<and> length (encode_event e) \<le> max_spine_line_bytes) prepared
    \<and> chain_from n genesis_prev 0 (es @ prepared)"
  using assms(3-)
proof (induction planned arbitrary: used base es used' prepared)
  case (Cons p planned)
  obtain e line used1 rest where e: "prepare_append n i ty p ts (last_event es) base = Inr (e, line)"
    and r: "prepare_batch n i ty ts validate used1 (Some e) (base + length line + 1) planned = Inr (used', rest)"
    and pr: "prepared = e # rest"
    using Cons.prems(1) by (auto simp: bindR_Inr_iff)
  have "payload_clean p" "canon (PDict p) = PDict p" using Cons.prems(2) by (auto simp: payload_ready_def)
  note ok = prepare_ok [OF assms(1,2) e this]
  have "chain_from n genesis_prev 0 (es @ [e])" using chain_snoc Cons.prems(3) ok by blast
  then have "map ev_payload rest = planned \<and> list_all (\<lambda>e. ev_type e = ty \<and> event_canonical e \<and> length (encode_event e) \<le> max_spine_line_bytes) rest
      \<and> chain_from n genesis_prev 0 ((es @ [e]) @ rest)"
    using Cons.IH [of used1 "es @ [e]"] r Cons.prems(2) by (simp add: last_event_def)
  then show ?case using pr ok by simp
qed simp

lemma append_all_rep:
  assumes "log_rep n s es" "chain_from n genesis_prev 0 (es @ prepared)" "list_all storable prepared"
  shows "log_rep n (append_all prepared s) (es @ prepared)"
  using assms
proof (induction prepared arbitrary: s es)
  case (Cons e prepared)
  have c: "chain_from n genesis_prev 0 (es @ [e])" using Cons.prems(2) by (simp add: chain_append)
  have "log_rep n (append_prepared e (encode_event e) s) (es @ [e])"
    using c [unfolded chain_snoc] Cons.prems(1,3) by (intro append_prepared_rep) (auto simp: storable_def)
  then show ?case using Cons.IH [of _ "es @ [e]"] Cons.prems by (simp add: append_all_def)
qed (simp add: append_all_def)

lemma batch_results_ok:
  "batch_results es prepared used rs = Inr views \<Longrightarrow>
     views = map (\<lambda>r. (snapshot_event (owner_event es prepared (fst r)), snd r)) rs"
proof (induction rs arbitrary: used views)
  case (Cons r rs)
  then show ?case by (cases r) (auto simp: Let_def bindR_Inr_iff)
qed simp

lemma encode_batch_ok:
  "encode_batch used payloads = Inr (used', ps) \<Longrightarrow> list_all keys_once payloads \<Longrightarrow>
     list_all2 (\<lambda>v p. canon v = PDict p \<and> payload_ready p) payloads ps"
proof (induction payloads arbitrary: used used' ps)
  case (Cons v payloads)
  then obtain p ps' used1 where p: "snapshot_payload v = Inr p" and r: "encode_batch used1 payloads = Inr (used', ps')" and ps: "ps = p # ps'"
    by (auto simp: bindR_Inr_iff)
  have "canon v = PDict p \<and> payload_ready p" using snapshot_payload_ok [OF p] Cons.prems(2) by (simp add: payload_ready_def)
  with Cons.IH [OF r] Cons.prems(2) show ?case by (simp add: ps)
qed simp

lemma ready_canonical_eq:
  assumes "payload_ready p" "payload_ready q" "canonical_json (PDict p) = canonical_json (PDict q)"
  shows "p = q"
proof -
  have w: "wf_json (PDict p)" "wf_json (PDict q)" using assms by (auto simp: payload_ready_def payload_clean_def)
  then have "canon (PDict p) = canon (PDict q)"
    using assms(3) json_dumps_inject [OF w] by (simp add: canonical_json_wf del: canon.simps wf_json.simps)
  then show ?thesis using assms(1,2) by (simp add: payload_ready_def)
qed

lemma storable_ready: "storable e \<Longrightarrow> payload_ready (ev_payload e)"
  by (simp add: storable_def event_canonical_def payload_ready_def event_wf_def)

lemma keys_unique_extend:
  assumes "keys_unique ty flds es" "planned_fresh ty flds es (map ev_payload news)" "list_all (\<lambda>e. ev_type e = ty) news"
  shows "keys_unique ty flds (es @ news)"
  unfolding keys_unique_def
proof (intro allI impI)
  let ?K = "\<lambda>e. set (event_keys ty flds e)"
  fix a b assume ab: "a < length (es @ news)" "b < length (es @ news)" "a \<noteq> b"
  have new: "j < length news \<Longrightarrow> event_keys ty flds (news ! j) = payload_keys flds (ev_payload (news ! j))" for j
    using assms(3) by (simp add: event_keys_def list_all_length)
  have old_new: "k < length es \<Longrightarrow> j < length news \<Longrightarrow> ?K (es ! k) \<inter> ?K (news ! j) = {}" for k j
    using assms(2) new by (simp add: planned_fresh_def)
  have new_new: "k < j \<Longrightarrow> j < length news \<Longrightarrow> ?K (news ! k) \<inter> ?K (news ! j) = {}" for k j
    using assms(2) new by (simp add: planned_fresh_def)
  consider "a < length es" "b < length es" | "a < length es" "length es \<le> b" | "length es \<le> a" "b < length es"
    | "length es \<le> a" "length es \<le> b" "a < b" | "length es \<le> a" "length es \<le> b" "b < a" using ab(3) by linarith
  then show "?K ((es @ news) ! a) \<inter> ?K ((es @ news) ! b) = {}"
  proof cases
    case 1
    then show ?thesis using assms(1) ab by (simp add: keys_unique_def nth_append)
  next
    case 2
    then show ?thesis using old_new [of a "b - length es"] ab by (simp add: nth_append)
  next
    case 3
    then show ?thesis using old_new [of b "a - length es"] ab by (simp add: nth_append Int_commute)
  next
    case 4
    then show ?thesis using new_new [of "a - length es" "b - length es"] ab by (simp add: nth_append)
  next
    case 5
    then show ?thesis using new_new [of "b - length es" "a - length es"] ab by (simp add: nth_append Int_commute)
  qed
qed

section \<open>The batch as a whole\<close>

text \<open>The outcome of a successful batch over the abstract log: the new events, and for each payload the
  event that carries it.\<close>

text \<open>The answers of a batch against the events held so far: an event is reported as created exactly when none of its keys
  is held, and then it is held from there on; any other is one of those held.\<close>

fun created_in_order :: "string \<Rightarrow> string list \<Rightarrow> spine_event list \<Rightarrow> (spine_event \<times> bool) list \<Rightarrow> bool" where
  "created_in_order ty flds held [] \<longleftrightarrow> True"
| "created_in_order ty flds held ((e, created) # views) \<longleftrightarrow>
     (created \<longleftrightarrow> (\<forall>x \<in> set held. set (event_keys ty flds x) \<inter> set (payload_keys flds (ev_payload e)) = {}))
     \<and> (created \<or> e \<in> set held) \<and> created_in_order ty flds (if created then held @ [e] else held) views"

definition batch_done :: "nacl \<Rightarrow> string \<Rightarrow> string list \<Rightarrow> spine_event list \<Rightarrow> pyval list \<Rightarrow> spine_event list \<Rightarrow> (spine_event \<times> bool) list \<Rightarrow> bool" where
  "batch_done n ty flds es payloads news views \<longleftrightarrow>
     chain_from n genesis_prev 0 (es @ news) \<and> planned_fresh ty flds es (map ev_payload news)
     \<and> list_all (\<lambda>e. ev_type e = ty \<and> event_canonical e \<and> length (encode_event e) \<le> max_spine_line_bytes) news
     \<and> news = map fst (filter snd views) \<and> created_in_order ty flds es views
     \<and> list_all2 (\<lambda>v view. PDict (ev_payload (fst view)) = canon v) payloads views"

lemma plan_views:
  assumes "plan_ok ty flds es planned ps rs planned'" "map ev_payload prepared = planned'" "list_all (\<lambda>e. ev_type e = ty) prepared"
    "list_all2 (\<lambda>p r. ev_payload (owner_event es prepared (fst r)) = p) ps rs"
  shows "created_in_order ty flds (es @ take (length planned) prepared) (map (\<lambda>r. (owner_event es prepared (fst r), snd r)) rs)
    \<and> map fst (filter snd (map (\<lambda>r. (owner_event es prepared (fst r), snd r)) rs)) = drop (length planned) prepared"
  using assms(1,4)
proof (induction ps arbitrary: planned rs)
  case Nil
  then show ?case using assms(2) by auto
next
  case (Cons p ps)
  obtain own created rs' where rs: "rs = (own, created) # rs'" and c: "created \<longleftrightarrow> keys_free ty flds es planned p"
    and own: "if created then own = Planned (length planned) else case own of Existing j \<Rightarrow> j < length es | Planned j \<Rightarrow> j < length planned"
    and rest: "plan_ok ty flds es (if created then planned @ [p] else planned) ps rs' planned'" using Cons.prems(1) by auto
  have p: "ev_payload (owner_event es prepared own) = p" and ih: "list_all2 (\<lambda>p r. ev_payload (owner_event es prepared (fst r)) = p) ps rs'"
    using Cons.prems(2) rs by simp_all
  obtain ext where ext: "planned' = (if created then planned @ [p] else planned) @ ext" using plan_ok_extends [OF rest] by blast
  let ?held = "es @ take (length planned) prepared"
  have pl: "map ev_payload (take (length planned) prepared) = planned" using arg_cong [OF assms(2), of "take (length planned)"] ext by (simp add: take_map)
  have "keys_free ty flds es planned p \<longleftrightarrow> (\<forall>x \<in> set ?held. set (event_keys ty flds x) \<inter> set (payload_keys flds p) = {})"
  proof -
    have "set (event_keys ty flds x) = set (payload_keys flds (ev_payload x))" if "x \<in> set (take (length planned) prepared)" for x
      using that assms(3) by (auto simp: event_keys_def list_all_iff dest: in_set_takeD)
    then have "(\<forall>x \<in> set (take (length planned) prepared). set (event_keys ty flds x) \<inter> set (payload_keys flds p) = {})
        \<longleftrightarrow> (\<forall>q \<in> set (map ev_payload (take (length planned) prepared)). set (payload_keys flds q) \<inter> set (payload_keys flds p) = {})" by simp
    then show ?thesis unfolding pl by (auto simp: keys_free_def)
  qed
  note fresh = c [unfolded this]
  show ?case
  proof (cases created)
    case True
    have len: "length planned < length prepared" using arg_cong [OF assms(2), of length] ext True by simp
    have o: "owner_event es prepared own = prepared ! length planned" using own True by (simp add: owner_event_def)
    show ?thesis using Cons.IH [OF rest ih] fresh True p len unfolding rs o
      by (simp add: take_Suc_conv_app_nth Cons_nth_drop_Suc o)
  next
    case False
    have "owner_event es prepared own \<in> set ?held"
    proof (cases own)
      case (Existing j)
      then show ?thesis using own False by (simp add: owner_event_def)
    next
      case (Planned j)
      then have "j < length planned" using own False by simp
      moreover have "length planned \<le> length prepared" using arg_cong [OF assms(2), of length] ext by simp
      ultimately have "take (length planned) prepared ! j = prepared ! j" "j < length (take (length planned) prepared)" by simp_all
      then show ?thesis using Planned by (metis owner_event_def owner.simps(6) nth_mem UnCI set_append)
    qed
    moreover note Cons.IH [OF rest [unfolded if_not_P [OF False]] ih]
    moreover have "\<not> (\<forall>x \<in> set ?held. set (event_keys ty flds x) \<inter> set (payload_keys flds p) = {})" using fresh False by blast
    ultimately show ?thesis using False p unfolding rs by simp
  qed
qed

lemma resolved_event:
  assumes "resolved es planned p r" "list_all storable es" "list_all payload_ready planned" "payload_ready p"
    "map ev_payload prepared = planned" "list_all event_canonical prepared"
  shows "ev_payload (owner_event es prepared (fst r)) = p \<and> owner_event es prepared (fst r) \<in> set (es @ prepared)
    \<and> (snd r \<longrightarrow> owner_event es prepared (fst r) \<in> set prepared) \<and> event_canonical (owner_event es prepared (fst r))"
proof (cases "fst r")
  case (Existing j)
  then have j: "j < length es" "\<not> snd r" "canonical_json (PDict (ev_payload (es ! j))) = canonical_json (PDict p)"
    using assms(1) by (auto simp: resolved_def owner_payload_def)
  have s: "storable (es ! j)" using assms(2) j(1) by (simp add: list_all_length)
  then have "ev_payload (es ! j) = p" using ready_canonical_eq [OF storable_ready assms(4) j(3)] by simp
  then show ?thesis using Existing j s by (simp add: owner_event_def storable_def)
next
  case (Planned j)
  then have j: "j < length planned" "canonical_json (PDict (planned ! j)) = canonical_json (PDict p)"
    using assms(1) by (auto simp: resolved_def owner_payload_def)
  have "payload_ready (planned ! j)" using assms(3) j(1) by (simp add: list_all_length)
  then have "planned ! j = p" using ready_canonical_eq assms(4) j(2) by blast
  moreover have "j < length prepared" "ev_payload (prepared ! j) = planned ! j" using assms(5) j(1) by auto
  ultimately show ?thesis using Planned assms(6) by (simp add: owner_event_def list_all_length)
qed

lemma batch_outcome:
  assumes "ed25519_ok n" "signer_ok n i" "list_all storable es" "chain_from n genesis_prev 0 es"
    "list_all2 (\<lambda>v p. canon v = PDict p \<and> payload_ready p) payloads ps"
    "resolve_batch flds es validate (semantic_index ty flds es) [] ps = Inr (planned, rs)"
    "prepare_batch n i ty ts validate used (last_event es) base planned = Inr (used', prepared)"
    "batch_results es prepared used' rs = Inr views"
  shows "batch_done n ty flds es payloads prepared views"
proof -
  have table: "table_ok ty flds es [] (semantic_index ty flds es)"
    unfolding table_ok_def semantic_index_iff [OF assms(4,3)] by (auto split: owner.splits)
  moreover have "planned_fresh ty flds es []" by (simp add: planned_fresh_def)
  ultimately have r: "set planned \<subseteq> set ps" "planned_fresh ty flds es planned" "list_all2 (resolved es planned) ps rs"
    using resolve_batch_ok [OF assms(6)] by auto
  have ready: "list_all payload_ready ps"
    using assms(5) by (auto simp: list_all2_conv_all_nth list_all_length)
  then have ready': "list_all payload_ready planned" using r(1) by (auto simp: list_all_iff)
  note prep = prepare_batch_ok [OF assms(1,2,7) ready' assms(4)]
  have can: "list_all event_canonical prepared" using prep by (auto simp: list_all_iff)
  have ev: "ev_payload (owner_event es prepared (fst r)) = p \<and> owner_event es prepared (fst r) \<in> set (es @ prepared)
    \<and> (snd r \<longrightarrow> owner_event es prepared (fst r) \<in> set prepared) \<and> event_canonical (owner_event es prepared (fst r))"
    if "resolved es planned p r" "payload_ready p" for p r
    using resolved_event [OF that(1) assms(3) ready' that(2) _ can] prep by blast
  have "list_all2 (\<lambda>v r. PDict (ev_payload (owner_event es prepared (fst r))) = canon v \<and> owner_event es prepared (fst r) \<in> set (es @ prepared)
      \<and> (snd r \<longrightarrow> owner_event es prepared (fst r) \<in> set prepared) \<and> event_canonical (owner_event es prepared (fst r))) payloads rs"
    using assms(5) r(3) ev unfolding list_all2_conv_all_nth by (metis (no_types, lifting))
  then have pay: "list_all2 (\<lambda>v r. PDict (ev_payload (owner_event es prepared (fst r))) = canon v) payloads rs"
    and can: "r \<in> set rs \<Longrightarrow> event_canonical (owner_event es prepared (fst r))" for r
    by (auto simp: list_all2_conv_all_nth in_set_conv_nth)
  have views: "views = map (\<lambda>r. (owner_event es prepared (fst r), snd r)) rs"
    unfolding batch_results_ok [OF assms(8)] using can by (simp add: snapshot_canonical)
  have "list_all2 (\<lambda>p r. ev_payload (owner_event es prepared (fst r)) = p) ps rs"
    using assms(5) pay unfolding list_all2_conv_all_nth by (metis pyval.inject(6))
  moreover have "list_all (\<lambda>e. ev_type e = ty) prepared" using prep by (auto simp: list_all_iff)
  ultimately have "created_in_order ty flds es views \<and> map fst (filter snd views) = prepared"
    using plan_views [OF resolve_batch_plan [OF assms(6) table]] prep by (simp add: views)
  then show ?thesis using prep r(2) pay by (simp add: batch_done_def views list_all2_map2)
qed

lemma append_unique_many_cases:
  assumes "ed25519_ok n" "signer_ok n i" "log_rep n s es" "list_all keys_once payloads"
    "append_unique_many n i ty payloads flds ts validate s = (s', res)"
  shows "case res of Inl _ \<Rightarrow> s' = s
    | Inr views \<Rightarrow> \<exists>news. s' = append_all news s \<and> batch_done n ty flds es payloads news views"
proof -
  have rep: "list_all storable es" "chain_from n genesis_prev 0 es" using assms(3) by (auto simp: log_rep_def)
  note o = open_rep [OF assms(3)]
  let ?plan = "\<lambda>used ps. bindR (resolve_batch flds es validate (semantic_index ty flds es) [] ps) (\<lambda>(planned, rs).
      bindR (prepare_batch n i ty ts validate used (last_event es) (length (file_bytes (log_file s))) planned) (\<lambda>(used', prepared).
      bindR (batch_results es prepared used' rs) (\<lambda>views. Inr (prepared, views))))"
  show ?thesis
  proof (cases "\<not> fields_ok flds \<or> payloads = [] \<or> max_spine_append_batch < length payloads")
    case True
    then show ?thesis using assms(5) rep
      by (auto simp: append_unique_many_def append_all_def batch_done_def planned_fresh_def split: if_splits intro!: exI [of _ "[]"])
  next
    case go: False
    show ?thesis
    proof (cases "encode_batch 0 payloads")
      case (Inl e)
      then show ?thesis using assms(5) go by (simp add: append_unique_many_def) (auto split: if_splits)
    next
      case (Inr b)
      obtain used ps where b: "b = (used, ps)" by fastforce
      have a: "append_unique_many n i ty payloads flds ts validate s =
          (if \<not> list_all (unique_fields_present flds) ps then (s, raise ValueError ''unique payload field must be a non-empty string'')
           else case ?plan used ps of Inl e \<Rightarrow> (s, Inl e) | Inr (prepared, views) \<Rightarrow> (append_all prepared s, Inr views))"
        using go by (simp add: append_unique_many_def Inr b o)
      show ?thesis
      proof (cases "?plan used ps")
        case (Inl e)
        then show ?thesis using assms(5) unfolding a by (auto split: if_splits)
      next
        case plan: (Inr q)
        then obtain planned rs used' prepared views where q: "q = (prepared, views)"
          "resolve_batch flds es validate (semantic_index ty flds es) [] ps = Inr (planned, rs)"
          "prepare_batch n i ty ts validate used (last_event es) (length (file_bytes (log_file s))) planned = Inr (used', prepared)"
          "batch_results es prepared used' rs = Inr views"
          by (auto simp: bindR_Inr_iff)
        then have "batch_done n ty flds es payloads prepared views"
          using batch_outcome [OF assms(1,2) rep encode_batch_ok [OF Inr [unfolded b] assms(4)]] by blast
        then show ?thesis using assms(5) plan q(1) unfolding a by (auto split: if_splits)
      qed
    qed
  qed
qed

section \<open>Properties\<close>

text \<open>C4. Idempotent batches: on a log that represents \<open>es\<close>, \<open>append_unique_many\<close> either fails and leaves the state untouched,
  or answers each payload, in order, with an event that carries exactly this payload (keys sorted) and a flag. The
  flag is set exactly when no event of the type, in \<open>es\<close> or created earlier in the batch, holds one of its unique field values;
  without the flag the answer is one of those events. What is appended is exactly the sequence of the flagged events, all
  of the requested type, and the log represents \<open>es\<close> with them (unless a line is of exactly the limit length, which
  recovery does not accept). If no two events of the type shared a unique field value in \<open>es\<close>, none do afterwards.\<close>

theorem append_unique_many_refines:
  assumes "ed25519_ok n" "signer_ok n i" "log_rep n s es" "list_all keys_once payloads"
  shows "case append_unique_many n i ty payloads flds ts validate s of
      (s', Inl _) \<Rightarrow> s' = s
    | (s', Inr views) \<Rightarrow> let news = map fst (filter snd views) in
        s' = append_all news s
        \<and> (list_all (\<lambda>e. length (encode_event e) \<noteq> max_spine_line_bytes) news \<longrightarrow> log_rep n s' (es @ news))
        \<and> list_all (\<lambda>e. ev_type e = ty) news
        \<and> list_all2 (\<lambda>v view. PDict (ev_payload (fst view)) = canon v) payloads views
        \<and> created_in_order ty flds es views
        \<and> (keys_unique ty flds es \<longrightarrow> keys_unique ty flds (es @ news))"
proof -
  obtain s' r where a: "append_unique_many n i ty payloads flds ts validate s = (s', r)" by fastforce
  note c = append_unique_many_cases [OF assms a]
  show ?thesis
  proof (cases r)
    case (Inl x)
    then show ?thesis using a c by simp
  next
    case (Inr views)
    then obtain news where news: "s' = append_all news s" "batch_done n ty flds es payloads news views" using c by auto
    note d = news(2) [unfolded batch_done_def]
    have "log_rep n s' (es @ news)" if "list_all (\<lambda>e. length (encode_event e) \<noteq> max_spine_line_bytes) news"
    proof -
      have "list_all (\<lambda>e. event_canonical e \<and> length (encode_event e) \<le> max_spine_line_bytes) news"
        using d unfolding list_all_iff by blast
      then have "list_all storable news" using that unfolding list_all_iff storable_def by (metis order.order_iff_strict)
      then show ?thesis unfolding news(1) using d by (blast intro: append_all_rep [OF assms(3)])
    qed
    moreover have "list_all (\<lambda>e. ev_type e = ty) news" using d unfolding list_all_iff by blast
    moreover have "keys_unique ty flds es \<longrightarrow> keys_unique ty flds (es @ news)"
      using keys_unique_extend d calculation(2) by blast
    moreover have "news = map fst (filter snd views)" using d by blast
    ultimately show ?thesis using a Inr d news(1) unfolding Let_def by simp
  qed
qed

theorem append_unique_many_refines_witness:
  "case append_unique_many demo_nacl (demo_identity 1) ''t'' [PDict [(PStr ''id'', PStr ''x'')]] [''id''] 9 (\<lambda>_. Inr ()) empty_log of
      (s', Inl _) \<Rightarrow> s' = empty_log
    | (s', Inr views) \<Rightarrow> let news = map fst (filter snd views) in
        s' = append_all news empty_log
        \<and> (list_all (\<lambda>e. length (encode_event e) \<noteq> max_spine_line_bytes) news \<longrightarrow> log_rep demo_nacl s' ([] @ news))
        \<and> list_all (\<lambda>e. ev_type e = ''t'') news
        \<and> list_all2 (\<lambda>v view. PDict (ev_payload (fst view)) = canon v) [PDict [(PStr ''id'', PStr ''x'')]] views
        \<and> created_in_order ''t'' [''id''] [] views
        \<and> (keys_unique ''t'' [''id''] [] \<longrightarrow> keys_unique ''t'' [''id''] ([] @ news))"
  by (rule append_unique_many_refines [OF demo_nacl_ok demo_signer empty_log_rep]) simp

lemma matched_owner:
  assumes "log_rep n s es" "keys_unique ty flds es" "j < length es" "ev_type (es ! j) = ty" "payload_keys flds (ev_payload (es ! j)) \<noteq> []"
  shows "remdups (concat (map (owners_of (semantic_index ty flds es)) (payload_keys flds (ev_payload (es ! j))))) = [Existing j]"
    (is "?m = _")
proof -
  have rep: "chain_from n genesis_prev 0 es" "list_all storable es" using assms(1) by (auto simp: log_rep_def)
  have k: "event_keys ty flds (es ! j) = payload_keys flds (ev_payload (es ! j))" using assms(4) by (simp add: event_keys_def)
  have "set ?m = {Existing j}"
  proof
    show "set ?m \<subseteq> {Existing j}"
    proof
      fix x assume "x \<in> set ?m"
      then obtain q where q: "q \<in> set (event_keys ty flds (es ! j))" "(q, x) \<in> set (semantic_index ty flds es)"
        unfolding set_matched k by blast
      then obtain a where a: "x = Existing a" "a < length es" "q \<in> set (event_keys ty flds (es ! a))"
        using semantic_index_iff [OF rep, of q x ty flds] by (auto split: owner.splits)
      then have "a = j" using assms(2,3) q(1) unfolding keys_unique_def by (metis disjoint_iff)
      then show "x \<in> {Existing j}" using a(1) by simp
    qed
    obtain q where "q \<in> set (event_keys ty flds (es ! j))" using assms(5) k by (metis list.set_sel(1))
    then have "(q, Existing j) \<in> set (semantic_index ty flds es)" using semantic_index_iff [OF rep, of q "Existing j"] assms(3) by simp
    then show "{Existing j} \<subseteq> set ?m" unfolding set_matched using \<open>q \<in> _\<close> k by auto
  qed
  then show ?thesis by (intro distinct_single) (simp_all only: distinct_remdups)
qed

lemma present_keys: "fields_ok flds \<Longrightarrow> unique_fields_present flds p \<Longrightarrow> payload_keys flds p \<noteq> []"
  by (cases flds) (auto simp: fields_ok_def unique_fields_present_def payload_keys_def nonempty_str_def split: option.splits pyval.splits)

text \<open>Retrying is safe: when the log already holds an event of this type with this payload and
  its unique fields are unique, \<open>append_unique\<close> of the same payload returns that event with
  \<open>created = False\<close> and changes nothing.\<close>

lemma append_unique_retry:
  assumes "log_rep n s es" "keys_unique ty flds es" "e \<in> set es" "ev_type e = ty"
    "snapshot_payload v = Inr (ev_payload e)" "fields_ok flds" "unique_fields_present flds (ev_payload e)"
  shows "append_unique n i ty v flds ts s = (s, Inr (e, False))"
proof -
  obtain j where j: "j < length es" "es ! j = e" using assms(3) by (auto simp: in_set_conv_nth)
  have st: "storable e" using assms(1,3) by (auto simp: log_rep_def list_all_iff)
  then have can: "event_canonical e" "length (encode_event e) < max_spine_line_bytes" by (auto simp: storable_def)
  obtain bs where bs: "encode_payload v = Inr bs" using assms(5) by (auto simp: snapshot_payload_def bindR_Inr_iff)
  then have len: "length bs \<le> max_spine_payload_bytes"
    by (auto simp: encode_payload_def ensure_Inr_iff split: pyval.splits sum.splits)
  have lim: "max_spine_payload_bytes + max_spine_line_bytes \<le> max_spine_append_batch_bytes" "1 \<le> max_spine_append_batch"
    by (simp_all add: max_spine_payload_bytes_def max_spine_line_bytes_def max_spine_append_batch_bytes_def max_spine_append_batch_def)
  have enc: "encode_batch 0 [v] = Inr (length bs, [ev_payload e])"
    using bs len lim assms(5) by (simp add: charge_batch_bytes_def)
  have m: "remdups (concat (map (owners_of (semantic_index ty flds es)) (payload_keys flds (ev_payload e)))) = [Existing j]"
    using matched_owner [OF assms(1,2) j(1)] j(2) assms(4) present_keys [OF assms(6,7)] by simp
  obtain cj where "canonical_json (PDict (ev_payload e)) = Inr cj"
    using storable_ready [OF st] by (auto simp: payload_ready_def payload_clean_def canonical_json_wf)
  then have "resolve_batch flds es (\<lambda>_. Inr ()) (semantic_index ty flds es) [] [ev_payload e] = Inr ([], [(Existing j, False)])"
    using m j(2) by (simp add: owner_payload_def)
  moreover have "batch_results es [] (length bs) [(Existing j, False)] = Inr [(e, False)]"
    using j(2) can len lim by (simp add: owner_event_def charge_batch_bytes_def snapshot_canonical)
  ultimately have "append_unique_many n i ty [v] flds ts (\<lambda>_. Inr ()) s = (s, Inr [(e, False)])"
    using assms(6,7) lim(2) by (simp add: append_unique_many_def enc open_rep [OF assms(1)] append_all_def del: encode_batch.simps resolve_batch.simps batch_results.simps)
  then show ?thesis by (simp add: append_unique_def)
qed

lemma append_unique_retry_demo:
  "append_unique demo_nacl (demo_identity 1) ''t'' (PDict demo_payload) [''id''] 33
     (append_prepared demo_event (encode_event demo_event) empty_log)
   = (append_prepared demo_event (encode_event demo_event) empty_log, Inr (demo_event, False))"
proof (rule append_unique_retry [OF demo_rep])
  show "keys_unique ''t'' [''id''] [demo_event]" by (simp add: keys_unique_def)
  show "snapshot_payload (PDict demo_payload) = Inr (ev_payload demo_event)" by (simp add: demo_snapshot demo_event_def)
  show "unique_fields_present [''id''] (ev_payload demo_event)"
    by (simp add: demo_event_def demo_payload_def unique_fields_present_def nonempty_str_def)
qed (simp_all add: fields_ok_def demo_event_def)

end
