(* ===== verification/Signed_Statement.thy ===== *)
theory Signed_Statement
  imports Spine_Event
begin

text \<open>
  The pattern that the governance, dispute and capability-request statements share: a dict whose
  \<open>sig\<close> field is the base64url Ed25519 signature of the canonical JSON of all other fields, under
  the key of the DID in one of those fields. \<open>sign_statement\<close> and \<open>check_signature\<close> are the code's last
  lines of signing and verifying; the locale states what a kind of statement adds, and
  gives the two facts every kind needs: signing produces a statement that verifies, and an accepted
  statement carries a valid signature over every field it has.
\<close>

definition signing_body :: "pydict \<Rightarrow> pydict" where
  "signing_body stmt = without_key ''sig'' stmt"

definition sign_statement :: "nacl \<Rightarrow> identity \<Rightarrow> pydict \<Rightarrow> pydict res" where
  "sign_statement n signer stmt =
     bindR (canonical_json (PDict (signing_body stmt))) (\<lambda>bs.
     bindR (identity_sign n signer bs) (\<lambda>s. Inr (dput stmt ''sig'' (PStr (b64u_encode s)))))"

definition check_signature :: "nacl \<Rightarrow> string \<Rightarrow> pydict \<Rightarrow> bool \<times> string" where
  "check_signature n field stmt =
     (case bindR (from_did (the_str (dget stmt field)) (PStr []) PNone) (\<lambda>verifier.
           bindR (b64u_decode (the_str (dget stmt ''sig''))) (\<lambda>s.
           bindR (canonical_json (PDict (signing_body stmt))) (\<lambda>body. Inr (verifier, s, body)))) of
        Inl e \<Rightarrow> (False, ''bad encoding: '' @ exn_msg e)
      | Inr (verifier, s, body) \<Rightarrow>
          if \<not> identity_verify n verifier body s None then (False, ''signature invalid'') else (True, ''ok''))"

fun missing_str :: "string list \<Rightarrow> pydict \<Rightarrow> string option" where
  "missing_str [] stmt = None"
| "missing_str (f # fs) stmt = (if nonempty_str (dget stmt f) then missing_str fs stmt else Some (''missing/invalid '' @ f))"

lemma missing_str_None: "missing_str fs stmt = None \<longleftrightarrow> (\<forall>f \<in> set fs. nonempty_str (dget stmt f))"
  by (induction fs) auto

text \<open>A valid signature over the rest of the statement.\<close>

definition signature_over :: "nacl \<Rightarrow> string \<Rightarrow> pydict \<Rightarrow> bool" where
  "signature_over n field stmt \<longleftrightarrow> (\<exists>did sg pk s body. dget stmt field = Some (PStr did) \<and> dget stmt ''sig'' = Some (PStr sg)
     \<and> decode_ed25519_did_key did = Inr pk \<and> b64u_decode sg = Inr s
     \<and> canonical_json (PDict (signing_body stmt)) = Inr body \<and> nacl_available n \<and> nacl_verify n pk body s)"

lemma nonempty_str_the: "nonempty_str v \<Longrightarrow> v = Some (PStr (the_str v))"
  by (auto simp: nonempty_str_def split: option.splits pyval.splits)

lemma check_signature_iff:
  assumes "nonempty_str (dget stmt field)" "nonempty_str (dget stmt ''sig'')"
  shows "check_signature n field stmt = (True, m) \<longleftrightarrow> signature_over n field stmt \<and> m = ''ok''"
proof
  assume L: "check_signature n field stmt = (True, m)"
  then obtain verifier s body where f: "from_did (the_str (dget stmt field)) (PStr []) PNone = Inr verifier"
    "b64u_decode (the_str (dget stmt ''sig'')) = Inr s" "canonical_json (PDict (signing_body stmt)) = Inr body"
    "identity_verify n verifier body s None" "m = ''ok''"
    by (auto simp: check_signature_def res_iffs split: sum.splits if_splits)
  obtain pk where "decode_ed25519_did_key (the_str (dget stmt field)) = Inr pk" "id_verify_key verifier = Some pk" "length pk = 32"
    using from_did_verify_key [OF f(1)] by blast
  then show "signature_over n field stmt \<and> m = ''ok''"
    using f nonempty_str_the [OF assms(1)] nonempty_str_the [OF assms(2)] unfolding signature_over_def
    by (auto simp: identity_verify_def bytes_or_def bytes_truthy_def)
next
  assume R: "signature_over n field stmt \<and> m = ''ok''"
  then obtain did sg pk s body where f: "dget stmt field = Some (PStr did)" "dget stmt ''sig'' = Some (PStr sg)"
    "decode_ed25519_did_key did = Inr pk" "b64u_decode sg = Inr s"
    "canonical_json (PDict (signing_body stmt)) = Inr body" "nacl_available n" "nacl_verify n pk body s"
    by (auto simp: signature_over_def)
  obtain verifier where v: "from_did did (PStr []) PNone = Inr verifier" "id_verify_key verifier = Some pk"
    using from_did_total [OF f(3)] by blast
  have "pk \<noteq> []" using f(3) by (auto simp: decode_did_iff encode_ed25519_did_key_def split: if_splits)
  then show "check_signature n field stmt = (True, m)"
    using f v R by (simp add: check_signature_def verify_None)
qed

lemma signing_body_dput [simp]: "signing_body (dput stmt ''sig'' v) = signing_body stmt"
proof -
  have "filter (\<lambda>(k', v). k' \<noteq> k) (assoc_put k v xs) = filter (\<lambda>(k', v). k' \<noteq> k) xs" for k v and xs :: pydict
    by (induction xs) auto
  then show ?thesis by (simp add: signing_body_def without_key_def dput_def)
qed

lemma sign_statement_signature:
  assumes "ed25519_ok n" "signer_ok n i" "as_did i = Inr did" "dget stmt field = Some (PStr did)" "field \<noteq> ''sig''"
    "sign_statement n i stmt = Inr out"
  shows "signature_over n field out"
    and "dget out k = (if k = ''sig'' then dget out ''sig'' else dget stmt k)"
    and "nonempty_str (dget out ''sig'')"
proof -
  obtain bs s where bs: "canonical_json (PDict (signing_body stmt)) = Inr bs" "identity_sign n i bs = Inr s"
    and out: "out = dput stmt ''sig'' (PStr (b64u_encode s))"
    using assms(6) by (auto simp: sign_statement_def bindR_Inr_iff)
  obtain seed where seed: "id_signing_key i = Some seed" "length seed = 32" using assms(2) by (rule signer_okE)
  note ok = ed25519_okD [OF assms(1) seed(2)]
  have s: "s = nacl_sign n seed bs" using signer_sign [OF assms(1,2)] bs(2) seed by simp
  have "decode_ed25519_did_key did = Inr (nacl_pub n seed)"
    using signer_did [OF assms(1,2)] assms(3) seed(1) by (metis Inr_inject option.sel)
  then show "signature_over n field out"
    unfolding signature_over_def using assms(4,5) bs ok by (auto simp: out s)
  show "dget out k = (if k = ''sig'' then dget out ''sig'' else dget stmt k)" by (simp add: out)
  have "s \<noteq> []" using ok(3) [of bs] s by auto
  then show "nonempty_str (dget out ''sig'')" by (simp add: out nonempty_str_def b64u_encode_Nil)
qed

lemma sign_statement_total:
  assumes "ed25519_ok n" "signer_ok n i" "wf_json (PDict (signing_body d))"
  shows "\<exists>out. sign_statement n i d = Inr out"
  using canonical_json_wf [OF assms(3)] signer_sign [OF assms(1,2)] by (simp add: sign_statement_def)

text \<open>The signed bytes determine every field but the signature.\<close>

lemma signing_body_fields:
  assumes "keys_once (PDict d)" "keys_once (PDict e)" "canonical_json (PDict (signing_body d)) = Inr bs"
    "canonical_json (PDict (signing_body e)) = Inr bs" "k \<noteq> ''sig''"
  shows "map_option canon (dget d k) = map_option canon (dget e k)"
proof -
  have once: "keys_once (PDict (signing_body x))" if "keys_once (PDict x)" for x
  proof -
    have "keys_once_pairs (filter P x)" if "keys_once_pairs x" for P using that by (induction x) auto
    then show ?thesis using that by (auto simp: signing_body_def without_key_def distinct_map inj_on_def)
  qed
  have wd: "wf_json (PDict (signing_body d))" "bs = utf8 (json_dumps False (PDict (signing_body d)))"
    using canonical_json_Inr [OF assms(3) once [OF assms(1)]] by blast+
  have we: "wf_json (PDict (signing_body e))" "bs = utf8 (json_dumps False (PDict (signing_body e)))"
    using canonical_json_Inr [OF assms(4) once [OF assms(2)]] by blast+
  have "canon (PDict (signing_body d)) = canon (PDict (signing_body e))"
    using json_dumps_inject [OF wd(1) we(1), of False] wd(2) we(2) by (metis utf8_inject)
  then obtain c where "canon (PDict (signing_body d)) = PDict c" "canon (PDict (signing_body e)) = PDict c" by simp
  from dget_canon [OF wd(1) this(1), of k] dget_canon [OF we(1) this(2), of k]
  show ?thesis using assms(5) by (simp add: signing_body_def)
qed

section \<open>A kind of statement\<close>

locale statement_kind =
  fixes shape :: "pydict \<Rightarrow> string option"
    and field :: string
    and verify :: "nacl \<Rightarrow> pyval \<Rightarrow> bool \<times> string"
  assumes verify_dict: "verify n (PDict d) = (case shape d of Some m \<Rightarrow> (False, m) | None \<Rightarrow> check_signature n field d)"
    and verify_other: "\<not> is_dict v \<Longrightarrow> \<not> fst (verify n v)"
    and shape_strs: "shape d = None \<Longrightarrow> nonempty_str (dget d field) \<and> nonempty_str (dget d ''sig'')"
    and field_not_sig: "field \<noteq> ''sig''"
begin

lemma accepts_iff: "verify n (PDict d) = (True, m) \<longleftrightarrow> shape d = None \<and> signature_over n field d \<and> m = ''ok''"
proof (cases "shape d")
  case None
  then show ?thesis using check_signature_iff [of d field n m] shape_strs [OF None] by (simp add: verify_dict)
qed (simp add: verify_dict)

lemma accepts_fst: "fst (verify n (PDict d)) \<longleftrightarrow> shape d = None \<and> signature_over n field d"
  using accepts_iff [of n d "snd (verify n (PDict d))"] accepts_iff [of n d "''ok''"]
  by (metis fst_conv prod.collapse)

lemma signed_accepted:
  assumes "ed25519_ok n" "signer_ok n i" "as_did i = Inr did" "dget d field = Some (PStr did)"
    "sign_statement n i d = Inr out" "shape out = None"
  shows "verify n (PDict out) = (True, ''ok'')"
  using sign_statement_signature(1) [OF assms(1-4) field_not_sig assms(5)] assms(6) by (simp add: accepts_iff)

lemma same_bytes_same_fields:
  assumes "verify n (PDict d) = (True, m)" "verify n (PDict e) = (True, m')" "keys_once (PDict d)" "keys_once (PDict e)"
    "canonical_json (PDict (signing_body d)) = canonical_json (PDict (signing_body e))" "k \<noteq> ''sig''"
  shows "map_option canon (dget d k) = map_option canon (dget e k)"
proof -
  obtain bs where "canonical_json (PDict (signing_body d)) = Inr bs"
    using assms(1) by (auto simp: accepts_iff signature_over_def)
  then show ?thesis using signing_body_fields [OF assms(3,4)] assms(5,6) by simp
qed

end

end
