(* ===== verification/Projection.thy ===== *)
theory Projection
  imports Spine_Event
begin

text \<open>
  \<open>nth_dao/spine/projection.py\<close>: \<open>replay\<close> feeds a stream of events to a projection. A projection that
  raises stops the replay, so the fold is in the exception type. The locale is the contract of the
  program's projections: events of other types are ignored and an invariant of the
  materialized state is kept; from it follow that only the projection's own events matter and that replaying
  in pieces is replaying the whole.
\<close>

fun replay :: "(spine_event \<Rightarrow> 'st \<Rightarrow> 'st res) \<Rightarrow> spine_event list \<Rightarrow> 'st \<Rightarrow> 'st res" where
  "replay apply [] st = Inr st"
| "replay apply (ev # events) st = bindR (apply ev st) (replay apply events)"

lemma replay_append: "replay f (es @ fs) st = bindR (replay f es st) (replay f fs)"
proof (induction es arbitrary: st)
  case (Cons e es)
  then show ?case by (cases "f e st") simp_all
qed simp

locale projection =
  fixes apply_ev :: "nacl \<Rightarrow> spine_event \<Rightarrow> 'st \<Rightarrow> 'st res"
    and relevant :: "string set"
    and inv :: "'st \<Rightarrow> bool"
    and step_rel :: "'st \<Rightarrow> 'st \<Rightarrow> bool"
  assumes ignores: "ev_type e \<notin> relevant \<Longrightarrow> apply_ev n e st = Inr st"
    and keeps: "inv st \<Longrightarrow> apply_ev n e st = Inr st' \<Longrightarrow> inv st' \<and> step_rel st st'"
    and rel_refl: "step_rel st st"
    and rel_trans: "step_rel a b \<Longrightarrow> step_rel b c \<Longrightarrow> step_rel a c"
begin

lemma replay_relevant: "replay (apply_ev n) es st = replay (apply_ev n) (filter (\<lambda>e. ev_type e \<in> relevant) es) st"
proof (induction es arbitrary: st)
  case (Cons e es)
  then show ?case
    by (cases "apply_ev n e st") (auto simp: ignores)
qed simp

lemma replay_keeps: "inv st \<Longrightarrow> replay (apply_ev n) es st = Inr st' \<Longrightarrow> inv st' \<and> step_rel st st'"
proof (induction es arbitrary: st)
  case (Cons e es)
  then obtain mid where "apply_ev n e st = Inr mid" "replay (apply_ev n) es mid = Inr st'" by (auto simp: bindR_Inr_iff)
  with Cons show ?case using keeps rel_trans by blast
qed (simp add: rel_refl)

end

end
