(* ===== verification/Governance.thy ===== *)
theory Governance
  imports Signed_Statement Projection Spine_Log
begin

text \<open>
  \<open>nth_dao/governance\<close>: the policy data (\<open>policy.py\<close>), the evaluation engine (\<open>engine.py\<close>), the signed
  statements (\<open>statement.py\<close>) and the projection that replays them into the policy in force
  (\<open>projection.py\<close>). Maps from names keep insertion order as association lists. A policy whose \<open>roles\<close> or
  \<open>grants\<close> is neither a mapping nor empty makes \<open>from_dict\<close> raise \<open>AttributeError\<close>, which the
  projection does not catch. Like the code, the projection acts on the type of the event that carries a statement and does not compare it with the type
  inside the signed statement: a genesis below is an event of the genesis type whose statement is validly signed.
\<close>

section \<open>Policies\<close>

record policy =
  pol_roles :: "(string \<times> string list) list"
  pol_grants :: "(string \<times> string list) list"
  pol_constraints :: "(string \<times> pydict) list"

definition empty_policy :: policy where
  "empty_policy = \<lparr>pol_roles = [], pol_grants = [], pol_constraints = []\<rparr>"

definition assoc_get :: "('k \<times> 'v) list \<Rightarrow> 'k \<Rightarrow> 'v \<Rightarrow> 'v" where
  "assoc_get m k d = (case map_of m k of None \<Rightarrow> d | Some v \<Rightarrow> v)"

definition roles_of :: "policy \<Rightarrow> string \<Rightarrow> string list" where
  "roles_of p did = remdups (assoc_get (pol_roles p) did [])"

definition policy_to_dict :: "policy \<Rightarrow> pydict" where
  "policy_to_dict p =
     (let lists = (\<lambda>m. PDict (obj (map (\<lambda>(k, v). (k, PList (map PStr (sort (remdups v))))) m)))
      in obj [(''roles'', lists (pol_roles p)), (''grants'', lists (pol_grants p)),
              (''constraints'', PDict (obj (map (\<lambda>(k, c). (k, PDict c)) (pol_constraints p))))])"

fun str_list_items :: "pydict \<Rightarrow> (string \<times> string list) list res" where
  "str_list_items [] = Inr []"
| "str_list_items ((k, v) # d) =
     (case (k, v) of
        (PStr s, PList xs) \<Rightarrow> bindR (str_list_items d) (\<lambda>out. Inr ((s, map py_str xs) # out))
      | _ \<Rightarrow> raise TypeError (''policy map '' @ py_repr k @ '' must be str->list''))"

definition str_list_map :: "pyval \<Rightarrow> (string \<times> string list) list res" where
  "str_list_map raw =
     (if \<not> truthy raw then Inr []
      else case raw of
        PDict d \<Rightarrow> str_list_items d
      | _ \<Rightarrow> raise AttributeError (''object has no attribute items''))"

fun constraint_items :: "pydict \<Rightarrow> (string \<times> pydict) list res" where
  "constraint_items [] = Inr []"
| "constraint_items ((k, v) # d) =
     (case (k, v) of
        (PStr s, PDict c) \<Rightarrow> bindR (constraint_items d) (\<lambda>out. Inr ((s, c) # out))
      | _ \<Rightarrow> raise TypeError ''constraints must be action(str)->dict'')"

definition policy_from_dict :: "pyval \<Rightarrow> policy res" where
  "policy_from_dict data = (case data of
     PDict d \<Rightarrow>
       (let constraints_raw = (if truthy (dget_or d ''constraints'' PNone) then dget_or d ''constraints'' PNone else PDict [])
        in case constraints_raw of
             PDict cs \<Rightarrow>
               bindR (constraint_items cs) (\<lambda>constraints.
               bindR (str_list_map (dget_or d ''roles'' PNone)) (\<lambda>roles.
               bindR (str_list_map (dget_or d ''grants'' PNone)) (\<lambda>grants.
               Inr \<lparr>pol_roles = roles, pol_grants = grants, pol_constraints = constraints\<rparr>)))
           | _ \<Rightarrow> raise TypeError ''constraints must be a dict'')
   | _ \<Rightarrow> raise TypeError ''policy must be a dict'')"

section \<open>The engine\<close>

record decision =
  allowed :: bool
  reason :: string

abbreviation deny :: "string \<Rightarrow> decision" where
  "deny m \<equiv> \<lparr>allowed = False, reason = m\<rparr>"

abbreviation allow :: "string \<Rightarrow> decision" where
  "allow m \<equiv> \<lparr>allowed = True, reason = m\<rparr>"

definition action_policy_amend :: string where
  "action_policy_amend = ''policy.amend''"

definition action_matches :: "string \<Rightarrow> string \<Rightarrow> bool" where
  "action_matches pattern action =
     (if pattern = ''*'' then True
      else if endswith pattern ''.*'' then startswith action (butlast pattern)
      else pattern = action)"

definition granted_actions :: "policy \<Rightarrow> string \<Rightarrow> string list" where
  "granted_actions p did = remdups (concat (map (\<lambda>role. assoc_get (pol_grants p) role []) (roles_of p did)))"

definition grants_action :: "policy \<Rightarrow> string \<Rightarrow> string \<Rightarrow> bool" where
  "grants_action p did action \<longleftrightarrow> list_ex (\<lambda>pat. action_matches pat action) (granted_actions p did)"

definition can :: "policy \<Rightarrow> string \<Rightarrow> string \<Rightarrow> pydict \<Rightarrow> decision res" where
  "can p did action context =
     (let roles = roles_of p did; c = assoc_get (pol_constraints p) action [] in
      if roles = [] then Inr (deny ''principal has no roles'')
      else if \<not> grants_action p did action
      then Inr (deny (''roles '' @ strs_repr (sort roles) @ '' grant no match for '' @ str_repr action))
      else if dhas c ''quorum'' then Inr (deny (str_repr action @ '' requires quorum; use evaluate_quorum()''))
      else case dget c ''max_minor'' of
        None \<Rightarrow> Inr (allow ''ok'')
      | Some mx \<Rightarrow>
          (case dget_or context ''amount_minor'' PNone of
             PInt amount \<Rightarrow>
               bindR (py_int mx) (\<lambda>limit.
                 if amount > limit then Inr (deny (''amount '' @ int_str amount @ '' exceeds max '' @ py_str mx))
                 else Inr (allow ''ok''))
           | _ \<Rightarrow> Inr (deny (str_repr action @ '' needs int context['amount_minor']''))))"

definition evaluate_quorum :: "policy \<Rightarrow> string \<Rightarrow> string list \<Rightarrow> decision res" where
  "evaluate_quorum p action approvers =
     (case dget (assoc_get (pol_constraints p) action []) ''quorum'' of
        Some (PDict q) \<Rightarrow>
          (let role = py_str (dget_or q ''role'' (PStr [])) in
           bindR (py_int (dget_or q ''threshold'' (PInt 0))) (\<lambda>threshold.
             if threshold < 1 then Inr (deny ''quorum threshold must be >= 1'')
             else let qualified = remdups (filter (\<lambda>d. role \<in> set (roles_of p d)) approvers) in
               if int (length qualified) \<ge> threshold
               then Inr (allow (nat_str (length qualified) @ ''/'' @ int_str threshold @ '' '' @ str_repr role @ '' approvals''))
               else Inr (deny (''need '' @ int_str threshold @ '' '' @ str_repr role @ '' approvals, got '' @ nat_str (length qualified)))))
      | _ \<Rightarrow> Inr (deny (str_repr action @ '' is not a quorum action'')))"

section \<open>Statements\<close>

definition governance_statement_kind :: string where
  "governance_statement_kind = ''nth-governance-statement-v1''"

definition gov_types :: "string list" where
  "gov_types = [''genesis'', ''amend'']"

definition sign_governance_statement :: "nacl \<Rightarrow> identity \<Rightarrow> string \<Rightarrow> pyval \<Rightarrow> string \<Rightarrow> int \<Rightarrow> int \<Rightarrow> pydict res" where
  "sign_governance_statement n signer statement_type pol dao_id issued_at_ms now =
     (if statement_type \<notin> set gov_types
      then raise ValueError (''unknown governance statement type: '' @ str_repr statement_type)
      else case pol of
        PDict d \<Rightarrow>
          bindR (as_did signer) (\<lambda>did.
          sign_statement n signer (obj
            [(''kind'', PStr governance_statement_kind), (''type'', PStr statement_type), (''dao_id'', PStr dao_id),
             (''signer_did'', PStr did), (''issued_at_ms'', PInt (if issued_at_ms \<noteq> 0 then issued_at_ms else now)), (''policy'', PDict d)]))
      | _ \<Rightarrow> raise ValueError ''policy must be a dict (Policy.to_dict())'')"

definition gov_shape :: "pydict \<Rightarrow> string option" where
  "gov_shape stmt =
     (if dget stmt ''kind'' \<noteq> Some (PStr governance_statement_kind) then Some ''wrong kind''
      else if \<not> str_with (\<lambda>t. t \<in> set gov_types) (dget stmt ''type'') then Some ''unknown type''
      else if \<not> (case dget stmt ''policy'' of Some v \<Rightarrow> is_dict v | None \<Rightarrow> False) then Some ''missing/invalid policy''
      else missing_str [''signer_did'', ''sig''] stmt)"

definition verify_governance_statement :: "nacl \<Rightarrow> pyval \<Rightarrow> bool \<times> string" where
  "verify_governance_statement n v = (case v of
     PDict stmt \<Rightarrow> (case gov_shape stmt of Some m \<Rightarrow> (False, m) | None \<Rightarrow> check_signature n ''signer_did'' stmt)
   | _ \<Rightarrow> (False, ''not a dict''))"

interpretation gov_stmt: statement_kind gov_shape "''signer_did''" verify_governance_statement
proof unfold_locales
  fix n v
  assume "\<not> is_dict v"
  then show "\<not> fst (verify_governance_statement n v)" by (cases v) (auto simp: verify_governance_statement_def is_dict_def)
qed (auto simp: verify_governance_statement_def gov_shape_def missing_str_None split: if_splits)

text \<open>\<open>record_governance\<close>: refuse an invalid statement, else append it to the log under its type.\<close>

definition record_governance :: "nacl \<Rightarrow> identity \<Rightarrow> pyval \<Rightarrow> int \<Rightarrow> spine_log \<Rightarrow> spine_log \<times> spine_event res" where
  "record_governance n node stmt now s =
     (case verify_governance_statement n stmt of
        (False, why) \<Rightarrow> (s, raise ValueError (''refusing to record invalid governance statement: '' @ why))
      | (True, _) \<Rightarrow>
          (case stmt of
             PDict d \<Rightarrow> spine_append n node (''governance.'' @ the_str (dget d ''type'')) stmt now s
           | _ \<Rightarrow> (s, raise TypeError ''not subscriptable'')))"

section \<open>The projection\<close>

record gov_state =
  g_policy :: policy
  g_established :: bool
  g_founder_did :: string
  g_version :: nat
  g_history :: "string list"

definition gov_init :: gov_state where
  "gov_init = \<lparr>g_policy = empty_policy, g_established = False, g_founder_did = [], g_version = 0, g_history = []\<rparr>"

definition gov_events :: "string set" where
  "gov_events = {''governance.genesis'', ''governance.amend''}"

definition gov_apply :: "nacl \<Rightarrow> spine_event \<Rightarrow> gov_state \<Rightarrow> gov_state res" where
  "gov_apply n event st =
     (if ev_type event \<notin> gov_events then Inr st
      else let stmt = ev_payload event in
      if \<not> fst (verify_governance_statement n (PDict stmt)) then Inr st
      else case policy_from_dict (dget_or stmt ''policy'' PNone) of
        Inl e \<Rightarrow> if exn_cls e = TypeError \<or> is_value_error e then Inr st else Inl e
      | Inr new_policy \<Rightarrow>
          let signer = the_str (dget stmt ''signer_did'') in
          if ev_type event = ''governance.genesis''
          then Inr (if g_established st then st
                    else st\<lparr>g_policy := new_policy, g_established := True, g_founder_did := signer,
                            g_version := 1, g_history := g_history st @ [signer]\<rparr>)
          else if \<not> g_established st then Inr st
          else bindR (can (g_policy st) signer action_policy_amend []) (\<lambda>d.
            Inr (if allowed d
                 then st\<lparr>g_policy := new_policy, g_version := g_version st + 1, g_history := g_history st @ [signer]\<rparr>
                 else st)))"

section \<open>Authorized evolution\<close>

text \<open>The specification of the policy's evolution: it is founded once, and after that changed only by a
  signer whom the policy then in force allows to amend it.\<close>

inductive gov_step :: "gov_state \<Rightarrow> string \<Rightarrow> gov_state \<Rightarrow> bool" where
  found: "\<not> g_established st \<Longrightarrow>
    gov_step st signer (st\<lparr>g_policy := pol, g_established := True, g_founder_did := signer, g_version := Suc 0,
      g_history := g_history st @ [signer]\<rparr>)"
| amend: "g_established st \<Longrightarrow> can (g_policy st) signer action_policy_amend [] = Inr d \<Longrightarrow> allowed d \<Longrightarrow>
    gov_step st signer (st\<lparr>g_policy := pol, g_version := Suc (g_version st), g_history := g_history st @ [signer]\<rparr>)"

inductive_cases gov_stepE: "gov_step st signer st'"

definition gov_inv :: "gov_state \<Rightarrow> bool" where
  "gov_inv st \<longleftrightarrow> g_version st = length (g_history st) \<and> (g_established st \<longleftrightarrow> g_history st \<noteq> [])
     \<and> (g_established st \<longrightarrow> g_founder_did st = hd (g_history st))"

definition gov_later :: "gov_state \<Rightarrow> gov_state \<Rightarrow> bool" where
  "gov_later st st' \<longleftrightarrow> (\<exists>more. g_history st' = g_history st @ more)
     \<and> (g_established st \<longrightarrow> g_established st' \<and> g_founder_did st' = g_founder_did st)"

lemma gov_later_refl: "gov_later st st"
  by (simp add: gov_later_def)

lemma gov_step_inv: "gov_step st signer st' \<Longrightarrow> gov_inv st \<Longrightarrow> gov_inv st' \<and> gov_later st st'"
  by (erule gov_stepE) (auto simp: gov_inv_def gov_later_def)

lemma gov_apply_step:
  assumes "gov_apply n e st = Inr st'"
  shows "st' = st \<or> (fst (verify_governance_statement n (PDict (ev_payload e)))
    \<and> gov_step st (the_str (dget (ev_payload e) ''signer_did'')) st'
    \<and> ev_type e = (if g_established st then ''governance.amend'' else ''governance.genesis''))"
proof (cases "ev_type e \<in> gov_events \<and> fst (verify_governance_statement n (PDict (ev_payload e)))")
  case False
  then show ?thesis using assms by (auto simp: gov_apply_def Let_def split: if_splits)
next
  case True
  note app = assms [unfolded gov_apply_def Let_def]
  show ?thesis
  proof (cases "policy_from_dict (dget_or (ev_payload e) ''policy'' PNone)")
    case (Inl x)
    then show ?thesis using app True by (auto split: if_splits)
  next
    case (Inr pol)
    then show ?thesis using app True
      by (auto simp: bindR_Inr_iff gov_events_def split: if_splits intro!: gov_step.intros)
  qed
qed

interpretation gov: projection gov_apply gov_events gov_inv gov_later
proof unfold_locales
  fix e n st
  show "ev_type e \<notin> gov_events \<Longrightarrow> gov_apply n e st = Inr st" by (simp add: gov_apply_def)
next
  fix st n e st'
  assume "gov_inv st" "gov_apply n e st = Inr st'"
  then show "gov_inv st' \<and> gov_later st st'"
    using gov_apply_step [of n e st st'] gov_step_inv gov_later_refl by blast
qed (auto simp: gov_later_def)

text \<open>C33. Only authorized changes take effect: whenever replaying an event changes the governance
  state, its statement carries a valid signature over all its fields, and the change is either the
  founding of a DAO that had no policy, by a genesis event, or an amendment whose
  signer the policy in force before the event allows to amend it.\<close>

theorem governance_change_authorized:
  assumes "gov_apply n e st = Inr st'" "st' \<noteq> st"
  shows "signature_over n ''signer_did'' (ev_payload e)
    \<and> gov_step st (the_str (dget (ev_payload e) ''signer_did'')) st'
    \<and> ev_type e = (if g_established st then ''governance.amend'' else ''governance.genesis'')"
  using gov_apply_step [OF assms(1)] assms(2) gov_stmt.accepts_fst by blast

text \<open>Replays keep the governance record consistent: after any replay the version is the number of
  applied statements, the founder is the first signer, and replaying further events only
  extends the history and never changes the founder.\<close>

lemma governance_replay_consistent:
  assumes "replay (gov_apply n) es gov_init = Inr st" "replay (gov_apply n) fs st = Inr st'"
  shows "g_version st' = length (g_history st') \<and> (g_established st' \<longrightarrow> g_founder_did st' = hd (g_history st'))
    \<and> (\<exists>more. g_history st' = g_history st @ more)
    \<and> (g_established st \<longrightarrow> g_established st' \<and> g_founder_did st' = g_founder_did st)"
proof -
  have "gov_inv gov_init" by (simp add: gov_inv_def gov_init_def)
  then have "gov_inv st" using gov.replay_keeps assms(1) by blast
  then have "gov_inv st' \<and> gov_later st st'" using gov.replay_keeps assms(2) by blast
  then show ?thesis by (auto simp: gov_inv_def gov_later_def)
qed

section \<open>Quorum\<close>

text \<open>Quorum counts distinct qualified approvers: the action is allowed exactly when its constraint
  names a threshold of at least one and at least that many different approvers hold the required role;
  repeating an approver changes nothing.\<close>

lemma quorum_counts_distinct:
  assumes "evaluate_quorum p action approvers = Inr d"
  shows "allowed d \<longleftrightarrow> (\<exists>q threshold. dget (assoc_get (pol_constraints p) action []) ''quorum'' = Some (PDict q)
      \<and> py_int (dget_or q ''threshold'' (PInt 0)) = Inr threshold \<and> 1 \<le> threshold
      \<and> threshold \<le> int (card {a \<in> set approvers. py_str (dget_or q ''role'' (PStr [])) \<in> set (roles_of p a)}))"
proof (cases "\<exists>q. dget (assoc_get (pol_constraints p) action []) ''quorum'' = Some (PDict q)")
  case False
  then show ?thesis using assms by (auto simp: evaluate_quorum_def split: option.splits pyval.splits)
next
  case True
  then obtain q where q: "dget (assoc_get (pol_constraints p) action []) ''quorum'' = Some (PDict q)" by blast
  obtain th where th: "py_int (dget_or q ''threshold'' (PInt 0)) = Inr th"
    using assms q by (auto simp: evaluate_quorum_def Let_def bindR_Inr_iff)
  let ?P = "\<lambda>a. py_str (dget_or q ''role'' (PStr [])) \<in> set (roles_of p a)"
  have "length (remdups (filter ?P approvers)) = card {a \<in> set approvers. ?P a}"
    by (metis length_remdups_card_conv set_filter)
  then show ?thesis using assms q th by (auto simp: evaluate_quorum_def Let_def split: if_splits)
qed

lemma sign_governance_accepted:
  assumes "ed25519_ok n" "signer_ok n i" "sign_governance_statement n i ty (PDict d) dao t now = Inr stmt"
  shows "verify_governance_statement n (PDict stmt) = (True, ''ok'')"
    and "dget stmt ''policy'' = Some (PDict d)" and "dget stmt ''type'' = Some (PStr ty)"
proof -
  obtain did where did: "as_did i = Inr did" "ty \<in> set gov_types" and s: "sign_statement n i (obj
      [(''kind'', PStr governance_statement_kind), (''type'', PStr ty), (''dao_id'', PStr dao), (''signer_did'', PStr did),
       (''issued_at_ms'', PInt (if t \<noteq> 0 then t else now)), (''policy'', PDict d)]) = Inr stmt"
    using assms(3) by (auto simp: sign_governance_statement_def bindR_Inr_iff split: if_splits)
  have f: "dget (obj [(''kind'', PStr governance_statement_kind), (''type'', PStr ty), (''dao_id'', PStr dao), (''signer_did'', PStr did),
       (''issued_at_ms'', PInt (if t \<noteq> 0 then t else now)), (''policy'', PDict d)]) ''signer_did'' = Some (PStr did)"
    by (simp add: obj_def)
  have "did \<noteq> []" using signer_did [OF assms(1,2)] did(1)
    by (metis Inr_inject decode_did_iff did_length_pos)
  note g = sign_statement_signature(2,3) [OF assms(1,2) did(1) f _ s]
  show p: "dget stmt ''policy'' = Some (PDict d)" "dget stmt ''type'' = Some (PStr ty)"
    using g(1) [of "''policy''"] g(1) [of "''type''"] by (simp_all add: obj_def)
  have "gov_shape stmt = None"
    using g(1) [of "''kind''"] g(1) [of "''signer_did''"] g(2) p did(2) \<open>did \<noteq> []\<close>
    by (simp add: gov_shape_def str_with_def is_dict_def nonempty_str_def obj_def)
  then show "verify_governance_statement n (PDict stmt) = (True, ''ok'')"
    using gov_stmt.signed_accepted [OF assms(1,2) did(1) f s] by blast
qed

lemma sign_governance_total:
  assumes "ed25519_ok n" "signer_ok n i" "ty \<in> set gov_types" "wf_json (PDict d)"
  shows "\<exists>stmt. sign_governance_statement n i ty (PDict d) dao t now = Inr stmt"
proof -
  obtain did where did: "as_did i = Inr did" using signer_did [OF assms(1,2)] by metis
  let ?d = "obj [(''kind'', PStr governance_statement_kind), (''type'', PStr ty), (''dao_id'', PStr dao), (''signer_did'', PStr did),
       (''issued_at_ms'', PInt (if t \<noteq> 0 then t else now)), (''policy'', PDict d)]"
  have "wf_json (PDict (signing_body ?d))"
    using assms(4) by (simp add: signing_body_def without_key_def obj_def is_str_def)
  then show ?thesis
    using sign_statement_total [OF assms(1,2)] assms(3) did by (simp add: sign_governance_statement_def)
qed

text \<open>A concrete founding event, for the witness.\<close>

definition demo_genesis :: spine_event where
  "demo_genesis = \<lparr>ev_seq = 0, ev_prev_hash = genesis_prev, ev_type = ''governance.genesis'',
     ev_payload = projr (sign_governance_statement demo_nacl (demo_identity 1) ''genesis'' (PDict []) ''dao'' 1 1),
     ev_author_did = [], ev_ts_ms = 1, ev_content_hash = [], ev_sig = []\<rparr>"

lemma demo_genesis_apply:
  "\<exists>st. gov_apply demo_nacl demo_genesis gov_init = Inr st \<and> st \<noteq> gov_init \<and> g_established st"
proof -
  obtain stmt where s: "sign_governance_statement demo_nacl (demo_identity 1) ''genesis'' (PDict []) ''dao'' 1 1 = Inr stmt"
    using sign_governance_total [OF demo_nacl_ok demo_signer, of "''genesis''" "[]" 1 "''dao''" 1 1] by (auto simp: gov_types_def)
  note ok = sign_governance_accepted [OF demo_nacl_ok demo_signer s]
  have "policy_from_dict (dget_or stmt ''policy'' PNone) = Inr empty_policy"
    using ok(2) by (simp add: dget_or_def policy_from_dict_def str_list_map_def empty_policy_def)
  then have "gov_apply demo_nacl demo_genesis gov_init = Inr (gov_init\<lparr>g_policy := empty_policy, g_established := True,
      g_founder_did := the_str (dget stmt ''signer_did''), g_version := Suc 0, g_history := [the_str (dget stmt ''signer_did'')]\<rparr>)"
    using ok(1) s by (simp add: gov_apply_def demo_genesis_def gov_events_def Let_def gov_init_def)
  then show ?thesis by (auto simp: gov_init_def)
qed

theorem governance_change_authorized_witness:
  "\<exists>st. signature_over demo_nacl ''signer_did'' (ev_payload demo_genesis)
    \<and> gov_step gov_init (the_str (dget (ev_payload demo_genesis) ''signer_did'')) st
    \<and> ev_type demo_genesis = (if g_established gov_init then ''governance.amend'' else ''governance.genesis'')"
  using demo_genesis_apply governance_change_authorized by blast

lemma governance_replay_consistent_demo:
  "\<exists>st. replay (gov_apply demo_nacl) [demo_genesis] gov_init = Inr st \<and> g_established st
    \<and> g_version st = length (g_history st) \<and> g_founder_did st = hd (g_history st)"
proof -
  obtain st where st: "replay (gov_apply demo_nacl) [demo_genesis] gov_init = Inr st" "g_established st"
    using demo_genesis_apply by auto
  have "replay (gov_apply demo_nacl) [] st = Inr st" by simp
  from governance_replay_consistent [OF st(1) this] st show ?thesis by blast
qed

text \<open>A single signed statement can stop every replay: anyone can sign a statement whose policy has a text
  where \<open>roles\<close> should be a mapping; it verifies (so it is recorded), and from then on replaying
  it raises \<open>AttributeError\<close>, which the projection does not catch.\<close>

lemma governance_replay_crash:
  assumes "ed25519_ok n" "signer_ok n i"
  shows "\<exists>stmt. sign_governance_statement n i ''amend'' (PDict [(PStr ''roles'', PStr ''x'')]) [] 1 1 = Inr stmt
    \<and> verify_governance_statement n (PDict stmt) = (True, ''ok'')
    \<and> (\<forall>e st. ev_type e = ''governance.amend'' \<and> ev_payload e = stmt \<longrightarrow>
          (\<exists>m. gov_apply n e st = Inl (Exn AttributeError m)))"
proof -
  obtain stmt where s: "sign_governance_statement n i ''amend'' (PDict [(PStr ''roles'', PStr ''x'')]) [] 1 1 = Inr stmt"
    using sign_governance_total [OF assms, of "''amend''" "[(PStr ''roles'', PStr ''x'')]" "[]" 1 1]
    by (auto simp: gov_types_def is_str_def)
  note ok = sign_governance_accepted [OF assms s]
  have "policy_from_dict (dget_or stmt ''policy'' PNone) = Inl (Exn AttributeError ''object has no attribute items'')"
    using ok(2) by (simp add: dget_or_def policy_from_dict_def str_list_map_def)
  then have "\<forall>e st. ev_type e = ''governance.amend'' \<and> ev_payload e = stmt \<longrightarrow> (\<exists>m. gov_apply n e st = Inl (Exn AttributeError m))"
    using ok(1) by (simp add: gov_apply_def gov_events_def is_value_error_def Let_def)
  then show ?thesis using s ok(1) by blast
qed

lemma governance_replay_crash_demo:
  "\<exists>stmt. sign_governance_statement demo_nacl (demo_identity 1) ''amend'' (PDict [(PStr ''roles'', PStr ''x'')]) [] 1 1 = Inr stmt
    \<and> verify_governance_statement demo_nacl (PDict stmt) = (True, ''ok'')
    \<and> (\<forall>e st. ev_type e = ''governance.amend'' \<and> ev_payload e = stmt \<longrightarrow>
          (\<exists>m. gov_apply demo_nacl e st = Inl (Exn AttributeError m)))"
  by (rule governance_replay_crash [OF demo_nacl_ok demo_signer])

definition demo_policy :: policy where
  "demo_policy = \<lparr>pol_roles = [(''a'', [''m'']), (''b'', [''m'']), (''c'', [])], pol_grants = [],
     pol_constraints = [(''x'', [(PStr ''quorum'', PDict [(PStr ''role'', PStr ''m''), (PStr ''threshold'', PInt 2)])])]\<rparr>"

lemma demo_quorum: "\<exists>r. evaluate_quorum demo_policy ''x'' [''a'', ''a'', ''c'', ''b''] = Inr \<lparr>allowed = True, reason = r\<rparr>"
  by (simp add: evaluate_quorum_def demo_policy_def assoc_get_def dget_or_def roles_of_def)

lemma quorum_counts_distinct_demo:
  "\<exists>q threshold. dget (assoc_get (pol_constraints demo_policy) ''x'' []) ''quorum'' = Some (PDict q)
      \<and> py_int (dget_or q ''threshold'' (PInt 0)) = Inr threshold \<and> 1 \<le> threshold
      \<and> threshold \<le> int (card {a \<in> set [''a'', ''a'', ''c'', ''b'']. py_str (dget_or q ''role'' (PStr [])) \<in> set (roles_of demo_policy a)})"
proof -
  obtain r where "evaluate_quorum demo_policy ''x'' [''a'', ''a'', ''c'', ''b''] = Inr \<lparr>allowed = True, reason = r\<rparr>"
    using demo_quorum by blast
  from quorum_counts_distinct [OF this] show ?thesis by simp
qed

end
