(* ===== verification/Dispute.thy ===== *)
theory Dispute
  imports Signed_Statement Projection Spine_Log
begin

text \<open>
  \<open>nth_dao/dispute\<close>: the signed dispute statements and the projection that folds \<open>dispute.*\<close> events
  into dispute records, kept in order of opening. The event type, which the recording node
  chooses, decides what a statement does; the statement's own \<open>type\<close> field is checked to be one
  of the three but not compared with it.
\<close>

section \<open>Statements\<close>

definition dispute_statement_kind :: string where
  "dispute_statement_kind = ''nth-dispute-statement-v1''"

definition dispute_types :: "string list" where
  "dispute_types = [''open'', ''evidence'', ''resolve'']"

definition sign_dispute_statement :: "nacl \<Rightarrow> identity \<Rightarrow> string \<Rightarrow> string \<Rightarrow> pydict \<Rightarrow> string \<Rightarrow> string \<Rightarrow> int \<Rightarrow> int \<Rightarrow> pydict res" where
  "sign_dispute_statement n signer statement_type announcement_id body dispute_id fresh_id issued_at_ms now =
     ensure (statement_type \<in> set dispute_types) ValueError (''unknown dispute statement type: '' @ str_repr statement_type) (
     ensure (announcement_id \<noteq> []) ValueError ''announcement_id required'' (
     bindR (as_did signer) (\<lambda>did.
     sign_statement n signer (obj
       [(''kind'', PStr dispute_statement_kind), (''type'', PStr statement_type),
        (''dispute_id'', PStr (if dispute_id \<noteq> [] then dispute_id else fresh_id)), (''announcement_id'', PStr announcement_id),
        (''signer_did'', PStr did), (''issued_at_ms'', PInt (if issued_at_ms \<noteq> 0 then issued_at_ms else now)), (''body'', PDict body)]))))"

definition dispute_shape :: "pydict \<Rightarrow> string option" where
  "dispute_shape stmt =
     (if dget stmt ''kind'' \<noteq> Some (PStr dispute_statement_kind) then Some ''wrong kind''
      else if \<not> str_with (\<lambda>t. t \<in> set dispute_types) (dget stmt ''type'') then Some ''unknown type''
      else missing_str [''dispute_id'', ''announcement_id'', ''signer_did'', ''sig''] stmt)"

definition verify_dispute_statement :: "nacl \<Rightarrow> pyval \<Rightarrow> bool \<times> string" where
  "verify_dispute_statement n v = (case v of
     PDict stmt \<Rightarrow> (case dispute_shape stmt of Some m \<Rightarrow> (False, m) | None \<Rightarrow> check_signature n ''signer_did'' stmt)
   | _ \<Rightarrow> (False, ''not a dict''))"

interpretation dispute_stmt: statement_kind dispute_shape "''signer_did''" verify_dispute_statement
proof unfold_locales
  fix n v
  assume "\<not> is_dict v"
  then show "\<not> fst (verify_dispute_statement n v)" by (cases v) (auto simp: verify_dispute_statement_def is_dict_def)
qed (auto simp: verify_dispute_statement_def dispute_shape_def missing_str_None split: if_splits)

definition record_dispute :: "nacl \<Rightarrow> identity \<Rightarrow> pyval \<Rightarrow> int \<Rightarrow> spine_log \<Rightarrow> spine_log \<times> spine_event res" where
  "record_dispute n node stmt now s =
     (case verify_dispute_statement n stmt of
        (False, why) \<Rightarrow> (s, raise ValueError (''refusing to record invalid dispute statement: '' @ why))
      | (True, _) \<Rightarrow>
          (case stmt of
             PDict d \<Rightarrow> spine_append n node (''dispute.'' @ the_str (dget d ''type'')) stmt now s
           | _ \<Rightarrow> (s, raise TypeError ''not subscriptable'')))"

section \<open>The projection\<close>

record dispute_record =
  d_dispute_id :: string
  d_announcement_id :: string
  d_opener_did :: string
  d_resolved :: bool
  d_ruling :: pydict
  d_arbiter_did :: string
  d_statements :: "pydict list"

type_synonym dispute_state = "(string \<times> dispute_record) list"

definition dispute_events :: "string set" where
  "dispute_events = {''dispute.open'', ''dispute.evidence'', ''dispute.resolve''}"

definition dispute_apply :: "nacl \<Rightarrow> spine_event \<Rightarrow> dispute_state \<Rightarrow> dispute_state res" where
  "dispute_apply n event st =
     (if ev_type event \<notin> dispute_events then Inr st
      else let stmt = ev_payload event in
      if \<not> fst (verify_dispute_statement n (PDict stmt)) then Inr st
      else let did = the_str (dget stmt ''dispute_id'');
               ann = the_str (dget stmt ''announcement_id'');
               signer = the_str (dget stmt ''signer_did'') in
      if ev_type event = ''dispute.open''
      then Inr (case map_of st did of
          None \<Rightarrow> st @ [(did, \<lparr>d_dispute_id = did, d_announcement_id = ann, d_opener_did = signer, d_resolved = False,
                               d_ruling = [], d_arbiter_did = [], d_statements = [stmt]\<rparr>)]
        | Some _ \<Rightarrow> st)
      else case map_of st did of
        None \<Rightarrow> Inr st
      | Some rec \<Rightarrow>
          if ann \<noteq> d_announcement_id rec then Inr st
          else let rec' = rec\<lparr>d_statements := d_statements rec @ [stmt]\<rparr> in
          if ev_type event = ''dispute.resolve'' \<and> \<not> d_resolved rec
          then bindR (py_dict (dget_or stmt ''body'' (PDict []))) (\<lambda>ruling.
                 Inr (assoc_put did (rec'\<lparr>d_resolved := True, d_ruling := ruling, d_arbiter_did := signer\<rparr>) st))
          else Inr (assoc_put did rec' st))"

definition dispute_get :: "dispute_state \<Rightarrow> string \<Rightarrow> dispute_record option" where
  "dispute_get st did = map_of st did"

definition for_announcement :: "dispute_state \<Rightarrow> string \<Rightarrow> dispute_record list" where
  "for_announcement st ann = filter (\<lambda>r. d_announcement_id r = ann) (map snd st)"

section \<open>Records only grow\<close>

definition dispute_inv :: "dispute_state \<Rightarrow> bool" where
  "dispute_inv st \<longleftrightarrow> distinct (map fst st) \<and> (\<forall>(k, r) \<in> set st. d_dispute_id r = k \<and> d_statements r \<noteq> [])"

text \<open>What later events may do to a record: nothing but add statements, and resolve it once.\<close>

definition record_later :: "dispute_record \<Rightarrow> dispute_record \<Rightarrow> bool" where
  "record_later r r' \<longleftrightarrow> d_announcement_id r' = d_announcement_id r \<and> d_opener_did r' = d_opener_did r
     \<and> (\<exists>more. d_statements r' = d_statements r @ more)
     \<and> (d_resolved r \<longrightarrow> d_resolved r' \<and> d_ruling r' = d_ruling r \<and> d_arbiter_did r' = d_arbiter_did r)"

definition dispute_later :: "dispute_state \<Rightarrow> dispute_state \<Rightarrow> bool" where
  "dispute_later st st' \<longleftrightarrow> (\<forall>k r. map_of st k = Some r \<longrightarrow> (\<exists>r'. map_of st' k = Some r' \<and> record_later r r'))"

lemma record_later_refl: "record_later r r"
  by (simp add: record_later_def)

lemma record_later_trans: "record_later a b \<Longrightarrow> record_later b c \<Longrightarrow> record_later a c"
  by (auto simp: record_later_def)

lemma dispute_later_refl: "dispute_later st st"
  using record_later_refl by (auto simp: dispute_later_def)

lemma dispute_later_put:
  "map_of st k = Some r \<Longrightarrow> record_later r r' \<Longrightarrow> dispute_later st (assoc_put k r' st)"
  using record_later_refl by (auto simp: dispute_later_def)

lemma dispute_inv_put:
  assumes "dispute_inv st" "d_dispute_id r' = k" "d_statements r' \<noteq> []"
  shows "dispute_inv (assoc_put k r' st)"
proof -
  have "(q, r) \<in> set (assoc_put k r' st) \<Longrightarrow> (q, r) \<in> set st \<or> (q = k \<and> r = r')" for q r
    by (induction st) (auto split: if_splits)
  then show ?thesis using assms distinct_assoc_put by (fastforce simp: dispute_inv_def)
qed

text \<open>The effect of one event.\<close>

lemma dispute_apply_cases:
  assumes "dispute_apply n e st = Inr st'"
  obtains "st' = st"
  | did r where "st' = st @ [(did, r)]" "map_of st did = None" "d_dispute_id r = did" "d_statements r = [ev_payload e]"
      "\<not> d_resolved r" "ev_type e = ''dispute.open''" "fst (verify_dispute_statement n (PDict (ev_payload e)))"
      "d_opener_did r = the_str (dget (ev_payload e) ''signer_did'')"
  | did r r' where "st' = assoc_put did r' st" "map_of st did = Some r" "record_later r r'" "d_dispute_id r' = d_dispute_id r"
      "d_statements r' = d_statements r @ [ev_payload e]" "fst (verify_dispute_statement n (PDict (ev_payload e)))"
      "d_resolved r' \<and> \<not> d_resolved r \<longrightarrow> ev_type e = ''dispute.resolve'' \<and> d_arbiter_did r' = the_str (dget (ev_payload e) ''signer_did'')"
proof (cases "ev_type e \<in> dispute_events \<and> fst (verify_dispute_statement n (PDict (ev_payload e)))")
  case False
  then show ?thesis using that(1) assms by (auto simp: dispute_apply_def Let_def split: if_splits)
next
  case True
  let ?s = "ev_payload e"
  let ?did = "the_str (dget ?s ''dispute_id'')"
  note app = assms [unfolded dispute_apply_def Let_def]
  show ?thesis
  proof (cases "map_of st ?did")
    case None
    then show ?thesis using app True that(1) that(2) [of ?did] by (auto split: if_splits)
  next
    case (Some r)
    then show ?thesis using app True that(1) that(3) [of ?did _ r]
      by (auto simp: bindR_Inr_iff record_later_def split: if_splits)
  qed
qed

lemma dispute_apply_keeps:
  assumes "dispute_inv st" "dispute_apply n e st = Inr st'"
  shows "dispute_inv st' \<and> dispute_later st st'"
  using assms(2)
proof (cases rule: dispute_apply_cases)
  case 1
  then show ?thesis using assms(1) dispute_later_refl by simp
next
  case (2 did r)
  then show ?thesis using assms(1) record_later_refl
    by (auto simp: dispute_inv_def dispute_later_def map_of_eq_None_iff map_add_def)
next
  case (3 did r r')
  have "(did, r) \<in> set st" using 3(2) by (rule map_of_SomeD)
  then have "d_dispute_id r' = did" using assms(1) 3(4) by (auto simp: dispute_inv_def)
  then have "dispute_inv (assoc_put did r' st)" using dispute_inv_put [OF assms(1), of r' did] 3(5) by simp
  then show ?thesis using 3(1) dispute_later_put [OF 3(2,3)] by simp
qed

interpretation dispute: projection dispute_apply dispute_events dispute_inv dispute_later
proof unfold_locales
  fix e n st
  show "ev_type e \<notin> dispute_events \<Longrightarrow> dispute_apply n e st = Inr st" by (simp add: dispute_apply_def)
next
  fix st n e st'
  show "dispute_inv st \<Longrightarrow> dispute_apply n e st = Inr st' \<Longrightarrow> dispute_inv st' \<and> dispute_later st st'"
    by (rule dispute_apply_keeps)
next
  fix a b c
  assume "dispute_later a b" "dispute_later b c"
  then show "dispute_later a c" unfolding dispute_later_def using record_later_trans by meson
qed (rule dispute_later_refl)

section \<open>Properties\<close>

text \<open>Dispute records are append-only: replaying further events never removes a dispute, never
  changes who opened it or about which announcement, only adds to its statements, and once it is
  resolved neither its ruling nor its arbiter changes.\<close>

lemma dispute_records_append_only:
  assumes "replay (dispute_apply n) es [] = Inr st" "replay (dispute_apply n) fs st = Inr st'" "dispute_get st k = Some r"
  shows "\<exists>r'. dispute_get st' k = Some r' \<and> d_announcement_id r' = d_announcement_id r \<and> d_opener_did r' = d_opener_did r
     \<and> (\<exists>more. d_statements r' = d_statements r @ more)
     \<and> (d_resolved r \<longrightarrow> d_resolved r' \<and> d_ruling r' = d_ruling r \<and> d_arbiter_did r' = d_arbiter_did r)"
proof -
  have "dispute_inv []" by (simp add: dispute_inv_def)
  then have "dispute_inv st" using dispute.replay_keeps assms(1) by blast
  then have "dispute_later st st'" using dispute.replay_keeps assms(2) by blast
  then show ?thesis using assms(3) by (auto simp: dispute_later_def dispute_get_def record_later_def)
qed

definition all_signed :: "nacl \<Rightarrow> dispute_state \<Rightarrow> bool" where
  "all_signed n st \<longleftrightarrow> (\<forall>(k, r) \<in> set st. \<forall>s \<in> set (d_statements r). signature_over n ''signer_did'' s)"

lemma dispute_apply_signed:
  assumes "all_signed n st" "dispute_apply n e st = Inr st'"
  shows "all_signed n st'"
  using assms(2)
proof (cases rule: dispute_apply_cases)
  case 1
  then show ?thesis using assms(1) by simp
next
  case (2 did r)
  then show ?thesis using assms(1) dispute_stmt.accepts_fst by (auto simp: all_signed_def)
next
  case (3 did r r')
  have "(q, x) \<in> set (assoc_put did r' st) \<Longrightarrow> (q, x) \<in> set st \<or> x = r'" for q x
    by (induction st) (auto split: if_splits)
  moreover have "signature_over n ''signer_did'' (ev_payload e)" using 3(6) dispute_stmt.accepts_fst by blast
  moreover have "\<forall>s \<in> set (d_statements r). signature_over n ''signer_did'' s"
    using assms(1) map_of_SomeD [OF 3(2)] by (auto simp: all_signed_def)
  ultimately show ?thesis using assms(1) 3(1,5) unfolding all_signed_def by fastforce
qed

text \<open>Everything on file is signed: every statement a replay attaches to a dispute carries a valid
  signature, over all its fields, by the key of the DID it names as its signer.\<close>

lemma dispute_statements_signed:
  assumes "replay (dispute_apply n) es [] = Inr st" "dispute_get st k = Some r" "s \<in> set (d_statements r)"
  shows "signature_over n ''signer_did'' s"
proof -
  have "replay (dispute_apply n) es st0 = Inr st1 \<Longrightarrow> all_signed n st0 \<Longrightarrow> all_signed n st1" for st0 st1
  proof (induction es arbitrary: st0)
    case (Cons e es)
    then show ?case using dispute_apply_signed by (auto simp: bindR_Inr_iff)
  qed simp
  moreover have "all_signed n []" by (simp add: all_signed_def)
  ultimately have "all_signed n st" using assms(1) by blast
  then show ?thesis using map_of_SomeD assms(2,3) by (fastforce simp: all_signed_def dispute_get_def)
qed

section \<open>A statement recorded under another type\<close>

lemma sign_dispute_accepted:
  assumes "ed25519_ok n" "signer_ok n i" "sign_dispute_statement n i ty ann body did fresh t now = Inr stmt" "did \<noteq> []"
  shows "verify_dispute_statement n (PDict stmt) = (True, ''ok'')" "dget stmt ''type'' = Some (PStr ty)"
    "dget stmt ''dispute_id'' = Some (PStr did)" "dget stmt ''announcement_id'' = Some (PStr ann)"
    "dget stmt ''body'' = Some (PDict body)" "as_did i = Inr (the_str (dget stmt ''signer_did''))"
proof -
  obtain d where d: "as_did i = Inr d" "ty \<in> set dispute_types" "ann \<noteq> []" and s: "sign_statement n i (obj
       [(''kind'', PStr dispute_statement_kind), (''type'', PStr ty), (''dispute_id'', PStr did), (''announcement_id'', PStr ann),
        (''signer_did'', PStr d), (''issued_at_ms'', PInt (if t \<noteq> 0 then t else now)), (''body'', PDict body)]) = Inr stmt"
    using assms(3,4) by (auto simp: sign_dispute_statement_def res_iffs)
  let ?o = "obj [(''kind'', PStr dispute_statement_kind), (''type'', PStr ty), (''dispute_id'', PStr did), (''announcement_id'', PStr ann),
        (''signer_did'', PStr d), (''issued_at_ms'', PInt (if t \<noteq> 0 then t else now)), (''body'', PDict body)]"
  have f: "dget ?o ''signer_did'' = Some (PStr d)" by (simp add: obj_def)
  note g = sign_statement_signature(2,3) [OF assms(1,2) d(1) f _ s]
  have "d \<noteq> []" using signer_did [OF assms(1,2)] d(1) by (metis Inr_inject decode_did_iff did_length_pos)
  show p: "dget stmt ''type'' = Some (PStr ty)" "dget stmt ''dispute_id'' = Some (PStr did)" "dget stmt ''announcement_id'' = Some (PStr ann)"
    "dget stmt ''body'' = Some (PDict body)" "as_did i = Inr (the_str (dget stmt ''signer_did''))"
    using g(1) [of "''type''"] g(1) [of "''dispute_id''"] g(1) [of "''announcement_id''"] g(1) [of "''body''"] g(1) [of "''signer_did''"] d(1)
    by (simp_all add: obj_def)
  have "dispute_shape stmt = None"
    using g(1) [of "''kind''"] g(1) [of "''signer_did''"] g(2) p d \<open>d \<noteq> []\<close> assms(4)
    by (simp add: dispute_shape_def str_with_def nonempty_str_def obj_def)
  then show "verify_dispute_statement n (PDict stmt) = (True, ''ok'')"
    using dispute_stmt.signed_accepted [OF assms(1,2) d(1) f s] by blast
qed

text \<open>A party's evidence can be turned into a ruling: the projection goes by the event type only, so
  an event of type \<open>dispute.resolve\<close> that carries a party's signed \<open>evidence\<close> statement closes
  the open dispute with that party as arbiter and the evidence body as ruling, although nobody signed a
  statement of type \<open>resolve\<close>.\<close>

lemma evidence_taken_as_ruling:
  assumes "ed25519_ok n" "signer_ok n i"
    "sign_dispute_statement n i ''evidence'' (d_announcement_id r) body did fresh t now = Inr stmt" "did \<noteq> []"
    "dispute_get st did = Some r" "\<not> d_resolved r" "ev_type e = ''dispute.resolve''" "ev_payload e = stmt"
  shows "\<exists>st' r'. dispute_apply n e st = Inr st' \<and> dispute_get st' did = Some r' \<and> d_resolved r' \<and> d_ruling r' = body
      \<and> as_did i = Inr (d_arbiter_did r') \<and> dget stmt ''type'' = Some (PStr ''evidence'')"
proof -
  note ok = sign_dispute_accepted [OF assms(1-4)]
  let ?r = "r\<lparr>d_statements := d_statements r @ [stmt], d_resolved := True, d_ruling := body,
      d_arbiter_did := the_str (dget stmt ''signer_did'')\<rparr>"
  have "dispute_apply n e st = Inr (assoc_put did ?r st)"
    using ok assms(5-8) by (simp add: dispute_apply_def dispute_events_def dispute_get_def Let_def dget_or_def)
  then show ?thesis using ok by (auto simp: dispute_get_def)
qed

section \<open>A concrete dispute\<close>

lemma sign_dispute_total:
  assumes "ed25519_ok n" "signer_ok n i" "ty \<in> set dispute_types" "ann \<noteq> []" "wf_json (PDict body)"
  shows "\<exists>stmt. sign_dispute_statement n i ty ann body did fresh t now = Inr stmt"
proof -
  obtain d where d: "as_did i = Inr d" using signer_did [OF assms(1,2)] by metis
  have "wf_json (PDict (signing_body (obj [(''kind'', PStr dispute_statement_kind), (''type'', PStr ty),
      (''dispute_id'', PStr (if did \<noteq> [] then did else fresh)), (''announcement_id'', PStr ann),
      (''signer_did'', PStr d), (''issued_at_ms'', PInt (if t \<noteq> 0 then t else now)), (''body'', PDict body)])))"
    using assms(5) by (simp add: signing_body_def without_key_def obj_def is_str_def)
  then show ?thesis
    using sign_statement_total [OF assms(1,2)] assms(3,4) d by (simp add: sign_dispute_statement_def)
qed

definition demo_dispute :: "nat \<Rightarrow> string \<Rightarrow> pydict" where
  "demo_dispute k ty = projr (sign_dispute_statement demo_nacl (demo_identity k) ty ''ann'' [] ''d1'' [] 1 1)"

definition demo_dispute_event :: "string \<Rightarrow> pydict \<Rightarrow> spine_event" where
  "demo_dispute_event ty stmt = \<lparr>ev_seq = 0, ev_prev_hash = genesis_prev, ev_type = ty, ev_payload = stmt,
     ev_author_did = [], ev_ts_ms = 1, ev_content_hash = [], ev_sig = []\<rparr>"

lemma demo_dispute_ok:
  assumes "ty \<in> set dispute_types"
  shows "sign_dispute_statement demo_nacl (demo_identity k) ty ''ann'' [] ''d1'' [] 1 1 = Inr (demo_dispute k ty)"
  using sign_dispute_total [OF demo_nacl_ok demo_signer assms, of "''ann''" "[]" k "''d1''" "[]" 1 1]
  by (auto simp: demo_dispute_def)

definition demo_record :: dispute_record where
  "demo_record = \<lparr>d_dispute_id = ''d1'', d_announcement_id = ''ann'', d_opener_did = the_str (dget (demo_dispute 1 ''open'') ''signer_did''),
     d_resolved = False, d_ruling = [], d_arbiter_did = [], d_statements = [demo_dispute 1 ''open'']\<rparr>"

lemma demo_open: "replay (dispute_apply demo_nacl) [demo_dispute_event ''dispute.open'' (demo_dispute 1 ''open'')] [] = Inr [(''d1'', demo_record)]"
proof -
  have ty: "''open'' \<in> set dispute_types" by (simp add: dispute_types_def)
  note ok = sign_dispute_accepted [OF demo_nacl_ok demo_signer demo_dispute_ok [OF ty]]
  show ?thesis using ok(1,3,4)
    by (simp add: dispute_apply_def demo_dispute_event_def dispute_events_def Let_def demo_record_def)
qed

lemma dispute_records_append_only_demo:
  "\<exists>r'. dispute_get [(''d1'', demo_record)] ''d1'' = Some r' \<and> d_announcement_id r' = d_announcement_id demo_record
     \<and> d_opener_did r' = d_opener_did demo_record
     \<and> (\<exists>more. d_statements r' = d_statements demo_record @ more)
     \<and> (d_resolved demo_record \<longrightarrow> d_resolved r' \<and> d_ruling r' = d_ruling demo_record \<and> d_arbiter_did r' = d_arbiter_did demo_record)"
  by (rule dispute_records_append_only [OF demo_open, of "[]"]) (simp_all add: dispute_get_def)

lemma dispute_statements_signed_demo:
  "signature_over demo_nacl ''signer_did'' (demo_dispute 1 ''open'')"
  by (rule dispute_statements_signed [OF demo_open, of "''d1''" demo_record]) (simp_all add: dispute_get_def demo_record_def)

lemma evidence_taken_as_ruling_demo:
  "\<exists>st' r'. dispute_apply demo_nacl (demo_dispute_event ''dispute.resolve'' (demo_dispute 2 ''evidence'')) [(''d1'', demo_record)] = Inr st'
      \<and> dispute_get st' ''d1'' = Some r' \<and> d_resolved r' \<and> d_ruling r' = []
      \<and> as_did (demo_identity 2) = Inr (d_arbiter_did r') \<and> dget (demo_dispute 2 ''evidence'') ''type'' = Some (PStr ''evidence'')"
proof (rule evidence_taken_as_ruling [OF demo_nacl_ok demo_signer, where r = demo_record and fresh = "[]" and t = 1 and now = 1])
  have "''evidence'' \<in> set dispute_types" by (simp add: dispute_types_def)
  from demo_dispute_ok [OF this, of 2]
  show "sign_dispute_statement demo_nacl (demo_identity 2) ''evidence'' (d_announcement_id demo_record) [] ''d1'' [] 1 1
      = Inr (demo_dispute 2 ''evidence'')" by (simp add: demo_record_def)
qed (simp_all add: dispute_get_def demo_record_def demo_dispute_event_def)

end
