(* ===== verification/Cap_Token.thy ===== *)
theory Cap_Token
  imports Signed_Statement
begin

text \<open>
  \<open>nth_dao/cap_token.py\<close>: capability tokens (issue, verify, model scope, authorization header) and
  the file store with its revocation list. The clock, the fresh identifiers and the
  revocation set are arguments. The store is a map from file names to JSON documents, because the
  audit records and the revocation list live in one directory. \<open>verify_cap_token\<close> may let an exception
  escape, so its verdict is in the exception type.
\<close>

section \<open>Constants\<close>

definition nth_cap_token_kind :: string where
  "nth_cap_token_kind = ''nth-cap-token-v1''"

definition nth_cap_token_spec :: string where
  "nth_cap_token_spec = ''nth-dao/cap-token@1.0''"

definition default_ttl_ms :: int where
  "default_ttl_ms = 60 * 60 * 1000"

definition max_ttl_ms :: int where
  "max_ttl_ms = 7 * 24 * 60 * 60 * 1000"

section \<open>Issuing\<close>

definition flat_id :: "string \<Rightarrow> bool" where
  "flat_id tid \<longleftrightarrow> list_all (\<lambda>c. py_isalnum c \<or> c = CHR ''-'') tid"

fun strip_scope :: "string list \<Rightarrow> string list res" where
  "strip_scope [] = Inr []"
| "strip_scope (m # ms) =
     (let stripped = py_strip m in
      ensure (stripped \<noteq> []) ValueError (''scope_model_allowlist entries must be non-empty after strip; got '' @ str_repr m)
        (bindR (strip_scope ms) (\<lambda>out. Inr (stripped # out))))"

definition cap_body :: "string \<Rightarrow> string \<Rightarrow> string \<Rightarrow> string list \<Rightarrow> string \<Rightarrow> string \<Rightarrow> int \<Rightarrow> int \<Rightarrow> string \<Rightarrow> string list option \<Rightarrow> pydict" where
  "cap_body rid issuer_did subject_did caps scope_task_id scope_dao now ttl_ms nonce models = obj (
     [(''kind'', PStr nth_cap_token_kind), (''spec'', PStr nth_cap_token_spec), (''token_id'', PStr rid),
      (''issuer_did'', PStr issuer_did), (''subject_did'', PStr subject_did), (''capabilities'', PList (map PStr caps)),
      (''scope_task_id'', PStr scope_task_id), (''scope_dao'', PStr scope_dao), (''not_before'', PInt now),
      (''not_after'', PInt (now + ttl_ms)), (''nonce'', PStr nonce)]
     @ (case models of None \<Rightarrow> [] | Some ms \<Rightarrow> [(''scope_model_allowlist'', PList (map PStr (sort (remdups ms))))]))"

definition sign_cap_token :: "nacl \<Rightarrow> identity \<Rightarrow> string \<Rightarrow> string list \<Rightarrow> string \<Rightarrow> string \<Rightarrow> string list option \<Rightarrow> int \<Rightarrow> string
    \<Rightarrow> string \<Rightarrow> string \<Rightarrow> int \<Rightarrow> pydict res" where
  "sign_cap_token n issuer subject_did capabilities scope_task_id scope_dao models ttl_ms token_id fresh_id nonce now =
     (let caps_list = sort (remdups capabilities) in
      ensure (caps_list \<noteq> []) ValueError ''at least one capability required'' (
      ensure (list_all (\<lambda>c. c \<noteq> []) caps_list) ValueError ''capability entries must be non-empty strings'' (
      ensure (0 < ttl_ms) ValueError (''ttl_ms must be a positive int; got '' @ int_str ttl_ms) (
      ensure (ttl_ms \<le> max_ttl_ms) ValueError (''ttl_ms '' @ int_str ttl_ms @ '' exceeds maximum '' @ int_str max_ttl_ms @ '' ms (1 week)'') (
      ensure (is_did_key (PStr subject_did)) ValueError (''subject_did must be a did:key; got '' @ str_repr subject_did) (
      let rid = (if token_id \<noteq> [] then token_id else fresh_id) in
      ensure (flat_id rid) ValueError (''token_id must be alphanumeric (or dash); got '' @ str_repr rid) (
      bindR (case models of None \<Rightarrow> Inr None | Some ms \<Rightarrow> bindR (strip_scope ms) (\<lambda>out. Inr (Some out))) (\<lambda>scope.
      bindR (as_did issuer) (\<lambda>did.
      sign_statement n issuer (cap_body rid did subject_did caps_list scope_task_id scope_dao now ttl_ms nonce scope))))))))))"

section \<open>Verifying\<close>

definition cap_required_fields :: "string list" where
  "cap_required_fields = [''kind'', ''issuer_did'', ''subject_did'', ''capabilities'', ''not_before'', ''not_after'', ''sig'', ''token_id'']"

definition cap_signature_ok :: "nacl \<Rightarrow> bytes \<Rightarrow> pydict \<Rightarrow> bytes \<Rightarrow> bool" where
  "cap_signature_ok n pk token s =
     (case canonical_json (PDict (signing_body token)) of Inl _ \<Rightarrow> False | Inr body \<Rightarrow> nacl_verify n pk body s)"

text \<open>\<open>if revoked_set and token_id in revoked_set\<close>: an empty set is not consulted.\<close>

definition in_revoked :: "pyval \<Rightarrow> string list \<Rightarrow> bool res" where
  "in_revoked tid revoked = (if revoked = [] then Inr False
     else ensure (hashable tid) TypeError ''unhashable type'' (Inr (tid \<in> PStr ` set revoked)))"

lemma in_revoked_Inr: "in_revoked tid revoked = Inr b \<Longrightarrow> b \<longleftrightarrow> tid \<in> PStr ` set revoked"
  by (auto simp: in_revoked_def ensure_Inr_iff split: if_splits)

lemma in_revoked_str: "in_revoked (PStr rid) revoked = Inr (rid \<in> set revoked)"
  by (auto simp: in_revoked_def hashable_def)

definition verify_cap_token :: "nacl \<Rightarrow> pydict \<Rightarrow> int \<Rightarrow> string list \<Rightarrow> string list option \<Rightarrow> string \<Rightarrow> string \<Rightarrow> (bool \<times> string) res" where
  "verify_cap_token n token now revoked required_caps required_task_id required_dao =
     (let fld = (\<lambda>k. dget_or token k PNone) in
      if \<not> nacl_available n then Inr (False, ''crypto-unavailable'')
      else if \<not> list_all (dhas token) cap_required_fields then Inr (False, ''missing-field'')
      else if \<not> py_eq (fld ''kind'') (PStr nth_cap_token_kind) then Inr (False, ''bad-kind'')
      else case bindR (py_int (fld ''not_before'')) (\<lambda>nbf. bindR (py_int (fld ''not_after'')) (\<lambda>nafter. Inr (nbf, nafter))) of
        Inl e \<Rightarrow> if exn_cls e = TypeError \<or> is_value_error e then Inr (False, ''missing-field'') else Inl e
      | Inr (nbf, nafter) \<Rightarrow>
          if now < nbf then Inr (False, ''not-yet-valid'')
          else if nafter < now then Inr (False, ''expired'')
          else bindR (in_revoked (fld ''token_id'') revoked) (\<lambda>is_revoked.
          if is_revoked then Inr (False, ''revoked'')
          else bindR (py_set (fld ''capabilities'')) (\<lambda>token_caps.
          if required_caps \<noteq> None \<and> \<not> PStr ` set (the required_caps) \<subseteq> set token_caps then Inr (False, ''cap-insufficient'')
          else if required_task_id \<noteq> [] \<and> truthy (dget_or token ''scope_task_id'' (PStr []))
                  \<and> \<not> py_eq (dget_or token ''scope_task_id'' (PStr [])) (PStr required_task_id)
          then Inr (False, ''scope-mismatch'')
          else if required_dao \<noteq> [] \<and> truthy (dget_or token ''scope_dao'' (PStr []))
                  \<and> \<not> py_eq (dget_or token ''scope_dao'' (PStr [])) (PStr required_dao)
          then Inr (False, ''scope-mismatch'')
          else if \<not> is_did_key (fld ''issuer_did'') then Inr (False, ''bad-issuer-did'')
          else bindR (decode_ed25519_did_key_hex (the_str (dget token ''issuer_did''))) (\<lambda>issuer_pubkey_hex.
          if issuer_pubkey_hex = [] then Inr (False, ''bad-issuer-did'')
          else case b64u_decode (py_str (fld ''sig'')) of
            Inl _ \<Rightarrow> Inr (False, ''sig-decode-failed'')
          | Inr sig_bytes \<Rightarrow>
              (case fromhex issuer_pubkey_hex of
                 Inl _ \<Rightarrow> Inr (False, ''sig-invalid'')
               | Inr pk \<Rightarrow> if cap_signature_ok n pk token sig_bytes then Inr (True, []) else Inr (False, ''sig-invalid''))))))"

definition token_allows_model :: "pydict \<Rightarrow> string \<Rightarrow> bool \<times> string" where
  "token_allows_model token requested_model =
     (if requested_model = [] then (True, [])
      else case dget token ''scope_model_allowlist'' of
        None \<Rightarrow> (True, [])
      | Some (PList scope) \<Rightarrow>
          if PStr requested_model \<in> set scope then (True, []) else (False, ''model-not-in-token-scope'')
      | Some _ \<Rightarrow> (False, ''model-not-in-token-scope''))"

section \<open>The authorization header\<close>

definition encode_authorization_header :: "pydict \<Rightarrow> string res" where
  "encode_authorization_header token = bindR (canonical_json (PDict token)) (\<lambda>bs. Inr (b64u_encode bs))"

definition decode_authorization_value :: "string \<Rightarrow> pyval option" where
  "decode_authorization_value val = (case b64u_decode val of
     Inl _ \<Rightarrow> None
   | Inr raw \<Rightarrow> Option.bind (utf8_decode raw) json_loads)"

section \<open>The store\<close>

type_synonym cap_store = "(string \<times> pyval) list"

definition cap_suffix :: string where
  "cap_suffix = ''.json''"

definition cap_revoked_file :: string where
  "cap_revoked_file = ''revoked.json''"

definition cap_record :: "pydict \<Rightarrow> cap_store \<Rightarrow> cap_store res" where
  "cap_record token st =
     (let tid = (let v = dget_or token ''token_id'' (PStr []) in if truthy v then py_str v else []) in
      ensure (tid \<noteq> [] \<and> flat_id tid) ValueError (''invalid token_id '' @ str_repr tid)
        (Inr (assoc_put (tid @ cap_suffix) (PDict token) st)))"

definition cap_get :: "string \<Rightarrow> cap_store \<Rightarrow> pyval option" where
  "cap_get tid st = (if tid = [] \<or> \<not> flat_id tid then None else map_of st (tid @ cap_suffix))"

text \<open>The revocation list as \<open>data.get("revoked", [])\<close> of the file, each element as text.\<close>

definition revoked_set :: "cap_store \<Rightarrow> string list res" where
  "revoked_set st = (case map_of st cap_revoked_file of
     None \<Rightarrow> Inr []
   | Some (PDict d) \<Rightarrow> bindR (py_iter (dget_or d ''revoked'' (PList []))) (\<lambda>xs. Inr (remdups (map py_str xs)))
   | Some _ \<Rightarrow> raise AttributeError ''object has no attribute get'')"

definition revoke :: "string \<Rightarrow> cap_store \<Rightarrow> (cap_store \<times> bool) res" where
  "revoke tid st =
     ensure (tid \<noteq> [] \<and> flat_id tid) ValueError (''invalid token_id '' @ str_repr tid) (
     bindR (revoked_set st) (\<lambda>current.
       if tid \<in> set current then Inr (st, False)
       else Inr (assoc_put cap_revoked_file (PDict [(PStr ''revoked'', PList (map PStr (sort (tid # current))))]) st, True)))"

section \<open>What an accepted token guarantees\<close>

text \<open>C34. Verification is sound: when \<open>verify_cap_token\<close> accepts, the clock is inside the token's validity
  window, the token is not revoked, it grants every required capability, a required task or DAO matches
  its scope or the token leaves that scope open, and its signature is valid over every field
  under the key of its issuer's DID.\<close>

theorem verify_cap_token_sound:
  assumes "verify_cap_token n token now revoked caps task dao = Inr (True, m)"
  shows "\<exists>nbf nafter tc did pk s body. py_int (dget_or token ''not_before'' PNone) = Inr nbf \<and> py_int (dget_or token ''not_after'' PNone) = Inr nafter
      \<and> nbf \<le> now \<and> now \<le> nafter
      \<and> dget_or token ''token_id'' PNone \<notin> PStr ` set revoked
      \<and> py_set (dget_or token ''capabilities'' PNone) = Inr tc \<and> (\<forall>cs. caps = Some cs \<longrightarrow> PStr ` set cs \<subseteq> set tc)
      \<and> (task = [] \<or> \<not> truthy (dget_or token ''scope_task_id'' (PStr [])) \<or> dget_or token ''scope_task_id'' (PStr []) = PStr task)
      \<and> (dao = [] \<or> \<not> truthy (dget_or token ''scope_dao'' (PStr [])) \<or> dget_or token ''scope_dao'' (PStr []) = PStr dao)
      \<and> dget token ''issuer_did'' = Some (PStr did) \<and> decode_ed25519_did_key did = Inr pk
      \<and> b64u_decode (py_str (dget_or token ''sig'' PNone)) = Inr s
      \<and> canonical_json (PDict (signing_body token)) = Inr body \<and> nacl_verify n pk body s"
proof -
  note v = assms [unfolded verify_cap_token_def Let_def]
  obtain nbf nafter where t: "py_int (dget_or token ''not_before'' PNone) = Inr nbf" "py_int (dget_or token ''not_after'' PNone) = Inr nafter"
    "\<not> now < nbf" "\<not> nafter < now"
    using v by (auto simp: res_iffs split: if_splits sum.splits)
  note v = v [unfolded t(1,2) bindR_simps sum.case prod.case if_not_P [OF t(3)] if_not_P [OF t(4)]]
  obtain tc where c: "py_set (dget_or token ''capabilities'' PNone) = Inr tc" using v by (auto simp: bindR_Inr_iff split: if_splits)
  note v = v [unfolded c bindR_simps]
  have r: "dget_or token ''token_id'' PNone \<notin> PStr ` set revoked"
    using v by (auto simp: bindR_Inr_iff dest!: in_revoked_Inr split: if_splits)
  have did: "is_did_key (dget_or token ''issuer_did'' PNone)" using v by (auto simp: bindR_Inr_iff split: if_splits)
  then obtain did where d: "dget token ''issuer_did'' = Some (PStr did)"
    by (cases "dget token ''issuer_did''") (auto simp: dget_or_def is_did_key_def split: pyval.splits)
  obtain pk where pk: "decode_ed25519_did_key did = Inr pk"
    using did d by (auto simp: dget_or_def is_did_key_iff decode_did_iff)
  have hex: "decode_ed25519_did_key_hex (the_str (dget token ''issuer_did'')) = Inr (bytes_hex pk)"
    by (simp add: d decode_ed25519_did_key_hex_def pk)
  note v = v [unfolded hex bindR_simps fromhex_bytes_hex sum.case]
  obtain s where s: "b64u_decode (py_str (dget_or token ''sig'' PNone)) = Inr s" "cap_signature_ok n pk token s"
    using v by (auto simp: bindR_Inr_iff split: if_splits sum.splits)
  then obtain body where "canonical_json (PDict (signing_body token)) = Inr body" "nacl_verify n pk body s"
    by (auto simp: cap_signature_ok_def split: sum.splits)
  moreover have "\<forall>cs. caps = Some cs \<longrightarrow> PStr ` set cs \<subseteq> set tc"
    using v by (auto simp: bindR_Inr_iff split: if_splits)
  moreover have "task = [] \<or> \<not> truthy (dget_or token ''scope_task_id'' (PStr [])) \<or> dget_or token ''scope_task_id'' (PStr []) = PStr task"
    "dao = [] \<or> \<not> truthy (dget_or token ''scope_dao'' (PStr [])) \<or> dget_or token ''scope_dao'' (PStr []) = PStr dao"
    using v by (auto simp: bindR_Inr_iff split: if_splits)
  ultimately show ?thesis using t c r d pk s by auto
qed

section \<open>Issued tokens verify\<close>

lemma sign_cap_tokenE:
  assumes "sign_cap_token n i subject caps task dao models ttl tid fresh nonce now = Inr token"
  obtains did rid scope where "as_did i = Inr did" "flat_id rid" "rid = (if tid \<noteq> [] then tid else fresh)" "caps \<noteq> []" "0 < ttl" "ttl \<le> max_ttl_ms"
    "is_did_key (PStr subject)"
    "sign_statement n i (cap_body rid did subject (sort (remdups caps)) task dao now ttl nonce scope) = Inr token"
proof -
  obtain did scope where "as_did i = Inr did" "flat_id (if tid \<noteq> [] then tid else fresh)" "sort (remdups caps) \<noteq> []" "0 < ttl" "ttl \<le> max_ttl_ms"
    "is_did_key (PStr subject)"
    "sign_statement n i (cap_body (if tid \<noteq> [] then tid else fresh) did subject (sort (remdups caps)) task dao now ttl nonce scope) = Inr token"
    using assms unfolding sign_cap_token_def Let_def ensure_Inr_iff bindR_Inr_iff by blast
  moreover from this(3) have "caps \<noteq> []" by auto
  ultimately show thesis using that by blast
qed

lemma dget_cap_body:
  "dget (cap_body rid did subject caps task dao now ttl nonce scope) ''kind'' = Some (PStr nth_cap_token_kind)"
  "dget (cap_body rid did subject caps task dao now ttl nonce scope) ''issuer_did'' = Some (PStr did)"
  "dget (cap_body rid did subject caps task dao now ttl nonce scope) ''subject_did'' = Some (PStr subject)"
  "dget (cap_body rid did subject caps task dao now ttl nonce scope) ''capabilities'' = Some (PList (map PStr caps))"
  "dget (cap_body rid did subject caps task dao now ttl nonce scope) ''not_before'' = Some (PInt now)"
  "dget (cap_body rid did subject caps task dao now ttl nonce scope) ''not_after'' = Some (PInt (now + ttl))"
  "dget (cap_body rid did subject caps task dao now ttl nonce scope) ''token_id'' = Some (PStr rid)"
  "dget (cap_body rid did subject caps task dao now ttl nonce scope) ''scope_task_id'' = Some (PStr task)"
  "dget (cap_body rid did subject caps task dao now ttl nonce scope) ''scope_dao'' = Some (PStr dao)"
  by (simp_all add: cap_body_def obj_def)

lemma cap_token_fields:
  assumes "ed25519_ok n" "signer_ok n i" "as_did i = Inr did"
    "sign_statement n i (cap_body rid did subject caps task dao now ttl nonce scope) = Inr token"
  shows "k \<noteq> ''sig'' \<Longrightarrow> dget token k = dget (cap_body rid did subject caps task dao now ttl nonce scope) k"
    and "signature_over n ''issuer_did'' token"
  using sign_statement_signature(1,2) [OF assms(1-3) dget_cap_body(2) _ assms(4)] by auto

lemma issued_token_fields:
  assumes "ed25519_ok n" "signer_ok n i" "sign_cap_token n i subject caps task dao models ttl tid fresh nonce t0 = Inr token"
  shows "dget token ''kind'' = Some (PStr nth_cap_token_kind)" "dget token ''subject_did'' = Some (PStr subject)"
    "dget token ''capabilities'' = Some (PList (map PStr (sort (remdups caps))))"
    "dget token ''not_before'' = Some (PInt t0)" "dget token ''not_after'' = Some (PInt (t0 + ttl))"
    "dget token ''token_id'' = Some (PStr (if tid \<noteq> [] then tid else fresh))"
    "dget token ''scope_task_id'' = Some (PStr task)" "dget token ''scope_dao'' = Some (PStr dao)"
    "0 < ttl" "list_all (dhas token) cap_required_fields" "nacl_available n" "signature_over n ''issuer_did'' token"
    "py_set (PList (map PStr (sort (remdups caps)))) = Inr (map PStr (sort (remdups caps)))"
proof -
  obtain did rid scope where s: "as_did i = Inr did" "rid = (if tid \<noteq> [] then tid else fresh)" "0 < ttl"
    "sign_statement n i (cap_body rid did subject (sort (remdups caps)) task dao t0 ttl nonce scope) = Inr token"
    using sign_cap_tokenE [OF assms(3)] by metis
  note f = cap_token_fields(1) [OF assms(1,2) s(1,4)]
  show sg: "signature_over n ''issuer_did'' token" by (rule cap_token_fields(2) [OF assms(1,2) s(1,4)])
  then show "nacl_available n" by (auto simp: signature_over_def)
  show fl: "dget token ''kind'' = Some (PStr nth_cap_token_kind)" "dget token ''subject_did'' = Some (PStr subject)"
    "dget token ''capabilities'' = Some (PList (map PStr (sort (remdups caps))))"
    "dget token ''not_before'' = Some (PInt t0)" "dget token ''not_after'' = Some (PInt (t0 + ttl))"
    "dget token ''token_id'' = Some (PStr (if tid \<noteq> [] then tid else fresh))"
    "dget token ''scope_task_id'' = Some (PStr task)" "dget token ''scope_dao'' = Some (PStr dao)" "0 < ttl"
    using s(2,3) by (simp_all add: f dget_cap_body)
  show "list_all (dhas token) cap_required_fields"
    using fl sg by (auto simp: cap_required_fields_def dhas_def signature_over_def)
  show "py_set (PList (map PStr (sort (remdups caps)))) = Inr (map PStr (sort (remdups caps)))"
    by (simp add: py_set_def py_iter_def hashable_def list_all_iff)
qed

lemma issued_token_expired:
  assumes "ed25519_ok n" "signer_ok n i" "sign_cap_token n i subject caps task dao models ttl tid fresh nonce t0 = Inr token"
    "t0 + ttl < now"
  shows "verify_cap_token n token now revoked needed rtask rdao = Inr (False, ''expired'')"
  using issued_token_fields [OF assms(1-3)] assms(4)
  by (simp add: verify_cap_token_def Let_def dget_or_def py_int_def)

lemma issued_token_accepted:
  assumes "ed25519_ok n" "signer_ok n i"
    "sign_cap_token n i subject caps task dao models ttl tid fresh nonce t0 = Inr token"
    "t0 \<le> now" "now \<le> t0 + ttl" "(if tid \<noteq> [] then tid else fresh) \<notin> set revoked"
    "\<forall>cs. needed = Some cs \<longrightarrow> set cs \<subseteq> set caps" "task = [] \<or> rtask = [] \<or> task = rtask" "dao = [] \<or> rdao = [] \<or> dao = rdao"
  shows "verify_cap_token n token now revoked needed rtask rdao = Inr (True, [])"
proof -
  note f = issued_token_fields [OF assms(1-3)]
  obtain did sg pk sb body where g: "dget token ''issuer_did'' = Some (PStr did)" "dget token ''sig'' = Some (PStr sg)"
     "decode_ed25519_did_key did = Inr pk" "b64u_decode sg = Inr sb"
     "canonical_json (PDict (signing_body token)) = Inr body" "nacl_verify n pk body sb"
    using f(12) by (auto simp: signature_over_def)
  have did: "is_did_key (PStr did)" using g(3) by (auto simp: is_did_key_iff decode_did_iff)
  have len: "length pk = 32" using g(3) by (auto simp: decode_did_iff encode_ed25519_did_key_def split: if_splits)
  have hex: "decode_ed25519_did_key_hex did = Inr (bytes_hex pk)" "bytes_hex pk \<noteq> []"
    using len length_bytes_hex [of pk] by (auto simp: decode_ed25519_did_key_hex_def g(3) simp del: length_bytes_hex)
  have need: "\<not> (needed \<noteq> None \<and> \<not> PStr ` set (the needed) \<subseteq> set (map PStr (sort (remdups caps))))"
    using assms(7) by (cases needed) (simp_all add: image_mono)
  have rev: "in_revoked (dget_or token ''token_id'' PNone) revoked = Inr False"
    using assms(6) f(6) by (simp add: dget_or_def in_revoked_str)
  have scope: "\<not> (rtask \<noteq> [] \<and> truthy (PStr task) \<and> \<not> py_eq (PStr task) (PStr rtask))"
    "\<not> (rdao \<noteq> [] \<and> truthy (PStr dao) \<and> \<not> py_eq (PStr dao) (PStr rdao))"
    using assms(8,9) by auto
  have caps: "py_set (dget_or token ''capabilities'' PNone) = Inr (map PStr (sort (remdups caps)))"
    using f(3,13) by (simp add: dget_or_def)
  show ?thesis
    unfolding verify_cap_token_def Let_def rev caps bindR_simps if_not_P [OF need]
    using f(1-8,10,11) g hex did assms(4,5) scope
    by (simp add: dget_or_def py_int_def cap_signature_ok_def)
qed

text \<open>Issued tokens work: a token from \<open>sign_cap_token\<close> is accepted at every instant of its validity
  window, for any capabilities among those granted, any matching scope, and any revocation list without its
  identifier.\<close>

lemma issued_token_verifies:
  assumes "ed25519_ok n" "signer_ok n i"
    "sign_cap_token n i subject caps task dao models ttl tid fresh nonce t0 = Inr token"
    "t0 \<le> now" "now \<le> t0 + ttl" "(if tid \<noteq> [] then tid else fresh) \<notin> set revoked"
    "set needed \<subseteq> set caps" "task = [] \<or> rtask = [] \<or> task = rtask" "dao = [] \<or> rdao = [] \<or> dao = rdao"
  shows "verify_cap_token n token now revoked (Some needed) rtask rdao = Inr (True, [])"
  using assms by (intro issued_token_accepted) auto

definition demo_cap_body :: pydict where
  "demo_cap_body = cap_body ''t1'' (projr (as_did (demo_identity 1))) (projr (as_did (demo_identity 2))) [''read''] [] [] 10 100 ''00'' None"

definition demo_token :: pydict where
  "demo_token = projr (sign_statement demo_nacl (demo_identity 1) demo_cap_body)"

lemma demo_token_issued:
  "sign_cap_token demo_nacl (demo_identity 1) (projr (as_did (demo_identity 2))) [''read''] [] [] None 100 ''t1'' [] ''00'' 10 = Inr demo_token"
proof -
  have did: "\<exists>d. as_did (demo_identity k) = Inr d \<and> is_did_key (PStr d)" for k
    by (rule signer_did [OF demo_nacl_ok demo_signer, of k]) (auto simp: is_did_key_iff decode_did_iff)
  then obtain d1 d2 where d: "as_did (demo_identity 1) = Inr d1" "as_did (demo_identity 2) = Inr d2" "is_did_key (PStr d2)" by metis
  have "wf_json (PDict (signing_body demo_cap_body))"
    by (simp add: demo_cap_body_def cap_body_def obj_def signing_body_def without_key_def is_str_def)
  then obtain out where "sign_statement demo_nacl (demo_identity 1) demo_cap_body = Inr out"
    using sign_statement_total [OF demo_nacl_ok demo_signer] by blast
  moreover have "flat_id ''t1''" by code_simp
  ultimately show ?thesis
    by (simp add: sign_cap_token_def d max_ttl_ms_def demo_token_def demo_cap_body_def del: One_nat_def)
qed

lemma issued_token_verifies_demo:
  "verify_cap_token demo_nacl demo_token 50 [''t7''] (Some [''read'']) ''task'' ''dao'' = Inr (True, [])"
  by (rule issued_token_verifies [OF demo_nacl_ok demo_signer demo_token_issued]) simp_all

lemma demo_token_ok: "verify_cap_token demo_nacl demo_token 50 [''t7''] (Some [''read'']) ''task'' ''dao'' = Inr (True, [])"
  by (rule issued_token_accepted [OF demo_nacl_ok demo_signer demo_token_issued]) simp_all

theorem verify_cap_token_sound_witness:
  "\<exists>nbf nafter tc did pk s body. py_int (dget_or demo_token ''not_before'' PNone) = Inr nbf \<and> py_int (dget_or demo_token ''not_after'' PNone) = Inr nafter
      \<and> nbf \<le> 50 \<and> 50 \<le> nafter
      \<and> dget_or demo_token ''token_id'' PNone \<notin> PStr ` set [''t7'']
      \<and> py_set (dget_or demo_token ''capabilities'' PNone) = Inr tc \<and> (\<forall>cs. Some [''read''] = Some cs \<longrightarrow> PStr ` set cs \<subseteq> set tc)
      \<and> (''task'' = [] \<or> \<not> truthy (dget_or demo_token ''scope_task_id'' (PStr [])) \<or> dget_or demo_token ''scope_task_id'' (PStr []) = PStr ''task'')
      \<and> (''dao'' = [] \<or> \<not> truthy (dget_or demo_token ''scope_dao'' (PStr [])) \<or> dget_or demo_token ''scope_dao'' (PStr []) = PStr ''dao'')
      \<and> dget demo_token ''issuer_did'' = Some (PStr did) \<and> decode_ed25519_did_key did = Inr pk
      \<and> b64u_decode (py_str (dget_or demo_token ''sig'' PNone)) = Inr s
      \<and> canonical_json (PDict (signing_body demo_token)) = Inr body \<and> nacl_verify demo_nacl pk body s"
  by (rule verify_cap_token_sound [OF demo_token_ok])

section \<open>The header\<close>

text \<open>The authorization header loses nothing: decoding an encoded token gives the token with its keys
  sorted, so every field a verifier reads is the issued one.\<close>

lemma authorization_header_roundtrip:
  assumes "keys_once (PDict token)" "encode_authorization_header token = Inr h"
  shows "decode_authorization_value h = Some (canon (PDict token))"
proof -
  obtain bs where bs: "canonical_json (PDict token) = Inr bs" "h = b64u_encode bs"
    using assms(2) by (auto simp: encode_authorization_header_def bindR_Inr_iff)
  have "wf_json (PDict token)" "bs = utf8 (json_dumps False (PDict token))"
    using canonical_json_Inr [OF bs(1) assms(1)] by blast+
  then show ?thesis using bs(2) by (simp add: decode_authorization_value_def json_loads_dumps del: canon.simps wf_json.simps)
qed

lemma authorization_header_roundtrip_witness:
  "decode_authorization_value (b64u_encode (utf8 (json_dumps False (PDict [(PStr ''k'', PInt 1)])))) = Some (canon (PDict [(PStr ''k'', PInt 1)]))"
  by (rule authorization_header_roundtrip) (simp_all add: encode_authorization_header_def canonical_json_wf is_str_def)

section \<open>Revocation\<close>

lemma revoked_set_after:
  "revoked_set (assoc_put cap_revoked_file (PDict [(PStr ''revoked'', PList (map PStr xs))]) st) = Inr (remdups xs)"
  by (simp add: revoked_set_def dget_or_def py_iter_def o_def)

text \<open>Revoking is lasting: after \<open>revoke\<close> succeeds the identifier is in the list with everything that was
  there before, a later \<open>revoke\<close> removes nothing, and neither does recording a token, unless that
  token's identifier is \<open>revoked\<close>.\<close>

lemma revoke_monotone:
  assumes "revoked_set st = Inr old" "revoke tid st = Inr (st', changed)"
    "cap_record token st' = Inr st''" "dget token ''token_id'' \<noteq> Some (PStr ''revoked'')" "is_str (dget_or token ''token_id'' PNone)"
  shows "\<exists>new. revoked_set st'' = Inr new \<and> set new = insert tid (set old) \<and> (changed \<longleftrightarrow> tid \<notin> set old)"
proof -
  have st': "\<exists>new. revoked_set st' = Inr new \<and> set new = insert tid (set old)" and c: "changed \<longleftrightarrow> tid \<notin> set old"
    using assms(1,2) by (auto simp: revoke_def res_iffs revoked_set_after set_insort_key split: if_splits)
  obtain t where t: "dget token ''token_id'' = Some (PStr t)" "t \<noteq> ''revoked''"
    using assms(4,5) by (auto simp: dget_or_def is_str_cases split: option.splits)
  have "t @ cap_suffix \<noteq> cap_revoked_file"
  proof
    assume "t @ cap_suffix = cap_revoked_file"
    then have "t @ ''.json'' = ''revoked'' @ ''.json''" by (simp add: cap_suffix_def cap_revoked_file_def)
    then show False using t(2) append_same_eq by blast
  qed
  then have "map_of st'' cap_revoked_file = map_of st' cap_revoked_file"
    using assms(3) t by (auto simp: cap_record_def dget_or_def Let_def ensure_Inr_iff)
  then have "revoked_set st'' = revoked_set st'" by (simp add: revoked_set_def)
  then show ?thesis using st' c by simp
qed

lemma revoke_monotone_demo:
  "\<exists>new. revoked_set [(''revoked.json'', PDict [(PStr ''revoked'', PList [PStr ''t1''])]), (''t2.json'', PDict [(PStr ''token_id'', PStr ''t2'')])] = Inr new
     \<and> set new = insert ''t1'' (set []) \<and> (True \<longleftrightarrow> ''t1'' \<notin> set [])"
proof (rule revoke_monotone [where st = "[]" and token = "[(PStr ''token_id'', PStr ''t2'')]"])
  show "revoked_set [] = Inr []" by (simp add: revoked_set_def)
  show "revoke ''t1'' [] = Inr ([(''revoked.json'', PDict [(PStr ''revoked'', PList [PStr ''t1''])])], True)" by code_simp
  show "cap_record [(PStr ''token_id'', PStr ''t2'')] [(''revoked.json'', PDict [(PStr ''revoked'', PList [PStr ''t1''])])]
    = Inr [(''revoked.json'', PDict [(PStr ''revoked'', PList [PStr ''t1''])]), (''t2.json'', PDict [(PStr ''token_id'', PStr ''t2'')])]" by code_simp
qed (simp_all add: dget_or_def is_str_def)

text \<open>One token identifier erases the revocation list: \<open>revoked\<close> is a legal token identifier, its audit
  record is written to the file of the revocation list, and after recording it the list is empty
  whatever it held, so revoked tokens are accepted again.\<close>

lemma token_named_revoked_clears_list:
  assumes "dget token ''token_id'' = Some (PStr ''revoked'')" "dget token ''revoked'' = None"
  shows "flat_id ''revoked'' \<and> (\<exists>st'. cap_record token st = Inr st' \<and> revoked_set st' = Inr [])"
proof -
  have "flat_id ''revoked''" by code_simp
  then show ?thesis using assms
    by (simp add: cap_record_def dget_or_def revoked_set_def cap_suffix_def cap_revoked_file_def py_iter_def)
qed

lemma token_named_revoked_clears_list_demo:
  "flat_id ''revoked'' \<and> (\<exists>st'. cap_record [(PStr ''token_id'', PStr ''revoked'')]
     [(''revoked.json'', PDict [(PStr ''revoked'', PList [PStr ''t1''])])] = Inr st' \<and> revoked_set st' = Inr [])"
  by (rule token_named_revoked_clears_list) simp_all

text \<open>Verification can raise: a token whose \<open>not_after\<close> is an infinite float (which \<open>json.loads\<close>
  reads from \<open>Infinity\<close>) makes \<open>int\<close> raise \<open>OverflowError\<close>, which is not caught, so the caller gets
  an exception instead of a verdict.\<close>

lemma verify_cap_token_overflow:
  assumes "nacl_available n" "list_all (dhas token) cap_required_fields" "dget token ''kind'' = Some (PStr nth_cap_token_kind)"
    "dget token ''not_before'' = Some (PInt nbf)" "dget token ''not_after'' = Some (PFloat FInf)"
  shows "\<exists>m. verify_cap_token n token now revoked caps task dao = Inl (Exn OverflowError m)"
  using assms by (simp add: verify_cap_token_def dget_or_def py_int_def is_value_error_def)

lemma verify_cap_token_overflow_witness:
  "\<exists>m. verify_cap_token demo_nacl (obj [(''kind'', PStr nth_cap_token_kind), (''issuer_did'', PStr []), (''subject_did'', PStr []),
      (''capabilities'', PList []), (''not_before'', PInt 0), (''not_after'', PFloat FInf), (''sig'', PStr []), (''token_id'', PStr [])])
    5 [] None [] [] = Inl (Exn OverflowError m)"
  by (rule verify_cap_token_overflow) (simp_all add: demo_nacl_def obj_def cap_required_fields_def dhas_def)

end
