(* ===== verification/Authz.thy ===== *)
theory Authz
  imports Cap_Token Projection Spine_Log
begin

text \<open>
  \<open>nth_dao/authz\<close>: the consent inbox. An agent signs a request for capabilities; the node grants it by
  issuing a capability token, or denies it; each step is an event of the log and the projection
  folds the events into records kept in order of arrival. A grant is checked with the clock of
  the replay, so the projection's step takes the instant at which it runs.
\<close>

section \<open>Requests\<close>

definition cap_request_kind :: string where
  "cap_request_kind = ''nth-cap-request-v1''"

definition requested_caps :: "pyval list \<Rightarrow> string list" where
  "requested_caps capabilities = filter (\<lambda>c. c \<noteq> []) (map (py_strip \<circ> py_str) capabilities)"

definition sign_cap_request :: "nacl \<Rightarrow> identity \<Rightarrow> pyval list \<Rightarrow> string \<Rightarrow> pydict \<Rightarrow> string \<Rightarrow> string \<Rightarrow> int \<Rightarrow> int \<Rightarrow> pydict res" where
  "sign_cap_request n requester capabilities reason scope request_id fresh_id issued_at_ms now =
     (let caps = requested_caps capabilities in
      ensure (caps \<noteq> []) ValueError ''capabilities required (non-empty strings)'' (
      bindR (as_did requester) (\<lambda>did.
      sign_statement n requester (obj
        [(''kind'', PStr cap_request_kind), (''request_id'', PStr (if request_id \<noteq> [] then request_id else fresh_id)),
         (''requester_did'', PStr did), (''capabilities'', PList (map PStr (sort (remdups caps)))), (''reason'', PStr reason),
         (''scope'', PDict scope), (''issued_at_ms'', PInt (if issued_at_ms \<noteq> 0 then issued_at_ms else now))]))))"

definition caps_field_ok :: "pyval option \<Rightarrow> bool" where
  "caps_field_ok v = (case v of Some (PList caps) \<Rightarrow> caps \<noteq> [] \<and> list_all (\<lambda>c. nonempty_str (Some c)) caps | _ \<Rightarrow> False)"

definition cap_request_shape :: "pydict \<Rightarrow> string option" where
  "cap_request_shape stmt =
     (if dget stmt ''kind'' \<noteq> Some (PStr cap_request_kind) then Some ''wrong kind''
      else if \<not> caps_field_ok (dget stmt ''capabilities'') then Some ''missing/invalid capabilities''
      else missing_str [''request_id'', ''requester_did'', ''sig''] stmt)"

definition verify_cap_request :: "nacl \<Rightarrow> pyval \<Rightarrow> bool \<times> string" where
  "verify_cap_request n v = (case v of
     PDict stmt \<Rightarrow> (case cap_request_shape stmt of Some m \<Rightarrow> (False, m) | None \<Rightarrow> check_signature n ''requester_did'' stmt)
   | _ \<Rightarrow> (False, ''not a dict''))"

interpretation request_stmt: statement_kind cap_request_shape "''requester_did''" verify_cap_request
proof unfold_locales
  fix n v
  assume "\<not> is_dict v"
  then show "\<not> fst (verify_cap_request n v)" by (cases v) (auto simp: verify_cap_request_def is_dict_def)
qed (auto simp: verify_cap_request_def cap_request_shape_def missing_str_None split: if_splits)

section \<open>Recording, granting, denying\<close>

definition record_cap_request :: "nacl \<Rightarrow> identity \<Rightarrow> pyval \<Rightarrow> int \<Rightarrow> spine_log \<Rightarrow> spine_log \<times> spine_event res" where
  "record_cap_request n node stmt now s =
     (case verify_cap_request n stmt of
        (False, why) \<Rightarrow> (s, raise ValueError (''refusing to record invalid cap request: '' @ why))
      | (True, _) \<Rightarrow> spine_append n node ''cap.request'' stmt now s)"

definition grant_payload :: "string \<Rightarrow> string \<Rightarrow> string list \<Rightarrow> pydict \<Rightarrow> string \<Rightarrow> int \<Rightarrow> pydict" where
  "grant_payload request_id requester_did capabilities token issuer_did decided_at = obj
     [(''request_id'', PStr request_id), (''requester_did'', PStr requester_did),
      (''capabilities'', PList (map PStr (sort (remdups capabilities)))), (''cap_token'', PDict token),
      (''decided_by_did'', PStr issuer_did), (''decided_at_ms'', PInt decided_at)]"

definition grant_cap_request :: "nacl \<Rightarrow> identity \<Rightarrow> identity \<Rightarrow> string \<Rightarrow> string \<Rightarrow> string list \<Rightarrow> pydict \<Rightarrow> string \<Rightarrow> string
    \<Rightarrow> int \<Rightarrow> int \<Rightarrow> spine_log \<Rightarrow> spine_log \<times> pydict res" where
  "grant_cap_request n node issuer request_id requester_did capabilities scope fresh_id nonce now_override now s =
     (case bindR (sign_cap_token n issuer requester_did capabilities (py_str (dget_or scope ''task_id'' (PStr [])))
              (py_str (dget_or scope ''dao'' (PStr []))) None default_ttl_ms [] fresh_id nonce now) (\<lambda>token.
           bindR (as_did issuer) (\<lambda>did. Inr (token, did))) of
        Inl e \<Rightarrow> (s, Inl e)
      | Inr (token, did) \<Rightarrow>
          (case spine_append n node ''cap.grant''
              (PDict (grant_payload request_id requester_did capabilities token did (if now_override \<noteq> 0 then now_override else now))) now s of
             (s', Inl e) \<Rightarrow> (s', Inl e)
           | (s', Inr _) \<Rightarrow> (s', Inr token)))"

definition deny_cap_request :: "nacl \<Rightarrow> identity \<Rightarrow> identity \<Rightarrow> string \<Rightarrow> string \<Rightarrow> int \<Rightarrow> int \<Rightarrow> spine_log \<Rightarrow> spine_log \<times> spine_event res" where
  "deny_cap_request n node decider request_id reason now_override now s =
     (case as_did decider of
        Inl e \<Rightarrow> (s, Inl e)
      | Inr did \<Rightarrow> spine_append n node ''cap.deny'' (PDict (obj
          [(''request_id'', PStr request_id), (''decided_by_did'', PStr did), (''reason'', PStr reason),
           (''decided_at_ms'', PInt (if now_override \<noteq> 0 then now_override else now))])) now s)"

section \<open>The projection\<close>

datatype cap_status = Pending | Granted | Denied

record cap_request_record =
  q_request_id :: string
  q_requester_did :: string
  q_capabilities :: "pyval list"
  q_reason :: string
  q_scope :: pydict
  q_status :: cap_status
  q_cap_token :: "pydict option"
  q_decided_by_did :: string
  q_decided_at_ms :: int

type_synonym inbox = "(string \<times> cap_request_record) list"

definition cap_events :: "string set" where
  "cap_events = {''cap.request'', ''cap.grant'', ''cap.deny''}"

definition cap_open :: "pydict \<Rightarrow> string \<Rightarrow> cap_request_record res" where
  "cap_open payload rid =
     bindR (py_dict (dget_or payload ''scope'' (PDict []))) (\<lambda>scope.
     Inr \<lparr>q_request_id = rid, q_requester_did = the_str (dget payload ''requester_did''),
          q_capabilities = (case dget payload ''capabilities'' of Some (PList cs) \<Rightarrow> cs | _ \<Rightarrow> []),
          q_reason = py_str (dget_or payload ''reason'' (PStr [])), q_scope = scope, q_status = Pending, q_cap_token = None,
          q_decided_by_did = [], q_decided_at_ms = 0\<rparr>)"

definition cap_grant :: "nacl \<Rightarrow> int \<Rightarrow> pydict \<Rightarrow> cap_request_record \<Rightarrow> cap_request_record res" where
  "cap_grant n now payload rec = (case dget payload ''cap_token'' of
     Some (PDict token) \<Rightarrow>
       bindR (verify_cap_token n token now [] None [] []) (\<lambda>(tok_ok, _).
         if \<not> tok_ok \<or> \<not> py_eq (dget_or token ''subject_did'' PNone) (PStr (q_requester_did rec)) then Inr rec
         else bindR (py_int (dget_or payload ''decided_at_ms'' (PInt 0))) (\<lambda>t.
           Inr (rec\<lparr>q_status := Granted, q_cap_token := Some token,
                    q_decided_by_did := py_str (dget_or payload ''decided_by_did'' (PStr [])), q_decided_at_ms := t\<rparr>)))
   | _ \<Rightarrow> Inr rec)"

definition cap_deny :: "pydict \<Rightarrow> cap_request_record \<Rightarrow> cap_request_record res" where
  "cap_deny payload rec =
     bindR (py_int (dget_or payload ''decided_at_ms'' (PInt 0))) (\<lambda>t.
       let why = py_str (dget_or payload ''reason'' (PStr [])) in
       Inr (rec\<lparr>q_status := Denied, q_decided_by_did := py_str (dget_or payload ''decided_by_did'' (PStr [])), q_decided_at_ms := t,
                q_reason := (if why \<noteq> [] then why else q_reason rec)\<rparr>))"

definition cap_apply :: "nacl \<Rightarrow> int \<Rightarrow> spine_event \<Rightarrow> inbox \<Rightarrow> inbox res" where
  "cap_apply n now event st =
     (let payload = ev_payload event; rid = the_str (dget payload ''request_id'') in
      if ev_type event \<notin> cap_events then Inr st
      else if \<not> nonempty_str (dget payload ''request_id'') then Inr st
      else if ev_type event = ''cap.request''
      then (if fst (verify_cap_request n (PDict payload)) \<and> map_of st rid = None
            then bindR (cap_open payload rid) (\<lambda>r. Inr (st @ [(rid, r)]))
            else Inr st)
      else case map_of st rid of
        None \<Rightarrow> Inr st
      | Some rec \<Rightarrow>
          if q_status rec \<noteq> Pending then Inr st
          else bindR (if ev_type event = ''cap.grant'' then cap_grant n now payload rec else cap_deny payload rec)
                 (\<lambda>rec'. Inr (assoc_put rid rec' st)))"

definition pending :: "inbox \<Rightarrow> cap_request_record list" where
  "pending st = filter (\<lambda>r. q_status r = Pending) (map snd st)"

section \<open>One step of the inbox\<close>

text \<open>What a granted record must show: a token valid at some instant, issued to the requester.\<close>

definition grant_backed :: "nacl \<Rightarrow> cap_request_record \<Rightarrow> bool" where
  "grant_backed n r \<longleftrightarrow> q_status r = Granted \<longrightarrow>
     (\<exists>token now m. q_cap_token r = Some token \<and> dget token ''subject_did'' = Some (PStr (q_requester_did r))
        \<and> verify_cap_token n token now [] None [] [] = Inr (True, m))"

definition decided_later :: "cap_request_record \<Rightarrow> cap_request_record \<Rightarrow> bool" where
  "decided_later r r' \<longleftrightarrow> q_request_id r' = q_request_id r \<and> q_requester_did r' = q_requester_did r
     \<and> q_capabilities r' = q_capabilities r \<and> q_scope r' = q_scope r \<and> (q_status r \<noteq> Pending \<longrightarrow> r' = r)"

definition inbox_later :: "inbox \<Rightarrow> inbox \<Rightarrow> bool" where
  "inbox_later st st' \<longleftrightarrow> (\<forall>k r. map_of st k = Some r \<longrightarrow> (\<exists>r'. map_of st' k = Some r' \<and> decided_later r r'))"

definition inbox_inv :: "nacl \<Rightarrow> inbox \<Rightarrow> bool" where
  "inbox_inv n st \<longleftrightarrow> distinct (map fst st) \<and> (\<forall>k r. map_of st k = Some r \<longrightarrow> q_request_id r = k \<and> grant_backed n r)"

lemma decided_later_refl: "decided_later r r"
  by (simp add: decided_later_def)

lemma inbox_later_refl: "inbox_later st st"
  using decided_later_refl by (auto simp: inbox_later_def)

lemma inbox_later_trans: "inbox_later a b \<Longrightarrow> inbox_later b c \<Longrightarrow> inbox_later a c"
proof -
  assume "inbox_later a b" "inbox_later b c"
  moreover have "decided_later r s \<Longrightarrow> decided_later s t \<Longrightarrow> decided_later r t" for r s t by (auto simp: decided_later_def)
  ultimately show ?thesis unfolding inbox_later_def by meson
qed

lemma cap_grant_later:
  assumes "cap_grant n now payload r = Inr r'" "q_status r = Pending"
  shows "decided_later r r' \<and> grant_backed n r'"
  using assms
  by (auto simp: cap_grant_def res_iffs decided_later_def grant_backed_def dget_or_def
      split: option.splits pyval.splits if_splits) blast+

lemma cap_deny_later:
  assumes "cap_deny payload r = Inr r'" "q_status r = Pending"
  shows "decided_later r r' \<and> grant_backed n r'"
  using assms by (auto simp: cap_deny_def res_iffs Let_def decided_later_def grant_backed_def)

lemma cap_apply_cases:
  assumes "cap_apply n now e st = Inr st'"
  obtains "st' = st"
  | rid r where "st' = st @ [(rid, r)]" "map_of st rid = None" "q_request_id r = rid" "q_status r = Pending"
      "fst (verify_cap_request n (PDict (ev_payload e)))" "q_requester_did r = the_str (dget (ev_payload e) ''requester_did'')"
  | rid r r' where "st' = assoc_put rid r' st" "map_of st rid = Some r" "decided_later r r'" "grant_backed n r'"
proof -
  let ?p = "ev_payload e"
  let ?rid = "the_str (dget ?p ''request_id'')"
  note app = assms [unfolded cap_apply_def Let_def]
  consider "st' = st" | r where "cap_open ?p ?rid = Inr r" "st' = st @ [(?rid, r)]" "map_of st ?rid = None" "fst (verify_cap_request n (PDict ?p))"
    | r r' where "st' = assoc_put ?rid r' st" "map_of st ?rid = Some r" "q_status r = Pending"
        "cap_grant n now ?p r = Inr r' \<or> cap_deny ?p r = Inr r'"
    using app by (auto simp: bindR_Inr_iff split: if_splits option.splits)
  then show thesis
  proof cases
    case (2 r)
    then show ?thesis using that(2) [of ?rid r] by (auto simp: cap_open_def bindR_Inr_iff)
  next
    case (3 r r')
    then show ?thesis using that(3) cap_grant_later cap_deny_later by blast
  qed (rule that(1))
qed

lemma cap_apply_keeps:
  assumes "inbox_inv n st" "cap_apply n now e st = Inr st'"
  shows "inbox_inv n st' \<and> inbox_later st st'"
  using assms(2)
proof (cases rule: cap_apply_cases)
  case 1
  then show ?thesis using assms(1) inbox_later_refl by simp
next
  case (2 rid r)
  then show ?thesis using assms(1) decided_later_refl
    by (auto simp: inbox_inv_def inbox_later_def grant_backed_def map_of_eq_None_iff map_add_def split: if_splits option.splits)
next
  case (3 rid r r')
  then have "q_request_id r' = rid" using assms(1) by (simp add: inbox_inv_def decided_later_def)
  then have "inbox_inv n (assoc_put rid r' st)"
    using assms(1) 3(4) distinct_assoc_put by (auto simp: inbox_inv_def split: if_splits)
  moreover have "inbox_later st (assoc_put rid r' st)"
    using 3(2,3) decided_later_refl by (auto simp: inbox_later_def)
  ultimately show ?thesis using 3(1) by simp
qed

interpretation inbox: projection "\<lambda>_ e. cap_apply n (clock e) e" cap_events "inbox_inv n" inbox_later for n clock
proof unfold_locales
  fix e m st
  show "ev_type e \<notin> cap_events \<Longrightarrow> cap_apply n (clock e) e st = Inr st" by (simp add: cap_apply_def)
next
  fix st m e st'
  show "inbox_inv n st \<Longrightarrow> cap_apply n (clock e) e st = Inr st' \<Longrightarrow> inbox_inv n st' \<and> inbox_later st st'"
    by (rule cap_apply_keeps)
qed (fact inbox_later_refl, fact inbox_later_trans)

lemma inbox_inv_Nil: "inbox_inv n []"
  by (simp add: inbox_inv_def)

section \<open>Properties\<close>

text \<open>A request is decided once: whatever events follow, and at whatever instants they are checked, a
  request stays on file with its requester, capabilities and scope, and after a grant or a
  denial its record does not change at all.\<close>

lemma cap_request_decided_once:
  assumes "replay (\<lambda>e. cap_apply n (clock e) e) es [] = Inr st" "replay (\<lambda>e. cap_apply n (clock' e) e) fs st = Inr st'"
    "map_of st k = Some r"
  shows "\<exists>r'. map_of st' k = Some r' \<and> q_requester_did r' = q_requester_did r \<and> q_capabilities r' = q_capabilities r
     \<and> q_scope r' = q_scope r \<and> (q_status r \<noteq> Pending \<longrightarrow> r' = r)"
proof -
  have "inbox_inv n st" using inbox.replay_keeps [OF inbox_inv_Nil assms(1)] by blast
  then have "inbox_later st st'" using inbox.replay_keeps [OF _ assms(2)] by blast
  then show ?thesis using assms(3) by (auto simp: inbox_later_def decided_later_def)
qed

text \<open>A grant is backed by a token: a record that a replay shows as granted holds a capability token whose
  signature and validity window were checked, and whose subject is the DID that made the request.\<close>

lemma cap_grant_backed:
  assumes "replay (\<lambda>e. cap_apply n (clock e) e) es [] = Inr st" "map_of st k = Some r" "q_status r = Granted"
  shows "\<exists>token now m. q_cap_token r = Some token \<and> dget token ''subject_did'' = Some (PStr (q_requester_did r))
     \<and> verify_cap_token n token now [] None [] [] = Inr (True, m)"
proof -
  have "inbox_inv n st" using inbox.replay_keeps [OF inbox_inv_Nil assms(1)] by blast
  then show ?thesis using assms(2,3) by (auto simp: inbox_inv_def grant_backed_def)
qed

section \<open>A grant expires with its token\<close>

text \<open>The inbox forgets grants: the projection checks the token of a grant against the clock of the
  replay. The grant event turns the pending request into a granted one while the token is valid, but the same
  event, replayed after the token's time to live, leaves the request pending. The capabilities
  granted need not be the ones requested.\<close>

lemma expired_grant_replays_pending:
  assumes "ed25519_ok n" "signer_ok n i"
    "sign_cap_token n i (q_requester_did r) caps task dao models ttl tid fresh nonce t0 = Inr token"
    "map_of st rid = Some r" "q_status r = Pending" "rid \<noteq> []"
    "ev_type e = ''cap.grant''" "ev_payload e = grant_payload rid (q_requester_did r) caps token did t"
  shows "(t0 \<le> now \<and> now \<le> t0 + ttl \<longrightarrow> (\<exists>st' r'. cap_apply n now e st = Inr st' \<and> map_of st' rid = Some r' \<and> q_status r' = Granted \<and> q_cap_token r' = Some token))
    \<and> (t0 + ttl < now \<longrightarrow> (\<exists>st'. cap_apply n now e st = Inr st' \<and> map_of st' rid = Some r))"
proof -
  note f = issued_token_fields [OF assms(1-3)]
  have p: "dget (ev_payload e) ''request_id'' = Some (PStr rid)" "dget (ev_payload e) ''cap_token'' = Some (PDict token)"
    "dget (ev_payload e) ''decided_at_ms'' = Some (PInt t)"
    by (simp_all add: assms(8) grant_payload_def obj_def)
  have app: "cap_apply n now e st = bindR (cap_grant n now (ev_payload e) r) (\<lambda>r'. Inr (assoc_put rid r' st))"
    using assms(4-7) p by (simp add: cap_apply_def cap_events_def nonempty_str_def)
  have "verify_cap_token n token now [] None [] [] = Inr (True, [])" if "t0 \<le> now" "now \<le> t0 + ttl"
    using that by (intro issued_token_accepted [OF assms(1-3)]) simp_all
  moreover have "verify_cap_token n token now [] None [] [] = Inr (False, ''expired'')" if "t0 + ttl < now"
    using issued_token_expired [OF assms(1-3) that] by blast
  ultimately show ?thesis using f p by (auto simp: app cap_grant_def dget_or_def py_int_def)
qed

section \<open>A concrete request\<close>

definition demo_request_body :: pydict where
  "demo_request_body = obj
     [(''kind'', PStr cap_request_kind), (''request_id'', PStr ''r1''), (''requester_did'', PStr (projr (as_did (demo_identity 2)))),
      (''capabilities'', PList [PStr ''read'']), (''reason'', PStr []), (''scope'', PDict []), (''issued_at_ms'', PInt 5)]"

definition demo_request :: pydict where
  "demo_request = projr (sign_statement demo_nacl (demo_identity 2) demo_request_body)"

definition demo_inbox_event :: "string \<Rightarrow> pydict \<Rightarrow> spine_event" where
  "demo_inbox_event ty payload = \<lparr>ev_seq = 0, ev_prev_hash = genesis_prev, ev_type = ty, ev_payload = payload,
     ev_author_did = [], ev_ts_ms = 1, ev_content_hash = [], ev_sig = []\<rparr>"

definition demo_pending :: cap_request_record where
  "demo_pending = \<lparr>q_request_id = ''r1'', q_requester_did = projr (as_did (demo_identity 2)), q_capabilities = [PStr ''read''], q_reason = [],
     q_scope = [], q_status = Pending, q_cap_token = None, q_decided_by_did = [], q_decided_at_ms = 0\<rparr>"

definition demo_granted :: cap_request_record where
  "demo_granted = demo_pending\<lparr>q_status := Granted, q_cap_token := Some demo_token, q_decided_by_did := ''op'', q_decided_at_ms := 50\<rparr>"

definition demo_grant_event :: spine_event where
  "demo_grant_event = demo_inbox_event ''cap.grant'' (grant_payload ''r1'' (projr (as_did (demo_identity 2))) [''read''] demo_token ''op'' 50)"

lemma demo_request_replay: "replay (\<lambda>e. cap_apply demo_nacl 50 e) [demo_inbox_event ''cap.request'' demo_request] [] = Inr [(''r1'', demo_pending)]"
proof -
  obtain did where d: "as_did (demo_identity 2) = Inr did" "did \<noteq> []"
    using signer_did [OF demo_nacl_ok demo_signer] by (metis decode_did_iff did_length_pos)
  have "wf_json (PDict (signing_body demo_request_body))"
    by (simp add: demo_request_body_def obj_def signing_body_def without_key_def is_str_def)
  then have s: "sign_statement demo_nacl (demo_identity 2) demo_request_body = Inr demo_request"
    using sign_statement_total [OF demo_nacl_ok demo_signer, of demo_request_body 2] by (auto simp: demo_request_def)
  have b: "dget demo_request_body ''requester_did'' = Some (PStr did)" by (simp add: demo_request_body_def obj_def d)
  note f = sign_statement_signature [OF demo_nacl_ok demo_signer d(1) b _ s]
  have g: "dget demo_request ''kind'' = Some (PStr cap_request_kind)" "dget demo_request ''request_id'' = Some (PStr ''r1'')"
    "dget demo_request ''requester_did'' = Some (PStr did)" "dget demo_request ''capabilities'' = Some (PList [PStr ''read''])"
    "dget demo_request ''reason'' = Some (PStr [])" "dget demo_request ''scope'' = Some (PDict [])"
    using f(2) [of "''kind''"] f(2) [of "''request_id''"] f(2) [of "''requester_did''"] f(2) [of "''capabilities''"] f(2) [of "''reason''"]
      f(2) [of "''scope''"] d
    by (simp_all add: demo_request_body_def obj_def)
  have "cap_request_shape demo_request = None"
    using g f(3) d by (simp add: cap_request_shape_def caps_field_ok_def nonempty_str_def)
  then have "verify_cap_request demo_nacl (PDict demo_request) = (True, ''ok'')"
    using request_stmt.signed_accepted [OF demo_nacl_ok demo_signer d(1) b s] by blast
  then show ?thesis using g d
    by (simp add: cap_apply_def demo_inbox_event_def cap_events_def cap_open_def nonempty_str_def dget_or_def demo_pending_def py_dict_def Let_def)
qed

lemma demo_grant_step: "cap_apply demo_nacl 50 demo_grant_event [(''r1'', demo_pending)] = Inr [(''r1'', demo_granted)]"
proof -
  have "verify_cap_token demo_nacl demo_token 50 [] None [] [] = Inr (True, [])"
    by (rule issued_token_accepted [OF demo_nacl_ok demo_signer demo_token_issued]) simp_all
  then show ?thesis using issued_token_fields(2) [OF demo_nacl_ok demo_signer demo_token_issued]
    by (simp add: cap_apply_def demo_grant_event_def demo_inbox_event_def cap_events_def grant_payload_def obj_def nonempty_str_def cap_grant_def
        dget_or_def py_int_def demo_granted_def demo_pending_def Let_def)
qed

lemma demo_grant_replay:
  "replay (\<lambda>e. cap_apply demo_nacl 50 e) [demo_inbox_event ''cap.request'' demo_request, demo_grant_event] [] = Inr [(''r1'', demo_granted)]"
proof -
  have "cap_apply demo_nacl 50 (demo_inbox_event ''cap.request'' demo_request) [] = Inr [(''r1'', demo_pending)]"
    using demo_request_replay by (cases "cap_apply demo_nacl 50 (demo_inbox_event ''cap.request'' demo_request) []") auto
  then show ?thesis using demo_grant_step by simp
qed

lemma cap_request_decided_once_demo:
  "\<exists>r'. map_of [(''r1'', demo_granted)] ''r1'' = Some r' \<and> q_requester_did r' = q_requester_did demo_pending
     \<and> q_capabilities r' = q_capabilities demo_pending
     \<and> q_scope r' = q_scope demo_pending \<and> (q_status demo_pending \<noteq> Pending \<longrightarrow> r' = demo_pending)"
  by (rule cap_request_decided_once [OF demo_request_replay, where fs = "[demo_grant_event]" and clock' = "\<lambda>_. 50"])
     (simp_all add: demo_grant_step)

lemma cap_grant_backed_demo:
  "\<exists>token now m. q_cap_token demo_granted = Some token \<and> dget token ''subject_did'' = Some (PStr (q_requester_did demo_granted))
     \<and> verify_cap_token demo_nacl token now [] None [] [] = Inr (True, m)"
  by (rule cap_grant_backed [OF demo_grant_replay, of "''r1''"]) (simp_all add: demo_granted_def)

lemma expired_grant_replays_pending_demo:
  "\<exists>st'. cap_apply demo_nacl 200 demo_grant_event [(''r1'', demo_pending)] = Inr st' \<and> map_of st' ''r1'' = Some demo_pending"
proof -
  have "sign_cap_token demo_nacl (demo_identity 1) (q_requester_did demo_pending) [''read''] [] [] None 100 ''t1'' [] ''00'' 10 = Inr demo_token"
    using demo_token_issued by (simp add: demo_pending_def)
  moreover have "ev_payload demo_grant_event = grant_payload ''r1'' (q_requester_did demo_pending) [''read''] demo_token ''op'' 50"
    by (simp add: demo_grant_event_def demo_inbox_event_def demo_pending_def)
  ultimately show ?thesis
    using expired_grant_replays_pending [OF demo_nacl_ok demo_signer, of _ demo_pending "[''read'']" "[]" "[]" None 100 "''t1''" "[]" "''00''" 10
        demo_token "[(''r1'', demo_pending)]" "''r1''" demo_grant_event "''op''" 50 200]
    by (simp add: demo_pending_def demo_grant_event_def demo_inbox_event_def)
qed

end
