(* ===== verification/Mission.thy ===== *)
theory Mission
  imports Py_Value
begin

text \<open>
  \<open>nth_dao/orchestration/mission.py\<close>: missions and their steps, the acceptance rules and which steps
  an agent may take. The status strings are datatypes; a step's \<open>output\<close> and the values of the
  acceptance rules are arbitrary values, as in the code, so a rule of the wrong type raises.
  The regular-expression engine is a parameter: compiling a pattern gives an error text or a search
  function. Timestamps are texts handed in by the caller.
\<close>

section \<open>Acceptance rules\<close>

type_synonym regex_engine = "string \<Rightarrow> string + (string \<Rightarrow> bool)"

definition regex_pattern_max :: nat where
  "regex_pattern_max = 1024"

definition regex_content_max :: nat where
  "regex_content_max = 65536"

definition check_required_keys :: "pyval \<Rightarrow> pydict \<Rightarrow> string \<Rightarrow> string option res" where
  "check_required_keys rule_value output content =
     bindR (py_set rule_value) (\<lambda>ks.
       let missing = filter (\<lambda>k. \<not> list_ex (\<lambda>(k', v). py_eq k k') output) ks in
       Inr (if missing \<noteq> [] then Some (''output missing required_keys: '' @ py_repr (PList missing)) else None))"

definition check_min_length :: "pyval \<Rightarrow> pydict \<Rightarrow> string \<Rightarrow> string option res" where
  "check_min_length rule_value output content =
     bindR (int_below (int (length content)) rule_value) (\<lambda>short.
       Inr (if short then Some (''content length '' @ nat_str (length content) @ '' < min_length '' @ py_str rule_value) else None))"

text \<open>\<open>s in content\<close>, which raises unless \<open>s\<close> is a string.\<close>

fun occurring :: "string \<Rightarrow> pyval list \<Rightarrow> (pyval \<times> bool) list res" where
  "occurring content [] = Inr []"
| "occurring content (v # vs) = (case v of
     PStr s \<Rightarrow> bindR (occurring content vs) (\<lambda>out. Inr ((v, contains content s) # out))
   | _ \<Rightarrow> raise TypeError (''in <string> requires string as left operand, not '' @ type_name v))"

definition check_must_contain :: "pyval \<Rightarrow> pydict \<Rightarrow> string \<Rightarrow> string option res" where
  "check_must_contain rule_value output content =
     bindR (bindR (py_iter rule_value) (occurring content)) (\<lambda>found.
       let missing = map fst (filter (\<lambda>(s, b). \<not> b) found) in
       Inr (if missing \<noteq> [] then Some (''content missing must_contain tokens: '' @ py_repr (PList missing)) else None))"

definition check_forbidden :: "pyval \<Rightarrow> pydict \<Rightarrow> string \<Rightarrow> string option res" where
  "check_forbidden rule_value output content =
     bindR (bindR (py_iter rule_value) (occurring content)) (\<lambda>found.
       let present = map fst (filter (\<lambda>(s, b). b) found) in
       Inr (if present \<noteq> [] then Some (''content contains forbidden tokens: '' @ py_repr (PList present)) else None))"

definition check_regex :: "regex_engine \<Rightarrow> pyval \<Rightarrow> pydict \<Rightarrow> string \<Rightarrow> string option res" where
  "check_regex re rule_value output content = (case rule_value of
     PStr pattern \<Rightarrow>
       if regex_pattern_max < length pattern
       then Inr (Some (''regex pattern exceeds 1024-char cap (got '' @ nat_str (length pattern)
              @ ''); this is a security cap, see MissionStep.evaluate docstring''))
       else (case re pattern of
          Inl m \<Rightarrow> Inr (Some (''regex compile failed: '' @ m))
        | Inr search \<Rightarrow>
            if \<not> search (take regex_content_max content) then Inr (Some (''content does not match regex '' @ str_repr pattern))
            else Inr None)
   | _ \<Rightarrow> Inr (Some (''regex rule must be a string, got '' @ type_name rule_value)))"

definition check_max_tokens :: "pyval \<Rightarrow> pydict \<Rightarrow> string \<Rightarrow> string option res" where
  "check_max_tokens rule_value output content =
     (let raw_used = dget_or output ''tokens_used'' (PInt 0) in
      case py_int raw_used of
        Inl e \<Rightarrow>
          if exn_cls e = TypeError \<or> is_value_error e
          then Inr (Some (''tokens_used field is not numeric: '' @ py_repr raw_used
                 @ '' (expected int / castable when max_tokens rule is set)''))
          else Inl e
      | Inr used \<Rightarrow> bindR (int_above used rule_value) (\<lambda>over.
          Inr (if over then Some (''tokens_used '' @ int_str used @ '' > max_tokens '' @ py_str rule_value) else None)))"

definition acceptance_rule_registry :: "regex_engine \<Rightarrow> (string \<times> (pyval \<Rightarrow> pydict \<Rightarrow> string \<Rightarrow> string option res)) list" where
  "acceptance_rule_registry re =
     [(''required_keys'', check_required_keys), (''min_length'', check_min_length), (''must_contain'', check_must_contain),
      (''forbidden'', check_forbidden), (''regex'', check_regex re), (''max_tokens'', check_max_tokens)]"

section \<open>Steps and missions\<close>

datatype mission_status = MPlanning | MActive | MPaused | MCompleted | MFailed | MCancelled

datatype step_status = Todo | Claimed | Active | Done | NeedsReview | Failed | HandedOff | Blocked

fun step_status_value :: "step_status \<Rightarrow> string" where
  "step_status_value Todo = ''todo''"
| "step_status_value Claimed = ''claimed''"
| "step_status_value Active = ''active''"
| "step_status_value Done = ''done''"
| "step_status_value NeedsReview = ''needs_review''"
| "step_status_value Failed = ''failed''"
| "step_status_value HandedOff = ''handed_off''"
| "step_status_value Blocked = ''blocked''"

record mission_step =
  s_id :: string
  s_description :: string
  s_status :: step_status
  s_required_capabilities :: "string list"
  s_required_platform :: "string list"
  s_required_runtime :: "string list"
  s_inputs :: pydict
  s_output :: pyval
  s_acceptance_criteria :: "pydict option"
  s_review_trail :: "pydict list"
  s_depends_on :: "string list"
  s_assignee :: "string option"
  s_previous_assignees :: "string list"
  s_created_at :: string
  s_updated_at :: string
  s_completed_at :: "string option"
  s_notes :: "string list"

record mission =
  m_id :: string
  m_title :: string
  m_goal :: string
  m_status :: mission_status
  m_owner :: string
  m_scope :: string
  m_steps :: "mission_step list"
  m_deadline :: "string option"
  m_priority :: string
  m_tags :: "string list"
  m_metadata :: pydict
  m_template_id :: "string option"
  m_template_version :: "string option"
  m_template_lock :: pydict
  m_owner_did :: string
  m_legal_jurisdiction :: string
  m_governing_arbiter :: string
  m_credentials_required :: "string list"
  m_created_at :: string
  m_updated_at :: string
  m_completed_at :: "string option"

definition add_note :: "string \<Rightarrow> string \<Rightarrow> string \<Rightarrow> mission_step \<Rightarrow> mission_step" where
  "add_note note author now s =
     s\<lparr>s_notes := s_notes s @ [''['' @ take 19 now @ ''] '' @ author @ '': '' @ note], s_updated_at := now\<rparr>"

definition can_start :: "mission_step \<Rightarrow> string list \<Rightarrow> bool" where
  "can_start s completed_step_ids \<longleftrightarrow> set (s_depends_on s) \<subseteq> set completed_step_ids"

definition step_is_terminal :: "mission_step \<Rightarrow> bool" where
  "step_is_terminal s \<longleftrightarrow> s_status s \<in> {Done, Failed, HandedOff}"

definition step_is_open :: "mission_step \<Rightarrow> bool" where
  "step_is_open s \<longleftrightarrow> s_status s \<in> {Todo, HandedOff, Blocked, NeedsReview}"

fun run_rules :: "(string \<times> (pyval \<Rightarrow> pydict \<Rightarrow> string \<Rightarrow> string option res)) list \<Rightarrow> pydict \<Rightarrow> pydict \<Rightarrow> string \<Rightarrow> string list res" where
  "run_rules [] rules output content = Inr []"
| "run_rules ((rule_name, checker) # registry) rules output content = (case dget rules rule_name of
     None \<Rightarrow> run_rules registry rules output content
   | Some rule_value \<Rightarrow>
       bindR (checker rule_value output content) (\<lambda>fragment.
       bindR (run_rules registry rules output content) (\<lambda>failures.
         Inr (case fragment of None \<Rightarrow> failures | Some f \<Rightarrow> f # failures))))"

definition output_content :: "pydict \<Rightarrow> string" where
  "output_content output = (case dget output ''content'' of Some v \<Rightarrow> py_str v | None \<Rightarrow> [])"

definition evaluate :: "regex_engine \<Rightarrow> mission_step \<Rightarrow> pyval \<Rightarrow> (bool \<times> string) res" where
  "evaluate re s output = (case s_acceptance_criteria s of
     None \<Rightarrow> Inr (True, [])
   | Some rules \<Rightarrow> (case output of
       PDict out \<Rightarrow>
         bindR (run_rules (acceptance_rule_registry re) rules out (output_content out)) (\<lambda>failures.
           Inr (if failures \<noteq> [] then (False, join ''; '' failures) else (True, ''ok'')))
     | _ \<Rightarrow> Inr (False, ''output must be a dict when acceptance_criteria is set'')))"

record step_spec =
  sp_id :: "string option"
  sp_description :: "string option"
  sp_required_capabilities :: "string list option"
  sp_required_platform :: "string list option"
  sp_required_runtime :: "string list option"
  sp_depends_on :: "string list option"
  sp_inputs :: "pydict option"
  sp_acceptance_criteria :: "pydict option"

definition opt_or :: "'a option \<Rightarrow> 'a \<Rightarrow> 'a" where
  "opt_or v d = (case v of None \<Rightarrow> d | Some x \<Rightarrow> x)"

definition new_step :: "step_spec \<Rightarrow> string \<Rightarrow> string \<Rightarrow> mission_step res" where
  "new_step sp fresh now = (case sp_description sp of
     None \<Rightarrow> raise KeyError ''description''
   | Some d \<Rightarrow> Inr \<lparr>s_id = (if opt_or (sp_id sp) [] \<noteq> [] then opt_or (sp_id sp) [] else fresh), s_description = d, s_status = Todo,
       s_required_capabilities = opt_or (sp_required_capabilities sp) [], s_required_platform = opt_or (sp_required_platform sp) [],
       s_required_runtime = opt_or (sp_required_runtime sp) [], s_inputs = opt_or (sp_inputs sp) [], s_output = PNone,
       s_acceptance_criteria = sp_acceptance_criteria sp, s_review_trail = [], s_depends_on = opt_or (sp_depends_on sp) [],
       s_assignee = None, s_previous_assignees = [], s_created_at = now, s_updated_at = now, s_completed_at = None, s_notes = []\<rparr>)"

fun new_steps :: "step_spec list \<Rightarrow> string list \<Rightarrow> string \<Rightarrow> mission_step list res" where
  "new_steps [] fresh now = Inr []"
| "new_steps (sp # sps) fresh now =
     bindR (new_step sp (case fresh of [] \<Rightarrow> [] | f # _ \<Rightarrow> f) now) (\<lambda>s. bindR (new_steps sps (tl fresh) now) (\<lambda>ss. Inr (s # ss)))"

definition mission_new :: "string \<Rightarrow> string \<Rightarrow> string \<Rightarrow> string \<Rightarrow> step_spec list \<Rightarrow> string option \<Rightarrow> string \<Rightarrow> string list
    \<Rightarrow> string \<Rightarrow> string list \<Rightarrow> string \<Rightarrow> mission res" where
  "mission_new title goal owner scope specs deadline priority tags fresh_id fresh_step_ids now =
     bindR (new_steps specs fresh_step_ids now) (\<lambda>ss.
     Inr \<lparr>m_id = take 12 fresh_id, m_title = title, m_goal = goal, m_status = MPlanning, m_owner = owner, m_scope = scope, m_steps = ss,
          m_deadline = deadline, m_priority = priority, m_tags = tags, m_metadata = [], m_template_id = None, m_template_version = None,
          m_template_lock = [], m_owner_did = [], m_legal_jurisdiction = [], m_governing_arbiter = [], m_credentials_required = [],
          m_created_at = now, m_updated_at = now, m_completed_at = None\<rparr>)"

fun find_step :: "string \<Rightarrow> mission_step list \<Rightarrow> mission_step option" where
  "find_step sid [] = None"
| "find_step sid (s # ss) = (if s_id s = sid then Some s else find_step sid ss)"

definition get_step :: "mission \<Rightarrow> string \<Rightarrow> mission_step option" where
  "get_step m sid = find_step sid (m_steps m)"

text \<open>Assigning to the fields of the object that \<open>get_step\<close> returned: the first step with that id changes.\<close>

fun put_step :: "string \<Rightarrow> mission_step \<Rightarrow> mission_step list \<Rightarrow> mission_step list" where
  "put_step sid s' [] = []"
| "put_step sid s' (s # ss) = (if s_id s = sid then s' # ss else s # put_step sid s' ss)"

definition completed_step_ids :: "mission \<Rightarrow> string list" where
  "completed_step_ids m = map s_id (filter (\<lambda>s. s_status s = Done) (m_steps m))"

definition offered :: "string list option \<Rightarrow> string option \<Rightarrow> string option \<Rightarrow> string list \<Rightarrow> mission_step \<Rightarrow> bool" where
  "offered caps platform runtime done_ids s \<longleftrightarrow>
     step_is_open s \<and> can_start s done_ids
     \<and> \<not> (caps \<noteq> None \<and> s_required_capabilities s \<noteq> [] \<and> \<not> set (s_required_capabilities s) \<subseteq> set (the caps))
     \<and> \<not> (platform \<noteq> None \<and> s_required_platform s \<noteq> [] \<and> py_lower (the platform) \<notin> set (map py_lower (s_required_platform s)))
     \<and> \<not> (runtime \<noteq> None \<and> s_required_runtime s \<noteq> [] \<and> py_lower (the runtime) \<notin> set (map py_lower (s_required_runtime s)))"

definition next_actionable :: "mission \<Rightarrow> string list option \<Rightarrow> string option \<Rightarrow> string option \<Rightarrow> mission_step list" where
  "next_actionable m caps platform runtime = filter (offered caps platform runtime (completed_step_ids m)) (m_steps m)"

definition is_finished :: "mission \<Rightarrow> bool" where
  "is_finished m \<longleftrightarrow> m_steps m \<noteq> [] \<and> list_all (\<lambda>s. s_status s \<in> {Done, HandedOff}) (m_steps m)"

definition mission_is_dead :: "mission \<Rightarrow> bool" where
  "mission_is_dead m \<longleftrightarrow> list_ex (\<lambda>s. s_status s = Failed) (m_steps m) \<and> next_actionable m None None None = []"

section \<open>Steps by id\<close>

lemma find_step_id: "find_step sid ss = Some s \<Longrightarrow> s_id s = sid \<and> s \<in> set ss"
  by (induction ss) (auto split: if_splits)

lemma find_put_step: "find_step sid ss = Some s \<Longrightarrow> s_id s' = sid \<Longrightarrow> find_step q (put_step sid s' ss) = (if q = sid then Some s' else find_step q ss)"
  by (induction ss) (auto split: if_splits)

lemma put_step_ids: "s_id s' = sid \<Longrightarrow> map s_id (put_step sid s' ss) = map s_id ss"
  by (induction ss) auto

lemma set_put_step: "find_step sid ss = Some s \<Longrightarrow> x \<in> set (put_step sid s' ss) \<Longrightarrow> x = s' \<or> x \<in> set ss"
  by (induction ss) (auto split: if_splits)

section \<open>What evaluation decides\<close>

text \<open>The specification: the failures of the rules the criteria name, in the registry's order, and whether any of them raises.\<close>

definition rule_failures :: "(string \<times> (pyval \<Rightarrow> pydict \<Rightarrow> string \<Rightarrow> string option res)) list \<Rightarrow> pydict \<Rightarrow> pydict \<Rightarrow> string list" where
  "rule_failures registry rules out =
     List.map_filter (\<lambda>(name, checker). Option.bind (dget rules name)
       (\<lambda>v. case checker v out (output_content out) of Inr fr \<Rightarrow> fr | Inl _ \<Rightarrow> None)) registry"

definition rule_raises :: "(string \<times> (pyval \<Rightarrow> pydict \<Rightarrow> string \<Rightarrow> string option res)) list \<Rightarrow> pydict \<Rightarrow> pydict \<Rightarrow> bool" where
  "rule_raises registry rules out =
     list_ex (\<lambda>(name, checker). case dget rules name of None \<Rightarrow> False | Some v \<Rightarrow> isl (checker v out (output_content out))) registry"

lemma run_rules_iff:
  "run_rules registry rules out (output_content out) = Inr failures \<longleftrightarrow> \<not> rule_raises registry rules out \<and> failures = rule_failures registry rules out"
proof (induction registry arbitrary: failures)
  case Nil
  then show ?case by (auto simp: rule_raises_def rule_failures_def List.map_filter_def)
next
  case (Cons r registry)
  obtain name checker where r: "r = (name, checker)" by (cases r)
  show ?case
  proof (cases "dget rules name")
    case None
    then show ?thesis using Cons by (simp add: r rule_raises_def rule_failures_def List.map_filter_simps)
  next
    case (Some v)
    then show ?thesis using Cons
      by (cases "checker v out (output_content out)")
        (auto simp: r rule_raises_def rule_failures_def List.map_filter_simps bindR_Inr_iff split: option.splits)
  qed
qed

text \<open>Acceptance is the conjunction of the rules: with criteria set and a dict as output, evaluation
  gives a verdict exactly when no named rule raises; it accepts when no named rule reports a
  failure, and otherwise its reason lists the failures of all failing rules in the registry's order.\<close>

lemma evaluate_outcome:
  assumes "s_acceptance_criteria s = Some rules"
  shows "evaluate re s (PDict out) = Inr (ok, m) \<longleftrightarrow> \<not> rule_raises (acceptance_rule_registry re) rules out
     \<and> (let fs = rule_failures (acceptance_rule_registry re) rules out in
        ok = (fs = []) \<and> m = (if fs = [] then ''ok'' else join ''; '' fs))"
  using assms by (auto simp: evaluate_def bindR_Inr_iff run_rules_iff Let_def)

lemma evaluate_outcome_demo:
  "evaluate (\<lambda>_. Inl []) (\<lparr>s_id = ''s'', s_description = [], s_status = Active, s_required_capabilities = [], s_required_platform = [],
      s_required_runtime = [], s_inputs = [], s_output = PNone, s_acceptance_criteria = Some [(PStr ''min_length'', PInt 5)], s_review_trail = [],
      s_depends_on = [], s_assignee = None, s_previous_assignees = [], s_created_at = [], s_updated_at = [], s_completed_at = None, s_notes = []\<rparr>)
      (PDict [(PStr ''content'', PStr ''abc'')]) = Inr (False, ''content length 3 < min_length 5'')"
  by (subst evaluate_outcome) (simp, code_simp)

section \<open>What is offered\<close>

text \<open>A step is offered only when it is ready: every step \<open>next_actionable\<close> returns belongs to the mission, is
  open, has all its dependencies done, and asks for no capability, platform or runtime the agent lacks;
  and every such step is returned.\<close>

lemma next_actionable_iff:
  "s \<in> set (next_actionable m (Some caps) platform runtime) \<longleftrightarrow>
     s \<in> set (m_steps m) \<and> step_is_open s
     \<and> set (s_depends_on s) \<subseteq> s_id ` {t \<in> set (m_steps m). s_status t = Done}
     \<and> set (s_required_capabilities s) \<subseteq> set caps
     \<and> (case platform of Some p \<Rightarrow> s_required_platform s = [] \<or> (\<exists>q \<in> set (s_required_platform s). py_lower q = py_lower p) | None \<Rightarrow> True)
     \<and> (case runtime of Some p \<Rightarrow> s_required_runtime s = [] \<or> (\<exists>q \<in> set (s_required_runtime s). py_lower q = py_lower p) | None \<Rightarrow> True)"
proof -
  have dep: "can_start s (completed_step_ids m) \<longleftrightarrow> set (s_depends_on s) \<subseteq> s_id ` {t \<in> set (m_steps m). s_status t = Done}"
    by (simp add: can_start_def completed_step_ids_def)
  have low: "py_lower p \<in> set (map py_lower xs) \<longleftrightarrow> (\<exists>q \<in> set xs. py_lower q = py_lower p)" for p xs
    by (simp add: image_iff) metis
  show ?thesis
    unfolding next_actionable_def offered_def set_filter mem_Collect_eq dep low
    by (cases platform; cases runtime) auto
qed

end
