(* ===== verification/Mission_Store.thy ===== *)
theory Mission_Store
  imports Mission
begin

text \<open>
  \<open>nth_dao/orchestration/mission_store.py\<close>: the mission files of one directory and the archive below it.
  A file name comes from the mission's id through \<open>safe_id\<close>, so two ids may share a file. Each
  operation runs under the thread and file locks of its mission and is one step here; the documents
  are the mission records themselves, and the instant is an argument.
\<close>

section \<open>The directory\<close>

record mission_store =
  ms_files :: "(string \<times> mission) list"
  ms_archive :: "((string \<times> string) \<times> mission) list"

definition mission_path :: "string \<Rightarrow> string" where
  "mission_path mid = safe_id mid @ ''.json''"

definition save_unlocked :: "mission \<Rightarrow> string \<Rightarrow> mission_store \<Rightarrow> mission_store" where
  "save_unlocked m now st = st\<lparr>ms_files := assoc_put (mission_path (m_id m)) (m\<lparr>m_updated_at := now\<rparr>) (ms_files st)\<rparr>"

definition store_save :: "mission \<Rightarrow> string \<Rightarrow> mission_store \<Rightarrow> mission_store" where
  "store_save m now st = save_unlocked m now st"

definition store_create :: "mission \<Rightarrow> string \<Rightarrow> mission_store \<Rightarrow> mission_store \<times> unit res" where
  "store_create m now st = (case map_of (ms_files st) (mission_path (m_id m)) of
     Some _ \<Rightarrow> (st, raise FileExistsError (''mission '' @ m_id m @ '' already exists''))
   | None \<Rightarrow> (save_unlocked m now st, Inr ()))"

definition store_delete :: "string \<Rightarrow> mission_store \<Rightarrow> mission_store \<times> bool" where
  "store_delete mid st = (case map_of (ms_files st) (mission_path mid) of
     None \<Rightarrow> (st, False)
   | Some _ \<Rightarrow> (st\<lparr>ms_files := filter (\<lambda>(p, m). p \<noteq> mission_path mid) (ms_files st)\<rparr>, True))"

definition store_get :: "mission_store \<Rightarrow> string \<Rightarrow> mission option" where
  "store_get st mid = map_of (ms_files st) (mission_path mid)"

definition list_all_missions :: "mission_store \<Rightarrow> mission list" where
  "list_all_missions st = map snd (sort_key fst (ms_files st))"

definition list_active :: "mission_store \<Rightarrow> mission list" where
  "list_active st = filter (\<lambda>m. m_status m \<in> {MActive, MPlanning}) (list_all_missions st)"

section \<open>Archive and history\<close>

text \<open>The texts \<open>a or b or c\<close> chooses from.\<close>

definition or_text :: "string option \<Rightarrow> string \<Rightarrow> string" where
  "or_text v d = (if opt_or v [] \<noteq> [] then opt_or v [] else d)"

definition ref_time :: "mission \<Rightarrow> string" where
  "ref_time m = or_text (m_completed_at m) (if m_updated_at m \<noteq> [] then m_updated_at m else m_created_at m)"

definition archive_month :: "string \<Rightarrow> string \<Rightarrow> string" where
  "archive_month ref now = (let w = (if ref \<noteq> [] then ref else now) in if 7 \<le> length w then take 7 w else take 7 now)"

text \<open>\<open>past cutoff\<close>: None when the text is not an ISO instant, else whether it is not after the cutoff.\<close>

fun archive_loop :: "(string \<Rightarrow> bool option) \<Rightarrow> string \<Rightarrow> mission list \<Rightarrow> mission_store \<Rightarrow> nat \<Rightarrow> mission_store \<times> nat" where
  "archive_loop past now [] st moved = (st, moved)"
| "archive_loop past now (m # ms) st moved =
     (let src = mission_path (m_id m) in
      if m_status m \<notin> {MCompleted, MFailed, MCancelled} \<or> past (ref_time m) \<noteq> Some True \<or> map_of (ms_files st) src = None
      then archive_loop past now ms st moved
      else archive_loop past now ms
             (st\<lparr>ms_files := filter (\<lambda>(p, x). p \<noteq> src) (ms_files st),
                 ms_archive := assoc_put (archive_month (ref_time m) now, src) m (ms_archive st)\<rparr>) (moved + 1))"

definition archive_completed :: "(string \<Rightarrow> bool option) \<Rightarrow> string \<Rightarrow> mission_store \<Rightarrow> mission_store \<times> nat" where
  "archive_completed past now st = archive_loop past now (list_all_missions st) st 0"

definition list_archive :: "mission_store \<Rightarrow> string option \<Rightarrow> mission list" where
  "list_archive st year_month =
     (let buckets = (if opt_or year_month [] \<noteq> [] then [opt_or year_month []] else sort (remdups (map (fst \<circ> fst) (ms_archive st)))) in
      concat (map (\<lambda>b. map snd (sort_key (snd \<circ> fst) (filter (\<lambda>(k, m). fst k = b) (ms_archive st)))) buckets))"

definition touched :: "string \<Rightarrow> mission \<Rightarrow> bool" where
  "touched agent_id m \<longleftrightarrow> m_owner m = agent_id
     \<or> list_ex (\<lambda>s. s_assignee s = Some agent_id \<or> agent_id \<in> set (s_previous_assignees s)) (m_steps m)"

definition history_key :: "mission \<Rightarrow> string" where
  "history_key m = or_text (m_completed_at m) ''9999-12-31''"

definition my_history :: "string \<Rightarrow> string \<Rightarrow> bool \<Rightarrow> nat \<Rightarrow> mission_store \<Rightarrow> mission list" where
  "my_history agent_id since include_archive limit st =
     (let sources = list_all_missions st @ (if include_archive then list_archive st None else []);
          out = filter (\<lambda>m. touched agent_id m \<and> \<not> (since \<noteq> [] \<and> ref_time m \<noteq> [] \<and> ref_time m < since)) sources;
          sorted = rev (sort_key history_key (rev out)) in
      if limit \<noteq> 0 then take limit sorted else sorted)"

definition list_for_agent :: "string \<Rightarrow> string list option \<Rightarrow> string option \<Rightarrow> string option \<Rightarrow> bool \<Rightarrow> mission_store \<Rightarrow> mission list" where
  "list_for_agent agent_id caps platform runtime include_team st =
     filter (\<lambda>m. m_owner m = agent_id \<or> list_ex (\<lambda>s. s_assignee s = Some agent_id) (m_steps m)
       \<or> (include_team \<and> m_scope m = ''shared'' \<and> next_actionable m caps platform runtime \<noteq> [])) (list_active st)"

definition store_get_step :: "mission_store \<Rightarrow> string \<Rightarrow> string \<Rightarrow> mission_step option" where
  "store_get_step st mid sid = (case store_get st mid of None \<Rightarrow> None | Some m \<Rightarrow> get_step m sid)"

section \<open>Updating a step\<close>

record step_update =
  u_status :: "step_status option"
  u_assignee :: "string option"
  u_output :: pyval
  u_note :: string
  u_note_author :: string
  u_expect_status :: "step_status option"
  u_expect_assignee_in :: "string list option"
  u_append_review_trail :: "pydict option"

definition no_update :: step_update where
  "no_update = \<lparr>u_status = None, u_assignee = None, u_output = PNone, u_note = [], u_note_author = ''system'',
     u_expect_status = None, u_expect_assignee_in = None, u_append_review_trail = None\<rparr>"

definition cas_conflict :: "string \<Rightarrow> step_update \<Rightarrow> mission_step \<Rightarrow> string option" where
  "cas_conflict sid u s =
     (if u_expect_status u \<noteq> None \<and> Some (s_status s) \<noteq> u_expect_status u
      then Some (''step '' @ sid @ '' expected status='' @ step_status_value (the (u_expect_status u)) @ '' but is '' @ step_status_value (s_status s))
      else if u_expect_assignee_in u \<noteq> None \<and> opt_or (s_assignee s) [] \<notin> set (the (u_expect_assignee_in u))
      then Some (''step '' @ sid @ '' expected assignee in '' @ strs_repr (the (u_expect_assignee_in u)) @ '' but is '' @ [CHR 0x27]
                 @ opt_or (s_assignee s) ''None'' @ [CHR 0x27])
      else None)"

definition apply_update :: "step_update \<Rightarrow> string \<Rightarrow> mission_step \<Rightarrow> mission_step" where
  "apply_update u now s0 =
     (let old = opt_or (s_assignee s0) [];
          new = opt_or (if u_assignee u \<noteq> None then u_assignee u else s_assignee s0) [];
          s1 = (if old \<noteq> [] \<and> new \<noteq> [] \<and> old \<noteq> new then s0\<lparr>s_previous_assignees := s_previous_assignees s0 @ [old]\<rparr> else s0);
          s2 = (case u_status u of None \<Rightarrow> s1 | Some x \<Rightarrow> (if x = Done then s1\<lparr>s_status := x, s_completed_at := Some now\<rparr> else s1\<lparr>s_status := x\<rparr>));
          s3 = (if u_assignee u \<noteq> None then s2\<lparr>s_assignee := u_assignee u\<rparr> else s2);
          s4 = (if u_output u \<noteq> PNone then s3\<lparr>s_output := u_output u\<rparr> else s3);
          s5 = (if u_note u \<noteq> [] then add_note (u_note u) (u_note_author u) now s4 else s4) in
      case u_append_review_trail u of None \<Rightarrow> s5 | Some e \<Rightarrow> s5\<lparr>s_review_trail := s_review_trail s5 @ [e]\<rparr>)"

definition mission_machine :: "string \<Rightarrow> mission \<Rightarrow> mission" where
  "mission_machine now m =
     (if is_finished m then m\<lparr>m_status := MCompleted, m_completed_at := Some now\<rparr>
      else if mission_is_dead m
      then m\<lparr>m_status := MFailed, m_completed_at := (if opt_or (m_completed_at m) [] = [] then Some now else m_completed_at m)\<rparr>
      else if m_status m = MPlanning \<and> list_ex (\<lambda>s. s_status s \<noteq> Todo) (m_steps m) then m\<lparr>m_status := MActive\<rparr>
      else m)"

definition update_step :: "string \<Rightarrow> string \<Rightarrow> step_update \<Rightarrow> string \<Rightarrow> mission_store \<Rightarrow> mission_store \<times> mission_step option res" where
  "update_step mid sid u now st = (case store_get st mid of
     None \<Rightarrow> (st, Inr None)
   | Some m \<Rightarrow> (case get_step m sid of
       None \<Rightarrow> (st, Inr None)
     | Some s \<Rightarrow> (case cas_conflict sid u s of
         Some why \<Rightarrow> (st, raise ClaimConflict why)
       | None \<Rightarrow>
           let s' = apply_update u now s in
           (save_unlocked (mission_machine now (m\<lparr>m_steps := put_step sid s' (m_steps m)\<rparr>)) now st, Inr (Some s')))))"

section \<open>Claiming a step\<close>

definition claim_conflict :: "string \<Rightarrow> string \<Rightarrow> string list option \<Rightarrow> mission_step \<Rightarrow> string option" where
  "claim_conflict sid agent_id caps s =
     (let owner = opt_or (s_assignee s) [] in
      if s_status s \<notin> {Todo, HandedOff, Blocked}
      then Some (''step '' @ sid @ '' not claimable (status='' @ step_status_value (s_status s) @ '')'')
      else if owner \<noteq> [] \<and> owner \<noteq> agent_id
      then Some (if s_status s = HandedOff then ''step '' @ sid @ '' handed off to '' @ owner @ '', not '' @ agent_id
                 else ''step '' @ sid @ '' already claimed by '' @ owner)
      else if s_required_capabilities s \<noteq> [] \<and> caps \<noteq> None \<and> \<not> set (s_required_capabilities s) \<subseteq> set (the caps)
      then Some (''step '' @ sid @ '' requires '' @ strs_repr (s_required_capabilities s) @ '', agent only has '' @ strs_repr (the caps))
      else None)"

definition claimed_step :: "string \<Rightarrow> string list option \<Rightarrow> string \<Rightarrow> mission_step \<Rightarrow> mission_step" where
  "claimed_step agent_id caps now s =
     (let old = opt_or (s_assignee s) [];
          s1 = (if old \<noteq> [] \<and> old \<noteq> agent_id then s\<lparr>s_previous_assignees := s_previous_assignees s @ [old]\<rparr> else s) in
      add_note (''claimed by '' @ agent_id @ '' (caps='' @ strs_repr (opt_or caps []) @ '')'') agent_id now
        (s1\<lparr>s_status := Active, s_assignee := Some agent_id\<rparr>))"

definition try_claim :: "string \<Rightarrow> string \<Rightarrow> string \<Rightarrow> string list option \<Rightarrow> string \<Rightarrow> mission_store \<Rightarrow> mission_store \<times> mission_step res" where
  "try_claim mid sid agent_id caps now st = (case store_get st mid of
     None \<Rightarrow> (st, raise MissionNotFound mid)
   | Some m \<Rightarrow> (case get_step m sid of
       None \<Rightarrow> (st, raise StepNotFound sid)
     | Some s \<Rightarrow> (case claim_conflict sid agent_id caps s of
         Some why \<Rightarrow> (st, raise ClaimConflict why)
       | None \<Rightarrow>
           let s' = claimed_step agent_id caps now s;
               m1 = m\<lparr>m_steps := put_step sid s' (m_steps m)\<rparr>;
               m2 = (if m_status m = MPlanning then m1\<lparr>m_status := MActive\<rparr> else m1) in
           (save_unlocked m2 now st, Inr s'))))"

section \<open>What a change of one step does to the directory\<close>

definition store_wf :: "mission_store \<Rightarrow> bool" where
  "store_wf st \<longleftrightarrow> distinct (map fst (ms_files st)) \<and> (\<forall>p m. map_of (ms_files st) p = Some m \<longrightarrow> mission_path (m_id m) = p)"

definition step_edit :: "string \<Rightarrow> string \<Rightarrow> mission_step \<Rightarrow> mission_step \<Rightarrow> mission_store \<Rightarrow> mission_store \<Rightarrow> bool" where
  "step_edit mid sid s s' st st' \<longleftrightarrow> s_id s' = sid \<and> (\<exists>m m' now. store_get st mid = Some m \<and> get_step m sid = Some s \<and> m_id m' = m_id m
     \<and> m_steps m' = put_step sid s' (m_steps m) \<and> st' = save_unlocked m' now st)"

lemma store_wf_path: "store_wf st \<Longrightarrow> store_get st mid = Some m \<Longrightarrow> mission_path (m_id m) = mission_path mid"
  by (auto simp: store_wf_def store_get_def)

lemma store_wf_save:
  assumes "store_wf st"
  shows "store_wf (save_unlocked m now st)"
  using assms distinct_assoc_put by (auto simp: store_wf_def save_unlocked_def split: if_splits)

lemma step_edit_wf: "store_wf st \<Longrightarrow> step_edit mid sid s s' st st' \<Longrightarrow> store_wf st'"
  using store_wf_save by (auto simp: step_edit_def)

lemma step_edit_before: "step_edit mid sid s s' st st' \<Longrightarrow> store_get_step st mid sid = Some s"
  by (auto simp: step_edit_def store_get_step_def)

lemma step_edit_after:
  assumes "store_wf st" "step_edit mid sid s s' st st'"
  shows "store_get_step st' q t = (if mission_path q = mission_path mid \<and> t = sid then Some s' else store_get_step st q t)"
proof -
  obtain m m' now where e: "s_id s' = sid" "store_get st mid = Some m" "get_step m sid = Some s" "m_id m' = m_id m"
    "m_steps m' = put_step sid s' (m_steps m)" "st' = save_unlocked m' now st"
    using assms(2) by (auto simp: step_edit_def)
  have p: "mission_path (m_id m) = mission_path mid" using store_wf_path assms(1) e(2) .
  have "store_get st' q = (if mission_path q = mission_path mid then Some (m'\<lparr>m_updated_at := now\<rparr>) else store_get st q)"
    by (simp add: e(4,6) p store_get_def save_unlocked_def)
  moreover have "find_step t (put_step sid s' (m_steps m)) = (if t = sid then Some s' else find_step t (m_steps m))"
    using find_put_step [OF _ e(1)] e(3) by (auto simp: get_step_def)
  moreover have "store_get st q = Some m" if "mission_path q = mission_path mid" using e(2) that by (simp add: store_get_def)
  ultimately show ?thesis by (auto simp: store_get_step_def get_step_def e(5))
qed

lemma apply_update_id [simp]: "s_id (apply_update u now s) = s_id s"
  by (simp add: apply_update_def Let_def add_note_def split: option.splits)

lemma mission_machine_keeps [simp]: "m_id (mission_machine now m) = m_id m" "m_steps (mission_machine now m) = m_steps m"
  by (simp_all add: mission_machine_def)

lemma get_step_id: "get_step m sid = Some s \<Longrightarrow> s_id s = sid"
  using find_step_id by (auto simp: get_step_def)

lemma update_step_cases:
  assumes "update_step mid sid u now st = (st', r)"
  obtains s where "r = Inr (Some (apply_update u now s))" "step_edit mid sid s (apply_update u now s) st st'" "cas_conflict sid u s = None"
  | s why where "r = raise ClaimConflict why" "st' = st" "store_get_step st mid sid = Some s" "cas_conflict sid u s = Some why"
  | "r = Inr None" "st' = st" "store_get_step st mid sid = None"
proof -
  note a = assms [unfolded update_step_def]
  show thesis
  proof (cases "store_get st mid")
    case None
    then show ?thesis using that(3) a by (simp add: store_get_step_def)
  next
    case m: (Some m)
    show ?thesis
    proof (cases "get_step m sid")
      case None
      then show ?thesis using that(3) a m by (simp add: store_get_step_def)
    next
      case s: (Some s)
      have id: "s_id (apply_update u now s) = sid" using get_step_id [OF s] by simp
      show ?thesis
      proof (cases "cas_conflict sid u s")
        case None
        let ?m = "mission_machine now (m\<lparr>m_steps := put_step sid (apply_update u now s) (m_steps m)\<rparr>)"
        have "m_id ?m = m_id m" "m_steps ?m = put_step sid (apply_update u now s) (m_steps m)" by simp_all
        then have "step_edit mid sid s (apply_update u now s) st (save_unlocked ?m now st)"
          unfolding step_edit_def using m s id by blast
        then show ?thesis using that(1) [of s] a m s None by (simp add: Let_def)
      next
        case (Some why)
        then show ?thesis using that(2) [of why s] a m s by (simp add: store_get_step_def)
      qed
    qed
  qed
qed

lemma claimed_step_simps [simp]:
  "s_id (claimed_step a caps now s) = s_id s" "s_status (claimed_step a caps now s) = Active" "s_assignee (claimed_step a caps now s) = Some a"
  by (simp_all add: claimed_step_def Let_def add_note_def)

lemma try_claim_cases:
  assumes "try_claim mid sid a caps now st = (st', r)"
  obtains s where "r = Inr (claimed_step a caps now s)" "step_edit mid sid s (claimed_step a caps now s) st st'" "claim_conflict sid a caps s = None"
  | s why where "r = raise ClaimConflict why" "st' = st" "store_get_step st mid sid = Some s" "claim_conflict sid a caps s = Some why"
  | "r = raise MissionNotFound mid \<or> r = raise StepNotFound sid" "st' = st" "store_get_step st mid sid = None"
proof -
  note a = assms [unfolded try_claim_def]
  show thesis
  proof (cases "store_get st mid")
    case None
    then show ?thesis using that(3) a by (simp add: store_get_step_def)
  next
    case m: (Some m)
    show ?thesis
    proof (cases "get_step m sid")
      case None
      then show ?thesis using that(3) a m by (simp add: store_get_step_def)
    next
      case s: (Some s)
      let ?s = "claimed_step a caps now s"
      have id: "s_id ?s = sid" using get_step_id [OF s] by simp
      show ?thesis
      proof (cases "claim_conflict sid a caps s")
        case None
        let ?m1 = "m\<lparr>m_steps := put_step sid ?s (m_steps m)\<rparr>"
        let ?m = "if m_status m = MPlanning then ?m1\<lparr>m_status := MActive\<rparr> else ?m1"
        have "m_id ?m = m_id m" "m_steps ?m = put_step sid ?s (m_steps m)" by simp_all
        then have "step_edit mid sid s ?s st (save_unlocked ?m now st)"
          unfolding step_edit_def using m s id by blast
        then show ?thesis using that(1) [of s] a m s None by (simp add: Let_def)
      next
        case (Some why)
        then show ?thesis using that(2) [of why s] a m s by (simp add: store_get_step_def)
      qed
    qed
  qed
qed

section \<open>Clients of the store\<close>

text \<open>A client sees the store as a table of steps changed by labelled operations, any of which
  changes a step only in the ways \<open>change\<close> allows. Relations on steps then carry over from single operations
  to interleavings of any length.\<close>

inductive trace_run :: "('lab \<Rightarrow> 'st \<Rightarrow> 'st \<Rightarrow> bool) \<Rightarrow> 'lab list \<Rightarrow> 'st \<Rightarrow> 'st \<Rightarrow> bool" for run1 where
  trace_none: "trace_run run1 [] st st"
| trace_step: "run1 l st mid \<Longrightarrow> trace_run run1 tr mid st' \<Longrightarrow> trace_run run1 (l # tr) st st'"

inductive_cases trace_run_NilE: "trace_run run1 [] st st'"
inductive_cases trace_run_ConsE: "trace_run run1 (l # tr) st st'"

locale step_table =
  fixes view :: "'st \<Rightarrow> 'k \<Rightarrow> 'v option"
    and run1 :: "'lab \<Rightarrow> 'st \<Rightarrow> 'st \<Rightarrow> bool"
    and inv :: "'st \<Rightarrow> bool"
    and change :: "'lab \<Rightarrow> 'v \<Rightarrow> 'v \<Rightarrow> bool"
  assumes inv_kept: "inv st \<Longrightarrow> run1 l st st' \<Longrightarrow> inv st'"
    and changes: "inv st \<Longrightarrow> run1 l st st' \<Longrightarrow> view st k = Some s \<Longrightarrow> \<exists>s'. view st' k = Some s' \<and> (s' = s \<or> change l s s')"
begin

lemma trace_inv: "trace_run run1 tr st st' \<Longrightarrow> inv st \<Longrightarrow> inv st'"
  by (induction rule: trace_run.induct) (auto intro: inv_kept)

lemma trace_rel:
  assumes "trace_run run1 tr st st'" "inv st" "view st k = Some s"
    and refl: "\<And>s. R s s" and trans: "\<And>s t u. R s t \<Longrightarrow> R t u \<Longrightarrow> R s u"
    and step: "\<And>l s s'. l \<in> set tr \<Longrightarrow> change l s s' \<Longrightarrow> R s s'"
  shows "\<exists>s'. view st' k = Some s' \<and> R s s'"
  using assms(1-3) step
proof (induction arbitrary: s rule: trace_run.induct)
  case (trace_none st)
  then show ?case using refl by blast
next
  case (trace_step l st mid tr st')
  obtain t where t: "view mid k = Some t" "t = s \<or> change l s t" using changes trace_step(1,4,5) by blast
  then have "R s t" using refl trace_step(6) by auto
  moreover obtain s' where "view st' k = Some s'" "R t s'"
    using trace_step.IH [OF inv_kept [OF trace_step(4,1)] t(1)] trace_step(6) by auto
  ultimately show ?case using trans by blast
qed

lemma trace_prop:
  assumes "trace_run run1 tr st st'" "inv st" "view st k = Some s" "P s"
    and "\<And>l s s'. l \<in> set tr \<Longrightarrow> change l s s' \<Longrightarrow> P s \<Longrightarrow> P s'"
  shows "\<exists>s'. view st' k = Some s' \<and> P s'"
  using trace_rel [OF assms(1-3), of "\<lambda>s s'. P s \<longrightarrow> P s'"] assms(4,5) by blast

end

end
