(* ===== verification/Mission_Runner.thy ===== *)
theory Mission_Runner
  imports Mission_Store
begin

text \<open>
  \<open>nth_dao/orchestration/mission_runner.py\<close>: what one agent does with the mission store. Every state-changing
  method is a step of the store; agents interleave their steps freely, so the properties are stated
  for arbitrary sequences of steps of arbitrary agents. The registry an agent may have is a lookup
  that gives, for a known agent, whether it is alive and when it was last seen.
\<close>

record runner =
  r_agent_id :: string
  r_capabilities :: "string list"
  r_platform :: "string option"
  r_runtime :: "string option"
  r_registry :: "(string \<Rightarrow> (bool \<times> string) option) option"

record runner_outcome =
  o_success :: bool
  o_mission_id :: string
  o_step_id :: string
  o_note :: string
  o_output :: pyval

section \<open>Finding work\<close>

definition handed_to :: "string \<Rightarrow> mission list \<Rightarrow> (mission \<times> mission_step) option" where
  "handed_to agent_id ms =
     (case concat (map (\<lambda>m. map (\<lambda>s. (m, s)) (filter (\<lambda>s. s_status s = HandedOff \<and> s_assignee s = Some agent_id) (m_steps m))) ms) of
        [] \<Rightarrow> None | x # _ \<Rightarrow> Some x)"

definition first_actionable :: "runner \<Rightarrow> mission list \<Rightarrow> (mission \<times> mission_step) option" where
  "first_actionable a ms =
     (case concat (map (\<lambda>m. map (\<lambda>s. (m, s)) (next_actionable m (Some (r_capabilities a)) (r_platform a) (r_runtime a))) ms) of
        [] \<Rightarrow> None | x # _ \<Rightarrow> Some x)"

definition find_work :: "runner \<Rightarrow> string \<Rightarrow> bool \<Rightarrow> mission_store \<Rightarrow> (mission \<times> mission_step) option" where
  "find_work a prefer_mission_id prefer_handoff_to_me st =
     (let relevant = list_for_agent (r_agent_id a) (Some (r_capabilities a)) (r_platform a) (r_runtime a) True st;
          mine = (if prefer_handoff_to_me then handed_to (r_agent_id a) relevant else None);
          preferred = (if prefer_mission_id = [] then None
                       else case store_get st prefer_mission_id of None \<Rightarrow> None | Some m \<Rightarrow> first_actionable a [m]) in
      case mine of Some x \<Rightarrow> Some x
      | None \<Rightarrow> (case preferred of Some x \<Rightarrow> Some x | None \<Rightarrow> first_actionable a relevant))"

definition my_active_steps :: "runner \<Rightarrow> mission_store \<Rightarrow> (mission \<times> mission_step) list" where
  "my_active_steps a st = concat (map (\<lambda>m. map (\<lambda>s. (m, s)) (filter (\<lambda>s. s_assignee s = Some (r_agent_id a) \<and> s_status s = Active) (m_steps m))) (list_active st))"

section \<open>Changing a step\<close>

definition claim :: "runner \<Rightarrow> string \<Rightarrow> string \<Rightarrow> string \<Rightarrow> mission_store \<Rightarrow> mission_store \<times> mission_step option res" where
  "claim a mid sid now st = (case try_claim mid sid (r_agent_id a) (Some (r_capabilities a)) now st of
     (st', Inr s) \<Rightarrow> (st', Inr (Some s))
   | (st', Inl e) \<Rightarrow> (if exn_cls e = ClaimConflict then (st', Inr None) else (st', Inl e)))"

definition review_entry :: "string \<Rightarrow> string \<Rightarrow> pyval \<Rightarrow> string \<Rightarrow> pydict" where
  "review_entry now agent_id output reason = obj [(''ts'', PStr now), (''by'', PStr agent_id), (''output'', output), (''reason'', PStr reason)]"

definition review_update :: "runner \<Rightarrow> string \<Rightarrow> pyval \<Rightarrow> string \<Rightarrow> step_update" where
  "review_update a now output reason = no_update\<lparr>u_status := Some NeedsReview, u_output := output, u_note := ''acceptance failed: '' @ reason,
     u_note_author := r_agent_id a, u_append_review_trail := Some (review_entry now (r_agent_id a) output reason)\<rparr>"

definition done_update :: "runner \<Rightarrow> pyval \<Rightarrow> string \<Rightarrow> step_update" where
  "done_update a output note = no_update\<lparr>u_status := Some Done, u_output := output, u_note := (if note \<noteq> [] then note else ''completed''),
     u_note_author := r_agent_id a\<rparr>"

definition complete_step :: "regex_engine \<Rightarrow> runner \<Rightarrow> string \<Rightarrow> string \<Rightarrow> pyval \<Rightarrow> string \<Rightarrow> string \<Rightarrow> mission_store
    \<Rightarrow> mission_store \<times> runner_outcome res" where
  "complete_step re a mid sid output note now st =
     (let outcome = (\<lambda>ok n. \<lparr>o_success = ok, o_mission_id = mid, o_step_id = sid, o_note = n, o_output = output\<rparr>);
          verdict = (case store_get_step st mid sid of None \<Rightarrow> Inr (True, []) | Some current \<Rightarrow> evaluate re current output) in
      case verdict of
        Inl e \<Rightarrow> (st, Inl e)
      | Inr (False, reason) \<Rightarrow>
          (case update_step mid sid (review_update a now output reason) now st of
             (st', Inl e) \<Rightarrow> (st', Inl e)
           | (st', Inr _) \<Rightarrow> (st', Inr (outcome False (''needs_review: '' @ reason))))
      | Inr (True, _) \<Rightarrow>
          (case update_step mid sid (done_update a output note) now st of
             (st', Inl e) \<Rightarrow> (st', Inl e)
           | (st', Inr s) \<Rightarrow> (st', Inr (outcome (s \<noteq> None) note))))"

definition handoff_refusal :: "runner \<Rightarrow> string \<Rightarrow> bool \<Rightarrow> string option" where
  "handoff_refusal a to_agent_id require_alive = (case r_registry a of
     None \<Rightarrow> None
   | Some lookup \<Rightarrow> if \<not> require_alive then None else (case lookup to_agent_id of
       None \<Rightarrow> Some (''handoff refused: target '' @ [CHR 0x27] @ to_agent_id @ [CHR 0x27] @ '' not registered'')
     | Some (alive, last_seen) \<Rightarrow>
         if alive then None
         else Some (''handoff refused: target '' @ [CHR 0x27] @ to_agent_id @ [CHR 0x27] @ '' not alive (last_seen='' @ last_seen @ '')'')))"

definition handoff_update :: "runner \<Rightarrow> string \<Rightarrow> string \<Rightarrow> step_update" where
  "handoff_update a to_agent_id note = no_update\<lparr>u_status := Some HandedOff, u_assignee := Some to_agent_id, u_note := note,
     u_note_author := r_agent_id a, u_expect_assignee_in := Some [r_agent_id a]\<rparr>"

definition handoff :: "runner \<Rightarrow> string \<Rightarrow> string \<Rightarrow> string \<Rightarrow> string \<Rightarrow> bool \<Rightarrow> string \<Rightarrow> mission_store \<Rightarrow> mission_store \<times> runner_outcome res" where
  "handoff a mid sid to_agent_id note require_alive now st =
     (let outcome = (\<lambda>ok n. \<lparr>o_success = ok, o_mission_id = mid, o_step_id = sid, o_note = n, o_output = PNone\<rparr>);
          handoff_note = (if note \<noteq> [] then note else ''handed off from '' @ r_agent_id a @ '' to '' @ to_agent_id) in
      if to_agent_id = [] then (st, raise ValueError ''handoff requires a non-empty to_agent_id'')
      else if to_agent_id = r_agent_id a then (st, raise ValueError ''cannot handoff to yourself'')
      else case handoff_refusal a to_agent_id require_alive of
        Some why \<Rightarrow> (st, Inr (outcome False why))
      | None \<Rightarrow>
          (case update_step mid sid (handoff_update a to_agent_id handoff_note) now st of
             (st', Inl e) \<Rightarrow> (if exn_cls e = ClaimConflict then (st', Inr (outcome False (''handoff refused: '' @ exn_msg e))) else (st', Inl e))
           | (st', Inr s) \<Rightarrow> (st', Inr (outcome (s \<noteq> None) handoff_note))))"

definition fail_update :: "runner \<Rightarrow> string \<Rightarrow> step_update" where
  "fail_update a reason = no_update\<lparr>u_status := Some Failed, u_note := ''FAILED: '' @ reason, u_note_author := r_agent_id a\<rparr>"

definition block_update :: "runner \<Rightarrow> string \<Rightarrow> step_update" where
  "block_update a reason = no_update\<lparr>u_status := Some Blocked, u_note := ''BLOCKED: '' @ reason, u_note_author := r_agent_id a\<rparr>"

definition fail :: "runner \<Rightarrow> string \<Rightarrow> string \<Rightarrow> string \<Rightarrow> string \<Rightarrow> mission_store \<Rightarrow> mission_store \<times> runner_outcome res" where
  "fail a mid sid reason now st =
     (case update_step mid sid (fail_update a reason) now st of
        (st', Inl e) \<Rightarrow> (st', Inl e)
      | (st', Inr _) \<Rightarrow> (st', Inr \<lparr>o_success = False, o_mission_id = mid, o_step_id = sid, o_note = reason, o_output = PNone\<rparr>))"

definition block :: "runner \<Rightarrow> string \<Rightarrow> string \<Rightarrow> string \<Rightarrow> string \<Rightarrow> mission_store \<Rightarrow> mission_store \<times> runner_outcome res" where
  "block a mid sid reason now st =
     (case update_step mid sid (block_update a reason) now st of
        (st', Inl e) \<Rightarrow> (st', Inl e)
      | (st', Inr s) \<Rightarrow> (st', Inr \<lparr>o_success = (s \<noteq> None), o_mission_id = mid, o_step_id = sid, o_note = reason, o_output = PNone\<rparr>))"

section \<open>Interleaved agents\<close>

datatype runner_op =
    Claim string string
  | Complete string string pyval string
  | Handoff string string string string bool
  | Fail string string string
  | Block string string string

fun run_op :: "regex_engine \<Rightarrow> string \<Rightarrow> runner \<Rightarrow> runner_op \<Rightarrow> mission_store \<Rightarrow> mission_store" where
  "run_op re now a (Claim mid sid) st = fst (claim a mid sid now st)"
| "run_op re now a (Complete mid sid output note) st = fst (complete_step re a mid sid output note now st)"
| "run_op re now a (Handoff mid sid to note alive) st = fst (handoff a mid sid to note alive now st)"
| "run_op re now a (Fail mid sid reason) st = fst (fail a mid sid reason now st)"
| "run_op re now a (Block mid sid reason) st = fst (block a mid sid reason now st)"

fun op_target :: "runner_op \<Rightarrow> string \<times> string" where
  "op_target (Claim mid sid) = (mid, sid)"
| "op_target (Complete mid sid output note) = (mid, sid)"
| "op_target (Handoff mid sid to note alive) = (mid, sid)"
| "op_target (Fail mid sid reason) = (mid, sid)"
| "op_target (Block mid sid reason) = (mid, sid)"

definition agent_step :: "regex_engine \<Rightarrow> runner \<times> runner_op \<Rightarrow> mission_store \<Rightarrow> mission_store \<Rightarrow> bool" where
  "agent_step re l st st' \<longleftrightarrow> (\<exists>now. st' = run_op re now (fst l) (snd l) st)"

text \<open>What one operation may do to the step it names.\<close>

fun op_change :: "regex_engine \<Rightarrow> runner \<Rightarrow> runner_op \<Rightarrow> mission_step \<Rightarrow> mission_step \<Rightarrow> bool" where
  "op_change re a (Claim mid sid) s s' =
     (\<exists>now. claim_conflict sid (r_agent_id a) (Some (r_capabilities a)) s = None \<and> s' = claimed_step (r_agent_id a) (Some (r_capabilities a)) now s)"
| "op_change re a (Complete mid sid output note) s s' =
     (\<exists>now why. (evaluate re s output = Inr (False, why) \<and> s' = apply_update (review_update a now output why) now s)
        \<or> (evaluate re s output = Inr (True, why) \<and> s' = apply_update (done_update a output note) now s))"
| "op_change re a (Handoff mid sid to note alive) s s' =
     (\<exists>now nt. to \<noteq> [] \<and> opt_or (s_assignee s) [] = r_agent_id a \<and> to \<noteq> r_agent_id a \<and> s' = apply_update (handoff_update a to nt) now s)"
| "op_change re a (Fail mid sid reason) s s' =
     (\<exists>now. s' = apply_update (fail_update a reason) now s)"
| "op_change re a (Block mid sid reason) s s' =
     (\<exists>now. s' = apply_update (block_update a reason) now s)"

lemma update_step_edit:
  "fst (update_step mid sid u now st) = st
   \<or> (\<exists>s. step_edit mid sid s (apply_update u now s) st (fst (update_step mid sid u now st)) \<and> cas_conflict sid u s = None)"
proof (cases "update_step mid sid u now st")
  case (Pair st' r)
  from this show ?thesis by (cases rule: update_step_cases) (use Pair in auto)
qed

lemma run_op_edit:
  "run_op re now a op st = st
   \<or> (\<exists>s s'. step_edit (fst (op_target op)) (snd (op_target op)) s s' st (run_op re now a op st) \<and> op_change re a op s s')"
proof (cases op)
  case (Claim mid sid)
  obtain st' r where t: "try_claim mid sid (r_agent_id a) (Some (r_capabilities a)) now st = (st', r)" by fastforce
  then have r: "run_op re now a op st = st'" by (auto simp: Claim claim_def split: sum.splits)
  from t show ?thesis by (cases rule: try_claim_cases) (use r in \<open>auto simp: Claim\<close>)
next
  case (Complete mid sid outp nt)
  show ?thesis
  proof (cases "store_get_step st mid sid")
    case None
    then have "update_step mid sid u now st = (st, Inr None)" for u
      by (auto simp: update_step_def store_get_step_def split: option.splits)
    then show ?thesis using None by (simp add: Complete complete_step_def)
  next
    case (Some s)
    have e: "fst (update_step mid sid u now st) = st \<or> step_edit mid sid s (apply_update u now s) st (fst (update_step mid sid u now st))" for u
      using update_step_edit [of mid sid u now st] step_edit_before Some by fastforce
    have "run_op re now a op st = (case evaluate re s outp of Inl _ \<Rightarrow> st
        | Inr (ok, why) \<Rightarrow> fst (update_step mid sid (if ok then done_update a outp nt else review_update a now outp why) now st))"
      using Some by (auto simp: Complete complete_step_def Let_def split: sum.splits bool.splits prod.splits)
    then consider "run_op re now a op st = st"
      | why where "evaluate re s outp = Inr (True, why)" "run_op re now a op st = fst (update_step mid sid (done_update a outp nt) now st)"
      | why where "evaluate re s outp = Inr (False, why)" "run_op re now a op st = fst (update_step mid sid (review_update a now outp why) now st)"
      by (cases "evaluate re s outp") (auto split: if_splits)
    then show ?thesis
    proof cases
      case (2 why)
      then show ?thesis using e [of "done_update a outp nt"] by (auto simp: Complete)
    next
      case (3 why)
      then show ?thesis using e [of "review_update a now outp why"] by (auto simp: Complete)
    qed simp
  qed
next
  case (Handoff mid sid to nt alive)
  let ?u = "\<lambda>n. handoff_update a to n"
  let ?n = "if nt \<noteq> [] then nt else ''handed off from '' @ r_agent_id a @ '' to '' @ to"
  have "run_op re now a op st = (if to = [] \<or> to = r_agent_id a \<or> handoff_refusal a to alive \<noteq> None then st else fst (update_step mid sid (?u ?n) now st))"
    unfolding Handoff run_op.simps handoff_def Let_def by (cases "update_step mid sid (?u ?n) now st") (simp split: option.splits sum.splits)
  then have "run_op re now a op st = st \<or> (to \<noteq> [] \<and> to \<noteq> r_agent_id a \<and> (\<exists>n. run_op re now a op st = fst (update_step mid sid (?u n) now st)))"
    by (auto split: if_splits)
  moreover have "opt_or (s_assignee s) [] = r_agent_id a" if "cas_conflict sid (?u n) s = None" for n s
    using that by (auto simp: cas_conflict_def handoff_update_def no_update_def split: if_splits)
  ultimately show ?thesis using update_step_edit [of mid sid "?u _" now st] by (auto simp: Handoff) metis
next
  case (Fail mid sid reason)
  have "run_op re now a op st = fst (update_step mid sid (fail_update a reason) now st)"
    by (simp add: Fail fail_def split: prod.splits sum.splits)
  then show ?thesis using update_step_edit [of mid sid "fail_update a reason" now st] by (auto simp: Fail)
next
  case (Block mid sid reason)
  have "run_op re now a op st = fst (update_step mid sid (block_update a reason) now st)"
    by (simp add: Block block_def split: prod.splits sum.splits)
  then show ?thesis using update_step_edit [of mid sid "block_update a reason" now st] by (auto simp: Block)
qed

interpretation runner: step_table "\<lambda>st k. store_get_step st (fst k) (snd k)" "agent_step re" store_wf "\<lambda>l. op_change re (fst l) (snd l)" for re
proof unfold_locales
  fix st l st'
  assume "store_wf st" "agent_step re l st st'"
  then show "store_wf st'" unfolding agent_step_def using run_op_edit [of re] step_edit_wf by metis
next
  fix st l st' k s
  assume wf: "store_wf st" and "agent_step re l st st'" and s: "store_get_step st (fst k) (snd k) = Some s"
  then obtain now where st': "st' = run_op re now (fst l) (snd l) st" by (auto simp: agent_step_def)
  let ?t = "op_target (snd l)"
  have "st' = st \<or> (\<exists>t t'. step_edit (fst ?t) (snd ?t) t t' st st' \<and> op_change re (fst l) (snd l) t t')"
    using run_op_edit [of re now "fst l" "snd l" st] st' by simp
  then show "\<exists>s'. store_get_step st' (fst k) (snd k) = Some s' \<and> (s' = s \<or> op_change re (fst l) (snd l) s s')"
  proof
    assume "\<exists>t t'. step_edit (fst ?t) (snd ?t) t t' st st' \<and> op_change re (fst l) (snd l) t t'"
    then obtain t t' where e: "step_edit (fst ?t) (snd ?t) t t' st st'" "op_change re (fst l) (snd l) t t'" by blast
    show ?thesis
    proof (cases "mission_path (fst k) = mission_path (fst ?t) \<and> snd k = snd ?t")
      case True
      then have "s = t" using step_edit_before [OF e(1)] s by (simp add: store_get_step_def store_get_def)
      then show ?thesis using step_edit_after [OF wf e(1)] True e(2) by auto
    next
      case False
      then show ?thesis using step_edit_after [OF wf e(1)] s by auto
    qed
  qed (use s in auto)
qed

section \<open>Ownership\<close>

fun is_handoff :: "runner_op \<Rightarrow> bool" where
  "is_handoff (Handoff mid sid to note alive) = True"
| "is_handoff _ = False"

lemma apply_update_assignee: "s_assignee (apply_update u now s) = (if u_assignee u \<noteq> None then u_assignee u else s_assignee s)"
  by (cases "u_assignee u"; cases "u_status u"; cases "u_append_review_trail u") (simp_all add: apply_update_def Let_def add_note_def)

lemma apply_update_status: "s_status (apply_update u now s) = (case u_status u of None \<Rightarrow> s_status s | Some x \<Rightarrow> x)"
  by (cases "u_assignee u"; cases "u_status u"; cases "u_append_review_trail u") (simp_all add: apply_update_def Let_def add_note_def)

lemma update_assignee_simps [simp]:
  "u_assignee (review_update a now out why) = None" "u_assignee (done_update a out nt) = None" "u_assignee (fail_update a why) = None" "u_assignee (block_update a why) = None"
  "u_assignee (handoff_update a to nt) = Some to"
  by (simp_all add: review_update_def done_update_def handoff_update_def fail_update_def block_update_def no_update_def)

lemma op_change_owner:
  assumes "op_change re b op s s'" "s_assignee s = Some x" "x \<noteq> []" "r_agent_id b = x \<longrightarrow> \<not> is_handoff op"
  shows "s_assignee s' = Some x"
  using assms
  by (cases op) (auto simp: apply_update_assignee opt_or_def claim_conflict_def Let_def split: if_splits)

text \<open>A step keeps its owner: while agents interleave arbitrary operations, the assignee of a step
  changes only when that very agent hands the step off; no other agent can take it.\<close>

lemma owner_changes_only_by_own_handoff:
  assumes "trace_run (agent_step re) tr st st'" "store_wf st" "store_get_step st mid sid = Some s" "s_assignee s = Some x" "x \<noteq> []"
    "\<forall>(b, op) \<in> set tr. r_agent_id b = x \<longrightarrow> \<not> is_handoff op"
  shows "\<exists>s'. store_get_step st' mid sid = Some s' \<and> s_assignee s' = Some x"
  using runner.trace_prop [OF assms(1,2), of "(mid, sid)" s "\<lambda>s. s_assignee s = Some x"] assms(3-6) op_change_owner by fastforce

text \<open>C26. Claims exclude each other: after an agent's claim succeeds, every other agent's claim of that step
  is refused and changes nothing, whatever all agents did in between, as long as the first one did not hand
  the step off and the step is not waiting for review. A step whose submission was rejected is meant to be open for another agent
  (\<open>is_open\<close> says so, although \<open>try_claim\<close> refuses it), so the property is not claimed for it.\<close>

theorem claim_excludes_others:
  assumes "store_wf st" "claim a mid sid now st = (stc, Inr (Some sc))" "r_agent_id a \<noteq> []"
    "trace_run (agent_step re) tr stc std" "\<forall>(c, op) \<in> set tr. r_agent_id c = r_agent_id a \<longrightarrow> \<not> is_handoff op"
    "r_agent_id b \<noteq> r_agent_id a" "\<And>s. store_get_step std mid sid = Some s \<Longrightarrow> s_status s \<noteq> NeedsReview"
  shows "claim b mid sid now' std = (std, Inr None)"
proof -
  obtain s where e: "step_edit mid sid s sc st stc" and sc: "s_assignee sc = Some (r_agent_id a)"
  proof -
    obtain r where t: "try_claim mid sid (r_agent_id a) (Some (r_capabilities a)) now st = (stc, r)" "r = Inr sc"
      using assms(2) by (auto simp: claim_def split: prod.splits sum.splits if_splits)
    from t(1) show thesis by (cases rule: try_claim_cases) (use t(2) that in auto)
  qed
  have "store_wf stc" using step_edit_wf [OF assms(1) e] .
  moreover have "store_get_step stc mid sid = Some sc" using step_edit_after [OF assms(1) e] by simp
  ultimately obtain s2 where s2: "store_get_step std mid sid = Some s2" "s_assignee s2 = Some (r_agent_id a)"
    using runner.trace_prop [OF assms(4), of "(mid, sid)" sc "\<lambda>s. s_assignee s = Some (r_agent_id a)"] sc assms(3,5) op_change_owner
    by fastforce
  then have "claim_conflict sid (r_agent_id b) (Some (r_capabilities b)) s2 \<noteq> None"
    using assms(3,6) by (auto simp: claim_conflict_def Let_def opt_or_def)
  then show ?thesis using s2(1)
    by (auto simp: claim_def try_claim_def store_get_step_def split: option.splits)
qed

section \<open>The record of what was done\<close>

definition audit_grows :: "mission_step \<Rightarrow> mission_step \<Rightarrow> bool" where
  "audit_grows s s' \<longleftrightarrow> (\<exists>x. s_review_trail s' = s_review_trail s @ x) \<and> (\<exists>x. s_notes s' = s_notes s @ x)
     \<and> (\<exists>x. s_previous_assignees s' = s_previous_assignees s @ x) \<and> s_acceptance_criteria s' = s_acceptance_criteria s
     \<and> s_depends_on s' = s_depends_on s \<and> s_required_capabilities s' = s_required_capabilities s"

lemma apply_update_audit: "audit_grows s (apply_update u now s)"
  by (cases "u_assignee u"; cases "u_status u"; cases "u_append_review_trail u") (simp_all add: audit_grows_def apply_update_def Let_def add_note_def)

lemma claimed_step_audit: "audit_grows s (claimed_step a caps now s)"
  by (simp add: audit_grows_def claimed_step_def Let_def add_note_def)

lemma op_change_audit: "op_change re b op s s' \<Longrightarrow> audit_grows s s'"
  by (cases op) (auto simp: apply_update_audit claimed_step_audit)

lemma audit_grows_refl: "audit_grows s s"
  by (simp add: audit_grows_def)

lemma audit_grows_trans: "audit_grows s t \<Longrightarrow> audit_grows t u \<Longrightarrow> audit_grows s u"
  by (auto simp: audit_grows_def)

text \<open>C27. The audit record is append-only: no interleaving of agents' operations removes a step or any entry of its
  review trail, notes or previous assignees, or changes its acceptance criteria, dependencies
  or required capabilities.\<close>

theorem step_audit_append_only:
  assumes "trace_run (agent_step re) tr st st'" "store_wf st" "store_get_step st mid sid = Some s"
  shows "\<exists>s' x y z. store_get_step st' mid sid = Some s' \<and> s_review_trail s' = s_review_trail s @ x \<and> s_notes s' = s_notes s @ y
     \<and> s_previous_assignees s' = s_previous_assignees s @ z \<and> s_acceptance_criteria s' = s_acceptance_criteria s
     \<and> s_depends_on s' = s_depends_on s \<and> s_required_capabilities s' = s_required_capabilities s"
proof -
  have "\<exists>s'. store_get_step st' mid sid = Some s' \<and> audit_grows s s'"
    using runner.trace_rel [OF assms(1,2), of "(mid, sid)" s audit_grows, OF _ audit_grows_refl audit_grows_trans op_change_audit] assms(3) by simp
  then show ?thesis by (auto simp: audit_grows_def)
qed

section \<open>Done means accepted\<close>

definition done_accepted :: "regex_engine \<Rightarrow> mission_step \<Rightarrow> bool" where
  "done_accepted re s \<longleftrightarrow> s_status s = Done \<longrightarrow> (\<exists>m. evaluate re s (s_output s) = Inr (True, m))"

lemma apply_update_output: "s_output (apply_update u now s) = (if u_output u \<noteq> PNone then u_output u else s_output s)"
  by (cases "u_assignee u"; cases "u_status u"; cases "u_append_review_trail u") (simp_all add: apply_update_def Let_def add_note_def)

lemma done_update_accepted:
  assumes "evaluate re s out = Inr (True, m)"
  shows "done_accepted re (apply_update (done_update a out nt) now s)"
proof -
  let ?s = "apply_update (done_update a out nt) now s"
  have c: "s_acceptance_criteria ?s = s_acceptance_criteria s" using apply_update_audit by (simp add: audit_grows_def)
  have "s_acceptance_criteria s = None \<or> s_output ?s = out"
    using assms by (auto simp: evaluate_def apply_update_output done_update_def split: option.splits)
  moreover have "evaluate re ?s x = evaluate re s x" for x by (simp add: evaluate_def c)
  moreover have "evaluate re s x = Inr (True, [])" if "s_acceptance_criteria s = None" for x using that by (simp add: evaluate_def)
  ultimately show ?thesis using assms by (auto simp: done_accepted_def)
qed

lemma done_accepted_open: "s_status s \<noteq> Done \<Longrightarrow> done_accepted re s"
  by (simp add: done_accepted_def)

lemma op_change_done: "op_change re b op s s' \<Longrightarrow> done_accepted re s \<Longrightarrow> done_accepted re s'"
  by (cases op) (auto intro: done_update_accepted done_accepted_open
      simp: apply_update_status review_update_def handoff_update_def fail_update_def block_update_def no_update_def)

text \<open>A finished step met its criteria: from a store whose finished steps are accepted (a new mission has
  none), every step that any interleaving of agents leaves \<open>DONE\<close> carries an output that its acceptance criteria accept.\<close>

lemma done_steps_accepted:
  assumes "trace_run (agent_step re) tr st st'" "store_wf st" "store_get_step st mid sid = Some s"
    "s_status s \<noteq> Done" "store_get_step st' mid sid = Some s'" "s_status s' = Done"
  shows "\<exists>m. evaluate re s' (s_output s') = Inr (True, m)"
  using runner.trace_prop [OF assms(1,2), of "(mid, sid)" s "done_accepted re"] assms(3-6) op_change_done
  by (auto simp: done_accepted_def)

section \<open>Two dead ends\<close>

text \<open>A step sent back for review cannot be taken again: \<open>next_actionable\<close> offers it to every capable agent, but every
  claim of it, by whomever, is refused and changes nothing.\<close>

lemma needs_review_offered_not_claimable:
  assumes "store_get st mid = Some m" "get_step m sid = Some s" "s_status s = NeedsReview"
    "set (s_depends_on s) \<subseteq> set (completed_step_ids m)" "set (s_required_capabilities s) \<subseteq> set caps"
    "s_required_platform s = []" "s_required_runtime s = []"
  shows "s \<in> set (next_actionable m (Some caps) platform runtime) \<and> claim a mid sid now st = (st, Inr None)"
proof -
  have "s \<in> set (m_steps m)" using assms(2) find_step_id by (auto simp: get_step_def)
  then have "s \<in> set (next_actionable m (Some caps) platform runtime)"
    using assms(3-7) by (simp add: next_actionable_def offered_def step_is_open_def can_start_def)
  moreover have "claim a mid sid now st = (st, Inr None)"
    using assms(1-3) by (simp add: claim_def try_claim_def claim_conflict_def)
  ultimately show ?thesis ..
qed

text \<open>Handing off the last open step ends the mission: when all other steps are finished, a successful handoff
  marks the mission completed although the step is only handed over, and the mission is no longer among those
  the recipient's \<open>find_work\<close> looks at.\<close>

lemma handoff_of_last_step_completes_mission:
  assumes "store_wf st" "store_get st mid = Some m" "get_step m sid = Some s" "s_assignee s = Some (r_agent_id a)"
    "distinct (map s_id (m_steps m))" "\<forall>t \<in> set (m_steps m). s_id t = sid \<or> s_status t = Done" "to \<noteq> []" "to \<noteq> r_agent_id a"
  shows "\<exists>st' m' s'. handoff a mid sid to nt False now st = (st', Inr \<lparr>o_success = True, o_mission_id = mid, o_step_id = sid,
         o_note = (if nt \<noteq> [] then nt else ''handed off from '' @ r_agent_id a @ '' to '' @ to), o_output = PNone\<rparr>)
     \<and> store_get st' mid = Some m' \<and> m_status m' = MCompleted \<and> m' \<notin> set (list_active st')
     \<and> get_step m' sid = Some s' \<and> s_status s' = HandedOff \<and> s_assignee s' = Some to"
proof -
  define n where "n = (if nt \<noteq> [] then nt else ''handed off from '' @ r_agent_id a @ '' to '' @ to)"
  define u where "u = handoff_update a to n"
  define s' where "s' = apply_update u now s"
  let ?m = "m\<lparr>m_steps := put_step sid s' (m_steps m)\<rparr>"
  have cas: "cas_conflict sid u s = None" using assms(4) by (simp add: cas_conflict_def u_def handoff_update_def no_update_def opt_or_def)
  have s': "s_status s' = HandedOff" "s_assignee s' = Some to" "s_id s' = sid"
    using get_step_id [OF assms(3)] by (simp_all add: s'_def u_def apply_update_status apply_update_assignee handoff_update_def)
  have sub: "x = s' \<or> s_status x = Done" if "x \<in> set (put_step sid s' ts)" "distinct (map s_id ts)"
    "\<forall>t \<in> set ts. s_id t = sid \<or> s_status t = Done" for x ts
    using that by (induction ts) (auto split: if_splits, metis image_eqI)
  have "put_step sid s' ts \<noteq> []" if "find_step sid ts = Some s" for ts using that by (cases ts) auto
  then have fin: "is_finished ?m" using sub [OF _ assms(5,6)] s'(1) assms(3) by (fastforce simp: is_finished_def list_all_iff get_step_def)
  let ?st = "save_unlocked (mission_machine now ?m) now st"
  have up: "update_step mid sid (handoff_update a to n) now st = (?st, Inr (Some s'))"
    using assms(2,3) cas by (simp add: update_step_def Let_def s'_def u_def)
  have get: "store_get ?st mid = Some ((mission_machine now ?m)\<lparr>m_updated_at := now\<rparr>)"
    using store_wf_path [OF assms(1,2)] by (simp add: store_get_def save_unlocked_def)
  have "get_step ((mission_machine now ?m)\<lparr>m_updated_at := now\<rparr>) sid = Some s'"
    using find_put_step [OF _ s'(3)] assms(3) by (simp add: get_step_def)
  moreover have "handoff_refusal a to False = None" by (simp add: handoff_refusal_def split: option.splits)
  ultimately show ?thesis using assms(7,8) up get s' fin
    unfolding handoff_def Let_def n_def [symmetric] by (simp add: list_active_def mission_machine_def)
qed

section \<open>Two agents and a mission\<close>

definition demo_agent :: "string \<Rightarrow> runner" where
  "demo_agent x = \<lparr>r_agent_id = x, r_capabilities = [''write''], r_platform = None, r_runtime = None, r_registry = None\<rparr>"

definition demo_mission :: mission where
  "demo_mission = projr (mission_new ''title'' ''goal'' ''owner'' ''shared''
     [\<lparr>sp_id = Some ''s1'', sp_description = Some ''draft'', sp_required_capabilities = Some [''write''], sp_required_platform = None,
       sp_required_runtime = None, sp_depends_on = None, sp_inputs = None, sp_acceptance_criteria = Some [(PStr ''min_length'', PInt 3)]\<rparr>]
     None ''normal'' [] ''m1'' [] ''t0'')"

definition demo_missions :: mission_store where
  "demo_missions = save_unlocked demo_mission ''t0'' \<lparr>ms_files = [], ms_archive = []\<rparr>"

definition demo_claimed :: mission_store where
  "demo_claimed = fst (claim (demo_agent ''alice'') ''m1'' ''s1'' ''t1'' demo_missions)"

definition no_regex :: regex_engine where
  "no_regex = (\<lambda>_. Inl [])"

lemma demo_wf: "store_wf demo_missions"
  unfolding demo_missions_def by (rule store_wf_save) (simp add: store_wf_def)

lemma agent_stepI: "agent_step re (a, op) st (run_op re now a op st)"
  by (auto simp: agent_step_def)

lemma trace_single: "trace_run (agent_step re) [(a, op)] st (run_op re now a op st)"
  by (rule trace_step, rule agent_stepI, rule trace_none)

lemma owner_changes_only_by_own_handoff_demo:
  "\<exists>s'. store_get_step (run_op no_regex ''t2'' (demo_agent ''bob'') (Complete ''m1'' ''s1'' (PDict []) []) demo_claimed) ''m1'' ''s1'' = Some s'
     \<and> s_assignee s' = Some ''alice''"
proof (rule owner_changes_only_by_own_handoff [where tr = "[(demo_agent ''bob'', Complete ''m1'' ''s1'' (PDict []) [])]"
      and s = "the (store_get_step demo_claimed ''m1'' ''s1'')" and re = no_regex and st = demo_claimed])
  show "trace_run (agent_step no_regex) [(demo_agent ''bob'', Complete ''m1'' ''s1'' (PDict []) [])] demo_claimed
      (run_op no_regex ''t2'' (demo_agent ''bob'') (Complete ''m1'' ''s1'' (PDict []) []) demo_claimed)"
    by (rule trace_single)
  have "demo_claimed = run_op no_regex ''t1'' (demo_agent ''alice'') (Claim ''m1'' ''s1'') demo_missions" by (simp add: demo_claimed_def)
  then show "store_wf demo_claimed" using runner.inv_kept [OF demo_wf agent_stepI] by metis
  show "store_get_step demo_claimed ''m1'' ''s1'' = Some (the (store_get_step demo_claimed ''m1'' ''s1''))" by code_simp
  show "s_assignee (the (store_get_step demo_claimed ''m1'' ''s1'')) = Some ''alice''" by code_simp
qed (simp_all add: demo_agent_def)

theorem claim_excludes_others_witness:
  "claim (demo_agent ''bob'') ''m1'' ''s1'' ''t3'' demo_claimed = (demo_claimed, Inr None)"
proof (rule claim_excludes_others [OF demo_wf _ _ trace_none, where a = "demo_agent ''alice''" and now = "''t1''"
      and sc = "the (store_get_step demo_claimed ''m1'' ''s1'')"])
  show "claim (demo_agent ''alice'') ''m1'' ''s1'' ''t1'' demo_missions = (demo_claimed, Inr (Some (the (store_get_step demo_claimed ''m1'' ''s1''))))"
    by code_simp
  fix s assume "store_get_step demo_claimed ''m1'' ''s1'' = Some s"
  moreover have "s_status (the (store_get_step demo_claimed ''m1'' ''s1'')) \<noteq> NeedsReview" by code_simp
  ultimately show "s_status s \<noteq> NeedsReview" by simp
qed (simp_all add: demo_agent_def)

theorem step_audit_append_only_witness:
  "\<exists>s' x y z. store_get_step demo_claimed ''m1'' ''s1'' = Some s' \<and> s_review_trail s' = s_review_trail (hd (m_steps demo_mission)) @ x
     \<and> s_notes s' = s_notes (hd (m_steps demo_mission)) @ y
     \<and> s_previous_assignees s' = s_previous_assignees (hd (m_steps demo_mission)) @ z
     \<and> s_acceptance_criteria s' = s_acceptance_criteria (hd (m_steps demo_mission))
     \<and> s_depends_on s' = s_depends_on (hd (m_steps demo_mission))
     \<and> s_required_capabilities s' = s_required_capabilities (hd (m_steps demo_mission))"
proof (rule step_audit_append_only [OF trace_single [where op = "Claim ''m1'' ''s1''" and a = "demo_agent ''alice''" and now = "''t1''"
      and re = no_regex and st = demo_missions, unfolded run_op.simps, folded demo_claimed_def] demo_wf])
  show "store_get_step demo_missions ''m1'' ''s1'' = Some (hd (m_steps demo_mission))" by code_simp
qed

definition demo_done :: mission_store where
  "demo_done = fst (complete_step no_regex (demo_agent ''alice'') ''m1'' ''s1'' (PDict [(PStr ''content'', PStr ''abcd'')]) [] ''t2'' demo_missions)"

lemma done_steps_accepted_demo:
  "\<exists>m. evaluate no_regex (the (store_get_step demo_done ''m1'' ''s1'')) (s_output (the (store_get_step demo_done ''m1'' ''s1''))) = Inr (True, m)"
proof (rule done_steps_accepted [OF trace_single [where op = "Complete ''m1'' ''s1'' (PDict [(PStr ''content'', PStr ''abcd'')]) []"
      and a = "demo_agent ''alice''" and now = "''t2''" and re = no_regex and st = demo_missions, unfolded run_op.simps, folded demo_done_def] demo_wf])
  show "store_get_step demo_missions ''m1'' ''s1'' = Some (hd (m_steps demo_mission))" by code_simp
  show "s_status (hd (m_steps demo_mission)) \<noteq> Done" by code_simp
  show "store_get_step demo_done ''m1'' ''s1'' = Some (the (store_get_step demo_done ''m1'' ''s1''))" by code_simp
  show "s_status (the (store_get_step demo_done ''m1'' ''s1'')) = Done" by code_simp
qed

definition demo_review :: mission_store where
  "demo_review = fst (complete_step no_regex (demo_agent ''alice'') ''m1'' ''s1'' (PDict []) [] ''t2'' demo_missions)"

lemma needs_review_offered_not_claimable_demo:
  "hd (m_steps (the (store_get demo_review ''m1''))) \<in> set (next_actionable (the (store_get demo_review ''m1'')) (Some [''write'']) None None)
     \<and> claim (demo_agent ''bob'') ''m1'' ''s1'' ''t3'' demo_review = (demo_review, Inr None)"
proof (rule needs_review_offered_not_claimable)
  show "store_get demo_review ''m1'' = Some (the (store_get demo_review ''m1''))" by code_simp
  show "get_step (the (store_get demo_review ''m1'')) ''s1'' = Some (hd (m_steps (the (store_get demo_review ''m1''))))" by code_simp
  show "s_status (hd (m_steps (the (store_get demo_review ''m1'')))) = NeedsReview" by code_simp
  show "set (s_depends_on (hd (m_steps (the (store_get demo_review ''m1''))))) \<subseteq> set (completed_step_ids (the (store_get demo_review ''m1'')))" by code_simp
  show "set (s_required_capabilities (hd (m_steps (the (store_get demo_review ''m1''))))) \<subseteq> set [''write'']" by code_simp
  show "s_required_platform (hd (m_steps (the (store_get demo_review ''m1'')))) = []" by code_simp
  show "s_required_runtime (hd (m_steps (the (store_get demo_review ''m1'')))) = []" by code_simp
qed

lemma handoff_of_last_step_completes_mission_demo:
  "\<exists>st' m' s'. handoff (demo_agent ''alice'') ''m1'' ''s1'' ''bob'' ''over to you'' False ''t2'' demo_claimed
       = (st', Inr \<lparr>o_success = True, o_mission_id = ''m1'', o_step_id = ''s1'',
         o_note = (if ''over to you'' \<noteq> [] then ''over to you'' else ''handed off from '' @ r_agent_id (demo_agent ''alice'') @ '' to '' @ ''bob''), o_output = PNone\<rparr>)
     \<and> store_get st' ''m1'' = Some m' \<and> m_status m' = MCompleted \<and> m' \<notin> set (list_active st')
     \<and> get_step m' ''s1'' = Some s' \<and> s_status s' = HandedOff \<and> s_assignee s' = Some ''bob''"
proof (rule handoff_of_last_step_completes_mission)
  have "demo_claimed = run_op no_regex ''t1'' (demo_agent ''alice'') (Claim ''m1'' ''s1'') demo_missions" by (simp add: demo_claimed_def)
  then show "store_wf demo_claimed" using runner.inv_kept [OF demo_wf agent_stepI] by metis
  show "store_get demo_claimed ''m1'' = Some (the (store_get demo_claimed ''m1''))" by code_simp
  show "get_step (the (store_get demo_claimed ''m1'')) ''s1'' = Some (hd (m_steps (the (store_get demo_claimed ''m1''))))" by code_simp
  show "s_assignee (hd (m_steps (the (store_get demo_claimed ''m1'')))) = Some (r_agent_id (demo_agent ''alice''))" by code_simp
  show "distinct (map s_id (m_steps (the (store_get demo_claimed ''m1''))))" by code_simp
  show "\<forall>t \<in> set (m_steps (the (store_get demo_claimed ''m1''))). s_id t = ''s1'' \<or> s_status t = Done" by code_simp
qed (simp_all add: demo_agent_def)

end
