(* ===== verification/Money.thy ===== *)
theory Money
  imports Py_Value
begin

text \<open>
  \<open>nth_dao/commerce/money.py\<close>: exact conversion between plain decimal text and integer minor units. A
  \<open>Decimal\<close> argument is an object of that class with its \<open>str\<close> text. Text and numbers are unbounded,
  the result is bounded by the code's 63-bit limit.
\<close>

definition asset_decimals :: "(string \<times> nat) list" where
  "asset_decimals = [(''USDC'', 6), (''NTH-TEST'', 6), (''credit'', 0)]"

definition max_minor_amount :: nat where
  "max_minor_amount = 2 ^ 63 - 1"

definition max_amount_text_chars :: nat where
  "max_amount_text_chars = 96"

abbreviation dot :: char where
  "dot \<equiv> CHR ''.''"

definition whole_part :: "string \<Rightarrow> string" where
  "whole_part t = takeWhile (\<lambda>c. c \<noteq> dot) t"

definition fraction_part :: "string \<Rightarrow> string" where
  "fraction_part t = tl (dropWhile (\<lambda>c. c \<noteq> dot) t)"

definition plain_decimal :: "string \<Rightarrow> bool" where
  "plain_decimal t \<longleftrightarrow>
     (let w = whole_part t; f = dropWhile (\<lambda>c. c \<noteq> dot) t in
      w \<noteq> [] \<and> list_all is_digit w \<and> (hd w \<noteq> CHR ''0'' \<or> length w = 1)
      \<and> (f = [] \<or> (tl f \<noteq> [] \<and> list_all is_digit (tl f))))"

definition decimal_parts :: "pyval \<Rightarrow> (string \<times> string) res" where
  "decimal_parts v =
     (case (case v of PStr s \<Rightarrow> Some s | POther c s \<Rightarrow> if c = ''Decimal'' then Some s else None | _ \<Rightarrow> None) of
        None \<Rightarrow> raise MoneyRejected ''amount must be a plain decimal string or Decimal''
      | Some t \<Rightarrow>
          ensure (length t \<le> max_amount_text_chars) MoneyRejected ''amount text is too long'' (
          ensure (plain_decimal t) MoneyRejected ''amount must use unsigned plain-decimal notation''
            (Inr (whole_part t, fraction_part t))))"

definition ljust0 :: "nat \<Rightarrow> string \<Rightarrow> string" where
  "ljust0 w s = s @ replicate (w - length s) (CHR ''0'')"

definition decimal_to_minor :: "pyval \<Rightarrow> string \<Rightarrow> bool \<Rightarrow> nat res" where
  "decimal_to_minor v currency require_positive = (case map_of asset_decimals currency of
     None \<Rightarrow> raise MoneyRejected (''unsupported currency: '' @ str_repr currency)
   | Some decimals \<Rightarrow>
       bindR (decimal_parts v) (\<lambda>(whole, fraction).
       ensure (length fraction \<le> decimals) MoneyRejected (''amount has more than '' @ nat_str decimals @ '' fractional digits'') (
       let amount_minor = digits_val whole * 10 ^ decimals
             + (if fraction \<noteq> [] then digits_val (ljust0 decimals fraction) else 0) in
       ensure (amount_minor \<le> max_minor_amount) MoneyRejected ''amount exceeds the supported minor-unit range'' (
       ensure (\<not> (require_positive \<and> amount_minor = 0)) MoneyRejected ''amount must be positive''
         (Inr amount_minor)))))"

definition rstrip0 :: "string \<Rightarrow> string" where
  "rstrip0 s = rev (dropWhile (\<lambda>c. c = CHR ''0'') (rev s))"

definition zero_padded :: "nat \<Rightarrow> nat \<Rightarrow> string" where
  "zero_padded w n = replicate (w - length (nat_str n)) (CHR ''0'') @ nat_str n"

definition minor_to_decimal :: "pyval \<Rightarrow> string \<Rightarrow> string res" where
  "minor_to_decimal v currency = (case map_of asset_decimals currency of
     None \<Rightarrow> raise MoneyRejected (''unsupported currency: '' @ str_repr currency)
   | Some decimals \<Rightarrow> (case strict_int v of
       None \<Rightarrow> raise MoneyRejected ''minor amount must be an integer''
     | Some i \<Rightarrow>
         ensure (0 \<le> i) MoneyRejected ''minor amount must be non-negative'' (
         ensure (nat i \<le> max_minor_amount) MoneyRejected ''minor amount exceeds the supported range'' (
         Inr (let a = nat i; whole = a div 10 ^ decimals; fraction = a mod 10 ^ decimals in
              if decimals = 0 then nat_str a
              else if fraction = 0 then nat_str whole
              else rstrip0 (nat_str whole @ [dot] @ zero_padded decimals fraction))))))"

section \<open>Digits\<close>

lemma digits_val_append: "digits_val (s @ t) = digits_val s * 10 ^ length t + digits_val t"
proof (induction t rule: rev_induct)
  case (snoc c t)
  have "digits_val (s @ t @ [c]) = digits_val (s @ t) * 10 + digit_val c"
    using digits_val_snoc [of "s @ t" c] by simp
  then show ?case using snoc by (simp add: digits_val_snoc algebra_simps)
qed (simp add: digits_val_def)

lemma digits_val_zeros [simp]: "digits_val (replicate k (CHR ''0'')) = 0"
  by (induction k) (simp_all add: digits_val_def digit_val_def)

lemma digits_val_ljust0: "length s \<le> w \<Longrightarrow> digits_val (ljust0 w s) = digits_val s * 10 ^ (w - length s)"
  by (simp add: ljust0_def digits_val_append)

lemma digits_val_zero_padded [simp]: "digits_val (zero_padded w n) = n"
  by (simp add: zero_padded_def digits_val_append)

lemma digits_val_bound: "list_all is_digit s \<Longrightarrow> digits_val s < 10 ^ length s"
proof (induction s rule: rev_induct)
  case (snoc c s)
  have "digit_val c \<le> 9" using snoc(2) by (auto simp: is_digit_def digit_val_def)
  then show ?case using snoc by (simp add: digits_val_snoc)
qed (simp add: digits_val_def)

lemma nat_str_length: "n < 10 ^ w \<Longrightarrow> 0 < w \<Longrightarrow> length (nat_str n) \<le> w"
proof (induction n arbitrary: w rule: nat_str.induct)
  case (1 n)
  show ?case
  proof (cases "n < 10")
    case True
    then show ?thesis using "1.prems" by (simp add: nat_str.simps [of n])
  next
    case False
    then obtain w' where w: "w = Suc w'" "0 < w'" using "1.prems" by (cases w; cases "w - 1") auto
    then have "n div 10 < 10 ^ w'" using "1.prems" by (simp add: less_mult_imp_div_less mult.commute)
    then show ?thesis using "1.IH" [OF False _ w(2)] w False by (simp add: nat_str.simps [of n])
  qed
qed

text \<open>Stripping zeros and filling up again.\<close>

lemma rstrip0_fill: "\<exists>k. s = rstrip0 s @ replicate k (CHR ''0'') \<and> (rstrip0 s = [] \<or> last (rstrip0 s) \<noteq> CHR ''0'')"
proof (induction s rule: rev_induct)
  case (snoc c s)
  show ?case
  proof (cases "c = CHR ''0''")
    case True
    then have "rstrip0 (s @ [c]) = rstrip0 s" by (simp add: rstrip0_def)
    moreover obtain k where "s = rstrip0 s @ replicate k (CHR ''0'')" "rstrip0 s = [] \<or> last (rstrip0 s) \<noteq> CHR ''0''"
      using snoc by blast
    ultimately show ?thesis using True
      by (metis append_assoc replicate_append_same replicate_Suc)
  next
    case False
    then have "rstrip0 (s @ [c]) = s @ [c]" by (simp add: rstrip0_def)
    then show ?thesis using False by (intro exI [of _ 0]) simp
  qed
qed (simp add: rstrip0_def)

section \<open>Exactness\<close>

lemma decimal_parts_Inr:
  assumes "decimal_parts v = Inr (w, f)"
  obtains t where "v = PStr t \<or> v = POther ''Decimal'' t" "plain_decimal t" "w = whole_part t" "f = fraction_part t" "length t \<le> max_amount_text_chars"
  using assms by (auto simp: decimal_parts_def ensure_Inr_iff split: pyval.splits option.splits if_splits)

text \<open>The exact value a plain decimal text spells.\<close>

definition decimal_value :: "string \<Rightarrow> rat" where
  "decimal_value t = of_nat (digits_val (whole_part t)) + of_nat (digits_val (fraction_part t)) / 10 ^ length (fraction_part t)"

text \<open>Conversion never rounds: a successful conversion of a text gives a number of minor units that is
  the exact value of the text times the currency's scale, within the 63-bit range, and positive when that is
  required.\<close>

lemma decimal_to_minor_exact:
  assumes "decimal_to_minor (PStr t) currency require_positive = Inr a" "map_of asset_decimals currency = Some decimals"
  shows "of_nat a = decimal_value t * 10 ^ decimals \<and> a \<le> 2 ^ 63 - 1 \<and> \<not> (require_positive \<and> a = 0)"
proof -
  obtain w f where p: "decimal_parts (PStr t) = Inr (w, f)" "length f \<le> decimals"
    "a = digits_val w * 10 ^ decimals + (if f \<noteq> [] then digits_val (ljust0 decimals f) else 0)" "a \<le> max_minor_amount"
    "\<not> (require_positive \<and> a = 0)"
    using assms by (auto simp: decimal_to_minor_def res_iffs Let_def)
  have wf: "w = whole_part t" "f = fraction_part t" using decimal_parts_Inr [OF p(1)] by auto
  have "(if f \<noteq> [] then digits_val (ljust0 decimals f) else 0) = digits_val f * 10 ^ (decimals - length f)"
    using digits_val_ljust0 [OF p(2)] by (simp add: digits_val_def)
  moreover have "(10 :: rat) ^ (decimals - length f) = 10 ^ decimals / 10 ^ length f" using p(2) by (simp add: power_diff)
  ultimately have "of_nat a = (of_nat (digits_val w) + of_nat (digits_val f) / 10 ^ length f) * (10 :: rat) ^ decimals"
    by (simp add: p(3) field_simps)
  then show ?thesis using p(4,5) wf by (simp add: decimal_value_def max_minor_amount_def)
qed

lemma four_zeros: "replicate 4 (CHR ''0'') = ''0000''"
  by code_simp

lemma decimal_to_minor_exact_demo:
  "of_nat 1250000 = decimal_value ''1.25'' * 10 ^ 6 \<and> (1250000 :: nat) \<le> 2 ^ 63 - 1 \<and> \<not> (True \<and> (1250000 :: nat) = 0)"
  by (rule decimal_to_minor_exact [of "''1.25''" "''USDC''" True])
     (simp_all add: decimal_to_minor_def asset_decimals_def decimal_parts_def plain_decimal_def whole_part_def fraction_part_def
       max_minor_amount_def max_amount_text_chars_def is_digit_def digits_val_def digit_val_def ljust0_def four_zeros)

section \<open>Round trip\<close>

lemma nat_str_plain: "list_all is_digit (nat_str n)" "hd (nat_str n) \<noteq> CHR ''0'' \<or> length (nat_str n) = 1"
proof -
  show "list_all is_digit (nat_str n)" using nat_str_digits by (auto simp: list_all_iff)
  show "hd (nat_str n) \<noteq> CHR ''0'' \<or> length (nat_str n) = 1"
    using nat_str_hd [of n] by (cases "n = 0") (simp_all add: nat_str_zero)
qed

lemma parts_no_dot:
  assumes "list_all is_digit w"
  shows "whole_part w = w" "fraction_part w = []" "dropWhile (\<lambda>c. c \<noteq> dot) w = []"
proof -
  have "\<forall>c \<in> set w. c \<noteq> dot" using assms by (auto simp: list_all_iff is_digit_def)
  then show "whole_part w = w" and d: "dropWhile (\<lambda>c. c \<noteq> dot) w = []"
    by (simp_all add: whole_part_def takeWhile_eq_all_conv dropWhile_eq_Nil_conv)
  show "fraction_part w = []" by (simp add: fraction_part_def d)
qed

lemma parts_dot:
  assumes "list_all is_digit w"
  shows "whole_part (w @ dot # f) = w" "fraction_part (w @ dot # f) = f" "dropWhile (\<lambda>c. c \<noteq> dot) (w @ dot # f) = dot # f"
proof -
  have "\<forall>c \<in> set w. c \<noteq> dot" using assms by (auto simp: list_all_iff is_digit_def)
  then show "whole_part (w @ dot # f) = w" "fraction_part (w @ dot # f) = f" "dropWhile (\<lambda>c. c \<noteq> dot) (w @ dot # f) = dot # f"
    by (simp_all add: whole_part_def fraction_part_def takeWhile_append2 dropWhile_append2)
qed

lemma decimal_to_minor_parts:
  assumes "map_of asset_decimals currency = Some decimals" "length t \<le> max_amount_text_chars" "plain_decimal t"
    "length (fraction_part t) \<le> decimals"
    "digits_val (whole_part t) * 10 ^ decimals + digits_val (fraction_part t) * 10 ^ (decimals - length (fraction_part t)) = a" "a \<le> max_minor_amount"
  shows "decimal_to_minor (PStr t) currency False = Inr a"
proof -
  have "(if fraction_part t \<noteq> [] then digits_val (ljust0 decimals (fraction_part t)) else 0)
      = digits_val (fraction_part t) * 10 ^ (decimals - length (fraction_part t))"
    using digits_val_ljust0 [OF assms(4)] by (simp add: digits_val_def)
  then show ?thesis using assms by (simp add: decimal_to_minor_def decimal_parts_def Let_def)
qed

lemma max_minor_digits: "a \<le> max_minor_amount \<Longrightarrow> length (nat_str (a div k)) \<le> 19"
proof -
  assume "a \<le> max_minor_amount"
  then have "a < 10 ^ 19" by (simp add: max_minor_amount_def)
  then have "a div k < 10 ^ 19" using div_le_dividend [of a k] by (rule le_less_trans [rotated])
  then show ?thesis by (rule nat_str_length) simp
qed

lemma asset_decimals_le: "map_of asset_decimals currency = Some decimals \<Longrightarrow> decimals \<le> 6"
  by (auto simp: asset_decimals_def split: if_splits)

text \<open>Amounts survive printing: every amount in range has a decimal spelling in every supported
  currency, and reading that spelling gives the amount back.\<close>

lemma money_roundtrip:
  assumes "map_of asset_decimals currency = Some decimals" "a \<le> 2 ^ 63 - 1"
  shows "\<exists>t. minor_to_decimal (PInt (int a)) currency = Inr t \<and> decimal_to_minor (PStr t) currency False = Inr a"
proof -
  let ?w = "a div 10 ^ decimals" and ?f = "a mod 10 ^ decimals"
  have max: "a \<le> max_minor_amount" using assms(2) by (simp add: max_minor_amount_def)
  have pl: "plain_decimal (nat_str k)" for k
    using nat_str_plain [of k] parts_no_dot [OF nat_str_plain(1), of k] by (simp add: plain_decimal_def)
  note parts = parts_no_dot [OF nat_str_plain(1)]
  show ?thesis
  proof (cases "decimals = 0 \<or> ?f = 0")
    case True
    then have split: "?w * 10 ^ decimals = a" by auto
    have "minor_to_decimal (PInt (int a)) currency = Inr (nat_str ?w)"
      using assms(1) max True by (auto simp: minor_to_decimal_def strict_int_def)
    moreover have "decimal_to_minor (PStr (nat_str ?w)) currency False = Inr a"
      by (rule decimal_to_minor_parts [OF assms(1) _ pl])
         (use max_minor_digits [OF max, of "10 ^ decimals"] split max in \<open>simp_all add: parts max_amount_text_chars_def, simp add: digits_val_def\<close>)
    ultimately show ?thesis by blast
  next
    case False
    let ?z = "zero_padded decimals ?f"
    have lt: "?f < 10 ^ decimals" by simp
    have len: "length ?z = decimals" using nat_str_length [OF lt] False by (simp add: zero_padded_def)
    have dig: "list_all is_digit ?z" using nat_str_plain(1) [of ?f] by (auto simp: zero_padded_def list_all_iff is_digit_def)
    obtain k where k: "?z = rstrip0 ?z @ replicate k (CHR ''0'')" using rstrip0_fill by blast
    have ne: "rstrip0 ?z \<noteq> []" using False k digits_val_zero_padded [of decimals ?f] by (metis append_Nil digits_val_zeros)
    let ?r = "rstrip0 ?z"
    let ?t = "nat_str ?w @ dot # ?r"
    have "rstrip0 (nat_str ?w @ [dot] @ ?z) = ?t"
      using ne by (simp add: rstrip0_def dropWhile_append3 dropWhile_append1 split: if_splits)
    then have m: "minor_to_decimal (PInt (int a)) currency = Inr ?t"
      using assms(1) max False by (simp add: minor_to_decimal_def strict_int_def)
    have lr: "length ?r + k = decimals" using len k by (metis length_append length_replicate)
    have dr: "list_all is_digit ?r" using dig k by (metis list_all_append)
    have "decimals - length ?r = k" using lr by linarith
    then have val: "digits_val ?r * 10 ^ (decimals - length ?r) = ?f"
      using arg_cong [OF k, of digits_val] digits_val_append [of ?r "replicate k (CHR ''0'')"] by simp
    have "decimal_to_minor (PStr ?t) currency False = Inr a"
    proof (rule decimal_to_minor_parts [OF assms(1)])
      show "plain_decimal ?t" using ne dr nat_str_plain [of ?w] parts_dot [OF nat_str_plain(1)] by (simp add: plain_decimal_def)
      show "length ?t \<le> max_amount_text_chars"
        using max_minor_digits [OF max, of "10 ^ decimals"] lr asset_decimals_le [OF assms(1)] by (simp add: max_amount_text_chars_def)
    qed (use lr val max div_mult_mod_eq [of a "10 ^ decimals"] in \<open>simp_all add: parts_dot [OF nat_str_plain(1)]\<close>)
    with m show ?thesis by blast
  qed
qed

lemma money_roundtrip_demo:
  "\<exists>t. minor_to_decimal (PInt (int 1250000)) ''USDC'' = Inr t \<and> decimal_to_minor (PStr t) ''USDC'' False = Inr 1250000"
  by (rule money_roundtrip [of _ 6]) (simp_all add: asset_decimals_def)

end
