(* ===== verification/Settlement.thy ===== *)
theory Settlement
  imports Canonical_Json Sha256
begin

text \<open>
  \<open>nth_dao/commerce/settlement.py\<close>: payment intents, the manual and the x402 adapter, and the independent
  verification of a settlement against expected terms. The payment rail is an outside service: its
  \<open>lookup\<close> and \<open>pay\<close> are parameters over a rail state, and \<open>rail_ok\<close> states what the protocol class
  documents of them. A failure carries its stable reason code; the human-readable detail is left out. JSON values
  are trees here, so the check for a container that occurs twice in a proof never fires.
\<close>

section \<open>Constants\<close>

definition adapter_manual :: string where
  "adapter_manual = ''manual''"

definition adapter_x402_testnet :: string where
  "adapter_x402_testnet = ''x402-testnet''"

definition known_adapters :: "string list" where
  "known_adapters = [adapter_manual, adapter_x402_testnet]"

definition supported_currencies :: "string list" where
  "supported_currencies = [''USDC'', ''NTH-TEST'', ''credit'']"

definition max_proof_bytes :: nat where
  "max_proof_bytes = 64 * 1024"

definition max_proof_depth :: nat where
  "max_proof_depth = 32"

definition max_proof_nodes :: nat where
  "max_proof_nodes = 4096"

definition max_settlement_future_skew_ms :: int where
  "max_settlement_future_skew_ms = 5 * 60 * 1000"

definition settlement_payload_fields :: "string list" where
  "settlement_payload_fields = [''adapter_id'', ''amount_minor'', ''currency'', ''payee_did'', ''payer_did'', ''tx_ref'', ''network'', ''proof'', ''settled_at_ms'']"

definition x402_test_networks :: "string list" where
  "x402_test_networks = [''eip155:84532'', ''eip155:11155111'', ''eip155:421614'', ''solana:EtWTRABZaYq6iMfeYKouRu166VU2xqa1'',
     ''stellar:testnet'', ''aptos:2'', ''hedera:testnet'', ''tvm:-3'']"

section \<open>Untrusted fields\<close>

definition safe_str :: "pyval option \<Rightarrow> string" where
  "safe_str v = (case v of Some (PStr s) \<Rightarrow> s | _ \<Rightarrow> [])"

definition is_wire_token :: "string \<Rightarrow> nat \<Rightarrow> bool" where
  "is_wire_token s max_chars \<longleftrightarrow> 1 \<le> length s \<and> length s \<le> max_chars \<and> list_all (\<lambda>c. 33 \<le> (of_char c :: nat) \<and> of_char c \<le> (126 :: nat)) s"

definition positive_amount :: "pyval option \<Rightarrow> int option" where
  "positive_amount v = (case v of Some (PInt i) \<Rightarrow> if 0 < i then Some i else None | _ \<Rightarrow> None)"

definition proof_key_error :: "pyval \<Rightarrow> exn option" where
  "proof_key_error k = (case k of
     PStr s \<Rightarrow> if max_proof_bytes < length s then Some (Exn ProofLimitExceeded ''proof key is too large'') else None
   | _ \<Rightarrow> Some (Exn TypeError ''proof object keys must be plain strings''))"

definition proof_keys :: "pydict \<Rightarrow> unit res" where
  "proof_keys d = (case List.map_filter (proof_key_error \<circ> fst) d of [] \<Rightarrow> Inr () | e # _ \<Rightarrow> Inl e)"

definition proof_container :: "nat \<Rightarrow> nat \<Rightarrow> 'a res \<Rightarrow> 'a res" where
  "proof_container depth entries k =
     ensure (\<not> (max_proof_depth \<le> depth \<and> entries \<noteq> 0)) ProofLimitExceeded ''proof is nested too deeply'' (
     ensure (entries \<le> max_proof_nodes) ProofLimitExceeded ''proof container has too many entries'' k)"

lemma size_list_rev_push:
  "size_list (\<lambda>(v, d). size v) (rev (map (\<lambda>x. (x, n)) xs) @ stack) = size_list size xs + size_list (\<lambda>(v, d). size v) stack"
  by (induction xs arbitrary: stack) auto

lemma size_list_rev_push_dict:
  "size_list (\<lambda>(v, d). size v) (rev (map (\<lambda>(k, x). (x, n)) ys) @ stack) \<le> size_list (size_prod size size) ys + size_list (\<lambda>(v, d). size v) stack"
  by (induction ys arbitrary: stack) (auto intro: order_trans)

function proof_scan :: "(pyval \<times> nat) list \<Rightarrow> nat \<Rightarrow> unit res" where
  "proof_scan [] nodes = Inr ()"
| "proof_scan ((v, depth) # stack) nodes =
     ensure (nodes + 1 \<le> max_proof_nodes) ProofLimitExceeded ''proof has too many JSON nodes'' (case v of
       PNone \<Rightarrow> proof_scan stack (nodes + 1)
     | PBool _ \<Rightarrow> proof_scan stack (nodes + 1)
     | PInt i \<Rightarrow> if max_proof_bytes * 4 < bit_length (nat \<bar>i\<bar>) then raise ProofLimitExceeded ''proof integer is too large''
                 else proof_scan stack (nodes + 1)
     | PStr s \<Rightarrow> if max_proof_bytes < length s then raise ProofLimitExceeded ''proof string is too large'' else proof_scan stack (nodes + 1)
     | PDict d \<Rightarrow> (case proof_container depth (length d) (proof_keys d) of
           Inl e \<Rightarrow> Inl e
         | Inr _ \<Rightarrow> proof_scan (rev (map (\<lambda>(k, x). (x, depth + 1)) d) @ stack) (nodes + 1))
     | PList xs \<Rightarrow> (case proof_container depth (length xs) (Inr ()) of
           Inl e \<Rightarrow> Inl e
         | Inr _ \<Rightarrow> proof_scan (rev (map (\<lambda>x. (x, depth + 1)) xs) @ stack) (nodes + 1))
     | _ \<Rightarrow> raise TypeError ''proof contains a non-JSON value'')"
  by pat_completeness auto
termination
proof (relation "measure (\<lambda>(stack, nodes). size_list (\<lambda>(v, d). size v) stack)", goal_cases)
  case (6 v depth stack nodes xs)
  then show ?case using size_list_rev_push [of "depth + 1" xs stack] by simp
next
  case (7 v depth stack nodes d)
  then show ?case using size_list_rev_push_dict [of "depth + 1" d stack] by simp
qed auto

definition proof_encoded_size :: "pyval \<Rightarrow> nat res" where
  "proof_encoded_size proof' =
     ensure (is_dict proof') TypeError ''proof must be a plain JSON object'' (
     bindR (proof_scan [(proof', 0)] 0) (\<lambda>_.
     bindR (canonical_json (PDict [(PStr ''proof'', proof')])) (\<lambda>encoded.
     ensure (length encoded \<le> max_proof_bytes) ProofLimitExceeded ''proof exceeds the encoded byte limit'' (Inr (length encoded)))))"

section \<open>Intents\<close>

record settlement_intent =
  i_trade_id :: string
  i_amount_minor :: pyval
  i_currency :: string
  i_payee_did :: string
  i_payer_did :: string
  i_memo :: string

definition did_text_ok :: "string \<Rightarrow> bool" where
  "did_text_ok s \<longleftrightarrow> s = [] \<or> (startswith s ''did:'' \<and> \<not> list_ex py_isspace s)"

definition intent_validate :: "settlement_intent \<Rightarrow> unit res" where
  "intent_validate i =
     (let text_ok = (\<lambda>s m allow_empty. (allow_empty \<or> s \<noteq> []) \<and> length s \<le> m) in
      ensure (text_ok (i_trade_id i) 256 False \<and> text_ok (i_currency i) 32 False \<and> text_ok (i_payee_did i) 512 False
              \<and> text_ok (i_payer_did i) 512 True \<and> text_ok (i_memo i) 2048 True) SettlementFailed ''settlement-intent-invalid'' (
      ensure (did_text_ok (i_payee_did i) \<and> did_text_ok (i_payer_did i)) SettlementFailed ''settlement-intent-invalid'' (
      ensure (positive_amount (Some (i_amount_minor i)) \<noteq> None) SettlementFailed ''settlement-amount-invalid'' (
      ensure (i_currency i \<in> set supported_currencies) SettlementFailed ''settlement-currency-unsupported'' (
      ensure (i_payee_did i \<noteq> []) SettlementFailed ''settlement-payee-mismatch'' (Inr ()))))))"

definition settlement_idempotency_key :: "settlement_intent \<Rightarrow> string res" where
  "settlement_idempotency_key i =
     bindR (intent_validate i) (\<lambda>_.
     bindR (canonical_json (PDict (obj [(''kind'', PStr ''nth/commerce-settlement-intent@1''), (''trade_id'', PStr (i_trade_id i)),
        (''amount_minor'', i_amount_minor i), (''currency'', PStr (i_currency i)), (''payee_did'', PStr (i_payee_did i)),
        (''payer_did'', PStr (i_payer_did i))]))) (\<lambda>body.
     Inr (''nth-settlement:v1:sha256:'' @ sha256_hex body)))"

section \<open>Adapters\<close>

record settlement_result =
  x_adapter_id :: string
  x_amount_minor :: pyval
  x_currency :: string
  x_payee_did :: string
  x_payer_did :: string
  x_tx_ref :: string
  x_network :: string
  x_proof :: pydict
  x_settled_at_ms :: int

definition to_payload :: "settlement_result \<Rightarrow> pydict" where
  "to_payload r = obj [(''adapter_id'', PStr (x_adapter_id r)), (''amount_minor'', x_amount_minor r), (''currency'', PStr (x_currency r)),
     (''payee_did'', PStr (x_payee_did r)), (''payer_did'', PStr (x_payer_did r)), (''tx_ref'', PStr (x_tx_ref r)),
     (''network'', PStr (x_network r)), (''proof'', PDict (x_proof r)), (''settled_at_ms'', PInt (x_settled_at_ms r))]"

definition manual_settle :: "settlement_intent \<Rightarrow> int \<Rightarrow> settlement_result res" where
  "manual_settle i now = bindR (intent_validate i) (\<lambda>_. Inr \<lparr>x_adapter_id = adapter_manual, x_amount_minor = i_amount_minor i,
     x_currency = i_currency i, x_payee_did = i_payee_did i, x_payer_did = i_payer_did i, x_tx_ref = [], x_network = [], x_proof = [],
     x_settled_at_ms = now\<rparr>)"

record rail_receipt =
  rc_tx_ref :: string
  rc_status :: string
  rc_proof :: pyval
  rc_idempotency_key :: string

text \<open>Both calls of a rail may raise. The exception may be a \<open>SettlementFailed\<close> that says the payment may have been made, and then carries a provider reference
  and a digest of the evidence.\<close>

type_synonym evidence = "string \<times> string"

type_synonym rail_error = "exn \<times> evidence option"

record 'r payment_rail =
  rail_network :: string
  rail_lookup :: "string \<Rightarrow> 'r \<Rightarrow> rail_error + rail_receipt option"
  rail_pay :: "string \<Rightarrow> pyval \<Rightarrow> string \<Rightarrow> string \<Rightarrow> string \<Rightarrow> 'r \<Rightarrow> 'r \<times> (rail_error + rail_receipt)"

text \<open>\<open>rail.lookup(...)\<close> and, when it finds nothing, \<open>rail.pay(...)\<close>.\<close>

definition rail_receipt_for :: "'r payment_rail \<Rightarrow> settlement_intent \<Rightarrow> string \<Rightarrow> 'r \<Rightarrow> 'r \<times> (rail_error + rail_receipt)" where
  "rail_receipt_for rail i key r = (case rail_lookup rail key r of
     Inl e \<Rightarrow> (r, Inl e)
   | Inr (Some receipt) \<Rightarrow> (r, Inr receipt)
   | Inr None \<Rightarrow> rail_pay rail (i_payee_did i) (i_amount_minor i) (i_currency i) (i_memo i) key r)"

definition x402_network :: "string \<Rightarrow> string res" where
  "x402_network network =
     ensure (network \<noteq> []) SettlementFailed ''settlement-network-missing'' (
     ensure (is_wire_token network 128) SettlementFailed ''settlement-receipt-invalid'' (
     ensure (network \<in> set x402_test_networks) SettlementFailed ''settlement-network-not-testnet'' (Inr network)))"

definition result_from_receipt :: "settlement_intent \<Rightarrow> rail_receipt \<Rightarrow> string \<Rightarrow> int \<Rightarrow> settlement_result res" where
  "result_from_receipt i receipt network now =
     bindR (settlement_idempotency_key i) (\<lambda>key.
     ensure (rc_idempotency_key receipt = key) SettlementFailed ''settlement-idempotency-key-mismatch'' (
     ensure (rc_status receipt = ''confirmed'') SettlementFailed ''settlement-receipt-not-confirmed'' (
     ensure (rc_tx_ref receipt \<noteq> []) SettlementFailed ''settlement-tx-ref-missing'' (
     ensure (is_wire_token (rc_tx_ref receipt) 512) SettlementFailed ''settlement-receipt-invalid'' (
     let proof' = (case rc_proof receipt of PDict d \<Rightarrow> d | _ \<Rightarrow> []) in
     case proof_encoded_size (PDict proof') of
       Inl e \<Rightarrow> raise SettlementFailed (if exn_cls e = ProofLimitExceeded then ''settlement-receipt-too-large'' else ''settlement-receipt-invalid'')
     | Inr _ \<Rightarrow>
         let proof_key = safe_str (dget proof' ''idempotency_key'') in
         ensure (proof_key = [] \<or> proof_key = key) SettlementFailed ''settlement-idempotency-key-mismatch'' (
         ensure (without_key ''idempotency_key'' proof' \<noteq> []) SettlementFailed ''settlement-proof-missing'' (
         Inr \<lparr>x_adapter_id = adapter_x402_testnet, x_amount_minor = i_amount_minor i, x_currency = i_currency i,
              x_payee_did = i_payee_did i, x_payer_did = i_payer_did i, x_tx_ref = rc_tx_ref receipt, x_network = network,
              x_proof = dput proof' ''idempotency_key'' (PStr key), x_settled_at_ms = now\<rparr>)))))))"

definition lookup_settlement :: "'r payment_rail \<Rightarrow> settlement_intent \<Rightarrow> int \<Rightarrow> 'r \<Rightarrow> settlement_result option res" where
  "lookup_settlement rail i now r =
     bindR (intent_validate i) (\<lambda>_.
     bindR (x402_network (rail_network rail)) (\<lambda>network.
     bindR (settlement_idempotency_key i) (\<lambda>key.
     (case rail_lookup rail key r of
        Inl (e, _) \<Rightarrow> Inl e
      | Inr None \<Rightarrow> Inr None
      | Inr (Some receipt) \<Rightarrow> bindR (result_from_receipt i receipt network now) (\<lambda>x. Inr (Some x))))))"

definition x402_settle :: "'r payment_rail \<Rightarrow> settlement_intent \<Rightarrow> int \<Rightarrow> 'r \<Rightarrow> 'r \<times> settlement_result res" where
  "x402_settle rail i now r =
     (case bindR (intent_validate i) (\<lambda>_. bindR (x402_network (rail_network rail)) (\<lambda>network.
           bindR (settlement_idempotency_key i) (\<lambda>key. Inr (network, key)))) of
        Inl e \<Rightarrow> (r, Inl e)
      | Inr (network, key) \<Rightarrow>
          (case rail_receipt_for rail i key r of
             (r', Inl (e, _)) \<Rightarrow> (r', Inl e)
           | (r', Inr receipt) \<Rightarrow> (r', result_from_receipt i receipt network now)))"

section \<open>Independent verification\<close>

definition x402_evidence :: "pydict \<Rightarrow> string \<Rightarrow> bool \<times> string" where
  "x402_evidence d payer =
     (let tx_ref = safe_str (dget d ''tx_ref''); network = safe_str (dget d ''network'') in
      if payer = [] then (False, ''settlement-payer-mismatch'')
      else if tx_ref = [] then (False, ''settlement-tx-ref-missing'')
      else if \<not> is_wire_token tx_ref 512 then (False, ''settlement-receipt-invalid'')
      else if network = [] then (False, ''settlement-network-missing'')
      else if \<not> is_wire_token network 128 then (False, ''settlement-receipt-invalid'')
      else if network \<notin> set x402_test_networks then (False, ''settlement-network-not-testnet'')
      else case dget d ''proof'' of
        Some (PDict p) \<Rightarrow>
          if p = [] then (False, ''settlement-proof-missing'')
          else (case proof_encoded_size (PDict p) of
            Inl e \<Rightarrow> (False, if exn_cls e = ProofLimitExceeded then ''settlement-receipt-too-large'' else ''settlement-receipt-invalid'')
          | Inr _ \<Rightarrow> (True, ''ok''))
      | _ \<Rightarrow> (False, ''settlement-proof-missing''))"

definition verify_settlement :: "pyval \<Rightarrow> int \<Rightarrow> int \<Rightarrow> string \<Rightarrow> string \<Rightarrow> string \<Rightarrow> bool \<times> string" where
  "verify_settlement settlement now expected_amount_minor expected_currency expected_payee_did expected_payer_did = (case settlement of
     PDict d \<Rightarrow>
       (let adapter_id = safe_str (dget d ''adapter_id''); currency = safe_str (dget d ''currency''); payee = safe_str (dget d ''payee_did'') in
        if \<not> same_keys d settlement_payload_fields then (False, ''settlement-schema-invalid'')
        else if adapter_id \<notin> set known_adapters then (False, ''settlement-unknown-adapter'')
        else case positive_amount (dget d ''amount_minor'') of
          None \<Rightarrow> (False, ''settlement-amount-invalid'')
        | Some amount \<Rightarrow>
            if amount \<noteq> expected_amount_minor then (False, ''settlement-amount-mismatch'')
            else if currency \<notin> set supported_currencies then (False, ''settlement-currency-unsupported'')
            else if currency \<noteq> expected_currency then (False, ''settlement-currency-mismatch'')
            else if \<not> startswith payee ''did:'' \<or> 512 < length payee \<or> list_ex py_isspace payee then (False, ''settlement-schema-invalid'')
            else if payee \<noteq> expected_payee_did then (False, ''settlement-payee-mismatch'')
            else case dget d ''payer_did'' of
              Some (PStr payer) \<Rightarrow>
                if 512 < length payer \<or> (payer \<noteq> [] \<and> \<not> startswith payer ''did:'') \<or> list_ex py_isspace payer
                then (False, ''settlement-schema-invalid'')
                else if expected_payer_did \<noteq> [] \<and> payer \<noteq> expected_payer_did then (False, ''settlement-payer-mismatch'')
                else (case positive_amount (dget d ''settled_at_ms'') of
                  None \<Rightarrow> (False, ''settlement-settled-at-invalid'')
                | Some at_ms \<Rightarrow>
                    if now + max_settlement_future_skew_ms < at_ms then (False, ''settlement-settled-at-invalid'')
                    else if adapter_id = adapter_x402_testnet then x402_evidence d payer
                    else if dget d ''tx_ref'' \<noteq> Some (PStr []) \<or> dget d ''network'' \<noteq> Some (PStr []) \<or> dget d ''proof'' \<noteq> Some (PDict [])
                    then (False, ''settlement-schema-invalid'')
                    else (True, ''ok''))
            | _ \<Rightarrow> (False, ''settlement-schema-invalid''))
   | _ \<Rightarrow> (False, ''settlement-schema-invalid''))"

section \<open>What verification and the adapters guarantee\<close>

text \<open>An accepted settlement pays the terms: it names a known adapter, exactly the expected amount, currency
  and payee, the expected payer when one is expected, and an x402 settlement carries a payer, a test network and a transaction.\<close>

lemma verify_settlement_sound:
  assumes "verify_settlement (PDict d) now amount currency payee payer = (True, m)"
  shows "dget d ''amount_minor'' = Some (PInt amount) \<and> 0 < amount \<and> dget d ''currency'' = Some (PStr currency)
     \<and> dget d ''payee_did'' = Some (PStr payee) \<and> (payer = [] \<or> dget d ''payer_did'' = Some (PStr payer))
     \<and> (dget d ''adapter_id'' = Some (PStr adapter_manual) \<or>
        dget d ''adapter_id'' = Some (PStr adapter_x402_testnet) \<and> dget d ''payer_did'' \<noteq> Some (PStr []) \<and> nonempty_str (dget d ''tx_ref'')
          \<and> safe_str (dget d ''network'') \<in> set x402_test_networks)"
proof -
  have str: "v = Some (PStr s)" if "safe_str v = s" "s \<noteq> []" for v s
    using that by (auto simp: safe_str_def split: option.splits pyval.splits)
  note v = assms [unfolded verify_settlement_def pyval.case Let_def]
  have a: "positive_amount (dget d ''amount_minor'') = Some amount" using v by (auto split: if_splits option.splits)
  have c: "safe_str (dget d ''currency'') = currency" "currency \<in> set supported_currencies" "safe_str (dget d ''payee_did'') = payee" "startswith payee ''did:''"
    "safe_str (dget d ''adapter_id'') \<in> set known_adapters"
    using v a by (auto split: if_splits)
  obtain p where p: "dget d ''payer_did'' = Some (PStr p)" "payer = [] \<or> p = payer"
    using v a c by (auto split: if_splits option.splits pyval.splits)
  have e: "safe_str (dget d ''adapter_id'') = adapter_x402_testnet \<Longrightarrow> fst (x402_evidence d p)"
    using v a c p by (auto split: if_splits option.splits)
  have x: "p \<noteq> [] \<and> nonempty_str (dget d ''tx_ref'') \<and> safe_str (dget d ''network'') \<in> set x402_test_networks" if "fst (x402_evidence d p)"
    using that by (auto simp: x402_evidence_def Let_def nonempty_str_def safe_str_def split: if_splits option.splits pyval.splits)
  have "dget d ''amount_minor'' = Some (PInt amount) \<and> 0 < amount"
    using a by (auto simp: positive_amount_def split: option.splits pyval.splits if_splits)
  moreover have "currency \<noteq> []" "payee \<noteq> []" using c(2,4) by (auto simp: supported_currencies_def startswith_def)
  moreover from this have "dget d ''currency'' = Some (PStr currency)" "dget d ''payee_did'' = Some (PStr payee)" using str c by blast+
  moreover have "dget d ''adapter_id'' = Some (PStr adapter_manual) \<or>
      dget d ''adapter_id'' = Some (PStr adapter_x402_testnet) \<and> safe_str (dget d ''adapter_id'') = adapter_x402_testnet"
    using c(5) str [of "dget d ''adapter_id''"] by (auto simp: known_adapters_def adapter_manual_def adapter_x402_testnet_def)
  ultimately show ?thesis using p e x by auto
qed

text \<open>A manual settlement of a valid intent verifies against the intent's own terms at the instant it was made.\<close>

lemma manual_settlement_verifies:
  assumes "manual_settle i now = Inr r" "0 < now" "i_amount_minor i = PInt a" "payer = [] \<or> payer = i_payer_did i"
  shows "verify_settlement (PDict (to_payload r)) now a (i_currency i) (i_payee_did i) payer = (True, ''ok'')"
proof -
  have ok: "intent_validate i = Inr ()" and r: "r = \<lparr>x_adapter_id = adapter_manual, x_amount_minor = i_amount_minor i,
     x_currency = i_currency i, x_payee_did = i_payee_did i, x_payer_did = i_payer_did i, x_tx_ref = [], x_network = [], x_proof = [],
     x_settled_at_ms = now\<rparr>"
    using assms(1) by (auto simp: manual_settle_def bindR_Inr_iff)
  have "0 < a" "i_currency i \<in> set supported_currencies" "did_text_ok (i_payee_did i)" "did_text_ok (i_payer_did i)" "i_payee_did i \<noteq> []"
    "length (i_payee_did i) \<le> 512" "length (i_payer_did i) \<le> 512"
    using ok assms(3) by (auto simp: intent_validate_def ensure_Inr_iff positive_amount_def split: if_splits)
  moreover have "same_keys (to_payload r) settlement_payload_fields"
    by (auto simp: same_keys_def to_payload_def settlement_payload_fields_def obj_def)
  ultimately show ?thesis using assms(2-4)
    by (auto simp: verify_settlement_def to_payload_def r obj_def safe_str_def positive_amount_def known_adapters_def adapter_manual_def
        adapter_x402_testnet_def did_text_ok_def max_settlement_future_skew_ms_def)
qed

section \<open>One obligation, one payment\<close>

text \<open>What the protocol of a payment rail promises: a payment made under a key is found under that key from
  then on.\<close>

definition rail_ok :: "'r payment_rail \<Rightarrow> bool" where
  "rail_ok rail \<longleftrightarrow> (\<forall>payee amount currency memo key r r' res. rail_pay rail payee amount currency memo key r = (r', res) \<longrightarrow>
     (\<forall>receipt. res = Inr receipt \<longrightarrow> rail_lookup rail key r' = Inr (Some receipt)))"

lemma rail_found:
  obtains (found) receipt where "rail_lookup rail key r = Inr (Some receipt)" | (failed) e ev where "rail_lookup rail key r = Inl (e, ev)" | (unknown) "rail_lookup rail key r = Inr None"
proof (cases "rail_lookup rail key r")
  case (Inl x)
  then show ?thesis using that(2) by (cases x) simp
next
  case (Inr x)
  then show ?thesis using that(1,3) by (cases x) simp_all
qed

text \<open>A settled obligation is not paid twice: once a settlement of an intent has reached the rail and got a
  receipt, settling any intent with the same obligation (the memo may differ) leaves the rail untouched.\<close>

lemma settled_obligation_not_paid_again:
  assumes "rail_ok rail" "x402_settle rail i now r = (r', Inr x)"
    "j = i\<lparr>i_memo := memo\<rparr>" "length memo \<le> 2048"
  shows "\<exists>y. x402_settle rail j now' r' = (r', Inr y) \<and> x_tx_ref y = x_tx_ref x"
proof -
  obtain network key receipt where k: "intent_validate i = Inr ()" "x402_network (rail_network rail) = Inr network" "settlement_idempotency_key i = Inr key"
    and res: "result_from_receipt i receipt network now = Inr x"
    and look: "rail_lookup rail key r' = Inr (Some receipt)"
  proof -
    obtain network key where nk: "intent_validate i = Inr ()" "x402_network (rail_network rail) = Inr network" "settlement_idempotency_key i = Inr key"
      using assms(2) by (auto simp: x402_settle_def bindR_Inr_iff bindR_Inl_iff split: sum.splits)
    show thesis
    proof (cases rule: rail_found [of rail key r])
      case (found receipt)
      then show ?thesis using that [OF nk] assms(2) nk by (auto simp: x402_settle_def rail_receipt_for_def)
    next
      case (failed e ev)
      then show ?thesis using assms(2) nk by (simp add: x402_settle_def rail_receipt_for_def)
    next
      case unknown
      obtain r2 out where pay: "rail_pay rail (i_payee_did i) (i_amount_minor i) (i_currency i) (i_memo i) key r = (r2, out)" by fastforce
      then obtain receipt where "out = Inr receipt" "r2 = r'" "result_from_receipt i receipt network now = Inr x"
        using assms(2) nk unknown by (cases out) (auto simp: x402_settle_def rail_receipt_for_def)
      then show ?thesis using that [OF nk] pay assms(1) by (auto simp: rail_ok_def)
    qed
  qed
  have vj: "intent_validate j = Inr ()" using k(1) assms(3,4) by (simp add: intent_validate_def ensure_Inr_iff)
  have kj: "settlement_idempotency_key j = Inr key" using k(1,3) vj assms(3) by (simp add: settlement_idempotency_key_def)
  have "result_from_receipt j receipt network now' = Inr (x\<lparr>x_settled_at_ms := now'\<rparr>)"
    using res k(3) kj assms(3) by (auto simp: result_from_receipt_def ensure_Inr_iff Let_def split: sum.splits)
  then show ?thesis using vj kj k(2) look by (simp add: x402_settle_def rail_receipt_for_def)
qed

section \<open>A concrete obligation\<close>

definition demo_intent :: settlement_intent where
  "demo_intent = \<lparr>i_trade_id = ''t1'', i_amount_minor = PInt 5, i_currency = ''USDC'', i_payee_did = ''did:b'', i_payer_did = ''did:a'', i_memo = []\<rparr>"

definition demo_rail :: "(string \<times> rail_receipt) list payment_rail" where
  "demo_rail = \<lparr>rail_network = ''aptos:2'', rail_lookup = (\<lambda>key r. Inr (map_of r key)),
     rail_pay = (\<lambda>payee amount currency memo key r. let receipt = \<lparr>rc_tx_ref = ''tx'', rc_status = ''confirmed'',
        rc_proof = PDict [(PStr ''p'', PBool True)], rc_idempotency_key = key\<rparr> in ((key, receipt) # r, Inr receipt))\<rparr>"

lemma demo_rail_ok: "rail_ok demo_rail"
  by (auto simp: rail_ok_def demo_rail_def Let_def)

lemma demo_intent_valid: "intent_validate demo_intent = Inr ()"
  by code_simp

lemma demo_key: "\<exists>key. settlement_idempotency_key demo_intent = Inr key"
proof -
  have "wf_json (PDict (obj [(''kind'', PStr ''nth/commerce-settlement-intent@1''), (''trade_id'', PStr (i_trade_id demo_intent)),
        (''amount_minor'', i_amount_minor demo_intent), (''currency'', PStr (i_currency demo_intent)), (''payee_did'', PStr (i_payee_did demo_intent)),
        (''payer_did'', PStr (i_payer_did demo_intent))]))"
    by (simp add: demo_intent_def obj_def is_str_def)
  from canonical_json_wf [OF this] show ?thesis by (simp add: settlement_idempotency_key_def demo_intent_valid)
qed

lemma demo_proof_size: "\<exists>n. proof_encoded_size (PDict [(PStr ''p'', PBool True)]) = Inr n"
proof -
  let ?v = "PDict [(PStr ''proof'', PDict [(PStr ''p'', PBool True)])]"
  have "wf_json ?v" by (simp add: is_str_def)
  then have "canonical_json ?v = Inr (utf8 (json_dumps False ?v))" by (rule canonical_json_wf)
  moreover have "length (utf8 (json_dumps False ?v)) = 20" by code_simp
  moreover have "proof_scan [(PDict [(PStr ''p'', PBool True)], 0)] 0 = Inr ()"
    by (simp add: proof_container_def proof_keys_def proof_key_error_def List.map_filter_def max_proof_nodes_def max_proof_depth_def max_proof_bytes_def)
  ultimately show ?thesis by (simp add: proof_encoded_size_def is_dict_def max_proof_bytes_def)
qed

lemma demo_paid: "\<exists>r' x. x402_settle demo_rail demo_intent 1 [] = (r', Inr x)"
proof -
  obtain key where key: "settlement_idempotency_key demo_intent = Inr key" using demo_key by blast
  obtain n where n: "proof_encoded_size (PDict [(PStr ''p'', PBool True)]) = Inr n" using demo_proof_size by blast
  have "x402_network ''aptos:2'' = Inr ''aptos:2''" "is_wire_token ''tx'' 512" by code_simp+
  then show ?thesis using key n demo_intent_valid
    by (simp add: x402_settle_def rail_receipt_for_def demo_rail_def result_from_receipt_def safe_str_def without_key_def Let_def)
qed

lemma settled_obligation_not_paid_again_demo:
  "\<exists>r' x y. x402_settle demo_rail demo_intent 1 [] = (r', Inr x)
     \<and> x402_settle demo_rail (demo_intent\<lparr>i_memo := ''again''\<rparr>) 2 r' = (r', Inr y) \<and> x_tx_ref y = x_tx_ref x"
proof -
  obtain r' x where p: "x402_settle demo_rail demo_intent 1 [] = (r', Inr x)" using demo_paid by blast
  have "length ''again'' \<le> 2048" by simp
  from settled_obligation_not_paid_again [OF demo_rail_ok p refl this] p show ?thesis by blast
qed

lemma verify_settlement_sound_demo:
  "\<exists>r. manual_settle demo_intent 9 = Inr r \<and> dget (to_payload r) ''amount_minor'' = Some (PInt 5) \<and> dget (to_payload r) ''payee_did'' = Some (PStr ''did:b'')"
proof -
  obtain r where r: "manual_settle demo_intent 9 = Inr r" by (simp add: manual_settle_def demo_intent_valid)
  have "verify_settlement (PDict (to_payload r)) 9 5 ''USDC'' ''did:b'' ''did:a'' = (True, ''ok'')"
    using manual_settlement_verifies [OF r, of 5 "''did:a''"] by (simp add: demo_intent_def)
  from verify_settlement_sound [OF this] r show ?thesis by blast
qed

end
