(* ===== verification/Trade.thy ===== *)
theory Trade
  imports Signed_Statement Settlement
begin

text \<open>
  \<open>nth_dao/commerce/trade.py\<close>: a trade is a list of signed events, its state is what the events fold to, and
  \<open>verify_trade\<close> replays the list against the transition table and the roles bound by the opening
  event. Stored documents are arbitrary JSON values, so every field of an event is checked as the
  code checks it. A rejection carries its reason code; inside the replay it is raised and turned into
  a verdict at the end. An event whose type is a list or an object makes the table lookup raise \<open>TypeError\<close>.
\<close>

section \<open>Events\<close>

definition max_trade_payload_bytes :: nat where
  "max_trade_payload_bytes = 256 * 1024"

definition max_trade_chain_bytes :: nat where
  "max_trade_chain_bytes = 320 * 1024"

definition trade_body_fields :: "string list" where
  "trade_body_fields = [''trade_id'', ''seq'', ''type'', ''actor_did'', ''prev_state'', ''new_state'', ''payload'', ''created_at_ms'', ''kind'']"

definition trade_event_fields :: "string list" where
  "trade_event_fields = trade_body_fields @ [''event_sig'']"

definition trade_signing_body :: "pydict \<Rightarrow> pydict" where
  "trade_signing_body ev = map (\<lambda>f. (PStr f, dget_or ev f PNone)) trade_body_fields"

definition sign_trade_event :: "nacl \<Rightarrow> identity \<Rightarrow> pydict \<Rightarrow> pydict res" where
  "sign_trade_event n actor ev =
     bindR (canonical_json (PDict (trade_signing_body ev))) (\<lambda>bs.
     bindR (identity_sign n actor bs) (\<lambda>s. Inr (trade_signing_body ev @ [(PStr ''event_sig'', PStr (b64u_encode s))])))"

definition verify_trade_event :: "nacl \<Rightarrow> pydict \<Rightarrow> bool \<times> string" where
  "verify_trade_event n ev =
     (if \<not> nacl_available n then (False, ''crypto-unavailable'')
      else if \<not> is_did_key (dget_or ev ''actor_did'' PNone) then (False, ''event-bad-actor-did'')
      else case decode_ed25519_did_key (the_str (dget ev ''actor_did'')) of
        Inl _ \<Rightarrow> (False, ''event-bad-actor-did'')
      | Inr pk \<Rightarrow>
          (case dget ev ''event_sig'' of
             Some (PStr sg) \<Rightarrow>
               if \<not> (1 \<le> length sg \<and> length sg \<le> 128) then (False, ''event-sig-invalid'')
               else (case b64u_decode sg of
                 Inl _ \<Rightarrow> (False, ''event-sig-invalid'')
               | Inr s \<Rightarrow>
                   if length s \<noteq> 64 \<or> b64u_encode s \<noteq> sg then (False, ''event-sig-invalid'')
                   else (case canonical_json (PDict (trade_signing_body ev)) of
                     Inl _ \<Rightarrow> (False, ''event-sig-invalid'')
                   | Inr body \<Rightarrow> if nacl_verify n pk body s then (True, []) else (False, ''event-sig-invalid'')))
           | _ \<Rightarrow> (False, ''event-sig-invalid'')))"

section \<open>The transition table\<close>

definition legal_prior :: "string \<Rightarrow> string list" where
  "legal_prior ty =
     (if ty = ''trade_opened'' then [[]]
      else if ty = ''delivery_submitted'' then [''executing'']
      else if ty = ''verification_recorded'' then [''delivered'']
      else if ty = ''settlement_recorded'' then [''verified'']
      else if ty = ''dispute_opened'' then [''delivered'', ''verified'', ''failed'']
      else if ty = ''dispute_resolved'' then [''disputed'']
      else [])"

definition expected_new_state :: "string \<Rightarrow> pydict \<Rightarrow> string option" where
  "expected_new_state ty payload =
     (if ty = ''trade_opened'' then Some ''executing''
      else if ty = ''delivery_submitted'' then Some ''delivered''
      else if ty = ''verification_recorded''
      then (if dget payload ''verdict'' = Some (PStr ''pass'') then Some ''verified''
            else if dget payload ''verdict'' = Some (PStr ''fail'') then Some ''failed'' else None)
      else if ty = ''settlement_recorded'' then Some ''settled''
      else if ty = ''dispute_opened'' then Some ''disputed''
      else if ty = ''dispute_resolved''
      then (if dget payload ''resolution'' = Some (PStr ''settle'') then Some ''settled''
            else if dget payload ''resolution'' = Some (PStr ''refund'') then Some ''refunded''
            else if dget payload ''resolution'' = Some (PStr ''split'') then Some ''split_settled'' else None)
      else None)"

record trade_parties =
  p_claimant :: string
  p_publisher :: string
  p_verifier :: string
  p_settler :: string
  p_resolver :: string

definition payload_parties :: "pydict \<Rightarrow> trade_parties" where
  "payload_parties p =
     (let g = (\<lambda>k. py_str (dget_or p k (PStr []))) in
      \<lparr>p_claimant = g ''claimant_did'', p_publisher = g ''publisher_did'', p_verifier = g ''verifier_did'', p_settler = g ''settler_did'',
       p_resolver = g ''resolver_did''\<rparr>)"

definition parties_of :: "pyval list \<Rightarrow> trade_parties res" where
  "parties_of events = (case events of
     PDict d # _ \<Rightarrow> (case dget_or d ''payload'' (PDict []) of
         PDict p \<Rightarrow> Inr (payload_parties p)
       | _ \<Rightarrow> raise AttributeError ''object has no attribute get'')
   | _ \<Rightarrow> Inr (payload_parties []))"

definition trade_terms :: "pyval list \<Rightarrow> pydict option" where
  "trade_terms events = (case events of
     PDict d # _ \<Rightarrow> (case dget_or d ''payload'' (PDict []) of
         PDict p \<Rightarrow> (case dget p ''terms'' of Some (PDict t) \<Rightarrow> Some t | _ \<Rightarrow> None)
       | _ \<Rightarrow> None)
   | _ \<Rightarrow> None)"

definition allowed_roles :: "trade_parties \<Rightarrow> string \<Rightarrow> string list" where
  "allowed_roles ps ty = filter (\<lambda>d. d \<noteq> [])
     (if ty = ''delivery_submitted'' then [p_claimant ps]
      else if ty = ''verification_recorded'' then [p_verifier ps]
      else if ty = ''settlement_recorded'' then [p_settler ps]
      else if ty = ''dispute_opened'' then [p_publisher ps, p_claimant ps]
      else if ty = ''dispute_resolved'' then [p_resolver ps]
      else [])"

section \<open>Settlement against the signed terms\<close>

definition rejected :: "string \<Rightarrow> 'a res" where
  "rejected why = raise TradeRejected why"

definition settlement_of :: "pydict \<Rightarrow> pyval" where
  "settlement_of p = dget_or p ''settlement'' (PDict [])"

definition check_direct :: "int \<Rightarrow> pydict \<Rightarrow> trade_parties \<Rightarrow> pydict \<Rightarrow> unit res" where
  "check_direct now terms ps p =
     (let settlement = (if is_dict (settlement_of p) then settlement_of p else PDict []);
          expected = (case dget terms ''amount_minor'' of Some (PInt a) \<Rightarrow> a | _ \<Rightarrow> - 1) in
      case verify_settlement settlement now expected (py_str (dget_or terms ''currency'' (PStr []))) (py_str (dget_or terms ''payee_did'' (PStr [])))
             (p_publisher ps) of
        (True, _) \<Rightarrow> Inr ()
      | (False, reason) \<Rightarrow> rejected reason)"

definition check_refund :: "int \<Rightarrow> string \<Rightarrow> trade_parties \<Rightarrow> pydict \<Rightarrow> bool" where
  "check_refund amount currency ps s \<longleftrightarrow>
     dget s ''adapter_id'' = Some (PStr ''manual'') \<and> py_eq (dget_or s ''amount_minor'' PNone) (PInt 0)
     \<and> py_eq (dget_or s ''refunded_amount_minor'' PNone) (PInt amount) \<and> dget s ''currency'' = Some (PStr currency)
     \<and> dget s ''payee_did'' = Some (PStr (p_publisher ps)) \<and> dget s ''payer_did'' = Some (PStr (p_publisher ps))"

definition check_split :: "int \<Rightarrow> string \<Rightarrow> trade_parties \<Rightarrow> pydict \<Rightarrow> bool" where
  "check_split amount currency ps s \<longleftrightarrow> (case (dget s ''amount_minor'', dget s ''refunded_amount_minor'') of
     (Some (PInt paid), Some (PInt refunded)) \<Rightarrow>
       0 < paid \<and> 0 < refunded \<and> paid + refunded = amount \<and> dget s ''adapter_id'' = Some (PStr ''manual'')
       \<and> dget s ''currency'' = Some (PStr currency) \<and> dget s ''payee_did'' = Some (PStr (p_claimant ps))
       \<and> dget s ''payer_did'' = Some (PStr (p_publisher ps))
   | _ \<Rightarrow> False)"

definition check_resolution :: "int \<Rightarrow> pydict \<Rightarrow> trade_parties \<Rightarrow> pydict \<Rightarrow> unit res" where
  "check_resolution now terms ps p = (case settlement_of p of
     PDict s \<Rightarrow> (case dget terms ''amount_minor'' of
       Some (PInt amount) \<Rightarrow>
         (let currency = py_str (dget_or terms ''currency'' (PStr [])) in
          if amount \<le> 0 then rejected ''settlement-amount-invalid''
          else if dget p ''resolution'' = Some (PStr ''settle'')
          then (case verify_settlement (PDict s) now amount currency (py_str (dget_or terms ''payee_did'' (PStr []))) (p_publisher ps) of
                  (True, _) \<Rightarrow> Inr () | (False, reason) \<Rightarrow> rejected reason)
          else if dget p ''resolution'' = Some (PStr ''refund'')
          then (if check_refund amount currency ps s then Inr () else rejected ''settlement-refund-mismatch'')
          else if dget p ''resolution'' = Some (PStr ''split'')
          then (if check_split amount currency ps s then Inr () else rejected ''settlement-split-mismatch'')
          else Inr ())
     | _ \<Rightarrow> rejected ''settlement-amount-invalid'')
   | _ \<Rightarrow> rejected ''settlement-malformed'')"

definition check_terms :: "int \<Rightarrow> pydict option \<Rightarrow> trade_parties \<Rightarrow> string \<Rightarrow> pydict \<Rightarrow> unit res" where
  "check_terms now terms ps ty p = (case terms of
     None \<Rightarrow> Inr ()
   | Some t \<Rightarrow>
       if t = [] then Inr ()
       else if ty = ''settlement_recorded'' then check_direct now t ps p
       else if ty = ''dispute_resolved'' then check_resolution now t ps p
       else Inr ())"

section \<open>Replaying a chain\<close>

definition fits :: "nat \<Rightarrow> pyval \<Rightarrow> bool" where
  "fits limit v = (case canonical_json v of Inl _ \<Rightarrow> False | Inr bs \<Rightarrow> length bs \<le> limit)"

definition trade_check :: "nacl \<Rightarrow> int \<Rightarrow> string \<Rightarrow> pydict option \<Rightarrow> nat \<Rightarrow> trade_parties \<Rightarrow> string \<Rightarrow> pyval \<Rightarrow> (trade_parties \<times> string) res" where
  "trade_check n now tid terms i ps state raw = (case raw of
     PDict ev \<Rightarrow>
       (let fld = (\<lambda>k. dget_or ev k PNone); ty = the_str (dget ev ''type'') in
        if \<not> same_keys ev trade_event_fields then rejected ''chain-broken''
        else if fld ''trade_id'' \<noteq> PStr tid then rejected ''chain-broken''
        else case fld ''payload'' of
          PDict p \<Rightarrow>
            if \<not> fits max_trade_payload_bytes (PDict p) then rejected ''payload-invalid''
            else if \<not> py_eq (fld ''seq'') (PInt (int i)) then rejected ''chain-broken''
            else (case verify_trade_event n ev of
              (False, reason) \<Rightarrow> rejected reason
            | (True, _) \<Rightarrow>
                if fld ''prev_state'' \<noteq> PStr state then rejected ''chain-broken''
                else if \<not> hashable (fld ''type'') then raise TypeError ''unhashable type''
                else if \<not> is_str (fld ''type'') \<or> state \<notin> set (legal_prior ty) then rejected ''illegal-transition''
                else (case expected_new_state ty p of
                  None \<Rightarrow> rejected ''illegal-transition''
                | Some new \<Rightarrow>
                    if fld ''new_state'' \<noteq> PStr new then rejected ''illegal-transition''
                    else if ty = ''trade_opened'' then Inr (payload_parties p, new)
                    else if the_str (dget ev ''actor_did'') \<notin> set (allowed_roles ps ty) then rejected ''wrong-actor''
                    else bindR (check_terms now terms ps ty p) (\<lambda>_. Inr (ps, new))))
        | _ \<Rightarrow> rejected ''payload-invalid'')
   | _ \<Rightarrow> rejected ''chain-broken'')"

fun trade_scan :: "nacl \<Rightarrow> int \<Rightarrow> string \<Rightarrow> pydict option \<Rightarrow> nat \<Rightarrow> trade_parties \<Rightarrow> string \<Rightarrow> pyval list \<Rightarrow> (trade_parties \<times> string) res" where
  "trade_scan n now tid terms i ps state [] = Inr (ps, state)"
| "trade_scan n now tid terms i ps state (raw # events) =
     bindR (trade_check n now tid terms i ps state raw) (\<lambda>(ps', state'). trade_scan n now tid terms (i + 1) ps' state' events)"

definition chain_fits :: "pyval list \<Rightarrow> bool" where
  "chain_fits events = fits max_trade_chain_bytes (PDict [(PStr ''events'', PList events)])"

definition verify_chain_events :: "nacl \<Rightarrow> int \<Rightarrow> string \<Rightarrow> pyval list \<Rightarrow> (bool \<times> string) res" where
  "verify_chain_events n now tid events =
     (if events = [] then Inr (False, ''trade-not-found'')
      else if \<not> chain_fits events then Inr (False, ''payload-invalid'')
      else case trade_scan n now tid (trade_terms events) 0 (payload_parties []) [] events of
        Inl e \<Rightarrow> if exn_cls e = TradeRejected then Inr (False, exn_msg e) else Inl e
      | Inr _ \<Rightarrow> Inr (True, []))"

section \<open>The store\<close>

type_synonym trade_store = "(string \<times> pyval) list"

definition trade_path_of :: "string \<Rightarrow> string" where
  "trade_path_of tid = safe_id tid @ ''.json''"

definition get_events :: "trade_store \<Rightarrow> string \<Rightarrow> pyval list option" where
  "get_events st tid = (case map_of st (trade_path_of tid) of
     None \<Rightarrow> None
   | Some PNone \<Rightarrow> None
   | Some (PDict d) \<Rightarrow> (case dget d ''events'' of Some (PList evs) \<Rightarrow> Some evs | _ \<Rightarrow> Some [])
   | Some _ \<Rightarrow> Some [])"

definition verify_trade :: "nacl \<Rightarrow> int \<Rightarrow> trade_store \<Rightarrow> string \<Rightarrow> (bool \<times> string) res" where
  "verify_trade n now st tid = verify_chain_events n now tid (case get_events st tid of None \<Rightarrow> [] | Some evs \<Rightarrow> evs)"

definition current_state :: "pyval list \<Rightarrow> string" where
  "current_state events = (if events = [] then [] else case List.last events of PDict ev \<Rightarrow> py_str (dget_or ev ''new_state'' (PStr [])) | _ \<Rightarrow> [])"

definition trade_state :: "trade_store \<Rightarrow> string \<Rightarrow> string option" where
  "trade_state st tid = map_option current_state (get_events st tid)"

definition trade_doc :: "string \<Rightarrow> pyval list \<Rightarrow> pyval" where
  "trade_doc tid events = PDict [(PStr ''trade_id'', PStr tid), (PStr ''events'', PList events)]"

definition stored_events :: "trade_store \<Rightarrow> string \<Rightarrow> pyval list res" where
  "stored_events st tid = (case map_of st (trade_path_of tid) of
     None \<Rightarrow> Inr []
   | Some (PDict d) \<Rightarrow> (case dget d ''events'' of None \<Rightarrow> Inr [] | Some (PList evs) \<Rightarrow> Inr evs | Some _ \<Rightarrow> rejected ''chain-broken'')
   | Some _ \<Rightarrow> rejected ''chain-broken'')"

definition require_verified :: "(bool \<times> string) res \<Rightarrow> 'a res \<Rightarrow> 'a res" where
  "require_verified verdict k = bindR verdict (\<lambda>(ok, reason). if ok then k else rejected reason)"

definition prior_state :: "pyval list \<Rightarrow> string \<Rightarrow> bool \<Rightarrow> string list option \<Rightarrow> identity \<Rightarrow> string res" where
  "prior_state events ty expect_open allowed actor =
     (if expect_open then (if events \<noteq> [] then rejected ''trade-already-exists'' else Inr [])
      else if events = [] then rejected ''trade-not-found''
      else let prev = current_state events in
        if prev \<notin> set (legal_prior ty) then rejected ''illegal-transition''
        else case allowed of
          None \<Rightarrow> Inr prev
        | Some ds \<Rightarrow> bindR (as_did actor) (\<lambda>did. if did \<in> set (filter (\<lambda>d. d \<noteq> []) ds) then Inr prev else rejected ''wrong-actor''))"

definition new_trade_event :: "string \<Rightarrow> nat \<Rightarrow> string \<Rightarrow> string \<Rightarrow> string \<Rightarrow> string \<Rightarrow> pydict \<Rightarrow> int \<Rightarrow> pydict" where
  "new_trade_event tid seq ty did prev new payload now = obj
     [(''trade_id'', PStr tid), (''seq'', PInt (int seq)), (''type'', PStr ty), (''actor_did'', PStr did), (''prev_state'', PStr prev),
      (''new_state'', PStr new), (''payload'', PDict payload), (''created_at_ms'', PInt now), (''kind'', PStr ''nth-trade-event-v1'')]"

definition append_event :: "nacl \<Rightarrow> int \<Rightarrow> trade_store \<Rightarrow> string \<Rightarrow> identity \<Rightarrow> string \<Rightarrow> string \<Rightarrow> pydict \<Rightarrow> bool \<Rightarrow> string list option
    \<Rightarrow> trade_store \<times> pydict res" where
  "append_event n now st tid actor ty new payload expect_open allowed =
     (case (if \<not> fits max_trade_payload_bytes (PDict payload) then rejected ''payload-invalid''
            else bindR (stored_events st tid) (\<lambda>events.
                 (if events \<noteq> [] then require_verified (verify_trade n now st tid) else id) (
                 bindR (prior_state events ty expect_open allowed actor) (\<lambda>prev.
                 bindR (as_did actor) (\<lambda>did.
                 bindR (sign_trade_event n actor (new_trade_event tid (length events) ty did prev new payload now)) (\<lambda>ev.
                 if \<not> chain_fits (events @ [PDict ev]) then rejected ''payload-invalid'' else Inr (events, ev))))))) of
        Inl e \<Rightarrow> (st, Inl e)
      | Inr (events, ev) \<Rightarrow> (assoc_put (trade_path_of tid) (trade_doc tid (events @ [PDict ev])) st, Inr ev))"

section \<open>The transitions\<close>

definition terms_payload :: "pydict \<Rightarrow> string \<Rightarrow> pydict res" where
  "terms_payload terms claimant_did = (case dget terms ''amount_minor'' of
     Some (PInt amt) \<Rightarrow>
       (let cur = py_str (dget_or terms ''currency'' (PStr [])); payee = py_str (dget_or terms ''payee_did'' (PStr [])) in
        if amt \<le> 0 then rejected ''bad-terms''
        else if cur = [] then rejected ''bad-terms''
        else Inr (obj [(''amount_minor'', PInt amt), (''currency'', PStr cur), (''payee_did'', PStr (if payee \<noteq> [] then payee else claimant_did))]))
   | _ \<Rightarrow> rejected ''bad-terms'')"

definition open_payload :: "pydict \<Rightarrow> string \<Rightarrow> string \<Rightarrow> string \<Rightarrow> pydict option \<Rightarrow> (string \<times> pydict) res" where
  "open_payload claim_record verifier_did settler_did resolver_did terms =
     (let g = (\<lambda>k. py_str (dget_or claim_record k (PStr [])));
          announcement_id = g ''announcement_id''; claimant_did = g ''claimant_did''; publisher_did = g ''publisher_did'';
          vd = (if verifier_did \<noteq> [] then verifier_did else publisher_did);
          sd = (if settler_did \<noteq> [] then settler_did else publisher_did);
          rd = (if resolver_did \<noteq> [] then resolver_did else vd);
          base = obj [(''announcement_id'', PStr announcement_id), (''claimant_did'', PStr claimant_did), (''publisher_did'', PStr publisher_did),
             (''verifier_did'', PStr vd), (''settler_did'', PStr sd), (''resolver_did'', PStr rd), (''claim_receipt_id'', PStr (g ''receipt_id''))] in
      if announcement_id = [] \<or> claimant_did = [] \<or> publisher_did = [] then rejected ''bad-claim-record''
      else case terms of
        None \<Rightarrow> Inr (announcement_id, base)
      | Some t \<Rightarrow> bindR (terms_payload t claimant_did) (\<lambda>tp. Inr (announcement_id, base @ [(PStr ''terms'', PDict tp)])))"

definition open_trade :: "nacl \<Rightarrow> int \<Rightarrow> trade_store \<Rightarrow> identity \<Rightarrow> pydict \<Rightarrow> string \<Rightarrow> string \<Rightarrow> string \<Rightarrow> pydict option
    \<Rightarrow> trade_store \<times> pydict res" where
  "open_trade n now st authority claim_record verifier_did settler_did resolver_did terms =
     (case open_payload claim_record verifier_did settler_did resolver_did terms of
        Inl e \<Rightarrow> (st, Inl e)
      | Inr (tid, payload) \<Rightarrow> append_event n now st tid authority ''trade_opened'' ''executing'' payload True None)"

definition with_parties :: "trade_store \<Rightarrow> string \<Rightarrow> (trade_parties \<Rightarrow> trade_store \<times> pydict res) \<Rightarrow> trade_store \<times> pydict res" where
  "with_parties st tid k = (case parties_of (case get_events st tid of None \<Rightarrow> [] | Some evs \<Rightarrow> evs) of Inl e \<Rightarrow> (st, Inl e) | Inr ps \<Rightarrow> k ps)"

definition submit_delivery :: "nacl \<Rightarrow> int \<Rightarrow> trade_store \<Rightarrow> string \<Rightarrow> identity \<Rightarrow> pyval \<Rightarrow> trade_store \<times> pydict res" where
  "submit_delivery n now st tid claimant delivery = with_parties st tid (\<lambda>ps.
     append_event n now st tid claimant ''delivery_submitted'' ''delivered'' (obj [(''delivery'', delivery)]) False (Some [p_claimant ps]))"

definition record_verification :: "nacl \<Rightarrow> int \<Rightarrow> trade_store \<Rightarrow> string \<Rightarrow> identity \<Rightarrow> string \<Rightarrow> pyval \<Rightarrow> trade_store \<times> pydict res" where
  "record_verification n now st tid verifier verdict result =
     (if verdict \<notin> {''pass'', ''fail''} then (st, rejected ''bad-verdict'')
      else with_parties st tid (\<lambda>ps.
        append_event n now st tid verifier ''verification_recorded'' (if verdict = ''pass'' then ''verified'' else ''failed'')
          (obj [(''verdict'', PStr verdict), (''result'', result)]) False (Some [p_verifier ps])))"

definition record_settlement :: "nacl \<Rightarrow> int \<Rightarrow> trade_store \<Rightarrow> string \<Rightarrow> identity \<Rightarrow> pyval \<Rightarrow> trade_store \<times> pydict res" where
  "record_settlement n now st tid settler settlement = with_parties st tid (\<lambda>ps.
     append_event n now st tid settler ''settlement_recorded'' ''settled'' (obj [(''settlement'', settlement)]) False (Some [p_settler ps]))"

definition open_dispute :: "nacl \<Rightarrow> int \<Rightarrow> trade_store \<Rightarrow> string \<Rightarrow> identity \<Rightarrow> string \<Rightarrow> pydict \<Rightarrow> trade_store \<times> pydict res" where
  "open_dispute n now st tid disputant reason evidence = with_parties st tid (\<lambda>ps. (case as_did disputant of
     Inl e \<Rightarrow> (st, Inl e)
   | Inr did \<Rightarrow>
       let role = (if did = p_publisher ps then ''publisher'' else if did = p_claimant ps then ''claimant'' else []) in
       append_event n now st tid disputant ''dispute_opened'' ''disputed''
         (obj [(''reason'', PStr reason), (''disputant_role'', PStr role), (''evidence'', PDict evidence)]) False (Some [p_publisher ps, p_claimant ps])))"

definition resolution_state :: "string \<Rightarrow> string option" where
  "resolution_state resolution = map_of [(''settle'', ''settled''), (''refund'', ''refunded''), (''split'', ''split_settled'')] resolution"

definition resolve_dispute :: "nacl \<Rightarrow> int \<Rightarrow> trade_store \<Rightarrow> string \<Rightarrow> identity \<Rightarrow> string \<Rightarrow> pydict \<Rightarrow> string \<Rightarrow> trade_store \<times> pydict res" where
  "resolve_dispute n now st tid resolver resolution settlement rationale = (case resolution_state resolution of
     None \<Rightarrow> (st, rejected ''bad-resolution'')
   | Some new \<Rightarrow> with_parties st tid (\<lambda>ps.
       append_event n now st tid resolver ''dispute_resolved'' new
         (obj [(''resolution'', PStr resolution), (''settlement'', PDict settlement), (''rationale'', PStr rationale)]) False (Some [p_resolver ps])))"

section \<open>Replication\<close>

definition validate_import :: "nacl \<Rightarrow> int \<Rightarrow> trade_store \<Rightarrow> string \<Rightarrow> pyval list \<Rightarrow> pyval list res" where
  "validate_import n now st tid events =
     (if events = [] then rejected ''chain-broken''
      else if 1000 < length events then rejected ''chain-broken''
      else let existing = get_events st tid; old = (case existing of None \<Rightarrow> [] | Some evs \<Rightarrow> evs) in
        if map_of st (trade_path_of tid) \<noteq> None \<and> old = [] then raise TradeConflict ''stored trade is unreadable; refuse to overwrite''
        else if old \<noteq> [] \<and> \<not> py_eq_list (take (length old) events) old then raise TradeConflict ''remote trade does not extend the local signed prefix''
        else if length events < length old then raise TradeConflict ''remote trade is older than the local signed chain''
        else require_verified (verify_chain_events n now tid events) (Inr events))"

definition import_verified_events :: "nacl \<Rightarrow> int \<Rightarrow> trade_store \<Rightarrow> string \<Rightarrow> pyval list \<Rightarrow> trade_store \<times> pyval list res" where
  "import_verified_events n now st tid events = (case validate_import n now st tid events of
     Inl e \<Rightarrow> (st, Inl e)
   | Inr candidate \<Rightarrow> (assoc_put (trade_path_of tid) (trade_doc tid candidate) st, Inr candidate))"

definition event_digest :: "pyval \<Rightarrow> string res" where
  "event_digest v = bindR (canonical_json v) (\<lambda>bs. Inr (''sha256:'' @ sha256_hex bs))"

definition validate_verified_orphan :: "nacl \<Rightarrow> int \<Rightarrow> trade_store \<Rightarrow> string \<Rightarrow> string \<Rightarrow> pyval list option res" where
  "validate_verified_orphan n now st tid expected_chain_head = (case get_events st tid of
     None \<Rightarrow> Inr None
   | Some events \<Rightarrow>
       if events = [] then Inr None
       else require_verified (verify_trade n now st tid) (
            bindR (event_digest (List.last events)) (\<lambda>head.
            ensure (head = expected_chain_head) TradeConflict ''orphan trade chain head changed'' (Inr (Some events)))))"

definition quarantine_verified_orphan :: "nacl \<Rightarrow> int \<Rightarrow> trade_store \<Rightarrow> string \<Rightarrow> string \<Rightarrow> bool \<Rightarrow> trade_store \<times> bool res" where
  "quarantine_verified_orphan n now st tid expected_chain_head destination_exists =
     (case validate_verified_orphan n now st tid expected_chain_head of
        Inl e \<Rightarrow> (st, Inl e)
      | Inr None \<Rightarrow> (st, Inr False)
      | Inr (Some _) \<Rightarrow>
          if destination_exists then (st, raise TradeConflict ''orphan quarantine destination exists'')
          else (filter (\<lambda>(p, d). p \<noteq> trade_path_of tid) st, Inr True))"

section \<open>Settling through an adapter\<close>

definition preflight_terms :: "pydict option \<Rightarrow> settlement_intent \<Rightarrow> unit res" where
  "preflight_terms terms intent = (case terms of
     None \<Rightarrow> Inr ()
   | Some t \<Rightarrow>
       ensure (case dget t ''amount_minor'' of Some (PInt a) \<Rightarrow> py_eq (i_amount_minor intent) (PInt a) | _ \<Rightarrow> i_amount_minor intent = PNone)
         SettlementFailed ''settlement-amount-mismatch'' (
       ensure (safe_str (dget t ''currency'') = i_currency intent) SettlementFailed ''settlement-currency-mismatch'' (
       ensure (safe_str (dget t ''payee_did'') = i_payee_did intent) SettlementFailed ''settlement-payee-mismatch'' (Inr ()))))"

definition settle_preflight :: "nacl \<Rightarrow> int \<Rightarrow> trade_store \<Rightarrow> string \<Rightarrow> identity \<Rightarrow> string \<Rightarrow> settlement_intent \<Rightarrow> (trade_parties \<times> pyval list) res" where
  "settle_preflight n now st tid settler adapter_id intent =
     (let events = (case get_events st tid of None \<Rightarrow> [] | Some evs \<Rightarrow> evs) in
      bindR (intent_validate intent) (\<lambda>_.
      ensure (i_trade_id intent = tid) SettlementFailed ''settlement-trade-mismatch'' (
      ensure (events \<noteq> []) SettlementFailed ''settlement-trade-not-found'' (
      bindR (verify_trade n now st tid) (\<lambda>(ok, reason).
      ensure ok SettlementFailed reason (
      bindR (parties_of events) (\<lambda>ps.
      bindR (as_did settler) (\<lambda>did.
      ensure (did = p_settler ps) SettlementFailed ''settlement-wrong-settler'' (Inr (ps, events))))))))))"

definition x402_payer_ok :: "string \<Rightarrow> trade_parties \<Rightarrow> settlement_intent \<Rightarrow> bool" where
  "x402_payer_ok adapter_id ps intent \<longleftrightarrow> adapter_id \<noteq> adapter_x402_testnet \<or> (p_publisher ps \<noteq> [] \<and> i_payer_did intent = p_publisher ps)"

definition stored_settlement_matches :: "string \<Rightarrow> settlement_intent \<Rightarrow> string \<Rightarrow> pyval list \<Rightarrow> bool" where
  "stored_settlement_matches adapter_id intent key events = (case List.last events of
     PDict ev \<Rightarrow> (case (dget ev ''type'', dget ev ''payload'') of
       (Some ty, Some (PDict p)) \<Rightarrow> (case dget p ''settlement'' of
         Some (PDict s) \<Rightarrow> (case dget s ''proof'' of
           Some (PDict proof') \<Rightarrow>
             ty = PStr ''settlement_recorded'' \<and> dget proof' ''idempotency_key'' = Some (PStr key)
             \<and> dget s ''adapter_id'' = Some (PStr adapter_id) \<and> py_eq (dget_or s ''amount_minor'' PNone) (i_amount_minor intent)
             \<and> dget s ''currency'' = Some (PStr (i_currency intent)) \<and> dget s ''payee_did'' = Some (PStr (i_payee_did intent))
             \<and> dget s ''payer_did'' = Some (PStr (i_payer_did intent))
         | _ \<Rightarrow> False)
       | _ \<Rightarrow> False)
     | _ \<Rightarrow> False)
   | _ \<Rightarrow> False)"

definition settle_trade :: "nacl \<Rightarrow> int \<Rightarrow> trade_store \<Rightarrow> string \<Rightarrow> identity \<Rightarrow> string \<Rightarrow> (settlement_intent \<Rightarrow> int \<Rightarrow> 'r \<Rightarrow> 'r \<times> settlement_result res)
    \<Rightarrow> settlement_intent \<Rightarrow> 'r \<Rightarrow> (trade_store \<times> 'r) \<times> pydict res" where
  "settle_trade n now st tid settler adapter_id settle intent r =
     (case settle_preflight n now st tid settler adapter_id intent of
        Inl e \<Rightarrow> ((st, r), Inl e)
      | Inr (ps, events) \<Rightarrow>
          if trade_state st tid = Some ''settled'' \<and> adapter_id = adapter_x402_testnet
          then ((st, r), ensure (x402_payer_ok adapter_id ps intent) SettlementFailed ''settlement-payer-mismatch'' (
                 bindR (settlement_idempotency_key intent) (\<lambda>key.
                 if stored_settlement_matches adapter_id intent key events
                 then (case List.last events of PDict ev \<Rightarrow> Inr ev | _ \<Rightarrow> raise TypeError ''not a mapping'')
                 else raise SettlementFailed ''settlement-bad-state'')))
          else (case ensure (trade_state st tid = Some ''verified'') SettlementFailed ''settlement-bad-state'' (
                     bindR (preflight_terms (trade_terms events) intent) (\<lambda>_.
                     ensure (x402_payer_ok adapter_id ps intent) SettlementFailed ''settlement-payer-mismatch'' (Inr ()))) of
                  Inl e \<Rightarrow> ((st, r), Inl e)
                | Inr _ \<Rightarrow> (case settle intent now r of
                    (r', Inl e) \<Rightarrow> ((st, r'), Inl e)
                  | (r', Inr res) \<Rightarrow> (case record_settlement n now st tid settler (PDict (to_payload res)) of (st', out) \<Rightarrow> ((st', r'), out)))))"

end
