(* ===== verification/Trade_Chain.thy ===== *)
theory Trade_Chain
  imports Trade
begin

text \<open>
  What the replay of a trade chain guarantees. The abstract lifecycle is a step relation on the states of a trade in
  which every step names the party that takes it; a verified chain is a path of it, and the
  facts about parties, length and settlement are proved on the paths. The transitions of \<open>trade.py\<close> keep a
  chain verified; the settlement ones do so exactly when the settlement meets the signed terms.
\<close>

section \<open>One accepted event\<close>

lemma dget_or_eq [simp]:
  "dget_or d k PNone = PStr s \<longleftrightarrow> dget d k = Some (PStr s)"
  "dget_or d k PNone = PDict e \<longleftrightarrow> dget d k = Some (PDict e)"
  by (auto simp: dget_or_def split: option.splits)

lemma verify_trade_event_True: "verify_trade_event n ev = (True, m) \<Longrightarrow> m = []"
  by (auto simp: verify_trade_event_def split: if_splits option.splits sum.splits pyval.splits)

definition accepted_event :: "nacl \<Rightarrow> int \<Rightarrow> string \<Rightarrow> pydict option \<Rightarrow> nat \<Rightarrow> trade_parties \<Rightarrow> string \<Rightarrow> pydict \<Rightarrow> pydict \<Rightarrow> string \<Rightarrow> string \<Rightarrow> bool" where
  "accepted_event n now tid terms i ps state ev p ty state' \<longleftrightarrow>
     same_keys ev trade_event_fields \<and> dget ev ''trade_id'' = Some (PStr tid) \<and> dget ev ''payload'' = Some (PDict p)
     \<and> fits max_trade_payload_bytes (PDict p) \<and> py_eq (dget_or ev ''seq'' PNone) (PInt (int i)) \<and> fst (verify_trade_event n ev)
     \<and> dget ev ''prev_state'' = Some (PStr state) \<and> dget ev ''type'' = Some (PStr ty) \<and> state \<in> set (legal_prior ty)
     \<and> expected_new_state ty p = Some state' \<and> dget ev ''new_state'' = Some (PStr state')
     \<and> (ty \<noteq> ''trade_opened'' \<longrightarrow> the_str (dget ev ''actor_did'') \<in> set (allowed_roles ps ty) \<and> check_terms now terms ps ty p = Inr ())"

lemma accepted_check:
  assumes "accepted_event n now tid terms i ps state ev p ty state'"
  shows "trade_check n now tid terms i ps state (PDict ev) = Inr (if ty = ''trade_opened'' then payload_parties p else ps, state')"
proof -
  obtain m where "verify_trade_event n ev = (True, m)" using assms by (cases "verify_trade_event n ev") (auto simp: accepted_event_def)
  then show ?thesis using assms by (auto simp: accepted_event_def trade_check_def Let_def dget_or_def is_str_def hashable_def)
qed

lemma trade_check_accepted:
  assumes "trade_check n now tid terms i ps state raw = Inr (ps', state')"
  obtains ev p ty where "raw = PDict ev" "accepted_event n now tid terms i ps state ev p ty state'"
    "ps' = (if ty = ''trade_opened'' then payload_parties p else ps)"
proof -
  obtain ev where ev: "raw = PDict ev" using assms by (cases raw) (auto simp: trade_check_def rejected_def)
  have "\<exists>p. dget_or ev ''payload'' PNone = PDict p"
    using assms by (auto simp: trade_check_def ev Let_def rejected_def simp del: dget_or_eq split: if_splits pyval.splits)
  then obtain p where p: "dget ev ''payload'' = Some (PDict p)" by auto
  obtain ok m where v: "verify_trade_event n ev = (ok, m)" by fastforce
  have "is_str (dget_or ev ''type'' PNone)"
    using assms p v by (auto simp: trade_check_def ev Let_def rejected_def dget_or_def [of _ "''payload''"] split: if_splits bool.splits)
  then have "\<exists>ty. dget_or ev ''type'' PNone = PStr ty" by (simp add: is_str_def del: dget_or_eq split: pyval.splits)
  then obtain ty where ty: "dget ev ''type'' = Some (PStr ty)" by auto
  have "accepted_event n now tid terms i ps state ev p ty state' \<and> ps' = (if ty = ''trade_opened'' then payload_parties p else ps)"
    using assms p v ty
    by (auto simp: trade_check_def accepted_event_def ev Let_def rejected_def res_iffs dget_or_def [of _ "''payload''"] dget_or_def [of _ "''type''"] split: if_splits bool.splits option.splits)
  then show thesis using that ev by blast
qed

section \<open>Replaying a list of events\<close>

lemma trade_scan_append: "trade_scan n now tid terms i ps s (xs @ ys) =
    bindR (trade_scan n now tid terms i ps s xs) (\<lambda>(ps', s'). trade_scan n now tid terms (i + length xs) ps' s' ys)"
proof (induction xs arbitrary: i ps s)
  case (Cons x xs)
  then show ?case by (cases "trade_check n now tid terms i ps s x") auto
qed simp

lemma trade_scan_snoc: "trade_scan n now tid terms 0 ps s (xs @ [x]) = Inr r \<longleftrightarrow>
    (\<exists>ps0 s0. trade_scan n now tid terms 0 ps s xs = Inr (ps0, s0) \<and> trade_check n now tid terms (length xs) ps0 s0 x = Inr r)"
  by (cases r) (auto simp: trade_scan_append bindR_Inr_iff split_def)

lemma accepted_states:
  assumes "accepted_event n now tid terms i ps state ev p ty state'"
  shows "state' \<noteq> []" "ty = ''trade_opened'' \<longleftrightarrow> state = []"
  using assms by (auto simp: accepted_event_def expected_new_state_def legal_prior_def split: if_splits)

lemma trade_check_Inr:
  assumes "trade_check n now tid terms i ps state raw = Inr (ps', state')"
  shows "\<exists>ev p ty. raw = PDict ev \<and> accepted_event n now tid terms i ps state ev p ty state' \<and> ps' = (if state = [] then payload_parties p else ps)"
  using trade_check_accepted [OF assms] accepted_states(2) by metis

lemma trade_scan_last:
  assumes "trade_scan n now tid terms 0 ps [] events = Inr (ps', s)" "events \<noteq> []"
  shows "current_state events = s \<and> s \<noteq> [] \<and> parties_of events = Inr ps'"
  using assms
proof (induction events arbitrary: ps' s rule: rev_induct)
  case (snoc x xs)
  obtain ps0 s0 where pre: "trade_scan n now tid terms 0 ps [] xs = Inr (ps0, s0)"
    and x: "trade_check n now tid terms (length xs) ps0 s0 x = Inr (ps', s)"
    using snoc.prems by (auto simp: trade_scan_snoc)
  obtain ev p ty where e: "x = PDict ev" "accepted_event n now tid terms (length xs) ps0 s0 ev p ty s"
    "ps' = (if s0 = [] then payload_parties p else ps0)" using trade_check_Inr [OF x] by blast
  have cur: "current_state (xs @ [x]) = s" "s \<noteq> []"
    using e(2) accepted_states(1) [OF e(2)] by (auto simp: current_state_def e(1) dget_or_def accepted_event_def)
  show ?case
  proof (cases "xs = []")
    case True
    then have "s0 = []" using pre by simp
    then show ?thesis using cur e True by (auto simp: parties_of_def accepted_event_def dget_or_def)
  next
    case False
    have "s0 \<noteq> []" "parties_of xs = Inr ps0" using snoc.IH [OF pre False] by auto
    moreover have "parties_of (xs @ [x]) = parties_of xs" using False by (cases xs) (auto simp: parties_of_def)
    ultimately show ?thesis using cur e by simp
  qed
qed simp

lemma trade_terms_snoc [simp]: "events \<noteq> [] \<Longrightarrow> trade_terms (events @ es) = trade_terms events"
  by (cases events) (auto simp: trade_terms_def)

lemma verify_chain_iff:
  "verify_chain_events n now tid events = Inr (True, m) \<longleftrightarrow> m = [] \<and> events \<noteq> [] \<and> chain_fits events
     \<and> (\<exists>ps s. trade_scan n now tid (trade_terms events) 0 (payload_parties []) [] events = Inr (ps, s))"
  by (auto simp: verify_chain_events_def split: sum.splits if_splits)

section \<open>The lifecycle\<close>

text \<open>The states of a trade and who may move it. A label is the actor and the type of the event.\<close>

inductive lifecycle :: "trade_parties \<Rightarrow> string \<Rightarrow> string \<times> string \<Rightarrow> string \<Rightarrow> bool" for ps where
  deliver: "lifecycle ps ''executing'' (p_claimant ps, ''delivery_submitted'') ''delivered''"
| approve: "lifecycle ps ''delivered'' (p_verifier ps, ''verification_recorded'') ''verified''"
| refuse: "lifecycle ps ''delivered'' (p_verifier ps, ''verification_recorded'') ''failed''"
| settle: "lifecycle ps ''verified'' (p_settler ps, ''settlement_recorded'') ''settled''"
| dispute: "s \<in> {''delivered'', ''verified'', ''failed''} \<Longrightarrow> who \<in> {p_publisher ps, p_claimant ps} \<Longrightarrow> lifecycle ps s (who, ''dispute_opened'') ''disputed''"
| resolve: "s \<in> {''settled'', ''refunded'', ''split_settled''} \<Longrightarrow> lifecycle ps ''disputed'' (p_resolver ps, ''dispute_resolved'') s"

inductive_cases lifecycleE: "lifecycle ps s l s'"

inductive lifecycle_path :: "trade_parties \<Rightarrow> string \<Rightarrow> (string \<times> string) list \<Rightarrow> string \<Rightarrow> bool" for ps where
  stay: "lifecycle_path ps s [] s"
| move: "lifecycle_path ps s ls t \<Longrightarrow> lifecycle ps t l u \<Longrightarrow> lifecycle_path ps s (ls @ [l]) u"

text \<open>Every step goes up in this rank, so a trade cannot run forever.\<close>

definition trade_rank :: "string \<Rightarrow> nat" where
  "trade_rank s = (if s = ''executing'' then 0 else if s = ''delivered'' then 1 else if s \<in> {''verified'', ''failed''} then 2 else if s = ''disputed'' then 3 else 4)"

lemma lifecycle_rank: "lifecycle ps s l t \<Longrightarrow> trade_rank s < trade_rank t \<and> trade_rank t \<le> 4"
  by (erule lifecycleE) (auto simp: trade_rank_def)

lemma lifecycle_path_rank: "lifecycle_path ps s ls t \<Longrightarrow> trade_rank s + length ls \<le> trade_rank t \<and> (ls \<noteq> [] \<longrightarrow> trade_rank t \<le> 4)"
  by (induction rule: lifecycle_path.induct) (auto dest: lifecycle_rank)

lemma delivered_first:
  "lifecycle_path ps s ls t \<Longrightarrow> s = ''executing'' \<Longrightarrow> t \<noteq> ''executing'' \<Longrightarrow> (p_claimant ps, ''delivery_submitted'') \<in> set ls"
proof (induction rule: lifecycle_path.induct)
  case (move s ls t l u)
  then show ?case by (cases "t = ''executing''") (auto elim!: lifecycleE)
qed simp

lemma verified_before:
  "lifecycle_path ps s ls t \<Longrightarrow> s = ''executing'' \<Longrightarrow> t = ''verified'' \<Longrightarrow> (p_verifier ps, ''verification_recorded'') \<in> set ls"
  by (induction rule: lifecycle_path.induct) (auto elim!: lifecycleE)

lemma disputed_before:
  "lifecycle_path ps s ls t \<Longrightarrow> s = ''executing'' \<Longrightarrow> t = ''disputed'' \<Longrightarrow> (p_publisher ps, ''dispute_opened'') \<in> set ls \<or> (p_claimant ps, ''dispute_opened'') \<in> set ls"
  by (induction rule: lifecycle_path.induct) (auto elim!: lifecycleE)

lemma settled_why:
  assumes "lifecycle_path ps ''executing'' ls t" "t \<in> {''settled'', ''refunded'', ''split_settled''}"
  shows "(p_claimant ps, ''delivery_submitted'') \<in> set ls \<and>
    (t = ''settled'' \<and> (p_verifier ps, ''verification_recorded'') \<in> set ls \<and> List.last ls = (p_settler ps, ''settlement_recorded'')
     \<or> ((p_publisher ps, ''dispute_opened'') \<in> set ls \<or> (p_claimant ps, ''dispute_opened'') \<in> set ls) \<and> List.last ls = (p_resolver ps, ''dispute_resolved''))"
proof -
  have "(p_claimant ps, ''delivery_submitted'') \<in> set ls" using delivered_first [OF assms(1)] assms(2) by auto
  moreover from assms(1) obtain ls' u l where l: "ls = ls' @ [l]" "lifecycle_path ps ''executing'' ls' u" "lifecycle ps u l t"
    using assms(2) by (cases rule: lifecycle_path.cases) auto
  moreover from l(3) have "u = ''verified'' \<and> t = ''settled'' \<and> l = (p_settler ps, ''settlement_recorded'')
      \<or> u = ''disputed'' \<and> l = (p_resolver ps, ''dispute_resolved'')"
    by cases (use assms(2) in simp_all)
  ultimately show ?thesis using verified_before [OF l(2)] disputed_before [OF l(2)] by (elim disjE) simp_all
qed

section \<open>A verified chain is a path of the lifecycle\<close>

definition event_label :: "pyval \<Rightarrow> string \<times> string" where
  "event_label raw = (case raw of PDict ev \<Rightarrow> (the_str (dget ev ''actor_did''), the_str (dget ev ''type'')) | _ \<Rightarrow> ([], []))"

definition event_signed :: "nacl \<Rightarrow> pyval \<Rightarrow> bool" where
  "event_signed n raw = (case raw of PDict ev \<Rightarrow> fst (verify_trade_event n ev) | _ \<Rightarrow> False)"

lemma accepted_lifecycle:
  assumes "accepted_event n now tid terms i ps state ev p ty state'" "state \<noteq> []"
  shows "lifecycle ps state (event_label (PDict ev)) state'"
proof -
  have "ty \<noteq> ''trade_opened''" using accepted_states(2) [OF assms(1)] assms(2) by simp
  then have a: "the_str (dget ev ''actor_did'') \<in> set (allowed_roles ps ty)" "state \<in> set (legal_prior ty)"
    "expected_new_state ty p = Some state'" "event_label (PDict ev) = (the_str (dget ev ''actor_did''), ty)"
    using assms(1) by (auto simp: accepted_event_def event_label_def)
  have ty: "ty \<in> {''delivery_submitted'', ''verification_recorded'', ''settlement_recorded'', ''dispute_opened'', ''dispute_resolved''}"
    using a(2) assms(2) by (simp add: legal_prior_def split: if_splits)
  from ty show ?thesis
  proof (elim insertE emptyE)
    assume "ty = ''delivery_submitted''"
    then show ?thesis using a deliver [of ps] by (simp add: legal_prior_def expected_new_state_def allowed_roles_def split: if_splits)
  next
    assume "ty = ''verification_recorded''"
    then show ?thesis using a approve [of ps] refuse [of ps]
      by (simp add: legal_prior_def expected_new_state_def allowed_roles_def split: if_splits)
  next
    assume "ty = ''settlement_recorded''"
    then show ?thesis using a settle [of ps] by (simp add: legal_prior_def expected_new_state_def allowed_roles_def split: if_splits)
  next
    assume "ty = ''dispute_opened''"
    then show ?thesis using a dispute [of state "the_str (dget ev ''actor_did'')" ps]
      by (simp add: legal_prior_def expected_new_state_def allowed_roles_def split: if_splits)
  next
    assume "ty = ''dispute_resolved''"
    then show ?thesis using a resolve [of state' ps]
      by (simp add: legal_prior_def expected_new_state_def allowed_roles_def split: if_splits)
  qed
qed

lemma trade_scan_path:
  assumes "trade_scan n now tid terms 0 ps [] (e # es) = Inr (ps', s)"
  shows "lifecycle_path ps' ''executing'' (map event_label es) s \<and> list_all (event_signed n) (e # es)
    \<and> snd (event_label e) = ''trade_opened''"
  using assms
proof (induction es arbitrary: ps' s rule: rev_induct)
  case Nil
  then have "trade_check n now tid terms 0 ps [] e = Inr (ps', s)" by (auto simp: bindR_Inr_iff)
  from trade_check_Inr [OF this] obtain ev p ty where e: "e = PDict ev" "accepted_event n now tid terms 0 ps [] ev p ty s" by blast
  then have "ty = ''trade_opened''" using accepted_states(2) by blast
  then have "dget ev ''type'' = Some (PStr ''trade_opened'')" "s = ''executing''" "fst (verify_trade_event n ev)"
    using e(2) by (simp_all add: accepted_event_def expected_new_state_def)
  then show ?case using e(1) by (simp add: event_signed_def event_label_def lifecycle_path.stay)
next
  case (snoc x xs)
  obtain ps0 s0 where pre: "trade_scan n now tid terms 0 ps [] (e # xs) = Inr (ps0, s0)"
    and x: "trade_check n now tid terms (length (e # xs)) ps0 s0 x = Inr (ps', s)"
    using snoc.prems trade_scan_snoc [of n now tid terms ps "[]" "e # xs" x "(ps', s)"] by auto
  have s0: "s0 \<noteq> []" using trade_scan_last [OF pre] by simp
  obtain ev p ty where e: "x = PDict ev" "accepted_event n now tid terms (length (e # xs)) ps0 s0 ev p ty s" "ps' = ps0"
    using trade_check_Inr [OF x] s0 by auto
  have "event_signed n x" using e by (auto simp: event_signed_def accepted_event_def)
  then show ?case using snoc.IH [OF pre] accepted_lifecycle [OF e(2) s0] e by (auto intro: lifecycle_path.move)
qed

text \<open>C6. A chain that \<open>verify_trade\<close> accepts is a run of the trade lifecycle: the first event opens the trade and binds the
  parties, every event carries its actor's valid signature, each later event is a legal step taken by the party
  bound to it, and the state reported for the trade is where that run ends.\<close>

theorem verified_chain_refines_lifecycle:
  assumes "verify_chain_events n now tid (e # es) = Inr (True, m)"
  shows "\<exists>ps. parties_of (e # es) = Inr ps \<and> snd (event_label e) = ''trade_opened'' \<and> list_all (event_signed n) (e # es)
    \<and> lifecycle_path ps ''executing'' (map event_label es) (current_state (e # es))"
proof -
  obtain ps s where sc: "trade_scan n now tid (trade_terms (e # es)) 0 (payload_parties []) [] (e # es) = Inr (ps, s)"
    using assms unfolding verify_chain_iff by blast
  then show ?thesis using trade_scan_path [OF sc] trade_scan_last [OF sc] by (intro exI [of _ ps]) simp
qed

lemma verified_path:
  assumes "verify_chain_events n now tid events = Inr (True, m)"
  obtains e es ps where "events = e # es" "parties_of events = Inr ps" "lifecycle_path ps ''executing'' (map event_label es) (current_state events)"
proof -
  obtain e es where e: "events = e # es" using assms by (cases events) (auto simp: verify_chain_iff)
  obtain ps s where sc: "trade_scan n now tid (trade_terms events) 0 (payload_parties []) [] (e # es) = Inr (ps, s)"
    using assms e unfolding verify_chain_iff by blast
  show thesis using that trade_scan_path [OF sc] trade_scan_last [OF sc] e by simp
qed

text \<open>A trade never runs on: a verified chain has at most five events.\<close>

lemma verified_chain_short:
  assumes "verify_chain_events n now tid events = Inr (True, m)"
  shows "length events \<le> 5"
proof -
  obtain e es ps where "events = e # es" "lifecycle_path ps ''executing'' (map event_label es) (current_state events)"
    using verified_path [OF assms] by blast
  then show ?thesis using lifecycle_path_rank [of ps "''executing''" "map event_label es"] by (cases "es = []") (force simp: trade_rank_def)+
qed

text \<open>The last event of a verified chain was checked against the terms of the first.\<close>

lemma verified_last:
  assumes "verify_chain_events n now tid events = Inr (True, m)" "current_state events \<noteq> ''executing''"
  obtains ev p ty ps s where "List.last events = PDict ev" "dget ev ''payload'' = Some (PDict p)" "dget ev ''type'' = Some (PStr ty)"
    "s \<in> set (legal_prior ty)" "s \<noteq> []" "expected_new_state ty p = Some (current_state events)" "parties_of events = Inr ps"
    "check_terms now (trade_terms events) ps ty p = Inr ()"
proof -
  obtain xs x where e: "events = xs @ [x]" using assms(1) by (metis verify_chain_iff rev_exhaust)
  obtain ps s where sc: "trade_scan n now tid (trade_terms events) 0 (payload_parties []) [] (xs @ [x]) = Inr (ps, s)"
    using assms(1) e unfolding verify_chain_iff by blast
  note l = trade_scan_last [OF sc]
  obtain ps0 s0 where pre: "trade_scan n now tid (trade_terms events) 0 (payload_parties []) [] xs = Inr (ps0, s0)"
    and x: "trade_check n now tid (trade_terms events) (length xs) ps0 s0 x = Inr (ps, s)" using sc by (auto simp: trade_scan_snoc)
  obtain ev p ty where a: "x = PDict ev" "accepted_event n now tid (trade_terms events) (length xs) ps0 s0 ev p ty s"
    "ps = (if s0 = [] then payload_parties p else ps0)" using trade_check_Inr [OF x] by blast
  have "s \<noteq> ''executing''" using assms(2) l e by simp
  then have "ty \<noteq> ''trade_opened''" using a(2) by (auto simp: accepted_event_def expected_new_state_def)
  then have "s0 \<noteq> []" using accepted_states(2) [OF a(2)] by blast
  then show thesis using that [of ev p ty s0 ps] a l e \<open>ty \<noteq> _\<close> by (simp add: accepted_event_def)
qed

definition term_str :: "pydict \<Rightarrow> string \<Rightarrow> string" where
  "term_str t k = py_str (dget_or t k (PStr []))"

text \<open>The settlement of an event pays the full amount of the terms.\<close>

definition pays_terms :: "pydict \<Rightarrow> trade_parties \<Rightarrow> pydict \<Rightarrow> bool" where
  "pays_terms t ps p \<longleftrightarrow> (\<exists>d amount. dget p ''settlement'' = Some (PDict d) \<and> dget t ''amount_minor'' = Some (PInt amount) \<and> 0 < amount
     \<and> dget d ''amount_minor'' = Some (PInt amount) \<and> dget d ''currency'' = Some (PStr (term_str t ''currency''))
     \<and> dget d ''payee_did'' = Some (PStr (term_str t ''payee_did'')) \<and> (p_publisher ps = [] \<or> dget d ''payer_did'' = Some (PStr (p_publisher ps))))"

lemma settlement_dict:
  assumes "verify_settlement (if is_dict (settlement_of p) then settlement_of p else PDict []) now a c y z = (True, m)"
  obtains d where "dget p ''settlement'' = Some (PDict d)" "verify_settlement (PDict d) now a c y z = (True, m)"
proof -
  have no: "\<not> fst (verify_settlement (PDict []) now a c y z)"
    using verify_settlement_sound [of "[]" now a c y z "snd (verify_settlement (PDict []) now a c y z)"] by (auto simp: dget_def prod_eq_iff)
  obtain d where d: "settlement_of p = PDict d" using assms no by (auto simp: is_dict_def split: if_splits pyval.splits)
  then have "d \<noteq> []" using assms no by (auto simp: is_dict_def)
  then have "dget p ''settlement'' = Some (PDict d)" using d by (auto simp: settlement_of_def dget_or_def split: option.splits)
  then show thesis using that assms d by (auto simp: is_dict_def)
qed

lemma check_direct_pays:
  assumes "check_direct now t ps p = Inr ()"
  shows "pays_terms t ps p"
proof -
  define a where "a = (case dget t ''amount_minor'' of Some (PInt a) \<Rightarrow> a | _ \<Rightarrow> - 1)"
  define c where "c = term_str t ''currency''"
  define y where "y = term_str t ''payee_did''"
  obtain m where "verify_settlement (if is_dict (settlement_of p) then settlement_of p else PDict []) now a c y (p_publisher ps) = (True, m)"
    using assms by (auto simp: check_direct_def Let_def a_def c_def y_def term_str_def rejected_def split: prod.splits bool.splits)
  then obtain d where d: "dget p ''settlement'' = Some (PDict d)" "verify_settlement (PDict d) now a c y (p_publisher ps) = (True, m)"
    by (rule settlement_dict)
  note v = verify_settlement_sound [OF d(2)]
  then have "0 < a" by blast
  then have "dget t ''amount_minor'' = Some (PInt a)" by (auto simp: a_def split: option.splits pyval.splits)
  then show ?thesis using v d(1) by (auto simp: pays_terms_def c_def y_def)
qed

lemma check_resolution_pays:
  assumes "check_resolution now t ps p = Inr ()" "dget p ''resolution'' = Some (PStr ''settle'')"
  shows "pays_terms t ps p"
proof -
  obtain s amount m where s: "settlement_of p = PDict s" "dget t ''amount_minor'' = Some (PInt amount)"
    "verify_settlement (PDict s) now amount (term_str t ''currency'') (term_str t ''payee_did'') (p_publisher ps) = (True, m)"
    using assms by (auto simp: check_resolution_def Let_def rejected_def term_str_def split: pyval.splits option.splits if_splits prod.splits bool.splits)
  then obtain d where d: "dget p ''settlement'' = Some (PDict d)" "verify_settlement (PDict d) now amount (term_str t ''currency'') (term_str t ''payee_did'') (p_publisher ps) = (True, m)"
    using settlement_dict [of p now amount "term_str t ''currency''" "term_str t ''payee_did''" "p_publisher ps" m] by (auto simp: is_dict_def)
  from verify_settlement_sound [OF d(2)] show ?thesis using d(1) s(2) by (auto simp: pays_terms_def)
qed

definition last_payload :: "pyval list \<Rightarrow> pydict" where
  "last_payload events = (case List.last events of
     PDict ev \<Rightarrow> (case dget ev ''payload'' of Some (PDict p) \<Rightarrow> p | _ \<Rightarrow> [])
   | _ \<Rightarrow> [])"

lemma settling_types:
  assumes "expected_new_state ty p = Some s" "s \<in> {''settled'', ''refunded'', ''split_settled''}"
  shows "ty = ''settlement_recorded'' \<and> s = ''settled'' \<or> ty = ''dispute_resolved'' \<and>
    (dget p ''resolution'', s) \<in> {(Some (PStr ''settle''), ''settled''), (Some (PStr ''refund''), ''refunded''), (Some (PStr ''split''), ''split_settled'')}"
  using assms by (auto simp: expected_new_state_def split: if_splits)

lemma settled_chain_paid:
  assumes "verify_chain_events n now tid events = Inr (True, m)" "current_state events = ''settled''"
  shows "\<exists>ps ls. parties_of events = Inr ps \<and> ls = map event_label (tl events)
    \<and> (p_claimant ps, ''delivery_submitted'') \<in> set ls
    \<and> ((p_verifier ps, ''verification_recorded'') \<in> set ls \<and> List.last ls = (p_settler ps, ''settlement_recorded'')
       \<or> ((p_publisher ps, ''dispute_opened'') \<in> set ls \<or> (p_claimant ps, ''dispute_opened'') \<in> set ls)
         \<and> List.last ls = (p_resolver ps, ''dispute_resolved''))
    \<and> (case trade_terms events of None \<Rightarrow> True | Some t \<Rightarrow> t = [] \<or> pays_terms t ps (last_payload events))"
proof -
  obtain e es ps where e: "events = e # es" "parties_of events = Inr ps" "lifecycle_path ps ''executing'' (map event_label es) (current_state events)"
    using verified_path [OF assms(1)] by blast
  have "current_state events \<noteq> ''executing''" by (simp add: assms(2))
  then obtain ev p ty where l: "List.last events = PDict ev" "dget ev ''payload'' = Some (PDict p)" "expected_new_state ty p = Some ''settled''"
    "check_terms now (trade_terms events) ps ty p = Inr ()" using verified_last [OF assms(1)] e(2) assms(2) by (metis Inr_inject)
  have "pays_terms t ps p" if "trade_terms events = Some t" "t \<noteq> []" for t
    using settling_types [OF l(3)] l(4) that check_direct_pays [of now t ps p] check_resolution_pays [of now t ps p] by (auto simp: check_terms_def)
  moreover have "last_payload events = p" using l by (simp add: last_payload_def)
  ultimately have "case trade_terms events of None \<Rightarrow> True | Some t \<Rightarrow> t = [] \<or> pays_terms t ps (last_payload events)" by (auto split: option.splits)
  moreover have "''settled'' \<in> {''settled'', ''refunded'', ''split_settled''}" by simp
  ultimately show ?thesis using e settled_why [OF e(3)] unfolding assms(2) by (intro exI [of _ ps] exI [of _ "map event_label (tl events)"]) auto
qed

definition event_payload :: "pyval \<Rightarrow> pydict" where
  "event_payload raw = (case raw of PDict ev \<Rightarrow> (case dget ev ''payload'' of Some (PDict p) \<Rightarrow> p | _ \<Rightarrow> []) | _ \<Rightarrow> [])"

lemma last_payload_event: "last_payload events = event_payload (List.last events)"
  by (simp add: last_payload_def event_payload_def)

text \<open>The verdict and the resolution of a chain, read off the event that moved it there.\<close>

lemma scan_last_event:
  assumes "trade_scan n now tid terms 0 ps [] (xs @ [x]) = Inr (ps', s)" "xs \<noteq> []"
  obtains s0 ty where "trade_scan n now tid terms 0 ps [] xs = Inr (ps', s0)" "s0 \<in> set (legal_prior ty)" "s0 \<noteq> []"
    "expected_new_state ty (event_payload x) = Some s" "event_label x = (fst (event_label x), ty)" "fst (event_label x) \<in> set (allowed_roles ps' ty)"
proof -
  obtain ps0 s0 where pre: "trade_scan n now tid terms 0 ps [] xs = Inr (ps0, s0)" and x: "trade_check n now tid terms (length xs) ps0 s0 x = Inr (ps', s)"
    using assms(1) by (auto simp: trade_scan_snoc)
  have s0: "s0 \<noteq> []" using trade_scan_last [OF pre assms(2)] by blast
  obtain ev p ty where e: "x = PDict ev" "accepted_event n now tid terms (length xs) ps0 s0 ev p ty s" "ps' = ps0"
    using trade_check_Inr [OF x] s0 by auto
  show thesis using that [OF _ _ s0, of ty] pre e s0 accepted_states(2) [OF e(2)]
    by (simp add: accepted_event_def event_label_def event_payload_def)
qed

lemma scan_verified_pass:
  assumes "trade_scan n now tid terms 0 ps [] xs = Inr (ps', ''verified'')"
  obtains ys v where "xs = ys @ [v]" "event_label v = (p_verifier ps', ''verification_recorded'')" "dget (event_payload v) ''verdict'' = Some (PStr ''pass'')"
proof -
  obtain ys v where xs: "xs = ys @ [v]" using assms by (cases xs rule: rev_cases) auto
  have ne: "ys \<noteq> []"
  proof
    assume "ys = []"
    then have "trade_check n now tid terms 0 ps [] v = Inr (ps', ''verified'')" using assms xs by (auto simp: bindR_Inr_iff)
    from trade_check_Inr [OF this] obtain ev p ty where e: "accepted_event n now tid terms 0 ps [] ev p ty ''verified''" by blast
    then show False using accepted_states(2) [OF e] by (simp add: accepted_event_def expected_new_state_def)
  qed
  obtain s0 ty where e: "expected_new_state ty (event_payload v) = Some ''verified''" "event_label v = (fst (event_label v), ty)"
    "fst (event_label v) \<in> set (allowed_roles ps' ty)" using scan_last_event [OF assms [unfolded xs] ne] by metis
  have ty: "ty = ''verification_recorded''" "dget (event_payload v) ''verdict'' = Some (PStr ''pass'')"
    using e(1) by (auto simp: expected_new_state_def split: if_splits)
  have "fst (event_label v) = p_verifier ps'" using e(3) by (auto simp: ty(1) allowed_roles_def split: if_splits)
  then show thesis using that [OF xs _ ty(2)] e(2) by (simp add: ty(1))
qed

text \<open>The verdict of a chain that was settled directly is a pass, given right before the settlement; a chain settled by a
  resolution carries the resolution \<open>settle\<close>.\<close>

lemma settled_chain_approved:
  assumes "verify_chain_events n now tid events = Inr (True, m)" "current_state events = ''settled''" "parties_of events = Inr ps"
  shows "list_all (event_signed n) events \<and>
    ((\<exists>xs v s. events = xs @ [v, s] \<and> event_label v = (p_verifier ps, ''verification_recorded'') \<and> dget (event_payload v) ''verdict'' = Some (PStr ''pass'')
        \<and> event_label s = (p_settler ps, ''settlement_recorded''))
     \<or> event_label (List.last events) = (p_resolver ps, ''dispute_resolved'') \<and> dget (last_payload events) ''resolution'' = Some (PStr ''settle''))"
proof -
  obtain e es ps0 where e: "events = e # es" using verified_path [OF assms(1)] by blast
  obtain ps' s where sc: "trade_scan n now tid (trade_terms events) 0 (payload_parties []) [] (e # es) = Inr (ps', s)"
    using assms(1) e unfolding verify_chain_iff by blast
  have s: "s = ''settled''" "ps' = ps" using trade_scan_last [OF sc] assms(2,3) e by auto
  have "lifecycle_path ps ''executing'' (map event_label es) ''settled''" and sg: "list_all (event_signed n) events"
    using trade_scan_path [OF sc] s e by simp_all
  then have "es \<noteq> []" by (auto elim: lifecycle_path.cases)
  then obtain xs x where x: "e # es = (e # xs) @ [x]" by (cases es rule: rev_cases) auto
  obtain s0 ty where l: "trade_scan n now tid (trade_terms events) 0 (payload_parties []) [] (e # xs) = Inr (ps, s0)" "s0 \<in> set (legal_prior ty)"
    "expected_new_state ty (event_payload x) = Some ''settled''" "event_label x = (fst (event_label x), ty)" "fst (event_label x) \<in> set (allowed_roles ps ty)"
    using scan_last_event [OF sc [unfolded x]] s by (metis list.discI)
  have lp: "last_payload events = event_payload x" "List.last events = x" using e x by (simp_all add: last_payload_event)
  have "''settled'' \<in> {''settled'', ''refunded'', ''split_settled''}" by simp
  from settling_types [OF l(3) this] show ?thesis
  proof (elim disjE conjE)
    assume ty: "ty = ''settlement_recorded''"
    then have "s0 = ''verified''" using l(2) by (simp add: legal_prior_def)
    then obtain ys v where "e # xs = ys @ [v]" "event_label v = (p_verifier ps, ''verification_recorded'')" "dget (event_payload v) ''verdict'' = Some (PStr ''pass'')"
      using scan_verified_pass [of n now tid "trade_terms events" "payload_parties []" "e # xs" ps] l(1) by metis
    moreover have "event_label x = (p_settler ps, ''settlement_recorded'')"
      using l(4,5) by (cases "event_label x") (auto simp: ty allowed_roles_def split: if_splits)
    ultimately show ?thesis using sg e x by (intro conjI disjI1 exI [of _ ys] exI [of _ v] exI [of _ x]) simp_all
  next
    assume ty: "ty = ''dispute_resolved''" and r: "(dget (event_payload x) ''resolution'', ''settled'') \<in> {(Some (PStr ''settle''), ''settled''), (Some (PStr ''refund''), ''refunded''), (Some (PStr ''split''), ''split_settled'')}"
    have "event_label x = (p_resolver ps, ''dispute_resolved'')"
      using l(4,5) by (cases "event_label x") (auto simp: ty allowed_roles_def split: if_splits)
    then show ?thesis using sg r lp by auto
  qed
qed


lemma check_splitE:
  assumes "check_split amount currency ps d"
  shows "(\<exists>a b. dget d ''amount_minor'' = Some (PInt a) \<and> dget d ''refunded_amount_minor'' = Some (PInt b) \<and> 0 < a \<and> 0 < b \<and> a + b = amount)
    \<and> dget d ''currency'' = Some (PStr currency) \<and> dget d ''payee_did'' = Some (PStr (p_claimant ps)) \<and> dget d ''payer_did'' = Some (PStr (p_publisher ps))"
proof -
  have two: "(case (x, y) of (Some (PInt a), Some (PInt b)) \<Rightarrow> P a b | _ \<Rightarrow> False) \<longleftrightarrow> (\<exists>a b. x = Some (PInt a) \<and> y = Some (PInt b) \<and> P a b)"
    for x y :: "pyval option" and P :: "int \<Rightarrow> int \<Rightarrow> bool"
    by (cases x; cases y; cases "the x"; cases "the y") simp_all
  from assms show ?thesis unfolding check_split_def two by blast
qed

text \<open>A dispute moves exactly the agreed money: when a verified chain with terms ended split or refunded, the resolver closed
  it with a manual settlement whose paid and refunded parts are both positive and add up to the agreed amount
  (a refund pays nothing and returns all of it), in the agreed currency.\<close>

lemma dispute_outcome_conserves:
  assumes "verify_chain_events n now tid events = Inr (True, m)" "trade_terms events = Some t" "t \<noteq> []"
    "current_state events \<in> {''refunded'', ''split_settled''}"
  shows "\<exists>ps d amount. parties_of events = Inr ps \<and> dget (last_payload events) ''settlement'' = Some (PDict d) \<and> dget t ''amount_minor'' = Some (PInt amount)
    \<and> dget d ''currency'' = Some (PStr (term_str t ''currency'')) \<and> dget d ''payer_did'' = Some (PStr (p_publisher ps))
    \<and> (if current_state events = ''refunded''
       then py_eq (dget_or d ''amount_minor'' PNone) (PInt 0) \<and> py_eq (dget_or d ''refunded_amount_minor'' PNone) (PInt amount)
         \<and> dget d ''payee_did'' = Some (PStr (p_publisher ps))
       else (\<exists>paid refunded. dget d ''amount_minor'' = Some (PInt paid) \<and> dget d ''refunded_amount_minor'' = Some (PInt refunded)
         \<and> 0 < paid \<and> 0 < refunded \<and> paid + refunded = amount \<and> dget d ''payee_did'' = Some (PStr (p_claimant ps))))"
proof -
  have "current_state events \<noteq> ''executing''" using assms(4) by auto
  then obtain ev p ty ps where l: "List.last events = PDict ev" "dget ev ''payload'' = Some (PDict p)" "expected_new_state ty p = Some (current_state events)"
    "check_terms now (trade_terms events) ps ty p = Inr ()" "parties_of events = Inr ps" using verified_last [OF assms(1)] by metis
  have ty: "ty = ''dispute_resolved''" "dget p ''resolution'' = Some (PStr (if current_state events = ''refunded'' then ''refund'' else ''split''))"
    using settling_types [OF l(3)] assms(4) by auto
  have c: "check_resolution now t ps p = Inr ()" using l(4) assms(2,3) ty(1) by (simp add: check_terms_def)
  obtain d amount where d: "settlement_of p = PDict d" "dget t ''amount_minor'' = Some (PInt amount)"
    "if current_state events = ''refunded'' then check_refund amount (term_str t ''currency'') ps d else check_split amount (term_str t ''currency'') ps d"
    using c ty(2) by (auto simp: check_resolution_def Let_def rejected_def term_str_def split: pyval.splits option.splits if_splits)
  have "dget d ''currency'' = Some (PStr (term_str t ''currency''))"
  proof (cases "current_state events = ''refunded''")
    case True
    then show ?thesis using d(3) by (simp add: check_refund_def)
  next
    case False
    then show ?thesis using d(3) by (simp add: check_splitE)
  qed
  then have "d \<noteq> []" by (auto simp: dget_def)
  then have s: "dget p ''settlement'' = Some (PDict d)" using d(1) by (auto simp: settlement_of_def dget_or_def split: option.splits)
  have p: "last_payload events = p" using l by (simp add: last_payload_def)
  show ?thesis
  proof (cases "current_state events = ''refunded''")
    case True
    then have "check_refund amount (term_str t ''currency'') ps d" using d(3) by simp
    then show ?thesis using s p d(2) l(5) True by (intro exI [of _ ps] exI [of _ d] exI [of _ amount]) (simp add: check_refund_def)
  next
    case False
    then have "check_split amount (term_str t ''currency'') ps d" using d(3) by simp
    from check_splitE [OF this] show ?thesis using s p d(2) l(5) False by (intro exI [of _ ps] exI [of _ d] exI [of _ amount]) simp
  qed
qed

end
