(* ===== verification/Trade_Ops.thy ===== *)
theory Trade_Ops
  imports Trade_Chain Json_Size
begin

text \<open>
  The transitions of \<open>trade.py\<close> against the replay: what \<open>_append_event\<close> stores, which transitions keep a chain
  verified, and what replication may change.
\<close>

section \<open>A signed event verifies\<close>

lemma num_eq_int [simp]: "num_eq (PInt i) (PInt j) \<longleftrightarrow> i = j"
  by (simp add: num_eq_def num_of_def)

lemma trade_signing_body_new: "trade_signing_body (new_trade_event tid i ty did prev new p now) = new_trade_event tid i ty did prev new p now"
  by (simp add: trade_signing_body_def trade_body_fields_def new_trade_event_def obj_def dget_or_def)

lemma new_trade_event_fields [simp]:
  "dget (new_trade_event tid i ty did prev new p now) ''trade_id'' = Some (PStr tid)"
  "dget (new_trade_event tid i ty did prev new p now) ''seq'' = Some (PInt (int i))"
  "dget (new_trade_event tid i ty did prev new p now) ''type'' = Some (PStr ty)"
  "dget (new_trade_event tid i ty did prev new p now) ''actor_did'' = Some (PStr did)"
  "dget (new_trade_event tid i ty did prev new p now) ''prev_state'' = Some (PStr prev)"
  "dget (new_trade_event tid i ty did prev new p now) ''new_state'' = Some (PStr new)"
  "dget (new_trade_event tid i ty did prev new p now) ''payload'' = Some (PDict p)"
  "dget (new_trade_event tid i ty did prev new p now) ''event_sig'' = None"
  by (simp_all add: new_trade_event_def obj_def)

lemma dget_append [simp]: "dget (d @ e) k = (case dget d k of None \<Rightarrow> dget e k | Some v \<Rightarrow> Some v)"
  by (auto simp: dget_def map_add_def split: option.splits)

lemma trade_signing_body_signed:
  "trade_signing_body (new_trade_event tid i ty did prev new p now @ [(PStr ''event_sig'', v)]) = new_trade_event tid i ty did prev new p now"
  by (simp add: trade_signing_body_def trade_body_fields_def new_trade_event_def obj_def dget_or_def)

lemma signed_event_accepted:
  assumes "ed25519_ok n" "signer_ok n actor" "as_did actor = Inr did"
    "sign_trade_event n actor (new_trade_event tid i ty did prev new p now) = Inr ev"
  shows "fst (verify_trade_event n ev)" "same_keys ev trade_event_fields"
    "k \<noteq> ''event_sig'' \<Longrightarrow> dget ev k = dget (new_trade_event tid i ty did prev new p now) k"
proof -
  define body where "body = new_trade_event tid i ty did prev new p now"
  obtain bs s where bs: "canonical_json (PDict body) = Inr bs" "identity_sign n actor bs = Inr s"
    and ev: "ev = body @ [(PStr ''event_sig'', PStr (b64u_encode s))]"
    using assms(4) by (auto simp: sign_trade_event_def res_iffs trade_signing_body_new body_def)
  obtain seed where seed: "id_signing_key actor = Some seed" "length seed = 32" using assms(2) by (rule signer_okE)
  note ok = ed25519_okD [OF assms(1) seed(2)]
  have s: "s = nacl_sign n seed bs" using signer_sign [OF assms(1,2)] bs(2) seed by simp
  have pk: "decode_ed25519_did_key did = Inr (nacl_pub n seed)"
    using signer_did [OF assms(1,2)] assms(3) seed(1) by (metis Inr_inject option.sel)
  have "is_did_key (PStr did)" using pk by (auto simp: is_did_key_iff decode_did_iff)
  moreover have "1 \<le> length (b64u_encode s)" "length (b64u_encode s) \<le> 128"
    using ok(3) [of bs] s length_b64u [of s] b64u_encode_Nil [of s] by (cases "b64u_encode s"; force)+
  ultimately show "fst (verify_trade_event n ev)"
    using bs ok pk s by (simp add: verify_trade_event_def ev body_def trade_signing_body_signed dget_or_def)
  show "same_keys ev trade_event_fields"
    by (auto simp: same_keys_def ev body_def new_trade_event_def obj_def trade_event_fields_def trade_body_fields_def)
  show "dget ev k = dget (new_trade_event tid i ty did prev new p now) k" if "k \<noteq> ''event_sig''"
    using that by (simp add: ev body_def split: option.split)
qed

section \<open>Verified chains stay verified\<close>

lemma verify_settlement_later:
  assumes "verify_settlement s now a c y z = (True, m)" "now \<le> now'"
  shows "verify_settlement s now' a c y z = (True, m)"
proof -
  have skew: "now' + max_settlement_future_skew_ms < at_ms \<Longrightarrow> now + max_settlement_future_skew_ms < at_ms" for at_ms using assms(2) by linarith
  show ?thesis
  proof (cases s)
    case (PDict d)
    show ?thesis
    proof (cases "positive_amount (dget d ''settled_at_ms'')")
      case None
      show ?thesis using assms(1) unfolding PDict verify_settlement_def pyval.case None option.case .
    next
      case (Some at_ms)
      show ?thesis
      proof (cases "now + max_settlement_future_skew_ms < at_ms")
        case True
        then have "verify_settlement s now a c y z \<noteq> (True, m)"
          unfolding PDict verify_settlement_def pyval.case Some option.case by (simp add: Let_def split: option.split pyval.split)
        then show ?thesis using assms(1) by blast
      next
        case False
        then have "\<not> now' + max_settlement_future_skew_ms < at_ms" using skew by blast
        then show ?thesis using assms(1) False unfolding PDict verify_settlement_def pyval.case Some option.case by (simp only: if_False)
      qed
    qed
  qed (use assms(1) in \<open>simp_all add: verify_settlement_def\<close>)
qed

lemma verdict_iff: "(case v of (True, _) \<Rightarrow> Inr () | (False, reason) \<Rightarrow> rejected reason) = Inr () \<longleftrightarrow> fst v"
  by (cases v) (auto simp: rejected_def split: bool.splits)

lemma check_terms_later:
  assumes "check_terms now terms ps ty p = Inr ()" "now \<le> now'"
  shows "check_terms now' terms ps ty p = Inr ()"
proof -
  have v: "fst (verify_settlement s now' a c y z)" if t: "fst (verify_settlement s now a c y z)" for s a c y z
  proof -
    obtain m where "verify_settlement s now a c y z = (True, m)" using t by (cases "verify_settlement s now a c y z") auto
    from verify_settlement_later [OF this assms(2)] show ?thesis by simp
  qed
  have d: "check_direct now' t ps p = Inr ()" if "check_direct now t ps p = Inr ()" for t
    using that unfolding check_direct_def Let_def verdict_iff by (rule v)
  have r: "check_resolution now' t ps p = Inr ()" if c: "check_resolution now t ps p = Inr ()" for t
  proof -
    obtain s amount where s: "settlement_of p = PDict s" "dget t ''amount_minor'' = Some (PInt amount)"
      using c by (auto simp: check_resolution_def rejected_def split: pyval.splits option.splits)
    have "\<not> amount \<le> 0" using c by (auto simp: check_resolution_def s Let_def rejected_def)
    then show ?thesis using c v by (cases "dget p ''resolution'' = Some (PStr ''settle'')") (simp_all add: check_resolution_def s Let_def verdict_iff)
  qed
  show ?thesis using assms(1) d r by (auto simp: check_terms_def split: option.splits if_splits)
qed

lemma trade_scan_later:
  assumes "now \<le> now'"
  shows "trade_scan n now tid terms i ps s events = Inr r \<Longrightarrow> trade_scan n now' tid terms i ps s events = Inr r"
proof (induction events arbitrary: i ps s)
  case (Cons raw events)
  obtain ps' s' where c: "trade_check n now tid terms i ps s raw = Inr (ps', s')" and r: "trade_scan n now tid terms (i + 1) ps' s' events = Inr r"
    using Cons.prems by (auto simp: bindR_Inr_iff)
  obtain ev p ty where e: "raw = PDict ev" "accepted_event n now tid terms i ps s ev p ty s'" "ps' = (if ty = ''trade_opened'' then payload_parties p else ps)"
    using trade_check_accepted [OF c] .
  have "accepted_event n now' tid terms i ps s ev p ty s'" using e(2) check_terms_later assms unfolding accepted_event_def by blast
  from accepted_check [OF this] show ?case using e Cons.IH [OF r] by simp
qed simp

lemma verify_trade_later: "verify_trade n now st tid = Inr (True, []) \<Longrightarrow> now \<le> now' \<Longrightarrow> verify_trade n now' st tid = Inr (True, [])"
  using trade_scan_later unfolding verify_trade_def verify_chain_iff by blast

section \<open>What an append stores\<close>

lemma get_stored: "stored_events st tid = Inr events \<Longrightarrow> events \<noteq> [] \<Longrightarrow> get_events st tid = Some events"
  by (auto simp: stored_events_def get_events_def rejected_def split: option.splits pyval.splits)

lemma get_events_put [simp]: "get_events (assoc_put (trade_path_of tid) (trade_doc tid events) st) tid = Some events"
  by (simp add: get_events_def trade_doc_def)

lemma stored_put: "stored_events (assoc_put (trade_path_of tid) (trade_doc tid events) st) tid = Inr events"
  by (simp add: stored_events_def trade_doc_def)

lemma append_event_stored:
  assumes "append_event n now st tid actor ty new payload expect_open allowed = (st', Inr ev)"
  obtains events did prev where "stored_events st tid = Inr events" "events = [] \<or> verify_trade n now st tid = Inr (True, [])"
    "fits max_trade_payload_bytes (PDict payload)" "prior_state events ty expect_open allowed actor = Inr prev" "as_did actor = Inr did"
    "sign_trade_event n actor (new_trade_event tid (length events) ty did prev new payload now) = Inr ev"
    "chain_fits (events @ [PDict ev])" "st' = assoc_put (trade_path_of tid) (trade_doc tid (events @ [PDict ev])) st"
proof -
  have "verify_trade n now st tid = Inr (True, r) \<Longrightarrow> r = []" for r by (simp add: verify_trade_def verify_chain_iff)
  then show thesis using assms that
    by (fastforce simp: append_event_def rejected_def require_verified_def res_iffs split: if_splits sum.splits prod.splits)
qed

text \<open>An event appended to a verified chain leaves it verified, then and at any later time, exactly when it meets the terms at that time.\<close>

lemma append_verified_iff:
  assumes "ed25519_ok n" "signer_ok n actor" "now \<le> later" "append_event n now st tid actor ty new payload False (Some ds) = (st', Inr ev)"
    "expected_new_state ty payload = Some new" "ty \<noteq> ''trade_opened''"
    "parties_of (case get_events st tid of None \<Rightarrow> [] | Some evs \<Rightarrow> evs) = Inr ps" "set (allowed_roles ps ty) = set (filter (\<lambda>d. d \<noteq> []) ds)"
  shows "\<exists>events. get_events st tid = Some events \<and> get_events st' tid = Some (events @ [PDict ev]) \<and> trade_state st' tid = Some new
    \<and> dget ev ''payload'' = Some (PDict payload) \<and> parties_of events = Inr ps
    \<and> (verify_trade n later st' tid = Inr (True, []) \<longleftrightarrow> check_terms later (trade_terms events) ps ty payload = Inr ())"
proof -
  obtain events did prev where a: "stored_events st tid = Inr events" "events = [] \<or> verify_trade n now st tid = Inr (True, [])"
    "fits max_trade_payload_bytes (PDict payload)" "prior_state events ty False (Some ds) actor = Inr prev" "as_did actor = Inr did"
    "sign_trade_event n actor (new_trade_event tid (length events) ty did prev new payload now) = Inr ev"
    "chain_fits (events @ [PDict ev])" "st' = assoc_put (trade_path_of tid) (trade_doc tid (events @ [PDict ev])) st"
    using append_event_stored [OF assms(4)] by blast
  have ne: "events \<noteq> []" and prev: "prev = current_state events" "prev \<in> set (legal_prior ty)" "did \<in> set (filter (\<lambda>d. d \<noteq> []) ds)"
    using a(4,5) by (auto simp: prior_state_def rejected_def Let_def split: if_splits)
  note g = get_stored [OF a(1) ne]
  have ps: "parties_of events = Inr ps" using assms(7) g by simp
  obtain ps' s where sc: "trade_scan n later tid (trade_terms events) 0 (payload_parties []) [] events = Inr (ps', s)"
    using a(2) ne g trade_scan_later [OF assms(3)] by (auto simp: verify_trade_def verify_chain_iff)
  then have s: "s = current_state events" "ps' = ps" using trade_scan_last [OF sc ne] ps by auto
  note f = signed_event_accepted [OF assms(1,2) a(5,6)]
  have acc: "accepted_event n later tid (trade_terms events) (length events) ps s ev payload ty new" if "check_terms later (trade_terms events) ps ty payload = Inr ()"
    using that f(1,2) f(3) [of "''trade_id''"] f(3) [of "''seq''"] f(3) [of "''type''"] f(3) [of "''actor_did''"] f(3) [of "''prev_state''"]
      f(3) [of "''new_state''"] f(3) [of "''payload''"] prev assms(5,8) a(3) s by (simp add: accepted_event_def dget_or_def)
  have st': "get_events st' tid = Some (events @ [PDict ev])" by (simp add: a(8))
  have "verify_trade n later st' tid = Inr (True, []) \<longleftrightarrow> check_terms later (trade_terms events) ps ty payload = Inr ()"
  proof
    assume "check_terms later (trade_terms events) ps ty payload = Inr ()"
    from accepted_check [OF acc [OF this]] have "\<exists>r. trade_scan n later tid (trade_terms events) 0 (payload_parties []) [] (events @ [PDict ev]) = Inr r"
      using sc s(2) by (auto simp: trade_scan_snoc)
    then show "verify_trade n later st' tid = Inr (True, [])" using a(7) ne by (auto simp: verify_trade_def st' verify_chain_iff)
  next
    assume "verify_trade n later st' tid = Inr (True, [])"
    then obtain r where "trade_check n later tid (trade_terms events) (length events) ps s (PDict ev) = Inr r"
      using sc s(2) ne by (auto simp: verify_trade_def st' verify_chain_iff trade_scan_snoc)
    then obtain p ty' s' where "accepted_event n later tid (trade_terms events) (length events) ps s ev p ty' s'"
      by (cases r) (auto elim: trade_check_accepted)
    then show "check_terms later (trade_terms events) ps ty payload = Inr ()"
      using f(3) [of "''type''"] f(3) [of "''payload''"] assms(6) by (simp add: accepted_event_def)
  qed
  moreover have "trade_state st' tid = Some new" using f(3) [of "''new_state''"] by (simp add: trade_state_def st' current_state_def dget_or_def)
  ultimately show ?thesis using g st' ps f(3) [of "''payload''"] by simp
qed

lemma open_verified:
  assumes "ed25519_ok n" "signer_ok n actor" "append_event n now st tid actor ''trade_opened'' ''executing'' payload True None = (st', Inr ev)"
  shows "get_events st' tid = Some [PDict ev] \<and> trade_state st' tid = Some ''executing'' \<and> verify_trade n now st' tid = Inr (True, [])
    \<and> dget ev ''payload'' = Some (PDict payload)"
proof -
  obtain events did prev where a: "stored_events st tid = Inr events" "fits max_trade_payload_bytes (PDict payload)"
    "prior_state events ''trade_opened'' True None actor = Inr prev" "as_did actor = Inr did"
    "sign_trade_event n actor (new_trade_event tid (length events) ''trade_opened'' did prev ''executing'' payload now) = Inr ev"
    "chain_fits (events @ [PDict ev])" "st' = assoc_put (trade_path_of tid) (trade_doc tid (events @ [PDict ev])) st"
    using append_event_stored [OF assms(3)] by blast
  have e: "events = []" "prev = []" using a(3) by (auto simp: prior_state_def rejected_def split: if_splits)
  note f = signed_event_accepted [OF assms(1,2) a(4,5)]
  have "accepted_event n now tid terms 0 ps [] ev payload ''trade_opened'' ''executing''" for terms ps
    using f(1,2) f(3) [of "''trade_id''"] f(3) [of "''seq''"] f(3) [of "''type''"] f(3) [of "''prev_state''"]
      f(3) [of "''new_state''"] f(3) [of "''payload''"] a(2) e by (simp add: accepted_event_def dget_or_def legal_prior_def expected_new_state_def)
  note this [THEN accepted_check]
  then show ?thesis using a(6) e f(3) [of "''new_state''"] f(3) [of "''payload''"]
    by (simp add: a(7) verify_trade_def verify_chain_iff trade_state_def current_state_def dget_or_def)
qed

lemmas transition_defs = submit_delivery_def record_verification_def open_dispute_def record_settlement_def resolve_dispute_def

lemma with_parties_Inr:
  assumes "with_parties st tid k = (st', Inr ev)"
  obtains ps where "parties_of (case get_events st tid of None \<Rightarrow> [] | Some evs \<Rightarrow> evs) = Inr ps" "k ps = (st', Inr ev)"
  using assms by (auto simp: with_parties_def split: sum.splits)

text \<open>A transition that went through: an event of its type, by the party bound to it, was appended.\<close>

definition appended :: "nacl \<Rightarrow> int \<Rightarrow> string \<Rightarrow> trade_store \<Rightarrow> identity \<Rightarrow> string \<Rightarrow> string \<Rightarrow> pydict \<Rightarrow> trade_store \<Rightarrow> pydict \<Rightarrow> bool" where
  "appended n now tid st actor ty new payload st' ev \<longleftrightarrow> ty \<noteq> ''trade_opened'' \<and> expected_new_state ty payload = Some new
     \<and> (\<exists>ps ds. parties_of (case get_events st tid of None \<Rightarrow> [] | Some evs \<Rightarrow> evs) = Inr ps \<and> set (allowed_roles ps ty) = set (filter (\<lambda>d. d \<noteq> []) ds)
        \<and> append_event n now st tid actor ty new payload False (Some ds) = (st', Inr ev))"

lemma with_parties_appended:
  assumes "with_parties st tid (\<lambda>ps. append_event n now st tid actor ty new payload False (Some (ds ps))) = (st', Inr ev)"
    "ty \<noteq> ''trade_opened''" "expected_new_state ty payload = Some new" "\<And>ps. set (allowed_roles ps ty) = set (filter (\<lambda>d. d \<noteq> []) (ds ps))"
  shows "appended n now tid st actor ty new payload st' ev"
proof -
  obtain ps where ps: "parties_of (case get_events st tid of None \<Rightarrow> [] | Some evs \<Rightarrow> evs) = Inr ps"
    "append_event n now st tid actor ty new payload False (Some (ds ps)) = (st', Inr ev)" using assms(1) by (rule with_parties_Inr)
  show ?thesis unfolding appended_def using ps assms(2-4) by (intro conjI exI [of _ ps] exI [of _ "ds ps"]) simp_all
qed

lemma appended_delivery:
  "submit_delivery n now st tid actor delivery = (st', Inr ev) \<Longrightarrow>
    appended n now tid st actor ''delivery_submitted'' ''delivered'' (obj [(''delivery'', delivery)]) st' ev"
  unfolding submit_delivery_def by (erule with_parties_appended) (simp_all add: expected_new_state_def allowed_roles_def)

lemma appended_verification:
  assumes "record_verification n now st tid actor verdict result = (st', Inr ev)"
  shows "verdict \<in> {''pass'', ''fail''} \<and> appended n now tid st actor ''verification_recorded'' (if verdict = ''pass'' then ''verified'' else ''failed'')
    (obj [(''verdict'', PStr verdict), (''result'', result)]) st' ev"
proof -
  have v: "verdict \<in> {''pass'', ''fail''}" using assms by (auto simp: record_verification_def rejected_def split: if_splits)
  then have w: "with_parties st tid (\<lambda>ps. append_event n now st tid actor ''verification_recorded'' (if verdict = ''pass'' then ''verified'' else ''failed'')
      (obj [(''verdict'', PStr verdict), (''result'', result)]) False (Some [p_verifier ps])) = (st', Inr ev)"
    using assms by (simp add: record_verification_def)
  have "expected_new_state ''verification_recorded'' (obj [(''verdict'', PStr verdict), (''result'', result)]) = Some (if verdict = ''pass'' then ''verified'' else ''failed'')"
    using v by (auto simp: expected_new_state_def obj_def)
  then show ?thesis using with_parties_appended [OF w] v by (simp add: allowed_roles_def)
qed

lemma appended_settlement:
  "record_settlement n now st tid actor settlement = (st', Inr ev) \<Longrightarrow>
    appended n now tid st actor ''settlement_recorded'' ''settled'' (obj [(''settlement'', settlement)]) st' ev"
  unfolding record_settlement_def by (erule with_parties_appended) (simp_all add: expected_new_state_def allowed_roles_def)

lemma appended_resolution:
  assumes "resolve_dispute n now st tid actor resolution settlement rationale = (st', Inr ev)"
  shows "\<exists>new. resolution_state resolution = Some new \<and> appended n now tid st actor ''dispute_resolved'' new
    (obj [(''resolution'', PStr resolution), (''settlement'', PDict settlement), (''rationale'', PStr rationale)]) st' ev"
proof -
  obtain new where new: "resolution_state resolution = Some new" using assms by (auto simp: resolve_dispute_def rejected_def split: option.splits)
  have w: "with_parties st tid (\<lambda>ps. append_event n now st tid actor ''dispute_resolved'' new
      (obj [(''resolution'', PStr resolution), (''settlement'', PDict settlement), (''rationale'', PStr rationale)]) False (Some [p_resolver ps])) = (st', Inr ev)"
    using assms new by (simp add: resolve_dispute_def)
  have "expected_new_state ''dispute_resolved'' (obj [(''resolution'', PStr resolution), (''settlement'', PDict settlement), (''rationale'', PStr rationale)]) = Some new"
    using new by (auto simp: expected_new_state_def resolution_state_def obj_def split: if_splits)
  then show ?thesis using with_parties_appended [OF w] new by (simp add: allowed_roles_def)
qed

lemma appended_dispute:
  assumes "open_dispute n now st tid actor reason evidence = (st', Inr ev)"
  shows "\<exists>payload. appended n now tid st actor ''dispute_opened'' ''disputed'' payload st' ev"
proof -
  obtain ps where ps: "parties_of (case get_events st tid of None \<Rightarrow> [] | Some evs \<Rightarrow> evs) = Inr ps"
    "(case as_did actor of Inl e \<Rightarrow> (st, Inl e) | Inr did \<Rightarrow>
       let role = (if did = p_publisher ps then ''publisher'' else if did = p_claimant ps then ''claimant'' else []) in
       append_event n now st tid actor ''dispute_opened'' ''disputed''
         (obj [(''reason'', PStr reason), (''disputant_role'', PStr role), (''evidence'', PDict evidence)]) False (Some [p_publisher ps, p_claimant ps])) = (st', Inr ev)"
    using assms unfolding open_dispute_def by (rule with_parties_Inr)
  have "\<exists>payload. append_event n now st tid actor ''dispute_opened'' ''disputed'' payload False (Some [p_publisher ps, p_claimant ps]) = (st', Inr ev)"
    using ps(2) by (cases "as_did actor") (auto simp: Let_def)
  then obtain payload where p: "append_event n now st tid actor ''dispute_opened'' ''disputed'' payload False (Some [p_publisher ps, p_claimant ps]) = (st', Inr ev)" ..
  show ?thesis unfolding appended_def using ps(1) p
    by (intro exI [of _ payload] conjI exI [of _ ps] exI [of _ "[p_publisher ps, p_claimant ps]"]) (simp_all add: expected_new_state_def allowed_roles_def)
qed

section \<open>Transitions\<close>

text \<open>A payload meets the signed terms of the trade, at a clock reading, when the check that the verifier makes of it goes through.\<close>

definition meets_terms :: "int \<Rightarrow> trade_store \<Rightarrow> string \<Rightarrow> string \<Rightarrow> pydict \<Rightarrow> bool" where
  "meets_terms now st tid ty payload \<longleftrightarrow> (case get_events st tid of None \<Rightarrow> False | Some events \<Rightarrow>
     (case parties_of events of Inl _ \<Rightarrow> False | Inr ps \<Rightarrow> check_terms now (trade_terms events) ps ty payload = Inr ()))"

text \<open>The transitions of one trade at a clock reading, each under the type and the payload of the event it appends; a replicated chain
  brings several events and goes under the name \<open>import\<close>.\<close>

inductive trade_step :: "nacl \<Rightarrow> string \<Rightarrow> int \<Rightarrow> trade_store \<Rightarrow> string \<times> pydict \<Rightarrow> trade_store \<Rightarrow> bool" for n tid now st where
  start: "signer_ok n actor \<Longrightarrow> open_payload claim vd sd rd terms = Inr (tid, payload) \<Longrightarrow>
    open_trade n now st actor claim vd sd rd terms = (st', Inr ev) \<Longrightarrow> trade_step n tid now st (''trade_opened'', payload) st'"
| delivery: "signer_ok n actor \<Longrightarrow> submit_delivery n now st tid actor d = (st', Inr ev) \<Longrightarrow>
    trade_step n tid now st (''delivery_submitted'', obj [(''delivery'', d)]) st'"
| verification: "signer_ok n actor \<Longrightarrow> record_verification n now st tid actor verdict result = (st', Inr ev) \<Longrightarrow>
    trade_step n tid now st (''verification_recorded'', obj [(''verdict'', PStr verdict), (''result'', result)]) st'"
| settlement: "signer_ok n actor \<Longrightarrow> record_settlement n now st tid actor s = (st', Inr ev) \<Longrightarrow>
    trade_step n tid now st (''settlement_recorded'', obj [(''settlement'', s)]) st'"
| dispute: "signer_ok n actor \<Longrightarrow> open_dispute n now st tid actor reason evidence = (st', Inr ev) \<Longrightarrow> dget ev ''payload'' = Some (PDict payload) \<Longrightarrow>
    trade_step n tid now st (''dispute_opened'', payload) st'"
| resolution: "signer_ok n actor \<Longrightarrow> resolve_dispute n now st tid actor res s why = (st', Inr ev) \<Longrightarrow>
    trade_step n tid now st (''dispute_resolved'', obj [(''resolution'', PStr res), (''settlement'', PDict s), (''rationale'', PStr why)]) st'"
| replication: "import_verified_events n now st tid events = (st', Inr candidate) \<Longrightarrow> trade_step n tid now st (''import'', []) st'"

lemma import_verified:
  assumes "import_verified_events n now st tid events = (st', Inr candidate)"
  shows "candidate = events \<and> get_events st' tid = Some events \<and> verify_chain_events n now tid events = Inr (True, [])
    \<and> (\<forall>old. get_events st tid = Some old \<longrightarrow> old \<noteq> [] \<and> py_eq_list (take (length old) events) old \<and> length old \<le> length events)"
proof -
  have v: "validate_import n now st tid events = Inr candidate" and st': "st' = assoc_put (trade_path_of tid) (trade_doc tid candidate) st"
    using assms by (auto simp: import_verified_events_def split: sum.splits)
  have c: "candidate = events" "verify_chain_events n now tid events = Inr (True, [])"
    using v by (auto simp: validate_import_def rejected_def Let_def require_verified_def bindR_Inr_iff verify_chain_iff split: if_splits)
  have "old \<noteq> [] \<and> py_eq_list (take (length old) events) old \<and> length old \<le> length events" if "get_events st tid = Some old" for old
  proof -
    have "map_of st (trade_path_of tid) \<noteq> None" using that by (cases "map_of st (trade_path_of tid)") (simp_all add: get_events_def)
    then show ?thesis using v that by (auto simp: validate_import_def Let_def rejected_def split: if_splits)
  qed
  then show ?thesis using c st' by simp
qed

lemma appended_verified_iff:
  assumes "ed25519_ok n" "signer_ok n actor" "now \<le> later" "appended n now tid st actor ty new payload st' ev"
  shows "trade_state st' tid = Some new \<and> (verify_trade n later st' tid = Inr (True, []) \<longleftrightarrow>
    (ty \<in> {''settlement_recorded'', ''dispute_resolved''} \<longrightarrow> meets_terms later st tid ty payload))"
proof -
  obtain ps ds where a: "append_event n now st tid actor ty new payload False (Some ds) = (st', Inr ev)" "expected_new_state ty payload = Some new"
    "ty \<noteq> ''trade_opened''" "parties_of (case get_events st tid of None \<Rightarrow> [] | Some evs \<Rightarrow> evs) = Inr ps" "set (allowed_roles ps ty) = set (filter (\<lambda>d. d \<noteq> []) ds)"
    using assms(4) unfolding appended_def by blast
  obtain events where e: "get_events st tid = Some events" "parties_of events = Inr ps" "trade_state st' tid = Some new"
    "verify_trade n later st' tid = Inr (True, []) \<longleftrightarrow> check_terms later (trade_terms events) ps ty payload = Inr ()"
    using append_verified_iff [OF assms(1-3) a] by blast
  have "check_terms later (trade_terms events) ps ty payload = Inr ()" if "ty \<notin> {''settlement_recorded'', ''dispute_resolved''}"
    using that by (cases "trade_terms events") (simp_all add: check_terms_def)
  then show ?thesis using e by (auto simp: meets_terms_def)
qed


section \<open>Settlements that do not meet the terms\<close>

lemma append_event_doc:
  assumes "append_event n now st tid actor ty new payload expect_open allowed = (st', Inr ev)"
  shows "\<exists>events. stored_events st' tid = Inr (events @ [PDict ev])"
  using append_event_stored [OF assms] by (metis stored_put)

lemma unverified_refuses:
  assumes "stored_events st tid = Inr (xs @ [PDict ev])" "verify_trade n t st tid \<noteq> Inr (True, [])"
  shows "\<exists>e. append_event n t st tid actor ty new payload expect_open allowed = (st, Inl e)"
proof (cases "append_event n t st tid actor ty new payload expect_open allowed")
  case (Pair st2 r)
  show ?thesis
  proof (cases r)
    case (Inr ev2)
    obtain evs where "stored_events st tid = Inr evs" "evs = [] \<or> verify_trade n t st tid = Inr (True, [])"
      using append_event_stored [OF Pair [unfolded Inr]] by blast
    then show ?thesis using assms by simp
  next
    case (Inl e)
    then have "st2 = st" using Pair by (auto simp: append_event_def split: sum.splits)
    then show ?thesis using Pair Inl by blast
  qed
qed

text \<open>C39. \<open>record_settlement\<close> does not look at the terms. When it goes through with a settlement that meets them neither now nor at
  any later time (a wrong amount, currency, payee or payer, say, as against a date in the future, which the clock may catch up with), the
  trade is marked settled, and from then on every \<open>verify_trade\<close> fails and no further transition of any kind, not even a dispute, is
  recorded.\<close>

theorem unmet_settlement_locks_trade:
  assumes "ed25519_ok n" "signer_ok n actor" "record_settlement n now st tid actor s = (st', Inr ev)"
    "\<And>t. now \<le> t \<Longrightarrow> \<not> meets_terms t st tid ''settlement_recorded'' (obj [(''settlement'', s)])"
  shows "trade_state st' tid = Some ''settled''
    \<and> (\<forall>t\<ge>now. verify_trade n t st' tid \<noteq> Inr (True, [])
       \<and> (\<forall>actor' ty new payload expect_open allowed. \<exists>e. append_event n t st' tid actor' ty new payload expect_open allowed = (st', Inl e)))"
proof -
  note a = appended_settlement [OF assms(3)]
  then obtain ds where "append_event n now st tid actor ''settlement_recorded'' ''settled'' (obj [(''settlement'', s)]) False (Some ds) = (st', Inr ev)"
    unfolding appended_def by blast
  then obtain xs where xs: "stored_events st' tid = Inr (xs @ [PDict ev])" using append_event_doc by blast
  have "verify_trade n t st' tid \<noteq> Inr (True, [])" if "now \<le> t" for t
    using appended_verified_iff [OF assms(1,2) that a] assms(4) [OF that] by simp
  then show ?thesis using appended_verified_iff [OF assms(1,2) order_refl a] unverified_refuses [OF xs] by blast
qed

section \<open>Progress\<close>

text \<open>Small fields pass the size limits.\<close>

definition small_payload :: "pydict \<Rightarrow> bool" where
  "small_payload p \<longleftrightarrow> wf_json (PDict p) \<and> json_bound (PDict p) \<le> 25000"

definition chain_small :: "pyval list \<Rightarrow> bool" where
  "chain_small events \<longleftrightarrow> wf_json_list events \<and> bound_list events \<le> length events * 29000"

lemma fits_bound: "wf_json (PDict d) \<Longrightarrow> 2 * json_bound (PDict d) \<le> limit \<Longrightarrow> fits limit (PDict d)"
  by (erule canonical_json_bound) (simp add: fits_def del: json_bound.simps)

lemma wf_json_list_append [simp]: "wf_json_list (xs @ ys) \<longleftrightarrow> wf_json_list xs \<and> wf_json_list ys"
  by (induction xs) auto

lemma chain_small_fits: "chain_small events \<Longrightarrow> length events \<le> 5 \<Longrightarrow> chain_fits events"
  unfolding chain_fits_def by (rule fits_bound) (simp_all add: chain_small_def max_trade_chain_bytes_def is_str_def key_text_def)

lemma int_str_digit: "i < 10 \<Longrightarrow> length (int_str (int i)) \<le> 20"
  by (simp add: int_str_def nat_str.simps)

lemma small_event:
  assumes "ed25519_ok n" "signer_ok n actor" "as_did actor = Inr did" "small_payload payload" "length tid \<le> 64" "length (int_str now) \<le> 20"
    "length ty \<le> 32" "length prev \<le> 32" "length new \<le> 32" "i < 10"
  shows "\<exists>ev. sign_trade_event n actor (new_trade_event tid i ty did prev new payload now) = Inr ev \<and> wf_json (PDict ev) \<and> json_bound (PDict ev) \<le> 28999"
proof -
  let ?b = "new_trade_event tid i ty did prev new payload now"
  have wf: "wf_json (PDict ?b)" using assms(4) by (simp add: new_trade_event_def obj_def is_str_def small_payload_def)
  obtain bs where bs: "canonical_json (PDict ?b) = Inr bs" using canonical_json_wf [OF wf] by blast
  obtain seed where seed: "id_signing_key actor = Some seed" "length seed = 32" using assms(2) by (rule signer_okE)
  define sg where "sg = b64u_encode (nacl_sign n seed bs)"
  have sg: "length sg \<le> 128" using ed25519_okD(3) [OF assms(1) seed(2), of bs] length_b64u [of "nacl_sign n seed bs"] by (simp add: sg_def)
  have did: "length did \<le> 111" using signer_did [OF assms(1,2)] assms(3) did_length by (metis Inr_inject decode_did_iff)
  have "sign_trade_event n actor ?b = Inr (?b @ [(PStr ''event_sig'', PStr sg)])"
    using bs signer_sign [OF assms(1,2)] seed by (simp add: sign_trade_event_def trade_signing_body_new sg_def)
  moreover have "wf_json (PDict (?b @ [(PStr ''event_sig'', PStr sg)]))"
    using assms(4) by (simp add: new_trade_event_def obj_def is_str_def small_payload_def)
  moreover have "json_bound (PDict (?b @ [(PStr ''event_sig'', PStr sg)])) \<le> 28999"
    using assms(4-9) sg did int_str_digit [OF assms(10)]
    by (simp add: new_trade_event_def obj_def key_text_def small_payload_def)
  ultimately show ?thesis by blast
qed

lemma legal_prior_short: "prev \<in> set (legal_prior ty) \<Longrightarrow> length prev \<le> 32"
  by (auto simp: legal_prior_def split: if_splits)

lemma append_progress:
  assumes "ed25519_ok n" "signer_ok n actor" "as_did actor = Inr did" "small_payload payload" "length tid \<le> 64" "length (int_str now) \<le> 20"
    "length ty \<le> 32" "length new \<le> 32" "stored_events st tid = Inr events" "events = [] \<or> verify_trade n now st tid = Inr (True, [])"
    "chain_small events" "length events \<le> 4" "prior_state events ty expect_open allowed actor = Inr prev" "length prev \<le> 32"
  shows "\<exists>st' ev. append_event n now st tid actor ty new payload expect_open allowed = (st', Inr ev)
    \<and> stored_events st' tid = Inr (events @ [PDict ev]) \<and> chain_small (events @ [PDict ev])"
proof -
  obtain ev where ev: "sign_trade_event n actor (new_trade_event tid (length events) ty did prev new payload now) = Inr ev" "wf_json (PDict ev)"
    "json_bound (PDict ev) \<le> 28999"
    using small_event [OF assms(1-7) assms(14) assms(8), of "length events"] assms(12) by auto
  then have c: "chain_small (events @ [PDict ev])" using assms(11) by (simp add: chain_small_def del: json_bound.simps)
  moreover have "chain_fits (events @ [PDict ev])" using chain_small_fits [OF c] assms(12) by simp
  moreover have "fits max_trade_payload_bytes (PDict payload)"
    using assms(4) by (intro fits_bound) (simp_all add: small_payload_def max_trade_payload_bytes_def)
  ultimately show ?thesis using assms(3,9,10,13) ev(1)
    by (auto simp: append_event_def require_verified_def stored_put)
qed

end
