(* ===== verification/Trade_Run.thy ===== *)
theory Trade_Run
  imports Trade_Ops
begin

text \<open>
  An honest trade goes through: from a fresh store, opening, delivery, a passing verdict and a settlement through the manual adapter
  succeed for small fields, and end in a verified chain in state settled. The
  run instantiates the hypotheses of the chain theorems.
\<close>

section \<open>One step of an honest run\<close>

definition live :: "nacl \<Rightarrow> int \<Rightarrow> string \<Rightarrow> trade_store \<Rightarrow> pyval list \<Rightarrow> trade_parties \<Rightarrow> string \<Rightarrow> bool" where
  "live n now tid st events ps s \<longleftrightarrow> stored_events st tid = Inr events \<and> events \<noteq> [] \<and> verify_trade n now st tid = Inr (True, [])
     \<and> chain_small events \<and> parties_of events = Inr ps \<and> current_state events = s"

lemma live_verified: "live n now tid st events ps s \<Longrightarrow> verify_chain_events n now tid events = Inr (True, []) \<and> current_state events = s \<and> get_events st tid = Some events"
  using get_stored [of st tid events] by (simp add: live_def verify_trade_def)

lemma parties_of_append: "events \<noteq> [] \<Longrightarrow> parties_of (events @ es) = parties_of events"
  by (cases events) (auto simp: parties_of_def split: pyval.splits)

lemma step_progress:
  assumes "ed25519_ok n" "signer_ok n actor" "as_did actor = Inr did" "small_payload payload" "length tid \<le> 64" "length (int_str now) \<le> 20"
    "live n now tid st events ps s" "length events \<le> 4" "ty \<noteq> ''trade_opened''" "length ty \<le> 32" "length new \<le> 32" "s \<in> set (legal_prior ty)"
    "set (allowed_roles ps ty) = set (filter (\<lambda>d. d \<noteq> []) (ds ps))" "did \<in> set (allowed_roles ps ty)"
    "expected_new_state ty payload = Some new" "check_terms now (trade_terms events) ps ty payload = Inr ()"
  shows "\<exists>st' ev. with_parties st tid (\<lambda>ps. append_event n now st tid actor ty new payload False (Some (ds ps))) = (st', Inr ev)
    \<and> live n now tid st' (events @ [PDict ev]) ps new \<and> trade_terms (events @ [PDict ev]) = trade_terms events"
proof -
  note l = assms(7) [unfolded live_def]
  have g: "get_events st tid = Some events" using l get_stored by blast
  have w: "with_parties st tid (\<lambda>ps. append_event n now st tid actor ty new payload False (Some (ds ps)))
      = append_event n now st tid actor ty new payload False (Some (ds ps))" using g l by (simp add: with_parties_def)
  have pr: "prior_state events ty False (Some (ds ps)) actor = Inr s"
    using l assms(3,12,13,14) by (simp add: prior_state_def Let_def)
  obtain st' ev where a: "append_event n now st tid actor ty new payload False (Some (ds ps)) = (st', Inr ev)"
    "stored_events st' tid = Inr (events @ [PDict ev])" "chain_small (events @ [PDict ev])"
    using append_progress [OF assms(1-6) assms(10,11) _ _ _ assms(8) pr legal_prior_short [OF assms(12)]] l by blast
  have p: "parties_of (case get_events st tid of None \<Rightarrow> [] | Some evs \<Rightarrow> evs) = Inr ps" using g l by simp
  have v: "verify_trade n now st' tid = Inr (True, [])" "trade_state st' tid = Some new"
    using append_verified_iff [OF assms(1,2) order_refl a(1) assms(15,9) p assms(13)] g assms(16) by auto
  have "current_state (events @ [PDict ev]) = new" using v(2) get_stored [OF a(2)] by (simp add: trade_state_def)
  then show ?thesis using a v(1) l w by (auto simp: live_def parties_of_append)
qed

lemma opening_progress:
  assumes "ed25519_ok n" "signer_ok n authority" "small_payload payload" "length tid \<le> 64" "length (int_str now) \<le> 20"
    "map_of st (trade_path_of tid) = None" "open_payload claim vd sd rd terms = Inr (tid, payload)"
  shows "\<exists>st' ev. open_trade n now st authority claim vd sd rd terms = (st', Inr ev) \<and> live n now tid st' [PDict ev] (payload_parties payload) ''executing''
    \<and> trade_terms [PDict ev] = (case dget payload ''terms'' of Some (PDict t) \<Rightarrow> Some t | _ \<Rightarrow> None)"
proof -
  obtain did where did: "as_did authority = Inr did" using signer_did [OF assms(1,2)] by blast
  have s: "stored_events st tid = Inr []" using assms(6) by (simp add: stored_events_def)
  obtain st' ev where a: "append_event n now st tid authority ''trade_opened'' ''executing'' payload True None = (st', Inr ev)"
    "stored_events st' tid = Inr [PDict ev]" "chain_small [PDict ev]"
    using append_progress [OF assms(1,2) did assms(3-5), of "''trade_opened''" "''executing''" st "[]" True None "[]"] s
    by (auto simp: chain_small_def prior_state_def)
  note o = open_verified [OF assms(1,2) a(1)]
  then have "current_state [PDict ev] = ''executing''" "dget ev ''payload'' = Some (PDict payload)" by (auto simp: trade_state_def)
  then show ?thesis using a o assms(7) by (auto simp: open_trade_def live_def parties_of_def trade_terms_def dget_or_def)
qed

lemma signer_did_pos: "ed25519_ok n \<Longrightarrow> signer_ok n i \<Longrightarrow> as_did i = Inr did \<Longrightarrow> did \<noteq> []"
  using signer_did [of n i] did_length_pos by (metis Inr_inject decode_did_iff)

lemma check_terms_other: "ty \<notin> {''settlement_recorded'', ''dispute_resolved''} \<Longrightarrow> check_terms now terms ps ty p = Inr ()"
  by (cases terms) (simp_all add: check_terms_def)

lemma delivery_progress:
  assumes "ed25519_ok n" "signer_ok n actor" "as_did actor = Inr (p_claimant ps)" "small_payload (obj [(''delivery'', d)])" "length tid \<le> 64"
    "length (int_str now) \<le> 20" "live n now tid st events ps ''executing''" "length events \<le> 4"
  shows "\<exists>st' ev. submit_delivery n now st tid actor d = (st', Inr ev) \<and> live n now tid st' (events @ [PDict ev]) ps ''delivered''
    \<and> trade_terms (events @ [PDict ev]) = trade_terms events"
  unfolding submit_delivery_def using signer_did_pos [OF assms(1-3)]
  by (intro step_progress [OF assms(1-8)] check_terms_other) (simp_all add: legal_prior_def allowed_roles_def expected_new_state_def)

lemma verdict_progress:
  assumes "ed25519_ok n" "signer_ok n actor" "as_did actor = Inr (p_verifier ps)" "small_payload (obj [(''verdict'', PStr ''pass''), (''result'', result)])"
    "length tid \<le> 64" "length (int_str now) \<le> 20" "live n now tid st events ps ''delivered''" "length events \<le> 4"
  shows "\<exists>st' ev. record_verification n now st tid actor ''pass'' result = (st', Inr ev) \<and> live n now tid st' (events @ [PDict ev]) ps ''verified''
    \<and> trade_terms (events @ [PDict ev]) = trade_terms events"
proof -
  have "record_verification n now st tid actor ''pass'' result = with_parties st tid (\<lambda>ps. append_event n now st tid actor ''verification_recorded'' ''verified''
      (obj [(''verdict'', PStr ''pass''), (''result'', result)]) False (Some [p_verifier ps]))" by (simp add: record_verification_def)
  then show ?thesis using signer_did_pos [OF assms(1-3)]
    by (simp only:, intro step_progress [OF assms(1-8)] check_terms_other) (simp_all add: legal_prior_def allowed_roles_def expected_new_state_def obj_def)
qed

lemma settlement_progress:
  assumes "ed25519_ok n" "signer_ok n actor" "as_did actor = Inr (p_settler ps)" "small_payload (obj [(''settlement'', s)])" "length tid \<le> 64"
    "length (int_str now) \<le> 20" "live n now tid st events ps ''verified''" "length events \<le> 4"
    "check_terms now (trade_terms events) ps ''settlement_recorded'' (obj [(''settlement'', s)]) = Inr ()"
  shows "\<exists>st' ev. record_settlement n now st tid actor s = (st', Inr ev) \<and> live n now tid st' (events @ [PDict ev]) ps ''settled''
    \<and> trade_terms (events @ [PDict ev]) = trade_terms events"
  unfolding record_settlement_def using signer_did_pos [OF assms(1-3)] assms(9)
  by (intro step_progress [OF assms(1-8)]) (simp_all add: legal_prior_def allowed_roles_def expected_new_state_def)

section \<open>The whole run\<close>

definition claim_of :: "string \<Rightarrow> string \<Rightarrow> string \<Rightarrow> pydict" where
  "claim_of tid claimant publisher = obj [(''announcement_id'', PStr tid), (''claimant_did'', PStr claimant), (''publisher_did'', PStr publisher)]"

definition terms_of :: "settlement_intent \<Rightarrow> pydict" where
  "terms_of i = obj [(''amount_minor'', i_amount_minor i), (''currency'', PStr (i_currency i)), (''payee_did'', PStr (i_payee_did i))]"

lemma open_payload_claim:
  assumes "tid \<noteq> []" "cd \<noteq> []" "pd \<noteq> []" "vd \<noteq> []" "sd \<noteq> []" "i_amount_minor i = PInt a" "0 < a" "i_currency i \<noteq> []" "i_payee_did i \<noteq> []"
  obtains payload where "open_payload (claim_of tid cd pd) vd sd rd (Some (terms_of i)) = Inr (tid, payload)"
    "payload_parties payload = \<lparr>p_claimant = cd, p_publisher = pd, p_verifier = vd, p_settler = sd, p_resolver = (if rd \<noteq> [] then rd else vd)\<rparr>"
    "dget payload ''terms'' = Some (PDict (terms_of i))"
  using assms by (simp add: open_payload_def claim_of_def obj_def Let_def dget_or_def terms_payload_def terms_of_def payload_parties_def)

lemma manual_meets_terms:
  assumes "manual_settle i now = Inr r" "0 < now" "i_amount_minor i = PInt a" "i_payer_did i = p_publisher ps"
  shows "check_terms now (Some (terms_of i)) ps ''settlement_recorded'' (obj [(''settlement'', PDict (to_payload r))]) = Inr ()"
  using manual_settlement_verifies [OF assms(1-3), of "p_publisher ps"] assms(3,4)
  by (simp add: check_terms_def check_direct_def settlement_of_def terms_of_def obj_def dget_or_def is_dict_def)

lemma settle_trade_manual:
  assumes "live n now tid st events ps ''verified''" "trade_terms events = Some (terms_of i)" "manual_settle i now = Inr r"
    "i_amount_minor i = PInt a" "i_trade_id i = tid" "as_did settler = Inr (p_settler ps)"
    "record_settlement n now st tid settler (PDict (to_payload r)) = (st', out)"
  shows "settle_trade n now st tid settler adapter_manual (\<lambda>i now x. (x, manual_settle i now)) i x = ((st', x), out)"
proof -
  note l = assms(1) [unfolded live_def]
  have g: "get_events st tid = Some events" using l get_stored by blast
  have v: "intent_validate i = Inr ()" using assms(3) by (auto simp: manual_settle_def bindR_Inr_iff)
  have "settle_preflight n now st tid settler adapter_manual i = Inr (ps, events)"
    using l g v assms(5,6) by (simp add: settle_preflight_def)
  moreover have "trade_state st tid = Some ''verified''" using l g by (simp add: trade_state_def)
  moreover have "preflight_terms (Some (terms_of i)) i = Inr ()"
    using assms(4) by (simp add: preflight_terms_def terms_of_def obj_def safe_str_def)
  moreover have "x402_payer_ok adapter_manual ps i" by (simp add: x402_payer_ok_def adapter_manual_def adapter_x402_testnet_def)
  ultimately show ?thesis using assms(2,3,7) by (simp add: settle_trade_def adapter_manual_def adapter_x402_testnet_def)
qed

lemma honest_run:
  assumes "ed25519_ok n" "signer_ok n authority" "signer_ok n claimant" "signer_ok n verifier" "signer_ok n settler"
    "as_did claimant = Inr cd" "as_did verifier = Inr vd" "as_did settler = Inr sd"
    and small: "length tid \<le> 64" "length (int_str now) \<le> 20"
    and fresh: "map_of st (trade_path_of tid) = None"
    and intent: "i_trade_id i = tid" "i_amount_minor i = PInt a" "i_payer_did i \<noteq> []" "manual_settle i now = Inr r" "0 < now"
    and payloads: "\<And>p. open_payload (claim_of tid cd (i_payer_did i)) vd sd rd (Some (terms_of i)) = Inr (tid, p) \<Longrightarrow> small_payload p"
      "small_payload (obj [(''delivery'', d)])" "small_payload (obj [(''verdict'', PStr ''pass''), (''result'', result)])"
      "small_payload (obj [(''settlement'', PDict (to_payload r))])"
  obtains st1 e1 st2 e2 st3 e3 st4 e4 ps where "open_trade n now st authority (claim_of tid cd (i_payer_did i)) vd sd rd (Some (terms_of i)) = (st1, Inr e1)"
    "submit_delivery n now st1 tid claimant d = (st2, Inr e2)" "record_verification n now st2 tid verifier ''pass'' result = (st3, Inr e3)"
    "live n now tid st2 [PDict e1, PDict e2] ps ''delivered''" "live n now tid st3 [PDict e1, PDict e2, PDict e3] ps ''verified''"
    "trade_terms [PDict e1, PDict e2, PDict e3] = Some (terms_of i)" "trade_terms [PDict e1, PDict e2] = Some (terms_of i)"
    "record_settlement n now st3 tid settler (PDict (to_payload r)) = (st4, Inr e4)"
    "live n now tid st4 [PDict e1, PDict e2, PDict e3, PDict e4] ps ''settled''"
    "ps = \<lparr>p_claimant = cd, p_publisher = i_payer_did i, p_verifier = vd, p_settler = sd, p_resolver = (if rd \<noteq> [] then rd else vd)\<rparr>"
proof -
  note pos = signer_did_pos [OF assms(1)]
  have dids: "cd \<noteq> []" "vd \<noteq> []" "sd \<noteq> []" using pos assms(3-8) by blast+
  have v: "0 < a" "i_currency i \<noteq> []" "i_payee_did i \<noteq> []" "tid \<noteq> []"
    using intent by (auto simp: manual_settle_def intent_validate_def res_iffs positive_amount_def split: if_splits)
  obtain payload where p: "open_payload (claim_of tid cd (i_payer_did i)) vd sd rd (Some (terms_of i)) = Inr (tid, payload)"
    "payload_parties payload = \<lparr>p_claimant = cd, p_publisher = i_payer_did i, p_verifier = vd, p_settler = sd, p_resolver = (if rd \<noteq> [] then rd else vd)\<rparr>"
    "dget payload ''terms'' = Some (PDict (terms_of i))"
    using open_payload_claim [OF v(4) dids(1) intent(3) dids(2,3) intent(2) v(1-3)] by blast
  define ps where "ps = payload_parties payload"
  have ps: "p_claimant ps = cd" "p_verifier ps = vd" "p_settler ps = sd" "p_publisher ps = i_payer_did i" by (simp_all add: ps_def p(2))
  obtain st1 e1 where s1: "open_trade n now st authority (claim_of tid cd (i_payer_did i)) vd sd rd (Some (terms_of i)) = (st1, Inr e1)"
    "live n now tid st1 [PDict e1] ps ''executing''" "trade_terms [PDict e1] = Some (terms_of i)"
    using opening_progress [OF assms(1,2) payloads(1) [OF p(1)] small fresh p(1)] p(3) by (auto simp: ps_def)
  obtain st2 e2 where s2: "submit_delivery n now st1 tid claimant d = (st2, Inr e2)"
    "live n now tid st2 [PDict e1, PDict e2] ps ''delivered''" "trade_terms [PDict e1, PDict e2] = Some (terms_of i)"
    using delivery_progress [OF assms(1,3) _ payloads(2) small s1(2)] s1(3) assms(6) ps by auto
  obtain st3 e3 where s3: "record_verification n now st2 tid verifier ''pass'' result = (st3, Inr e3)"
    "live n now tid st3 [PDict e1, PDict e2, PDict e3] ps ''verified''" "trade_terms [PDict e1, PDict e2, PDict e3] = Some (terms_of i)"
    using verdict_progress [OF assms(1,4) _ payloads(3) small s2(2)] s2(3) assms(7) ps by auto
  have t: "check_terms now (trade_terms [PDict e1, PDict e2, PDict e3]) ps ''settlement_recorded'' (obj [(''settlement'', PDict (to_payload r))]) = Inr ()"
    using manual_meets_terms [OF intent(4,5,2)] ps s3(3) by simp
  obtain st4 e4 where s4: "record_settlement n now st3 tid settler (PDict (to_payload r)) = (st4, Inr e4)"
    "live n now tid st4 [PDict e1, PDict e2, PDict e3, PDict e4] ps ''settled''"
    using settlement_progress [OF assms(1,5) _ payloads(4) small s3(2) _ t] assms(8) ps by auto
  show thesis using that s1 s2 s3 s4 p(2) by (simp add: ps_def)
qed

text \<open>C8. An honest trade is settled and paid: on a store without this trade, the parties can open it with terms, deliver, record a passing
  verdict and settle it through the manual adapter for the agreed amount, every call succeeds, and the result is a verified chain in state
  settled, provided the identifiers and payloads are small.\<close>

theorem honest_trade_settles:
  assumes "ed25519_ok n" "signer_ok n authority" "signer_ok n claimant" "signer_ok n verifier" "signer_ok n settler"
    "as_did claimant = Inr cd" "as_did verifier = Inr vd" "as_did settler = Inr sd"
    and small: "length tid \<le> 64" "length (int_str now) \<le> 20"
    and fresh: "map_of st (trade_path_of tid) = None"
    and intent: "i_trade_id i = tid" "i_amount_minor i = PInt a" "i_payer_did i \<noteq> []" "manual_settle i now = Inr r" "0 < now"
    and payloads: "\<And>p. open_payload (claim_of tid cd (i_payer_did i)) vd sd rd (Some (terms_of i)) = Inr (tid, p) \<Longrightarrow> small_payload p"
      "small_payload (obj [(''delivery'', d)])" "small_payload (obj [(''verdict'', PStr ''pass''), (''result'', result)])"
      "small_payload (obj [(''settlement'', PDict (to_payload r))])"
  shows "\<exists>st1 e1 st2 e2 st3 e3 st4 e4. open_trade n now st authority (claim_of tid cd (i_payer_did i)) vd sd rd (Some (terms_of i)) = (st1, Inr e1)
    \<and> submit_delivery n now st1 tid claimant d = (st2, Inr e2)
    \<and> record_verification n now st2 tid verifier ''pass'' result = (st3, Inr e3)
    \<and> settle_trade n now st3 tid settler adapter_manual (\<lambda>i now x. (x, manual_settle i now)) i x = ((st4, x), Inr e4)
    \<and> verify_trade n now st4 tid = Inr (True, []) \<and> trade_state st4 tid = Some ''settled''
    \<and> get_events st4 tid = Some [PDict e1, PDict e2, PDict e3, PDict e4]"
proof -
  obtain st1 e1 st2 e2 st3 e3 st4 e4 ps where h: "open_trade n now st authority (claim_of tid cd (i_payer_did i)) vd sd rd (Some (terms_of i)) = (st1, Inr e1)"
    "submit_delivery n now st1 tid claimant d = (st2, Inr e2)" "record_verification n now st2 tid verifier ''pass'' result = (st3, Inr e3)"
    "live n now tid st3 [PDict e1, PDict e2, PDict e3] ps ''verified''" "trade_terms [PDict e1, PDict e2, PDict e3] = Some (terms_of i)"
    "record_settlement n now st3 tid settler (PDict (to_payload r)) = (st4, Inr e4)"
    "live n now tid st4 [PDict e1, PDict e2, PDict e3, PDict e4] ps ''settled''" "p_settler ps = sd"
    by (rule honest_run [OF assms]) auto
  have "settle_trade n now st3 tid settler adapter_manual (\<lambda>i now x. (x, manual_settle i now)) i x = ((st4, x), Inr e4)"
    using settle_trade_manual [OF h(4,5) intent(4,2,1) _ h(6)] assms(8) h(8) by simp
  moreover have "get_events st4 tid = Some [PDict e1, PDict e2, PDict e3, PDict e4]" using h(7) get_stored by (simp add: live_def)
  ultimately show ?thesis using h by (auto simp: live_def trade_state_def)
qed

section \<open>A concrete trade\<close>

definition demo_did :: "nat \<Rightarrow> string" where
  "demo_did k = projr (as_did (demo_identity k))"

lemma demo_did: "as_did (demo_identity k) = Inr (demo_did k)" "length (demo_did k) \<le> 111" "demo_did k \<noteq> []"
proof -
  obtain did where d: "as_did (demo_identity k) = Inr did" using signer_did [OF demo_nacl_ok demo_signer] by blast
  then show "as_did (demo_identity k) = Inr (demo_did k)" by (simp add: demo_did_def)
  then show "demo_did k \<noteq> []" by (rule signer_did_pos [OF demo_nacl_ok demo_signer])
  show "length (demo_did k) \<le> 111"
    using signer_did [OF demo_nacl_ok demo_signer, of k] d did_length by (metis Inr_inject decode_did_iff demo_did_def sum.sel(2))
qed

lemma did_is_text:
  assumes "encode_ed25519_did_key pk = Inr did"
  shows "did_text_ok did" "\<not> list_ex py_isspace did" "startswith did ''did:''"
proof -
  have did: "did = ''did:key:z'' @ b58encode (multicodec_ed25519_pub @ pk)"
    using assms by (auto simp: encode_ed25519_did_key_def did_key_prefix_def split: if_splits)
  have "list_all (\<lambda>c. \<not> py_isspace c) b58_alphabet" by code_simp
  moreover have "length b58_alphabet = 58" by code_simp
  ultimately have "\<not> py_isspace (b58_char d)" if "d < 58" for d using that by (simp add: b58_char_def list_all_length)
  then have "\<not> list_ex py_isspace (b58encode b)" for b using b58_digits_bound by (auto simp: b58encode_digits list_ex_iff)
  then show s: "\<not> list_ex py_isspace did" unfolding did by (simp add: py_isspace_def)
  show d: "startswith did ''did:''" by (simp add: did startswith_def)
  show "did_text_ok did" using s d by (simp add: did_text_ok_def)
qed

lemma demo_did_text: "did_text_ok (demo_did k)" "\<not> list_ex py_isspace (demo_did k)" "startswith (demo_did k) ''did:''"
proof -
  obtain pk where "encode_ed25519_did_key pk = Inr (demo_did k)"
    using signer_did [OF demo_nacl_ok demo_signer, of k] demo_did(1) [of k] by (metis Inr_inject decode_did_iff)
  then show "did_text_ok (demo_did k)" "\<not> list_ex py_isspace (demo_did k)" "startswith (demo_did k) ''did:''" by (rule did_is_text)+
qed

lemma int_str_5: "length (int_str 5) = 1" "length (int_str 9) = 1"
  by (simp_all add: int_str_def nat_str.simps)

definition demo_open :: pydict where
  "demo_open = snd (projr (open_payload (claim_of ''t1'' (demo_did 1) ''did:a'') (demo_did 2) (demo_did 3) [] (Some (terms_of demo_intent))))"

lemma demo_open_small: "open_payload (claim_of ''t1'' (demo_did 1) (i_payer_did demo_intent)) (demo_did 2) (demo_did 3) [] (Some (terms_of demo_intent)) = Inr (''t1'', p)
    \<Longrightarrow> small_payload p"
  using demo_did(2,3) [of 1] demo_did(2,3) [of 2] demo_did(2,3) [of 3]
  by (auto simp: open_payload_def claim_of_def terms_of_def terms_payload_def demo_intent_def obj_def dget_or_def Let_def small_payload_def is_str_def key_text_def int_str_5)

definition demo_result :: settlement_result where
  "demo_result = \<lparr>x_adapter_id = ''manual'', x_amount_minor = PInt 5, x_currency = ''USDC'', x_payee_did = ''did:b'', x_payer_did = ''did:a'', x_tx_ref = [],
     x_network = [], x_proof = [], x_settled_at_ms = 9\<rparr>"

lemma demo_result: "manual_settle demo_intent 9 = Inr demo_result"
  by (simp add: demo_result_def manual_settle_def demo_intent_valid) (simp add: demo_intent_def adapter_manual_def)

lemma demo_payloads_small:
  "small_payload (obj [(''delivery'', PDict [])])" "small_payload (obj [(''verdict'', PStr ''pass''), (''result'', PDict [])])"
  "small_payload (obj [(''settlement'', PDict (to_payload demo_result))])"
  by (simp_all add: small_payload_def obj_def is_str_def key_text_def to_payload_def demo_result_def int_str_5)

lemma demo_hyps: "length ''t1'' \<le> 64" "length (int_str 9) \<le> 20" "map_of [] (trade_path_of ''t1'') = (None :: pyval option)" "i_trade_id demo_intent = ''t1''"
    "i_amount_minor demo_intent = PInt 5" "i_payer_did demo_intent \<noteq> []" "i_payer_did demo_intent = ''did:a''" "(0::int) < 9"
  by (simp_all add: demo_intent_def int_str_5)

lemma demo_run:
  obtains st1 e1 st2 e2 st3 e3 st4 e4 ps where "open_trade demo_nacl 9 [] (demo_identity 0) (claim_of ''t1'' (demo_did 1) (i_payer_did demo_intent)) (demo_did 2) (demo_did 3) [] (Some (terms_of demo_intent)) = (st1, Inr e1)"
    "submit_delivery demo_nacl 9 st1 ''t1'' (demo_identity 1) (PDict []) = (st2, Inr e2)"
    "live demo_nacl 9 ''t1'' st2 [PDict e1, PDict e2] ps ''delivered''" "live demo_nacl 9 ''t1'' st3 [PDict e1, PDict e2, PDict e3] ps ''verified''"
    "trade_terms [PDict e1, PDict e2, PDict e3] = Some (terms_of demo_intent)" "trade_terms [PDict e1, PDict e2] = Some (terms_of demo_intent)"
    "live demo_nacl 9 ''t1'' st4 [PDict e1, PDict e2, PDict e3, PDict e4] ps ''settled''"
    "ps = \<lparr>p_claimant = demo_did 1, p_publisher = i_payer_did demo_intent, p_verifier = demo_did 2, p_settler = demo_did 3, p_resolver = (if [] \<noteq> ([] :: string) then [] else demo_did 2)\<rparr>"
proof (rule honest_run [OF demo_nacl_ok demo_signer [of 0] demo_signer [of 1] demo_signer [of 2] demo_signer [of 3] demo_did(1) [of 1] demo_did(1) [of 2]
      demo_did(1) [of 3] demo_hyps(1-6) demo_result demo_hyps(8), where rd = "[]"])
  show "small_payload p" if "open_payload (claim_of ''t1'' (demo_did 1) (i_payer_did demo_intent)) (demo_did 2) (demo_did 3) [] (Some (terms_of demo_intent)) = Inr (''t1'', p)" for p
    using that by (rule demo_open_small)
qed (rule demo_payloads_small that; assumption)+

text \<open>The same trade disputed by the claimant after the delivery and split by the resolver.\<close>

definition demo_split :: pydict where
  "demo_split = obj [(''adapter_id'', PStr ''manual''), (''amount_minor'', PInt 2), (''refunded_amount_minor'', PInt 3), (''currency'', PStr ''USDC''),
     (''payee_did'', PStr (demo_did 1)), (''payer_did'', PStr ''did:a'')]"

lemma demo_split_run:
  obtains st events where "verify_chain_events demo_nacl 9 ''t1'' events = Inr (True, [])" "trade_terms events = Some (terms_of demo_intent)"
    "current_state events = ''split_settled''" "get_events st ''t1'' = Some events"
proof -
  obtain st1 e1 st2 e2 ps where r: "live demo_nacl 9 ''t1'' st2 [PDict e1, PDict e2] ps ''delivered''" "trade_terms [PDict e1, PDict e2] = Some (terms_of demo_intent)"
    and ps: "ps = \<lparr>p_claimant = demo_did 1, p_publisher = i_payer_did demo_intent, p_verifier = demo_did 2, p_settler = demo_did 3,
      p_resolver = (if [] \<noteq> ([] :: string) then [] else demo_did 2)\<rparr>"
    by (rule demo_run) blast
  have sp: "small_payload (obj [(''reason'', PStr []), (''disputant_role'', PStr ''claimant''), (''evidence'', PDict [])])"
    by (simp add: small_payload_def obj_def is_str_def key_text_def)
  obtain st3 e3 where d: "live demo_nacl 9 ''t1'' st3 ([PDict e1, PDict e2] @ [PDict e3]) ps ''disputed''" "trade_terms ([PDict e1, PDict e2] @ [PDict e3]) = Some (terms_of demo_intent)"
    using step_progress [OF demo_nacl_ok demo_signer demo_did(1) sp demo_hyps(1,2) r(1), of "''dispute_opened''" "''disputed''" "\<lambda>ps. [p_publisher ps, p_claimant ps]" 1]
      r(2) demo_did(3) [of 1] check_terms_other [of "''dispute_opened''"]
    by (auto simp: legal_prior_def allowed_roles_def expected_new_state_def ps demo_hyps(7))
  let ?p = "obj [(''resolution'', PStr ''split''), (''settlement'', PDict demo_split), (''rationale'', PStr [])]"
  have sp: "small_payload ?p"
    using demo_did(2) [of 1] by (simp add: small_payload_def obj_def is_str_def key_text_def demo_split_def int_str_def nat_str.simps)
  have "check_terms 9 (Some (terms_of demo_intent)) ps ''dispute_resolved'' ?p = Inr ()"
    by (simp add: check_terms_def check_resolution_def settlement_of_def obj_def dget_or_def terms_of_def demo_intent_def demo_split_def check_split_def ps)
  then obtain st4 e4 where "live demo_nacl 9 ''t1'' st4 ([PDict e1, PDict e2, PDict e3] @ [PDict e4]) ps ''split_settled''"
    "trade_terms ([PDict e1, PDict e2, PDict e3] @ [PDict e4]) = Some (terms_of demo_intent)"
    using step_progress [OF demo_nacl_ok demo_signer demo_did(1) sp demo_hyps(1,2) d(1), of "''dispute_resolved''" "''split_settled''" "\<lambda>ps. [p_resolver ps]" 2]
      d(2) demo_did(3) [of 2] by (auto simp: legal_prior_def allowed_roles_def expected_new_state_def ps obj_def)
  then show thesis using that live_verified by blast
qed

section \<open>Witnesses\<close>

theorem verified_chain_refines_lifecycle_witness:
  "\<exists>e es ps. verify_chain_events demo_nacl 9 ''t1'' (e # es) = Inr (True, []) \<and> lifecycle_path ps ''executing'' (map event_label es) ''settled''"
proof -
  obtain st4 e1 e2 e3 e4 ps where "live demo_nacl 9 ''t1'' st4 [PDict e1, PDict e2, PDict e3, PDict e4] ps ''settled''" by (rule demo_run) blast
  note l = live_verified [OF this]
  show ?thesis using verified_chain_refines_lifecycle [of demo_nacl 9 "''t1''" "PDict e1" "[PDict e2, PDict e3, PDict e4]" "[]"] l by metis
qed

theorem verified_chain_short_witness: "\<exists>events. verify_chain_events demo_nacl 9 ''t1'' events = Inr (True, []) \<and> length events \<le> 5 \<and> length events = 4"
proof -
  obtain st4 e1 e2 e3 e4 ps where "live demo_nacl 9 ''t1'' st4 [PDict e1, PDict e2, PDict e3, PDict e4] ps ''settled''" by (rule demo_run) blast
  note l = live_verified [OF this]
  show ?thesis using verified_chain_short [OF conjunct1 [OF l]] l by (intro exI [of _ "[PDict e1, PDict e2, PDict e3, PDict e4]"]) simp
qed


lemma dispute_outcome_conserves_demo:
  "\<exists>events d. verify_chain_events demo_nacl 9 ''t1'' events = Inr (True, []) \<and> current_state events = ''split_settled''
    \<and> dget (last_payload events) ''settlement'' = Some (PDict d) \<and> (\<exists>a b. dget d ''amount_minor'' = Some (PInt a) \<and> dget d ''refunded_amount_minor'' = Some (PInt b) \<and> a + b = 5)"
proof -
  obtain st events where r: "verify_chain_events demo_nacl 9 ''t1'' events = Inr (True, [])" "trade_terms events = Some (terms_of demo_intent)"
    "current_state events = ''split_settled''" by (rule demo_split_run) blast
  have t: "terms_of demo_intent \<noteq> []" "dget (terms_of demo_intent) ''amount_minor'' = Some (PInt 5)" by (simp_all add: terms_of_def obj_def demo_intent_def)
  show ?thesis using dispute_outcome_conserves [OF r(1,2) t(1)] r t(2) by (intro exI [of _ events]) auto
qed

theorem honest_trade_settles_witness:
  "\<exists>st4 events. verify_trade demo_nacl 9 st4 ''t1'' = Inr (True, []) \<and> trade_state st4 ''t1'' = Some ''settled'' \<and> get_events st4 ''t1'' = Some events \<and> length events = 4"
proof -
  have "small_payload p" if "open_payload (claim_of ''t1'' (demo_did 1) (i_payer_did demo_intent)) (demo_did 2) (demo_did 3) [] (Some (terms_of demo_intent)) = Inr (''t1'', p)" for p
    using that by (rule demo_open_small)
  from honest_trade_settles [OF demo_nacl_ok demo_signer [of 0] demo_signer [of 1] demo_signer [of 2] demo_signer [of 3] demo_did(1) [of 1] demo_did(1) [of 2]
      demo_did(1) [of 3] demo_hyps(1-6) demo_result demo_hyps(8) this demo_payloads_small, where x = "0 :: nat"]
  obtain st4 e1 e2 e3 e4 where "verify_trade demo_nacl 9 st4 ''t1'' = Inr (True, [])" "trade_state st4 ''t1'' = Some ''settled''"
    "get_events st4 ''t1'' = Some [PDict e1, PDict e2, PDict e3, PDict e4]" by blast
  then show ?thesis by (intro exI [of _ st4] exI [of _ "[PDict e1, PDict e2, PDict e3, PDict e4]"]) simp
qed


text \<open>A manual settlement that leaves the payer empty, which \<open>settle_trade\<close> accepts as well, does not meet terms bound to a publisher.\<close>

theorem unmet_settlement_locks_trade_witness:
  "\<exists>st st' ev. record_settlement demo_nacl 9 st ''t1'' (demo_identity 3) (PDict (to_payload (demo_result\<lparr>x_payer_did := []\<rparr>))) = (st', Inr ev)
    \<and> trade_state st' ''t1'' = Some ''settled'' \<and> verify_trade demo_nacl 9 st' ''t1'' \<noteq> Inr (True, []) \<and> verify_trade demo_nacl 10 st' ''t1'' \<noteq> Inr (True, [])"
proof -
  let ?s = "PDict (to_payload (demo_result\<lparr>x_payer_did := []\<rparr>))"
  obtain st3 e1 e2 e3 ps where r: "live demo_nacl 9 ''t1'' st3 [PDict e1, PDict e2, PDict e3] ps ''verified''"
    "trade_terms [PDict e1, PDict e2, PDict e3] = Some (terms_of demo_intent)"
    and ps: "ps = \<lparr>p_claimant = demo_did 1, p_publisher = i_payer_did demo_intent, p_verifier = demo_did 2, p_settler = demo_did 3,
      p_resolver = (if [] \<noteq> ([] :: string) then [] else demo_did 2)\<rparr>"
    by (rule demo_run) blast
  note l = r(1) [unfolded live_def] and g = conjunct2 [OF conjunct2 [OF live_verified [OF r(1)]]]
  have sp: "small_payload (obj [(''settlement'', ?s)])"
    by (simp add: small_payload_def obj_def is_str_def key_text_def to_payload_def demo_result_def int_str_5)
  have pr: "prior_state [PDict e1, PDict e2, PDict e3] ''settlement_recorded'' False (Some [p_settler ps]) (demo_identity 3) = Inr ''verified''"
    using l demo_did(1,3) [of 3] by (simp add: prior_state_def Let_def legal_prior_def ps)
  obtain st' ev where "append_event demo_nacl 9 st3 ''t1'' (demo_identity 3) ''settlement_recorded'' ''settled'' (obj [(''settlement'', ?s)]) False (Some [p_settler ps]) = (st', Inr ev)"
    using append_progress [OF demo_nacl_ok demo_signer demo_did(1) sp demo_hyps(1,2) _ _ _ _ _ _ pr, of "''settled''" st3] l by auto
  then have rs: "record_settlement demo_nacl 9 st3 ''t1'' (demo_identity 3) ?s = (st', Inr ev)"
    using l g by (simp add: record_settlement_def with_parties_def)
  have no: "\<not> pays_terms (terms_of demo_intent) ps (obj [(''settlement'', ?s)])"
    by (simp add: pays_terms_def obj_def to_payload_def demo_result_def ps demo_intent_def)
  have "terms_of demo_intent \<noteq> []" by (simp add: terms_of_def obj_def)
  then have "\<not> meets_terms t st3 ''t1'' ''settlement_recorded'' (obj [(''settlement'', ?s)])" for t
    using no check_direct_pays l g r(2) by (auto simp: meets_terms_def check_terms_def)
  from unmet_settlement_locks_trade [OF demo_nacl_ok demo_signer rs this] rs show ?thesis by force
qed

end
