(* ===== verification/Receipt.thy ===== *)
theory Receipt
  imports Cap_Token Json_Size
begin

text \<open>
  \<open>nth_dao/execution_receipt.py\<close>: signed timelines, their verification with the capability-token chain, chains of
  receipts and the receipt store. The wall clock, fresh identifiers and the rendered
  \<open>issued_at\<close> are arguments; \<open>iso_ms\<close> stands for \<open>int(datetime.fromisoformat(s).timestamp() * 1000)\<close>, which reads the local time zone for
  times without an offset. The verdict of \<open>verify_receipt\<close> is in the exception type because some malformed receipts
  make it raise.
\<close>

section \<open>Timelines\<close>

definition nth_receipt_spec :: string where
  "nth_receipt_spec = ''nth-dao/execution-receipt@1.0''"

definition motebit_compatible :: string where
  "motebit_compatible = ''motebit/execution-ledger@1.0''"

definition nth_receipt_kind :: string where
  "nth_receipt_kind = ''nth-execution-receipt-v1''"

definition type_nth_chain_link :: string where
  "type_nth_chain_link = ''nth.chain_link''"

definition cap_nth_receipt_sign :: string where
  "cap_nth_receipt_sign = ''nth:receipt_sign''"

record timeline_entry =
  te_timestamp :: int
  te_type :: string
  te_payload :: pydict

definition timeline_entry_new :: "int \<Rightarrow> string \<Rightarrow> pydict \<Rightarrow> timeline_entry res" where
  "timeline_entry_new ts ty p =
     ensure (0 \<le> ts) ValueError (''timestamp must be non-negative; got '' @ int_str ts) (
     ensure (ty \<noteq> []) ValueError ''type must be a non-empty string'' (Inr \<lparr>te_timestamp = ts, te_type = ty, te_payload = p\<rparr>))"

definition entry_to_dict :: "timeline_entry \<Rightarrow> pydict" where
  "entry_to_dict e = obj [(''timestamp'', PInt (te_timestamp e)), (''type'', PStr (te_type e)), (''payload'', PDict (te_payload e))]"

fun join_lines :: "bytes list \<Rightarrow> bytes" where
  "join_lines [] = []"
| "join_lines [x] = x"
| "join_lines (x # xs) = x @ 10 # join_lines xs"

definition timeline_bytes :: "timeline_entry list \<Rightarrow> bytes res" where
  "timeline_bytes timeline =
     ensure (timeline \<noteq> []) ValueError ''cannot hash empty timeline; receipts require at least one entry'' (
     bindR (mapR (\<lambda>e. canonical_json (PDict (entry_to_dict e))) timeline) (\<lambda>ls. Inr (join_lines ls)))"

definition hash_and_dicts :: "timeline_entry list \<Rightarrow> (string \<times> bytes \<times> pydict list) res" where
  "hash_and_dicts timeline = bindR (timeline_bytes timeline) (\<lambda>bs. Inr (sha256_hex bs, sha256 bs, map entry_to_dict timeline))"

definition compute_content_hash :: "timeline_entry list \<Rightarrow> string res" where
  "compute_content_hash timeline = bindR (hash_and_dicts timeline) (\<lambda>(h, _, _). Inr h)"

section \<open>Signing\<close>

definition is_hash64 :: "string \<Rightarrow> bool" where
  "is_hash64 h \<longleftrightarrow> length h = 64 \<and> list_all is_lower_hex h"

definition chain_linked :: "timeline_entry list \<Rightarrow> string \<Rightarrow> int \<Rightarrow> timeline_entry list res" where
  "chain_linked timeline prev_content_hash now =
     (if prev_content_hash = [] then Inr timeline
      else ensure (is_hash64 prev_content_hash) ValueError (''prev_content_hash must be 64-char lowercase hex; got '' @ str_repr prev_content_hash) (
           bindR (timeline_entry_new (if timeline = [] then now else te_timestamp (hd timeline)) type_nth_chain_link
             (obj [(''prev_content_hash'', PStr prev_content_hash)])) (\<lambda>e. Inr (e # timeline))))"

definition receipt_envelope :: "string \<Rightarrow> string \<Rightarrow> string \<Rightarrow> string \<Rightarrow> string \<Rightarrow> pydict list \<Rightarrow> string \<Rightarrow> string \<Rightarrow> pydict option \<Rightarrow> pydict" where
  "receipt_envelope receipt_id goal_id signer_did signer_pubkey_hex issued_at entries content_hash sg cap =
     obj ([(''kind'', PStr nth_receipt_kind), (''spec'', PStr nth_receipt_spec), (''compatible_with'', PStr motebit_compatible),
       (''receipt_id'', PStr receipt_id), (''goal_id'', PStr goal_id), (''signer_did'', PStr signer_did),
       (''signer_pubkey_hex'', PStr signer_pubkey_hex), (''issued_at'', PStr issued_at), (''timeline'', PList (map PDict entries)),
       (''content_hash'', PStr content_hash), (''sig'', PStr sg)]
      @ (case cap of None \<Rightarrow> [] | Some t \<Rightarrow> [(''authorizing_cap_token'', PDict t)]))"

definition sign_receipt :: "nacl \<Rightarrow> timeline_entry list \<Rightarrow> identity \<Rightarrow> string \<Rightarrow> string \<Rightarrow> string \<Rightarrow> pydict option \<Rightarrow> string \<Rightarrow> string \<Rightarrow> int
    \<Rightarrow> pydict res" where
  "sign_receipt n timeline0 signer goal_id receipt_id prev_content_hash cap fresh_id issued_at now =
     bindR (chain_linked timeline0 prev_content_hash now) (\<lambda>timeline.
     bindR (hash_and_dicts timeline) (\<lambda>(content_hash, digest, entries).
     bindR (identity_sign n signer digest) (\<lambda>s.
     bindR (as_did signer) (\<lambda>did.
     Inr (receipt_envelope (if receipt_id \<noteq> [] then receipt_id else fresh_id) goal_id did (id_pubkey_hex signer) issued_at entries
       content_hash (b64u_encode s) cap)))))"

section \<open>Verification\<close>

text \<open>\<open>e["timestamp"]\<close> of a timeline element: only a dict can be indexed by text.\<close>

definition item :: "pyval \<Rightarrow> string \<Rightarrow> pyval res" where
  "item v k = (case v of
     PDict d \<Rightarrow> (case dget d k of Some x \<Rightarrow> Inr x | None \<Rightarrow> raise KeyError k)
   | _ \<Rightarrow> raise TypeError ''indices must be integers'')"

definition parse_entry :: "pyval \<Rightarrow> timeline_entry res" where
  "parse_entry e =
     bindR (item e ''timestamp'') (\<lambda>t.
     bindR (py_int t) (\<lambda>ts.
     bindR (item e ''type'') (\<lambda>ty.
     bindR (case e of PDict d \<Rightarrow> py_dict (dget_or d ''payload'' (PDict [])) | _ \<Rightarrow> raise AttributeError ''object has no attribute get'') (\<lambda>p.
     timeline_entry_new ts (py_str ty) p))))"

definition malformed :: "exn \<Rightarrow> bool" where
  "malformed e \<longleftrightarrow> exn_cls e = KeyError \<or> exn_cls e = TypeError \<or> is_value_error e"

definition str_or_empty :: "pyval \<Rightarrow> string" where
  "str_or_empty v = (if truthy v then py_str v else [])"

definition receipt_issued_ms :: "(string \<Rightarrow> int res) \<Rightarrow> pydict \<Rightarrow> int option res" where
  "receipt_issued_ms iso_ms receipt = (case dget_or receipt ''issued_at'' (PStr []) of
     PStr s \<Rightarrow> if s = [] then Inr None
       else (case iso_ms s of Inr t \<Rightarrow> Inr (Some t) | Inl e \<Rightarrow> if exn_cls e = TypeError \<or> is_value_error e then Inr None else Inl e)
   | _ \<Rightarrow> Inr None)"

definition verify_cap_token_chain :: "nacl \<Rightarrow> (string \<Rightarrow> int res) \<Rightarrow> int \<Rightarrow> pydict \<Rightarrow> pydict \<Rightarrow> string \<Rightarrow> bool res" where
  "verify_cap_token_chain n iso_ms now receipt cap signer_pubkey_hex =
     bindR (receipt_issued_ms iso_ms receipt) (\<lambda>issued. case issued of
       None \<Rightarrow> Inr False
     | Some receipt_ms \<Rightarrow>
         bindR (verify_cap_token n cap (if receipt_ms \<noteq> 0 then receipt_ms else now) [] (Some [cap_nth_receipt_sign]) [] []) (\<lambda>(ok, _).
         if \<not> ok then Inr False
         else let subject_did = str_or_empty (dget_or cap ''subject_did'' (PStr [])) in
           if \<not> is_did_key (PStr subject_did) then Inr False
           else bindR (decode_ed25519_did_key_hex subject_did) (\<lambda>subject_hex.
           if py_lower subject_hex \<noteq> py_lower signer_pubkey_hex then Inr False
           else bindR (py_int (dget_or cap ''not_after'' (PInt 0))) (\<lambda>not_after.
           if not_after \<noteq> 0 \<and> not_after < receipt_ms then Inr False
           else let scope = str_or_empty (dget_or cap ''scope_task_id'' (PStr [])) in
             Inr (scope = [] \<or> scope = str_or_empty (dget_or receipt ''goal_id'' (PStr [])))))))"

definition verify_receipt :: "nacl \<Rightarrow> (string \<Rightarrow> int res) \<Rightarrow> int \<Rightarrow> pydict \<Rightarrow> string \<Rightarrow> bool res" where
  "verify_receipt n iso_ms now receipt expected_pubkey_hex =
     (if \<not> nacl_available n then Inr False
      else case dget_or receipt ''timeline'' PNone of
        PList entries \<Rightarrow>
          if entries = [] then Inr False
          else (case mapR parse_entry entries of
            Inl e \<Rightarrow> if malformed e then Inr False else Inl e
          | Inr timeline \<Rightarrow>
              (case compute_content_hash timeline of
                 Inl _ \<Rightarrow> Inr False
               | Inr recomputed \<Rightarrow>
                   if dget_or receipt ''content_hash'' (PStr []) \<noteq> PStr recomputed then Inr False
                   else (case dget_or receipt ''sig'' (PStr []) of
                     PStr sg \<Rightarrow>
                       if sg = [] then Inr False
                       else (case b64u_decode sg of
                         Inl _ \<Rightarrow> Inr False
                       | Inr sig_bytes \<Rightarrow>
                           if \<not> is_did_key (dget_or receipt ''signer_did'' (PStr [])) then Inr False
                           else bindR (decode_ed25519_did_key (the_str (dget receipt ''signer_did''))) (\<lambda>pk.
                             let pubkey_hex = bytes_hex pk;
                                 envelope_pk = py_lower (py_str (dget_or receipt ''signer_pubkey_hex'' (PStr []))) in
                             if expected_pubkey_hex \<noteq> [] \<and> py_lower pubkey_hex \<noteq> py_lower expected_pubkey_hex then Inr False
                             else if envelope_pk \<noteq> [] \<and> envelope_pk \<noteq> py_lower pubkey_hex then Inr False
                             else bindR (fromhex recomputed) (\<lambda>digest.
                               if \<not> nacl_verify n pk digest sig_bytes then Inr False
                               else (case dget_or receipt ''authorizing_cap_token'' PNone of
                                 PNone \<Rightarrow> Inr True
                               | PDict cap \<Rightarrow> verify_cap_token_chain n iso_ms now receipt cap pubkey_hex
                               | _ \<Rightarrow> Inr False))))
                   | _ \<Rightarrow> Inr False)))
      | _ \<Rightarrow> Inr False)"

section \<open>Chains of receipts\<close>

definition extract_prev_content_hash :: "pydict \<Rightarrow> string res" where
  "extract_prev_content_hash receipt =
     (let timeline = dget_or receipt ''timeline'' PNone in
      if \<not> truthy timeline then Inr []
      else case timeline of
        PList (PDict first # _) \<Rightarrow>
          if dget_or first ''type'' PNone \<noteq> PStr type_nth_chain_link then Inr []
          else (let payload = dget_or first ''payload'' PNone in
            if \<not> truthy payload then Inr []
            else case payload of
              PDict p \<Rightarrow> Inr (str_or_empty (dget_or p ''prev_content_hash'' (PStr [])))
            | _ \<Rightarrow> raise AttributeError ''object has no attribute get'')
      | PList _ \<Rightarrow> raise AttributeError ''object has no attribute get''
      | PStr _ \<Rightarrow> raise AttributeError ''object has no attribute get''
      | PDict _ \<Rightarrow> raise KeyError ''0''
      | _ \<Rightarrow> raise TypeError ''object is not subscriptable'')"

fun verify_all :: "nacl \<Rightarrow> (string \<Rightarrow> int res) \<Rightarrow> int \<Rightarrow> pydict list \<Rightarrow> bool res" where
  "verify_all n iso_ms now [] = Inr True"
| "verify_all n iso_ms now (r # rs) = bindR (verify_receipt n iso_ms now r []) (\<lambda>ok. if ok then verify_all n iso_ms now rs else Inr False)"

definition content_hash_of :: "pydict \<Rightarrow> string" where
  "content_hash_of r = the_str (dget r ''content_hash'')"

definition one_signer :: "pydict list \<Rightarrow> bool res" where
  "one_signer receipts =
     (let signers = map (\<lambda>r. dget_or r ''signer_did'' (PStr [])) receipts in
      ensure (list_all hashable signers) TypeError ''unhashable type'' (
      Inr (list_all (py_eq (hd signers)) (tl signers) \<and> hd signers \<noteq> PStr [])))"

definition verify_receipt_chain :: "nacl \<Rightarrow> (string \<Rightarrow> int res) \<Rightarrow> int \<Rightarrow> pydict list \<Rightarrow> bool res" where
  "verify_receipt_chain n iso_ms now receipts =
     (if receipts = [] then Inr False
      else bindR (one_signer receipts) (\<lambda>same.
      if \<not> same then Inr False
      else bindR (verify_all n iso_ms now receipts) (\<lambda>ok.
      if \<not> ok then Inr False
      else if \<not> distinct (map content_hash_of receipts) then Inr False
      else bindR (mapR extract_prev_content_hash receipts) (\<lambda>prevs.
        let pointers = filter (\<lambda>p. p \<noteq> []) prevs in
        Inr (length prevs = length pointers + 1 \<and> distinct pointers \<and> set pointers \<subseteq> set (map content_hash_of receipts))))))"

section \<open>The store\<close>

type_synonym receipt_store = "(string \<times> pyval) list"

definition receipt_id_ok :: "string \<Rightarrow> bool" where
  "receipt_id_ok rid \<longleftrightarrow> list_all (\<lambda>c. py_isalnum c \<or> c = CHR ''-'') rid"

definition receipt_save :: "receipt_store \<Rightarrow> pydict \<Rightarrow> receipt_store res" where
  "receipt_save st receipt =
     (let rid = str_or_empty (dget_or receipt ''receipt_id'' (PStr [])) in
      ensure (rid \<noteq> []) ValueError ''receipt is missing receipt_id'' (
      ensure (receipt_id_ok rid) ValueError (''receipt_id must be alphanumeric (or dash); got '' @ str_repr rid) (
      Inr (assoc_put rid (PDict receipt) st))))"

definition receipt_load :: "receipt_store \<Rightarrow> string \<Rightarrow> pyval option" where
  "receipt_load st rid = (if receipt_id_ok rid then map_of st rid else None)"

definition later :: "string \<times> string \<Rightarrow> string \<Rightarrow> string \<Rightarrow> bool" where
  "later latest issued content_hash \<longleftrightarrow> fst latest < issued \<or> (issued = fst latest \<and> snd latest < content_hash)"

fun head_scan :: "(pydict \<Rightarrow> bool res) \<Rightarrow> string \<Rightarrow> string \<times> string \<Rightarrow> pyval option list \<Rightarrow> (string \<times> string) res" where
  "head_scan check signer_did latest [] = Inr latest"
| "head_scan check signer_did latest (None # rs) = head_scan check signer_did latest rs"
| "head_scan check signer_did latest (Some (PDict r) # rs) =
     (if dget_or r ''signer_did'' (PStr []) \<noteq> PStr signer_did then head_scan check signer_did latest rs
      else bindR (check r) (\<lambda>ok.
        if \<not> ok then raise RuntimeError ''receipt failed verification; refusing to extend a poisoned chain''
        else let issued = py_str (dget_or r ''issued_at'' (PStr [])); h = py_str (dget_or r ''content_hash'' (PStr [])) in
          head_scan check signer_did (if later latest issued h then (issued, h) else latest) rs))"
| "head_scan check signer_did latest (Some _ # rs) = raise AttributeError ''object has no attribute get''"

definition verified_head_content_hash :: "nacl \<Rightarrow> (string \<Rightarrow> int res) \<Rightarrow> int \<Rightarrow> receipt_store \<Rightarrow> string \<Rightarrow> string res" where
  "verified_head_content_hash n iso_ms now st signer_did =
     bindR (head_scan (\<lambda>r. verify_receipt n iso_ms now r []) signer_did ([], []) (map (\<lambda>(rid, _). receipt_load st rid) st)) (\<lambda>(_, h). Inr h)"

definition head_content_hash :: "receipt_store \<Rightarrow> string \<Rightarrow> string res" where
  "head_content_hash st signer_did = bindR (head_scan (\<lambda>_. Inr True) signer_did ([], []) (map (\<lambda>(rid, _). receipt_load st rid) st)) (\<lambda>(_, h). Inr h)"

definition sign_and_save :: "nacl \<Rightarrow> (string \<Rightarrow> int res) \<Rightarrow> int \<Rightarrow> receipt_store \<Rightarrow> timeline_entry list \<Rightarrow> identity \<Rightarrow> string \<Rightarrow> string \<Rightarrow> pydict option
    \<Rightarrow> string \<Rightarrow> string \<Rightarrow> receipt_store \<times> pydict res" where
  "sign_and_save n iso_ms now st timeline signer goal_id receipt_id cap fresh_id issued_at =
     (case ensure (can_sign n signer) RuntimeError ''receipt identity cannot sign'' (
           bindR (as_did signer) (\<lambda>did.
           bindR (verified_head_content_hash n iso_ms now st did) (\<lambda>prev.
           bindR (sign_receipt n timeline signer goal_id receipt_id prev cap fresh_id issued_at now) (\<lambda>receipt.
           bindR (receipt_save st receipt) (\<lambda>st'. Inr (st', receipt)))))) of
        Inl e \<Rightarrow> (st, Inl e)
      | Inr (st', receipt) \<Rightarrow> (st', Inr receipt))"

section \<open>What an accepted receipt guarantees\<close>

lemma timeline_bytes_hash: "compute_content_hash t = Inr h \<longleftrightarrow> (\<exists>bs. timeline_bytes t = Inr bs \<and> h = sha256_hex bs)"
  by (auto simp: compute_content_hash_def hash_and_dicts_def bindR_Inr_iff)

lemma dget_or_PStr: "dget_or d k PNone = PStr s \<longleftrightarrow> dget d k = Some (PStr s)" "s \<noteq> [] \<Longrightarrow> dget_or d k (PStr []) = PStr s \<longleftrightarrow> dget d k = Some (PStr s)"
  by (auto simp: dget_or_def split: option.splits)

lemma dget_or_PList: "dget_or d k PNone = PList xs \<longleftrightarrow> dget d k = Some (PList xs)"
  by (auto simp: dget_or_def split: option.splits)

definition cap_chain_ok :: "nacl \<Rightarrow> (string \<Rightarrow> int res) \<Rightarrow> int \<Rightarrow> pydict \<Rightarrow> bytes \<Rightarrow> bool" where
  "cap_chain_ok n iso_ms now r pk \<longleftrightarrow> (case dget_or r ''authorizing_cap_token'' PNone of
     PNone \<Rightarrow> True
   | PDict cap \<Rightarrow> verify_cap_token_chain n iso_ms now r cap (bytes_hex pk) = Inr True
   | _ \<Rightarrow> False)"

definition receipt_core :: "nacl \<Rightarrow> pydict \<Rightarrow> bytes \<Rightarrow> timeline_entry list \<Rightarrow> bool" where
  "receipt_core n r pk timeline \<longleftrightarrow> (\<exists>entries bs did sg s. dget r ''timeline'' = Some (PList entries) \<and> mapR parse_entry entries = Inr timeline
     \<and> timeline_bytes timeline = Inr bs \<and> dget r ''content_hash'' = Some (PStr (sha256_hex bs))
     \<and> dget r ''signer_did'' = Some (PStr did) \<and> decode_ed25519_did_key did = Inr pk
     \<and> dget r ''sig'' = Some (PStr sg) \<and> sg \<noteq> [] \<and> b64u_decode sg = Inr s \<and> nacl_available n \<and> nacl_verify n pk (sha256 bs) s
     \<and> py_lower (py_str (dget_or r ''signer_pubkey_hex'' (PStr []))) \<in> {[], py_lower (bytes_hex pk)})"

lemma receipt_core_verdict:
  assumes "receipt_core n r pk timeline"
  shows "verify_receipt n iso_ms now r [] = (case dget_or r ''authorizing_cap_token'' PNone of
     PNone \<Rightarrow> Inr True | PDict cap \<Rightarrow> verify_cap_token_chain n iso_ms now r cap (bytes_hex pk) | _ \<Rightarrow> Inr False)"
proof -
  obtain entries bs did sg s where c: "dget r ''timeline'' = Some (PList entries)" "mapR parse_entry entries = Inr timeline"
    "timeline_bytes timeline = Inr bs" "dget r ''content_hash'' = Some (PStr (sha256_hex bs))" "dget r ''signer_did'' = Some (PStr did)"
    "decode_ed25519_did_key did = Inr pk" "dget r ''sig'' = Some (PStr sg)" "b64u_decode sg = Inr s" "nacl_available n" "nacl_verify n pk (sha256 bs) s"
    "sg \<noteq> []" "py_lower (py_str (dget_or r ''signer_pubkey_hex'' (PStr []))) \<in> {[], py_lower (bytes_hex pk)}"
    using assms unfolding receipt_core_def by blast
  have h: "compute_content_hash timeline = Inr (sha256_hex bs)" using c(3) by (simp add: timeline_bytes_hash)
  have "timeline \<noteq> []" using c(3) by (auto simp: timeline_bytes_def)
  then have ne: "entries \<noteq> []" using c(2) by auto
  have did: "is_did_key (PStr did)" using c(6) by (auto simp: is_did_key_iff decode_did_iff)
  show ?thesis unfolding verify_receipt_def
    using c h ne did by (auto simp: dget_or_def [of _ "''timeline''"] dget_or_def [of _ "''content_hash''"] dget_or_def [of _ "''sig''"] dget_or_def [of _ "''signer_did''"] Let_def)
qed

lemma verify_receipt_core:
  assumes "verify_receipt n iso_ms now r ex = Inr True"
  shows "\<exists>pk timeline. receipt_core n r pk timeline"
proof -
  note v = assms [unfolded verify_receipt_def]
  have av: "nacl_available n" using v by (auto split: if_splits)
  note v = v [simplified av not_True_eq_False if_False]
  obtain entries where en: "dget_or r ''timeline'' PNone = PList entries" "entries \<noteq> []" using v by (auto split: pyval.splits if_splits)
  note v = v [simplified en(1), simplified en(2), simplified]
  obtain timeline where tl: "mapR parse_entry entries = Inr timeline" using v en(2) by (auto split: sum.splits if_splits)
  note v = v [simplified tl en(2), simplified]
  obtain h where h: "compute_content_hash timeline = Inr h" using v en by (auto split: sum.splits)
  note v = v [simplified h, simplified]
  have ch: "dget_or r ''content_hash'' (PStr []) = PStr h" using v en by (auto split: if_splits)
  note v = v [simplified ch, simplified]
  obtain sg where sg: "dget_or r ''sig'' (PStr []) = PStr sg" "sg \<noteq> []" using v en by (auto split: pyval.splits if_splits)
  note v = v [simplified sg, simplified]
  obtain s where s: "b64u_decode sg = Inr s" using v en sg by (auto split: sum.splits)
  note v = v [simplified s, simplified]
  have did: "is_did_key (dget_or r ''signer_did'' (PStr []))" using v en sg by (auto split: if_splits)
  then obtain d where d: "dget r ''signer_did'' = Some (PStr d)"
    by (cases "dget r ''signer_did''") (auto simp: dget_or_def is_did_key_def did_key_prefix_def startswith_def split: pyval.splits)
  obtain pk where pk: "decode_ed25519_did_key d = Inr pk" using did d by (auto simp: dget_or_def is_did_key_iff decode_did_iff)
  note v = v [simplified did d pk, simplified]
  obtain bs where bs: "timeline_bytes timeline = Inr bs" "h = sha256_hex bs" using h by (auto simp: timeline_bytes_hash)
  have f: "dget r ''timeline'' = Some (PList entries)" "dget r ''content_hash'' = Some (PStr (sha256_hex bs))" "dget r ''sig'' = Some (PStr sg)"
    using en(1) ch sg bs(2) length_sha256_hex [of bs] by (auto simp: dget_or_def simp del: length_sha256_hex split: option.splits)
  have "nacl_verify n pk (sha256 bs) s" "py_lower (py_str (dget_or r ''signer_pubkey_hex'' (PStr []))) \<in> {[], py_lower (bytes_hex pk)}"
    using v bs(2) sg(2) pk by (auto simp: Let_def split: if_splits)
  then show ?thesis unfolding receipt_core_def using f tl bs(1) d pk sg(2) s av by blast
qed

lemma py_lower_hex: "py_lower (bytes_hex bs) = bytes_hex bs"
proof -
  have "lower_char c = c" if "is_lower_hex c" for c using that by (auto simp: lower_char_def is_lower_hex_def is_digit_def Let_def)
  then have "map lower_char (bytes_hex bs) = bytes_hex bs" by (intro map_idI) (auto dest: bytes_hex_lower)
  then show ?thesis by (simp add: py_lower_def)
qed

lemma cap_chain_facts:
  assumes "verify_cap_token_chain n iso_ms now r cap (bytes_hex pk) = Inr True"
  shows "\<exists>t. receipt_issued_ms iso_ms r = Inr (Some t) \<and> verify_cap_token n cap (if t \<noteq> 0 then t else now) [] (Some [cap_nth_receipt_sign]) [] [] = Inr (True, [])
     \<and> decode_ed25519_did_key (str_or_empty (dget_or cap ''subject_did'' (PStr []))) = Inr pk"
proof -
  note v = assms [unfolded verify_cap_token_chain_def Let_def]
  obtain t where t: "receipt_issued_ms iso_ms r = Inr (Some t)" using v by (auto simp: bindR_Inr_iff split: option.splits)
  note v = v [unfolded t bindR_simps option.case]
  obtain m where c: "verify_cap_token n cap (if t \<noteq> 0 then t else now) [] (Some [cap_nth_receipt_sign]) [] [] = Inr (True, m)"
    using v by (auto simp: bindR_Inr_iff split: if_splits)
  have m: "m = []" using c unfolding verify_cap_token_def Let_def by (auto simp: bindR_Inr_iff split: if_splits sum.splits)
  note v = v [unfolded c bindR_simps prod.case]
  define sd where "sd = str_or_empty (dget_or cap ''subject_did'' (PStr []))"
  have d: "is_did_key (PStr sd)" using v by (auto simp: sd_def split: if_splits)
  then obtain pk' where pk': "decode_ed25519_did_key sd = Inr pk'" by (auto simp: is_did_key_iff decode_did_iff)
  have "py_lower (bytes_hex pk') = py_lower (bytes_hex pk)"
    using v d pk' by (auto simp: sd_def [symmetric] decode_ed25519_did_key_hex_def bindR_Inr_iff split: if_splits)
  then have "pk' = pk" by (simp add: py_lower_hex)
  then show ?thesis using t c m pk' by (auto simp: sd_def)
qed

text \<open>C28. An accepted receipt is evidence: its timeline, read back as entries, hashes to the recorded content hash; the Ed25519
  signature over that hash is valid under the key of the signer's DID; and when a capability token is attached, the token was
  valid at the recorded time of issue, grants receipt signing, is signed by its issuer over all its fields, and was
  issued to the key that signed the receipt.\<close>

theorem verify_receipt_sound:
  assumes "verify_receipt n iso_ms now r [] = Inr True"
  shows "\<exists>entries timeline bs did pk sg s. dget r ''timeline'' = Some (PList entries) \<and> mapR parse_entry entries = Inr timeline
     \<and> timeline_bytes timeline = Inr bs \<and> dget r ''content_hash'' = Some (PStr (sha256_hex bs))
     \<and> dget r ''signer_did'' = Some (PStr did) \<and> decode_ed25519_did_key did = Inr pk
     \<and> dget r ''sig'' = Some (PStr sg) \<and> b64u_decode sg = Inr s \<and> nacl_verify n pk (sha256 bs) s
     \<and> (case dget r ''authorizing_cap_token'' of Some (PDict cap) \<Rightarrow>
          (\<exists>t. receipt_issued_ms iso_ms r = Inr (Some t) \<and> verify_cap_token n cap (if t \<noteq> 0 then t else now) [] (Some [cap_nth_receipt_sign]) [] [] = Inr (True, [])
             \<and> decode_ed25519_did_key (str_or_empty (dget_or cap ''subject_did'' (PStr []))) = Inr pk)
        | Some v \<Rightarrow> v = PNone | None \<Rightarrow> True)"
proof -
  obtain pk timeline where c: "receipt_core n r pk timeline" using verify_receipt_core [OF assms] by blast
  note v = assms [unfolded receipt_core_verdict [OF c]]
  have cap: "case dget r ''authorizing_cap_token'' of Some (PDict cap) \<Rightarrow>
          (\<exists>t. receipt_issued_ms iso_ms r = Inr (Some t) \<and> verify_cap_token n cap (if t \<noteq> 0 then t else now) [] (Some [cap_nth_receipt_sign]) [] [] = Inr (True, [])
             \<and> decode_ed25519_did_key (str_or_empty (dget_or cap ''subject_did'' (PStr []))) = Inr pk)
        | Some v \<Rightarrow> v = PNone | None \<Rightarrow> True"
  proof (cases "dget r ''authorizing_cap_token''")
    case (Some v0)
    show ?thesis
    proof (cases v0)
      case (PDict cap)
      have k: "verify_cap_token_chain n iso_ms now r cap (bytes_hex pk) = Inr True" using v Some PDict by (simp add: dget_or_def)
      then show ?thesis using Some PDict cap_chain_facts [OF k] by simp
    qed (use v Some in \<open>simp_all add: dget_or_def\<close>)
  qed simp
  then show ?thesis using c unfolding receipt_core_def by blast
qed

section \<open>Signed receipts verify\<close>

definition entry_ok :: "timeline_entry \<Rightarrow> bool" where
  "entry_ok e \<longleftrightarrow> 0 \<le> te_timestamp e \<and> te_type e \<noteq> []"

lemma parse_entry_to_dict: "entry_ok e \<Longrightarrow> parse_entry (PDict (entry_to_dict e)) = Inr e"
  by (simp add: entry_ok_def parse_entry_def entry_to_dict_def item_def obj_def dget_or_def timeline_entry_new_def)

lemma chain_linked_ok:
  assumes "chain_linked timeline prev now = Inr t" "list_all entry_ok timeline" "0 \<le> now"
  shows "list_all entry_ok t"
  using assms by (cases timeline) (auto simp: chain_linked_def timeline_entry_new_def res_iffs entry_ok_def type_nth_chain_link_def split: if_splits)

lemma signed_receipt_fields:
  assumes "ed25519_ok n" "signer_ok n signer" "list_all entry_ok timeline" "0 \<le> now"
    "sign_receipt n timeline signer goal_id rid prev cap fresh issued_at now = Inr r"
  obtains pk t where "receipt_core n r pk t" "chain_linked timeline prev now = Inr t" "id_pubkey_hex signer = bytes_hex pk"
    "as_did signer = Inr (the_str (dget r ''signer_did''))" "decode_ed25519_did_key (the_str (dget r ''signer_did'')) = Inr pk"
    "dget r ''issued_at'' = Some (PStr issued_at)" "dget r ''goal_id'' = Some (PStr goal_id)"
    "dget r ''authorizing_cap_token'' = map_option PDict cap" "dget r ''receipt_id'' = Some (PStr (if rid \<noteq> [] then rid else fresh))"
    "dget r ''timeline'' = Some (PList (map (\<lambda>e. PDict (entry_to_dict e)) t))"
proof -
  obtain t bs s did where a: "chain_linked timeline prev now = Inr t" "timeline_bytes t = Inr bs" "identity_sign n signer (sha256 bs) = Inr s"
    "as_did signer = Inr did" and r: "r = receipt_envelope (if rid \<noteq> [] then rid else fresh) goal_id did (id_pubkey_hex signer) issued_at (map entry_to_dict t)
       (sha256_hex bs) (b64u_encode s) cap"
    using assms(5) by (auto simp: sign_receipt_def hash_and_dicts_def bindR_Inr_iff)
  obtain seed where seed: "id_signing_key signer = Some seed" "length seed = 32" using assms(2) by (rule signer_okE)
  note ok = ed25519_okD [OF assms(1) seed(2)]
  have s: "s = nacl_sign n seed (sha256 bs)" using signer_sign [OF assms(1,2)] a(3) seed(1) by simp
  have pk: "decode_ed25519_did_key did = Inr (nacl_pub n seed)"
    using signer_did [OF assms(1,2)] a(4) seed(1) by (metis Inr_inject option.sel)
  have hex: "id_pubkey_hex signer = bytes_hex (nacl_pub n seed)" using signer_pubkey_hex [OF assms(1,2)] seed(1) by simp
  have "b64u_encode s \<noteq> []" using ok(3) [of "sha256 bs"] s b64u_encode_Nil [of s] by auto
  moreover have "mapR parse_entry (map (\<lambda>e. PDict (entry_to_dict e)) t) = Inr t"
    using chain_linked_ok [OF a(1) assms(3,4)] by (auto simp: mapR_Inr_iff list_all2_map1 list_all2_same list_all_iff parse_entry_to_dict)
  ultimately have "receipt_core n r (nacl_pub n seed) t"
    unfolding receipt_core_def using a(2) pk ok hex s by (auto simp: r receipt_envelope_def obj_def dget_or_def o_def)
  then show thesis using that [of "nacl_pub n seed" t] a hex pk by (cases cap) (auto simp: r receipt_envelope_def obj_def o_def)
qed

lemma receipt_core_dput:
  assumes "k \<notin> {''timeline'', ''content_hash'', ''signer_did'', ''sig'', ''signer_pubkey_hex''}"
  shows "receipt_core n (dput r k v) pk t = receipt_core n r pk t"
proof -
  have "dget (dput r k v) f = dget r f" if "f \<in> {''timeline'', ''content_hash'', ''signer_did'', ''sig'', ''signer_pubkey_hex''}" for f
    using that assms by (simp only: dget_dput) (metis if_not_P)
  then show ?thesis by (simp add: receipt_core_def dget_or_def del: dget_dput)
qed

lemma cap_chain_accepts:
  assumes "receipt_issued_ms iso_ms r = Inr (Some t)" "t \<noteq> 0" "verify_cap_token n cap t [] (Some [cap_nth_receipt_sign]) [] [] = Inr (True, m)"
    "decode_ed25519_did_key (str_or_empty (dget_or cap ''subject_did'' (PStr []))) = Inr pk"
    "str_or_empty (dget_or cap ''scope_task_id'' (PStr [])) \<in> {[], str_or_empty (dget_or r ''goal_id'' (PStr []))}"
  shows "verify_cap_token_chain n iso_ms now r cap (bytes_hex pk) = Inr True"
proof -
  note v = assms(3) [unfolded verify_cap_token_def Let_def]
  have "dhas cap ''not_after''" using v by (auto simp: cap_required_fields_def split: if_splits)
  then obtain x where x: "dget cap ''not_after'' = Some x" by (auto simp: dhas_def)
  obtain na where na: "py_int x = Inr na" "t \<le> na" using v x by (auto simp: bindR_Inr_iff dget_or_def split: if_splits sum.splits)
  have "is_did_key (PStr (str_or_empty (dget_or cap ''subject_did'' (PStr []))))" using assms(4) by (auto simp: is_did_key_iff decode_did_iff)
  then show ?thesis unfolding verify_cap_token_chain_def Let_def
    using assms x na by (auto simp: decode_ed25519_did_key_hex_def dget_or_def [of cap "''not_after''"])
qed

text \<open>A receipt that an agent signs is accepted: without a token always, with a token when the token was valid at the time of issue, grants
  receipt signing, names the signer as subject and is not scoped to another goal.\<close>

lemma signed_receipt_verifies:
  assumes "ed25519_ok n" "signer_ok n signer" "list_all entry_ok timeline" "0 \<le> now"
    "sign_receipt n timeline signer goal_id rid prev cap fresh issued_at now = Inr r"
    "\<And>t. cap = Some t \<Longrightarrow> (\<exists>ms m. iso_ms issued_at = Inr ms \<and> ms \<noteq> 0 \<and> verify_cap_token n t ms [] (Some [cap_nth_receipt_sign]) [] [] = Inr (True, m))
       \<and> issued_at \<noteq> [] \<and> (\<exists>did. as_did signer = Inr did \<and> dget t ''subject_did'' = Some (PStr did))
       \<and> str_or_empty (dget_or t ''scope_task_id'' (PStr [])) \<in> {[], goal_id}"
  shows "verify_receipt n iso_ms clock r [] = Inr True"
proof -
  obtain pk t where c: "receipt_core n r pk t" "as_did signer = Inr (the_str (dget r ''signer_did''))" "decode_ed25519_did_key (the_str (dget r ''signer_did'')) = Inr pk"
    "dget r ''issued_at'' = Some (PStr issued_at)" "dget r ''goal_id'' = Some (PStr goal_id)" "dget r ''authorizing_cap_token'' = map_option PDict cap"
    using signed_receipt_fields [OF assms(1-5)] by blast
  show ?thesis
  proof (cases cap)
    case None
    then show ?thesis using receipt_core_verdict [OF c(1)] c(6) by (simp add: dget_or_def)
  next
    case (Some tok)
    note h = assms(6) [OF Some]
    then obtain ms m where ms: "iso_ms issued_at = Inr ms" "ms \<noteq> 0" "verify_cap_token n tok ms [] (Some [cap_nth_receipt_sign]) [] [] = Inr (True, m)" by blast
    have i: "receipt_issued_ms iso_ms r = Inr (Some ms)" using h c(4) ms(1) by (simp add: receipt_issued_ms_def dget_or_def)
    have s: "decode_ed25519_did_key (str_or_empty (dget_or tok ''subject_did'' (PStr []))) = Inr pk"
      using h c(2,3) decode_did_iff did_length_pos by (auto simp: dget_or_def str_or_empty_def)
    have g: "str_or_empty (dget_or tok ''scope_task_id'' (PStr [])) \<in> {[], str_or_empty (dget_or r ''goal_id'' (PStr []))}"
      using h c(5) by (auto simp: dget_or_def [of r] str_or_empty_def)
    show ?thesis using cap_chain_accepts [OF i ms(2,3) s g] receipt_core_verdict [OF c(1)] c(6) Some by (simp add: dget_or_def)
  qed
qed

text \<open>The time of issue is not signed: whenever a receipt was signed with a token attached, even long after the token expired, anyone can
  write a time inside the token's validity into \<open>issued_at\<close> and the receipt is accepted.\<close>

lemma receipt_backdating_accepted:
  assumes "ed25519_ok n" "signer_ok n signer" "list_all entry_ok timeline" "0 \<le> now"
    "sign_receipt n timeline signer goal_id rid prev (Some tok) fresh issued_at now = Inr r"
    "iso_ms forged = Inr ms" "ms \<noteq> 0" "forged \<noteq> []" "verify_cap_token n tok ms [] (Some [cap_nth_receipt_sign]) [] [] = Inr (True, m)"
    "as_did signer = Inr did" "dget tok ''subject_did'' = Some (PStr did)" "str_or_empty (dget_or tok ''scope_task_id'' (PStr [])) \<in> {[], goal_id}"
  shows "verify_receipt n iso_ms clock (dput r ''issued_at'' (PStr forged)) [] = Inr True"
proof -
  let ?r = "dput r ''issued_at'' (PStr forged)"
  obtain pk t where c: "receipt_core n r pk t" "as_did signer = Inr (the_str (dget r ''signer_did''))" "decode_ed25519_did_key (the_str (dget r ''signer_did'')) = Inr pk"
    "dget r ''goal_id'' = Some (PStr goal_id)" "dget r ''authorizing_cap_token'' = Some (PDict tok)"
    by (rule signed_receipt_fields [OF assms(1-5)]) simp
  have core: "receipt_core n ?r pk t" using c(1) receipt_core_dput [of "''issued_at''" n r] by simp
  have i: "receipt_issued_ms iso_ms ?r = Inr (Some ms)" using assms(6,8) by (simp add: receipt_issued_ms_def dget_or_def)
  have s: "decode_ed25519_did_key (str_or_empty (dget_or tok ''subject_did'' (PStr []))) = Inr pk"
    using assms(10,11) c(2,3) decode_did_iff did_length_pos by (auto simp: dget_or_def str_or_empty_def)
  have g: "str_or_empty (dget_or tok ''scope_task_id'' (PStr [])) \<in> {[], str_or_empty (dget_or ?r ''goal_id'' (PStr []))}"
    using assms(12) c(4) by (auto simp: dget_or_def [of ?r] str_or_empty_def)
  show ?thesis using cap_chain_accepts [OF i assms(7,9) s g] receipt_core_verdict [OF core] c(5) by (simp add: dget_or_def)
qed

section \<open>Receipt chains\<close>

text \<open>Receipts in the order of their links, each naming the content hash of the one before.\<close>

definition linked :: "('r \<Rightarrow> string) \<Rightarrow> ('r \<Rightarrow> string) \<Rightarrow> 'r list \<Rightarrow> bool" where
  "linked h p ls \<longleftrightarrow> ls \<noteq> [] \<and> p (hd ls) = [] \<and> (\<forall>i. Suc i < length ls \<longrightarrow> p (ls ! Suc i) = h (ls ! i))"

lemma receipt_linked_snoc: "linked h p ls \<Longrightarrow> p r = h (List.last ls) \<Longrightarrow> linked h p (ls @ [r])"
  by (auto simp: linked_def nth_append last_conv_nth less_Suc_eq hd_append) (metis diff_Suc_1 One_nat_def)

lemma pointers_inj:
  assumes "distinct (filter (\<lambda>x. x \<noteq> []) (map p rs))" "q \<in> set rs" "r \<in> set rs" "p q = p r" "p r \<noteq> []"
  shows "q = r"
  using assms by (auto simp: filter_map distinct_map inj_on_def o_def)

lemma linear_or_loop:
  assumes d: "distinct rs" "distinct (filter (\<lambda>x. x \<noteq> []) (map p rs))"
    and one: "length rs = length (filter (\<lambda>x. x \<noteq> []) (map p rs)) + 1"
    and res: "set (filter (\<lambda>x. x \<noteq> []) (map p rs)) \<subseteq> h ` set rs"
  shows "\<exists>ls rest. mset rs = mset (ls @ rest) \<and> linked h p ls \<and> (\<forall>r \<in> set rest. \<exists>r' \<in> set rest. p r = h r')"
proof -
  define chain where "chain ls \<longleftrightarrow> distinct ls \<and> set ls \<subseteq> set rs \<and> linked h p ls" for ls
  have "length (filter (\<lambda>r. p r = []) rs) = 1"
    using one sum_length_filter_compl [of "\<lambda>r. p r \<noteq> []" rs] by (simp add: filter_map o_def)
  then obtain g where g: "filter (\<lambda>r. p r = []) rs = [g]" by (auto simp: length_Suc_conv)
  have "set (filter (\<lambda>r. p r = []) rs) = {g}" by (simp add: g)
  then have gs: "g \<in> set rs" "p g = []" and guniq: "\<And>r. r \<in> set rs \<Longrightarrow> p r = [] \<Longrightarrow> r = g" by auto
  have "chain [g]" using gs by (auto simp: chain_def linked_def)
  moreover have "length ls \<le> length rs" if "chain ls" for ls
    using that d(1) by (metis chain_def card_mono distinct_card finite_set)
  ultimately obtain ls where ls: "chain ls" "\<And>ls'. chain ls' \<Longrightarrow> length ls' \<le> length ls"
    using ex_has_greatest_nat [of chain "[g]" length "Suc (length rs)"] by (metis le_imp_less_Suc)
  define rest where "rest = filter (\<lambda>r. r \<notin> set ls) rs"
  have "\<exists>r' \<in> set rest. p r = h r'" if r: "r \<in> set rest" for r
  proof -
    have rs: "r \<in> set rs" "r \<notin> set ls" using r by (auto simp: rest_def)
    have "hd ls \<in> set rs" using ls(1) by (metis chain_def linked_def hd_in_set subsetD)
    then have "hd ls = g" using ls(1) guniq by (simp add: chain_def linked_def)
    then have ne: "p r \<noteq> []" using rs guniq [of r] ls(1) by (metis chain_def hd_in_set linked_def)
    then obtain r' where r': "r' \<in> set rs" "p r = h r'" using res rs(1) by auto
    have "r' \<notin> set ls"
    proof
      assume "r' \<in> set ls"
      then obtain i where i: "i < length ls" "ls ! i = r'" by (auto simp: in_set_conv_nth)
      show False
      proof (cases "Suc i < length ls")
        case True
        then have "p (ls ! Suc i) = p r" "ls ! Suc i \<in> set rs" using ls(1) i r'(2) by (auto simp: chain_def linked_def)
        then have "ls ! Suc i = r" using pointers_inj [OF d(2) _ rs(1)] ne by simp
        then show False using rs(2) True nth_mem by metis
      next
        case False
        then have "List.last ls = r'" using i ls(1) by (metis chain_def linked_def last_conv_nth Suc_lessI diff_Suc_1)
        then have "chain (ls @ [r])" using ls(1) rs r'(2) receipt_linked_snoc [of h p ls r] by (auto simp: chain_def)
        then show False using ls(2) [of "ls @ [r]"] by simp
      qed
    qed
    then show ?thesis using r' by (auto simp: rest_def)
  qed
  moreover have "mset rs = mset (ls @ rest)"
    using ls(1) d(1) by (intro set_eq_iff_mset_eq_distinct [THEN iffD1]) (auto simp: rest_def chain_def)
  ultimately show ?thesis using ls(1) by (auto simp: chain_def)
qed

definition prev_hash_of :: "pydict \<Rightarrow> string" where
  "prev_hash_of r = projr (extract_prev_content_hash r)"

lemma verify_all_True: "verify_all n iso_ms now rs = Inr True \<longleftrightarrow> (\<forall>r \<in> set rs. verify_receipt n iso_ms now r [] = Inr True)"
  by (induction rs) (auto simp: bindR_Inr_iff)

text \<open>A verified chain is a line: the receipts of one signer that \<open>verify_receipt_chain\<close> accepts are all individually valid, and can be
  arranged so that the first has no predecessor and every other names the content hash of the one before it, each
  receipt once; receipts outside that line would have to name one another in a circle, which means a loop of hashes.\<close>

lemma receipt_chain_linear:
  assumes "verify_receipt_chain n iso_ms now receipts = Inr True"
  shows "\<exists>ls loop. mset receipts = mset (ls @ loop) \<and> linked content_hash_of prev_hash_of ls
    \<and> (\<forall>r \<in> set loop. \<exists>r' \<in> set loop. prev_hash_of r = content_hash_of r')
    \<and> (\<forall>r \<in> set receipts. verify_receipt n iso_ms now r [] = Inr True)"
proof -
  note v = assms [unfolded verify_receipt_chain_def Let_def]
  have all: "verify_all n iso_ms now receipts = Inr True" using v by (auto simp: bindR_Inr_iff split: if_splits)
  have h: "distinct (map content_hash_of receipts)" using v by (auto simp: bindR_Inr_iff split: if_splits)
  obtain prevs where p: "mapR extract_prev_content_hash receipts = Inr prevs" "length prevs = length (filter (\<lambda>p. p \<noteq> []) prevs) + 1"
    "distinct (filter (\<lambda>p. p \<noteq> []) prevs)" "set (filter (\<lambda>p. p \<noteq> []) prevs) \<subseteq> set (map content_hash_of receipts)"
    using v by (auto simp: bindR_Inr_iff split: if_splits)
  have "prevs = map prev_hash_of receipts"
    using p(1) by (auto simp: mapR_Inr_iff list_all2_conv_all_nth prev_hash_of_def intro!: nth_equalityI)
  then have "\<exists>ls loop. mset receipts = mset (ls @ loop) \<and> linked content_hash_of prev_hash_of ls
    \<and> (\<forall>r \<in> set loop. \<exists>r' \<in> set loop. prev_hash_of r = content_hash_of r')"
    using linear_or_loop [of receipts prev_hash_of content_hash_of] p(2-4) h by (simp add: distinct_map)
  then show ?thesis using all by (simp add: verify_all_True)
qed

section \<open>A concrete receipt\<close>

definition demo_timeline :: "timeline_entry list" where
  "demo_timeline = [\<lparr>te_timestamp = 7, te_type = ''goal_started'', te_payload = []\<rparr>]"

definition demo_iso :: "string \<Rightarrow> int res" where
  "demo_iso s = (if s = ''2020'' then Inr 5 else if s = ''2030'' then Inr 90000000 else raise ValueError ''Invalid isoformat string'')"

lemma sign_receipt_total:
  assumes "ed25519_ok n" "signer_ok n signer" "timeline \<noteq> []" "list_all (\<lambda>e. wf_json (PDict (te_payload e))) timeline"
  shows "\<exists>r. sign_receipt n timeline signer goal_id rid [] cap fresh issued_at now = Inr r"
proof -
  obtain did where "as_did signer = Inr did" using signer_did [OF assms(1,2)] by blast
  moreover have "\<exists>ls. mapR (\<lambda>e. canonical_json (PDict (entry_to_dict e))) timeline = Inr ls"
    using assms(4)
  proof (induction timeline)
    case (Cons e es)
    then have "wf_json (PDict (entry_to_dict e))" by (simp add: entry_to_dict_def obj_def is_str_def)
    then show ?case using canonical_json_wf Cons by (auto simp del: wf_json.simps)
  qed simp
  ultimately show ?thesis using assms(3) signer_sign [OF assms(1,2)]
    by (auto simp: sign_receipt_def chain_linked_def hash_and_dicts_def timeline_bytes_def)
qed

lemma sign_cap_token_total:
  assumes "ed25519_ok n" "signer_ok n issuer" "caps \<noteq> []" "[] \<notin> set caps" "0 < ttl" "ttl \<le> max_ttl_ms" "is_did_key (PStr subject)" "flat_id tid" "tid \<noteq> []"
  shows "\<exists>token. sign_cap_token n issuer subject caps task dao None ttl tid fresh nonce t0 = Inr token"
proof -
  obtain did where did: "as_did issuer = Inr did" using signer_did [OF assms(1,2)] by blast
  have "list_all (\<lambda>c. c \<noteq> []) (sort (remdups caps))" using assms(4) by (auto simp: list_all_iff)
  moreover have "sort (remdups caps) \<noteq> []" using assms(3) by (metis length_0_conv length_sort remdups_eq_nil_iff)
  moreover have "wf_json_list (map PStr xs)" for xs by (induction xs) auto
  then have "wf_json (PDict (signing_body (cap_body tid did subject (sort (remdups caps)) task dao t0 ttl nonce None)))"
    by (simp add: cap_body_def obj_def signing_body_def without_key_def is_str_def)
  then have "\<exists>out. sign_statement n issuer (cap_body tid did subject (sort (remdups caps)) task dao t0 ttl nonce None) = Inr out"
    by (rule sign_statement_total [OF assms(1,2)])
  ultimately show ?thesis using assms(5-9) did by (auto simp: sign_cap_token_def Let_def)
qed

definition demo_sign_token :: pydict where
  "demo_sign_token = projr (sign_cap_token demo_nacl (demo_identity 2) (projr (as_did (demo_identity 1))) [cap_nth_receipt_sign] [] [] None 3600000 ''t1'' [] ''00'' 1)"

lemma demo_sign_token:
  "sign_cap_token demo_nacl (demo_identity 2) (projr (as_did (demo_identity 1))) [cap_nth_receipt_sign] [] [] None 3600000 ''t1'' [] ''00'' 1 = Inr demo_sign_token"
proof -
  obtain d where d: "as_did (demo_identity 1) = Inr d" "is_did_key (PStr d)"
    by (rule signer_did [OF demo_nacl_ok demo_signer, of 1]) (auto simp: is_did_key_iff decode_did_iff)
  have "flat_id ''t1''" by code_simp
  then have "\<exists>token. sign_cap_token demo_nacl (demo_identity 2) d [cap_nth_receipt_sign] [] [] None 3600000 ''t1'' [] ''00'' 1 = Inr token"
    using d(2) by (intro sign_cap_token_total [OF demo_nacl_ok demo_signer]) (simp_all add: max_ttl_ms_def cap_nth_receipt_sign_def)
  then show ?thesis by (auto simp: demo_sign_token_def d(1) simp del: One_nat_def)
qed

lemma demo_sign_token_ok:
  "verify_cap_token demo_nacl demo_sign_token 5 [] (Some [cap_nth_receipt_sign]) [] [] = Inr (True, [])"
  "dget demo_sign_token ''subject_did'' = Some (PStr (projr (as_did (demo_identity 1))))"
  "str_or_empty (dget_or demo_sign_token ''scope_task_id'' (PStr [])) = []"
  using issued_token_accepted [OF demo_nacl_ok demo_signer demo_sign_token, of 5] issued_token_fields [OF demo_nacl_ok demo_signer demo_sign_token]
  by (simp_all add: dget_or_def str_or_empty_def)

definition demo_receipt :: "pydict option \<Rightarrow> string \<Rightarrow> pydict" where
  "demo_receipt cap issued_at = projr (sign_receipt demo_nacl demo_timeline (demo_identity 1) [] ''r1'' [] cap [] issued_at 7)"

lemma demo_receipt: "sign_receipt demo_nacl demo_timeline (demo_identity 1) [] ''r1'' [] cap [] issued_at 7 = Inr (demo_receipt cap issued_at)"
  "list_all entry_ok demo_timeline"
  using sign_receipt_total [OF demo_nacl_ok demo_signer, of demo_timeline 1 "[]" "''r1''" cap "[]" issued_at 7]
  by (auto simp: demo_receipt_def demo_timeline_def entry_ok_def)

lemma demo_did1: "as_did (demo_identity 1) = Inr (projr (as_did (demo_identity 1)))"
  by (rule signer_did [OF demo_nacl_ok demo_signer, of 1]) simp

lemma signed_receipt_verifies_demo:
  "verify_receipt demo_nacl demo_iso 99 (demo_receipt (Some demo_sign_token) ''2020'') [] = Inr True"
proof (rule signed_receipt_verifies [OF demo_nacl_ok demo_signer demo_receipt(2) _ demo_receipt(1)])
  fix t assume "Some demo_sign_token = Some t"
  then show "(\<exists>ms m. demo_iso ''2020'' = Inr ms \<and> ms \<noteq> 0 \<and> verify_cap_token demo_nacl t ms [] (Some [cap_nth_receipt_sign]) [] [] = Inr (True, m))
     \<and> ''2020'' \<noteq> [] \<and> (\<exists>did. as_did (demo_identity 1) = Inr did \<and> dget t ''subject_did'' = Some (PStr did))
     \<and> str_or_empty (dget_or t ''scope_task_id'' (PStr [])) \<in> {[], []}"
    using demo_sign_token_ok demo_did1 by (auto simp: demo_iso_def simp del: One_nat_def)
qed simp

lemma demo_receipt_ok: "verify_receipt demo_nacl demo_iso 99 (demo_receipt None ''2020'') [] = Inr True"
proof -
  obtain pk t where "receipt_core demo_nacl (demo_receipt None ''2020'') pk t" "dget (demo_receipt None ''2020'') ''authorizing_cap_token'' = None"
    by (rule signed_receipt_fields [OF demo_nacl_ok demo_signer demo_receipt(2) _ demo_receipt(1) [of None]]) auto
  from receipt_core_verdict [OF this(1)] this(2) show ?thesis by (simp add: dget_or_def)
qed

theorem verify_receipt_sound_witness:
  "\<exists>entries timeline bs did pk sg s. dget (demo_receipt None ''2020'') ''timeline'' = Some (PList entries) \<and> mapR parse_entry entries = Inr timeline
     \<and> timeline_bytes timeline = Inr bs \<and> decode_ed25519_did_key did = Inr pk \<and> b64u_decode sg = Inr s \<and> nacl_verify demo_nacl pk (sha256 bs) s"
  using verify_receipt_sound [OF demo_receipt_ok] by blast

lemma receipt_backdating_accepted_demo:
  "verify_receipt demo_nacl demo_iso 99 (dput (demo_receipt (Some demo_sign_token) ''2030'') ''issued_at'' (PStr ''2020'')) [] = Inr True"
  by (rule receipt_backdating_accepted [OF demo_nacl_ok demo_signer demo_receipt(2) _ demo_receipt(1) _ _ _ demo_sign_token_ok(1) demo_did1 demo_sign_token_ok(2)])
    (simp_all add: demo_iso_def demo_sign_token_ok(3))

lemma receipt_chain_linear_demo:
  "\<exists>ls. mset [demo_receipt None ''2020''] = mset ls \<and> linked content_hash_of prev_hash_of ls"
proof -
  let ?r = "demo_receipt None ''2020''"
  obtain pk t where c: "receipt_core demo_nacl ?r pk t" "chain_linked demo_timeline [] 7 = Inr t"
    "dget ?r ''timeline'' = Some (PList (map (\<lambda>e. PDict (entry_to_dict e)) t))"
    by (rule signed_receipt_fields [OF demo_nacl_ok demo_signer demo_receipt(2) _ demo_receipt(1) [of None]]) auto
  have p: "extract_prev_content_hash ?r = Inr []"
  proof -
    have "t = demo_timeline" using c(2) by (simp add: chain_linked_def)
    with c(3) show ?thesis by (simp add: extract_prev_content_hash_def demo_timeline_def entry_to_dict_def obj_def dget_or_def type_nth_chain_link_def)
  qed
  obtain did where did: "dget ?r ''signer_did'' = Some (PStr did)" "did \<noteq> []"
    using c(1) did_length_pos by (auto simp: receipt_core_def decode_did_iff)
  have "verify_receipt_chain demo_nacl demo_iso 99 [?r] = Inr True"
    using did by (simp add: verify_receipt_chain_def one_signer_def demo_receipt_ok p dget_or_def hashable_def)
  from receipt_chain_linear [OF this] obtain ls loop where l: "mset [?r] = mset (ls @ loop)" "linked content_hash_of prev_hash_of ls"
    by blast
  have "ls \<noteq> []" using l(2) by (simp add: linked_def)
  then have "loop = []" using arg_cong [OF l(1), of size] by (cases ls) auto
  then show ?thesis using l by auto
qed

end
