(* ===== verification/Vocabulary.thy ===== *)
theory Vocabulary
  imports Py_Value
begin

text \<open>
  \<open>nth_dao/market/vocabulary.py\<close>: the normal form of capability names that publishers and agents share.
\<close>

section \<open>Normal forms\<close>

text \<open>\<open>re.sub(r"[...]+", "_", s)\<close>: every maximal run of matching characters becomes one underscore.\<close>

function sub_runs :: "(char \<Rightarrow> bool) \<Rightarrow> string \<Rightarrow> string" where
  "sub_runs P [] = []"
| "sub_runs P (c # s) = (if P c then CHR ''_'' # sub_runs P (dropWhile P s) else c # sub_runs P s)"
  by pat_completeness auto

termination
  by (relation "measure (\<lambda>(P, s). length s)") (auto simp: less_Suc_eq_le length_dropWhile_le)

definition normalize_text :: "string \<Rightarrow> string" where
  "normalize_text raw =
     strip_char (\<lambda>c. c = CHR ''_'') (sub_runs (\<lambda>c. c = CHR ''_'') (sub_runs (\<lambda>c. py_isspace c \<or> c = CHR ''-'') (py_lower (py_strip raw))))"

definition normalize_capability :: "pyval \<Rightarrow> string" where
  "normalize_capability raw = (case raw of PStr s \<Rightarrow> normalize_text s | _ \<Rightarrow> [])"

definition cap_char :: "char \<Rightarrow> bool" where
  "cap_char c \<longleftrightarrow> c \<in> set ''abcdefghijklmnopqrstuvwxyz0123456789_''"

text \<open>\<open>^[a-z0-9_]{1,64}$\<close> under \<open>re.match\<close>: the dollar sign also matches before a final newline.\<close>

definition cap_re :: "string \<Rightarrow> bool" where
  "cap_re s \<longleftrightarrow> (let t = if s \<noteq> [] \<and> List.last s = CHR 0x0A then butlast s else s in
     1 \<le> length t \<and> length t \<le> 64 \<and> list_all cap_char t)"

definition validate_capability :: "pyval \<Rightarrow> bool \<times> string" where
  "validate_capability raw =
     (let norm = normalize_capability raw in
      if norm = [] then (False, ''capability-empty'')
      else if \<not> cap_re norm then (False, ''capability-bad-shape'')
      else (True, []))"

definition known_skills :: "string list" where
  "known_skills = [''code_review'', ''bug_fix'', ''test_execution'', ''static_analysis'', ''research'', ''write_docs'', ''deploy'',
     ''translation'', ''data_labeling'', ''summarize'']"

definition is_known_skill :: "pyval \<Rightarrow> bool" where
  "is_known_skill cap \<longleftrightarrow> normalize_capability cap \<in> set known_skills"

section \<open>Normalizing is idempotent\<close>

lemma sub_runs_set: "c \<in> set (sub_runs P s) \<Longrightarrow> c = CHR ''_'' \<or> (c \<in> set s \<and> \<not> P c)"
  by (induction P s rule: sub_runs.induct) (auto split: if_splits dest: set_dropWhileD)

lemma sub_runs_id: "\<forall>c \<in> set s. \<not> P c \<Longrightarrow> sub_runs P s = s"
  by (induction s) auto

fun single :: "string \<Rightarrow> bool" where
  "single (a # b # s) \<longleftrightarrow> \<not> (a = CHR ''_'' \<and> b = CHR ''_'') \<and> single (b # s)"
| "single _ \<longleftrightarrow> True"

lemma single_Cons: "single (c # s) \<longleftrightarrow> (s = [] \<or> \<not> (c = CHR ''_'' \<and> hd s = CHR ''_'')) \<and> single s"
  by (cases s) auto

lemma hd_sub_runs: "s \<noteq> [] \<Longrightarrow> \<not> P (hd s) \<Longrightarrow> hd (sub_runs P s) = hd s"
  by (cases s) auto

lemma sub_runs_Nil [simp]: "sub_runs P s = [] \<longleftrightarrow> s = []"
  by (cases s) auto

lemma sub_runs_single: "single (sub_runs (\<lambda>c. c = CHR ''_'') s)"
proof (induction "\<lambda>c. c = CHR ''_''" s rule: sub_runs.induct)
  case (2 c s)
  let ?t = "dropWhile (\<lambda>c. c = CHR ''_'') s"
  have "?t \<noteq> [] \<Longrightarrow> hd ?t \<noteq> CHR ''_''" using hd_dropWhile [of "\<lambda>c. c = CHR ''_''" s] by auto
  then have "?t \<noteq> [] \<Longrightarrow> hd (sub_runs (\<lambda>c. c = CHR ''_'') ?t) \<noteq> CHR ''_''" using hd_sub_runs [of ?t "\<lambda>c. c = CHR ''_''"] by simp
  then show ?case using 2 by (auto simp: single_Cons)
qed simp

lemma sub_runs_single_id: "single s \<Longrightarrow> sub_runs (\<lambda>c. c = CHR ''_'') s = s"
proof (induction s)
  case (Cons c s)
  then show ?case by (cases s) (auto simp: single_Cons)
qed simp


lemma single_append: "single (a @ b) \<Longrightarrow> single a \<and> single b"
  by (induction a) (auto simp: single_Cons split: if_splits)

lemma strip_char_infix: "\<exists>a b. s = a @ strip_char P s @ b"
proof -
  let ?m = "dropWhile P s"
  have "?m = strip_char P s @ rev (takeWhile P (rev ?m))"
    unfolding strip_char_def by (metis rev_append rev_rev_ident takeWhile_dropWhile_id)
  then have "s = takeWhile P s @ strip_char P s @ rev (takeWhile P (rev ?m))" by (metis takeWhile_dropWhile_id)
  then show ?thesis by blast
qed

lemma strip_char_ends: "strip_char P s \<noteq> [] \<Longrightarrow> \<not> P (hd (strip_char P s)) \<and> \<not> P (List.last (strip_char P s))"
proof
  let ?m = "dropWhile P s"
  assume ne: "strip_char P s \<noteq> []"
  have m: "dropWhile P (rev ?m) \<noteq> []" using ne unfolding strip_char_def by simp
  show "\<not> P (List.last (strip_char P s))" using hd_dropWhile [OF m] m by (simp add: strip_char_def last_rev)
  have "?m = strip_char P s @ rev (takeWhile P (rev ?m))"
    unfolding strip_char_def by (metis rev_append rev_rev_ident takeWhile_dropWhile_id)
  then have "hd ?m = hd (strip_char P s)" using ne by (metis hd_append2)
  moreover have "?m \<noteq> []" using m by (metis dropWhile.simps(1) rev.simps(1))
  ultimately show "\<not> P (hd (strip_char P s))" using hd_dropWhile [of P s] by simp
qed

lemma strip_char_id: "s = [] \<or> (\<not> P (hd s) \<and> \<not> P (List.last s)) \<Longrightarrow> strip_char P s = s"
proof (cases "s = []")
  case False
  assume "s = [] \<or> (\<not> P (hd s) \<and> \<not> P (List.last s))"
  then have "dropWhile P s = s" "dropWhile P (rev s) = rev s" using False by (auto simp: dropWhile_eq_self_iff hd_rev)
  then show ?thesis by (simp add: strip_char_def)
qed (simp add: strip_char_def)

lemma set_strip_char: "set (strip_char P s) \<subseteq> set s"
  using strip_char_infix [of s P] by (metis Un_commute le_supI1 set_append sup_ge1)

definition normal :: "string \<Rightarrow> bool" where
  "normal s \<longleftrightarrow> (\<forall>c \<in> set s. \<not> py_isspace c \<and> c \<noteq> CHR ''-'' \<and> lower_char c = c) \<and> single s
     \<and> (s = [] \<or> (hd s \<noteq> CHR ''_'' \<and> List.last s \<noteq> CHR ''_''))"

lemma lower_char_idem [simp]: "lower_char (lower_char c) = lower_char c"
  by (auto simp: lower_char_def Let_def)

lemma underscore_plain: "\<not> py_isspace (CHR ''_'')" "lower_char (CHR ''_'') = CHR ''_''" "CHR ''_'' \<noteq> CHR ''-''"
  by (simp_all add: py_isspace_def lower_char_def Let_def)

lemma normalize_text_normal: "normal (normalize_text raw)"
proof -
  let ?u = "\<lambda>c. c = CHR ''_''" and ?sp = "\<lambda>c. py_isspace c \<or> c = CHR ''-''"
  define t where "t = sub_runs ?u (sub_runs ?sp (py_lower (py_strip raw)))"
  have n: "normalize_text raw = strip_char ?u t" by (simp add: normalize_text_def t_def)
  have c: "\<not> py_isspace c \<and> c \<noteq> CHR ''-'' \<and> lower_char c = c" if "c \<in> set (strip_char ?u t)" for c
  proof -
    have "c \<in> set t" using that set_strip_char by blast
    then have "c = CHR ''_'' \<or> c \<in> set (sub_runs ?sp (py_lower (py_strip raw)))" unfolding t_def using sub_runs_set by blast
    then have "c = CHR ''_'' \<or> (c \<in> set (py_lower (py_strip raw)) \<and> \<not> ?sp c)" using sub_runs_set by blast
    then show ?thesis using underscore_plain by (elim disjE) (auto simp: py_lower_def)
  qed
  have "single t" unfolding t_def by (rule sub_runs_single)
  then have "single (strip_char ?u t)" by (metis single_append strip_char_infix)
  then show ?thesis using c strip_char_ends [of ?u t] by (auto simp: normal_def n)
qed

lemma normal_fixed: "normal s \<Longrightarrow> normalize_text s = s"
proof -
  assume n: "normal s"
  then have "\<forall>c \<in> set s. \<not> py_isspace c" unfolding normal_def by blast
  then have "py_strip s = s" unfolding py_strip_def by (intro strip_char_id) (metis hd_in_set last_in_set)
  moreover have "py_lower s = s" using n by (simp add: py_lower_def normal_def map_idI)
  moreover have "sub_runs (\<lambda>c. py_isspace c \<or> c = CHR ''-'') s = s" using n by (intro sub_runs_id) (auto simp: normal_def)
  moreover have "sub_runs (\<lambda>c. c = CHR ''_'') s = s" using n by (simp add: normal_def sub_runs_single_id)
  moreover have "strip_char (\<lambda>c. c = CHR ''_'') s = s" using n unfolding normal_def by (intro strip_char_id) blast
  ultimately show ?thesis by (simp add: normalize_text_def)
qed

text \<open>Normalizing is idempotent, and its results are exactly the names in normal form: lower case, without white space or
  hyphens, without doubled underscores and without an underscore at either end.\<close>

lemma normalize_idempotent:
  "normalize_capability (PStr (normalize_capability raw)) = normalize_capability raw" "normal (normalize_capability raw)"
proof -
  show n: "normal (normalize_capability raw)"
    using normalize_text_normal by (cases raw) (simp_all add: normalize_capability_def, simp_all add: normal_def)
  show "normalize_capability (PStr (normalize_capability raw)) = normalize_capability raw"
    using normal_fixed [OF n] by (simp add: normalize_capability_def)
qed

lemma normal_range: "normal s \<longleftrightarrow> s \<in> range normalize_capability"
proof
  assume "normal s"
  then have "s = normalize_capability (PStr s)" by (simp add: normal_fixed normalize_capability_def)
  then show "s \<in> range normalize_capability" by (rule range_eqI)
qed (auto simp: normalize_idempotent(2))

end
