(* ===== verification/Announcement.thy ===== *)
theory Announcement
  imports Identity Vocabulary Json_Size
begin

text \<open>
  \<open>nth_dao/market/announcement.py\<close>: signed task announcements. The dataclass does not check the types of its fields, so a
  field is any value until \<open>_validate_announcement_schema\<close> has run; only a set membership test can raise before that.
  The clock and fresh identifiers are arguments. \<open>sign_announcement\<close> takes its keyword arguments as a record of the same fields.
\<close>

section \<open>Constants\<close>

definition ann_kind_v1 :: string where
  "ann_kind_v1 = ''nth-task-announcement-v1''"

definition ann_kind_v2 :: string where
  "ann_kind_v2 = ''nth-task-announcement-v2''"

definition ann_kind_v3 :: string where
  "ann_kind_v3 = ''nth-task-announcement-v3''"

definition trade_offer_kind_v1 :: string where
  "trade_offer_kind_v1 = ''nth-trade-offer-announcement-v1''"

definition max_signed_int :: int where
  "max_signed_int = 2 ^ 63 - 1"

definition reject_ann_schema :: string where
  "reject_ann_schema = ''ann-schema-invalid''"

definition reject_ann_did :: string where
  "reject_ann_did = ''ann-bad-publisher-did''"

definition reject_ann_field :: string where
  "reject_ann_field = ''ann-missing-field''"

definition reject_ann_decode :: string where
  "reject_ann_decode = ''ann-sig-decode-failed''"

section \<open>The announcement\<close>

record announcement =
  an_id :: pyval
  an_publisher_did :: pyval
  an_title :: pyval
  an_authority_did :: pyval
  an_listing_type :: pyval
  an_offer_digest :: pyval
  an_offer_uri :: pyval
  an_price_minor :: pyval
  an_price_asset :: pyval
  an_availability_summary :: pyval
  an_capability_set :: pyval
  an_context :: pyval
  an_input_schema :: pyval
  an_acceptance :: pyval
  an_reward_minor :: pyval
  an_reward_asset :: pyval
  an_mission_id :: pyval
  an_claimant_policy :: pyval
  an_description :: pyval
  an_published_at_ms :: pyval
  an_not_after :: pyval
  an_kind :: pyval
  an_publisher_sig :: pyval

definition ann_to_dict :: "announcement \<Rightarrow> pydict" where
  "ann_to_dict a = obj [(''announcement_id'', an_id a), (''publisher_did'', an_publisher_did a), (''title'', an_title a),
     (''authority_did'', an_authority_did a), (''listing_type'', an_listing_type a), (''offer_digest'', an_offer_digest a),
     (''offer_uri'', an_offer_uri a), (''price_minor'', an_price_minor a), (''price_asset'', an_price_asset a),
     (''availability_summary'', an_availability_summary a), (''capability_set'', an_capability_set a), (''context'', an_context a),
     (''input_schema'', an_input_schema a), (''acceptance'', an_acceptance a), (''reward_minor'', an_reward_minor a),
     (''reward_asset'', an_reward_asset a), (''mission_id'', an_mission_id a), (''claimant_policy'', an_claimant_policy a),
     (''description'', an_description a), (''published_at_ms'', an_published_at_ms a), (''not_after'', an_not_after a),
     (''kind'', an_kind a), (''publisher_sig'', an_publisher_sig a)]"

definition ann_field_names :: "string list" where
  "ann_field_names = [''announcement_id'', ''publisher_did'', ''title'', ''authority_did'', ''listing_type'', ''offer_digest'', ''offer_uri'',
     ''price_minor'', ''price_asset'', ''availability_summary'', ''capability_set'', ''context'', ''input_schema'', ''acceptance'', ''reward_minor'',
     ''reward_asset'', ''mission_id'', ''claimant_policy'', ''description'', ''published_at_ms'', ''not_after'', ''kind'', ''publisher_sig'']"

definition ann_from_fields :: "pydict \<Rightarrow> announcement" where
  "ann_from_fields d = \<lparr>an_id = dget_or d ''announcement_id'' PNone, an_publisher_did = dget_or d ''publisher_did'' PNone,
     an_title = dget_or d ''title'' PNone, an_authority_did = dget_or d ''authority_did'' (PStr []),
     an_listing_type = dget_or d ''listing_type'' (PStr []), an_offer_digest = dget_or d ''offer_digest'' (PStr []),
     an_offer_uri = dget_or d ''offer_uri'' (PStr []), an_price_minor = dget_or d ''price_minor'' (PInt 0),
     an_price_asset = dget_or d ''price_asset'' (PStr []), an_availability_summary = dget_or d ''availability_summary'' (PDict []),
     an_capability_set = dget_or d ''capability_set'' (PList []), an_context = dget_or d ''context'' (PStr ''general''),
     an_input_schema = dget_or d ''input_schema'' (PDict []), an_acceptance = dget_or d ''acceptance'' (PDict []),
     an_reward_minor = dget_or d ''reward_minor'' (PInt 0), an_reward_asset = dget_or d ''reward_asset'' (PStr ''credit''),
     an_mission_id = dget_or d ''mission_id'' (PStr []), an_claimant_policy = dget_or d ''claimant_policy'' (PDict []),
     an_description = dget_or d ''description'' (PStr []), an_published_at_ms = dget_or d ''published_at_ms'' (PInt 0),
     an_not_after = dget_or d ''not_after'' (PInt 0), an_kind = dget_or d ''kind'' (PStr ann_kind_v2),
     an_publisher_sig = dget_or d ''publisher_sig'' (PStr [])\<rparr>"

definition ann_from_dict :: "pyval \<Rightarrow> announcement res" where
  "ann_from_dict data = (case data of
     PDict d \<Rightarrow>
       ensure (set (map fst d) \<subseteq> PStr ` set ann_field_names) ValueError ''announcement has unknown fields'' (
       ensure (dhas d ''announcement_id'' \<and> dhas d ''publisher_did'' \<and> dhas d ''title'') TypeError ''missing required positional arguments'' (
       Inr (ann_from_fields d)))
   | _ \<Rightarrow> raise ValueError ''announcement has unknown fields'')"

text \<open>\<open>v in {...}\<close> for a set of texts: the value has to be hashable.\<close>

definition in_str_set :: "pyval \<Rightarrow> string list \<Rightarrow> bool res" where
  "in_str_set v ks = ensure (hashable v) TypeError ''unhashable type'' (Inr (v \<in> PStr ` set ks))"

definition legacy_dropped :: "string list" where
  "legacy_dropped = [''listing_type'', ''offer_digest'', ''offer_uri'', ''price_minor'', ''price_asset'', ''availability_summary'']"

definition ann_signing_body :: "announcement \<Rightarrow> pydict res" where
  "ann_signing_body a =
     bindR (in_str_set (an_kind a) [ann_kind_v1, ann_kind_v2]) (\<lambda>legacy.
       let body = without_key ''publisher_sig'' (ann_to_dict a);
           body = (if legacy then fold without_key legacy_dropped body else body) in
       Inr (if an_kind a = PStr ann_kind_v1 then without_key ''authority_did'' body else body))"

definition effective_authority_did :: "announcement \<Rightarrow> pyval" where
  "effective_authority_did a = (if an_kind a = PStr ann_kind_v1 then an_publisher_did a else an_authority_did a)"

definition is_expired :: "announcement \<Rightarrow> int \<Rightarrow> bool res" where
  "is_expired a now = (if \<not> truthy (an_not_after a) then Inr False else int_above now (an_not_after a))"

definition announcement_federation_key :: "announcement \<Rightarrow> string res" where
  "announcement_federation_key a =
     bindR (ann_signing_body a) (\<lambda>body. bindR (canonical_json (PDict body)) (\<lambda>bs. Inr (''nth-ann-sha256:'' @ sha256_hex bs)))"

section \<open>The schema\<close>

definition bounded_text :: "pyval \<Rightarrow> nat \<Rightarrow> nat \<Rightarrow> bool" where
  "bounded_text v lo hi \<longleftrightarrow> (case v of PStr s \<Rightarrow> lo \<le> length (utf8 s) \<and> length (utf8 s) \<le> hi | _ \<Rightarrow> False)"

definition bounded_json_object :: "pyval \<Rightarrow> nat \<Rightarrow> bool" where
  "bounded_json_object v maximum \<longleftrightarrow> is_dict v \<and> (case canonical_json v of Inr bs \<Rightarrow> length bs \<le> maximum | Inl _ \<Rightarrow> False)"

definition valid_non_negative_int :: "pyval \<Rightarrow> bool" where
  "valid_non_negative_int v \<longleftrightarrow> (case strict_int v of Some i \<Rightarrow> 0 \<le> i \<and> i \<le> max_signed_int | None \<Rightarrow> False)"

text \<open>\<open>str.isprintable\<close> below code point 256: no control characters, no-break space or soft hyphen.\<close>

definition py_isprintable :: "string \<Rightarrow> bool" where
  "py_isprintable s \<longleftrightarrow> list_all (\<lambda>c. let n = of_char c :: nat in (32 \<le> n \<and> n \<le> 126) \<or> (161 \<le> n \<and> n \<noteq> 173)) s"

definition id_first_char :: "char \<Rightarrow> bool" where
  "id_first_char c \<longleftrightarrow> c \<in> set ''ABCDEFGHIJKLMNOPQRSTUVWXYZabcdefghijklmnopqrstuvwxyz0123456789_:-''"

definition announcement_id_pattern :: "string \<Rightarrow> bool" where
  "announcement_id_pattern s \<longleftrightarrow> (case s of [] \<Rightarrow> False | c # r \<Rightarrow> id_first_char c \<and> length r \<le> 255 \<and> list_all (\<lambda>d. id_first_char d \<or> d = CHR ''.'') r)"

definition offer_digest_pattern :: "pyval \<Rightarrow> bool" where
  "offer_digest_pattern v \<longleftrightarrow> (case v of
     PStr s \<Rightarrow> startswith s ''sha256:'' \<and> length s = 71 \<and> list_all is_lower_hex (drop 7 s) | _ \<Rightarrow> False)"

definition valid_announcement_id :: "announcement \<Rightarrow> bool" where
  "valid_announcement_id a \<longleftrightarrow> (case an_id a of
     PStr s \<Rightarrow> bounded_text (an_id a) 1 256 \<and> s \<noteq> ''.'' \<and> s \<noteq> ''..''
       \<and> (if an_kind a = PStr ann_kind_v1 then py_isprintable s else announcement_id_pattern s)
   | _ \<Rightarrow> False)"

text \<open>The parts of \<open>_validate_announcement_schema\<close> in its order; \<open>None\<close> goes on, \<open>Some r\<close> is the reason for rejecting.\<close>

definition reject_unless :: "bool \<Rightarrow> string \<Rightarrow> string option" where
  "reject_unless b r = (if b then None else Some r)"

definition schema_identity :: "announcement \<Rightarrow> string option res" where
  "schema_identity a =
     bindR (in_str_set (an_kind a) [ann_kind_v1, ann_kind_v2, ann_kind_v3, trade_offer_kind_v1]) (\<lambda>known.
     let authority = effective_authority_did a in
     Inr (if \<not> known \<or> \<not> valid_announcement_id a then Some reject_ann_schema
       else reject_unless (bounded_text (an_publisher_did a) 1 128 \<and> is_did_key (an_publisher_did a)
         \<and> bounded_text authority 1 128 \<and> is_did_key authority) reject_ann_did))"

definition schema_v3 :: "announcement \<Rightarrow> bool res" where
  "schema_v3 a =
     bindR (in_str_set (an_listing_type a) [''product'', ''service'']) (\<lambda>known.
     Inr (known \<and> offer_digest_pattern (an_offer_digest a) \<and> bounded_text (an_offer_uri a) 1 2048
       \<and> valid_non_negative_int (an_price_minor a) \<and> bounded_text (an_price_asset a) 1 64
       \<and> bounded_json_object (an_availability_summary a) 4096
       \<and> py_eq (an_price_minor a) (an_reward_minor a) \<and> py_eq (an_price_asset a) (an_reward_asset a)))"

definition schema_trade_offer :: "announcement \<Rightarrow> bool" where
  "schema_trade_offer a \<longleftrightarrow>
     an_listing_type a = PStr ''exchange'' \<and> offer_digest_pattern (an_offer_digest a) \<and> bounded_text (an_offer_uri a) 1 2048
     \<and> an_offer_uri a = PStr (''/api/v2/trade/federation/offers/'' @ py_str (an_offer_digest a))
     \<and> py_eq (an_price_minor a) (PInt 0) \<and> an_price_asset a = PStr []
     \<and> py_eq (an_reward_minor a) (PInt 0) \<and> an_reward_asset a = PStr ''exchange''
     \<and> bounded_json_object (an_availability_summary a) 4096
     \<and> (case an_availability_summary a of
          PDict s \<Rightarrow> bounded_text (dget_or s ''offer_id'' PNone) 3 256
            \<and> (case strict_int (dget_or s ''revision'' PNone) of Some i \<Rightarrow> 1 \<le> i \<and> i \<le> 2147483647 | None \<Rightarrow> False)
            \<and> dget_or s ''state'' PNone = PStr ''active''
        | _ \<Rightarrow> False)"

definition schema_legacy :: "announcement \<Rightarrow> bool" where
  "schema_legacy a \<longleftrightarrow> an_listing_type a = PStr [] \<and> an_offer_digest a = PStr [] \<and> an_offer_uri a = PStr []
     \<and> py_eq (an_price_minor a) (PInt 0) \<and> an_price_asset a = PStr [] \<and> py_eq (an_availability_summary a) (PDict [])"

definition schema_listing :: "announcement \<Rightarrow> bool res" where
  "schema_listing a =
     (if an_kind a = PStr ann_kind_v3 then schema_v3 a
      else Inr (if an_kind a = PStr trade_offer_kind_v1 then schema_trade_offer a else schema_legacy a))"

definition schema_body :: "announcement \<Rightarrow> bool" where
  "schema_body a \<longleftrightarrow>
     bounded_text (an_title a) 1 512 \<and> bounded_text (an_description a) 0 65536
     \<and> (case an_capability_set a of PList caps \<Rightarrow> length caps \<le> 64 \<and> list_all (\<lambda>c. bounded_text c 1 128) caps | _ \<Rightarrow> False)
     \<and> bounded_text (an_context a) 1 128 \<and> bounded_json_object (an_input_schema a) 65536
     \<and> bounded_json_object (an_acceptance a) 65536 \<and> bounded_json_object (an_claimant_policy a) 65536
     \<and> valid_non_negative_int (an_reward_minor a) \<and> bounded_text (an_reward_asset a) 1 64 \<and> bounded_text (an_mission_id a) 0 256
     \<and> valid_non_negative_int (an_published_at_ms a) \<and> valid_non_negative_int (an_not_after a)"

definition schema_signature :: "announcement \<Rightarrow> string option" where
  "schema_signature a =
     (if \<not> bounded_text (an_publisher_sig a) 1 128 then Some reject_ann_field
      else case b64u_decode (py_str (an_publisher_sig a)) of
        Inr decoded \<Rightarrow> reject_unless (length decoded = 64 \<and> b64u_encode decoded = py_str (an_publisher_sig a)) reject_ann_decode
      | Inl _ \<Rightarrow> Some reject_ann_decode)"

definition validate_announcement_schema :: "announcement \<Rightarrow> bool \<Rightarrow> (bool \<times> string) res" where
  "validate_announcement_schema a require_signature =
     bindR (schema_identity a) (\<lambda>r. case r of
       Some reason \<Rightarrow> Inr (False, reason)
     | None \<Rightarrow> bindR (schema_listing a) (\<lambda>ok.
         if \<not> ok \<or> \<not> schema_body a then Inr (False, reject_ann_schema)
         else case (if require_signature then schema_signature a else None) of
           Some reason \<Rightarrow> Inr (False, reason)
         | None \<Rightarrow> Inr (True, [])))"

section \<open>Signing and verifying\<close>

definition ann_caps :: "pyval \<Rightarrow> string list res" where
  "ann_caps capability_set =
     bindR (if truthy capability_set then py_iter capability_set else Inr []) (\<lambda>cs.
     bindR (mapR (\<lambda>c. case c of
         PStr s \<Rightarrow> ensure (py_strip s \<noteq> []) ValueError (''capability_set entries must be non-empty strings; got '' @ py_repr c) (Inr (py_strip s))
       | _ \<Rightarrow> raise ValueError (''capability_set entries must be non-empty strings; got '' @ py_repr c)) cs) (\<lambda>caps.
     Inr (sort (remdups caps))))"

definition resolve_context :: "pyval \<Rightarrow> string list \<Rightarrow> string" where
  "resolve_context context caps =
     (let resolved = (case context of PStr s \<Rightarrow> py_strip s | _ \<Rightarrow> []) in
      if resolved \<noteq> [] then resolved else case caps of c # _ \<Rightarrow> c | [] \<Rightarrow> ''general'')"

definition dict_or_empty :: "pyval \<Rightarrow> pydict res" where
  "dict_or_empty v = (if truthy v then py_dict v else Inr [])"

definition ann_or :: "pyval \<Rightarrow> pyval \<Rightarrow> pyval" where
  "ann_or v w = (if truthy v then v else w)"

definition draft_announcement :: "announcement \<Rightarrow> identity \<Rightarrow> string \<Rightarrow> int \<Rightarrow> announcement res" where
  "draft_announcement args publisher fresh_id now =
     ensure (case an_title args of PStr s \<Rightarrow> py_strip s \<noteq> [] | _ \<Rightarrow> False) ValueError ''announcement title must be a non-empty string'' (
     case strict_int (an_reward_minor args) of
       None \<Rightarrow> raise ValueError ''reward_minor must be a non-bool int (minor units)''
     | Some reward \<Rightarrow>
       ensure (0 \<le> reward) ValueError (''reward_minor must be >= 0; got '' @ int_str reward) (
       bindR (ann_caps (an_capability_set args)) (\<lambda>caps.
       bindR (if truthy (an_authority_did args) then Inr (an_authority_did args) else bindR (as_did publisher) (\<lambda>did. Inr (PStr did))) (\<lambda>authority.
       ensure (is_did_key authority) ValueError ''authority_did must be an Ed25519 did:key identifier'' (
       bindR (as_did publisher) (\<lambda>publisher_did.
       bindR (dict_or_empty (an_availability_summary args)) (\<lambda>availability.
       bindR (dict_or_empty (an_input_schema args)) (\<lambda>input_schema.
       bindR (dict_or_empty (an_acceptance args)) (\<lambda>acceptance.
       bindR (dict_or_empty (an_claimant_policy args)) (\<lambda>policy.
       Inr (args\<lparr>an_id := ann_or (an_id args) (PStr fresh_id), an_publisher_did := PStr publisher_did, an_authority_did := authority,
         an_availability_summary := PDict availability, an_capability_set := PList (map PStr caps),
         an_context := PStr (resolve_context (an_context args) caps), an_input_schema := PDict input_schema, an_acceptance := PDict acceptance,
         an_claimant_policy := PDict policy, an_published_at_ms := ann_or (an_published_at_ms args) (PInt now), an_publisher_sig := PStr []\<rparr>)))))))))))"

definition sign_announcement :: "nacl \<Rightarrow> identity \<Rightarrow> announcement \<Rightarrow> string \<Rightarrow> int \<Rightarrow> announcement res" where
  "sign_announcement n publisher args fresh_id now =
     bindR (draft_announcement args publisher fresh_id now) (\<lambda>a.
     bindR (validate_announcement_schema a False) (\<lambda>(ok, reason).
     ensure ok ValueError (''invalid announcement schema: '' @ reason) (
     bindR (ann_signing_body a) (\<lambda>body.
     bindR (canonical_json (PDict body)) (\<lambda>bs.
     bindR (identity_sign n publisher bs) (\<lambda>s.
     Inr (a\<lparr>an_publisher_sig := PStr (b64u_encode s)\<rparr>)))))))"

definition ann_required :: "announcement \<Rightarrow> pyval list" where
  "ann_required a = [an_kind a, an_id a, an_publisher_did a, an_title a, an_publisher_sig a]"

definition ann_blank :: "pyval \<Rightarrow> bool" where
  "ann_blank v \<longleftrightarrow> (case v of PNone \<Rightarrow> True | PStr s \<Rightarrow> py_strip s = [] | _ \<Rightarrow> False)"

definition verify_announcement :: "nacl \<Rightarrow> announcement \<Rightarrow> (bool \<times> string) res" where
  "verify_announcement n a =
     (if \<not> nacl_available n then Inr (False, ''ann-crypto-unavailable'')
      else if list_ex ann_blank (ann_required a) then Inr (False, reject_ann_field)
      else bindR (validate_announcement_schema a True) (\<lambda>(schema_ok, schema_reason).
        if \<not> schema_ok then Inr (False, schema_reason)
        else case decode_ed25519_did_key (py_str (an_publisher_did a)) of
          Inl _ \<Rightarrow> Inr (False, reject_ann_did)
        | Inr pk \<Rightarrow> (case b64u_decode (py_str (an_publisher_sig a)) of
            Inl _ \<Rightarrow> Inr (False, reject_ann_decode)
          | Inr sig_bytes \<Rightarrow> (case bindR (ann_signing_body a) (\<lambda>body. canonical_json (PDict body)) of
              Inl _ \<Rightarrow> Inr (False, ''ann-sig-invalid'')
            | Inr bs \<Rightarrow> if nacl_verify n pk bs sig_bytes then Inr (True, []) else Inr (False, ''ann-sig-invalid'')))))"

definition announcement_listing_type :: "announcement \<Rightarrow> pyval res" where
  "announcement_listing_type a =
     bindR (in_str_set (an_kind a) [ann_kind_v3, trade_offer_kind_v1]) (\<lambda>typed.
     if typed then Inr (an_listing_type a)
     else let schema = (case an_input_schema a of PDict d \<Rightarrow> d | _ \<Rightarrow> []);
              value_found = dget_or schema ''__nth_listing_type'' (dget_or schema ''listing_type'' (PStr ''task'')) in
       bindR (in_str_set value_found [''task'', ''service'', ''product'']) (\<lambda>ok. Inr (if ok then value_found else PStr ''task'')))"


section \<open>What a verified announcement guarantees\<close>

text \<open>The types and bounds of the fields of an announcement that passed the schema.\<close>

definition ann_typed :: "announcement \<Rightarrow> bool" where
  "ann_typed a \<longleftrightarrow> (\<exists>aid did pk caps reward asset mid policy published not_after.
     an_id a = PStr aid \<and> aid \<noteq> [] \<and> an_publisher_did a = PStr did \<and> decode_ed25519_did_key did = Inr pk
     \<and> an_capability_set a = PList (map PStr caps) \<and> an_reward_minor a = PInt reward \<and> 0 \<le> reward \<and> reward \<le> max_signed_int
     \<and> an_reward_asset a = PStr asset \<and> an_mission_id a = PStr mid \<and> an_claimant_policy a = PDict policy
     \<and> an_published_at_ms a = PInt published \<and> 0 \<le> published
     \<and> an_not_after a = PInt not_after \<and> 0 \<le> not_after \<and> is_str (an_kind a) \<and> is_str (effective_authority_did a))"

lemma bounded_textD: "bounded_text v lo hi \<Longrightarrow> \<exists>s. v = PStr s \<and> lo \<le> length (utf8 s)"
  by (cases v) (simp_all add: bounded_text_def)

lemma bounded_text_Nil: "\<not> bounded_text (PStr []) 1 hi"
  by (simp add: bounded_text_def utf8_def)

lemma bounded_texts: "list_all (\<lambda>c. bounded_text c 1 128) cs \<Longrightarrow> \<exists>ss. cs = map PStr ss"
proof (induction cs)
  case (Cons c cs)
  then obtain s ss where "c = PStr s" "cs = map PStr ss" using bounded_textD [of c 1 128] by auto
  then show ?case by (metis list.simps(9))
qed simp

lemma valid_intD: "valid_non_negative_int v \<Longrightarrow> \<exists>i. v = PInt i \<and> 0 \<le> i \<and> i \<le> max_signed_int"
  by (cases v) (simp_all add: valid_non_negative_int_def strict_int_def)

lemma is_did_keyD: "is_did_key v \<Longrightarrow> \<exists>did pk. v = PStr did \<and> decode_ed25519_did_key did = Inr pk"
  by (cases v) (auto simp: is_did_key_def split: sum.splits)

lemma schema_ok:
  assumes "validate_announcement_schema a b = Inr (True, r)"
  shows "schema_identity a = Inr None" "schema_listing a = Inr True" "schema_body a" "b \<Longrightarrow> schema_signature a = None" "r = []"
  using assms by (auto simp: validate_announcement_schema_def bindR_Inr_iff split: option.splits if_splits)

lemma schema_typed:
  assumes "validate_announcement_schema a b = Inr (True, r)"
  shows "ann_typed a"
proof -
  note s = schema_ok [OF assms]
  have i: "valid_announcement_id a" "is_did_key (an_publisher_did a)" "is_did_key (effective_authority_did a)" "is_str (an_kind a)"
    using s(1) by (auto simp: schema_identity_def in_str_set_def bindR_Inr_iff ensure_Inr_iff reject_unless_def is_str_def Let_def split: if_splits)
  obtain aid where aid: "an_id a = PStr aid" "aid \<noteq> []"
    using i(1) bounded_text_Nil [of 256] by (cases "an_id a") (auto simp: valid_announcement_id_def)
  obtain did pk where did: "an_publisher_did a = PStr did" "decode_ed25519_did_key did = Inr pk" using is_did_keyD [OF i(2)] by blast
  obtain cs where cs: "an_capability_set a = PList cs" "list_all (\<lambda>c. bounded_text c 1 128) cs"
    using s(3) by (cases "an_capability_set a") (auto simp: schema_body_def)
  obtain caps where caps: "cs = map PStr caps" using bounded_texts [OF cs(2)] by blast
  have ints: "valid_non_negative_int (an_reward_minor a)" "valid_non_negative_int (an_published_at_ms a)" "valid_non_negative_int (an_not_after a)"
    and texts: "bounded_text (an_reward_asset a) 1 64" "bounded_text (an_mission_id a) 0 256" and pol: "is_dict (an_claimant_policy a)"
    using s(3) by (auto simp: schema_body_def bounded_json_object_def)
  obtain reward published not_after where "an_reward_minor a = PInt reward" "0 \<le> reward" "reward \<le> max_signed_int"
    "an_published_at_ms a = PInt published" "0 \<le> published" "an_not_after a = PInt not_after" "0 \<le> not_after"
    using valid_intD [OF ints(1)] valid_intD [OF ints(2)] valid_intD [OF ints(3)] by blast
  moreover obtain asset mid where "an_reward_asset a = PStr asset" "an_mission_id a = PStr mid"
    using bounded_textD [OF texts(1)] bounded_textD [OF texts(2)] by blast
  moreover obtain policy where "an_claimant_policy a = PDict policy" using pol by (cases "an_claimant_policy a") (simp_all add: is_dict_def)
  moreover have "is_str (effective_authority_did a)" using is_did_keyD [OF i(3)] by (auto simp: is_str_def)
  ultimately show ?thesis unfolding ann_typed_def using aid did cs(1) caps i(4) by blast
qed

text \<open>The keys of every signed field at every kind, and what the body leaves out.\<close>

lemma dget_fold_without: "dget (fold without_key ks d) k = (if k \<in> set ks then None else dget d k)"
  by (induction ks arbitrary: d) auto

lemma verified_announcementE:
  assumes "verify_announcement n a = Inr (True, r)"
  obtains did pk body bs s where "an_publisher_did a = PStr did" "decode_ed25519_did_key did = Inr pk"
    "ann_signing_body a = Inr body" "canonical_json (PDict body) = Inr bs"
    "an_publisher_sig a = PStr (b64u_encode s)" "length s = 64" "nacl_verify n pk bs s" "ann_typed a"
    "validate_announcement_schema a True = Inr (True, [])" "r = []"
proof -
  have v: "validate_announcement_schema a True = Inr (True, [])"
    using assms schema_ok(5) by (auto simp: verify_announcement_def bindR_Inr_iff split: if_splits)
  note s = schema_ok [OF v]
  have t: "ann_typed a" by (rule schema_typed [OF v])
  obtain sg where sg: "an_publisher_sig a = PStr sg" using s(4) bounded_textD by (fastforce simp: schema_signature_def split: if_splits)
  obtain d where d: "b64u_decode sg = Inr d" "length d = 64" "sg = b64u_encode d"
    using s(4) sg by (auto simp: schema_signature_def reject_unless_def split: if_splits sum.splits)
  obtain did pk where did: "an_publisher_did a = PStr did" "decode_ed25519_did_key did = Inr pk" using t by (auto simp: ann_typed_def)
  obtain bs where bs: "bindR (ann_signing_body a) (\<lambda>body. canonical_json (PDict body)) = Inr bs" "nacl_verify n pk bs d" "r = []"
    using assms v sg d did by (auto simp: verify_announcement_def split: if_splits sum.splits)
  obtain body where "ann_signing_body a = Inr body" "canonical_json (PDict body) = Inr bs" using bs(1) by (auto simp: bindR_Inr_iff)
  then show thesis using that did d sg bs t v by blast
qed

section \<open>The limits of a verified announcement\<close>

text \<open>What the limits say of the values themselves: a text of bounded size in UTF-8, an object of bounded size in canonical JSON,
  a SHA-256 digest.\<close>

definition text_within :: "pyval \<Rightarrow> nat \<Rightarrow> nat \<Rightarrow> bool" where
  "text_within v lo hi \<longleftrightarrow> (\<exists>s. v = PStr s \<and> lo \<le> length (utf8 s) \<and> length (utf8 s) \<le> hi)"

definition json_within :: "pyval \<Rightarrow> nat \<Rightarrow> bool" where
  "json_within v hi \<longleftrightarrow> (\<exists>d bs. v = PDict d \<and> canonical_json v = Inr bs \<and> length bs \<le> hi)"

definition digest_text :: "pyval \<Rightarrow> bool" where
  "digest_text v \<longleftrightarrow> (\<exists>h. v = PStr (''sha256:'' @ h) \<and> length h = 64 \<and> list_all is_lower_hex h)"

lemma bounded_text_within: "bounded_text v lo hi \<longleftrightarrow> text_within v lo hi"
  by (cases v) (auto simp: bounded_text_def text_within_def)

lemma bounded_json_within: "bounded_json_object v hi \<longleftrightarrow> json_within v hi"
  by (cases v) (auto simp: bounded_json_object_def json_within_def is_dict_def split: sum.splits)

lemma offer_digest_text: "offer_digest_pattern v \<Longrightarrow> digest_text v"
proof (cases v)
  case (PStr s)
  assume "offer_digest_pattern v"
  then have s: "startswith s ''sha256:''" "length s = 71" "list_all is_lower_hex (drop 7 s)" by (auto simp: offer_digest_pattern_def PStr)
  obtain h where "s = ''sha256:'' @ h" using s(1) unfolding startswith_iff by blast
  then show ?thesis using s(2,3) by (auto simp: digest_text_def PStr)
qed (simp_all add: offer_digest_pattern_def)

text \<open>Every limit of the schema. The price of an announcement of version 3 is its reward; that of the other kinds compares
  equal to zero, which in Python a float zero does as well.\<close>

definition ann_limits :: "announcement \<Rightarrow> bool" where
  "ann_limits a \<longleftrightarrow>
     text_within (an_id a) 1 256 \<and> an_id a \<noteq> PStr ''.'' \<and> an_id a \<noteq> PStr ''..''
     \<and> text_within (an_publisher_did a) 1 128 \<and> text_within (effective_authority_did a) 1 128
     \<and> text_within (an_title a) 1 512 \<and> text_within (an_description a) 0 65536 \<and> text_within (an_context a) 1 128
     \<and> (\<exists>caps. an_capability_set a = PList caps \<and> length caps \<le> 64 \<and> (\<forall>c \<in> set caps. text_within c 1 128))
     \<and> json_within (an_input_schema a) 65536 \<and> json_within (an_acceptance a) 65536 \<and> json_within (an_claimant_policy a) 65536
     \<and> text_within (an_reward_asset a) 1 64 \<and> text_within (an_mission_id a) 0 256
     \<and> (\<exists>r p e. an_reward_minor a = PInt r \<and> an_published_at_ms a = PInt p \<and> an_not_after a = PInt e
        \<and> r \<in> {0 .. max_signed_int} \<and> p \<in> {0 .. max_signed_int} \<and> e \<in> {0 .. max_signed_int})"

definition ann_offer_limits :: "announcement \<Rightarrow> bool" where
  "ann_offer_limits a \<longleftrightarrow>
     (if an_kind a = PStr ann_kind_v3 then
        an_listing_type a \<in> {PStr ''product'', PStr ''service''} \<and> digest_text (an_offer_digest a) \<and> text_within (an_offer_uri a) 1 2048
        \<and> an_price_minor a = an_reward_minor a \<and> an_price_asset a = an_reward_asset a \<and> json_within (an_availability_summary a) 4096
      else if an_kind a = PStr trade_offer_kind_v1 then
        an_listing_type a = PStr ''exchange'' \<and> digest_text (an_offer_digest a)
        \<and> an_offer_uri a = PStr (''/api/v2/trade/federation/offers/'' @ py_str (an_offer_digest a))
        \<and> py_eq (an_price_minor a) (PInt 0) \<and> an_price_asset a = PStr [] \<and> an_reward_minor a = PInt 0 \<and> an_reward_asset a = PStr ''exchange''
        \<and> json_within (an_availability_summary a) 4096
        \<and> (\<exists>s rev. an_availability_summary a = PDict s \<and> text_within (dget_or s ''offer_id'' PNone) 3 256
             \<and> dget s ''revision'' = Some (PInt rev) \<and> rev \<in> {1 .. 2147483647} \<and> dget s ''state'' = Some (PStr ''active''))
      else an_kind a \<in> {PStr ann_kind_v1, PStr ann_kind_v2}
        \<and> an_listing_type a = PStr [] \<and> an_offer_digest a = PStr [] \<and> an_offer_uri a = PStr []
        \<and> py_eq (an_price_minor a) (PInt 0) \<and> an_price_asset a = PStr [] \<and> an_availability_summary a = PDict [])"

lemma schema_limits:
  assumes "validate_announcement_schema a b = Inr (True, r)"
  shows "ann_limits a"
proof -
  note s = schema_ok [OF assms]
  have i: "valid_announcement_id a" "text_within (an_publisher_did a) 1 128" "text_within (effective_authority_did a) 1 128"
    using s(1) by (auto simp: schema_identity_def in_str_set_def bindR_Inr_iff ensure_Inr_iff reject_unless_def Let_def bounded_text_within split: if_splits)
  have aid: "text_within (an_id a) 1 256" "an_id a \<noteq> PStr ''.''" "an_id a \<noteq> PStr ''..''"
    using i(1) by (auto simp: valid_announcement_id_def bounded_text_within split: pyval.splits)
  note body = s(3) [unfolded schema_body_def bounded_text_within bounded_json_within]
  obtain caps where caps: "an_capability_set a = PList caps" "length caps \<le> 64" "\<forall>c \<in> set caps. text_within c 1 128"
    using body by (cases "an_capability_set a") (auto simp: list_all_iff)
  obtain r p e where "an_reward_minor a = PInt r" "an_published_at_ms a = PInt p" "an_not_after a = PInt e"
    "r \<in> {0 .. max_signed_int}" "p \<in> {0 .. max_signed_int}" "e \<in> {0 .. max_signed_int}"
    using body valid_intD [of "an_reward_minor a"] valid_intD [of "an_published_at_ms a"] valid_intD [of "an_not_after a"] by auto
  then show ?thesis unfolding ann_limits_def using aid i caps body by blast
qed

lemma schema_offer_limits:
  assumes "validate_announcement_schema a b = Inr (True, r)"
  shows "ann_offer_limits a"
proof -
  note s = schema_ok [OF assms]
  obtain reward asset where rw: "an_reward_minor a = PInt reward" "an_reward_asset a = PStr asset" using schema_typed [OF assms] by (auto simp: ann_typed_def)
  have kind: "an_kind a \<in> {PStr ann_kind_v1, PStr ann_kind_v2, PStr ann_kind_v3, PStr trade_offer_kind_v1}"
    using s(1) by (auto simp: schema_identity_def in_str_set_def bindR_Inr_iff ensure_Inr_iff Let_def split: if_splits)
  consider (v3) "an_kind a = PStr ann_kind_v3" | (offer) "an_kind a \<noteq> PStr ann_kind_v3" "an_kind a = PStr trade_offer_kind_v1"
    | (legacy) "an_kind a \<noteq> PStr ann_kind_v3" "an_kind a \<noteq> PStr trade_offer_kind_v1" by blast
  then show ?thesis
  proof cases
    case v3
    then have "schema_v3 a = Inr True" using s(2) by (simp add: schema_listing_def)
    then have v: "an_listing_type a \<in> {PStr ''product'', PStr ''service''}" "digest_text (an_offer_digest a)" "text_within (an_offer_uri a) 1 2048"
      "valid_non_negative_int (an_price_minor a)" "bounded_text (an_price_asset a) 1 64" "json_within (an_availability_summary a) 4096"
      "py_eq (an_price_minor a) (an_reward_minor a)" "py_eq (an_price_asset a) (an_reward_asset a)"
      by (auto simp: schema_v3_def in_str_set_def bindR_Inr_iff ensure_Inr_iff bounded_text_within bounded_json_within intro: offer_digest_text)
    have "an_price_minor a = an_reward_minor a" using v(7) valid_intD [OF v(4)] rw(1) by (auto simp: py_eq_PInt num_of_def)
    moreover have "an_price_asset a = an_reward_asset a" using v(8) bounded_textD [OF v(5)] rw(2) by auto
    ultimately show ?thesis using v3 v by (simp add: ann_offer_limits_def)
  next
    case offer
    then have v: "schema_trade_offer a" using s(2) by (simp add: schema_listing_def)
    note v = v [unfolded schema_trade_offer_def bounded_text_within bounded_json_within]
    have d: "digest_text (an_offer_digest a)" using v by (blast intro: offer_digest_text)
    have "an_reward_minor a = PInt 0" using v rw(1) by (auto simp: py_eq_PInt num_of_def)
    moreover obtain su rev where "an_availability_summary a = PDict su" "text_within (dget_or su ''offer_id'' PNone) 3 256"
      "dget su ''revision'' = Some (PInt rev)" "rev \<in> {1 .. 2147483647}" "dget su ''state'' = Some (PStr ''active'')"
      using v by (auto simp: strict_int_def dget_or_def split: pyval.splits option.splits)
    ultimately show ?thesis using offer v d by (simp add: ann_offer_limits_def)
  next
    case legacy
    then have v: "schema_legacy a" using s(2) by (simp add: schema_listing_def)
    have "an_availability_summary a = PDict []" using v by (cases "an_availability_summary a") (auto simp: schema_legacy_def num_eq_def num_of_def split: pyfloat.splits option.splits)
    then show ?thesis using legacy v kind by (simp add: ann_offer_limits_def schema_legacy_def)
  qed
qed

text \<open>C32. Verification is sound: an announcement that \<open>verify_announcement\<close> accepts has an identifier, a publisher and an authority
  that are keys, texts, objects and numbers of the right types within every limit of the schema (sizes of the title, the
  description, the context, the capabilities, the input schema, the acceptance and the policy, the ranges of the reward and of the
  times), and the listing, offer and price fields that its kind prescribes (a price other than that of version 3 compares equal to zero, but
  may be a float zero); the publisher's key signed the canonical bytes of all the fields its kind signs, and the signature text is the one
  canonical encoding of the 64 signature bytes.\<close>

theorem verify_announcement_sound:
  assumes "verify_announcement n a = Inr (True, r)"
  shows "ann_typed a \<and> ann_limits a \<and> ann_offer_limits a \<and> (\<exists>did pk body bs s. an_publisher_did a = PStr did \<and> decode_ed25519_did_key did = Inr pk
    \<and> ann_signing_body a = Inr body \<and> canonical_json (PDict body) = Inr bs
    \<and> an_publisher_sig a = PStr (b64u_encode s) \<and> length s = 64 \<and> nacl_verify n pk bs s)"
  using assms by (elim verified_announcementE) (blast intro: schema_limits schema_offer_limits)

section \<open>Signed announcements verify\<close>

lemma ann_sig_sel:
  "an_id (a\<lparr>an_publisher_sig := x\<rparr>) = an_id a" "an_publisher_did (a\<lparr>an_publisher_sig := x\<rparr>) = an_publisher_did a" "an_title (a\<lparr>an_publisher_sig := x\<rparr>) = an_title a"
  "an_authority_did (a\<lparr>an_publisher_sig := x\<rparr>) = an_authority_did a" "an_listing_type (a\<lparr>an_publisher_sig := x\<rparr>) = an_listing_type a" "an_offer_digest (a\<lparr>an_publisher_sig := x\<rparr>) = an_offer_digest a"
  "an_offer_uri (a\<lparr>an_publisher_sig := x\<rparr>) = an_offer_uri a" "an_price_minor (a\<lparr>an_publisher_sig := x\<rparr>) = an_price_minor a" "an_price_asset (a\<lparr>an_publisher_sig := x\<rparr>) = an_price_asset a"
  "an_availability_summary (a\<lparr>an_publisher_sig := x\<rparr>) = an_availability_summary a" "an_capability_set (a\<lparr>an_publisher_sig := x\<rparr>) = an_capability_set a" "an_context (a\<lparr>an_publisher_sig := x\<rparr>) = an_context a"
  "an_input_schema (a\<lparr>an_publisher_sig := x\<rparr>) = an_input_schema a" "an_acceptance (a\<lparr>an_publisher_sig := x\<rparr>) = an_acceptance a" "an_reward_minor (a\<lparr>an_publisher_sig := x\<rparr>) = an_reward_minor a"
  "an_reward_asset (a\<lparr>an_publisher_sig := x\<rparr>) = an_reward_asset a" "an_mission_id (a\<lparr>an_publisher_sig := x\<rparr>) = an_mission_id a" "an_claimant_policy (a\<lparr>an_publisher_sig := x\<rparr>) = an_claimant_policy a"
  "an_description (a\<lparr>an_publisher_sig := x\<rparr>) = an_description a" "an_published_at_ms (a\<lparr>an_publisher_sig := x\<rparr>) = an_published_at_ms a" "an_not_after (a\<lparr>an_publisher_sig := x\<rparr>) = an_not_after a"
  "an_kind (a\<lparr>an_publisher_sig := x\<rparr>) = an_kind a"
  by simp_all

lemma schema_sig_independent:
  "schema_identity (a\<lparr>an_publisher_sig := x\<rparr>) = schema_identity a" "schema_listing (a\<lparr>an_publisher_sig := x\<rparr>) = schema_listing a"
  "schema_body (a\<lparr>an_publisher_sig := x\<rparr>) = schema_body a" "ann_signing_body (a\<lparr>an_publisher_sig := x\<rparr>) = ann_signing_body a"
proof -
  show "schema_identity (a\<lparr>an_publisher_sig := x\<rparr>) = schema_identity a"
    unfolding schema_identity_def effective_authority_did_def valid_announcement_id_def ann_sig_sel ..
  show "schema_listing (a\<lparr>an_publisher_sig := x\<rparr>) = schema_listing a"
    unfolding schema_listing_def schema_v3_def schema_trade_offer_def schema_legacy_def ann_sig_sel ..
  show "schema_body (a\<lparr>an_publisher_sig := x\<rparr>) = schema_body a" unfolding schema_body_def ann_sig_sel ..
  have "without_key ''publisher_sig'' (ann_to_dict (a\<lparr>an_publisher_sig := x\<rparr>)) = without_key ''publisher_sig'' (ann_to_dict a)"
    by (simp add: ann_to_dict_def without_key_def obj_def)
  then show "ann_signing_body (a\<lparr>an_publisher_sig := x\<rparr>) = ann_signing_body a" unfolding ann_signing_body_def ann_sig_sel by (rule arg_cong)
qed

lemma strip_char_Nil: "strip_char P s = [] \<longleftrightarrow> (\<forall>c \<in> set s. P c)"
proof
  assume "strip_char P s = []"
  then have "dropWhile P (rev (dropWhile P s)) = []" by (simp add: strip_char_def)
  then have "\<forall>c \<in> set (dropWhile P s). P c" by (simp add: dropWhile_eq_Nil_conv)
  then have "dropWhile P s = []" using hd_dropWhile [of P s] hd_in_set by metis
  then show "\<forall>c \<in> set s. P c" by (simp add: dropWhile_eq_Nil_conv)
qed (auto simp: strip_char_def dropWhile_eq_Nil_conv dest: set_dropWhileD)

lemma b64_not_space: "n < 64 \<Longrightarrow> \<not> py_isspace (b64_char n)"
proof -
  assume "n < 64"
  then have "b64_char n \<in> set b64_alphabet" unfolding b64_char_def by (intro nth_mem) (simp add: b64_alphabet_def)
  moreover have "list_all (\<lambda>c. \<not> py_isspace c) b64_alphabet" by (simp add: b64_alphabet_def py_isspace_def)
  ultimately show ?thesis by (simp add: list_all_iff)
qed

lemma b64u_encode_not_space: "c \<in> set (b64u_encode bs) \<Longrightarrow> \<not> py_isspace c"
proof -
  assume "c \<in> set (b64u_encode bs)"
  then have "\<exists>n < 64. c = b64_char n" by (induction bs rule: b64u_encode.induct) (use byte_bounds in force)+
  then show ?thesis using b64_not_space by blast
qed

lemma utf8_ascii: "(\<And>c. c \<in> set s \<Longrightarrow> of_char c < (128 :: nat)) \<Longrightarrow> utf8 s = ascii_bytes s"
proof (induction s)
  case (Cons c s)
  then have "utf8_char c = [word_of_nat (of_char c)]" by (simp add: utf8_char_def Let_def)
  with Cons show ?case by (simp add: utf8_Cons ascii_bytes_def)
qed (simp add: utf8_def ascii_bytes_def)

lemma sig_text: "length s = 64 \<Longrightarrow> b64u_encode s \<noteq> [] \<and> py_strip (b64u_encode s) \<noteq> [] \<and> length (utf8 (b64u_encode s)) \<le> 128 \<and> 1 \<le> length (utf8 (b64u_encode s))"
proof -
  assume l: "length s = 64"
  then obtain x r where s: "s = x # r" by (cases s) auto
  then have ne: "b64u_encode s \<noteq> []" by (cases s rule: b64u_encode.cases) auto
  then have "\<not> py_isspace (hd (b64u_encode s))" using b64u_encode_not_space by (metis hd_in_set)
  then have "py_strip (b64u_encode s) \<noteq> []" unfolding py_strip_def strip_char_Nil using ne hd_in_set by blast
  moreover have "utf8 (b64u_encode s) = ascii_bytes (b64u_encode s)"
    by (rule utf8_ascii) (rule b64u_encode_ascii)
  then have "length (utf8 (b64u_encode s)) = length (b64u_encode s)" by simp
  moreover have "length (b64u_encode s) \<noteq> 0" using ne by simp
  ultimately show ?thesis using ne length_b64u [of s] l by linarith
qed

lemma draftE:
  assumes "draft_announcement args publisher fresh_id now = Inr a"
  obtains did t where "as_did publisher = Inr did" "an_publisher_did a = PStr did" "an_title a = PStr t" "py_strip t \<noteq> []"
proof -
  obtain t where t: "an_title args = PStr t" "py_strip t \<noteq> []"
    using assms by (cases "an_title args") (simp_all add: draft_announcement_def ensure_Inr_iff)
  obtain r where r: "strict_int (an_reward_minor args) = Some r"
    using assms by (cases "strict_int (an_reward_minor args)") (simp_all add: draft_announcement_def ensure_Inr_iff)
  have "\<exists>did. as_did publisher = Inr did \<and> an_publisher_did a = PStr did \<and> an_title a = an_title args"
    using assms t r by (auto simp: draft_announcement_def ensure_Inr_iff bindR_Inr_iff)
  with t show thesis using that by auto
qed

lemma not_blank_hd: "s \<noteq> [] \<Longrightarrow> \<not> py_isspace (hd s) \<Longrightarrow> \<not> ann_blank (PStr s)"
  using hd_in_set by (auto simp: ann_blank_def py_strip_def strip_char_Nil)

lemma did_not_blank: "decode_ed25519_did_key did = Inr pk \<Longrightarrow> \<not> ann_blank (PStr did)"
proof -
  assume "decode_ed25519_did_key did = Inr pk"
  then obtain r where "did = CHR ''d'' # r"
    by (auto simp: decode_ed25519_did_key_def did_key_prefix_def startswith_iff split: if_splits)
  then show ?thesis by (intro not_blank_hd) (simp_all add: py_isspace_def)
qed

lemma signed_announcement_accepted:
  assumes "ed25519_ok n" "signer_ok n publisher" "sign_announcement n publisher args fresh_id now = Inr a" "\<not> ann_blank (an_id a)"
  shows "verify_announcement n a = Inr (True, [])"
proof -
  obtain b r body bs s where b: "draft_announcement args publisher fresh_id now = Inr b" "validate_announcement_schema b False = Inr (True, r)"
    "ann_signing_body b = Inr body" "canonical_json (PDict body) = Inr bs" "identity_sign n publisher bs = Inr s"
    "a = b\<lparr>an_publisher_sig := PStr (b64u_encode s)\<rparr>"
    using assms(3) by (auto simp: sign_announcement_def bindR_Inr_iff ensure_Inr_iff)
  note sc = schema_ok [OF b(2)] and ind = schema_sig_independent [of "PStr (b64u_encode s)" b, folded b(6)]
  obtain seed where seed: "id_signing_key publisher = Some seed" "length seed = 32" using assms(2) by (rule signer_okE)
  have s: "s = nacl_sign n seed bs" using b(5) signer_sign [OF assms(1,2)] seed by simp
  have l: "length s = 64" using ed25519_okD(3) [OF assms(1) seed(2)] s by simp
  note st = sig_text [OF l]
  have sg: "schema_signature a = None"
    using st l by (simp add: schema_signature_def bounded_text_def reject_unless_def b(6))
  have v: "validate_announcement_schema a True = Inr (True, [])"
    using sc(1-3) sg ind by (simp add: validate_announcement_schema_def)
  obtain did t where d: "as_did publisher = Inr did" "an_publisher_did b = PStr did" "an_title b = PStr t" "py_strip t \<noteq> []"
    using draftE [OF b(1)] by metis
  obtain did' where "as_did publisher = Inr did'" "decode_ed25519_did_key did' = Inr (nacl_pub n seed)"
    using signer_did [OF assms(1,2)] seed by (metis option.sel)
  with d(1) have did: "decode_ed25519_did_key did = Inr (nacl_pub n seed)" by simp
  have kind: "\<not> ann_blank (an_kind b)"
  proof -
    have "an_kind b \<in> PStr ` set [ann_kind_v1, ann_kind_v2, ann_kind_v3, trade_offer_kind_v1]"
      using sc(1) by (auto simp: schema_identity_def in_str_set_def bindR_Inr_iff ensure_Inr_iff Let_def split: if_splits)
    then obtain r where "an_kind b = PStr (CHR ''n'' # r)" by (auto simp: ann_kind_v1_def ann_kind_v2_def ann_kind_v3_def trade_offer_kind_v1_def)
    then show ?thesis using not_blank_hd [of "CHR ''n'' # r"] by (simp add: py_isspace_def)
  qed
  have req: "\<not> list_ex ann_blank (ann_required a)"
    using kind assms(4) did_not_blank [OF did] d st unfolding ann_required_def b(6) by (simp add: ann_blank_def [of "PStr t"] ann_blank_def [of "PStr (b64u_encode s)"])
  have "nacl_available n" "nacl_verify n (nacl_pub n seed) bs s" using ed25519_okD [OF assms(1) seed(2)] s by auto
  then show ?thesis unfolding verify_announcement_def
    using req v did d(2) b(3,4) ind(4) by (simp add: b(6))
qed


text \<open>An announcement that \<open>sign_announcement\<close> returns is accepted by every verifier, unless its identifier is blank (which version 1
  allows when signing).\<close>

lemma signed_announcement_verifies:
  assumes "ed25519_ok n" "signer_ok n publisher" "sign_announcement n publisher args fresh_id now = Inr a" "\<not> ann_blank (an_id a)"
  shows "verify_announcement n a = Inr (True, []) \<and> an_publisher_did a = PStr (projr (as_did publisher)) \<and> ann_typed a"
proof -
  note v = signed_announcement_accepted [OF assms]
  have "an_publisher_did a = PStr (projr (as_did publisher))"
    using assms(3) by (auto simp: sign_announcement_def bindR_Inr_iff ensure_Inr_iff elim!: draftE)
  then show ?thesis using v by (blast elim: verified_announcementE)
qed

section \<open>The federation key commits to the terms\<close>

lemma keys_once_pairs_filter: "keys_once_pairs d \<Longrightarrow> keys_once_pairs (filter P d)"
  by (induction d) auto

lemma keys_once_without: "keys_once (PDict d) \<Longrightarrow> keys_once (PDict (without_key k d))"
  by (simp add: without_key_def keys_once_pairs_filter distinct_map_filter)

lemma keys_once_fold_without: "keys_once (PDict d) \<Longrightarrow> keys_once (PDict (fold without_key ks d))"
  by (induction ks arbitrary: d) (simp_all add: keys_once_without del: keys_once.simps)

lemma signing_body_keys_once:
  "keys_once (PDict (ann_to_dict a)) \<Longrightarrow> ann_signing_body a = Inr body \<Longrightarrow> keys_once (PDict body)"
  by (auto simp: ann_signing_body_def bindR_Inr_iff Let_def keys_once_without keys_once_fold_without simp del: keys_once.simps split: if_splits)

definition legacy :: "announcement \<Rightarrow> bool" where
  "legacy a \<longleftrightarrow> an_kind a = PStr ann_kind_v1 \<or> an_kind a = PStr ann_kind_v2"

lemma dget_signing_body:
  assumes "ann_signing_body a = Inr body"
  shows "dget body k = (if k = ''publisher_sig'' \<or> (legacy a \<and> k \<in> set legacy_dropped) \<or> (an_kind a = PStr ann_kind_v1 \<and> k = ''authority_did'')
    then None else dget (ann_to_dict a) k)"
  using assms by (auto simp: ann_signing_body_def bindR_Inr_iff in_str_set_def ensure_Inr_iff Let_def legacy_def dget_fold_without split: if_splits)

text \<open>What an announcement offers: every field that its kind signs, with the authority in force.\<close>

definition ann_terms :: "announcement \<Rightarrow> pyval list" where
  "ann_terms a = [an_kind a, an_id a, an_publisher_did a, effective_authority_did a, an_title a, an_description a, an_capability_set a, an_context a,
     an_input_schema a, an_acceptance a, an_reward_minor a, an_reward_asset a, an_mission_id a, an_claimant_policy a, an_published_at_ms a, an_not_after a]
   @ (if legacy a then [] else [an_listing_type a, an_offer_digest a, an_offer_uri a, an_price_minor a, an_price_asset a, an_availability_summary a])"

lemma same_body_same_terms:
  assumes "ann_signing_body a = Inr d" "ann_signing_body b = Inr e" "\<And>k. map_option canon (dget d k) = map_option canon (dget e k)"
    "is_str (an_kind a)" "is_str (an_kind b)"
  shows "map canon (ann_terms a) = map canon (ann_terms b)"
proof -
  note g = assms(3) [unfolded dget_signing_body [OF assms(1)] dget_signing_body [OF assms(2)] legacy_dropped_def]
  have f: "dget (ann_to_dict c) ''kind'' = Some (an_kind c)" "dget (ann_to_dict c) ''announcement_id'' = Some (an_id c)"
    "dget (ann_to_dict c) ''publisher_did'' = Some (an_publisher_did c)" "dget (ann_to_dict c) ''authority_did'' = Some (an_authority_did c)"
    "dget (ann_to_dict c) ''title'' = Some (an_title c)" "dget (ann_to_dict c) ''description'' = Some (an_description c)"
    "dget (ann_to_dict c) ''capability_set'' = Some (an_capability_set c)" "dget (ann_to_dict c) ''context'' = Some (an_context c)"
    "dget (ann_to_dict c) ''input_schema'' = Some (an_input_schema c)" "dget (ann_to_dict c) ''acceptance'' = Some (an_acceptance c)"
    "dget (ann_to_dict c) ''reward_minor'' = Some (an_reward_minor c)" "dget (ann_to_dict c) ''reward_asset'' = Some (an_reward_asset c)"
    "dget (ann_to_dict c) ''mission_id'' = Some (an_mission_id c)" "dget (ann_to_dict c) ''claimant_policy'' = Some (an_claimant_policy c)"
    "dget (ann_to_dict c) ''published_at_ms'' = Some (an_published_at_ms c)" "dget (ann_to_dict c) ''not_after'' = Some (an_not_after c)"
    "dget (ann_to_dict c) ''listing_type'' = Some (an_listing_type c)" "dget (ann_to_dict c) ''offer_digest'' = Some (an_offer_digest c)"
    "dget (ann_to_dict c) ''offer_uri'' = Some (an_offer_uri c)" "dget (ann_to_dict c) ''price_minor'' = Some (an_price_minor c)"
    "dget (ann_to_dict c) ''price_asset'' = Some (an_price_asset c)" "dget (ann_to_dict c) ''availability_summary'' = Some (an_availability_summary c)" for c
    by (simp_all add: ann_to_dict_def dget_obj)
  have "canon (an_kind a) = canon (an_kind b)" using g [of "''kind''"] by (simp add: f)
  then have k: "an_kind a = an_kind b" using assms(4,5) by (auto simp: is_str_def split: pyval.splits)
  then have l: "legacy a = legacy b" by (simp add: legacy_def)
  have s: "canon (an_id a) = canon (an_id b)" "canon (an_publisher_did a) = canon (an_publisher_did b)" "canon (an_title a) = canon (an_title b)"
    "canon (an_description a) = canon (an_description b)" "canon (an_capability_set a) = canon (an_capability_set b)" "canon (an_context a) = canon (an_context b)"
    "canon (an_input_schema a) = canon (an_input_schema b)" "canon (an_acceptance a) = canon (an_acceptance b)" "canon (an_reward_minor a) = canon (an_reward_minor b)"
    "canon (an_reward_asset a) = canon (an_reward_asset b)" "canon (an_mission_id a) = canon (an_mission_id b)" "canon (an_claimant_policy a) = canon (an_claimant_policy b)"
    "canon (an_published_at_ms a) = canon (an_published_at_ms b)" "canon (an_not_after a) = canon (an_not_after b)"
    using g [of "''announcement_id''"] g [of "''publisher_did''"] g [of "''title''"] g [of "''description''"] g [of "''capability_set''"] g [of "''context''"]
      g [of "''input_schema''"] g [of "''acceptance''"] g [of "''reward_minor''"] g [of "''reward_asset''"] g [of "''mission_id''"] g [of "''claimant_policy''"]
      g [of "''published_at_ms''"] g [of "''not_after''"] by (simp_all add: f)
  have "canon (effective_authority_did a) = canon (effective_authority_did b)"
    using g [of "''authority_did''"] s(2) k by (simp add: f effective_authority_did_def split: if_splits)
  moreover have "\<not> legacy a \<Longrightarrow> canon (an_listing_type a) = canon (an_listing_type b) \<and> canon (an_offer_digest a) = canon (an_offer_digest b)
      \<and> canon (an_offer_uri a) = canon (an_offer_uri b) \<and> canon (an_price_minor a) = canon (an_price_minor b)
      \<and> canon (an_price_asset a) = canon (an_price_asset b) \<and> canon (an_availability_summary a) = canon (an_availability_summary b)"
    using g [of "''listing_type''"] g [of "''offer_digest''"] g [of "''offer_uri''"] g [of "''price_minor''"] g [of "''price_asset''"] g [of "''availability_summary''"] l
    by (simp add: f)
  ultimately show ?thesis using s k l by (simp add: ann_terms_def)
qed

text \<open>The federation key names the terms: two verified announcements with the same key agree on every signed field up to the order of
  keys inside objects, the claim authority included, or else they exhibit a SHA-256 collision. Announcements of different
  publishers that share a local identifier cannot shadow one another.\<close>

lemma federation_key_commits:
  assumes "verify_announcement n a = Inr (True, r)" "verify_announcement n b = Inr (True, r')"
    "keys_once (PDict (ann_to_dict a))" "keys_once (PDict (ann_to_dict b))"
    "announcement_federation_key a = Inr k" "announcement_federation_key b = Inr k"
  shows "map canon (ann_terms a) = map canon (ann_terms b) \<or> (\<exists>x y. sha_collision x y)"
proof -
  obtain d x where d: "ann_signing_body a = Inr d" "canonical_json (PDict d) = Inr x" "k = ''nth-ann-sha256:'' @ sha256_hex x"
    using assms(5) by (auto simp: announcement_federation_key_def bindR_Inr_iff)
  obtain e y where e: "ann_signing_body b = Inr e" "canonical_json (PDict e) = Inr y" "k = ''nth-ann-sha256:'' @ sha256_hex y"
    using assms(6) by (auto simp: announcement_federation_key_def bindR_Inr_iff)
  have w: "wf_json (PDict d)" "x = utf8 (json_dumps False (PDict d))"
    using canonical_json_Inr [OF d(2) signing_body_keys_once [OF assms(3) d(1)]] by blast+
  have w': "wf_json (PDict e)" "y = utf8 (json_dumps False (PDict e))"
    using canonical_json_Inr [OF e(2) signing_body_keys_once [OF assms(4) e(1)]] by blast+
  have "x = y \<or> sha_collision x y" using d(3) e(3) by (metis sha256_hex_eq_iff same_append_eq)
  moreover have "map canon (ann_terms a) = map canon (ann_terms b)" if "x = y"
  proof -
    obtain c where c: "canon (PDict d) = PDict c" by simp
    have "canon (PDict e) = PDict c" using that w w' c json_dumps_inject [OF w(1) w'(1)] by simp
    then have "map_option canon (dget d f) = map_option canon (dget e f)" for f
      using dget_canon [OF w(1) c, of f] dget_canon [OF w'(1), of c f] by simp
    moreover have "is_str (an_kind a)" "is_str (an_kind b)"
      using verified_announcementE [OF assms(1)] verified_announcementE [OF assms(2)] unfolding ann_typed_def by metis+
    ultimately show ?thesis using same_body_same_terms [OF d(1) e(1)] by blast
  qed
  ultimately show ?thesis by blast
qed


section \<open>Values of the wrong type\<close>

text \<open>Verification does not fail closed on a value it cannot hash: an announcement whose kind is a list or an object, with the other
  required fields present, makes \<open>verify_announcement\<close> raise \<open>TypeError\<close> instead of returning a verdict.\<close>

lemma verify_announcement_unhashable_kind_raises:
  assumes "nacl_available n" "\<not> hashable (an_kind a)" "\<not> list_ex ann_blank (ann_required a)"
  shows "verify_announcement n a = raise TypeError ''unhashable type'' \<and> announcement_federation_key a = raise TypeError ''unhashable type''"
  using assms by (simp add: verify_announcement_def validate_announcement_schema_def schema_identity_def in_str_set_def
      announcement_federation_key_def ann_signing_body_def)

section \<open>A concrete announcement\<close>

definition demo_args :: announcement where
  "demo_args = (ann_from_fields (obj [(''announcement_id'', PStr ''a1''), (''title'', PStr ''t''), (''capability_set'', PList [PStr ''x'']),
     (''reward_minor'', PInt 5), (''published_at_ms'', PInt 1)]))"

definition demo_ann :: announcement where
  "demo_ann = projr (sign_announcement demo_nacl (demo_identity 0) demo_args [] 1)"

lemma demo_canonical_empty: "canonical_json (PDict []) = Inr (ascii_bytes ''{}'')"
  by code_simp

lemma did_ascii: "decode_ed25519_did_key did = Inr pk \<Longrightarrow> c \<in> set did \<Longrightarrow> of_char c < (128 :: nat)"
proof -
  assume d: "decode_ed25519_did_key did = Inr pk" and c: "c \<in> set did"
  obtain bs where did: "did = did_key_prefix @ CHR ''z'' # b58encode bs"
    using d by (auto simp: decode_did_iff encode_ed25519_did_key_def split: if_splits)
  have a: "list_all (\<lambda>c. of_char c < (128 :: nat)) b58_alphabet" by (simp add: b58_alphabet_def)
  have "of_char c < (128 :: nat)" if "c \<in> set (b58encode bs)"
  proof -
    obtain k where k: "k < 58" "c = b58_char k" using \<open>c \<in> set (b58encode bs)\<close> b58_digits_bound [of bs] by (auto simp: b58encode_digits)
    then have "c \<in> set b58_alphabet" unfolding k(2) b58_char_def by (intro nth_mem) (simp add: b58_alphabet_def)
    then show ?thesis using a by (simp add: list_all_iff)
  qed
  then show ?thesis using c did by (auto simp: did_key_prefix_def)
qed

lemmas demo_args_sel = demo_args_def ann_from_fields_def dget_or_def dget_obj

lemma demo_bounded: "bounded_text (PStr ''t'') 1 512" "bounded_text (PStr []) 0 65536" "bounded_text (PStr ''x'') 1 128" "bounded_text (PStr ''general'') 1 128" "bounded_text (PStr ''credit'') 1 64"
  "bounded_text (PStr []) 0 256" "bounded_text (PStr ''a1'') 1 256" "bounded_json_object (PDict []) 65536"
  by (simp_all add: bounded_text_def utf8_def utf8_char_def bounded_json_object_def is_dict_def demo_canonical_empty)

lemma demo_draft:
  assumes "as_did (demo_identity 0) = Inr did" "decode_ed25519_did_key did = Inr pk"
  shows "\<exists>a. draft_announcement demo_args (demo_identity 0) [] 1 = Inr a \<and> validate_announcement_schema a False = Inr (True, [])
    \<and> an_kind a = PStr ann_kind_v2 \<and> wf_json (PDict (ann_to_dict a)) \<and> an_id a = PStr ''a1''
    \<and> an_capability_set a = PList [PStr ''x''] \<and> an_claimant_policy a = PDict [] \<and> an_not_after a = PInt 0 \<and> an_reward_minor a = PInt 5
    \<and> an_authority_did a = PStr did"
proof -
  let ?a = "demo_args\<lparr>an_publisher_did := PStr did, an_authority_did := PStr did, an_capability_set := PList [PStr ''x''],
    an_publisher_sig := PStr []\<rparr>"
  have dk: "is_did_key (PStr did)" using assms(2) by (auto simp: is_did_key_iff decode_did_iff)
  have "length did \<le> 111" "did \<noteq> []" using assms(2) did_length did_length_pos by (auto simp: decode_did_iff)
  moreover have "utf8 did = ascii_bytes did" using did_ascii [OF assms(2)] by (rule utf8_ascii)
  ultimately have b: "bounded_text (PStr did) 1 128" by (cases did) (auto simp: bounded_text_def)
  have strip: "py_strip ''t'' = ''t''" "py_strip ''x'' = ''x''" "py_strip ''general'' = ''general''"
    by (simp_all add: py_strip_def strip_char_def py_isspace_def)
  have d: "draft_announcement demo_args (demo_identity 0) [] 1 = Inr ?a"
    using dk assms(1) by (simp add: draft_announcement_def demo_args_sel strict_int_def ann_caps_def py_iter_def dict_or_empty_def ann_or_def resolve_context_def strip Let_def)
  have i: "schema_identity ?a = Inr None"
    using dk b demo_bounded(7) by (simp add: schema_identity_def in_str_set_def hashable_def demo_args_sel effective_authority_did_def valid_announcement_id_def
        announcement_id_pattern_def id_first_char_def ann_kind_v1_def ann_kind_v2_def reject_unless_def Let_def)
  have li: "schema_listing ?a = Inr True"
    by (simp add: schema_listing_def schema_legacy_def demo_args_sel ann_kind_v2_def ann_kind_v3_def trade_offer_kind_v1_def py_eq_PInt num_of_def)
  have bo: "schema_body ?a" using demo_bounded by (simp add: schema_body_def demo_args_sel valid_non_negative_int_def strict_int_def max_signed_int_def)
  have w: "wf_json (PDict (ann_to_dict ?a))" by (simp add: ann_to_dict_def obj_def demo_args_sel is_str_def)
  have "an_kind ?a = PStr ann_kind_v2" "an_id ?a = PStr ''a1''" "an_capability_set ?a = PList [PStr ''x'']" "an_claimant_policy ?a = PDict []" "an_not_after ?a = PInt 0" "an_reward_minor ?a = PInt 5" "an_authority_did ?a = PStr did"
    by (simp_all add: demo_args_sel)
  then show ?thesis using d i li bo w by (auto simp: validate_announcement_schema_def)
qed


lemma demo_ann: "sign_announcement demo_nacl (demo_identity 0) demo_args [] 1 = Inr demo_ann" "\<not> ann_blank (an_id demo_ann)"
  "keys_once (PDict (ann_to_dict demo_ann))" "an_kind demo_ann = PStr ann_kind_v2" "an_id demo_ann = PStr ''a1''"
  "an_capability_set demo_ann = PList [PStr ''x'']" "an_claimant_policy demo_ann = PDict []" "an_not_after demo_ann = PInt 0" "an_reward_minor demo_ann = PInt 5"
  "wf_json (PDict (ann_to_dict demo_ann))" "effective_authority_did demo_ann = PStr (projr (as_did (demo_identity 0)))"
proof -
  obtain did where did: "as_did (demo_identity 0) = Inr did" "decode_ed25519_did_key did = Inr (nacl_pub demo_nacl (the (id_signing_key (demo_identity 0))))"
    by (rule signer_did [OF demo_nacl_ok demo_signer, of 0])
  obtain a where a: "draft_announcement demo_args (demo_identity 0) [] 1 = Inr a" "validate_announcement_schema a False = Inr (True, [])"
    "an_kind a = PStr ann_kind_v2" "wf_json (PDict (ann_to_dict a))" "an_id a = PStr ''a1''"
    "an_capability_set a = PList [PStr ''x'']" "an_claimant_policy a = PDict []" "an_not_after a = PInt 0" "an_reward_minor a = PInt 5" "an_authority_did a = PStr did"
    using demo_draft [OF did] by blast
  obtain body where b: "ann_signing_body a = Inr body" using a(3) by (simp add: ann_signing_body_def in_str_set_def hashable_def Let_def)
  have w: "wf_json (PDict d) \<Longrightarrow> wf_json (PDict (filter P d))" for d P
  proof -
    have "wf_json_pairs d \<Longrightarrow> wf_json_pairs (filter P d)" by (induction d) auto
    then show "wf_json (PDict d) \<Longrightarrow> wf_json (PDict (filter P d))" by (simp add: distinct_map_filter)
  qed
  have "wf_json (PDict (fold without_key ks d))" if "wf_json (PDict d)" for ks d
    using that by (induction ks arbitrary: d) (simp_all add: w without_key_def del: wf_json.simps)
  then have "wf_json (PDict body)" using b a(4) w unfolding ann_signing_body_def bindR_Inr_iff Let_def without_key_def by (auto simp del: wf_json.simps)
  then obtain bs where "canonical_json (PDict body) = Inr bs" using canonical_json_wf by blast
  then obtain s where "sign_announcement demo_nacl (demo_identity 0) demo_args [] 1 = Inr (a\<lparr>an_publisher_sig := PStr (b64u_encode s)\<rparr>)"
    using a(1,2) b signer_sign [OF demo_nacl_ok demo_signer, of 0] by (simp add: sign_announcement_def)
  then have d: "sign_announcement demo_nacl (demo_identity 0) demo_args [] 1 = Inr demo_ann" "demo_ann = a\<lparr>an_publisher_sig := PStr (b64u_encode s)\<rparr>"
    by (simp_all add: demo_ann_def)
  show "sign_announcement demo_nacl (demo_identity 0) demo_args [] 1 = Inr demo_ann" by (rule d(1))
  show i: "an_id demo_ann = PStr ''a1''" and "an_kind demo_ann = PStr ann_kind_v2" unfolding d(2) by (simp_all add: a(3,5))
  show "an_capability_set demo_ann = PList [PStr ''x'']" "an_claimant_policy demo_ann = PDict []" "an_not_after demo_ann = PInt 0" "an_reward_minor demo_ann = PInt 5"
    unfolding d(2) by (simp_all add: a(6-9))
  from i show "\<not> ann_blank (an_id demo_ann)" by (simp add: ann_blank_def py_strip_def strip_char_def py_isspace_def)
  show w: "wf_json (PDict (ann_to_dict demo_ann))" using a(4) by (simp add: d(2) ann_to_dict_def obj_def)
  then show "keys_once (PDict (ann_to_dict demo_ann))" by (rule wf_keys_once(1))
  show "effective_authority_did demo_ann = PStr (projr (as_did (demo_identity 0)))" using a(3,10) did(1) by (simp add: d(2) effective_authority_did_def ann_kind_v1_def ann_kind_v2_def)
qed

lemma demo_ann_ok: "verify_announcement demo_nacl demo_ann = Inr (True, [])"
  by (rule signed_announcement_accepted [OF demo_nacl_ok demo_signer demo_ann(1,2)])

lemma signed_announcement_verifies_demo:
  "verify_announcement demo_nacl demo_ann = Inr (True, []) \<and> an_publisher_did demo_ann = PStr (projr (as_did (demo_identity 0))) \<and> ann_typed demo_ann"
  by (rule signed_announcement_verifies [OF demo_nacl_ok demo_signer demo_ann(1,2)])

theorem verify_announcement_sound_witness:
  "ann_typed demo_ann \<and> ann_limits demo_ann \<and> ann_offer_limits demo_ann \<and> (\<exists>did pk body bs s. an_publisher_did demo_ann = PStr did \<and> decode_ed25519_did_key did = Inr pk
    \<and> ann_signing_body demo_ann = Inr body \<and> canonical_json (PDict body) = Inr bs
    \<and> an_publisher_sig demo_ann = PStr (b64u_encode s) \<and> length s = 64 \<and> nacl_verify demo_nacl pk bs s)"
  by (rule verify_announcement_sound [OF demo_ann_ok])

lemma federation_key_commits_demo:
  "map canon (ann_terms demo_ann) = map canon (ann_terms demo_ann) \<or> (\<exists>x y. sha_collision x y)"
proof -
  obtain body bs where "ann_signing_body demo_ann = Inr body" "canonical_json (PDict body) = Inr bs" by (rule verified_announcementE [OF demo_ann_ok])
  then obtain k where k: "announcement_federation_key demo_ann = Inr k" by (simp add: announcement_federation_key_def)
  show ?thesis by (rule federation_key_commits [OF demo_ann_ok demo_ann_ok demo_ann(3) demo_ann(3) k k])
qed

definition demo_bad_ann :: announcement where
  "demo_bad_ann = ann_from_fields (obj [(''announcement_id'', PStr ''a1''), (''publisher_did'', PStr ''d''), (''title'', PStr ''t''),
     (''kind'', PList []), (''publisher_sig'', PStr ''s'')])"

lemma demo_bad_ann: "\<not> hashable (an_kind demo_bad_ann)" "\<not> list_ex ann_blank (ann_required demo_bad_ann)"
  by (simp_all add: demo_bad_ann_def ann_from_fields_def dget_or_def dget_obj hashable_def ann_required_def ann_blank_def py_strip_def strip_char_def py_isspace_def)

lemma verify_announcement_unhashable_kind_raises_demo:
  "verify_announcement demo_nacl demo_bad_ann = raise TypeError ''unhashable type'' \<and> announcement_federation_key demo_bad_ann = raise TypeError ''unhashable type''"
  by (rule verify_announcement_unhashable_kind_raises [OF ed25519_okD(1) [OF demo_nacl_ok] demo_bad_ann]) (rule length_replicate [of 32 0])

end
