(* ===== verification/Market_Feed.thy ===== *)
theory Market_Feed
  imports Announcement Projection Spine_Log
begin

text \<open>
  \<open>nth_dao/market/feed.py\<close> and \<open>nth_dao/market/projection.py\<close>: the append-only feed of announcements with its cursor, and the view of
  it that replaying the spine rebuilds. A line of the feed is the JSON value it holds, or \<open>None\<close> when it is blank or does not parse; lines are
  only appended. The listing and offer stores that \<open>require_listing_binding\<close> consults for commerce
  announcements are the parameter \<open>stores\<close>: its value is what they answer at the time of the call. Each operation takes it, and the clock, afresh, as the code reads both at every call;
  \<open>feed_session\<close> below keeps both fixed, for the polls of a short session. A poll and a publication are one step each: the code locks different files for the two, so
  a reader can meet a half-written line, which the model does not produce (such a line is one that does not parse). The in-memory index of trade offers is a cache of the scan and is left out.
\<close>

section \<open>The feed\<close>

record market_feed =
  fd_lines :: "pyval option list"
  fd_spine :: "(identity \<times> spine_log) option"

definition event_market_announce :: string where
  "event_market_announce = ''market.announce''"

definition event_market_claim :: string where
  "event_market_claim = ''market.claim''"

definition require_listing_binding :: "(announcement \<Rightarrow> unit res) \<Rightarrow> announcement \<Rightarrow> unit res" where
  "require_listing_binding stores a =
     bindR (in_str_set (an_kind a) [ann_kind_v3, trade_offer_kind_v1]) (\<lambda>typed. if typed then stores a else Inr ())"

definition spine_shadow :: "nacl \<Rightarrow> string \<Rightarrow> pyval \<Rightarrow> int \<Rightarrow> (identity \<times> spine_log) option \<Rightarrow> (identity \<times> spine_log) option" where
  "spine_shadow n ty payload now spine = map_option (\<lambda>(i, s). (i, fst (spine_append n i ty payload now s))) spine"

definition publish :: "nacl \<Rightarrow> (announcement \<Rightarrow> unit res) \<Rightarrow> int \<Rightarrow> announcement \<Rightarrow> market_feed \<Rightarrow> market_feed \<times> unit res" where
  "publish n stores now a fd =
     (case bindR (verify_announcement n a) (\<lambda>(ok, reason).
             ensure ok ValueError (''refusing to publish unverifiable announcement '' @ py_repr (an_id a) @ '': '' @ reason) (
             require_listing_binding stores a)) of
        Inl e \<Rightarrow> (fd, Inl e)
      | Inr _ \<Rightarrow> (fd\<lparr>fd_lines := fd_lines fd @ [Some (PDict (ann_to_dict a))],
           fd_spine := spine_shadow n event_market_announce (PDict (ann_to_dict a)) now (fd_spine fd)\<rparr>, Inr ()))"

definition safe_parse :: "nacl \<Rightarrow> (announcement \<Rightarrow> unit res) \<Rightarrow> pyval option \<Rightarrow> announcement option res" where
  "safe_parse n stores raw = (case raw of
     Some (PDict d) \<Rightarrow>
       (case ann_from_dict (PDict d) of
          Inl _ \<Rightarrow> Inr None
        | Inr a \<Rightarrow> bindR (verify_announcement n a) (\<lambda>(ok, _).
            if \<not> ok then Inr None
            else case require_listing_binding stores a of
              Inr _ \<Rightarrow> Inr (Some a)
            | Inl e \<Rightarrow> if is_value_error e then Inr None else Inl e))
   | _ \<Rightarrow> Inr None)"

section \<open>Reading\<close>

definition limit_reached :: "int option \<Rightarrow> 'a list \<Rightarrow> bool" where
  "limit_reached limit acc \<longleftrightarrow> (case limit of None \<Rightarrow> False | Some l \<Rightarrow> l \<le> int (length acc))"

fun poll_loop :: "nacl \<Rightarrow> (announcement \<Rightarrow> unit res) \<Rightarrow> int option \<Rightarrow> bool \<Rightarrow> int \<Rightarrow> int \<Rightarrow> (nat \<times> pyval option) list \<Rightarrow> announcement list \<Rightarrow> int
    \<Rightarrow> (announcement list \<times> int) res" where
  "poll_loop n stores limit include_expired now since [] acc cursor = Inr (acc, cursor)"
| "poll_loop n stores limit include_expired now since ((seq, raw) # records) acc cursor =
     (if int seq \<le> since then poll_loop n stores limit include_expired now since records acc cursor
      else bindR (safe_parse n stores raw) (\<lambda>parsed. case parsed of
        None \<Rightarrow> poll_loop n stores limit include_expired now since records acc (int seq)
      | Some a \<Rightarrow> bindR (if include_expired then Inr False else is_expired a now) (\<lambda>dead.
          if dead then poll_loop n stores limit include_expired now since records acc (int seq)
          else if limit_reached limit acc then Inr (acc, cursor)
          else poll_loop n stores limit include_expired now since records (acc @ [a]) (int seq))))"

definition poll :: "nacl \<Rightarrow> (announcement \<Rightarrow> unit res) \<Rightarrow> market_feed \<Rightarrow> int \<Rightarrow> int option \<Rightarrow> bool \<Rightarrow> int \<Rightarrow> (announcement list \<times> int) res" where
  "poll n stores fd since limit include_expired now = poll_loop n stores limit include_expired now since (enumerate 0 (fd_lines fd)) [] since"

definition latest_seq :: "market_feed \<Rightarrow> int" where
  "latest_seq fd = int (length (fd_lines fd)) - 1"

fun feed_find :: "nacl \<Rightarrow> (announcement \<Rightarrow> unit res) \<Rightarrow> (announcement \<Rightarrow> bool res) \<Rightarrow> pyval option list \<Rightarrow> announcement option res" where
  "feed_find n stores wanted [] = Inr None"
| "feed_find n stores wanted (raw # lines) =
     bindR (safe_parse n stores raw) (\<lambda>parsed. case parsed of
       None \<Rightarrow> feed_find n stores wanted lines
     | Some a \<Rightarrow> bindR (wanted a) (\<lambda>w. if w then Inr (Some a) else feed_find n stores wanted lines))"

definition drop_expired :: "bool \<Rightarrow> int \<Rightarrow> announcement option \<Rightarrow> announcement option res" where
  "drop_expired include_expired now found = (case found of
     None \<Rightarrow> Inr None
   | Some a \<Rightarrow> if include_expired then Inr (Some a) else bindR (is_expired a now) (\<lambda>dead. Inr (if dead then None else Some a)))"

definition feed_get :: "nacl \<Rightarrow> (announcement \<Rightarrow> unit res) \<Rightarrow> market_feed \<Rightarrow> string \<Rightarrow> bool \<Rightarrow> int \<Rightarrow> announcement option res" where
  "feed_get n stores fd announcement_id include_expired now =
     bindR (feed_find n stores (\<lambda>a. Inr (an_id a = PStr announcement_id)) (fd_lines fd)) (drop_expired include_expired now)"

definition federation_key_ok :: "string \<Rightarrow> bool" where
  "federation_key_ok k \<longleftrightarrow> startswith k ''nth-ann-sha256:'' \<and> length k = 79 \<and> list_all is_lower_hex (drop 15 k)"

definition get_by_federation_key :: "nacl \<Rightarrow> (announcement \<Rightarrow> unit res) \<Rightarrow> market_feed \<Rightarrow> string \<Rightarrow> bool \<Rightarrow> int \<Rightarrow> announcement option res" where
  "get_by_federation_key n stores fd key include_expired now =
     (if \<not> federation_key_ok key then Inr None
      else bindR (feed_find n stores (\<lambda>a. bindR (announcement_federation_key a) (\<lambda>k. Inr (k = key))) (fd_lines fd)) (drop_expired include_expired now))"

section \<open>The view rebuilt from the spine\<close>

record market_view =
  mv_anns :: "(pyval \<times> announcement) list"
  mv_claimed :: "string list"

definition market_apply :: "nacl \<Rightarrow> spine_event \<Rightarrow> market_view \<Rightarrow> market_view res" where
  "market_apply n ev st =
     (if ev_type ev = event_market_announce then
        (case ann_from_dict (PDict (ev_payload ev)) of
           Inl _ \<Rightarrow> Inr st
         | Inr a \<Rightarrow> bindR (verify_announcement n a) (\<lambda>(ok, _).
             Inr (if ok \<and> map_of (mv_anns st) (an_id a) = None then st\<lparr>mv_anns := mv_anns st @ [(an_id a, a)]\<rparr> else st)))
      else if ev_type ev = event_market_claim then
        (case dget_or (ev_payload ev) ''announcement_id'' PNone of
           PStr aid \<Rightarrow> Inr (st\<lparr>mv_claimed := if aid \<in> set (mv_claimed st) then mv_claimed st else mv_claimed st @ [aid]\<rparr>)
         | _ \<Rightarrow> Inr st)
      else Inr st)"

definition market_get :: "market_view \<Rightarrow> string \<Rightarrow> announcement option" where
  "market_get st announcement_id = map_of (mv_anns st) (PStr announcement_id)"

fun open_scan :: "int \<Rightarrow> bool \<Rightarrow> string list \<Rightarrow> (pyval \<times> announcement) list \<Rightarrow> announcement list res" where
  "open_scan now include_claimed claimed [] = Inr []"
| "open_scan now include_claimed claimed ((aid, a) # anns) =
     (if \<not> include_claimed \<and> aid \<in> PStr ` set claimed then open_scan now include_claimed claimed anns
      else bindR (is_expired a now) (\<lambda>dead. bindR (open_scan now include_claimed claimed anns) (\<lambda>rest. Inr (if dead then rest else a # rest))))"

definition market_open :: "market_view \<Rightarrow> int \<Rightarrow> bool \<Rightarrow> announcement list res" where
  "market_open st now include_claimed = open_scan now include_claimed (mv_claimed st) (mv_anns st)"

section \<open>Catching up with the cursor\<close>

text \<open>The announcement that a line contributes to a poll, if any; a feed whose lines do not make the reader raise.\<close>

definition live_at :: "nacl \<Rightarrow> (announcement \<Rightarrow> unit res) \<Rightarrow> bool \<Rightarrow> int \<Rightarrow> pyval option \<Rightarrow> announcement option" where
  "live_at n stores include_expired now raw = (case safe_parse n stores raw of
     Inr (Some a) \<Rightarrow> if include_expired \<or> is_expired a now = Inr False then Some a else None
   | _ \<Rightarrow> None)"

definition live :: "nacl \<Rightarrow> (announcement \<Rightarrow> unit res) \<Rightarrow> bool \<Rightarrow> int \<Rightarrow> pyval option list \<Rightarrow> announcement list" where
  "live n stores include_expired now lines = List.map_filter (live_at n stores include_expired now) lines"

definition lines_ok :: "nacl \<Rightarrow> (announcement \<Rightarrow> unit res) \<Rightarrow> pyval option list \<Rightarrow> bool" where
  "lines_ok n stores lines \<longleftrightarrow> (\<forall>raw \<in> set lines. \<exists>p. safe_parse n stores raw = Inr p)"

lemma safe_parse_verified: "safe_parse n stores raw = Inr (Some a) \<Longrightarrow> \<exists>r. verify_announcement n a = Inr (True, r)"
  by (auto simp: safe_parse_def bindR_Inr_iff split: option.splits pyval.splits sum.splits if_splits)

lemma verified_is_expired:
  assumes "verify_announcement n a = Inr (True, r)"
  obtains i where "an_not_after a = PInt i" "is_expired a now = Inr (i \<noteq> 0 \<and> i < now)"
proof -
  obtain i where "an_not_after a = PInt i" using assms by (elim verified_announcementE) (auto simp: ann_typed_def)
  then show thesis using that by (auto simp: is_expired_def int_above_def num_of_def)
qed

lemma live_simps [simp]: "live n stores x now [] = []"
  "live n stores x now (raw # lines) = (case live_at n stores x now raw of None \<Rightarrow> live n stores x now lines | Some a \<Rightarrow> a # live n stores x now lines)"
  "live n stores x now (ls @ ms) = live n stores x now ls @ live n stores x now ms"
  by (simp_all add: live_def map_filter_def split: option.splits)

lemma lines_ok_simps [simp]: "lines_ok n stores []" "lines_ok n stores (raw # lines) \<longleftrightarrow> (\<exists>p. safe_parse n stores raw = Inr p) \<and> lines_ok n stores lines"
  "lines_ok n stores (ls @ ms) \<longleftrightarrow> lines_ok n stores ls \<and> lines_ok n stores ms"
  by (auto simp: lines_ok_def)

text \<open>A poll that looked at the first \<open>j\<close> of the unread lines.\<close>

definition polled :: "nacl \<Rightarrow> (announcement \<Rightarrow> unit res) \<Rightarrow> int option \<Rightarrow> bool \<Rightarrow> int \<Rightarrow> pyval option list \<Rightarrow> announcement list \<Rightarrow> int \<Rightarrow> nat
    \<Rightarrow> (announcement list \<times> int) res \<Rightarrow> bool" where
  "polled n stores limit x now lines acc cursor j r \<longleftrightarrow> j \<le> length lines
     \<and> r = Inr (acc @ live n stores x now (take j lines), cursor + int j)
     \<and> (limit_reached limit (acc @ live n stores x now (take j lines)) \<or> j = length lines)"

lemma polled_skip:
  assumes "polled n stores limit x now lines acc (cursor + 1) j r" "live_at n stores x now raw = None"
  shows "polled n stores limit x now (raw # lines) acc cursor (Suc j) r"
  using assms by (simp add: polled_def)

lemma polled_take:
  assumes "polled n stores limit x now lines (acc @ [a]) (cursor + 1) j r" "live_at n stores x now raw = Some a"
  shows "polled n stores limit x now (raw # lines) acc cursor (Suc j) r"
  using assms by (simp add: polled_def)

lemma poll_loop_spec:
  assumes "lines_ok n stores lines" "since < int k"
  shows "\<exists>j. polled n stores limit x now lines acc (int k - 1) j (poll_loop n stores limit x now since (enumerate k lines) acc (int k - 1))"
  using assms
proof (induction lines arbitrary: k acc)
  case (Cons raw lines)
  obtain p where p: "safe_parse n stores raw = Inr p" using Cons.prems(1) by auto
  have IH: "\<exists>j. polled n stores limit x now lines acc (int k - 1 + 1) j (poll_loop n stores limit x now since (enumerate (Suc k) lines) acc (int k))" for acc
    using Cons.IH [of "Suc k" acc] Cons.prems by simp
  show ?case
  proof (cases "live_at n stores x now raw")
    case None
    then have "poll_loop n stores limit x now since (enumerate k (raw # lines)) acc (int k - 1) = poll_loop n stores limit x now since (enumerate (Suc k) lines) acc (int k)"
    proof (cases p)
      case (Some a)
      obtain r where "verify_announcement n a = Inr (True, r)" using p Some safe_parse_verified by blast
      then obtain b where "is_expired a now = Inr b" using verified_is_expired by metis
      then have "\<not> x \<and> is_expired a now = Inr True" using None p Some by (cases b) (auto simp: live_at_def split: if_splits)
      then show ?thesis using Cons.prems(2) p Some by simp
    qed (use Cons.prems(2) p in simp)
    then show ?thesis using polled_skip [OF _ None] IH [of acc] by metis
  next
    case (Some a)
    then have a: "p = Some a" "x \<or> is_expired a now = Inr False" using p by (auto simp: live_at_def split: option.splits if_splits)
    show ?thesis
    proof (cases "limit_reached limit acc")
      case True
      then have "poll_loop n stores limit x now since (enumerate k (raw # lines)) acc (int k - 1) = Inr (acc, int k - 1)"
        using Cons.prems(2) p a by auto
      then show ?thesis using True by (intro exI [of _ 0]) (simp add: polled_def)
    next
      case False
      then have "poll_loop n stores limit x now since (enumerate k (raw # lines)) acc (int k - 1) = poll_loop n stores limit x now since (enumerate (Suc k) lines) (acc @ [a]) (int k)"
        using Cons.prems(2) p a by auto
      then show ?thesis using polled_take [OF _ Some] IH [of "acc @ [a]"] by metis
    qed
  qed
qed (simp add: polled_def)


lemma poll_loop_skip: "\<forall>(seq, raw) \<in> set pre. int seq \<le> since \<Longrightarrow> poll_loop n stores limit x now since (pre @ rs) acc cursor = poll_loop n stores limit x now since rs acc cursor"
  by (induction pre) auto

lemma poll_unread:
  assumes "lines_ok n stores (fd_lines fd)" "-1 \<le> since"
  shows "\<exists>j. polled n stores limit x now (drop (nat (since + 1)) (fd_lines fd)) [] since j (poll n stores fd since limit x now)"
proof -
  let ?m = "nat (since + 1)"
  have e: "enumerate 0 (fd_lines fd) = enumerate 0 (take ?m (fd_lines fd)) @ enumerate (length (take ?m (fd_lines fd))) (drop ?m (fd_lines fd))"
    by (metis append_take_drop_id enumerate_append_eq add_0)
  have "\<forall>(seq, raw) \<in> set (enumerate 0 (take ?m (fd_lines fd))). int seq \<le> since"
    using assms(2) by (auto simp: in_set_enumerate_eq)
  then have p: "poll n stores fd since limit x now = poll_loop n stores limit x now since (enumerate (length (take ?m (fd_lines fd))) (drop ?m (fd_lines fd))) [] since"
    unfolding poll_def e by (rule poll_loop_skip)
  show ?thesis
  proof (cases "?m \<le> length (fd_lines fd)")
    case True
    then have k: "length (take ?m (fd_lines fd)) = ?m" "int ?m - 1 = since" using assms(2) by auto
    have "lines_ok n stores (drop ?m (fd_lines fd))" using assms(1) in_set_dropD by (fastforce simp: lines_ok_def)
    from poll_loop_spec [OF this, of since ?m] show ?thesis unfolding p k using k(2) by fastforce
  qed (simp add: p polled_def)
qed

lemma from_to_dict: "ann_from_dict (PDict (ann_to_dict a)) = Inr a"
proof -
  have k: "set (map fst (ann_to_dict a)) \<subseteq> PStr ` set ann_field_names" "dhas (ann_to_dict a) ''announcement_id''"
    "dhas (ann_to_dict a) ''publisher_did''" "dhas (ann_to_dict a) ''title''"
    by (simp_all add: ann_to_dict_def obj_def ann_field_names_def dhas_def)
  have "ann_from_fields (ann_to_dict a) = a"
    by (simp add: ann_from_fields_def ann_to_dict_def dget_or_def dget_obj)
  then show ?thesis using k by (simp add: ann_from_dict_def)
qed

lemma publish_cases:
  obtains e where "publish n stores now a fd = (fd, Inl e)"
  | fd' where "publish n stores now a fd = (fd', Inr ())" "fd_lines fd' = fd_lines fd @ [Some (PDict (ann_to_dict a))]"
      "safe_parse n stores (Some (PDict (ann_to_dict a))) = Inr (Some a)" "verify_announcement n a = Inr (True, [])"
proof (cases "bindR (verify_announcement n a) (\<lambda>(ok, reason).
    ensure ok ValueError (''refusing to publish unverifiable announcement '' @ py_repr (an_id a) @ '': '' @ reason) (require_listing_binding stores a))")
  case (Inl e)
  then show ?thesis using that(1) by (simp add: publish_def)
next
  case (Inr u)
  then obtain r where v: "verify_announcement n a = Inr (True, r)" "require_listing_binding stores a = Inr ()"
    by (auto simp: bindR_Inr_iff ensure_Inr_iff)
  then have "r = []" by (blast elim: verified_announcementE)
  with v show ?thesis using that(2) Inr by (simp add: publish_def safe_parse_def from_to_dict)
qed

text \<open>A reader and the publishers: publications, failed ones included, and polls with any limits, in any order, under one answer of the stores and one clock reading of the reader.\<close>

datatype feed_op = Publish announcement int | Poll "int option"

fun feed_session :: "nacl \<Rightarrow> (announcement \<Rightarrow> unit res) \<Rightarrow> bool \<Rightarrow> int \<Rightarrow> feed_op list \<Rightarrow> market_feed \<Rightarrow> int \<Rightarrow> (market_feed \<times> int \<times> announcement list) res" where
  "feed_session n stores x now [] fd cursor = Inr (fd, cursor, [])"
| "feed_session n stores x now (Publish a t # ops) fd cursor = feed_session n stores x now ops (fst (publish n stores t a fd)) cursor"
| "feed_session n stores x now (Poll limit # ops) fd cursor =
     bindR (poll n stores fd cursor limit x now) (\<lambda>(as, cursor').
     bindR (feed_session n stores x now ops fd cursor') (\<lambda>(fd', cursor'', bs). Inr (fd', cursor'', as @ bs)))"

definition unread :: "nacl \<Rightarrow> (announcement \<Rightarrow> unit res) \<Rightarrow> bool \<Rightarrow> int \<Rightarrow> market_feed \<Rightarrow> int \<Rightarrow> announcement list" where
  "unread n stores x now fd cursor = live n stores x now (drop (nat (cursor + 1)) (fd_lines fd))"

lemma publish_lines:
  "lines_ok n stores (fd_lines fd) \<Longrightarrow> lines_ok n stores (fd_lines (fst (publish n stores t a fd)))"
  "\<exists>new. fd_lines (fst (publish n stores t a fd)) = fd_lines fd @ new"
  by (rule publish_cases [of n stores t a fd]; simp)+

lemma poll_step:
  assumes "lines_ok n stores (fd_lines fd)" "-1 \<le> c" "c < int (length (fd_lines fd))"
  obtains as c' where "poll n stores fd c limit x now = Inr (as, c')" "c \<le> c'" "c' < int (length (fd_lines fd))"
    "\<forall>new fd'. fd_lines fd' = fd_lines fd @ new \<longrightarrow> unread n stores x now fd' c = as @ unread n stores x now fd' c'"
    "limit = None \<longrightarrow> c' = latest_seq fd"
proof -
  let ?U = "drop (nat (c + 1)) (fd_lines fd)"
  obtain j where j: "j \<le> length ?U" "poll n stores fd c limit x now = Inr (live n stores x now (take j ?U), c + int j)"
    "limit_reached limit (live n stores x now (take j ?U)) \<or> j = length ?U"
    using poll_unread [OF assms(1,2), of limit x now] by (auto simp: polled_def)
  have u: "unread n stores x now fd' c = live n stores x now (take j ?U) @ unread n stores x now fd' (c + int j)"
    if "fd_lines fd' = fd_lines fd @ new" for new fd'
  proof -
    have m: "nat (c + 1) \<le> length (fd_lines fd)" "nat (c + int j + 1) = nat (c + 1) + j" using assms(2,3) by auto
    have "drop (nat (c + 1)) (fd_lines fd') = take j ?U @ drop (nat (c + 1) + j) (fd_lines fd')"
      using m j(1) that by (simp add: add.commute flip: drop_drop)
    then show ?thesis unfolding unread_def m(2) by simp
  qed
  show thesis
  proof (rule that [OF j(2)])
    show "c \<le> c + int j" by simp
    show "c + int j < int (length (fd_lines fd))" using j(1) assms(2,3) by auto
    show "limit = None \<longrightarrow> c + int j = latest_seq fd" using j(1,3) assms(2,3) by (auto simp: limit_reached_def latest_seq_def)
  qed (use u in blast)
qed


lemma feed_session_grows:
  "feed_session n stores x now ops fd c = Inr (fd', c', as) \<Longrightarrow> \<exists>new. fd_lines fd' = fd_lines fd @ new"
proof (induction ops arbitrary: fd c as)
  case (Cons op ops)
  then show ?case
  proof (cases op)
    case (Publish a t)
    then show ?thesis using Cons publish_lines(2) [of n stores t a fd] by fastforce
  qed (auto simp: bindR_Inr_iff)
qed simp

text \<open>Within such a session nothing is missed and nothing comes twice: whatever the order of publications and polls and whatever the limits, what a reader
  received since its cursor, followed by what is still unread, is exactly the sequence of live announcements of the feed from that cursor
  on; after a poll without limit nothing is unread.\<close>

lemma feed_catch_up:
  assumes "lines_ok n stores (fd_lines fd)" "-1 \<le> c" "c < int (length (fd_lines fd))"
  shows "\<exists>fd' c' as. feed_session n stores x now ops fd c = Inr (fd', c', as)
    \<and> unread n stores x now fd' c = as @ unread n stores x now fd' c'
    \<and> (ops \<noteq> [] \<and> List.last ops = Poll None \<longrightarrow> unread n stores x now fd' c' = [])"
  using assms
proof (induction ops arbitrary: fd c)
  case (Cons op ops)
  show ?case
  proof (cases op)
    case (Publish a t)
    let ?f = "fst (publish n stores t a fd)"
    have "lines_ok n stores (fd_lines ?f)" "c < int (length (fd_lines ?f))"
      using publish_lines(1) [OF Cons.prems(1), of t a] publish_lines(2) [of n stores t a fd] Cons.prems by auto
    from Cons.IH [OF this(1) Cons.prems(2) this(2)] show ?thesis by (auto simp: Publish)
  next
    case (Poll limit)
    obtain as c' where p: "poll n stores fd c limit x now = Inr (as, c')" "c \<le> c'" "c' < int (length (fd_lines fd))"
      "\<forall>new fd'. fd_lines fd' = fd_lines fd @ new \<longrightarrow> unread n stores x now fd' c = as @ unread n stores x now fd' c'" "limit = None \<longrightarrow> c' = latest_seq fd"
      by (rule poll_step [OF Cons.prems, of limit x now])
    obtain fd' c'' bs where s: "feed_session n stores x now ops fd c' = Inr (fd', c'', bs)"
      "unread n stores x now fd' c' = bs @ unread n stores x now fd' c''"
      "ops \<noteq> [] \<and> List.last ops = Poll None \<longrightarrow> unread n stores x now fd' c'' = []"
      using Cons.IH [OF Cons.prems(1) _ p(3)] p(2) Cons.prems(2) by fastforce
    have "unread n stores x now fd' c = as @ unread n stores x now fd' c'" using feed_session_grows [OF s(1)] p(4) by blast
    moreover have "unread n stores x now fd' c'' = []" if "ops = []" "limit = None"
      using that s(1) p(5) by (auto simp: unread_def latest_seq_def)
    ultimately show ?thesis using p(1) s Poll by auto
  qed
qed simp

text \<open>C30. Polling ends: a reader that keeps polling a quiet feed (no publication, and the same clock reading and answers of the listing stores throughout) with any positive limit has read everything after at most as many polls as there are
  lines beyond its cursor, ends with the cursor on the last line, and received exactly the live announcements in order.\<close>

theorem polling_drains:
  assumes "lines_ok n stores (fd_lines fd)" "-1 \<le> c" "c < int (length (fd_lines fd))" "1 \<le> l" "latest_seq fd - c \<le> int k"
  shows "\<exists>as. feed_session n stores x now (replicate k (Poll (Some l))) fd c = Inr (fd, latest_seq fd, as) \<and> as = unread n stores x now fd c"
  using assms(2,3,5)
proof (induction k arbitrary: c)
  case (Suc k)
  let ?U = "drop (nat (c + 1)) (fd_lines fd)"
  obtain j where j: "j \<le> length ?U" "poll n stores fd c (Some l) x now = Inr (live n stores x now (take j ?U), c + int j)"
    "l \<le> int (length (live n stores x now (take j ?U))) \<or> j = length ?U"
    using poll_unread [OF assms(1) Suc.prems(1), of "Some l" x now] by (auto simp: polled_def limit_reached_def)
  have "latest_seq fd - (c + int j) \<le> int k"
    using j(1,3) Suc.prems assms(4) by (cases j) (auto simp: latest_seq_def)
  moreover have "c + int j < int (length (fd_lines fd))" using j(1) Suc.prems by auto
  ultimately obtain as where as: "feed_session n stores x now (replicate k (Poll (Some l))) fd (c + int j) = Inr (fd, latest_seq fd, as)"
    "as = unread n stores x now fd (c + int j)"
    using Suc.IH [of "c + int j"] Suc.prems(1) by auto
  have "unread n stores x now fd c = live n stores x now (take j ?U) @ as"
  proof -
    have "nat (c + int j + 1) = nat (c + 1) + j" using Suc.prems(1) by auto
    then have "drop (nat (c + 1)) (fd_lines fd) = take j ?U @ drop (nat (c + int j + 1)) (fd_lines fd)" by (simp add: add.commute flip: drop_drop)
    then show ?thesis unfolding as(2) unread_def by (metis live_simps(3))
  qed
  then show ?case using j(2) as(1) by simp
qed (auto simp: latest_seq_def unread_def)

section \<open>Looking an announcement up\<close>

lemma drop_expired_True: "drop_expired True t = Inr"
  by (rule ext) (simp add: drop_expired_def split: option.splits)

lemma feed_find_append: "feed_find n stores w (ls @ ms) = bindR (feed_find n stores w ls) (\<lambda>r. case r of None \<Rightarrow> feed_find n stores w ms | Some a \<Rightarrow> Inr (Some a))"
proof (induction ls)
  case (Cons raw ls)
  show ?case
  proof (cases "safe_parse n stores raw")
    case (Inr p)
    with Cons show ?thesis by (cases p; cases "w (the p)") auto
  qed simp
qed simp

text \<open>Publishing and looking up fit together: after a successful publication a lookup by identifier returns the announcement, unless
  an earlier one holds the identifier, which stays; lookups of other identifiers are unchanged; a refused publication changes nothing.\<close>

lemma publish_then_get:
  assumes "feed_get n stores fd aid True t = Inr r"
  shows "case publish n stores now a fd of
      (fd', Inl _) \<Rightarrow> fd' = fd
    | (fd', Inr _) \<Rightarrow> feed_get n stores fd' aid True t = Inr (case r of Some b \<Rightarrow> Some b | None \<Rightarrow> if an_id a = PStr aid then Some a else None)
        \<and> latest_seq fd' = latest_seq fd + 1"
proof (rule publish_cases [of n stores now a fd])
  fix fd' assume p: "publish n stores now a fd = (fd', Inr ())" "fd_lines fd' = fd_lines fd @ [Some (PDict (ann_to_dict a))]"
    "safe_parse n stores (Some (PDict (ann_to_dict a))) = Inr (Some a)"
  have g: "feed_find n stores (\<lambda>a. Inr (an_id a = PStr aid)) (fd_lines fd) = Inr r"
    using assms by (auto simp: feed_get_def drop_expired_def bindR_Inr_iff split: option.splits)
  show ?thesis using p g by (auto simp: feed_get_def feed_find_append drop_expired_def latest_seq_def split: option.splits)
qed simp


section \<open>The view rebuilt from the spine\<close>

definition view_inv :: "nacl \<Rightarrow> market_view \<Rightarrow> bool" where
  "view_inv n st \<longleftrightarrow> (\<forall>(k, a) \<in> set (mv_anns st). k = an_id a \<and> verify_announcement n a = Inr (True, [])) \<and> distinct (map fst (mv_anns st))"

definition view_later :: "market_view \<Rightarrow> market_view \<Rightarrow> bool" where
  "view_later st st' \<longleftrightarrow> map_of (mv_anns st) \<subseteq>\<^sub>m map_of (mv_anns st') \<and> set (mv_claimed st) \<subseteq> set (mv_claimed st')"

lemma market_apply_keeps:
  assumes "view_inv n st" "market_apply n ev st = Inr st'"
  shows "view_inv n st' \<and> view_later st st'"
proof (cases "st' = st")
  case False
  then consider a r where "verify_announcement n a = Inr (True, r)" "map_of (mv_anns st) (an_id a) = None" "st' = st\<lparr>mv_anns := mv_anns st @ [(an_id a, a)]\<rparr>"
    | aid where "st' = st\<lparr>mv_claimed := mv_claimed st @ [aid]\<rparr>"
    using assms(2) by (auto simp: market_apply_def bindR_Inr_iff split: sum.splits pyval.splits if_splits)
  then show ?thesis
  proof cases
    case 1
    have "r = []" using 1(1) by (blast elim: verified_announcementE)
    moreover have "an_id a \<notin> fst ` set (mv_anns st)" using 1(2) by (simp add: map_of_eq_None_iff)
    ultimately show ?thesis using 1 assms(1) by (auto simp: view_inv_def view_later_def map_add_def map_le_def dom_def split: option.splits)
  next
    case 2
    then show ?thesis using assms(1) by (auto simp: view_inv_def view_later_def)
  qed
qed (use assms in \<open>simp add: view_later_def\<close>)

interpretation market_view: projection "\<lambda>_. market_apply n" "{event_market_announce, event_market_claim}" "view_inv n" view_later for n
proof
  show "view_inv n st \<Longrightarrow> market_apply n e st = Inr st' \<Longrightarrow> view_inv n st' \<and> view_later st st'" for e st st' by (rule market_apply_keeps)
qed (auto simp: market_apply_def view_later_def intro: map_le_trans)

text \<open>Announcing events whose payloads are the lines of a feed: the view and the feed agree on every lookup.\<close>

definition announced :: "spine_event list \<Rightarrow> pyval option list" where
  "announced es = map (\<lambda>e. Some (PDict (ev_payload e))) (filter (\<lambda>e. ev_type e = event_market_announce) es)"

lemma announce_not_claim: "event_market_announce \<noteq> event_market_claim"
  by (simp add: event_market_announce_def event_market_claim_def)

lemma market_apply_parse:
  assumes "ev_type ev = event_market_announce" "safe_parse n (\<lambda>_. Inr ()) (Some (PDict (ev_payload ev))) = Inr p"
  shows "market_apply n ev st = Inr (case p of None \<Rightarrow> st
    | Some a \<Rightarrow> if map_of (mv_anns st) (an_id a) = None then st\<lparr>mv_anns := mv_anns st @ [(an_id a, a)]\<rparr> else st)"
proof (cases "ann_from_dict (PDict (ev_payload ev))")
  case (Inr a)
  then obtain ok r where v: "verify_announcement n a = Inr (ok, r)" using assms(2) by (auto simp: safe_parse_def bindR_Inr_iff)
  have "require_listing_binding (\<lambda>_. Inr ()) a = Inr ()" if ok
  proof -
    have "is_str (an_kind a)" using v that by (auto simp: ann_typed_def elim!: verified_announcementE)
    then show ?thesis by (auto simp: require_listing_binding_def in_str_set_def is_str_def hashable_def split: pyval.splits)
  qed
  then have "p = (if ok then Some a else None)" using assms(2) v Inr by (auto simp: safe_parse_def split: if_splits)
  then show ?thesis using assms(1) Inr v by (simp add: market_apply_def)
qed (use assms in \<open>auto simp: market_apply_def safe_parse_def\<close>)

lemma market_apply_other:
  assumes "ev_type ev \<noteq> event_market_announce"
  shows "\<exists>c. market_apply n ev st = Inr (st\<lparr>mv_claimed := c\<rparr>)"
proof -
  have "\<exists>c. st = st\<lparr>mv_claimed := c\<rparr>" by (rule exI [of _ "mv_claimed st"]) simp
  then show ?thesis using assms by (cases "dget_or (ev_payload ev) ''announcement_id'' PNone") (auto simp: market_apply_def)
qed

text \<open>The spine view agrees with the feed: replaying a log whose announcement events carry the lines of a feed gives, for every
  identifier, the announcement that the feed's lookup returns (the first verified one), as long as no announcement needs the listing stores.\<close>

lemma market_view_matches_feed:
  assumes "lines_ok n (\<lambda>_. Inr ()) (announced es)"
  shows "\<exists>st. replay (market_apply n) es \<lparr>mv_anns = [], mv_claimed = []\<rparr> = Inr st
    \<and> (\<forall>aid. feed_get n (\<lambda>_. Inr ()) \<lparr>fd_lines = announced es, fd_spine = None\<rparr> aid True 0 = Inr (market_get st aid))"
proof -
  let ?find = "\<lambda>es aid. feed_find n (\<lambda>_. Inr ()) (\<lambda>a. Inr (an_id a = PStr aid)) (announced es)"
  have "\<exists>st. replay (market_apply n) es st0 = Inr st \<and> (\<forall>aid. bindR (?find es aid) (\<lambda>r. Inr (case market_get st0 aid of None \<Rightarrow> r | Some a \<Rightarrow> Some a)) = Inr (market_get st aid))" for st0
    using assms
  proof (induction es arbitrary: st0)
    case (Cons e es)
    show ?case
    proof (cases "ev_type e = event_market_announce")
      case True
      then obtain p where p: "safe_parse n (\<lambda>_. Inr ()) (Some (PDict (ev_payload e))) = Inr p" and ok: "lines_ok n (\<lambda>_. Inr ()) (announced es)"
        using Cons.prems by (auto simp: announced_def)
      let ?st = "case p of None \<Rightarrow> st0 | Some a \<Rightarrow> if map_of (mv_anns st0) (an_id a) = None then st0\<lparr>mv_anns := mv_anns st0 @ [(an_id a, a)]\<rparr> else st0"
      obtain st where st: "replay (market_apply n) es ?st = Inr st"
        "\<And>aid. bindR (?find es aid) (\<lambda>r. Inr (case market_get ?st aid of None \<Rightarrow> r | Some a \<Rightarrow> Some a)) = Inr (market_get st aid)"
        using Cons.IH [OF ok] by blast
      have "bindR (?find (e # es) aid) (\<lambda>r. Inr (case market_get st0 aid of None \<Rightarrow> r | Some a \<Rightarrow> Some a)) = Inr (market_get st aid)" for aid
        using st(2) [of aid] True p
        by (cases p; cases "?find es aid") (auto simp: announced_def market_get_def map_add_def split: option.splits if_splits)
      then show ?thesis using st(1) market_apply_parse [OF True p, of st0] by auto
    next
      case False
      then obtain c where c: "market_apply n e st0 = Inr (st0\<lparr>mv_claimed := c\<rparr>)" using market_apply_other by blast
      have "announced (e # es) = announced es" using False by (simp add: announced_def)
      then show ?thesis using Cons.IH [of "st0\<lparr>mv_claimed := c\<rparr>"] Cons.prems c by (simp add: market_get_def)
    qed
  qed (simp add: announced_def market_get_def split: option.splits)
  from this [of "\<lparr>mv_anns = [], mv_claimed = []\<rparr>"] show ?thesis
    by (auto simp: feed_get_def drop_expired_True market_get_def [of "\<lparr>mv_anns = [], mv_claimed = []\<rparr>"] bindR_Inr_iff)
qed


section \<open>A line that stops the reader\<close>

text \<open>One malformed record stops the market: if a line of the feed, or the payload of an announcement event, has a list or an object as its
  kind, then every poll and lookup that reaches it, and every replay of the spine, raises \<open>TypeError\<close>; the callers catch exceptions of
  parsing only, not of verification.\<close>

lemma unhashable_kind_stops_market:
  assumes "nacl_available n" "\<not> hashable (an_kind a)" "\<not> list_ex ann_blank (ann_required a)"
    "lines_ok n stores pre" "fd_lines fd = pre @ Some (PDict (ann_to_dict a)) # post"
    "feed_find n stores (\<lambda>a. Inr (an_id a = PStr aid)) pre = Inr None"
    "ev_type ev = event_market_announce" "ev_payload ev = ann_to_dict a" "replay (market_apply n) es st = Inr st'"
  shows "poll n stores fd (-1) None x now = raise TypeError ''unhashable type''
    \<and> feed_get n stores fd aid x now = raise TypeError ''unhashable type''
    \<and> replay (market_apply n) (es @ ev # rest) st = raise TypeError ''unhashable type''"
proof -
  have v: "verify_announcement n a = raise TypeError ''unhashable type''"
    using assms(1-3) by (simp add: verify_announcement_def validate_announcement_schema_def schema_identity_def in_str_set_def)
  have s: "safe_parse n stores (Some (PDict (ann_to_dict a))) = raise TypeError ''unhashable type''"
    by (simp add: safe_parse_def from_to_dict v)
  have "poll_loop n stores None x now (-1) (enumerate k pre @ rs) acc c = poll_loop n stores None x now (-1) rs (acc @ live n stores x now pre) (if pre = [] then c else int k + int (length pre) - 1)" for k rs acc c
    using assms(4)
  proof (induction pre arbitrary: k acc c)
    case (Cons raw pre)
    obtain p where p: "safe_parse n stores raw = Inr p" using Cons.prems by auto
    have e: "\<exists>b. is_expired b' now = Inr b" if "p = Some b'" for b'
      using p that safe_parse_verified verified_is_expired by metis
    have "poll_loop n stores None x now (-1) (enumerate k (raw # pre) @ rs) acc c
      = poll_loop n stores None x now (-1) (enumerate (Suc k) pre @ rs) (acc @ live n stores x now [raw]) (int k)"
      using p e by (cases p) (auto simp: live_at_def limit_reached_def split: if_splits)
    then show ?case using Cons by (auto split: option.splits)
  qed simp
  then have "poll n stores fd (-1) None x now = raise TypeError ''unhashable type''"
    unfolding poll_def assms(5) by (simp add: enumerate_append_eq s)
  moreover have "feed_get n stores fd aid x now = raise TypeError ''unhashable type''"
    unfolding feed_get_def assms(5) by (simp add: feed_find_append assms(6) s)
  moreover have "market_apply n ev st' = raise TypeError ''unhashable type''"
    using assms(7,8) by (simp add: market_apply_def from_to_dict v)
  ultimately show ?thesis using assms(9) by (simp add: replay_append)
qed


section \<open>A concrete feed\<close>

definition empty_feed :: market_feed where
  "empty_feed = \<lparr>fd_lines = [], fd_spine = None\<rparr>"

definition announce_event :: "announcement \<Rightarrow> spine_event" where
  "announce_event a = \<lparr>ev_seq = 0, ev_prev_hash = genesis_prev, ev_type = event_market_announce, ev_payload = ann_to_dict a, ev_author_did = [], ev_ts_ms = 0,
     ev_content_hash = [], ev_sig = []\<rparr>"

lemma demo_published:
  obtains fd' where "publish demo_nacl stores t demo_ann fd = (fd', Inr ())" "fd_lines fd' = fd_lines fd @ [Some (PDict (ann_to_dict demo_ann))]"
    "safe_parse demo_nacl stores (Some (PDict (ann_to_dict demo_ann))) = Inr (Some demo_ann)"
proof -
  have "require_listing_binding stores demo_ann = Inr ()"
    by (simp add: require_listing_binding_def demo_ann(4) in_str_set_def hashable_def ann_kind_v2_def ann_kind_v3_def trade_offer_kind_v1_def image_iff)
  then have "publish demo_nacl stores t demo_ann fd \<noteq> (fd, Inl e)" for e by (simp add: publish_def demo_ann_ok)
  then show thesis using that by (rule_tac publish_cases [of demo_nacl stores t demo_ann fd]) auto
qed

lemma feed_catch_up_demo:
  "\<exists>fd' c'. feed_session demo_nacl (\<lambda>_. Inr ()) True 9 [Publish demo_ann 1, Poll (Some 1), Poll None] empty_feed (-1) = Inr (fd', c', [demo_ann])"
proof -
  obtain f where f: "publish demo_nacl (\<lambda>_. Inr ()) 1 demo_ann empty_feed = (f, Inr ())" "fd_lines f = [Some (PDict (ann_to_dict demo_ann))]"
    "safe_parse demo_nacl (\<lambda>_. Inr ()) (Some (PDict (ann_to_dict demo_ann))) = Inr (Some demo_ann)"
    by (rule demo_published [of "\<lambda>_. Inr ()" 1 empty_feed]) (simp add: empty_feed_def)
  obtain fd' c' as where s: "feed_session demo_nacl (\<lambda>_. Inr ()) True 9 [Publish demo_ann 1, Poll (Some 1), Poll None] empty_feed (-1) = Inr (fd', c', as)"
    "unread demo_nacl (\<lambda>_. Inr ()) True 9 fd' (-1) = as @ unread demo_nacl (\<lambda>_. Inr ()) True 9 fd' c'" "unread demo_nacl (\<lambda>_. Inr ()) True 9 fd' c' = []"
    using feed_catch_up [of demo_nacl "\<lambda>_. Inr ()" empty_feed "-1" True 9 "[Publish demo_ann 1, Poll (Some 1), Poll None]"] by (auto simp: empty_feed_def)
  have "fd' = f" using s(1) f(1) by (auto simp: bindR_Inr_iff)
  then have "as = [demo_ann]" using s(2,3) f(2,3) by (simp add: unread_def live_at_def)
  then show ?thesis using s(1) by blast
qed

theorem polling_drains_witness:
  "\<exists>fd'. publish demo_nacl (\<lambda>_. Inr ()) 1 demo_ann empty_feed = (fd', Inr ())
    \<and> feed_session demo_nacl (\<lambda>_. Inr ()) True 9 (replicate 3 (Poll (Some 1))) fd' (-1) = Inr (fd', 0, [demo_ann])"
proof -
  obtain f where f: "publish demo_nacl (\<lambda>_. Inr ()) 1 demo_ann empty_feed = (f, Inr ())" "fd_lines f = [Some (PDict (ann_to_dict demo_ann))]"
    "safe_parse demo_nacl (\<lambda>_. Inr ()) (Some (PDict (ann_to_dict demo_ann))) = Inr (Some demo_ann)"
    by (rule demo_published [of "\<lambda>_. Inr ()" 1 empty_feed]) (simp add: empty_feed_def)
  show ?thesis using polling_drains [of demo_nacl "\<lambda>_. Inr ()" f "-1" 1 3 True 9] f by (simp add: latest_seq_def unread_def live_at_def)
qed

lemma publish_then_get_demo:
  "\<exists>fd'. publish demo_nacl (\<lambda>_. Inr ()) 1 demo_ann empty_feed = (fd', Inr ()) \<and> feed_get demo_nacl (\<lambda>_. Inr ()) fd' ''a1'' True 5 = Inr (Some demo_ann)"
proof -
  obtain f where f: "publish demo_nacl (\<lambda>_. Inr ()) 1 demo_ann empty_feed = (f, Inr ())" by (rule demo_published)
  have "feed_get demo_nacl (\<lambda>_. Inr ()) empty_feed ''a1'' True 5 = Inr None" by (simp add: feed_get_def empty_feed_def drop_expired_def)
  from publish_then_get [OF this, of demo_ann 1] show ?thesis by (simp add: f demo_ann(5))
qed

lemma market_view_matches_feed_demo:
  "\<exists>st. replay (market_apply demo_nacl) [announce_event demo_ann] \<lparr>mv_anns = [], mv_claimed = []\<rparr> = Inr st \<and> market_get st ''a1'' = Some demo_ann"
proof -
  have a: "announced [announce_event demo_ann] = [Some (PDict (ann_to_dict demo_ann))]" by (simp add: announced_def announce_event_def)
  have p: "safe_parse demo_nacl (\<lambda>_. Inr ()) (Some (PDict (ann_to_dict demo_ann))) = Inr (Some demo_ann)" by (rule demo_published)
  have "lines_ok demo_nacl (\<lambda>_. Inr ()) (announced [announce_event demo_ann])" using p by (simp add: a)
  then obtain st where st: "replay (market_apply demo_nacl) [announce_event demo_ann] \<lparr>mv_anns = [], mv_claimed = []\<rparr> = Inr st"
    "\<forall>aid. feed_get demo_nacl (\<lambda>_. Inr ()) \<lparr>fd_lines = announced [announce_event demo_ann], fd_spine = None\<rparr> aid True 0 = Inr (market_get st aid)"
    using market_view_matches_feed by blast
  have "market_get st ''a1'' = Some demo_ann" using st(2) [rule_format, of "''a1''"] p by (simp add: a feed_get_def drop_expired_True demo_ann(5))
  then show ?thesis using st(1) by blast
qed

lemma unhashable_kind_stops_market_demo:
  "poll demo_nacl (\<lambda>_. Inr ()) \<lparr>fd_lines = [Some (PDict (ann_to_dict demo_bad_ann))], fd_spine = None\<rparr> (-1) None True 5 = raise TypeError ''unhashable type''
    \<and> feed_get demo_nacl (\<lambda>_. Inr ()) \<lparr>fd_lines = [Some (PDict (ann_to_dict demo_bad_ann))], fd_spine = None\<rparr> ''a1'' True 5 = raise TypeError ''unhashable type''
    \<and> replay (market_apply demo_nacl) [announce_event demo_bad_ann] \<lparr>mv_anns = [], mv_claimed = []\<rparr> = raise TypeError ''unhashable type''"
proof -
  have "nacl_available demo_nacl" using demo_nacl_ok by (simp add: ed25519_ok_def)
  from unhashable_kind_stops_market [OF this demo_bad_ann, of "\<lambda>_. Inr ()" "[]" "\<lparr>fd_lines = [Some (PDict (ann_to_dict demo_bad_ann))], fd_spine = None\<rparr>" "[]" "''a1''"
      "announce_event demo_bad_ann" "[]" "\<lparr>mv_anns = [], mv_claimed = []\<rparr>" "\<lparr>mv_anns = [], mv_claimed = []\<rparr>" True 5 "[]"]
  show ?thesis by (simp add: announce_event_def)
qed

end
