(* ===== verification/Reputation.thy ===== *)
theory Reputation
  imports Receipt
begin

text \<open>
  \<open>nth_dao/market/reputation.py\<close>: the explainable reputation of an agent, computed from signed claim records, and the thresholds a publisher sets.
\<close>

section \<open>Profiles and thresholds\<close>

record reputation_profile =
  rp_subject_did :: string
  rp_claims_count :: int
  rp_distinct_publishers :: int
  rp_distinct_capabilities :: int
  rp_total_reward_minor :: int
  rp_first_seen_ms :: int
  rp_last_seen_ms :: int

definition scalar_dimensions :: "string list" where
  "scalar_dimensions = [''claims_count'', ''distinct_publishers'', ''distinct_capabilities'', ''total_reward_minor'']"

definition rp_dimension :: "reputation_profile \<Rightarrow> string \<Rightarrow> int" where
  "rp_dimension p dm =
     (if dm = ''claims_count'' then rp_claims_count p
      else if dm = ''distinct_publishers'' then rp_distinct_publishers p
      else if dm = ''distinct_capabilities'' then rp_distinct_capabilities p
      else if dm = ''total_reward_minor'' then rp_total_reward_minor p else 0)"

fun meets :: "reputation_profile \<Rightarrow> pydict \<Rightarrow> (bool \<times> string) res" where
  "meets p [] = Inr (True, [])"
| "meets p ((key, threshold) # policy) = (case key of
     PStr k \<Rightarrow>
       if \<not> startswith k ''min_'' then Inr (False, ''unknown-claimant-policy-key:'' @ k)
       else let dm = drop 4 k in
         if dm \<notin> set scalar_dimensions then Inr (False, ''unknown-claimant-policy-dimension:'' @ dm)
         else (case py_int threshold of
           Inl e \<Rightarrow> if exn_cls e = TypeError \<or> is_value_error e then Inr (False, ''bad-claimant-policy-threshold:'' @ k) else Inl e
         | Inr need \<Rightarrow>
             if rp_dimension p dm < need
             then Inr (False, ''below:'' @ dm @ ''('' @ int_str (rp_dimension p dm) @ ''<'' @ int_str need @ '')'')
             else meets p policy)
   | _ \<Rightarrow> raise AttributeError ''object has no attribute startswith'')"

section \<open>Computing a profile\<close>

text \<open>The first \<open>nth.task_claimed\<close> entry whose payload names the subject.\<close>

fun claimed_payload :: "string \<Rightarrow> pyval list \<Rightarrow> pydict option" where
  "claimed_payload subject [] = None"
| "claimed_payload subject (entry # entries) = (case entry of
     PDict e \<Rightarrow>
       if dget_or e ''type'' PNone = PStr ''nth.task_claimed'' then
         (case dget_or e ''payload'' PNone of
            PDict p \<Rightarrow> if py_str (dget_or p ''claimant_did'' (PStr [])) = subject then Some p else claimed_payload subject entries
          | _ \<Rightarrow> claimed_payload subject entries)
       else claimed_payload subject entries
   | _ \<Rightarrow> claimed_payload subject entries)"

definition verified_claim_payload :: "nacl \<Rightarrow> (string \<Rightarrow> int res) \<Rightarrow> int \<Rightarrow> pyval \<Rightarrow> string \<Rightarrow> pydict option res" where
  "verified_claim_payload n iso_ms now rec subject = (case rec of
     PDict d \<Rightarrow> (case dget_or d ''receipt'' PNone of
       PDict receipt \<Rightarrow> bindR (verify_receipt n iso_ms now receipt []) (\<lambda>ok.
         if \<not> ok then Inr None
         else if py_str (dget_or receipt ''signer_did'' (PStr [])) \<noteq> subject then Inr None
         else case dget_or receipt ''timeline'' PNone of
           PList entries \<Rightarrow> Inr (claimed_payload subject entries)
         | _ \<Rightarrow> Inr None)
     | _ \<Rightarrow> Inr None)
   | _ \<Rightarrow> Inr None)"

text \<open>\<open>set.add\<close>: the element has to be hashable, and equal elements count once.\<close>

definition set_add :: "pyval list \<Rightarrow> pyval \<Rightarrow> pyval list res" where
  "set_add xs v = ensure (hashable v) TypeError ''unhashable type'' (Inr (if list_ex (\<lambda>x. py_eq x v) xs then xs else xs @ [v]))"

fun set_add_all :: "pyval list \<Rightarrow> pyval list \<Rightarrow> pyval list res" where
  "set_add_all xs [] = Inr xs"
| "set_add_all xs (v # vs) = bindR (set_add xs v) (\<lambda>ys. set_add_all ys vs)"

record rep_acc =
  ra_publishers :: "pyval list"
  ra_capabilities :: "pyval list"
  ra_total :: int
  ra_claims :: int
  ra_first :: int
  ra_last :: int

definition rep_window :: "pyval \<Rightarrow> rep_acc \<Rightarrow> rep_acc" where
  "rep_window claimed_at a =
     (let ts = (case claimed_at of PInt i \<Rightarrow> i | PBool b \<Rightarrow> (if b then 1 else 0) | _ \<Rightarrow> 0) in
      if 0 < ts then a\<lparr>ra_first := if ra_first a = 0 then ts else min (ra_first a) ts, ra_last := max (ra_last a) ts\<rparr> else a)"

definition rep_step :: "pydict \<Rightarrow> rep_acc \<Rightarrow> rep_acc res" where
  "rep_step payload a =
     (let publisher = dget_or payload ''publisher_did'' PNone; caps = dget_or payload ''capability_set'' PNone in
      bindR (if truthy publisher then set_add (ra_publishers a) publisher else Inr (ra_publishers a)) (\<lambda>pubs.
      bindR (if truthy caps then bindR (py_iter caps) (set_add_all (ra_capabilities a)) else Inr (ra_capabilities a)) (\<lambda>cs.
      Inr (rep_window (dget_or payload ''claimed_at_ms'' PNone)
        (a\<lparr>ra_claims := ra_claims a + 1, ra_publishers := pubs, ra_capabilities := cs,
           ra_total := ra_total a + (case strict_int (dget_or payload ''reward_minor'' (PInt 0)) of Some r \<Rightarrow> r | None \<Rightarrow> 0)\<rparr>)))))"

fun rep_fold :: "nacl \<Rightarrow> (string \<Rightarrow> int res) \<Rightarrow> int \<Rightarrow> string \<Rightarrow> pyval list \<Rightarrow> rep_acc \<Rightarrow> rep_acc res" where
  "rep_fold n iso_ms now subject [] a = Inr a"
| "rep_fold n iso_ms now subject (rec # recs) a =
     bindR (verified_claim_payload n iso_ms now rec subject) (\<lambda>payload. case payload of
       None \<Rightarrow> rep_fold n iso_ms now subject recs a
     | Some p \<Rightarrow> bindR (rep_step p a) (rep_fold n iso_ms now subject recs))"

definition compute_reputation :: "nacl \<Rightarrow> (string \<Rightarrow> int res) \<Rightarrow> int \<Rightarrow> string \<Rightarrow> pyval list \<Rightarrow> reputation_profile res" where
  "compute_reputation n iso_ms now subject recs =
     bindR (rep_fold n iso_ms now subject recs \<lparr>ra_publishers = [], ra_capabilities = [], ra_total = 0, ra_claims = 0, ra_first = 0, ra_last = 0\<rparr>) (\<lambda>a.
     Inr \<lparr>rp_subject_did = subject, rp_claims_count = ra_claims a, rp_distinct_publishers = int (length (ra_publishers a)),
       rp_distinct_capabilities = int (length (ra_capabilities a)), rp_total_reward_minor = ra_total a, rp_first_seen_ms = ra_first a, rp_last_seen_ms = ra_last a\<rparr>)"

section \<open>What a profile rests on\<close>

text \<open>The payloads that count: signed by the subject's own key.\<close>

fun counted :: "nacl \<Rightarrow> (string \<Rightarrow> int res) \<Rightarrow> int \<Rightarrow> string \<Rightarrow> pyval list \<Rightarrow> pydict list" where
  "counted n iso_ms now subject [] = []"
| "counted n iso_ms now subject (rec # recs) = (case verified_claim_payload n iso_ms now rec subject of
     Inr (Some p) \<Rightarrow> p # counted n iso_ms now subject recs | _ \<Rightarrow> counted n iso_ms now subject recs)"

definition reward_of :: "pydict \<Rightarrow> int" where
  "reward_of p = (case strict_int (dget_or p ''reward_minor'' (PInt 0)) of Some r \<Rightarrow> r | None \<Rightarrow> 0)"


lemma set_add_length: "set_add xs v = Inr ys \<Longrightarrow> length ys \<le> Suc (length xs)"
  by (auto simp: set_add_def ensure_Inr_iff)

lemma rep_window_sel [simp]: "ra_publishers (rep_window t a) = ra_publishers a" "ra_claims (rep_window t a) = ra_claims a" "ra_total (rep_window t a) = ra_total a"
  by (simp_all add: rep_window_def Let_def)

lemma rep_window_ordered:
  "0 \<le> ra_first a \<and> ra_first a \<le> ra_last a \<Longrightarrow> 0 \<le> ra_first (rep_window t a) \<and> ra_first (rep_window t a) \<le> ra_last (rep_window t a)"
  by (auto simp: rep_window_def Let_def)

lemma rep_step_facts:
  assumes "rep_step p a = Inr b"
  shows "ra_claims b = ra_claims a + 1" "ra_total b = ra_total a + reward_of p" "length (ra_publishers b) \<le> Suc (length (ra_publishers a))"
    "0 \<le> ra_first a \<and> ra_first a \<le> ra_last a \<Longrightarrow> 0 \<le> ra_first b \<and> ra_first b \<le> ra_last b"
proof -
  obtain pubs cs where b: "(if truthy (dget_or p ''publisher_did'' PNone) then set_add (ra_publishers a) (dget_or p ''publisher_did'' PNone) else Inr (ra_publishers a)) = Inr pubs"
    "b = rep_window (dget_or p ''claimed_at_ms'' PNone) (a\<lparr>ra_claims := ra_claims a + 1, ra_publishers := pubs, ra_capabilities := cs, ra_total := ra_total a + reward_of p\<rparr>)"
    using assms unfolding rep_step_def Let_def reward_of_def bindR_Inr_iff by blast
  have "length pubs \<le> Suc (length (ra_publishers a))" using b(1) by (auto dest: set_add_length split: if_splits)
  then show "length (ra_publishers b) \<le> Suc (length (ra_publishers a))" using b(2) by simp
  show "ra_claims b = ra_claims a + 1" "ra_total b = ra_total a + reward_of p" using b(2) by simp_all
  show "0 \<le> ra_first a \<and> ra_first a \<le> ra_last a \<Longrightarrow> 0 \<le> ra_first b \<and> ra_first b \<le> ra_last b" unfolding b(2) by (rule rep_window_ordered) simp
qed

lemma rep_fold_facts:
  assumes "rep_fold n iso_ms now subject recs a = Inr b"
  shows "ra_claims b = ra_claims a + int (length (counted n iso_ms now subject recs))
    \<and> ra_total b = ra_total a + sum_list (map reward_of (counted n iso_ms now subject recs))
    \<and> length (ra_publishers b) \<le> length (ra_publishers a) + length (counted n iso_ms now subject recs)
    \<and> (0 \<le> ra_first a \<and> ra_first a \<le> ra_last a \<longrightarrow> 0 \<le> ra_first b \<and> ra_first b \<le> ra_last b)"
  using assms
proof (induction recs arbitrary: a)
  case (Cons rec recs)
  then obtain p where p: "verified_claim_payload n iso_ms now rec subject = Inr p" by (auto simp: bindR_Inr_iff)
  show ?case
  proof (cases p)
    case None
    then show ?thesis using Cons p by simp
  next
    case (Some q)
    then obtain c where c: "rep_step q a = Inr c" "rep_fold n iso_ms now subject recs c = Inr b" using Cons.prems p by (auto simp: bindR_Inr_iff)
    show ?thesis using Cons.IH [OF c(2)] rep_step_facts [OF c(1)] p Some by simp
  qed
qed simp

lemma verified_claim_payload_signed:
  assumes "verified_claim_payload n iso_ms now rec subject = Inr (Some p)"
  shows "\<exists>d receipt pk timeline. rec = PDict d \<and> dget d ''receipt'' = Some (PDict receipt) \<and> verify_receipt n iso_ms now receipt [] = Inr True
    \<and> receipt_core n receipt pk timeline \<and> decode_ed25519_did_key subject = Inr pk"
proof -
  obtain d where d: "rec = PDict d" using assms by (cases rec) (simp_all add: verified_claim_payload_def)
  obtain r where r: "dget_or d ''receipt'' PNone = PDict r" using assms d by (cases "dget_or d ''receipt'' PNone") (simp_all add: verified_claim_payload_def)
  then have g: "dget d ''receipt'' = Some (PDict r)" by (auto simp: dget_or_def split: option.splits)
  have v: "verify_receipt n iso_ms now r [] = Inr True" "py_str (dget_or r ''signer_did'' (PStr [])) = subject"
    using assms d r by (auto simp: verified_claim_payload_def bindR_Inr_iff split: if_splits)
  obtain pk t where c: "receipt_core n r pk t" using verify_receipt_core [OF v(1)] by blast
  then have "decode_ed25519_did_key subject = Inr pk" using v(2) by (auto simp: receipt_core_def dget_or_def)
  then show ?thesis using d g v(1) c by blast
qed

lemma counted_signed:
  assumes "p \<in> set (counted n iso_ms now subject recs)"
  shows "\<exists>d receipt pk timeline. PDict d \<in> set recs \<and> dget d ''receipt'' = Some (PDict receipt) \<and> verify_receipt n iso_ms now receipt [] = Inr True
    \<and> receipt_core n receipt pk timeline \<and> decode_ed25519_did_key subject = Inr pk"
  using assms
proof (induction recs)
  case (Cons rec recs)
  show ?case
  proof (cases "verified_claim_payload n iso_ms now rec subject = Inr (Some p)")
    case True
    from verified_claim_payload_signed [OF this] show ?thesis by auto
  next
    case False
    then have "p \<in> set (counted n iso_ms now subject recs)" using Cons.prems by (auto split: sum.splits option.splits)
    then show ?thesis using Cons.IH by auto
  qed
qed simp

text \<open>Reputation is earned by signatures: the claim count is the number of records whose receipt is valid and signed by the subject's
  own key, the total reward is the sum of the rewards signed in them, there are at most as many publishers as claims, and the
  window of activity is ordered; every counted record carries such a receipt.\<close>

lemma reputation_counts_signed:
  assumes "compute_reputation n iso_ms now subject recs = Inr rp"
  shows "rp_claims_count rp = int (length (counted n iso_ms now subject recs))
    \<and> rp_total_reward_minor rp = sum_list (map reward_of (counted n iso_ms now subject recs))
    \<and> rp_distinct_publishers rp \<le> rp_claims_count rp \<and> 0 \<le> rp_first_seen_ms rp \<and> rp_first_seen_ms rp \<le> rp_last_seen_ms rp
    \<and> (\<forall>p \<in> set (counted n iso_ms now subject recs). \<exists>d receipt pk timeline. PDict d \<in> set recs \<and> dget d ''receipt'' = Some (PDict receipt)
         \<and> verify_receipt n iso_ms now receipt [] = Inr True \<and> receipt_core n receipt pk timeline \<and> decode_ed25519_did_key subject = Inr pk)"
proof -
  obtain a where a: "rep_fold n iso_ms now subject recs \<lparr>ra_publishers = [], ra_capabilities = [], ra_total = 0, ra_claims = 0, ra_first = 0, ra_last = 0\<rparr> = Inr a"
    "rp = \<lparr>rp_subject_did = subject, rp_claims_count = ra_claims a, rp_distinct_publishers = int (length (ra_publishers a)),
       rp_distinct_capabilities = int (length (ra_capabilities a)), rp_total_reward_minor = ra_total a, rp_first_seen_ms = ra_first a, rp_last_seen_ms = ra_last a\<rparr>"
    using assms by (auto simp: compute_reputation_def bindR_Inr_iff)
  show ?thesis using rep_fold_facts [OF a(1)] counted_signed by (simp add: a(2))
qed

text \<open>Thresholds fail closed: a policy is met only if each of its keys names a known dimension and the profile reaches the number given for it.\<close>

lemma meets_all:
  assumes "meets rp policy = Inr (True, r)" "(key, threshold) \<in> set policy"
  shows "\<exists>dm need. key = PStr (''min_'' @ dm) \<and> dm \<in> set scalar_dimensions \<and> py_int threshold = Inr need \<and> need \<le> rp_dimension rp dm"
  using assms
proof (induction rp policy rule: meets.induct)
  case (2 rp k t policy)
  obtain s where s: "k = PStr s" using "2.prems" by (cases k) simp_all
  then have st: "startswith s ''min_''" and d: "drop 4 s \<in> set scalar_dimensions" using "2.prems" by (auto simp: Let_def split: if_splits)
  obtain need where n: "py_int t = Inr need" "need \<le> rp_dimension rp (drop 4 s)" "meets rp policy = Inr (True, r)"
    using "2.prems" s st d by (auto simp: Let_def split: if_splits sum.splits)
  have "s = ''min_'' @ drop 4 s" using st by (auto simp: startswith_iff)
  then show ?case using "2.prems" "2.IH" [OF s] st d n s by auto
qed simp


section \<open>A concrete profile\<close>

definition demo_claim_payload :: pydict where
  "demo_claim_payload = obj [(''claimant_did'', PStr (projr (as_did (demo_identity 1)))), (''publisher_did'', PStr ''p''), (''capability_set'', PList [PStr ''x'']),
     (''reward_minor'', PInt 5), (''claimed_at_ms'', PInt 7)]"

definition demo_claim_entry :: timeline_entry where
  "demo_claim_entry = \<lparr>te_timestamp = 7, te_type = ''nth.task_claimed'', te_payload = demo_claim_payload\<rparr>"

definition demo_claim_receipt :: pydict where
  "demo_claim_receipt = projr (sign_receipt demo_nacl [demo_claim_entry] (demo_identity 1) [] ''r1'' [] None [] ''2020'' 7)"

definition demo_claim_rec :: pyval where
  "demo_claim_rec = PDict (obj [(''receipt'', PDict demo_claim_receipt)])"

lemma demo_claim_counted:
  "verified_claim_payload demo_nacl demo_iso 99 demo_claim_rec (projr (as_did (demo_identity 1))) = Inr (Some demo_claim_payload)"
proof -
  have "wf_json (PDict demo_claim_payload)" by (simp add: demo_claim_payload_def obj_def is_str_def)
  then have s: "sign_receipt demo_nacl [demo_claim_entry] (demo_identity 1) [] ''r1'' [] None [] ''2020'' 7 = Inr demo_claim_receipt"
    using sign_receipt_total [OF demo_nacl_ok demo_signer, of "[demo_claim_entry]" 1 "[]" "''r1''" None "[]" "''2020''" 7]
    by (auto simp: demo_claim_receipt_def demo_claim_entry_def)
  have e: "list_all entry_ok [demo_claim_entry]" by (simp add: entry_ok_def demo_claim_entry_def)
  have v: "verify_receipt demo_nacl demo_iso 99 demo_claim_receipt [] = Inr True"
    by (rule signed_receipt_verifies [OF demo_nacl_ok demo_signer e _ s]) simp_all
  obtain pk t where c: "receipt_core demo_nacl demo_claim_receipt pk t" "chain_linked [demo_claim_entry] [] 7 = Inr t" "as_did (demo_identity 1) = Inr (the_str (dget demo_claim_receipt ''signer_did''))"
    "dget demo_claim_receipt ''timeline'' = Some (PList (map (\<lambda>e. PDict (entry_to_dict e)) t))"
    by (rule signed_receipt_fields [OF demo_nacl_ok demo_signer e _ s]) simp_all
  have "dget demo_claim_receipt ''signer_did'' = Some (PStr (projr (as_did (demo_identity 1))))" using c(1,3) by (auto simp: receipt_core_def)
  moreover have "t = [demo_claim_entry]" using c(2) by (simp add: chain_linked_def)
  ultimately show ?thesis using c(4) v
    by (simp add: demo_claim_rec_def verified_claim_payload_def obj_def dget_or_def demo_claim_entry_def entry_to_dict_def demo_claim_payload_def)
qed

lemma reputation_counts_signed_demo:
  "\<exists>rp. compute_reputation demo_nacl demo_iso 99 (projr (as_did (demo_identity 1))) [demo_claim_rec] = Inr rp
     \<and> rp_claims_count rp = 1 \<and> rp_total_reward_minor rp = 5"
proof -
  let ?recs = "[demo_claim_rec]" and ?did = "projr (as_did (demo_identity 1))"
  obtain rp where rp: "compute_reputation demo_nacl demo_iso 99 ?did ?recs = Inr rp"
  proof -
    obtain b where "rep_step demo_claim_payload \<lparr>ra_publishers = [], ra_capabilities = [], ra_total = 0, ra_claims = 0, ra_first = 0, ra_last = 0\<rparr> = Inr b"
      by (simp add: rep_step_def demo_claim_payload_def dget_or_def obj_def set_add_def hashable_def py_iter_def Let_def)
    then show thesis using that by (simp add: compute_reputation_def demo_claim_counted del: One_nat_def)
  qed
  have "counted demo_nacl demo_iso 99 ?did ?recs = [demo_claim_payload]" by (simp add: demo_claim_counted del: One_nat_def)
  then show ?thesis using reputation_counts_signed [OF rp] rp
    by (simp add: reward_of_def demo_claim_payload_def dget_or_def obj_def strict_int_def del: One_nat_def)
qed

end
