(* ===== verification/Market_Claim.thy ===== *)
theory Market_Claim
  imports Market_Feed Reputation Spine_Recovery
begin

text \<open>
  \<open>nth_dao/market/claim.py\<close>: claiming announcements. The store has one file per announcement, named by a hash of its
  identifier (older stores: by the identifier itself), holding a JSON value, or \<open>None\<close> when it does not parse. The locks make the
  read-check-write of a claim one step. The message of a \<open>ClaimRejected\<close> is its \<open>reason\<close>. The clock, the identifier and the rendered time of
  the receipt are arguments.
\<close>

section \<open>Records\<close>

definition claim_status_claimed :: string where
  "claim_status_claimed = ''claimed''"

definition claim_record_fields :: "string list" where
  "claim_record_fields = [''announcement_id'', ''status'', ''claimant_did'', ''publisher_did'', ''cap_token_id'', ''claimed_at_ms'', ''receipt_id'', ''receipt'']"

definition claim_record_fields_v2 :: "string list" where
  "claim_record_fields_v2 = claim_record_fields @ [''cap_token_hash'']"

definition claim_timeline_payload_fields :: "string list" where
  "claim_timeline_payload_fields = [''announcement_id'', ''claimant_did'', ''publisher_did'', ''cap_token_id'', ''capability_set'', ''reward_minor'',
     ''reward_asset'', ''mission_id'', ''claimed_at_ms'']"

definition token_hash :: "pydict \<Rightarrow> string res" where
  "token_hash cap_token = bindR (canonical_json (PDict cap_token)) (\<lambda>bs. Inr (sha256_hex bs))"

definition claim_goal :: "string \<Rightarrow> string" where
  "claim_goal announcement_id = ''market:claim:'' @ announcement_id"

definition claim_payload :: "pyval \<Rightarrow> announcement \<Rightarrow> string \<Rightarrow> string \<Rightarrow> int \<Rightarrow> pydict res" where
  "claim_payload aid a claimant_did cap_token_id claimed_at =
     bindR (py_iter (an_capability_set a)) (\<lambda>caps.
     Inr (obj [(''announcement_id'', aid), (''claimant_did'', PStr claimant_did), (''publisher_did'', an_publisher_did a),
       (''cap_token_id'', PStr cap_token_id), (''capability_set'', PList caps), (''reward_minor'', an_reward_minor a),
       (''reward_asset'', an_reward_asset a), (''mission_id'', an_mission_id a), (''claimed_at_ms'', PInt claimed_at)]))"

definition claim_timeline :: "announcement \<Rightarrow> string \<Rightarrow> string \<Rightarrow> int \<Rightarrow> timeline_entry list res" where
  "claim_timeline a claimant_did cap_token_id claimed_at =
     bindR (claim_payload (an_id a) a claimant_did cap_token_id claimed_at) (\<lambda>p.
     bindR (timeline_entry_new claimed_at ''nth.task_claimed'' p) (\<lambda>e. Inr [e]))"

definition timeline_value :: "timeline_entry list \<Rightarrow> pyval" where
  "timeline_value t = PList (map (\<lambda>e. PDict (entry_to_dict e)) t)"

section \<open>Verifying a record\<close>

definition claim_fields_ok :: "pydict \<Rightarrow> bool" where
  "claim_fields_ok r \<longleftrightarrow>
     (let extra = (if dget_or r ''foreign'' PNone = PBool True then [''foreign''] else []) in
      same_keys r (claim_record_fields @ extra) \<or> same_keys r (claim_record_fields_v2 @ extra))"

definition claim_scalar_fault :: "pydict \<Rightarrow> string option" where
  "claim_scalar_fault r =
     (let hash = dget_or r ''cap_token_hash'' (PStr []) in
      if dget_or r ''status'' PNone \<noteq> PStr claim_status_claimed then Some ''claim status is invalid''
      else if \<not> nonempty_str (dget r ''announcement_id'') then Some ''claim announcement_id is invalid''
      else if \<not> is_did_key (dget_or r ''claimant_did'' PNone) then Some ''claim claimant_did is invalid''
      else if \<not> is_did_key (dget_or r ''publisher_did'' PNone) then Some ''claim publisher_did is invalid''
      else if \<not> nonempty_str (dget r ''cap_token_id'') then Some ''claim cap_token_id is invalid''
      else if truthy hash \<and> \<not> (case hash of PStr h \<Rightarrow> is_hash64 h | _ \<Rightarrow> False) then Some ''claim cap_token_hash is invalid''
      else if \<not> (case strict_int (dget_or r ''claimed_at_ms'' PNone) of Some t \<Rightarrow> 0 < t | None \<Rightarrow> False) then Some ''claim timestamp is invalid''
      else if \<not> nonempty_str (dget r ''receipt_id'') then Some ''claim receipt_id is invalid''
      else None)"

definition claim_payload_fault :: "pydict \<Rightarrow> pydict \<Rightarrow> string option" where
  "claim_payload_fault r p =
     (case find (\<lambda>k. \<not> py_eq (dget_or p k PNone) (dget_or r k PNone)) [''announcement_id'', ''claimant_did'', ''publisher_did'', ''cap_token_id'', ''claimed_at_ms''] of
        None \<Rightarrow> None | Some k \<Rightarrow> Some (''claim receipt payload mismatch: '' @ k))"

definition claim_timeline_fault :: "pydict \<Rightarrow> pyval \<Rightarrow> string option" where
  "claim_timeline_fault r timeline = (case timeline of
     PList [entry] \<Rightarrow> (case entry of
       PDict e \<Rightarrow>
         if \<not> same_keys e [''timestamp'', ''type'', ''payload''] then Some ''claim receipt entry is malformed''
         else if dget_or e ''type'' PNone \<noteq> PStr ''nth.task_claimed'' \<or> \<not> py_eq (dget_or e ''timestamp'' PNone) (dget_or r ''claimed_at_ms'' PNone)
         then Some ''claim receipt event mismatch''
         else (case dget_or e ''payload'' PNone of
           PDict p \<Rightarrow> if \<not> same_keys p claim_timeline_payload_fields then Some ''claim receipt payload is malformed'' else claim_payload_fault r p
         | _ \<Rightarrow> Some ''claim receipt payload is malformed'')
     | _ \<Rightarrow> Some ''claim receipt entry is malformed'')
   | _ \<Rightarrow> Some ''claim receipt timeline is invalid'')"

definition verify_claim_record :: "nacl \<Rightarrow> (string \<Rightarrow> int res) \<Rightarrow> int \<Rightarrow> pyval \<Rightarrow> announcement option \<Rightarrow> (bool \<times> string) res" where
  "verify_claim_record n iso_ms now record ann = (case record of
     PDict r \<Rightarrow>
       if \<not> claim_fields_ok r then Inr (False, ''claim record has missing or unknown fields'')
       else (case claim_scalar_fault r of Some reason \<Rightarrow> Inr (False, reason)
       | None \<Rightarrow>
         let aid = the_str (dget r ''announcement_id''); claimant = the_str (dget r ''claimant_did''); tid = the_str (dget r ''cap_token_id'');
             claimed_at = the (strict_int (dget_or r ''claimed_at_ms'' PNone)); hash = dget_or r ''cap_token_hash'' (PStr []) in
         (case dget_or r ''receipt'' PNone of
           PDict receipt \<Rightarrow> bindR (verify_receipt n iso_ms now receipt []) (\<lambda>ok.
             if \<not> ok then Inr (False, ''claim receipt is invalid'')
             else if \<not> py_eq (dget_or receipt ''receipt_id'' PNone) (dget_or r ''receipt_id'' PNone) then Inr (False, ''claim receipt_id mismatch'')
             else if dget_or receipt ''signer_did'' PNone \<noteq> PStr claimant then Inr (False, ''claim signer mismatch'')
             else if dget_or receipt ''goal_id'' PNone \<noteq> PStr (claim_goal aid) then Inr (False, ''claim receipt goal mismatch'')
             else (case dget_or receipt ''authorizing_cap_token'' PNone of
               PDict cap \<Rightarrow>
                 if dget_or cap ''token_id'' PNone \<noteq> PStr tid then Inr (False, ''claim capability token mismatch'')
                 else bindR (if truthy hash then bindR (token_hash cap) (\<lambda>h. Inr (PStr h = hash)) else Inr True) (\<lambda>same.
                   if \<not> same then Inr (False, ''claim capability token hash mismatch'')
                   else (case claim_timeline_fault r (dget_or receipt ''timeline'' PNone) of Some reason \<Rightarrow> Inr (False, reason)
                     | None \<Rightarrow> (case ann of
                         None \<Rightarrow> Inr (True, ''ok'')
                       | Some a \<Rightarrow>
                           if an_id a \<noteq> PStr aid then Inr (False, ''claim announcement mismatch'')
                           else bindR (claim_timeline a claimant tid claimed_at) (\<lambda>t.
                             if \<not> py_eq (dget_or receipt ''timeline'' PNone) (timeline_value t)
                             then Inr (False, ''claim receipt does not bind authoritative announcement'')
                             else Inr (True, ''ok'')))))
             | _ \<Rightarrow> Inr (False, ''claim capability token mismatch'')))
         | _ \<Rightarrow> Inr (False, ''claim receipt is invalid'')))
   | _ \<Rightarrow> Inr (False, ''claim record must be an object''))"

section \<open>The store\<close>

type_synonym claim_store = "(string \<times> pyval option) list"

definition claim_path :: "string \<Rightarrow> string" where
  "claim_path announcement_id = ''sha256-'' @ sha256_hex (utf8 announcement_id) @ ''.json''"

definition claim_legacy_path :: "string \<Rightarrow> string" where
  "claim_legacy_path announcement_id = safe_id announcement_id @ ''.json''"

definition record_for :: "nacl \<Rightarrow> (string \<Rightarrow> int res) \<Rightarrow> int \<Rightarrow> claim_store \<Rightarrow> string \<Rightarrow> string \<Rightarrow> announcement option \<Rightarrow> pydict option res" where
  "record_for n iso_ms now st path announcement_id ann = (case map_of st path of
     Some (Some (PDict r)) \<Rightarrow>
       if dget_or r ''announcement_id'' PNone \<noteq> PStr announcement_id then Inr None
       else bindR (verify_claim_record n iso_ms now (PDict r) ann) (\<lambda>(ok, _). Inr (if ok then Some r else None))
   | _ \<Rightarrow> Inr None)"

definition claim_get :: "nacl \<Rightarrow> (string \<Rightarrow> int res) \<Rightarrow> int \<Rightarrow> claim_store \<Rightarrow> string \<Rightarrow> announcement option \<Rightarrow> pydict option res" where
  "claim_get n iso_ms now st announcement_id ann =
     bindR (record_for n iso_ms now st (claim_path announcement_id) announcement_id ann) (\<lambda>current.
     if current \<noteq> None \<or> map_of st (claim_path announcement_id) \<noteq> None then Inr current
     else record_for n iso_ms now st (claim_legacy_path announcement_id) announcement_id ann)"

definition has_record_file :: "claim_store \<Rightarrow> string \<Rightarrow> bool" where
  "has_record_file st announcement_id \<longleftrightarrow> map_of st (claim_path announcement_id) \<noteq> None \<or> map_of st (claim_legacy_path announcement_id) \<noteq> None"

definition is_unavailable :: "claim_store \<Rightarrow> string \<Rightarrow> bool" where
  "is_unavailable st announcement_id = has_record_file st announcement_id"

definition is_claimed :: "nacl \<Rightarrow> (string \<Rightarrow> int res) \<Rightarrow> int \<Rightarrow> claim_store \<Rightarrow> string \<Rightarrow> bool res" where
  "is_claimed n iso_ms now st announcement_id =
     bindR (claim_get n iso_ms now st announcement_id None) (\<lambda>rec. Inr (case rec of
       None \<Rightarrow> False | Some r \<Rightarrow> r \<noteq> [] \<and> dget_or r ''status'' PNone = PStr claim_status_claimed))"

fun candidate_ids :: "nacl \<Rightarrow> (string \<Rightarrow> int res) \<Rightarrow> int \<Rightarrow> claim_store \<Rightarrow> string list res" where
  "candidate_ids n iso_ms now [] = Inr []"
| "candidate_ids n iso_ms now ((_, content) # files) =
     bindR (verify_claim_record n iso_ms now (case content of Some v \<Rightarrow> v | None \<Rightarrow> PNone) None) (\<lambda>(ok, _).
     bindR (candidate_ids n iso_ms now files) (\<lambda>ids. Inr (case content of
       Some (PDict r) \<Rightarrow> if ok \<and> nonempty_str (dget r ''announcement_id'') then the_str (dget r ''announcement_id'') # ids else ids
     | _ \<Rightarrow> ids)))"

definition all_records :: "nacl \<Rightarrow> (string \<Rightarrow> int res) \<Rightarrow> int \<Rightarrow> claim_store \<Rightarrow> pydict list res" where
  "all_records n iso_ms now st =
     bindR (candidate_ids n iso_ms now st) (\<lambda>ids.
     bindR (mapR (\<lambda>aid. claim_get n iso_ms now st aid None) (sort (remdups ids))) (\<lambda>rs. Inr (List.map_filter id rs)))"

section \<open>Claiming\<close>

definition normalized_skills :: "pyval \<Rightarrow> string list res" where
  "normalized_skills caps = bindR (py_iter caps) (\<lambda>cs. Inr (map normalize_capability cs))"

definition skills_sufficient :: "announcement \<Rightarrow> pydict \<Rightarrow> bool res" where
  "skills_sufficient a cap_token =
     bindR (normalized_skills (an_capability_set a)) (\<lambda>need.
     bindR (normalized_skills (dget_or cap_token ''capabilities'' (PList []))) (\<lambda>have.
     Inr (set need - {[]} \<subseteq> set have)))"

definition admitted :: "announcement \<Rightarrow> reputation_profile option \<Rightarrow> unit res" where
  "admitted a reputation =
     (if \<not> truthy (an_claimant_policy a) then Inr ()
      else case an_claimant_policy a of
        PDict policy \<Rightarrow> (case reputation of
          None \<Rightarrow> raise ClaimRejected ''claimant-reputation-missing''
        | Some rp \<Rightarrow> bindR (meets rp policy) (\<lambda>(ok, _). ensure ok ClaimRejected ''claimant-below-policy'' (Inr ())))
      | _ \<Rightarrow> raise AttributeError ''object has no attribute items'')"

definition live_announcement :: "nacl \<Rightarrow> (announcement \<Rightarrow> unit res) \<Rightarrow> market_feed \<Rightarrow> string \<Rightarrow> int \<Rightarrow> announcement res" where
  "live_announcement n stores fd announcement_id now =
     bindR (feed_get n stores fd announcement_id True now) (\<lambda>found. case found of
       None \<Rightarrow> raise ClaimRejected ''announcement-not-found''
     | Some a \<Rightarrow> bindR (is_expired a now) (\<lambda>dead. ensure (\<not> dead) ClaimRejected ''announcement-expired'' (Inr a)))"

definition check_token :: "nacl \<Rightarrow> pydict \<Rightarrow> int \<Rightarrow> string list \<Rightarrow> unit res" where
  "check_token n cap_token now revoked =
     bindR (verify_cap_token n cap_token now revoked None [] []) (\<lambda>(ok, _). ensure ok ClaimRejected ''cap-token-invalid'' (Inr ()))"

definition check_subject :: "pydict \<Rightarrow> string \<Rightarrow> unit res" where
  "check_subject cap_token claimant_did =
     ensure (py_str (dget_or cap_token ''subject_did'' (PStr [])) = claimant_did) ClaimRejected ''cap-token-subject-mismatch'' (Inr ())"

definition check_skills :: "announcement \<Rightarrow> pydict \<Rightarrow> unit res" where
  "check_skills a cap_token = bindR (skills_sufficient a cap_token) (\<lambda>ok. ensure ok ClaimRejected ''skill-insufficient'' (Inr ()))"

definition claim_record :: "string \<Rightarrow> string \<Rightarrow> announcement \<Rightarrow> string \<Rightarrow> string \<Rightarrow> int \<Rightarrow> pydict \<Rightarrow> bool \<Rightarrow> pydict" where
  "claim_record announcement_id claimant_did a cap_token_id hash claimed_at receipt foreign =
     obj ([(''announcement_id'', PStr announcement_id), (''status'', PStr claim_status_claimed), (''claimant_did'', PStr claimant_did),
       (''publisher_did'', an_publisher_did a), (''cap_token_id'', PStr cap_token_id), (''cap_token_hash'', PStr hash), (''claimed_at_ms'', PInt claimed_at),
       (''receipt_id'', dget_or receipt ''receipt_id'' (PStr [])), (''receipt'', PDict receipt)]
      @ (if foreign then [(''foreign'', PBool True)] else []))"

record claim_node =
  cn_claims :: claim_store
  cn_spine :: "(identity \<times> spine_log) option"

text \<open>\<open>_spine_record_claim\<close> swallows every exception; the log stays as the append left it.\<close>

definition spine_record_claim :: "nacl \<Rightarrow> pydict \<Rightarrow> int \<Rightarrow> (identity \<times> spine_log) option \<Rightarrow> (identity \<times> spine_log) option" where
  "spine_record_claim n r now spine = (case py_int (dget_or r ''claimed_at_ms'' (PInt 0)) of
     Inl _ \<Rightarrow> spine
   | Inr t \<Rightarrow> spine_shadow n event_market_claim (PDict (obj [(''announcement_id'', dget_or r ''announcement_id'' (PStr [])),
       (''claimant_did'', dget_or r ''claimant_did'' (PStr [])), (''publisher_did'', dget_or r ''publisher_did'' (PStr [])),
       (''cap_token_id'', dget_or r ''cap_token_id'' (PStr [])), (''claimed_at_ms'', PInt t)])) now spine)"

definition write_claim :: "nacl \<Rightarrow> int \<Rightarrow> string \<Rightarrow> pydict \<Rightarrow> claim_node \<Rightarrow> claim_node" where
  "write_claim n now announcement_id r node =
     node\<lparr>cn_claims := assoc_put (claim_path announcement_id) (Some (PDict r)) (cn_claims node), cn_spine := spine_record_claim n r now (cn_spine node)\<rparr>"

definition claim_local_record :: "nacl \<Rightarrow> announcement \<Rightarrow> string \<Rightarrow> identity \<Rightarrow> string \<Rightarrow> pydict \<Rightarrow> int \<Rightarrow> string \<Rightarrow> string \<Rightarrow> pydict res" where
  "claim_local_record n a announcement_id claimant claimant_did cap_token now fresh issued_at =
     (let tid = py_str (dget_or cap_token ''token_id'' (PStr [])) in
      bindR (claim_payload (PStr announcement_id) a claimant_did tid now) (\<lambda>p.
      bindR (timeline_entry_new now ''nth.task_claimed'' p) (\<lambda>e.
      bindR (sign_receipt n [e] claimant (claim_goal announcement_id) [] [] (Some cap_token) fresh issued_at now) (\<lambda>receipt.
      bindR (token_hash cap_token) (\<lambda>hash.
      Inr (claim_record announcement_id claimant_did a tid hash now receipt False))))))"

definition claim_announcement :: "nacl \<Rightarrow> (string \<Rightarrow> int res) \<Rightarrow> (announcement \<Rightarrow> unit res) \<Rightarrow> market_feed \<Rightarrow> string \<Rightarrow> identity \<Rightarrow> pydict \<Rightarrow> string list
    \<Rightarrow> reputation_profile option \<Rightarrow> int \<Rightarrow> string \<Rightarrow> string \<Rightarrow> claim_node \<Rightarrow> claim_node \<times> pydict res" where
  "claim_announcement n iso_ms stores fd announcement_id claimant cap_token revoked reputation now fresh issued_at node =
     (case bindR (as_did claimant) (\<lambda>claimant_did.
           bindR (live_announcement n stores fd announcement_id now) (\<lambda>a.
           bindR (check_token n cap_token now revoked) (\<lambda>_.
           bindR (check_subject cap_token claimant_did) (\<lambda>_.
           bindR (check_skills a cap_token) (\<lambda>_.
           bindR (admitted a reputation) (\<lambda>_.
           bindR (claim_get n iso_ms now (cn_claims node) announcement_id (Some a)) (\<lambda>existing. case existing of
             Some r \<Rightarrow>
               if dget_or r ''claimant_did'' PNone = PStr claimant_did then Inr (r, False)
               else raise ClaimConflict ''already claimed''
           | None \<Rightarrow>
               ensure (\<not> has_record_file (cn_claims node) announcement_id) ClaimConflict ''unreadable claim record'' (
               bindR (claim_local_record n a announcement_id claimant claimant_did cap_token now fresh issued_at) (\<lambda>r. Inr (r, True))))))))))
      of Inl e \<Rightarrow> (node, Inl e)
       | Inr (r, new) \<Rightarrow> (if new then write_claim n now announcement_id r node else node, Inr r))"

section \<open>Claims across nodes\<close>

definition sign_claim_receipt :: "nacl \<Rightarrow> announcement \<Rightarrow> identity \<Rightarrow> pydict \<Rightarrow> int \<Rightarrow> string \<Rightarrow> string \<Rightarrow> pydict res" where
  "sign_claim_receipt n a claimant cap_token now fresh issued_at =
     bindR (as_did claimant) (\<lambda>claimant_did.
     bindR (check_subject cap_token claimant_did) (\<lambda>_.
     bindR (claim_timeline a claimant_did (py_str (dget_or cap_token ''token_id'' (PStr []))) now) (\<lambda>t.
     sign_receipt n t claimant (claim_goal (py_str (an_id a))) [] [] (Some cap_token) fresh issued_at now)))"

definition max_foreign_claim_clock_skew_ms :: int where
  "max_foreign_claim_clock_skew_ms = 5 * 60 * 1000"

definition foreign_signed_at :: "pydict \<Rightarrow> int res" where
  "foreign_signed_at receipt = (case dget_or receipt ''timeline'' PNone of
     PList [PDict e] \<Rightarrow> (case strict_int (dget_or e ''timestamp'' PNone) of
        Some t \<Rightarrow> ensure (0 < t) ClaimRejected ''claim-receipt-binding'' (Inr t)
      | None \<Rightarrow> raise ClaimRejected ''claim-receipt-binding'')
   | _ \<Rightarrow> raise ClaimRejected ''claim-receipt-binding'')"

definition within_token :: "pydict \<Rightarrow> int \<Rightarrow> bool" where
  "within_token cap_token t \<longleftrightarrow> (case (strict_int (dget_or cap_token ''not_before'' PNone), strict_int (dget_or cap_token ''not_after'' PNone)) of
     (Some nb, Some na) \<Rightarrow> nb \<le> t \<and> t \<le> na | _ \<Rightarrow> False)"

definition check_foreign_receipt :: "nacl \<Rightarrow> (string \<Rightarrow> int res) \<Rightarrow> int \<Rightarrow> pyval \<Rightarrow> (pydict \<times> string) res" where
  "check_foreign_receipt n iso_ms now receipt = (case receipt of
     PDict r \<Rightarrow> bindR (verify_receipt n iso_ms now r []) (\<lambda>ok.
       ensure ok ClaimRejected ''claim-receipt-invalid'' (
       let did = py_str (dget_or r ''signer_did'' (PStr [])) in
       ensure (did \<noteq> []) ClaimRejected ''claim-receipt-invalid'' (Inr (r, did))))
   | _ \<Rightarrow> raise ClaimRejected ''claim-receipt-invalid'')"

definition check_foreign_binding :: "announcement \<Rightarrow> string \<Rightarrow> string \<Rightarrow> pydict \<Rightarrow> pydict \<Rightarrow> int \<Rightarrow> int res" where
  "check_foreign_binding a announcement_id claimant_did cap_token receipt now =
     ensure (py_str (dget_or receipt ''goal_id'' (PStr [])) = claim_goal announcement_id) ClaimRejected ''claim-receipt-binding'' (
     bindR (foreign_signed_at receipt) (\<lambda>t.
     ensure (\<bar>t - now\<bar> \<le> max_foreign_claim_clock_skew_ms) ClaimRejected ''claim-receipt-binding'' (
     ensure (within_token cap_token t) ClaimRejected ''claim-receipt-binding'' (
     bindR (claim_timeline a claimant_did (py_str (dget_or cap_token ''token_id'' (PStr []))) t) (\<lambda>expected.
     ensure (py_eq (dget_or receipt ''timeline'' PNone) (timeline_value expected)) ClaimRejected ''claim-receipt-binding'' (Inr t))))))"

definition same_evidence :: "pydict \<Rightarrow> pydict \<Rightarrow> pydict \<Rightarrow> bool res" where
  "same_evidence existing cap_token receipt =
     bindR (token_hash cap_token) (\<lambda>submitted.
     let stored = dget_or existing ''cap_token_hash'' PNone in
     bindR (if truthy stored then Inr stored
       else (case dget_or existing ''receipt'' (PDict []) of
          PDict er \<Rightarrow> (case dget_or er ''authorizing_cap_token'' (PDict []) of
             PDict et \<Rightarrow> if et \<noteq> [] then bindR (token_hash et) (\<lambda>h. Inr (PStr h)) else Inr stored
           | _ \<Rightarrow> Inr stored)
        | _ \<Rightarrow> Inr stored)) (\<lambda>h.
     Inr (py_eq (dget_or existing ''cap_token_id'' PNone) (dget_or cap_token ''token_id'' PNone) \<and> h = PStr submitted
       \<and> py_eq (dget_or existing ''receipt_id'' PNone) (dget_or receipt ''receipt_id'' PNone)
       \<and> py_eq (dget_or existing ''receipt'' PNone) (PDict receipt))))"

definition record_foreign_claim :: "nacl \<Rightarrow> (string \<Rightarrow> int res) \<Rightarrow> (announcement \<Rightarrow> unit res) \<Rightarrow> market_feed \<Rightarrow> string \<Rightarrow> pydict \<Rightarrow> pyval \<Rightarrow> string list
    \<Rightarrow> reputation_profile option \<Rightarrow> int \<Rightarrow> claim_node \<Rightarrow> claim_node \<times> pydict res" where
  "record_foreign_claim n iso_ms stores fd announcement_id cap_token receipt0 revoked reputation now node =
     (case bindR (live_announcement n stores fd announcement_id now) (\<lambda>a.
           bindR (check_foreign_receipt n iso_ms now receipt0) (\<lambda>(receipt, claimant_did).
           bindR (check_subject cap_token claimant_did) (\<lambda>_.
           ensure (py_eq (dget_or receipt ''authorizing_cap_token'' PNone) (PDict cap_token)) ClaimRejected ''claim-receipt-binding'' (
           bindR (check_token n cap_token now revoked) (\<lambda>_.
           bindR (check_foreign_binding a announcement_id claimant_did cap_token receipt now) (\<lambda>t.
           bindR (check_skills a cap_token) (\<lambda>_.
           bindR (admitted a reputation) (\<lambda>_.
           bindR (claim_get n iso_ms now (cn_claims node) announcement_id (Some a)) (\<lambda>existing. case existing of
             Some r \<Rightarrow>
               if dget_or r ''claimant_did'' PNone = PStr claimant_did then
                 bindR (same_evidence r cap_token receipt) (\<lambda>same. ensure same ClaimConflict ''different signed evidence'' (Inr (r, False)))
               else raise ClaimConflict ''already claimed''
           | None \<Rightarrow>
               ensure (\<not> has_record_file (cn_claims node) announcement_id) ClaimConflict ''unreadable claim record'' (
               bindR (token_hash cap_token) (\<lambda>hash.
               Inr (claim_record announcement_id claimant_did a (py_str (dget_or cap_token ''token_id'' (PStr []))) hash t receipt True, True))))))))))))
      of Inl e \<Rightarrow> (node, Inl e)
       | Inr (r, new) \<Rightarrow> (if new then write_claim n now announcement_id r node else node, Inr r))"


section \<open>One winner\<close>

definition slot :: "claim_store \<Rightarrow> string \<Rightarrow> pyval option option" where
  "slot st aid = (case map_of st (claim_path aid) of Some c \<Rightarrow> Some c | None \<Rightarrow> map_of st (claim_legacy_path aid))"

lemma record_for_Some:
  assumes "record_for n iso_ms now st path aid ann = Inr (Some r)"
  shows "map_of st path = Some (Some (PDict r)) \<and> dget r ''announcement_id'' = Some (PStr aid) \<and> (\<exists>m. verify_claim_record n iso_ms now (PDict r) ann = Inr (True, m))"
proof -
  obtain d where d: "map_of st path = Some (Some (PDict d))"
    using assms by (cases "map_of st path") (auto simp: record_for_def split: option.splits pyval.splits)
  then show ?thesis using assms by (auto simp: record_for_def bindR_Inr_iff dget_or_def split: if_splits option.splits)
qed

lemma claim_get_Some:
  assumes "claim_get n iso_ms now st aid ann = Inr (Some r)"
  shows "slot st aid = Some (Some (PDict r)) \<and> dget r ''announcement_id'' = Some (PStr aid) \<and> (\<exists>m. verify_claim_record n iso_ms now (PDict r) ann = Inr (True, m))"
proof -
  obtain c where c: "record_for n iso_ms now st (claim_path aid) aid ann = Inr c"
    "(if c \<noteq> None \<or> map_of st (claim_path aid) \<noteq> None then Inr c else record_for n iso_ms now st (claim_legacy_path aid) aid ann) = Inr (Some r)"
    using assms by (auto simp: claim_get_def bindR_Inr_iff)
  show ?thesis
  proof (cases "c \<noteq> None \<or> map_of st (claim_path aid) \<noteq> None")
    case True
    then have "record_for n iso_ms now st (claim_path aid) aid ann = Inr (Some r)" using c by simp
    from record_for_Some [OF this] show ?thesis by (simp add: slot_def)
  next
    case False
    then have "record_for n iso_ms now st (claim_legacy_path aid) aid ann = Inr (Some r)" using c(2) by simp
    from record_for_Some [OF this] show ?thesis using False by (simp add: slot_def)
  qed
qed

text \<open>What both ways of claiming do to the store: a success either returns the verified record in the slot or fills an empty slot.\<close>

definition claim_effect :: "claim_node \<Rightarrow> string \<Rightarrow> string \<Rightarrow> pydict res \<Rightarrow> claim_node \<Rightarrow> bool" where
  "claim_effect node aid did res node' \<longleftrightarrow> (case res of
     Inl _ \<Rightarrow> node' = node
   | Inr r \<Rightarrow> dget r ''claimant_did'' = Some (PStr did) \<and> dget r ''announcement_id'' = Some (PStr aid)
       \<and> ((node' = node \<and> slot (cn_claims node) aid = Some (Some (PDict r)))
          \<or> (\<not> has_record_file (cn_claims node) aid \<and> cn_claims node' = assoc_put (claim_path aid) (Some (PDict r)) (cn_claims node))))"

lemma claim_record_sel: "dget (claim_record aid did a tid h t receipt f) ''claimant_did'' = Some (PStr did)"
  "dget (claim_record aid did a tid h t receipt f) ''announcement_id'' = Some (PStr aid)"
  by (simp_all add: claim_record_def obj_def)

lemma claim_announcement_effect:
  assumes "claim_announcement n iso_ms stores fd aid claimant cap revoked rep now fresh issued node = (node', res)" "as_did claimant = Inr did"
  shows "claim_effect node aid did res node'"
proof (cases res)
  case (Inl e)
  then show ?thesis using assms(1) by (auto simp: claim_announcement_def claim_effect_def split: sum.splits if_splits)
next
  case (Inr r)
  then obtain a ex new where a: "claim_get n iso_ms now (cn_claims node) aid (Some a) = Inr ex"
    "(case ex of Some r \<Rightarrow> if dget_or r ''claimant_did'' PNone = PStr did then Inr (r, False) else raise ClaimConflict ''already claimed''
       | None \<Rightarrow> ensure (\<not> has_record_file (cn_claims node) aid) ClaimConflict ''unreadable claim record'' (
           bindR (claim_local_record n a aid claimant did cap now fresh issued) (\<lambda>r. Inr (r, True)))) = Inr (r, new)"
    "node' = (if new then write_claim n now aid r node else node)"
    using assms unfolding claim_announcement_def by (auto simp: bindR_Inr_iff simp del: bindR_simps split: sum.splits)
  show ?thesis
  proof (cases ex)
    case None
    then obtain h t rc where "\<not> has_record_file (cn_claims node) aid" "new" "r = claim_record aid did a (py_str (dget_or cap ''token_id'' (PStr []))) h t rc False"
      using a(2) by (auto simp: ensure_Inr_iff bindR_Inr_iff claim_local_record_def Let_def)
    then show ?thesis using a(3) by (simp add: Inr claim_effect_def claim_record_sel write_claim_def)
  next
    case (Some x)
    then have "x = r" "\<not> new" "dget_or r ''claimant_did'' PNone = PStr did" using a(2) by (auto split: if_splits)
    then show ?thesis using a(1,3) Some claim_get_Some [of n iso_ms now "cn_claims node" aid "Some a" r] by (auto simp: Inr claim_effect_def dget_or_def split: option.splits)
  qed
qed

lemma record_foreign_claim_effect:
  assumes "record_foreign_claim n iso_ms stores fd aid cap (PDict receipt) revoked rep now node = (node', res)"
  shows "claim_effect node aid (py_str (dget_or receipt ''signer_did'' (PStr []))) res node'"
proof (cases res)
  case (Inl e)
  then show ?thesis using assms(1) by (auto simp: record_foreign_claim_def claim_effect_def split: sum.splits if_splits)
next
  case (Inr r)
  let ?did = "py_str (dget_or receipt ''signer_did'' (PStr []))"
  obtain a t ex new where a: "claim_get n iso_ms now (cn_claims node) aid (Some a) = Inr ex"
    "(case ex of
        Some r \<Rightarrow> if dget_or r ''claimant_did'' PNone = PStr ?did
          then bindR (same_evidence r cap receipt) (\<lambda>same. ensure same ClaimConflict ''different signed evidence'' (Inr (r, False)))
          else raise ClaimConflict ''already claimed''
      | None \<Rightarrow> ensure (\<not> has_record_file (cn_claims node) aid) ClaimConflict ''unreadable claim record'' (
          bindR (token_hash cap) (\<lambda>hash. Inr (claim_record aid ?did a (py_str (dget_or cap ''token_id'' (PStr []))) hash t receipt True, True)))) = Inr (r, new)"
    "node' = (if new then write_claim n now aid r node else node)"
    using assms Inr unfolding record_foreign_claim_def check_foreign_receipt_def Let_def
    by (auto simp: bindR_Inr_iff ensure_Inr_iff simp del: bindR_simps split: sum.splits)
  show ?thesis
  proof (cases ex)
    case None
    then show ?thesis using a(2,3) by (auto simp: ensure_Inr_iff bindR_Inr_iff Inr claim_effect_def claim_record_sel write_claim_def)
  next
    case (Some x)
    then have "x = r" "\<not> new" "dget_or r ''claimant_did'' PNone = PStr ?did" using a(2) by (auto simp: bindR_Inr_iff ensure_Inr_iff split: if_splits)
    then show ?thesis using a(1,3) Some claim_get_Some [of n iso_ms now "cn_claims node" aid "Some a" r] by (auto simp: Inr claim_effect_def dget_or_def split: option.splits)
  qed
qed


text \<open>Claims on one node, in any order: local ones and those received from other nodes, against whatever the feed holds at the time. An event is
  the announcement, the claimant and the result.\<close>

inductive claim_step :: "nacl \<Rightarrow> (string \<Rightarrow> int res) \<Rightarrow> (announcement \<Rightarrow> unit res) \<Rightarrow> claim_node \<Rightarrow> string \<times> string \<times> pydict res \<Rightarrow> claim_node \<Rightarrow> bool" for n iso_ms stores where
  local_claim: "claim_announcement n iso_ms stores fd aid claimant cap revoked rep now fresh issued node = (node', res) \<Longrightarrow> as_did claimant = Inr did \<Longrightarrow>
    claim_step n iso_ms stores node (aid, did, res) node'"
| foreign_claim: "record_foreign_claim n iso_ms stores fd aid cap (PDict receipt) revoked rep now node = (node', res) \<Longrightarrow>
    did = py_str (dget_or receipt ''signer_did'' (PStr [])) \<Longrightarrow> claim_step n iso_ms stores node (aid, did, res) node'"

inductive claim_trace :: "nacl \<Rightarrow> (string \<Rightarrow> int res) \<Rightarrow> (announcement \<Rightarrow> unit res) \<Rightarrow> claim_node \<Rightarrow> (string \<times> string \<times> pydict res) list \<Rightarrow> claim_node \<Rightarrow> bool" for n iso_ms stores where
  no_claim: "claim_trace n iso_ms stores node [] node"
| next_claim: "claim_step n iso_ms stores node ev mid \<Longrightarrow> claim_trace n iso_ms stores mid tr node' \<Longrightarrow> claim_trace n iso_ms stores node (ev # tr) node'"

inductive_cases claim_trace_ConsE: "claim_trace n iso_ms stores node (ev # tr) node'"

lemma claim_step_effect: "claim_step n iso_ms stores node (aid, did, res) node' \<Longrightarrow> claim_effect node aid did res node'"
  by (erule claim_step.cases) (auto intro: claim_announcement_effect record_foreign_claim_effect)

text \<open>The slot of an announcement has been settled by a record: that record stays the only one a later claim can return.\<close>

definition settled_by :: "string \<Rightarrow> pydict \<Rightarrow> claim_store \<Rightarrow> bool" where
  "settled_by aid r st \<longleftrightarrow> has_record_file st aid
     \<and> (\<forall>r'. slot st aid = Some (Some (PDict r')) \<and> dget r' ''announcement_id'' = Some (PStr aid) \<longrightarrow> r' = r)"

lemma has_record_file_put: "has_record_file (assoc_put p c st) aid \<longleftrightarrow> p = claim_path aid \<or> p = claim_legacy_path aid \<or> has_record_file st aid"
  by (auto simp: has_record_file_def)

lemma effect_settles: "claim_effect node aid did (Inr r) node' \<Longrightarrow> settled_by aid r (cn_claims node')"
proof -
  assume e: "claim_effect node aid did (Inr r) node'"
  then consider "slot (cn_claims node') aid = Some (Some (PDict r))"
    | "cn_claims node' = assoc_put (claim_path aid) (Some (PDict r)) (cn_claims node)" by (auto simp: claim_effect_def)
  then have "slot (cn_claims node') aid = Some (Some (PDict r))" by cases (simp_all add: slot_def)
  then show ?thesis by (auto simp: settled_by_def has_record_file_def slot_def split: option.splits)
qed

lemma effect_keeps_settled:
  assumes "settled_by aid r (cn_claims node)" "claim_effect node aid' did res node'"
  shows "settled_by aid r (cn_claims node')"
proof (cases "cn_claims node' = cn_claims node")
  case False
  then obtain r' where r': "dget r' ''announcement_id'' = Some (PStr aid')" "\<not> has_record_file (cn_claims node) aid'"
    "cn_claims node' = assoc_put (claim_path aid') (Some (PDict r')) (cn_claims node)"
    using assms(2) by (auto simp: claim_effect_def split: sum.splits)
  have h: "has_record_file (cn_claims node) aid" using assms(1) by (simp add: settled_by_def)
  then have ne: "aid' \<noteq> aid" using r'(2) by auto
  have "x = r" if x: "slot (cn_claims node') aid = Some (Some (PDict x))" "dget x ''announcement_id'' = Some (PStr aid)" for x
  proof (cases "claim_path aid' = claim_path aid")
    case True
    then have "x = r'" using x(1) r'(3) by (simp add: slot_def)
    then show ?thesis using x(2) r'(1) ne by simp
  next
    case False
    have "slot (cn_claims node) aid = slot (cn_claims node') aid"
    proof (cases "map_of (cn_claims node) (claim_path aid)")
      case None
      then have "map_of (cn_claims node) (claim_legacy_path aid) \<noteq> None" using h by (simp add: has_record_file_def)
      moreover have "map_of (cn_claims node) (claim_path aid') = None" using r'(2) by (simp add: has_record_file_def)
      ultimately have "claim_path aid' \<noteq> claim_legacy_path aid" by auto
      then show ?thesis using False None r'(3) by (simp add: slot_def)
    qed (use False r'(3) in \<open>simp add: slot_def\<close>)
    then show ?thesis using x assms(1) by (simp add: settled_by_def)
  qed
  then show ?thesis using h r'(3) by (simp add: settled_by_def has_record_file_put)
qed (use assms(1) in simp)

lemma settled_result:
  assumes "settled_by aid r (cn_claims node)" "claim_effect node aid did (Inr r') node'"
  shows "r' = r"
  using assms by (auto simp: settled_by_def claim_effect_def)

lemma settled_trace:
  assumes "claim_trace n iso_ms stores node tr node'" "settled_by aid r (cn_claims node)" "(aid, did, Inr r') \<in> set tr"
  shows "r' = r"
  using assms
proof (induction rule: claim_trace.induct)
  case (next_claim node ev mid tr node')
  obtain aid' did' res where ev: "ev = (aid', did', res)" by (cases ev)
  have e: "claim_effect node aid' did' res mid" using next_claim.hyps(1) claim_step_effect ev by simp
  show ?case
  proof (cases "(aid, did, Inr r') = ev")
    case True
    then show ?thesis using e ev settled_result [OF next_claim.prems(1)] by auto
  next
    case False
    then show ?thesis using next_claim.IH [OF effect_keeps_settled [OF next_claim.prems(1) e]] next_claim.prems(2) by auto
  qed
qed simp

lemma trace_winner:
  assumes "claim_trace n iso_ms stores node tr node'" "(aid, did, Inr r) \<in> set tr"
  shows "dget r ''claimant_did'' = Some (PStr did)"
  using assms
proof (induction rule: claim_trace.induct)
  case (next_claim node ev mid tr node')
  then show ?case using claim_step_effect [of n iso_ms stores node aid did "Inr r" mid] by (auto simp: claim_effect_def)
qed simp

text \<open>C29. An announcement has at most one winner: in every sequence of claims on a node, local and foreign, repeated and competing, all claims of an
  announcement that succeed have the same claimant and return the same record.\<close>

theorem claim_single_winner:
  assumes "claim_trace n iso_ms stores node tr node'" "(aid, did1, Inr r1) \<in> set tr" "(aid, did2, Inr r2) \<in> set tr"
  shows "did1 = did2 \<and> r1 = r2"
proof -
  have "r1 = r2" using assms
  proof (induction rule: claim_trace.induct)
    case (next_claim node ev mid tr node')
    have e: "claim_effect node a d res mid" if "ev = (a, d, res)" for a d res using next_claim.hyps(1) claim_step_effect that by blast
    consider "ev = (aid, did1, Inr r1)" "ev = (aid, did2, Inr r2)" | "ev = (aid, did1, Inr r1)" "(aid, did2, Inr r2) \<in> set tr"
      | "ev = (aid, did2, Inr r2)" "(aid, did1, Inr r1) \<in> set tr" | "(aid, did1, Inr r1) \<in> set tr" "(aid, did2, Inr r2) \<in> set tr"
      using next_claim.prems by auto
    then show ?case
    proof cases
      case 2
      then show ?thesis using settled_trace [OF next_claim.hyps(2) effect_settles [OF e]] by blast
    next
      case 3
      then show ?thesis using settled_trace [OF next_claim.hyps(2) effect_settles [OF e]] by blast
    qed (use next_claim.IH in auto)
  qed simp
  then show ?thesis using trace_winner [OF assms(1,2)] trace_winner [OF assms(1,3)] by simp
qed


section \<open>What a record on file proves\<close>

lemma required_caps_granted:
  assumes "verify_cap_token n cap now revoked (Some cs) task dao = Inr (True, m)" "py_set (dget_or cap ''capabilities'' PNone) = Inr tc"
  shows "PStr ` set cs \<subseteq> set tc"
proof (rule ccontr)
  assume no: "\<not> ?thesis"
  show False using assms(1) no unfolding verify_cap_token_def Let_def assms(2) bindR_simps
    by (simp add: bindR_Inr_iff split: if_splits sum.splits prod.splits)
qed

lemma receipt_token_valid:
  assumes "verify_receipt n iso_ms now receipt [] = Inr True" "dget receipt ''authorizing_cap_token'' = Some (PDict cap)"
  shows "\<exists>pk timeline issued. receipt_core n receipt pk timeline \<and> receipt_issued_ms iso_ms receipt = Inr (Some issued)
    \<and> verify_cap_token n cap (if issued \<noteq> 0 then issued else now) [] (Some [cap_nth_receipt_sign]) [] [] = Inr (True, [])
    \<and> decode_ed25519_did_key (str_or_empty (dget_or cap ''subject_did'' (PStr []))) = Inr pk"
proof -
  obtain pk timeline where core: "receipt_core n receipt pk timeline" using verify_receipt_core [OF assms(1)] by blast
  have "verify_cap_token_chain n iso_ms now receipt cap (bytes_hex pk) = Inr True"
    using assms receipt_core_verdict [OF core] by (simp add: dget_or_def)
  from cap_chain_facts [OF this] core show ?thesis by blast
qed

lemma claim_scalar_ok:
  assumes "claim_scalar_fault r = None"
  obtains aid claimant tid t rid where "dget r ''announcement_id'' = Some (PStr aid)" "aid \<noteq> []" "dget r ''claimant_did'' = Some (PStr claimant)" "is_did_key (PStr claimant)"
    "dget r ''cap_token_id'' = Some (PStr tid)" "tid \<noteq> []" "dget r ''claimed_at_ms'' = Some (PInt t)" "0 < t" "dget r ''receipt_id'' = Some (PStr rid)" "rid \<noteq> []"
proof -
  note f = assms [unfolded claim_scalar_fault_def Let_def]
  have n: "nonempty_str (dget r ''announcement_id'')" "nonempty_str (dget r ''cap_token_id'')" "nonempty_str (dget r ''receipt_id'')"
    and d: "is_did_key (dget_or r ''claimant_did'' PNone)" and t: "case strict_int (dget_or r ''claimed_at_ms'' PNone) of Some t \<Rightarrow> 0 < t | None \<Rightarrow> False"
    using f by (auto split: if_splits)
  obtain claimant where c: "dget_or r ''claimant_did'' PNone = PStr claimant" using is_did_keyD [OF d] by blast
  then have c': "dget r ''claimant_did'' = Some (PStr claimant)" by (auto simp: dget_or_def split: option.splits)
  obtain i where "dget_or r ''claimed_at_ms'' PNone = PInt i" "0 < i" using t by (cases "dget_or r ''claimed_at_ms'' PNone") (auto simp: strict_int_def)
  then have "dget r ''claimed_at_ms'' = Some (PInt i)" "0 < i" by (auto simp: dget_or_def split: option.splits)
  then show thesis using that n c c' d by (metis nonempty_strE)
qed

lemma dget_or_PDict: "dget_or d k PNone = PDict x \<longleftrightarrow> dget d k = Some (PDict x)"
  by (auto simp: dget_or_def split: option.splits)

lemma verified_claimE:
  assumes "verify_claim_record n iso_ms now (PDict r) ann = Inr (True, m)"
  obtains aid claimant tid t receipt cap where "dget r ''announcement_id'' = Some (PStr aid)" "dget r ''claimant_did'' = Some (PStr claimant)"
    "dget r ''claimed_at_ms'' = Some (PInt t)" "0 < t" "dget r ''receipt'' = Some (PDict receipt)"
    "verify_receipt n iso_ms now receipt [] = Inr True" "dget receipt ''signer_did'' = Some (PStr claimant)" "dget receipt ''goal_id'' = Some (PStr (claim_goal aid))"
    "dget receipt ''authorizing_cap_token'' = Some (PDict cap)" "dget cap ''token_id'' = Some (PStr tid)"
    "\<forall>a. ann = Some a \<longrightarrow> an_id a = PStr aid \<and> (\<exists>tl. claim_timeline a claimant tid t = Inr tl \<and> py_eq (dget_or receipt ''timeline'' PNone) (timeline_value tl))"
proof -
  note v = assms [unfolded verify_claim_record_def Let_def, simplified]
  have f: "claim_scalar_fault r = None" using v by (auto split: if_splits option.splits)
  obtain aid claimant tid t rid where s: "dget r ''announcement_id'' = Some (PStr aid)" "dget r ''claimant_did'' = Some (PStr claimant)"
    "dget r ''cap_token_id'' = Some (PStr tid)" "dget r ''claimed_at_ms'' = Some (PInt t)" "0 < t"
    by (rule claim_scalar_ok [OF f])
  obtain receipt where rc: "dget_or r ''receipt'' PNone = PDict receipt" using v f by (auto split: if_splits pyval.splits)
  note v = v [unfolded f option.case rc pyval.case, simplified]
  have ok: "verify_receipt n iso_ms now receipt [] = Inr True" using v by (auto simp: bindR_Inr_iff split: if_splits)
  note v = v [unfolded ok bindR_simps, simplified]
  have g: "dget_or receipt ''signer_did'' PNone = PStr claimant" "dget_or receipt ''goal_id'' PNone = PStr (claim_goal aid)"
    using v s by (auto split: if_splits)
  obtain cap where c: "dget_or receipt ''authorizing_cap_token'' PNone = PDict cap" using v g s by (auto split: if_splits pyval.splits)
  note v = v [unfolded c pyval.case, simplified]
  have tid: "dget_or cap ''token_id'' PNone = PStr tid" using v g s by (auto split: if_splits)
  have b: "ann = Some a \<longrightarrow> an_id a = PStr aid \<and> (\<exists>tl. claim_timeline a claimant tid t = Inr tl \<and> py_eq (dget_or receipt ''timeline'' PNone) (timeline_value tl))" for a
  proof
    assume ann: "ann = Some a"
    have ts: "strict_int (dget_or r ''claimed_at_ms'' PNone) = Some t" using s(4) by (simp add: dget_or_def strict_int_def)
    show "an_id a = PStr aid \<and> (\<exists>tl. claim_timeline a claimant tid t = Inr tl \<and> py_eq (dget_or receipt ''timeline'' PNone) (timeline_value tl))"
      using v g s tid unfolding ann ts by (auto simp: bindR_Inr_iff split: if_splits option.splits)
  qed
  show thesis
    using that [OF s(1,2,4,5) rc [unfolded dget_or_PDict] ok g [unfolded dget_or_PStr(1)] c [unfolded dget_or_PDict] tid [unfolded dget_or_PStr(1)]] b by blast
qed

text \<open>A claim record on file is evidence against its claimant: if it verifies against an announcement, its receipt is signed by the
  claimant's own key, the signed timeline says exactly what the announcement offers at the recorded time, and the attached
  token, valid at the recorded time of issue, grants receipt signing to that same key.\<close>

lemma claim_record_binds:
  assumes "verify_claim_record n iso_ms now (PDict r) (Some a) = Inr (True, m)"
  shows "\<exists>claimant pk timeline receipt cap tid t tl issued. dget r ''claimant_did'' = Some (PStr claimant) \<and> decode_ed25519_did_key claimant = Inr pk
    \<and> dget r ''receipt'' = Some (PDict receipt) \<and> receipt_core n receipt pk timeline
    \<and> dget r ''claimed_at_ms'' = Some (PInt t) \<and> claim_timeline a claimant tid t = Inr tl \<and> py_eq (dget_or receipt ''timeline'' PNone) (timeline_value tl)
    \<and> dget receipt ''authorizing_cap_token'' = Some (PDict cap) \<and> dget cap ''token_id'' = Some (PStr tid)
    \<and> decode_ed25519_did_key (str_or_empty (dget_or cap ''subject_did'' (PStr []))) = Inr pk
    \<and> receipt_issued_ms iso_ms receipt = Inr (Some issued)
    \<and> verify_cap_token n cap (if issued \<noteq> 0 then issued else now) [] (Some [cap_nth_receipt_sign]) [] [] = Inr (True, [])"
  using assms
proof (rule verified_claimE)
  fix aid claimant tid t receipt cap
  assume c: "dget r ''claimant_did'' = Some (PStr claimant)" "dget r ''claimed_at_ms'' = Some (PInt t)" "dget r ''receipt'' = Some (PDict receipt)"
    "verify_receipt n iso_ms now receipt [] = Inr True" "dget receipt ''signer_did'' = Some (PStr claimant)"
    "dget receipt ''authorizing_cap_token'' = Some (PDict cap)" "dget cap ''token_id'' = Some (PStr tid)"
    "\<forall>x. Some a = Some x \<longrightarrow> an_id x = PStr aid \<and> (\<exists>tl. claim_timeline x claimant tid t = Inr tl \<and> py_eq (dget_or receipt ''timeline'' PNone) (timeline_value tl))"
  obtain pk timeline issued where i: "receipt_core n receipt pk timeline" "receipt_issued_ms iso_ms receipt = Inr (Some issued)"
    "verify_cap_token n cap (if issued \<noteq> 0 then issued else now) [] (Some [cap_nth_receipt_sign]) [] [] = Inr (True, [])"
    "decode_ed25519_did_key (str_or_empty (dget_or cap ''subject_did'' (PStr []))) = Inr pk"
    using receipt_token_valid [OF c(4,6)] by blast
  have pk: "decode_ed25519_did_key claimant = Inr pk" using i(1) c(5) by (auto simp: receipt_core_def)
  obtain tl where "claim_timeline a claimant tid t = Inr tl" "py_eq (dget_or receipt ''timeline'' PNone) (timeline_value tl)" using c(8) by blast
  then show ?thesis using c pk i by blast
qed


section \<open>Claims that are kept\<close>

lemma feed_find_Some:
  assumes "feed_find n stores wanted lines = Inr (Some a)"
  shows "wanted a = Inr True \<and> (\<exists>r. verify_announcement n a = Inr (True, r))"
  using assms
proof (induction lines)
  case (Cons raw lines)
  then show ?case by (auto simp: bindR_Inr_iff split: option.splits if_splits dest: safe_parse_verified)
qed simp

lemma live_announcement_typed:
  assumes "live_announcement n stores fd aid now = Inr a"
  shows "ann_typed a \<and> an_id a = PStr aid"
proof -
  have "feed_find n stores (\<lambda>a. Inr (an_id a = PStr aid)) (fd_lines fd) = Inr (Some a)"
    using assms by (auto simp: live_announcement_def feed_get_def drop_expired_def bindR_Inr_iff ensure_Inr_iff split: option.splits)
  from feed_find_Some [OF this] show ?thesis by (auto elim: verified_announcementE)
qed

lemma claim_payload_typed:
  assumes "ann_typed a" "an_id a = PStr aid"
  obtains p where "claim_payload (PStr aid) a did tid t = Inr p" "wf_json (PDict p)" "same_keys p claim_timeline_payload_fields"
    "dget p ''announcement_id'' = Some (PStr aid)" "dget p ''claimant_did'' = Some (PStr did)" "dget p ''publisher_did'' = Some (an_publisher_did a)"
    "dget p ''cap_token_id'' = Some (PStr tid)" "dget p ''claimed_at_ms'' = Some (PInt t)"
proof -
  obtain pub caps reward asset mid where a: "an_publisher_did a = PStr pub" "an_capability_set a = PList (map PStr caps)" "an_reward_minor a = PInt reward"
    "an_reward_asset a = PStr asset" "an_mission_id a = PStr mid" using assms(1) unfolding ann_typed_def by blast
  have "wf_json_list (map PStr caps)" by (induction caps) auto
  then show thesis
    by (intro that) (auto simp: claim_payload_def a py_iter_def obj_def is_str_def same_keys_def claim_timeline_payload_fields_def)
qed

lemma claim_record_fields_sel:
  "dget (claim_record aid did a tid h t rc f) ''publisher_did'' = Some (an_publisher_did a)" "dget (claim_record aid did a tid h t rc f) ''cap_token_id'' = Some (PStr tid)"
  "dget (claim_record aid did a tid h t rc f) ''cap_token_hash'' = Some (PStr h)" "dget (claim_record aid did a tid h t rc f) ''claimed_at_ms'' = Some (PInt t)"
  "dget (claim_record aid did a tid h t rc f) ''receipt_id'' = Some (dget_or rc ''receipt_id'' (PStr []))" "dget (claim_record aid did a tid h t rc f) ''receipt'' = Some (PDict rc)"
  "dget (claim_record aid did a tid h t rc f) ''status'' = Some (PStr claim_status_claimed)" "claim_fields_ok (claim_record aid did a tid h t rc f)"
  by (simp_all add: claim_record_def obj_def claim_fields_ok_def dget_or_def same_keys_def claim_record_fields_v2_def claim_record_fields_def Let_def insert_commute)

text \<open>A record that both ways of claiming write verifies, as soon as its receipt does.\<close>

lemma claim_record_verifies:
  assumes "ann_typed a" "an_id a = PStr aid" "is_did_key (PStr did)" "tid \<noteq> []" "0 < t" "verify_receipt n iso_ms now rc [] = Inr True"
    "dget rc ''receipt_id'' = Some (PStr rid)" "rid \<noteq> []" "dget rc ''signer_did'' = Some (PStr did)" "dget rc ''goal_id'' = Some (PStr (claim_goal aid))"
    "dget rc ''authorizing_cap_token'' = Some (PDict cap)" "dget cap ''token_id'' = Some (PStr tid)" "token_hash cap = Inr h"
    "claim_timeline a did tid t = Inr tls" "dget rc ''timeline'' = Some (timeline_value tls)"
  shows "verify_claim_record n iso_ms now (PDict (claim_record aid did a tid h t rc f)) (Some a) = Inr (True, ''ok'')"
proof -
  let ?r = "claim_record aid did a tid h t rc f"
  obtain p where p: "claim_payload (PStr aid) a did tid t = Inr p" "wf_json (PDict p)" "same_keys p claim_timeline_payload_fields"
    "dget p ''announcement_id'' = Some (PStr aid)" "dget p ''claimant_did'' = Some (PStr did)" "dget p ''publisher_did'' = Some (an_publisher_did a)"
    "dget p ''cap_token_id'' = Some (PStr tid)" "dget p ''claimed_at_ms'' = Some (PInt t)"
    by (rule claim_payload_typed [OF assms(1,2)])
  obtain pub where pub: "an_publisher_did a = PStr pub" "is_did_key (PStr pub)" and aid: "aid \<noteq> []"
    using assms(1,2) by (auto simp: ann_typed_def is_did_key_iff decode_did_iff)
  define e where "e = entry_to_dict \<lparr>te_timestamp = t, te_type = ''nth.task_claimed'', te_payload = p\<rparr>"
  have tls: "timeline_value tls = PList [PDict e]"
    using assms(2,5,14) p(1) by (auto simp: claim_timeline_def timeline_entry_new_def timeline_value_def e_def)
  have e: "same_keys e [''timestamp'', ''type'', ''payload'']" "dget e ''timestamp'' = Some (PInt t)" "dget e ''type'' = Some (PStr ''nth.task_claimed'')"
    "dget e ''payload'' = Some (PDict p)" "wf_json (PDict e)"
    using p(2) by (auto simp: e_def entry_to_dict_def obj_def same_keys_def is_str_def)
  obtain bs where bs: "h = sha256_hex bs" using assms(13) by (auto simp: token_hash_def bindR_Inr_iff)
  have h: "is_hash64 h" using sha256_hex_lower by (simp add: bs is_hash64_def list_all_iff)
  then have "h \<noteq> []" by (auto simp: is_hash64_def)
  note h = h this
  have "claim_payload_fault ?r p = None"
    using p pub by (simp add: claim_payload_fault_def dget_or_def claim_record_sel claim_record_fields_sel py_eq_PInt num_of_def)
  then have f: "claim_timeline_fault ?r (PList [PDict e]) = None"
    using e p(3) by (simp add: claim_timeline_fault_def dget_or_def claim_record_fields_sel py_eq_PInt num_of_def)
  have s: "claim_scalar_fault ?r = None"
    using assms(3-5,7,8) pub aid h
    by (simp add: claim_scalar_fault_def dget_or_def claim_record_sel claim_record_fields_sel nonempty_str_def strict_int_def Let_def)
  have "py_eq (PList [PDict e]) (PList [PDict e])" by (rule py_eq_refl(1)) (use e(5) in simp)
  then show ?thesis unfolding verify_claim_record_def Let_def
    using assms h by (simp add: s f tls claim_record_fields_sel claim_record_sel dget_or_def strict_int_def del: py_eq.simps)
qed


lemma claim_local_record_verifies:
  assumes "ed25519_ok n" "signer_ok n claimant" "as_did claimant = Inr did" "ann_typed a" "an_id a = PStr aid" "0 < now" "fresh \<noteq> []"
    "dget cap ''token_id'' = Some (PStr tid)" "tid \<noteq> []" "dget cap ''subject_did'' = Some (PStr did)"
    "str_or_empty (dget_or cap ''scope_task_id'' (PStr [])) \<in> {[], claim_goal aid}"
    "iso_ms issued = Inr ms" "ms \<noteq> 0" "issued \<noteq> []" "verify_cap_token n cap ms [] (Some [cap_nth_receipt_sign]) [] [] = Inr (True, m)"
    "claim_local_record n a aid claimant did cap now fresh issued = Inr r"
  shows "verify_claim_record n iso_ms clock (PDict r) (Some a) = Inr (True, ''ok'')"
proof -
  obtain p e rc h where b: "claim_payload (PStr aid) a did tid now = Inr p" "timeline_entry_new now ''nth.task_claimed'' p = Inr e"
    "sign_receipt n [e] claimant (claim_goal aid) [] [] (Some cap) fresh issued now = Inr rc" "token_hash cap = Inr h" "r = claim_record aid did a tid h now rc False"
    using assms(8,16) by (auto simp: claim_local_record_def Let_def bindR_Inr_iff dget_or_def)
  have e: "list_all entry_ok [e]" using b(2) by (auto simp: timeline_entry_new_def entry_ok_def ensure_Inr_iff)
  have tls: "claim_timeline a did tid now = Inr [e]" using b(1,2) assms(5) by (simp add: claim_timeline_def)
  obtain pk t where c: "chain_linked [e] [] now = Inr t" "as_did claimant = Inr (the_str (dget rc ''signer_did''))" "receipt_core n rc pk t"
    "dget rc ''goal_id'' = Some (PStr (claim_goal aid))" "dget rc ''authorizing_cap_token'' = map_option PDict (Some cap)" "dget rc ''receipt_id'' = Some (PStr fresh)"
    "dget rc ''timeline'' = Some (PList (map (\<lambda>e. PDict (entry_to_dict e)) t))"
    by (rule signed_receipt_fields [OF assms(1,2) e _ b(3)]) (use assms(6) in simp_all)
  have t: "t = [e]" using c(1) by (simp add: chain_linked_def)
  have sd: "dget rc ''signer_did'' = Some (PStr did)" using c(2,3) assms(3) by (auto simp: receipt_core_def)
  have v: "verify_receipt n iso_ms clock rc [] = Inr True"
  proof (rule signed_receipt_verifies [OF assms(1,2) e _ b(3)])
    fix t assume "Some cap = Some t"
    then show "(\<exists>ms m. iso_ms issued = Inr ms \<and> ms \<noteq> 0 \<and> verify_cap_token n t ms [] (Some [cap_nth_receipt_sign]) [] [] = Inr (True, m))
       \<and> issued \<noteq> [] \<and> (\<exists>did. as_did claimant = Inr did \<and> dget t ''subject_did'' = Some (PStr did))
       \<and> str_or_empty (dget_or t ''scope_task_id'' (PStr [])) \<in> {[], claim_goal aid}"
      using assms(3,10-15) by simp
  qed (use assms(6) in simp)
  have did: "is_did_key (PStr did)" using c(3) sd by (auto simp: receipt_core_def is_did_key_iff decode_did_iff)
  show ?thesis unfolding b(5)
    by (rule claim_record_verifies [OF assms(4,5) did assms(9,6) v c(6) assms(7) sd c(4) _ assms(8) b(4) tls])
      (use c(5,7) t in \<open>simp_all add: timeline_value_def\<close>)
qed

text \<open>How a claim on an empty slot goes through.\<close>

lemma claim_announcementE:
  assumes "claim_announcement n iso_ms stores fd aid claimant cap revoked rep now fresh issued node = (node', Inr r)" "\<not> has_record_file (cn_claims node) aid"
  obtains did a where "as_did claimant = Inr did" "live_announcement n stores fd aid now = Inr a" "check_token n cap now revoked = Inr ()" "check_subject cap did = Inr ()"
    "check_skills a cap = Inr ()" "admitted a rep = Inr ()" "claim_local_record n a aid claimant did cap now fresh issued = Inr r" "node' = write_claim n now aid r node"
proof -
  have "claim_get n iso_ms now (cn_claims node) aid ann = Inr ex \<Longrightarrow> ex = None" for ann ex
    using assms(2) claim_get_Some [of n iso_ms now "cn_claims node" aid ann] by (cases ex) (auto simp: slot_def has_record_file_def)
  then show thesis using assms that unfolding claim_announcement_def
    by (fastforce simp: bindR_Inr_iff ensure_Inr_iff simp del: bindR_simps split: sum.splits option.splits if_splits)
qed

lemma claim_kept:
  assumes "ed25519_ok n" "signer_ok n claimant" "0 < now" "fresh \<noteq> []" "\<not> has_record_file (cn_claims node) aid"
    "claim_announcement n iso_ms stores fd aid claimant cap revoked rep now fresh issued node = (node', Inr r)"
    "dget cap ''token_id'' = Some (PStr tid)" "tid \<noteq> []" "str_or_empty (dget_or cap ''scope_task_id'' (PStr [])) \<in> {[], claim_goal aid}"
    "iso_ms issued = Inr ms" "ms \<noteq> 0" "issued \<noteq> []" "verify_cap_token n cap ms [] (Some [cap_nth_receipt_sign]) [] [] = Inr (True, m)"
    "dget cap ''subject_did'' = Some (PStr did)"
  shows "(\<exists>a. live_announcement n stores fd aid now = Inr a \<and> (\<forall>clock. claim_get n iso_ms clock (cn_claims node') aid (Some a) = Inr (Some r)))
    \<and> claim_announcement n iso_ms stores fd aid claimant cap revoked rep now fresh' issued' node' = (node', Inr r)"
proof (rule claim_announcementE [OF assms(6,5)])
  fix did' a
  assume c: "as_did claimant = Inr did'" "live_announcement n stores fd aid now = Inr a" "check_token n cap now revoked = Inr ()" "check_subject cap did' = Inr ()"
    "check_skills a cap = Inr ()" "admitted a rep = Inr ()" "claim_local_record n a aid claimant did' cap now fresh issued = Inr r" "node' = write_claim n now aid r node"
  have did: "did' = did" using c(4) assms(14) by (simp add: check_subject_def ensure_Inr_iff dget_or_def)
  note a = live_announcement_typed [OF c(2), THEN conjunct1] live_announcement_typed [OF c(2), THEN conjunct2]
  have v: "verify_claim_record n iso_ms clock (PDict r) (Some a) = Inr (True, ''ok'')" for clock
    by (rule claim_local_record_verifies [where iso_ms = iso_ms and issued = issued, OF assms(1,2) c(1) a assms(3,4,7,8) _ assms(9-13) c(7)]) (simp add: did assms(14))
  have s: "map_of (cn_claims node') (claim_path aid) = Some (Some (PDict r))" by (simp add: c(8) write_claim_def)
  have r: "dget r ''announcement_id'' = Some (PStr aid)" "dget r ''claimant_did'' = Some (PStr did)"
    using c(7) did by (auto simp: claim_local_record_def Let_def bindR_Inr_iff claim_record_sel)
  have g: "claim_get n iso_ms clock (cn_claims node') aid (Some a) = Inr (Some r)" for clock
    by (simp add: claim_get_def record_for_def s r dget_or_def v)
  then show ?thesis using c r did by (simp add: claim_announcement_def dget_or_def)
qed

text \<open>A claim sticks: when an agent claims an open announcement with a token that grants it receipt signing when the receipt is
  issued, the stored record is the one returned, every later read against the announcement accepts it, and claiming
  again at any later time, with whatever fresh identifiers, changes nothing and returns that same record.\<close>

lemma honest_claim_kept:
  assumes "ed25519_ok n" "signer_ok n claimant" "0 < now" "fresh \<noteq> []" "\<not> has_record_file (cn_claims node) aid"
    "claim_announcement n iso_ms stores fd aid claimant cap revoked rep now fresh issued node = (node', Inr r)"
    "dget cap ''token_id'' = Some (PStr tid)" "tid \<noteq> []" "str_or_empty (dget_or cap ''scope_task_id'' (PStr [])) \<in> {[], claim_goal aid}"
    "iso_ms issued = Inr ms" "ms \<noteq> 0" "issued \<noteq> []" "verify_cap_token n cap ms [] (Some [cap_nth_receipt_sign]) [] [] = Inr (True, m)"
    "dget cap ''subject_did'' = Some (PStr did)"
  shows "(\<exists>a. live_announcement n stores fd aid now = Inr a \<and> (\<forall>clock. claim_get n iso_ms clock (cn_claims node') aid (Some a) = Inr (Some r)))
    \<and> claim_announcement n iso_ms stores fd aid claimant cap revoked rep now fresh' issued' node' = (node', Inr r)"
  by (rule claim_kept [OF assms])

text \<open>C40. A claim can lock an announcement for good: if the token's capabilities cover the announcement but do not include receipt signing, the
  claim succeeds and its record is stored, yet no read ever accepts that record, and from then on every claim of
  the announcement fails, whoever makes it, with whatever token.\<close>

theorem unsigned_capability_locks_slot:
  assumes "ed25519_ok n" "signer_ok n claimant" "0 \<le> now" "\<not> has_record_file (cn_claims node) aid"
    "claim_announcement n iso_ms stores fd aid claimant cap revoked rep now fresh issued node = (node', Inr r)"
    "py_set (dget_or cap ''capabilities'' PNone) = Inr tc" "PStr cap_nth_receipt_sign \<notin> set tc"
  shows "has_record_file (cn_claims node') aid \<and> (\<forall>iso_ms' clock ann m. verify_claim_record n iso_ms' clock (PDict r) ann \<noteq> Inr (True, m))
    \<and> (\<forall>iso_ms' fd' other cap' revoked' rep' later fresh' issued'.
         \<exists>e. claim_announcement n iso_ms' stores fd' aid other cap' revoked' rep' later fresh' issued' node' = (node', Inl e))"
proof (rule claim_announcementE [OF assms(5,4)])
  fix did a
  assume c: "claim_local_record n a aid claimant did cap now fresh issued = Inr r" "node' = write_claim n now aid r node"
  obtain p e rc where b: "timeline_entry_new now ''nth.task_claimed'' p = Inr e" "sign_receipt n [e] claimant (claim_goal aid) [] [] (Some cap) fresh issued now = Inr rc"
    "dget r ''receipt'' = Some (PDict rc)"
    using c(1) by (auto simp: claim_local_record_def Let_def bindR_Inr_iff claim_record_fields_sel)
  have e: "list_all entry_ok [e]" using b(1) by (auto simp: timeline_entry_new_def entry_ok_def ensure_Inr_iff)
  have cap: "dget rc ''authorizing_cap_token'' = Some (PDict cap)" using signed_receipt_fields [OF assms(1,2) e assms(3) b(2)] by (metis option.map(2))
  have no: "verify_claim_record n iso_ms' clock (PDict r) ann \<noteq> Inr (True, m)" for iso_ms' clock ann m
  proof
    assume "verify_claim_record n iso_ms' clock (PDict r) ann = Inr (True, m)"
    then have "verify_receipt n iso_ms' clock rc [] = Inr True" by (rule verified_claimE) (use b(3) in simp)
    then obtain t where "verify_cap_token n cap t [] (Some [cap_nth_receipt_sign]) [] [] = Inr (True, [])"
      using receipt_token_valid [OF _ cap] by blast
    then show False using assms(6,7) required_caps_granted by fastforce
  qed
  have s: "map_of (cn_claims node') (claim_path aid) = Some (Some (PDict r))" by (simp add: c(2) write_claim_def)
  then have h: "has_record_file (cn_claims node') aid" by (simp add: has_record_file_def)
  have "\<exists>e. claim_announcement n iso_ms' stores fd' aid other cap' revoked' rep' later fresh' issued' node' = (node', Inl e)"
    for iso_ms' fd' other cap' revoked' rep' later fresh' issued'
  proof (cases "claim_announcement n iso_ms' stores fd' aid other cap' revoked' rep' later fresh' issued' node'")
    case (Pair node2 res)
    show ?thesis
    proof (cases res)
      case (Inr r')
      then obtain did' ann where "claim_get n iso_ms' later (cn_claims node') aid (Some ann) = Inr (Some r')"
        using Pair h unfolding claim_announcement_def
        by (fastforce simp: bindR_Inr_iff ensure_Inr_iff simp del: bindR_simps split: sum.splits option.splits if_splits)
      from claim_get_Some [OF this] show ?thesis using s no by (auto simp: slot_def)
    next
      case (Inl x)
      then show ?thesis using Pair by (auto simp: claim_announcement_def split: sum.splits if_splits)
    qed
  qed
  then show ?thesis using h no by blast
qed


section \<open>Concrete claims\<close>

definition demo_grant :: "string list \<Rightarrow> pydict" where
  "demo_grant caps = projr (sign_cap_token demo_nacl (demo_identity 2) (projr (as_did (demo_identity 1))) caps [] [] None 3600000 ''t1'' [] ''00'' 1)"

lemma demo_grant:
  assumes "caps \<noteq> []" "[] \<notin> set caps"
  shows "sign_cap_token demo_nacl (demo_identity 2) (projr (as_did (demo_identity 1))) caps [] [] None 3600000 ''t1'' [] ''00'' 1 = Inr (demo_grant caps)"
proof -
  obtain d where d: "as_did (demo_identity 1) = Inr d" "is_did_key (PStr d)"
    by (rule signer_did [OF demo_nacl_ok demo_signer, of 1]) (auto simp: is_did_key_iff decode_did_iff)
  have "flat_id ''t1''" by code_simp
  then have "\<exists>token. sign_cap_token demo_nacl (demo_identity 2) d caps [] [] None 3600000 ''t1'' [] ''00'' 1 = Inr token"
    using d(2) assms by (intro sign_cap_token_total [OF demo_nacl_ok demo_signer]) (simp_all add: max_ttl_ms_def)
  then show ?thesis by (auto simp: demo_grant_def d(1) simp del: One_nat_def)
qed

lemma demo_token_hash:
  assumes "sign_cap_token n i subject caps task dao None ttl tid fresh nonce now = Inr token"
  shows "\<exists>h. token_hash token = Inr h"
proof -
  obtain did rid sg where t: "token = dput (cap_body rid did subject (sort (remdups caps)) task dao now ttl nonce None) ''sig'' (PStr sg)"
    using assms by (auto simp: sign_cap_token_def Let_def sign_statement_def bindR_Inr_iff ensure_Inr_iff)
  have "wf_json_list (map PStr xs)" for xs by (induction xs) auto
  then have "wf_json (PDict token)" by (simp add: t cap_body_def obj_def dput_def is_str_def)
  then show ?thesis using canonical_json_wf by (auto simp: token_hash_def simp del: wf_json.simps)
qed

definition demo_feed :: market_feed where
  "demo_feed = fst (publish demo_nacl (\<lambda>_. Inr ()) 1 demo_ann empty_feed)"

definition demo_node :: claim_node where
  "demo_node = \<lparr>cn_claims = [], cn_spine = None\<rparr>"

lemma demo_live: "live_announcement demo_nacl (\<lambda>_. Inr ()) demo_feed ''a1'' 5 = Inr demo_ann"
proof -
  obtain fd where "publish demo_nacl (\<lambda>_. Inr ()) 1 demo_ann empty_feed = (fd, Inr ())" "fd_lines fd = fd_lines empty_feed @ [Some (PDict (ann_to_dict demo_ann))]"
    "safe_parse demo_nacl (\<lambda>_. Inr ()) (Some (PDict (ann_to_dict demo_ann))) = Inr (Some demo_ann)"
    by (rule demo_published)
  then show ?thesis by (simp add: live_announcement_def feed_get_def demo_feed_def empty_feed_def drop_expired_def demo_ann(5,8) is_expired_def)
qed

text \<open>The first claim of the demonstration announcement, with a token for any capabilities that include the one asked for.\<close>

definition demo_claim :: "string list \<Rightarrow> claim_node \<times> pydict res" where
  "demo_claim caps = claim_announcement demo_nacl demo_iso (\<lambda>_. Inr ()) demo_feed ''a1'' (demo_identity 1) (demo_grant caps) [] None 5 ''f1'' ''2020'' demo_node"

lemma demo_claim_ok:
  assumes "[] \<notin> set caps" "''x'' \<in> set caps"
  shows "demo_claim caps = (fst (demo_claim caps), Inr (projr (snd (demo_claim caps))))"
proof -
  let ?cap = "demo_grant caps" and ?did = "projr (as_did (demo_identity 1))"
  have g: "sign_cap_token demo_nacl (demo_identity 2) ?did caps [] [] None 3600000 ''t1'' [] ''00'' 1 = Inr ?cap"
    using assms by (intro demo_grant) auto
  note f = issued_token_fields [OF demo_nacl_ok demo_signer g]
  have t: "check_token demo_nacl ?cap 5 [] = Inr ()"
    using issued_token_accepted [OF demo_nacl_ok demo_signer g, of 5 "[]" None "[]" "[]"] by (simp add: check_token_def)
  have s: "check_subject ?cap ?did = Inr ()" using f(2) by (simp add: check_subject_def dget_or_def)
  have k: "check_skills demo_ann ?cap = Inr ()"
  proof -
    have "{normalize_capability (PStr ''x'')} - {[]} \<subseteq> (\<lambda>x. normalize_capability (PStr x)) ` set caps" using assms(2) by auto
    then show ?thesis using f(3) by (simp add: check_skills_def skills_sufficient_def normalized_skills_def demo_ann(6) py_iter_def dget_or_def image_image)
  qed
  obtain d where d: "as_did (demo_identity 1) = Inr d" using demo_did1 by blast
  obtain r where r: "claim_local_record demo_nacl demo_ann ''a1'' (demo_identity 1) ?did ?cap 5 ''f1'' ''2020'' = Inr r"
  proof -
    have ty: "ann_typed demo_ann" using live_announcement_typed [OF demo_live] by simp
    obtain p where p: "claim_payload (PStr ''a1'') demo_ann ?did ''t1'' 5 = Inr p" "wf_json (PDict p)" by (rule claim_payload_typed [OF ty demo_ann(5)])
    define e where "e = \<lparr>te_timestamp = 5, te_type = ''nth.task_claimed'', te_payload = p\<rparr>"
    obtain rc where rc: "sign_receipt demo_nacl [e] (demo_identity 1) (claim_goal ''a1'') [] [] (Some ?cap) ''f1'' ''2020'' 5 = Inr rc"
      using sign_receipt_total [OF demo_nacl_ok demo_signer, of "[e]" 1 "claim_goal ''a1''" "[]" "Some ?cap" "''f1''" "''2020''" 5] p(2) by (auto simp: e_def)
    obtain h where "token_hash ?cap = Inr h" using demo_token_hash [OF g] by blast
    then show thesis using that p(1) rc f(6) by (simp add: claim_local_record_def Let_def dget_or_def timeline_entry_new_def e_def)
  qed
  have "demo_claim caps = (write_claim demo_nacl 5 ''a1'' r demo_node, Inr r)" unfolding demo_claim_def claim_announcement_def d
    using t s k r d demo_live by (simp add: admitted_def demo_ann(7) claim_get_def record_for_def demo_node_def has_record_file_def del: One_nat_def)
  then show ?thesis by simp
qed


definition demo_caps :: "string list" where
  "demo_caps = [''x'', cap_nth_receipt_sign]"

lemma demo_caps: "[] \<notin> set demo_caps" "''x'' \<in> set demo_caps" "demo_caps \<noteq> []"
  by (simp_all add: demo_caps_def cap_nth_receipt_sign_def)

lemma demo_node_free [simp]: "\<not> has_record_file (cn_claims demo_node) aid"
  by (simp add: demo_node_def has_record_file_def)

abbreviation demo_claimed :: claim_node where
  "demo_claimed \<equiv> fst (demo_claim demo_caps)"

abbreviation demo_won :: pydict where
  "demo_won \<equiv> projr (snd (demo_claim demo_caps))"

lemma demo_kept_facts:
  "verify_cap_token demo_nacl (demo_grant demo_caps) 5 [] (Some [cap_nth_receipt_sign]) [] [] = Inr (True, [])"
  "dget (demo_grant demo_caps) ''token_id'' = Some (PStr ''t1'')" "dget (demo_grant demo_caps) ''subject_did'' = Some (PStr (projr (as_did (demo_identity 1))))"
  "str_or_empty (dget_or (demo_grant demo_caps) ''scope_task_id'' (PStr [])) = []"
  "claim_announcement demo_nacl demo_iso (\<lambda>_. Inr ()) demo_feed ''a1'' (demo_identity 1) (demo_grant demo_caps) [] None 5 ''f1'' ''2020'' demo_node = (demo_claimed, Inr demo_won)"
proof -
  note g = demo_grant [OF demo_caps(3,1)]
  note f = issued_token_fields [OF demo_nacl_ok demo_signer g]
  show "verify_cap_token demo_nacl (demo_grant demo_caps) 5 [] (Some [cap_nth_receipt_sign]) [] [] = Inr (True, [])"
    by (rule issued_token_accepted [OF demo_nacl_ok demo_signer g]) (simp_all add: demo_caps_def)
  show "dget (demo_grant demo_caps) ''token_id'' = Some (PStr ''t1'')" "dget (demo_grant demo_caps) ''subject_did'' = Some (PStr (projr (as_did (demo_identity 1))))"
    "str_or_empty (dget_or (demo_grant demo_caps) ''scope_task_id'' (PStr [])) = []"
    using f(2,6,7) by (simp_all add: dget_or_def str_or_empty_def)
  show "claim_announcement demo_nacl demo_iso (\<lambda>_. Inr ()) demo_feed ''a1'' (demo_identity 1) (demo_grant demo_caps) [] None 5 ''f1'' ''2020'' demo_node = (demo_claimed, Inr demo_won)"
    using demo_claim_ok [OF demo_caps(1,2)] by (simp add: demo_claim_def)
qed

lemma honest_claim_kept_demo:
  "(\<exists>a. live_announcement demo_nacl (\<lambda>_. Inr ()) demo_feed ''a1'' 5 = Inr a \<and> (\<forall>clock. claim_get demo_nacl demo_iso clock (cn_claims demo_claimed) ''a1'' (Some a) = Inr (Some demo_won)))
    \<and> claim_announcement demo_nacl demo_iso (\<lambda>_. Inr ()) demo_feed ''a1'' (demo_identity 1) (demo_grant demo_caps) [] None 5 ''f2'' ''2030'' demo_claimed = (demo_claimed, Inr demo_won)"
  by (rule honest_claim_kept [where iso_ms = demo_iso and issued = "''2020''",
        OF demo_nacl_ok demo_signer _ _ demo_node_free demo_kept_facts(5,2) _ _ _ _ _ demo_kept_facts(1,3)])
    (simp_all add: demo_kept_facts(4) demo_iso_def)

theorem unsigned_capability_locks_slot_witness:
  "has_record_file (cn_claims (fst (demo_claim [''x'']))) ''a1''
    \<and> (\<forall>other cap' later. \<exists>e. claim_announcement demo_nacl demo_iso (\<lambda>_. Inr ()) demo_feed ''a1'' other cap' [] None later ''f2'' ''2030'' (fst (demo_claim [''x''])) = (fst (demo_claim [''x'']), Inl e))"
proof -
  have g: "sign_cap_token demo_nacl (demo_identity 2) (projr (as_did (demo_identity 1))) [''x''] [] [] None 3600000 ''t1'' [] ''00'' 1 = Inr (demo_grant [''x''])"
    by (rule demo_grant) simp_all
  note f = issued_token_fields [OF demo_nacl_ok demo_signer g]
  have s: "py_set (dget_or (demo_grant [''x'']) ''capabilities'' PNone) = Inr [PStr ''x'']" using f(3,13) by (simp add: dget_or_def)
  have c: "claim_announcement demo_nacl demo_iso (\<lambda>_. Inr ()) demo_feed ''a1'' (demo_identity 1) (demo_grant [''x'']) [] None 5 ''f1'' ''2020'' demo_node
      = (fst (demo_claim [''x'']), Inr (projr (snd (demo_claim [''x'']))))"
    using demo_claim_ok [of "[''x'']"] by (simp add: demo_claim_def)
  have ns: "PStr cap_nth_receipt_sign \<notin> set [PStr ''x'']" by (simp add: cap_nth_receipt_sign_def)
  show ?thesis using unsigned_capability_locks_slot [OF demo_nacl_ok demo_signer _ demo_node_free c s ns] by simp
qed

lemma demo_won_verifies: "verify_claim_record demo_nacl demo_iso 99 (PDict demo_won) (Some demo_ann) = Inr (True, ''ok'')"
proof (rule claim_announcementE [OF demo_kept_facts(5) demo_node_free])
  fix did a
  assume c: "as_did (demo_identity 1) = Inr did" "live_announcement demo_nacl (\<lambda>_. Inr ()) demo_feed ''a1'' 5 = Inr a"
    "claim_local_record demo_nacl a ''a1'' (demo_identity 1) did (demo_grant demo_caps) 5 ''f1'' ''2020'' = Inr demo_won"
  have a: "a = demo_ann" using c(2) demo_live by simp
  have ty: "ann_typed demo_ann" using live_announcement_typed [OF demo_live] by simp
  have d: "did = projr (as_did (demo_identity 1))" using c(1) by simp
  show ?thesis
    by (rule claim_local_record_verifies [where iso_ms = demo_iso and issued = "''2020''" and a = demo_ann and ms = 5,
          OF demo_nacl_ok demo_signer c(1) ty demo_ann(5) _ _ demo_kept_facts(2) _ _ _ _ _ _ demo_kept_facts(1)])
      (use c(3) in \<open>simp_all add: a d demo_kept_facts(3,4) demo_iso_def\<close>)
qed

lemma claim_record_binds_demo:
  "\<exists>claimant pk receipt cap tid. dget demo_won ''claimant_did'' = Some (PStr claimant) \<and> decode_ed25519_did_key claimant = Inr pk
    \<and> dget demo_won ''receipt'' = Some (PDict receipt) \<and> dget receipt ''authorizing_cap_token'' = Some (PDict cap) \<and> dget cap ''token_id'' = Some (PStr tid)"
  using claim_record_binds [OF demo_won_verifies] by blast

theorem claim_single_winner_witness:
  "\<exists>tr did. claim_trace demo_nacl demo_iso (\<lambda>_. Inr ()) demo_node tr demo_claimed \<and> length tr = 2 \<and> tr ! 0 = (''a1'', did, Inr demo_won)
     \<and> tr ! 1 = (''a1'', did, Inr demo_won)"
proof -
  let ?d = "projr (as_did (demo_identity 1))" and ?tr = "\<lambda>r. [(''a1'', projr (as_did (demo_identity 1)), Inr demo_won), (''a1'', projr (as_did (demo_identity 1)), Inr r)]"
  have "claim_announcement demo_nacl demo_iso (\<lambda>_. Inr ()) demo_feed ''a1'' (demo_identity 1) (demo_grant demo_caps) [] None 5 ''f2'' ''2030'' demo_claimed = (demo_claimed, Inr demo_won)"
    by (rule claim_kept [where iso_ms = demo_iso and issued = "''2020''", THEN conjunct2,
          OF demo_nacl_ok demo_signer _ _ demo_node_free demo_kept_facts(5,2) _ _ _ _ _ demo_kept_facts(1,3)])
      (simp_all add: demo_kept_facts(4) demo_iso_def)
  then obtain r where r: "claim_announcement demo_nacl demo_iso (\<lambda>_. Inr ()) demo_feed ''a1'' (demo_identity 1) (demo_grant demo_caps) [] None 5 ''f2'' ''2030'' demo_claimed = (demo_claimed, Inr r)" by blast
  have t: "claim_trace demo_nacl demo_iso (\<lambda>_. Inr ()) demo_node (?tr r) demo_claimed"
    using local_claim [OF demo_kept_facts(5) demo_did1] local_claim [OF r demo_did1] by (blast intro: claim_trace.intros)
  have "?d = ?d \<and> r = demo_won" by (rule claim_single_winner [OF t, of "''a1''"]) simp_all
  then have "claim_trace demo_nacl demo_iso (\<lambda>_. Inr ()) demo_node (?tr demo_won) demo_claimed" using t by simp
  then show ?thesis by (intro exI [of _ "?tr demo_won"] exI [of _ ?d]) simp
qed

end
