(* ===== verification/Market_Match.thy ===== *)
theory Market_Match
  imports Market_Claim "HOL-Library.Product_Lexorder"
begin

text \<open>
  \<open>nth_dao/market/subscription.py\<close> and \<open>nth_dao/market/match.py\<close>: what an agent wants to be offered, and the view of the
  feed that this gives. The conversion of a reward to a float is the rounding of IEEE double precision. A reward that is not an
  integer does not occur in what is matched, verified announcements and sanitized references; there the model raises.
\<close>

section \<open>Subscriptions\<close>

record market_subscription =
  sb_subscriber_did :: pyval
  sb_capabilities :: "string list"
  sb_contexts :: "string list"
  sb_min_reward_minor :: pyval
  sb_max_concurrent :: pyval
  sb_publisher_trust_floor :: pyval

definition normal_names :: "pyval \<Rightarrow> string list res" where
  "normal_names v = bindR (py_iter v) (\<lambda>cs. Inr (filter (\<lambda>c. c \<noteq> []) (map normalize_capability cs)))"

fun keep_first :: "string list \<Rightarrow> string list \<Rightarrow> string list" where
  "keep_first seen [] = []"
| "keep_first seen (c # cs) = (if c \<in> set seen then keep_first seen cs else c # keep_first (c # seen) cs)"

definition at_least_one :: "pyval \<Rightarrow> pyval" where
  "at_least_one v = (case v of PInt i \<Rightarrow> if i < 1 then PInt 1 else v | PBool b \<Rightarrow> if b then v else PInt 1 | _ \<Rightarrow> PInt 1)"

definition subscription_new :: "pyval \<Rightarrow> pyval \<Rightarrow> pyval \<Rightarrow> pyval \<Rightarrow> pyval \<Rightarrow> pyval \<Rightarrow> market_subscription res" where
  "subscription_new did caps contexts min_reward max_concurrent floor_value =
     bindR (normal_names caps) (\<lambda>cs.
     bindR (normal_names contexts) (\<lambda>xs.
     Inr \<lparr>sb_subscriber_did = did, sb_capabilities = sort (remdups cs), sb_contexts = keep_first [] xs, sb_min_reward_minor = min_reward,
       sb_max_concurrent = at_least_one max_concurrent, sb_publisher_trust_floor = floor_value\<rparr>))"

definition subscription_to_dict :: "market_subscription \<Rightarrow> pydict" where
  "subscription_to_dict s = obj [(''subscriber_did'', sb_subscriber_did s), (''capabilities'', PList (map PStr (sb_capabilities s))),
     (''contexts'', PList (map PStr (sb_contexts s))), (''min_reward_minor'', sb_min_reward_minor s), (''max_concurrent'', sb_max_concurrent s),
     (''publisher_trust_floor'', sb_publisher_trust_floor s)]"

definition subscription_from_dict :: "pydict \<Rightarrow> market_subscription res" where
  "subscription_from_dict d = (case dget d ''subscriber_did'' of
     None \<Rightarrow> raise TypeError ''missing 1 required positional argument''
   | Some did \<Rightarrow> subscription_new did (dget_or d ''capabilities'' (PList [])) (dget_or d ''contexts'' (PList [])) (dget_or d ''min_reward_minor'' (PInt 0))
       (dget_or d ''max_concurrent'' (PInt 1)) (dget_or d ''publisher_trust_floor'' (PFloat (FFin 0 ''0.0''))))"

section \<open>Matching\<close>

text \<open>Rounding to 53 significant bits, ties to even; magnitudes from \<open>2^1024 - 2^970\<close> up overflow.\<close>

definition round_bits :: "nat \<Rightarrow> nat" where
  "round_bits m =
     (let e = bit_length m - 53; q = m div 2 ^ e; r = m mod 2 ^ e in
      if e = 0 then m else if 2 * r < 2 ^ e \<or> (2 * r = 2 ^ e \<and> even q) then q * 2 ^ e else (q + 1) * 2 ^ e)"

definition float_of_int :: "int \<Rightarrow> int res" where
  "float_of_int i = ensure (\<bar>i\<bar> < 2 ^ 1024 - 2 ^ 970) OverflowError ''int too large to convert to float''
     (Inr (if 0 \<le> i then int (round_bits (nat i)) else - int (round_bits (nat (- i)))))"

definition float_below :: "pyfloat \<Rightarrow> pyval \<Rightarrow> bool res" where
  "float_below f v = (case v of
     PFloat FNan \<Rightarrow> Inr False
   | PFloat FInf \<Rightarrow> Inr (case f of FFin _ _ \<Rightarrow> True | FNegInf \<Rightarrow> True | _ \<Rightarrow> False)
   | PFloat FNegInf \<Rightarrow> Inr False
   | _ \<Rightarrow> (case num_of v of
       Some q \<Rightarrow> Inr (case f of FFin x _ \<Rightarrow> x < q | FNegInf \<Rightarrow> True | _ \<Rightarrow> False)
     | None \<Rightarrow> raise TypeError ''not supported between instances''))"

record match_result =
  mr_ok :: bool
  mr_reason :: string
  mr_score :: int

definition reject :: "string \<Rightarrow> match_result res" where
  "reject reason = Inr \<lparr>mr_ok = False, mr_reason = reason, mr_score = 0\<rparr>"

definition match_score :: "announcement \<Rightarrow> int res" where
  "match_score a = (case strict_int (an_reward_minor a) of Some i \<Rightarrow> float_of_int i | None \<Rightarrow> raise TypeError ''not an integer'')"

definition market_match :: "announcement \<Rightarrow> market_subscription \<Rightarrow> pyfloat \<Rightarrow> int \<Rightarrow> match_result res" where
  "market_match a sub publisher_rep now =
     bindR (is_expired a now) (\<lambda>dead.
     if dead then reject ''announcement-expired''
     else bindR (normalized_skills (an_capability_set a)) (\<lambda>need.
     if \<not> set need - {[]} \<subseteq> set (sb_capabilities sub) then reject ''capability-insufficient''
     else if sb_contexts sub \<noteq> [] \<and> normalize_capability (an_context a) \<notin> set (sb_contexts sub) then reject ''context-not-subscribed''
     else case strict_int (an_reward_minor a) of
       None \<Rightarrow> raise TypeError ''not an integer''
     | Some reward \<Rightarrow> bindR (int_below reward (sb_min_reward_minor sub)) (\<lambda>low.
         if low then reject ''reward-below-floor''
         else bindR (float_below publisher_rep (sb_publisher_trust_floor sub)) (\<lambda>distrusted.
         if distrusted then reject ''publisher-below-trust-floor''
         else bindR (match_score a) (\<lambda>s. Inr \<lparr>mr_ok = True, mr_reason = [], mr_score = s\<rparr>)))))"

section \<open>The subscriber's view of the feed\<close>

fun score_all :: "market_subscription \<Rightarrow> (pyval \<Rightarrow> pyfloat) \<Rightarrow> int \<Rightarrow> announcement list \<Rightarrow> (announcement \<times> int) list res" where
  "score_all sub rep now [] = Inr []"
| "score_all sub rep now (a # as) =
     bindR (market_match a sub (rep (an_publisher_did a)) now) (\<lambda>m.
     bindR (score_all sub rep now as) (\<lambda>rest. Inr (if mr_ok m then (a, mr_score m) # rest else rest)))"

definition offer_key :: "announcement \<times> int \<Rightarrow> int \<times> int \<times> string" where
  "offer_key s = (- snd s, the (strict_int (an_published_at_ms (fst s))), the_str (Some (an_id (fst s))))"

definition poll_matching :: "nacl \<Rightarrow> (announcement \<Rightarrow> unit res) \<Rightarrow> market_feed \<Rightarrow> market_subscription \<Rightarrow> int \<Rightarrow> (pyval \<Rightarrow> pyfloat) \<Rightarrow> int
    \<Rightarrow> ((announcement \<times> int) list \<times> int) res" where
  "poll_matching n stores fd sub since rep now =
     bindR (poll n stores fd since None False now) (\<lambda>(anns, cursor).
     bindR (score_all sub rep now anns) (\<lambda>scored. Inr (sort_key offer_key scored, cursor)))"


section \<open>What the view shows\<close>

text \<open>The offers a subscriber asks for, stated without the code: it has every capability needed, is interested in the context, the reward
  reaches the minimum and the local reputation of the publisher the floor.\<close>

definition wanted :: "market_subscription \<Rightarrow> (pyval \<Rightarrow> pyfloat) \<Rightarrow> announcement \<Rightarrow> bool" where
  "wanted sub rep a \<longleftrightarrow> (\<exists>caps reward least x t y u.
     an_capability_set a = PList (map PStr caps) \<and> (\<forall>c \<in> set caps. normalize_text c = [] \<or> normalize_text c \<in> set (sb_capabilities sub))
     \<and> (sb_contexts sub = [] \<or> normalize_capability (an_context a) \<in> set (sb_contexts sub))
     \<and> an_reward_minor a = PInt reward \<and> sb_min_reward_minor sub = PInt least \<and> least \<le> reward
     \<and> rep (an_publisher_did a) = FFin x t \<and> sb_publisher_trust_floor sub = PFloat (FFin y u) \<and> y \<le> x)"

definition numeric_sub :: "market_subscription \<Rightarrow> (pyval \<Rightarrow> pyfloat) \<Rightarrow> bool" where
  "numeric_sub sub rep \<longleftrightarrow> (\<exists>least y u. sb_min_reward_minor sub = PInt least \<and> sb_publisher_trust_floor sub = PFloat (FFin y u)) \<and> (\<forall>did. \<exists>x t. rep did = FFin x t)"

lemma bit_length_small: "m < 2 ^ k \<Longrightarrow> bit_length m \<le> k"
proof (induction k arbitrary: m)
  case (Suc k)
  then have "m div 2 < 2 ^ k" by (auto simp: less_mult_imp_div_less mult.commute)
  then show ?case using Suc.IH [of "m div 2"] by (subst bit_length.simps) auto
qed simp

lemma float_of_int_exact: "\<bar>i\<bar> < 2 ^ 53 \<Longrightarrow> float_of_int i = Inr i"
proof -
  assume i: "\<bar>i\<bar> < 2 ^ 53"
  then have b: "nat \<bar>i\<bar> < 2 ^ 53" by (metis (mono_tags) abs_ge_zero nat_less_iff of_nat_numeral of_nat_power)
  have "round_bits (nat \<bar>i\<bar>) = nat \<bar>i\<bar>" using bit_length_small [OF b] by (simp add: round_bits_def Let_def)
  moreover have "\<bar>i\<bar> < 2 ^ 1024 - 2 ^ 970" using i by (rule order.strict_trans) simp
  ultimately show ?thesis by (cases "0 \<le> i") (simp_all add: float_of_int_def)
qed

lemma float_of_reward: "0 \<le> i \<Longrightarrow> i \<le> max_signed_int \<Longrightarrow> \<exists>s. float_of_int i = Inr s"
  by (auto simp: float_of_int_def ensure_def max_signed_int_def)

lemma market_match_typed:
  assumes "ann_typed a" "numeric_sub sub rep" "is_expired a now = Inr False"
  shows "\<exists>m. market_match a sub (rep (an_publisher_did a)) now = Inr m \<and> (mr_ok m \<longleftrightarrow> wanted sub rep a) \<and> (mr_ok m \<longrightarrow> match_score a = Inr (mr_score m))"
proof -
  obtain caps reward where a: "an_capability_set a = PList (map PStr caps)" "an_reward_minor a = PInt reward" "0 \<le> reward" "reward \<le> max_signed_int"
    using assms(1) unfolding ann_typed_def by blast
  obtain least y u x t where s: "sb_min_reward_minor sub = PInt least" "sb_publisher_trust_floor sub = PFloat (FFin y u)" "rep (an_publisher_did a) = FFin x t"
    using assms(2) unfolding numeric_sub_def by blast
  obtain z where z: "float_of_int reward = Inr z" using float_of_reward [OF a(3,4)] by blast
  have need: "normalized_skills (an_capability_set a) = Inr (map normalize_text caps)"
    by (simp add: a(1) normalized_skills_def py_iter_def normalize_capability_def)
  have w: "wanted sub rep a \<longleftrightarrow> set (map normalize_text caps) - {[]} \<subseteq> set (sb_capabilities sub)
     \<and> \<not> (sb_contexts sub \<noteq> [] \<and> normalize_capability (an_context a) \<notin> set (sb_contexts sub)) \<and> \<not> reward < least \<and> \<not> x < y"
    using a(1,2) s by (auto simp: wanted_def inj_map_eq_map inj_on_def)
  show ?thesis unfolding market_match_def assms(3) need bindR_simps w
    using a(2) s z by (simp add: reject_def strict_int_def int_below_def float_below_def num_of_def match_score_def)
qed

lemma score_all_spec:
  assumes "numeric_sub sub rep" "\<forall>a \<in> set anns. ann_typed a \<and> is_expired a now = Inr False"
  shows "\<exists>scored. score_all sub rep now anns = Inr scored \<and> map fst scored = filter (wanted sub rep) anns \<and> (\<forall>(a, s) \<in> set scored. match_score a = Inr s)"
  using assms(2)
proof (induction anns)
  case (Cons a anns)
  obtain m where m: "market_match a sub (rep (an_publisher_did a)) now = Inr m" "mr_ok m \<longleftrightarrow> wanted sub rep a" "mr_ok m \<longrightarrow> match_score a = Inr (mr_score m)"
    using market_match_typed [OF _ assms(1)] Cons.prems by (metis list.set_intros(1))
  obtain r where "score_all sub rep now anns = Inr r" "map fst r = filter (wanted sub rep) anns" "\<forall>(a, s) \<in> set r. match_score a = Inr s"
    using Cons.IH Cons.prems by auto
  then show ?case using m by auto
qed simp

lemma live_ann_verified: "a \<in> set (live n stores False now lines) \<Longrightarrow> ann_typed a \<and> is_expired a now = Inr False"
proof (induction lines)
  case (Cons raw lines)
  then show ?case
    by (auto simp: live_at_def split: option.splits sum.splits if_splits dest!: safe_parse_verified elim: verified_announcementE)
qed simp

lemma poll_all:
  assumes "lines_ok n stores (fd_lines fd)" "-1 \<le> since"
  shows "poll n stores fd since None x now = Inr (live n stores x now (drop (nat (since + 1)) (fd_lines fd)), since + int (length (drop (nat (since + 1)) (fd_lines fd))))"
  using poll_unread [OF assms, of None x now] by (auto simp: polled_def limit_reached_def)

text \<open>The subscriber's view is complete, sound and ordered: polling with a subscription returns exactly the unread live
  announcements the subscription asks for, each once, best paid first and then by publication, and moves the cursor past
  everything read; the score is the reward itself for every reward below \<open>2^53\<close>.\<close>

lemma poll_matching_exact:
  assumes "lines_ok n stores (fd_lines fd)" "-1 \<le> since" "numeric_sub sub rep"
  shows "\<exists>scored. poll_matching n stores fd sub since rep now = Inr (scored, since + int (length (drop (nat (since + 1)) (fd_lines fd))))
    \<and> mset (map fst scored) = mset (filter (wanted sub rep) (live n stores False now (drop (nat (since + 1)) (fd_lines fd))))
    \<and> sorted (map offer_key scored)
    \<and> (\<forall>(a, s) \<in> set scored. \<forall>reward. an_reward_minor a = PInt reward \<and> \<bar>reward\<bar> < 2 ^ 53 \<longrightarrow> s = reward)"
proof -
  let ?anns = "live n stores False now (drop (nat (since + 1)) (fd_lines fd))"
  obtain r where r: "score_all sub rep now ?anns = Inr r" "map fst r = filter (wanted sub rep) ?anns" "\<forall>(a, s) \<in> set r. match_score a = Inr s"
    using score_all_spec [OF assms(3), of ?anns now] live_ann_verified by blast
  have "poll_matching n stores fd sub since rep now = Inr (sort_key offer_key r, since + int (length (drop (nat (since + 1)) (fd_lines fd))))"
    by (simp add: poll_matching_def poll_all [OF assms(1,2)] r(1))
  moreover have "mset (map fst (sort_key offer_key r)) = mset (filter (wanted sub rep) ?anns)" by (metis mset_map mset_sort r(2))
  moreover have "\<forall>(a, s) \<in> set (sort_key offer_key r). \<forall>reward. an_reward_minor a = PInt reward \<and> \<bar>reward\<bar> < 2 ^ 53 \<longrightarrow> s = reward"
    using r(3) float_of_int_exact by (fastforce simp: match_score_def strict_int_def)
  ultimately show ?thesis by auto
qed

text \<open>Discovery and claiming agree: with a token for the subscribed capabilities, nothing the view shows is refused for lack of skills.\<close>

lemma wanted_skills_sufficient:
  assumes "wanted sub rep a" "dget cap ''capabilities'' = Some (PList (map PStr granted))" "set (sb_capabilities sub) \<subseteq> normalize_text ` set granted"
  shows "check_skills a cap = Inr ()"
proof -
  obtain caps where c: "an_capability_set a = PList (map PStr caps)" "\<forall>c \<in> set caps. normalize_text c = [] \<or> normalize_text c \<in> set (sb_capabilities sub)"
    using assms(1) unfolding wanted_def by blast
  have "normalize_text ` set caps - {[]} \<subseteq> normalize_text ` set granted" using c(2) assms(3) by auto
  then show ?thesis using assms(2) c(1)
    by (simp add: check_skills_def skills_sufficient_def normalized_skills_def py_iter_def dget_or_def normalize_capability_def image_image)
qed


section \<open>A concrete view\<close>

definition demo_sub :: market_subscription where
  "demo_sub = projr (subscription_new (PStr ''s'') (PList [PStr ''X'']) (PList []) (PInt 3) (PInt 1) (PFloat (FFin 0 ''0.0'')))"

lemma demo_sub: "demo_sub = \<lparr>sb_subscriber_did = PStr ''s'', sb_capabilities = [''x''], sb_contexts = [], sb_min_reward_minor = PInt 3,
    sb_max_concurrent = PInt 1, sb_publisher_trust_floor = PFloat (FFin 0 ''0.0'')\<rparr>"
proof -
  have "normalize_text ''X'' = ''x''" by code_simp
  then show ?thesis by (simp add: demo_sub_def subscription_new_def normal_names_def py_iter_def normalize_capability_def at_least_one_def)
qed

lemma poll_matching_exact_demo:
  "\<exists>s. poll_matching demo_nacl (\<lambda>_. Inr ()) demo_feed demo_sub (-1) (\<lambda>_. FFin 0 ''0.0'') 5 = Inr ([(demo_ann, s)], 0)"
proof -
  obtain fd where "publish demo_nacl (\<lambda>_. Inr ()) 1 demo_ann empty_feed = (fd, Inr ())" "fd_lines fd = fd_lines empty_feed @ [Some (PDict (ann_to_dict demo_ann))]"
    and p: "safe_parse demo_nacl (\<lambda>_. Inr ()) (Some (PDict (ann_to_dict demo_ann))) = Inr (Some demo_ann)"
    by (rule demo_published)
  then have f: "fd_lines demo_feed = [Some (PDict (ann_to_dict demo_ann))]" by (simp add: demo_feed_def empty_feed_def)
  have n: "numeric_sub demo_sub (\<lambda>_. FFin 0 ''0.0'')" by (simp add: numeric_sub_def demo_sub)
  have l: "live demo_nacl (\<lambda>_. Inr ()) False 5 (fd_lines demo_feed) = [demo_ann]" using p by (simp add: f live_at_def is_expired_def demo_ann(8))
  have "normalize_text ''x'' = ''x''" by code_simp
  then have w: "wanted demo_sub (\<lambda>_. FFin 0 ''0.0'') demo_ann" by (auto simp: wanted_def demo_sub demo_ann(6,9) intro!: exI [of _ "[''x'']"])
  have "lines_ok demo_nacl (\<lambda>_. Inr ()) (fd_lines demo_feed)" using p by (simp add: f)
  from poll_matching_exact [OF this _ n, of "-1" 5] obtain scored where s: "poll_matching demo_nacl (\<lambda>_. Inr ()) demo_feed demo_sub (-1) (\<lambda>_. FFin 0 ''0.0'') 5 = Inr (scored, 0)"
    "mset (map fst scored) = mset [demo_ann]" using l w f by auto
  then have "map fst scored = [demo_ann]" by (metis mset_single_iff)
  then show ?thesis using s(1) by (cases scored) auto
qed

end
