(* ===== verification/Federation.thy ===== *)
theory Federation
  imports Market_Match
begin

text \<open>
  \<open>nth_dao/market/federation.py\<close>: signed digests of a node's feed, the references in them, matching on references, and serving full
  announcements. The fields of a digest are wire data, so they hold any value.
\<close>

section \<open>Constants\<close>

definition nth_feed_digest_kind :: string where
  "nth_feed_digest_kind = ''nth-feed-digest-v1''"

definition max_digest_refs :: nat where
  "max_digest_refs = 1000"

definition ref_fields :: "string list" where
  "ref_fields = [''kind'', ''announcement_id'', ''publisher_did'', ''authority_did'', ''capability_set'', ''context'', ''reward_minor'', ''reward_asset'',
     ''published_at_ms'', ''not_after'', ''listing_type'', ''offer_digest'', ''price_minor'', ''price_asset'', ''availability_summary'']"

definition ref_allowed_fields :: "string list" where
  "ref_allowed_fields = ref_fields @ [''federation_key'']"

section \<open>Digests\<close>

record feed_digest =
  dg_source_did :: pyval
  dg_generated_at_ms :: pyval
  dg_high_seq :: pyval
  dg_refs :: pyval
  dg_kind :: pyval
  dg_sig :: pyval

definition digest_to_dict :: "feed_digest \<Rightarrow> pydict" where
  "digest_to_dict d = obj [(''source_did'', dg_source_did d), (''generated_at_ms'', dg_generated_at_ms d), (''high_seq'', dg_high_seq d),
     (''refs'', dg_refs d), (''kind'', dg_kind d), (''digest_sig'', dg_sig d)]"

definition digest_from_dict :: "pyval \<Rightarrow> feed_digest res" where
  "digest_from_dict data = (case data of
     PDict d \<Rightarrow>
       ensure (set (map fst d) \<subseteq> PStr ` {''source_did'', ''generated_at_ms'', ''high_seq'', ''refs'', ''kind'', ''digest_sig''}) ValueError ''feed digest has unknown fields'' (
       ensure (dhas d ''source_did'' \<and> dhas d ''generated_at_ms'' \<and> dhas d ''high_seq'') TypeError ''missing required positional arguments'' (
       Inr \<lparr>dg_source_did = dget_or d ''source_did'' PNone, dg_generated_at_ms = dget_or d ''generated_at_ms'' PNone, dg_high_seq = dget_or d ''high_seq'' PNone,
         dg_refs = dget_or d ''refs'' (PList []), dg_kind = dget_or d ''kind'' (PStr nth_feed_digest_kind), dg_sig = dget_or d ''digest_sig'' (PStr [])\<rparr>))
   | _ \<Rightarrow> raise ValueError ''feed digest has unknown fields'')"

definition digest_signing_body :: "feed_digest \<Rightarrow> pydict" where
  "digest_signing_body d = without_key ''digest_sig'' (digest_to_dict d)"

definition digest_text :: "pyval \<Rightarrow> nat \<Rightarrow> nat \<Rightarrow> bool" where
  "digest_text v lo hi \<longleftrightarrow> (case v of PStr s \<Rightarrow> lo \<le> length (utf8 s) \<and> length (utf8 s) \<le> hi | _ \<Rightarrow> False)"

definition digest_uint :: "pyval \<Rightarrow> bool" where
  "digest_uint v \<longleftrightarrow> (case strict_int v of Some i \<Rightarrow> 0 \<le> i \<and> i \<le> 2 ^ 63 - 1 | None \<Rightarrow> False)"

section \<open>References\<close>

definition ref_common :: "pydict \<Rightarrow> bool" where
  "ref_common ref \<longleftrightarrow>
     (let fld = (\<lambda>k. dget_or ref k PNone); authority = dget_or ref ''authority_did'' (PStr []) in
      set (map fst ref) \<subseteq> PStr ` set ref_allowed_fields
      \<and> digest_text (fld ''announcement_id'') 1 256
      \<and> (fld ''federation_key'' \<noteq> PNone \<longrightarrow> (case fld ''federation_key'' of PStr k \<Rightarrow> federation_key_ok k | _ \<Rightarrow> False))
      \<and> digest_text (fld ''publisher_did'') 1 128 \<and> is_did_key (fld ''publisher_did'')
      \<and> (truthy authority \<longrightarrow> digest_text authority 1 128 \<and> is_did_key authority)
      \<and> (case fld ''capability_set'' of PList caps \<Rightarrow> length caps \<le> 64 \<and> list_all (\<lambda>c. digest_text c 1 128) caps | _ \<Rightarrow> False)
      \<and> digest_text (fld ''context'') 1 128 \<and> digest_uint (fld ''reward_minor'') \<and> digest_text (fld ''reward_asset'') 1 64
      \<and> digest_uint (fld ''published_at_ms'') \<and> digest_uint (fld ''not_after''))"

definition ref_v3 :: "pydict \<Rightarrow> bool res" where
  "ref_v3 ref =
     (if \<not> list_all (dhas ref) ref_allowed_fields then Inr False
      else bindR (in_str_set (dget_or ref ''listing_type'' (PStr [])) [''product'', ''service'']) (\<lambda>known.
        Inr (known \<and> offer_digest_pattern (dget_or ref ''offer_digest'' (PStr [])) \<and> digest_uint (dget_or ref ''price_minor'' PNone)
          \<and> digest_text (dget_or ref ''price_asset'' (PStr [])) 1 64 \<and> bounded_json_object (dget_or ref ''availability_summary'' (PDict [])) 4096
          \<and> py_eq (dget_or ref ''price_minor'' PNone) (dget_or ref ''reward_minor'' PNone)
          \<and> py_eq (dget_or ref ''price_asset'' (PStr [])) (dget_or ref ''reward_asset'' PNone))))"

definition ref_trade_offer :: "pydict \<Rightarrow> bool" where
  "ref_trade_offer ref \<longleftrightarrow>
     list_all (dhas ref) ref_allowed_fields \<and> dget_or ref ''listing_type'' (PStr []) = PStr ''exchange''
     \<and> offer_digest_pattern (dget_or ref ''offer_digest'' (PStr []))
     \<and> py_eq (dget_or ref ''price_minor'' PNone) (PInt 0) \<and> dget_or ref ''price_asset'' (PStr []) = PStr []
     \<and> py_eq (dget_or ref ''reward_minor'' PNone) (PInt 0) \<and> dget_or ref ''reward_asset'' PNone = PStr ''exchange''
     \<and> bounded_json_object (dget_or ref ''availability_summary'' (PDict [])) 4096
     \<and> (case dget_or ref ''availability_summary'' (PDict []) of
          PDict s \<Rightarrow> digest_text (dget_or s ''offer_id'' PNone) 3 256
            \<and> (case strict_int (dget_or s ''revision'' PNone) of Some i \<Rightarrow> 1 \<le> i \<and> i \<le> 2147483647 | None \<Rightarrow> False)
            \<and> dget_or s ''state'' PNone = PStr ''active''
        | _ \<Rightarrow> False)
     \<and> the (strict_int (dget_or ref ''published_at_ms'' PNone)) < the (strict_int (dget_or ref ''not_after'' PNone))"

definition ref_legacy :: "pydict \<Rightarrow> bool" where
  "ref_legacy ref \<longleftrightarrow> dget_or ref ''listing_type'' (PStr []) = PStr [] \<and> dget_or ref ''offer_digest'' (PStr []) = PStr []
     \<and> py_eq (dget_or ref ''price_minor'' (PInt 0)) (PInt 0) \<and> dget_or ref ''price_asset'' (PStr []) = PStr []
     \<and> py_eq (dget_or ref ''availability_summary'' (PDict [])) (PDict [])"

definition validate_digest_ref :: "pyval \<Rightarrow> bool res" where
  "validate_digest_ref v = (case v of
     PDict ref \<Rightarrow>
       if \<not> ref_common ref then Inr False
       else let kind = dget_or ref ''kind'' (PStr ann_kind_v2) in
         bindR (in_str_set kind [ann_kind_v1, ann_kind_v2, ann_kind_v3, trade_offer_kind_v1]) (\<lambda>known.
         if \<not> known then Inr False
         else if kind = PStr ann_kind_v3 then ref_v3 ref
         else Inr (if kind = PStr trade_offer_kind_v1 then ref_trade_offer ref else ref_legacy ref))
   | _ \<Rightarrow> Inr False)"

text \<open>\<open>any(not valid(ref) for ref in refs)\<close> stops at the first invalid reference.\<close>

fun all_refs_valid :: "pyval list \<Rightarrow> bool res" where
  "all_refs_valid [] = Inr True"
| "all_refs_valid (r # rs) = bindR (validate_digest_ref r) (\<lambda>ok. if ok then all_refs_valid rs else Inr False)"

definition digest_signature_fault :: "feed_digest \<Rightarrow> string option" where
  "digest_signature_fault d =
     (if \<not> digest_text (dg_sig d) 1 128 then Some ''digest-missing-field''
      else case b64u_decode (py_str (dg_sig d)) of
        Inr decoded \<Rightarrow> reject_unless (length decoded = 64 \<and> b64u_encode decoded = py_str (dg_sig d)) ''digest-sig-decode-failed''
      | Inl _ \<Rightarrow> Some ''digest-sig-decode-failed'')"

definition digest_scalar_fault :: "feed_digest \<Rightarrow> string option" where
  "digest_scalar_fault d =
     (if dg_kind d \<noteq> PStr nth_feed_digest_kind then Some ''digest-schema-invalid''
      else if \<not> (digest_text (dg_source_did d) 1 128 \<and> is_did_key (dg_source_did d)) then Some ''digest-bad-source-did''
      else if \<not> digest_uint (dg_generated_at_ms d) then Some ''digest-schema-invalid''
      else if \<not> (case strict_int (dg_high_seq d) of Some i \<Rightarrow> -1 \<le> i \<and> i \<le> 2 ^ 63 - 1 | None \<Rightarrow> False) then Some ''digest-schema-invalid''
      else reject_unless (case dg_refs d of PList rs \<Rightarrow> length rs \<le> max_digest_refs | _ \<Rightarrow> False) ''digest-schema-invalid'')"

definition digest_ref_list :: "feed_digest \<Rightarrow> pyval list" where
  "digest_ref_list d = (case dg_refs d of PList rs \<Rightarrow> rs | _ \<Rightarrow> [])"

definition validate_digest_schema :: "feed_digest \<Rightarrow> bool \<Rightarrow> (bool \<times> string) res" where
  "validate_digest_schema d require_signature = (case digest_scalar_fault d of
     Some reason \<Rightarrow> Inr (False, reason)
   | None \<Rightarrow> bindR (all_refs_valid (digest_ref_list d)) (\<lambda>ok.
       if \<not> ok then Inr (False, ''digest-schema-invalid'')
       else case (if require_signature then digest_signature_fault d else None) of
         Some reason \<Rightarrow> Inr (False, reason)
       | None \<Rightarrow> Inr (True, [])))"

section \<open>Building and verifying\<close>

definition digest_ref :: "announcement \<Rightarrow> pyval res" where
  "digest_ref a = bindR (announcement_federation_key a) (\<lambda>key.
     Inr (PDict (obj (map (\<lambda>k. (k, dget_or (ann_to_dict a) k PNone)) ref_fields @ [(''federation_key'', PStr key)]))))"

definition advertised :: "string \<Rightarrow> (announcement \<Rightarrow> bool) \<Rightarrow> announcement \<Rightarrow> bool" where
  "advertised source_did is_open a \<longleftrightarrow> effective_authority_did a = PStr source_did \<and> is_open a"

definition page_limit :: "int option \<Rightarrow> int res" where
  "page_limit limit = (case limit of
     None \<Rightarrow> Inr (int max_digest_refs)
   | Some l \<Rightarrow> ensure (0 \<le> l) ValueError ''limit must be a non-negative integer or None'' (Inr (min l (int max_digest_refs))))"

definition build_digest :: "nacl \<Rightarrow> (announcement \<Rightarrow> unit res) \<Rightarrow> market_feed \<Rightarrow> identity \<Rightarrow> int \<Rightarrow> bool \<Rightarrow> int \<Rightarrow> int option
    \<Rightarrow> (announcement \<Rightarrow> bool) \<Rightarrow> feed_digest res" where
  "build_digest n stores fd source since include_expired now limit is_open =
     ensure (-1 \<le> since) ValueError ''since_seq must be an integer >= -1'' (
     bindR (page_limit limit) (\<lambda>pages.
     ensure (0 \<le> now) ValueError ''now_ms_override must be a non-negative integer'' (
     bindR (poll n stores fd since (Some pages) include_expired now) (\<lambda>(anns, cursor).
     bindR (as_did source) (\<lambda>source_did.
     bindR (mapR digest_ref (filter (advertised source_did is_open) anns)) (\<lambda>refs.
     let d = \<lparr>dg_source_did = PStr source_did, dg_generated_at_ms = PInt now, dg_high_seq = PInt cursor, dg_refs = PList refs,
              dg_kind = PStr nth_feed_digest_kind, dg_sig = PStr []\<rparr> in
     bindR (validate_digest_schema d False) (\<lambda>(ok, reason).
     ensure ok ValueError (''invalid digest schema: '' @ reason) (
     bindR (canonical_json (PDict (digest_signing_body d))) (\<lambda>bs.
     bindR (identity_sign n source bs) (\<lambda>s. Inr (d\<lparr>dg_sig := PStr (b64u_encode s)\<rparr>)))))))))))"

definition verify_digest :: "nacl \<Rightarrow> feed_digest \<Rightarrow> (bool \<times> string) res" where
  "verify_digest n d =
     (if \<not> nacl_available n then Inr (False, ''digest-crypto-unavailable'')
      else if \<not> truthy (dg_kind d) \<or> \<not> truthy (dg_source_did d) \<or> \<not> truthy (dg_sig d) then Inr (False, ''digest-missing-field'')
      else bindR (validate_digest_schema d True) (\<lambda>(schema_ok, schema_reason).
        if \<not> schema_ok then Inr (False, schema_reason)
        else case decode_ed25519_did_key (py_str (dg_source_did d)) of
          Inl e \<Rightarrow> Inl e
        | Inr pk \<Rightarrow> (case b64u_decode (py_str (dg_sig d)) of
            Inl _ \<Rightarrow> Inr (False, ''digest-sig-decode-failed'')
          | Inr sig_bytes \<Rightarrow> (case canonical_json (PDict (digest_signing_body d)) of
              Inl _ \<Rightarrow> Inr (False, ''digest-sig-invalid'')
            | Inr bs \<Rightarrow> if nacl_verify n pk bs sig_bytes then Inr (True, []) else Inr (False, ''digest-sig-invalid'')))))"

section \<open>Matching references\<close>

definition safe_str :: "pyval \<Rightarrow> string" where
  "safe_str v = (case v of PStr s \<Rightarrow> s | _ \<Rightarrow> [])"

definition safe_int :: "pyval \<Rightarrow> int" where
  "safe_int v = (case v of PInt i \<Rightarrow> i | _ \<Rightarrow> 0)"

definition safe_str_list :: "pyval \<Rightarrow> pyval list" where
  "safe_str_list v = (case v of PList xs \<Rightarrow> filter is_str xs | _ \<Rightarrow> [])"

definition or_text :: "string \<Rightarrow> string \<Rightarrow> string" where
  "or_text s dflt = (if s = [] then dflt else s)"

definition ref_to_partial_ann :: "pydict \<Rightarrow> announcement" where
  "ref_to_partial_ann ref =
     (let fld = (\<lambda>k. dget_or ref k PNone) in
      ann_from_fields (obj [(''announcement_id'', PStr (safe_str (fld ''announcement_id''))), (''publisher_did'', PStr (safe_str (fld ''publisher_did''))),
        (''title'', PStr []), (''kind'', PStr (or_text (safe_str (fld ''kind'')) ann_kind_v2)), (''capability_set'', PList (safe_str_list (fld ''capability_set''))),
        (''context'', PStr (or_text (safe_str (fld ''context'')) ''general'')), (''reward_minor'', PInt (safe_int (fld ''reward_minor''))),
        (''reward_asset'', PStr (or_text (safe_str (fld ''reward_asset'')) ''credit'')), (''published_at_ms'', PInt (safe_int (fld ''published_at_ms''))),
        (''not_after'', PInt (safe_int (fld ''not_after''))), (''listing_type'', PStr (safe_str (fld ''listing_type''))),
        (''offer_digest'', PStr (safe_str (fld ''offer_digest''))), (''price_minor'', PInt (safe_int (fld ''price_minor''))),
        (''price_asset'', PStr (safe_str (fld ''price_asset''))),
        (''availability_summary'', PDict (case fld ''availability_summary'' of PDict s \<Rightarrow> s | _ \<Rightarrow> []))]))"

fun match_refs :: "market_subscription \<Rightarrow> pyfloat \<Rightarrow> int \<Rightarrow> pyval list \<Rightarrow> pydict list res" where
  "match_refs sub rep now [] = Inr []"
| "match_refs sub rep now (r # rs) = (case r of
     PDict ref \<Rightarrow> bindR (market_match (ref_to_partial_ann ref) sub rep now) (\<lambda>m.
       bindR (match_refs sub rep now rs) (\<lambda>rest. Inr (if mr_ok m then ref # rest else rest)))
   | _ \<Rightarrow> raise AttributeError ''object has no attribute get'')"

definition match_digest_refs :: "feed_digest \<Rightarrow> market_subscription \<Rightarrow> pyfloat \<Rightarrow> int \<Rightarrow> pydict list res" where
  "match_digest_refs d sub rep now = bindR (py_iter (dg_refs d)) (match_refs sub rep now)"

definition ref_key :: "pydict \<Rightarrow> pyval" where
  "ref_key ref = (let k = dget_or ref ''federation_key'' PNone in if truthy k then k else dget_or ref ''announcement_id'' PNone)"

fun merge_refs :: "pyval list \<times> pydict list \<Rightarrow> pyval list \<Rightarrow> (pyval list \<times> pydict list) res" where
  "merge_refs acc [] = Inr acc"
| "merge_refs (seen, out) (r # rs) = (case r of
     PDict ref \<Rightarrow>
       if \<not> truthy (ref_key ref) then merge_refs (seen, out) rs
       else ensure (hashable (ref_key ref)) TypeError ''unhashable type'' (
         merge_refs (if list_ex (\<lambda>k. py_eq k (ref_key ref)) seen then (seen, out) else (ref_key ref # seen, out @ [ref])) rs)
   | _ \<Rightarrow> raise AttributeError ''object has no attribute get'')"

fun merge_digests :: "pyval list \<times> pydict list \<Rightarrow> feed_digest list \<Rightarrow> (pyval list \<times> pydict list) res" where
  "merge_digests acc [] = Inr acc"
| "merge_digests acc (d # ds) = bindR (py_iter (dg_refs d)) (\<lambda>rs. bindR (merge_refs acc rs) (\<lambda>acc'. merge_digests acc' ds))"

definition merge_digest_refs :: "feed_digest list \<Rightarrow> pydict list res" where
  "merge_digest_refs ds = bindR (merge_digests ([], []) ds) (\<lambda>(_, out). Inr out)"

section \<open>Serving announcements\<close>

fun pull_announcements :: "nacl \<Rightarrow> (announcement \<Rightarrow> unit res) \<Rightarrow> market_feed \<Rightarrow> string list \<Rightarrow> bool \<Rightarrow> int \<Rightarrow> announcement list res" where
  "pull_announcements n stores fd [] include_expired now = Inr []"
| "pull_announcements n stores fd (aid # ids) include_expired now =
     bindR (feed_get n stores fd aid include_expired now) (\<lambda>found. case found of
       None \<Rightarrow> pull_announcements n stores fd ids include_expired now
     | Some a \<Rightarrow> bindR (verify_announcement n a) (\<lambda>(ok, _).
         bindR (pull_announcements n stores fd ids include_expired now) (\<lambda>rest. Inr (if ok then a # rest else rest))))"

fun pull_announcements_by_keys :: "nacl \<Rightarrow> (announcement \<Rightarrow> unit res) \<Rightarrow> market_feed \<Rightarrow> string list \<Rightarrow> bool \<Rightarrow> int \<Rightarrow> announcement list res" where
  "pull_announcements_by_keys n stores fd [] include_expired now = Inr []"
| "pull_announcements_by_keys n stores fd (key # keys) include_expired now =
     bindR (get_by_federation_key n stores fd key include_expired now) (\<lambda>found. case found of
       None \<Rightarrow> pull_announcements_by_keys n stores fd keys include_expired now
     | Some a \<Rightarrow> bindR (verify_announcement n a) (\<lambda>(ok, _).
         bindR (if ok then bindR (announcement_federation_key a) (\<lambda>k. Inr (k = key)) else Inr False) (\<lambda>same.
         bindR (pull_announcements_by_keys n stores fd keys include_expired now) (\<lambda>rest. Inr (if same then a # rest else rest)))))"


section \<open>Digests that verify\<close>

lemma digest_sig_independent:
  "digest_scalar_fault (d\<lparr>dg_sig := x\<rparr>) = digest_scalar_fault d" "digest_ref_list (d\<lparr>dg_sig := x\<rparr>) = digest_ref_list d"
  "digest_signing_body (d\<lparr>dg_sig := x\<rparr>) = digest_signing_body d"
  by (simp_all add: digest_scalar_fault_def digest_ref_list_def digest_signing_body_def digest_to_dict_def obj_def without_key_def)

lemma validate_digest_ok:
  assumes "validate_digest_schema d b = Inr (True, r)"
  shows "digest_scalar_fault d = None" "all_refs_valid (digest_ref_list d) = Inr True" "b \<Longrightarrow> digest_signature_fault d = None" "r = []"
  using assms by (auto simp: validate_digest_schema_def bindR_Inr_iff split: option.splits if_splits)

lemma all_refs_valid_iff: "all_refs_valid rs = Inr True \<longleftrightarrow> (\<forall>r \<in> set rs. validate_digest_ref r = Inr True)"
  by (induction rs) (auto simp: bindR_Inr_iff)

lemma scalar_okE:
  assumes "digest_scalar_fault d = None"
  obtains did pk t h rs where "dg_kind d = PStr nth_feed_digest_kind" "dg_source_did d = PStr did" "decode_ed25519_did_key did = Inr pk" "dg_generated_at_ms d = PInt t" "0 \<le> t"
    "dg_high_seq d = PInt h" "-1 \<le> h" "dg_refs d = PList rs" "length rs \<le> max_digest_refs"
proof -
  have k: "dg_kind d = PStr nth_feed_digest_kind" "is_did_key (dg_source_did d)" "digest_uint (dg_generated_at_ms d)"
    and h: "case strict_int (dg_high_seq d) of Some i \<Rightarrow> -1 \<le> i \<and> i \<le> 2 ^ 63 - 1 | None \<Rightarrow> False"
    and r: "case dg_refs d of PList rs \<Rightarrow> length rs \<le> max_digest_refs | _ \<Rightarrow> False"
    using assms by (auto simp: digest_scalar_fault_def reject_unless_def split: if_splits)
  obtain did pk where "dg_source_did d = PStr did" "decode_ed25519_did_key did = Inr pk" using is_did_keyD [OF k(2)] by blast
  moreover obtain t where "dg_generated_at_ms d = PInt t" "0 \<le> t" using k(3) by (cases "dg_generated_at_ms d") (auto simp: digest_uint_def strict_int_def)
  moreover obtain i where "dg_high_seq d = PInt i" "-1 \<le> i" using h by (cases "dg_high_seq d") (auto simp: strict_int_def)
  moreover obtain rs where "dg_refs d = PList rs" "length rs \<le> max_digest_refs" using r by (cases "dg_refs d") auto
  ultimately show thesis using that k(1) by blast
qed

lemma build_digestE:
  assumes "build_digest n stores fd source since x now limit is_open = Inr d"
  obtains pages anns cursor did refs r bs s where "page_limit limit = Inr pages" "-1 \<le> since" "poll n stores fd since (Some pages) x now = Inr (anns, cursor)" "as_did source = Inr did"
    "mapR digest_ref (filter (advertised did is_open) anns) = Inr refs" "dg_refs d = PList refs" "dg_source_did d = PStr did" "dg_kind d = PStr nth_feed_digest_kind"
    "validate_digest_schema (d\<lparr>dg_sig := PStr []\<rparr>) False = Inr (True, r)" "canonical_json (PDict (digest_signing_body d)) = Inr bs" "identity_sign n source bs = Inr s"
    "dg_sig d = PStr (b64u_encode s)"
proof -
  obtain pages anns cursor did refs r bs s where b: "page_limit limit = Inr pages" "-1 \<le> since" "poll n stores fd since (Some pages) x now = Inr (anns, cursor)" "as_did source = Inr did"
    "mapR digest_ref (filter (advertised did is_open) anns) = Inr refs"
    and v: "validate_digest_schema \<lparr>dg_source_did = PStr did, dg_generated_at_ms = PInt now, dg_high_seq = PInt cursor, dg_refs = PList refs,
              dg_kind = PStr nth_feed_digest_kind, dg_sig = PStr []\<rparr> False = Inr (True, r)"
    and c: "canonical_json (PDict (digest_signing_body \<lparr>dg_source_did = PStr did, dg_generated_at_ms = PInt now, dg_high_seq = PInt cursor, dg_refs = PList refs,
              dg_kind = PStr nth_feed_digest_kind, dg_sig = PStr []\<rparr>)) = Inr bs" "identity_sign n source bs = Inr s"
    and d: "d = \<lparr>dg_source_did = PStr did, dg_generated_at_ms = PInt now, dg_high_seq = PInt cursor, dg_refs = PList refs,
              dg_kind = PStr nth_feed_digest_kind, dg_sig = PStr (b64u_encode s)\<rparr>"
    using assms by (auto simp: build_digest_def Let_def bindR_Inr_iff ensure_Inr_iff)
  have "digest_signing_body d = digest_signing_body \<lparr>dg_source_did = PStr did, dg_generated_at_ms = PInt now, dg_high_seq = PInt cursor, dg_refs = PList refs,
              dg_kind = PStr nth_feed_digest_kind, dg_sig = PStr []\<rparr>"
    by (simp add: d digest_signing_body_def digest_to_dict_def obj_def without_key_def)
  then show thesis using that [OF b] v c by (simp add: d)
qed

lemma built_digest_verifies:
  assumes "ed25519_ok n" "signer_ok n source" "build_digest n stores fd source since x now limit is_open = Inr d"
  shows "verify_digest n d = Inr (True, [])"
proof -
  obtain did refs r bs s where b: "as_did source = Inr did" "dg_source_did d = PStr did" "dg_kind d = PStr nth_feed_digest_kind"
    "validate_digest_schema (d\<lparr>dg_sig := PStr []\<rparr>) False = Inr (True, r)" "canonical_json (PDict (digest_signing_body d)) = Inr bs" "identity_sign n source bs = Inr s"
    "dg_sig d = PStr (b64u_encode s)"
    by (rule build_digestE [OF assms(3)])
  obtain seed where seed: "id_signing_key source = Some seed" "length seed = 32" using assms(2) by (rule signer_okE)
  note ok = ed25519_okD [OF assms(1) seed(2)]
  have s: "s = nacl_sign n seed bs" using b(6) signer_sign [OF assms(1,2)] seed by simp
  have l: "length s = 64" using ok(3) s by simp
  note st = sig_text [OF l]
  have sg: "digest_signature_fault d = None" using st l b(7) by (simp add: digest_signature_fault_def digest_text_def reject_unless_def)
  note v = validate_digest_ok [OF b(4), unfolded digest_sig_independent]
  obtain did' where "as_did source = Inr did'" "decode_ed25519_did_key did' = Inr (nacl_pub n seed)" using signer_did [OF assms(1,2)] seed by (metis option.sel)
  then have did: "decode_ed25519_did_key did = Inr (nacl_pub n seed)" "did \<noteq> []" using b(1) did_length_pos by (auto simp: decode_did_iff)
  have "validate_digest_schema d True = Inr (True, [])" using v(1,2) sg by (simp add: validate_digest_schema_def)
  moreover have "nacl_available n" "nacl_verify n (nacl_pub n seed) bs s" using ok s by auto
  ultimately show ?thesis using b did st by (simp add: verify_digest_def nth_feed_digest_kind_def)
qed


section \<open>Discovery across nodes\<close>

lemma ann_context_typed: "verify_announcement n a = Inr (True, r) \<Longrightarrow> \<exists>c. an_context a = PStr c \<and> c \<noteq> []"
proof -
  assume "verify_announcement n a = Inr (True, r)"
  then have "schema_body a" by (auto elim!: verified_announcementE dest: schema_ok(3))
  then have c: "bounded_text (an_context a) 1 128" by (simp add: schema_body_def)
  then show ?thesis using bounded_text_Nil [of 128] by (cases "an_context a") (auto simp: bounded_text_def)
qed

lemma filter_is_str: "filter is_str (map PStr cs) = map PStr cs"
  by (induction cs) (simp_all add: is_str_def)

lemma ref_sel: "dget (obj (map (\<lambda>k. (k, g k)) ks @ rest)) k = (if k \<in> set ks then Some (g k) else dget (obj rest) k)"
  by (induction ks) (simp_all add: obj_def dget_def)

text \<open>A reference matches as its announcement does.\<close>

lemma reference_matches_alike:
  assumes "verify_announcement n a = Inr (True, r)" "digest_ref a = Inr (PDict ref)"
  shows "market_match (ref_to_partial_ann ref) sub rep now = market_match a sub rep now"
proof -
  let ?p = "ref_to_partial_ann ref"
  have t: "ann_typed a" using assms(1) by (rule verified_announcementE)
  obtain caps reward na where a: "an_capability_set a = PList (map PStr caps)" "an_reward_minor a = PInt reward" "an_not_after a = PInt na"
    using t unfolding ann_typed_def by blast
  obtain c where c: "an_context a = PStr c" "c \<noteq> []" using ann_context_typed [OF assms(1)] by blast
  obtain key where ref: "ref = obj (map (\<lambda>k. (k, dget_or (ann_to_dict a) k PNone)) ref_fields @ [(''federation_key'', PStr key)])"
    using assms(2) by (auto simp: digest_ref_def bindR_Inr_iff)
  have f: "dget ref ''capability_set'' = Some (an_capability_set a)" "dget ref ''reward_minor'' = Some (an_reward_minor a)" "dget ref ''not_after'' = Some (an_not_after a)"
    "dget ref ''context'' = Some (an_context a)"
    unfolding ref ref_sel by (simp_all add: ref_fields_def ann_to_dict_def dget_or_def dget_obj)
  have eq: "an_capability_set ?p = an_capability_set a" "an_reward_minor ?p = an_reward_minor a" "an_not_after ?p = an_not_after a" "an_context ?p = an_context a"
    using a c by (simp_all add: ref_to_partial_ann_def Let_def ann_from_fields_def dget_obj dget_or_def f safe_str_list_def safe_int_def safe_str_def or_text_def filter_is_str)
  show ?thesis unfolding market_match_def is_expired_def match_score_def eq by (rule refl)
qed

lemma digest_ref_dict: "digest_ref a = Inr r \<Longrightarrow> \<exists>ref. r = PDict ref"
  by (auto simp: digest_ref_def bindR_Inr_iff)

lemma match_refs_alike:
  assumes "\<forall>a \<in> set anns. (\<exists>r. verify_announcement n a = Inr (True, r)) \<and> is_expired a now = Inr False" "numeric_sub sub (\<lambda>_. rep)"
    "mapR digest_ref anns = Inr refs"
  shows "\<exists>hits. match_refs sub rep now refs = Inr hits \<and> mapR digest_ref (filter (wanted sub (\<lambda>_. rep)) anns) = Inr (map PDict hits)"
  using assms(1,3)
proof (induction anns arbitrary: refs)
  case (Cons a anns)
  obtain v rs where v: "digest_ref a = Inr v" "mapR digest_ref anns = Inr rs" "refs = v # rs" using Cons.prems(2) by (auto simp: bindR_Inr_iff)
  obtain ref where ref: "v = PDict ref" using digest_ref_dict [OF v(1)] by blast
  obtain r where r: "verify_announcement n a = Inr (True, r)" "is_expired a now = Inr False" using Cons.prems(1) by auto
  have t: "ann_typed a" using r(1) by (rule verified_announcementE)
  obtain m where m: "market_match a sub rep now = Inr m" "mr_ok m \<longleftrightarrow> wanted sub (\<lambda>_. rep) a" using market_match_typed [OF t assms(2) r(2)] by auto
  obtain hits where h: "match_refs sub rep now rs = Inr hits" "mapR digest_ref (filter (wanted sub (\<lambda>_. rep)) anns) = Inr (map PDict hits)"
    using Cons.IH [OF _ v(2)] Cons.prems(1) by auto
  have "market_match (ref_to_partial_ann ref) sub rep now = Inr m" using reference_matches_alike [OF r(1) v(1) [unfolded ref]] m(1) by simp
  then show ?case using h m(2) v ref by simp
qed simp

lemma polled_live:
  assumes "lines_ok n stores (fd_lines fd)" "-1 \<le> since" "poll n stores fd since limit x now = Inr (anns, cursor)"
  shows "\<exists>j. anns = live n stores x now (take j (drop (nat (since + 1)) (fd_lines fd)))"
  using poll_unread [OF assms(1,2), of limit x now] assms(3) by (auto simp: polled_def)

lemma live_accepted: "a \<in> set (live n stores x now lines) \<Longrightarrow> (\<exists>r. verify_announcement n a = Inr (True, r)) \<and> (\<not> x \<longrightarrow> is_expired a now = Inr False)"
proof (induction lines)
  case (Cons raw lines)
  then show ?case by (auto simp: live_at_def split: option.splits sum.splits if_splits dest: safe_parse_verified)
qed simp

text \<open>C31. Discovery through a digest is discovery in the feed: a digest that a node builds verifies everywhere, and a subscriber who matches the
  references in it gets the references of exactly those announcements that satisfy the subscription, that the node is the authority of and that \<open>is_open\<close>
  reports as open, among the one page (at most 1000 unexpired announcements) that a poll of the feed from the same cursor returns, in the
  same order. Announcements of other authorities, claimed ones and those beyond the page are not in the digest.\<close>

theorem federated_discovery:
  assumes "ed25519_ok n" "signer_ok n source" "lines_ok n stores (fd_lines fd)" "numeric_sub sub (\<lambda>_. rep)"
    "build_digest n stores fd source since False now limit is_open = Inr d"
  shows "verify_digest n d = Inr (True, []) \<and> (\<exists>pages anns cursor did hits. page_limit limit = Inr pages
    \<and> poll n stores fd since (Some pages) False now = Inr (anns, cursor) \<and> as_did source = Inr did
    \<and> match_digest_refs d sub rep now = Inr hits
    \<and> mapR digest_ref (filter (wanted sub (\<lambda>_. rep)) (filter (advertised did is_open) anns)) = Inr (map PDict hits))"
proof -
  obtain pages anns cursor did refs where b: "page_limit limit = Inr pages" "-1 \<le> since" "poll n stores fd since (Some pages) False now = Inr (anns, cursor)" "as_did source = Inr did"
    "mapR digest_ref (filter (advertised did is_open) anns) = Inr refs" "dg_refs d = PList refs"
    by (rule build_digestE [OF assms(5)])
  have "\<forall>a \<in> set (filter (advertised did is_open) anns). (\<exists>r. verify_announcement n a = Inr (True, r)) \<and> is_expired a now = Inr False"
    using polled_live [OF assms(3) b(2,3)] live_accepted by fastforce
  then obtain hits where "match_refs sub rep now refs = Inr hits"
    "mapR digest_ref (filter (wanted sub (\<lambda>_. rep)) (filter (advertised did is_open) anns)) = Inr (map PDict hits)"
    using match_refs_alike [OF _ assms(4) b(5)] by blast
  then show ?thesis using built_digest_verifies [OF assms(1,2,5)] b by (auto simp: match_digest_refs_def py_iter_def)
qed


text \<open>Merging digests keeps one reference per key.\<close>

lemma merge_refs_spec:
  assumes "\<forall>r \<in> set refs. \<exists>k. ref_key r = PStr k \<and> k \<noteq> []" "set (map ref_key out) = set seen" "distinct (map ref_key out)"
  shows "\<exists>seen' out'. merge_refs (seen, out) (map PDict refs) = Inr (seen', out') \<and> set (map ref_key out') = set seen' \<and> distinct (map ref_key out')
    \<and> set seen' = set seen \<union> ref_key ` set refs \<and> set out' \<subseteq> set out \<union> set refs"
  using assms
proof (induction refs arbitrary: seen out)
  case (Cons r refs)
  obtain k where k: "ref_key r = PStr k" "k \<noteq> []" using Cons.prems(1) by auto
  show ?case
  proof (cases "PStr k \<in> set seen")
    case True
    then show ?thesis using Cons.IH [OF _ Cons.prems(2,3)] Cons.prems(1) k by (auto simp: hashable_def list_ex_iff)
  next
    case False
    have "set (map ref_key (out @ [r])) = set (PStr k # seen)" "distinct (map ref_key (out @ [r]))" using Cons.prems(2,3) k False by auto
    then obtain seen' out' where s: "merge_refs (PStr k # seen, out @ [r]) (map PDict refs) = Inr (seen', out')" "set (map ref_key out') = set seen'" "distinct (map ref_key out')"
      "set seen' = set (PStr k # seen) \<union> ref_key ` set refs" "set out' \<subseteq> set (out @ [r]) \<union> set refs"
      using Cons.IH [of "out @ [r]" "PStr k # seen"] Cons.prems(1) by auto
    then show ?thesis using k False by (auto simp: hashable_def list_ex_iff)
  qed
qed simp

lemma valid_ref_key: "validate_digest_ref v = Inr True \<Longrightarrow> \<exists>ref k. v = PDict ref \<and> ref_key ref = PStr k \<and> k \<noteq> []"
proof -
  assume v: "validate_digest_ref v = Inr True"
  then obtain ref where ref: "v = PDict ref" "ref_common ref" by (cases v) (auto simp: validate_digest_ref_def split: if_splits)
  have t: "digest_text (dget_or ref ''announcement_id'' PNone) 1 256" using ref(2) by (simp add: ref_common_def Let_def)
  have f: "dget_or ref ''federation_key'' PNone = PNone \<or> (\<exists>k. dget_or ref ''federation_key'' PNone = PStr k)"
    using ref(2) by (cases "dget_or ref ''federation_key'' PNone") (auto simp: ref_common_def Let_def)
  obtain i where i: "dget_or ref ''announcement_id'' PNone = PStr i" using t by (cases "dget_or ref ''announcement_id'' PNone") (auto simp: digest_text_def)
  then have "i \<noteq> []" using t by (auto simp: digest_text_def utf8_def)
  then show ?thesis using f ref(1) i by (auto simp: ref_key_def Let_def)
qed

definition digest_dicts :: "feed_digest \<Rightarrow> pydict list" where
  "digest_dicts d = List.map_filter (\<lambda>v. case v of PDict r \<Rightarrow> Some r | _ \<Rightarrow> None) (digest_ref_list d)"

lemma verified_digestE:
  assumes "verify_digest n d = Inr (True, m)"
  obtains did pk bs s where "dg_source_did d = PStr did" "decode_ed25519_did_key did = Inr pk" "canonical_json (PDict (digest_signing_body d)) = Inr bs"
    "dg_sig d = PStr (b64u_encode s)" "nacl_verify n pk bs s" "dg_refs d = PList (map PDict (digest_dicts d))" "length (digest_dicts d) \<le> max_digest_refs"
    "\<forall>r \<in> set (digest_dicts d). validate_digest_ref (PDict r) = Inr True \<and> (\<exists>k. ref_key r = PStr k \<and> k \<noteq> [])"
proof -
  obtain r where v: "validate_digest_schema d True = Inr (True, r)" using assms by (auto simp: verify_digest_def bindR_Inr_iff split: if_splits)
  note k = validate_digest_ok [OF v]
  obtain did pk rs where d: "dg_source_did d = PStr did" "decode_ed25519_did_key did = Inr pk" "dg_refs d = PList rs" "length rs \<le> max_digest_refs"
    by (rule scalar_okE [OF k(1)])
  have rs: "\<forall>r \<in> set rs. validate_digest_ref r = Inr True" using k(2) d(3) by (simp add: all_refs_valid_iff digest_ref_list_def)
  have "map PDict (List.map_filter (\<lambda>v. case v of PDict r \<Rightarrow> Some r | _ \<Rightarrow> None) rs) = rs"
    using rs by (induction rs) (auto simp: map_filter_simps dest!: valid_ref_key)
  then have dicts: "rs = map PDict (digest_dicts d)" by (simp add: digest_dicts_def digest_ref_list_def d(3))
  obtain sg where sg: "dg_sig d = PStr sg" using k(3) by (cases "dg_sig d") (auto simp: digest_signature_fault_def digest_text_def)
  obtain s where s: "b64u_decode sg = Inr s" "sg = b64u_encode s" using k(3) sg by (auto simp: digest_signature_fault_def reject_unless_def split: if_splits sum.splits)
  obtain bs where "canonical_json (PDict (digest_signing_body d)) = Inr bs" "nacl_verify n pk bs s"
    using assms v d(1,2) sg s by (auto simp: verify_digest_def split: if_splits sum.splits)
  moreover have "\<forall>r \<in> set (digest_dicts d). validate_digest_ref (PDict r) = Inr True \<and> (\<exists>k. ref_key r = PStr k \<and> k \<noteq> [])"
    using rs dicts valid_ref_key by fastforce
  ultimately show thesis using that d sg s dicts by auto
qed

lemma merge_digests_spec:
  assumes "\<forall>d \<in> set ds. \<exists>m. verify_digest n d = Inr (True, m)" "set (map ref_key out) = set seen" "distinct (map ref_key out)"
  shows "\<exists>seen' out'. merge_digests (seen, out) ds = Inr (seen', out') \<and> distinct (map ref_key out')
    \<and> set (map ref_key out') = set seen \<union> ref_key ` (\<Union>d \<in> set ds. set (digest_dicts d)) \<and> set out' \<subseteq> set out \<union> (\<Union>d \<in> set ds. set (digest_dicts d))"
  using assms
proof (induction ds arbitrary: seen out)
  case (Cons d ds)
  obtain m where "verify_digest n d = Inr (True, m)" using Cons.prems(1) by auto
  then obtain rs: "dg_refs d = PList (map PDict (digest_dicts d))" and ks: "\<forall>r \<in> set (digest_dicts d). \<exists>k. ref_key r = PStr k \<and> k \<noteq> []"
    by (rule verified_digestE) auto
  obtain seen1 out1 where 1: "merge_refs (seen, out) (map PDict (digest_dicts d)) = Inr (seen1, out1)" "set (map ref_key out1) = set seen1" "distinct (map ref_key out1)"
    "set seen1 = set seen \<union> ref_key ` set (digest_dicts d)" "set out1 \<subseteq> set out \<union> set (digest_dicts d)"
    using merge_refs_spec [OF ks Cons.prems(2,3)] by blast
  obtain seen2 out2 where "merge_digests (seen1, out1) ds = Inr (seen2, out2)" "distinct (map ref_key out2)"
    "set (map ref_key out2) = set seen1 \<union> ref_key ` (\<Union>d \<in> set ds. set (digest_dicts d))" "set out2 \<subseteq> set out1 \<union> (\<Union>d \<in> set ds. set (digest_dicts d))"
    using Cons.IH [OF _ 1(2,3)] Cons.prems(1) by auto
  then show ?case using 1 rs by (auto simp: py_iter_def)
qed simp

text \<open>A digest is bounded and accountable: a verified digest is signed by the key of its source over all its fields, has at most a thousand
  references, and merging any number of verified digests gives every advertised key exactly once.\<close>

lemma verified_digests_merge:
  assumes "\<forall>d \<in> set ds. verify_digest n d = Inr (True, [])"
  shows "(\<forall>d \<in> set ds. length (digest_dicts d) \<le> max_digest_refs \<and> (\<exists>did pk bs s. dg_source_did d = PStr did \<and> decode_ed25519_did_key did = Inr pk
        \<and> canonical_json (PDict (digest_signing_body d)) = Inr bs \<and> dg_sig d = PStr (b64u_encode s) \<and> nacl_verify n pk bs s))
    \<and> (\<exists>refs. merge_digest_refs ds = Inr refs \<and> distinct (map ref_key refs) \<and> ref_key ` set refs = ref_key ` (\<Union>d \<in> set ds. set (digest_dicts d))
        \<and> set refs \<subseteq> (\<Union>d \<in> set ds. set (digest_dicts d)) \<and> length refs \<le> max_digest_refs * length ds)"
proof -
  have one: "length (digest_dicts d) \<le> max_digest_refs \<and> (\<exists>did pk bs s. dg_source_did d = PStr did \<and> decode_ed25519_did_key did = Inr pk
        \<and> canonical_json (PDict (digest_signing_body d)) = Inr bs \<and> dg_sig d = PStr (b64u_encode s) \<and> nacl_verify n pk bs s)" if "d \<in> set ds" for d
    using assms that by (blast elim: verified_digestE)
  obtain seen refs where r: "merge_digests ([], []) ds = Inr (seen, refs)" "distinct (map ref_key refs)"
    "set (map ref_key refs) = ref_key ` (\<Union>d \<in> set ds. set (digest_dicts d))" "set refs \<subseteq> (\<Union>d \<in> set ds. set (digest_dicts d))"
    using merge_digests_spec [of ds n "[]" "[]"] assms by auto
  have "distinct refs" using r(2) by (simp add: distinct_map)
  then have "length refs \<le> card (\<Union>d \<in> set ds. set (digest_dicts d))" using r(4) by (metis distinct_card card_mono finite_UN finite_set)
  also have "\<dots> \<le> (\<Sum>d \<in> set ds. card (set (digest_dicts d)))" by (rule card_UN_le) simp
  also have "\<dots> \<le> (\<Sum>d \<in> set ds. max_digest_refs)" using one by (intro sum_mono) (meson card_length le_trans)
  also have "\<dots> \<le> max_digest_refs * length ds" using card_length [of ds] by (simp add: mult.commute)
  finally show ?thesis using one r by (auto simp: merge_digest_refs_def)
qed

section \<open>Fetching\<close>

lemma pulled_by_key:
  assumes "pull_announcements_by_keys n stores fd keys x now = Inr out" "b \<in> set out"
  shows "(\<exists>r. verify_announcement n b = Inr (True, r)) \<and> (\<exists>k \<in> set keys. announcement_federation_key b = Inr k)"
  using assms
proof (induction keys arbitrary: out)
  case (Cons key keys)
  then show ?case by (fastforce simp: bindR_Inr_iff split: option.splits if_splits)
qed simp

text \<open>What is fetched is what was advertised: an announcement served for the key of a digest reference is verified itself and agrees with
  the announcement behind the reference on every signed field, or there is a SHA-256 collision.\<close>

lemma federated_fetch:
  assumes "verify_announcement n a = Inr (True, r)" "digest_ref a = Inr (PDict ref)" "dget ref ''federation_key'' = Some (PStr key)"
    "pull_announcements_by_keys n stores fd [key] x now = Inr out" "b \<in> set out" "keys_once (PDict (ann_to_dict a))" "keys_once (PDict (ann_to_dict b))"
  shows "(\<exists>r'. verify_announcement n b = Inr (True, r')) \<and> (map canon (ann_terms a) = map canon (ann_terms b) \<or> (\<exists>x y. sha_collision x y))"
proof -
  obtain r' where b: "verify_announcement n b = Inr (True, r')" "announcement_federation_key b = Inr key" using pulled_by_key [OF assms(4,5)] by auto
  obtain k where k: "announcement_federation_key a = Inr k" "ref = obj (map (\<lambda>k. (k, dget_or (ann_to_dict a) k PNone)) ref_fields @ [(''federation_key'', PStr k)])"
    using assms(2) by (auto simp: digest_ref_def bindR_Inr_iff)
  have "k = key" using assms(3) by (simp add: k(2) obj_def ref_fields_def)
  then show ?thesis using federation_key_commits [OF assms(1) b(1) assms(6,7) _ b(2)] k(1) b(1) by blast
qed


section \<open>A field outside the signature\<close>

lemma mapR_member: "mapR f xs = Inr ys \<Longrightarrow> x \<in> set xs \<Longrightarrow> \<exists>y \<in> set ys. f x = Inr y"
  by (induction xs arbitrary: ys) (auto simp: bindR_Inr_iff)

lemma validate_items_sub: "validate_items xs i path = Inr u \<Longrightarrow> v \<in> set xs \<Longrightarrow> \<exists>p. validate_canonical_json_value v p = Inr ()"
  by (induction xs arbitrary: i) (auto simp: bindR_Inr_iff)

lemma validate_members_sub: "validate_members d path = Inr u \<Longrightarrow> (k, v) \<in> set d \<Longrightarrow> \<exists>p. validate_canonical_json_value v p = Inr ()"
proof (induction d)
  case (Cons m d)
  then show ?case by (cases m; cases "fst m") (auto simp: bindR_Inr_iff)
qed simp

lemma digest_body_no_float:
  assumes "canonical_json (PDict (digest_signing_body d)) = Inr bs" "dg_refs d = PList refs" "PDict ref \<in> set refs" "(k, PFloat f) \<in> set ref"
  shows False
proof -
  obtain u where v: "validate_members (digest_signing_body d) ''$'' = Inr u" using assms(1) by (auto simp: canonical_json_def is_dict_def bindR_Inr_iff)
  have "(PStr ''refs'', PList refs) \<in> set (digest_signing_body d)" by (simp add: digest_signing_body_def digest_to_dict_def obj_def without_key_def assms(2))
  then obtain p where p: "validate_items refs 0 p = Inr ()" using validate_members_sub [OF v] by fastforce
  obtain q where q: "validate_members ref q = Inr ()" using validate_items_sub [OF p assms(3)] by auto
  show False using validate_members_sub [OF q assms(4)] by auto
qed

lemma ann_price_sel:
  "an_id (a\<lparr>an_price_minor := x\<rparr>) = an_id a" "an_publisher_did (a\<lparr>an_price_minor := x\<rparr>) = an_publisher_did a" "an_title (a\<lparr>an_price_minor := x\<rparr>) = an_title a"
  "an_authority_did (a\<lparr>an_price_minor := x\<rparr>) = an_authority_did a" "an_listing_type (a\<lparr>an_price_minor := x\<rparr>) = an_listing_type a" "an_offer_digest (a\<lparr>an_price_minor := x\<rparr>) = an_offer_digest a"
  "an_offer_uri (a\<lparr>an_price_minor := x\<rparr>) = an_offer_uri a" "an_price_asset (a\<lparr>an_price_minor := x\<rparr>) = an_price_asset a"
  "an_availability_summary (a\<lparr>an_price_minor := x\<rparr>) = an_availability_summary a" "an_capability_set (a\<lparr>an_price_minor := x\<rparr>) = an_capability_set a" "an_context (a\<lparr>an_price_minor := x\<rparr>) = an_context a"
  "an_input_schema (a\<lparr>an_price_minor := x\<rparr>) = an_input_schema a" "an_acceptance (a\<lparr>an_price_minor := x\<rparr>) = an_acceptance a" "an_reward_minor (a\<lparr>an_price_minor := x\<rparr>) = an_reward_minor a"
  "an_reward_asset (a\<lparr>an_price_minor := x\<rparr>) = an_reward_asset a" "an_mission_id (a\<lparr>an_price_minor := x\<rparr>) = an_mission_id a" "an_claimant_policy (a\<lparr>an_price_minor := x\<rparr>) = an_claimant_policy a"
  "an_description (a\<lparr>an_price_minor := x\<rparr>) = an_description a" "an_published_at_ms (a\<lparr>an_price_minor := x\<rparr>) = an_published_at_ms a" "an_not_after (a\<lparr>an_price_minor := x\<rparr>) = an_not_after a"
  "an_kind (a\<lparr>an_price_minor := x\<rparr>) = an_kind a" "an_publisher_sig (a\<lparr>an_price_minor := x\<rparr>) = an_publisher_sig a"
  by simp_all

lemma legacy_price_unsigned:
  assumes "an_kind a \<in> {PStr ann_kind_v1, PStr ann_kind_v2}" "py_eq (an_price_minor a) (PInt 0)" "py_eq x (PInt 0)"
  shows "ann_signing_body (a\<lparr>an_price_minor := x\<rparr>) = ann_signing_body a" "verify_announcement n (a\<lparr>an_price_minor := x\<rparr>) = verify_announcement n a"
proof -
  let ?b = "a\<lparr>an_price_minor := x\<rparr>"
  have w: "fold without_key legacy_dropped (without_key ''publisher_sig'' (ann_to_dict ?b)) = fold without_key legacy_dropped (without_key ''publisher_sig'' (ann_to_dict a))"
    by (simp add: legacy_dropped_def without_key_def ann_to_dict_def obj_def)
  have l: "in_str_set (an_kind a) [ann_kind_v1, ann_kind_v2] = Inr True" using assms(1) by (auto simp: in_str_set_def hashable_def)
  show body: "ann_signing_body ?b = ann_signing_body a" unfolding ann_signing_body_def ann_price_sel l bindR_simps Let_def if_True w by (rule refl)
  have k: "an_kind a \<noteq> PStr ann_kind_v3" "an_kind a \<noteq> PStr trade_offer_kind_v1"
    using assms(1) by (auto simp: ann_kind_v1_def ann_kind_v2_def ann_kind_v3_def trade_offer_kind_v1_def)
  have p: "an_price_minor ?b = x" by simp
  have lg: "schema_legacy ?b = schema_legacy a" unfolding schema_legacy_def ann_price_sel p using assms(2,3) by blast
  have li: "schema_listing ?b = schema_listing a" using k lg by (simp add: schema_listing_def)
  have id: "schema_identity ?b = schema_identity a" unfolding schema_identity_def effective_authority_did_def valid_announcement_id_def ann_price_sel ..
  have bo: "schema_body ?b = schema_body a" unfolding schema_body_def ann_price_sel ..
  have sg: "schema_signature ?b = schema_signature a" unfolding schema_signature_def ann_price_sel ..
  have v: "validate_announcement_schema ?b y = validate_announcement_schema a y" for y unfolding validate_announcement_schema_def li id bo sg by (rule refl)
  show "verify_announcement n ?b = verify_announcement n a" unfolding verify_announcement_def ann_required_def ann_price_sel v body by (rule refl)
qed

lemma legacy_price_zero:
  assumes "verify_announcement n a = Inr (True, r)" "an_kind a \<in> {PStr ann_kind_v1, PStr ann_kind_v2}"
  shows "py_eq (an_price_minor a) (PInt 0)"
proof -
  have k: "an_kind a \<noteq> PStr ann_kind_v3" "an_kind a \<noteq> PStr trade_offer_kind_v1"
    using assms(2) by (auto simp: ann_kind_v1_def ann_kind_v2_def ann_kind_v3_def trade_offer_kind_v1_def)
  have "schema_listing a = Inr True" using assms(1) by (auto elim!: verified_announcementE dest: schema_ok(2))
  then show ?thesis using k by (simp add: schema_listing_def schema_legacy_def)
qed

text \<open>A digest can be blocked by a field nobody signed: the price of a task announcement is outside its signature, and zero written as a
  float passes the schema. The changed announcement verifies under the same federation key, and a node that has it in the page
  of the feed to advertise cannot build a digest of that page.\<close>

lemma float_price_blocks_digest:
  assumes "verify_announcement n a = Inr (True, r)" "an_kind a \<in> {PStr ann_kind_v1, PStr ann_kind_v2}" "b = a\<lparr>an_price_minor := PFloat (FFin 0 t)\<rparr>"
    "page_limit limit = Inr pages" "poll n stores fd since (Some pages) x now = Inr (anns, cursor)" "as_did source = Inr did" "b \<in> set anns" "advertised did is_open b"
  shows "verify_announcement n b = Inr (True, []) \<and> announcement_federation_key b = announcement_federation_key a
    \<and> (\<exists>e. build_digest n stores fd source since x now limit is_open = Inl e)"
proof -
  have z: "py_eq (PFloat (FFin 0 t)) (PInt 0)" by (simp add: py_eq_PInt num_of_def)
  have "py_eq (an_price_minor a) (PInt 0)" by (rule legacy_price_zero [OF assms(1,2)])
  note u = legacy_price_unsigned [OF assms(2) this z, folded assms(3)]
  have no: "build_digest n stores fd source since x now limit is_open \<noteq> Inr d" for d
  proof
    assume "build_digest n stores fd source since x now limit is_open = Inr d"
    then obtain refs bs where b: "mapR digest_ref (filter (advertised did is_open) anns) = Inr refs" "dg_refs d = PList refs" "canonical_json (PDict (digest_signing_body d)) = Inr bs"
      by (rule build_digestE) (use assms(4-6) in auto)
    have "b \<in> set (filter (advertised did is_open) anns)" using assms(7,8) by simp
    then obtain v where v: "v \<in> set refs" "digest_ref b = Inr v" using mapR_member [OF b(1)] by blast
    then obtain key where key: "v = PDict (obj (map (\<lambda>k. (k, dget_or (ann_to_dict b) k PNone)) ref_fields @ [(''federation_key'', PStr key)]))"
      by (auto simp: digest_ref_def bindR_Inr_iff)
    have "(PStr ''price_minor'', PFloat (FFin 0 t)) \<in> set (obj (map (\<lambda>k. (k, dget_or (ann_to_dict b) k PNone)) ref_fields @ [(''federation_key'', PStr key)]))"
      by (simp add: obj_def ref_fields_def ann_to_dict_def dget_or_def assms(3))
    then show False using digest_body_no_float [OF b(3,2)] v(1) key by blast
  qed
  have "r = []" using assms(1) by (rule verified_announcementE)
  moreover obtain e where "build_digest n stores fd source since x now limit is_open = Inl e" using no by (cases "build_digest n stores fd source since x now limit is_open") auto
  ultimately show ?thesis using u assms(1) by (simp add: announcement_federation_key_def)
qed


section \<open>Concrete digests\<close>

lemma digest_checks: "digest_text = bounded_text" "digest_uint = valid_non_negative_int"
  by (auto simp: fun_eq_iff digest_text_def bounded_text_def digest_uint_def valid_non_negative_int_def max_signed_int_def split: option.splits)

text \<open>References of task announcements are valid.\<close>

lemma task_ref_valid:
  assumes "verify_announcement n a = Inr (True, r)" "an_kind a = PStr ann_kind_v2" "digest_ref a = Inr v"
  shows "validate_digest_ref v = Inr True"
proof -
  have sc: "validate_announcement_schema a True = Inr (True, [])" using assms(1) by (rule verified_announcementE)
  note s = schema_ok [OF sc]
  have i: "valid_announcement_id a" "bounded_text (an_publisher_did a) 1 128" "is_did_key (an_publisher_did a)" "bounded_text (an_authority_did a) 1 128" "is_did_key (an_authority_did a)"
    using s(1) assms(2) by (auto simp: schema_identity_def in_str_set_def bindR_Inr_iff ensure_Inr_iff reject_unless_def effective_authority_did_def ann_kind_v1_def ann_kind_v2_def Let_def split: if_splits)
  have aid: "bounded_text (an_id a) 1 256" using i(1) by (auto simp: valid_announcement_id_def split: pyval.splits)
  have lg: "schema_legacy a" using s(2) assms(2) by (simp add: schema_listing_def ann_kind_v2_def ann_kind_v3_def trade_offer_kind_v1_def)
  obtain bs where k: "announcement_federation_key a = Inr (''nth-ann-sha256:'' @ sha256_hex bs)"
    and v: "v = PDict (obj (map (\<lambda>k. (k, dget_or (ann_to_dict a) k PNone)) ref_fields @ [(''federation_key'', PStr (''nth-ann-sha256:'' @ sha256_hex bs))]))"
    using assms(3) by (auto simp: digest_ref_def announcement_federation_key_def bindR_Inr_iff)
  define ref where "ref = obj (map (\<lambda>k. (k, dget_or (ann_to_dict a) k PNone)) ref_fields @ [(''federation_key'', PStr (''nth-ann-sha256:'' @ sha256_hex bs))])"
  have fk: "federation_key_ok (''nth-ann-sha256:'' @ sha256_hex bs)" using sha256_hex_lower by (auto simp: federation_key_ok_def startswith_iff list_all_iff)
  have f: "dget ref ''kind'' = Some (an_kind a)" "dget ref ''announcement_id'' = Some (an_id a)" "dget ref ''publisher_did'' = Some (an_publisher_did a)" "dget ref ''authority_did'' = Some (an_authority_did a)"
    "dget ref ''capability_set'' = Some (an_capability_set a)" "dget ref ''context'' = Some (an_context a)" "dget ref ''reward_minor'' = Some (an_reward_minor a)" "dget ref ''reward_asset'' = Some (an_reward_asset a)"
    "dget ref ''published_at_ms'' = Some (an_published_at_ms a)" "dget ref ''not_after'' = Some (an_not_after a)" "dget ref ''listing_type'' = Some (an_listing_type a)" "dget ref ''offer_digest'' = Some (an_offer_digest a)"
    "dget ref ''price_minor'' = Some (an_price_minor a)" "dget ref ''price_asset'' = Some (an_price_asset a)" "dget ref ''availability_summary'' = Some (an_availability_summary a)"
    "dget ref ''federation_key'' = Some (PStr (''nth-ann-sha256:'' @ sha256_hex bs))"
    unfolding ref_def ref_sel by (simp_all add: ref_fields_def ann_to_dict_def dget_or_def dget_obj)
  have keys: "set (map fst ref) \<subseteq> PStr ` set ref_allowed_fields" by (auto simp: ref_def obj_def ref_allowed_fields_def)
  have c: "ref_common ref" unfolding ref_common_def Let_def digest_checks using keys aid i(2-5) s(3) fk
    by (simp add: dget_or_def f schema_body_def)
  have "ref_legacy ref" using lg by (simp add: ref_legacy_def schema_legacy_def dget_or_def f)
  then show ?thesis using c assms(2) unfolding v ref_def [symmetric]
    by (simp add: validate_digest_ref_def dget_or_def f in_str_set_def hashable_def ann_kind_v2_def ann_kind_v3_def trade_offer_kind_v1_def)
qed

definition demo_digest :: feed_digest where
  "demo_digest = projr (build_digest demo_nacl (\<lambda>_. Inr ()) demo_feed (demo_identity 0) (-1) False 5 None (\<lambda>_. True))"

lemma demo_feed_lines: "fd_lines demo_feed = [Some (PDict (ann_to_dict demo_ann))]" "lines_ok demo_nacl (\<lambda>_. Inr ()) (fd_lines demo_feed)"
  "poll demo_nacl (\<lambda>_. Inr ()) demo_feed (-1) (Some 1000) False 5 = Inr ([demo_ann], 0)"
proof -
  obtain fd where fd: "publish demo_nacl (\<lambda>_. Inr ()) 1 demo_ann empty_feed = (fd, Inr ())" "fd_lines fd = fd_lines empty_feed @ [Some (PDict (ann_to_dict demo_ann))]"
    and p: "safe_parse demo_nacl (\<lambda>_. Inr ()) (Some (PDict (ann_to_dict demo_ann))) = Inr (Some demo_ann)"
    by (rule demo_published)
  then show f: "fd_lines demo_feed = [Some (PDict (ann_to_dict demo_ann))]" by (simp add: demo_feed_def empty_feed_def)
  show "lines_ok demo_nacl (\<lambda>_. Inr ()) (fd_lines demo_feed)" using p by (simp add: f)
  show "poll demo_nacl (\<lambda>_. Inr ()) demo_feed (-1) (Some 1000) False 5 = Inr ([demo_ann], 0)"
    using p by (simp add: poll_def f limit_reached_def is_expired_def demo_ann(8))
qed

lemma demo_digest: "build_digest demo_nacl (\<lambda>_. Inr ()) demo_feed (demo_identity 0) (-1) False 5 None (\<lambda>_. True) = Inr demo_digest"
  "\<exists>ref. digest_ref demo_ann = Inr (PDict ref)"
proof -
  obtain did where did: "as_did (demo_identity 0) = Inr did" "decode_ed25519_did_key did = Inr (nacl_pub demo_nacl (the (id_signing_key (demo_identity 0))))"
    by (rule signer_did [OF demo_nacl_ok demo_signer, of 0])
  obtain body bs where "ann_signing_body demo_ann = Inr body" "canonical_json (PDict body) = Inr bs" by (rule verified_announcementE [OF demo_ann_ok])
  then obtain ref where ref: "digest_ref demo_ann = Inr (PDict ref)" by (auto simp: digest_ref_def announcement_federation_key_def)
  then show "\<exists>ref. digest_ref demo_ann = Inr (PDict ref)" by blast
  have adv: "advertised did (\<lambda>_. True) demo_ann" using demo_ann(11) did(1) by (simp add: advertised_def)
  let ?d = "\<lparr>dg_source_did = PStr did, dg_generated_at_ms = PInt 5, dg_high_seq = PInt 0, dg_refs = PList [PDict ref], dg_kind = PStr nth_feed_digest_kind, dg_sig = PStr []\<rparr>"
  have "length did \<le> 111" "did \<noteq> []" using did(2) did_length did_length_pos by (auto simp: decode_did_iff)
  moreover have "utf8 did = ascii_bytes did" using did_ascii [OF did(2)] by (rule utf8_ascii)
  ultimately have t: "digest_text (PStr did) 1 128" "is_did_key (PStr did)" using did(2) by (cases did; auto simp: digest_text_def is_did_key_iff decode_did_iff)+
  have v: "validate_digest_schema ?d False = Inr (True, [])"
    using t task_ref_valid [OF demo_ann_ok demo_ann(4) ref]
    by (simp add: validate_digest_schema_def digest_scalar_fault_def digest_uint_def strict_int_def reject_unless_def digest_ref_list_def max_digest_refs_def)
  have "wf_json (PDict ref)" using ref demo_ann(10) by (auto simp: digest_ref_def bindR_Inr_iff obj_def ref_fields_def ann_to_dict_def dget_or_def is_str_def)
  then have "wf_json (PDict (digest_signing_body ?d))" by (simp add: digest_signing_body_def digest_to_dict_def obj_def without_key_def is_str_def)
  then have "\<exists>bs. canonical_json (PDict (digest_signing_body ?d)) = Inr bs" using canonical_json_wf by blast
  then have "\<exists>d. build_digest demo_nacl (\<lambda>_. Inr ()) demo_feed (demo_identity 0) (-1) False 5 None (\<lambda>_. True) = Inr d"
    using signer_sign [OF demo_nacl_ok demo_signer, of 0] v ref adv did(1)
    by (auto simp: build_digest_def page_limit_def max_digest_refs_def [THEN arg_cong [of _ _ int]] demo_feed_lines(3) Let_def)
  then show "build_digest demo_nacl (\<lambda>_. Inr ()) demo_feed (demo_identity 0) (-1) False 5 None (\<lambda>_. True) = Inr demo_digest" by (auto simp: demo_digest_def)
qed


lemma demo_sub_numeric: "numeric_sub demo_sub (\<lambda>_. FFin 0 ''0.0'')"
  by (simp add: numeric_sub_def demo_sub)

lemma demo_digest_ok: "verify_digest demo_nacl demo_digest = Inr (True, [])"
  by (rule built_digest_verifies [OF demo_nacl_ok demo_signer demo_digest(1)])

theorem federated_discovery_witness:
  "verify_digest demo_nacl demo_digest = Inr (True, [])
    \<and> (\<exists>hits. match_digest_refs demo_digest demo_sub (FFin 0 ''0.0'') 5 = Inr hits \<and> mapR digest_ref (filter (wanted demo_sub (\<lambda>_. FFin 0 ''0.0'')) [demo_ann]) = Inr (map PDict hits))"
proof -
  obtain pages anns cursor did hits where f: "verify_digest demo_nacl demo_digest = Inr (True, [])" "page_limit None = Inr pages" "poll demo_nacl (\<lambda>_. Inr ()) demo_feed (-1) (Some pages) False 5 = Inr (anns, cursor)"
    "as_did (demo_identity 0) = Inr did" "match_digest_refs demo_digest demo_sub (FFin 0 ''0.0'') 5 = Inr hits"
    "mapR digest_ref (filter (wanted demo_sub (\<lambda>_. FFin 0 ''0.0'')) (filter (advertised did (\<lambda>_. True)) anns)) = Inr (map PDict hits)"
    using federated_discovery [OF demo_nacl_ok demo_signer demo_feed_lines(2) demo_sub_numeric demo_digest(1)] by blast
  have "anns = [demo_ann]" using f(2,3) demo_feed_lines(3) by (simp add: page_limit_def max_digest_refs_def)
  moreover have "advertised did (\<lambda>_. True) demo_ann" using demo_ann(11) f(4) by (simp add: advertised_def)
  ultimately show ?thesis using f by auto
qed

lemma verified_digests_merge_demo:
  "\<exists>refs. merge_digest_refs [demo_digest, demo_digest] = Inr refs \<and> distinct (map ref_key refs) \<and> ref_key ` set refs = ref_key ` set (digest_dicts demo_digest)"
  using verified_digests_merge [of "[demo_digest, demo_digest]" demo_nacl] demo_digest_ok by auto

lemma federated_fetch_demo:
  "\<exists>ref key. digest_ref demo_ann = Inr (PDict ref) \<and> dget ref ''federation_key'' = Some (PStr key)
     \<and> pull_announcements_by_keys demo_nacl (\<lambda>_. Inr ()) demo_feed [key] True 5 = Inr [demo_ann]
     \<and> (map canon (ann_terms demo_ann) = map canon (ann_terms demo_ann) \<or> (\<exists>x y. sha_collision x y))"
proof -
  obtain body bs where b: "ann_signing_body demo_ann = Inr body" "canonical_json (PDict body) = Inr bs" by (rule verified_announcementE [OF demo_ann_ok])
  let ?key = "''nth-ann-sha256:'' @ sha256_hex bs" and ?ref = "obj (map (\<lambda>k. (k, dget_or (ann_to_dict demo_ann) k PNone)) ref_fields @ [(''federation_key'', PStr (''nth-ann-sha256:'' @ sha256_hex bs))])"
  have k: "announcement_federation_key demo_ann = Inr ?key" using b by (simp add: announcement_federation_key_def)
  have r: "digest_ref demo_ann = Inr (PDict ?ref)" by (simp add: digest_ref_def k)
  have d: "dget ?ref ''federation_key'' = Some (PStr ?key)" by (simp add: obj_def ref_fields_def)
  have p: "safe_parse demo_nacl (\<lambda>_. Inr ()) (Some (PDict (ann_to_dict demo_ann))) = Inr (Some demo_ann)" by (rule demo_published)
  have "federation_key_ok ?key" using sha256_hex_lower by (auto simp: federation_key_ok_def startswith_iff list_all_iff)
  then have pull: "pull_announcements_by_keys demo_nacl (\<lambda>_. Inr ()) demo_feed [?key] True 5 = Inr [demo_ann]"
    by (simp add: get_by_federation_key_def demo_feed_lines(1) p k drop_expired_def demo_ann_ok del: append.simps)
  show ?thesis using federated_fetch [OF demo_ann_ok r d pull _ demo_ann(3) demo_ann(3)] r d pull by auto
qed

definition demo_float_ann :: announcement where
  "demo_float_ann = demo_ann\<lparr>an_price_minor := PFloat (FFin 0 ''0.0'')\<rparr>"

definition demo_float_feed :: market_feed where
  "demo_float_feed = \<lparr>fd_lines = [Some (PDict (ann_to_dict demo_float_ann))], fd_spine = None\<rparr>"

lemma float_price_blocks_digest_demo:
  "verify_announcement demo_nacl demo_float_ann = Inr (True, [])
    \<and> (\<exists>e. build_digest demo_nacl (\<lambda>_. Inr ()) demo_float_feed (demo_identity 0) (-1) False 5 None (\<lambda>_. True) = Inl e)"
proof -
  obtain did where did: "as_did (demo_identity 0) = Inr did" using signer_did [OF demo_nacl_ok demo_signer, of 0] by blast
  have sel: "an_kind demo_float_ann = an_kind demo_ann" "an_not_after demo_float_ann = an_not_after demo_ann" "effective_authority_did demo_float_ann = effective_authority_did demo_ann"
    by (simp_all add: demo_float_ann_def effective_authority_did_def)
  have pm: "py_eq (an_price_minor demo_ann) (PInt 0)" by (rule legacy_price_zero [OF demo_ann_ok]) (simp add: demo_ann(4))
  have "py_eq (PFloat (FFin 0 ''0.0'')) (PInt 0)" by (simp add: py_eq_PInt num_of_def)
  from legacy_price_unsigned(2) [OF _ pm this, of demo_nacl] have v: "verify_announcement demo_nacl demo_float_ann = Inr (True, [])"
    using demo_ann(4) demo_ann_ok by (simp add: demo_float_ann_def)
  have "require_listing_binding (\<lambda>_. Inr ()) demo_float_ann = Inr ()"
    by (simp add: require_listing_binding_def sel demo_ann(4) in_str_set_def hashable_def ann_kind_v2_def ann_kind_v3_def trade_offer_kind_v1_def image_iff)
  then have p: "safe_parse demo_nacl (\<lambda>_. Inr ()) (Some (PDict (ann_to_dict demo_float_ann))) = Inr (Some demo_float_ann)"
    by (simp add: safe_parse_def from_to_dict v)
  have poll: "poll demo_nacl (\<lambda>_. Inr ()) demo_float_feed (-1) (Some 1000) False 5 = Inr ([demo_float_ann], 0)"
    using p by (simp add: poll_def demo_float_feed_def limit_reached_def is_expired_def sel demo_ann(8))
  have adv: "advertised did (\<lambda>_. True) demo_float_ann" using demo_ann(11) did by (simp add: advertised_def sel)
  show ?thesis using float_price_blocks_digest [OF demo_ann_ok _ demo_float_ann_def _ poll did _ adv, of None] demo_ann(4)
    by (simp add: page_limit_def max_digest_refs_def)
qed

end
