(* ===== verification/Payment_Event.thy ===== *)
theory Payment_Event
  imports Trade_Chain Hash_Chain
begin

text \<open>
  \<open>nth_dao/commerce/payment_attempt.py\<close>, the record of one payment attempt: a chain of signed events, each naming the hash of
  the one before it, that the payer's worker extends when it claims the attempt, schedules a retry, settles, blocks, or finds that value may
  have moved without acceptable evidence. The chain is verified in one loop and projected to a view in another. Stored chains are
  arbitrary JSON, so the fields of an event are dynamic values; a rejection is raised inside the verifier and turned
  into its verdict at the end, and an attempt identifier that is not text makes the pattern match raise \<open>TypeError\<close>. As in \<open>Settlement\<close>,
  values are trees, so no container occurs twice, and the detail text of a settlement failure is left out.
\<close>

section \<open>Constants\<close>

definition payment_attempt_kind :: string where
  "payment_attempt_kind = ''nth-payment-attempt-event-v1''"

definition pay_event_fields :: "string list" where
  "pay_event_fields = [''attempt_id'', ''seq'', ''type'', ''actor_did'', ''prev_state'', ''new_state'', ''payload'', ''prev_event_hash'',
     ''created_at_ms'', ''kind'', ''signature'']"

definition create_fields :: "string list" where
  "create_fields = [''schema_version'', ''adapter_id'', ''intent'']"

definition intent_fields :: "string list" where
  "intent_fields = [''trade_id'', ''amount_minor'', ''currency'', ''payee_did'', ''payer_did'', ''memo'']"

definition max_event_bytes :: nat where
  "max_event_bytes = 192 * 1024"

definition max_chain_bytes :: nat where
  "max_chain_bytes = 768 * 1024"

definition max_json_depth :: nat where
  "max_json_depth = 32"

definition max_json_nodes :: nat where
  "max_json_nodes = 65536"

definition hex_text :: "nat \<Rightarrow> string \<Rightarrow> bool" where
  "hex_text k s \<longleftrightarrow> length s = k \<and> list_all is_lower_hex s"

definition attempt_id_ok :: "string \<Rightarrow> bool" where
  "attempt_id_ok s \<longleftrightarrow> startswith s ''nth-settlement:v1:sha256:'' \<and> hex_text 64 (drop 25 s)"

definition lease_id_ok :: "string \<Rightarrow> bool" where
  "lease_id_ok s \<longleftrightarrow> hex_text 32 s"

definition event_hash_ok :: "string \<Rightarrow> bool" where
  "event_hash_ok s \<longleftrightarrow> startswith s ''sha256:'' \<and> hex_text 64 (drop 7 s)"

definition lower_alnum :: "char \<Rightarrow> bool" where
  "lower_alnum c \<longleftrightarrow> is_digit c \<or> (97 \<le> (of_char c :: nat) \<and> (of_char c :: nat) \<le> 122)"

definition error_code_ok :: "string \<Rightarrow> bool" where
  "error_code_ok s \<longleftrightarrow> (case s of [] \<Rightarrow> False
     | c # r \<Rightarrow> lower_alnum c \<and> length r \<le> 127 \<and> list_all (\<lambda>c. lower_alnum c \<or> c = CHR ''-'') r)"

section \<open>Resource limits\<close>

fun key_chars :: "nat \<Rightarrow> pyval list \<Rightarrow> nat option" where
  "key_chars chars [] = Some chars"
| "key_chars chars (PStr k # ks) = (if max_chain_bytes < chars + length k then None else key_chars (chars + length k) ks)"
| "key_chars chars (_ # ks) = None"

function attempt_scan :: "(pyval \<times> nat) list \<Rightarrow> nat \<Rightarrow> nat \<Rightarrow> bool" where
  "attempt_scan [] nodes chars = True"
| "attempt_scan ((v, depth) # stack) nodes chars =
     (if max_json_nodes < nodes + 1 then False
      else case v of
        PNone \<Rightarrow> attempt_scan stack (nodes + 1) chars
      | PBool _ \<Rightarrow> attempt_scan stack (nodes + 1) chars
      | PInt i \<Rightarrow> if max_chain_bytes * 4 < bit_length (nat \<bar>i\<bar>) then False else attempt_scan stack (nodes + 1) chars
      | PStr s \<Rightarrow> if max_chain_bytes < chars + length s then False else attempt_scan stack (nodes + 1) (chars + length s)
      | PDict d \<Rightarrow>
          if max_json_depth \<le> depth \<and> d \<noteq> [] then False
          else if max_json_nodes < length d then False
          else (case key_chars chars (map fst d) of
            None \<Rightarrow> False
          | Some chars' \<Rightarrow> attempt_scan (rev (map (\<lambda>(k, x). (x, depth + 1)) d) @ stack) (nodes + 1) chars')
      | PList xs \<Rightarrow>
          if max_json_depth \<le> depth \<and> xs \<noteq> [] then False
          else if max_json_nodes < length xs then False
          else attempt_scan (rev (map (\<lambda>x. (x, depth + 1)) xs) @ stack) (nodes + 1) chars
      | _ \<Rightarrow> False)"
  by pat_completeness auto
termination
proof (relation "measure (\<lambda>(stack, nodes, chars). size_list (\<lambda>(v, d). size v) stack)", goal_cases)
  case (6 v depth stack nodes chars xs)
  then show ?case using size_list_rev_push [of "depth + 1" xs stack] by simp
next
  case (7 v depth stack nodes chars d)
  then show ?case using size_list_rev_push_dict [of "depth + 1" d stack] by simp
qed auto

definition preflight_attempt_json :: "pyval \<Rightarrow> bool" where
  "preflight_attempt_json v = attempt_scan [(v, 0)] 0 0"

section \<open>Events\<close>

record pay_event =
  pe_attempt_id :: pyval
  pe_seq :: pyval
  pe_type :: pyval
  pe_actor_did :: pyval
  pe_prev_state :: pyval
  pe_new_state :: pyval
  pe_payload :: pyval
  pe_prev_event_hash :: pyval
  pe_created_at_ms :: pyval
  pe_kind :: pyval
  pe_signature :: pyval

definition pay_event_to_dict :: "pay_event \<Rightarrow> pydict" where
  "pay_event_to_dict e = obj [(''attempt_id'', pe_attempt_id e), (''seq'', pe_seq e), (''type'', pe_type e), (''actor_did'', pe_actor_did e),
     (''prev_state'', pe_prev_state e), (''new_state'', pe_new_state e), (''payload'', pe_payload e), (''prev_event_hash'', pe_prev_event_hash e),
     (''created_at_ms'', pe_created_at_ms e), (''kind'', pe_kind e), (''signature'', pe_signature e)]"

definition pay_signing_body :: "pay_event \<Rightarrow> pydict" where
  "pay_signing_body e = without_key ''signature'' (pay_event_to_dict e)"

text \<open>Called on dicts that have every field.\<close>

definition pay_event_from_dict :: "pydict \<Rightarrow> pay_event" where
  "pay_event_from_dict d = (let g = (\<lambda>k. dget_or d k PNone) in
     \<lparr>pe_attempt_id = g ''attempt_id'', pe_seq = g ''seq'', pe_type = g ''type'', pe_actor_did = g ''actor_did'', pe_prev_state = g ''prev_state'',
      pe_new_state = g ''new_state'', pe_payload = g ''payload'', pe_prev_event_hash = g ''prev_event_hash'', pe_created_at_ms = g ''created_at_ms'',
      pe_kind = g ''kind'', pe_signature = g ''signature''\<rparr>)"

definition payment_attempt_event_hash :: "pyval \<Rightarrow> string res" where
  "payment_attempt_event_hash document = bindR (canonical_json document) (\<lambda>bs. Inr (''sha256:'' @ sha256_hex bs))"

definition sign_pay_event :: "nacl \<Rightarrow> identity \<Rightarrow> pay_event \<Rightarrow> pay_event res" where
  "sign_pay_event n actor event =
     bindR (as_did actor) (\<lambda>did.
     ensure (PStr did = pe_actor_did event) PaymentAttemptRejected ''payment attempt signer does not match actor'' (
     bindR (canonical_json (PDict (pay_signing_body event))) (\<lambda>bs.
     bindR (identity_sign n actor bs) (\<lambda>s. Inr (event\<lparr>pe_signature := PStr (b64u_encode s)\<rparr>)))))"

definition verify_pay_signature :: "nacl \<Rightarrow> pay_event \<Rightarrow> bool \<times> string" where
  "verify_pay_signature n event =
     (if \<not> nacl_available n then (False, ''crypto unavailable'')
      else if \<not> is_did_key (pe_actor_did event) then (False, ''invalid payment attempt actor DID'')
      else case pe_signature event of
        PStr sg \<Rightarrow>
          if \<not> (1 \<le> length sg \<and> length sg \<le> 128) then (False, ''payment attempt signature invalid'')
          else (case bindR (b64u_decode sg) (\<lambda>s.
                     ensure (length s = 64 \<and> b64u_encode s = sg) ValueError [] (
                     bindR (decode_ed25519_did_key (the_str (Some (pe_actor_did event)))) (\<lambda>pk.
                     bindR (canonical_json (PDict (pay_signing_body event))) (\<lambda>body.
                     Inr (nacl_verify n pk body s))))) of
            Inr True \<Rightarrow> (True, ''ok'')
          | _ \<Rightarrow> (False, ''payment attempt signature invalid''))
      | _ \<Rightarrow> (False, ''payment attempt signature invalid''))"

section \<open>Verification\<close>

definition reject :: "string \<Rightarrow> 'a res" where
  "reject why = raise PaymentAttemptRejected why"

definition intent_dict :: "settlement_intent \<Rightarrow> pydict res" where
  "intent_dict i = bindR (intent_validate i) (\<lambda>_. Inr (obj [(''trade_id'', PStr (i_trade_id i)), (''amount_minor'', i_amount_minor i),
     (''currency'', PStr (i_currency i)), (''payee_did'', PStr (i_payee_did i)), (''payer_did'', PStr (i_payer_did i)), (''memo'', PStr (i_memo i))]))"

definition intent_from_dict :: "pyval \<Rightarrow> settlement_intent res" where
  "intent_from_dict v = (case v of
     PDict d \<Rightarrow>
       if \<not> same_keys d intent_fields then reject ''payment intent has missing or unknown fields''
       else if \<not> list_all (\<lambda>k. is_str (dget_or d k PNone)) [''trade_id'', ''currency'', ''payee_did'', ''payer_did'', ''memo'']
       then reject (''payment intent is invalid: '' @ ''settlement-intent-invalid'')
       else (let intent = \<lparr>i_trade_id = the_str (dget d ''trade_id''), i_amount_minor = dget_or d ''amount_minor'' PNone,
                   i_currency = the_str (dget d ''currency''), i_payee_did = the_str (dget d ''payee_did''),
                   i_payer_did = the_str (dget d ''payer_did''), i_memo = the_str (dget d ''memo'')\<rparr> in
             case intent_validate intent of
               Inl e \<Rightarrow> reject (''payment intent is invalid: '' @ exn_msg e)
             | Inr _ \<Rightarrow> Inr intent)
   | _ \<Rightarrow> reject ''payment intent has missing or unknown fields'')"

text \<open>What the verifying loop carries from one event to the next.\<close>

record attempt_state =
  a_state :: string
  a_actor_did :: string
  a_attempt_id :: string
  a_intent :: settlement_intent
  a_lease_id :: string
  a_lease_expires_at_ms :: int
  a_next_attempt_at_ms :: int
  a_orphan_evidence_digest :: string
  a_created_at_ms :: int

definition prev_hash :: "pyval option \<Rightarrow> string res" where
  "prev_hash prev = (case prev of None \<Rightarrow> Inr [] | Some raw \<Rightarrow> payment_attempt_event_hash raw)"

definition event_meta :: "nacl \<Rightarrow> nat \<Rightarrow> pyval option \<Rightarrow> int \<Rightarrow> pyval \<Rightarrow> (pay_event \<times> pydict \<times> int) res" where
  "event_meta n index prev last_created_at_ms raw = (case raw of
     PDict d \<Rightarrow>
       if \<not> same_keys d pay_event_fields then reject ''payment attempt event has missing or unknown fields''
       else (case canonical_json raw of
         Inl _ \<Rightarrow> reject ''payment attempt event is malformed''
       | Inr bs \<Rightarrow>
           if max_event_bytes < length bs then reject ''payment attempt event is too large''
           else (let event = pay_event_from_dict d in
             case pe_attempt_id event of
               PStr aid \<Rightarrow>
                 bindR (prev_hash prev) (\<lambda>h.
                 case (pe_payload event, strict_int (pe_created_at_ms event)) of
                   (PDict payload, Some t) \<Rightarrow>
                     if \<not> attempt_id_ok aid \<or> \<not> py_eq (pe_seq event) (PInt (int index)) \<or> pe_kind event \<noteq> PStr payment_attempt_kind
                        \<or> pe_prev_event_hash event \<noteq> PStr h \<or> t \<le> 0 \<or> t < last_created_at_ms
                     then reject ''payment attempt event metadata is invalid''
                     else (case verify_pay_signature n event of
                       (True, _) \<Rightarrow> Inr (event, payload, t)
                     | (False, reason) \<Rightarrow> reject reason)
                 | _ \<Rightarrow> reject ''payment attempt event metadata is invalid'')
             | _ \<Rightarrow> raise TypeError ''expected string or bytes-like object''))
   | _ \<Rightarrow> reject ''payment attempt event has missing or unknown fields'')"

definition created_event :: "pay_event \<Rightarrow> pydict \<Rightarrow> int \<Rightarrow> attempt_state res" where
  "created_event event payload t =
     (if pe_type event \<noteq> PStr ''payment_attempt_created'' \<or> pe_prev_state event \<noteq> PStr [] \<or> pe_new_state event \<noteq> PStr ''pending''
         \<or> \<not> same_keys payload create_fields \<or> \<not> py_eq (dget_or payload ''schema_version'' PNone) (PInt 1)
         \<or> dget payload ''adapter_id'' \<noteq> Some (PStr adapter_x402_testnet)
      then reject ''payment attempt creation event is invalid''
      else bindR (intent_from_dict (dget_or payload ''intent'' PNone)) (\<lambda>intent.
        if i_payer_did intent = [] \<or> PStr (i_payer_did intent) \<noteq> pe_actor_did event
        then reject ''payment attempt creation binding is invalid''
        else bindR (settlement_idempotency_key intent) (\<lambda>key.
          if PStr key \<noteq> pe_attempt_id event then reject ''payment attempt creation binding is invalid''
          else Inr \<lparr>a_state = ''pending'', a_actor_did = i_payer_did intent, a_attempt_id = key, a_intent = intent, a_lease_id = [],
                 a_lease_expires_at_ms = 0, a_next_attempt_at_ms = 0, a_orphan_evidence_digest = [], a_created_at_ms = t\<rparr>)))"

text \<open>The settlement an event carries, checked against the intent; \<open>kind\<close> begins the two messages of the branch.\<close>

definition check_settlement :: "int \<Rightarrow> attempt_state \<Rightarrow> pydict \<Rightarrow> string \<Rightarrow> string \<Rightarrow> unit res" where
  "check_settlement now st settlement invalid unbound =
     (let intent = a_intent st;
          amount = (case i_amount_minor intent of PInt a \<Rightarrow> a | _ \<Rightarrow> 0) in
      case verify_settlement (PDict settlement) now amount (i_currency intent) (i_payee_did intent) (i_payer_did intent) of
        (False, reason) \<Rightarrow> reject (invalid @ reason)
      | (True, _) \<Rightarrow>
          (case dget settlement ''proof'' of
             Some (PDict proof') \<Rightarrow>
               if dget proof' ''idempotency_key'' = Some (PStr (a_attempt_id st)) then Inr () else reject unbound
           | _ \<Rightarrow> reject unbound))"

definition claimed_event :: "attempt_state \<Rightarrow> pay_event \<Rightarrow> pydict \<Rightarrow> int \<Rightarrow> attempt_state res" where
  "claimed_event st event payload t =
     (if a_state st \<notin> {''pending'', ''inflight''} then reject ''payment attempt claim transition is invalid''
      else if a_state st = ''pending'' \<and> t < a_next_attempt_at_ms st then reject ''payment attempt was claimed before retry became due''
      else if a_state st = ''inflight'' \<and> t < a_lease_expires_at_ms st then reject ''payment attempt lease was stolen before expiry''
      else if \<not> same_keys payload [''lease_id'', ''lease_expires_at_ms''] then reject ''payment attempt claim payload is invalid''
      else case (dget payload ''lease_id'', dget payload ''lease_expires_at_ms'') of
        (Some (PStr lease), Some (PInt expiry)) \<Rightarrow>
          if lease_id_ok lease \<and> t + 1000 \<le> expiry \<and> expiry \<le> t + 300000 \<and> pe_new_state event = PStr ''inflight''
          then Inr (st\<lparr>a_lease_id := lease, a_lease_expires_at_ms := expiry, a_next_attempt_at_ms := 0\<rparr>)
          else reject ''payment attempt lease is invalid''
      | _ \<Rightarrow> reject ''payment attempt lease is invalid'')"

definition released :: "attempt_state \<Rightarrow> attempt_state" where
  "released st = st\<lparr>a_lease_id := [], a_lease_expires_at_ms := 0\<rparr>"

definition holds_lease :: "attempt_state \<Rightarrow> pydict \<Rightarrow> bool" where
  "holds_lease st payload \<longleftrightarrow> dget payload ''lease_id'' = Some (PStr (a_lease_id st))"

definition retry_event :: "attempt_state \<Rightarrow> pay_event \<Rightarrow> pydict \<Rightarrow> int \<Rightarrow> attempt_state res" where
  "retry_event st event payload t =
     (if a_state st \<noteq> ''inflight'' \<or> pe_new_state event \<noteq> PStr ''pending'' then reject ''payment retry transition is invalid''
      else if \<not> same_keys payload [''lease_id'', ''error_code'', ''next_attempt_at_ms''] then reject ''payment retry payload is invalid''
      else case (dget payload ''error_code'', dget payload ''next_attempt_at_ms'') of
        (Some (PStr error_code), Some (PInt retry_at)) \<Rightarrow>
          if holds_lease st payload \<and> error_code_ok error_code \<and> t \<le> retry_at then Inr (released st\<lparr>a_next_attempt_at_ms := retry_at\<rparr>)
          else reject ''payment retry binding is invalid''
      | _ \<Rightarrow> reject ''payment retry binding is invalid'')"

definition settled_event :: "int \<Rightarrow> attempt_state \<Rightarrow> pay_event \<Rightarrow> pydict \<Rightarrow> attempt_state res" where
  "settled_event now st event payload =
     (if a_state st \<noteq> ''inflight'' \<or> pe_new_state event \<noteq> PStr ''settled'' then reject ''payment settlement transition is invalid''
      else if \<not> same_keys payload [''lease_id'', ''settlement''] then reject ''payment settlement payload is invalid''
      else case dget payload ''settlement'' of
        Some (PDict settlement) \<Rightarrow>
          if \<not> holds_lease st payload then reject ''payment settlement lease is invalid''
          else bindR (check_settlement now st settlement ''payment settlement is invalid: '' ''payment settlement idempotency binding is invalid'') (\<lambda>_.
               Inr (released st))
      | _ \<Rightarrow> reject ''payment settlement lease is invalid'')"

definition blocked_event :: "attempt_state \<Rightarrow> pay_event \<Rightarrow> pydict \<Rightarrow> attempt_state res" where
  "blocked_event st event payload =
     (if a_state st \<noteq> ''inflight'' \<or> pe_new_state event \<noteq> PStr ''blocked'' then reject ''payment block transition is invalid''
      else if \<not> same_keys payload [''lease_id'', ''error_code''] then reject ''payment block payload is invalid''
      else case dget payload ''error_code'' of
        Some (PStr error_code) \<Rightarrow>
          if holds_lease st payload \<and> error_code_ok error_code then Inr (released st) else reject ''payment block binding is invalid''
      | _ \<Rightarrow> reject ''payment block binding is invalid'')"

definition orphaned_event :: "attempt_state \<Rightarrow> pay_event \<Rightarrow> pydict \<Rightarrow> attempt_state res" where
  "orphaned_event st event payload =
     (if a_state st \<noteq> ''inflight'' \<or> pe_new_state event \<noteq> PStr ''orphaned'' then reject ''payment orphan transition is invalid''
      else if \<not> same_keys payload [''lease_id'', ''error_code'', ''provider_reference'', ''evidence_digest''] then reject ''payment orphan payload is invalid''
      else case (dget payload ''error_code'', dget payload ''provider_reference'', dget payload ''evidence_digest'') of
        (Some (PStr error_code), Some (PStr provider_reference), Some (PStr evidence_digest)) \<Rightarrow>
          if holds_lease st payload \<and> error_code_ok error_code \<and> length provider_reference \<le> 256 \<and> event_hash_ok evidence_digest
          then Inr (released st\<lparr>a_orphan_evidence_digest := evidence_digest\<rparr>)
          else reject ''payment orphan binding is invalid''
      | _ \<Rightarrow> reject ''payment orphan binding is invalid'')"

definition reconciled_event :: "int \<Rightarrow> attempt_state \<Rightarrow> pay_event \<Rightarrow> pydict \<Rightarrow> attempt_state res" where
  "reconciled_event now st event payload =
     (if a_state st \<noteq> ''orphaned'' \<or> pe_new_state event \<noteq> PStr ''settled'' then reject ''payment orphan reconciliation transition is invalid''
      else if \<not> same_keys payload [''settlement'', ''orphan_evidence_digest''] then reject ''payment orphan reconciliation payload is invalid''
      else case dget payload ''settlement'' of
        Some (PDict settlement) \<Rightarrow>
          if dget payload ''orphan_evidence_digest'' \<noteq> Some (PStr (a_orphan_evidence_digest st)) then reject ''payment orphan reconciliation binding is invalid''
          else bindR (check_settlement now st settlement ''reconciled payment settlement is invalid: '' ''reconciled settlement idempotency binding is invalid'')
                 (\<lambda>_. Inr (st\<lparr>a_orphan_evidence_digest := []\<rparr>))
      | _ \<Rightarrow> reject ''payment orphan reconciliation binding is invalid'')"

definition next_event :: "int \<Rightarrow> attempt_state \<Rightarrow> pay_event \<Rightarrow> pydict \<Rightarrow> int \<Rightarrow> attempt_state res" where
  "next_event now st event payload t =
     (if pe_actor_did event \<noteq> PStr (a_actor_did st) \<or> pe_attempt_id event \<noteq> PStr (a_attempt_id st) then reject ''payment attempt actor or id changed''
      else if pe_prev_state event \<noteq> PStr (a_state st) then reject ''payment attempt previous state is invalid''
      else bindR (if pe_type event = PStr ''payment_attempt_claimed'' then claimed_event st event payload t
         else if pe_type event = PStr ''payment_attempt_retry_scheduled'' then retry_event st event payload t
         else if pe_type event = PStr ''payment_attempt_settled'' then settled_event now st event payload
         else if pe_type event = PStr ''payment_attempt_blocked'' then blocked_event st event payload
         else if pe_type event = PStr ''payment_attempt_orphaned'' then orphaned_event st event payload
         else if pe_type event = PStr ''payment_attempt_orphan_reconciled'' then reconciled_event now st event payload
         else reject ''unknown payment attempt event type'') (\<lambda>st'.
       Inr (st'\<lparr>a_state := the_str (Some (pe_new_state event)), a_created_at_ms := t\<rparr>)))"

fun attempt_events :: "nacl \<Rightarrow> int \<Rightarrow> nat \<Rightarrow> pyval \<Rightarrow> attempt_state \<Rightarrow> pyval list \<Rightarrow> attempt_state res" where
  "attempt_events n now index prev st [] = Inr st"
| "attempt_events n now index prev st (raw # rest) =
     bindR (event_meta n index (Some prev) (a_created_at_ms st) raw) (\<lambda>(event, payload, t).
     bindR (next_event now st event payload t) (\<lambda>st'.
     attempt_events n now (Suc index) raw st' rest))"

definition attempt_replay :: "nacl \<Rightarrow> int \<Rightarrow> pyval list \<Rightarrow> attempt_state res" where
  "attempt_replay n now events = (case events of
     [] \<Rightarrow> reject ''payment attempt is empty''
   | first # rest \<Rightarrow>
       if \<not> preflight_attempt_json (PList events) then reject ''payment attempt exceeds JSON resource limits''
       else (case canonical_json (PDict (obj [(''events'', PList events)])) of
         Inl _ \<Rightarrow> reject ''payment attempt chain is not canonical JSON''
       | Inr bs \<Rightarrow>
           if max_chain_bytes < length bs then reject ''payment attempt chain is too large''
           else bindR (event_meta n 0 None 0 first) (\<lambda>(event, payload, t).
                bindR (created_event event payload t) (\<lambda>st. attempt_events n now 1 first st rest))))"

definition verify_payment_attempt :: "nacl \<Rightarrow> int \<Rightarrow> pyval list \<Rightarrow> (bool \<times> string) res" where
  "verify_payment_attempt n now events = (case attempt_replay n now events of
     Inr _ \<Rightarrow> Inr (True, ''ok'')
   | Inl e \<Rightarrow> if exn_cls e = PaymentAttemptRejected then Inr (False, exn_msg e) else Inl e)"

section \<open>Projection\<close>

record attempt_view =
  v_attempt_id :: pyval
  v_actor_did :: pyval
  v_adapter_id :: pyval
  v_intent :: pydict
  v_state :: pyval
  v_lease_id :: pyval
  v_lease_expires_at_ms :: pyval
  v_next_attempt_at_ms :: pyval
  v_attempts :: nat
  v_last_error :: pyval
  v_settlement :: pydict
  v_provider_reference :: pyval
  v_evidence_digest :: pyval

definition dict_of :: "pyval \<Rightarrow> pydict" where
  "dict_of v = (case v of PDict d \<Rightarrow> d | _ \<Rightarrow> [])"

definition project_event :: "attempt_view \<Rightarrow> pyval \<Rightarrow> attempt_view" where
  "project_event view raw =
     (let event = pay_event_from_dict (dict_of raw);
          payload = dict_of (pe_payload event);
          g = (\<lambda>k. dget_or payload k PNone);
          view = view\<lparr>v_state := pe_new_state event\<rparr> in
      if pe_type event = PStr ''payment_attempt_claimed''
      then view\<lparr>v_lease_id := g ''lease_id'', v_lease_expires_at_ms := g ''lease_expires_at_ms'', v_next_attempt_at_ms := PInt 0,
             v_attempts := v_attempts view + 1\<rparr>
      else if pe_type event = PStr ''payment_attempt_retry_scheduled''
      then view\<lparr>v_lease_id := PStr [], v_lease_expires_at_ms := PInt 0, v_next_attempt_at_ms := g ''next_attempt_at_ms'', v_last_error := g ''error_code''\<rparr>
      else if pe_type event = PStr ''payment_attempt_settled''
      then view\<lparr>v_lease_id := PStr [], v_lease_expires_at_ms := PInt 0, v_settlement := dict_of (g ''settlement''), v_last_error := PStr []\<rparr>
      else if pe_type event = PStr ''payment_attempt_blocked''
      then view\<lparr>v_lease_id := PStr [], v_lease_expires_at_ms := PInt 0, v_last_error := g ''error_code''\<rparr>
      else if pe_type event = PStr ''payment_attempt_orphaned''
      then view\<lparr>v_lease_id := PStr [], v_lease_expires_at_ms := PInt 0, v_last_error := g ''error_code'', v_provider_reference := g ''provider_reference'',
             v_evidence_digest := g ''evidence_digest''\<rparr>
      else if pe_type event = PStr ''payment_attempt_orphan_reconciled''
      then view\<lparr>v_settlement := dict_of (g ''settlement''), v_last_error := PStr [], v_provider_reference := PStr [], v_evidence_digest := PStr []\<rparr>
      else view)"

definition created_view :: "pyval \<Rightarrow> attempt_view" where
  "created_view raw =
     (let created = pay_event_from_dict (dict_of raw); payload = dict_of (pe_payload created) in
      \<lparr>v_attempt_id = pe_attempt_id created, v_actor_did = pe_actor_did created, v_adapter_id = dget_or payload ''adapter_id'' PNone,
       v_intent = dict_of (dget_or payload ''intent'' PNone), v_state = PStr ''pending'', v_lease_id = PStr [], v_lease_expires_at_ms = PInt 0,
       v_next_attempt_at_ms = PInt 0, v_attempts = 0, v_last_error = PStr [], v_settlement = [], v_provider_reference = PStr [],
       v_evidence_digest = PStr []\<rparr>)"

definition project_verified :: "pyval list \<Rightarrow> attempt_view" where
  "project_verified events = foldl project_event (created_view (hd events)) (tl events)"

section \<open>What the resource limits accept\<close>

text \<open>The loop over a work stack, as a recursive specification: plain JSON of bounded depth with integers of bounded size, and
  bounds on the number of values and on the characters of all strings and keys together.\<close>

lemma size_elem: "x \<in> set xs \<Longrightarrow> size x < size (PList xs)"
  using size_list_estimation' [of x xs "size x" size] by simp

lemma size_member: "q \<in> set d \<Longrightarrow> size (snd q) < size (PDict d)"
  using size_list_estimation' [of q d "size (snd q)" "size_prod size size"] by (cases q) simp

function (sequential) plain_json :: "nat \<Rightarrow> pyval \<Rightarrow> bool" where
  "plain_json k (PList xs) \<longleftrightarrow> (xs = [] \<or> k < max_json_depth) \<and> (\<forall>x \<in> set xs. plain_json (k + 1) x)"
| "plain_json k (PDict d) \<longleftrightarrow> (d = [] \<or> k < max_json_depth) \<and> (\<forall>q \<in> set d. is_str (fst q) \<and> plain_json (k + 1) (snd q))"
| "plain_json k (PInt i) \<longleftrightarrow> bit_length (nat \<bar>i\<bar>) \<le> max_chain_bytes * 4"
| "plain_json k (PFloat _) \<longleftrightarrow> False"
| "plain_json k (POther _ _) \<longleftrightarrow> False"
| "plain_json k _ \<longleftrightarrow> True"
  by pat_completeness auto
termination by (relation "measure (\<lambda>(k, v). size v)") (auto simp: size_elem size_member simp del: pyval.size)

function (sequential) json_nodes :: "pyval \<Rightarrow> nat" where
  "json_nodes (PList xs) = Suc (\<Sum>x\<leftarrow>xs. json_nodes x)"
| "json_nodes (PDict d) = Suc (\<Sum>q\<leftarrow>d. json_nodes (snd q))"
| "json_nodes _ = 1"
  by pat_completeness auto
termination by (relation "measure size") (auto simp: size_elem size_member simp del: pyval.size)

function (sequential) json_chars :: "pyval \<Rightarrow> nat" where
  "json_chars (PStr s) = length s"
| "json_chars (PList xs) = (\<Sum>x\<leftarrow>xs. json_chars x)"
| "json_chars (PDict d) = (\<Sum>q\<leftarrow>d. length (key_text (fst q)) + json_chars (snd q))"
| "json_chars _ = 0"
  by pat_completeness auto
termination by (relation "measure size") (auto simp: size_elem size_member simp del: pyval.size)

lemma key_chars_eq:
  "chars \<le> max_chain_bytes \<Longrightarrow> key_chars chars ks = (if list_all is_str ks \<and> chars + (\<Sum>k\<leftarrow>ks. length (key_text k)) \<le> max_chain_bytes
     then Some (chars + (\<Sum>k\<leftarrow>ks. length (key_text k))) else None)"
  by (induction chars ks rule: key_chars.induct) (auto simp: is_str_def key_text_def)

lemma sum_split: "(\<Sum>q\<leftarrow>d. f q + g q) = (\<Sum>q\<leftarrow>d. f q) + (\<Sum>q\<leftarrow>d. g q :: nat)"
  by (induction d) auto

lemma json_nodes_pos: "1 \<le> json_nodes v"
  by (cases v) auto

lemma nodes_ge_length: "length xs \<le> (\<Sum>x\<leftarrow>xs. json_nodes (f x))"
proof (induction xs)
  case (Cons x xs)
  then show ?case using json_nodes_pos [of "f x"] by simp
qed simp

lemma sum_pushed:
  "(\<Sum>q\<leftarrow>rev (map (\<lambda>x. (x, k)) xs) @ stack. f (fst q)) = (\<Sum>x\<leftarrow>xs. f x) + (\<Sum>q\<leftarrow>stack. f (fst q) :: nat)"
  "(\<Sum>q\<leftarrow>rev (map (\<lambda>(_, x). (x, k)) d) @ stack. f (fst q)) = (\<Sum>q\<leftarrow>d. f (snd q)) + (\<Sum>q\<leftarrow>stack. f (fst q) :: nat)"
proof -
  show "(\<Sum>q\<leftarrow>rev (map (\<lambda>x. (x, k)) xs) @ stack. f (fst q)) = (\<Sum>x\<leftarrow>xs. f x) + (\<Sum>q\<leftarrow>stack. f (fst q))" by (induction xs arbitrary: stack) auto
  show "(\<Sum>q\<leftarrow>rev (map (\<lambda>(_, x). (x, k)) d) @ stack. f (fst q)) = (\<Sum>q\<leftarrow>d. f (snd q)) + (\<Sum>q\<leftarrow>stack. f (fst q))" by (induction d arbitrary: stack) auto
qed

lemma attempt_scan_iff:
  assumes "nodes \<le> max_json_nodes" "chars \<le> max_chain_bytes"
  shows "attempt_scan stack nodes chars \<longleftrightarrow> (\<forall>q \<in> set stack. plain_json (snd q) (fst q)) \<and> nodes + (\<Sum>q\<leftarrow>stack. json_nodes (fst q)) \<le> max_json_nodes
     \<and> chars + (\<Sum>q\<leftarrow>stack. json_chars (fst q)) \<le> max_chain_bytes"
  using assms
proof (induction stack nodes chars rule: attempt_scan.induct)
  case (2 v depth stack nodes chars)
  show ?case
  proof (cases "max_json_nodes < nodes + 1")
    case True
    then show ?thesis using json_nodes_pos [of v] by auto
  next
    case False
    show ?thesis
    proof (cases v)
      case (PDict d)
      let ?c = "\<Sum>k\<leftarrow>map fst d. length (key_text k)"
      consider "max_json_depth \<le> depth \<and> d \<noteq> []" | "max_json_nodes < length d" | "\<not> (list_all is_str (map fst d) \<and> chars + ?c \<le> max_chain_bytes)"
        | (go) "\<not> (max_json_depth \<le> depth \<and> d \<noteq> [])" "\<not> max_json_nodes < length d" "list_all is_str (map fst d)" "chars + ?c \<le> max_chain_bytes" by blast
      then show ?thesis
      proof cases
        case go
        then have k: "key_chars chars (map fst d) = Some (chars + ?c)" using "2.prems"(2) by (simp add: key_chars_eq)
        have s: "attempt_scan ((v, depth) # stack) nodes chars = attempt_scan (rev (map (\<lambda>(k, x). (x, depth + 1)) d) @ stack) (nodes + 1) (chars + ?c)"
          using False go k PDict by auto
        have all: "(\<forall>q \<in> set (rev (map (\<lambda>(k, x). (x, depth + 1)) d) @ stack). plain_json (snd q) (fst q))
            \<longleftrightarrow> plain_json depth v \<and> (\<forall>q \<in> set stack. plain_json (snd q) (fst q))"
          using go(1,3) by (auto simp: PDict list_all_iff split_def ball_Un)
        have sums: "json_nodes v = Suc (\<Sum>q\<leftarrow>d. json_nodes (snd q))" "json_chars v = ?c + (\<Sum>q\<leftarrow>d. json_chars (snd q))"
          by (simp_all add: PDict sum_split o_def)
        have ih: "nodes + 1 \<le> max_json_nodes" using False by simp
        show ?thesis unfolding s "2.IH"(6) [OF False PDict go(1,2) k ih go(4)] all unfolding sum_pushed using sums by (simp add: add.assoc)
      qed (use "2.prems" nodes_ge_length [of d snd] in \<open>auto simp: PDict key_chars_eq sum_split list_all_iff o_def\<close>)
    next
      case (PList xs)
      consider "max_json_depth \<le> depth \<and> xs \<noteq> []" | "max_json_nodes < length xs"
        | (go) "\<not> (max_json_depth \<le> depth \<and> xs \<noteq> [])" "\<not> max_json_nodes < length xs" by blast
      then show ?thesis
      proof cases
        case go
        have s: "attempt_scan ((v, depth) # stack) nodes chars = attempt_scan (rev (map (\<lambda>x. (x, depth + 1)) xs) @ stack) (nodes + 1) chars"
          using False go PList by auto
        have all: "(\<forall>q \<in> set (rev (map (\<lambda>x. (x, depth + 1)) xs) @ stack). plain_json (snd q) (fst q))
            \<longleftrightarrow> plain_json depth v \<and> (\<forall>q \<in> set stack. plain_json (snd q) (fst q))"
          using go(1) by (auto simp: PList ball_Un)
        have ih: "nodes + 1 \<le> max_json_nodes" using False by simp
        show ?thesis unfolding s "2.IH"(5) [OF False PList go ih "2.prems"(2)] all unfolding sum_pushed by (simp add: PList)
      qed (use nodes_ge_length [of xs id] in \<open>auto simp: PList\<close>)
    qed (use 2 False in auto)
  qed
qed simp

lemma preflight_iff: "preflight_attempt_json v \<longleftrightarrow> plain_json 0 v \<and> json_nodes v \<le> max_json_nodes \<and> json_chars v \<le> max_chain_bytes"
  by (simp add: preflight_attempt_json_def attempt_scan_iff del: attempt_scan.simps)

text \<open>The resource check of payment attempts is exact: the loop over the work stack accepts a value exactly when it is plain JSON (no
  floats, string keys) nested at most 32 deep, with integers of bounded size, at most 65536 values and at most 768 KiB of
  characters in strings and keys together.\<close>

lemma preflight_exact:
  "preflight_attempt_json v \<longleftrightarrow> plain_json 0 v \<and> json_nodes v \<le> max_json_nodes \<and> json_chars v \<le> max_chain_bytes"
  by (rule preflight_iff)

end
