(* ===== verification/Payment_Chain.thy ===== *)
theory Payment_Chain
  imports Payment_Event
begin

text \<open>
  What a verified payment attempt guarantees. Each accepted event is taken apart once (\<open>event_meta_iff\<close> and the elimination rules of the event types);
  the abstract lifecycle is the inductive \<open>payment_step\<close> with its runs \<open>payment_path\<close>, a simulation carries the verifier's loop and the
  projection's loop over to it, and the properties are read off the runs. The chain interprets \<open>hash_chain\<close>, so that a head hash commits
  to all events.
\<close>

section \<open>One accepted event\<close>

definition meta_ok :: "nacl \<Rightarrow> nat \<Rightarrow> pyval option \<Rightarrow> int \<Rightarrow> pyval \<Rightarrow> pay_event \<Rightarrow> pydict \<Rightarrow> int \<Rightarrow> bool" where
  "meta_ok n i prev t0 raw ev p t \<longleftrightarrow> (\<exists>d h aid bs. raw = PDict d \<and> ev = pay_event_from_dict d \<and> same_keys d pay_event_fields
     \<and> canonical_json raw = Inr bs \<and> length bs \<le> max_event_bytes \<and> pe_attempt_id ev = PStr aid \<and> attempt_id_ok aid
     \<and> pe_payload ev = PDict p \<and> pe_created_at_ms ev = PInt t \<and> 0 < t \<and> t0 \<le> t
     \<and> py_eq (pe_seq ev) (PInt (int i)) \<and> pe_kind ev = PStr payment_attempt_kind \<and> prev_hash prev = Inr h \<and> pe_prev_event_hash ev = PStr h
     \<and> fst (verify_pay_signature n ev))"

lemma strict_int_iff [simp]: "strict_int v = Some t \<longleftrightarrow> v = PInt t"
  by (cases v) (simp_all add: strict_int_def)

lemma event_meta_iff: "event_meta n i prev t0 raw = Inr (ev, p, t) \<longleftrightarrow> meta_ok n i prev t0 raw ev p t"
proof
  assume a: "event_meta n i prev t0 raw = Inr (ev, p, t)"
  then obtain d where d: "raw = PDict d" by (cases raw) (auto simp: event_meta_def reject_def)
  note a = a [unfolded event_meta_def d pyval.case Let_def]
  have keys: "same_keys d pay_event_fields" using a by (auto simp: reject_def split: if_splits)
  obtain bs where bs: "canonical_json raw = Inr bs" using a d by (auto simp: reject_def split: if_splits sum.splits)
  note a = a [unfolded keys not_True_eq_False if_False, folded d, unfolded bs sum.case]
  have len: "length bs \<le> max_event_bytes" using a by (auto simp: reject_def split: if_splits)
  let ?e = "pay_event_from_dict d"
  obtain aid where aid: "pe_attempt_id ?e = PStr aid" using a by (cases "pe_attempt_id ?e") (auto simp: reject_def split: if_splits)
  obtain h where h: "prev_hash prev = Inr h" using a aid by (cases "prev_hash prev") (auto simp: reject_def split: if_splits)
  obtain q where q: "pe_payload ?e = PDict q" using a aid h by (cases "pe_payload ?e") (auto simp: reject_def split: if_splits)
  obtain s where s: "pe_created_at_ms ?e = PInt s"
    using a aid h q by (cases "pe_created_at_ms ?e") (auto simp: strict_int_def reject_def split: if_splits)
  obtain ok m where v: "verify_pay_signature n ?e = (ok, m)" by fastforce
  show "meta_ok n i prev t0 raw ev p t"
    using a aid h q s v keys bs len d by (auto simp: meta_ok_def strict_int_def reject_def split: if_splits bool.splits)
next
  assume "meta_ok n i prev t0 raw ev p t"
  then obtain d h aid bs m where "raw = PDict d" "ev = pay_event_from_dict d" "same_keys d pay_event_fields" "canonical_json raw = Inr bs" "length bs \<le> max_event_bytes"
    "pe_attempt_id ev = PStr aid" "attempt_id_ok aid" "pe_payload ev = PDict p" "pe_created_at_ms ev = PInt t" "0 < t" "t0 \<le> t"
    "py_eq (pe_seq ev) (PInt (int i))" "pe_kind ev = PStr payment_attempt_kind" "prev_hash prev = Inr h" "pe_prev_event_hash ev = PStr h"
    "verify_pay_signature n ev = (True, m)"
    unfolding meta_ok_def by (metis prod.collapse eq_True)
  then show "event_meta n i prev t0 raw = Inr (ev, p, t)" by (simp add: event_meta_def strict_int_def)
qed

section \<open>The transitions\<close>

lemma claimed_eventE:
  assumes "claimed_event st ev p t = Inr st'"
  obtains l e where "dget p ''lease_id'' = Some (PStr l)" "dget p ''lease_expires_at_ms'' = Some (PInt e)" "lease_id_ok l" "t + 1000 \<le> e" "e \<le> t + 300000"
    "pe_new_state ev = PStr ''inflight''" "a_state st = ''pending'' \<and> a_next_attempt_at_ms st \<le> t \<or> a_state st = ''inflight'' \<and> a_lease_expires_at_ms st \<le> t"
    "st' = st\<lparr>a_lease_id := l, a_lease_expires_at_ms := e, a_next_attempt_at_ms := 0\<rparr>"
proof -
  note a = assms [unfolded claimed_event_def reject_def]
  obtain l where l: "dget p ''lease_id'' = Some (PStr l)" using a by (auto split: if_splits option.splits pyval.splits)
  obtain e where e: "dget p ''lease_expires_at_ms'' = Some (PInt e)" using a l by (auto split: if_splits option.splits pyval.splits)
  show thesis using a l e that [OF l e] by (auto split: if_splits)
qed

lemma retry_eventE:
  assumes "retry_event st ev p t = Inr st'"
  obtains c due where "dget p ''error_code'' = Some (PStr c)" "dget p ''next_attempt_at_ms'' = Some (PInt due)" "holds_lease st p" "error_code_ok c" "t \<le> due"
    "pe_new_state ev = PStr ''pending''" "a_state st = ''inflight''" "st' = released st\<lparr>a_next_attempt_at_ms := due\<rparr>"
proof -
  note a = assms [unfolded retry_event_def reject_def]
  obtain c where c: "dget p ''error_code'' = Some (PStr c)" using a by (auto split: if_splits option.splits pyval.splits)
  obtain due where due: "dget p ''next_attempt_at_ms'' = Some (PInt due)" using a c by (auto split: if_splits option.splits pyval.splits)
  show thesis using a c due that [OF c due] by (auto split: if_splits)
qed

text \<open>A settlement meets an obligation: it verifies against the terms and its proof names the obligation's key.\<close>

definition intent_amount :: "settlement_intent \<Rightarrow> int" where
  "intent_amount i = (case i_amount_minor i of PInt a \<Rightarrow> a | _ \<Rightarrow> 0)"

definition pays :: "int \<Rightarrow> settlement_intent \<Rightarrow> string \<Rightarrow> pydict \<Rightarrow> bool" where
  "pays now i key s \<longleftrightarrow> fst (verify_settlement (PDict s) now (intent_amount i) (i_currency i) (i_payee_did i) (i_payer_did i))
     \<and> (\<exists>pr. dget s ''proof'' = Some (PDict pr) \<and> dget pr ''idempotency_key'' = Some (PStr key))"

lemma check_settlement_iff: "check_settlement now st s m1 m2 = Inr () \<longleftrightarrow> pays now (a_intent st) (a_attempt_id st) s"
proof -
  obtain ok m where v: "verify_settlement (PDict s) now (intent_amount (a_intent st)) (i_currency (a_intent st)) (i_payee_did (a_intent st)) (i_payer_did (a_intent st)) = (ok, m)"
    by fastforce
  show ?thesis
    unfolding check_settlement_def Let_def intent_amount_def [symmetric] v
    by (cases ok) (auto simp: pays_def v reject_def split: option.splits pyval.splits)
qed

lemma settled_eventE:
  assumes "settled_event now st ev p = Inr st'"
  obtains s where "dget p ''settlement'' = Some (PDict s)" "holds_lease st p" "pays now (a_intent st) (a_attempt_id st) s"
    "pe_new_state ev = PStr ''settled''" "a_state st = ''inflight''" "st' = released st"
proof -
  note a = assms [unfolded settled_event_def reject_def]
  obtain s where s: "dget p ''settlement'' = Some (PDict s)" using a by (auto split: if_splits option.splits pyval.splits)
  show thesis using a s that [OF s] by (auto simp: bindR_Inr_iff check_settlement_iff split: if_splits)
qed

lemma blocked_eventE:
  assumes "blocked_event st ev p = Inr st'"
  obtains c where "dget p ''error_code'' = Some (PStr c)" "holds_lease st p" "error_code_ok c"
    "pe_new_state ev = PStr ''blocked''" "a_state st = ''inflight''" "st' = released st"
proof -
  note a = assms [unfolded blocked_event_def reject_def]
  obtain c where c: "dget p ''error_code'' = Some (PStr c)" using a by (auto split: if_splits option.splits pyval.splits)
  show thesis using a c that [OF c] by (auto split: if_splits)
qed

lemma orphaned_eventE:
  assumes "orphaned_event st ev p = Inr st'"
  obtains c r g where "dget p ''error_code'' = Some (PStr c)" "dget p ''provider_reference'' = Some (PStr r)" "dget p ''evidence_digest'' = Some (PStr g)"
    "holds_lease st p" "error_code_ok c" "length r \<le> 256" "event_hash_ok g" "pe_new_state ev = PStr ''orphaned''" "a_state st = ''inflight''"
    "st' = released st\<lparr>a_orphan_evidence_digest := g\<rparr>"
proof -
  note a = assms [unfolded orphaned_event_def reject_def]
  obtain c where c: "dget p ''error_code'' = Some (PStr c)" using a by (auto split: if_splits option.splits pyval.splits)
  obtain r where r: "dget p ''provider_reference'' = Some (PStr r)" using a c by (auto split: if_splits option.splits pyval.splits)
  obtain g where g: "dget p ''evidence_digest'' = Some (PStr g)" using a c r by (auto split: if_splits option.splits pyval.splits)
  show thesis using a c r g that [OF c r g] by (auto split: if_splits)
qed

lemma reconciled_eventE:
  assumes "reconciled_event now st ev p = Inr st'"
  obtains s where "dget p ''settlement'' = Some (PDict s)" "dget p ''orphan_evidence_digest'' = Some (PStr (a_orphan_evidence_digest st))"
    "pays now (a_intent st) (a_attempt_id st) s" "pe_new_state ev = PStr ''settled''" "a_state st = ''orphaned''" "st' = st\<lparr>a_orphan_evidence_digest := []\<rparr>"
proof -
  note a = assms [unfolded reconciled_event_def reject_def]
  obtain s where s: "dget p ''settlement'' = Some (PDict s)" using a by (auto split: if_splits option.splits pyval.splits)
  show thesis using a s that [OF s] by (auto simp: bindR_Inr_iff check_settlement_iff split: if_splits)
qed

section \<open>The lifecycle\<close>

datatype payment_phase = Pending int | Inflight string int | Settled pydict | Blocked | Orphaned string

datatype payment_action =
    Claim string int
  | Retry string int
  | Settle string pydict
  | Block string
  | Orphan string string
  | Reconcile string pydict

text \<open>A waiting attempt can be claimed once it is due, a claimed one by somebody else once its lease has run out, and only the holder of the
  lease can say how the claim ended. The condition \<open>ok\<close> is what a settlement has to meet.\<close>

inductive payment_step :: "(pydict \<Rightarrow> bool) \<Rightarrow> payment_phase \<Rightarrow> int \<times> payment_action \<Rightarrow> payment_phase \<Rightarrow> bool" for ok where
  claim: "due \<le> t \<Longrightarrow> t + 1000 \<le> e \<Longrightarrow> e \<le> t + 300000 \<Longrightarrow> payment_step ok (Pending due) (t, Claim l e) (Inflight l e)"
| take_over: "old \<le> t \<Longrightarrow> t + 1000 \<le> e \<Longrightarrow> e \<le> t + 300000 \<Longrightarrow> payment_step ok (Inflight l' old) (t, Claim l e) (Inflight l e)"
| retry: "t \<le> due \<Longrightarrow> payment_step ok (Inflight l e) (t, Retry l due) (Pending due)"
| settle: "ok s \<Longrightarrow> payment_step ok (Inflight l e) (t, Settle l s) (Settled s)"
| block: "payment_step ok (Inflight l e) (t, Block l) Blocked"
| orphan: "payment_step ok (Inflight l e) (t, Orphan l g) (Orphaned g)"
| reconcile: "ok s \<Longrightarrow> payment_step ok (Orphaned g) (t, Reconcile g s) (Settled s)"

inductive_cases payment_stepE: "payment_step ok x (t, a) y"
inductive_simps settled_final: "payment_step ok (Settled s) l y"
inductive_simps blocked_final: "payment_step ok Blocked l y"
inductive_simps from_pending: "payment_step ok (Pending due) l y"
inductive_simps from_orphaned: "payment_step ok (Orphaned g) l y"

inductive payment_path :: "(pydict \<Rightarrow> bool) \<Rightarrow> payment_phase \<Rightarrow> (int \<times> payment_action) list \<Rightarrow> payment_phase \<Rightarrow> bool" for ok where
  stay: "payment_path ok x [] x"
| move: "payment_path ok x ls y \<Longrightarrow> payment_step ok y l z \<Longrightarrow> payment_path ok x (ls @ [l]) z"

definition as_int :: "pyval \<Rightarrow> int" where
  "as_int v = (case v of PInt i \<Rightarrow> i | _ \<Rightarrow> 0)"

definition as_str :: "pyval \<Rightarrow> string" where
  "as_str v = (case v of PStr s \<Rightarrow> s | _ \<Rightarrow> [])"

lemma as_simps [simp]: "as_int (PInt i) = i" "as_str (PStr s) = s" "dict_of (PDict d) = d"
  by (simp_all add: as_int_def as_str_def dict_of_def)

definition event_action :: "pyval \<Rightarrow> (int \<times> payment_action) option" where
  "event_action raw =
     (let event = pay_event_from_dict (dict_of raw); payload = dict_of (pe_payload event); g = (\<lambda>k. dget_or payload k PNone);
          l = as_str (g ''lease_id''); ty = pe_type event in
      map_option (Pair (as_int (pe_created_at_ms event)))
       (if ty = PStr ''payment_attempt_claimed'' then Some (Claim l (as_int (g ''lease_expires_at_ms'')))
        else if ty = PStr ''payment_attempt_retry_scheduled'' then Some (Retry l (as_int (g ''next_attempt_at_ms'')))
        else if ty = PStr ''payment_attempt_settled'' then Some (Settle l (dict_of (g ''settlement'')))
        else if ty = PStr ''payment_attempt_blocked'' then Some (Block l)
        else if ty = PStr ''payment_attempt_orphaned'' then Some (Orphan l (as_str (g ''evidence_digest'')))
        else if ty = PStr ''payment_attempt_orphan_reconciled'' then Some (Reconcile (as_str (g ''orphan_evidence_digest'')) (dict_of (g ''settlement'')))
        else None))"

definition view_phase :: "attempt_view \<Rightarrow> payment_phase" where
  "view_phase v =
     (if v_state v = PStr ''pending'' then Pending (as_int (v_next_attempt_at_ms v))
      else if v_state v = PStr ''inflight'' then Inflight (as_str (v_lease_id v)) (as_int (v_lease_expires_at_ms v))
      else if v_state v = PStr ''settled'' then Settled (v_settlement v)
      else if v_state v = PStr ''orphaned'' then Orphaned (as_str (v_evidence_digest v))
      else Blocked)"

section \<open>The projection follows the verifier\<close>

definition follows :: "attempt_state \<Rightarrow> attempt_view \<Rightarrow> bool" where
  "follows st v \<longleftrightarrow> v_attempt_id v = PStr (a_attempt_id st) \<and> v_actor_did v = PStr (a_actor_did st) \<and> v_adapter_id v = PStr adapter_x402_testnet
     \<and> intent_from_dict (PDict (v_intent v)) = Inr (a_intent st) \<and> v_state v = PStr (a_state st) \<and> v_lease_id v = PStr (a_lease_id st)
     \<and> v_lease_expires_at_ms v = PInt (a_lease_expires_at_ms st) \<and> v_next_attempt_at_ms v = PInt (a_next_attempt_at_ms st)
     \<and> v_evidence_digest v = PStr (a_orphan_evidence_digest st)"

lemma dget_or_Some: "dget p k = Some v \<Longrightarrow> dget_or p k w = v"
  by (simp add: dget_or_def)

lemma followed_step:
  assumes f: "follows st v" and m: "meta_ok n i prev t0 raw ev p t" and x: "next_event now st ev p t = Inr st'"
  shows "follows st' (project_event v raw) \<and> a_created_at_ms st' = t
    \<and> (\<exists>l. event_action raw = Some (t, l) \<and> payment_step (pays now (a_intent st) (a_attempt_id st)) (view_phase v) (t, l) (view_phase (project_event v raw)))
    \<and> a_intent st' = a_intent st \<and> a_attempt_id st' = a_attempt_id st \<and> a_actor_did st' = a_actor_did st"
proof -
  have ev: "pay_event_from_dict (dict_of raw) = ev" "pe_payload ev = PDict p" "pe_created_at_ms ev = PInt t"
    using m by (auto simp: meta_ok_def)
  note defs = project_event_def event_action_def ev Let_def follows_def released_def holds_lease_def view_phase_def dget_or_Some
  note x = x [unfolded next_event_def]
  consider (c) st0 where "pe_type ev = PStr ''payment_attempt_claimed''" "claimed_event st ev p t = Inr st0"
      "st' = st0\<lparr>a_state := the_str (Some (pe_new_state ev)), a_created_at_ms := t\<rparr>"
    | (r) st0 where "pe_type ev = PStr ''payment_attempt_retry_scheduled''" "retry_event st ev p t = Inr st0"
      "st' = st0\<lparr>a_state := the_str (Some (pe_new_state ev)), a_created_at_ms := t\<rparr>"
    | (s) st0 where "pe_type ev = PStr ''payment_attempt_settled''" "settled_event now st ev p = Inr st0"
      "st' = st0\<lparr>a_state := the_str (Some (pe_new_state ev)), a_created_at_ms := t\<rparr>"
    | (b) st0 where "pe_type ev = PStr ''payment_attempt_blocked''" "blocked_event st ev p = Inr st0"
      "st' = st0\<lparr>a_state := the_str (Some (pe_new_state ev)), a_created_at_ms := t\<rparr>"
    | (o) st0 where "pe_type ev = PStr ''payment_attempt_orphaned''" "orphaned_event st ev p = Inr st0"
      "st' = st0\<lparr>a_state := the_str (Some (pe_new_state ev)), a_created_at_ms := t\<rparr>"
    | (k) st0 where "pe_type ev = PStr ''payment_attempt_orphan_reconciled''" "reconciled_event now st ev p = Inr st0"
      "st' = st0\<lparr>a_state := the_str (Some (pe_new_state ev)), a_created_at_ms := t\<rparr>"
    using x by (auto simp: reject_def bindR_Inr_iff split: if_splits)
  then show ?thesis
  proof cases
    case c
    from c(2) show ?thesis by (rule claimed_eventE) (use c f in \<open>auto simp: defs intro!: claim take_over\<close>)
  next
    case r
    from r(2) show ?thesis by (rule retry_eventE) (use r f in \<open>auto simp: defs intro!: retry\<close>)
  next
    case s
    from s(2) show ?thesis by (rule settled_eventE) (use s f in \<open>auto simp: defs intro!: settle\<close>)
  next
    case b
    from b(2) show ?thesis by (rule blocked_eventE) (use b f in \<open>auto simp: defs intro!: block\<close>)
  next
    case o
    from o(2) show ?thesis by (rule orphaned_eventE) (use o f in \<open>auto simp: defs intro!: orphan\<close>)
  next
    case k
    from k(2) show ?thesis by (rule reconciled_eventE) (use k f in \<open>auto simp: defs intro!: reconcile\<close>)
  qed
qed

lemma path_Cons: "payment_path ok y ls z \<Longrightarrow> payment_step ok x l y \<Longrightarrow> payment_path ok x (l # ls) z"
proof (induction rule: payment_path.induct)
  case (stay y)
  then show ?case using move [OF payment_path.stay, of ok x l y] by simp
next
  case (move y ls w l' z)
  then show ?case using payment_path.move [of ok x "l # ls" w l' z] by simp
qed

lemma followed_events:
  assumes "attempt_events n now i prev st events = Inr st'" "follows st v"
  shows "follows st' (foldl project_event v events) \<and> a_intent st' = a_intent st \<and> a_attempt_id st' = a_attempt_id st
    \<and> (\<exists>labels. map event_action events = map Some labels \<and> sorted (map fst labels) \<and> (\<forall>l \<in> set labels. a_created_at_ms st \<le> fst l)
        \<and> payment_path (pays now (a_intent st) (a_attempt_id st)) (view_phase v) labels (view_phase (foldl project_event v events)))"
  using assms
proof (induction events arbitrary: i prev st v)
  case Nil
  then show ?case by (auto intro: stay)
next
  case (Cons raw rest)
  obtain ev p t st1 where m: "meta_ok n i (Some prev) (a_created_at_ms st) raw ev p t" and x: "next_event now st ev p t = Inr st1"
    and r: "attempt_events n now (Suc i) raw st1 rest = Inr st'"
    using Cons.prems(1) by (auto simp: bindR_Inr_iff event_meta_iff)
  obtain l where s: "follows st1 (project_event v raw)" "a_created_at_ms st1 = t" "event_action raw = Some (t, l)"
    "payment_step (pays now (a_intent st) (a_attempt_id st)) (view_phase v) (t, l) (view_phase (project_event v raw))"
    "a_intent st1 = a_intent st" "a_attempt_id st1 = a_attempt_id st"
    using followed_step [OF Cons.prems(2) m x] by blast
  have t: "a_created_at_ms st \<le> t" using m by (auto simp: meta_ok_def)
  obtain labels where ih: "follows st' (foldl project_event (project_event v raw) rest)" "a_intent st' = a_intent st" "a_attempt_id st' = a_attempt_id st"
    "map event_action rest = map Some labels" "sorted (map fst labels)" "\<forall>l \<in> set labels. t \<le> fst l"
    "payment_path (pays now (a_intent st) (a_attempt_id st)) (view_phase (project_event v raw)) labels (view_phase (foldl project_event (project_event v raw) rest))"
    using Cons.IH [OF r s(1)] s(2,5,6) by auto
  have "payment_path (pays now (a_intent st) (a_attempt_id st)) (view_phase v) ((t, l) # labels) (view_phase (foldl project_event v (raw # rest)))"
    using path_Cons [OF ih(7) s(4)] by simp
  moreover have "map event_action (raw # rest) = map Some ((t, l) # labels)" "sorted (map fst ((t, l) # labels))"
    "\<forall>l' \<in> set ((t, l) # labels). a_created_at_ms st \<le> fst l'" using ih s(3) t by force+
  ultimately show ?case using ih(1-3) unfolding foldl.simps by blast
qed

lemma created_eventE:
  assumes "created_event ev p t = Inr st"
  obtains "pe_type ev = PStr ''payment_attempt_created''" "dget p ''adapter_id'' = Some (PStr adapter_x402_testnet)"
    "intent_from_dict (dget_or p ''intent'' PNone) = Inr (a_intent st)" "settlement_idempotency_key (a_intent st) = Inr (a_attempt_id st)"
    "pe_attempt_id ev = PStr (a_attempt_id st)" "pe_actor_did ev = PStr (a_actor_did st)" "a_actor_did st = i_payer_did (a_intent st)" "a_actor_did st \<noteq> []"
    "a_state st = ''pending''" "a_lease_id st = []" "a_lease_expires_at_ms st = 0" "a_next_attempt_at_ms st = 0" "a_orphan_evidence_digest st = []" "a_created_at_ms st = t"
  using assms by (auto simp: created_event_def reject_def bindR_Inr_iff split: if_splits)

lemma intent_from_dictD: "intent_from_dict v = Inr i \<Longrightarrow> (\<exists>d. v = PDict d) \<and> intent_validate i = Inr ()"
  by (cases v) (auto simp: intent_from_dict_def reject_def Let_def split: if_splits sum.splits)

lemma created_followed:
  assumes "meta_ok n 0 None 0 raw ev p t" "created_event ev p t = Inr st"
  shows "follows st (created_view raw) \<and> view_phase (created_view raw) = Pending 0"
proof -
  have ev: "pay_event_from_dict (dict_of raw) = ev" "pe_payload ev = PDict p" using assms(1) by (auto simp: meta_ok_def)
  from assms(2) show ?thesis
  proof (rule created_eventE)
    assume c: "dget p ''adapter_id'' = Some (PStr adapter_x402_testnet)"
      "intent_from_dict (dget_or p ''intent'' PNone) = Inr (a_intent st)"
      "pe_attempt_id ev = PStr (a_attempt_id st)" "pe_actor_did ev = PStr (a_actor_did st)"
      "a_state st = ''pending''" "a_lease_id st = []" "a_lease_expires_at_ms st = 0" "a_next_attempt_at_ms st = 0" "a_orphan_evidence_digest st = []"
    obtain d where d: "dget_or p ''intent'' PNone = PDict d" using intent_from_dictD [OF c(2)] by blast
    show ?thesis using c d by (simp add: follows_def created_view_def ev Let_def dget_or_Some view_phase_def)
  qed
qed

section \<open>Verified chains\<close>

definition run_of :: "nacl \<Rightarrow> int \<Rightarrow> pyval list \<Rightarrow> attempt_state \<Rightarrow> attempt_state \<Rightarrow> bool" where
  "run_of n now events st0 st \<longleftrightarrow> (\<exists>raw rest ev p t. events = raw # rest \<and> meta_ok n 0 None 0 raw ev p t \<and> created_event ev p t = Inr st0
     \<and> attempt_events n now 1 raw st0 rest = Inr st)"

lemma verified_run:
  assumes "verify_payment_attempt n now events = Inr (True, m)"
  obtains st0 st where "run_of n now events st0 st"
proof -
  obtain st where r: "attempt_replay n now events = Inr st" using assms by (auto simp: verify_payment_attempt_def split: sum.splits if_splits)
  then obtain raw rest where e: "events = raw # rest" by (cases events) (auto simp: attempt_replay_def reject_def)
  obtain bs where bs: "canonical_json (PDict (obj [(''events'', PList events)])) = Inr bs"
    using r e by (auto simp: attempt_replay_def reject_def split: if_splits sum.splits)
  show thesis using r e bs that
    by (auto simp: attempt_replay_def reject_def run_of_def bindR_Inr_iff event_meta_iff [symmetric] split: if_splits)
qed

lemma run_refines:
  assumes "run_of n now events st0 st"
  obtains labels where "follows st (project_verified events)" "map event_action (tl events) = map Some labels" "sorted (map fst labels)"
    "payment_path (pays now (a_intent st) (a_attempt_id st)) (Pending 0) labels (view_phase (project_verified events))"
    "settlement_idempotency_key (a_intent st) = Inr (a_attempt_id st)" "a_actor_did st = i_payer_did (a_intent st)" "a_actor_did st \<noteq> []"
proof -
  obtain raw rest ev p t where r: "events = raw # rest" "meta_ok n 0 None 0 raw ev p t" "created_event ev p t = Inr st0" "attempt_events n now 1 raw st0 rest = Inr st"
    using assms by (auto simp: run_of_def)
  have c: "follows st0 (created_view raw)" "view_phase (created_view raw) = Pending 0" using created_followed [OF r(2,3)] by auto
  have k: "settlement_idempotency_key (a_intent st0) = Inr (a_attempt_id st0)" "a_actor_did st0 = i_payer_did (a_intent st0)" "a_actor_did st0 \<noteq> []"
    using r(3) by (auto elim: created_eventE)
  note f = followed_events [OF r(4) c(1)]
  have actor: "a_actor_did st = a_actor_did st0"
  proof -
    have "v_actor_did (project_event v x) = v_actor_did v" for v x by (simp add: project_event_def Let_def)
    then have "v_actor_did (foldl project_event v xs) = v_actor_did v" for v xs by (induction xs arbitrary: v) auto
    then show ?thesis using f c(1) by (auto simp: follows_def)
  qed
  show thesis using f c(2) k actor that by (auto simp: r(1) project_verified_def)
qed

text \<open>C17. A verified payment attempt is a run of the payment lifecycle: its first event binds the intent, whose idempotency key is the attempt's identifier and whose
  payer is its actor; the later events, in order of time, are steps of the abstract lifecycle (claim, retry, settle, block, orphan, reconcile) that starts
  with a payment due at once, every settlement on the way pays the intent under that key, and the projected view is the phase the run ends in.\<close>

theorem payment_attempt_refines:
  assumes "verify_payment_attempt n now events = Inr (True, m)"
  shows "\<exists>intent key labels. intent_from_dict (PDict (v_intent (project_verified events))) = Inr intent \<and> settlement_idempotency_key intent = Inr key
     \<and> v_attempt_id (project_verified events) = PStr key \<and> v_actor_did (project_verified events) = PStr (i_payer_did intent)
     \<and> map event_action (tl events) = map Some labels \<and> sorted (map fst labels)
     \<and> payment_path (pays now intent key) (Pending 0) labels (view_phase (project_verified events))"
proof -
  obtain st0 st where "run_of n now events st0 st" using assms by (rule verified_run)
  then show ?thesis by (rule run_refines) (auto simp: follows_def)
qed

section \<open>Paid once, and the agreed sum\<close>

definition settles :: "payment_action \<Rightarrow> bool" where
  "settles a = (case a of Settle _ _ \<Rightarrow> True | Reconcile _ _ \<Rightarrow> True | _ \<Rightarrow> False)"

definition is_settlement :: "pyval \<Rightarrow> bool" where
  "is_settlement raw = (case event_action raw of Some (_, a) \<Rightarrow> settles a | None \<Rightarrow> False)"

lemma unsettled_path: "payment_path ok x ls y \<Longrightarrow> (\<And>s. y \<noteq> Settled s) \<Longrightarrow> \<forall>l \<in> set ls. \<not> settles (snd l)"
proof (induction rule: payment_path.induct)
  case (move x ls y l z)
  from move.hyps(2) show ?case using move by cases (auto simp: settles_def)
qed simp

lemma settled_path:
  assumes "payment_path ok (Pending d) ls (Settled s)"
  shows "ok s \<and> (\<exists>ls' l. ls = ls' @ [l] \<and> settles (snd l) \<and> (\<forall>l \<in> set ls'. \<not> settles (snd l)))"
  using assms
proof (cases rule: payment_path.cases)
  case (move ls' y l)
  from move(3) show ?thesis using move unsettled_path [OF move(2)] by cases (auto simp: settles_def)
qed

lemma pays_agreed:
  assumes "pays now i key s" "intent_validate i = Inr ()" "i_payer_did i \<noteq> []"
  shows "\<exists>a pr. i_amount_minor i = PInt a \<and> 0 < a \<and> dget s ''amount_minor'' = Some (PInt a) \<and> dget s ''currency'' = Some (PStr (i_currency i))
     \<and> dget s ''payee_did'' = Some (PStr (i_payee_did i)) \<and> dget s ''payer_did'' = Some (PStr (i_payer_did i))
     \<and> dget s ''adapter_id'' = Some (PStr adapter_x402_testnet) \<and> nonempty_str (dget s ''tx_ref'') \<and> safe_str (dget s ''network'') \<in> set x402_test_networks
     \<and> dget s ''proof'' = Some (PDict pr) \<and> dget pr ''idempotency_key'' = Some (PStr key)"
proof -
  obtain pr where pr: "dget s ''proof'' = Some (PDict pr)" "dget pr ''idempotency_key'' = Some (PStr key)" using assms(1) by (auto simp: pays_def)
  obtain a where a: "i_amount_minor i = PInt a" using assms(2)
    by (auto simp: intent_validate_def ensure_Inr_iff positive_amount_def Let_def split: pyval.splits)
  obtain m where v: "verify_settlement (PDict s) now a (i_currency i) (i_payee_did i) (i_payer_did i) = (True, m)"
    using assms(1) a by (cases "verify_settlement (PDict s) now a (i_currency i) (i_payee_did i) (i_payer_did i)") (auto simp: pays_def intent_amount_def)
  note t = verify_settlement_sound [OF v]
  have "dget s ''adapter_id'' \<noteq> Some (PStr adapter_manual)"
  proof
    assume manual: "dget s ''adapter_id'' = Some (PStr adapter_manual)"
    have known: "positive_amount (dget s ''amount_minor'') = Some a" "dget s ''payer_did'' = Some (PStr (i_payer_did i))" "safe_str (dget s ''adapter_id'') = adapter_manual"
      using t manual assms(3) by (auto simp: positive_amount_def safe_str_def)
    have "adapter_manual \<noteq> adapter_x402_testnet" by (simp add: adapter_manual_def adapter_x402_testnet_def)
    then have "dget s ''proof'' = Some (PDict [])"
      using v [unfolded verify_settlement_def pyval.case Let_def known option.case] by (auto split: if_splits option.splits)
    then show False using pr by simp
  qed
  then show ?thesis using t a pr assms(3) by simp
qed

lemma one_marked: "ls = ls' @ [l] \<Longrightarrow> P l \<Longrightarrow> \<forall>x \<in> set ls'. \<not> P x \<Longrightarrow> length (filter P ls) = 1"
  by (auto simp: filter_empty_conv)

lemma payment_keys:
  assumes "run_of n now events st0 st"
  shows "intent_validate (a_intent st) = Inr ()" "event_action (hd events) = None" "events \<noteq> []"
proof -
  obtain raw rest ev p t where r: "events = raw # rest" "meta_ok n 0 None 0 raw ev p t" "created_event ev p t = Inr st0"
    using assms by (auto simp: run_of_def)
  have "pay_event_from_dict (dict_of raw) = ev" using r(2) by (auto simp: meta_ok_def)
  moreover have "pe_type ev = PStr ''payment_attempt_created''" using r(3) by (rule created_eventE)
  ultimately show "event_action (hd events) = None" by (simp add: event_action_def r(1) Let_def)
  show "intent_validate (a_intent st) = Inr ()" using assms
    by (rule run_refines) (auto simp: settlement_idempotency_key_def bindR_Inr_iff)
  show "events \<noteq> []" by (simp add: r(1))
qed

text \<open>C18. Settled once, for the agreed sum: a verified attempt whose state is settled holds exactly one settlement event, its last, and the settlement in
  the view is a payment on an x402 test network of the intent's amount and currency to the intent's payee, by the identity that signed the attempt, with a proof that
  carries the attempt's own idempotency key.\<close>

theorem settled_attempt_pays_once:
  assumes "verify_payment_attempt n now events = Inr (True, m)" "v_state (project_verified events) = PStr ''settled''"
  shows "\<exists>i key a s pr. intent_from_dict (PDict (v_intent (project_verified events))) = Inr i \<and> v_attempt_id (project_verified events) = PStr key
     \<and> settlement_idempotency_key i = Inr key \<and> s = v_settlement (project_verified events)
     \<and> i_amount_minor i = PInt a \<and> dget s ''amount_minor'' = Some (PInt a) \<and> dget s ''currency'' = Some (PStr (i_currency i))
     \<and> dget s ''payee_did'' = Some (PStr (i_payee_did i)) \<and> dget s ''payer_did'' = Some (v_actor_did (project_verified events))
     \<and> dget s ''adapter_id'' = Some (PStr adapter_x402_testnet) \<and> safe_str (dget s ''network'') \<in> set x402_test_networks
     \<and> dget s ''proof'' = Some (PDict pr) \<and> dget pr ''idempotency_key'' = Some (PStr key)
     \<and> length (filter is_settlement events) = 1 \<and> is_settlement (List.last events)"
proof -
  obtain st0 st where run: "run_of n now events st0 st" using assms(1) by (rule verified_run)
  from run obtain labels where r: "follows st (project_verified events)" "map event_action (tl events) = map Some labels"
    "payment_path (pays now (a_intent st) (a_attempt_id st)) (Pending 0) labels (view_phase (project_verified events))"
    "settlement_idempotency_key (a_intent st) = Inr (a_attempt_id st)" "a_actor_did st = i_payer_did (a_intent st)" "a_actor_did st \<noteq> []"
    by (rule run_refines)
  note k = payment_keys [OF run]
  let ?s = "v_settlement (project_verified events)"
  obtain labels' l where l: "pays now (a_intent st) (a_attempt_id st) ?s" "labels = labels' @ [l]" "settles (snd l)" "\<forall>l \<in> set labels'. \<not> settles (snd l)"
  proof -
    have "payment_path (pays now (a_intent st) (a_attempt_id st)) (Pending 0) labels (Settled ?s)" using r(3) assms(2) by (simp add: view_phase_def)
    from settled_path [OF this] show thesis using that by blast
  qed
  obtain rest x where rest: "tl events = rest @ [x]" "map event_action rest = map Some labels'" "event_action x = Some l"
  proof -
    have "tl events \<noteq> []" using r(2) l(2) by auto
    then show thesis using that [of "butlast (tl events)" "List.last (tl events)"] r(2) l(2)
      by (metis append_butlast_last_id butlast_snoc last_map last_snoc list.map_disc_iff map_butlast map_append snoc_eq_iff_butlast)
  qed
  have ev: "events = (hd events # rest) @ [x]" using rest(1) k(3) by (metis append_Cons list.collapse)
  have "is_settlement x" using rest(3) l(3) by (cases l) (simp add: is_settlement_def)
  moreover have "\<forall>y \<in> set (hd events # rest). \<not> is_settlement y"
  proof
    fix y assume y: "y \<in> set (hd events # rest)"
    show "\<not> is_settlement y"
    proof (cases "y \<in> set rest")
      case True
      then have "event_action y \<in> set (map Some labels')" using rest(2) by (metis imageI list.set_map)
      then show ?thesis using l(4) by (auto simp: is_settlement_def)
    next
      case False
      then show ?thesis using y k(2) by (simp add: is_settlement_def)
    qed
  qed
  ultimately have "length (filter is_settlement events) = 1" "is_settlement (List.last events)"
    using one_marked [OF ev] ev by (auto, metis last_snoc)
  then show ?thesis using pays_agreed [OF l(1) k(1)] r by (auto simp: follows_def)
qed

section \<open>Leases\<close>

definition ends :: "string \<Rightarrow> payment_action \<Rightarrow> bool" where
  "ends l a = (case a of Retry l' _ \<Rightarrow> l' = l | Settle l' _ \<Rightarrow> l' = l | Block l' \<Rightarrow> l' = l | Orphan l' _ \<Rightarrow> l' = l | _ \<Rightarrow> False)"

lemma path_stages:
  assumes "payment_path ok x ls y"
  shows "\<exists>ps. length ps = Suc (length ls) \<and> ps ! 0 = x \<and> (\<forall>i < length ls. payment_step ok (ps ! i) (ls ! i) (ps ! Suc i))
    \<and> ps ! length ls = y"
  using assms
proof (induction rule: payment_path.induct)
  case (stay x)
  then show ?case by (intro exI [of _ "[x]"]) simp
next
  case (move x ls y l z)
  then obtain ps where "length ps = Suc (length ls)" "ps ! 0 = x" "\<forall>i < length ls. payment_step ok (ps ! i) (ls ! i) (ps ! Suc i)" "ps ! length ls = y" by blast
  then show ?case using move.hyps(2) by (intro exI [of _ "ps @ [z]"]) (auto simp: nth_append less_Suc_eq)
qed

lemma claim_leads: "payment_step ok x (t, Claim l e) y \<Longrightarrow> y = Inflight l e"
  by (erule payment_stepE) auto

lemma after_claim:
  assumes "payment_step ok (Inflight l e) (t, a) y"
  shows "(\<exists>l' e'. a = Claim l' e' \<and> e \<le> t) \<or> ends l a"
  using assms by (rule payment_stepE) (auto simp: ends_def)

lemma end_follows_claim:
  assumes "payment_step ok x (t, a) y" "ends l a"
  shows "\<exists>e. x = Inflight l e"
  using assms by (cases rule: payment_step.cases) (auto simp: ends_def)

lemma inflight_from: "payment_step ok x (t, a) (Inflight l e) \<Longrightarrow> a = Claim l e"
  by (erule payment_stepE) auto

lemma path_leases:
  assumes p: "payment_path ok (Pending d) ls y" and i: "i < length ls"
  shows "(\<exists>j l e. i = Suc j \<and> snd (ls ! j) = Claim l e \<and> (ends l (snd (ls ! i)) \<or> (\<exists>l' e'. snd (ls ! i) = Claim l' e') \<and> e \<le> fst (ls ! i)))
     \<or> (\<forall>l. \<not> ends l (snd (ls ! i))) \<and> (\<forall>j l e. i = Suc j \<longrightarrow> snd (ls ! j) \<noteq> Claim l e)"
proof -
  obtain ps where ps: "ps ! 0 = Pending d" "\<And>i. i < length ls \<Longrightarrow> payment_step ok (ps ! i) (ls ! i) (ps ! Suc i)"
    using path_stages [OF p] by blast
  have st: "payment_step ok (ps ! i) (fst (ls ! i), snd (ls ! i)) (ps ! Suc i)" using ps(2) [OF i] by simp
  show ?thesis
  proof (cases "\<exists>l e. ps ! i = Inflight l e")
    case True
    then obtain l e where le: "ps ! i = Inflight l e" by blast
    then obtain j where j: "i = Suc j" using ps(1) by (cases i) auto
    have "payment_step ok (ps ! j) (fst (ls ! j), snd (ls ! j)) (ps ! i)" using ps(2) [of j] i j by simp
    then have "snd (ls ! j) = Claim l e" using inflight_from le by metis
    then show ?thesis using after_claim st le j by metis
  next
    case False
    then have "\<not> ends l (snd (ls ! i))" for l using end_follows_claim [OF st] by blast
    moreover have "snd (ls ! j) \<noteq> Claim l e" if "i = Suc j" for j l e
    proof
      assume "snd (ls ! j) = Claim l e"
      then have "payment_step ok (ps ! j) (fst (ls ! j), Claim l e) (ps ! Suc j)" using ps(2) [of j] i that by (metis Suc_lessD prod.collapse)
      then show False using claim_leads False that by blast
    qed
    ultimately show ?thesis by blast
  qed
qed

lemma run_actions:
  assumes "map event_action (tl events) = map Some labels" "events \<noteq> []" "event_action (hd events) = None" "i < length events" "event_action (events ! i) = Some x"
  shows "\<exists>k. i = Suc k \<and> k < length labels \<and> labels ! k = x"
proof -
  obtain k where k: "i = Suc k" using assms(2,3,5) by (cases i) (auto simp: hd_conv_nth)
  have len: "length (tl events) = length labels" using arg_cong [OF assms(1), of length] by simp
  then have "k < length labels" using assms(4) k by simp
  moreover from this have "event_action (tl events ! k) = Some (labels ! k)" using assms(1) len by (metis nth_map)
  ultimately show ?thesis using assms(4,5) k len by (simp add: nth_tl)
qed

text \<open>C19. Leases exclude: in a verified attempt the event right before the outcome of a claim (retry, settlement, block or
  orphan report) is the claim itself, with the same lease; and of two claims the later one either comes after the earlier lease has
  expired, or after that lease's own outcome.\<close>

theorem payment_lease_exclusive:
  assumes "verify_payment_attempt n now events = Inr (True, m)" "i < length events"
  shows "(event_action (events ! i) = Some (t, a) \<longrightarrow> ends l a \<longrightarrow> (\<exists>s e. 0 < i \<and> event_action (events ! (i - 1)) = Some (s, Claim l e)))
    \<and> (event_action (events ! i) = Some (t', Claim l' e') \<longrightarrow> j < i \<longrightarrow> event_action (events ! j) = Some (s', Claim l'' e'') \<longrightarrow>
         e'' \<le> t' \<or> (\<exists>k b. j < k \<and> k < i \<and> event_action (events ! k) = Some b \<and> ends l'' (snd b)))"
proof -
  obtain st0 st where run: "run_of n now events st0 st" using assms(1) by (rule verified_run)
  from run obtain labels where r: "map event_action (tl events) = map Some labels" "sorted (map fst labels)"
    "payment_path (pays now (a_intent st) (a_attempt_id st)) (Pending 0) labels (view_phase (project_verified events))"
    by (rule run_refines)
  note k = payment_keys [OF run] and leases = path_leases [OF r(3)]
  note act = run_actions [OF r(1) k(3,2)]
  have taken: "event_action (events ! Suc q) = Some (labels ! q)" if "q < length labels" for q
    using that arg_cong [OF r(1), of length] r(1) by (metis length_map nth_map nth_tl)
  have len: "length events = Suc (length labels)" using arg_cong [OF r(1), of length] k(3) by (cases events) auto
  have "\<exists>s e. 0 < i \<and> event_action (events ! (i - 1)) = Some (s, Claim l e)" if a: "event_action (events ! i) = Some (t, a)" "ends l a"
  proof -
    obtain q where q: "i = Suc q" "q < length labels" "labels ! q = (t, a)" using act [OF assms(2) a(1)] by blast
    obtain p l0 e where p: "q = Suc p" "snd (labels ! p) = Claim l0 e" "ends l0 a \<or> (\<exists>l' e'. a = Claim l' e')" using leases [OF q(2)] q(3) a(2) by auto
    have "l0 = l" using p(3) a(2) by (auto simp: ends_def split: payment_action.splits)
    moreover have "event_action (events ! (i - 1)) = Some (labels ! p)" using taken [of p] q p(1) by simp
    ultimately show ?thesis using p(2) q(1) by (cases "labels ! p") auto
  qed
  moreover have "e'' \<le> t' \<or> (\<exists>k b. j < k \<and> k < i \<and> event_action (events ! k) = Some b \<and> ends l'' (snd b))"
    if a: "event_action (events ! i) = Some (t', Claim l' e')" "j < i" "event_action (events ! j) = Some (s', Claim l'' e'')"
  proof -
    obtain q where q: "i = Suc q" "q < length labels" "labels ! q = (t', Claim l' e')" using act [OF assms(2) a(1)] by blast
    obtain p where p: "j = Suc p" "p < length labels" "labels ! p = (s', Claim l'' e'')" using act [of j, OF _ a(3)] a(2) assms(2) by auto
    have sp: "Suc p \<le> q" "Suc p < length labels" using p(1) q(1,2) a(2) by auto
    consider "ends l'' (snd (labels ! Suc p))" | "e'' \<le> fst (labels ! Suc p)" using leases [OF sp(2)] p(3) by auto
    then show ?thesis
    proof cases
      case 1
      then have "Suc p \<noteq> q" using q(3) by (auto simp: ends_def)
      then show ?thesis using 1 sp taken [OF sp(2)] p(1) q(1) by (metis Suc_leI le_neq_implies_less lessI Suc_mono)
    next
      case 2
      have "fst (labels ! Suc p) \<le> fst (labels ! q)" using sorted_nth_mono [OF r(2), of "Suc p" q] sp q(2) by simp
      then show ?thesis using 2 q(3) by simp
    qed
  qed
  ultimately show ?thesis by blast
qed

section \<open>The head fixes the history\<close>

definition event_bytes :: "pyval \<Rightarrow> bytes" where
  "event_bytes raw = projr (canonical_json raw)"

definition hash_of :: "pyval \<Rightarrow> string" where
  "hash_of raw = projr (payment_attempt_event_hash raw)"

definition good_event :: "pyval \<Rightarrow> bool" where
  "good_event raw \<longleftrightarrow> keys_once raw \<and> (\<exists>bs. canonical_json raw = Inr bs)"

definition raw_field :: "pyval \<Rightarrow> string \<Rightarrow> pyval" where
  "raw_field raw k = dget_or (dict_of raw) k PNone"

definition num_pos :: "pyval \<Rightarrow> int" where
  "num_pos v = (case v of PInt i \<Rightarrow> i | PBool b \<Rightarrow> of_bool b | _ \<Rightarrow> - 1)"

lemma canon_cases [simp]: "canon v = PStr s \<longleftrightarrow> v = PStr s" "canon v = PInt i \<longleftrightarrow> v = PInt i" "canon v = PBool b \<longleftrightarrow> v = PBool b"
  by (cases v; simp)+

lemma good_eventD:
  assumes "good_event x"
  obtains d where "x = PDict d" "wf_json (PDict d)" "canonical_json x = Inr (event_bytes x)" "hash_of x = ''sha256:'' @ sha256_hex (event_bytes x)"
proof -
  obtain bs where bs: "canonical_json x = Inr bs" "keys_once x" using assms by (auto simp: good_event_def)
  have b: "event_bytes x = bs" "hash_of x = ''sha256:'' @ sha256_hex bs" using bs(1) by (simp_all add: event_bytes_def hash_of_def payment_attempt_event_hash_def)
  obtain d where "x = PDict d" "wf_json x" using canonical_json_Inr [OF bs] by blast
  then show thesis using that [of d] b bs(1) by simp
qed

lemma wf_fields: "wf_json (PDict d) \<Longrightarrow> dget d k = Some v \<Longrightarrow> wf_json v"
  by (auto simp: wf_json_pairs_iff dget_def dest: map_of_SomeD)

lemma same_fields:
  assumes "good_event x" "good_event y" "canon x = canon y"
  shows "canon (raw_field x k) = canon (raw_field y k)"
proof -
  obtain d where d: "x = PDict d" "wf_json (PDict d)" using assms(1) by (rule good_eventD)
  obtain e where e: "y = PDict e" "wf_json (PDict e)" using assms(2) by (rule good_eventD)
  obtain f where f: "canon (PDict d) = PDict f" by simp
  have "map_option canon (dget d k) = map_option canon (dget e k)"
    using dget_canon [OF d(2) f, of k] dget_canon [OF e(2), of f k] assms(3) f d(1) e(1) by metis
  then show ?thesis by (auto simp: d e raw_field_def dget_or_def split: option.splits)
qed

definition same_event :: "pyval \<Rightarrow> pyval \<Rightarrow> bool" where
  "same_event x y \<longleftrightarrow> good_event x \<and> good_event y \<and> canon x = canon y"

definition raw_prev :: "pyval \<Rightarrow> string" where
  "raw_prev raw = as_str (raw_field raw ''prev_event_hash'')"

definition raw_pos :: "pyval \<Rightarrow> int" where
  "raw_pos raw = num_pos (raw_field raw ''seq'')"

lemma canon_reads: "canon v = canon w \<Longrightarrow> as_str v = as_str w" "canon v = canon w \<Longrightarrow> num_pos v = num_pos w"
  by (cases v; cases w; simp add: as_str_def num_pos_def)+

interpretation attempt: hash_chain good_event hash_of raw_prev raw_pos same_event "\<lambda>x y. sha_collision (event_bytes x) (event_bytes y)" "[]"
proof unfold_locales
  fix x y assume g: "good_event x" "good_event y" and h: "hash_of x = hash_of y"
  obtain d where d: "x = PDict d" "wf_json (PDict d)" "canonical_json x = Inr (event_bytes x)" "hash_of x = ''sha256:'' @ sha256_hex (event_bytes x)"
    using g(1) by (rule good_eventD)
  obtain e where e: "y = PDict e" "wf_json (PDict e)" "canonical_json y = Inr (event_bytes y)" "hash_of y = ''sha256:'' @ sha256_hex (event_bytes y)"
    using g(2) by (rule good_eventD)
  have "event_bytes x = event_bytes y \<or> sha_collision (event_bytes x) (event_bytes y)" using h d(4) e(4) by (simp add: sha256_hex_eq_iff)
  moreover have "event_bytes x = event_bytes y \<longleftrightarrow> canon x = canon y"
  proof -
    have "event_bytes x = utf8 (json_dumps False x)" "event_bytes y = utf8 (json_dumps False y)"
      using canonical_json_wf [OF d(2)] canonical_json_wf [OF e(2)] d(1,3) e(1,3) by (metis Inr_inject)+
    then show ?thesis using d(1,2) e(1,2) by (simp add: json_dumps_inject)
  qed
  ultimately show "same_event x y \<or> sha_collision (event_bytes x) (event_bytes y)" using g by (auto simp: same_event_def)
qed (auto simp: same_event_def raw_prev_def raw_pos_def intro!: canon_reads same_fields)

lemma meta_good:
  assumes "meta_ok n i prev t0 raw ev p t" "keys_once raw"
  shows "good_event raw" "raw_pos raw = int i" "prev_hash prev = Inr (raw_prev raw)"
proof -
  obtain d h where d: "raw = PDict d" "ev = pay_event_from_dict d" "\<exists>bs. canonical_json raw = Inr bs" "py_eq (pe_seq ev) (PInt (int i))"
    "prev_hash prev = Inr h" "pe_prev_event_hash ev = PStr h" using assms(1) unfolding meta_ok_def by blast
  show g: "good_event raw" using d(3) assms(2) by (simp add: good_event_def)
  have s: "raw_field raw ''seq'' = pe_seq ev" "raw_field raw ''prev_event_hash'' = pe_prev_event_hash ev"
    by (simp_all add: d(1,2) raw_field_def pay_event_from_dict_def Let_def)
  have "wf_json (PDict d)" using g d(1) by (auto elim: good_eventD simp del: wf_json.simps)
  then have "wf_json (pe_seq ev)" using wf_fields [of d "''seq''"] by (auto simp: s(1) [symmetric] d(1) raw_field_def dget_or_def split: option.splits)
  then show "raw_pos raw = int i" using d(4) by (cases "pe_seq ev") (auto simp: raw_pos_def s num_pos_def py_eq_PInt num_of_def)
  show "prev_hash prev = Inr (raw_prev raw)" using d(5,6) by (simp add: raw_prev_def s)
qed

lemma events_linked:
  assumes "attempt_events n now i prev st events = Inr st'" "list_all keys_once events" "good_event prev"
  shows "attempt.linked (hash_of prev) (int i) events"
  using assms
proof (induction events arbitrary: i prev st)
  case (Cons raw rest)
  obtain ev p t st1 where m: "meta_ok n i (Some prev) (a_created_at_ms st) raw ev p t" and r: "attempt_events n now (Suc i) raw st1 rest = Inr st'"
    using Cons.prems(1) by (auto simp: bindR_Inr_iff event_meta_iff)
  note g = meta_good [OF m] Cons.prems(2)
  have "raw_prev raw = hash_of prev" using g by (simp add: prev_hash_def hash_of_def)
  then show ?case using g Cons.IH [OF r] by (simp add: algebra_simps)
qed simp

lemma verified_linked:
  assumes "verify_payment_attempt n now events = Inr (True, m)" "list_all keys_once events"
  shows "attempt.linked [] 0 events" "events \<noteq> []"
proof -
  obtain st0 st where "run_of n now events st0 st" using assms(1) by (rule verified_run)
  then obtain raw rest ev p t where r: "events = raw # rest" "meta_ok n 0 None 0 raw ev p t" "attempt_events n now 1 raw st0 rest = Inr st"
    by (auto simp: run_of_def)
  note g = meta_good [OF r(2)] assms(2)
  have "attempt.linked (hash_of raw) (int 1) rest" using events_linked [OF r(3)] g r(1) by simp
  then show "attempt.linked [] 0 events" using g r(1) by (simp add: prev_hash_def)
  show "events \<noteq> []" by (simp add: r(1))
qed

lemma head_commits:
  assumes "verify_payment_attempt n now xs = Inr (True, m)" "verify_payment_attempt n now' (ys @ zs) = Inr (True, m')" "ys \<noteq> []"
    "list_all keys_once xs" "list_all keys_once (ys @ zs)" "payment_attempt_event_hash (List.last xs) = payment_attempt_event_hash (List.last ys)"
  shows "list_all2 (\<lambda>x y. canon x = canon y) xs ys \<or> (\<exists>x \<in> set xs. \<exists>y \<in> set ys. sha_collision (event_bytes x) (event_bytes y))"
proof -
  have h: "hash_of (List.last xs) = hash_of (List.last ys)" using assms(6) by (simp add: hash_of_def)
  from attempt.history_prefix [OF verified_linked(1) [OF assms(1,4)] verified_linked(1) [OF assms(2,5)] verified_linked(2) [OF assms(1,4)] assms(3) h]
  show ?thesis by (auto simp: same_event_def elim: list_all2_mono)
qed

end
