(* ===== verification/Json_Indent.thy ===== *)
theory Json_Indent
  imports Json_Size
begin

text \<open>
  The text that \<open>atomic_write_json\<close> of \<open>nth_dao/util/io.py\<close> writes, \<open>json.dumps(data, indent=2, ensure_ascii=False)\<close>, and its
  size in UTF-8. The outbox and the payment attempt store write files in this form and read them back only up to a limit.
\<close>

section \<open>The text\<close>

text \<open>\<open>json.dumps(v, indent=2)\<close>.\<close>

definition new_line :: "nat \<Rightarrow> string" where
  "new_line k = char_of (10 :: nat) # replicate (2 * k) (CHR '' '')"

function (sequential) text_indent :: "nat \<Rightarrow> pyval \<Rightarrow> string"
  and text_elems :: "nat \<Rightarrow> pyval list \<Rightarrow> string"
  and text_members :: "nat \<Rightarrow> pydict \<Rightarrow> string"
where
  "text_indent k (PList xs) = (case xs of [] \<Rightarrow> ''[]'' | _ \<Rightarrow> ''['' @ new_line (Suc k) @ text_elems (Suc k) xs @ new_line k @ '']'')"
| "text_indent k (PDict d) = (case d of [] \<Rightarrow> ''{}'' | _ \<Rightarrow> ''{'' @ new_line (Suc k) @ text_members (Suc k) d @ new_line k @ ''}'')"
| "text_indent k v = dump_raw False v"
| "text_elems k [] = []"
| "text_elems k (x # xs) = text_indent k x @ (case xs of [] \<Rightarrow> [] | _ \<Rightarrow> '','' @ new_line k @ text_elems k xs)"
| "text_members k [] = []"
| "text_members k ((x, v) # d) = quote False (key_text x) @ '': '' @ text_indent k v @ (case d of [] \<Rightarrow> [] | _ \<Rightarrow> '','' @ new_line k @ text_members k d)"
  by pat_completeness auto

termination
  by (relation "measure (\<lambda>x. case x of
        Inl (k, v) \<Rightarrow> size v
      | Inr (Inl (k, xs)) \<Rightarrow> size_list size xs
      | Inr (Inr (k, d)) \<Rightarrow> size_list (size_prod size size) d)") auto

section \<open>Its size in bytes\<close>

lemma utf8_append [simp]: "utf8 (s @ t) = utf8 s @ utf8 t"
  by (simp add: utf8_def)

lemma utf8_Nil [simp]: "utf8 [] = []"
  by (simp add: utf8_def)

lemma utf8_longer: "length s \<le> length (utf8 s)"
  by (induction s) (auto simp: utf8_def utf8_char_def Let_def)

lemma length_new_line [simp]: "length (new_line k) = 1 + 2 * k"
  by (simp add: new_line_def)

lemma length_utf8_ascii: "(\<And>c. c \<in> set s \<Longrightarrow> of_char c < (128 :: nat)) \<Longrightarrow> length (utf8 s) = length s"
  by (induction s) (simp_all add: utf8_Cons utf8_char_def Let_def)

lemma length_utf8_new_line [simp]: "length (utf8 (new_line k)) = 1 + 2 * k"
  by (subst length_utf8_ascii) (auto simp: new_line_def)

lemma length_utf8_int [simp]: "length (utf8 (int_str i)) = length (int_str i)"
proof (rule length_utf8_ascii)
  fix c assume "c \<in> set (int_str i)"
  then have "c = CHR ''-'' \<or> is_digit c" by (auto simp: int_str_def dest: nat_str_digits split: if_splits)
  then show "of_char c < (128 :: nat)" by (auto simp: is_digit_def)
qed

lemma length_utf8_esc: "length (utf8 (esc_char False c)) \<le> 6"
proof (cases "of_char c < (32 :: nat) \<or> of_char c \<in> {34, 92 :: nat}")
  case True
  then have c: "esc_char False c \<in> {[bslash, c], [bslash, CHR ''n''], [bslash, CHR ''r''], [bslash, CHR ''t''], [bslash, CHR ''f''], [bslash, CHR ''b''],
      bslash # CHR ''u'' # CHR ''0'' # CHR ''0'' # hex2 (of_char c)}" by (auto simp: esc_char_def Let_def)
  have "length (utf8 [x, y]) \<le> 6" for x y using length_utf8 [of "[x, y]"] by simp
  moreover have "length (utf8 (bslash # CHR ''u'' # CHR ''0'' # CHR ''0'' # hex2 (of_char c))) \<le> 6" if "of_char c < (32 :: nat)"
  proof -
    have "x \<in> set (hex2 (of_char c)) \<Longrightarrow> of_char x < (128 :: nat)" for x using that by (auto simp: hex2_def hex_char_def)
    then show ?thesis by (subst length_utf8_ascii) (auto simp: hex2_def bslash_def)
  qed
  ultimately show ?thesis using c True by (auto simp: esc_char_def Let_def split: if_splits)
next
  case False
  then have "esc_char False c = [c]" by (auto simp: esc_char_def Let_def)
  then show ?thesis using length_utf8 [of "[c]"] by simp
qed

lemma length_utf8_quote: "length (utf8 (quote False s)) \<le> 2 + 6 * length s"
proof -
  have "length (utf8 (concat (map (esc_char False) s))) \<le> 6 * length s"
  proof (induction s)
    case (Cons c s)
    then show ?case using length_utf8_esc [of c] by simp
  qed simp
  moreover have "utf8 (quote False s) = utf8_char dquote @ utf8 (concat (map (esc_char False) s)) @ utf8_char dquote" by (simp add: quote_def utf8_Cons)
  moreover have "length (utf8_char dquote) = 1" by (simp add: utf8_char_def dquote_def Let_def)
  ultimately show ?thesis by simp
qed

end
