(* ===== verification/Payment_Store.thy ===== *)
theory Payment_Store
  imports Payment_Chain Json_Indent
begin

text \<open>
  The store of \<open>commerce/payment_attempt.py\<close>: one JSON document per attempt and, beside it, a journal of signed head anchors. A write first
  appends a \<open>prepared\<close> anchor, then replaces the document, then appends a \<open>committed\<close> anchor; a document is readable only when its head is the last committed
  one or was prepared after it. The journal is modelled as bytes. Of the document file the model keeps what reading it gives (a text over
  the limit, nothing readable, or a JSON value): the code replaces it atomically. The external witness is an interface of the code; its operations are
  parameters. File-system errors are left out. Fresh operation and lease identifiers, the time stamp of a call and the wall clock (which only the settlement check
  reads) are arguments.
\<close>

section \<open>Anchors\<close>

record head_anchor =
  an_operation_id :: pyval
  an_phase :: pyval
  an_attempt_id :: pyval
  an_seq :: pyval
  an_head_hash :: pyval
  an_actor_did :: pyval
  an_created_at_ms :: pyval
  an_signature :: pyval

definition anchor_fields :: "string list" where
  "anchor_fields = [''operation_id'', ''phase'', ''attempt_id'', ''seq'', ''head_hash'', ''actor_did'', ''created_at_ms'', ''signature'']"

definition max_anchor_file_bytes :: nat where
  "max_anchor_file_bytes = 512 * 1024"

definition anchor_to_dict :: "head_anchor \<Rightarrow> pydict" where
  "anchor_to_dict a = obj [(''operation_id'', an_operation_id a), (''phase'', an_phase a), (''attempt_id'', an_attempt_id a), (''seq'', an_seq a),
     (''head_hash'', an_head_hash a), (''actor_did'', an_actor_did a), (''created_at_ms'', an_created_at_ms a), (''signature'', an_signature a)]"

definition anchor_signing_body :: "head_anchor \<Rightarrow> pydict" where
  "anchor_signing_body a = without_key ''signature'' (anchor_to_dict a)"

definition anchor_from_dict :: "pydict \<Rightarrow> head_anchor" where
  "anchor_from_dict d = (let g = (\<lambda>k. dget_or d k PNone) in
     \<lparr>an_operation_id = g ''operation_id'', an_phase = g ''phase'', an_attempt_id = g ''attempt_id'', an_seq = g ''seq'', an_head_hash = g ''head_hash'',
      an_actor_did = g ''actor_did'', an_created_at_ms = g ''created_at_ms'', an_signature = g ''signature''\<rparr>)"

definition sign_anchor :: "nacl \<Rightarrow> identity \<Rightarrow> head_anchor \<Rightarrow> head_anchor res" where
  "sign_anchor n actor anchor =
     bindR (as_did actor) (\<lambda>did.
     ensure (PStr did = an_actor_did anchor) PaymentAttemptRejected ''payment attempt anchor actor mismatch'' (
     bindR (canonical_json (PDict (anchor_signing_body anchor))) (\<lambda>bs.
     bindR (identity_sign n actor bs) (\<lambda>s. Inr (anchor\<lparr>an_signature := PStr (b64u_encode s)\<rparr>)))))"

text \<open>\<open>re.fullmatch\<close> raises on a value that is not text.\<close>

definition text_match :: "(string \<Rightarrow> bool) \<Rightarrow> pyval \<Rightarrow> bool res" where
  "text_match pattern v = (case v of PStr s \<Rightarrow> Inr (pattern s) | _ \<Rightarrow> raise TypeError ''expected string or bytes-like object'')"

definition positive_int :: "pyval \<Rightarrow> bool" where
  "positive_int v = (case strict_int v of Some i \<Rightarrow> 0 < i | None \<Rightarrow> False)"

definition anchor_metadata :: "head_anchor \<Rightarrow> bool res" where
  "anchor_metadata a =
     bindR (text_match lease_id_ok (an_operation_id a)) (\<lambda>op_ok.
     if \<not> op_ok then Inr False
     else if \<not> hashable (an_phase a) then raise TypeError ''unhashable type''
     else if an_phase a \<noteq> PStr ''prepared'' \<and> an_phase a \<noteq> PStr ''committed'' then Inr False
     else bindR (text_match attempt_id_ok (an_attempt_id a)) (\<lambda>id_ok.
     if \<not> id_ok then Inr False
     else case strict_int (an_seq a) of
       None \<Rightarrow> Inr False
     | Some seq \<Rightarrow>
         if seq < 0 then Inr False
         else bindR (text_match event_hash_ok (an_head_hash a)) (\<lambda>hash_ok.
              Inr (hash_ok \<and> is_did_key (an_actor_did a) \<and> positive_int (an_created_at_ms a)))))"

definition anchor_signature_ok :: "nacl \<Rightarrow> head_anchor \<Rightarrow> bool" where
  "anchor_signature_ok n a = (case an_signature a of
     PStr sg \<Rightarrow>
       (case bindR (b64u_decode sg) (\<lambda>s.
             ensure (length s = 64 \<and> b64u_encode s = sg) ValueError [] (
             bindR (decode_ed25519_did_key (as_str (an_actor_did a))) (\<lambda>pk.
             bindR (canonical_json (PDict (anchor_signing_body a))) (\<lambda>body. Inr (nacl_verify n pk body s))))) of
          Inr True \<Rightarrow> True
        | _ \<Rightarrow> False)
   | _ \<Rightarrow> False)"

definition verify_anchor :: "nacl \<Rightarrow> head_anchor \<Rightarrow> (bool \<times> string) res" where
  "verify_anchor n a =
     bindR (anchor_metadata a) (\<lambda>ok.
     Inr (if \<not> ok then (False, ''payment attempt anchor metadata is invalid'')
          else if \<not> nacl_available n then (False, ''crypto unavailable'')
          else if \<not> anchor_signature_ok n a then (False, ''payment attempt anchor signature invalid'')
          else (True, ''ok'')))"

definition same_head :: "head_anchor \<Rightarrow> head_anchor \<Rightarrow> bool" where
  "same_head p a \<longleftrightarrow> py_eq (an_attempt_id p) (an_attempt_id a) \<and> py_eq (an_seq p) (an_seq a) \<and> py_eq (an_head_hash p) (an_head_hash a)
     \<and> py_eq (an_actor_did p) (an_actor_did a)"

fun anchor_sequence :: "nacl \<Rightarrow> string \<Rightarrow> string \<Rightarrow> string \<Rightarrow> (pyval \<times> pyval) list \<Rightarrow> (pyval \<times> head_anchor) list \<Rightarrow> int \<Rightarrow> head_anchor list \<Rightarrow> unit res" where
  "anchor_sequence n attempt_id actor_did source phases prepared last_created [] = Inr ()"
| "anchor_sequence n attempt_id actor_did source phases prepared last_created (a # rest) =
     bindR (verify_anchor n a) (\<lambda>(ok, reason).
     if \<not> ok then reject (source @ '' witness: '' @ reason)
     else if an_attempt_id a \<noteq> PStr attempt_id \<or> an_actor_did a \<noteq> PStr actor_did \<or> as_int (an_created_at_ms a) < last_created
     then reject ''payment attempt head anchor binding is invalid''
     else if (an_operation_id a, an_phase a) \<in> set phases then reject ''payment attempt head anchor phase is duplicated''
     else if an_phase a = PStr ''prepared''
     then anchor_sequence n attempt_id actor_did source ((an_operation_id a, an_phase a) # phases) ((an_operation_id a, a) # prepared)
            (as_int (an_created_at_ms a)) rest
     else (case map_of prepared (an_operation_id a) of
         None \<Rightarrow> reject ''payment attempt committed anchor has no matching prepare''
       | Some p \<Rightarrow>
           if \<not> same_head p a then reject ''payment attempt committed anchor has no matching prepare''
           else anchor_sequence n attempt_id actor_did source ((an_operation_id a, an_phase a) # phases) prepared
                  (as_int (an_created_at_ms a)) rest))"

definition validate_anchor_sequence :: "nacl \<Rightarrow> head_anchor list \<Rightarrow> string \<Rightarrow> string \<Rightarrow> string \<Rightarrow> head_anchor list res" where
  "validate_anchor_sequence n anchors attempt_id actor_did source =
     bindR (anchor_sequence n attempt_id actor_did source [] [] 0 anchors) (\<lambda>_. Inr anchors)"

definition latest_committed :: "head_anchor list \<Rightarrow> int" where
  "latest_committed anchors = foldl (\<lambda>k (i, a). if an_phase a = PStr ''committed'' then int i else k) (- 1) (List.enumerate 0 anchors)"

definition accepted_anchor_heads :: "head_anchor list \<Rightarrow> (pyval \<times> pyval) list" where
  "accepted_anchor_heads anchors =
     (let latest = latest_committed anchors in
      map (\<lambda>(i, a). (an_seq a, an_head_hash a))
        (filter (\<lambda>(i, a). int i = latest \<or> latest < int i \<and> an_phase a = PStr ''prepared'') (List.enumerate 0 anchors)))"

section \<open>Files\<close>

definition max_file_bytes :: nat where
  "max_file_bytes = 1024 * 1024"

datatype doc_file = TooLarge | Unreadable | Document pyval

record 'w head_witness =
  hw_append :: "string \<Rightarrow> pydict \<Rightarrow> 'w \<Rightarrow> 'w \<times> unit res"
  hw_read :: "string \<Rightarrow> 'w \<Rightarrow> pyval res"

record 'w payment_store =
  ps_docs :: "(string \<times> doc_file) list"
  ps_journals :: "(string \<times> bytes) list"
  ps_witness :: 'w

definition attempt_stem :: "string \<Rightarrow> string res" where
  "attempt_stem attempt_id = ensure (attempt_id_ok attempt_id) PaymentAttemptRejected ''invalid payment attempt id'' (Inr (drop 25 attempt_id))"

fun split_lines :: "bytes \<Rightarrow> bytes list" where
  "split_lines [] = [[]]"
| "split_lines (b # bs) = (if b = 10 then [] # split_lines bs else (case split_lines bs of [] \<Rightarrow> [[b]] | l # ls \<Rightarrow> (b # l) # ls))"

definition loads_line :: "bytes \<Rightarrow> pyval option" where
  "loads_line line = Option.bind (utf8_decode line) json_loads"

definition append_anchor :: "head_anchor \<Rightarrow> 'w payment_store \<Rightarrow> 'w payment_store \<times> unit res" where
  "append_anchor anchor st =
     (case bindR (attempt_stem (as_str (an_attempt_id anchor))) (\<lambda>stem.
           bindR (canonical_json (PDict (anchor_to_dict anchor))) (\<lambda>encoded.
           let line = encoded @ [10]; raw = (case map_of (ps_journals st) stem of None \<Rightarrow> [] | Some bs \<Rightarrow> bs);
               open_tail = (raw \<noteq> [] \<and> List.last raw \<noteq> 10); separator = (if open_tail then [10] else []) in
           ensure (length raw \<le> max_anchor_file_bytes) PaymentAttemptRejected ''payment attempt head journal exceeds size limit'' (
           bindR (if \<not> open_tail then Inr ()
                  else case loads_line (List.last (split_lines raw)) of
                    None \<Rightarrow> reject ''payment attempt head journal has a torn tail''
                  | Some (PDict d) \<Rightarrow> ensure (same_keys d anchor_fields) PaymentAttemptRejected ''payment attempt head journal has an invalid tail'' (Inr ())
                  | Some _ \<Rightarrow> reject ''payment attempt head journal has an invalid tail'') (\<lambda>_.
           ensure (length raw + length separator + length line \<le> max_anchor_file_bytes) PaymentAttemptRejected
             ''payment attempt head journal exceeds size limit'' (Inr (stem, raw @ separator @ line)))))) of
        Inl e \<Rightarrow> (st, Inl e)
      | Inr (stem, bs) \<Rightarrow> (st\<lparr>ps_journals := assoc_put stem bs (ps_journals st)\<rparr>, Inr ()))"

definition parse_anchor_line :: "bytes \<Rightarrow> head_anchor res" where
  "parse_anchor_line line =
     (if line = [] then reject ''payment attempt head journal contains an empty record''
      else case loads_line line of
        None \<Rightarrow> reject ''payment attempt head anchor is malformed''
      | Some (PDict d) \<Rightarrow> ensure (same_keys d anchor_fields) PaymentAttemptRejected ''payment attempt head anchor has invalid shape'' (Inr (anchor_from_dict d))
      | Some _ \<Rightarrow> reject ''payment attempt head anchor has invalid shape'')"

definition journal_lines :: "bytes \<Rightarrow> bytes list" where
  "journal_lines raw = (let ls = split_lines raw in if List.last ls = [] then butlast ls else ls)"

definition read_anchors :: "nacl \<Rightarrow> 'w payment_store \<Rightarrow> string \<Rightarrow> string \<Rightarrow> head_anchor list res" where
  "read_anchors n st attempt_id actor_did =
     bindR (attempt_stem attempt_id) (\<lambda>stem.
     case map_of (ps_journals st) stem of
       None \<Rightarrow> Inr []
     | Some raw \<Rightarrow>
         ensure (length raw \<le> max_anchor_file_bytes) PaymentAttemptRejected ''payment attempt head journal exceeds size limit'' (
         bindR (mapR parse_anchor_line (journal_lines raw)) (\<lambda>anchors.
         validate_anchor_sequence n anchors attempt_id actor_did ''local'')))"

definition witness_error :: "exn \<Rightarrow> exn" where
  "witness_error e =
     (if exn_cls e = PaymentWitnessRejected then Exn PaymentAttemptRejected (exn_msg e)
      else if exn_cls e = OSError \<or> exn_cls e = RuntimeError then Exn PaymentAttemptRejected ''external payment witness is unavailable''
      else e)"

definition witness_anchor :: "pyval \<Rightarrow> head_anchor res" where
  "witness_anchor v = (case v of
     PDict d \<Rightarrow> ensure (same_keys d anchor_fields) PaymentAttemptRejected ''external payment witness anchor has invalid shape'' (Inr (anchor_from_dict d))
   | _ \<Rightarrow> reject ''external payment witness anchor has invalid shape'')"

definition read_witness_anchors :: "nacl \<Rightarrow> 'w head_witness \<Rightarrow> 'w payment_store \<Rightarrow> string \<Rightarrow> string \<Rightarrow> head_anchor list res" where
  "read_witness_anchors n witness st attempt_id actor_did = (case hw_read witness attempt_id (ps_witness st) of
     Inl e \<Rightarrow> Inl (witness_error e)
   | Inr (PList records) \<Rightarrow> bindR (mapR witness_anchor records) (\<lambda>anchors. validate_anchor_sequence n anchors attempt_id actor_did ''external'')
   | Inr _ \<Rightarrow> reject ''external payment witness returned an invalid response'')"

definition first_actor :: "pyval list \<Rightarrow> pyval res" where
  "first_actor events = (case events of
     [] \<Rightarrow> Inr (PStr [])
   | PDict d # _ \<Rightarrow> Inr (dget_or d ''actor_did'' PNone)
   | _ \<Rightarrow> raise AttributeError ''object has no attribute get'')"

definition validate_anchor :: "nacl \<Rightarrow> 'w head_witness option \<Rightarrow> 'w payment_store \<Rightarrow> string \<Rightarrow> pyval list \<Rightarrow> string \<Rightarrow> unit res" where
  "validate_anchor n witness st attempt_id events head_hash =
     bindR (first_actor events) (\<lambda>actor. case actor of
       PStr actor_did \<Rightarrow>
         ensure (actor_did \<noteq> []) PaymentAttemptRejected ''stored payment attempt actor is invalid'' (
         bindR (read_anchors n st attempt_id actor_did) (\<lambda>anchors.
         ensure (anchors \<noteq> []) PaymentAttemptRejected ''stored payment attempt has no signed head journal'' (
         let current = (PInt (int (length events) - 1), PStr head_hash) in
         ensure (current \<in> set (accepted_anchor_heads anchors)) PaymentAttemptRejected ''stored payment attempt was rolled back or lacks a durable prepare'' (
         case witness of
           None \<Rightarrow> Inr ()
         | Some w \<Rightarrow>
             bindR (read_witness_anchors n w st attempt_id actor_did) (\<lambda>witnessed.
             ensure (witnessed \<noteq> []) PaymentAttemptRejected ''stored payment attempt has no external witness'' (
             ensure (current \<in> set (accepted_anchor_heads witnessed)) PaymentAttemptRejected ''stored payment attempt conflicts with its external witness''
               (Inr ())))))))
     | _ \<Rightarrow> reject ''stored payment attempt actor is invalid'')"

definition id_prefix :: string where
  "id_prefix = ''nth-settlement:v1:sha256:''"

definition load_attempt :: "nacl \<Rightarrow> 'w head_witness option \<Rightarrow> 'w payment_store \<Rightarrow> string \<Rightarrow> pyval list option res" where
  "load_attempt n witness st stem = (case map_of (ps_docs st) stem of
     None \<Rightarrow> Inr None
   | Some TooLarge \<Rightarrow> reject ''stored payment attempt exceeds size limit''
   | Some Unreadable \<Rightarrow> reject ''stored payment attempt is unreadable''
   | Some (Document value) \<Rightarrow>
       (let expected_id = id_prefix @ stem; bad = reject ''stored payment attempt has invalid shape'' in
        case value of
          PDict d \<Rightarrow>
            if \<not> same_keys d [''attempt_id'', ''events'', ''head_hash''] \<or> dget d ''attempt_id'' \<noteq> Some (PStr expected_id) then bad
            else (case (dget d ''events'', dget d ''head_hash'') of
              (Some (PList events), Some (PStr head_hash)) \<Rightarrow>
                if events = [] \<or> \<not> event_hash_ok head_hash then bad
                else bindR (payment_attempt_event_hash (List.last events)) (\<lambda>h.
                  if h \<noteq> head_hash then bad
                  else bindR (validate_anchor n witness st expected_id events head_hash) (\<lambda>_. Inr (Some events)))
            | _ \<Rightarrow> bad)
        | _ \<Rightarrow> bad))"

section \<open>Writing\<close>

definition attempt_document :: "string \<Rightarrow> pyval list \<Rightarrow> (string \<times> pyval) res" where
  "attempt_document attempt_id events =
     ensure (events \<noteq> []) PaymentAttemptRejected ''cannot persist an empty payment attempt'' (
     bindR (payment_attempt_event_hash (List.last events)) (\<lambda>h.
     Inr (h, PDict (obj [(''attempt_id'', PStr attempt_id), (''events'', PList events), (''head_hash'', PStr h)]))))"

type_synonym 'w store_write = "'w payment_store \<Rightarrow> 'w payment_store \<times> unit res"

fun run_writes :: "'w store_write list \<Rightarrow> 'w store_write" where
  "run_writes [] st = (st, Inr ())"
| "run_writes (f # fs) st = (case f st of (st', Inl e) \<Rightarrow> (st', Inl e) | (st', Inr _) \<Rightarrow> run_writes fs st')"

definition append_witness :: "'w head_witness option \<Rightarrow> head_anchor \<Rightarrow> 'w store_write" where
  "append_witness witness anchor st = (case witness of
     None \<Rightarrow> (st, Inr ())
   | Some w \<Rightarrow> (case hw_append w (as_str (an_attempt_id anchor)) (anchor_to_dict anchor) (ps_witness st) of
       (w', Inl e) \<Rightarrow> (st\<lparr>ps_witness := w'\<rparr>, Inl (witness_error e))
     | (w', Inr _) \<Rightarrow> (st\<lparr>ps_witness := w'\<rparr>, Inr ())))"

text \<open>\<open>atomic_write_json\<close> writes a text of any size; only reading has a limit.\<close>

definition stored_document :: "pyval \<Rightarrow> doc_file" where
  "stored_document document = (if max_file_bytes < length (utf8 (text_indent 0 document)) then TooLarge else Document document)"

definition write_document :: "string \<Rightarrow> pyval \<Rightarrow> 'w store_write" where
  "write_document stem document st = (st\<lparr>ps_docs := assoc_put stem (stored_document document) (ps_docs st)\<rparr>, Inr ())"

definition with_signed :: "nacl \<Rightarrow> identity \<Rightarrow> head_anchor \<Rightarrow> (head_anchor \<Rightarrow> 'w store_write) \<Rightarrow> 'w store_write" where
  "with_signed n actor anchor f st = (case sign_anchor n actor anchor of Inl e \<Rightarrow> (st, Inl e) | Inr a \<Rightarrow> f a st)"

definition new_anchor :: "string \<Rightarrow> string \<Rightarrow> string \<Rightarrow> nat \<Rightarrow> string \<Rightarrow> string \<Rightarrow> int \<Rightarrow> head_anchor" where
  "new_anchor phase operation_id attempt_id seq head_hash actor_did created_at_ms =
     \<lparr>an_operation_id = PStr operation_id, an_phase = PStr phase, an_attempt_id = PStr attempt_id, an_seq = PInt (int seq), an_head_hash = PStr head_hash,
      an_actor_did = PStr actor_did, an_created_at_ms = PInt created_at_ms, an_signature = PStr []\<rparr>"

text \<open>The five writes of \<open>_persist\<close> in order; a crash leaves the store after some first part of them.\<close>

definition persist_writes :: "nacl \<Rightarrow> 'w head_witness option \<Rightarrow> identity \<Rightarrow> string \<Rightarrow> string \<Rightarrow> pyval list \<Rightarrow> int \<Rightarrow> string \<Rightarrow> 'w store_write list res" where
  "persist_writes n witness actor stem attempt_id events created_at_ms operation_id =
     bindR (attempt_document attempt_id events) (\<lambda>(head_hash, document).
     bindR (as_did actor) (\<lambda>did.
     let anchor = (\<lambda>phase. new_anchor phase operation_id attempt_id (length events - 1) head_hash did created_at_ms) in
     Inr [with_signed n actor (anchor ''prepared'') append_anchor,
          with_signed n actor (anchor ''prepared'') (append_witness witness),
          write_document stem document,
          with_signed n actor (anchor ''committed'') append_anchor,
          with_signed n actor (anchor ''committed'') (append_witness witness)]))"

definition persist :: "nacl \<Rightarrow> 'w head_witness option \<Rightarrow> identity \<Rightarrow> string \<Rightarrow> string \<Rightarrow> pyval list \<Rightarrow> int \<Rightarrow> string \<Rightarrow> 'w store_write" where
  "persist n witness actor stem attempt_id events created_at_ms operation_id st =
     (case persist_writes n witness actor stem attempt_id events created_at_ms operation_id of
        Inl e \<Rightarrow> (st, Inl e)
      | Inr writes \<Rightarrow> run_writes writes st)"

section \<open>Operations\<close>

definition view_or :: "exn_class \<Rightarrow> nacl \<Rightarrow> int \<Rightarrow> pyval list \<Rightarrow> attempt_view res" where
  "view_or cls n wall events =
     bindR (verify_payment_attempt n wall events) (\<lambda>(ok, reason).
     ensure ok cls (''stored payment attempt is invalid: '' @ reason) (Inr (project_verified events)))"

definition get_attempt_events :: "nacl \<Rightarrow> 'w head_witness option \<Rightarrow> string \<Rightarrow> 'w payment_store \<Rightarrow> pyval list option res" where
  "get_attempt_events n witness attempt_id st = bindR (attempt_stem attempt_id) (load_attempt n witness st)"

definition get_attempt :: "nacl \<Rightarrow> 'w head_witness option \<Rightarrow> int \<Rightarrow> string \<Rightarrow> 'w payment_store \<Rightarrow> attempt_view option res" where
  "get_attempt n witness wall attempt_id st =
     bindR (get_attempt_events n witness attempt_id st) (\<lambda>found. case found of
       None \<Rightarrow> Inr None
     | Some events \<Rightarrow> bindR (view_or PaymentAttemptRejected n wall events) (\<lambda>view. Inr (Some view)))"

definition new_pay_event :: "string \<Rightarrow> nat \<Rightarrow> string \<Rightarrow> string \<Rightarrow> string \<Rightarrow> string \<Rightarrow> pydict \<Rightarrow> string \<Rightarrow> int \<Rightarrow> pay_event" where
  "new_pay_event attempt_id seq ty actor_did prev_state new_state payload prev_event_hash created_at_ms =
     \<lparr>pe_attempt_id = PStr attempt_id, pe_seq = PInt (int seq), pe_type = PStr ty, pe_actor_did = PStr actor_did, pe_prev_state = PStr prev_state,
      pe_new_state = PStr new_state, pe_payload = PDict payload, pe_prev_event_hash = PStr prev_event_hash, pe_created_at_ms = PInt created_at_ms,
      pe_kind = PStr payment_attempt_kind, pe_signature = PStr []\<rparr>"

definition create_attempt :: "nacl \<Rightarrow> 'w head_witness option \<Rightarrow> int \<Rightarrow> identity \<Rightarrow> settlement_intent \<Rightarrow> string \<Rightarrow> int \<Rightarrow> string \<Rightarrow> 'w payment_store
    \<Rightarrow> 'w payment_store \<times> attempt_view res" where
  "create_attempt n witness wall actor intent adapter_id created_at_ms operation_id st =
     (case ensure (adapter_id = adapter_x402_testnet) PaymentAttemptRejected ''only external x402 attempts are persisted'' (
           bindR (intent_dict intent) (\<lambda>intent_payload.
           bindR (as_did actor) (\<lambda>did.
           ensure (i_payer_did intent \<noteq> [] \<and> did = i_payer_did intent) PaymentAttemptRejected ''payment attempt actor must be the payer DID'' (
           bindR (settlement_idempotency_key intent) (\<lambda>attempt_id.
           bindR (attempt_stem attempt_id) (\<lambda>stem.
           ensure (0 < created_at_ms) PaymentAttemptRejected ''invalid payment attempt timestamp'' (Inr (intent_payload, did, attempt_id, stem)))))))) of
        Inl e \<Rightarrow> (st, Inl e)
      | Inr (intent_payload, did, attempt_id, stem) \<Rightarrow>
          (case load_attempt n witness st stem of
             Inl e \<Rightarrow> (st, Inl e)
           | Inr (Some existing) \<Rightarrow>
               (st, bindR (view_or PaymentAttemptConflict n wall existing) (\<lambda>view.
                    ensure (v_actor_did view = PStr did \<and> py_eq (PDict (v_intent view)) (PDict intent_payload)) PaymentAttemptConflict
                      ''payment attempt id contains different intent'' (Inr view)))
           | Inr None \<Rightarrow>
               (case sign_pay_event n actor (new_pay_event attempt_id 0 ''payment_attempt_created'' did [] ''pending''
                       (obj [(''schema_version'', PInt 1), (''adapter_id'', PStr adapter_id), (''intent'', PDict intent_payload)]) [] created_at_ms) of
                  Inl e \<Rightarrow> (st, Inl e)
                | Inr event \<Rightarrow>
                    (let events = [PDict (pay_event_to_dict event)] in
                     case persist n witness actor stem attempt_id events created_at_ms operation_id st of
                       (st', Inl e) \<Rightarrow> (st', Inl e)
                     | (st', Inr _) \<Rightarrow> (st', Inr (project_verified events))))))"

text \<open>The end that \<open>_append\<close> and \<open>claim\<close> share: the new event is signed, the extended chain verified and written.\<close>

definition extend_attempt :: "nacl \<Rightarrow> 'w head_witness option \<Rightarrow> int \<Rightarrow> identity \<Rightarrow> string \<Rightarrow> string \<Rightarrow> string \<Rightarrow> pyval list \<Rightarrow> attempt_view \<Rightarrow> string \<Rightarrow> string \<Rightarrow> pydict
    \<Rightarrow> int \<Rightarrow> string \<Rightarrow> 'w payment_store \<Rightarrow> 'w payment_store \<times> attempt_view res" where
  "extend_attempt n witness wall actor did stem attempt_id events current ty new_state payload created_at_ms operation_id st =
     (case bindR (payment_attempt_event_hash (List.last events)) (\<lambda>h.
           bindR (sign_pay_event n actor (new_pay_event attempt_id (length events) ty did (as_str (v_state current)) new_state payload h created_at_ms)) (\<lambda>event.
           let candidate = events @ [PDict (pay_event_to_dict event)] in
           bindR (verify_payment_attempt n wall candidate) (\<lambda>(ok, reason).
           ensure ok PaymentAttemptRejected reason (Inr candidate)))) of
        Inl e \<Rightarrow> (st, Inl e)
      | Inr candidate \<Rightarrow>
          (case persist n witness actor stem attempt_id candidate created_at_ms operation_id st of
             (st', Inl e) \<Rightarrow> (st', Inl e)
           | (st', Inr _) \<Rightarrow> (st', Inr (project_verified candidate))))"

text \<open>The start they share: the stored chain, verified and projected, for the identity that made it.\<close>

definition own_attempt :: "nacl \<Rightarrow> 'w head_witness option \<Rightarrow> int \<Rightarrow> identity \<Rightarrow> string \<Rightarrow> 'w payment_store \<Rightarrow> (pyval list \<times> attempt_view \<times> string) option res" where
  "own_attempt n witness wall actor stem st =
     bindR (load_attempt n witness st stem) (\<lambda>found. case found of
       None \<Rightarrow> Inr None
     | Some events \<Rightarrow>
         bindR (view_or PaymentAttemptConflict n wall events) (\<lambda>view.
         bindR (as_did actor) (\<lambda>did.
         ensure (PStr did = v_actor_did view) PaymentAttemptRejected ''payment attempt actor mismatch'' (Inr (Some (events, view, did))))))"

definition append_payment_event :: "nacl \<Rightarrow> 'w head_witness option \<Rightarrow> int \<Rightarrow> identity \<Rightarrow> string \<Rightarrow> string \<Rightarrow> string \<Rightarrow> pydict \<Rightarrow> int \<Rightarrow> string \<Rightarrow> 'w payment_store
    \<Rightarrow> 'w payment_store \<times> attempt_view res" where
  "append_payment_event n witness wall actor attempt_id ty new_state payload created_at_ms operation_id st =
     (case bindR (attempt_stem attempt_id) (\<lambda>stem. bindR (own_attempt n witness wall actor stem st) (\<lambda>found. Inr (stem, found))) of
        Inl e \<Rightarrow> (st, Inl e)
      | Inr (stem, None) \<Rightarrow> (st, reject ''payment attempt not found'')
      | Inr (stem, Some (events, current, did)) \<Rightarrow>
          extend_attempt n witness wall actor did stem attempt_id events current ty new_state payload created_at_ms operation_id st)"

definition claimable :: "attempt_view \<Rightarrow> int \<Rightarrow> bool" where
  "claimable view now \<longleftrightarrow> v_state view \<notin> {PStr ''settled'', PStr ''blocked'', PStr ''orphaned''}
     \<and> \<not> (v_state view = PStr ''pending'' \<and> now < as_int (v_next_attempt_at_ms view))
     \<and> \<not> (v_state view = PStr ''inflight'' \<and> now < as_int (v_lease_expires_at_ms view))"

definition claim_attempt :: "nacl \<Rightarrow> 'w head_witness option \<Rightarrow> int \<Rightarrow> identity \<Rightarrow> string \<Rightarrow> int \<Rightarrow> int \<Rightarrow> string \<Rightarrow> string \<Rightarrow> 'w payment_store
    \<Rightarrow> 'w payment_store \<times> attempt_view option res" where
  "claim_attempt n witness wall actor attempt_id lease_ms now lease_id operation_id st =
     (case ensure (1000 \<le> lease_ms \<and> lease_ms \<le> 300000) PaymentAttemptRejected ''lease_ms must be between 1000 and 300000'' (
           bindR (attempt_stem attempt_id) (\<lambda>stem. bindR (own_attempt n witness wall actor stem st) (\<lambda>found. Inr (stem, found)))) of
        Inl e \<Rightarrow> (st, Inl e)
      | Inr (stem, None) \<Rightarrow> (st, Inr None)
      | Inr (stem, Some (events, current, did)) \<Rightarrow>
          if \<not> claimable current now then (st, Inr None)
          else (case extend_attempt n witness wall actor did stem attempt_id events current ''payment_attempt_claimed'' ''inflight''
                       (obj [(''lease_id'', PStr lease_id), (''lease_expires_at_ms'', PInt (now + lease_ms))]) now operation_id st of
                  (st', Inl e) \<Rightarrow> (st', Inl e)
                | (st', Inr view) \<Rightarrow> (st', Inr (Some view))))"

definition schedule_retry :: "nacl \<Rightarrow> 'w head_witness option \<Rightarrow> int \<Rightarrow> identity \<Rightarrow> string \<Rightarrow> string \<Rightarrow> string \<Rightarrow> int \<Rightarrow> int \<Rightarrow> string \<Rightarrow> 'w payment_store
    \<Rightarrow> 'w payment_store \<times> attempt_view res" where
  "schedule_retry n witness wall actor attempt_id lease_id error_code retry_after_ms now operation_id st =
     (if retry_after_ms < 0 then (st, reject ''retry_after_ms must be non-negative'')
      else append_payment_event n witness wall actor attempt_id ''payment_attempt_retry_scheduled'' ''pending''
        (obj [(''lease_id'', PStr lease_id), (''error_code'', PStr error_code), (''next_attempt_at_ms'', PInt (now + retry_after_ms))]) now operation_id st)"

definition record_settled :: "nacl \<Rightarrow> 'w head_witness option \<Rightarrow> int \<Rightarrow> identity \<Rightarrow> string \<Rightarrow> string \<Rightarrow> pydict \<Rightarrow> int \<Rightarrow> string \<Rightarrow> 'w payment_store
    \<Rightarrow> 'w payment_store \<times> attempt_view res" where
  "record_settled n witness wall actor attempt_id lease_id settlement now operation_id st =
     append_payment_event n witness wall actor attempt_id ''payment_attempt_settled'' ''settled''
       (obj [(''lease_id'', PStr lease_id), (''settlement'', PDict settlement)]) now operation_id st"

definition block_attempt :: "nacl \<Rightarrow> 'w head_witness option \<Rightarrow> int \<Rightarrow> identity \<Rightarrow> string \<Rightarrow> string \<Rightarrow> string \<Rightarrow> int \<Rightarrow> string \<Rightarrow> 'w payment_store
    \<Rightarrow> 'w payment_store \<times> attempt_view res" where
  "block_attempt n witness wall actor attempt_id lease_id error_code now operation_id st =
     append_payment_event n witness wall actor attempt_id ''payment_attempt_blocked'' ''blocked''
       (obj [(''lease_id'', PStr lease_id), (''error_code'', PStr error_code)]) now operation_id st"

definition record_orphaned :: "nacl \<Rightarrow> 'w head_witness option \<Rightarrow> int \<Rightarrow> identity \<Rightarrow> string \<Rightarrow> string \<Rightarrow> string \<Rightarrow> string \<Rightarrow> string \<Rightarrow> int \<Rightarrow> string \<Rightarrow> 'w payment_store
    \<Rightarrow> 'w payment_store \<times> attempt_view res" where
  "record_orphaned n witness wall actor attempt_id lease_id error_code provider_reference evidence_digest now operation_id st =
     append_payment_event n witness wall actor attempt_id ''payment_attempt_orphaned'' ''orphaned''
       (obj [(''lease_id'', PStr lease_id), (''error_code'', PStr error_code), (''provider_reference'', PStr provider_reference),
          (''evidence_digest'', PStr evidence_digest)]) now operation_id st"

definition record_reconciled :: "nacl \<Rightarrow> 'w head_witness option \<Rightarrow> int \<Rightarrow> identity \<Rightarrow> string \<Rightarrow> pydict \<Rightarrow> string \<Rightarrow> int \<Rightarrow> string \<Rightarrow> 'w payment_store
    \<Rightarrow> 'w payment_store \<times> attempt_view res" where
  "record_reconciled n witness wall actor attempt_id settlement orphan_evidence_digest now operation_id st =
     append_payment_event n witness wall actor attempt_id ''payment_attempt_orphan_reconciled'' ''settled''
       (obj [(''settlement'', PDict settlement), (''orphan_evidence_digest'', PStr orphan_evidence_digest)]) now operation_id st"

fun pending_rows :: "nacl \<Rightarrow> 'w head_witness option \<Rightarrow> int \<Rightarrow> nat \<Rightarrow> 'w payment_store \<Rightarrow> attempt_view list \<Rightarrow> string list \<Rightarrow> attempt_view list res" where
  "pending_rows n witness wall limit st rows [] = Inr rows"
| "pending_rows n witness wall limit st rows (stem # stems) = (case get_attempt n witness wall (id_prefix @ stem) st of
     Inl e \<Rightarrow> if exn_cls e = PaymentAttemptRejected \<or> exn_cls e = PaymentAttemptConflict then pending_rows n witness wall limit st rows stems else Inl e
   | Inr (Some view) \<Rightarrow>
       if v_state view \<in> {PStr ''pending'', PStr ''inflight''}
       then (let rows' = rows @ [view] in if limit \<le> length rows' then Inr rows' else pending_rows n witness wall limit st rows' stems)
       else pending_rows n witness wall limit st rows stems
   | Inr None \<Rightarrow> pending_rows n witness wall limit st rows stems)"

definition pending_attempts :: "nacl \<Rightarrow> 'w head_witness option \<Rightarrow> int \<Rightarrow> int \<Rightarrow> 'w payment_store \<Rightarrow> attempt_view list res" where
  "pending_attempts n witness wall limit st =
     ensure (1 \<le> limit \<and> limit \<le> 1000) PaymentAttemptRejected ''limit must be between 1 and 1000'' (
     pending_rows n witness wall (nat limit) st [] (sort (map fst (ps_docs st))))"

end
