(* ===== verification/Payment_Journal.thy ===== *)
theory Payment_Journal
  imports Payment_Store
begin

text \<open>
  The head journal as a list of anchors. What \<open>append_anchor\<close> writes, \<open>read_anchors\<close> reads back, anchor by anchor; a signed anchor verifies; the
  check of a journal runs along it, and the heads it accepts are found from its end.
\<close>

section \<open>A record is one line\<close>

definition visible :: "char \<Rightarrow> bool" where
  "visible c \<longleftrightarrow> 32 \<le> (of_char c :: nat)"

lemma visible_marks [simp]:
  "visible (CHR '','')" "visible (CHR '':'')" "visible (CHR ''['')" "visible (CHR '']'')" "visible (CHR ''{'')" "visible (CHR ''}'')" "visible dquote" "visible bslash"
  "visible (CHR ''n'')" "visible (CHR ''u'')" "visible (CHR ''l'')" "visible (CHR ''t'')" "visible (CHR ''r'')" "visible (CHR ''e'')" "visible (CHR ''f'')"
  "visible (CHR ''a'')" "visible (CHR ''s'')" "visible (CHR ''-'')" "visible (CHR ''b'')" "visible (CHR ''0'')"
  by (simp_all add: visible_def dquote_def bslash_def)

lemma visible_hex: "d < 16 \<Longrightarrow> visible (hex_char d)"
  using is_lower_hex_hex_char [of d] by (auto simp: visible_def is_lower_hex_def is_digit_def)

lemma visible_esc: "list_all visible (esc_char False c)"
  using visible_hex by (auto simp: esc_char_def Let_def hex2_def visible_def [of c])

lemma visible_quote [simp]: "list_all visible (quote False s)"
  using visible_esc by (induction s) (simp_all add: quote_def)

lemma visible_int [simp]: "list_all visible (int_str i)"
  by (auto simp: int_str_def list_all_iff visible_def is_digit_def dest!: nat_str_digits)

lemma visible_parts:
  "list_all visible (dump_elems False (x # xs)) \<longleftrightarrow> list_all visible (dump_raw False x) \<and> list_all visible (dump_elems False xs)"
  "list_all visible (dump_members False ((k, v) # d)) \<longleftrightarrow> list_all visible (dump_raw False v) \<and> list_all visible (dump_members False d)"
  "list_all visible (dump_raw False (PList xs)) \<longleftrightarrow> list_all visible (dump_elems False xs)"
  "list_all visible (dump_raw False (PDict d)) \<longleftrightarrow> list_all visible (dump_members False d)"
  subgoal by (cases xs) (simp_all del: dump_elems.simps(2) add: dump_elems.simps(2) [of False x])
  subgoal by (cases d) (simp_all del: dump_members.simps(2) add: dump_members.simps(2) [of False k])
  subgoal by (cases xs) (simp_all del: dump_elems.simps(2))
  subgoal by (cases d) (simp_all del: dump_members.simps(2))
  done

lemma dump_visible:
  "wf_json v \<Longrightarrow> list_all visible (dump_raw False v)"
  "wf_json_list xs \<Longrightarrow> list_all visible (dump_elems False xs)"
  "wf_json_pairs d \<Longrightarrow> list_all visible (dump_members False d)"
proof (induction v and xs and d rule: wf_json_wf_json_list_wf_json_pairs.induct)
qed (simp_all add: visible_parts del: dump_elems.simps(2) dump_members.simps(2) dump_raw.simps(6,7))

lemma utf8_char_newline: "10 \<in> set (utf8_char c) \<Longrightarrow> (of_char c :: nat) = 10"
proof -
  let ?n = "of_char c :: nat"
  assume a: "10 \<in> set (utf8_char c)"
  have ten: "m = 10" if "(10 :: 8 word) = word_of_nat m" "m < 256" for m
  proof -
    have "unat (10 :: 8 word) = m" unfolding that(1) by (rule unat_word_of_nat_byte [OF that(2)])
    then show ?thesis by simp
  qed
  show ?thesis
  proof (cases "?n < 128")
    case True
    then show ?thesis using a ten [of ?n] by (simp add: utf8_char_def Let_def)
  next
    case False
    then have "(10 :: 8 word) = word_of_nat (192 + ?n div 64) \<or> (10 :: 8 word) = word_of_nat (128 + ?n mod 64)"
      using a by (simp only: utf8_char_def Let_def if_False list.set insert_iff empty_iff simp_thms)
    moreover have "192 + ?n div 64 < 256" "128 + ?n mod 64 < 256" using div_le_mono [of ?n 255 64] of_char_less_256 [of c] by simp_all
    ultimately show ?thesis using ten [of "192 + ?n div 64"] ten [of "128 + ?n mod 64"] by linarith
  qed
qed

lemma utf8_visible: "list_all visible s \<Longrightarrow> 10 \<notin> set (utf8 s)"
  using utf8_char_newline by (fastforce simp: utf8_def list_all_iff visible_def)

lemma split_lines_not_Nil [simp]: "split_lines bs \<noteq> []"
  by (induction bs) (auto split: list.splits)

lemma split_lines_record: "10 \<notin> set l \<Longrightarrow> split_lines (l @ 10 # rest) = l # split_lines rest"
  by (induction l) auto

section \<open>Anchors in the journal\<close>

text \<open>Every field of an anchor that the store writes is text or a whole number.\<close>

definition flat :: "pyval \<Rightarrow> bool" where
  "flat v = (case v of PStr _ \<Rightarrow> True | PInt _ \<Rightarrow> True | _ \<Rightarrow> False)"

definition plain_anchor :: "head_anchor \<Rightarrow> bool" where
  "plain_anchor a \<longleftrightarrow> flat (an_operation_id a) \<and> flat (an_phase a) \<and> flat (an_attempt_id a) \<and> flat (an_seq a) \<and> flat (an_head_hash a)
     \<and> flat (an_actor_did a) \<and> flat (an_created_at_ms a) \<and> flat (an_signature a)"

definition anchor_text :: "head_anchor \<Rightarrow> bytes" where
  "anchor_text a = utf8 (json_dumps False (PDict (anchor_to_dict a)))"

definition journal_bytes :: "head_anchor list \<Rightarrow> bytes" where
  "journal_bytes as = concat (map (\<lambda>a. anchor_text a @ [10]) as)"

lemma journal_bytes_simps [simp]: "journal_bytes [] = []" "journal_bytes (as @ bs) = journal_bytes as @ journal_bytes bs" "journal_bytes [a] = anchor_text a @ [10]"
  "journal_bytes (a # bs) = anchor_text a @ 10 # journal_bytes bs"
  by (simp_all add: journal_bytes_def)

lemma flat_wf: "flat v \<Longrightarrow> wf_json v \<and> canon v = v"
  by (cases v) (auto simp: flat_def)

lemma anchor_wf: "plain_anchor a \<Longrightarrow> wf_json (PDict (anchor_to_dict a))"
  by (auto simp: plain_anchor_def anchor_to_dict_def obj_def is_str_def flat_wf)

lemma anchor_canonical: "plain_anchor a \<Longrightarrow> canonical_json (PDict (anchor_to_dict a)) = Inr (anchor_text a)"
  using canonical_json_wf [OF anchor_wf] by (simp add: anchor_text_def)

lemma anchor_text_line: "plain_anchor a \<Longrightarrow> 10 \<notin> set (anchor_text a)"
  using dump_visible(1) [OF wf_json_canon(1) [OF anchor_wf]] utf8_visible by (simp add: anchor_text_def json_dumps_def)

lemma anchor_from_to: "anchor_from_dict (anchor_to_dict a) = a"
  by (simp add: anchor_from_dict_def anchor_to_dict_def obj_def dget_or_def Let_def)

lemma anchor_dget: "dget (anchor_to_dict a) k = Some v \<Longrightarrow> plain_anchor a \<Longrightarrow> flat v"
  by (auto simp: anchor_to_dict_def obj_def plain_anchor_def dget_def split: if_splits)

lemma parse_anchor_text:
  assumes "plain_anchor a"
  shows "parse_anchor_line (anchor_text a) = Inr a"
proof -
  have l: "loads_line (anchor_text a) = Some (canon (PDict (anchor_to_dict a)))"
    using json_loads_dumps [OF anchor_wf [OF assms]] by (simp add: loads_line_def anchor_text_def del: canon.simps)
  obtain e where e: "canon (PDict (anchor_to_dict a)) = PDict e" by simp
  have g: "dget e k = dget (anchor_to_dict a) k" for k
    using dget_canon [OF anchor_wf [OF assms] e] anchor_dget [OF _ assms] flat_wf by (cases "dget (anchor_to_dict a) k") auto
  have ks: "set (map fst e) = set (map fst (anchor_to_dict a))"
  proof -
    have "set (map fst e) = set (map fst (canon_pairs (anchor_to_dict a)))" using e by (auto simp del: keys_canon_pairs)
    then show ?thesis by (simp only: keys_canon_pairs)
  qed
  have "set (map fst (anchor_to_dict a)) = PStr ` set anchor_fields" by (simp add: anchor_to_dict_def anchor_fields_def obj_def)
  then have "same_keys e anchor_fields" by (simp only: same_keys_def ks)
  moreover have "anchor_from_dict e = a" using anchor_from_to [of a] by (simp add: anchor_from_dict_def dget_or_def g)
  moreover have "anchor_text a \<noteq> []" using l by (auto simp: loads_line_def json_loads_def skip_ws_def)
  ultimately show ?thesis unfolding parse_anchor_line_def l e by simp
qed

lemma journal_lines_bytes: "list_all plain_anchor as \<Longrightarrow> journal_lines (journal_bytes as) = map anchor_text as"
proof -
  have "split_lines (journal_bytes as) = map anchor_text as @ [[]]" if "list_all plain_anchor as" for as
    using that by (induction as) (auto simp: split_lines_record anchor_text_line)
  then show "list_all plain_anchor as \<Longrightarrow> journal_lines (journal_bytes as) = map anchor_text as" by (simp add: journal_lines_def)
qed


section \<open>Reading and appending\<close>

definition journal_is :: "'w payment_store \<Rightarrow> string \<Rightarrow> head_anchor list \<Rightarrow> bool" where
  "journal_is st stem as \<longleftrightarrow> list_all plain_anchor as \<and> length (journal_bytes as) \<le> max_anchor_file_bytes
     \<and> (map_of (ps_journals st) stem = Some (journal_bytes as) \<or> as = [] \<and> map_of (ps_journals st) stem = None)"

lemma read_journal:
  assumes "journal_is st stem as" "attempt_stem aid = Inr stem"
  shows "read_anchors n st aid did = validate_anchor_sequence n as aid did ''local''"
proof -
  have pl: "list_all plain_anchor as" and len: "length (journal_bytes as) \<le> max_anchor_file_bytes" using assms(1) by (auto simp: journal_is_def)
  have "mapR parse_anchor_line (map anchor_text as) = Inr as" using pl
    by (induction as) (auto simp: parse_anchor_text)
  then have m: "mapR parse_anchor_line (journal_lines (journal_bytes as)) = Inr as" using pl by (simp add: journal_lines_bytes)
  from assms(1) consider "map_of (ps_journals st) stem = Some (journal_bytes as)" | "as = []" "map_of (ps_journals st) stem = None" by (auto simp: journal_is_def)
  then show ?thesis using len m assms(2) by cases (simp_all add: read_anchors_def validate_anchor_sequence_def)
qed

lemma append_journal:
  assumes "journal_is st stem as" "an_attempt_id a = PStr aid" "attempt_stem aid = Inr stem" "plain_anchor a"
  shows "append_anchor a st = (if length (journal_bytes (as @ [a])) \<le> max_anchor_file_bytes
     then (st\<lparr>ps_journals := assoc_put stem (journal_bytes (as @ [a])) (ps_journals st)\<rparr>, Inr ())
     else (st, reject ''payment attempt head journal exceeds size limit''))"
proof -
  have raw: "(case map_of (ps_journals st) stem of None \<Rightarrow> [] | Some bs \<Rightarrow> bs) = journal_bytes as" using assms(1) by (auto simp: journal_is_def)
  have closed: "\<not> (journal_bytes as \<noteq> [] \<and> List.last (journal_bytes as) \<noteq> 10)" by (cases as rule: rev_cases) auto
  have len: "length (journal_bytes as) \<le> max_anchor_file_bytes" using assms(1) by (simp add: journal_is_def)
  show ?thesis using assms(2,3) anchor_canonical [OF assms(4)] closed len
    by (auto simp: append_anchor_def raw Let_def reject_def)
qed

lemma journal_put:
  assumes "list_all plain_anchor as" "length (journal_bytes as) \<le> max_anchor_file_bytes"
  shows "journal_is (st\<lparr>ps_journals := assoc_put stem (journal_bytes as) js\<rparr>) stem as"
  using assms by (simp add: journal_is_def)

section \<open>Signed anchors\<close>

lemma signed_anchor:
  assumes "ed25519_ok n" "signer_ok n actor" "as_did actor = Inr did" "lease_id_ok op" "attempt_id_ok aid" "event_hash_ok h" "0 < t"
    "phase = ''prepared'' \<or> phase = ''committed''"
  obtains sg where "sign_anchor n actor (new_anchor phase op aid k h did t) = Inr ((new_anchor phase op aid k h did t)\<lparr>an_signature := PStr sg\<rparr>)"
    "verify_anchor n ((new_anchor phase op aid k h did t)\<lparr>an_signature := PStr sg\<rparr>) = Inr (True, ''ok'')"
proof -
  let ?a = "new_anchor phase op aid k h did t"
  obtain seed where seed: "id_signing_key actor = Some seed" "length seed = 32" using assms(2) by (rule signer_okE)
  note ok = ed25519_okD [OF assms(1) seed(2)]
  have body: "anchor_signing_body (?a\<lparr>an_signature := v\<rparr>) = anchor_signing_body ?a" for v
    by (simp add: anchor_signing_body_def anchor_to_dict_def obj_def without_key_def)
  have "wf_json (PDict (anchor_signing_body ?a))"
    by (simp add: anchor_signing_body_def anchor_to_dict_def obj_def without_key_def new_anchor_def is_str_def)
  then obtain bs where bs: "canonical_json (PDict (anchor_signing_body ?a)) = Inr bs" using canonical_json_wf by blast
  let ?s = "nacl_sign n seed bs"
  have s: "identity_sign n actor bs = Inr ?s" using signer_sign [OF assms(1,2)] seed by simp
  have did: "decode_ed25519_did_key did = Inr (nacl_pub n seed)"
    using signer_did [OF assms(1,2)] assms(3) seed(1) by (metis Inr_inject option.sel)
  then have key: "is_did_key (PStr did)" by (auto simp: is_did_key_iff decode_did_iff)
  let ?b = "?a\<lparr>an_signature := PStr (b64u_encode ?s)\<rparr>"
  have "an_actor_did ?b = PStr did" "an_signature ?b = PStr (b64u_encode ?s)" by (simp_all add: new_anchor_def)
  then have "anchor_signature_ok n ?b" using ok did bs by (simp add: anchor_signature_ok_def body)
  moreover have "anchor_metadata ?b = Inr True"
    using assms(4-8) key by (auto simp: anchor_metadata_def text_match_def hashable_def positive_int_def strict_int_def new_anchor_def)
  ultimately have "verify_anchor n ?b = Inr (True, ''ok'')" using ok by (simp add: verify_anchor_def)
  then show thesis using that [of "b64u_encode ?s"] bs s assms(3) by (simp add: sign_anchor_def new_anchor_def)
qed

section \<open>Checking a longer journal\<close>

definition mark :: "head_anchor \<Rightarrow> pyval \<times> pyval" where
  "mark a = (an_operation_id a, an_phase a)"

definition prepared_in :: "head_anchor list \<Rightarrow> (pyval \<times> head_anchor) list" where
  "prepared_in as = rev (map (\<lambda>a. (an_operation_id a, a)) (filter (\<lambda>a. an_phase a = PStr ''prepared'') as))"

definition last_time :: "int \<Rightarrow> head_anchor list \<Rightarrow> int" where
  "last_time t as = (if as = [] then t else as_int (an_created_at_ms (List.last as)))"

lemma anchor_sequence_append:
  "anchor_sequence n aid did src phases prepared t (as @ bs) = bindR (anchor_sequence n aid did src phases prepared t as) (\<lambda>_.
     anchor_sequence n aid did src (rev (map mark as) @ phases) (prepared_in as @ prepared) (last_time t as) bs)"
proof (induction as arbitrary: phases prepared t)
  case (Cons a as)
  have lt: "last_time t (a # as) = last_time (as_int (an_created_at_ms a)) as" by (simp add: last_time_def)
  obtain r where r: "verify_anchor n a = r" by blast
  show ?case
  proof (cases r)
    case (Inr q)
    obtain ok reason where q: "q = (ok, reason)" by fastforce
    show ?thesis
    proof (cases "an_phase a = PStr ''prepared''")
      case True
      then show ?thesis using Inr r q lt Cons by (auto simp: reject_def mark_def prepared_in_def)
    next
      case False
      then show ?thesis using Inr r q lt Cons by (auto simp: reject_def mark_def prepared_in_def split: option.splits)
    qed
  qed (simp add: r)
qed (simp add: prepared_in_def last_time_def)

definition journal_ok :: "nacl \<Rightarrow> string \<Rightarrow> string \<Rightarrow> head_anchor list \<Rightarrow> bool" where
  "journal_ok n aid did as \<longleftrightarrow> anchor_sequence n aid did ''local'' [] [] 0 as = Inr ()"

lemma journal_ok_snoc:
  assumes "journal_ok n aid did as"
  shows "journal_ok n aid did (as @ [a]) \<longleftrightarrow> anchor_sequence n aid did ''local'' (rev (map mark as)) (prepared_in as) (last_time 0 as) [a] = Inr ()"
  using assms anchor_sequence_append [of n aid did "''local''" "[]" "[]" 0 as "[a]"] by (simp add: journal_ok_def del: anchor_sequence.simps)

text \<open>The anchors of an operation that is new to the journal.\<close>

definition new_to :: "head_anchor list \<Rightarrow> string \<Rightarrow> bool" where
  "new_to as op \<longleftrightarrow> PStr op \<notin> an_operation_id ` set as"

lemma map_of_prepared_new: "new_to as op \<Longrightarrow> map_of (prepared_in as) (PStr op) = None"
  by (auto simp: new_to_def prepared_in_def map_of_eq_None_iff)

lemma prepared_ok:
  assumes "journal_ok n aid did as" "verify_anchor n a = Inr (True, m)" "a = (new_anchor ''prepared'' op aid k h did t)\<lparr>an_signature := sg\<rparr>"
    "last_time 0 as \<le> t" "new_to as op"
  shows "journal_ok n aid did (as @ [a])"
proof -
  have "mark a \<notin> set (rev (map mark as))" using assms(3,5) by (auto simp: new_to_def mark_def new_anchor_def)
  then show ?thesis using assms by (simp add: journal_ok_snoc mark_def) (simp add: new_anchor_def)
qed

lemma committed_ok:
  assumes "journal_ok n aid did (as @ [p])" "verify_anchor n c = Inr (True, m)"
    "p = (new_anchor ''prepared'' op aid k h did t)\<lparr>an_signature := sg\<rparr>" "c = (new_anchor ''committed'' op aid k h did t)\<lparr>an_signature := sg'\<rparr>" "new_to as op"
  shows "journal_ok n aid did (as @ [p, c])"
proof -
  have f: "an_operation_id c = PStr op" "an_phase c = PStr ''committed''" "an_attempt_id c = PStr aid" "an_actor_did c = PStr did" "an_created_at_ms c = PInt t"
    "an_operation_id p = PStr op" "an_phase p = PStr ''prepared''" "an_created_at_ms p = PInt t" "same_head p c"
    by (simp_all add: assms(3,4) new_anchor_def same_head_def py_eq_PInt num_of_def)
  have "mark c \<notin> set (rev (map mark (as @ [p])))" using f assms(5) by (auto simp: new_to_def mark_def)
  moreover have "map_of (prepared_in (as @ [p])) (PStr op) = Some p" using f by (simp add: prepared_in_def)
  ultimately have "anchor_sequence n aid did ''local'' (rev (map mark (as @ [p]))) (prepared_in (as @ [p])) (last_time 0 (as @ [p])) [c] = Inr ()"
    using f assms(2) by (simp add: mark_def last_time_def)
  then show ?thesis using journal_ok_snoc [OF assms(1), of c] by simp
qed

text \<open>A time stamp before the last anchor's spoils the journal.\<close>

lemma backdated_rejected:
  assumes "journal_ok n aid did as" "verify_anchor n a = Inr (True, m)" "an_created_at_ms a = PInt t" "t < last_time 0 as"
  shows "anchor_sequence n aid did ''local'' [] [] 0 (as @ a # bs) = reject ''payment attempt head anchor binding is invalid''"
  using assms anchor_sequence_append [of n aid did "''local''" "[]" "[]" 0 as "a # bs"] by (simp add: journal_ok_def)

section \<open>Accepted heads\<close>

definition head_of :: "head_anchor \<Rightarrow> pyval \<times> pyval" where
  "head_of a = (an_seq a, an_head_hash a)"

lemma latest_snoc: "latest_committed (as @ [a]) = (if an_phase a = PStr ''committed'' then int (length as) else latest_committed as)"
  by (simp add: latest_committed_def enumerate_append_eq)

lemma latest_bound: "latest_committed as < int (length as)"
  by (induction as rule: rev_induct) (auto simp: latest_snoc, simp add: latest_committed_def)

lemma accepted_snoc:
  "accepted_anchor_heads (as @ [a]) =
     (if an_phase a = PStr ''committed'' then [head_of a] else if an_phase a = PStr ''prepared'' then accepted_anchor_heads as @ [head_of a] else accepted_anchor_heads as)"
proof -
  have none: "filter (\<lambda>(i, a). int i = int (length as) \<or> int (length as) < int i \<and> an_phase a = PStr ''prepared'') (List.enumerate 0 as) = []"
    by (auto simp: filter_empty_conv in_set_enumerate_eq)
  show ?thesis using none latest_bound [of as]
    by (auto simp: accepted_anchor_heads_def Let_def latest_snoc enumerate_append_eq head_of_def)
qed

end
