(* ===== verification/Payment_Recovery.thy ===== *)
theory Payment_Recovery
  imports Payment_Journal
begin

text \<open>
  Crashes and rollbacks of the payment attempt store. The states of the disk are the ones that interrupted and complete writes lead to; in all of them
  the attempt is readable, an interrupted write leaves the old or the new chain, and after a complete write no other chain is accepted.
\<close>

section \<open>Loading\<close>

lemma attempt_id_split: "attempt_id_ok aid \<Longrightarrow> aid = id_prefix @ drop 25 aid"
proof -
  assume "attempt_id_ok aid"
  moreover have "length id_prefix = 25" by (simp add: id_prefix_def)
  ultimately have "take 25 aid = id_prefix" unfolding attempt_id_ok_def startswith_def id_prefix_def by metis
  then show "aid = id_prefix @ drop 25 aid" by (metis append_take_drop_id)
qed

lemma event_hash_shape: "payment_attempt_event_hash raw = Inr h \<Longrightarrow> event_hash_ok h"
  by (auto simp: payment_attempt_event_hash_def bindR_Inr_iff event_hash_ok_def startswith_def hex_text_def list_all_iff sha256_hex_lower)

definition document_of :: "string \<Rightarrow> pyval list \<Rightarrow> string \<Rightarrow> pyval" where
  "document_of aid events h = PDict (obj [(''attempt_id'', PStr aid), (''events'', PList events), (''head_hash'', PStr h)])"

definition chain_head :: "pyval list \<Rightarrow> string \<Rightarrow> pyval \<times> pyval" where
  "chain_head events h = (PInt (int (length events) - 1), PStr h)"

lemma load_stored:
  assumes "attempt_id_ok aid" "map_of (ps_docs st) (drop 25 aid) = Some (Document (document_of aid events h))" "events \<noteq> []"
    "payment_attempt_event_hash (List.last events) = Inr h"
  shows "load_attempt n w st (drop 25 aid) = bindR (validate_anchor n w st aid events h) (\<lambda>_. Inr (Some events))"
proof -
  have id: "id_prefix @ drop 25 aid = aid" using attempt_id_split [OF assms(1)] by simp
  have keys: "same_keys (obj [(''attempt_id'', PStr aid), (''events'', PList events), (''head_hash'', PStr h)]) [''attempt_id'', ''events'', ''head_hash'']"
    by (simp add: same_keys_def obj_def)
  have g: "dget (obj [(''attempt_id'', PStr aid), (''events'', PList events), (''head_hash'', PStr h)]) ''attempt_id'' = Some (PStr aid)"
    "dget (obj [(''attempt_id'', PStr aid), (''events'', PList events), (''head_hash'', PStr h)]) ''events'' = Some (PList events)"
    "dget (obj [(''attempt_id'', PStr aid), (''events'', PList events), (''head_hash'', PStr h)]) ''head_hash'' = Some (PStr h)"
    by (simp_all add: obj_def)
  show ?thesis using assms(3,4) event_hash_shape [OF assms(4)] keys g by (simp add: load_attempt_def assms(2) document_of_def Let_def id)
qed

lemma load_document:
  assumes "attempt_id_ok aid" "map_of (ps_docs st) (drop 25 aid) = Some (Document (document_of aid events h))" "events \<noteq> []"
    "payment_attempt_event_hash (List.last events) = Inr h" "first_actor events = Inr (PStr did)" "did \<noteq> []" "journal_is st (drop 25 aid) as"
  shows "load_attempt n None st (drop 25 aid) = bindR (anchor_sequence n aid did ''local'' [] [] 0 as) (\<lambda>_.
     ensure (as \<noteq> []) PaymentAttemptRejected ''stored payment attempt has no signed head journal'' (
     ensure (chain_head events h \<in> set (accepted_anchor_heads as)) PaymentAttemptRejected ''stored payment attempt was rolled back or lacks a durable prepare''
       (Inr (Some events))))"
proof -
  have stem: "attempt_stem aid = Inr (drop 25 aid)" using assms(1) by (simp add: attempt_stem_def)
  have v: "validate_anchor n None st aid events h = bindR (anchor_sequence n aid did ''local'' [] [] 0 as) (\<lambda>_.
     ensure (as \<noteq> []) PaymentAttemptRejected ''stored payment attempt has no signed head journal'' (
     ensure (chain_head events h \<in> set (accepted_anchor_heads as)) PaymentAttemptRejected ''stored payment attempt was rolled back or lacks a durable prepare'' (Inr ())))"
    using assms(5,6) read_journal [OF assms(7) stem]
    by (cases "anchor_sequence n aid did ''local'' [] [] 0 as") (simp_all add: validate_anchor_def validate_anchor_sequence_def chain_head_def)
  show ?thesis unfolding load_stored [OF assms(1-4)] v by (cases "anchor_sequence n aid did ''local'' [] [] 0 as") (auto simp: ensure_def)
qed

section \<open>The states of the disk\<close>

definition keeps :: "nacl \<Rightarrow> string \<Rightarrow> string \<Rightarrow> 'w payment_store \<Rightarrow> head_anchor list \<Rightarrow> pyval list option \<Rightarrow> bool" where
  "keeps n aid did st as cur \<longleftrightarrow> journal_is st (drop 25 aid) as \<and> journal_ok n aid did as \<and> (case cur of
     None \<Rightarrow> map_of (ps_docs st) (drop 25 aid) = None
   | Some events \<Rightarrow> (\<exists>h. map_of (ps_docs st) (drop 25 aid) = Some (Document (document_of aid events h)) \<and> events \<noteq> []
       \<and> payment_attempt_event_hash (List.last events) = Inr h \<and> first_actor events = Inr (PStr did) \<and> as \<noteq> [] \<and> chain_head events h \<in> set (accepted_anchor_heads as)))"

lemma keeps_load:
  assumes "attempt_id_ok aid" "did \<noteq> []" "keeps n aid did st as cur"
  shows "load_attempt n None st (drop 25 aid) = Inr cur"
proof (cases cur)
  case None
  then show ?thesis using assms(3) by (simp add: keeps_def load_attempt_def)
next
  case (Some events)
  then obtain h where h: "map_of (ps_docs st) (drop 25 aid) = Some (Document (document_of aid events h))" "events \<noteq> []"
    "payment_attempt_event_hash (List.last events) = Inr h" "first_actor events = Inr (PStr did)" "as \<noteq> []" "chain_head events h \<in> set (accepted_anchor_heads as)"
    "journal_is st (drop 25 aid) as" "journal_ok n aid did as"
    using assms(3) by (auto simp: keeps_def)
  show ?thesis using load_document [OF assms(1) h(1-4) assms(2) h(7)] h(5,6,8) Some by (simp add: journal_ok_def)
qed

text \<open>One write of the actor, after any number of its parts.\<close>

lemma persist_writes_eq:
  assumes "persist_writes n None actor stem aid events t op = Inr ws" "as_did actor = Inr did"
  obtains h where "events \<noteq> []" "payment_attempt_event_hash (List.last events) = Inr h"
    "ws = [with_signed n actor (new_anchor ''prepared'' op aid (length events - 1) h did t) append_anchor,
       with_signed n actor (new_anchor ''prepared'' op aid (length events - 1) h did t) (append_witness None),
       write_document stem (document_of aid events h),
       with_signed n actor (new_anchor ''committed'' op aid (length events - 1) h did t) append_anchor,
       with_signed n actor (new_anchor ''committed'' op aid (length events - 1) h did t) (append_witness None)]"
  using assms by (auto simp: persist_writes_def attempt_document_def bindR_Inr_iff ensure_Inr_iff Let_def document_of_def)

text \<open>The disk after the first anchor, after the document and after the last anchor.\<close>

definition store_anchors :: "string \<Rightarrow> head_anchor list \<Rightarrow> 'w payment_store \<Rightarrow> 'w payment_store" where
  "store_anchors stem as st = st\<lparr>ps_journals := assoc_put stem (journal_bytes as) (ps_journals st)\<rparr>"

definition store_document :: "string \<Rightarrow> pyval \<Rightarrow> 'w payment_store \<Rightarrow> 'w payment_store" where
  "store_document stem d st = st\<lparr>ps_docs := assoc_put stem (Document d) (ps_docs st)\<rparr>"

text \<open>The document of a chain is within the limit of the reader.\<close>

definition document_fits :: "string \<Rightarrow> pyval list \<Rightarrow> bool" where
  "document_fits aid events \<longleftrightarrow> (\<forall>h. payment_attempt_event_hash (List.last events) = Inr h \<longrightarrow> stored_document (document_of aid events h) = Document (document_of aid events h))"

definition fits_journal :: "head_anchor list \<Rightarrow> bool" where
  "fits_journal as \<longleftrightarrow> length (journal_bytes as) \<le> max_anchor_file_bytes"

definition anchor_for :: "string \<Rightarrow> string \<Rightarrow> string \<Rightarrow> pyval list \<Rightarrow> string \<Rightarrow> string \<Rightarrow> int \<Rightarrow> string \<Rightarrow> head_anchor" where
  "anchor_for phase op aid events h did t sg = (new_anchor phase op aid (length events - 1) h did t)\<lparr>an_signature := PStr sg\<rparr>"

lemma anchor_for_simps [simp]:
  "an_operation_id (anchor_for phase op aid events h did t sg) = PStr op" "an_phase (anchor_for phase op aid events h did t sg) = PStr phase"
  "an_attempt_id (anchor_for phase op aid events h did t sg) = PStr aid" "an_created_at_ms (anchor_for phase op aid events h did t sg) = PInt t"
  "plain_anchor (anchor_for phase op aid events h did t sg)"
  "events \<noteq> [] \<Longrightarrow> head_of (anchor_for phase op aid events h did t sg) = chain_head events h"
  by (simp_all add: anchor_for_def new_anchor_def plain_anchor_def flat_def head_of_def chain_head_def Suc_leI of_nat_diff)

lemma run_five:
  assumes "f1 st = (if a then (st1, Inr ()) else (st, Inl e1))" "f2 st1 = (st1, Inr ())" "f3 st1 = (st2, Inr ())"
    "a \<Longrightarrow> f4 st2 = (if b then (st3, Inr ()) else (st2, Inl e2))" "f5 st3 = (st3, Inr ())" "run_writes (take k [f1, f2, f3, f4, f5]) st = (st', out)"
  shows "st' = st \<and> (5 \<le> k \<longrightarrow> out \<noteq> Inr ()) \<or> a \<and> st' = st1 \<and> \<not> 5 \<le> k \<or> a \<and> st' = st2 \<and> (5 \<le> k \<longrightarrow> out \<noteq> Inr ()) \<or> a \<and> b \<and> st' = st3"
proof -
  consider "k = 0" | "k = 1" | "k = 2" | "k = 3" | "k = 4" | "5 \<le> k" by linarith
  then show ?thesis
    by cases (use assms in \<open>cases a; cases b; auto\<close>)+
qed

lemma written_states:
  assumes "journal_is st (drop 25 aid) as" "attempt_id_ok aid" and f: "stored_document (document_of aid events h) = Document (document_of aid events h)"
    and p: "sign_anchor n actor (new_anchor ''prepared'' op aid (length events - 1) h did t) = Inr (anchor_for ''prepared'' op aid events h did t sp)"
    and c: "sign_anchor n actor (new_anchor ''committed'' op aid (length events - 1) h did t) = Inr (anchor_for ''committed'' op aid events h did t sc)"
    and d: "ps = as @ [anchor_for ''prepared'' op aid events h did t sp]" "cs = ps @ [anchor_for ''committed'' op aid events h did t sc]"
      "st1 = store_anchors (drop 25 aid) ps st" "st2 = store_document (drop 25 aid) (document_of aid events h) st1"
    and w: "run_writes (take k [with_signed n actor (new_anchor ''prepared'' op aid (length events - 1) h did t) append_anchor,
       with_signed n actor (new_anchor ''prepared'' op aid (length events - 1) h did t) (append_witness None),
       write_document (drop 25 aid) (document_of aid events h),
       with_signed n actor (new_anchor ''committed'' op aid (length events - 1) h did t) append_anchor,
       with_signed n actor (new_anchor ''committed'' op aid (length events - 1) h did t) (append_witness None)]) st = (st', out)"
  shows "st' = st \<and> (5 \<le> k \<longrightarrow> out \<noteq> Inr ()) \<or> fits_journal ps \<and> st' = st1 \<and> \<not> 5 \<le> k \<or> fits_journal ps \<and> st' = st2 \<and> (5 \<le> k \<longrightarrow> out \<noteq> Inr ())
     \<or> fits_journal ps \<and> fits_journal cs \<and> st' = store_anchors (drop 25 aid) cs st2"
proof -
  let ?p = "anchor_for ''prepared'' op aid events h did t sp" and ?c = "anchor_for ''committed'' op aid events h did t sc"
  have stem: "attempt_stem aid = Inr (drop 25 aid)" using assms(2) by (simp add: attempt_stem_def)
  have plain: "list_all plain_anchor ps" using assms(1) by (simp add: d journal_is_def)
  have a1: "append_anchor ?p st = (if fits_journal ps then (st1, Inr ()) else (st, reject ''payment attempt head journal exceeds size limit''))"
    using append_journal [OF assms(1) _ stem, of ?p] by (simp add: d store_anchors_def fits_journal_def)
  have a2: "append_anchor ?c st2 = (if fits_journal cs then (store_anchors (drop 25 aid) cs st2, Inr ()) else (st2, reject ''payment attempt head journal exceeds size limit''))"
    if "fits_journal ps"
  proof -
    have "journal_is st2 (drop 25 aid) ps"
      using plain that by (simp add: d(3,4) store_document_def store_anchors_def journal_is_def fits_journal_def)
    from append_journal [OF this _ stem, of ?c] show ?thesis by (simp add: d(2) store_anchors_def fits_journal_def)
  qed
  show ?thesis
  proof (rule run_five [OF _ _ _ _ _ w])
    show "with_signed n actor (new_anchor ''prepared'' op aid (length events - 1) h did t) append_anchor st =
      (if fits_journal ps then (st1, Inr ()) else (st, Inl (Exn PaymentAttemptRejected ''payment attempt head journal exceeds size limit'')))"
      unfolding with_signed_def p sum.case a1 reject_def ..
    show "with_signed n actor (new_anchor ''committed'' op aid (length events - 1) h did t) append_anchor st2 =
      (if fits_journal cs then (store_anchors (drop 25 aid) cs st2, Inr ()) else (st2, Inl (Exn PaymentAttemptRejected ''payment attempt head journal exceeds size limit'')))"
      if "fits_journal ps" unfolding with_signed_def c sum.case a2 [OF that] reject_def ..
  qed (unfold with_signed_def p c d(4), simp_all add: append_witness_def write_document_def store_document_def f)
qed

text \<open>A write by the actor of the attempt, of a document within the limit.\<close>

definition own_write :: "nacl \<Rightarrow> identity \<Rightarrow> string \<Rightarrow> pyval list \<Rightarrow> int \<Rightarrow> string \<Rightarrow> 'w store_write list \<Rightarrow> bool" where
  "own_write n actor aid events t op ws \<longleftrightarrow> persist_writes n None actor (drop 25 aid) aid events t op = Inr ws \<and> bindR (as_did actor) (\<lambda>did. Inr (PStr did)) = first_actor events
     \<and> lease_id_ok op \<and> 0 < t \<and> document_fits aid events"

text \<open>A write with the signatures of its two anchors.\<close>

definition signed_write :: "nacl \<Rightarrow> identity \<Rightarrow> string \<Rightarrow> pyval list \<Rightarrow> int \<Rightarrow> string \<Rightarrow> 'w store_write list \<Rightarrow> string \<Rightarrow> string \<Rightarrow> string \<Rightarrow> string \<Rightarrow> bool" where
  "signed_write n actor aid events t op ws did h sp sc \<longleftrightarrow> events \<noteq> [] \<and> payment_attempt_event_hash (List.last events) = Inr h \<and> first_actor events = Inr (PStr did)
     \<and> stored_document (document_of aid events h) = Document (document_of aid events h)
     \<and> sign_anchor n actor (new_anchor ''prepared'' op aid (length events - 1) h did t) = Inr (anchor_for ''prepared'' op aid events h did t sp)
     \<and> sign_anchor n actor (new_anchor ''committed'' op aid (length events - 1) h did t) = Inr (anchor_for ''committed'' op aid events h did t sc)
     \<and> verify_anchor n (anchor_for ''prepared'' op aid events h did t sp) = Inr (True, ''ok'')
     \<and> verify_anchor n (anchor_for ''committed'' op aid events h did t sc) = Inr (True, ''ok'')
     \<and> ws = [with_signed n actor (new_anchor ''prepared'' op aid (length events - 1) h did t) append_anchor,
       with_signed n actor (new_anchor ''prepared'' op aid (length events - 1) h did t) (append_witness None),
       write_document (drop 25 aid) (document_of aid events h),
       with_signed n actor (new_anchor ''committed'' op aid (length events - 1) h did t) append_anchor,
       with_signed n actor (new_anchor ''committed'' op aid (length events - 1) h did t) (append_witness None)]"

lemma own_write_signed:
  assumes "ed25519_ok n" "signer_ok n actor" "attempt_id_ok aid" "own_write n actor aid events t op ws" "as_did actor = Inr did"
  obtains h sp sc where "signed_write n actor aid events t op ws did h sp sc"
proof -
  have w: "persist_writes n None actor (drop 25 aid) aid events t op = Inr ws" "first_actor events = Inr (PStr did)" "lease_id_ok op" "0 < t" "document_fits aid events"
    using assms(4,5) by (simp_all add: own_write_def)
  from w(1) assms(5) show thesis
  proof (rule persist_writes_eq)
    fix h assume h: "events \<noteq> []" "payment_attempt_event_hash (List.last events) = Inr h"
      and ws: "ws = [with_signed n actor (new_anchor ''prepared'' op aid (length events - 1) h did t) append_anchor,
       with_signed n actor (new_anchor ''prepared'' op aid (length events - 1) h did t) (append_witness None),
       write_document (drop 25 aid) (document_of aid events h),
       with_signed n actor (new_anchor ''committed'' op aid (length events - 1) h did t) append_anchor,
       with_signed n actor (new_anchor ''committed'' op aid (length events - 1) h did t) (append_witness None)]"
    note sig = signed_anchor [OF assms(1,2,5) w(3) assms(3) event_hash_shape [OF h(2)] w(4), where k = "length events - 1"]
    obtain sp where "sign_anchor n actor (new_anchor ''prepared'' op aid (length events - 1) h did t) = Inr (anchor_for ''prepared'' op aid events h did t sp)"
      "verify_anchor n (anchor_for ''prepared'' op aid events h did t sp) = Inr (True, ''ok'')"
      unfolding anchor_for_def by (rule sig [of "''prepared''"]) auto
    moreover obtain sc where "sign_anchor n actor (new_anchor ''committed'' op aid (length events - 1) h did t) = Inr (anchor_for ''committed'' op aid events h did t sc)"
      "verify_anchor n (anchor_for ''committed'' op aid events h did t sc) = Inr (True, ''ok'')"
      unfolding anchor_for_def by (rule sig [of "''committed''"]) auto
    ultimately show thesis using that [of h sp sc] h ws w(2,5) unfolding signed_write_def document_fits_def by blast
  qed
qed

lemma write_step:
  assumes ok: "ed25519_ok n" "signer_ok n actor" "as_did actor = Inr did" "attempt_id_ok aid"
    and st: "keeps n aid did st as cur" "last_time 0 as \<le> t" "new_to as op"
    and w: "own_write n actor aid events t op ws" "run_writes (take k ws) st = (st', out)"
  obtains as' cur' where "keeps n aid did st' as' cur'" "cur' = cur \<or> cur' = Some events" "last_time 0 as' \<le> t"
    "an_operation_id ` set as' \<subseteq> insert (PStr op) (an_operation_id ` set as)"
    "5 \<le> k \<Longrightarrow> out = Inr () \<Longrightarrow> cur' = Some events \<and> (\<exists>h. payment_attempt_event_hash (List.last events) = Inr h \<and> accepted_anchor_heads as' = [chain_head events h])"
proof -
  from ok(1,2,4) w(1) ok(3) obtain h sp sc where s: "signed_write n actor aid events t op ws did h sp sc" by (rule own_write_signed)
  let ?p = "anchor_for ''prepared'' op aid events h did t sp" and ?c = "anchor_for ''committed'' op aid events h did t sc"
  have h: "events \<noteq> []" "payment_attempt_event_hash (List.last events) = Inr h" "first_actor events = Inr (PStr did)"
    and fits: "stored_document (document_of aid events h) = Document (document_of aid events h)"
    and sp: "sign_anchor n actor (new_anchor ''prepared'' op aid (length events - 1) h did t) = Inr ?p" "verify_anchor n ?p = Inr (True, ''ok'')"
    and sc: "sign_anchor n actor (new_anchor ''committed'' op aid (length events - 1) h did t) = Inr ?c" "verify_anchor n ?c = Inr (True, ''ok'')"
    and ws: "ws = [with_signed n actor (new_anchor ''prepared'' op aid (length events - 1) h did t) append_anchor,
       with_signed n actor (new_anchor ''prepared'' op aid (length events - 1) h did t) (append_witness None),
       write_document (drop 25 aid) (document_of aid events h),
       with_signed n actor (new_anchor ''committed'' op aid (length events - 1) h did t) append_anchor,
       with_signed n actor (new_anchor ''committed'' op aid (length events - 1) h did t) (append_witness None)]"
    using s unfolding signed_write_def by blast+
  have j: "journal_is st (drop 25 aid) as" "journal_ok n aid did as" using st(1) by (simp_all add: keeps_def)
  have okp: "journal_ok n aid did (as @ [?p])" using prepared_ok [OF j(2) sp(2) anchor_for_def st(2,3)] .
  have okc: "journal_ok n aid did (as @ [?p, ?c])" using committed_ok [OF okp sc(2) anchor_for_def anchor_for_def st(3)] .
  have accp: "accepted_anchor_heads (as @ [?p]) = accepted_anchor_heads as @ [chain_head events h]" using h(1) by (simp add: accepted_snoc)
  have accc: "accepted_anchor_heads ((as @ [?p]) @ [?c]) = [chain_head events h]" using h(1) by (subst accepted_snoc) simp
  have pl: "list_all plain_anchor as" using j(1) by (simp add: journal_is_def)
  have times: "last_time 0 (as @ [?p]) \<le> t" "last_time 0 (as @ [?p, ?c]) \<le> t" by (simp_all add: last_time_def)
  consider (same) "st' = st" "5 \<le> k \<longrightarrow> out \<noteq> Inr ()"
    | (prep) "fits_journal (as @ [?p])" "st' = store_anchors (drop 25 aid) (as @ [?p]) st" "\<not> 5 \<le> k"
    | (doc) "fits_journal (as @ [?p])" "st' = store_document (drop 25 aid) (document_of aid events h) (store_anchors (drop 25 aid) (as @ [?p]) st)" "5 \<le> k \<longrightarrow> out \<noteq> Inr ()"
    | (full) "fits_journal ((as @ [?p]) @ [?c])"
        "st' = store_anchors (drop 25 aid) ((as @ [?p]) @ [?c]) (store_document (drop 25 aid) (document_of aid events h) (store_anchors (drop 25 aid) (as @ [?p]) st))"
    using written_states [OF j(1) ok(4) fits sp(1) sc(1) refl refl refl refl w(2) [unfolded ws]] by blast
  then show thesis
  proof cases
    case same
    then show ?thesis using that [of as cur] st by auto
  next
    case prep
    have "keeps n aid did st' (as @ [?p]) cur"
      using st(1) prep(1) okp pl unfolding keeps_def prep(2) by (auto simp: accp journal_is_def store_anchors_def fits_journal_def split: option.splits)
    then show ?thesis using that [of "as @ [?p]" cur] times prep(3) by auto
  next
    case doc
    have "keeps n aid did st' (as @ [?p]) (Some events)"
      using doc(1) okp pl h unfolding keeps_def doc(2) by (simp add: accp journal_is_def store_anchors_def store_document_def fits_journal_def)
    then show ?thesis using that [of "as @ [?p]" "Some events"] times doc(3) by auto
  next
    case full
    have "keeps n aid did st' ((as @ [?p]) @ [?c]) (Some events)"
      using full(1) okc pl h unfolding keeps_def full(2) accc by (simp add: journal_is_def store_anchors_def store_document_def fits_journal_def)
    then show ?thesis using that [of "(as @ [?p]) @ [?c]" "Some events"] times accc h(2) by auto
  qed
qed

text \<open>The disk of one attempt: nothing at first, then writes by its actor, each of them possibly cut short, with time stamps that do not go back and
  fresh operation identifiers.\<close>

inductive attempt_disk :: "nacl \<Rightarrow> identity \<Rightarrow> string \<Rightarrow> 'w payment_store \<Rightarrow> int \<Rightarrow> string list \<Rightarrow> bool" for n actor aid where
  empty: "map_of (ps_docs st) (drop 25 aid) = None \<Longrightarrow> map_of (ps_journals st) (drop 25 aid) = None \<Longrightarrow> attempt_disk n actor aid st 0 []"
| written: "attempt_disk n actor aid st t0 ops \<Longrightarrow> own_write n actor aid events t op ws \<Longrightarrow> t0 \<le> t \<Longrightarrow> op \<notin> set ops \<Longrightarrow>
     run_writes (take k ws) st = (st', out) \<Longrightarrow> attempt_disk n actor aid st' t (op # ops)"

lemma disk_keeps:
  assumes "attempt_disk n actor aid st t ops" "ed25519_ok n" "signer_ok n actor" "as_did actor = Inr did" "attempt_id_ok aid"
  shows "\<exists>as cur. keeps n aid did st as cur \<and> last_time 0 as \<le> t \<and> an_operation_id ` set as \<subseteq> PStr ` set ops"
  using assms(1)
proof (induction rule: attempt_disk.induct)
  case (empty st)
  then show ?case
    by (intro exI [of _ "[]"] exI [of _ None]) (simp add: keeps_def journal_is_def journal_ok_def last_time_def max_anchor_file_bytes_def)
next
  case (written st t0 ops events t op ws k st' out)
  then obtain as cur where k: "keeps n aid did st as cur" "last_time 0 as \<le> t0" "an_operation_id ` set as \<subseteq> PStr ` set ops" by blast
  have "last_time 0 as \<le> t" "new_to as op" using k(2,3) written.hyps(3,4) by (auto simp: new_to_def)
  from write_step [OF assms(2-5) k(1) this written.hyps(2,5)] show ?case using k(3) by (metis (no_types, lifting) image_insert insert_mono list.set(2) order_trans)
qed

text \<open>C20. A write of a payment attempt is atomic under crashes: on a disk that earlier writes of the actor, interrupted or complete, led to, the attempt can be
  read; a write cut after any of its five parts leaves the chain from before or the new one, and a write that returns leaves the new one. This is for a store without an
  external witness, for time stamps that are not before those of the earlier writes, for fresh operation identifiers and for documents whose file is within the one
  mebibyte that the reader accepts; the lemmas \<open>earlier_clock_spoils_journal\<close> and \<open>oversized_document_unreadable\<close> show what happens otherwise.\<close>

theorem payment_write_atomic:
  assumes "ed25519_ok n" "signer_ok n actor" "attempt_id_ok aid" "attempt_disk n actor aid st t0 ops"
    "own_write n actor aid events t op ws" "t0 \<le> t" "op \<notin> set ops" "run_writes (take k ws) st = (st', out)"
  shows "\<exists>found. load_attempt n None st (drop 25 aid) = Inr found
     \<and> (load_attempt n None st' (drop 25 aid) = Inr found \<or> load_attempt n None st' (drop 25 aid) = Inr (Some events))
     \<and> (5 \<le> k \<and> out = Inr () \<longrightarrow> load_attempt n None st' (drop 25 aid) = Inr (Some events))"
proof -
  obtain did where did: "as_did actor = Inr did" "did \<noteq> []"
    by (rule signer_did [OF assms(1,2)]) (auto simp: decode_did_iff did_length_pos)
  obtain as cur where k: "keeps n aid did st as cur" "last_time 0 as \<le> t0" "an_operation_id ` set as \<subseteq> PStr ` set ops"
    using disk_keeps [OF assms(4,1,2) did(1) assms(3)] by blast
  have n: "last_time 0 as \<le> t" "new_to as op" using k(2,3) assms(6,7) by (auto simp: new_to_def)
  obtain as' cur' where r: "keeps n aid did st' as' cur'" "cur' = cur \<or> cur' = Some events" "5 \<le> k \<Longrightarrow> out = Inr () \<Longrightarrow> cur' = Some events"
    by (rule write_step [OF assms(1,2) did(1) assms(3) k(1) n assms(5,8)]) blast
  show ?thesis using keeps_load [OF assms(3) did(2) k(1)] keeps_load [OF assms(3) did(2) r(1)] r(2,3) by auto
qed

lemma load_validated:
  assumes "load_attempt n w st (drop 25 aid) = Inr (Some events)" "attempt_id_ok aid"
  obtains h did where "events \<noteq> []" "payment_attempt_event_hash (List.last events) = Inr h" "first_actor events = Inr (PStr did)" "validate_anchor n w st aid events h = Inr ()"
proof -
  have id: "id_prefix @ drop 25 aid = aid" using attempt_id_split [OF assms(2)] by simp
  obtain v where v: "map_of (ps_docs st) (drop 25 aid) = Some (Document v)"
    using assms(1) by (auto simp: load_attempt_def reject_def split: option.splits doc_file.splits)
  note l = assms(1) [unfolded load_attempt_def v option.case doc_file.case Let_def id]
  obtain d where d: "v = PDict d" using l by (cases v) (auto simp: reject_def)
  obtain es where es: "dget d ''events'' = Some (PList es)" using l by (auto simp: d reject_def split: if_splits option.splits pyval.splits)
  obtain h where h: "dget d ''head_hash'' = Some (PStr h)" using l es by (auto simp: d reject_def split: if_splits option.splits pyval.splits)
  have e: "es \<noteq> []" "payment_attempt_event_hash (List.last es) = Inr h" "validate_anchor n w st aid es h = Inr ()" "es = events"
    using l es h by (auto simp: d reject_def bindR_Inr_iff split: if_splits)
  obtain x where x: "first_actor es = Inr x" using e(3) by (auto simp: validate_anchor_def bindR_Inr_iff)
  then obtain did where "first_actor es = Inr (PStr did)"
    using e(3) by (cases x) (auto simp: validate_anchor_def reject_def)
  then show thesis using that e by blast
qed

lemma load_found:
  assumes "load_attempt n None st (drop 25 aid) = Inr (Some events)" "attempt_id_ok aid" "journal_is st (drop 25 aid) as"
  obtains h where "events \<noteq> []" "payment_attempt_event_hash (List.last events) = Inr h" "chain_head events h \<in> set (accepted_anchor_heads as)"
proof -
  have stem: "attempt_stem aid = Inr (drop 25 aid)" using assms(2) by (simp add: attempt_stem_def)
  obtain h did where e: "events \<noteq> []" "payment_attempt_event_hash (List.last events) = Inr h" "first_actor events = Inr (PStr did)" "validate_anchor n None st aid events h = Inr ()"
    using assms(1,2) by (rule load_validated)
  then have "chain_head events h \<in> set (accepted_anchor_heads as)"
    using read_journal [OF assms(3) stem] by (auto simp: validate_anchor_def bindR_Inr_iff ensure_Inr_iff validate_anchor_sequence_def chain_head_def Let_def)
  then show thesis using that e by blast
qed

text \<open>Rollback of the document is detected: after a complete write of a verified chain, whatever the document files are replaced with, a verified chain that
  the store still accepts for the attempt is the written one, event by event up to the order of keys, or exhibits a hash collision.\<close>

lemma payment_rollback_detected:
  assumes "ed25519_ok n" "signer_ok n actor" "attempt_id_ok aid" "attempt_disk n actor aid st t0 ops"
    "own_write n actor aid events t op ws" "t0 \<le> t" "op \<notin> set ops" "run_writes ws st = (st', Inr ())"
    "load_attempt n None (st'\<lparr>ps_docs := docs\<rparr>) (drop 25 aid) = Inr (Some found)"
    "verify_payment_attempt n now events = Inr (True, m)" "verify_payment_attempt n now' found = Inr (True, m')" "list_all keys_once events" "list_all keys_once found"
  shows "list_all2 (\<lambda>x y. canon x = canon y) found events \<or> (\<exists>x \<in> set found. \<exists>y \<in> set events. sha_collision (event_bytes x) (event_bytes y))"
proof -
  obtain did where did: "as_did actor = Inr did" using assms(1,2) by (rule signer_did)
  obtain as cur where k: "keeps n aid did st as cur" "last_time 0 as \<le> t0" "an_operation_id ` set as \<subseteq> PStr ` set ops"
    using disk_keeps [OF assms(4,1,2) did assms(3)] by blast
  have n: "last_time 0 as \<le> t" "new_to as op" using k(2,3) assms(6,7) by (auto simp: new_to_def)
  have "length ws = 5" using assms(5) did by (auto simp: own_write_def elim: persist_writes_eq)
  then have run: "run_writes (take 5 ws) st = (st', Inr ())" using assms(8) by simp
  obtain as' h where r: "journal_is st' (drop 25 aid) as'" "payment_attempt_event_hash (List.last events) = Inr h" "accepted_anchor_heads as' = [chain_head events h]"
    by (rule write_step [OF assms(1,2) did assms(3) k(1) n assms(5) run]) (auto simp: keeps_def)
  have "journal_is (st'\<lparr>ps_docs := docs\<rparr>) (drop 25 aid) as'" using r(1) by (simp add: journal_is_def)
  from load_found [OF assms(9,3) this] obtain h' where f: "payment_attempt_event_hash (List.last found) = Inr h'" "chain_head found h' = chain_head events h"
    using r(3) by auto
  have "payment_attempt_event_hash (List.last found) = payment_attempt_event_hash (List.last events)" using f r(2) by (simp add: chain_head_def)
  moreover have "events \<noteq> []" using assms(10) verified_linked(2) assms(12) by blast
  ultimately show ?thesis using head_commits [OF assms(11) _ _ assms(13), of now events "[]"] assms(10,12) by simp
qed

section \<open>Documents over the limit\<close>

lemma write_keeps_docs: "with_signed n actor a append_anchor st = (st', out) \<Longrightarrow> ps_docs st' = ps_docs st"
    "with_signed n actor a (append_witness w) st = (st', out) \<Longrightarrow> ps_docs st' = ps_docs st"
  by (auto simp: with_signed_def append_anchor_def append_witness_def split: sum.splits prod.splits option.splits)

lemma run_writes_step: "run_writes (f # fs) st = (st', Inr ()) \<Longrightarrow> \<exists>st1. f st = (st1, Inr ()) \<and> run_writes fs st1 = (st', Inr ())"
  by (auto split: prod.splits sum.splits)

lemma persist_document:
  assumes "persist n w actor stem aid events t op st = (st', Inr ())" "payment_attempt_event_hash (List.last events) = Inr h"
  shows "map_of (ps_docs st') stem = Some (stored_document (document_of aid events h))"
proof -
  obtain did where p: "persist_writes n w actor stem aid events t op = Inr [with_signed n actor (new_anchor ''prepared'' op aid (length events - 1) h did t) append_anchor,
       with_signed n actor (new_anchor ''prepared'' op aid (length events - 1) h did t) (append_witness w),
       write_document stem (document_of aid events h),
       with_signed n actor (new_anchor ''committed'' op aid (length events - 1) h did t) append_anchor,
       with_signed n actor (new_anchor ''committed'' op aid (length events - 1) h did t) (append_witness w)]"
    using assms by (auto simp: persist_def persist_writes_def attempt_document_def bindR_Inr_iff ensure_Inr_iff Let_def document_of_def split: sum.splits)
  note r = assms(1) [unfolded persist_def p sum.case]
  obtain s1 where "run_writes [with_signed n actor (new_anchor ''prepared'' op aid (length events - 1) h did t) (append_witness w), write_document stem (document_of aid events h),
       with_signed n actor (new_anchor ''committed'' op aid (length events - 1) h did t) append_anchor,
       with_signed n actor (new_anchor ''committed'' op aid (length events - 1) h did t) (append_witness w)] s1 = (st', Inr ())" using run_writes_step [OF r] by blast
  then obtain s2 where "run_writes [write_document stem (document_of aid events h), with_signed n actor (new_anchor ''committed'' op aid (length events - 1) h did t) append_anchor,
       with_signed n actor (new_anchor ''committed'' op aid (length events - 1) h did t) (append_witness w)] s2 = (st', Inr ())" using run_writes_step by blast
  then obtain s3 where s3: "write_document stem (document_of aid events h) s2 = (s3, Inr ())" "run_writes [with_signed n actor (new_anchor ''committed'' op aid (length events - 1) h did t) append_anchor,
       with_signed n actor (new_anchor ''committed'' op aid (length events - 1) h did t) (append_witness w)] s3 = (st', Inr ())" using run_writes_step by blast
  obtain s4 where s4: "with_signed n actor (new_anchor ''committed'' op aid (length events - 1) h did t) append_anchor s3 = (s4, Inr ())"
    "run_writes [with_signed n actor (new_anchor ''committed'' op aid (length events - 1) h did t) (append_witness w)] s4 = (st', Inr ())" using run_writes_step [OF s3(2)] by blast
  obtain s5 where s5: "with_signed n actor (new_anchor ''committed'' op aid (length events - 1) h did t) (append_witness w) s4 = (s5, Inr ())" "run_writes [] s5 = (st', Inr ())"
    using run_writes_step [OF s4(2)] by blast
  have "ps_docs st' = ps_docs s3" using write_keeps_docs(1) [OF s4(1)] write_keeps_docs(2) [OF s5(1)] s5(2) by simp
  then show ?thesis using s3(1) by (auto simp: write_document_def)
qed

text \<open>The limit of a chain is on its canonical form, that of a file on its indented text, and nothing is compared before a write: a write of a document over the limit
  returns normally, and the attempt cannot be read any more.\<close>

lemma oversized_document_unreadable:
  assumes "persist n w actor stem aid events t op st = (st', Inr ())" "payment_attempt_event_hash (List.last events) = Inr h"
    "max_file_bytes < length (utf8 (text_indent 0 (document_of aid events h)))"
  shows "load_attempt n w' st' stem = reject ''stored payment attempt exceeds size limit''"
  using persist_document [OF assms(1,2)] assms(3) by (simp add: load_attempt_def stored_document_def)

section \<open>Clocks\<close>

lemma first_part:
  assumes "journal_is st (drop 25 aid) as" "attempt_id_ok aid" "signed_write n actor aid events t op ws did h sp sc" "run_writes (take 1 ws) st = (st1, Inr ())"
  shows "fits_journal (as @ [anchor_for ''prepared'' op aid events h did t sp]) \<and> st1 = store_anchors (drop 25 aid) (as @ [anchor_for ''prepared'' op aid events h did t sp]) st"
proof -
  let ?p = "anchor_for ''prepared'' op aid events h did t sp"
  have stem: "attempt_stem aid = Inr (drop 25 aid)" using assms(2) by (simp add: attempt_stem_def)
  have "append_anchor ?p st = (st1, Inr ())" using assms(3,4) by (auto simp: signed_write_def with_signed_def split: prod.splits sum.splits)
  then show ?thesis using append_journal [OF assms(1) _ stem, of ?p] by (auto simp: store_anchors_def fits_journal_def reject_def split: if_splits)
qed

lemma all_parts:
  assumes "journal_is st (drop 25 aid) as" "attempt_id_ok aid" "signed_write n actor aid events t op ws did h sp sc" "run_writes ws st = (st1, Inr ())"
  shows "journal_is st1 (drop 25 aid) ((as @ [anchor_for ''prepared'' op aid events h did t sp]) @ [anchor_for ''committed'' op aid events h did t sc])
     \<and> map_of (ps_docs st1) (drop 25 aid) = Some (Document (document_of aid events h))"
proof -
  let ?p = "anchor_for ''prepared'' op aid events h did t sp" and ?c = "anchor_for ''committed'' op aid events h did t sc"
  have s: "stored_document (document_of aid events h) = Document (document_of aid events h)"
    "sign_anchor n actor (new_anchor ''prepared'' op aid (length events - 1) h did t) = Inr ?p"
    "sign_anchor n actor (new_anchor ''committed'' op aid (length events - 1) h did t) = Inr ?c"
    and ws: "ws = [with_signed n actor (new_anchor ''prepared'' op aid (length events - 1) h did t) append_anchor,
       with_signed n actor (new_anchor ''prepared'' op aid (length events - 1) h did t) (append_witness None),
       write_document (drop 25 aid) (document_of aid events h),
       with_signed n actor (new_anchor ''committed'' op aid (length events - 1) h did t) append_anchor,
       with_signed n actor (new_anchor ''committed'' op aid (length events - 1) h did t) (append_witness None)]"
    using assms(3) unfolding signed_write_def by blast+
  have "run_writes (take 5 ws) st = (st1, Inr ())" using assms(4) ws by simp
  from written_states [OF assms(1,2) s refl refl refl refl this [unfolded ws]]
  have d: "fits_journal ((as @ [?p]) @ [?c])" "st1 = store_anchors (drop 25 aid) ((as @ [?p]) @ [?c]) (store_document (drop 25 aid) (document_of aid events h) (store_anchors (drop 25 aid) (as @ [?p]) st))"
    by auto
  have "list_all plain_anchor as" using assms(1) by (simp add: journal_is_def)
  then show ?thesis using d(1) unfolding d(2) by (simp add: journal_is_def store_anchors_def store_document_def fits_journal_def)
qed

text \<open>An interrupted write and a clock that steps back lose the attempt: after the first part of a write at one time stamp, a complete later write
  with an earlier time stamp returns normally, and the attempt cannot be read any more. The chain's own check compares with the last
  event only, the journal's with the last anchor.\<close>

lemma earlier_clock_spoils_journal:
  assumes "ed25519_ok n" "signer_ok n actor" "attempt_id_ok aid" "attempt_disk n actor aid st t0 ops" "own_write n actor aid es t1 op1 ws1" "t0 \<le> t1" "op1 \<notin> set ops"
    "run_writes (take 1 ws1) st = (st1, Inr ())" "own_write n actor aid events t op ws" "t < t1" "run_writes ws st1 = (st2, Inr ())"
  shows "load_attempt n None st2 (drop 25 aid) = reject ''payment attempt head anchor binding is invalid''"
proof -
  obtain did where did: "as_did actor = Inr did" "did \<noteq> []"
    by (rule signer_did [OF assms(1,2)]) (auto simp: decode_did_iff did_length_pos)
  obtain as cur where k: "keeps n aid did st as cur" "last_time 0 as \<le> t0" "an_operation_id ` set as \<subseteq> PStr ` set ops"
    using disk_keeps [OF assms(4,1,2) did(1) assms(3)] by blast
  have j: "journal_is st (drop 25 aid) as" "journal_ok n aid did as" using k(1) by (simp_all add: keeps_def)
  have new: "last_time 0 as \<le> t1" "new_to as op1" using k(2,3) assms(6,7) by (auto simp: new_to_def)
  from assms(1-3,5) did(1) obtain h1 sp1 sc1 where w1: "signed_write n actor aid es t1 op1 ws1 did h1 sp1 sc1" by (rule own_write_signed)
  from assms(1-3,9) did(1) obtain h sp sc where w: "signed_write n actor aid events t op ws did h sp sc" by (rule own_write_signed)
  let ?p1 = "anchor_for ''prepared'' op1 aid es h1 did t1 sp1" and ?p = "anchor_for ''prepared'' op aid events h did t sp"
    and ?c = "anchor_for ''committed'' op aid events h did t sc"
  have a1: "fits_journal (as @ [?p1])" "st1 = store_anchors (drop 25 aid) (as @ [?p1]) st" using first_part [OF j(1) assms(3) w1 assms(8)] by auto
  have j1: "journal_is st1 (drop 25 aid) (as @ [?p1])" using j(1) a1 by (simp add: journal_is_def store_anchors_def fits_journal_def)
  have ok1: "journal_ok n aid did (as @ [?p1])" using prepared_ok [OF j(2) _ anchor_for_def new] w1 by (simp add: signed_write_def)
  have j2: "journal_is st2 (drop 25 aid) (((as @ [?p1]) @ [?p]) @ [?c])" and d2: "map_of (ps_docs st2) (drop 25 aid) = Some (Document (document_of aid events h))"
    using all_parts [OF j1 assms(3) w assms(11)] by auto
  have "anchor_sequence n aid did ''local'' [] [] 0 ((as @ [?p1]) @ ?p # [?c]) = reject ''payment attempt head anchor binding is invalid''"
    using backdated_rejected [OF ok1, of ?p "''ok''" t "[?c]"] w assms(10) by (simp add: signed_write_def last_time_def)
  then show ?thesis using load_document [OF assms(3) d2 _ _ _ did(2) j2, of n] w by (simp add: signed_write_def reject_def)
qed

end
