(* ===== verification/Payment_Ops.thy ===== *)
theory Payment_Ops
  imports Payment_Recovery Money Json_Size
begin

text \<open>
  The operations on stored payment attempts: what creating an attempt leaves behind, that a claimed attempt cannot be claimed again while the lease runs, and that an honest
  attempt from creation over a claim to its settlement is accepted at every step.
\<close>

section \<open>Events of modest size\<close>

lemma chars_bound: "json_chars v \<le> json_bound v" "(\<Sum>x\<leftarrow>xs. json_chars x) \<le> bound_list xs"
  "(\<Sum>q\<leftarrow>d. length (key_text (fst q)) + json_chars (snd q)) \<le> bound_pairs d"
  by (induction v and xs and d rule: json_bound_bound_list_bound_pairs.induct) auto

definition modest :: "nat \<Rightarrow> pyval \<Rightarrow> bool" where
  "modest b v \<longleftrightarrow> wf_json v \<and> plain_json 1 v \<and> json_nodes v \<le> 1000 \<and> json_bound v \<le> b"

lemma modest_chain:
  assumes "list_all (modest 60000) events" "length events \<le> 5"
  obtains bs where "preflight_attempt_json (PList events)" "canonical_json (PDict (obj [(''events'', PList events)])) = Inr bs" "length bs \<le> max_chain_bytes"
proof -
  have "bound_list events \<le> length events * 60001" "(\<Sum>x\<leftarrow>events. json_nodes x) \<le> length events * 1000" and wf: "wf_json_list events" and p: "\<forall>x \<in> set events. plain_json 1 x"
    using assms(1) by (induction events) (auto simp: modest_def)
  then have b: "bound_list events \<le> 300005" "(\<Sum>x\<leftarrow>events. json_nodes x) \<le> 5000" using assms(2) by simp_all
  have "preflight_attempt_json (PList events)"
    using p b chars_bound(2) [of events]
    by (simp add: preflight_iff max_json_nodes_def max_chain_bytes_def max_json_depth_def)
  moreover obtain bs where "canonical_json (PDict (obj [(''events'', PList events)])) = Inr bs" "length bs \<le> 2 * json_bound (PDict (obj [(''events'', PList events)]))"
    by (rule canonical_json_bound [of "obj [(''events'', PList events)]"]) (use wf in \<open>auto simp: obj_def is_str_def\<close>)
  ultimately show thesis using that [of bs] b by (simp add: obj_def key_text_def max_chain_bytes_def)
qed

section \<open>Signed events\<close>

text \<open>The file of a chain of at most three such events is within the limit of the reader: the indented text takes at most the size of the compact one and
  a fixed amount for each value, as the depth is bounded.\<close>

lemma indented_size:
  fixes D c :: nat
  assumes "D = max_json_depth + c" "m = 4 * D"
  shows "plain_json j v \<Longrightarrow> k \<le> j + c \<Longrightarrow> length (utf8 (text_indent k v)) + m \<le> json_bound v + 2 * m * json_nodes v"
    "(\<forall>x \<in> set xs. plain_json j x) \<Longrightarrow> k \<le> j + c \<Longrightarrow> k \<le> D \<Longrightarrow> length (utf8 (text_elems k xs)) \<le> bound_list xs + 2 * m * (\<Sum>x\<leftarrow>xs. json_nodes x)"
    "(\<forall>q \<in> set d. is_str (fst q) \<and> plain_json j (snd q)) \<Longrightarrow> k \<le> j + c \<Longrightarrow> k \<le> D \<Longrightarrow> length (utf8 (text_members k d)) \<le> bound_pairs d + 2 * m * (\<Sum>q\<leftarrow>d. json_nodes (snd q))"
proof (induction k v and k xs and k d arbitrary: j and j and j rule: text_indent_text_elems_text_members.induct)
  case (1 k xs)
  show ?case
  proof (cases xs)
    case (Cons x ys)
    then have kd: "Suc k \<le> D" using "1.prems" assms(1) by simp
    have e: "length (utf8 (text_elems (Suc k) xs)) \<le> bound_list xs + 2 * m * (\<Sum>x\<leftarrow>xs. json_nodes x)" using "1.IH" [OF Cons, of "j + 1"] "1.prems" kd by simp
    have "text_indent k (PList xs) = ''['' @ new_line (Suc k) @ text_elems (Suc k) xs @ new_line k @ '']''" by (simp add: Cons)
    then have "length (utf8 (text_indent k (PList xs))) = 6 + 4 * k + length (utf8 (text_elems (Suc k) xs))" by (simp add: utf8_Cons utf8_char_def Let_def del: text_indent.simps)
    moreover have "6 + 4 * k + m \<le> 2 + 2 * m" using kd assms(2) by simp
    ultimately show ?thesis using e by (simp add: distrib_left)
  qed (simp add: utf8_Cons utf8_char_def Let_def)
next
  case (2 k d)
  show ?case
  proof (cases d)
    case (Cons x ys)
    then have kd: "Suc k \<le> D" using "2.prems" assms(1) by simp
    have e: "length (utf8 (text_members (Suc k) d)) \<le> bound_pairs d + 2 * m * (\<Sum>q\<leftarrow>d. json_nodes (snd q))" using "2.IH" [OF Cons, of "j + 1"] "2.prems" kd by simp
    have "text_indent k (PDict d) = ''{'' @ new_line (Suc k) @ text_members (Suc k) d @ new_line k @ ''}''" by (simp add: Cons)
    then have "length (utf8 (text_indent k (PDict d))) = 6 + 4 * k + length (utf8 (text_members (Suc k) d))" by (simp add: utf8_Cons utf8_char_def Let_def del: text_indent.simps)
    moreover have "6 + 4 * k + m \<le> 2 + 2 * m" using kd assms(2) by simp
    ultimately show ?thesis using e by (simp add: distrib_left)
  qed (simp add: utf8_Cons utf8_char_def Let_def)
next
  case (5 k x xs)
  have m: "2 + 2 * k \<le> m" using "5.prems" assms by (simp add: max_json_depth_def)
  have x: "length (utf8 (text_indent k x)) + m \<le> json_bound x + 2 * m * json_nodes x" using "5.IH"(1) [of j] "5.prems" by simp
  have "length (utf8 (case xs of [] \<Rightarrow> [] | _ \<Rightarrow> '','' @ new_line k @ text_elems k xs)) \<le> m + (bound_list xs + 2 * m * (\<Sum>x\<leftarrow>xs. json_nodes x))"
  proof (cases xs)
    case (Cons y ys)
    have "length (utf8 (text_elems k xs)) \<le> bound_list xs + 2 * m * (\<Sum>x\<leftarrow>xs. json_nodes x)" using "5.IH"(2) [OF Cons, of j] "5.prems" by simp
    moreover have "length (utf8 (case xs of [] \<Rightarrow> [] | _ \<Rightarrow> '','' @ new_line k @ text_elems k xs)) = 2 + 2 * k + length (utf8 (text_elems k xs))"
      by (simp only: Cons list.case) (simp add: utf8_Cons utf8_char_def Let_def)
    ultimately show ?thesis using m by linarith
  qed simp
  then show ?case using x by (simp add: distrib_left)
next
  case (7 k x v d)
  have m: "2 + 2 * k \<le> m" using "7.prems" assms by (simp add: max_json_depth_def)
  have v: "length (utf8 (text_indent k v)) + m \<le> json_bound v + 2 * m * json_nodes v" using "7.IH"(1) [of j] "7.prems" by simp
  have "length (utf8 (case d of [] \<Rightarrow> [] | _ \<Rightarrow> '','' @ new_line k @ text_members k d)) \<le> m + (bound_pairs d + 2 * m * (\<Sum>q\<leftarrow>d. json_nodes (snd q)))"
  proof (cases d)
    case (Cons y ys)
    have "length (utf8 (text_members k d)) \<le> bound_pairs d + 2 * m * (\<Sum>q\<leftarrow>d. json_nodes (snd q))" using "7.IH"(2) [OF Cons, of j] "7.prems" by simp
    moreover have "length (utf8 (case d of [] \<Rightarrow> [] | _ \<Rightarrow> '','' @ new_line k @ text_members k d)) = 2 + 2 * k + length (utf8 (text_members k d))"
      by (simp only: Cons list.case) (simp add: utf8_Cons utf8_char_def Let_def)
    ultimately show ?thesis using m by linarith
  qed simp
  moreover have "length (utf8 (quote False (key_text x))) \<le> 2 + 6 * length (key_text x)" by (rule length_utf8_quote)
  ultimately show ?case using v by (simp add: distrib_left utf8_Cons utf8_char_def Let_def)
qed (auto simp: utf8_Cons utf8_char_def Let_def intro: order_trans [OF length_utf8_quote])

lemma modest_fits:
  assumes "list_all (modest 60000) events" "length events \<le> 3" "attempt_id_ok aid"
  shows "document_fits aid events"
  unfolding document_fits_def
proof (intro allI impI)
  fix h assume "payment_attempt_event_hash (List.last events) = Inr h"
  then have h: "length h \<le> 71" by (auto simp: payment_attempt_event_hash_def bindR_Inr_iff)
  have aid: "length aid \<le> 89" using attempt_id_split [OF assms(3)] assms(3) by (auto simp: attempt_id_ok_def hex_text_def id_prefix_def)
  have "bound_list events \<le> length events * 60001" "(\<Sum>x\<leftarrow>events. json_nodes x) \<le> length events * 1000" and p: "\<forall>x \<in> set events. plain_json 1 x"
    using assms(1) by (induction events) (auto simp: modest_def)
  then have b: "bound_list events \<le> 180003" "(\<Sum>x\<leftarrow>events. json_nodes x) \<le> 3000" using assms(2) by simp_all
  have "plain_json 0 (PList events)" using p by (simp add: max_json_depth_def)
  then have e: "length (utf8 (text_indent 1 (PList events))) \<le> 974000"
    using indented_size(1) [OF refl refl, of 0 "PList events" 1 1] b by (simp add: max_json_depth_def del: text_indent.simps)
  have q: "length (utf8 (quote False s)) \<le> 2 + 6 * length s" for s by (rule length_utf8_quote)
  have "text_indent 0 (document_of aid events h) = ''{'' @ new_line 1 @ quote False ''attempt_id'' @ '': '' @ quote False aid @ '','' @ new_line 1 @ quote False ''events'' @ '': '' @
      text_indent 1 (PList events) @ '','' @ new_line 1 @ quote False ''head_hash'' @ '': '' @ quote False h @ new_line 0 @ ''}''"
    by (simp add: document_of_def obj_def key_text_def)
  moreover have one: "length (utf8 [c]) \<le> 2" for c using length_utf8 [of "[c]"] by simp
  moreover have "length (utf8 '': '') \<le> 4" using length_utf8 [of "'': ''"] by simp
  ultimately have "length (utf8 (text_indent 0 (document_of aid events h))) \<le> max_file_bytes"
    using e h aid q [of "''attempt_id''"] q [of aid] q [of "''events''"] q [of "''head_hash''"] q [of h] one [of "CHR ''{''"] one [of "CHR '',''"] one [of "CHR ''}''"]
    by (simp add: max_file_bytes_def utf8_Cons utf8_char_def Let_def del: text_indent.simps)
  then show "stored_document (document_of aid events h) = Document (document_of aid events h)" by (simp add: stored_document_def)
qed

definition modest_payload :: "pydict \<Rightarrow> bool" where
  "modest_payload p \<longleftrightarrow> wf_json (PDict p) \<and> plain_json 2 (PDict p) \<and> json_nodes (PDict p) \<le> 900 \<and> json_bound (PDict p) \<le> 50000"

definition short_stamp :: "int \<Rightarrow> bool" where
  "short_stamp t \<longleftrightarrow> 0 < t \<and> t < 10 ^ 18"

lemma short_stamp_sizes:
  assumes "short_stamp t"
  shows "length (int_str t) \<le> 18" "plain_json k (PInt t)"
proof -
  have n: "nat t < 10 ^ 18" "0 < t" using assms by (auto simp: short_stamp_def)
  show "length (int_str t) \<le> 18" using nat_str_length [OF n(1)] n(2) by (simp add: int_str_def)
  have "nat \<bar>t\<bar> < 2 ^ 64" using n by simp
  then show "plain_json k (PInt t)" using bit_length_le [of "nat \<bar>t\<bar>" 64] by (simp add: max_chain_bytes_def)
qed

lemma pay_from_to: "pay_event_from_dict (pay_event_to_dict e) = e"
  by (simp add: pay_event_from_dict_def pay_event_to_dict_def obj_def dget_or_def Let_def)

lemma signed_event:
  assumes "ed25519_ok n" "signer_ok n actor" "as_did actor = Inr did" "modest_payload p"
    "length aid \<le> 128" "length ty \<le> 64" "length ps \<le> 64" "length ns \<le> 64" "length h \<le> 128" "i < 100" "short_stamp t"
  obtains ev where "sign_pay_event n actor (new_pay_event aid i ty did ps ns p h t) = Inr ev" "verify_pay_signature n ev = (True, ''ok'')"
    "ev = new_pay_event aid i ty did ps ns p h t\<lparr>pe_signature := pe_signature ev\<rparr>" "modest 60000 (PDict (pay_event_to_dict ev))"
proof -
  let ?e = "new_pay_event aid i ty did ps ns p h t"
  obtain seed where seed: "id_signing_key actor = Some seed" "length seed = 32" using assms(2) by (rule signer_okE)
  note ok = ed25519_okD [OF assms(1) seed(2)]
  have body: "pay_signing_body (?e\<lparr>pe_signature := v\<rparr>) = pay_signing_body ?e" for v
    by (simp add: pay_signing_body_def pay_event_to_dict_def obj_def without_key_def)
  have "wf_json (PDict (pay_signing_body ?e))"
    using assms(4) by (simp add: pay_signing_body_def pay_event_to_dict_def obj_def without_key_def new_pay_event_def is_str_def modest_payload_def)
  then obtain bs where bs: "canonical_json (PDict (pay_signing_body ?e)) = Inr bs" using canonical_json_wf by blast
  let ?s = "nacl_sign n seed bs"
  define ev where "ev = ?e\<lparr>pe_signature := PStr (b64u_encode ?s)\<rparr>"
  have sg: "length (b64u_encode ?s) \<le> 128" "1 \<le> length (b64u_encode ?s)"
  proof -
    show "length (b64u_encode ?s) \<le> 128" using ok(3) [of bs] length_b64u [of ?s] by simp
    have "b64u_encode ?s \<noteq> []" using ok(3) [of bs] b64u_encode_Nil [of ?s] by auto
    then show "1 \<le> length (b64u_encode ?s)" by (simp add: Suc_leI)
  qed
  have did: "decode_ed25519_did_key did = Inr (nacl_pub n seed)"
    using signer_did [OF assms(1,2)] assms(3) seed(1) by (metis Inr_inject option.sel)
  have key: "is_did_key (PStr did)" "length did \<le> 111" using did did_length by (auto simp: is_did_key_iff decode_did_iff)
  have f: "pe_actor_did ev = PStr did" "pe_signature ev = PStr (b64u_encode ?s)" by (simp_all add: ev_def new_pay_event_def)
  have "sign_pay_event n actor ?e = Inr ev"
    using assms(3) bs signer_sign [OF assms(1,2)] seed(1) by (simp add: sign_pay_event_def ev_def) (simp add: new_pay_event_def)
  moreover have "verify_pay_signature n ev = (True, ''ok'')"
    using f key(1) did ok(1,3,4) sg bs body by (simp add: verify_pay_signature_def ev_def [symmetric]) (simp add: ev_def)
  moreover have "modest 60000 (PDict (pay_event_to_dict ev))"
  proof -
    have seq: "length (int_str (int i)) \<le> 2" "plain_json 2 (PInt (int i))"
      using nat_str_length [of i 2] assms(10) bit_length_le [of i 7] by (simp_all add: int_str_def max_chain_bytes_def)
    show ?thesis
      using assms(4-9) key(2) sg(1) short_stamp_sizes [OF assms(11)] seq
      by (simp add: modest_def modest_payload_def pay_event_to_dict_def ev_def new_pay_event_def obj_def is_str_def key_text_def payment_attempt_kind_def max_json_depth_def numeral_3_eq_3)
  qed
  ultimately show thesis using that ev_def by simp
qed

lemma signed_meta:
  assumes "sign_pay_event n actor (new_pay_event aid i ty did ps ns p h t) = Inr ev" "verify_pay_signature n ev = (True, ''ok'')"
    "ev = new_pay_event aid i ty did ps ns p h t\<lparr>pe_signature := pe_signature ev\<rparr>" "modest 60000 (PDict (pay_event_to_dict ev))"
    "attempt_id_ok aid" "short_stamp t" "t0 \<le> t" "prev_hash prev = Inr h"
  shows "meta_ok n i prev t0 (PDict (pay_event_to_dict ev)) ev p t"
proof -
  obtain bs where bs: "canonical_json (PDict (pay_event_to_dict ev)) = Inr bs" "length bs \<le> 2 * json_bound (PDict (pay_event_to_dict ev))"
    by (rule canonical_json_bound [of "pay_event_to_dict ev"]) (use assms(4) in \<open>auto simp: modest_def simp del: wf_json.simps\<close>)
  have len: "length bs \<le> max_event_bytes" using bs(2) assms(4) unfolding modest_def max_event_bytes_def by linarith
  have keys: "same_keys (pay_event_to_dict ev) pay_event_fields" by (simp add: same_keys_def pay_event_to_dict_def pay_event_fields_def obj_def)
  have f: "pe_attempt_id ev = PStr aid" "pe_payload ev = PDict p" "pe_created_at_ms ev = PInt t" "pe_seq ev = PInt (int i)" "pe_kind ev = PStr payment_attempt_kind"
    "pe_prev_event_hash ev = PStr h" by (subst assms(3), simp add: new_pay_event_def)+
  show ?thesis unfolding meta_ok_def
    using f keys bs(1) len assms(2,5-8) pay_from_to [of ev]
    by (intro exI [of _ "pay_event_to_dict ev"] exI [of _ h] exI [of _ aid] exI [of _ bs]) (simp add: short_stamp_def py_eq_PInt num_of_def)
qed

section \<open>Creating an attempt\<close>

lemma intent_from_to:
  assumes "intent_dict i = Inr d"
  shows "intent_from_dict (PDict d) = Inr i" "intent_validate i = Inr ()"
proof -
  have v: "intent_validate i = Inr ()" and d: "d = obj [(''trade_id'', PStr (i_trade_id i)), (''amount_minor'', i_amount_minor i),
     (''currency'', PStr (i_currency i)), (''payee_did'', PStr (i_payee_did i)), (''payer_did'', PStr (i_payer_did i)), (''memo'', PStr (i_memo i))]"
    using assms by (auto simp: intent_dict_def bindR_Inr_iff)
  have "same_keys d intent_fields" by (simp add: d same_keys_def intent_fields_def obj_def)
  then show "intent_from_dict (PDict d) = Inr i" using v by (cases i) (simp add: intent_from_dict_def d obj_def dget_or_def is_str_def)
  show "intent_validate i = Inr ()" by (rule v)
qed

lemma key_shape: "settlement_idempotency_key i = Inr key \<Longrightarrow> attempt_id_ok key \<and> length key \<le> 128"
  by (auto simp: settlement_idempotency_key_def bindR_Inr_iff attempt_id_ok_def startswith_def hex_text_def list_all_iff sha256_hex_lower)

definition small_intent :: "settlement_intent \<Rightarrow> bool" where
  "small_intent i \<longleftrightarrow> (\<exists>a. i_amount_minor i = PInt a \<and> short_stamp a)"

lemma intent_modest:
  assumes "intent_dict i = Inr d" "small_intent i"
  shows "modest_payload (obj [(''schema_version'', PInt 1), (''adapter_id'', PStr adapter_x402_testnet), (''intent'', PDict d)])"
proof -
  have d: "d = obj [(''trade_id'', PStr (i_trade_id i)), (''amount_minor'', i_amount_minor i),
     (''currency'', PStr (i_currency i)), (''payee_did'', PStr (i_payee_did i)), (''payer_did'', PStr (i_payer_did i)), (''memo'', PStr (i_memo i))]"
    using assms by (auto simp: intent_dict_def bindR_Inr_iff)
  obtain a where a: "i_amount_minor i = PInt a" "length (int_str a) \<le> 18" "bit_length (nat \<bar>a\<bar>) \<le> max_chain_bytes * 4"
    using assms(2) short_stamp_sizes by (fastforce simp: small_intent_def)
  have l: "length (i_trade_id i) \<le> 256" "length (i_currency i) \<le> 32" "length (i_payee_did i) \<le> 512" "length (i_payer_did i) \<le> 512" "length (i_memo i) \<le> 2048"
    using intent_from_to(2) [OF assms(1)] by (auto simp: intent_validate_def ensure_Inr_iff Let_def)
  have one: "length (int_str 1) \<le> 1" "bit_length (nat \<bar>1\<bar>) \<le> max_chain_bytes * 4"
    by (simp_all add: int_str_def nat_str.simps bit_length.simps max_chain_bytes_def)
  show ?thesis using a l one
    by (simp add: modest_payload_def d obj_def is_str_def key_text_def adapter_x402_testnet_def max_json_depth_def)
qed

definition create_payload :: "pydict \<Rightarrow> pydict" where
  "create_payload d = obj [(''schema_version'', PInt 1), (''adapter_id'', PStr adapter_x402_testnet), (''intent'', PDict d)]"

text \<open>The state the verifying loop has after the creation event of an intent.\<close>

definition fresh_state :: "settlement_intent \<Rightarrow> string \<Rightarrow> int \<Rightarrow> attempt_state" where
  "fresh_state i aid t = \<lparr>a_state = ''pending'', a_actor_did = i_payer_did i, a_attempt_id = aid, a_intent = i, a_lease_id = [], a_lease_expires_at_ms = 0,
     a_next_attempt_at_ms = 0, a_orphan_evidence_digest = [], a_created_at_ms = t\<rparr>"

lemma created_accepted:
  assumes "ev = new_pay_event aid 0 ''payment_attempt_created'' (i_payer_did i) [] ''pending'' (create_payload d) [] t\<lparr>pe_signature := sg\<rparr>"
    "intent_dict i = Inr d" "settlement_idempotency_key i = Inr aid" "i_payer_did i \<noteq> []"
  shows "created_event ev (create_payload d) t = Inr (fresh_state i aid t)"
proof -
  have f: "pe_type ev = PStr ''payment_attempt_created''" "pe_prev_state ev = PStr []" "pe_new_state ev = PStr ''pending''" "pe_actor_did ev = PStr (i_payer_did i)"
    "pe_attempt_id ev = PStr aid" by (simp_all add: assms(1) new_pay_event_def)
  have g: "same_keys (create_payload d) create_fields" "py_eq (dget_or (create_payload d) ''schema_version'' PNone) (PInt 1)"
    "dget (create_payload d) ''adapter_id'' = Some (PStr adapter_x402_testnet)" "dget_or (create_payload d) ''intent'' PNone = PDict d"
    by (simp_all add: create_payload_def same_keys_def create_fields_def obj_def dget_or_def py_eq_PInt num_of_def)
  show ?thesis using f g intent_from_to(1) [OF assms(2)] assms(3,4) by (simp add: created_event_def fresh_state_def dget_or_Some)
qed

lemma created_verifies:
  assumes "ed25519_ok n" "signer_ok n actor" "as_did actor = Inr (i_payer_did i)" "intent_dict i = Inr d" "small_intent i" "settlement_idempotency_key i = Inr aid"
    "i_payer_did i \<noteq> []" "short_stamp t"
  obtains ev where "sign_pay_event n actor (new_pay_event aid 0 ''payment_attempt_created'' (i_payer_did i) [] ''pending'' (create_payload d) [] t) = Inr ev"
    "modest 60000 (PDict (pay_event_to_dict ev))" "pe_actor_did ev = PStr (i_payer_did i)"
    "meta_ok n 0 None 0 (PDict (pay_event_to_dict ev)) ev (create_payload d) t" "created_event ev (create_payload d) t = Inr (fresh_state i aid t)"
    "\<And>wall. verify_payment_attempt n wall [PDict (pay_event_to_dict ev)] = Inr (True, ''ok'')"
proof -
  have m: "modest_payload (create_payload d)" unfolding create_payload_def using assms(4,5) by (rule intent_modest)
  note k = key_shape [OF assms(6)]
  obtain ev where e: "sign_pay_event n actor (new_pay_event aid 0 ''payment_attempt_created'' (i_payer_did i) [] ''pending'' (create_payload d) [] t) = Inr ev"
    "verify_pay_signature n ev = (True, ''ok'')"
    "ev = new_pay_event aid 0 ''payment_attempt_created'' (i_payer_did i) [] ''pending'' (create_payload d) [] t\<lparr>pe_signature := pe_signature ev\<rparr>"
    "modest 60000 (PDict (pay_event_to_dict ev))"
    by (rule signed_event [OF assms(1-3) m, of aid "''payment_attempt_created''" "[]" "''pending''" "[]" 0 t]) (use k assms(8) in auto)
  let ?raw = "PDict (pay_event_to_dict ev)"
  have meta: "meta_ok n 0 None 0 ?raw ev (create_payload d) t"
    using signed_meta [OF e _ assms(8), of 0 None] k assms(8) by (simp add: prev_hash_def short_stamp_def)
  have c: "created_event ev (create_payload d) t = Inr (fresh_state i aid t)" using created_accepted [OF e(3) assms(4,6,7)] .
  have "verify_payment_attempt n wall [?raw] = Inr (True, ''ok'')" for wall
  proof -
    obtain bs where "preflight_attempt_json (PList [?raw])" "canonical_json (PDict (obj [(''events'', PList [?raw])])) = Inr bs" "length bs \<le> max_chain_bytes"
      by (rule modest_chain [of "[?raw]"]) (use e(4) in auto)
    then show ?thesis using meta c by (simp add: verify_payment_attempt_def attempt_replay_def event_meta_iff [symmetric])
  qed
  moreover have "pe_actor_did ev = PStr (i_payer_did i)" by (subst e(3)) (simp add: new_pay_event_def)
  ultimately show thesis using that e(1,4) meta c by blast
qed

lemma persist_loads:
  assumes "ed25519_ok n" "signer_ok n actor" "attempt_id_ok aid" "attempt_disk n actor aid st t0 ops" "t0 \<le> t" "0 < t" "lease_id_ok op" "op \<notin> set ops"
    "as_did actor = Inr did" "document_fits aid events" "first_actor events = Inr (PStr did)" "persist n None actor (drop 25 aid) aid events t op st = (st', Inr ())"
  shows "load_attempt n None st' (drop 25 aid) = Inr (Some events)" "attempt_disk n actor aid st' t (op # ops)"
proof -
  obtain ws where w: "persist_writes n None actor (drop 25 aid) aid events t op = Inr ws" "run_writes ws st = (st', Inr ())"
    using assms(12) by (auto simp: persist_def split: sum.splits)
  have own: "own_write n actor aid events t op ws" using w(1) assms(6,7,9-11) by (simp add: own_write_def)
  have "length ws = 5" using w(1) assms(9) by (auto elim: persist_writes_eq)
  then have run: "run_writes (take 5 ws) st = (st', Inr ())" using w(2) by simp
  obtain did' where "as_did actor = Inr did'" "did' \<noteq> []" by (rule signer_did [OF assms(1,2)]) (auto simp: decode_did_iff did_length_pos)
  then have ne: "did \<noteq> []" using assms(9) by simp
  obtain as cur where k: "keeps n aid did st as cur" "last_time 0 as \<le> t0" "an_operation_id ` set as \<subseteq> PStr ` set ops"
    using disk_keeps [OF assms(4,1,2,9,3)] by blast
  have new: "last_time 0 as \<le> t" "new_to as op" using k(2,3) assms(5,8) by (auto simp: new_to_def)
  obtain as' where "keeps n aid did st' as' (Some events)" by (rule write_step [OF assms(1,2,9,3) k(1) new own run]) auto
  then show "load_attempt n None st' (drop 25 aid) = Inr (Some events)" by (rule keeps_load [OF assms(3) ne])
  show "attempt_disk n actor aid st' t (op # ops)" by (rule written [OF assms(4) own assms(5,8) run])
qed

lemma intent_eq_self: "intent_dict i = Inr d \<Longrightarrow> small_intent i \<Longrightarrow> py_eq (PDict d) (PDict d)"
  by (auto simp: intent_dict_def bindR_Inr_iff obj_def small_intent_def num_eq_def num_of_def)

text \<open>Creating an attempt is durable and idempotent: when creation on an untouched disk returns, reading the attempt gives the returned view, a waiting attempt
  under the intent's own key, and creating it again for the same intent returns the same view and changes nothing.\<close>

lemma create_then_get:
  assumes "ed25519_ok n" "signer_ok n actor" "settlement_idempotency_key i = Inr aid" "small_intent i" "short_stamp t" "lease_id_ok op"
    "map_of (ps_docs st) (drop 25 aid) = None" "map_of (ps_journals st) (drop 25 aid) = None"
    "create_attempt n None wall actor i adapter_x402_testnet t op st = (st', Inr view)"
  shows "get_attempt n None wall' aid st' = Inr (Some view) \<and> v_attempt_id view = PStr aid \<and> v_state view = PStr ''pending''
     \<and> (0 < t' \<longrightarrow> create_attempt n None wall' actor i adapter_x402_testnet t' op' st' = (st', Inr view))"
proof -
  note k = key_shape [OF assms(3)]
  have stem: "attempt_stem aid = Inr (drop 25 aid)" using k by (simp add: attempt_stem_def)
  obtain d where d: "intent_dict i = Inr d" using assms(9) by (auto simp: create_attempt_def bindR_Inr_iff ensure_Inr_iff split: sum.splits)
  have did: "as_did actor = Inr (i_payer_did i)" "i_payer_did i \<noteq> []"
    using assms(9) d by (auto simp: create_attempt_def bindR_Inr_iff ensure_Inr_iff split: sum.splits)
  obtain ev where e: "sign_pay_event n actor (new_pay_event aid 0 ''payment_attempt_created'' (i_payer_did i) [] ''pending'' (create_payload d) [] t) = Inr ev"
    "pe_actor_did ev = PStr (i_payer_did i)" "meta_ok n 0 None 0 (PDict (pay_event_to_dict ev)) ev (create_payload d) t"
    "created_event ev (create_payload d) t = Inr (fresh_state i aid t)"
    "\<And>wall. verify_payment_attempt n wall [PDict (pay_event_to_dict ev)] = Inr (True, ''ok'')" "modest 60000 (PDict (pay_event_to_dict ev))"
    using created_verifies [OF assms(1,2) did(1) d assms(4,3) did(2) assms(5)] by metis
  let ?es = "[PDict (pay_event_to_dict ev)]"
  have pos: "0 < t" using assms(5) by (simp add: short_stamp_def)
  have none: "load_attempt n None st (drop 25 aid) = Inr None" using assms(7) by (simp add: load_attempt_def)
  have p: "persist n None actor (drop 25 aid) aid ?es t op st = (st', Inr ())" and view: "view = project_verified ?es"
    using assms(9) d did assms(3) stem none pos e(1) unfolding create_payload_def
    by (auto simp: create_attempt_def Let_def split: prod.splits sum.splits)
  have "first_actor ?es = Inr (PStr (i_payer_did i))" using e(2) by (simp add: first_actor_def pay_event_to_dict_def obj_def dget_or_def)
  with persist_loads(1) [OF assms(1,2) _ empty [OF assms(7,8)] _ pos assms(6) _ did(1) _ _ p]
  have load: "load_attempt n None st' (drop 25 aid) = Inr (Some ?es)" using k pos modest_fits [of ?es aid] e(6) by simp
  have f: "follows (fresh_state i aid t) view" using created_followed [OF e(3,4)] by (simp add: view project_verified_def)
  have vi: "v_intent view = d"
  proof -
    have "pay_event_from_dict (pay_event_to_dict ev) = ev" "pe_payload ev = PDict (create_payload d)" using e(3) pay_from_to by (auto simp: meta_ok_def)
    then show ?thesis by (simp add: view project_verified_def created_view_def Let_def create_payload_def obj_def dget_or_def)
  qed
  have "get_attempt n None wall' aid st' = Inr (Some view)"
    using load stem e(5) by (simp add: get_attempt_def get_attempt_events_def view_or_def view)
  moreover have "create_attempt n None wall' actor i adapter_x402_testnet t' op' st' = (st', Inr view)" if "0 < t'"
    using d did assms(3) stem that load e(5) f vi intent_eq_self [OF d assms(4)]
    by (simp add: create_attempt_def view_or_def view [symmetric] follows_def fresh_state_def del: py_eq.simps)
  ultimately show ?thesis using f by (simp add: follows_def fresh_state_def)
qed

section \<open>Claiming an attempt\<close>

lemma verified_first_actor:
  assumes "verify_payment_attempt n wall events = Inr (True, m)"
  shows "first_actor events = Inr (v_actor_did (project_verified events))"
proof -
  obtain st0 st where run: "run_of n wall events st0 st" using assms by (rule verified_run)
  then obtain raw rest ev p t where r: "events = raw # rest" "meta_ok n 0 None 0 raw ev p t" by (auto simp: run_of_def)
  have "v_actor_did (foldl project_event v xs) = v_actor_did v" for v xs
    by (induction xs arbitrary: v) (auto simp: project_event_def Let_def)
  then have "v_actor_did (project_verified events) = v_actor_did (created_view raw)" by (simp add: r(1) project_verified_def)
  moreover obtain d where "raw = PDict d" using r(2) by (auto simp: meta_ok_def)
  ultimately show ?thesis by (simp add: r(1) first_actor_def created_view_def Let_def pay_event_from_dict_def)
qed

lemma extendE:
  assumes "extend_attempt n w wall actor did stem aid events current ty ns payload t op st = (st', Inr view)"
  obtains h ev m where "payment_attempt_event_hash (List.last events) = Inr h"
    "sign_pay_event n actor (new_pay_event aid (length events) ty did (as_str (v_state current)) ns payload h t) = Inr ev"
    "verify_payment_attempt n wall (events @ [PDict (pay_event_to_dict ev)]) = Inr (True, m)"
    "persist n w actor stem aid (events @ [PDict (pay_event_to_dict ev)]) t op st = (st', Inr ())" "view = project_verified (events @ [PDict (pay_event_to_dict ev)])"
  using assms by (auto simp: extend_attempt_def bindR_Inr_iff ensure_Inr_iff Let_def split: sum.splits prod.splits)

lemma claimed_view:
  assumes "sign_pay_event n actor (new_pay_event aid k ''payment_attempt_claimed'' did ps ''inflight''
      (obj [(''lease_id'', PStr l), (''lease_expires_at_ms'', PInt e)]) h t) = Inr ev" "events \<noteq> []"
  shows "v_state (project_verified (events @ [PDict (pay_event_to_dict ev)])) = PStr ''inflight''"
    "v_lease_expires_at_ms (project_verified (events @ [PDict (pay_event_to_dict ev)])) = PInt e"
    "v_lease_id (project_verified (events @ [PDict (pay_event_to_dict ev)])) = PStr l"
proof -
  have "pe_type ev = PStr ''payment_attempt_claimed''" "pe_new_state ev = PStr ''inflight''"
    "pe_payload ev = PDict (obj [(''lease_id'', PStr l), (''lease_expires_at_ms'', PInt e)])"
    using assms(1) by (auto simp: sign_pay_event_def bindR_Inr_iff ensure_Inr_iff new_pay_event_def)
  then show "v_state (project_verified (events @ [PDict (pay_event_to_dict ev)])) = PStr ''inflight''"
    "v_lease_expires_at_ms (project_verified (events @ [PDict (pay_event_to_dict ev)])) = PInt e"
    "v_lease_id (project_verified (events @ [PDict (pay_event_to_dict ev)])) = PStr l"
    using assms(2) by (simp_all add: project_verified_def project_event_def pay_from_to Let_def obj_def dget_or_def)
qed

lemma own_attemptD:
  assumes "own_attempt n w wall actor stem st = Inr (Some (events, view, did))"
  shows "load_attempt n w st stem = Inr (Some events)" "view = project_verified events" "as_did actor = Inr did" "v_actor_did view = PStr did"
    "\<exists>m. verify_payment_attempt n wall events = Inr (True, m)"
proof -
  obtain found where f: "load_attempt n w st stem = Inr found" using assms by (auto simp: own_attempt_def bindR_Inr_iff)
  obtain es where es: "found = Some es" using assms f by (cases found) (simp_all add: own_attempt_def)
  obtain ok reason where v: "verify_payment_attempt n wall es = Inr (ok, reason)" "ok"
    using assms f es by (cases "verify_payment_attempt n wall es") (auto simp: own_attempt_def view_or_def ensure_def split: if_splits)
  obtain d where d: "as_did actor = Inr d" using assms f es v by (cases "as_did actor") (simp_all add: own_attempt_def view_or_def)
  have "es = events \<and> view = project_verified es \<and> d = did \<and> PStr d = v_actor_did view"
    using assms f es v d by (auto simp: own_attempt_def view_or_def ensure_Inr_iff)
  then show "load_attempt n w st stem = Inr (Some events)" "view = project_verified events" "as_did actor = Inr did" "v_actor_did view = PStr did"
    "\<exists>m. verify_payment_attempt n wall events = Inr (True, m)"
    using f es v d by auto
qed

lemma claim_found:
  assumes "attempt_id_ok aid" "claim_attempt n w wall actor aid lease_ms now l op st = (st', Inr (Some view))"
  obtains events current did where "own_attempt n w wall actor (drop 25 aid) st = Inr (Some (events, current, did))" "claimable current now"
    "extend_attempt n w wall actor did (drop 25 aid) aid events current ''payment_attempt_claimed'' ''inflight''
       (obj [(''lease_id'', PStr l), (''lease_expires_at_ms'', PInt (now + lease_ms))]) now op st = (st', Inr view)"
  using assms by (auto simp: claim_attempt_def attempt_stem_def bindR_Inr_iff ensure_Inr_iff split: sum.splits option.splits prod.splits if_splits)

text \<open>A claimed attempt is taken: when a claim has returned, the stored attempt is the claimed one, and until the lease runs out no further claim
  succeeds, by whoever and however it is made, and none changes the store.\<close>

lemma claim_excludes:
  assumes "ed25519_ok n" "signer_ok n actor" "attempt_id_ok aid" "attempt_disk n actor aid st t0 ops" "t0 \<le> now" "0 < now" "lease_id_ok op" "op \<notin> set ops"
    "claim_attempt n None wall actor aid lease_ms now l op st = (st', Inr (Some view))"
    "now' < now + lease_ms" "claim_attempt n None wall' actor' aid lease_ms' now' l' op' st' = (st'', out)"
  shows "st'' = st' \<and> (\<forall>v. out \<noteq> Inr (Some v)) \<and> v_state view = PStr ''inflight'' \<and> v_lease_id view = PStr l"
proof -
  obtain events current did where c: "own_attempt n None wall actor (drop 25 aid) st = Inr (Some (events, current, did))"
    "extend_attempt n None wall actor did (drop 25 aid) aid events current ''payment_attempt_claimed'' ''inflight''
       (obj [(''lease_id'', PStr l), (''lease_expires_at_ms'', PInt (now + lease_ms))]) now op st = (st', Inr view)"
    using assms(3,9) by (rule claim_found)
  note o = own_attemptD [OF c(1)]
  obtain h ev m where x: "sign_pay_event n actor (new_pay_event aid (length events) ''payment_attempt_claimed'' did (as_str (v_state current)) ''inflight''
        (obj [(''lease_id'', PStr l), (''lease_expires_at_ms'', PInt (now + lease_ms))]) h now) = Inr ev"
    "verify_payment_attempt n wall (events @ [PDict (pay_event_to_dict ev)]) = Inr (True, m)"
    "persist n None actor (drop 25 aid) aid (events @ [PDict (pay_event_to_dict ev)]) now op st = (st', Inr ())" "view = project_verified (events @ [PDict (pay_event_to_dict ev)])"
    using c(2) by (rule extendE)
  let ?es = "events @ [PDict (pay_event_to_dict ev)]"
  have ne: "events \<noteq> []" using o(5) by (auto elim: verified_run simp: run_of_def)
  have "first_actor events = Inr (PStr did)" using o verified_first_actor by metis
  then have "first_actor ?es = Inr (PStr did)" using ne by (cases events) (auto simp: first_actor_def split: pyval.splits)
  then have load: "load_attempt n None st' (drop 25 aid) = Inr (Some ?es)" if "document_fits aid ?es"
    by (rule persist_loads(1) [OF assms(1-8) o(3) that _ x(3)])
  have big: "\<exists>e. load_attempt n None st' (drop 25 aid) = Inl e" if no: "\<not> document_fits aid ?es"
  proof -
    obtain h where "payment_attempt_event_hash (List.last ?es) = Inr h" "stored_document (document_of aid ?es h) \<noteq> Document (document_of aid ?es h)"
      using no by (auto simp: document_fits_def)
    then show ?thesis using persist_document [OF x(3), of h] by (auto simp: load_attempt_def stored_document_def reject_def split: if_splits)
  qed
  note v = claimed_view [OF x(1) ne]
  have "\<not> claimable (project_verified ?es) now'" using v assms(10) by (simp add: claimable_def)
  then have "claim_attempt n None wall' actor' aid lease_ms' now' l' op' st' \<in> {(st', Inr None)} \<union> {(st', Inl e) | e. True}"
    using load big assms(3)
    by (cases "document_fits aid ?es") (auto simp: claim_attempt_def attempt_stem_def own_attempt_def view_or_def bindR_Inr_iff ensure_Inr_iff split: sum.splits option.splits)
  then show ?thesis using assms(11) v x(4) by auto
qed

end
