(* ===== verification/Payment_Run.thy ===== *)
theory Payment_Run
  imports Payment_Ops Trade_Run
begin

text \<open>
  An honest payment attempt: created by the payer, claimed by its worker, settled on the test rail. Every event is accepted, so the hypotheses of the theorems on
  verified attempts and on the store hold on a concrete attempt.
\<close>

section \<open>Extending a run\<close>

lemma attempt_events_snoc:
  "attempt_events n now i prev st (xs @ [x]) = bindR (attempt_events n now i prev st xs) (\<lambda>st1.
     bindR (event_meta n (i + length xs) (Some (List.last (prev # xs))) (a_created_at_ms st1) x) (\<lambda>(ev, p, t). next_event now st1 ev p t))"
proof (induction xs arbitrary: i prev st)
  case Nil
  show ?case by (cases "event_meta n i (Some prev) (a_created_at_ms st) x") (auto simp: bindR_def split: sum.splits)
next
  case (Cons y ys)
  show ?case
  proof (cases "event_meta n i (Some prev) (a_created_at_ms st) y")
    case (Inr q)
    obtain ev p t where q: "q = (ev, p, t)" by (cases q)
    show ?thesis using Cons by (cases "next_event now st ev p t") (simp_all add: Inr q)
  qed simp
qed

lemma run_snoc:
  assumes "run_of n now events st0 st" "meta_ok n (length events) (Some (List.last events)) (a_created_at_ms st) raw ev p t" "next_event now st ev p t = Inr st'"
  shows "run_of n now (events @ [raw]) st0 st'"
proof -
  obtain first rest ev0 p0 t0 where r: "events = first # rest" "meta_ok n 0 None 0 first ev0 p0 t0" "created_event ev0 p0 t0 = Inr st0"
    "attempt_events n now 1 first st0 rest = Inr st" using assms(1) by (auto simp: run_of_def)
  have "event_meta n (1 + length rest) (Some (List.last (first # rest))) (a_created_at_ms st) raw = Inr (ev, p, t)"
    using assms(2) r(1) by (simp add: event_meta_iff del: last.simps)
  then have "attempt_events n now 1 first st0 (rest @ [raw]) = Inr st'" using r(4) assms(3) by (simp add: attempt_events_snoc del: last.simps)
  then show ?thesis unfolding run_of_def using r(1-3) by auto
qed

lemma run_verifies:
  assumes "run_of n now events st0 st" "list_all (modest 60000) events" "length events \<le> 5"
  shows "verify_payment_attempt n now events = Inr (True, ''ok'')"
proof -
  obtain first rest ev p t where r: "events = first # rest" "event_meta n 0 None 0 first = Inr (ev, p, t)" "created_event ev p t = Inr st0"
    "attempt_events n now 1 first st0 rest = Inr st" using assms(1) by (auto simp: run_of_def event_meta_iff)
  obtain bs where "preflight_attempt_json (PList events)" "canonical_json (PDict (obj [(''events'', PList events)])) = Inr bs" "length bs \<le> max_chain_bytes"
    using assms(2,3) by (rule modest_chain)
  then show ?thesis using r by (simp add: verify_payment_attempt_def attempt_replay_def)
qed

lemma honest_event:
  assumes "ed25519_ok n" "signer_ok n actor" "as_did actor = Inr (a_actor_did st)" "run_of n now events st0 st" "list_all (modest 60000) events" "length events \<le> 4"
    "modest_payload p" "attempt_id_ok (a_attempt_id st)" "length ty \<le> 64" "length (a_state st) \<le> 64" "length ns \<le> 64" "short_stamp t" "a_created_at_ms st \<le> t"
    and step: "\<And>ev. pe_type ev = PStr ty \<Longrightarrow> pe_actor_did ev = PStr (a_actor_did st) \<Longrightarrow> pe_attempt_id ev = PStr (a_attempt_id st) \<Longrightarrow> pe_prev_state ev = PStr (a_state st)
        \<Longrightarrow> pe_new_state ev = PStr ns \<Longrightarrow> next_event now st ev p t = Inr st'"
  obtains h ev where "payment_attempt_event_hash (List.last events) = Inr h"
    "sign_pay_event n actor (new_pay_event (a_attempt_id st) (length events) ty (a_actor_did st) (a_state st) ns p h t) = Inr ev"
    "run_of n now (events @ [PDict (pay_event_to_dict ev)]) st0 st'" "list_all (modest 60000) (events @ [PDict (pay_event_to_dict ev)])"
    "verify_payment_attempt n now (events @ [PDict (pay_event_to_dict ev)]) = Inr (True, ''ok'')"
proof -
  have ne: "events \<noteq> []" using payment_keys(3) [OF assms(4)] .
  have "modest 60000 (List.last events)" using assms(5) ne by (simp add: list_all_iff)
  then have "wf_json (List.last events)" by (simp add: modest_def)
  moreover obtain d where "List.last events = PDict d"
  proof -
    have "verify_payment_attempt n now events = Inr (True, ''ok'')" using run_verifies [OF assms(4,5)] assms(6) by simp
    moreover have "list_all keys_once events" using assms(5) by (auto simp: list_all_iff modest_def dest: wf_keys_once(1))
    ultimately have "good_event (List.last events)" using verified_linked(1) attempt.linked_good ne by (metis last_in_set)
    then show thesis using that by (auto elim: good_eventD)
  qed
  ultimately obtain bs where "canonical_json (List.last events) = Inr bs" using canonical_json_wf by auto
  then obtain h where h: "payment_attempt_event_hash (List.last events) = Inr h" by (simp add: payment_attempt_event_hash_def)
  then have hl: "length h \<le> 128" by (auto simp: payment_attempt_event_hash_def bindR_Inr_iff)
  have al: "length (a_attempt_id st) \<le> 128" using attempt_id_split [OF assms(8)] assms(8) by (auto simp: attempt_id_ok_def hex_text_def id_prefix_def)
  obtain ev where e: "sign_pay_event n actor (new_pay_event (a_attempt_id st) (length events) ty (a_actor_did st) (a_state st) ns p h t) = Inr ev"
    "verify_pay_signature n ev = (True, ''ok'')"
    "ev = new_pay_event (a_attempt_id st) (length events) ty (a_actor_did st) (a_state st) ns p h t\<lparr>pe_signature := pe_signature ev\<rparr>"
    "modest 60000 (PDict (pay_event_to_dict ev))"
    by (rule signed_event [OF assms(1-3,7) al assms(9-11) hl _ assms(12), of "length events"]) (use assms(6) in auto)
  have meta: "meta_ok n (length events) (Some (List.last events)) (a_created_at_ms st) (PDict (pay_event_to_dict ev)) ev p t"
    using signed_meta [OF e assms(8,12,13), of "Some (List.last events)"] h by (simp add: prev_hash_def)
  have "next_event now st ev p t = Inr st'" by (rule step) (subst e(3), simp add: new_pay_event_def)+
  then have run: "run_of n now (events @ [PDict (pay_event_to_dict ev)]) st0 st'" by (rule run_snoc [OF assms(4) meta])
  have "list_all (modest 60000) (events @ [PDict (pay_event_to_dict ev)])" using assms(5) e(4) by simp
  then show thesis using that [OF h e(1) run] run_verifies [OF run] assms(6) by simp
qed

section \<open>A concrete attempt\<close>

definition pay_intent :: settlement_intent where
  "pay_intent = demo_intent\<lparr>i_payer_did := demo_did 1\<rparr>"

lemma pay_intent_simps [simp]: "i_trade_id pay_intent = ''t1''" "i_amount_minor pay_intent = PInt 5" "i_currency pay_intent = ''USDC''" "i_payee_did pay_intent = ''did:b''"
  "i_payer_did pay_intent = demo_did 1" "i_memo pay_intent = []"
  by (simp_all add: pay_intent_def demo_intent_def)

lemma pay_intent_ok: "intent_validate pay_intent = Inr ()" "small_intent pay_intent"
proof -
  have "did_text_ok ''did:b''" by code_simp
  then show "intent_validate pay_intent = Inr ()" using demo_did(2,3) [of 1] demo_did_text(1) [of 1]
    by (simp add: intent_validate_def positive_amount_def supported_currencies_def Let_def)
  show "small_intent pay_intent" by (simp add: small_intent_def short_stamp_def)
qed

definition pay_key :: string where
  "pay_key = projr (settlement_idempotency_key pay_intent)"

lemma pay_key: "settlement_idempotency_key pay_intent = Inr pay_key" "attempt_id_ok pay_key" "length pay_key \<le> 128"
proof -
  have "wf_json (PDict (obj [(''kind'', PStr ''nth/commerce-settlement-intent@1''), (''trade_id'', PStr (i_trade_id pay_intent)),
        (''amount_minor'', i_amount_minor pay_intent), (''currency'', PStr (i_currency pay_intent)), (''payee_did'', PStr (i_payee_did pay_intent)),
        (''payer_did'', PStr (i_payer_did pay_intent))]))"
    by (simp add: obj_def is_str_def)
  from canonical_json_wf [OF this] have "\<exists>key. settlement_idempotency_key pay_intent = Inr key"
    by (simp add: settlement_idempotency_key_def pay_intent_ok)
  then show k: "settlement_idempotency_key pay_intent = Inr pay_key" by (auto simp: pay_key_def)
  show "attempt_id_ok pay_key" "length pay_key \<le> 128" using key_shape [OF k] by auto
qed

definition pay_settlement :: pydict where
  "pay_settlement = obj [(''adapter_id'', PStr adapter_x402_testnet), (''amount_minor'', PInt 5), (''currency'', PStr ''USDC''), (''payee_did'', PStr ''did:b''),
     (''payer_did'', PStr (demo_did 1)), (''tx_ref'', PStr ''tx''), (''network'', PStr ''aptos:2''),
     (''proof'', PDict [(PStr ''p'', PBool True), (PStr ''idempotency_key'', PStr pay_key)]), (''settled_at_ms'', PInt 9)]"

lemma pay_settlement_pays: "pays 10 pay_intent pay_key pay_settlement"
proof -
  let ?p = "[(PStr ''p'', PBool True), (PStr ''idempotency_key'', PStr pay_key)] :: pydict"
  have g: "dget pay_settlement ''adapter_id'' = Some (PStr adapter_x402_testnet)" "dget pay_settlement ''amount_minor'' = Some (PInt 5)"
    "dget pay_settlement ''currency'' = Some (PStr ''USDC'')" "dget pay_settlement ''payee_did'' = Some (PStr ''did:b'')"
    "dget pay_settlement ''payer_did'' = Some (PStr (demo_did 1))" "dget pay_settlement ''tx_ref'' = Some (PStr ''tx'')"
    "dget pay_settlement ''network'' = Some (PStr ''aptos:2'')" "dget pay_settlement ''proof'' = Some (PDict ?p)" "dget pay_settlement ''settled_at_ms'' = Some (PInt 9)"
    by (simp_all add: pay_settlement_def obj_def)
  have keys: "same_keys pay_settlement settlement_payload_fields" by (auto simp: same_keys_def pay_settlement_def settlement_payload_fields_def obj_def)
  have wf: "wf_json (PDict [(PStr ''proof'', PDict ?p)])" by (simp add: is_str_def)
  obtain bs where bs: "canonical_json (PDict [(PStr ''proof'', PDict ?p)]) = Inr bs" "length bs \<le> 2 * json_bound (PDict [(PStr ''proof'', PDict ?p)])"
    using wf by (rule canonical_json_bound)
  have "proof_scan [(PDict ?p, 0)] 0 = Inr ()" using pay_key(3)
    by (simp add: proof_container_def proof_keys_def proof_key_error_def List.map_filter_def max_proof_nodes_def max_proof_depth_def max_proof_bytes_def)
  moreover have "length bs \<le> max_proof_bytes" using bs(2) pay_key(3) by (simp add: key_text_def max_proof_bytes_def)
  ultimately obtain k where k: "proof_encoded_size (PDict ?p) = Inr k" using bs(1) by (simp add: proof_encoded_size_def is_dict_def)
  have t: "is_wire_token ''tx'' 512" "is_wire_token ''aptos:2'' 128" "''aptos:2'' \<in> set x402_test_networks" "startswith ''did:b'' ''did:''" "\<not> list_ex py_isspace ''did:b''" by code_simp+
  have "x402_evidence pay_settlement (demo_did 1) = (True, ''ok'')"
    using demo_did(3) [of 1] t k by (simp add: x402_evidence_def g safe_str_def Let_def)
  then have "verify_settlement (PDict pay_settlement) 10 5 ''USDC'' ''did:b'' (demo_did 1) = (True, ''ok'')"
    using keys t demo_did(2,3) [of 1] demo_did_text [of 1]
    by (simp add: verify_settlement_def g safe_str_def Let_def known_adapters_def positive_amount_def supported_currencies_def max_settlement_future_skew_ms_def)
  then show ?thesis by (simp add: pays_def intent_amount_def g)
qed

definition pay_lease :: string where
  "pay_lease = replicate 32 (CHR ''0'')"

definition claim_payload :: pydict where
  "claim_payload = obj [(''lease_id'', PStr pay_lease), (''lease_expires_at_ms'', PInt (2 + 30000))]"

definition settle_payload :: pydict where
  "settle_payload = obj [(''lease_id'', PStr pay_lease), (''settlement'', PDict pay_settlement)]"

definition claimed_state :: attempt_state where
  "claimed_state = (fresh_state pay_intent pay_key 1)\<lparr>a_state := ''inflight'', a_lease_id := pay_lease, a_lease_expires_at_ms := 30002, a_next_attempt_at_ms := 0, a_created_at_ms := 2\<rparr>"

definition settled_state :: attempt_state where
  "settled_state = claimed_state\<lparr>a_state := ''settled'', a_lease_id := [], a_lease_expires_at_ms := 0, a_created_at_ms := 3\<rparr>"

lemma pay_lease_ok: "lease_id_ok pay_lease" "length pay_lease = 32" "lease_id_ok (replicate 32 (CHR ''1''))"
  by code_simp+

lemma small_ints: "length (int_str 5) \<le> 1" "length (int_str 9) \<le> 1" "length (int_str 30002) \<le> 5" "length (int_str 30000) \<le> 5"
  by (simp_all add: int_str_def nat_str.simps)

lemma small_bits: "bit_length k \<le> max_chain_bytes * 4" if "k < 2 ^ 32" for k
  using bit_length_le [OF that] by (simp add: max_chain_bytes_def)

lemma claim_payload_modest: "modest_payload claim_payload"
  using pay_lease_ok(2) small_ints small_bits [of 30002]
  by (simp add: modest_payload_def claim_payload_def obj_def is_str_def key_text_def max_json_depth_def)

lemma settle_payload_modest: "modest_payload settle_payload"
  using pay_lease_ok(2) small_ints small_bits [of 5] small_bits [of 9] pay_key(3) demo_did(2) [of 1]
  by (simp add: modest_payload_def settle_payload_def pay_settlement_def obj_def is_str_def key_text_def max_json_depth_def adapter_x402_testnet_def)

lemma claim_next:
  assumes "pe_type ev = PStr ''payment_attempt_claimed''" "pe_actor_did ev = PStr (a_actor_did (fresh_state pay_intent pay_key 1))"
    "pe_attempt_id ev = PStr (a_attempt_id (fresh_state pay_intent pay_key 1))" "pe_prev_state ev = PStr (a_state (fresh_state pay_intent pay_key 1))" "pe_new_state ev = PStr ''inflight''"
  shows "next_event 10 (fresh_state pay_intent pay_key 1) ev claim_payload 2 = Inr claimed_state"
proof -
  have g: "same_keys claim_payload [''lease_id'', ''lease_expires_at_ms'']" "dget claim_payload ''lease_id'' = Some (PStr pay_lease)"
    "dget claim_payload ''lease_expires_at_ms'' = Some (PInt 30002)" by (simp_all add: claim_payload_def same_keys_def obj_def)
  show ?thesis using assms g pay_lease_ok(1) by (simp add: next_event_def claimed_event_def fresh_state_def claimed_state_def)
qed

lemma settle_next:
  assumes "pe_type ev = PStr ''payment_attempt_settled''" "pe_actor_did ev = PStr (a_actor_did claimed_state)" "pe_attempt_id ev = PStr (a_attempt_id claimed_state)"
    "pe_prev_state ev = PStr (a_state claimed_state)" "pe_new_state ev = PStr ''settled''"
  shows "next_event 10 claimed_state ev settle_payload 3 = Inr settled_state"
proof -
  have g: "same_keys settle_payload [''lease_id'', ''settlement'']" "dget settle_payload ''lease_id'' = Some (PStr pay_lease)"
    "dget settle_payload ''settlement'' = Some (PDict pay_settlement)" by (simp_all add: settle_payload_def same_keys_def obj_def)
  have c: "a_state claimed_state = ''inflight''" "a_lease_id claimed_state = pay_lease" "a_intent claimed_state = pay_intent" "a_attempt_id claimed_state = pay_key"
    by (simp_all add: claimed_state_def fresh_state_def)
  have "check_settlement 10 claimed_state pay_settlement a b = Inr ()" for a b using pay_settlement_pays by (simp add: check_settlement_iff c)
  then show ?thesis using assms g c by (simp add: next_event_def settled_event_def holds_lease_def released_def settled_state_def)
qed

lemma pay_created:
  obtains d e0 where "intent_dict pay_intent = Inr d" "sign_pay_event demo_nacl (demo_identity 1) (new_pay_event pay_key 0 ''payment_attempt_created'' (demo_did 1) [] ''pending'' (create_payload d) [] 1) = Inr e0"
    "modest 60000 (PDict (pay_event_to_dict e0))" "run_of demo_nacl 10 [PDict (pay_event_to_dict e0)] (fresh_state pay_intent pay_key 1) (fresh_state pay_intent pay_key 1)"
    "first_actor [PDict (pay_event_to_dict e0)] = Inr (PStr (demo_did 1))"
proof -
  obtain d where d: "intent_dict pay_intent = Inr d" by (simp add: intent_dict_def pay_intent_ok)
  have "as_did (demo_identity 1) = Inr (i_payer_did pay_intent)" "i_payer_did pay_intent \<noteq> []" "short_stamp 1" using demo_did [of 1] by (simp_all add: short_stamp_def)
  from created_verifies [OF demo_nacl_ok demo_signer this(1) d pay_intent_ok(2) pay_key(1) this(2,3)]
  obtain e0 where e: "sign_pay_event demo_nacl (demo_identity 1) (new_pay_event pay_key 0 ''payment_attempt_created'' (demo_did 1) [] ''pending'' (create_payload d) [] 1) = Inr e0"
    "modest 60000 (PDict (pay_event_to_dict e0))" "pe_actor_did e0 = PStr (demo_did 1)" "meta_ok demo_nacl 0 None 0 (PDict (pay_event_to_dict e0)) e0 (create_payload d) 1"
    "created_event e0 (create_payload d) 1 = Inr (fresh_state pay_intent pay_key 1)"
    unfolding pay_intent_simps by metis
  have "first_actor [PDict (pay_event_to_dict e0)] = Inr (PStr (demo_did 1))" using e(3) by (simp add: first_actor_def pay_event_to_dict_def obj_def dget_or_def)
  moreover have "run_of demo_nacl 10 [PDict (pay_event_to_dict e0)] (fresh_state pay_intent pay_key 1) (fresh_state pay_intent pay_key 1)"
    unfolding run_of_def using e(4,5) by auto
  ultimately show thesis using that d e by blast
qed

lemma signed_fields:
  assumes "sign_pay_event n actor e = Inr ev"
  shows "pe_type ev = pe_type e" "pe_payload ev = pe_payload e" "pe_created_at_ms ev = pe_created_at_ms e"
  using assms by (auto simp: sign_pay_event_def bindR_Inr_iff ensure_Inr_iff)

lemma pay_run:
  obtains e0 e1 e2 where "verify_payment_attempt demo_nacl 10 [e0, e1, e2] = Inr (True, ''ok'')"
    "run_of demo_nacl 10 [e0, e1, e2] (fresh_state pay_intent pay_key 1) settled_state" "list_all keys_once [e0, e1, e2]"
    "event_action e1 = Some (2, Claim pay_lease 30002)" "event_action e2 = Some (3, Settle pay_lease pay_settlement)"
proof -
  obtain d e0 where c: "modest 60000 (PDict (pay_event_to_dict e0))"
    "run_of demo_nacl 10 [PDict (pay_event_to_dict e0)] (fresh_state pay_intent pay_key 1) (fresh_state pay_intent pay_key 1)" by (rule pay_created)
  let ?e0 = "PDict (pay_event_to_dict e0)"
  have s: "as_did (demo_identity 1) = Inr (a_actor_did (fresh_state pay_intent pay_key 1))" "as_did (demo_identity 1) = Inr (a_actor_did claimed_state)"
    using demo_did(1) [of 1] by (simp_all add: fresh_state_def claimed_state_def)
  have x: "list_all (modest 60000) [?e0]" "length [?e0] \<le> 4" "attempt_id_ok (a_attempt_id (fresh_state pay_intent pay_key 1))" "length ''payment_attempt_claimed'' \<le> 64"
    "length (a_state (fresh_state pay_intent pay_key 1)) \<le> 64" "length ''inflight'' \<le> 64" "short_stamp 2" "a_created_at_ms (fresh_state pay_intent pay_key 1) \<le> 2"
    using c(1) pay_key(2) by (simp_all add: fresh_state_def short_stamp_def)
  obtain h1 e1 where e1: "sign_pay_event demo_nacl (demo_identity 1) (new_pay_event (a_attempt_id (fresh_state pay_intent pay_key 1)) (length [?e0]) ''payment_attempt_claimed''
      (a_actor_did (fresh_state pay_intent pay_key 1)) (a_state (fresh_state pay_intent pay_key 1)) ''inflight'' claim_payload h1 2) = Inr e1"
    "run_of demo_nacl 10 ([?e0] @ [PDict (pay_event_to_dict e1)]) (fresh_state pay_intent pay_key 1) claimed_state" "list_all (modest 60000) ([?e0] @ [PDict (pay_event_to_dict e1)])"
    by (rule honest_event [OF demo_nacl_ok demo_signer s(1) c(2) x(1,2) claim_payload_modest x(3-8) claim_next])
  let ?e1 = "PDict (pay_event_to_dict e1)"
  have y: "length ([?e0] @ [?e1]) \<le> 4" "attempt_id_ok (a_attempt_id claimed_state)" "length ''payment_attempt_settled'' \<le> 64"
    "length (a_state claimed_state) \<le> 64" "length ''settled'' \<le> 64" "short_stamp 3" "a_created_at_ms claimed_state \<le> 3"
    using pay_key(2) by (simp_all add: claimed_state_def fresh_state_def short_stamp_def)
  obtain h2 e2 where e2: "sign_pay_event demo_nacl (demo_identity 1) (new_pay_event (a_attempt_id claimed_state) (length ([?e0] @ [?e1])) ''payment_attempt_settled''
      (a_actor_did claimed_state) (a_state claimed_state) ''settled'' settle_payload h2 3) = Inr e2"
    "run_of demo_nacl 10 (([?e0] @ [?e1]) @ [PDict (pay_event_to_dict e2)]) (fresh_state pay_intent pay_key 1) settled_state"
    "list_all (modest 60000) (([?e0] @ [?e1]) @ [PDict (pay_event_to_dict e2)])"
    "verify_payment_attempt demo_nacl 10 (([?e0] @ [?e1]) @ [PDict (pay_event_to_dict e2)]) = Inr (True, ''ok'')"
    by (rule honest_event [OF demo_nacl_ok demo_signer s(2) e1(2,3) y(1) settle_payload_modest y(2-7) settle_next])
  have a1: "event_action ?e1 = Some (2, Claim pay_lease 30002)"
    using signed_fields [OF e1(1)] by (simp add: event_action_def pay_from_to new_pay_event_def Let_def claim_payload_def obj_def dget_or_def)
  have a2: "event_action (PDict (pay_event_to_dict e2)) = Some (3, Settle pay_lease pay_settlement)"
    using signed_fields [OF e2(1)] by (simp add: event_action_def pay_from_to new_pay_event_def Let_def settle_payload_def obj_def dget_or_def)
  have "list_all keys_once [?e0, ?e1, PDict (pay_event_to_dict e2)]" using e2(3) by (auto simp: modest_def simp del: wf_json.simps keys_once.simps dest: wf_keys_once(1))
  then show thesis using that [of ?e0 ?e1 "PDict (pay_event_to_dict e2)"] e2(2,4) a1 a2 by simp
qed

section \<open>Witnesses on chains\<close>

theorem payment_attempt_refines_witness:
  "\<exists>events intent key labels. length events = 3 \<and> settlement_idempotency_key intent = Inr key \<and> v_attempt_id (project_verified events) = PStr key
     \<and> map event_action (tl events) = map Some labels \<and> payment_path (pays 10 intent key) (Pending 0) labels (view_phase (project_verified events))"
proof -
  obtain e0 e1 e2 where r: "verify_payment_attempt demo_nacl 10 [e0, e1, e2] = Inr (True, ''ok'')" by (rule pay_run)
  moreover have "length [e0, e1, e2] = 3" by simp
  ultimately show ?thesis using payment_attempt_refines [of demo_nacl 10 "[e0, e1, e2]" "''ok''"] by blast
qed

theorem settled_attempt_pays_once_witness:
  "\<exists>events key. v_state (project_verified events) = PStr ''settled'' \<and> v_attempt_id (project_verified events) = PStr key
     \<and> length (filter is_settlement events) = 1 \<and> is_settlement (List.last events)"
proof -
  obtain e0 e1 e2 where r: "verify_payment_attempt demo_nacl 10 [e0, e1, e2] = Inr (True, ''ok'')"
    "run_of demo_nacl 10 [e0, e1, e2] (fresh_state pay_intent pay_key 1) settled_state" by (rule pay_run)
  from r(2) have "follows settled_state (project_verified [e0, e1, e2])" by (rule run_refines)
  then have "v_state (project_verified [e0, e1, e2]) = PStr ''settled''" by (simp add: follows_def settled_state_def)
  from settled_attempt_pays_once [OF r(1) this] this show ?thesis by blast
qed

theorem payment_lease_exclusive_witness:
  "\<exists>events s e. event_action (events ! 2) = Some (3, Settle pay_lease pay_settlement) \<and> event_action (events ! (2 - 1)) = Some (s, Claim pay_lease e)"
proof -
  obtain e0 e1 e2 where r: "verify_payment_attempt demo_nacl 10 [e0, e1, e2] = Inr (True, ''ok'')" "event_action e2 = Some (3, Settle pay_lease pay_settlement)" by (rule pay_run)
  have i: "2 < length [e0, e1, e2]" and a: "event_action ([e0, e1, e2] ! 2) = Some (3, Settle pay_lease pay_settlement)" "ends pay_lease (Settle pay_lease pay_settlement)"
    using r(2) by (simp_all add: ends_def)
  obtain s e where "event_action ([e0, e1, e2] ! (2 - 1)) = Some (s, Claim pay_lease e)" using payment_lease_exclusive [OF r(1) i] a by blast
  then show ?thesis using a(1) by blast
qed

section \<open>Room in the journal\<close>

lemma anchor_size:
  assumes "ed25519_ok n" "signer_ok n actor" "as_did actor = Inr did" "sign_anchor n actor (new_anchor phase op aid k h did t) = Inr (anchor_for phase op aid events h did t sg)"
    "length phase \<le> 16" "length op \<le> 32" "length aid \<le> 128" "length h \<le> 128" "length events \<le> 90" "short_stamp t"
  shows "length (anchor_text (anchor_for phase op aid events h did t sg)) \<le> 10000"
proof -
  let ?a = "anchor_for phase op aid events h did t sg"
  obtain bs s where s: "identity_sign n actor bs = Inr s" "anchor_for phase op aid events h did t sg = (new_anchor phase op aid k h did t)\<lparr>an_signature := PStr (b64u_encode s)\<rparr>"
    using assms(4) by (auto simp: sign_anchor_def bindR_Inr_iff ensure_Inr_iff)
  obtain seed where seed: "id_signing_key actor = Some seed" "length seed = 32" using assms(2) by (rule signer_okE)
  have "length s = 64" using s(1) signer_sign [OF assms(1,2)] seed ed25519_okD(3) [OF assms(1) seed(2)] by auto
  moreover have "sg = b64u_encode s" using arg_cong [OF s(2), of an_signature] by (simp add: anchor_for_def)
  ultimately have sg: "length sg \<le> 128" using length_b64u [of s] by simp
  have did: "length did \<le> 111" using signer_did [OF assms(1,2)] assms(3) did_length by (metis Inr_inject decode_did_iff)
  have seq: "length (int_str (int (length events - 1))) \<le> 2" using nat_str_length [of "length events - 1" 2] assms(9) by (simp add: int_str_def)
  obtain cs where cs: "canonical_json (PDict (anchor_to_dict ?a)) = Inr cs" "length cs \<le> 2 * json_bound (PDict (anchor_to_dict ?a))"
    by (rule canonical_json_bound [OF anchor_wf [OF anchor_for_simps(5)]])
  have b: "json_bound (PDict (anchor_to_dict ?a)) \<le> 5000"
    using assms(5-8) sg did seq short_stamp_sizes(1) [OF assms(10)]
    by (simp add: anchor_to_dict_def anchor_for_def new_anchor_def obj_def key_text_def)
  have "cs = anchor_text ?a" using anchor_canonical [of ?a] cs(1) by simp
  then have "length (anchor_text ?a) \<le> 2 * json_bound (PDict (anchor_to_dict ?a))" using cs(2) by blast
  then show ?thesis using b by linarith
qed

lemma run_all: "f1 st = (st1, Inr ()) \<Longrightarrow> f2 st1 = (st1, Inr ()) \<Longrightarrow> f3 st1 = (st2, Inr ()) \<Longrightarrow> f4 st2 = (st3, Inr ()) \<Longrightarrow> f5 st3 = (st3, Inr ()) \<Longrightarrow>
    run_writes [f1, f2, f3, f4, f5] st = (st3, Inr ())"
  by simp

lemma own_write_succeeds:
  assumes "ed25519_ok n" "signer_ok n actor" "attempt_id_ok aid" "as_did actor = Inr did" "events \<noteq> []" "payment_attempt_event_hash (List.last events) = Inr h"
    "first_actor events = Inr (PStr did)" "lease_id_ok op" "short_stamp t" "length events \<le> 90" "document_fits aid events" "journal_is st (drop 25 aid) as" "length (journal_bytes as) \<le> 400000"
  obtains ws st' as' st1 where "own_write n actor aid events t op ws" "run_writes ws st = (st', Inr ())" "run_writes (take 1 ws) st = (st1, Inr ())"
    "journal_is st' (drop 25 aid) as'" "length (journal_bytes as') \<le> length (journal_bytes as) + 20002"
    "\<exists>as1. journal_is st1 (drop 25 aid) as1 \<and> length (journal_bytes as1) \<le> length (journal_bytes as) + 10001"
    "persist n None actor (drop 25 aid) aid events t op st = (st', Inr ())"
proof -
  obtain ws :: "'a store_write list" where ws: "persist_writes n None actor (drop 25 aid) aid events t op = Inr ws"
    using assms(4-6) by (simp add: persist_writes_def attempt_document_def Let_def)
  have own: "own_write n actor aid events t op ws" using ws assms(4,7-9,11) by (simp add: own_write_def short_stamp_def)
  from own_write_signed [OF assms(1-3) own assms(4)] obtain h' sp sc where s: "signed_write n actor aid events t op ws did h' sp sc" .
  then have h: "h' = h" using assms(6) by (simp add: signed_write_def)
  let ?p = "anchor_for ''prepared'' op aid events h did t sp" and ?c = "anchor_for ''committed'' op aid events h did t sc"
  have sp: "sign_anchor n actor (new_anchor ''prepared'' op aid (length events - 1) h did t) = Inr ?p"
    and sc: "sign_anchor n actor (new_anchor ''committed'' op aid (length events - 1) h did t) = Inr ?c"
    and weq: "ws = [with_signed n actor (new_anchor ''prepared'' op aid (length events - 1) h did t) append_anchor,
       with_signed n actor (new_anchor ''prepared'' op aid (length events - 1) h did t) (append_witness None),
       write_document (drop 25 aid) (document_of aid events h),
       with_signed n actor (new_anchor ''committed'' op aid (length events - 1) h did t) append_anchor,
       with_signed n actor (new_anchor ''committed'' op aid (length events - 1) h did t) (append_witness None)]"
    using s unfolding signed_write_def h by blast+
  have l: "length op \<le> 32" "length aid \<le> 128" "length h \<le> 128"
    using assms(3,8) attempt_id_split [OF assms(3)] event_hash_shape [OF assms(6)] assms(6)
    by (auto simp: lease_id_ok_def hex_text_def attempt_id_ok_def id_prefix_def payment_attempt_event_hash_def bindR_Inr_iff)
  have sizes: "length (anchor_text ?p) \<le> 10000" "length (anchor_text ?c) \<le> 10000"
    by (rule anchor_size [OF assms(1,2,4) sp _ l assms(10,9)], simp) (rule anchor_size [OF assms(1,2,4) sc _ l assms(10,9)], simp)
  have fits: "stored_document (document_of aid events h) = Document (document_of aid events h)" using assms(6,11) by (simp add: document_fits_def)
  have stem: "attempt_stem aid = Inr (drop 25 aid)" using assms(3) by (simp add: attempt_stem_def)
  let ?st1 = "st\<lparr>ps_journals := assoc_put (drop 25 aid) (journal_bytes (as @ [?p])) (ps_journals st)\<rparr>"
  let ?st2 = "?st1\<lparr>ps_docs := assoc_put (drop 25 aid) (Document (document_of aid events h)) (ps_docs ?st1)\<rparr>"
  have fit: "length (journal_bytes (as @ [?p])) \<le> max_anchor_file_bytes" "length (journal_bytes ((as @ [?p]) @ [?c])) \<le> max_anchor_file_bytes"
    using sizes assms(13) by (simp_all add: max_anchor_file_bytes_def)
  have a1: "append_anchor ?p st = (?st1, Inr ())" using append_journal [OF assms(12) _ stem, of ?p] fit(1) by simp
  have "journal_is ?st2 (drop 25 aid) (as @ [?p])" using assms(12) fit(1) by (simp add: journal_is_def)
  then have a2: "append_anchor ?c ?st2 = (?st2\<lparr>ps_journals := assoc_put (drop 25 aid) (journal_bytes ((as @ [?p]) @ [?c])) (ps_journals ?st2)\<rparr>, Inr ())"
    using append_journal [of ?st2 "drop 25 aid" "as @ [?p]" ?c aid] stem fit(2) by simp
  have run: "run_writes ws st = (?st2\<lparr>ps_journals := assoc_put (drop 25 aid) (journal_bytes ((as @ [?p]) @ [?c])) (ps_journals ?st2)\<rparr>, Inr ())"
    unfolding weq
  proof (rule run_all)
    show "with_signed n actor (new_anchor ''prepared'' op aid (length events - 1) h did t) append_anchor st = (?st1, Inr ())"
      unfolding with_signed_def sp sum.case a1 ..
    show "with_signed n actor (new_anchor ''committed'' op aid (length events - 1) h did t) append_anchor ?st2 =
        (?st2\<lparr>ps_journals := assoc_put (drop 25 aid) (journal_bytes ((as @ [?p]) @ [?c])) (ps_journals ?st2)\<rparr>, Inr ())"
      unfolding with_signed_def sc sum.case a2 ..
  qed (unfold with_signed_def sp sc, simp_all add: append_witness_def write_document_def fits)
  moreover have "run_writes (take 1 ws) st = (?st1, Inr ())"
  proof -
    have one: "take 1 (f # fs) = [f]" for f :: "'a store_write" and fs by simp
    show ?thesis unfolding weq one run_writes.simps with_signed_def sp sum.case a1 prod.case ..
  qed
  moreover have "journal_is ?st1 (drop 25 aid) (as @ [?p])" using assms(12) fit(1) by (simp add: journal_is_def)
  moreover have "journal_is (?st2\<lparr>ps_journals := assoc_put (drop 25 aid) (journal_bytes ((as @ [?p]) @ [?c])) (ps_journals ?st2)\<rparr>) (drop 25 aid) ((as @ [?p]) @ [?c])"
    using assms(12) fit by (simp add: journal_is_def)
  moreover have "length (journal_bytes (as @ [?p])) \<le> length (journal_bytes as) + 10001" "length (journal_bytes ((as @ [?p]) @ [?c])) \<le> length (journal_bytes as) + 20002"
    using sizes by simp_all
  moreover have "persist n None actor (drop 25 aid) aid events t op st =
      (?st2\<lparr>ps_journals := assoc_put (drop 25 aid) (journal_bytes ((as @ [?p]) @ [?c])) (ps_journals ?st2)\<rparr>, Inr ())"
    unfolding persist_def ws sum.case by (rule run)
  ultimately show thesis using that [OF own run] by blast
qed

section \<open>Witnesses on the store\<close>

definition empty_payments :: "unit payment_store" where
  "empty_payments = \<lparr>ps_docs = [], ps_journals = [], ps_witness = ()\<rparr>"

definition op1 :: string where "op1 = replicate 32 (CHR ''0'')"
definition op2 :: string where "op2 = replicate 32 (CHR ''1'')"

lemma ops_ok: "lease_id_ok op1" "lease_id_ok op2" "op1 \<noteq> op2"
  by code_simp+

lemma empty_disk: "attempt_disk n actor aid empty_payments 0 []" "journal_is empty_payments stem []"
  by (auto simp: empty_payments_def journal_is_def max_anchor_file_bytes_def intro: attempt_disk.empty)

lemma modest_hash:
  assumes "modest 60000 (PDict d)"
  obtains h where "payment_attempt_event_hash (PDict d) = Inr h"
  using canonical_json_wf [of d] assms by (auto simp: modest_def payment_attempt_event_hash_def simp del: wf_json.simps)

lemma pay_write:
  fixes st :: "unit payment_store"
  assumes "journal_is st (drop 25 pay_key) as" "length (journal_bytes as) \<le> 400000" "lease_id_ok op" "short_stamp t"
  obtains e0 ws st' as' st1 where "verify_payment_attempt demo_nacl 10 [e0] = Inr (True, ''ok'')" "keys_once e0" "own_write demo_nacl (demo_identity 1) pay_key [e0] t op ws"
    "run_writes ws st = (st', Inr ())" "run_writes (take 1 ws) st = (st1, Inr ())"
    "\<exists>as1. journal_is st1 (drop 25 pay_key) as1 \<and> length (journal_bytes as1) \<le> length (journal_bytes as) + 10001"
proof -
  obtain d e0 where c: "modest 60000 (PDict (pay_event_to_dict e0))"
    "run_of demo_nacl 10 [PDict (pay_event_to_dict e0)] (fresh_state pay_intent pay_key 1) (fresh_state pay_intent pay_key 1)"
    "first_actor [PDict (pay_event_to_dict e0)] = Inr (PStr (demo_did 1))" by (rule pay_created)
  let ?e0 = "PDict (pay_event_to_dict e0)"
  obtain h where h: "payment_attempt_event_hash ?e0 = Inr h" using c(1) by (rule modest_hash)
  have v: "verify_payment_attempt demo_nacl 10 [?e0] = Inr (True, ''ok'')" using run_verifies [OF c(2)] c(1) by simp
  have k: "keys_once ?e0" using c(1) wf_keys_once(1) by (simp add: modest_def del: wf_json.simps keys_once.simps)
  have hyps: "[?e0] \<noteq> []" "payment_attempt_event_hash (List.last [?e0]) = Inr h" "length [?e0] \<le> 90" "document_fits pay_key [?e0]"
    using h modest_fits [of "[?e0]" pay_key] c(1) pay_key(2) by simp_all
  show thesis
    by (rule own_write_succeeds [OF demo_nacl_ok demo_signer pay_key(2) demo_did(1) hyps(1,2) c(3) assms(3,4) hyps(3,4) assms(1,2)]) (rule that [OF v k])
qed

theorem payment_write_atomic_witness:
  "\<exists>e0 st'. load_attempt demo_nacl None empty_payments (drop 25 pay_key) = Inr None \<and> load_attempt demo_nacl None (st' :: unit payment_store) (drop 25 pay_key) = Inr (Some [e0])"
proof -
  obtain e0 ws st' where w: "own_write demo_nacl (demo_identity 1) pay_key [e0] 5 op1 ws" "run_writes ws empty_payments = (st', Inr ())"
    by (rule pay_write [OF empty_disk(2) _ ops_ok(1), of 5]) (auto simp: short_stamp_def)
  have "length ws \<le> 5" using w(1) demo_did(1) [of 1] by (auto simp: own_write_def elim: persist_writes_eq)
  then have "run_writes (take 5 ws) empty_payments = (st', Inr ())" using w(2) by simp
  from payment_write_atomic [OF demo_nacl_ok demo_signer pay_key(2) empty_disk(1) w(1) _ _ this]
  have "load_attempt demo_nacl None st' (drop 25 pay_key) = Inr (Some [e0])" by auto
  moreover have "load_attempt demo_nacl None empty_payments (drop 25 pay_key) = Inr None" by (simp add: load_attempt_def empty_payments_def)
  ultimately show ?thesis by blast
qed

lemma payment_rollback_detected_demo:
  "\<exists>e0 st'. load_attempt demo_nacl None (st' :: unit payment_store) (drop 25 pay_key) = Inr (Some [e0])
     \<and> (list_all2 (\<lambda>x y. canon x = canon y) [e0] [e0] \<or> (\<exists>x \<in> set [e0]. \<exists>y \<in> set [e0]. sha_collision (event_bytes x) (event_bytes y)))"
proof -
  obtain e0 ws st' where w: "verify_payment_attempt demo_nacl 10 [e0] = Inr (True, ''ok'')" "keys_once e0" "own_write demo_nacl (demo_identity 1) pay_key [e0] 5 op1 ws"
    "run_writes ws empty_payments = (st', Inr ())"
    by (rule pay_write [OF empty_disk(2) _ ops_ok(1), of 5]) (auto simp: short_stamp_def)
  have "persist demo_nacl None (demo_identity 1) (drop 25 pay_key) pay_key [e0] 5 op1 empty_payments = (st', Inr ())"
    using w(3,4) by (simp add: persist_def own_write_def)
  moreover have "first_actor [e0] = Inr (PStr (demo_did 1))" using w(3) demo_did(1) [of 1] by (simp add: own_write_def)
  ultimately have l: "load_attempt demo_nacl None (st'\<lparr>ps_docs := ps_docs st'\<rparr>) (drop 25 pay_key) = Inr (Some [e0])"
    using persist_loads(1) [OF demo_nacl_ok demo_signer pay_key(2) empty_disk(1) _ _ ops_ok(1) _ demo_did(1), of 5] w(3) by (simp add: own_write_def)
  have ks: "list_all keys_once [e0]" using w(2) by simp
  from payment_rollback_detected [OF demo_nacl_ok demo_signer pay_key(2) empty_disk(1) w(3) _ _ w(4) l w(1,1) ks ks]
  have "list_all2 (\<lambda>x y. canon x = canon y) [e0] [e0] \<or> (\<exists>x \<in> set [e0]. \<exists>y \<in> set [e0]. sha_collision (event_bytes x) (event_bytes y))" by simp
  then show ?thesis using l by auto
qed

lemma earlier_clock_spoils_journal_demo:
  "\<exists>e0 ws st1 st2. own_write demo_nacl (demo_identity 1) pay_key [e0] 3 op2 ws \<and> run_writes ws st1 = (st2 :: unit payment_store, Inr ())
     \<and> load_attempt demo_nacl None st2 (drop 25 pay_key) = reject ''payment attempt head anchor binding is invalid''"
proof -
  have s: "short_stamp 5" "short_stamp 3" "(0 :: int) \<le> 5" "(3 :: int) < 5" "op1 \<notin> set []" by (simp_all add: short_stamp_def)
  obtain f0 ws1 st1 as1 where w1: "own_write demo_nacl (demo_identity 1) pay_key [f0] 5 op1 ws1" "run_writes (take 1 ws1) empty_payments = (st1, Inr ())"
    and j1: "journal_is st1 (drop 25 pay_key) as1" "length (journal_bytes as1) \<le> length (journal_bytes []) + 10001"
    by (rule pay_write [OF empty_disk(2) _ ops_ok(1) s(1)]) auto
  have l1: "length (journal_bytes as1) \<le> 400000" using j1(2) by simp
  obtain e0 ws st2 where w: "own_write demo_nacl (demo_identity 1) pay_key [e0] 3 op2 ws" "run_writes ws st1 = (st2, Inr ())"
    by (rule pay_write [OF j1(1) l1 ops_ok(2) s(2)])
  from earlier_clock_spoils_journal [OF demo_nacl_ok demo_signer pay_key(2) empty_disk(1) w1(1) s(3,5) w1(2) w(1) s(4) w(2)] w show ?thesis by blast
qed

lemma pay_create:
  obtains st' view as' where "create_attempt demo_nacl None 10 (demo_identity 1) pay_intent adapter_x402_testnet 1 op1 empty_payments = (st', Inr view)"
    "attempt_disk demo_nacl (demo_identity 1) pay_key st' 1 [op1]" "journal_is st' (drop 25 pay_key) as'" "length (journal_bytes as') \<le> 20002"
    "\<exists>e0. load_attempt demo_nacl None st' (drop 25 pay_key) = Inr (Some [e0]) \<and> run_of demo_nacl 10 [e0] (fresh_state pay_intent pay_key 1) (fresh_state pay_intent pay_key 1) \<and> modest 60000 e0"
proof -
  obtain d e0 where c: "intent_dict pay_intent = Inr d"
    "sign_pay_event demo_nacl (demo_identity 1) (new_pay_event pay_key 0 ''payment_attempt_created'' (demo_did 1) [] ''pending'' (create_payload d) [] 1) = Inr e0"
    "modest 60000 (PDict (pay_event_to_dict e0))"
    "run_of demo_nacl 10 [PDict (pay_event_to_dict e0)] (fresh_state pay_intent pay_key 1) (fresh_state pay_intent pay_key 1)"
    "first_actor [PDict (pay_event_to_dict e0)] = Inr (PStr (demo_did 1))" by (rule pay_created)
  let ?e0 = "PDict (pay_event_to_dict e0)"
  obtain h where h: "payment_attempt_event_hash ?e0 = Inr h" using c(3) by (rule modest_hash)
  have hyps: "[?e0] \<noteq> []" "payment_attempt_event_hash (List.last [?e0]) = Inr h" "length [?e0] \<le> 90" "short_stamp 1" "length (journal_bytes []) \<le> 400000" "document_fits pay_key [?e0]"
    using h modest_fits [of "[?e0]" pay_key] c(3) pay_key(2) by (simp_all add: short_stamp_def)
  obtain st' as' where p: "persist demo_nacl None (demo_identity 1) (drop 25 pay_key) pay_key [?e0] 1 op1 empty_payments = (st', Inr ())" "journal_is st' (drop 25 pay_key) as'"
    "length (journal_bytes as') \<le> length (journal_bytes []) + 20002"
    by (rule own_write_succeeds [OF demo_nacl_ok demo_signer pay_key(2) demo_did(1) hyps(1,2) c(5) ops_ok(1) hyps(4,3,6) empty_disk(2) hyps(5)])
  have "load_attempt demo_nacl None empty_payments (drop 25 pay_key) = Inr None" by (simp add: load_attempt_def empty_payments_def)
  then have "create_attempt demo_nacl None 10 (demo_identity 1) pay_intent adapter_x402_testnet 1 op1 empty_payments = (st', Inr (project_verified [?e0]))"
    using c(1,2) demo_did(1,3) [of 1] pay_key(1,2) p(1) by (simp add: create_attempt_def attempt_stem_def create_payload_def [symmetric])
  moreover note persist_loads [OF demo_nacl_ok demo_signer pay_key(2) empty_disk(1) _ _ ops_ok(1) _ demo_did(1) hyps(6) c(5) p(1)]
  ultimately show thesis using that [of st' "project_verified [?e0]" as'] p c(3,4) by auto
qed

lemma create_then_get_demo:
  "\<exists>st' view. create_attempt demo_nacl None 10 (demo_identity 1) pay_intent adapter_x402_testnet 1 op1 empty_payments = (st', Inr view)
     \<and> get_attempt demo_nacl None 10 pay_key st' = Inr (Some view) \<and> create_attempt demo_nacl None 10 (demo_identity 1) pay_intent adapter_x402_testnet 7 op2 st' = (st', Inr view)"
proof -
  obtain st' view where c: "create_attempt demo_nacl None 10 (demo_identity 1) pay_intent adapter_x402_testnet 1 op1 empty_payments = (st', Inr view)" by (rule pay_create)
  have e: "map_of (ps_docs empty_payments) (drop 25 pay_key) = None" "map_of (ps_journals empty_payments) (drop 25 pay_key) = None" "short_stamp 1"
    by (simp_all add: empty_payments_def short_stamp_def)
  from create_then_get [OF demo_nacl_ok demo_signer pay_key(1) pay_intent_ok(2) e(3) ops_ok(1) e(1,2) c, of 10 7 op2] c show ?thesis by auto
qed

lemma claim_excludes_demo:
  "\<exists>st1 st2 view. claim_attempt demo_nacl None 10 (demo_identity 1) pay_key 30000 2 pay_lease op2 st1 = (st2 :: unit payment_store, Inr (Some view))
     \<and> v_lease_id view = PStr pay_lease \<and> fst (claim_attempt demo_nacl None 10 (demo_identity 1) pay_key 30000 9 op2 op1 st2) = st2"
proof -
  obtain st1 as1 e0 where s: "attempt_disk demo_nacl (demo_identity 1) pay_key (st1 :: unit payment_store) 1 [op1]" "journal_is st1 (drop 25 pay_key) as1" "length (journal_bytes as1) \<le> 20002"
    "load_attempt demo_nacl None st1 (drop 25 pay_key) = Inr (Some [e0])" "run_of demo_nacl 10 [e0] (fresh_state pay_intent pay_key 1) (fresh_state pay_intent pay_key 1)" "modest 60000 e0"
    by (rule pay_create) blast
  let ?f = "fresh_state pay_intent pay_key 1"
  have did: "as_did (demo_identity 1) = Inr (a_actor_did ?f)" using demo_did(1) [of 1] by (simp add: fresh_state_def)
  have x: "list_all (modest 60000) [e0]" "length [e0] \<le> 4" "attempt_id_ok (a_attempt_id ?f)" "length ''payment_attempt_claimed'' \<le> 64"
    "length (a_state ?f) \<le> 64" "length ''inflight'' \<le> 64" "short_stamp 2" "a_created_at_ms ?f \<le> 2"
    using s(6) pay_key(2) by (simp_all add: fresh_state_def short_stamp_def)
  obtain h1 e1 where e1: "payment_attempt_event_hash (List.last [e0]) = Inr h1"
    "sign_pay_event demo_nacl (demo_identity 1) (new_pay_event (a_attempt_id ?f) (length [e0]) ''payment_attempt_claimed'' (a_actor_did ?f) (a_state ?f) ''inflight'' claim_payload h1 2) = Inr e1"
    "list_all (modest 60000) ([e0] @ [PDict (pay_event_to_dict e1)])"
    "verify_payment_attempt demo_nacl 10 ([e0] @ [PDict (pay_event_to_dict e1)]) = Inr (True, ''ok'')"
    by (rule honest_event [OF demo_nacl_ok demo_signer did s(5) x(1,2) claim_payload_modest x(3-8) claim_next])
  let ?es = "[e0] @ [PDict (pay_event_to_dict e1)]"
  have v0: "verify_payment_attempt demo_nacl 10 [e0] = Inr (True, ''ok'')" using run_verifies [OF s(5)] s(6) by simp
  have f: "follows ?f (project_verified [e0])" using s(5) by (rule run_refines)
  then have view: "v_actor_did (project_verified [e0]) = PStr (demo_did 1)" "v_state (project_verified [e0]) = PStr ''pending''" "v_next_attempt_at_ms (project_verified [e0]) = PInt 0"
    by (simp_all add: follows_def fresh_state_def)
  have fa: "first_actor ?es = Inr (PStr (demo_did 1))" using verified_first_actor [OF v0] view(1) by (auto simp: first_actor_def split: pyval.splits)
  obtain h2 where h2: "payment_attempt_event_hash (List.last ?es) = Inr h2" using modest_hash [of "pay_event_to_dict e1"] e1(3) by auto
  have hyps: "?es \<noteq> []" "length ?es \<le> 90" "length (journal_bytes as1) \<le> 400000" "document_fits pay_key ?es"
    using s(3) modest_fits [OF e1(3), of pay_key] pay_key(2) by simp_all
  obtain st2 where p: "persist demo_nacl None (demo_identity 1) (drop 25 pay_key) pay_key ?es 2 op2 st1 = (st2, Inr ())"
    by (rule own_write_succeeds [OF demo_nacl_ok demo_signer pay_key(2) demo_did(1) hyps(1) h2 fa ops_ok(2) x(7) hyps(2,4) s(2) hyps(3)])
  have own: "own_attempt demo_nacl None 10 (demo_identity 1) (drop 25 pay_key) st1 = Inr (Some ([e0], project_verified [e0], demo_did 1))"
    using s(4) v0 view(1) demo_did(1) [of 1] by (simp add: own_attempt_def view_or_def)
  have "extend_attempt demo_nacl None 10 (demo_identity 1) (demo_did 1) (drop 25 pay_key) pay_key [e0] (project_verified [e0]) ''payment_attempt_claimed'' ''inflight''
       (obj [(''lease_id'', PStr pay_lease), (''lease_expires_at_ms'', PInt (2 + 30000))]) 2 op2 st1 = (st2, Inr (project_verified ?es))"
    using e1 p view(2) by (simp add: extend_attempt_def claim_payload_def fresh_state_def)
  then have c: "claim_attempt demo_nacl None 10 (demo_identity 1) pay_key 30000 2 pay_lease op2 st1 = (st2, Inr (Some (project_verified ?es)))"
    using own pay_key(2) view by (simp add: claim_attempt_def attempt_stem_def claimable_def)
  have "op2 \<notin> set [op1]" using ops_ok(3) by simp
  from claim_excludes [OF demo_nacl_ok demo_signer pay_key(2) s(1) _ _ ops_ok(2) this c, of 9 10 "demo_identity 1" 30000 op2 op1]
  have "fst (claim_attempt demo_nacl None 10 (demo_identity 1) pay_key 30000 9 op2 op1 st2) = st2 \<and> v_lease_id (project_verified ?es) = PStr pay_lease"
    by (cases "claim_attempt demo_nacl None 10 (demo_identity 1) pay_key 30000 9 op2 op1 st2") auto
  then show ?thesis using c by blast
qed

end
