(* ===== verification/Payment_Exec.thy ===== *)
theory Payment_Exec
  imports Payment_Ops
begin

text \<open>
  \<open>nth_dao/commerce/payment_attempt.py\<close>, the workers of the store: the executor, which claims an attempt, settles its trade on the payment rail and records what
  came of it, and the reconciler, which looks an orphaned payment up on the rail and never pays. A failed settlement carries, beside its reason, the
  evidence of a receipt that may have moved value; the exception's attributes are kept beside the rail's state while \<open>settle_trade\<close> runs. Every
  operation reads the clock for itself, and makes fresh identifiers; a run takes them as its input. A run of a worker, \<open>run_once\<close> (claim, rail call, record),
  is one step of the model. The code holds no lock across these three: two executors whose leases follow each other can overlap on the rail, which is documented to
  deduplicate concurrent calls under one idempotency key. Such overlapping runs are not modelled; runs one after another, at any clock readings and with any changes of the files between
  them, are. The rail is the parameter \<open>payment_rail\<close>; both its lookup and its payment may raise, with or without a receipt as evidence.
\<close>

section \<open>Failures that may have moved value\<close>

definition receipt_evidence :: "rail_receipt \<Rightarrow> evidence res" where
  "receipt_evidence receipt =
     (let tx_ref = rc_tx_ref receipt;
          provider_reference = (if is_wire_token tx_ref 256 then tx_ref else []);
          idempotency_key = rc_idempotency_key receipt;
          body = obj [(''receipt_type'', PStr ''RailReceipt''), (''tx_ref'', PStr provider_reference), (''tx_ref_length'', PInt (int (length tx_ref))),
            (''idempotency_key'', PStr (if is_wire_token idempotency_key 128 then idempotency_key else [])),
            (''idempotency_key_length'', PInt (int (length idempotency_key))), (''status'', PStr (take 128 (rc_status receipt))),
            (''proof_type'', PStr (take 128 (type_name (rc_proof receipt))))];
          body = (case bindR (proof_encoded_size (rc_proof receipt)) (\<lambda>_. canonical_json (PDict [(PStr ''proof'', rc_proof receipt)])) of
              Inr proof_bytes \<Rightarrow> dput body ''proof_digest'' (PStr (''sha256:'' @ sha256_hex proof_bytes))
            | Inl _ \<Rightarrow> (case rc_proof receipt of
                PDict d \<Rightarrow> dput body ''proof_entries'' (PInt (int (length d)))
              | PList xs \<Rightarrow> dput body ''proof_entries'' (PInt (int (length xs)))
              | _ \<Rightarrow> body)) in
      bindR (canonical_json (PDict body)) (\<lambda>encoded. Inr (provider_reference, ''sha256:'' @ sha256_hex encoded)))"

definition receipt_result :: "settlement_intent \<Rightarrow> rail_receipt \<Rightarrow> string \<Rightarrow> int \<Rightarrow> evidence option \<times> settlement_result res" where
  "receipt_result i receipt network now = (case settlement_idempotency_key i of
     Inl e \<Rightarrow> (None, Inl e)
   | Inr _ \<Rightarrow> (case result_from_receipt i receipt network now of
       Inr x \<Rightarrow> (None, Inr x)
     | Inl e \<Rightarrow> (case receipt_evidence receipt of Inl e' \<Rightarrow> (None, Inl e') | Inr ev \<Rightarrow> (Some ev, Inl e))))"

definition x402_ready :: "'r payment_rail \<Rightarrow> settlement_intent \<Rightarrow> (string \<times> string) res" where
  "x402_ready rail i = bindR (intent_validate i) (\<lambda>_. bindR (x402_network (rail_network rail)) (\<lambda>network.
     bindR (settlement_idempotency_key i) (\<lambda>key. Inr (network, key))))"

definition x402_attempt :: "'r payment_rail \<Rightarrow> settlement_intent \<Rightarrow> int \<Rightarrow> 'r \<times> evidence option \<Rightarrow> ('r \<times> evidence option) \<times> settlement_result res" where
  "x402_attempt rail i now s = (case x402_ready rail i of
     Inl e \<Rightarrow> ((fst s, None), Inl e)
   | Inr (network, key) \<Rightarrow>
       (case rail_receipt_for rail i key (fst s) of
          (r', Inl (e, committed)) \<Rightarrow> ((r', committed), Inl e)
        | (r', Inr receipt) \<Rightarrow> (case receipt_result i receipt network now of (ev, out) \<Rightarrow> ((r', ev), out))))"

section \<open>The executor\<close>

record executor_config =
  cf_lease_ms :: int
  cf_retry_after_ms :: int
  cf_retry_max_ms :: int
  cf_retry_jitter_percent :: int
  cf_max_attempts :: int

definition default_config :: executor_config where
  "default_config = \<lparr>cf_lease_ms = 30000, cf_retry_after_ms = 5000, cf_retry_max_ms = 300000, cf_retry_jitter_percent = 20, cf_max_attempts = 10\<rparr>"

definition config_check :: "executor_config \<Rightarrow> unit res" where
  "config_check cf =
     ensure (1000 \<le> cf_lease_ms cf \<and> cf_lease_ms cf \<le> 300000) ValueError ''lease_ms must be between 1000 and 300000'' (
     ensure (0 \<le> cf_retry_after_ms cf \<and> cf_retry_after_ms cf \<le> 86400000) ValueError ''retry_after_ms must be between 0 and 86400000'' (
     ensure (cf_retry_after_ms cf \<le> cf_retry_max_ms cf \<and> cf_retry_max_ms cf \<le> 86400000) ValueError
       ''retry_max_ms must be between retry_after_ms and 86400000'' (
     ensure (0 \<le> cf_retry_jitter_percent cf \<and> cf_retry_jitter_percent cf \<le> 50) ValueError ''retry_jitter_percent must be between 0 and 50'' (
     ensure (1 \<le> cf_max_attempts cf \<and> cf_max_attempts cf \<le> 100) ValueError ''max_attempts must be between 1 and 100'' (Inr ())))))"

definition permanent_settlement_failures :: "string list" where
  "permanent_settlement_failures = [''rail-declined'', ''settlement-amount-invalid'', ''settlement-amount-mismatch'', ''settlement-currency-mismatch'',
     ''settlement-currency-unsupported'', ''settlement-idempotency-key-mismatch'', ''settlement-intent-invalid'', ''settlement-network-missing'',
     ''settlement-network-not-testnet'', ''settlement-payee-mismatch'', ''settlement-payer-mismatch'', ''settlement-proof-missing'',
     ''settlement-trade-mismatch'', ''settlement-tx-ref-missing'', ''settlement-unknown-adapter'', ''settlement-wrong-settler'']"

text \<open>The classes below \<open>OSError\<close> and \<open>RuntimeError\<close>. Of the exceptions that can be handled here, settlement failures and trade rejections have a \<open>reason\<close>.\<close>

definition is_os_error :: "exn_class \<Rightarrow> bool" where
  "is_os_error c \<longleftrightarrow> c \<in> {OSError, PermissionError, FileExistsError, ConnectionError, TimeoutError}"

definition is_runtime_error :: "exn_class \<Rightarrow> bool" where
  "is_runtime_error c \<longleftrightarrow> c \<in> {RuntimeError, TamperedTeamConfigError, PaymentAttemptConflict, PaymentWitnessRejected}"

definition exn_reason :: "exn \<Rightarrow> string" where
  "exn_reason e = (if exn_cls e = SettlementFailed \<or> exn_cls e = TradeRejected then exn_msg e else [])"

definition payment_error_code :: "exn \<Rightarrow> string" where
  "payment_error_code e =
     (if error_code_ok (exn_reason e) then exn_reason e
      else if exn_cls e = TradeConflict then ''trade-conflict''
      else if exn_cls e = TimeoutError then ''provider-timeout''
      else if exn_cls e = ConnectionError then ''provider-connection-error''
      else if is_os_error (exn_cls e) then ''io-error''
      else if is_runtime_error (exn_cls e) then ''runtime-error''
      else ''internal-error'')"

definition orphan_metadata :: "exn \<Rightarrow> evidence \<Rightarrow> (string \<times> string \<times> string) res" where
  "orphan_metadata e ev =
     (let error_code = payment_error_code e;
          reference = (if 256 < length (fst ev) \<or> list_ex (\<lambda>c. (of_char c :: nat) < 33 \<or> 126 < (of_char c :: nat)) (fst ev) then [] else fst ev) in
      if event_hash_ok (snd ev) then Inr (error_code, reference, snd ev)
      else bindR (canonical_json (PDict (obj [(''error_code'', PStr error_code), (''provider_reference'', PStr reference)]))) (\<lambda>body.
           Inr (error_code, reference, ''sha256:'' @ sha256_hex body)))"

definition retry_base :: "executor_config \<Rightarrow> nat \<Rightarrow> int" where
  "retry_base cf attempts = min (cf_retry_max_ms cf) (cf_retry_after_ms cf * 2 ^ min (attempts - 1) 30)"

definition retry_delay_ms :: "executor_config \<Rightarrow> attempt_view \<Rightarrow> int res" where
  "retry_delay_ms cf claimed =
     (let base = retry_base cf (v_attempts claimed); jitter = base * cf_retry_jitter_percent cf div 100 in
      if jitter = 0 then Inr base
      else bindR (canonical_json (PDict (obj [(''attempt_id'', v_attempt_id claimed), (''attempts'', PInt (int (v_attempts claimed))),
             (''kind'', PStr ''nth/payment-retry-jitter@1'')]))) (\<lambda>body.
           let offset = int (from_bytes_big (take 8 (sha256 body))) mod (2 * jitter + 1) - jitter in
           Inr (min (cf_retry_max_ms cf) (max 0 (base + offset)))))"

record run_inputs =
  ri_claim_ms :: int
  ri_settle_ms :: int
  ri_record_ms :: int
  ri_lease_id :: string
  ri_claim_op :: string
  ri_record_op :: string

record ('w, 'r) payment_node =
  pn_attempts :: "'w payment_store"
  pn_trades :: trade_store
  pn_rail :: 'r

record ('w, 'r) payment_executor =
  px_nacl :: nacl
  px_witness :: "'w head_witness option"
  px_actor :: identity
  px_rail :: "'r payment_rail"
  px_config :: executor_config

type_synonym 'w attempt_op = "'w payment_store \<Rightarrow> 'w payment_store \<times> attempt_view res"

definition retry_or_block :: "('w, 'r) payment_executor \<Rightarrow> run_inputs \<Rightarrow> attempt_view \<Rightarrow> exn \<Rightarrow> bool \<Rightarrow> 'w attempt_op" where
  "retry_or_block x inp claimed e permanent st =
     (let n = px_nacl x; w = px_witness x; t = ri_record_ms inp; aid = as_str (v_attempt_id claimed); lease = as_str (v_lease_id claimed); code = payment_error_code e in
      if permanent \<or> cf_max_attempts (px_config x) \<le> int (v_attempts claimed)
      then block_attempt n w t (px_actor x) aid lease code t (ri_record_op inp) st
      else (case retry_delay_ms (px_config x) claimed of
              Inl e' \<Rightarrow> (st, Inl e')
            | Inr delay \<Rightarrow> schedule_retry n w t (px_actor x) aid lease code delay t (ri_record_op inp) st))"

definition event_settlement :: "pydict \<Rightarrow> pydict res" where
  "event_settlement event = (case dget event ''payload'' of
     Some (PDict p) \<Rightarrow> (case dget p ''settlement'' of
       Some (PDict s) \<Rightarrow> Inr s
     | _ \<Rightarrow> reject ''settle_trade returned an event without a settlement payload'')
   | _ \<Rightarrow> reject ''settle_trade returned an event without a settlement payload'')"

definition settlement_failed :: "('w, 'r) payment_executor \<Rightarrow> run_inputs \<Rightarrow> attempt_view \<Rightarrow> exn \<Rightarrow> evidence option \<Rightarrow> 'w attempt_op" where
  "settlement_failed x inp claimed e committed st =
     (if exn_cls e = SettlementFailed
      then (case committed of
              Some ev \<Rightarrow> (case orphan_metadata e ev of
                  Inl e' \<Rightarrow> (st, Inl e')
                | Inr (code, reference, digest) \<Rightarrow>
                    record_orphaned (px_nacl x) (px_witness x) (ri_record_ms inp) (px_actor x) (as_str (v_attempt_id claimed)) (as_str (v_lease_id claimed))
                      code reference digest (ri_record_ms inp) (ri_record_op inp) st)
            | None \<Rightarrow> retry_or_block x inp claimed e (exn_msg e \<in> set permanent_settlement_failures) st)
      else if exn_cls e = TradeConflict \<or> exn_cls e = TradeRejected \<or> is_os_error (exn_cls e) \<or> is_runtime_error (exn_cls e)
      then retry_or_block x inp claimed e False st
      else (st, Inl e))"

definition execute_claimed :: "('w, 'r) payment_executor \<Rightarrow> run_inputs \<Rightarrow> attempt_view \<Rightarrow> ('w, 'r) payment_node \<Rightarrow> ('w, 'r) payment_node \<times> attempt_view res" where
  "execute_claimed x inp claimed nd = (case intent_from_dict (PDict (v_intent claimed)) of
     Inl e \<Rightarrow> (nd, Inl e)
   | Inr intent \<Rightarrow>
       (case settle_trade (px_nacl x) (ri_settle_ms inp) (pn_trades nd) (i_trade_id intent) (px_actor x) adapter_x402_testnet (x402_attempt (px_rail x)) intent
               (pn_rail nd, None) of
          ((trades, r, committed), out) \<Rightarrow>
            (case (case bindR out event_settlement of
                     Inr s \<Rightarrow> record_settled (px_nacl x) (px_witness x) (ri_record_ms inp) (px_actor x) (as_str (v_attempt_id claimed)) (as_str (v_lease_id claimed))
                                s (ri_record_ms inp) (ri_record_op inp) (pn_attempts nd)
                   | Inl e \<Rightarrow> (case out of
                       Inl _ \<Rightarrow> settlement_failed x inp claimed e committed (pn_attempts nd)
                     | Inr _ \<Rightarrow> (pn_attempts nd, Inl e))) of
               (attempts, res) \<Rightarrow> (\<lparr>pn_attempts = attempts, pn_trades = trades, pn_rail = r\<rparr>, res))))"

definition run_once :: "('w, 'r) payment_executor \<Rightarrow> string \<Rightarrow> run_inputs \<Rightarrow> ('w, 'r) payment_node \<Rightarrow> ('w, 'r) payment_node \<times> attempt_view option res" where
  "run_once x attempt_id inp nd =
     (case claim_attempt (px_nacl x) (px_witness x) (ri_claim_ms inp) (px_actor x) attempt_id (cf_lease_ms (px_config x)) (ri_claim_ms inp) (ri_lease_id inp)
             (ri_claim_op inp) (pn_attempts nd) of
        (attempts, Inl e) \<Rightarrow> (nd\<lparr>pn_attempts := attempts\<rparr>, Inl e)
      | (attempts, Inr None) \<Rightarrow> (nd\<lparr>pn_attempts := attempts\<rparr>, Inr None)
      | (attempts, Inr (Some claimed)) \<Rightarrow>
          (case execute_claimed x inp claimed (nd\<lparr>pn_attempts := attempts\<rparr>) of
             (nd', Inl e) \<Rightarrow> (nd', Inl e)
           | (nd', Inr view) \<Rightarrow> (nd', Inr (Some view))))"

fun run_stems :: "('w, 'r) payment_executor \<Rightarrow> nat \<Rightarrow> (string \<Rightarrow> run_inputs) \<Rightarrow> attempt_view list \<Rightarrow> string list \<Rightarrow> ('w, 'r) payment_node
    \<Rightarrow> ('w, 'r) payment_node \<times> attempt_view list res" where
  "run_stems x limit inp results [] nd = (nd, Inr results)"
| "run_stems x limit inp results (stem # stems) nd = (case run_once x (id_prefix @ stem) (inp stem) nd of
     (nd', Inl e) \<Rightarrow> (nd', Inl e)
   | (nd', Inr None) \<Rightarrow> run_stems x limit inp results stems nd'
   | (nd', Inr (Some view)) \<Rightarrow>
       if limit \<le> length results + 1 then (nd', Inr (results @ [view])) else run_stems x limit inp (results @ [view]) stems nd')"

definition run_pending :: "('w, 'r) payment_executor \<Rightarrow> int \<Rightarrow> (string \<Rightarrow> run_inputs) \<Rightarrow> ('w, 'r) payment_node \<Rightarrow> ('w, 'r) payment_node \<times> attempt_view list res" where
  "run_pending x limit inp nd =
     (if 1 \<le> limit \<and> limit \<le> 1000 then run_stems x (nat limit) inp [] (sort (map fst (ps_docs (pn_attempts nd)))) nd
      else (nd, reject ''limit must be between 1 and 1000''))"

section \<open>The reconciler\<close>

definition lookup_only :: "'r payment_rail \<Rightarrow> settlement_intent \<Rightarrow> int \<Rightarrow> 'r \<Rightarrow> 'r \<times> settlement_result res" where
  "lookup_only rail i now r = (r, bindR (lookup_settlement rail i now r) (\<lambda>found. case found of
     None \<Rightarrow> raise SettlementFailed ''settlement-receipt-not-found''
   | Some res \<Rightarrow> Inr res))"

definition reconcile_once :: "('w, 'r) payment_executor \<Rightarrow> string \<Rightarrow> run_inputs \<Rightarrow> ('w, 'r) payment_node \<Rightarrow> ('w, 'r) payment_node \<times> attempt_view res" where
  "reconcile_once x attempt_id inp nd =
     (case bindR (get_attempt (px_nacl x) (px_witness x) (ri_claim_ms inp) attempt_id (pn_attempts nd)) (\<lambda>found. case found of
             None \<Rightarrow> reject ''payment attempt not found''
           | Some current \<Rightarrow>
               bindR (as_did (px_actor x)) (\<lambda>did.
               ensure (PStr did = v_actor_did current) PaymentAttemptRejected ''payment attempt actor mismatch'' (Inr current))) of
        Inl e \<Rightarrow> (nd, Inl e)
      | Inr current \<Rightarrow>
          if v_state current = PStr ''settled'' then (nd, Inr current)
          else if v_state current \<noteq> PStr ''orphaned'' then (nd, reject ''only orphaned payment attempts can be reconciled'')
          else (case intent_from_dict (PDict (v_intent current)) of
              Inl e \<Rightarrow> (nd, Inl e)
            | Inr intent \<Rightarrow>
                (case settle_trade (px_nacl x) (ri_settle_ms inp) (pn_trades nd) (i_trade_id intent) (px_actor x) adapter_x402_testnet (lookup_only (px_rail x)) intent (pn_rail nd) of
                   ((trades, r), out) \<Rightarrow>
                     (case bindR out event_settlement of
                        Inl e \<Rightarrow> (nd\<lparr>pn_trades := trades, pn_rail := r\<rparr>, Inl e)
                      | Inr s \<Rightarrow>
                          (case record_reconciled (px_nacl x) (px_witness x) (ri_record_ms inp) (px_actor x) attempt_id s (as_str (v_evidence_digest current))
                                  (ri_record_ms inp) (ri_record_op inp) (pn_attempts nd) of
                             (attempts, res) \<Rightarrow> (\<lparr>pn_attempts = attempts, pn_trades = trades, pn_rail = r\<rparr>, res))))))"

section \<open>Retry delays\<close>

lemma config_checkD:
  assumes "config_check cf = Inr ()"
  shows "1000 \<le> cf_lease_ms cf" "0 \<le> cf_retry_after_ms cf" "cf_retry_after_ms cf \<le> cf_retry_max_ms cf" "0 \<le> cf_retry_jitter_percent cf" "cf_retry_jitter_percent cf \<le> 50"
    "1 \<le> cf_max_attempts cf"
  using assms by (auto simp: config_check_def ensure_Inr_iff)

lemma retry_base_range:
  assumes "config_check cf = Inr ()"
  shows "0 \<le> retry_base cf k" "retry_base cf k \<le> cf_retry_max_ms cf" "cf_retry_after_ms cf \<le> retry_base cf k"
proof -
  note c = config_checkD [OF assms]
  have "cf_retry_after_ms cf * 1 \<le> cf_retry_after_ms cf * 2 ^ min (k - 1) 30" by (rule mult_left_mono) (use c in auto)
  then show "0 \<le> retry_base cf k" "retry_base cf k \<le> cf_retry_max_ms cf" "cf_retry_after_ms cf \<le> retry_base cf k" using c by (auto simp: retry_base_def)
qed

lemma retry_base_mono:
  assumes "config_check cf = Inr ()" "j \<le> k"
  shows "retry_base cf j \<le> retry_base cf k"
proof -
  have "cf_retry_after_ms cf * 2 ^ min (j - 1) 30 \<le> cf_retry_after_ms cf * 2 ^ min (k - 1) 30"
    by (rule mult_left_mono) (use assms(2) config_checkD(2) [OF assms(1)] in \<open>auto intro!: power_increasing\<close>)
  then show ?thesis by (auto simp: retry_base_def)
qed

lemma jitter_range:
  assumes "config_check cf = Inr ()" "b = retry_base cf k" "j = b * cf_retry_jitter_percent cf div 100"
  shows "0 \<le> j" "100 * j \<le> b * cf_retry_jitter_percent cf" "2 * j \<le> b"
proof -
  note c = config_checkD [OF assms(1)] and r = retry_base_range [OF assms(1), of k]
  show "0 \<le> j" using c r by (simp add: assms(2,3) pos_imp_zdiv_nonneg_iff)
  show le: "100 * j \<le> b * cf_retry_jitter_percent cf" unfolding assms(3) by linarith
  have "b * cf_retry_jitter_percent cf \<le> b * 50" by (rule mult_left_mono) (use c r assms(2) in auto)
  with le show "2 * j \<le> b" by simp
qed

lemma retry_offset:
  assumes "0 \<le> (j::int)"
  shows "- j \<le> h mod (2 * j + 1) - j" "h mod (2 * j + 1) - j \<le> j"
  using pos_mod_bound [of "2 * j + 1" h] pos_mod_sign [of "2 * j + 1" h] assms by auto

text \<open>C25. Retry delays are bounded exponential backoff: with a configuration that passes its checks the delay of a claimed attempt is computed without an error, lies
  between zero and the configured maximum, deviates from the doubling base by at most the jitter percentage of it, and the base grows with the number of attempts from
  the configured first delay up to the maximum.\<close>

theorem retry_delay_bounds:
  assumes "config_check cf = Inr ()" "v_attempt_id claimed = PStr aid"
  shows "\<exists>d. retry_delay_ms cf claimed = Inr d \<and> 0 \<le> d \<and> d \<le> cf_retry_max_ms cf
     \<and> 100 * \<bar>d - retry_base cf (v_attempts claimed)\<bar> \<le> retry_base cf (v_attempts claimed) * cf_retry_jitter_percent cf
     \<and> cf_retry_after_ms cf \<le> retry_base cf (v_attempts claimed)
     \<and> (v_attempts claimed \<le> k \<longrightarrow> retry_base cf (v_attempts claimed) \<le> retry_base cf k)"
proof -
  let ?b = "retry_base cf (v_attempts claimed)"
  let ?j = "?b * cf_retry_jitter_percent cf div 100"
  note r = retry_base_range [OF assms(1), of "v_attempts claimed"] and j = jitter_range [OF assms(1) refl refl, of "v_attempts claimed"]
  have near: "\<exists>d. retry_delay_ms cf claimed = Inr d \<and> ?b - ?j \<le> d \<and> d \<le> ?b + ?j \<and> d \<le> cf_retry_max_ms cf"
  proof (cases "?j = 0")
    case True
    then show ?thesis using r by (simp add: retry_delay_ms_def Let_def)
  next
    case False
    have "wf_json (PDict (obj [(''attempt_id'', v_attempt_id claimed), (''attempts'', PInt (int (v_attempts claimed))), (''kind'', PStr ''nth/payment-retry-jitter@1'')]))"
      by (simp add: obj_def assms(2) is_str_def)
    from canonical_json_wf [OF this] obtain body where body: "canonical_json (PDict (obj [(''attempt_id'', v_attempt_id claimed), (''attempts'', PInt (int (v_attempts claimed))),
        (''kind'', PStr ''nth/payment-retry-jitter@1'')])) = Inr body" by blast
    show ?thesis using False body r(2) j(1,3) retry_offset [OF j(1), of "int (from_bytes_big (take 8 (sha256 body)))"] by (simp add: retry_delay_ms_def Let_def)
  qed
  then obtain d where d: "retry_delay_ms cf claimed = Inr d" "?b - ?j \<le> d" "d \<le> ?b + ?j" "d \<le> cf_retry_max_ms cf" by blast
  have "\<bar>d - ?b\<bar> \<le> ?j" using d(2,3) by arith
  then have "100 * \<bar>d - ?b\<bar> \<le> 100 * ?j" by (rule mult_left_mono) simp
  then have "100 * \<bar>d - ?b\<bar> \<le> ?b * cf_retry_jitter_percent cf" using j(2) by (rule order_trans)
  moreover have "0 \<le> ?b - ?j" using j(1,3) by simp
  from this d(2) have "0 \<le> d" by (rule order_trans)
  ultimately show ?thesis using d(1,4) r(3) retry_base_mono [OF assms(1), of "v_attempts claimed" k] by blast
qed

theorem retry_delay_bounds_witness:
  "\<exists>d. retry_delay_ms default_config ((created_view PNone)\<lparr>v_attempt_id := PStr ''a'', v_attempts := 3\<rparr>) = Inr d \<and> 16000 \<le> d \<and> d \<le> 24000"
proof -
  have "config_check default_config = Inr ()" by code_simp
  moreover have "v_attempt_id ((created_view PNone)\<lparr>v_attempt_id := PStr ''a'', v_attempts := 3\<rparr>) = PStr ''a''" by simp
  ultimately obtain d where d: "retry_delay_ms default_config ((created_view PNone)\<lparr>v_attempt_id := PStr ''a'', v_attempts := 3\<rparr>) = Inr d"
    "100 * \<bar>d - retry_base default_config 3\<bar> \<le> retry_base default_config 3 * cf_retry_jitter_percent default_config"
    using retry_delay_bounds [of default_config "(created_view PNone)\<lparr>v_attempt_id := PStr ''a'', v_attempts := 3\<rparr>" "''a''" 3] by auto
  have "retry_base default_config 3 = 20000" "cf_retry_jitter_percent default_config = 20" by code_simp+
  then show ?thesis using d by auto
qed

section \<open>What reaches the rail\<close>

lemma settle_trade_rail:
  assumes "settle_trade n now st tid settler adapter settle i r = ((st', r'), out)" "r' \<noteq> r"
  obtains ps events where "settle_preflight n now st tid settler adapter i = Inr (ps, events)" "trade_state st tid = Some ''verified''"
    "preflight_terms (trade_terms events) i = Inr ()" "x402_payer_ok adapter ps i" "r' = fst (settle i now r)"
  using assms by (auto simp: settle_trade_def ensure_Inr_iff bindR_Inr_iff split: sum.splits prod.splits if_splits)

lemma x402_attempt_rail:
  assumes "r' = fst (fst (x402_attempt rail i now (r, ev)))" "r' \<noteq> r"
  obtains key where "settlement_idempotency_key i = Inr key" "rail_lookup rail key r = Inr None"
    "r' = fst (rail_pay rail (i_payee_did i) (i_amount_minor i) (i_currency i) (i_memo i) key r)"
  using assms by (auto simp: x402_attempt_def x402_ready_def rail_receipt_for_def bindR_Inr_iff split: sum.splits prod.splits option.splits)

lemma preflightD:
  assumes "settle_preflight n now st tid settler adapter i = Inr (ps, events)"
  shows "i_trade_id i = tid" "\<exists>m. verify_trade n now st tid = Inr (True, m)" "get_events st tid = Some events" "parties_of events = Inr ps" "as_did settler = Inr (p_settler ps)"
  using assms by (auto simp: settle_preflight_def Let_def bindR_Inr_iff ensure_Inr_iff split: option.splits)

lemma execute_claimed_rail:
  assumes "execute_claimed x inp claimed nd = (nd', out)" "pn_rail nd' \<noteq> pn_rail nd"
  obtains i key ps events where "intent_from_dict (PDict (v_intent claimed)) = Inr i" "settlement_idempotency_key i = Inr key"
    "settle_preflight (px_nacl x) (ri_settle_ms inp) (pn_trades nd) (i_trade_id i) (px_actor x) adapter_x402_testnet i = Inr (ps, events)"
    "trade_state (pn_trades nd) (i_trade_id i) = Some ''verified''" "preflight_terms (trade_terms events) i = Inr ()" "x402_payer_ok adapter_x402_testnet ps i"
    "rail_lookup (px_rail x) key (pn_rail nd) = Inr None"
    "pn_rail nd' = fst (rail_pay (px_rail x) (i_payee_did i) (i_amount_minor i) (i_currency i) (i_memo i) key (pn_rail nd))"
proof -
  obtain i where i: "intent_from_dict (PDict (v_intent claimed)) = Inr i" using assms by (auto simp: execute_claimed_def split: sum.splits)
  obtain trades r c o' where s: "settle_trade (px_nacl x) (ri_settle_ms inp) (pn_trades nd) (i_trade_id i) (px_actor x) adapter_x402_testnet (x402_attempt (px_rail x)) i
      (pn_rail nd, None) = ((trades, r, c), o')" by (metis surj_pair)
  have r: "pn_rail nd' = r" using assms(1) i s by (auto simp: execute_claimed_def split: prod.splits)
  then have ne: "(r, c) \<noteq> (pn_rail nd, None)" using assms(2) by auto
  obtain ps events where p: "settle_preflight (px_nacl x) (ri_settle_ms inp) (pn_trades nd) (i_trade_id i) (px_actor x) adapter_x402_testnet i = Inr (ps, events)"
    "trade_state (pn_trades nd) (i_trade_id i) = Some ''verified''" "preflight_terms (trade_terms events) i = Inr ()" "x402_payer_ok adapter_x402_testnet ps i"
    "(r, c) = fst (x402_attempt (px_rail x) i (ri_settle_ms inp) (pn_rail nd, None))"
    by (rule settle_trade_rail [OF s ne]) blast
  have f: "r = fst (fst (x402_attempt (px_rail x) i (ri_settle_ms inp) (pn_rail nd, None)))" "r \<noteq> pn_rail nd"
    using p(5) r assms(2) by (metis fst_conv)+
  obtain key where "settlement_idempotency_key i = Inr key" "rail_lookup (px_rail x) key (pn_rail nd) = Inr None"
    "r = fst (rail_pay (px_rail x) (i_payee_did i) (i_amount_minor i) (i_currency i) (i_memo i) key (pn_rail nd))"
    by (rule x402_attempt_rail [OF f])
  then show thesis using that [OF i _ p(1-4)] r by blast
qed

lemma run_once_rail:
  assumes "run_once x aid inp nd = (nd', out)" "pn_rail nd' \<noteq> pn_rail nd"
  obtains attempts claimed where "claim_attempt (px_nacl x) (px_witness x) (ri_claim_ms inp) (px_actor x) aid (cf_lease_ms (px_config x)) (ri_claim_ms inp) (ri_lease_id inp)
      (ri_claim_op inp) (pn_attempts nd) = (attempts, Inr (Some claimed))"
    "fst (execute_claimed x inp claimed (nd\<lparr>pn_attempts := attempts\<rparr>)) = nd'"
  using assms by (auto simp: run_once_def split: prod.splits sum.splits option.splits)

lemma attempt_fields_kept:
  "v_intent (foldl project_event v xs) = v_intent v" "v_attempt_id (foldl project_event v xs) = v_attempt_id v"
  by (induction xs arbitrary: v) (auto simp: project_event_def Let_def)

lemma project_snoc: "events \<noteq> [] \<Longrightarrow> project_verified (events @ xs) = foldl project_event (project_verified events) xs"
  by (cases events) (simp_all add: project_verified_def)

lemma events_same_attempt:
  assumes "attempt_events n now i prev st events = Inr st'" "follows st v" "raw \<in> set events"
  shows "pe_attempt_id (pay_event_from_dict (dict_of raw)) = PStr (a_attempt_id st)"
  using assms
proof (induction events arbitrary: i prev st v)
  case (Cons e rest)
  obtain ev p t st1 where m: "meta_ok n i (Some prev) (a_created_at_ms st) e ev p t" and x: "next_event now st ev p t = Inr st1"
    and r: "attempt_events n now (Suc i) e st1 rest = Inr st'"
    using Cons.prems(1) by (auto simp: bindR_Inr_iff event_meta_iff)
  have f: "follows st1 (project_event v e)" "a_attempt_id st1 = a_attempt_id st" using followed_step [OF Cons.prems(2) m x] by auto
  have "pay_event_from_dict (dict_of e) = ev" "pe_attempt_id ev = PStr (a_attempt_id st)"
    using m x by (auto simp: meta_ok_def next_event_def reject_def split: if_splits)
  then show ?case using Cons.IH [OF r f(1)] Cons.prems(3) f(2) by auto
qed simp

lemma verified_same_attempt:
  assumes "verify_payment_attempt n now events = Inr (True, m)" "raw \<in> set (tl events)"
  shows "pe_attempt_id (pay_event_from_dict (dict_of raw)) = v_attempt_id (project_verified events)"
proof -
  obtain st0 st where run: "run_of n now events st0 st" using assms(1) by (rule verified_run)
  then obtain first rest ev p t where r: "events = first # rest" "meta_ok n 0 None 0 first ev p t" "created_event ev p t = Inr st0" "attempt_events n now 1 first st0 rest = Inr st"
    by (auto simp: run_of_def)
  have f: "follows st0 (created_view first)" using created_followed [OF r(2,3)] by auto
  from events_same_attempt [OF r(4) f] assms(2) f show ?thesis by (simp add: r(1) project_verified_def attempt_fields_kept follows_def)
qed

lemma claim_binds:
  assumes "attempt_id_ok aid" "claim_attempt n w wall actor aid lease_ms now l op st = (st', Inr (Some claimed))"
  obtains events current did i where "own_attempt n w wall actor (drop 25 aid) st = Inr (Some (events, current, did))" "claimable current now"
    "v_intent claimed = v_intent current" "intent_from_dict (PDict (v_intent current)) = Inr i" "settlement_idempotency_key i = Inr aid" "i_payer_did i = did" "v_attempt_id claimed = PStr aid"
proof -
  obtain events current did where c: "own_attempt n w wall actor (drop 25 aid) st = Inr (Some (events, current, did))" "claimable current now"
    "extend_attempt n w wall actor did (drop 25 aid) aid events current ''payment_attempt_claimed'' ''inflight''
       (obj [(''lease_id'', PStr l), (''lease_expires_at_ms'', PInt (now + lease_ms))]) now op st = (st', Inr claimed)"
    using assms by (rule claim_found)
  note o = own_attemptD [OF c(1)]
  obtain h ev m where x: "sign_pay_event n actor (new_pay_event aid (length events) ''payment_attempt_claimed'' did (as_str (v_state current)) ''inflight''
        (obj [(''lease_id'', PStr l), (''lease_expires_at_ms'', PInt (now + lease_ms))]) h now) = Inr ev"
    "verify_payment_attempt n wall (events @ [PDict (pay_event_to_dict ev)]) = Inr (True, m)" "claimed = project_verified (events @ [PDict (pay_event_to_dict ev)])"
    using c(3) by (rule extendE)
  have ne: "events \<noteq> []" using o(5) by (auto elim: verified_run simp: run_of_def)
  have kept: "v_intent claimed = v_intent current" "v_attempt_id claimed = v_attempt_id current" by (simp_all add: x(3) project_snoc ne attempt_fields_kept o(2) flip: foldl.simps)
  have "pe_attempt_id ev = PStr aid" using x(1) by (auto simp: sign_pay_event_def new_pay_event_def bindR_Inr_iff ensure_Inr_iff)
  moreover have "pe_attempt_id ev = v_attempt_id claimed"
    using verified_same_attempt [OF x(2), of "PDict (pay_event_to_dict ev)"] ne x(3) by (cases events) (simp_all add: pay_from_to)
  ultimately have aid: "v_attempt_id claimed = PStr aid" by simp
  obtain m' where "verify_payment_attempt n wall events = Inr (True, m')" using o(5) by blast
  then obtain st0 s where run: "run_of n wall events st0 s" by (rule verified_run)
  have "follows s (project_verified events)" "settlement_idempotency_key (a_intent s) = Inr (a_attempt_id s)" "a_actor_did s = i_payer_did (a_intent s)"
    using run by (rule run_refines, blast)+
  then show thesis using that [OF c(1,2) kept(1)] aid kept(2) o(2,4) by (auto simp: follows_def)
qed

text \<open>C22. The executor pays only what is due: when a run of the executor changes the payment rail, the stored attempt of that identifier is the actor's own, verified and
  free to be claimed; the attempt's intent has the identifier as its idempotency key and the actor as its payer; its trade verifies, is delivered and approved but not settled,
  has the actor as settler and the payer as publisher, and agreed terms equal to the intent's; the rail knew no receipt under the key; and what happened on the rail is exactly one payment
  of the intent's amount and currency to its payee under that key.\<close>

theorem executor_pays_only_due:
  assumes "run_once x aid inp nd = (nd', out)" "pn_rail nd' \<noteq> pn_rail nd"
  shows "\<exists>events view did i ps trade.
     own_attempt (px_nacl x) (px_witness x) (ri_claim_ms inp) (px_actor x) (drop 25 aid) (pn_attempts nd) = Inr (Some (events, view, did)) \<and> claimable view (ri_claim_ms inp)
     \<and> intent_from_dict (PDict (v_intent view)) = Inr i \<and> settlement_idempotency_key i = Inr aid \<and> i_payer_did i = did
     \<and> (\<exists>m. verify_trade (px_nacl x) (ri_settle_ms inp) (pn_trades nd) (i_trade_id i) = Inr (True, m)) \<and> trade_state (pn_trades nd) (i_trade_id i) = Some ''verified''
     \<and> get_events (pn_trades nd) (i_trade_id i) = Some trade \<and> parties_of trade = Inr ps \<and> p_settler ps = did \<and> p_publisher ps = did \<and> preflight_terms (trade_terms trade) i = Inr ()
     \<and> rail_lookup (px_rail x) aid (pn_rail nd) = Inr None
     \<and> pn_rail nd' = fst (rail_pay (px_rail x) (i_payee_did i) (i_amount_minor i) (i_currency i) (i_memo i) aid (pn_rail nd))"
proof -
  obtain attempts claimed where c: "claim_attempt (px_nacl x) (px_witness x) (ri_claim_ms inp) (px_actor x) aid (cf_lease_ms (px_config x)) (ri_claim_ms inp) (ri_lease_id inp)
      (ri_claim_op inp) (pn_attempts nd) = (attempts, Inr (Some claimed))" "fst (execute_claimed x inp claimed (nd\<lparr>pn_attempts := attempts\<rparr>)) = nd'"
    using assms by (rule run_once_rail)
  have ok: "attempt_id_ok aid" using c(1) by (auto simp: claim_attempt_def attempt_stem_def reject_def ensure_def split: if_splits)
  obtain events view did i where v: "own_attempt (px_nacl x) (px_witness x) (ri_claim_ms inp) (px_actor x) (drop 25 aid) (pn_attempts nd) = Inr (Some (events, view, did))"
    "claimable view (ri_claim_ms inp)" "v_intent claimed = v_intent view" "intent_from_dict (PDict (v_intent view)) = Inr i" "settlement_idempotency_key i = Inr aid" "i_payer_did i = did"
    using ok c(1) by (rule claim_binds)
  obtain out' where e: "execute_claimed x inp claimed (nd\<lparr>pn_attempts := attempts\<rparr>) = (nd', out')" using c(2) by (metis prod.collapse)
  have "pn_rail nd' \<noteq> pn_rail (nd\<lparr>pn_attempts := attempts\<rparr>)" using assms(2) by simp
  from e this obtain j key ps trade where p: "intent_from_dict (PDict (v_intent claimed)) = Inr j" "settlement_idempotency_key j = Inr key"
    "settle_preflight (px_nacl x) (ri_settle_ms inp) (pn_trades nd) (i_trade_id j) (px_actor x) adapter_x402_testnet j = Inr (ps, trade)"
    "trade_state (pn_trades nd) (i_trade_id j) = Some ''verified''" "preflight_terms (trade_terms trade) j = Inr ()" "x402_payer_ok adapter_x402_testnet ps j"
    "rail_lookup (px_rail x) key (pn_rail nd) = Inr None"
    "pn_rail nd' = fst (rail_pay (px_rail x) (i_payee_did j) (i_amount_minor j) (i_currency j) (i_memo j) key (pn_rail nd))"
    by (rule execute_claimed_rail) auto
  have j: "j = i" "key = aid" using p(1,2) v(3-5) by auto
  note f = preflightD [OF p(3)]
  have "p_settler ps = did" using f(5) own_attemptD(3) [OF v(1)] by simp
  moreover have "p_publisher ps = did" using p(6) v(6) j by (simp add: x402_payer_ok_def)
  ultimately show ?thesis using v p f j by auto
qed

section \<open>At most one payment\<close>

text \<open>The reconciler only looks at the rail.\<close>

lemma reconcile_rail:
  assumes "reconcile_once x aid inp nd = (nd', out)"
  shows "pn_rail nd' = pn_rail nd"
proof -
  have "r' = r" if "settle_trade n now st tid settler adapter (lookup_only rail) i r = ((st', r'), o')" for n now st tid settler adapter rail i r st' r' o'
    using that by (auto simp: settle_trade_def lookup_only_def split: sum.splits prod.splits if_splits)
  then show ?thesis using assms by (auto simp: reconcile_once_def split: sum.splits prod.splits if_splits)
qed

text \<open>A node on which executors and reconcilers of one rail run, in any order, at any times, by any actors and with any configuration, and on which in between the
  files change in any way: other parties advance the trades, a crash interrupts a write, a backup is put back.\<close>

inductive node_run :: "'r payment_rail \<Rightarrow> ('w, 'r) payment_node \<Rightarrow> ('w, 'r) payment_node \<Rightarrow> bool" for rail nd where
  begins: "node_run rail nd nd"
| runs: "node_run rail nd nd1 \<Longrightarrow> px_rail x = rail \<Longrightarrow> run_once x aid inp nd1 = (nd2, out) \<Longrightarrow> node_run rail nd nd2"
| reconciles: "node_run rail nd nd1 \<Longrightarrow> px_rail x = rail \<Longrightarrow> reconcile_once x aid inp nd1 = (nd2, out) \<Longrightarrow> node_run rail nd nd2"
| files_change: "node_run rail nd nd1 \<Longrightarrow> pn_rail nd2 = pn_rail nd1 \<Longrightarrow> node_run rail nd nd2"

text \<open>What the rail's protocol class documents: a payment that was made is exposed by a later lookup, also when its response was lost, and a call of \<open>pay\<close> makes at most one, under its key.
  \<open>moved r key\<close> counts the payments made under a key.\<close>

definition rail_exposes :: "'r payment_rail \<Rightarrow> ('r \<Rightarrow> string \<Rightarrow> nat) \<Rightarrow> bool" where
  "rail_exposes rail moved \<longleftrightarrow> (\<forall>key r. rail_lookup rail key r = Inr None \<longrightarrow> moved r key = 0)
     \<and> (\<forall>payee amount currency memo key r k. moved (fst (rail_pay rail payee amount currency memo key r)) k \<le> moved r k + (if k = key then 1 else 0))"

lemma run_once_moves:
  assumes "rail_exposes (px_rail x) moved" "run_once x aid inp nd = (nd', out)" "moved (pn_rail nd) key \<le> 1"
  shows "moved (pn_rail nd') key \<le> 1"
proof (cases "pn_rail nd' = pn_rail nd")
  case False
  obtain attempts claimed where c: "fst (execute_claimed x inp claimed (nd\<lparr>pn_attempts := attempts\<rparr>)) = nd'"
    using assms(2) False by (rule run_once_rail)
  obtain o' where e: "execute_claimed x inp claimed (nd\<lparr>pn_attempts := attempts\<rparr>) = (nd', o')" using c by (metis prod.collapse)
  have ne: "pn_rail nd' \<noteq> pn_rail (nd\<lparr>pn_attempts := attempts\<rparr>)" using False by simp
  obtain i :: settlement_intent and k where p: "rail_lookup (px_rail x) k (pn_rail (nd\<lparr>pn_attempts := attempts\<rparr>)) = Inr None"
    "pn_rail nd' = fst (rail_pay (px_rail x) (i_payee_did i) (i_amount_minor i) (i_currency i) (i_memo i) k (pn_rail (nd\<lparr>pn_attempts := attempts\<rparr>)))"
    by (rule execute_claimed_rail [OF e ne]) blast
  have "moved (pn_rail nd) k = 0" "moved (pn_rail nd') key \<le> moved (pn_rail nd) key + (if key = k then 1 else 0)"
    using assms(1) p unfolding rail_exposes_def by auto
  then show ?thesis using assms(3) by (auto split: if_splits)
qed (use assms(3) in simp)

text \<open>C21. No obligation is paid twice: on a rail that exposes the payments it has made, whatever executors and reconcilers run on a node and whatever happens to its files in between
  (interrupted writes and restored backups included), every idempotency key has at most one payment.\<close>

theorem executor_pays_at_most_once:
  assumes "node_run rail nd nd'" "rail_exposes rail moved" "moved (pn_rail nd) key \<le> 1"
  shows "moved (pn_rail nd') key \<le> 1"
  using assms(1)
proof induction
  case begins
  show ?case by (rule assms(3))
next
  case (runs nd1 x aid inp nd2 out)
  have "rail_exposes (px_rail x) moved" using assms(2) runs.hyps(2) by simp
  then show ?case using runs.hyps(3) runs.IH by (rule run_once_moves)
next
  case (reconciles nd1 x aid inp nd2 out)
  then show ?case using reconcile_rail by metis
next
  case (files_change nd1 nd2)
  then show ?case by simp
qed

definition demo_moved :: "(string \<times> rail_receipt) list \<Rightarrow> string \<Rightarrow> nat" where
  "demo_moved r key = length (filter (\<lambda>(k, receipt). k = key) r)"

lemma demo_rail_exposes: "rail_exposes demo_rail demo_moved"
proof -
  have "map_of r key = None \<Longrightarrow> demo_moved r key = 0" for r key
    by (induction r) (auto simp: demo_moved_def split: if_splits)
  then show ?thesis by (auto simp: rail_exposes_def demo_rail_def demo_moved_def Let_def)
qed

text \<open>A finished attempt is left alone: when the stored attempt is settled, blocked or orphaned, no run of the executor changes the attempts, the trades or the rail, whoever
  makes it and whenever, and reconciling it never touches the rail.\<close>

lemma finished_attempt_left_alone:
  assumes "get_attempt (px_nacl x) (px_witness x) wall aid (pn_attempts nd) = Inr (Some view)" "v_state view \<in> {PStr ''settled'', PStr ''blocked'', PStr ''orphaned''}"
  shows "fst (run_once x aid inp nd) = nd \<and> (\<forall>v. snd (run_once x aid inp nd) \<noteq> Inr (Some v)) \<and> pn_rail (fst (reconcile_once x aid inp' nd)) = pn_rail nd"
proof -
  obtain events where e: "attempt_id_ok aid" "load_attempt (px_nacl x) (px_witness x) (pn_attempts nd) (drop 25 aid) = Inr (Some events)" "view = project_verified events"
    using assms(1) by (auto simp: get_attempt_def get_attempt_events_def attempt_stem_def view_or_def bindR_Inr_iff ensure_Inr_iff reject_def split: option.splits if_splits)
  have "\<not> claimable (project_verified events) t" for t using assms(2) e(3) by (auto simp: claimable_def)
  then have "claim_attempt (px_nacl x) (px_witness x) t a aid l t' i op (pn_attempts nd) \<in> {(pn_attempts nd, Inr None)} \<union> {(pn_attempts nd, Inl e) | e. True}" for t t' a l i op
    using e(1,2) by (auto simp: claim_attempt_def attempt_stem_def own_attempt_def view_or_def bindR_Inr_iff ensure_Inr_iff split: sum.splits option.splits)
  from this [of "ri_claim_ms inp" "px_actor x" "cf_lease_ms (px_config x)" "ri_claim_ms inp" "ri_lease_id inp" "ri_claim_op inp"]
  have "fst (run_once x aid inp nd) = nd \<and> (\<forall>v. snd (run_once x aid inp nd) \<noteq> Inr (Some v))"
    by (auto simp: run_once_def)
  moreover have "pn_rail (fst (reconcile_once x aid inp' nd)) = pn_rail nd" by (rule reconcile_rail) (rule prod.collapse [symmetric])
  ultimately show ?thesis by blast
qed

section \<open>One unreadable attempt\<close>

text \<open>One unreadable document stops the executor: when the first attempt file in name order cannot be parsed, a run over all attempts raises at once and changes nothing,
  however many other attempts are due, while the listing of pending attempts skips the file and reports the others.\<close>

lemma unreadable_attempt_stops_executor:
  assumes "1 \<le> limit" "limit \<le> 1000" "sort (map fst (ps_docs (pn_attempts nd))) = stem # stems" "hex_text 64 stem" "map_of (ps_docs (pn_attempts nd)) stem = Some Unreadable"
    "1000 \<le> cf_lease_ms (px_config x)" "cf_lease_ms (px_config x) \<le> 300000"
  shows "(\<exists>m. run_pending x limit inp nd = (nd, reject m))
     \<and> pending_attempts (px_nacl x) (px_witness x) wall limit (pn_attempts nd) = pending_rows (px_nacl x) (px_witness x) wall (nat limit) (pn_attempts nd) [] stems"
proof -
  have aid: "attempt_id_ok (id_prefix @ stem)" "drop 25 (id_prefix @ stem) = stem" using assms(4) by (simp_all add: attempt_id_ok_def id_prefix_def startswith_def)
  obtain m where load: "load_attempt (px_nacl x) (px_witness x) (pn_attempts nd) stem = reject m" using assms(5) by (auto simp: load_attempt_def)
  have "attempt_stem (id_prefix @ stem) = Inr stem" using aid by (simp add: attempt_stem_def)
  then have "run_once x (id_prefix @ stem) i nd = (nd, reject m)" "get_attempt (px_nacl x) (px_witness x) wall (id_prefix @ stem) (pn_attempts nd) = reject m" for i
    using load assms(6,7) by (simp_all add: run_once_def claim_attempt_def own_attempt_def reject_def get_attempt_def get_attempt_events_def)
  then show ?thesis using assms(1-3) by (simp add: run_pending_def pending_attempts_def reject_def)
qed

end
