(* ===== verification/Payment_Flow.thy ===== *)
theory Payment_Flow
  imports Payment_Exec Payment_Run
begin

text \<open>
  The executor at work: an attempt that is created and then run once against a delivered and approved trade, on a rail that answers with a confirmed receipt, ends
  settled, as does its trade. The state of the store between the operations is the predicate \<open>attempt_live\<close>, which every operation of the honest run
  extends by its event. The run instantiates the hypotheses of the theorems on the executor.
\<close>

section \<open>Operations of an honest run\<close>

definition attempt_live :: "nacl \<Rightarrow> identity \<Rightarrow> string \<Rightarrow> 'w payment_store \<Rightarrow> int \<Rightarrow> string list \<Rightarrow> pyval list \<Rightarrow> attempt_state \<Rightarrow> int \<Rightarrow> bool" where
  "attempt_live n actor aid st t ops events s w \<longleftrightarrow> attempt_disk n actor aid st t ops \<and> load_attempt n None st (drop 25 aid) = Inr (Some events)
     \<and> (\<exists>s0. \<forall>wall \<ge> w. run_of n wall events s0 s) \<and> list_all (modest 60000) events \<and> a_created_at_ms s = t \<and> a_attempt_id s = aid
     \<and> (\<exists>as. journal_is st (drop 25 aid) as \<and> length (journal_bytes as) \<le> 20002 * length events)"

lemma attempt_live_view:
  assumes "attempt_live n actor aid st t ops events s w" "w \<le> wall" "length events \<le> 5"
  shows "verify_payment_attempt n wall events = Inr (True, ''ok'')" "follows s (project_verified events)" "events \<noteq> []"
proof -
  obtain s0 where r: "run_of n wall events s0 s" using assms(1,2) by (auto simp: attempt_live_def)
  show "verify_payment_attempt n wall events = Inr (True, ''ok'')" using run_verifies [OF r] assms(1,3) by (simp add: attempt_live_def)
  show "follows s (project_verified events)" using r by (rule run_refines)
  show "events \<noteq> []" using r by (rule payment_keys)
qed

lemma live_own:
  assumes "attempt_live n actor aid st t ops events s w" "w \<le> wall" "length events \<le> 5" "as_did actor = Inr (a_actor_did s)"
  shows "own_attempt n None wall actor (drop 25 aid) st = Inr (Some (events, project_verified events, a_actor_did s))"
  using attempt_live_view [OF assms(1-3)] assms(1,4) by (simp add: own_attempt_def view_or_def attempt_live_def follows_def)

lemma live_extend:
  assumes "ed25519_ok n" "signer_ok n actor" "attempt_id_ok aid" "as_did actor = Inr (a_actor_did s)" "attempt_live n actor aid st t ops events s w" "length events \<le> 2"
    "modest_payload p" "length ty \<le> 64" "length (a_state s) \<le> 64" "length ns \<le> 64" "short_stamp t'" "t \<le> t'" "lease_id_ok op" "op \<notin> set ops" "w \<le> w'" "w' \<le> wall"
    and step: "\<And>ev wall. w' \<le> wall \<Longrightarrow> pe_type ev = PStr ty \<Longrightarrow> pe_actor_did ev = PStr (a_actor_did s) \<Longrightarrow> pe_attempt_id ev = PStr (a_attempt_id s) \<Longrightarrow> pe_prev_state ev = PStr (a_state s)
        \<Longrightarrow> pe_new_state ev = PStr ns \<Longrightarrow> next_event wall s ev p t' = Inr s'"
    and kept: "a_created_at_ms s' = t'" "a_attempt_id s' = aid"
  obtains ev st' where "extend_attempt n None wall actor (a_actor_did s) (drop 25 aid) aid events (project_verified events) ty ns p t' op st
      = (st', Inr (project_verified (events @ [PDict (pay_event_to_dict ev)])))"
    "attempt_live n actor aid st' t' (op # ops) (events @ [PDict (pay_event_to_dict ev)]) s' w'" "pe_type ev = PStr ty" "pe_payload ev = PDict p"
proof -
  note l = assms(5) [unfolded attempt_live_def]
  obtain s0 where run: "\<And>wall. w \<le> wall \<Longrightarrow> run_of n wall events s0 s" using l by blast
  have aid: "a_attempt_id s = aid" "attempt_id_ok (a_attempt_id s)" "a_created_at_ms s \<le> t'" "list_all (modest 60000) events" using l assms(3,12) by auto
  have view: "v_state (project_verified events) = PStr (a_state s)" "v_actor_did (project_verified events) = PStr (a_actor_did s)" "events \<noteq> []"
    "verify_payment_attempt n wall events = Inr (True, ''ok'')"
    using attempt_live_view [OF assms(5) _, of wall] assms(6,15,16) by (auto simp: follows_def)
  have short: "length events \<le> 4" using assms(6) by simp
  note honest = honest_event [OF assms(1,2,4) run aid(4) short assms(7) aid(2) assms(8-11) aid(3) step]
  obtain h ev where e: "payment_attempt_event_hash (List.last events) = Inr h"
    "sign_pay_event n actor (new_pay_event (a_attempt_id s) (length events) ty (a_actor_did s) (a_state s) ns p h t') = Inr ev"
    "list_all (modest 60000) (events @ [PDict (pay_event_to_dict ev)])"
    by (rule honest [of wall]) (use assms(15,16) in auto)
  let ?es = "events @ [PDict (pay_event_to_dict ev)]"
  have r: "run_of n wall' ?es s0 s' \<and> verify_payment_attempt n wall' ?es = Inr (True, ''ok'')" if "w' \<le> wall'" for wall'
  proof (rule honest [of wall'])
    show "w \<le> wall'" "w' \<le> wall'" using that assms(15) by auto
    fix h' ev' assume "payment_attempt_event_hash (List.last events) = Inr h'"
      "sign_pay_event n actor (new_pay_event (a_attempt_id s) (length events) ty (a_actor_did s) (a_state s) ns p h' t') = Inr ev'"
      "run_of n wall' (events @ [PDict (pay_event_to_dict ev')]) s0 s'" "verify_payment_attempt n wall' (events @ [PDict (pay_event_to_dict ev')]) = Inr (True, ''ok'')"
    then show ?thesis using e(1,2) by simp
  qed
  have fa: "first_actor ?es = Inr (PStr (a_actor_did s))" using verified_first_actor [OF view(4)] view(2,3)
    by (cases events) (auto simp: first_actor_def split: pyval.splits)
  obtain h2 where h2: "payment_attempt_event_hash (List.last ?es) = Inr h2" using modest_hash [of "pay_event_to_dict ev"] e(3) by auto
  obtain as where j: "journal_is st (drop 25 aid) as" "length (journal_bytes as) \<le> 20002 * length events" using l by blast
  have hyps: "?es \<noteq> []" "length ?es \<le> 90" "length (journal_bytes as) \<le> 400000" "document_fits aid ?es"
    using j(2) assms(6) modest_fits [OF e(3) _ assms(3)] by simp_all
  obtain st' as' where p: "persist n None actor (drop 25 aid) aid ?es t' op st = (st', Inr ())" "journal_is st' (drop 25 aid) as'"
    "length (journal_bytes as') \<le> length (journal_bytes as) + 20002"
    by (rule own_write_succeeds [OF assms(1-4) hyps(1) h2 fa assms(13,11) hyps(2,4) j(1) hyps(3)])
  have disk: "attempt_disk n actor aid st t ops" "0 < t'" using l assms(11) by (auto simp: short_stamp_def)
  note pl = persist_loads [OF assms(1-3) disk(1) assms(12) disk(2) assms(13,14,4) hyps(4) fa p(1)]
  have "extend_attempt n None wall actor (a_actor_did s) (drop 25 aid) aid events (project_verified events) ty ns p t' op st = (st', Inr (project_verified ?es))"
    using e(1,2) aid(1) view(1) r [OF assms(16)] p(1) by (simp add: extend_attempt_def)
  moreover have "attempt_live n actor aid st' t' (op # ops) ?es s' w'"
    unfolding attempt_live_def using pl r e(3) kept p(2,3) j(2) by (auto intro!: exI [of _ s0] exI [of _ as'])
  ultimately show thesis using that signed_fields [OF e(2)] by (simp add: new_pay_event_def)
qed

lemma live_append:
  assumes "attempt_live n actor aid st t ops events s w" "w \<le> wall" "length events \<le> 5" "as_did actor = Inr (a_actor_did s)" "attempt_id_ok aid"
  shows "append_payment_event n None wall actor aid ty ns p t' op st = extend_attempt n None wall actor (a_actor_did s) (drop 25 aid) aid events (project_verified events) ty ns p t' op st"
  using live_own [OF assms(1-4)] assms(5) by (simp add: append_payment_event_def attempt_stem_def)

lemma live_claim:
  assumes "attempt_live n actor aid st t ops events s w" "w \<le> wall" "length events \<le> 5" "as_did actor = Inr (a_actor_did s)" "attempt_id_ok aid"
    "a_state s = ''pending''" "a_next_attempt_at_ms s \<le> now" "1000 \<le> lease_ms" "lease_ms \<le> 300000"
  shows "claim_attempt n None wall actor aid lease_ms now l op st = (case extend_attempt n None wall actor (a_actor_did s) (drop 25 aid) aid events (project_verified events)
      ''payment_attempt_claimed'' ''inflight'' (obj [(''lease_id'', PStr l), (''lease_expires_at_ms'', PInt (now + lease_ms))]) now op st of
      (st', Inl e) \<Rightarrow> (st', Inl e) | (st', Inr view) \<Rightarrow> (st', Inr (Some view)))"
  using live_own [OF assms(1-4)] assms(5-9) attempt_live_view(2) [OF assms(1-3)]
  by (simp add: claim_attempt_def attempt_stem_def claimable_def follows_def)

lemma claim_accepted:
  assumes "pe_type ev = PStr ''payment_attempt_claimed''" "pe_actor_did ev = PStr (a_actor_did s)" "pe_attempt_id ev = PStr (a_attempt_id s)" "pe_prev_state ev = PStr (a_state s)"
    "pe_new_state ev = PStr ''inflight''" "a_state s = ''pending''" "a_next_attempt_at_ms s \<le> t" "lease_id_ok l" "1000 \<le> lease_ms" "lease_ms \<le> 300000"
  shows "next_event wall s ev (obj [(''lease_id'', PStr l), (''lease_expires_at_ms'', PInt (t + lease_ms))]) t
    = Inr (s\<lparr>a_state := ''inflight'', a_lease_id := l, a_lease_expires_at_ms := t + lease_ms, a_next_attempt_at_ms := 0, a_created_at_ms := t\<rparr>)"
  using assms by (simp add: next_event_def claimed_event_def same_keys_def obj_def)

lemma settle_accepted:
  assumes "pe_type ev = PStr ''payment_attempt_settled''" "pe_actor_did ev = PStr (a_actor_did s)" "pe_attempt_id ev = PStr (a_attempt_id s)" "pe_prev_state ev = PStr (a_state s)"
    "pe_new_state ev = PStr ''settled''" "a_state s = ''inflight''" "a_lease_id s = l" "pays wall (a_intent s) (a_attempt_id s) d"
  shows "next_event wall s ev (obj [(''lease_id'', PStr l), (''settlement'', PDict d)]) t
    = Inr (s\<lparr>a_state := ''settled'', a_lease_id := [], a_lease_expires_at_ms := 0, a_created_at_ms := t\<rparr>)"
proof -
  have "check_settlement wall s d a b = Inr ()" for a b using assms(8) by (simp add: check_settlement_iff)
  then show ?thesis using assms(1-7) by (simp add: next_event_def settled_event_def holds_lease_def released_def same_keys_def obj_def)
qed

lemma create_live:
  assumes "ed25519_ok n" "signer_ok n actor" "as_did actor = Inr (i_payer_did i)" "settlement_idempotency_key i = Inr aid" "small_intent i" "i_payer_did i \<noteq> []" "short_stamp t" "lease_id_ok op"
    "map_of (ps_docs st) (drop 25 aid) = None" "map_of (ps_journals st) (drop 25 aid) = None"
  obtains st' e0 where "create_attempt n None wall actor i adapter_x402_testnet t op st = (st', Inr (project_verified [e0]))"
    "attempt_live n actor aid st' t [op] [e0] (fresh_state i aid t) w"
proof -
  have "intent_validate i = Inr ()" using assms(4) by (auto simp: settlement_idempotency_key_def bindR_Inr_iff)
  then obtain d where d: "intent_dict i = Inr d" by (auto simp: intent_dict_def)
  obtain e where e: "sign_pay_event n actor (new_pay_event aid 0 ''payment_attempt_created'' (i_payer_did i) [] ''pending'' (create_payload d) [] t) = Inr e"
    "modest 60000 (PDict (pay_event_to_dict e))" "pe_actor_did e = PStr (i_payer_did i)" "meta_ok n 0 None 0 (PDict (pay_event_to_dict e)) e (create_payload d) t"
    "created_event e (create_payload d) t = Inr (fresh_state i aid t)"
    by (rule created_verifies [OF assms(1-3) d assms(5,4,6,7)])
  let ?e0 = "PDict (pay_event_to_dict e)"
  have aid: "attempt_id_ok aid" using key_shape [OF assms(4)] by simp
  obtain h where h: "payment_attempt_event_hash ?e0 = Inr h" using e(2) by (rule modest_hash)
  have fa: "first_actor [?e0] = Inr (PStr (i_payer_did i))" using e(3) by (simp add: first_actor_def pay_event_to_dict_def obj_def dget_or_def)
  have hyps: "[?e0] \<noteq> []" "payment_attempt_event_hash (List.last [?e0]) = Inr h" "length [?e0] \<le> 90" "journal_is st (drop 25 aid) []" "length (journal_bytes []) \<le> 400000" "document_fits aid [?e0]"
    using h assms(10) modest_fits [of "[?e0]" aid] e(2) aid by (simp_all add: journal_is_def max_anchor_file_bytes_def)
  obtain st' as' where p: "persist n None actor (drop 25 aid) aid [?e0] t op st = (st', Inr ())" "journal_is st' (drop 25 aid) as'"
    "length (journal_bytes as') \<le> length (journal_bytes []) + 20002"
    by (rule own_write_succeeds [OF assms(1,2) aid assms(3) hyps(1,2) fa assms(8,7) hyps(3,6,4,5)])
  have "load_attempt n None st (drop 25 aid) = Inr None" using assms(9) by (simp add: load_attempt_def)
  then have "create_attempt n None wall actor i adapter_x402_testnet t op st = (st', Inr (project_verified [?e0]))"
    using d e(1) assms(3,4,6,7) aid p(1) by (simp add: create_attempt_def attempt_stem_def create_payload_def [symmetric] short_stamp_def)
  moreover have "attempt_disk n actor aid st 0 []" by (rule attempt_disk.empty [OF assms(9,10)])
  note pl = persist_loads [OF assms(1,2) aid this _ _ assms(8) _ assms(3) hyps(6) fa p(1)]
  have "run_of n v [?e0] (fresh_state i aid t) (fresh_state i aid t)" for v unfolding run_of_def using e(4,5) by auto
  then have "attempt_live n actor aid st' t [op] [?e0] (fresh_state i aid t) w"
    unfolding attempt_live_def using pl assms(7) e(2) p(2,3) by (auto simp: fresh_state_def short_stamp_def intro!: exI [of _ "fresh_state i aid t"] exI [of _ as'])
  ultimately show thesis by (rule that)
qed

section \<open>The receipt of the rail\<close>

lemma receipt_pays:
  assumes "result_from_receipt i receipt network now = Inr x" "x402_network network = Inr network" "i_amount_minor i = PInt a" "i_payer_did i \<noteq> []" "settlement_idempotency_key i = Inr key"
    "0 < now" "now \<le> wall + max_settlement_future_skew_ms" "proof_encoded_size (PDict (x_proof x)) = Inr k"
  shows "pays wall i key (to_payload x)"
proof -
  have v: "intent_validate i = Inr ()" using assms(5) by (auto simp: settlement_idempotency_key_def bindR_Inr_iff)
  then have i: "0 < a" "i_currency i \<in> set supported_currencies" "did_text_ok (i_payee_did i)" "did_text_ok (i_payer_did i)" "i_payee_did i \<noteq> []"
    "length (i_payee_did i) \<le> 512" "length (i_payer_did i) \<le> 512"
    using assms(3) by (auto simp: intent_validate_def ensure_Inr_iff positive_amount_def split: if_splits)
  obtain pr where x: "x = \<lparr>x_adapter_id = adapter_x402_testnet, x_amount_minor = i_amount_minor i, x_currency = i_currency i,
              x_payee_did = i_payee_did i, x_payer_did = i_payer_did i, x_tx_ref = rc_tx_ref receipt, x_network = network,
              x_proof = dput pr ''idempotency_key'' (PStr key), x_settled_at_ms = now\<rparr>" "is_wire_token (rc_tx_ref receipt) 512" "rc_tx_ref receipt \<noteq> []"
    using assms(1,5) by (auto simp: result_from_receipt_def ensure_Inr_iff Let_def split: sum.splits)
  have net: "network \<noteq> []" "is_wire_token network 128" "network \<in> set x402_test_networks" using assms(2) by (auto simp: x402_network_def ensure_Inr_iff)
  have g: "dget (to_payload x) ''adapter_id'' = Some (PStr adapter_x402_testnet)" "dget (to_payload x) ''amount_minor'' = Some (PInt a)"
    "dget (to_payload x) ''currency'' = Some (PStr (i_currency i))" "dget (to_payload x) ''payee_did'' = Some (PStr (i_payee_did i))"
    "dget (to_payload x) ''payer_did'' = Some (PStr (i_payer_did i))" "dget (to_payload x) ''tx_ref'' = Some (PStr (rc_tx_ref receipt))"
    "dget (to_payload x) ''network'' = Some (PStr network)" "dget (to_payload x) ''proof'' = Some (PDict (x_proof x))" "dget (to_payload x) ''settled_at_ms'' = Some (PInt now)"
    using assms(3) by (simp_all add: to_payload_def obj_def x(1))
  have keys: "same_keys (to_payload x) settlement_payload_fields" by (auto simp: same_keys_def to_payload_def settlement_payload_fields_def obj_def)
  have pk: "dget (x_proof x) ''idempotency_key'' = Some (PStr key)" by (simp add: x(1))
  then have ne: "x_proof x \<noteq> []" by auto
  have "x402_evidence (to_payload x) (i_payer_did i) = (True, ''ok'')"
    using assms(4,8) net x(2,3) ne by (simp add: x402_evidence_def g safe_str_def Let_def)
  then have "verify_settlement (PDict (to_payload x)) wall a (i_currency i) (i_payee_did i) (i_payer_did i) = (True, ''ok'')"
    using keys i assms(4,6,7) by (simp add: verify_settlement_def g safe_str_def Let_def known_adapters_def positive_amount_def did_text_ok_def)
  then show ?thesis using pk by (simp add: pays_def intent_amount_def assms(3) g)
qed

lemma attempt_paid:
  assumes "settlement_idempotency_key i = Inr key" "x402_network (rail_network rail) = Inr network" "rail_lookup rail key r = Inr None"
    "rail_pay rail (i_payee_did i) (i_amount_minor i) (i_currency i) (i_memo i) key r = (r', Inr receipt)" "result_from_receipt i receipt network now = Inr x"
  shows "x402_attempt rail i now (r, ev) = ((r', None), Inr x)"
proof -
  have "intent_validate i = Inr ()" using assms(1) by (auto simp: settlement_idempotency_key_def bindR_Inr_iff)
  then show ?thesis using assms by (simp add: x402_attempt_def x402_ready_def receipt_result_def rail_receipt_for_def)
qed

lemma settle_trade_x402:
  assumes "live n now tid st events ps ''verified''" "trade_terms events = Some (terms_of i)" "intent_validate i = Inr ()" "i_amount_minor i = PInt a" "i_trade_id i = tid"
    "as_did settler = Inr (p_settler ps)" "i_payer_did i = p_publisher ps" "p_publisher ps \<noteq> []" "settle i now r = (r', Inr res)"
    "record_settlement n now st tid settler (PDict (to_payload res)) = (st', out)"
  shows "settle_trade n now st tid settler adapter_x402_testnet settle i r = ((st', r'), out)"
proof -
  note l = assms(1) [unfolded live_def]
  have g: "get_events st tid = Some events" using l get_stored by blast
  have "settle_preflight n now st tid settler adapter_x402_testnet i = Inr (ps, events)"
    using l g assms(3,5,6) by (simp add: settle_preflight_def)
  moreover have "trade_state st tid = Some ''verified''" using l g by (simp add: trade_state_def)
  moreover have "preflight_terms (Some (terms_of i)) i = Inr ()"
    using assms(4) by (simp add: preflight_terms_def terms_of_def obj_def safe_str_def)
  moreover have "x402_payer_ok adapter_x402_testnet ps i" using assms(7,8) by (simp add: x402_payer_ok_def)
  ultimately show ?thesis using assms(2,9,10) by (simp add: settle_trade_def)
qed

lemma settlement_event_payload:
  assumes "record_settlement n now st tid actor s = (st', Inr ev)"
  shows "dget ev ''payload'' = Some (PDict (obj [(''settlement'', s)]))"
proof -
  obtain ds where "append_event n now st tid actor ''settlement_recorded'' ''settled'' (obj [(''settlement'', s)]) False (Some ds) = (st', Inr ev)"
    using assms by (auto simp: record_settlement_def with_parties_def split: sum.splits)
  then show ?thesis by (rule append_event_stored) (auto simp: sign_trade_event_def bindR_Inr_iff trade_signing_body_new)
qed

lemma honest_payment_run:
  assumes "ed25519_ok n" "signer_ok n actor" "as_did actor = Inr did" "settlement_idempotency_key i = Inr aid" "small_intent i" "i_payer_did i = did" "short_stamp t0" "lease_id_ok op0"
    "map_of (ps_docs st) (drop 25 aid) = None" "map_of (ps_journals st) (drop 25 aid) = None"
    and trade: "live n (ri_settle_ms inp) tid trades events ps ''verified''" "trade_terms events = Some (terms_of i)" "length events \<le> 4" "i_trade_id i = tid" "length tid \<le> 64"
      "p_publisher ps = did" "p_settler ps = did"
    and rail: "x402_network (rail_network (px_rail x)) = Inr (rail_network (px_rail x))" "rail_lookup (px_rail x) aid r = Inr None"
      "rail_pay (px_rail x) (i_payee_did i) (i_amount_minor i) (i_currency i) (i_memo i) aid r = (r', Inr receipt)"
      "result_from_receipt i receipt (rail_network (px_rail x)) (ri_settle_ms inp) = Inr res" "proof_encoded_size (PDict (x_proof res)) = Inr k"
    and exec: "px_nacl x = n" "px_witness x = None" "px_actor x = actor" "config_check (px_config x) = Inr ()"
    and inp: "short_stamp (ri_claim_ms inp)" "short_stamp (ri_settle_ms inp)" "short_stamp (ri_record_ms inp)" "t0 \<le> ri_claim_ms inp" "ri_claim_ms inp \<le> ri_settle_ms inp"
      "ri_settle_ms inp \<le> ri_record_ms inp" "lease_id_ok (ri_lease_id inp)" "lease_id_ok (ri_claim_op inp)" "lease_id_ok (ri_record_op inp)" "distinct [op0, ri_claim_op inp, ri_record_op inp]"
    and sizes: "modest_payload (obj [(''lease_id'', PStr (ri_lease_id inp)), (''lease_expires_at_ms'', PInt (ri_claim_ms inp + cf_lease_ms (px_config x)))])"
      "modest_payload (obj [(''lease_id'', PStr (ri_lease_id inp)), (''settlement'', PDict (to_payload res))])" "small_payload (obj [(''settlement'', PDict (to_payload res))])"
  shows "\<exists>st1 v0 nd' view. create_attempt n None t0 actor i adapter_x402_testnet t0 op0 st = (st1, Inr v0)
     \<and> run_once x aid inp \<lparr>pn_attempts = st1, pn_trades = trades, pn_rail = r\<rparr> = (nd', Inr (Some view))
     \<and> v_state view = PStr ''settled'' \<and> v_settlement view = to_payload res \<and> get_attempt n None (ri_record_ms inp) aid (pn_attempts nd') = Inr (Some view)
     \<and> verify_trade n (ri_settle_ms inp) (pn_trades nd') tid = Inr (True, []) \<and> trade_state (pn_trades nd') tid = Some ''settled'' \<and> pn_rail nd' = r'"
proof -
  let ?t1 = "ri_claim_ms inp" and ?t2 = "ri_settle_ms inp" and ?t3 = "ri_record_ms inp" and ?l = "ri_lease_id inp" and ?ms = "cf_lease_ms (px_config x)"
  have aid: "attempt_id_ok aid" using key_shape [OF assms(4)] by simp
  have did: "i_payer_did i \<noteq> []" "as_did actor = Inr (i_payer_did i)" using assms(3,6) signer_did_pos [OF assms(1-3)] by auto
  have ms: "1000 \<le> ?ms" "?ms \<le> 300000" using exec(4) by (auto simp: config_check_def ensure_Inr_iff)
  obtain a where a: "i_amount_minor i = PInt a" using assms(5) by (auto simp: small_intent_def)
  obtain st1 e0 where c: "create_attempt n None t0 actor i adapter_x402_testnet t0 op0 st = (st1, Inr (project_verified [e0]))"
    "attempt_live n actor aid st1 t0 [op0] [e0] (fresh_state i aid t0) t0"
    by (rule create_live [OF assms(1,2) did(2) assms(4,5) did(1) assms(7-10)])
  let ?s = "fresh_state i aid t0"
  have f: "a_state ?s = ''pending''" "a_next_attempt_at_ms ?s = 0" "a_actor_did ?s = i_payer_did i" "a_attempt_id ?s = aid" "a_intent ?s = i" by (simp_all add: fresh_state_def)
  let ?s1 = "?s\<lparr>a_state := ''inflight'', a_lease_id := ?l, a_lease_expires_at_ms := ?t1 + ?ms, a_next_attempt_at_ms := 0, a_created_at_ms := ?t1\<rparr>"
  obtain e1 st2 where x1: "extend_attempt n None ?t1 actor (a_actor_did ?s) (drop 25 aid) aid [e0] (project_verified [e0]) ''payment_attempt_claimed'' ''inflight''
      (obj [(''lease_id'', PStr ?l), (''lease_expires_at_ms'', PInt (?t1 + ?ms))]) ?t1 (ri_claim_op inp) st1 = (st2, Inr (project_verified ([e0] @ [PDict (pay_event_to_dict e1)])))"
    "attempt_live n actor aid st2 ?t1 [ri_claim_op inp, op0] ([e0] @ [PDict (pay_event_to_dict e1)]) ?s1 t0"
    by (rule live_extend [OF assms(1,2) aid _ c(2) _ sizes(1) _ _ _ inp(1,4,8) _ order_refl inp(4) claim_accepted [OF _ _ _ _ _ f(1) _ inp(7) ms]])
      (use f did inp(1,10) in \<open>auto simp: short_stamp_def\<close>)
  let ?es = "[e0, PDict (pay_event_to_dict e1)]" let ?v1 = "project_verified ?es"
  have l1: "claim_attempt n None ?t1 actor aid ?ms ?t1 ?l (ri_claim_op inp) st1 = (st2, Inr (Some ?v1))"
    using live_claim [OF c(2) inp(4) _ _ aid f(1) _ ms, of ?t1 ?l "ri_claim_op inp"] x1(1) f did inp(1) by (simp add: short_stamp_def)
  have v1: "intent_from_dict (PDict (v_intent ?v1)) = Inr i" "v_attempt_id ?v1 = PStr aid" "v_lease_id ?v1 = PStr ?l"
    using attempt_live_view(2) [OF x1(2) order_refl] by (simp_all add: follows_def fresh_state_def)
  have pays: "pays wall i aid (to_payload res)" if "?t2 \<le> wall + max_settlement_future_skew_ms" for wall
    using receipt_pays [OF rail(4,1) a did(1) assms(4) _ that rail(5)] inp(2) by (simp add: short_stamp_def)
  have "fst (verify_settlement (PDict (to_payload res)) ?t2 a (i_currency i) (i_payee_did i) (i_payer_did i))"
    using pays [of ?t2] a by (simp add: pays_def intent_amount_def max_settlement_future_skew_ms_def)
  then have ct: "check_terms ?t2 (trade_terms events) ps ''settlement_recorded'' (obj [(''settlement'', PDict (to_payload res))]) = Inr ()"
    using trade(2,6) assms(6) a by (cases "verify_settlement (PDict (to_payload res)) ?t2 a (i_currency i) (i_payee_did i) (i_payer_did i)")
      (simp add: check_terms_def check_direct_def settlement_of_def terms_of_def obj_def dget_or_def is_dict_def)
  have now: "length (int_str ?t2) \<le> 20" using short_stamp_sizes(1) [OF inp(2)] by simp
  obtain trades' ev where rs: "record_settlement n ?t2 trades tid actor (PDict (to_payload res)) = (trades', Inr ev)" "live n ?t2 tid trades' (events @ [PDict ev]) ps ''settled''"
    using settlement_progress [OF assms(1,2) _ sizes(3) trade(5) now trade(1,3) ct] assms(3) trade(7) by auto
  have iv: "intent_validate i = Inr ()" using assms(4) by (auto simp: settlement_idempotency_key_def bindR_Inr_iff)
  have set: "settle_trade n ?t2 trades tid actor adapter_x402_testnet (x402_attempt (px_rail x)) i (r, None) = ((trades', r', None), Inr ev)"
    using settle_trade_x402 [OF trade(1,2) iv a trade(4) _ _ _ _ rs(1), of "x402_attempt (px_rail x)" "(r, None)" "(r', None)"]
      attempt_paid [OF assms(4) rail(1-4), of None] assms(3,6) trade(6,7) did by simp
  have es: "event_settlement ev = Inr (to_payload res)" using settlement_event_payload [OF rs(1)] by (simp add: event_settlement_def obj_def)
  let ?s2 = "?s1\<lparr>a_state := ''settled'', a_lease_id := [], a_lease_expires_at_ms := 0, a_created_at_ms := ?t3\<rparr>"
  have t3: "?t1 \<le> ?t3" "t0 \<le> ?t3" "\<And>wall. ?t3 \<le> wall \<Longrightarrow> ?t2 \<le> wall + max_settlement_future_skew_ms" using inp(4-6) by (simp_all add: max_settlement_future_skew_ms_def)
  have p2: "?t3 \<le> wall \<Longrightarrow> pays wall (a_intent ?s1) (a_attempt_id ?s1) (to_payload res)" for wall using pays t3(3) f by simp
  obtain e2 st3 where x2: "extend_attempt n None ?t3 actor (a_actor_did ?s1) (drop 25 aid) aid ([e0] @ [PDict (pay_event_to_dict e1)]) (project_verified ([e0] @ [PDict (pay_event_to_dict e1)]))
      ''payment_attempt_settled'' ''settled'' (obj [(''lease_id'', PStr ?l), (''settlement'', PDict (to_payload res))]) ?t3 (ri_record_op inp) st2
      = (st3, Inr (project_verified (([e0] @ [PDict (pay_event_to_dict e1)]) @ [PDict (pay_event_to_dict e2)])))"
    "attempt_live n actor aid st3 ?t3 [ri_record_op inp, ri_claim_op inp, op0] (([e0] @ [PDict (pay_event_to_dict e1)]) @ [PDict (pay_event_to_dict e2)]) ?s2 ?t3"
    "pe_type e2 = PStr ''payment_attempt_settled''" "pe_payload e2 = PDict (obj [(''lease_id'', PStr ?l), (''settlement'', PDict (to_payload res))])"
    by (rule live_extend [OF assms(1,2) aid _ x1(2) _ sizes(2) _ _ _ inp(3) t3(1) inp(9) _ t3(2) order_refl settle_accepted [OF _ _ _ _ _ _ _ p2]])
      (use f did inp(10) in auto)
  let ?fs = "[e0, PDict (pay_event_to_dict e1), PDict (pay_event_to_dict e2)]" let ?v2 = "project_verified ?fs"
  have l2: "record_settled n None ?t3 actor aid ?l (to_payload res) ?t3 (ri_record_op inp) st2 = (st3, Inr ?v2)"
    unfolding record_settled_def using live_append [OF x1(2) t3(2) _ _ aid] x2(1) f did by simp
  have "execute_claimed x inp ?v1 \<lparr>pn_attempts = st2, pn_trades = trades, pn_rail = r\<rparr> = (\<lparr>pn_attempts = st3, pn_trades = trades', pn_rail = r'\<rparr>, Inr ?v2)"
    using v1 set es l2 exec trade(4) by (simp add: execute_claimed_def)
  then have "run_once x aid inp \<lparr>pn_attempts = st1, pn_trades = trades, pn_rail = r\<rparr> = (\<lparr>pn_attempts = st3, pn_trades = trades', pn_rail = r'\<rparr>, Inr (Some ?v2))"
    using l1 exec by (simp add: run_once_def)
  moreover have v2: "v_state ?v2 = PStr ''settled''" "verify_payment_attempt n ?t3 ?fs = Inr (True, ''ok'')"
    using attempt_live_view [OF x2(2) order_refl] by (simp_all add: follows_def)
  moreover have "v_settlement ?v2 = to_payload res"
    using x2(3,4) by (simp add: project_verified_def project_event_def pay_from_to Let_def obj_def dget_or_def)
  moreover have "get_attempt n None ?t3 aid st3 = Inr (Some ?v2)"
    using x2(2) v2(2) aid by (simp add: get_attempt_def get_attempt_events_def attempt_stem_def view_or_def attempt_live_def)
  moreover have "verify_trade n ?t2 trades' tid = Inr (True, [])" "trade_state trades' tid = Some ''settled''"
    using rs(2) get_stored [of trades' tid] by (auto simp: live_def trade_state_def)
  ultimately show ?thesis using c(1) by auto
qed

text \<open>C23. An honest payment goes through: for a delivered and approved trade whose publisher is the payer and settler, creating the attempt and running the executor once, on a
  rail that has no receipt for the obligation and answers the payment with a confirmed one, makes exactly that payment and leaves the trade verified and settled and the attempt stored
  as settled with the settlement of the receipt, provided the identifiers are fresh and the payloads small.\<close>

theorem honest_payment_settles:
  assumes "ed25519_ok n" "signer_ok n actor" "as_did actor = Inr did" "settlement_idempotency_key i = Inr aid" "small_intent i" "i_payer_did i = did" "short_stamp t0" "lease_id_ok op0"
    "map_of (ps_docs st) (drop 25 aid) = None" "map_of (ps_journals st) (drop 25 aid) = None"
    and trade: "live n (ri_settle_ms inp) tid trades events ps ''verified''" "trade_terms events = Some (terms_of i)" "length events \<le> 4" "i_trade_id i = tid" "length tid \<le> 64"
      "p_publisher ps = did" "p_settler ps = did"
    and rail: "x402_network (rail_network (px_rail x)) = Inr (rail_network (px_rail x))" "rail_lookup (px_rail x) aid r = Inr None"
      "rail_pay (px_rail x) (i_payee_did i) (i_amount_minor i) (i_currency i) (i_memo i) aid r = (r', Inr receipt)"
      "result_from_receipt i receipt (rail_network (px_rail x)) (ri_settle_ms inp) = Inr res" "proof_encoded_size (PDict (x_proof res)) = Inr k"
    and exec: "px_nacl x = n" "px_witness x = None" "px_actor x = actor" "config_check (px_config x) = Inr ()"
    and inp: "short_stamp (ri_claim_ms inp)" "short_stamp (ri_settle_ms inp)" "short_stamp (ri_record_ms inp)" "t0 \<le> ri_claim_ms inp" "ri_claim_ms inp \<le> ri_settle_ms inp"
      "ri_settle_ms inp \<le> ri_record_ms inp" "lease_id_ok (ri_lease_id inp)" "lease_id_ok (ri_claim_op inp)" "lease_id_ok (ri_record_op inp)" "distinct [op0, ri_claim_op inp, ri_record_op inp]"
    and sizes: "modest_payload (obj [(''lease_id'', PStr (ri_lease_id inp)), (''lease_expires_at_ms'', PInt (ri_claim_ms inp + cf_lease_ms (px_config x)))])"
      "modest_payload (obj [(''lease_id'', PStr (ri_lease_id inp)), (''settlement'', PDict (to_payload res))])" "small_payload (obj [(''settlement'', PDict (to_payload res))])"
  shows "\<exists>st1 v0 nd' view. create_attempt n None t0 actor i adapter_x402_testnet t0 op0 st = (st1, Inr v0)
     \<and> run_once x aid inp \<lparr>pn_attempts = st1, pn_trades = trades, pn_rail = r\<rparr> = (nd', Inr (Some view))
     \<and> v_state view = PStr ''settled'' \<and> v_settlement view = to_payload res \<and> get_attempt n None (ri_record_ms inp) aid (pn_attempts nd') = Inr (Some view)
     \<and> verify_trade n (ri_settle_ms inp) (pn_trades nd') tid = Inr (True, []) \<and> trade_state (pn_trades nd') tid = Some ''settled'' \<and> pn_rail nd' = r'"
  by (rule honest_payment_run [OF assms])

section \<open>A concrete payment\<close>

definition pay_inputs :: run_inputs where
  "pay_inputs = \<lparr>ri_claim_ms = 2, ri_settle_ms = 9, ri_record_ms = 10, ri_lease_id = pay_lease, ri_claim_op = op2, ri_record_op = replicate 32 (CHR ''2'')\<rparr>"

definition pay_executor :: "(unit, (string \<times> rail_receipt) list) payment_executor" where
  "pay_executor = \<lparr>px_nacl = demo_nacl, px_witness = None, px_actor = demo_identity 1, px_rail = demo_rail, px_config = default_config\<rparr>"

definition pay_receipt :: rail_receipt where
  "pay_receipt = \<lparr>rc_tx_ref = ''tx'', rc_status = ''confirmed'', rc_proof = PDict [(PStr ''p'', PBool True)], rc_idempotency_key = pay_key\<rparr>"

definition pay_result :: settlement_result where
  "pay_result = \<lparr>x_adapter_id = adapter_x402_testnet, x_amount_minor = PInt 5, x_currency = ''USDC'', x_payee_did = ''did:b'', x_payer_did = demo_did 1, x_tx_ref = ''tx'',
     x_network = ''aptos:2'', x_proof = [(PStr ''p'', PBool True), (PStr ''idempotency_key'', PStr pay_key)], x_settled_at_ms = 9\<rparr>"

lemma pay_result_payload: "to_payload pay_result = pay_settlement"
  by (simp add: to_payload_def pay_result_def pay_settlement_def)

lemma pay_rail:
  "rail_network demo_rail = ''aptos:2''" "x402_network ''aptos:2'' = Inr ''aptos:2''" "rail_lookup demo_rail pay_key [] = Inr None"
  "rail_pay demo_rail (i_payee_did pay_intent) (i_amount_minor pay_intent) (i_currency pay_intent) (i_memo pay_intent) pay_key [] = ([(pay_key, pay_receipt)], Inr pay_receipt)"
  "result_from_receipt pay_intent pay_receipt ''aptos:2'' 9 = Inr pay_result" "\<exists>k. proof_encoded_size (PDict (x_proof pay_result)) = Inr k"
proof -
  show "rail_network demo_rail = ''aptos:2''" "rail_lookup demo_rail pay_key [] = Inr None"
    "rail_pay demo_rail (i_payee_did pay_intent) (i_amount_minor pay_intent) (i_currency pay_intent) (i_memo pay_intent) pay_key [] = ([(pay_key, pay_receipt)], Inr pay_receipt)"
    by (simp_all add: demo_rail_def pay_receipt_def Let_def)
  show "x402_network ''aptos:2'' = Inr ''aptos:2''" by code_simp
  have t: "is_wire_token ''tx'' 512" by code_simp
  obtain n where "proof_encoded_size (PDict [(PStr ''p'', PBool True)]) = Inr n" using demo_proof_size by blast
  then show "result_from_receipt pay_intent pay_receipt ''aptos:2'' 9 = Inr pay_result" using t pay_key(1)
    by (simp add: result_from_receipt_def pay_receipt_def pay_result_def safe_str_def without_key_def Let_def dput_def)
  show "\<exists>k. proof_encoded_size (PDict (x_proof pay_result)) = Inr k"
    using pay_settlement_pays
    by (auto simp: pays_def verify_settlement_def x402_evidence_def Let_def pay_result_payload [symmetric] to_payload_def obj_def split: if_splits option.splits sum.splits)
qed

lemma pay_trade:
  obtains trades events ps where "live demo_nacl 9 ''t1'' trades events ps ''verified''" "trade_terms events = Some (terms_of pay_intent)" "length events = 3"
    "p_publisher ps = demo_did 1" "p_settler ps = demo_did 1"
proof -
  have small: "small_payload p" if "open_payload (claim_of ''t1'' (demo_did 4) (i_payer_did pay_intent)) (demo_did 2) (demo_did 1) [] (Some (terms_of pay_intent)) = Inr (''t1'', p)" for p
    using that demo_did(2,3) [of 1] demo_did(2,3) [of 2] demo_did(2,3) [of 4]
    by (auto simp: open_payload_def claim_of_def terms_of_def terms_payload_def obj_def dget_or_def Let_def small_payload_def is_str_def key_text_def int_str_5)
  obtain r where r: "manual_settle pay_intent 9 = Inr r" "r = \<lparr>x_adapter_id = adapter_manual, x_amount_minor = PInt 5, x_currency = ''USDC'', x_payee_did = ''did:b'',
     x_payer_did = demo_did 1, x_tx_ref = [], x_network = [], x_proof = [], x_settled_at_ms = 9\<rparr>"
    by (simp add: manual_settle_def pay_intent_ok)
  have rs: "small_payload (obj [(''settlement'', PDict (to_payload r))])"
    using demo_did(2) [of 1] by (simp add: small_payload_def obj_def is_str_def key_text_def to_payload_def r(2) int_str_5 adapter_manual_def)
  have h: "i_trade_id pay_intent = ''t1''" "i_amount_minor pay_intent = PInt 5" "i_payer_did pay_intent \<noteq> []" using demo_did(3) [of 1] by simp_all
  obtain st3 e1 e2 e3 ps where l: "live demo_nacl 9 ''t1'' st3 [PDict e1, PDict e2, PDict e3] ps ''verified''" "trade_terms [PDict e1, PDict e2, PDict e3] = Some (terms_of pay_intent)"
    "ps = \<lparr>p_claimant = demo_did 4, p_publisher = i_payer_did pay_intent, p_verifier = demo_did 2, p_settler = demo_did 1, p_resolver = (if [] \<noteq> ([] :: string) then [] else demo_did 2)\<rparr>"
    by (rule honest_run [OF demo_nacl_ok demo_signer [of 0] demo_signer [of 4] demo_signer [of 2] demo_signer [of 1] demo_did(1) [of 4] demo_did(1) [of 2]
      demo_did(1) [of 1] demo_hyps(1-3) h r(1) demo_hyps(8) small demo_payloads_small(1,2) rs]) blast+
  then show thesis using that [OF l(1,2)] by simp
qed

lemma pay_sizes:
  "short_stamp 1" "short_stamp (ri_claim_ms pay_inputs)" "short_stamp (ri_settle_ms pay_inputs)" "short_stamp (ri_record_ms pay_inputs)" "1 \<le> ri_claim_ms pay_inputs"
  "ri_claim_ms pay_inputs \<le> ri_settle_ms pay_inputs" "ri_settle_ms pay_inputs \<le> ri_record_ms pay_inputs" "lease_id_ok (ri_lease_id pay_inputs)" "lease_id_ok (ri_claim_op pay_inputs)"
  "lease_id_ok (ri_record_op pay_inputs)" "distinct [op1, ri_claim_op pay_inputs, ri_record_op pay_inputs]"
  "modest_payload (obj [(''lease_id'', PStr (ri_lease_id pay_inputs)), (''lease_expires_at_ms'', PInt (ri_claim_ms pay_inputs + cf_lease_ms (px_config pay_executor)))])"
  "modest_payload (obj [(''lease_id'', PStr (ri_lease_id pay_inputs)), (''settlement'', PDict (to_payload pay_result))])" "small_payload (obj [(''settlement'', PDict (to_payload pay_result))])"
proof -
  have ops: "op2 = replicate 32 (CHR ''1'')" "lease_id_ok (replicate 32 (CHR ''2''))" "distinct [op1, op2, replicate 32 (CHR ''2'')]" by (simp add: op2_def) code_simp+
  show "short_stamp 1" "short_stamp (ri_claim_ms pay_inputs)" "short_stamp (ri_settle_ms pay_inputs)" "short_stamp (ri_record_ms pay_inputs)" "1 \<le> ri_claim_ms pay_inputs"
    "ri_claim_ms pay_inputs \<le> ri_settle_ms pay_inputs" "ri_settle_ms pay_inputs \<le> ri_record_ms pay_inputs" "lease_id_ok (ri_lease_id pay_inputs)" "lease_id_ok (ri_claim_op pay_inputs)"
    "lease_id_ok (ri_record_op pay_inputs)" "distinct [op1, ri_claim_op pay_inputs, ri_record_op pay_inputs]"
    using ops pay_lease_ok(1) ops_ok(2) by (simp_all add: pay_inputs_def short_stamp_def del: distinct.simps)
  show "modest_payload (obj [(''lease_id'', PStr (ri_lease_id pay_inputs)), (''lease_expires_at_ms'', PInt (ri_claim_ms pay_inputs + cf_lease_ms (px_config pay_executor)))])"
    using claim_payload_modest by (simp add: claim_payload_def pay_inputs_def pay_executor_def default_config_def)
  show "modest_payload (obj [(''lease_id'', PStr (ri_lease_id pay_inputs)), (''settlement'', PDict (to_payload pay_result))])"
    using settle_payload_modest by (simp add: settle_payload_def pay_inputs_def pay_result_payload)
  show "small_payload (obj [(''settlement'', PDict (to_payload pay_result))])"
    using demo_did(2) [of 1] pay_key(3) by (simp add: small_payload_def obj_def is_str_def key_text_def to_payload_def pay_result_def int_str_5 adapter_x402_testnet_def)
qed

lemma pay_exec: "px_nacl pay_executor = demo_nacl" "px_witness pay_executor = None" "px_actor pay_executor = demo_identity 1" "px_rail pay_executor = demo_rail"
    "config_check (px_config pay_executor) = Inr ()"
  by (simp_all add: pay_executor_def config_check_def default_config_def)

lemma pay_applies:
  obtains trades events ps where "live demo_nacl (ri_settle_ms pay_inputs) ''t1'' trades events ps ''verified''" "trade_terms events = Some (terms_of pay_intent)" "length events \<le> 4"
    "i_trade_id pay_intent = ''t1''" "length ''t1'' \<le> 64" "p_publisher ps = demo_did 1" "p_settler ps = demo_did 1"
proof -
  obtain trades events ps where "live demo_nacl 9 ''t1'' trades events ps ''verified''" "trade_terms events = Some (terms_of pay_intent)" "length events = 3"
    "p_publisher ps = demo_did 1" "p_settler ps = demo_did 1" by (rule pay_trade)
  then show thesis using that by (simp add: pay_inputs_def)
qed

lemma pay_rail_run:
  "x402_network (rail_network (px_rail pay_executor)) = Inr (rail_network (px_rail pay_executor))" "rail_lookup (px_rail pay_executor) pay_key [] = Inr None"
  "rail_pay (px_rail pay_executor) (i_payee_did pay_intent) (i_amount_minor pay_intent) (i_currency pay_intent) (i_memo pay_intent) pay_key [] = ([(pay_key, pay_receipt)], Inr pay_receipt)"
  "result_from_receipt pay_intent pay_receipt (rail_network (px_rail pay_executor)) (ri_settle_ms pay_inputs) = Inr pay_result"
  using pay_rail(1-5) by (simp_all add: pay_exec(4) pay_inputs_def)

lemma honest_payment_demo:
  obtains st1 trades nd' view where "run_once pay_executor pay_key pay_inputs \<lparr>pn_attempts = st1, pn_trades = trades, pn_rail = []\<rparr> = (nd', Inr (Some view))"
    "v_state view = PStr ''settled''" "get_attempt demo_nacl None (ri_record_ms pay_inputs) pay_key (pn_attempts nd') = Inr (Some view)" "pn_rail nd' = [(pay_key, pay_receipt)]"
proof -
  obtain trades events ps where t: "live demo_nacl (ri_settle_ms pay_inputs) ''t1'' trades events ps ''verified''" "trade_terms events = Some (terms_of pay_intent)" "length events \<le> 4"
    "i_trade_id pay_intent = ''t1''" "length ''t1'' \<le> 64" "p_publisher ps = demo_did 1" "p_settler ps = demo_did 1" by (rule pay_applies)
  obtain k where k: "proof_encoded_size (PDict (x_proof pay_result)) = Inr k" using pay_rail(6) by blast
  have e: "map_of (ps_docs empty_payments) (drop 25 pay_key) = None" "map_of (ps_journals empty_payments) (drop 25 pay_key) = None" by (simp_all add: empty_payments_def)
  note honest_payment_run [OF demo_nacl_ok demo_signer demo_did(1) pay_key(1) pay_intent_ok(2) pay_intent_simps(5) pay_sizes(1) ops_ok(1) e t pay_rail_run k pay_exec(1-3,5) pay_sizes(2-14)]
  then show thesis using that by blast
qed

theorem honest_payment_settles_witness:
  "\<exists>st1 trades nd' view. run_once pay_executor pay_key pay_inputs \<lparr>pn_attempts = st1, pn_trades = trades, pn_rail = []\<rparr> = (nd', Inr (Some view))
     \<and> v_state view = PStr ''settled'' \<and> trade_state (pn_trades nd') ''t1'' = Some ''settled'' \<and> pn_rail nd' = [(pay_key, pay_receipt)]"
proof -
  obtain trades events ps where t: "live demo_nacl (ri_settle_ms pay_inputs) ''t1'' trades events ps ''verified''" "trade_terms events = Some (terms_of pay_intent)" "length events \<le> 4"
    "i_trade_id pay_intent = ''t1''" "length ''t1'' \<le> 64" "p_publisher ps = demo_did 1" "p_settler ps = demo_did 1" by (rule pay_applies)
  obtain k where k: "proof_encoded_size (PDict (x_proof pay_result)) = Inr k" using pay_rail(6) by blast
  have e: "map_of (ps_docs empty_payments) (drop 25 pay_key) = None" "map_of (ps_journals empty_payments) (drop 25 pay_key) = None" by (simp_all add: empty_payments_def)
  from honest_payment_settles [OF demo_nacl_ok demo_signer demo_did(1) pay_key(1) pay_intent_ok(2) pay_intent_simps(5) pay_sizes(1) ops_ok(1) e t pay_rail_run k pay_exec(1-3,5) pay_sizes(2-14)]
  show ?thesis by blast
qed

section \<open>Witnesses on the executor\<close>

theorem executor_pays_only_due_witness:
  "\<exists>nd nd' out. run_once pay_executor pay_key pay_inputs nd = (nd', out) \<and> rail_lookup demo_rail pay_key (pn_rail nd) = Inr None \<and> pn_rail nd' \<noteq> pn_rail nd
     \<and> (\<exists>i. settlement_idempotency_key i = Inr pay_key \<and> trade_state (pn_trades nd) (i_trade_id i) = Some ''verified''
          \<and> pn_rail nd' = fst (rail_pay demo_rail (i_payee_did i) (i_amount_minor i) (i_currency i) (i_memo i) pay_key (pn_rail nd)))"
proof -
  obtain st1 trades nd' view where r: "run_once pay_executor pay_key pay_inputs \<lparr>pn_attempts = st1, pn_trades = trades, pn_rail = []\<rparr> = (nd', Inr (Some view))"
    "pn_rail nd' = [(pay_key, pay_receipt)]" by (rule honest_payment_demo)
  let ?nd = "\<lparr>pn_attempts = st1, pn_trades = trades, pn_rail = []\<rparr> :: (unit, (string \<times> rail_receipt) list) payment_node"
  have "pn_rail nd' \<noteq> pn_rail ?nd" using r(2) by simp
  from executor_pays_only_due [OF r(1) this] this r(1) show ?thesis unfolding pay_exec(4) by blast
qed

theorem executor_pays_at_most_once_witness:
  "\<exists>nd nd' nd'' out. run_once pay_executor pay_key pay_inputs nd = (nd', out) \<and> node_run demo_rail nd nd' \<and> demo_moved (pn_rail nd) pay_key = 0 \<and> demo_moved (pn_rail nd') pay_key = 1
     \<and> node_run demo_rail nd nd'' \<and> pn_attempts nd'' = empty_payments \<and> demo_moved (pn_rail nd'') pay_key \<le> 1"
proof -
  obtain st1 trades nd' view where r: "run_once pay_executor pay_key pay_inputs \<lparr>pn_attempts = st1, pn_trades = trades, pn_rail = []\<rparr> = (nd', Inr (Some view))"
    "pn_rail nd' = [(pay_key, pay_receipt)]" by (rule honest_payment_demo)
  let ?nd = "\<lparr>pn_attempts = st1, pn_trades = trades, pn_rail = []\<rparr> :: (unit, (string \<times> rail_receipt) list) payment_node" and ?nd'' = "nd'\<lparr>pn_attempts := empty_payments\<rparr>"
  have n: "node_run demo_rail ?nd nd'" by (rule node_run.runs [OF node_run.begins pay_exec(4) r(1)])
  have n2: "node_run demo_rail ?nd ?nd''" by (rule node_run.files_change [OF n]) simp
  have m: "demo_moved (pn_rail ?nd) pay_key = 0" "demo_moved (pn_rail nd') pay_key = 1" using r(2) by (simp_all add: demo_moved_def)
  then have "demo_moved (pn_rail ?nd) pay_key \<le> 1" by simp
  from executor_pays_at_most_once [OF n2 demo_rail_exposes this] have "demo_moved (pn_rail ?nd'') pay_key \<le> 1" .
  moreover have "pn_attempts ?nd'' = empty_payments" by simp
  ultimately show ?thesis using r(1) n n2 m by blast
qed

lemma finished_attempt_left_alone_demo:
  "\<exists>nd view. get_attempt demo_nacl None 10 pay_key (pn_attempts nd) = Inr (Some view) \<and> v_state view = PStr ''settled'' \<and> fst (run_once pay_executor pay_key pay_inputs nd) = nd"
proof -
  obtain nd' :: "(unit, (string \<times> rail_receipt) list) payment_node" and view where r: "v_state view = PStr ''settled''" "get_attempt demo_nacl None (ri_record_ms pay_inputs) pay_key (pn_attempts nd') = Inr (Some view)"
    by (rule honest_payment_demo)
  have g: "get_attempt (px_nacl pay_executor) (px_witness pay_executor) 10 pay_key (pn_attempts nd') = Inr (Some view)" "v_state view \<in> {PStr ''settled'', PStr ''blocked'', PStr ''orphaned''}"
    using r by (simp_all add: pay_exec pay_inputs_def)
  from finished_attempt_left_alone [OF this, of pay_inputs pay_inputs] g r(1) show ?thesis unfolding pay_exec by blast
qed

definition torn_node :: "(unit, (string \<times> rail_receipt) list) payment_node" where
  "torn_node = \<lparr>pn_attempts = empty_payments\<lparr>ps_docs := [(replicate 64 (CHR ''a''), Unreadable)]\<rparr>, pn_trades = [], pn_rail = []\<rparr>"

lemma unreadable_attempt_stops_executor_demo:
  "(\<exists>m. run_pending pay_executor 25 (\<lambda>_. pay_inputs) torn_node = (torn_node, reject m)) \<and> pending_attempts demo_nacl None 10 25 (pn_attempts torn_node) = Inr []"
proof -
  have h: "hex_text 64 (replicate 64 (CHR ''a''))" by code_simp
  have s: "sort (map fst (ps_docs (pn_attempts torn_node))) = replicate 64 (CHR ''a'') # []" "map_of (ps_docs (pn_attempts torn_node)) (replicate 64 (CHR ''a'')) = Some Unreadable"
    "1000 \<le> cf_lease_ms (px_config pay_executor)" "cf_lease_ms (px_config pay_executor) \<le> 300000"
    by (simp_all add: torn_node_def pay_executor_def default_config_def)
  from unreadable_attempt_stops_executor [OF _ _ s(1) h s(2-4), of 25 "\<lambda>_. pay_inputs" 10] show ?thesis by (simp add: pay_exec)
qed

end
