(* ===== verification/Payment_Witness.thy ===== *)
theory Payment_Witness
  imports Payment_Run
begin

text \<open>
  \<open>nth_dao/commerce/payment_witness.py\<close>: the witness of payment attempt heads that lives outside the workspace, as a file of JSON lines per attempt. What the store relies on is the
  locale \<open>head_log\<close>: an anchor that was appended is the last one read, a failed append changes nothing, and attempts do not disturb each other. The file
  witness provides it. With a witness, putting back the documents and the journals together is detected as well.
\<close>

section \<open>The file witness\<close>

definition max_record_bytes :: nat where
  "max_record_bytes = 16 * 1024"

definition max_witness_bytes :: nat where
  "max_witness_bytes = 1024 * 1024"

type_synonym witness_files = "(string \<times> bytes) list"

definition witness_stem :: "string \<Rightarrow> string res" where
  "witness_stem attempt_id = ensure (attempt_id_ok attempt_id) PaymentWitnessRejected ''invalid payment attempt id'' (Inr (drop 25 attempt_id))"

definition decode_record :: "bytes \<Rightarrow> pyval res" where
  "decode_record line =
     (if line = [] \<or> max_record_bytes < length line then raise PaymentWitnessRejected ''payment witness contains an invalid record''
      else case loads_line line of
        None \<Rightarrow> raise PaymentWitnessRejected ''payment witness contains a torn or malformed record''
      | Some v \<Rightarrow> ensure (is_dict v) PaymentWitnessRejected ''payment witness record must be an object'' (Inr v))"

definition witness_decode :: "bytes \<Rightarrow> pyval list res" where
  "witness_decode raw =
     ensure (length raw \<le> max_witness_bytes) PaymentWitnessRejected ''payment witness exceeds size limit'' (
     if raw = [] then Inr [] else mapR decode_record (journal_lines raw))"

definition witness_file :: "string \<Rightarrow> witness_files \<Rightarrow> bytes" where
  "witness_file stem w = (case map_of w stem of None \<Rightarrow> [] | Some raw \<Rightarrow> raw)"

definition witness_read :: "string \<Rightarrow> witness_files \<Rightarrow> pyval list res" where
  "witness_read attempt_id w = bindR (witness_stem attempt_id) (\<lambda>stem. witness_decode (witness_file stem w))"

definition witness_change :: "string \<Rightarrow> pydict \<Rightarrow> witness_files \<Rightarrow> (string \<times> bytes) option res" where
  "witness_change attempt_id anchor w =
     bindR (witness_stem attempt_id) (\<lambda>stem.
     bindR (case canonical_json (PDict anchor) of
              Inr bs \<Rightarrow> Inr bs
            | Inl _ \<Rightarrow> raise PaymentWitnessRejected ''payment witness anchor is not canonical JSON'') (\<lambda>encoded.
     ensure (length encoded \<le> max_record_bytes) PaymentWitnessRejected ''payment witness anchor exceeds size limit'' (
     let raw = witness_file stem w in
     bindR (witness_decode raw) (\<lambda>records.
     if records \<noteq> [] \<and> py_eq (List.last records) (PDict anchor) then Inr None
     else ensure (length raw + length encoded + 1 \<le> max_witness_bytes) PaymentWitnessRejected ''payment witness exceeds size limit'' (
       let separator = (if raw \<noteq> [] \<and> List.last raw \<noteq> 10 then [10] else []) in
       Inr (Some (stem, raw @ separator @ encoded @ [10])))))))"

definition witness_append :: "string \<Rightarrow> pydict \<Rightarrow> witness_files \<Rightarrow> witness_files \<times> unit res" where
  "witness_append attempt_id anchor w =
     (case witness_change attempt_id anchor w of
        Inl e \<Rightarrow> (w, Inl e)
      | Inr None \<Rightarrow> (w, Inr ())
      | Inr (Some (stem, bs)) \<Rightarrow> (assoc_put stem bs w, Inr ()))"

definition file_witness :: "witness_files head_witness" where
  "file_witness = \<lparr>hw_append = witness_append, hw_read = (\<lambda>attempt_id w. bindR (witness_read attempt_id w) (\<lambda>records. Inr (PList records)))\<rparr>"

section \<open>What the store relies on\<close>

text \<open>The anchors that a witness holds for an attempt.\<close>

definition witnessed :: "'w head_witness \<Rightarrow> string \<Rightarrow> 'w \<Rightarrow> head_anchor list \<Rightarrow> bool" where
  "witnessed W aid w as \<longleftrightarrow> (\<exists>records. hw_read W aid w = Inr (PList records) \<and> mapR witness_anchor records = Inr as \<and> list_all plain_anchor as)"

lemma signed_anchor_fields:
  assumes "sign_anchor n actor (new_anchor phase op aid k h did t) = Inr a"
  shows "plain_anchor a" "an_attempt_id a = PStr aid" "an_phase a = PStr phase" "head_of a = (PInt (int k), PStr h)"
  using assms by (auto simp: sign_anchor_def bindR_Inr_iff ensure_Inr_iff new_anchor_def plain_anchor_def flat_def head_of_def)

lemma append_anchor_witness: "append_anchor a st = (st', out) \<Longrightarrow> ps_witness st' = ps_witness st"
  by (auto simp: append_anchor_def split: sum.splits prod.splits)

lemma run_writes_Cons: "run_writes (f # fs) st = (st', Inr ()) \<longleftrightarrow> (\<exists>st1. f st = (st1, Inr ()) \<and> run_writes fs st1 = (st', Inr ()))"
  by (auto split: prod.splits sum.splits)

locale head_log =
  fixes W :: "'w head_witness" and sound :: "'w \<Rightarrow> bool"
  assumes appended: "sound w \<Longrightarrow> witnessed W aid w as \<Longrightarrow> plain_anchor a \<Longrightarrow> hw_append W aid (anchor_to_dict a) w = (w', Inr ()) \<Longrightarrow>
      \<exists>as'. witnessed W aid w' (as' @ [a]) \<and> (as' = as \<or> as' @ [a] = as)"
    and append_failed: "hw_append W aid d w = (w', Inl e) \<Longrightarrow> w' = w"
    and append_sound: "sound w \<Longrightarrow> hw_append W aid d w = (w', out) \<Longrightarrow> sound w'"
    and append_local: "aid' \<noteq> aid \<Longrightarrow> hw_append W aid d w = (w', out) \<Longrightarrow> hw_read W aid' w' = hw_read W aid' w"
begin

lemma read_anchors_witnessed:
  assumes "witnessed W aid (ps_witness st) as"
  shows "read_witness_anchors n W st aid did = validate_anchor_sequence n as aid did ''external''"
  using assms by (auto simp: witnessed_def read_witness_anchors_def)

lemma append_step:
  assumes "sound (ps_witness st)" "witnessed W aid (ps_witness st) as" "plain_anchor a" "an_attempt_id a = PStr aid" "append_witness (Some W) a st = (st', Inr ())"
  obtains as' where "sound (ps_witness st')" "witnessed W aid (ps_witness st') (as' @ [a])" "as' = as \<or> as' @ [a] = as" "ps_docs st' = ps_docs st" "ps_journals st' = ps_journals st"
proof -
  obtain w' where w: "hw_append W aid (anchor_to_dict a) (ps_witness st) = (w', Inr ())" "st' = st\<lparr>ps_witness := w'\<rparr>"
    using assms(4,5) by (auto simp: append_witness_def split: prod.splits sum.splits)
  from appended [OF assms(1-3) w(1)] show thesis using that w(2) append_sound [OF assms(1) w(1)] by auto
qed

lemma persist_witnessed:
  assumes "sound (ps_witness st)" "witnessed W aid (ps_witness st) as" "persist n (Some W) actor stem aid events t op st = (st', Inr ())"
  obtains h as' where "events \<noteq> []" "payment_attempt_event_hash (List.last events) = Inr h" "sound (ps_witness st')" "witnessed W aid (ps_witness st') as'"
    "accepted_anchor_heads as' = [chain_head events h]"
proof -
  obtain did h where h: "events \<noteq> []" "payment_attempt_event_hash (List.last events) = Inr h" and w: "run_writes
      [with_signed n actor (new_anchor ''prepared'' op aid (length events - 1) h did t) append_anchor,
       with_signed n actor (new_anchor ''prepared'' op aid (length events - 1) h did t) (append_witness (Some W)),
       write_document stem (document_of aid events h),
       with_signed n actor (new_anchor ''committed'' op aid (length events - 1) h did t) append_anchor,
       with_signed n actor (new_anchor ''committed'' op aid (length events - 1) h did t) (append_witness (Some W))] st = (st', Inr ())"
    using assms(3) by (auto simp: persist_def persist_writes_def attempt_document_def bindR_Inr_iff ensure_Inr_iff Let_def document_of_def
        simp del: run_writes.simps split: sum.splits)
  obtain s1 s2 s3 s4 where r: "with_signed n actor (new_anchor ''prepared'' op aid (length events - 1) h did t) append_anchor st = (s1, Inr ())"
    "with_signed n actor (new_anchor ''prepared'' op aid (length events - 1) h did t) (append_witness (Some W)) s1 = (s2, Inr ())"
    "write_document stem (document_of aid events h) s2 = (s3, Inr ())"
    "with_signed n actor (new_anchor ''committed'' op aid (length events - 1) h did t) append_anchor s3 = (s4, Inr ())"
    "with_signed n actor (new_anchor ''committed'' op aid (length events - 1) h did t) (append_witness (Some W)) s4 = (st', Inr ())"
    using w unfolding run_writes_Cons run_writes.simps(1) by blast
  obtain p where p: "sign_anchor n actor (new_anchor ''prepared'' op aid (length events - 1) h did t) = Inr p" "append_anchor p st = (s1, Inr ())" "append_witness (Some W) p s1 = (s2, Inr ())"
    using r(1,2) by (auto simp: with_signed_def split: sum.splits)
  obtain c where c: "sign_anchor n actor (new_anchor ''committed'' op aid (length events - 1) h did t) = Inr c" "append_anchor c s3 = (s4, Inr ())" "append_witness (Some W) c s4 = (st', Inr ())"
    using r(4,5) by (auto simp: with_signed_def split: sum.splits)
  note fp = signed_anchor_fields [OF p(1)] and fc = signed_anchor_fields [OF c(1)]
  have "ps_witness s1 = ps_witness st" using p(2) by (rule append_anchor_witness)
  then have i1: "sound (ps_witness s1)" "witnessed W aid (ps_witness s1) as" using assms(1,2) by auto
  obtain as1 where w1: "sound (ps_witness s2)" "witnessed W aid (ps_witness s2) (as1 @ [p])" using i1 fp(1,2) p(3) by (rule append_step)
  have "ps_witness s4 = ps_witness s3" "ps_witness s3 = ps_witness s2" using append_anchor_witness [OF c(2)] r(3) by (auto simp: write_document_def)
  then have i2: "sound (ps_witness s4)" "witnessed W aid (ps_witness s4) (as1 @ [p])" using w1 by auto
  obtain as2 where w2: "sound (ps_witness st')" "witnessed W aid (ps_witness st') (as2 @ [c])" using i2 fc(1,2) c(3) by (rule append_step)
  have "head_of c = chain_head events h" using fc(4) h(1) by (simp add: chain_head_def Suc_leI of_nat_diff)
  then have "accepted_anchor_heads (as2 @ [c]) = [chain_head events h]" using fc(3) by (simp add: accepted_snoc)
  then show thesis using that [OF h w2] by blast
qed

lemma load_witnessed:
  assumes "load_attempt n (Some W) st (drop 25 aid) = Inr (Some events)" "attempt_id_ok aid" "witnessed W aid (ps_witness st) as"
  obtains h where "events \<noteq> []" "payment_attempt_event_hash (List.last events) = Inr h" "chain_head events h \<in> set (accepted_anchor_heads as)"
proof -
  obtain h did where e: "events \<noteq> []" "payment_attempt_event_hash (List.last events) = Inr h" "first_actor events = Inr (PStr did)" "validate_anchor n (Some W) st aid events h = Inr ()"
    using assms(1,2) by (rule load_validated)
  have "chain_head events h \<in> set (accepted_anchor_heads as)"
    using e(3,4) read_anchors_witnessed [OF assms(3)] by (auto simp: validate_anchor_def bindR_Inr_iff ensure_Inr_iff validate_anchor_sequence_def chain_head_def Let_def)
  then show thesis using that e by blast
qed

lemma rollback_witnessed:
  assumes "attempt_id_ok aid" "sound (ps_witness st)" "witnessed W aid (ps_witness st) as" "persist n (Some W) actor (drop 25 aid) aid events t op st = (st', Inr ())"
    "load_attempt n (Some W) (st'\<lparr>ps_docs := docs, ps_journals := journals\<rparr>) (drop 25 aid) = Inr (Some found)"
    "verify_payment_attempt n now events = Inr (True, m)" "verify_payment_attempt n now' found = Inr (True, m')" "list_all keys_once events" "list_all keys_once found"
  shows "list_all2 (\<lambda>x y. canon x = canon y) found events \<or> (\<exists>x \<in> set found. \<exists>y \<in> set events. sha_collision (event_bytes x) (event_bytes y))"
proof -
  obtain h as' where r: "events \<noteq> []" "payment_attempt_event_hash (List.last events) = Inr h" "witnessed W aid (ps_witness st') as'" "accepted_anchor_heads as' = [chain_head events h]"
    using assms(2-4) by (rule persist_witnessed)
  have "witnessed W aid (ps_witness (st'\<lparr>ps_docs := docs, ps_journals := journals\<rparr>)) as'" using r(3) by simp
  with assms(5,1) obtain h' where f: "payment_attempt_event_hash (List.last found) = Inr h'" "chain_head found h' \<in> set (accepted_anchor_heads as')" by (rule load_witnessed)
  have "payment_attempt_event_hash (List.last found) = payment_attempt_event_hash (List.last events)" using f r(2,4) by (simp add: chain_head_def)
  then show ?thesis using head_commits [OF assms(7) _ _ assms(9), of now events "[]"] assms(6,8) r(1) by simp
qed

end

section \<open>The file witness keeps the contract\<close>

definition whole_lines :: "witness_files \<Rightarrow> bool" where
  "whole_lines w \<longleftrightarrow> (\<forall>stem raw. map_of w stem = Some raw \<longrightarrow> raw = [] \<or> List.last raw = 10)"

lemma whole_lines_put: "whole_lines w \<Longrightarrow> whole_lines (assoc_put k (bs @ [10]) w)"
  unfolding whole_lines_def map_of_assoc_put
proof (intro allI impI)
  fix stem raw
  assume w: "\<forall>stem raw. map_of w stem = Some raw \<longrightarrow> raw = [] \<or> List.last raw = 10" and r: "((map_of w)(k \<mapsto> bs @ [10])) stem = Some raw"
  show "raw = [] \<or> List.last raw = 10"
  proof (cases "stem = k")
    case False
    then have "map_of w stem = Some raw" using r by simp
    then show ?thesis using w by blast
  qed (use r in auto)
qed

lemma split_lines_append: "split_lines (xs @ 10 # ys) = split_lines xs @ split_lines ys"
  by (induction xs) (auto split: list.splits)

lemma journal_lines_snoc:
  assumes "raw = [] \<or> List.last raw = 10" "10 \<notin> set line" "line \<noteq> []"
  shows "journal_lines (raw @ line @ [10]) = journal_lines raw @ [line]"
proof (cases "raw = []")
  case True
  then show ?thesis using split_lines_record [OF assms(2), of "[]"] by (simp add: journal_lines_def)
next
  case False
  then obtain xs where raw: "raw = xs @ [10]" using assms(1) by (metis append_butlast_last_id)
  have "split_lines raw = split_lines xs @ [[]]" using split_lines_append [of xs "[]"] by (simp add: raw)
  moreover have "split_lines (raw @ line @ [10]) = split_lines xs @ [line, []]"
    using split_lines_append [of xs "line @ [10]"] split_lines_record [OF assms(2), of "[]"] by (simp add: raw)
  ultimately show ?thesis by (simp add: journal_lines_def butlast_append)
qed

lemma mapR_append: "mapR f (xs @ ys) = bindR (mapR f xs) (\<lambda>us. bindR (mapR f ys) (\<lambda>vs. Inr (us @ vs)))"
  by (induction xs) (auto simp: bindR_def split: sum.splits)

lemma anchor_record:
  assumes "plain_anchor a" "length (anchor_text a) \<le> max_record_bytes"
  obtains r where "decode_record (anchor_text a) = Inr r" "witness_anchor r = Inr a" "anchor_text a \<noteq> []"
proof -
  note p = parse_anchor_text [OF assms(1)]
  then obtain d where "anchor_text a \<noteq> []" "loads_line (anchor_text a) = Some (PDict d)" "same_keys d anchor_fields" "anchor_from_dict d = a"
    by (auto simp: parse_anchor_line_def reject_def ensure_Inr_iff split: if_splits option.splits pyval.splits)
  then show thesis using that [of "PDict d"] assms(2) by (simp add: decode_record_def witness_anchor_def is_dict_def)
qed

lemma same_keys_found: "same_keys d ks \<Longrightarrow> k \<in> set ks \<Longrightarrow> dget d k \<noteq> None"
  by (auto simp: same_keys_def dget_def map_of_eq_None_iff image_iff set_eq_iff)

lemma py_eq_sub_has: "py_eq_sub d e \<Longrightarrow> (k, v) \<in> set d \<Longrightarrow> py_eq_has k v e"
  by (induction d) auto

lemma py_eq_has_found: "py_eq_has k v e \<Longrightarrow> \<exists>k' v'. (k', v') \<in> set e \<and> py_eq k k' \<and> py_eq v v'"
proof (induction e)
  case (Cons p e)
  then show ?case by (cases p) (auto 4 4)
qed simp

lemma py_eq_flat: "flat v \<Longrightarrow> flat v' \<Longrightarrow> py_eq v v' \<Longrightarrow> v = v'"
  by (cases v; cases v') (auto simp: flat_def num_eq_def num_of_def)

lemma equal_record:
  assumes "py_eq r (PDict (anchor_to_dict a))" "witness_anchor r = Inr b" "plain_anchor a" "plain_anchor b"
  shows "b = a"
proof -
  obtain d where d: "r = PDict d" "same_keys d anchor_fields" "b = anchor_from_dict d"
    using assms(2) by (auto simp: witness_anchor_def reject_def ensure_Inr_iff split: pyval.splits)
  have sub: "py_eq_sub d (anchor_to_dict a)" using assms(1) d(1) by simp
  have f: "dget_or d k PNone = dget_or (anchor_to_dict a) k PNone" if k: "k \<in> set anchor_fields" "flat (dget_or d k PNone)" for k
  proof -
    have "dget d k \<noteq> None" using d(2) k(1) by (rule same_keys_found)
    then obtain v where v: "dget d k = Some v" by blast
    then have "(PStr k, v) \<in> set d" by (auto simp: dget_def dest: map_of_SomeD)
    then obtain k' v' where "(k', v') \<in> set (anchor_to_dict a)" "py_eq (PStr k) k'" "py_eq v v'" using py_eq_has_found [OF py_eq_sub_has [OF sub]] by blast
    moreover have "k' = PStr k" using \<open>py_eq (PStr k) k'\<close> by (cases k') (auto simp: num_eq_def)
    moreover have "distinct (map fst (anchor_to_dict a))" by (simp add: anchor_to_dict_def obj_def)
    ultimately have w: "dget (anchor_to_dict a) k = Some v'" by (simp add: dget_def map_of_is_SomeI)
    then show ?thesis using py_eq_flat [of v v'] \<open>py_eq v v'\<close> v k(2) anchor_dget [OF w assms(3)] by (simp add: dget_or_def)
  qed
  have "flat (dget_or d k PNone)" if "k \<in> set anchor_fields" for k
    using assms(4) that unfolding d(3) by (auto simp: anchor_from_dict_def plain_anchor_def anchor_fields_def Let_def)
  with f have "anchor_from_dict d = anchor_from_dict (anchor_to_dict a)" by (simp add: anchor_from_dict_def anchor_fields_def Let_def)
  then show ?thesis by (simp add: d(3) anchor_from_to)
qed

lemma witness_change_Inr:
  assumes "witness_change aid d w = Inr r" "witness_file (drop 25 aid) w = raw"
  obtains encoded records where "attempt_id_ok aid" "canonical_json (PDict d) = Inr encoded" "length encoded \<le> max_record_bytes" "witness_decode raw = Inr records"
    "if records \<noteq> [] \<and> py_eq (List.last records) (PDict d) then r = None
     else length raw + length encoded + 1 \<le> max_witness_bytes \<and> r = Some (drop 25 aid, raw @ (if raw \<noteq> [] \<and> List.last raw \<noteq> 10 then [10] else []) @ encoded @ [10])"
proof -
  obtain encoded records where e: "attempt_id_ok aid" "canonical_json (PDict d) = Inr encoded" "length encoded \<le> max_record_bytes" "witness_decode raw = Inr records"
    "(if records \<noteq> [] \<and> py_eq (List.last records) (PDict d) then Inr None
      else ensure (length raw + length encoded + 1 \<le> max_witness_bytes) PaymentWitnessRejected ''payment witness exceeds size limit'' (
        Inr (Some (drop 25 aid, raw @ (if raw \<noteq> [] \<and> List.last raw \<noteq> 10 then [10] else []) @ encoded @ [10])))) = Inr r"
    using assms unfolding witness_change_def witness_stem_def Let_def bindR_Inr_iff ensure_Inr_iff by (auto split: sum.splits)
  show thesis using e(5) by (intro that [OF e(1-4)]) (cases "records \<noteq> [] \<and> py_eq (List.last records) (PDict d)"; simp only: ensure_Inr_iff if_True if_False simp_thms; blast)
qed

lemma witness_append_Inr:
  assumes "witness_append aid d w = (w', Inr ())" "witness_file (drop 25 aid) w = raw"
  obtains encoded records where "attempt_id_ok aid" "canonical_json (PDict d) = Inr encoded" "length encoded \<le> max_record_bytes" "witness_decode raw = Inr records"
    "if records \<noteq> [] \<and> py_eq (List.last records) (PDict d) then w' = w
     else length raw + length encoded + 1 \<le> max_witness_bytes
       \<and> w' = assoc_put (drop 25 aid) (raw @ (if raw \<noteq> [] \<and> List.last raw \<noteq> 10 then [10] else []) @ encoded @ [10]) w"
proof -
  obtain r where r: "witness_change aid d w = Inr r" "w' = (case r of None \<Rightarrow> w | Some (stem, bs) \<Rightarrow> assoc_put stem bs w)"
    using assms(1) by (auto simp: witness_append_def split: sum.splits option.splits prod.splits)
  from r(1) assms(2) show thesis by (rule witness_change_Inr) (rule that, auto simp: r(2) split: if_splits)
qed

lemma witness_decode_lines: "length raw \<le> max_witness_bytes \<Longrightarrow> witness_decode raw = mapR decode_record (journal_lines raw)"
  by (simp add: witness_decode_def journal_lines_def)

lemma witness_append_changes:
  assumes "witness_append aid d w = (w', out)"
  shows "w' = w \<or> attempt_id_ok aid \<and> (\<exists>bs. w' = assoc_put (drop 25 aid) (bs @ [10]) w)"
proof (cases "out = Inr ()")
  case True
  with assms have "witness_append aid d w = (w', Inr ())" by simp
  then show ?thesis by (rule witness_append_Inr [OF _ refl]) (metis append.assoc)
next
  case False
  then show ?thesis using assms by (auto simp: witness_append_def split: sum.splits option.splits)
qed

lemma witness_appended:
  assumes "whole_lines w" "witnessed file_witness aid w as" "plain_anchor a" "witness_append aid (anchor_to_dict a) w = (w', Inr ())"
  shows "\<exists>as'. witnessed file_witness aid w' (as' @ [a]) \<and> (as' = as \<or> as' @ [a] = as)"
proof -
  let ?raw = "witness_file (drop 25 aid) w"
  obtain encoded records where e: "attempt_id_ok aid" "canonical_json (PDict (anchor_to_dict a)) = Inr encoded" "length encoded \<le> max_record_bytes" "witness_decode ?raw = Inr records"
    "if records \<noteq> [] \<and> py_eq (List.last records) (PDict (anchor_to_dict a)) then w' = w
     else length ?raw + length encoded + 1 \<le> max_witness_bytes
       \<and> w' = assoc_put (drop 25 aid) (?raw @ (if ?raw \<noteq> [] \<and> List.last ?raw \<noteq> 10 then [10] else []) @ encoded @ [10]) w"
    using assms(4) by (rule witness_append_Inr [OF _ refl])
  have enc: "encoded = anchor_text a" using e(2) anchor_canonical [OF assms(3)] by simp
  have stem: "witness_stem aid = Inr (drop 25 aid)" using e(1) by (simp add: witness_stem_def)
  have as: "mapR witness_anchor records = Inr as" "list_all plain_anchor as"
    using assms(2) e(4) stem by (auto simp: witnessed_def file_witness_def witness_read_def)
  have whole: "?raw = [] \<or> List.last ?raw = 10" using assms(1) by (auto simp: whole_lines_def witness_file_def split: option.splits)
  show ?thesis
  proof (cases "records \<noteq> [] \<and> py_eq (List.last records) (PDict (anchor_to_dict a))")
    case True
    then obtain rs r where rs: "records = rs @ [r]" by (metis append_butlast_last_id)
    obtain as1 b where b: "mapR witness_anchor rs = Inr as1" "witness_anchor r = Inr b" "as = as1 @ [b]" using as(1) by (auto simp: rs mapR_append bindR_Inr_iff)
    have "b = a" using True equal_record [OF _ b(2) assms(3)] as(2) by (simp add: rs b(3))
    moreover have "w' = w" using e(5) True by simp
    ultimately show ?thesis using assms(2) b(3) by auto
  next
    case False
    then have w': "length ?raw + length encoded + 1 \<le> max_witness_bytes" "w' = assoc_put (drop 25 aid) (?raw @ encoded @ [10]) w" using e(5) whole by auto
    obtain r where r: "decode_record (anchor_text a) = Inr r" "witness_anchor r = Inr a" "anchor_text a \<noteq> []"
      using assms(3) e(3) unfolding enc by (rule anchor_record)
    have "mapR decode_record (journal_lines ?raw) = Inr records" using e(4) w'(1) by (simp add: witness_decode_lines)
    then have "witness_decode (?raw @ encoded @ [10]) = Inr (records @ [r])"
      using w'(1) journal_lines_snoc [OF whole anchor_text_line [OF assms(3)] r(3)] r(1) by (simp add: witness_decode_lines mapR_append enc)
    then have "hw_read file_witness aid w' = Inr (PList (records @ [r]))"
      using stem by (simp add: file_witness_def witness_read_def witness_file_def w'(2))
    moreover have "mapR witness_anchor (records @ [r]) = Inr (as @ [a])" using as(1) r(2) by (simp add: mapR_append)
    ultimately show ?thesis using as(2) assms(3) by (auto simp: witnessed_def)
  qed
qed

lemma witness_append_local:
  assumes "aid' \<noteq> aid" "witness_append aid d w = (w', out)"
  shows "witness_read aid' w' = witness_read aid' w"
proof (cases "attempt_id_ok aid'")
  case True
  then have "drop 25 aid \<noteq> drop 25 aid'" if "attempt_id_ok aid" using assms(1) that attempt_id_split by metis
  then show ?thesis using witness_append_changes [OF assms(2)] True by (auto simp: witness_read_def witness_stem_def witness_file_def)
qed (simp add: witness_read_def witness_stem_def)

interpretation file_log: head_log file_witness whole_lines
proof
  fix aid :: string and w w' as a
  assume "whole_lines w" "witnessed file_witness aid w as" "plain_anchor a" "hw_append file_witness aid (anchor_to_dict a) w = (w', Inr ())"
  then show "\<exists>as'. witnessed file_witness aid w' (as' @ [a]) \<and> (as' = as \<or> as' @ [a] = as)" by (intro witness_appended) (simp_all add: file_witness_def)
next
  fix aid d w w' e
  assume "hw_append file_witness aid d w = (w', Inl e)"
  then show "w' = w" by (auto simp: file_witness_def witness_append_def split: sum.splits option.splits)
next
  fix aid d w w' out
  assume w: "whole_lines w" "hw_append file_witness aid d w = (w', out)"
  then have "w' = w \<or> (\<exists>bs. w' = assoc_put (drop 25 aid) (bs @ [10]) w)" using witness_append_changes [of aid d w w' out] by (auto simp: file_witness_def)
  then show "whole_lines w'" using w(1) whole_lines_put by auto
next
  fix aid' aid :: string and d w w' out
  assume "aid' \<noteq> aid" "hw_append file_witness aid d w = (w', out)"
  then show "hw_read file_witness aid' w' = hw_read file_witness aid' w" using witness_append_local [of aid' aid d w w' out] by (simp add: file_witness_def)
qed

lemma load_missing: "load_attempt n w st stem = Inr None \<longleftrightarrow> map_of (ps_docs st) stem = None"
  by (auto simp: load_attempt_def Let_def reject_def bindR_Inr_iff split: option.splits doc_file.splits pyval.splits if_splits)

text \<open>C24. With the file witness, a rollback of the whole store is not believed: after a complete write of a verified chain, whatever the documents and the head journals are
  replaced with together, loading the attempt raises, or finds no attempt, which it does exactly when its document is missing from the replaced ones (\<open>_load\<close> returns before it
  consults the witness, so a removed document is not reported), or returns a chain; a returned chain that verifies is the written one, event by event up to the order of keys, or
  exhibits a hash collision. So an older verified chain is never returned without a collision.\<close>

theorem payment_witness_detects_rollback:
  assumes "attempt_id_ok aid" "whole_lines (ps_witness st)" "witnessed file_witness aid (ps_witness st) as"
    "persist n (Some file_witness) actor (drop 25 aid) aid events t op st = (st', Inr ())"
    "verify_payment_attempt n now events = Inr (True, m)" "list_all keys_once events"
  shows "let loaded = load_attempt n (Some file_witness) (st'\<lparr>ps_docs := docs, ps_journals := journals\<rparr>) (drop 25 aid) in
     (loaded = Inr None \<longleftrightarrow> map_of docs (drop 25 aid) = None)
     \<and> (\<forall>found now' m'. loaded = Inr (Some found) \<and> verify_payment_attempt n now' found = Inr (True, m') \<and> list_all keys_once found \<longrightarrow>
          list_all2 (\<lambda>x y. canon x = canon y) found events \<or> (\<exists>x \<in> set found. \<exists>y \<in> set events. sha_collision (event_bytes x) (event_bytes y)))"
  unfolding Let_def
proof (intro conjI allI impI)
  show "load_attempt n (Some file_witness) (st'\<lparr>ps_docs := docs, ps_journals := journals\<rparr>) (drop 25 aid) = Inr None \<longleftrightarrow> map_of docs (drop 25 aid) = None"
    by (simp add: load_missing)
qed (elim conjE, rule file_log.rollback_witnessed [OF assms(1-4) _ assms(5) _ assms(6)])

section \<open>A witnessed write\<close>

lemma sequence_source: "anchor_sequence n aid did src ph pr t as = Inr () \<Longrightarrow> anchor_sequence n aid did src' ph pr t as = Inr ()"
  by (induction as arbitrary: ph pr t) (auto simp: reject_def bindR_Inr_iff Let_def split: if_splits option.splits)

lemma load_with_witness:
  assumes "attempt_id_ok aid" "keeps n aid did st as (Some events)" "did \<noteq> []" "witnessed W aid (ps_witness st) as"
  shows "load_attempt n (Some W) st (drop 25 aid) = Inr (Some events)"
proof -
  obtain h where h: "map_of (ps_docs st) (drop 25 aid) = Some (Document (document_of aid events h))" "events \<noteq> []" "payment_attempt_event_hash (List.last events) = Inr h"
    "first_actor events = Inr (PStr did)" "as \<noteq> []" "chain_head events h \<in> set (accepted_anchor_heads as)" "journal_is st (drop 25 aid) as" "journal_ok n aid did as"
    using assms(2) by (auto simp: keeps_def)
  have stem: "attempt_stem aid = Inr (drop 25 aid)" using assms(1) by (simp add: attempt_stem_def)
  have "validate_anchor_sequence n as aid did src = Inr as" for src using h(8) sequence_source by (auto simp: journal_ok_def validate_anchor_sequence_def)
  moreover have "read_witness_anchors n W st aid did = validate_anchor_sequence n as aid did ''external''"
    using assms(4) by (auto simp: witnessed_def read_witness_anchors_def)
  ultimately have "validate_anchor n (Some W) st aid events h = Inr ()"
    using read_journal [OF h(7) stem, of n did] h(4-6) assms(3) by (simp add: validate_anchor_def chain_head_def)
  then show ?thesis using load_stored [OF assms(1) h(1-3), of n "Some W"] by simp
qed

lemma witness_append_fits:
  assumes "attempt_id_ok aid" "whole_lines w" "witnessed file_witness aid w as" "plain_anchor a" "length (anchor_text a) \<le> 10000" "length (witness_file (drop 25 aid) w) \<le> 100000"
  obtains w' as' where "witness_append aid (anchor_to_dict a) w = (w', Inr ())" "whole_lines w'" "witnessed file_witness aid w' (as' @ [a])" "as' = as \<or> as' @ [a] = as"
    "length (witness_file (drop 25 aid) w') \<le> length (witness_file (drop 25 aid) w) + 10001"
proof -
  let ?raw = "witness_file (drop 25 aid) w"
  have stem: "witness_stem aid = Inr (drop 25 aid)" using assms(1) by (simp add: witness_stem_def)
  obtain records where r: "witness_decode ?raw = Inr records" using assms(3) stem by (auto simp: witnessed_def file_witness_def witness_read_def bindR_Inr_iff)
  have whole: "?raw = [] \<or> List.last ?raw = 10" using assms(2) by (auto simp: whole_lines_def witness_file_def split: option.splits)
  have size: "length (anchor_text a) \<le> max_record_bytes" "length ?raw + length (anchor_text a) + 1 \<le> max_witness_bytes"
    using assms(5,6) by (simp_all add: max_record_bytes_def max_witness_bytes_def)
  let ?w = "if records \<noteq> [] \<and> py_eq (List.last records) (PDict (anchor_to_dict a)) then w else assoc_put (drop 25 aid) (?raw @ anchor_text a @ [10]) w"
  have "witness_append aid (anchor_to_dict a) w = (?w, Inr ())"
    using whole size by (auto simp: witness_append_def witness_change_def stem anchor_canonical [OF assms(4)] r)
  moreover from this obtain as' where "witnessed file_witness aid ?w (as' @ [a])" "as' = as \<or> as' @ [a] = as" using witness_appended [OF assms(2-4)] by blast
  moreover have "whole_lines ?w" using assms(2) whole_lines_put [of w _ "?raw @ anchor_text a"] by simp
  moreover have "length (witness_file (drop 25 aid) ?w) \<le> length ?raw + 10001" using assms(5) by (simp add: witness_file_def)
  ultimately show thesis using that by blast
qed

lemma append_anchor_keeps: "append_anchor a st = (st', out) \<Longrightarrow> append_anchor a (st\<lparr>ps_witness := w\<rparr>) = (st'\<lparr>ps_witness := w\<rparr>, out)"
  by (auto simp: append_anchor_def split: sum.splits prod.splits)

lemma witnessed_persist:
  assumes "attempt_id_ok aid" "signed_write n actor aid events t op ws did h sp sc" "as_did actor = Inr did" "run_writes ws st = (st', Inr ())"
    "ps_witness st = ([] :: witness_files)" "length (anchor_text (anchor_for ''prepared'' op aid events h did t sp)) \<le> 10000"
    "length (anchor_text (anchor_for ''committed'' op aid events h did t sc)) \<le> 10000"
  obtains w where "persist n (Some file_witness) actor (drop 25 aid) aid events t op st = (st'\<lparr>ps_witness := w\<rparr>, Inr ())"
    "witnessed file_witness aid w [anchor_for ''prepared'' op aid events h did t sp, anchor_for ''committed'' op aid events h did t sc]"
proof -
  let ?p = "anchor_for ''prepared'' op aid events h did t sp" and ?c = "anchor_for ''committed'' op aid events h did t sc"
  let ?np = "new_anchor ''prepared'' op aid (length events - 1) h did t" and ?nc = "new_anchor ''committed'' op aid (length events - 1) h did t"
  have s: "events \<noteq> []" "payment_attempt_event_hash (List.last events) = Inr h" "sign_anchor n actor ?np = Inr ?p" "sign_anchor n actor ?nc = Inr ?c"
    and ws: "ws = [with_signed n actor ?np append_anchor, with_signed n actor ?np (append_witness None), write_document (drop 25 aid) (document_of aid events h),
       with_signed n actor ?nc append_anchor, with_signed n actor ?nc (append_witness None)]"
    using assms(2) unfolding signed_write_def by blast+
  obtain s1 s2 where r: "append_anchor ?p st = (s1, Inr ())" "write_document (drop 25 aid) (document_of aid events h) s1 = (s2, Inr ())" "append_anchor ?c s2 = (st', Inr ())"
    using assms(4) unfolding ws run_writes_Cons with_signed_def s(3,4) sum.case append_witness_def option.case run_writes.simps(1) by auto
  have e: "witnessed file_witness aid [] []" "whole_lines []" "length (witness_file (drop 25 aid) []) \<le> 100000"
    using assms(1) by (simp_all add: witnessed_def file_witness_def witness_read_def witness_stem_def witness_file_def witness_decode_def whole_lines_def)
  obtain w1 as1 where w1: "witness_append aid (anchor_to_dict ?p) [] = (w1, Inr ())" "whole_lines w1" "witnessed file_witness aid w1 (as1 @ [?p])" "as1 = [] \<or> as1 @ [?p] = []"
    "length (witness_file (drop 25 aid) w1) \<le> length (witness_file (drop 25 aid) []) + 10001"
    by (rule witness_append_fits [OF assms(1) e(2,1) anchor_for_simps(5) assms(6) e(3)])
  have p1: "witnessed file_witness aid w1 [?p]" using w1(3,4) by auto
  have l1: "length (witness_file (drop 25 aid) w1) \<le> 100000" using w1(5) by (simp add: witness_file_def)
  obtain w2 as2 where w2: "witness_append aid (anchor_to_dict ?c) w1 = (w2, Inr ())" "witnessed file_witness aid w2 (as2 @ [?c])" "as2 = [?p] \<or> as2 @ [?c] = [?p]"
    by (rule witness_append_fits [OF assms(1) w1(2) p1 anchor_for_simps(5) assms(7) l1])
  have "?c \<noteq> ?p" by (rule notI, drule arg_cong [of _ _ an_phase]) simp
  then have as2: "as2 = [?p]" using w2(3) by auto
  have w0: "ps_witness s1 = []" using append_anchor_witness [OF r(1)] assms(5) by simp
  have a1: "append_witness (Some file_witness) ?p s1 = (s1\<lparr>ps_witness := w1\<rparr>, Inr ())" using w1(1) w0 by (simp add: append_witness_def file_witness_def)
  have d: "write_document (drop 25 aid) (document_of aid events h) (s1\<lparr>ps_witness := w1\<rparr>) = (s2\<lparr>ps_witness := w1\<rparr>, Inr ())" using r(2) by (auto simp: write_document_def)
  have a2: "append_anchor ?c (s2\<lparr>ps_witness := w1\<rparr>) = (st'\<lparr>ps_witness := w1\<rparr>, Inr ())" using r(3) by (rule append_anchor_keeps)
  have a3: "append_witness (Some file_witness) ?c (st'\<lparr>ps_witness := w1\<rparr>) = (st'\<lparr>ps_witness := w2\<rparr>, Inr ())" using w2(1) by (simp add: append_witness_def file_witness_def)
  have "persist n (Some file_witness) actor (drop 25 aid) aid events t op st = (st'\<lparr>ps_witness := w2\<rparr>, Inr ())"
    using s(1,2) assms(3) by (simp add: persist_def persist_writes_def attempt_document_def document_of_def [symmetric] with_signed_def s(3,4) [simplified] r(1) a1 d a2 a3)
  then show thesis using that w2(2) as2 by simp
qed

definition witnessed_payments :: "witness_files payment_store" where
  "witnessed_payments = \<lparr>ps_docs = [], ps_journals = [], ps_witness = []\<rparr>"

lemma witnessed_pay:
  obtains e0 st' where "verify_payment_attempt demo_nacl 10 [e0] = Inr (True, ''ok'')" "keys_once e0"
    "persist demo_nacl (Some file_witness) (demo_identity 1) (drop 25 pay_key) pay_key [e0] 5 op1 witnessed_payments = (st', Inr ())"
    "load_attempt demo_nacl (Some file_witness) st' (drop 25 pay_key) = Inr (Some [e0])"
proof -
  obtain d e0 where c: "modest 60000 (PDict (pay_event_to_dict e0))"
    "run_of demo_nacl 10 [PDict (pay_event_to_dict e0)] (fresh_state pay_intent pay_key 1) (fresh_state pay_intent pay_key 1)"
    "first_actor [PDict (pay_event_to_dict e0)] = Inr (PStr (demo_did 1))" by (rule pay_created)
  let ?e0 = "PDict (pay_event_to_dict e0)"
  obtain h where h: "payment_attempt_event_hash ?e0 = Inr h" using c(1) by (rule modest_hash)
  have v: "verify_payment_attempt demo_nacl 10 [?e0] = Inr (True, ''ok'')" using run_verifies [OF c(2)] c(1) by simp
  have k: "keys_once ?e0" using c(1) wf_keys_once(1) by (simp add: modest_def del: wf_json.simps keys_once.simps)
  have hyps: "[?e0] \<noteq> []" "payment_attempt_event_hash (List.last [?e0]) = Inr h" "length [?e0] \<le> 90" "short_stamp 5" "journal_is witnessed_payments (drop 25 pay_key) []" "length (journal_bytes []) \<le> 400000"
    using h by (simp_all add: short_stamp_def witnessed_payments_def journal_is_def max_anchor_file_bytes_def)
  have fit: "document_fits pay_key [?e0]" using modest_fits [of "[?e0]" pay_key] c(1) pay_key(2) by simp
  have disk: "attempt_disk demo_nacl (demo_identity 1) pay_key witnessed_payments 0 []" by (rule attempt_disk.empty) (simp_all add: witnessed_payments_def)
  obtain ws st' where w: "own_write demo_nacl (demo_identity 1) pay_key [?e0] 5 op1 ws" "run_writes ws witnessed_payments = (st', Inr ())"
    "persist demo_nacl None (demo_identity 1) (drop 25 pay_key) pay_key [?e0] 5 op1 witnessed_payments = (st', Inr ())"
    by (rule own_write_succeeds [OF demo_nacl_ok demo_signer pay_key(2) demo_did(1) hyps(1,2) c(3) ops_ok(1) hyps(4,3) fit hyps(5,6)])
  obtain h' sp sc where s: "signed_write demo_nacl (demo_identity 1) pay_key [?e0] 5 op1 ws (demo_did 1) h' sp sc"
    by (rule own_write_signed [OF demo_nacl_ok demo_signer pay_key(2) w(1) demo_did(1)])
  let ?p = "anchor_for ''prepared'' op1 pay_key [?e0] h' (demo_did 1) 5 sp" and ?c = "anchor_for ''committed'' op1 pay_key [?e0] h' (demo_did 1) 5 sc"
  have sg: "sign_anchor demo_nacl (demo_identity 1) (new_anchor ''prepared'' op1 pay_key (length [?e0] - 1) h' (demo_did 1) 5) = Inr ?p"
    "sign_anchor demo_nacl (demo_identity 1) (new_anchor ''committed'' op1 pay_key (length [?e0] - 1) h' (demo_did 1) 5) = Inr ?c" "h' = h"
    using s h unfolding signed_write_def by auto
  have l: "length op1 \<le> 32" "length h' \<le> 128" using h sg(3) by (auto simp: op1_def payment_attempt_event_hash_def bindR_Inr_iff)
  have sizes: "length (anchor_text ?p) \<le> 10000" "length (anchor_text ?c) \<le> 10000"
    by (rule anchor_size [OF demo_nacl_ok demo_signer demo_did(1) sg(1) _ l(1) pay_key(3) l(2) hyps(3,4)], simp)
      (rule anchor_size [OF demo_nacl_ok demo_signer demo_did(1) sg(2) _ l(1) pay_key(3) l(2) hyps(3,4)], simp)
  have parts: "journal_is st' (drop 25 pay_key) [?p, ?c]" "map_of (ps_docs st') (drop 25 pay_key) = Some (Document (document_of pay_key [?e0] h'))"
    using all_parts [OF hyps(5) pay_key(2) s w(2)] by simp_all
  have "load_attempt demo_nacl None st' (drop 25 pay_key) = Inr (Some [?e0])"
    by (rule persist_loads(1) [OF demo_nacl_ok demo_signer pay_key(2) disk _ _ ops_ok(1) _ demo_did(1) fit c(3) w(3)]) simp_all
  then have "keeps demo_nacl pay_key (demo_did 1) st' [?p, ?c] (Some [?e0])"
    using load_document [OF pay_key(2) parts(2) hyps(1) _ c(3) demo_did(3) parts(1)] parts h c(3) sg(3)
    by (auto simp: keeps_def journal_ok_def bindR_Inr_iff ensure_Inr_iff)
  moreover obtain wf where p: "persist demo_nacl (Some file_witness) (demo_identity 1) (drop 25 pay_key) pay_key [?e0] 5 op1 witnessed_payments = (st'\<lparr>ps_witness := wf\<rparr>, Inr ())"
    "witnessed file_witness pay_key wf [?p, ?c]"
    by (rule witnessed_persist [OF pay_key(2) s demo_did(1) w(2) _ sizes]) (simp_all add: witnessed_payments_def)
  ultimately have "load_attempt demo_nacl (Some file_witness) (st'\<lparr>ps_witness := wf\<rparr>) (drop 25 pay_key) = Inr (Some [?e0])"
    by (intro load_with_witness [OF pay_key(2) _ demo_did(3) [of 1], of _ _ "[?p, ?c]"]) (simp_all add: keeps_def journal_is_def)
  then show thesis using that [OF v k p(1)] by simp
qed

theorem payment_witness_detects_rollback_witness:
  "\<exists>e0 st'. persist demo_nacl (Some file_witness) (demo_identity 1) (drop 25 pay_key) pay_key [e0] 5 op1 witnessed_payments = (st', Inr ())
     \<and> load_attempt demo_nacl (Some file_witness) st' (drop 25 pay_key) = Inr (Some [e0])
     \<and> (list_all2 (\<lambda>x y. canon x = canon y) [e0] [e0] \<or> (\<exists>x \<in> set [e0]. \<exists>y \<in> set [e0]. sha_collision (event_bytes x) (event_bytes y)))"
proof -
  obtain e0 st' where w: "verify_payment_attempt demo_nacl 10 [e0] = Inr (True, ''ok'')" "keys_once e0"
    "persist demo_nacl (Some file_witness) (demo_identity 1) (drop 25 pay_key) pay_key [e0] 5 op1 witnessed_payments = (st', Inr ())"
    "load_attempt demo_nacl (Some file_witness) st' (drop 25 pay_key) = Inr (Some [e0])" by (rule witnessed_pay)
  have e: "whole_lines (ps_witness witnessed_payments)" "witnessed file_witness pay_key (ps_witness witnessed_payments) []"
    using pay_key(2) by (simp_all add: witnessed_payments_def witnessed_def file_witness_def witness_read_def witness_stem_def witness_file_def witness_decode_def whole_lines_def)
  have l: "load_attempt demo_nacl (Some file_witness) (st'\<lparr>ps_docs := ps_docs st', ps_journals := ps_journals st'\<rparr>) (drop 25 pay_key) = Inr (Some [e0])" using w(4) by simp
  have ks: "list_all keys_once [e0]" using w(2) by simp
  from payment_witness_detects_rollback [OF pay_key(2) e w(3,1) ks, unfolded Let_def, THEN conjunct2, rule_format, OF conjI [OF l conjI [OF w(1) ks]]] w(3,4) show ?thesis by blast
qed

end
