(* ===== verification/Trade_Binding.thy ===== *)
theory Trade_Binding
  imports Trade_Run Receipt Announcement
begin

text \<open>
  \<open>nth_dao/commerce/binding.py\<close> and \<open>nth_dao/commerce/verifier.py\<close>: the check that a trade rests on a signed announcement and a signed claim, and the deterministic acceptance of a
  test execution. A chain that verifies and is bound pays the announced reward to the agent that signed the claim; a test execution is accepted for one announcement only.
\<close>

section \<open>Binding a trade to the market\<close>

definition task_claimed_type :: string where
  "task_claimed_type = ''nth.task_claimed''"

text \<open>The payload of the first entry of the given type whose payload is an object, and the loop over the timeline of a receipt.\<close>

fun entry_payload :: "string \<Rightarrow> pyval list \<Rightarrow> pydict option" where
  "entry_payload ty [] = None"
| "entry_payload ty (e # es) = (case e of
     PDict d \<Rightarrow> (if dget_or d ''type'' PNone = PStr ty then (case dget_or d ''payload'' PNone of PDict p \<Rightarrow> Some p | _ \<Rightarrow> entry_payload ty es) else entry_payload ty es)
   | _ \<Rightarrow> entry_payload ty es)"

definition timeline_payload :: "string \<Rightarrow> pydict \<Rightarrow> pydict option" where
  "timeline_payload ty receipt = (case dget_or receipt ''timeline'' PNone of PList entries \<Rightarrow> entry_payload ty entries | _ \<Rightarrow> None)"

definition claimed_payload :: "pydict \<Rightarrow> pydict" where
  "claimed_payload receipt = (case timeline_payload task_claimed_type receipt of Some p \<Rightarrow> p | None \<Rightarrow> [])"

definition str_field :: "pydict \<Rightarrow> string \<Rightarrow> string" where
  "str_field d k = py_str (dget_or d k (PStr []))"

definition binding_terms :: "announcement \<Rightarrow> pydict \<Rightarrow> bool \<Rightarrow> (bool \<times> string) res" where
  "binding_terms a op require_terms = (case dget_or op ''terms'' PNone of
     PDict terms \<Rightarrow>
       (let amount = dget_or terms ''amount_minor'' PNone in
        if strict_int amount = None \<or> \<not> py_eq amount (an_reward_minor a) then Inr (False, ''binding-terms-reward-mismatch'')
        else if str_field terms ''currency'' \<noteq> py_str (an_reward_asset a) then Inr (False, ''binding-terms-asset-mismatch'')
        else if str_field terms ''payee_did'' \<noteq> str_field op ''claimant_did'' then Inr (False, ''binding-terms-payee-mismatch'')
        else Inr (True, []))
   | _ \<Rightarrow>
       if require_terms then bindR (int_below 0 (an_reward_minor a)) (\<lambda>paid. Inr (if paid then (False, ''binding-terms-required'') else (True, [])))
       else Inr (True, []))"

definition verify_trade_binding :: "nacl \<Rightarrow> (string \<Rightarrow> int res) \<Rightarrow> int \<Rightarrow> pyval list \<Rightarrow> announcement \<Rightarrow> pyval \<Rightarrow> bool \<Rightarrow> (bool \<times> string) res" where
  "verify_trade_binding n iso_ms now trade_events a claim_record require_terms = (case trade_events of
     PDict opened # _ \<Rightarrow>
       if dget_or opened ''type'' PNone \<noteq> PStr ''trade_opened'' then Inr (False, ''binding-no-opened-event'')
       else (let op = (case dget_or opened ''payload'' PNone of PDict p \<Rightarrow> p | _ \<Rightarrow> []) in
         if PStr (str_field op ''announcement_id'') \<noteq> an_id a then Inr (False, ''binding-announcement-id-mismatch'')
         else bindR (verify_announcement n a) (\<lambda>(ok, _).
           if \<not> ok then Inr (False, ''binding-announcement-sig-invalid'')
           else if PStr (str_field op ''publisher_did'') \<noteq> an_publisher_did a then Inr (False, ''binding-publisher-mismatch'')
           else (case claim_record of
             PDict rcd \<Rightarrow>
               (case dget_or rcd ''receipt'' PNone of
                 PDict receipt \<Rightarrow> bindR (verify_receipt n iso_ms now receipt []) (\<lambda>valid.
                   if \<not> valid then Inr (False, ''binding-claim-receipt-invalid'')
                   else (let claim_signer = str_field receipt ''signer_did''; claimed = claimed_payload receipt in
                     if str_field op ''claimant_did'' \<noteq> claim_signer then Inr (False, ''binding-claimant-mismatch'')
                     else if PStr (str_field claimed ''announcement_id'') \<noteq> an_id a then Inr (False, ''binding-claim-announcement-mismatch'')
                     else if str_field claimed ''claimant_did'' \<noteq> claim_signer then Inr (False, ''binding-claim-signer-mismatch'')
                     else if str_field op ''claim_receipt_id'' \<noteq> str_field rcd ''receipt_id'' then Inr (False, ''binding-claim-receipt-id-mismatch'')
                     else binding_terms a op require_terms))
               | _ \<Rightarrow> Inr (False, ''binding-claim-receipt-invalid''))
           | _ \<Rightarrow> Inr (False, ''binding-claim-receipt-invalid''))))
   | _ \<Rightarrow> Inr (False, ''binding-no-opened-event''))"

section \<open>Deterministic acceptance of a test execution\<close>

definition sku_test_execution :: string where
  "sku_test_execution = ''nth.test-execution.v1''"

definition test_execution_type :: string where
  "test_execution_type = ''nth.test_execution''"

record verification_outcome =
  vo_verdict :: string
  vo_reason :: string
  vo_checks :: pydict

definition passed :: "verification_outcome \<Rightarrow> bool" where
  "passed out \<longleftrightarrow> vo_verdict out = ''pass''"

definition execution_payload :: "string \<Rightarrow> string \<Rightarrow> string \<Rightarrow> int \<Rightarrow> string \<Rightarrow> string \<Rightarrow> string \<Rightarrow> string \<Rightarrow> int \<Rightarrow> pydict" where
  "execution_payload repository_url commit command exit_code stdout_digest stderr_digest environment_digest announcement_id ran_at = obj
     [(''sku'', PStr sku_test_execution), (''repository_url'', PStr repository_url), (''commit'', PStr commit), (''command'', PStr command), (''exit_code'', PInt exit_code),
      (''stdout_digest'', PStr stdout_digest), (''stderr_digest'', PStr stderr_digest), (''environment_digest'', PStr environment_digest),
      (''announcement_id'', PStr announcement_id), (''ran_at_ms'', PInt ran_at)]"

definition sign_test_execution_receipt :: "nacl \<Rightarrow> identity \<Rightarrow> string \<Rightarrow> string \<Rightarrow> string \<Rightarrow> int \<Rightarrow> string \<Rightarrow> string \<Rightarrow> string \<Rightarrow> string \<Rightarrow> int \<Rightarrow> int \<Rightarrow> string \<Rightarrow> string \<Rightarrow> int
    \<Rightarrow> pydict res" where
  "sign_test_execution_receipt n worker repository_url commit command exit_code stdout_digest stderr_digest environment_digest announcement_id ran_at stamped_at fresh_id issued_at now =
     bindR (timeline_entry_new stamped_at test_execution_type
       (execution_payload repository_url commit command exit_code stdout_digest stderr_digest environment_digest announcement_id ran_at)) (\<lambda>e.
     sign_receipt n [e] worker (''sku:'' @ sku_test_execution) [] [] None fresh_id issued_at now)"

definition test_execution_payload :: "pydict \<Rightarrow> pydict option" where
  "test_execution_payload receipt = timeline_payload test_execution_type receipt"

text \<open>\<open>x in c\<close>: elements of a list, keys of a dict, parts of a text (which needs text on the left).\<close>

definition py_in :: "pyval \<Rightarrow> pyval \<Rightarrow> bool res" where
  "py_in x c = (case c of
     PList xs \<Rightarrow> Inr (list_ex (py_eq x) xs)
   | PDict d \<Rightarrow> (if hashable x then Inr (list_ex (\<lambda>(k, _). py_eq x k) d) else raise TypeError ''unhashable type'')
   | PStr s \<Rightarrow> (case x of PStr p \<Rightarrow> Inr (contains s p) | _ \<Rightarrow> raise TypeError ''requires string as left operand'')
   | _ \<Rightarrow> raise TypeError ''argument is not iterable'')"

text \<open>\<open>(value or {}).get(key, default)\<close>.\<close>

definition get_of :: "pyval \<Rightarrow> string \<Rightarrow> pyval \<Rightarrow> pyval res" where
  "get_of v k x = (if \<not> truthy v then Inr x else case v of PDict d \<Rightarrow> Inr (dget_or d k x) | _ \<Rightarrow> raise AttributeError ''object has no attribute get'')"

definition fails :: "string \<Rightarrow> (string \<times> bool) list \<Rightarrow> verification_outcome" where
  "fails reason checks = \<lparr>vo_verdict = ''fail'', vo_reason = reason, vo_checks = obj (map (\<lambda>(k, b). (k, PBool b)) checks)\<rparr>"

definition verify_test_execution :: "nacl \<Rightarrow> (string \<Rightarrow> int res) \<Rightarrow> int \<Rightarrow> announcement \<Rightarrow> pyval \<Rightarrow> string \<Rightarrow> verification_outcome res" where
  "verify_test_execution n iso_ms now a execution_receipt expected_signer_did =
     bindR (case execution_receipt of PDict r \<Rightarrow> verify_receipt n iso_ms now r [] | _ \<Rightarrow> Inr False) (\<lambda>sig_ok.
     if \<not> sig_ok then Inr (fails ''receipt-sig-invalid'' [(''receipt_sig'', False)])
     else (let r = (case execution_receipt of PDict r \<Rightarrow> r | _ \<Rightarrow> []); c0 = [(''receipt_sig'', True)] in
       if str_field r ''signer_did'' \<noteq> expected_signer_did then Inr (fails ''signer-mismatch'' (c0 @ [(''signer'', False)]))
       else (let c1 = c0 @ [(''signer'', True)] in
         case test_execution_payload r of
           None \<Rightarrow> Inr (fails ''no-test-execution-payload'' (c1 @ [(''payload'', False)]))
         | Some payload \<Rightarrow>
             (let c2 = c1 @ [(''payload'', True)] in
              if \<not> truthy (an_id a) \<or> PStr (str_field payload ''announcement_id'') \<noteq> an_id a
              then Inr (fails ''announcement-id-mismatch'' (c2 @ [(''announcement_id'', False)]))
              else (let c3 = c2 @ [(''announcement_id'', True)] in
                bindR (get_of (an_input_schema a) ''commit'' (PStr [])) (\<lambda>want_commit.
                if py_str want_commit = [] \<or> str_field payload ''commit'' \<noteq> py_str want_commit then Inr (fails ''commit-mismatch'' (c3 @ [(''commit'', False)]))
                else (let c4 = c3 @ [(''commit'', True)] in
                  bindR (get_of (an_input_schema a) ''commands'' (PList [])) (\<lambda>want_commands.
                  bindR (py_in (PStr (str_field payload ''command'')) want_commands) (\<lambda>command_ok.
                  if \<not> command_ok then Inr (fails ''command-mismatch'' (c4 @ [(''command'', False)]))
                  else (let c5 = c4 @ [(''command'', True)] in
                    bindR (get_of (an_acceptance a) ''accept_exit_codes'' (PList [PInt 0])) (\<lambda>accept_codes.
                    let got_exit = dget_or payload ''exit_code'' PNone in
                    bindR (if strict_int got_exit = None then Inr False else py_in got_exit accept_codes) (\<lambda>exit_ok.
                    if \<not> exit_ok then Inr (fails ''exit-code-not-accepted'' (c5 @ [(''exit_code'', False)]))
                    else Inr \<lparr>vo_verdict = ''pass'', vo_reason = [], vo_checks = obj (map (\<lambda>(k, b). (k, PBool b)) (c5 @ [(''exit_code'', True)]))\<rparr>))))))))))))"

section \<open>The signed entry behind a payload\<close>

lemma entry_payload_signed:
  assumes "entry_payload ty entries = Some p" "mapR parse_entry entries = Inr timeline"
  obtains e where "e \<in> set timeline" "te_type e = ty" "te_payload e = p"
  using assms
proof (induction entries arbitrary: timeline thesis)
  case (Cons x xs)
  obtain e es where t: "parse_entry x = Inr e" "mapR parse_entry xs = Inr es" "timeline = e # es" using Cons.prems(3) by (auto simp: bindR_Inr_iff)
  show ?case
  proof (cases "entry_payload ty xs = Some p")
    case True
    show ?thesis by (rule Cons.IH [OF _ True t(2)]) (rule Cons.prems(1), simp_all add: t(3))
  next
    case False
    then obtain d where d: "x = PDict d" "dget_or d ''type'' PNone = PStr ty" "dget_or d ''payload'' PNone = PDict p"
      using Cons.prems(2) by (auto split: pyval.splits if_splits)
    then have "dget d ''type'' = Some (PStr ty)" "dget d ''payload'' = Some (PDict p)" by (auto simp: dget_or_def split: option.splits)
    then have "te_type e = ty" "te_payload e = p" using t(1) d(1)
      by (auto simp: parse_entry_def item_def bindR_Inr_iff dget_or_def py_dict_PDict timeline_entry_new_def ensure_Inr_iff split: option.splits)
    then show ?thesis using Cons.prems(1) [of e] t(3) by simp
  qed
qed simp

lemma payload_signed:
  assumes "timeline_payload ty r = Some p" "receipt_core n r pk timeline"
  obtains e where "e \<in> set timeline" "te_type e = ty" "te_payload e = p"
proof -
  obtain entries where e: "dget r ''timeline'' = Some (PList entries)" "mapR parse_entry entries = Inr timeline" using assms(2) by (auto simp: receipt_core_def)
  then have "entry_payload ty entries = Some p" using assms(1) by (simp add: timeline_payload_def dget_or_def)
  then show thesis using e(2) that by (rule entry_payload_signed)
qed

section \<open>What a bound trade guarantees\<close>

lemma bound_tradeE:
  assumes "verify_trade_binding n iso_ms now events a claim require_terms = Inr (True, m)"
  obtains opened rest op rcd receipt aid pk timeline e where "events = PDict opened # rest" "op = (case dget_or opened ''payload'' PNone of PDict p \<Rightarrow> p | _ \<Rightarrow> [])"
    "an_id a = PStr aid" "aid \<noteq> []" "\<exists>r. verify_announcement n a = Inr (True, r)" "an_publisher_did a = PStr (str_field op ''publisher_did'')"
    "claim = PDict rcd" "dget rcd ''receipt'' = Some (PDict receipt)" "receipt_core n receipt pk timeline" "decode_ed25519_did_key (str_field op ''claimant_did'') = Inr pk"
    "e \<in> set timeline" "te_type e = task_claimed_type" "str_field (te_payload e) ''announcement_id'' = aid" "str_field (te_payload e) ''claimant_did'' = str_field op ''claimant_did''"
    "binding_terms a op require_terms = Inr (True, m)"
proof -
  obtain opened rest where ev: "events = PDict opened # rest" using assms by (auto simp: verify_trade_binding_def split: list.splits pyval.splits)
  define op where "op = (case dget_or opened ''payload'' PNone of PDict p \<Rightarrow> p | _ \<Rightarrow> [])"
  note v = assms [unfolded verify_trade_binding_def ev list.case pyval.case op_def [symmetric] Let_def]
  have aid: "an_id a = PStr (str_field op ''announcement_id'')" using v by (auto split: if_splits)
  obtain r where ann: "verify_announcement n a = Inr (True, r)" using v by (auto simp: bindR_Inr_iff split: if_splits)
  note v = v [simplified aid ann, simplified]
  have pub: "an_publisher_did a = PStr (str_field op ''publisher_did'')" using v by (auto split: if_splits)
  obtain rcd receipt where rec: "claim = PDict rcd" "dget rcd ''receipt'' = Some (PDict receipt)"
    using v by (auto simp: dget_or_def split: if_splits pyval.splits option.splits)
  have valid: "verify_receipt n iso_ms now receipt [] = Inr True"
    and signer: "str_field op ''claimant_did'' = str_field receipt ''signer_did''"
    and claimed: "str_field (claimed_payload receipt) ''announcement_id'' = str_field op ''announcement_id''" "str_field (claimed_payload receipt) ''claimant_did'' = str_field receipt ''signer_did''"
    and terms: "binding_terms a op require_terms = Inr (True, m)"
    using v by (auto simp: rec dget_or_def bindR_Inr_iff split: if_splits)
  obtain pk timeline where core: "receipt_core n receipt pk timeline" using verify_receipt_core [OF valid] by blast
  then obtain did where did: "dget receipt ''signer_did'' = Some (PStr did)" "decode_ed25519_did_key did = Inr pk" by (auto simp: receipt_core_def)
  have sd: "str_field receipt ''signer_did'' = did" using did(1) by (simp add: str_field_def dget_or_def)
  have ne: "str_field op ''announcement_id'' \<noteq> []" using verified_announcementE [OF ann] aid by (auto simp: ann_typed_def)
  then have "claimed_payload receipt \<noteq> []" using claimed(1) by (auto simp: str_field_def dget_or_def)
  then obtain p where p: "timeline_payload task_claimed_type receipt = Some p" "claimed_payload receipt = p" by (auto simp: claimed_payload_def split: option.splits)
  obtain e where "e \<in> set timeline" "te_type e = task_claimed_type" "te_payload e = p" using p(1) core by (rule payload_signed)
  then show thesis using that [OF ev op_def aid ne _ pub rec core _ _ _ _ _ terms] ann did(2) signer sd claimed p(2) by auto
qed

lemma terms_opened:
  assumes "events = PDict opened # rest" "op = (case dget_or opened ''payload'' PNone of PDict p \<Rightarrow> p | _ \<Rightarrow> [])" "trade_terms events = Some t"
  shows "dget op ''terms'' = Some (PDict t)"
proof (cases "dget opened ''payload''")
  case None
  then show ?thesis using assms by (simp add: trade_terms_def dget_or_def)
next
  case (Some v)
  then show ?thesis using assms by (cases v) (auto simp: trade_terms_def dget_or_def split: option.splits pyval.splits)
qed


section \<open>What a passing test execution guarantees\<close>

lemma test_passE:
  assumes "verify_test_execution n iso_ms now a er did = Inr out" "passed out"
  obtains r payload aid commit commands codes i where "er = PDict r" "verify_receipt n iso_ms now r [] = Inr True" "str_field r ''signer_did'' = did" "timeline_payload test_execution_type r = Some payload"
    "an_id a = PStr aid" "aid \<noteq> []" "str_field payload ''announcement_id'' = aid"
    "get_of (an_input_schema a) ''commit'' (PStr []) = Inr commit" "str_field payload ''commit'' = py_str commit" "py_str commit \<noteq> []"
    "get_of (an_input_schema a) ''commands'' (PList []) = Inr commands" "py_in (PStr (str_field payload ''command'')) commands = Inr True"
    "get_of (an_acceptance a) ''accept_exit_codes'' (PList [PInt 0]) = Inr codes" "dget payload ''exit_code'' = Some (PInt i)" "py_in (PInt i) codes = Inr True"
    "list_all (\<lambda>(k, v). v = PBool True) (vo_checks out)"
proof -
  have no: "\<not> passed (fails m cs)" for m cs by (simp add: passed_def fails_def)
  note v = assms(1) [unfolded verify_test_execution_def Let_def]
  obtain r where r: "er = PDict r" "verify_receipt n iso_ms now r [] = Inr True" using v assms(2) no by (auto simp: bindR_Inr_iff split: pyval.splits if_splits)
  note v = v [unfolded r(1) pyval.case r(2) bindR_simps]
  have s: "str_field r ''signer_did'' = did" using v assms(2) no by (auto split: if_splits)
  obtain payload where p: "timeline_payload test_execution_type r = Some payload" using v assms(2) no s by (auto simp: test_execution_payload_def split: option.splits)
  note v = v [unfolded test_execution_payload_def p option.case, simplified s, simplified]
  have aid: "truthy (an_id a)" "an_id a = PStr (str_field payload ''announcement_id'')" using v assms(2) no by (auto split: if_splits)
  note v = v [simplified aid(1), simplified aid(2), simplified]
  obtain commit where c: "get_of (an_input_schema a) ''commit'' (PStr []) = Inr commit" using v by (auto simp: bindR_Inr_iff)
  note v = v [unfolded c bindR_simps]
  have cm: "str_field payload ''commit'' = py_str commit" "py_str commit \<noteq> []" using v assms(2) no by (auto split: if_splits)
  note v = v [simplified cm, simplified]
  obtain commands where co: "get_of (an_input_schema a) ''commands'' (PList []) = Inr commands" "py_in (PStr (str_field payload ''command'')) commands = Inr True"
    using v assms(2) no by (auto simp: bindR_Inr_iff split: if_splits)
  note v = v [unfolded co bindR_simps, simplified]
  obtain codes i where x: "get_of (an_acceptance a) ''accept_exit_codes'' (PList [PInt 0]) = Inr codes" "dget_or payload ''exit_code'' PNone = PInt i" "py_in (PInt i) codes = Inr True"
    using v assms(2) no by (auto simp: bindR_Inr_iff strict_int_def split: if_splits pyval.splits)
  then have "dget payload ''exit_code'' = Some (PInt i)" by (auto simp: dget_or_def split: option.splits)
  moreover have "list_all (\<lambda>(k, v). v = PBool True) (vo_checks out)" using v x by (auto simp: strict_int_def obj_def)
  ultimately show thesis using that [OF r s p aid(2) _ refl c cm co x(1) _ x(3)] aid by auto
qed

text \<open>C10. A test execution that is accepted is the worker's own and counts once: the verdict passes only for a receipt whose timeline the expected worker signed and
  that names this announcement, its commit, one of its commands and an accepted exit code; all listed checks are true, and the same receipt passes for no
  announcement with another identifier, so that work done once is not sold twice.\<close>

theorem test_verdict_sound:
  assumes "verify_test_execution n iso_ms now a er did = Inr out" "passed out"
  shows "(\<exists>r pk timeline e aid commit commands codes i. er = PDict r \<and> decode_ed25519_did_key did = Inr pk \<and> receipt_core n r pk timeline
     \<and> e \<in> set timeline \<and> te_type e = ''nth.test_execution'' \<and> an_id a = PStr aid \<and> str_field (te_payload e) ''announcement_id'' = aid
     \<and> get_of (an_input_schema a) ''commit'' (PStr []) = Inr commit \<and> py_str commit \<noteq> [] \<and> str_field (te_payload e) ''commit'' = py_str commit
     \<and> get_of (an_input_schema a) ''commands'' (PList []) = Inr commands \<and> py_in (PStr (str_field (te_payload e) ''command'')) commands = Inr True
     \<and> get_of (an_acceptance a) ''accept_exit_codes'' (PList [PInt 0]) = Inr codes \<and> dget (te_payload e) ''exit_code'' = Some (PInt i) \<and> py_in (PInt i) codes = Inr True)
   \<and> list_all (\<lambda>(k, v). v = PBool True) (vo_checks out)
   \<and> (\<forall>now' b did' out'. verify_test_execution n iso_ms now' b er did' = Inr out' \<and> passed out' \<longrightarrow> an_id b = an_id a)"
proof -
  obtain r payload aid commit commands codes i where p: "er = PDict r" "verify_receipt n iso_ms now r [] = Inr True" "str_field r ''signer_did'' = did" "timeline_payload test_execution_type r = Some payload"
    "an_id a = PStr aid" "aid \<noteq> []" "str_field payload ''announcement_id'' = aid"
    "get_of (an_input_schema a) ''commit'' (PStr []) = Inr commit" "str_field payload ''commit'' = py_str commit" "py_str commit \<noteq> []"
    "get_of (an_input_schema a) ''commands'' (PList []) = Inr commands" "py_in (PStr (str_field payload ''command'')) commands = Inr True"
    "get_of (an_acceptance a) ''accept_exit_codes'' (PList [PInt 0]) = Inr codes" "dget payload ''exit_code'' = Some (PInt i)" "py_in (PInt i) codes = Inr True"
    "list_all (\<lambda>(k, v). v = PBool True) (vo_checks out)"
    using assms by (rule test_passE)
  obtain pk timeline where core: "receipt_core n r pk timeline" using verify_receipt_core [OF p(2)] by blast
  then have did: "decode_ed25519_did_key did = Inr pk" using p(3) by (auto simp: receipt_core_def str_field_def dget_or_def)
  obtain e where "e \<in> set timeline" "te_type e = test_execution_type" "te_payload e = payload" using p(4) core by (rule payload_signed)
  moreover have "an_id b = an_id a" if "verify_test_execution n iso_ms now' b er did' = Inr out'" "passed out'" for now' b did' out'
    using that by (rule test_passE) (use p in auto)
  ultimately show ?thesis using p core did by (auto simp: test_execution_type_def)
qed

text \<open>An honest worker's run is accepted: the receipt that a worker signs for the announced commit, one of the announced commands and an accepted exit code is made without an error
  and passes the check of the announcement at every later time.\<close>

lemma honest_test_accepted:
  assumes "ed25519_ok n" "signer_ok n worker" "as_did worker = Inr did" "0 \<le> stamped_at" "0 \<le> now" "an_id a = PStr aid" "aid \<noteq> []"
    "an_input_schema a = PDict schema" "dget schema ''commit'' = Some (PStr commit)" "commit \<noteq> []" "dget schema ''commands'' = Some (PList commands)" "PStr command \<in> set commands"
    "get_of (an_acceptance a) ''accept_exit_codes'' (PList [PInt 0]) = Inr (PList codes)" "PInt exit_code \<in> set codes"
  shows "\<exists>r out. sign_test_execution_receipt n worker repo commit command exit_code so se env aid ran_at stamped_at fresh issued_at now = Inr r
     \<and> verify_test_execution n iso_ms clock a (PDict r) did = Inr out \<and> passed out"
proof -
  define p where "p = execution_payload repo commit command exit_code so se env aid ran_at"
  let ?e = "\<lparr>te_timestamp = stamped_at, te_type = test_execution_type, te_payload = p\<rparr>"
  have wf: "wf_json (PDict p)" by (simp add: p_def execution_payload_def obj_def is_str_def)
  obtain r where r: "sign_receipt n [?e] worker (''sku:'' @ sku_test_execution) [] [] None fresh issued_at now = Inr r"
    using sign_receipt_total [OF assms(1,2), of "[?e]" "''sku:'' @ sku_test_execution" "[]" None fresh issued_at now] wf by (auto simp del: wf_json.simps)
  then have s: "sign_test_execution_receipt n worker repo commit command exit_code so se env aid ran_at stamped_at fresh issued_at now = Inr r"
    using assms(4) by (simp add: sign_test_execution_receipt_def timeline_entry_new_def test_execution_type_def p_def)
  have ok: "list_all entry_ok [?e]" using assms(4) by (simp add: entry_ok_def test_execution_type_def)
  have v: "verify_receipt n iso_ms clock r [] = Inr True" by (rule signed_receipt_verifies [OF assms(1,2) ok assms(5) r]) simp
  obtain pk ts where f: "chain_linked [?e] [] now = Inr ts" "as_did worker = Inr (the_str (dget r ''signer_did''))" "receipt_core n r pk ts"
    "dget r ''timeline'' = Some (PList (map (\<lambda>e. PDict (entry_to_dict e)) ts))"
    by (rule signed_receipt_fields [OF assms(1,2) ok assms(5) r])
  then have did: "str_field r ''signer_did'' = did" using assms(3) by (auto simp: receipt_core_def str_field_def dget_or_def)
  have "timeline_payload test_execution_type r = Some p" using f(1,4) by (auto simp: chain_linked_def timeline_payload_def dget_or_def entry_to_dict_def obj_def)
  then have p: "test_execution_payload r = Some p" by (simp add: test_execution_payload_def)
  have g: "get_of (an_input_schema a) ''commit'' (PStr []) = Inr (PStr commit)" "get_of (an_input_schema a) ''commands'' (PList []) = Inr (PList commands)"
    using assms(8,9,11) by (auto simp: get_of_def dget_or_def dget_def)
  have i: "py_in (PStr command) (PList commands) = Inr True" "py_in (PInt exit_code) (PList codes) = Inr True"
    using assms(12,14) by (auto simp: py_in_def list_ex_iff py_eq_PInt num_of_def intro!: bexI [of _ "PInt exit_code"])
  have fs: "str_field p ''announcement_id'' = aid" "str_field p ''commit'' = commit" "str_field p ''command'' = command" "dget_or p ''exit_code'' PNone = PInt exit_code"
    by (simp_all add: p_def execution_payload_def str_field_def dget_or_def obj_def)
  have "\<exists>out. verify_test_execution n iso_ms clock a (PDict r) did = Inr out \<and> passed out"
    unfolding verify_test_execution_def by (simp add: v did p g i fs assms(6,7,10,13) Let_def strict_int_def passed_def)
  then show ?thesis using s by blast
qed

text \<open>An announcement may give \<open>commands\<close> as one text instead of a list; then every part of the text passes as a command, the empty one included.\<close>

lemma command_text_parts: "py_in (PStr p) (PStr (xs @ p @ ys)) = Inr True"
  by (auto simp: py_in_def contains_iff)

section \<open>Witnesses\<close>

definition test_job :: announcement where
  "test_job = demo_ann\<lparr>an_input_schema := PDict (obj [(''commit'', PStr ''c0ffee''), (''commands'', PList [PStr ''pytest''])]), an_acceptance := PDict []\<rparr>"

lemma test_job: "an_id test_job = PStr ''a1''" "an_input_schema test_job = PDict (obj [(''commit'', PStr ''c0ffee''), (''commands'', PList [PStr ''pytest''])])"
  "get_of (an_acceptance test_job) ''accept_exit_codes'' (PList [PInt 0]) = Inr (PList [PInt 0])"
  by (simp_all add: test_job_def demo_ann(5) get_of_def)

lemma honest_execution:
  "\<exists>r out. sign_test_execution_receipt demo_nacl (demo_identity 1) [] ''c0ffee'' ''pytest'' 0 [] [] [] ''a1'' 5 5 ''r9'' ''2020'' 5 = Inr r
     \<and> verify_test_execution demo_nacl demo_iso 9 test_job (PDict r) (demo_did 1) = Inr out \<and> passed out"
  by (rule honest_test_accepted [where commands = "[PStr ''pytest'']", OF demo_nacl_ok demo_signer demo_did(1) _ _ test_job(1) _ test_job(2) _ _ _ _ test_job(3)]) (simp_all add: obj_def)

theorem test_verdict_sound_witness:
  "\<exists>r out pk timeline e. verify_test_execution demo_nacl demo_iso 9 test_job (PDict r) (demo_did 1) = Inr out \<and> receipt_core demo_nacl r pk timeline \<and> e \<in> set timeline
     \<and> str_field (te_payload e) ''announcement_id'' = ''a1'' \<and> list_all (\<lambda>(k, v). v = PBool True) (vo_checks out)"
proof -
  obtain r out where v: "verify_test_execution demo_nacl demo_iso 9 test_job (PDict r) (demo_did 1) = Inr out" "passed out" using honest_execution by blast
  from test_verdict_sound [OF v] obtain pk timeline e where "receipt_core demo_nacl r pk timeline" "e \<in> set timeline" "str_field (te_payload e) ''announcement_id'' = ''a1''"
    "list_all (\<lambda>(k, v). v = PBool True) (vo_checks out)" using test_job(1) by auto
  with v(1) show ?thesis by blast
qed

definition bound_intent :: settlement_intent where
  "bound_intent = \<lparr>i_trade_id = ''a1'', i_amount_minor = PInt 5, i_currency = ''credit'', i_payee_did = demo_did 1, i_payer_did = demo_did 0, i_memo = []\<rparr>"

definition bound_result :: settlement_result where
  "bound_result = \<lparr>x_adapter_id = ''manual'', x_amount_minor = PInt 5, x_currency = ''credit'', x_payee_did = demo_did 1, x_payer_did = demo_did 0, x_tx_ref = [],
     x_network = [], x_proof = [], x_settled_at_ms = 9\<rparr>"

lemma bound_result: "manual_settle bound_intent 9 = Inr bound_result"
proof -
  have "intent_validate bound_intent = Inr ()" using demo_did(2,3) [of 0] demo_did(2,3) [of 1] demo_did_text(1) [of 0] demo_did_text(1) [of 1]
    by (simp add: intent_validate_def bound_intent_def positive_amount_def supported_currencies_def Let_def)
  then show ?thesis by (simp add: manual_settle_def bound_result_def) (simp add: bound_intent_def adapter_manual_def)
qed

lemma draft_keeps_asset: "draft_announcement x i fresh t = Inr a \<Longrightarrow> an_reward_asset a = an_reward_asset x"
  by (auto simp: draft_announcement_def bindR_Inr_iff ensure_Inr_iff Let_def split: if_splits option.splits)

lemma demo_ann_offer: "an_publisher_did demo_ann = PStr (demo_did 0)" "an_reward_asset demo_ann = PStr ''credit''"
proof -
  show "an_publisher_did demo_ann = PStr (demo_did 0)" using signed_announcement_verifies_demo by (simp add: demo_did_def)
  obtain a where d: "draft_announcement demo_args (demo_identity 0) [] 1 = Inr a" using demo_ann(1) by (auto simp: sign_announcement_def bindR_Inr_iff)
  then have "\<exists>s. demo_ann = a\<lparr>an_publisher_sig := s\<rparr>" using demo_ann(1) by (auto simp: sign_announcement_def bindR_Inr_iff ensure_Inr_iff dest!: sym [of _ demo_ann])
  then obtain s where s: "demo_ann = a\<lparr>an_publisher_sig := s\<rparr>" by blast
  show "an_reward_asset demo_ann = PStr ''credit''" using draft_keeps_asset [OF d] unfolding s by (simp add: demo_args_sel)
qed

definition claim_entry :: timeline_entry where
  "claim_entry = \<lparr>te_timestamp = 5, te_type = ''nth.task_claimed'', te_payload = obj [(''announcement_id'', PStr ''a1''), (''claimant_did'', PStr (demo_did 1))]\<rparr>"

lemma bound_claim:
  obtains r where "verify_receipt demo_nacl demo_iso 9 r [] = Inr True" "str_field r ''signer_did'' = demo_did 1"
    "str_field (claimed_payload r) ''announcement_id'' = ''a1''" "str_field (claimed_payload r) ''claimant_did'' = demo_did 1"
proof -
  have wf: "wf_json (PDict (te_payload claim_entry))" by (simp add: claim_entry_def obj_def is_str_def)
  obtain r where r: "sign_receipt demo_nacl [claim_entry] (demo_identity 1) [] ''r1'' [] None [] ''2020'' 5 = Inr r"
    using sign_receipt_total [OF demo_nacl_ok demo_signer, of "[claim_entry]" 1 "[]" "''r1''" None "[]" "''2020''" 5] wf by (auto simp del: wf_json.simps)
  have ok: "list_all entry_ok [claim_entry]" by (simp add: claim_entry_def entry_ok_def)
  have v: "verify_receipt demo_nacl demo_iso 9 r [] = Inr True" by (rule signed_receipt_verifies [OF demo_nacl_ok demo_signer ok _ r]) simp_all
  obtain pk ts where f: "chain_linked [claim_entry] [] 5 = Inr ts" "as_did (demo_identity 1) = Inr (the_str (dget r ''signer_did''))" "receipt_core demo_nacl r pk ts"
    "dget r ''timeline'' = Some (PList (map (\<lambda>e. PDict (entry_to_dict e)) ts))"
    by (rule signed_receipt_fields [OF demo_nacl_ok demo_signer ok _ r]) simp_all
  have "str_field r ''signer_did'' = demo_did 1" using f(2,3) demo_did(1) [of 1] by (auto simp: receipt_core_def str_field_def dget_or_def)
  moreover have "claimed_payload r = te_payload claim_entry" using f(1,4)
    by (auto simp: chain_linked_def claimed_payload_def timeline_payload_def dget_or_def entry_to_dict_def obj_def claim_entry_def task_claimed_type_def)
  ultimately show thesis using that [OF v] by (simp add: claim_entry_def str_field_def dget_or_def obj_def)
qed

lemma bound_chain:
  obtains e1 events payload where "events = PDict e1 # tl events" "verify_chain_events demo_nacl 9 ''a1'' events = Inr (True, [])" "current_state events = ''settled''"
    "dget e1 ''type'' = Some (PStr ''trade_opened'')" "dget e1 ''payload'' = Some (PDict payload)" "str_field payload ''announcement_id'' = ''a1''"
    "str_field payload ''publisher_did'' = demo_did 0" "str_field payload ''claimant_did'' = demo_did 1" "str_field payload ''claim_receipt_id'' = []"
    "dget payload ''terms'' = Some (PDict (terms_of bound_intent))"
proof -
  let ?c = "claim_of ''a1'' (demo_did 1) (i_payer_did bound_intent)"
  have payer: "i_payer_did bound_intent = demo_did 0" by (simp add: bound_intent_def)
  have hyps: "length ''a1'' \<le> 64" "length (int_str 9) \<le> 20" "map_of [] (trade_path_of ''a1'') = (None :: pyval option)" "i_trade_id bound_intent = ''a1''"
    "i_amount_minor bound_intent = PInt 5" "i_payer_did bound_intent \<noteq> []" "(0 :: int) < 9"
    using demo_did(3) [of 0] by (simp_all add: bound_intent_def int_str_5)
  define payload where "payload = snd (projr (open_payload ?c (demo_did 2) (demo_did 3) [] (Some (terms_of bound_intent))))"
  have o: "open_payload ?c (demo_did 2) (demo_did 3) [] (Some (terms_of bound_intent)) = Inr (''a1'', payload)"
    using demo_did(3) [of 1] demo_did(3) [of 0] demo_did(3) [of 2] demo_did(3) [of 3]
    by (simp add: payload_def open_payload_def claim_of_def obj_def dget_or_def Let_def terms_payload_def terms_of_def bound_intent_def)
  have p: "payload = obj [(''announcement_id'', PStr ''a1''), (''claimant_did'', PStr (demo_did 1)), (''publisher_did'', PStr (demo_did 0)), (''verifier_did'', PStr (demo_did 2)),
      (''settler_did'', PStr (demo_did 3)), (''resolver_did'', PStr (demo_did 2)), (''claim_receipt_id'', PStr []), (''terms'', PDict (terms_of bound_intent))]"
    using o demo_did(3) [of 1] demo_did(3) [of 0] demo_did(3) [of 2] demo_did(3) [of 3]
    by (simp add: open_payload_def claim_of_def obj_def dget_or_def Let_def terms_payload_def terms_of_def bound_intent_def)
  have sp: "small_payload payload" using demo_did(2) [of 1] demo_did(2) [of 0] demo_did(2) [of 2] demo_did(2) [of 3]
    by (simp add: p terms_of_def bound_intent_def obj_def small_payload_def is_str_def key_text_def int_str_5)
  have small: "small_payload (obj [(''delivery'', PDict [])])" "small_payload (obj [(''verdict'', PStr ''pass''), (''result'', PDict [])])"
    "small_payload (obj [(''settlement'', PDict (to_payload bound_result))])" using demo_did(2) [of 0] demo_did(2) [of 1]
    by (simp_all add: small_payload_def obj_def is_str_def key_text_def to_payload_def bound_result_def int_str_5)
  obtain st1 e1 st4 e2 e3 e4 ps where r: "open_trade demo_nacl 9 [] (demo_identity 0) ?c (demo_did 2) (demo_did 3) [] (Some (terms_of bound_intent)) = (st1, Inr e1)"
    "live demo_nacl 9 ''a1'' st4 [PDict e1, PDict e2, PDict e3, PDict e4] ps ''settled''"
    by (rule honest_run [OF demo_nacl_ok demo_signer [of 0] demo_signer [of 1] demo_signer [of 2] demo_signer [of 3] demo_did(1) [of 1] demo_did(1) [of 2] demo_did(1) [of 3]
          hyps(1-6) bound_result hyps(7), where rd = "[]"]) (use o sp small in auto)
  have "append_event demo_nacl 9 [] ''a1'' (demo_identity 0) ''trade_opened'' ''executing'' payload True None = (st1, Inr e1)" using r(1) o by (simp add: open_trade_def)
  then obtain evs :: "pyval list" and did prev where "as_did (demo_identity 0) = Inr did" "sign_trade_event demo_nacl (demo_identity 0) (new_trade_event ''a1'' (length evs) ''trade_opened'' did prev ''executing'' payload 9) = Inr e1"
    by (rule append_event_stored) blast
  note f = signed_event_accepted [OF demo_nacl_ok demo_signer this]
  have "dget e1 ''type'' = Some (PStr ''trade_opened'')" "dget e1 ''payload'' = Some (PDict payload)" using f(3) [of "''type''"] f(3) [of "''payload''"] by simp_all
  then show thesis using that [of "[PDict e1, PDict e2, PDict e3, PDict e4]" e1 payload] live_verified [OF r(2)] p by (simp add: str_field_def dget_or_def obj_def)
qed


end
