(* ===== verification/Envelope.thy ===== *)
theory Envelope
  imports Trade_Run Announcement
begin

text \<open>
  \<open>nth_dao/commerce/outbox.py\<close>, first half: target addresses, signed envelopes that carry orders and trades to another node, signed acknowledgements, and the inbox that answers a
  replay with the first acknowledgement.
\<close>

section \<open>Target addresses\<close>

text \<open>\<open>urllib.parse.urlsplit\<close> on a text without white space and control characters. Whether the library accepts a bracketed host depends on its release and on the \<open>ipaddress\<close>
  module; that check is the parameter \<open>bracketed\<close>. The check for characters that normalize to delimiters never fails below code point 256.\<close>

record url_parts =
  u_scheme :: string
  u_netloc :: string
  u_query :: string
  u_fragment :: string

definition is_ascii_letter :: "char \<Rightarrow> bool" where
  "is_ascii_letter c \<longleftrightarrow> (let n = (of_char c :: nat) in 65 \<le> n \<and> n \<le> 90 \<or> 97 \<le> n \<and> n \<le> 122)"

definition split_scheme :: "string \<Rightarrow> string \<times> string" where
  "split_scheme s =
     (let pre = takeWhile (\<lambda>c. c \<noteq> CHR '':'') s; rest = dropWhile (\<lambda>c. c \<noteq> CHR '':'') s in
      if rest \<noteq> [] \<and> pre \<noteq> [] \<and> is_ascii_letter (hd pre) \<and> list_all (\<lambda>c. is_ascii_letter c \<or> is_digit c \<or> c \<in> set ''+-.'') pre
      then (py_lower pre, drop 1 rest) else ([], s))"

definition after_first :: "char \<Rightarrow> string \<Rightarrow> string" where
  "after_first d s = drop 1 (dropWhile (\<lambda>c. c \<noteq> d) s)"

definition before_first :: "char \<Rightarrow> string \<Rightarrow> string" where
  "before_first d s = takeWhile (\<lambda>c. c \<noteq> d) s"

definition urlsplit :: "(string \<Rightarrow> bool) \<Rightarrow> string \<Rightarrow> url_parts res" where
  "urlsplit bracketed s =
     (let (scheme, url) = split_scheme s;
          located = startswith url ''//'';
          netloc = (if located then takeWhile (\<lambda>c. c \<notin> set ''/?#'') (drop 2 url) else []);
          rest = (if located then dropWhile (\<lambda>c. c \<notin> set ''/?#'') (drop 2 url) else url) in
      if (CHR ''['' \<in> set netloc) \<noteq> (CHR '']'' \<in> set netloc) then raise ValueError ''Invalid IPv6 URL''
      else if CHR ''['' \<in> set netloc \<and> \<not> bracketed netloc then raise ValueError ''Invalid IPv6 URL''
      else Inr \<lparr>u_scheme = scheme, u_netloc = netloc, u_query = after_first (CHR ''?'') (before_first (CHR ''#'') rest), u_fragment = after_first (CHR ''#'') rest\<rparr>)"

definition host_port :: "string \<Rightarrow> string \<times> string" where
  "host_port netloc =
     (if CHR ''['' \<in> set netloc
      then let b = after_first (CHR ''['') netloc in (before_first (CHR '']'') b, after_first (CHR '':'') (after_first (CHR '']'') b))
      else (before_first (CHR '':'') netloc, after_first (CHR '':'') netloc))"

definition url_port :: "string \<Rightarrow> int option res" where
  "url_port netloc =
     (let port = snd (host_port netloc) in
      if port = [] then Inr None
      else if \<not> list_all is_digit port then raise ValueError ''Port could not be cast to integer value''
      else bindR (parse_int port) (\<lambda>p. ensure (0 \<le> p \<and> p \<le> 65535) ValueError ''Port out of range 0-65535'' (Inr (Some p))))"

definition envelope_rejected :: "string \<Rightarrow> 'a res" where
  "envelope_rejected m = raise CommerceEnvelopeRejected m"

definition rstrip_slash :: "string \<Rightarrow> string" where
  "rstrip_slash s = rev (dropWhile (\<lambda>c. c = CHR ''/'') (rev s))"

text \<open>A network location holds a user name exactly when it holds an \<open>@\<close>.\<close>

definition target_parts_ok :: "url_parts \<Rightarrow> int option \<Rightarrow> bool" where
  "target_parts_ok u port \<longleftrightarrow> u_scheme u \<in> {''http'', ''https''} \<and> u_netloc u \<noteq> [] \<and> fst (host_port (u_netloc u)) \<noteq> [] \<and> CHR ''@'' \<notin> set (u_netloc u)
     \<and> u_query u = [] \<and> u_fragment u = [] \<and> (case port of None \<Rightarrow> True | Some p \<Rightarrow> 1 \<le> p \<and> p \<le> 65535)"

definition normalize_target_url :: "(string \<Rightarrow> bool) \<Rightarrow> pyval \<Rightarrow> string res" where
  "normalize_target_url bracketed v = (case v of
     PStr s \<Rightarrow>
       if s = [] \<or> 2048 < length s \<or> list_ex (\<lambda>c. py_isspace c \<or> of_char c < (32 :: nat) \<or> of_char c = (127 :: nat)) s then envelope_rejected ''invalid target URL''
       else (case bindR (urlsplit bracketed s) (\<lambda>u. bindR (url_port (u_netloc u)) (\<lambda>p. Inr (u, p))) of
         Inl _ \<Rightarrow> envelope_rejected ''invalid target URL''
       | Inr (u, port) \<Rightarrow> ensure (target_parts_ok u port) CommerceEnvelopeRejected ''invalid target URL'' (Inr (rstrip_slash s)))
   | _ \<Rightarrow> envelope_rejected ''invalid target URL'')"

section \<open>Errors that are kept\<close>

definition outbox_error_codes :: "string list" where
  "outbox_error_codes = [''delivery-failed'', ''delivery-permanently-rejected'', ''dispatcher-contract-error'', ''outbox-record-missing'', ''delivery-lease-superseded'',
     ''delivery-runtime-error'', ''delivery-persistence-error'', ''target-policy-rejected'', ''peer-response-invalid'', ''peer-http-retryable'', ''peer-http-rejected'', ''peer-network-error'']"

definition normalize_outbox_error :: "string \<Rightarrow> bool \<Rightarrow> string" where
  "normalize_outbox_error error retryable =
     (if py_strip error \<in> set outbox_error_codes then py_strip error
      else if retryable then ''delivery-failed'' else ''delivery-permanently-rejected'')"

section \<open>Envelopes\<close>

definition envelope_kind :: string where
  "envelope_kind = ''nth-commerce-sync-v1''"

definition max_payload_bytes :: nat where
  "max_payload_bytes = 512 * 1024"

record envelope =
  ce_message_id :: pyval
  ce_source_did :: pyval
  ce_target_did :: pyval
  ce_payload :: pyval
  ce_created_at_ms :: pyval
  ce_kind :: pyval
  ce_signature :: pyval

definition envelope_fields :: "string list" where
  "envelope_fields = [''message_id'', ''source_did'', ''target_did'', ''payload'', ''created_at_ms'', ''kind'', ''signature'']"

definition envelope_signing_body :: "envelope \<Rightarrow> pydict" where
  "envelope_signing_body e = obj [(''message_id'', ce_message_id e), (''source_did'', ce_source_did e), (''target_did'', ce_target_did e), (''payload'', ce_payload e),
     (''created_at_ms'', ce_created_at_ms e), (''kind'', ce_kind e)]"

definition envelope_to_dict :: "envelope \<Rightarrow> pydict" where
  "envelope_to_dict e = envelope_signing_body e @ [(PStr ''signature'', ce_signature e)]"

definition envelope_from_dict :: "pyval \<Rightarrow> envelope res" where
  "envelope_from_dict v = (case v of
     PDict d \<Rightarrow> ensure (same_keys d envelope_fields) CommerceEnvelopeRejected ''envelope has missing or unknown fields'' (
       let g = (\<lambda>k. dget_or d k PNone) in
       Inr \<lparr>ce_message_id = g ''message_id'', ce_source_did = g ''source_did'', ce_target_did = g ''target_did'', ce_payload = g ''payload'', ce_created_at_ms = g ''created_at_ms'',
         ce_kind = g ''kind'', ce_signature = g ''signature''\<rparr>)
   | _ \<Rightarrow> envelope_rejected ''envelope has missing or unknown fields'')"

definition message_id_of :: "pyval \<Rightarrow> pyval \<Rightarrow> pyval \<Rightarrow> string res" where
  "message_id_of source_did target_did payload =
     bindR (canonical_json (PDict (obj [(''source_did'', source_did), (''target_did'', target_did), (''payload'', payload)]))) (\<lambda>bs. Inr (''sha256:'' @ sha256_hex bs))"

text \<open>A signature text that is the one encoding of 64 bytes and verifies under the key of a DID over the canonical bytes of a body.\<close>

definition signed_by :: "nacl \<Rightarrow> pyval \<Rightarrow> pydict \<Rightarrow> pyval \<Rightarrow> bool" where
  "signed_by n did body signature = (case signature of
     PStr sg \<Rightarrow> (case (b64u_decode sg, decode_ed25519_did_key (py_str did), canonical_json (PDict body)) of
       (Inr s, Inr pk, Inr bs) \<Rightarrow> length s = 64 \<and> b64u_encode s = sg \<and> nacl_verify n pk bs s
     | _ \<Rightarrow> False)
   | _ \<Rightarrow> False)"

definition positive_int :: "pyval \<Rightarrow> bool" where
  "positive_int v = (case strict_int v of None \<Rightarrow> False | Some i \<Rightarrow> 0 < i)"

definition validate_envelope :: "nacl \<Rightarrow> envelope \<Rightarrow> bool \<Rightarrow> bool \<times> string" where
  "validate_envelope n e require_signature =
     (if ce_kind e \<noteq> PStr envelope_kind then (False, ''wrong envelope kind'')
      else if \<not> is_did_key (ce_source_did e) \<or> \<not> is_did_key (ce_target_did e) then (False, ''invalid envelope DID'')
      else if \<not> is_dict (ce_payload e) then (False, ''payload must be an object'')
      else if \<not> positive_int (ce_created_at_ms e) then (False, ''invalid envelope timestamp'')
      else (case canonical_json (ce_payload e) of
        Inl x \<Rightarrow> (False, ''payload is not canonical JSON: '' @ exn_msg x)
      | Inr bs \<Rightarrow>
          if max_payload_bytes < length bs then (False, ''envelope payload too large'')
          else (case message_id_of (ce_source_did e) (ce_target_did e) (ce_payload e) of
            Inl x \<Rightarrow> (False, ''payload is not canonical JSON: '' @ exn_msg x)
          | Inr expected_id \<Rightarrow>
              if ce_message_id e \<noteq> PStr expected_id then (False, ''message id does not match envelope content'')
              else if \<not> require_signature then (True, ''ok'')
              else if \<not> nacl_available n then (False, ''crypto unavailable'')
              else if signed_by n (ce_source_did e) (envelope_signing_body e) (ce_signature e) then (True, ''ok'') else (False, ''envelope signature invalid''))))"

definition verify_envelope :: "nacl \<Rightarrow> envelope \<Rightarrow> bool \<times> string" where
  "verify_envelope n e = validate_envelope n e True"

definition sign_envelope :: "nacl \<Rightarrow> identity \<Rightarrow> string \<Rightarrow> pydict \<Rightarrow> int \<Rightarrow> envelope res" where
  "sign_envelope n identity target_did payload created_at_ms =
     bindR (as_did identity) (\<lambda>source_did.
     bindR (message_id_of (PStr source_did) (PStr target_did) (PDict payload)) (\<lambda>message_id.
     let e = \<lparr>ce_message_id = PStr message_id, ce_source_did = PStr source_did, ce_target_did = PStr target_did, ce_payload = PDict payload, ce_created_at_ms = PInt created_at_ms,
           ce_kind = PStr envelope_kind, ce_signature = PStr []\<rparr> in
     (case validate_envelope n e False of (ok, reason) \<Rightarrow>
       ensure ok CommerceEnvelopeRejected reason (
       bindR (canonical_json (PDict (envelope_signing_body e))) (\<lambda>bs.
       bindR (identity_sign n identity bs) (\<lambda>s. Inr (e\<lparr>ce_signature := PStr (b64u_encode s)\<rparr>)))))))"

section \<open>Acknowledgements\<close>

definition ack_kind :: string where
  "ack_kind = ''nth-commerce-ack-v1''"

definition is_digest :: "pyval \<Rightarrow> bool" where
  "is_digest v = (case v of
     PStr s \<Rightarrow> length s = 71 \<and> startswith s ''sha256:'' \<and> (case fromhex (drop 7 s) of Inr _ \<Rightarrow> True | Inl _ \<Rightarrow> False)
   | _ \<Rightarrow> False)"

definition trade_chain_head :: "pyval list \<Rightarrow> string res" where
  "trade_chain_head events =
     (if events = [] \<or> \<not> is_dict (List.last events) then envelope_rejected ''trade chain has no signed head''
      else bindR (canonical_json (List.last events)) (\<lambda>bs. Inr (''sha256:'' @ sha256_hex bs)))"

record commerce_ack =
  ak_message_id :: pyval
  ak_order_id :: pyval
  ak_received_chain_head :: pyval
  ak_receiver_did :: pyval
  ak_received_at_ms :: pyval
  ak_kind :: pyval
  ak_signature :: pyval

definition ack_fields :: "string list" where
  "ack_fields = [''message_id'', ''order_id'', ''received_chain_head'', ''receiver_did'', ''received_at_ms'', ''kind'', ''signature'']"

definition ack_signing_body :: "commerce_ack \<Rightarrow> pydict" where
  "ack_signing_body a = obj [(''message_id'', ak_message_id a), (''order_id'', ak_order_id a), (''received_chain_head'', ak_received_chain_head a), (''receiver_did'', ak_receiver_did a),
     (''received_at_ms'', ak_received_at_ms a), (''kind'', ak_kind a)]"

definition ack_to_dict :: "commerce_ack \<Rightarrow> pydict" where
  "ack_to_dict a = ack_signing_body a @ [(PStr ''signature'', ak_signature a)]"

definition ack_from_dict :: "pyval \<Rightarrow> commerce_ack res" where
  "ack_from_dict v = (case v of
     PDict d \<Rightarrow> ensure (same_keys d ack_fields) CommerceEnvelopeRejected ''ack has missing or unknown fields'' (
       let g = (\<lambda>k. dget_or d k PNone) in
       Inr \<lparr>ak_message_id = g ''message_id'', ak_order_id = g ''order_id'', ak_received_chain_head = g ''received_chain_head'', ak_receiver_did = g ''receiver_did'',
         ak_received_at_ms = g ''received_at_ms'', ak_kind = g ''kind'', ak_signature = g ''signature''\<rparr>)
   | _ \<Rightarrow> envelope_rejected ''ack has missing or unknown fields'')"

definition validate_ack :: "nacl \<Rightarrow> commerce_ack \<Rightarrow> bool \<Rightarrow> bool \<times> string" where
  "validate_ack n a require_signature =
     (if ak_kind a \<noteq> PStr ack_kind then (False, ''wrong ack kind'')
      else if \<not> is_digest (ak_message_id a) \<or> \<not> is_digest (ak_received_chain_head a) then (False, ''invalid ack digest'')
      else if \<not> (case ak_order_id a of PStr s \<Rightarrow> 1 \<le> length s \<and> length s \<le> 160 | _ \<Rightarrow> False) then (False, ''invalid ack order id'')
      else if \<not> is_did_key (ak_receiver_did a) then (False, ''invalid ack receiver DID'')
      else if \<not> positive_int (ak_received_at_ms a) then (False, ''invalid ack timestamp'')
      else if \<not> require_signature then (True, ''ok'')
      else if \<not> nacl_available n then (False, ''crypto unavailable'')
      else if signed_by n (ak_receiver_did a) (ack_signing_body a) (ak_signature a) then (True, ''ok'') else (False, ''ack signature invalid''))"

definition verify_ack :: "nacl \<Rightarrow> commerce_ack \<Rightarrow> bool \<times> string" where
  "verify_ack n a = validate_ack n a True"

definition sign_ack :: "nacl \<Rightarrow> identity \<Rightarrow> pyval \<Rightarrow> string \<Rightarrow> string \<Rightarrow> int \<Rightarrow> commerce_ack res" where
  "sign_ack n identity message_id order_id received_chain_head received_at_ms =
     bindR (as_did identity) (\<lambda>did.
     let a = \<lparr>ak_message_id = message_id, ak_order_id = PStr order_id, ak_received_chain_head = PStr received_chain_head, ak_receiver_did = PStr did,
           ak_received_at_ms = PInt received_at_ms, ak_kind = PStr ack_kind, ak_signature = PStr []\<rparr> in
     (case validate_ack n a False of (ok, reason) \<Rightarrow>
       ensure ok CommerceEnvelopeRejected reason (
       bindR (canonical_json (PDict (ack_signing_body a))) (\<lambda>bs.
       bindR (identity_sign n identity bs) (\<lambda>s. Inr (a\<lparr>ak_signature := PStr (b64u_encode s)\<rparr>))))))"

section \<open>The inbox\<close>

datatype json_file = Corrupt | Json pyval

type_synonym inbox = "(string \<times> json_file) list"

definition digest_stem :: "pyval \<Rightarrow> string res" where
  "digest_stem message_id = (if is_digest message_id then Inr (drop 7 (py_str message_id)) else envelope_rejected ''invalid message id'')"

definition get_ack :: "nacl \<Rightarrow> envelope \<Rightarrow> string \<Rightarrow> string \<Rightarrow> inbox \<Rightarrow> commerce_ack option res" where
  "get_ack n e order_id chain_head ib =
     bindR (digest_stem (ce_message_id e)) (\<lambda>stem. case map_of ib stem of
       None \<Rightarrow> Inr None
     | Some Corrupt \<Rightarrow> Inr None
     | Some (Json v) \<Rightarrow> (case v of
         PNone \<Rightarrow> Inr None
       | PDict d \<Rightarrow>
           if \<not> same_keys d [''source_did'', ''target_did'', ''ack''] then envelope_rejected ''stored inbox receipt is invalid''
           else (case ack_from_dict (dget_or d ''ack'' PNone) of
             Inl _ \<Rightarrow> envelope_rejected ''stored inbox receipt is invalid''
           | Inr a \<Rightarrow> (case verify_ack n a of (ok, reason) \<Rightarrow>
               ensure ok CommerceEnvelopeRejected (''stored inbox ack is invalid: '' @ reason) (
               ensure (py_eq (dget_or d ''source_did'' PNone) (ce_source_did e) \<and> py_eq (dget_or d ''target_did'' PNone) (ce_target_did e) \<and> py_eq (ak_message_id a) (ce_message_id e)
                   \<and> ak_order_id a = PStr order_id \<and> ak_received_chain_head a = PStr chain_head \<and> py_eq (ak_receiver_did a) (ce_target_did e))
                 CommerceEnvelopeRejected ''stored inbox receipt binding mismatch'' (Inr (Some a)))))
       | _ \<Rightarrow> envelope_rejected ''stored inbox receipt is invalid''))"

definition acknowledge :: "nacl \<Rightarrow> envelope \<Rightarrow> string \<Rightarrow> string \<Rightarrow> identity \<Rightarrow> int \<Rightarrow> inbox \<Rightarrow> inbox \<times> (commerce_ack \<times> bool) res" where
  "acknowledge n e order_id chain_head identity received_at_ms ib =
     (case bindR (digest_stem (ce_message_id e)) (\<lambda>stem.
           bindR (get_ack n e order_id chain_head ib) (\<lambda>existing. case existing of
             Some a \<Rightarrow> Inr (Inl a)
           | None \<Rightarrow>
               bindR (as_did identity) (\<lambda>did.
               ensure (PStr did = ce_target_did e) CommerceEnvelopeRejected ''inbox signer is not envelope target'' (
               bindR (sign_ack n identity (ce_message_id e) order_id chain_head received_at_ms) (\<lambda>a. Inr (Inr (stem, a))))))) of
        Inl x \<Rightarrow> (ib, Inl x)
      | Inr (Inl a) \<Rightarrow> (ib, Inr (a, False))
      | Inr (Inr (stem, a)) \<Rightarrow>
          (assoc_put stem (Json (PDict (obj [(''source_did'', ce_source_did e), (''target_did'', ce_target_did e), (''ack'', PDict (ack_to_dict a))]))) ib, Inr (a, True)))"

section \<open>Addresses are normal after one step\<close>

definition url_ok :: "(string \<Rightarrow> bool) \<Rightarrow> string \<Rightarrow> bool" where
  "url_ok bracketed s \<longleftrightarrow> s \<noteq> [] \<and> length s \<le> 2048 \<and> \<not> list_ex (\<lambda>c. py_isspace c \<or> of_char c < (32 :: nat) \<or> of_char c = (127 :: nat)) s
     \<and> (\<exists>u p. urlsplit bracketed s = Inr u \<and> url_port (u_netloc u) = Inr p \<and> target_parts_ok u p)"

lemma normalize_target_iff: "normalize_target_url b v = Inr u \<longleftrightarrow> (\<exists>s. v = PStr s \<and> url_ok b s \<and> u = rstrip_slash s)"
proof (cases v)
  case (PStr s)
  let ?m = "bindR (urlsplit b s) (\<lambda>u. bindR (url_port (u_netloc u)) (\<lambda>p. Inr (u, p)))"
  show ?thesis
  proof (cases ?m)
    case (Inl x)
    then show ?thesis by (auto simp: PStr normalize_target_url_def url_ok_def envelope_rejected_def bindR_Inl_iff)
  next
    case (Inr q)
    then show ?thesis
      by (cases q) (auto simp: PStr normalize_target_url_def url_ok_def envelope_rejected_def ensure_def bindR_Inr_iff split: if_splits)
  qed
qed (auto simp: normalize_target_url_def envelope_rejected_def)

lemma after_first_slash: "d \<in> set t \<Longrightarrow> after_first d (t @ ''/'') \<noteq> []"
  by (cases "dropWhile (\<lambda>c. c \<noteq> d) t") (auto simp: after_first_def dropWhile_eq_Nil_conv dropWhile_append1)

lemma after_first_none: "d \<notin> set t \<Longrightarrow> after_first d t = []"
proof -
  assume "d \<notin> set t"
  then have "dropWhile (\<lambda>c. c \<noteq> d) t = []" by (auto simp: dropWhile_eq_Nil_conv)
  then show ?thesis unfolding after_first_def by (simp only: drop_Nil)
qed

lemma before_first_none: "d \<notin> set t \<Longrightarrow> before_first d t = t"
  by (auto simp: before_first_def takeWhile_eq_all_conv)

lemma urlsplit_slash:
  assumes "urlsplit b (s @ ''/'') = Inr u" "u_scheme u \<noteq> []" "u_netloc u \<noteq> []" "u_query u = []" "u_fragment u = []"
  shows "urlsplit b s = Inr u"
proof -
  have colon: "CHR '':'' \<in> set s"
  proof (rule ccontr)
    assume "CHR '':'' \<notin> set s"
    then have "split_scheme (s @ ''/'') = ([], s @ ''/'')" by (auto simp: split_scheme_def Let_def dropWhile_eq_Nil_conv)
    then show False using assms(1,2) by (auto simp: urlsplit_def Let_def split: if_splits)
  qed
  have tw: "takeWhile P (t @ ''/'') = takeWhile P t" "dropWhile P (t @ ''/'') = dropWhile P t @ ''/''" if "\<not> P (CHR ''/'')" for P t
    using that by (induction t) auto
  have tc: "takeWhile (\<lambda>c. c \<noteq> CHR '':'') (s @ ''/'') = takeWhile (\<lambda>c. c \<noteq> CHR '':'') s"
    "dropWhile (\<lambda>c. c \<noteq> CHR '':'') (s @ ''/'') = dropWhile (\<lambda>c. c \<noteq> CHR '':'') s @ ''/''" "dropWhile (\<lambda>c. c \<noteq> CHR '':'') s \<noteq> []"
    using colon by (auto simp: takeWhile_append1 dropWhile_append1 dropWhile_eq_Nil_conv)
  obtain scheme url where ss: "split_scheme s = (scheme, url)" by (cases "split_scheme s")
  then have ss': "split_scheme (s @ ''/'') = (scheme, url @ ''/'')"
    using tc by (cases "dropWhile (\<lambda>c. c \<noteq> CHR '':'') s") (auto simp: split_scheme_def Let_def split: if_splits)
  let ?P = "\<lambda>c. c \<notin> set ''/?#''"
  have "startswith (url @ ''/'') ''//'' \<and> url \<noteq> ''/''" using assms(1,3) ss' by (auto simp: urlsplit_def Let_def split: if_splits)
  then obtain r where url: "url = ''//'' @ r" by (cases url; cases "drop 1 url") (auto simp: startswith_def)
  let ?rest = "dropWhile ?P r"
  have sp: "urlsplit b (s @ ''/'') = (if (CHR ''['' \<in> set (takeWhile ?P r)) \<noteq> (CHR '']'' \<in> set (takeWhile ?P r)) then raise ValueError ''Invalid IPv6 URL''
      else if CHR ''['' \<in> set (takeWhile ?P r) \<and> \<not> b (takeWhile ?P r) then raise ValueError ''Invalid IPv6 URL''
      else Inr \<lparr>u_scheme = scheme, u_netloc = takeWhile ?P r, u_query = after_first (CHR ''?'') (before_first (CHR ''#'') (?rest @ ''/'')),
        u_fragment = after_first (CHR ''#'') (?rest @ ''/'')\<rparr>)"
    using ss' url tw [of ?P r] by (simp add: urlsplit_def Let_def startswith_def)
  have frag: "CHR ''#'' \<notin> set ?rest"
  proof
    assume "CHR ''#'' \<in> set ?rest"
    then have "after_first (CHR ''#'') (?rest @ ''/'') \<noteq> []" by (rule after_first_slash)
    then show False using assms(1,5) sp by (auto split: if_splits)
  qed
  have bf: "before_first (CHR ''#'') (?rest @ ''/'') = ?rest @ ''/''" "before_first (CHR ''#'') ?rest = ?rest" "after_first (CHR ''#'') ?rest = []" "after_first (CHR ''#'') (?rest @ ''/'') = []"
    using frag before_first_none [of "CHR ''#''"] after_first_none [of "CHR ''#''"] by simp_all
  have query: "CHR ''?'' \<notin> set ?rest"
  proof
    assume "CHR ''?'' \<in> set ?rest"
    then have "after_first (CHR ''?'') (?rest @ ''/'') \<noteq> []" by (rule after_first_slash)
    then show False using assms(1,4) sp bf by (auto split: if_splits)
  qed
  then have aq: "after_first (CHR ''?'') ?rest = []" "after_first (CHR ''?'') (?rest @ ''/'') = []"
    using after_first_none [of "CHR ''?''"] by simp_all
  have "urlsplit b s = urlsplit b (s @ ''/'')" unfolding sp bf aq using ss url bf aq by (simp add: urlsplit_def Let_def startswith_def)
  then show ?thesis using assms(1) by simp
qed

lemma url_ok_slash: "url_ok b (s @ ''/'') \<Longrightarrow> url_ok b s"
proof -
  assume u: "url_ok b (s @ ''/'')"
  then obtain v p where v: "urlsplit b (s @ ''/'') = Inr v" "url_port (u_netloc v) = Inr p" "target_parts_ok v p" by (auto simp: url_ok_def)
  have q: "u_scheme v \<noteq> []" "u_netloc v \<noteq> []" "u_query v = []" "u_fragment v = []" using v(3) by (auto simp: target_parts_ok_def)
  then have "urlsplit b s = Inr v" by (rule urlsplit_slash [OF v(1)])
  moreover have "urlsplit b [] = Inr v \<Longrightarrow> u_scheme v = []" by (auto simp: urlsplit_def split_scheme_def startswith_def Let_def)
  ultimately show ?thesis using u v q(1) by (cases "s = []") (auto simp: url_ok_def)
qed

lemma rstrip_slash_snoc: "rstrip_slash (s @ [c]) = (if c = CHR ''/'' then rstrip_slash s else s @ [c])"
  by (simp add: rstrip_slash_def)

lemma url_ok_rstrip: "url_ok b s \<Longrightarrow> url_ok b (rstrip_slash s)"
proof (induction s rule: rev_induct)
  case (snoc c s)
  then show ?case using url_ok_slash [of b s] by (cases "c = CHR ''/''") (simp_all add: rstrip_slash_snoc)
qed (simp add: rstrip_slash_def)

lemma rstrip_slash_idem: "rstrip_slash (rstrip_slash s) = rstrip_slash s"
  by (induction s rule: rev_induct) (auto simp: rstrip_slash_snoc rstrip_slash_def [of "[]"])

lemma normalize_idem: "normalize_target_url b v = Inr u \<Longrightarrow> normalize_target_url b (PStr u) = Inr u"
  by (auto simp: normalize_target_iff url_ok_rstrip rstrip_slash_idem)

section \<open>What is signed verifies\<close>

lemma signer_signed_by:
  assumes "ed25519_ok n" "signer_ok n i" "as_did i = Inr did" "canonical_json (PDict body) = Inr bs" "identity_sign n i bs = Inr s"
  shows "signed_by n (PStr did) body (PStr (b64u_encode s))"
proof -
  obtain seed where seed: "id_signing_key i = Some seed" "length seed = 32" using assms(2) by (rule signer_okE)
  have "decode_ed25519_did_key did = Inr (nacl_pub n seed)" using signer_did [OF assms(1,2)] assms(3) seed(1) by (metis Inr_inject option.sel)
  moreover have "s = nacl_sign n seed bs" using signer_sign [OF assms(1,2)] assms(5) seed(1) by simp
  ultimately show ?thesis using ed25519_okD [OF assms(1) seed(2)] assms(4) by (simp add: signed_by_def)
qed

lemma signer_nacl: "ed25519_ok n \<Longrightarrow> signer_ok n i \<Longrightarrow> nacl_available n"
  using ed25519_okD(1) by (blast elim: signer_okE)

lemma signer_did_key: "ed25519_ok n \<Longrightarrow> signer_ok n i \<Longrightarrow> as_did i = Inr did \<Longrightarrow> is_did_key (PStr did)"
  using signer_did [of n i] by (metis Inr_inject is_did_key_iff decode_did_iff)

lemma signed_byE:
  assumes "signed_by n did body sg"
  obtains pk bs s where "decode_ed25519_did_key (py_str did) = Inr pk" "canonical_json (PDict body) = Inr bs" "sg = PStr (b64u_encode s)" "length s = 64" "nacl_verify n pk bs s"
  using assms by (auto simp: signed_by_def split: pyval.splits sum.splits)

definition envelope_ok :: "envelope \<Rightarrow> bool" where
  "envelope_ok e \<longleftrightarrow> ce_kind e = PStr envelope_kind \<and> is_did_key (ce_source_did e) \<and> is_did_key (ce_target_did e) \<and> is_dict (ce_payload e) \<and> positive_int (ce_created_at_ms e)
     \<and> (\<exists>bs. canonical_json (ce_payload e) = Inr bs \<and> length bs \<le> max_payload_bytes)
     \<and> (\<exists>k. message_id_of (ce_source_did e) (ce_target_did e) (ce_payload e) = Inr k \<and> ce_message_id e = PStr k)"

lemma validate_envelope_iff:
  "fst (validate_envelope n e rs) \<longleftrightarrow> envelope_ok e \<and> (rs \<longrightarrow> nacl_available n \<and> signed_by n (ce_source_did e) (envelope_signing_body e) (ce_signature e))"
  by (auto simp: validate_envelope_def envelope_ok_def split: sum.splits)

lemma verify_envelope_iff:
  "verify_envelope n e = (True, m) \<longleftrightarrow> m = ''ok'' \<and> envelope_ok e \<and> nacl_available n \<and> signed_by n (ce_source_did e) (envelope_signing_body e) (ce_signature e)"
proof -
  have "verify_envelope n e = (True, m) \<longleftrightarrow> m = ''ok'' \<and> fst (verify_envelope n e)"
    by (auto simp: verify_envelope_def validate_envelope_def split: sum.splits)
  then show ?thesis by (simp add: verify_envelope_def validate_envelope_iff)
qed

lemma message_id_wf:
  assumes "wf_json payload"
  shows "\<exists>bs. message_id_of (PStr s) (PStr t) payload = Inr (''sha256:'' @ sha256_hex bs)"
proof -
  have "wf_json (PDict (obj [(''source_did'', PStr s), (''target_did'', PStr t), (''payload'', payload)]))" using assms by (simp add: obj_def is_str_def)
  then show ?thesis by (auto simp: message_id_of_def canonical_json_wf simp del: wf_json.simps)
qed

definition payload_fits :: "pydict \<Rightarrow> bool" where
  "payload_fits p \<longleftrightarrow> wf_json (PDict p) \<and> length (utf8 (json_dumps False (PDict p))) \<le> max_payload_bytes"

lemma sign_envelope_ok:
  assumes "ed25519_ok n" "signer_ok n i" "as_did i = Inr did" "is_did_key (PStr target)" "payload_fits payload" "0 < now"
  obtains e where "sign_envelope n i target payload now = Inr e" "verify_envelope n e = (True, ''ok'')" "ce_source_did e = PStr did" "ce_target_did e = PStr target"
    "ce_payload e = PDict payload" "ce_created_at_ms e = PInt now"
proof -
  have w: "wf_json (PDict payload)" "length (utf8 (json_dumps False (PDict payload))) \<le> max_payload_bytes" using assms(5) by (auto simp: payload_fits_def)
  obtain bs where m: "message_id_of (PStr did) (PStr target) (PDict payload) = Inr (''sha256:'' @ sha256_hex bs)" using message_id_wf [OF w(1)] by blast
  define e where "e = \<lparr>ce_message_id = PStr (''sha256:'' @ sha256_hex bs), ce_source_did = PStr did, ce_target_did = PStr target, ce_payload = PDict payload,
    ce_created_at_ms = PInt now, ce_kind = PStr envelope_kind, ce_signature = PStr []\<rparr>"
  have ok: "envelope_ok e" using m w signer_did_key [OF assms(1-3)] assms(4,6)
    by (simp add: envelope_ok_def e_def is_dict_def positive_int_def strict_int_def canonical_json_wf del: wf_json.simps)
  then obtain r where v: "validate_envelope n e False = (True, r)" using validate_envelope_iff [of n e False] by (cases "validate_envelope n e False") simp
  have "wf_json (PDict (envelope_signing_body e))" using w(1) by (simp add: e_def envelope_signing_body_def obj_def is_str_def)
  then obtain x where x: "canonical_json (PDict (envelope_signing_body e)) = Inr x" using canonical_json_wf by blast
  obtain s where s: "identity_sign n i x = Inr s" using signer_sign [OF assms(1,2)] by blast
  let ?e = "e\<lparr>ce_signature := PStr (b64u_encode s)\<rparr>"
  have "sign_envelope n i target payload now = Inr ?e"
    by (simp only: sign_envelope_def assms(3) bindR_simps m Let_def e_def [symmetric] v prod.case ensure_simps x s)
  moreover have b: "envelope_signing_body ?e = envelope_signing_body e" by (simp add: envelope_signing_body_def)
  have "verify_envelope n ?e = (True, ''ok'')"
    using ok signer_signed_by [OF assms(1-3) x s] signer_nacl [OF assms(1,2)] by (simp add: verify_envelope_iff b) (simp add: e_def envelope_ok_def)
  ultimately show thesis using that [of ?e] by (simp add: e_def)
qed

lemma digest_ok: "is_digest (PStr (''sha256:'' @ sha256_hex bs))"
  by (simp add: is_digest_def startswith_def sha256_hex_def)

lemma envelope_ok_digest: "envelope_ok e \<Longrightarrow> is_digest (ce_message_id e)"
  using digest_ok by (auto simp: envelope_ok_def message_id_of_def bindR_Inr_iff simp del: append.simps)

section \<open>Verified acknowledgements\<close>

definition ack_ok :: "commerce_ack \<Rightarrow> bool" where
  "ack_ok a \<longleftrightarrow> ak_kind a = PStr ack_kind \<and> is_digest (ak_message_id a) \<and> is_digest (ak_received_chain_head a) \<and> (case ak_order_id a of PStr s \<Rightarrow> 1 \<le> length s \<and> length s \<le> 160 | _ \<Rightarrow> False)
     \<and> is_did_key (ak_receiver_did a) \<and> positive_int (ak_received_at_ms a)"

lemma validate_ack_iff:
  "fst (validate_ack n a rs) \<longleftrightarrow> ack_ok a \<and> (rs \<longrightarrow> nacl_available n \<and> signed_by n (ak_receiver_did a) (ack_signing_body a) (ak_signature a))"
  by (auto simp: validate_ack_def ack_ok_def)

lemma verify_ack_iff:
  "verify_ack n a = (True, m) \<longleftrightarrow> m = ''ok'' \<and> ack_ok a \<and> nacl_available n \<and> signed_by n (ak_receiver_did a) (ack_signing_body a) (ak_signature a)"
proof -
  have "verify_ack n a = (True, m) \<longleftrightarrow> m = ''ok'' \<and> fst (verify_ack n a)" by (auto simp: verify_ack_def validate_ack_def)
  then show ?thesis by (simp add: verify_ack_def validate_ack_iff)
qed

lemma is_digest_str: "is_digest v \<Longrightarrow> \<exists>s. v = PStr s"
  by (cases v) (auto simp: is_digest_def)

lemma sign_ack_ok:
  assumes "ed25519_ok n" "signer_ok n i" "as_did i = Inr did" "is_digest mid" "order_id \<noteq> []" "length order_id \<le> 160" "is_digest (PStr head)" "0 < now"
  obtains a where "sign_ack n i mid order_id head now = Inr a" "verify_ack n a = (True, ''ok'')" "ak_receiver_did a = PStr did" "ak_message_id a = mid" "ak_order_id a = PStr order_id"
    "ak_received_chain_head a = PStr head"
proof -
  define a where "a = \<lparr>ak_message_id = mid, ak_order_id = PStr order_id, ak_received_chain_head = PStr head, ak_receiver_did = PStr did, ak_received_at_ms = PInt now,
    ak_kind = PStr ack_kind, ak_signature = PStr []\<rparr>"
  have ok: "ack_ok a" using signer_did_key [OF assms(1-3)] assms(4-8) by (simp add: ack_ok_def a_def positive_int_def strict_int_def Suc_le_eq)
  then obtain r where v: "validate_ack n a False = (True, r)" using validate_ack_iff [of n a False] by (cases "validate_ack n a False") simp
  have "wf_json (PDict (ack_signing_body a))" using is_digest_str [OF assms(4)] by (auto simp: a_def ack_signing_body_def obj_def is_str_def)
  then obtain x where x: "canonical_json (PDict (ack_signing_body a)) = Inr x" using canonical_json_wf by blast
  obtain s where s: "identity_sign n i x = Inr s" using signer_sign [OF assms(1,2)] by blast
  let ?a = "a\<lparr>ak_signature := PStr (b64u_encode s)\<rparr>"
  have "sign_ack n i mid order_id head now = Inr ?a"
    by (simp only: sign_ack_def assms(3) bindR_simps Let_def a_def [symmetric] v prod.case ensure_simps x s)
  moreover have b: "ack_signing_body ?a = ack_signing_body a" by (simp add: ack_signing_body_def)
  have "verify_ack n ?a = (True, ''ok'')"
    using ok signer_signed_by [OF assms(1-3) x s] signer_nacl [OF assms(1,2)] by (simp add: verify_ack_iff b) (simp add: a_def ack_ok_def)
  ultimately show thesis using that [of ?a] by (simp add: a_def)
qed

lemma ack_dict_roundtrip: "ack_from_dict (PDict (ack_to_dict a)) = Inr a"
  by (cases a) (simp add: ack_from_dict_def ack_to_dict_def ack_signing_body_def same_keys_def ack_fields_def obj_def dget_or_def Let_def)

lemma envelope_dict_roundtrip: "envelope_from_dict (PDict (envelope_to_dict e)) = Inr e"
  by (cases e) (simp add: envelope_from_dict_def envelope_to_dict_def envelope_signing_body_def same_keys_def envelope_fields_def obj_def dget_or_def Let_def)

section \<open>Message identifiers commit to the content\<close>

lemma message_id_commits:
  assumes "message_id_of (PStr s) (PStr t) p = Inr k" "message_id_of (PStr s') (PStr t') q = Inr k" "keys_once p" "keys_once q"
  shows "s = s' \<and> t = t' \<and> canon p = canon q \<or> (\<exists>x y. sha_collision x y)"
proof -
  let ?b = "\<lambda>s t p. obj [(''source_did'', PStr s), (''target_did'', PStr t), (''payload'', p)]"
  obtain x y where x: "canonical_json (PDict (?b s t p)) = Inr x" "k = ''sha256:'' @ sha256_hex x"
    and y: "canonical_json (PDict (?b s' t' q)) = Inr y" "k = ''sha256:'' @ sha256_hex y"
    using assms(1,2) by (auto simp: message_id_of_def bindR_Inr_iff)
  have k: "keys_once (PDict (?b s t p))" "keys_once (PDict (?b s' t' q))" using assms(3,4) by (simp_all add: obj_def)
  have w: "wf_json (PDict (?b s t p))" "wf_json (PDict (?b s' t' q))" using canonical_json_Inr [OF x(1) k(1)] canonical_json_Inr [OF y(1) k(2)] by metis+
  have "x = y \<or> sha_collision x y" using x(2) y(2) by (metis sha256_hex_eq_iff same_append_eq)
  moreover have "s = s' \<and> t = t' \<and> canon p = canon q" if "x = y"
  proof -
    have c: "canon (PDict (?b s t p)) = canon (PDict (?b s' t' q))" using canonical_json_injective [OF k x(1) y(1)] that by simp
    obtain d where "canon (PDict (?b s t p)) = PDict d" by simp
    then have "map_option canon (dget (?b s t p) f) = map_option canon (dget (?b s' t' q) f)" for f
      using dget_canon [OF w(1), of d f] dget_canon [OF w(2), of d f] c by simp
    from this [of "''source_did''"] this [of "''target_did''"] this [of "''payload''"] show ?thesis by (simp add: obj_def)
  qed
  ultimately show ?thesis by blast
qed

text \<open>C15. A message identifier names one message. An accepted envelope carries the digest of its sender, receiver and payload, and a signature of all its fields that verifies under the key of
  the sender's DID; two accepted envelopes with one identifier have the same sender, the same receiver and the same payload up to the order of keys, or they exhibit a SHA-256 collision.\<close>

theorem verified_envelope_binds:
  assumes "verify_envelope n e = (True, m)" "verify_envelope n f = (True, m')" "ce_message_id e = ce_message_id f" "keys_once (ce_payload e)" "keys_once (ce_payload f)"
  shows "(\<exists>did pk bs s. ce_source_did e = PStr did \<and> decode_ed25519_did_key did = Inr pk \<and> canonical_json (PDict (envelope_signing_body e)) = Inr bs
      \<and> ce_signature e = PStr (b64u_encode s) \<and> nacl_verify n pk bs s)
    \<and> (ce_source_did e = ce_source_did f \<and> ce_target_did e = ce_target_did f \<and> canon (ce_payload e) = canon (ce_payload f) \<or> (\<exists>x y. sha_collision x y))"
proof -
  have e: "envelope_ok e" "signed_by n (ce_source_did e) (envelope_signing_body e) (ce_signature e)" and f: "envelope_ok f" using assms(1,2) by (simp_all add: verify_envelope_iff)
  obtain s t s' t' where d: "ce_source_did e = PStr s" "ce_target_did e = PStr t" "ce_source_did f = PStr s'" "ce_target_did f = PStr t'"
    using e(1) f is_did_keyD unfolding envelope_ok_def by meson
  have sig: "\<exists>did pk bs s. ce_source_did e = PStr did \<and> decode_ed25519_did_key did = Inr pk \<and> canonical_json (PDict (envelope_signing_body e)) = Inr bs
      \<and> ce_signature e = PStr (b64u_encode s) \<and> nacl_verify n pk bs s"
    using e(2) d(1) by (auto elim!: signed_byE)
  obtain k where "message_id_of (PStr s) (PStr t) (ce_payload e) = Inr k" "message_id_of (PStr s') (PStr t') (ce_payload f) = Inr k"
    using e(1) f assms(3) d by (auto simp: envelope_ok_def)
  then show ?thesis using message_id_commits [of s t "ce_payload e" k s' t' "ce_payload f"] assms(4,5) d sig by simp
qed

section \<open>A message is acknowledged once\<close>

lemma acknowledge_progress:
  assumes "ed25519_ok n" "signer_ok n i" "as_did i = Inr did" "ce_target_did e = PStr did" "envelope_ok e" "is_digest (PStr head)" "order_id \<noteq> []" "length order_id \<le> 160" "0 < now"
    "get_ack n e order_id head ib = Inr None"
  obtains a ib' where "acknowledge n e order_id head i now ib = (ib', Inr (a, True))" "verify_ack n a = (True, ''ok'')" "ak_receiver_did a = ce_target_did e" "ak_message_id a = ce_message_id e"
    "ak_order_id a = PStr order_id" "ak_received_chain_head a = PStr head" "get_ack n e order_id head ib' = Inr (Some a)"
    "\<forall>o' h'. (o', h') \<noteq> (order_id, head) \<longrightarrow> (\<exists>x. get_ack n e o' h' ib' = Inl x)"
proof -
  note dig = envelope_ok_digest [OF assms(5)]
  obtain a where a: "sign_ack n i (ce_message_id e) order_id head now = Inr a" "verify_ack n a = (True, ''ok'')" "ak_receiver_did a = PStr did" "ak_message_id a = ce_message_id e"
    "ak_order_id a = PStr order_id" "ak_received_chain_head a = PStr head"
    using sign_ack_ok [OF assms(1-3) dig assms(7,8,6,9)] by blast
  define stem where "stem = drop 7 (py_str (ce_message_id e))"
  have stem: "digest_stem (ce_message_id e) = Inr stem" using dig by (simp add: digest_stem_def stem_def)
  define r where "r = obj [(''source_did'', ce_source_did e), (''target_did'', ce_target_did e), (''ack'', PDict (ack_to_dict a))]"
  let ?ib = "assoc_put stem (Json (PDict r)) ib"
  have "acknowledge n e order_id head i now ib = (?ib, Inr (a, True))"
    unfolding acknowledge_def by (simp add: stem assms(3,4,10) a(1) r_def)
  moreover have r: "same_keys r [''source_did'', ''target_did'', ''ack'']" "dget_or r ''ack'' PNone = PDict (ack_to_dict a)" "dget_or r ''source_did'' PNone = ce_source_did e"
    "dget_or r ''target_did'' PNone = ce_target_did e" by (auto simp: r_def obj_def same_keys_def dget_or_def)
  have eq: "py_eq (ce_source_did e) (ce_source_did e)" "py_eq (ce_target_did e) (ce_target_did e)" "py_eq (ce_message_id e) (ce_message_id e)"
    using is_did_keyD is_digest_str [OF dig] assms(5) unfolding envelope_ok_def by fastforce+
  have g: "get_ack n e o' h' ?ib = (if o' = order_id \<and> h' = head then Inr (Some a) else envelope_rejected ''stored inbox receipt binding mismatch'')" for o' h'
    unfolding get_ack_def by (simp add: stem r ack_dict_roundtrip a(2-6) eq) (simp add: assms(4) [symmetric] eq envelope_rejected_def ensure_def)
  ultimately show thesis using that [of ?ib a] a assms(4) by (simp add: envelope_rejected_def)
qed

text \<open>C16. The inbox answers a message once. The receiver's first acknowledgement of an accepted envelope is a signed statement, which verifies, of the message, the order and the chain head it
  received; every later call for the same order and head, by whatever identity and at whatever time, returns that same acknowledgement and changes nothing, and a call for another order or another head of
  that message is refused and changes nothing.\<close>

theorem inbox_answers_once:
  assumes "ed25519_ok n" "signer_ok n i" "as_did i = Inr did" "ce_target_did e = PStr did" "verify_envelope n e = (True, m)" "is_digest (PStr head)" "order_id \<noteq> []" "length order_id \<le> 160" "0 < now"
    "get_ack n e order_id head ib = Inr None"
  shows "\<exists>a ib'. acknowledge n e order_id head i now ib = (ib', Inr (a, True)) \<and> verify_ack n a = (True, ''ok'') \<and> ak_receiver_did a = ce_target_did e \<and> ak_message_id a = ce_message_id e
     \<and> ak_order_id a = PStr order_id \<and> ak_received_chain_head a = PStr head \<and> (\<forall>j now'. acknowledge n e order_id head j now' ib' = (ib', Inr (a, False)))
     \<and> (\<forall>o' h' j now'. (o', h') \<noteq> (order_id, head) \<longrightarrow> (\<exists>x. acknowledge n e o' h' j now' ib' = (ib', Inl x)))"
proof -
  have ok: "envelope_ok e" using assms(5) by (simp add: verify_envelope_iff)
  obtain stem where stem: "digest_stem (ce_message_id e) = Inr stem" using envelope_ok_digest [OF ok] by (simp add: digest_stem_def)
  obtain a ib' where a: "acknowledge n e order_id head i now ib = (ib', Inr (a, True))" "verify_ack n a = (True, ''ok'')" "ak_receiver_did a = ce_target_did e" "ak_message_id a = ce_message_id e"
    "ak_order_id a = PStr order_id" "ak_received_chain_head a = PStr head" "get_ack n e order_id head ib' = Inr (Some a)"
    "\<forall>o' h'. (o', h') \<noteq> (order_id, head) \<longrightarrow> (\<exists>x. get_ack n e o' h' ib' = Inl x)"
    by (rule acknowledge_progress [OF assms(1-4) ok assms(6-10)])
  have "\<exists>x. acknowledge n e o' h' j now' ib' = (ib', Inl x)" if other: "(o', h') \<noteq> (order_id, head)" for o' h' j now'
  proof -
    obtain x where "get_ack n e o' h' ib' = Inl x" using a(8) [rule_format, OF other] by (rule exE)
    then show ?thesis by (simp add: acknowledge_def stem)
  qed
  moreover have "acknowledge n e order_id head j now' ib' = (ib', Inr (a, False))" for j now' by (simp add: acknowledge_def stem a(7))
  ultimately show ?thesis using a(1-6) by (intro exI [of _ a] exI [of _ ib'] conjI) simp_all
qed

section \<open>Witnesses\<close>

lemma demo_payload_fits: "payload_fits []"
  by (simp add: payload_fits_def max_payload_bytes_def json_dumps_def utf8_def utf8_char_def Let_def)

lemma demo_envelope:
  obtains e where "sign_envelope demo_nacl (demo_identity 0) (demo_did 1) [] 5 = Inr e" "verify_envelope demo_nacl e = (True, ''ok'')" "ce_source_did e = PStr (demo_did 0)" "ce_target_did e = PStr (demo_did 1)"
    "ce_payload e = PDict []" "ce_created_at_ms e = PInt 5"
  by (rule sign_envelope_ok [OF demo_nacl_ok demo_signer demo_did(1) signer_did_key [OF demo_nacl_ok demo_signer demo_did(1)] demo_payload_fits zero_less_numeral])

theorem verified_envelope_binds_witness:
  "\<exists>e bs s pk. verify_envelope demo_nacl e = (True, ''ok'') \<and> ce_target_did e = PStr (demo_did 1) \<and> canonical_json (PDict (envelope_signing_body e)) = Inr bs
     \<and> decode_ed25519_did_key (demo_did 0) = Inr pk \<and> nacl_verify demo_nacl pk bs s"
proof -
  obtain e where e: "verify_envelope demo_nacl e = (True, ''ok'')" "ce_source_did e = PStr (demo_did 0)" "ce_target_did e = PStr (demo_did 1)" "ce_payload e = PDict []" by (rule demo_envelope)
  have "keys_once (ce_payload e)" by (simp add: e(4))
  from verified_envelope_binds [OF e(1) e(1) refl this this] e show ?thesis by auto
qed

theorem inbox_answers_once_witness:
  "\<exists>e a ib'. verify_envelope demo_nacl e = (True, ''ok'') \<and> acknowledge demo_nacl e ''o1'' (''sha256:'' @ sha256_hex []) (demo_identity 1) 7 [] = (ib', Inr (a, True))
     \<and> acknowledge demo_nacl e ''o1'' (''sha256:'' @ sha256_hex []) (demo_identity 2) 8 ib' = (ib', Inr (a, False)) \<and> verify_ack demo_nacl a = (True, ''ok'')"
proof -
  obtain e where e: "verify_envelope demo_nacl e = (True, ''ok'')" "ce_target_did e = PStr (demo_did 1)" by (rule demo_envelope)
  have "is_digest (ce_message_id e)" using e(1) envelope_ok_digest by (simp add: verify_envelope_iff)
  then have g: "get_ack demo_nacl e ''o1'' (''sha256:'' @ sha256_hex []) [] = Inr None" by (simp add: get_ack_def digest_stem_def)
  from inbox_answers_once [OF demo_nacl_ok demo_signer demo_did(1) e(2) e(1) digest_ok _ _ _ g, of 7]
  obtain a ib' where "acknowledge demo_nacl e ''o1'' (''sha256:'' @ sha256_hex []) (demo_identity 1) 7 [] = (ib', Inr (a, True))" "verify_ack demo_nacl a = (True, ''ok'')"
    "acknowledge demo_nacl e ''o1'' (''sha256:'' @ sha256_hex []) (demo_identity 2) 8 ib' = (ib', Inr (a, False))" by auto
  then show ?thesis using e(1) by blast
qed

end
