(* ===== verification/Outbox.thy ===== *)
theory Outbox
  imports Envelope Json_Indent
begin

text \<open>
  \<open>nth_dao/commerce/outbox.py\<close>, second half: the durable outbox, a file per message with its status, lease, retry time and routes, and an archive of acknowledged messages. A file that was
  written reads back as the value unless its text is over the size limit. The lock of a message makes an operation one step.
\<close>

section \<open>Files\<close>

definition max_outbox_record_bytes :: nat where
  "max_outbox_record_bytes = 768 * 1024"

datatype outbox_file = Oversized | Garbled | Stored pyval

definition written_file :: "pyval \<Rightarrow> outbox_file" where
  "written_file v = (if max_outbox_record_bytes < length (utf8 (text_indent 0 v)) then Oversized else Stored v)"

definition load_record :: "outbox_file option \<Rightarrow> pydict option res" where
  "load_record f = (case f of
     None \<Rightarrow> Inr None
   | Some Oversized \<Rightarrow> envelope_rejected ''outbox record is too large''
   | Some Garbled \<Rightarrow> envelope_rejected ''corrupt outbox JSON''
   | Some (Stored (PDict d)) \<Rightarrow> Inr (Some d)
   | Some (Stored _) \<Rightarrow> envelope_rejected ''outbox record is not an object'')"

section \<open>Records\<close>

record outbox_record =
  or_envelope :: pydict
  or_target_url :: string
  or_status :: string
  or_attempts :: int
  or_last_error :: string
  or_acknowledged_at_ms :: int
  or_blocked_at_ms :: int
  or_last_attempt_at_ms :: int
  or_next_attempt_at_ms :: int
  or_lease_id :: string
  or_lease_expires_at_ms :: int
  or_route_history :: "pydict list option"

definition outbox_record_fields :: "string list" where
  "outbox_record_fields = [''envelope'', ''target_url'', ''status'', ''attempts'', ''last_error'', ''acknowledged_at_ms'', ''blocked_at_ms'', ''last_attempt_at_ms'',
     ''next_attempt_at_ms'', ''lease_id'', ''lease_expires_at_ms'', ''route_history'']"

definition new_outbox_record :: "pydict \<Rightarrow> string \<Rightarrow> outbox_record" where
  "new_outbox_record envelope target_url =
     \<lparr>or_envelope = envelope, or_target_url = target_url, or_status = ''pending'', or_attempts = 0, or_last_error = [], or_acknowledged_at_ms = 0, or_blocked_at_ms = 0,
      or_last_attempt_at_ms = 0, or_next_attempt_at_ms = 0, or_lease_id = [], or_lease_expires_at_ms = 0, or_route_history = None\<rparr>"

definition record_dict :: "outbox_record \<Rightarrow> pydict" where
  "record_dict r = obj [(''envelope'', PDict (or_envelope r)), (''target_url'', PStr (or_target_url r)), (''status'', PStr (or_status r)), (''attempts'', PInt (or_attempts r)),
     (''last_error'', PStr (or_last_error r)), (''acknowledged_at_ms'', PInt (or_acknowledged_at_ms r)), (''blocked_at_ms'', PInt (or_blocked_at_ms r)),
     (''last_attempt_at_ms'', PInt (or_last_attempt_at_ms r)), (''next_attempt_at_ms'', PInt (or_next_attempt_at_ms r)), (''lease_id'', PStr (or_lease_id r)),
     (''lease_expires_at_ms'', PInt (or_lease_expires_at_ms r)), (''route_history'', case or_route_history r of None \<Rightarrow> PNone | Some h \<Rightarrow> PList (map PDict h))]"

definition non_negative :: "pyval \<Rightarrow> string \<Rightarrow> int res" where
  "non_negative v name = (case strict_int v of
     Some i \<Rightarrow> ensure (0 \<le> i) CommerceEnvelopeRejected (''outbox record has invalid '' @ name) (Inr i)
   | None \<Rightarrow> envelope_rejected (''outbox record has invalid '' @ name))"

definition route_ok :: "(string \<Rightarrow> bool) \<Rightarrow> pydict \<Rightarrow> bool" where
  "route_ok bracketed item \<longleftrightarrow> same_keys item [''target_did'', ''previous_url'', ''new_url'', ''changed_at_ms'']
     \<and> (\<forall>k \<in> {''previous_url'', ''new_url''}. case normalize_target_url bracketed (dget_or item k PNone) of Inr u \<Rightarrow> dget_or item k PNone = PStr u | Inl _ \<Rightarrow> False)
     \<and> is_did_key (dget_or item ''target_did'' PNone) \<and> positive_int (dget_or item ''changed_at_ms'' PNone)"

definition route_history_of :: "(string \<Rightarrow> bool) \<Rightarrow> pyval \<Rightarrow> pydict list option res" where
  "route_history_of bracketed v = (case v of
     PNone \<Rightarrow> Inr None
   | PList xs \<Rightarrow>
       ensure (length xs \<le> 20 \<and> list_all is_dict xs) CommerceEnvelopeRejected ''outbox record has invalid route history'' (
       let items = map (\<lambda>x. case x of PDict d \<Rightarrow> d | _ \<Rightarrow> []) xs in
       ensure (list_all (route_ok bracketed) items) CommerceEnvelopeRejected ''outbox record has invalid route history'' (Inr (Some items)))
   | _ \<Rightarrow> envelope_rejected ''outbox record has invalid route history'')"

definition kept_error :: "string \<Rightarrow> string \<Rightarrow> string" where
  "kept_error status last_error =
     (if status = ''acknowledged'' then [] else if last_error \<noteq> [] then normalize_outbox_error last_error (status \<noteq> ''blocked'') else [])"

definition decode_outbox_record :: "(string \<Rightarrow> bool) \<Rightarrow> pydict \<Rightarrow> outbox_record res" where
  "decode_outbox_record bracketed d =
     ensure (dhas d ''envelope'' \<and> dhas d ''target_url'' \<and> set (map fst d) \<subseteq> PStr ` set outbox_record_fields) CommerceEnvelopeRejected ''outbox record has invalid fields'' (
     let status = dget_or d ''status'' (PStr ''pending'') in
     bindR (in_str_set status [''pending'', ''inflight'', ''blocked'', ''acknowledged'']) (\<lambda>known.
     ensure known CommerceEnvelopeRejected ''outbox record has invalid status'' (
     case dget_or d ''envelope'' PNone of
       PDict env \<Rightarrow>
         (case normalize_target_url bracketed (dget_or d ''target_url'' PNone) of
            Inl _ \<Rightarrow> envelope_rejected ''outbox record has invalid target URL''
          | Inr url \<Rightarrow>
            ensure (dget_or d ''target_url'' PNone = PStr url) CommerceEnvelopeRejected ''outbox record has noncanonical target URL'' (
            bindR (non_negative (dget_or d ''attempts'' (PInt 0)) ''attempts'') (\<lambda>attempts.
            case (dget_or d ''last_error'' (PStr []), dget_or d ''lease_id'' (PStr [])) of
              (PStr last_error, PStr lease_id) \<Rightarrow>
                bindR (non_negative (dget_or d ''acknowledged_at_ms'' (PInt 0)) ''acknowledged_at_ms'') (\<lambda>acked.
                bindR (non_negative (dget_or d ''blocked_at_ms'' (PInt 0)) ''blocked_at_ms'') (\<lambda>blocked.
                bindR (non_negative (dget_or d ''last_attempt_at_ms'' (PInt 0)) ''last_attempt_at_ms'') (\<lambda>attempted.
                bindR (non_negative (dget_or d ''next_attempt_at_ms'' (PInt 0)) ''next_attempt_at_ms'') (\<lambda>next_at.
                bindR (non_negative (dget_or d ''lease_expires_at_ms'' (PInt 0)) ''lease_expires_at_ms'') (\<lambda>expires.
                bindR (route_history_of bracketed (dget_or d ''route_history'' PNone)) (\<lambda>routes.
                let st = py_str status in
                ensure (st = ''inflight'' \<longrightarrow> lease_id \<noteq> [] \<and> 0 < expires) CommerceEnvelopeRejected ''outbox record has invalid lease'' (
                ensure (st = ''acknowledged'' \<longrightarrow> 0 < acked) CommerceEnvelopeRejected ''outbox record has invalid acknowledgement'' (
                ensure (st = ''blocked'' \<longrightarrow> 0 < blocked) CommerceEnvelopeRejected ''outbox record has invalid blocked timestamp'' (
                Inr \<lparr>or_envelope = env, or_target_url = url, or_status = st, or_attempts = attempts, or_last_error = kept_error st last_error, or_acknowledged_at_ms = acked,
                  or_blocked_at_ms = blocked, or_last_attempt_at_ms = attempted, or_next_attempt_at_ms = next_at, or_lease_id = lease_id, or_lease_expires_at_ms = expires,
                  or_route_history = routes\<rparr>)))))))))
            | _ \<Rightarrow> envelope_rejected ''outbox record has invalid text fields'')))
     | _ \<Rightarrow> envelope_rejected ''outbox record has invalid envelope'')))"

section \<open>Operations\<close>

record outbox =
  ob_live :: "(string \<times> outbox_file) list"
  ob_archive :: "(string \<times> outbox_file) list"

definition put_live :: "string \<Rightarrow> outbox_record \<Rightarrow> outbox \<Rightarrow> outbox" where
  "put_live stem r ob = ob\<lparr>ob_live := assoc_put stem (written_file (PDict (record_dict r))) (ob_live ob)\<rparr>"

definition put_archive :: "string \<Rightarrow> outbox_record \<Rightarrow> outbox \<Rightarrow> outbox" where
  "put_archive stem r ob = ob\<lparr>ob_archive := assoc_put stem (written_file (PDict (record_dict r))) (ob_archive ob)\<rparr>"

text \<open>The record of a message, and whether it lies in the archive.\<close>

definition find_record :: "string \<Rightarrow> outbox \<Rightarrow> (bool \<times> pydict) option res" where
  "find_record stem ob =
     bindR (load_record (map_of (ob_live ob) stem)) (\<lambda>live. case live of
       Some d \<Rightarrow> Inr (Some (False, d))
     | None \<Rightarrow> bindR (load_record (map_of (ob_archive ob) stem)) (\<lambda>archived. Inr (case archived of Some d \<Rightarrow> Some (True, d) | None \<Rightarrow> None)))"

definition route_entry :: "envelope \<Rightarrow> string \<Rightarrow> string \<Rightarrow> int \<Rightarrow> pydict" where
  "route_entry e previous_url new_url changed_at_ms =
     obj [(''target_did'', ce_target_did e), (''previous_url'', PStr previous_url), (''new_url'', PStr new_url), (''changed_at_ms'', PInt changed_at_ms)]"

definition retarget :: "envelope \<Rightarrow> string \<Rightarrow> int \<Rightarrow> outbox_record \<Rightarrow> outbox_record" where
  "retarget e url now r =
     (let history = (case or_route_history r of None \<Rightarrow> [] | Some h \<Rightarrow> h) @ [route_entry e (or_target_url r) url now] in
      r\<lparr>or_target_url := url, or_route_history := Some (drop (length history - 20) history), or_status := ''pending'', or_blocked_at_ms := 0, or_next_attempt_at_ms := 0,
        or_last_error := []\<rparr>)"

text \<open>What \<open>enqueue\<close> writes under the lock of the message, if it writes, and returns.\<close>

definition enqueue_plan :: "nacl \<Rightarrow> (string \<Rightarrow> bool) \<Rightarrow> envelope \<Rightarrow> string \<Rightarrow> bool \<Rightarrow> int \<Rightarrow> (bool \<times> pydict) option \<Rightarrow> (bool \<times> outbox_record) res" where
  "enqueue_plan n bracketed e url allow_retarget now current = (case current of
     None \<Rightarrow> Inr (True, new_outbox_record (envelope_to_dict e) url)
   | Some (_, d) \<Rightarrow>
       (case envelope_from_dict (dget_or d ''envelope'' PNone) of
          Inl _ \<Rightarrow> envelope_rejected ''stored outbox envelope is invalid''
        | Inr old \<Rightarrow> (case verify_envelope n old of (ok, reason) \<Rightarrow>
            ensure ok CommerceEnvelopeRejected (''stored outbox envelope is invalid: '' @ reason) (
            ensure (py_eq (ce_message_id old) (ce_message_id e) \<and> py_eq (ce_source_did old) (ce_source_did e) \<and> py_eq (ce_target_did old) (ce_target_did e)
                \<and> py_eq (ce_payload old) (ce_payload e)) CommerceEnvelopeRejected ''outbox message id collision'' (
            bindR (decode_outbox_record bracketed d) (\<lambda>r.
            if or_status r = ''acknowledged''
            then ensure (or_target_url r = url) CommerceEnvelopeRejected ''acknowledged outbox work cannot be retargeted'' (Inr (False, r))
            else if or_target_url r = url then Inr (False, r)
            else ensure allow_retarget CommerceEnvelopeRejected ''outbox target URL changed without retarget authorization'' (
              ensure (or_status r \<in> {''pending'', ''blocked''}) CommerceEnvelopeRejected ''only pending or blocked outbox work can be retargeted'' (
              Inr (True, retarget old url now r)))))))))"

definition enqueue :: "nacl \<Rightarrow> (string \<Rightarrow> bool) \<Rightarrow> envelope \<Rightarrow> pyval \<Rightarrow> bool \<Rightarrow> int \<Rightarrow> outbox \<Rightarrow> outbox \<times> outbox_record res" where
  "enqueue n bracketed e target_url allow_retarget now ob =
     (case bindR (case verify_envelope n e of (ok, reason) \<Rightarrow> ensure ok CommerceEnvelopeRejected reason (Inr ())) (\<lambda>_.
           bindR (normalize_target_url bracketed target_url) (\<lambda>url.
           bindR (digest_stem (ce_message_id e)) (\<lambda>stem.
           bindR (find_record stem ob) (\<lambda>current.
           bindR (enqueue_plan n bracketed e url allow_retarget now current) (\<lambda>plan. Inr (stem, plan)))))) of
        Inl x \<Rightarrow> (ob, Inl x)
      | Inr (stem, writes, r) \<Rightarrow> (if writes then put_live stem r ob else ob, Inr r))"

definition message_stem :: "string \<Rightarrow> string res" where
  "message_stem message_id = digest_stem (PStr message_id)"

definition outbox_get :: "(string \<Rightarrow> bool) \<Rightarrow> string \<Rightarrow> outbox \<Rightarrow> outbox \<times> outbox_record option res" where
  "outbox_get bracketed message_id ob =
     (case bindR (message_stem message_id) (\<lambda>stem.
           bindR (find_record stem ob) (\<lambda>found. case found of
             None \<Rightarrow> Inr None
           | Some (archived, d) \<Rightarrow> bindR (decode_outbox_record bracketed d) (\<lambda>r. Inr (Some (stem, archived, d, r))))) of
        Inl x \<Rightarrow> (ob, Inl x)
      | Inr None \<Rightarrow> (ob, Inr None)
      | Inr (Some (stem, archived, d, r)) \<Rightarrow>
          (if dget_or d ''last_error'' PNone \<noteq> PStr (or_last_error r) then (if archived then put_archive else put_live) stem r ob else ob, Inr (Some r)))"

definition leased :: "int \<Rightarrow> int \<Rightarrow> string \<Rightarrow> outbox_record \<Rightarrow> outbox_record" where
  "leased now lease_ms lid r = r\<lparr>or_status := ''inflight'', or_blocked_at_ms := 0, or_lease_id := lid, or_lease_expires_at_ms := now + lease_ms\<rparr>"

definition claimable :: "int \<Rightarrow> bool \<Rightarrow> outbox_record \<Rightarrow> bool" where
  "claimable now force r \<longleftrightarrow>
     (if or_status r = ''acknowledged'' then False
      else if or_status r = ''blocked'' \<and> \<not> force then False
      else if or_status r = ''inflight'' \<and> now < or_lease_expires_at_ms r then False
      else if or_status r = ''pending'' \<and> now < or_next_attempt_at_ms r \<and> \<not> force then False
      else True)"

definition outbox_claim :: "(string \<Rightarrow> bool) \<Rightarrow> string \<Rightarrow> int \<Rightarrow> int \<Rightarrow> bool \<Rightarrow> string \<Rightarrow> outbox \<Rightarrow> outbox \<times> outbox_record option res" where
  "outbox_claim bracketed message_id lease_ms now force fresh_lease ob =
     (case ensure (1000 \<le> lease_ms \<and> lease_ms \<le> 300000) CommerceEnvelopeRejected ''lease_ms must be between 1000 and 300000'' (
           bindR (message_stem message_id) (\<lambda>stem.
           bindR (load_record (map_of (ob_live ob) stem)) (\<lambda>found. case found of
             None \<Rightarrow> Inr None
           | Some d \<Rightarrow> bindR (case decode_outbox_record bracketed d of
                 Inl x \<Rightarrow> if exn_cls x = CommerceEnvelopeRejected then envelope_rejected ''stored outbox record is invalid'' else Inl x
               | Inr r \<Rightarrow> Inr r) (\<lambda>r. Inr (if claimable now force r then Some (stem, leased now lease_ms fresh_lease r) else None))))) of
        Inl x \<Rightarrow> (ob, Inl x)
      | Inr None \<Rightarrow> (ob, Inr None)
      | Inr (Some (stem, r)) \<Rightarrow> (put_live stem r ob, Inr (Some r)))"

definition id_of_stem :: "string \<Rightarrow> string" where
  "id_of_stem stem = ''sha256:'' @ stem"

definition live_stems :: "outbox \<Rightarrow> string list" where
  "live_stems ob = sort (map fst (ob_live ob))"

fun claim_stems :: "(string \<Rightarrow> bool) \<Rightarrow> nat \<Rightarrow> int \<Rightarrow> int \<Rightarrow> bool \<Rightarrow> (string \<Rightarrow> string) \<Rightarrow> outbox_record list \<Rightarrow> string list \<Rightarrow> outbox \<Rightarrow> outbox \<times> outbox_record list res" where
  "claim_stems bracketed limit lease_ms now force fresh claimed [] ob = (ob, Inr claimed)"
| "claim_stems bracketed limit lease_ms now force fresh claimed (stem # stems) ob =
     (case outbox_claim bracketed (id_of_stem stem) lease_ms now force (fresh stem) ob of
        (ob', Inl x) \<Rightarrow> if exn_cls x = TypeError \<or> is_value_error x then claim_stems bracketed limit lease_ms now force fresh claimed stems ob' else (ob', Inl x)
      | (ob', Inr None) \<Rightarrow> claim_stems bracketed limit lease_ms now force fresh claimed stems ob'
      | (ob', Inr (Some r)) \<Rightarrow> if limit \<le> length (claimed @ [r]) then (ob', Inr (claimed @ [r])) else claim_stems bracketed limit lease_ms now force fresh (claimed @ [r]) stems ob')"

definition claim_pending :: "(string \<Rightarrow> bool) \<Rightarrow> int \<Rightarrow> int \<Rightarrow> int \<Rightarrow> bool \<Rightarrow> (string \<Rightarrow> string) \<Rightarrow> outbox \<Rightarrow> outbox \<times> outbox_record list res" where
  "claim_pending bracketed limit lease_ms now force fresh ob =
     (if \<not> (1 \<le> limit \<and> limit \<le> 1000) then (ob, envelope_rejected ''limit must be between 1 and 1000'')
      else if \<not> (1000 \<le> lease_ms \<and> lease_ms \<le> 300000) then (ob, envelope_rejected ''lease_ms must be between 1000 and 300000'')
      else claim_stems bracketed (nat limit) lease_ms now force fresh [] (live_stems ob) ob)"

fun list_rows :: "(string \<Rightarrow> bool) \<Rightarrow> string list \<Rightarrow> nat \<Rightarrow> outbox \<Rightarrow> outbox_record list \<Rightarrow> string list \<Rightarrow> outbox_record list res" where
  "list_rows bracketed statuses limit ob rows [] = Inr rows"
| "list_rows bracketed statuses limit ob rows (stem # stems) =
     (case load_record (map_of (ob_live ob) stem) of
        Inl _ \<Rightarrow> list_rows bracketed statuses limit ob rows stems
      | Inr None \<Rightarrow> list_rows bracketed statuses limit ob rows stems
      | Inr (Some d) \<Rightarrow>
          (case decode_outbox_record bracketed d of
             Inl x \<Rightarrow> if exn_cls x = CommerceEnvelopeRejected then list_rows bracketed statuses limit ob rows stems else Inl x
           | Inr r \<Rightarrow>
               if or_status r \<in> set statuses
               then if limit \<le> length (rows @ [r]) then Inr (rows @ [r]) else list_rows bracketed statuses limit ob (rows @ [r]) stems
               else list_rows bracketed statuses limit ob rows stems))"

definition list_statuses :: "(string \<Rightarrow> bool) \<Rightarrow> string list \<Rightarrow> int \<Rightarrow> outbox \<Rightarrow> outbox_record list res" where
  "list_statuses bracketed statuses limit ob =
     (if \<not> (1 \<le> limit \<and> limit \<le> 1000) then envelope_rejected ''limit must be between 1 and 1000''
      else list_rows bracketed statuses (nat limit) ob [] (live_stems ob))"

definition outbox_pending :: "(string \<Rightarrow> bool) \<Rightarrow> int \<Rightarrow> outbox \<Rightarrow> outbox_record list res" where
  "outbox_pending bracketed limit ob = list_statuses bracketed [''pending'', ''inflight''] limit ob"

definition outbox_blocked :: "(string \<Rightarrow> bool) \<Rightarrow> int \<Rightarrow> outbox \<Rightarrow> outbox_record list res" where
  "outbox_blocked bracketed limit ob = list_statuses bracketed [''blocked''] limit ob"

definition attempted :: "int \<Rightarrow> string \<Rightarrow> int \<Rightarrow> int \<Rightarrow> bool \<Rightarrow> outbox_record \<Rightarrow> outbox_record" where
  "attempted acknowledged_at_ms error retry_after_ms now retryable r =
     (let r = r\<lparr>or_attempts := or_attempts r + 1, or_last_attempt_at_ms := now\<rparr>;
          r = (if acknowledged_at_ms \<noteq> 0
               then r\<lparr>or_status := ''acknowledged'', or_acknowledged_at_ms := acknowledged_at_ms, or_blocked_at_ms := 0, or_last_error := [], or_next_attempt_at_ms := 0\<rparr>
               else if \<not> retryable
               then r\<lparr>or_status := ''blocked'', or_blocked_at_ms := now, or_last_error := normalize_outbox_error error False, or_next_attempt_at_ms := 0\<rparr>
               else r\<lparr>or_status := ''pending'', or_blocked_at_ms := 0, or_last_error := normalize_outbox_error error True, or_next_attempt_at_ms := now + retry_after_ms\<rparr>) in
      r\<lparr>or_lease_id := [], or_lease_expires_at_ms := 0\<rparr>)"

definition record_attempt :: "(string \<Rightarrow> bool) \<Rightarrow> string \<Rightarrow> int \<Rightarrow> string \<Rightarrow> string \<Rightarrow> int \<Rightarrow> int \<Rightarrow> bool \<Rightarrow> outbox \<Rightarrow> outbox \<times> outbox_record res" where
  "record_attempt bracketed message_id acknowledged_at_ms error lease_id retry_after_ms now retryable ob =
     (case ensure (0 \<le> acknowledged_at_ms) CommerceEnvelopeRejected ''acknowledged_at_ms must be a non-negative integer'' (
           ensure (0 \<le> retry_after_ms \<and> retry_after_ms \<le> 86400000) CommerceEnvelopeRejected ''retry_after_ms must be between 0 and 86400000'' (
           bindR (message_stem message_id) (\<lambda>stem.
           bindR (load_record (map_of (ob_live ob) stem)) (\<lambda>found. case found of
             None \<Rightarrow> envelope_rejected ''outbox message not found''
           | Some d \<Rightarrow> bindR (decode_outbox_record bracketed d) (\<lambda>r.
               if or_status r = ''acknowledged'' then Inr (None, r)
               else ensure (or_status r = ''inflight'' \<longrightarrow> lease_id \<noteq> [] \<and> lease_id = or_lease_id r) CommerceEnvelopeRejected ''outbox lease does not match active delivery'' (
                 Inr (Some stem, attempted acknowledged_at_ms error retry_after_ms now retryable r))))))) of
        Inl x \<Rightarrow> (ob, Inl x)
      | Inr (None, r) \<Rightarrow> (ob, Inr r)
      | Inr (Some stem, r) \<Rightarrow> (put_live stem r ob, Inr r))"

definition archivable :: "(string \<Rightarrow> bool) \<Rightarrow> int \<Rightarrow> outbox_file option \<Rightarrow> bool res" where
  "archivable bracketed before_ms f = (case load_record f of
     Inl _ \<Rightarrow> Inr False
   | Inr None \<Rightarrow> Inr False
   | Inr (Some d) \<Rightarrow> (case decode_outbox_record bracketed d of
       Inl x \<Rightarrow> if exn_cls x = CommerceEnvelopeRejected then Inr False else Inl x
     | Inr r \<Rightarrow> Inr (or_status r = ''acknowledged'' \<and> 0 < or_acknowledged_at_ms r \<and> or_acknowledged_at_ms r < before_ms)))"

definition move_file :: "string \<Rightarrow> outbox \<Rightarrow> outbox" where
  "move_file stem ob = (case map_of (ob_live ob) stem of
     None \<Rightarrow> ob
   | Some f \<Rightarrow> \<lparr>ob_live = filter (\<lambda>(s, _). s \<noteq> stem) (ob_live ob), ob_archive = assoc_put stem f (ob_archive ob)\<rparr>)"

fun archive_stems :: "(string \<Rightarrow> bool) \<Rightarrow> int \<Rightarrow> nat \<Rightarrow> string list \<Rightarrow> string list \<Rightarrow> outbox \<Rightarrow> outbox \<times> string list res" where
  "archive_stems bracketed before_ms limit archived [] ob = (ob, Inr archived)"
| "archive_stems bracketed before_ms limit archived (stem # stems) ob =
     (case archivable bracketed before_ms (map_of (ob_live ob) stem) of
        Inl x \<Rightarrow> (ob, Inl x)
      | Inr False \<Rightarrow> archive_stems bracketed before_ms limit archived stems ob
      | Inr True \<Rightarrow>
          if map_of (ob_archive ob) stem \<noteq> None then (ob, envelope_rejected (''archive already contains '' @ id_of_stem stem))
          else let archived' = archived @ [id_of_stem stem]; ob' = move_file stem ob in
            if limit \<le> length archived' then (ob', Inr archived') else archive_stems bracketed before_ms limit archived' stems ob')"

definition archive_acknowledged :: "(string \<Rightarrow> bool) \<Rightarrow> int \<Rightarrow> int \<Rightarrow> outbox \<Rightarrow> outbox \<times> string list res" where
  "archive_acknowledged bracketed before_ms limit ob =
     (if before_ms \<le> 0 then (ob, envelope_rejected ''before_ms must be a positive integer'')
      else if \<not> (1 \<le> limit \<and> limit \<le> 1000) then (ob, envelope_rejected ''limit must be between 1 and 1000'')
      else archive_stems bracketed before_ms (nat limit) [] (live_stems ob) ob)"

section \<open>Stored records read back\<close>

lemma error_codes_stripped: "c \<in> set outbox_error_codes \<Longrightarrow> py_strip c = c \<and> c \<noteq> []"
proof -
  have "list_all (\<lambda>c. py_strip c = c \<and> c \<noteq> []) outbox_error_codes" by code_simp
  then show "c \<in> set outbox_error_codes \<Longrightarrow> py_strip c = c \<and> c \<noteq> []" by (simp add: list_all_iff)
qed

lemma normalized_error: "normalize_outbox_error e retry \<in> set outbox_error_codes"
proof -
  have "''delivery-failed'' \<in> set outbox_error_codes" "''delivery-permanently-rejected'' \<in> set outbox_error_codes" by (simp_all add: outbox_error_codes_def)
  then show ?thesis by (simp add: normalize_outbox_error_def)
qed

lemma normalize_code: "e \<in> set outbox_error_codes \<Longrightarrow> normalize_outbox_error e retry = e"
  using error_codes_stripped by (simp add: normalize_outbox_error_def)

text \<open>What a record that was read satisfies, and what makes a written record read back.\<close>

definition record_ok :: "(string \<Rightarrow> bool) \<Rightarrow> outbox_record \<Rightarrow> bool" where
  "record_ok b r \<longleftrightarrow> normalize_target_url b (PStr (or_target_url r)) = Inr (or_target_url r) \<and> or_status r \<in> set [''pending'', ''inflight'', ''blocked'', ''acknowledged'']
     \<and> 0 \<le> or_attempts r \<and> 0 \<le> or_acknowledged_at_ms r \<and> 0 \<le> or_blocked_at_ms r \<and> 0 \<le> or_last_attempt_at_ms r \<and> 0 \<le> or_next_attempt_at_ms r \<and> 0 \<le> or_lease_expires_at_ms r
     \<and> (or_last_error r = [] \<or> or_last_error r \<in> set outbox_error_codes \<and> or_status r \<noteq> ''acknowledged'')
     \<and> (case or_route_history r of None \<Rightarrow> True | Some h \<Rightarrow> length h \<le> 20 \<and> list_all (route_ok b) h)
     \<and> (or_status r = ''inflight'' \<longrightarrow> or_lease_id r \<noteq> [] \<and> 0 < or_lease_expires_at_ms r) \<and> (or_status r = ''acknowledged'' \<longrightarrow> 0 < or_acknowledged_at_ms r)
     \<and> (or_status r = ''blocked'' \<longrightarrow> 0 < or_blocked_at_ms r)"

lemma kept_error_ok: "kept_error st e = [] \<or> kept_error st e \<in> set outbox_error_codes \<and> st \<noteq> ''acknowledged''"
  using normalized_error by (simp add: kept_error_def)

lemma kept_error_same: "e = [] \<or> e \<in> set outbox_error_codes \<and> st \<noteq> ''acknowledged'' \<Longrightarrow> kept_error st e = e"
  by (auto simp: kept_error_def normalize_code)

lemma non_negative_Inr: "non_negative v nm = Inr i \<longleftrightarrow> strict_int v = Some i \<and> 0 \<le> i"
  by (auto simp: non_negative_def envelope_rejected_def ensure_Inr_iff split: option.splits)

lemma route_history_ok: "route_history_of b v = Inr h \<Longrightarrow> case h of None \<Rightarrow> True | Some h \<Rightarrow> length h \<le> 20 \<and> list_all (route_ok b) h"
  by (auto simp: route_history_of_def envelope_rejected_def ensure_Inr_iff Let_def split: pyval.splits)

lemma decode_ok:
  assumes "decode_outbox_record b d = Inr r"
  shows "record_ok b r" and "\<exists>env. dget_or d ''envelope'' PNone = PDict env \<and> or_envelope r = env"
proof -
  obtain env where env: "dget_or d ''envelope'' PNone = PDict env"
    using assms by (auto simp: decode_outbox_record_def res_iffs envelope_rejected_def Let_def split: pyval.splits)
  obtain st where st: "dget_or d ''status'' (PStr ''pending'') = PStr st" "st \<in> set [''pending'', ''inflight'', ''blocked'', ''acknowledged'']"
    using assms by (auto simp: decode_outbox_record_def res_iffs Let_def in_str_set_def)
  obtain url where url: "normalize_target_url b (dget_or d ''target_url'' PNone) = Inr url"
    using assms by (auto simp: decode_outbox_record_def res_iffs env envelope_rejected_def Let_def split: sum.splits)
  obtain err lid where tx: "dget_or d ''last_error'' (PStr []) = PStr err" "dget_or d ''lease_id'' (PStr []) = PStr lid"
    using assms by (cases "dget_or d ''last_error'' (PStr [])"; cases "dget_or d ''lease_id'' (PStr [])")
      (auto simp: decode_outbox_record_def res_iffs env url envelope_rejected_def Let_def)
  have k: "in_str_set (PStr st) [''pending'', ''inflight'', ''blocked'', ''acknowledged''] = Inr True" using st(2) by (auto simp: in_str_set_def hashable_def)
  note a = assms [unfolded decode_outbox_record_def Let_def env st(1) k url tx, simplified, unfolded res_iffs non_negative_Inr]
  have r: "or_envelope r = env" "or_target_url r = url" "or_status r = st" "or_last_error r = kept_error st err" using a by auto
  have h: "route_history_of b (dget_or d ''route_history'' PNone) = Inr (or_route_history r)" using a by auto
  have i: "0 \<le> or_attempts r" "0 \<le> or_acknowledged_at_ms r" "0 \<le> or_blocked_at_ms r" "0 \<le> or_last_attempt_at_ms r" "0 \<le> or_next_attempt_at_ms r" "0 \<le> or_lease_expires_at_ms r"
    using a by auto
  have c: "st = ''inflight'' \<Longrightarrow> or_lease_id r \<noteq> [] \<and> 0 < or_lease_expires_at_ms r" using a by auto
  have d: "st = ''acknowledged'' \<Longrightarrow> 0 < or_acknowledged_at_ms r" using a by auto
  have e: "st = ''blocked'' \<Longrightarrow> 0 < or_blocked_at_ms r" using a by auto
  show "record_ok b r" using i c d e route_history_ok [OF h] st(2) normalize_idem [OF url] kept_error_ok [of st err] by (simp add: record_ok_def r)
  show "\<exists>env. dget_or d ''envelope'' PNone = PDict env \<and> or_envelope r = env" using env r(1) by simp
qed

lemma route_history_written:
  assumes "case h of None \<Rightarrow> True | Some h \<Rightarrow> length h \<le> 20 \<and> list_all (route_ok b) h"
  shows "route_history_of b (case h of None \<Rightarrow> PNone | Some h \<Rightarrow> PList (map PDict h)) = Inr h"
  using assms by (cases h) (simp_all add: route_history_of_def Let_def is_dict_def list_all_iff comp_def)

lemma record_dict_fields:
  "set (map fst (record_dict r)) \<subseteq> PStr ` set outbox_record_fields" "dhas (record_dict r) ''envelope''" "dhas (record_dict r) ''target_url''"
  "dget_or (record_dict r) ''envelope'' x = PDict (or_envelope r)" "dget_or (record_dict r) ''target_url'' x = PStr (or_target_url r)" "dget_or (record_dict r) ''status'' x = PStr (or_status r)"
  "dget_or (record_dict r) ''attempts'' x = PInt (or_attempts r)" "dget_or (record_dict r) ''last_error'' x = PStr (or_last_error r)" "dget_or (record_dict r) ''lease_id'' x = PStr (or_lease_id r)"
  "dget_or (record_dict r) ''acknowledged_at_ms'' x = PInt (or_acknowledged_at_ms r)" "dget_or (record_dict r) ''blocked_at_ms'' x = PInt (or_blocked_at_ms r)"
  "dget_or (record_dict r) ''last_attempt_at_ms'' x = PInt (or_last_attempt_at_ms r)" "dget_or (record_dict r) ''next_attempt_at_ms'' x = PInt (or_next_attempt_at_ms r)"
  "dget_or (record_dict r) ''lease_expires_at_ms'' x = PInt (or_lease_expires_at_ms r)"
  "dget_or (record_dict r) ''route_history'' x = (case or_route_history r of None \<Rightarrow> PNone | Some h \<Rightarrow> PList (map PDict h))"
  by (simp_all add: record_dict_def obj_def outbox_record_fields_def dget_or_def dhas_def)

lemma decode_written:
  assumes "record_ok b r"
  shows "decode_outbox_record b (record_dict r) = Inr r"
proof -
  note o = assms [unfolded record_ok_def]
  have e: "kept_error (or_status r) (or_last_error r) = or_last_error r" using o by (intro kept_error_same) blast
  have h: "route_history_of b (case or_route_history r of None \<Rightarrow> PNone | Some h \<Rightarrow> PList (map PDict h)) = Inr (or_route_history r)" using o by (intro route_history_written) blast
  have u: "normalize_target_url b (PStr (or_target_url r)) = Inr (or_target_url r)" using o by blast
  have k: "in_str_set (PStr (or_status r)) [''pending'', ''inflight'', ''blocked'', ''acknowledged''] = Inr True" using o by (auto simp: in_str_set_def hashable_def)
  have nn: "0 \<le> i \<Longrightarrow> non_negative (PInt i) nm = Inr i" for i nm by (simp add: non_negative_def strict_int_def)
  have "decode_outbox_record b (record_dict r) = Inr \<lparr>or_envelope = or_envelope r, or_target_url = or_target_url r, or_status = or_status r, or_attempts = or_attempts r,
      or_last_error = or_last_error r, or_acknowledged_at_ms = or_acknowledged_at_ms r, or_blocked_at_ms = or_blocked_at_ms r, or_last_attempt_at_ms = or_last_attempt_at_ms r,
      or_next_attempt_at_ms = or_next_attempt_at_ms r, or_lease_id = or_lease_id r, or_lease_expires_at_ms = or_lease_expires_at_ms r, or_route_history = or_route_history r\<rparr>"
    unfolding decode_outbox_record_def record_dict_fields Let_def k using o record_dict_fields(1) [of r] by (simp add: record_dict_fields u e h nn)
  then show ?thesis by simp
qed

end
