(* ===== verification/Outbox_Run.thy ===== *)
theory Outbox_Run
  imports Outbox
begin

text \<open>
  The outbox as a machine: the operations of \<open>nth_dao/commerce/outbox.py\<close> refine, message by message, a small step relation on records (a new route, a lease, a reported attempt), and what holds of
  every sequence of operations follows from that relation.
\<close>

section \<open>The life of one message\<close>

datatype msg_event = Routed | Leased int | Reported string

inductive msg_move :: "msg_event \<Rightarrow> outbox_record \<Rightarrow> outbox_record \<Rightarrow> bool" where
  route: "or_status r \<in> {''pending'', ''blocked''} \<Longrightarrow> msg_move Routed r (retarget e url now r)"
| lease: "or_status r \<noteq> ''acknowledged'' \<Longrightarrow> (or_status r = ''inflight'' \<Longrightarrow> or_lease_expires_at_ms r \<le> now) \<Longrightarrow> msg_move (Leased now) r (leased now lease_ms lid r)"
| report: "or_status r \<noteq> ''acknowledged'' \<Longrightarrow> (or_status r = ''inflight'' \<Longrightarrow> lid \<noteq> [] \<and> lid = or_lease_id r)
    \<Longrightarrow> msg_move (Reported lid) r (attempted acked error retry_after now retryable r)"

inductive_cases msg_moveE: "msg_move ev r r'"

definition msg_run :: "(msg_event \<Rightarrow> bool) \<Rightarrow> outbox_record \<Rightarrow> outbox_record \<Rightarrow> bool" where
  "msg_run P = (\<lambda>r r'. \<exists>ev. P ev \<and> msg_move ev r r')\<^sup>*\<^sup>*"

lemma msg_run_refl [simp]: "msg_run P r r"
  by (simp add: msg_run_def)

lemma msg_run_trans: "msg_run P r s \<Longrightarrow> msg_run P s t \<Longrightarrow> msg_run P r t"
  by (simp add: msg_run_def)

lemma msg_run_move: "msg_move ev r r' \<Longrightarrow> P ev \<Longrightarrow> msg_run P r r'"
  by (auto simp: msg_run_def)

text \<open>A message keeps its envelope, its attempts are only added to, and an acknowledged one never moves.\<close>

lemma move_keeps: "msg_move ev r r' \<Longrightarrow> or_envelope r' = or_envelope r \<and> or_attempts r \<le> or_attempts r' \<and> or_status r \<noteq> ''acknowledged''"
  by (erule msg_moveE) (auto simp: retarget_def leased_def attempted_def Let_def)

lemma run_keeps: "msg_run P r r' \<Longrightarrow> or_envelope r' = or_envelope r \<and> or_attempts r \<le> or_attempts r' \<and> (or_status r = ''acknowledged'' \<longrightarrow> r' = r)"
  unfolding msg_run_def
proof (induction rule: converse_rtranclp_induct)
  case (step r s)
  then show ?case using move_keeps by fastforce
qed simp

text \<open>An active lease: no new lease before it expires, no report but with its identifier.\<close>

definition lease_kept :: "string \<Rightarrow> int \<Rightarrow> msg_event \<Rightarrow> bool" where
  "lease_kept lid expires ev = (case ev of Routed \<Rightarrow> True | Leased now \<Rightarrow> now < expires | Reported l \<Rightarrow> l \<noteq> lid)"

lemma lease_holds: "msg_run (lease_kept (or_lease_id r) (or_lease_expires_at_ms r)) r r' \<Longrightarrow> or_status r = ''inflight'' \<Longrightarrow> r' = r"
  unfolding msg_run_def
proof (induction rule: rtranclp_induct)
  case (step s t)
  then obtain ev where "lease_kept (or_lease_id r) (or_lease_expires_at_ms r) ev" "msg_move ev r t" "or_status r = ''inflight''" by auto
  then show ?case by (auto elim!: msg_moveE simp: lease_kept_def)
qed simp

section \<open>What is stored of a message\<close>

definition message_view :: "(string \<Rightarrow> bool) \<Rightarrow> string \<Rightarrow> outbox \<Rightarrow> outbox_record option" where
  "message_view b stem ob = (case find_record stem ob of
     Inr (Some (_, d)) \<Rightarrow> (case decode_outbox_record b d of Inr r \<Rightarrow> Some r | Inl _ \<Rightarrow> None)
   | _ \<Rightarrow> None)"

definition oversized :: "string \<Rightarrow> outbox \<Rightarrow> bool" where
  "oversized stem ob \<longleftrightarrow> map_of (ob_live ob) stem = Some Oversized \<or> map_of (ob_live ob) stem = None \<and> map_of (ob_archive ob) stem = Some Oversized"

text \<open>Only an acknowledged message lies in the archive alone.\<close>

definition live_kept :: "(string \<Rightarrow> bool) \<Rightarrow> string \<Rightarrow> outbox \<Rightarrow> bool" where
  "live_kept b stem ob \<longleftrightarrow> (\<forall>r. message_view b stem ob = Some r \<longrightarrow> or_status r \<noteq> ''acknowledged'' \<longrightarrow> map_of (ob_live ob) stem \<noteq> None)"

definition evolves :: "(msg_event \<Rightarrow> bool) \<Rightarrow> (string \<Rightarrow> bool) \<Rightarrow> string \<Rightarrow> outbox \<Rightarrow> outbox \<Rightarrow> bool" where
  "evolves P b stem ob ob' \<longleftrightarrow> (oversized stem ob \<longrightarrow> oversized stem ob') \<and> (live_kept b stem ob \<longrightarrow> live_kept b stem ob')
     \<and> (\<forall>r. message_view b stem ob = Some r \<longrightarrow> oversized stem ob' \<or> (\<exists>r'. msg_run P r r' \<and> message_view b stem ob' = Some r'))"

lemma evolves_refl [simp]: "evolves P b stem ob ob"
  by (auto simp: evolves_def intro: msg_run_refl)

lemma evolves_trans: "evolves P b stem x y \<Longrightarrow> evolves P b stem y z \<Longrightarrow> evolves P b stem x z"
  unfolding evolves_def using msg_run_trans by blast

lemma find_live: "load_record (map_of (ob_live ob) stem) = Inr (Some d) \<Longrightarrow> find_record stem ob = Inr (Some (False, d))"
  by (simp add: find_record_def)

lemma find_not_oversized: "find_record stem ob = Inr x \<Longrightarrow> \<not> oversized stem ob"
  by (auto simp: find_record_def oversized_def load_record_def envelope_rejected_def)

lemma view_decoded: "find_record stem ob = Inr (Some (a, d)) \<Longrightarrow> decode_outbox_record b d = Inr r \<Longrightarrow> message_view b stem ob = Some r"
  by (simp add: message_view_def)

lemma written_cases: "load_record (Some (written_file (PDict d))) = Inr (Some d) \<or> written_file (PDict d) = Oversized"
  by (simp add: written_file_def load_record_def)

lemma evolves_frame:
  assumes "map_of (ob_live ob') stem = map_of (ob_live ob) stem" "map_of (ob_archive ob') stem = map_of (ob_archive ob) stem"
  shows "evolves P b stem ob ob'"
proof -
  have "find_record stem ob' = find_record stem ob" unfolding find_record_def assms ..
  then show ?thesis by (auto simp: evolves_def message_view_def oversized_def live_kept_def assms intro: msg_run_refl)
qed

lemma evolves_put_live:
  assumes "find_record s ob = Inr x" "record_ok b r'" "\<And>r. message_view b s ob = Some r \<Longrightarrow> msg_run P r r'"
  shows "evolves P b stem ob (put_live s r' ob)"
proof (cases "stem = s")
  case True
  let ?d = "record_dict r'"
  have "oversized stem (put_live s r' ob) \<or> message_view b stem (put_live s r' ob) = Some r'"
    using written_cases [of ?d] decode_written [OF assms(2)] by (auto simp: oversized_def put_live_def message_view_def find_record_def True)
  moreover have "live_kept b stem (put_live s r' ob)" by (simp add: live_kept_def put_live_def True)
  ultimately show ?thesis using find_not_oversized [OF assms(1)] assms(3) True unfolding evolves_def by blast
next
  case False
  then show ?thesis by (intro evolves_frame) (simp_all add: put_live_def)
qed

lemma evolves_put_archive:
  assumes "find_record s ob = Inr (Some (True, d))" "decode_outbox_record b d = Inr r"
  shows "evolves P b stem ob (put_archive s r ob)"
proof (cases "stem = s")
  case True
  have v: "message_view b s ob = Some r" using assms by (rule view_decoded)
  have live: "map_of (ob_live ob) s = None" using assms(1)
    by (cases "map_of (ob_live ob) s") (auto simp: find_record_def load_record_def bindR_Inr_iff envelope_rejected_def split: outbox_file.splits pyval.splits option.splits)
  have "oversized stem (put_archive s r ob) \<or> message_view b stem (put_archive s r ob) = Some r"
    using written_cases [of "record_dict r"] decode_written [OF decode_ok(1) [OF assms(2)]] live
    by (auto simp: oversized_def put_archive_def message_view_def find_record_def load_record_def [of None] True)
  moreover have "message_view b stem (put_archive s r ob) = Some r' \<Longrightarrow> r' = r" for r'
    using written_cases [of "record_dict r"] decode_written [OF decode_ok(1) [OF assms(2)]] live
    by (auto simp: put_archive_def message_view_def find_record_def load_record_def [of None] True load_record_def [of "Some Oversized"] envelope_rejected_def)
  ultimately show ?thesis using find_not_oversized [OF assms(1)] v True unfolding evolves_def live_kept_def by (auto simp: put_archive_def intro: msg_run_refl)
next
  case False
  then show ?thesis by (intro evolves_frame) (simp_all add: put_archive_def)
qed

lemma map_of_filter_key: "map_of (filter (\<lambda>(s, _). s \<noteq> k) xs) j = (if j = k then None else map_of xs j)"
  by (induction xs) auto

lemma evolves_move:
  assumes "load_record (map_of (ob_live ob) s) = Inr (Some d)" "map_of (ob_archive ob) s = None" "decode_outbox_record b d = Inr r" "or_status r = ''acknowledged''"
  shows "evolves P b stem ob (move_file s ob)"
proof -
  obtain f where f: "map_of (ob_live ob) s = Some f" using assms(1) by (cases "map_of (ob_live ob) s") (auto simp: load_record_def)
  have m: "move_file s ob = \<lparr>ob_live = filter (\<lambda>(k, _). k \<noteq> s) (ob_live ob), ob_archive = assoc_put s f (ob_archive ob)\<rparr>" by (simp add: move_file_def f)
  show ?thesis
  proof (cases "stem = s")
    case True
    have "message_view b stem (move_file s ob) = message_view b stem ob"
      using assms(1) by (simp add: True m message_view_def find_record_def map_of_filter_key f load_record_def [of None])
    moreover have "oversized stem (move_file s ob) = oversized stem ob" using f by (auto simp: True m oversized_def map_of_filter_key)
    ultimately show ?thesis using view_decoded [OF find_live [OF assms(1)] assms(3)] assms(4) by (auto simp: True evolves_def live_kept_def intro: msg_run_refl)
  next
    case False
    then show ?thesis by (intro evolves_frame) (simp_all add: m map_of_filter_key)
  qed
qed

section \<open>Records that are written read back\<close>

lemma new_record_ok: "normalize_target_url b v = Inr url \<Longrightarrow> record_ok b (new_outbox_record env url)"
  using normalize_idem by (simp add: record_ok_def new_outbox_record_def)

lemma leased_ok: "record_ok b r \<Longrightarrow> lid \<noteq> [] \<Longrightarrow> 0 < now \<Longrightarrow> 0 \<le> lease_ms \<Longrightarrow> record_ok b (leased now lease_ms lid r)"
  by (auto simp: record_ok_def leased_def)

lemma attempted_ok: "record_ok b r \<Longrightarrow> 0 < now \<Longrightarrow> 0 \<le> acked \<Longrightarrow> 0 \<le> retry \<Longrightarrow> record_ok b (attempted acked error retry now retryable r)"
  using normalized_error by (auto simp: record_ok_def attempted_def Let_def)

lemma route_entry_ok:
  assumes "is_did_key (ce_target_did e)" "normalize_target_url b (PStr u) = Inr u" "normalize_target_url b (PStr v) = Inr v" "0 < now"
  shows "route_ok b (route_entry e u v now)"
  using assms by (auto simp: route_ok_def route_entry_def obj_def same_keys_def dget_or_def positive_int_def strict_int_def)

lemma retarget_ok:
  assumes "record_ok b r" "is_did_key (ce_target_did e)" "normalize_target_url b (PStr url) = Inr url" "0 < now"
  shows "record_ok b (retarget e url now r)"
proof -
  let ?h = "(case or_route_history r of None \<Rightarrow> [] | Some h \<Rightarrow> h) @ [route_entry e (or_target_url r) url now]"
  have "route_ok b (route_entry e (or_target_url r) url now)" using assms by (intro route_entry_ok) (auto simp: record_ok_def)
  then have "\<forall>x \<in> set ?h. route_ok b x" using assms(1) by (auto simp: record_ok_def list_all_iff split: option.splits)
  then have "list_all (route_ok b) (drop (length ?h - 20) ?h)" using set_drop_subset [of "length ?h - 20" ?h] unfolding list_all_iff by blast
  moreover have "length (drop (length ?h - 20) ?h) \<le> 20" by simp
  ultimately show ?thesis using assms unfolding retarget_def Let_def record_ok_def by simp
qed

section \<open>Operations follow the life of a message\<close>

lemma enqueue_planE:
  assumes "enqueue_plan n b e url allow now current = Inr (True, r')"
  obtains (new) "current = None" "r' = new_outbox_record (envelope_to_dict e) url"
    | (routed) a d old r where "current = Some (a, d)" "decode_outbox_record b d = Inr r" "envelope_ok old" "r' = retarget old url now r" "or_status r \<in> {''pending'', ''blocked''}"
proof (cases current)
  case None
  then show thesis using new assms by (simp add: enqueue_plan_def)
next
  case (Some q)
  obtain a d where q: "q = (a, d)" by (cases q)
  obtain old where old: "envelope_from_dict (dget_or d ''envelope'' PNone) = Inr old" using assms by (auto simp: enqueue_plan_def Some q envelope_rejected_def split: sum.splits)
  obtain ok m where v: "verify_envelope n old = (ok, m)" by (cases "verify_envelope n old")
  note p = assms [unfolded enqueue_plan_def Some q option.case prod.case old sum.case v]
  have ok: "verify_envelope n old = (True, m)" using p v by (simp add: ensure_Inr_iff)
  obtain r where "decode_outbox_record b d = Inr r" "or_status r \<in> {''pending'', ''blocked''}" "r' = retarget old url now r"
    using p by (auto simp: res_iffs split: if_splits)
  note z = this
  show thesis by (rule routed [of a d r old]) (use z Some q ok in \<open>simp_all add: verify_envelope_iff\<close>)
qed

lemma enqueue_evolves:
  assumes "0 < now" "P Routed"
  shows "evolves P b stem ob (fst (enqueue n b e v allow now ob))"
proof (cases "fst (enqueue n b e v allow now ob) = ob")
  case False
  obtain ob' out where o: "enqueue n b e v allow now ob = (ob', out)" by (cases "enqueue n b e v allow now ob")
  with False obtain s url x r' where w: "ob' = put_live s r' ob" "normalize_target_url b v = Inr url" "find_record s ob = Inr x"
    "enqueue_plan n b e url allow now x = Inr (True, r')"
    by (auto simp: enqueue_def bindR_Inr_iff split: sum.splits if_splits)
  have "record_ok b r' \<and> (\<forall>r. message_view b s ob = Some r \<longrightarrow> msg_run P r r')" using w(4)
  proof (cases rule: enqueue_planE)
    case new
    then show ?thesis using new_record_ok [OF w(2)] w(3) by (simp add: message_view_def)
  next
    case (routed a d old r)
    have "message_view b s ob = Some r" using w(3) routed(1,2) by (simp add: view_decoded)
    moreover have "msg_run P r r'" unfolding routed(4) using msg_move.route [OF routed(5)] assms(2) by (rule msg_run_move)
    moreover have "record_ok b r'" unfolding routed(4) using decode_ok(1) [OF routed(2)] routed(3) normalize_idem [OF w(2)] assms(1)
      by (intro retarget_ok) (simp_all add: envelope_ok_def)
    ultimately show ?thesis by simp
  qed
  then show ?thesis unfolding o fst_conv w(1) by (intro evolves_put_live [OF w(3)]) blast+
qed simp

lemma get_evolves: "evolves P b stem ob (fst (outbox_get b mid ob))"
proof (cases "fst (outbox_get b mid ob) = ob")
  case False
  obtain ob' out where o: "outbox_get b mid ob = (ob', out)" by (cases "outbox_get b mid ob")
  with False obtain s a d r where w: "ob' = (if a then put_archive else put_live) s r ob" "find_record s ob = Inr (Some (a, d))" "decode_outbox_record b d = Inr r"
    by (auto simp: outbox_get_def bindR_Inr_iff split: sum.splits option.splits if_splits)
  show ?thesis
  proof (cases a)
    case True
    then show ?thesis using o w evolves_put_archive by simp
  next
    case False
    then show ?thesis using o w(1) evolves_put_live [OF w(2) decode_ok(1) [OF w(3)]] view_decoded [OF w(2,3)] by simp
  qed
qed simp

lemma claim_stored:
  assumes "1000 \<le> lease_ms" "lease_ms \<le> 300000" "message_stem mid = Inr s" "load_record (map_of (ob_live ob) s) = Inr (Some d)" "decode_outbox_record b d = Inr r"
  shows "outbox_claim b mid lease_ms now force lid ob =
    (if claimable now force r then (put_live s (leased now lease_ms lid r) ob, Inr (Some (leased now lease_ms lid r))) else (ob, Inr None))"
  using assms by (simp add: outbox_claim_def)

lemma claim_cases:
  obtains (kept) out where "outbox_claim b mid lease_ms now force lid ob = (ob, out)" "\<And>r. out \<noteq> Inr (Some r)"
    | (lease) s d r where "message_stem mid = Inr s" "load_record (map_of (ob_live ob) s) = Inr (Some d)" "decode_outbox_record b d = Inr r" "claimable now force r"
      "1000 \<le> lease_ms" "lease_ms \<le> 300000"
      "outbox_claim b mid lease_ms now force lid ob = (put_live s (leased now lease_ms lid r) ob, Inr (Some (leased now lease_ms lid r)))"
proof (cases "1000 \<le> lease_ms \<and> lease_ms \<le> 300000")
  case l: True
  show thesis
  proof (cases "message_stem mid")
    case s: (Inr s)
    show thesis
    proof (cases "load_record (map_of (ob_live ob) s)")
      case (Inr x)
      show thesis
      proof (cases x)
        case (Some d)
        note d = Inr [unfolded Some]
        show thesis
        proof (cases "decode_outbox_record b d")
          case (Inl x)
          then show thesis using kept l s d by (cases "exn_cls x = CommerceEnvelopeRejected") (simp_all add: outbox_claim_def envelope_rejected_def)
        next
          case (Inr r)
          then show thesis using kept lease [OF s d Inr] l claim_stored [OF _ _ s d Inr, of lease_ms now force lid] by (cases "claimable now force r") auto
        qed
      qed (use kept l s Inr in \<open>simp add: outbox_claim_def\<close>)
    qed (use kept l s in \<open>simp add: outbox_claim_def\<close>)
  qed (use kept l in \<open>simp add: outbox_claim_def\<close>)
next
  case False
  then have "(1000 \<le> lease_ms \<and> lease_ms \<le> 300000) = False" by simp
  then show thesis using kept by (simp only: outbox_claim_def ensure_simps) simp
qed

lemma claim_evolves:
  assumes "0 < now" "lid \<noteq> []" "P (Leased now)"
  shows "evolves P b stem ob (fst (outbox_claim b mid lease_ms now force lid ob))"
proof (rule claim_cases [of b mid lease_ms now force lid ob])
  fix s d r
  assume w: "load_record (map_of (ob_live ob) s) = Inr (Some d)" "decode_outbox_record b d = Inr r" "claimable now force r" "1000 \<le> lease_ms"
    and eq: "outbox_claim b mid lease_ms now force lid ob = (put_live s (leased now lease_ms lid r) ob, Inr (Some (leased now lease_ms lid r)))"
  have "msg_move (Leased now) r (leased now lease_ms lid r)" using w(3) by (intro msg_move.lease) (auto simp: claimable_def split: if_splits)
  then show ?thesis unfolding eq fst_conv using find_live [OF w(1)] leased_ok [OF decode_ok(1) [OF w(2)] assms(2,1)] view_decoded [OF find_live [OF w(1)] w(2)] assms(3) w(4)
    by (intro evolves_put_live) (auto intro: msg_run_move)
qed simp

lemma claim_stems_evolves:
  assumes "0 < now" "\<And>s. fresh s \<noteq> []" "P (Leased now)"
  shows "evolves P b stem ob (fst (claim_stems b limit lease_ms now force fresh claimed stems ob))"
proof (induction stems arbitrary: claimed ob)
  case (Cons s stems)
  obtain ob' out where o: "outbox_claim b (id_of_stem s) lease_ms now force (fresh s) ob = (ob', out)" by (cases "outbox_claim b (id_of_stem s) lease_ms now force (fresh s) ob")
  have e: "evolves P b stem ob ob'" using claim_evolves [where P = P, OF assms(1) assms(2) [of s] assms(3), of b stem ob "id_of_stem s" lease_ms force] by (simp add: o)
  show ?case using evolves_trans [OF e Cons.IH] e by (auto simp: o split: sum.splits option.splits)
qed simp

lemma attempt_evolves:
  assumes "0 < now" "P (Reported lid)"
  shows "evolves P b stem ob (fst (record_attempt b mid acked error lid retry now retryable ob))"
proof (cases "fst (record_attempt b mid acked error lid retry now retryable ob) = ob")
  case False
  obtain ob' out where o: "record_attempt b mid acked error lid retry now retryable ob = (ob', out)" by (cases "record_attempt b mid acked error lid retry now retryable ob")
  with False obtain s d r where w: "ob' = put_live s (attempted acked error retry now retryable r) ob" "load_record (map_of (ob_live ob) s) = Inr (Some d)"
    "decode_outbox_record b d = Inr r" "or_status r \<noteq> ''acknowledged''" "or_status r = ''inflight'' \<longrightarrow> lid \<noteq> [] \<and> lid = or_lease_id r" "0 \<le> acked" "0 \<le> retry"
    by (auto simp: record_attempt_def bindR_Inr_iff ensure_Inr_iff envelope_rejected_def split: sum.splits option.splits if_splits)
  have "msg_move (Reported lid) r (attempted acked error retry now retryable r)" using w(4,5) by (intro msg_move.report) auto
  then show ?thesis unfolding o fst_conv w(1) using find_live [OF w(2)] attempted_ok [OF decode_ok(1) [OF w(3)] assms(1) w(6,7)] view_decoded [OF find_live [OF w(2)] w(3)] assms(2)
    by (intro evolves_put_live) (auto intro: msg_run_move)
qed simp

lemma archive_stems_evolves: "evolves P b stem ob (fst (archive_stems b before_ms limit archived stems ob))"
proof (induction stems arbitrary: archived ob)
  case (Cons s stems)
  show ?case
  proof (cases "archivable b before_ms (map_of (ob_live ob) s) = Inr True \<and> map_of (ob_archive ob) s = None")
    case True
    then obtain d r where d: "load_record (map_of (ob_live ob) s) = Inr (Some d)" "decode_outbox_record b d = Inr r" "or_status r = ''acknowledged''"
      by (auto simp: archivable_def split: sum.splits option.splits if_splits)
    have e: "evolves P b stem ob (move_file s ob)" using d True by (intro evolves_move) auto
    show ?thesis using evolves_trans [OF e Cons.IH] e True by (simp add: Let_def)
  next
    case False
    then show ?thesis using Cons.IH by (auto split: sum.splits bool.splits)
  qed
qed simp

section \<open>Sequences of operations\<close>

datatype outbox_op =
    Enqueue envelope pyval bool int
  | Get string
  | Claim string int int bool string
  | ClaimPending int int int bool "string \<Rightarrow> string"
  | Attempt string int string string int int bool
  | Archive int int

primrec run_op :: "nacl \<Rightarrow> (string \<Rightarrow> bool) \<Rightarrow> outbox_op \<Rightarrow> outbox \<Rightarrow> outbox" where
  "run_op n b (Enqueue e url allow now) ob = fst (enqueue n b e url allow now ob)"
| "run_op n b (Get mid) ob = fst (outbox_get b mid ob)"
| "run_op n b (Claim mid lease_ms now force lid) ob = fst (outbox_claim b mid lease_ms now force lid ob)"
| "run_op n b (ClaimPending limit lease_ms now force fresh) ob = fst (claim_pending b limit lease_ms now force fresh ob)"
| "run_op n b (Attempt mid acked error lid retry now retryable) ob = fst (record_attempt b mid acked error lid retry now retryable ob)"
| "run_op n b (Archive before_ms limit) ob = fst (archive_acknowledged b before_ms limit ob)"

definition run_ops :: "nacl \<Rightarrow> (string \<Rightarrow> bool) \<Rightarrow> outbox_op list \<Rightarrow> outbox \<Rightarrow> outbox" where
  "run_ops n b ops ob = fold (run_op n b) ops ob"

text \<open>The clock is after 1970 and a fresh lease identifier is not empty.\<close>

primrec op_ok :: "outbox_op \<Rightarrow> bool" where
  "op_ok (Enqueue e url allow now) \<longleftrightarrow> 0 < now"
| "op_ok (Get mid) \<longleftrightarrow> True"
| "op_ok (Claim mid lease_ms now force lid) \<longleftrightarrow> 0 < now \<and> lid \<noteq> []"
| "op_ok (ClaimPending limit lease_ms now force fresh) \<longleftrightarrow> 0 < now \<and> (\<forall>s. fresh s \<noteq> [])"
| "op_ok (Attempt mid acked error lid retry now retryable) \<longleftrightarrow> 0 < now"
| "op_ok (Archive before_ms limit) \<longleftrightarrow> True"

primrec op_allowed :: "(msg_event \<Rightarrow> bool) \<Rightarrow> outbox_op \<Rightarrow> bool" where
  "op_allowed P (Enqueue e url allow now) \<longleftrightarrow> P Routed"
| "op_allowed P (Get mid) \<longleftrightarrow> True"
| "op_allowed P (Claim mid lease_ms now force lid) \<longleftrightarrow> P (Leased now)"
| "op_allowed P (ClaimPending limit lease_ms now force fresh) \<longleftrightarrow> P (Leased now)"
| "op_allowed P (Attempt mid acked error lid retry now retryable) \<longleftrightarrow> P (Reported lid)"
| "op_allowed P (Archive before_ms limit) \<longleftrightarrow> True"

lemma op_evolves: "op_ok op \<Longrightarrow> op_allowed P op \<Longrightarrow> evolves P b stem ob (run_op n b op ob)"
  by (cases op)
    (simp_all add: enqueue_evolves get_evolves claim_evolves attempt_evolves claim_pending_def claim_stems_evolves archive_acknowledged_def archive_stems_evolves)

lemma ops_evolve: "list_all op_ok ops \<Longrightarrow> list_all (op_allowed P) ops \<Longrightarrow> evolves P b stem ob (run_ops n b ops ob)"
  unfolding run_ops_def by (induction ops arbitrary: ob) (auto intro: evolves_trans [OF op_evolves])

text \<open>C11. The outbox loses no message. Through every sequence of its operations, claims by several workers, retries, new routes, reads and archiving included, a stored message stays stored, live
  or in the archive: it keeps its signed envelope, its count of attempts does not fall, and once it is acknowledged its record does not change again. The one other way it can go is that a rewritten record
  passes the size at which the outbox refuses to read its own file.\<close>

theorem outbox_keeps_messages:
  assumes "list_all op_ok ops" "message_view b stem ob = Some r" "\<not> oversized stem (run_ops n b ops ob)"
  shows "\<exists>r'. message_view b stem (run_ops n b ops ob) = Some r' \<and> or_envelope r' = or_envelope r \<and> or_attempts r \<le> or_attempts r' \<and> (or_status r = ''acknowledged'' \<longrightarrow> r' = r)"
proof -
  have "op_allowed (\<lambda>_. True) op" for op by (cases op) simp_all
  then have "list_all (op_allowed (\<lambda>_. True)) ops" by (simp add: list_all_iff)
  then have "evolves (\<lambda>_. True) b stem ob (run_ops n b ops ob)" by (rule ops_evolve [OF assms(1)])
  then obtain r' where "msg_run (\<lambda>_. True) r r'" "message_view b stem (run_ops n b ops ob) = Some r'" using assms(2,3) by (auto simp: evolves_def)
  then show ?thesis using run_keeps by blast
qed

lemma claim_takes_view:
  assumes "outbox_claim b mid lease_ms now force lid ob = (ob', Inr (Some r))" "message_stem mid = Inr stem"
  shows "\<exists>r0. message_view b stem ob = Some r0 \<and> claimable now force r0 \<and> r = leased now lease_ms lid r0 \<and> ob' = put_live stem r ob \<and> record_ok b r0 \<and> 0 < lease_ms"
proof (rule claim_cases [of b mid lease_ms now force lid ob])
  fix s d r0
  assume w: "message_stem mid = Inr s" "load_record (map_of (ob_live ob) s) = Inr (Some d)" "decode_outbox_record b d = Inr r0" "claimable now force r0" "1000 \<le> lease_ms"
    "outbox_claim b mid lease_ms now force lid ob = (put_live s (leased now lease_ms lid r0) ob, Inr (Some (leased now lease_ms lid r0)))"
  then show ?thesis using assms view_decoded [OF find_live [OF w(2)] w(3)] decode_ok(1) [OF w(3)] by auto
qed (use assms in auto)

lemma oversized_not_claimed: "oversized stem ob \<Longrightarrow> message_stem mid = Inr stem \<Longrightarrow> snd (outbox_claim b mid lease_ms now force lid ob) \<noteq> Inr (Some r)"
proof
  assume o: "oversized stem ob" "message_stem mid = Inr stem" "snd (outbox_claim b mid lease_ms now force lid ob) = Inr (Some r)"
  obtain ob' where "outbox_claim b mid lease_ms now force lid ob = (ob', Inr (Some r))" using o(3) by (cases "outbox_claim b mid lease_ms now force lid ob") simp
  then obtain r0 where "message_view b stem ob = Some r0" using claim_takes_view o(2) by blast
  then obtain x where "find_record stem ob = Inr x" by (auto simp: message_view_def split: sum.splits)
  then show False using find_not_oversized o(1) by blast
qed

lemma put_live_view: "record_ok b r \<Longrightarrow> oversized stem (put_live stem r ob) \<or> message_view b stem (put_live stem r ob) = Some r"
  using written_cases [of "record_dict r"] decode_written [of b r] by (auto simp: oversized_def put_live_def message_view_def find_record_def)

text \<open>C12. A lease excludes every other worker. Once a claim hands out a message, no sequence of operations changes its record until the lease runs out, as long as no attempt is reported under the
  identifier of that lease: a report under another identifier is refused, the route cannot be changed, and a claim of the message at a time before the expiry, forced or not, gets nothing.\<close>

theorem outbox_claim_excludes:
  assumes "outbox_claim b mid lease_ms now force lid ob = (ob1, Inr (Some r))" "message_stem mid = Inr stem" "0 < now" "lid \<noteq> []" "list_all op_ok ops"
    "list_all (op_allowed (lease_kept lid (now + lease_ms))) ops"
  shows "(oversized stem (run_ops n b ops ob1) \<or> message_view b stem (run_ops n b ops ob1) = Some r)
    \<and> (\<forall>ms t f l r'. t < now + lease_ms \<longrightarrow> snd (outbox_claim b mid ms t f l (run_ops n b ops ob1)) \<noteq> Inr (Some r'))"
proof -
  obtain r0 where r0: "r = leased now lease_ms lid r0" "ob1 = put_live stem r ob" "record_ok b r0" "0 < lease_ms" using claim_takes_view [OF assms(1,2)] by blast
  have f: "or_lease_id r = lid" "or_lease_expires_at_ms r = now + lease_ms" "or_status r = ''inflight''" by (simp_all add: r0(1) leased_def)
  have "record_ok b r" unfolding r0(1) using r0(3,4) assms(3,4) by (intro leased_ok) simp_all
  then have v1: "oversized stem ob1 \<or> message_view b stem ob1 = Some r" unfolding r0(2) by (rule put_live_view)
  let ?ob = "run_ops n b ops ob1"
  have "evolves (lease_kept lid (now + lease_ms)) b stem ob1 ?ob" by (rule ops_evolve [OF assms(5,6)])
  then have v: "oversized stem ?ob \<or> message_view b stem ?ob = Some r" using v1 lease_holds [of r] f by (auto simp: evolves_def)
  have "snd (outbox_claim b mid ms t g l ?ob) \<noteq> Inr (Some r')" if "t < now + lease_ms" for ms t g l r'
    using v
  proof
    assume v: "message_view b stem ?ob = Some r"
    show ?thesis
    proof
      assume "snd (outbox_claim b mid ms t g l ?ob) = Inr (Some r')"
      then obtain ob' where "outbox_claim b mid ms t g l ?ob = (ob', Inr (Some r'))" by (cases "outbox_claim b mid ms t g l ?ob") simp
      then have "claimable t g r" using claim_takes_view [OF _ assms(2)] v by fastforce
      then show False using that f by (auto simp: claimable_def split: if_splits)
    qed
  qed (rule oversized_not_claimed [OF _ assms(2)])
  then show ?thesis using v by blast
qed

end
