(* ===== verification/Outbox_Delivery.thy ===== *)
theory Outbox_Delivery
  imports Outbox_Run
begin

text \<open>
  A whole delivery through \<open>nth_dao/commerce/outbox.py\<close>: the sender's outbox, the receiver's inbox and back; and the one way a message gets stuck, a record whose indented text is over the
  size limit of the reader.
\<close>

section \<open>The size of an indented text\<close>

fun json_depth :: "pyval \<Rightarrow> nat" and depth_list :: "pyval list \<Rightarrow> nat" and depth_pairs :: "pydict \<Rightarrow> nat" where
  "json_depth (PList xs) = Suc (depth_list xs)"
| "json_depth (PDict d) = Suc (depth_pairs d)"
| "json_depth _ = 0"
| "depth_list [] = 0"
| "depth_list (x # xs) = max (json_depth x) (depth_list xs)"
| "depth_pairs [] = 0"
| "depth_pairs ((k, v) # d) = max (json_depth v) (depth_pairs d)"

lemma scalar_bound: "1 \<le> B \<Longrightarrow> length (dump_raw False v) \<le> B * json_bound v"
  by (rule order_trans [OF length_dump(1)]) (use mult_le_mono1 [of 1 B "json_bound v"] in \<open>simp only: mult_1\<close>)

lemma length_text_indent:
  "2 * (k + json_depth v) + 4 \<le> B \<Longrightarrow> length (text_indent k v) \<le> B * json_bound v"
  "2 * (k + depth_list xs) + 4 \<le> B \<Longrightarrow> length (text_elems k xs) \<le> B * bound_list xs"
  "2 * (k + depth_pairs d) + 4 \<le> B \<Longrightarrow> length (text_members k d) \<le> B * bound_pairs d"
proof (induction k v and k xs and k d rule: text_indent_text_elems_text_members.induct)
  case (1 k xs)
  show ?case
  proof (cases xs)
    case (Cons x ys)
    have "length (text_elems (Suc k) xs) \<le> B * bound_list xs" using 1 Cons by simp
    then have "length (text_indent k (PList xs)) \<le> B * bound_list xs + (6 + 4 * k)" by (simp add: Cons)
    also have "\<dots> \<le> B * bound_list xs + B * 2" using "1.prems" by simp
    finally show ?thesis by (simp add: distrib_left)
  qed (use 1 in simp)
next
  case (2 k d)
  show ?case
  proof (cases d)
    case (Cons x ys)
    have "length (text_members (Suc k) d) \<le> B * bound_pairs d" using 2 Cons by simp
    then have "length (text_indent k (PDict d)) \<le> B * bound_pairs d + (6 + 4 * k)" by (simp add: Cons)
    also have "\<dots> \<le> B * bound_pairs d + B * 2" using "2.prems" by simp
    finally show ?thesis by (simp add: distrib_left)
  qed (use 2 in simp)
next
  case (5 k x xs)
  have x: "length (text_indent k x) \<le> B * json_bound x" using 5 by simp
  have "length (case xs of [] \<Rightarrow> [] | _ \<Rightarrow> '','' @ new_line k @ text_elems k xs) \<le> B + B * bound_list xs"
  proof (cases xs)
    case (Cons y ys)
    have "length (text_elems k xs) \<le> B * bound_list xs" using 5 by (simp add: Cons)
    moreover have "2 + 2 * k \<le> B" using "5.prems" by simp
    moreover have "length (case xs of [] \<Rightarrow> [] | _ \<Rightarrow> '','' @ new_line k @ text_elems k xs) = 2 + 2 * k + length (text_elems k xs)" by (simp only: Cons list.case) simp
    ultimately show ?thesis by linarith
  qed simp
  then show ?case using x by (simp add: distrib_left)
next
  case (7 k x v d)
  have v: "length (text_indent k v) \<le> B * json_bound v" using 7 by simp
  have B: "1 \<le> B" using "7.prems" by simp
  have q: "length (quote False (key_text x)) \<le> B * (2 + 6 * length (key_text x))"
    by (rule order_trans [OF length_quote]) (use mult_le_mono1 [OF B, of "2 + 6 * length (key_text x)"] in \<open>simp only: mult_1\<close>)
  have "length (case d of [] \<Rightarrow> [] | _ \<Rightarrow> '','' @ new_line k @ text_members k d) + 2 \<le> B * 2 + B * bound_pairs d"
  proof (cases d)
    case (Cons y ys)
    have "length (text_members k d) \<le> B * bound_pairs d" using 7 by (simp add: Cons)
    moreover have "4 + 2 * k \<le> B" using "7.prems" by simp
    moreover have "length (case d of [] \<Rightarrow> [] | _ \<Rightarrow> '','' @ new_line k @ text_members k d) = 2 + 2 * k + length (text_members k d)" by (simp only: Cons list.case) simp
    ultimately show ?thesis by linarith
  qed (use "7.prems" in simp)
  then have "length (text_members k ((x, v) # d)) \<le> B * (2 + 6 * length (key_text x)) + B * json_bound v + (B * 2 + B * bound_pairs d)" using v q by simp
  then show ?case by (simp add: distrib_left)
qed ((simp only: text_indent.simps, rule scalar_bound, simp) | simp)+

section \<open>A delivery\<close>

definition record_fits :: "outbox_record \<Rightarrow> bool" where
  "record_fits r \<longleftrightarrow> length (utf8 (text_indent 0 (PDict (record_dict r)))) \<le> max_outbox_record_bytes"

lemma put_fits: "record_fits r \<Longrightarrow> load_record (map_of (ob_live (put_live s r ob)) s) = Inr (Some (record_dict r))"
  by (simp add: record_fits_def put_live_def written_file_def load_record_def)

lemma enqueue_new:
  assumes "verify_envelope n e = (True, m)" "normalize_target_url b v = Inr url" "digest_stem (ce_message_id e) = Inr s" "find_record s ob = Inr None"
  shows "enqueue n b e v allow now ob = (put_live s (new_outbox_record (envelope_to_dict e) url) ob, Inr (new_outbox_record (envelope_to_dict e) url))"
  using assms by (simp add: enqueue_def enqueue_plan_def)

lemma envelope_eq_self:
  assumes "envelope_ok e" "keys_once (ce_payload e)"
  shows "py_eq (ce_message_id e) (ce_message_id e) \<and> py_eq (ce_source_did e) (ce_source_did e) \<and> py_eq (ce_target_did e) (ce_target_did e) \<and> py_eq (ce_payload e) (ce_payload e)"
proof -
  obtain bs where "canonical_json (ce_payload e) = Inr bs" using assms(1) by (auto simp: envelope_ok_def)
  then have "wf_json (ce_payload e)" using assms(2) by (rule canonical_json_Inr)
  then show ?thesis using assms(1) is_did_keyD unfolding envelope_ok_def by (fastforce intro: py_eq_refl(1) simp del: py_eq.simps)
qed

lemma enqueue_acknowledged:
  assumes "verify_envelope n e = (True, m)" "keys_once (ce_payload e)" "normalize_target_url b v = Inr (or_target_url r)" "digest_stem (ce_message_id e) = Inr s"
    "load_record (map_of (ob_live ob) s) = Inr (Some (record_dict r))" "record_ok b r" "or_envelope r = envelope_to_dict e" "or_status r = ''acknowledged''"
  shows "enqueue n b e v allow now ob = (ob, Inr r)"
proof -
  have "py_eq (ce_message_id e) (ce_message_id e) \<and> py_eq (ce_source_did e) (ce_source_did e) \<and> py_eq (ce_target_did e) (ce_target_did e) \<and> py_eq (ce_payload e) (ce_payload e)"
    using assms(1,2) by (intro envelope_eq_self) (simp_all add: verify_envelope_iff)
  then have "enqueue_plan n b e (or_target_url r) allow now (Some (False, record_dict r)) = Inr (False, r)"
    using assms(1,7,8) decode_written [OF assms(6)] by (simp add: enqueue_plan_def record_dict_fields envelope_dict_roundtrip)
  then show ?thesis using assms(1,3,4) find_live [OF assms(5)] by (simp add: enqueue_def)
qed

lemma attempt_acknowledged:
  assumes "message_stem mid = Inr s" "load_record (map_of (ob_live ob) s) = Inr (Some (record_dict r))" "record_ok b r" "or_status r = ''inflight''" "0 < acked"
  shows "record_attempt b mid acked error (or_lease_id r) 0 now True ob
    = (put_live s (attempted acked error 0 now True r) ob, Inr (attempted acked error 0 now True r))"
proof -
  have "or_lease_id r \<noteq> []" using assms(3,4) by (simp add: record_ok_def)
  then show ?thesis using assms decode_written [OF assms(3)] by (simp add: record_attempt_def)
qed

text \<open>C13. A delivery completes and is final. A signed envelope is queued, a worker claims it, the receiver's inbox answers with an acknowledgement that verifies and names the message, the
  order and the chain head, and the worker reports it: then the message is acknowledged. From there it is never handed out again, and queueing the same envelope once more returns the acknowledged record
  and writes nothing.\<close>

theorem delivery_acknowledged:
  assumes "ed25519_ok n" "signer_ok n receiver" "as_did receiver = Inr did" "ce_target_did e = PStr did" "verify_envelope n e = (True, m)" "keys_once (ce_payload e)"
    "normalize_target_url b v = Inr url" "ce_message_id e = PStr mid" "message_stem mid = Inr s" "find_record s ob = Inr None" "get_ack n e order_id head ib = Inr None"
    "is_digest (PStr head)" "order_id \<noteq> []" "length order_id \<le> 160" "0 < now" "0 < t" "lid \<noteq> []"
    "record_fits (new_outbox_record (envelope_to_dict e) url)" "record_fits (leased now 30000 lid (new_outbox_record (envelope_to_dict e) url))"
    "record_fits (attempted t [] 0 t True (leased now 30000 lid (new_outbox_record (envelope_to_dict e) url)))"
  shows "\<exists>ob1 r1 ob2 r2 ib' a ob3 r3. enqueue n b e v False now ob = (ob1, Inr r1) \<and> outbox_claim b mid 30000 now False lid ob1 = (ob2, Inr (Some r2))
    \<and> acknowledge n e order_id head receiver t ib = (ib', Inr (a, True)) \<and> verify_ack n a = (True, ''ok'') \<and> ak_message_id a = PStr mid \<and> ak_order_id a = PStr order_id
    \<and> ak_received_chain_head a = PStr head \<and> ak_receiver_did a = ce_target_did e
    \<and> record_attempt b mid t [] (or_lease_id r2) 0 t True ob2 = (ob3, Inr r3) \<and> or_status r3 = ''acknowledged'' \<and> or_attempts r3 = 1
    \<and> (\<forall>u f l. outbox_claim b mid 30000 u f l ob3 = (ob3, Inr None)) \<and> (\<forall>allow u. enqueue n b e v allow u ob3 = (ob3, Inr r3))"
proof -
  define r1 where "r1 = new_outbox_record (envelope_to_dict e) url"
  define r2 where "r2 = leased now 30000 lid r1"
  define r3 where "r3 = attempted t [] 0 t True r2"
  note fits = assms(18-20) [folded r1_def, folded r2_def, folded r3_def]
  let ?ob1 = "put_live s r1 ob" let ?ob2 = "put_live s r2 ?ob1" let ?ob3 = "put_live s r3 ?ob2"
  have ds: "digest_stem (ce_message_id e) = Inr s" using assms(8,9) by (simp add: message_stem_def)
  have ok: "record_ok b r1" "record_ok b r2" "record_ok b r3"
    using new_record_ok [OF assms(7)] assms(15-17) by (auto simp: r1_def r2_def r3_def intro!: leased_ok attempted_ok)
  have f: "or_status r1 = ''pending''" "or_next_attempt_at_ms r1 = 0" "or_status r2 = ''inflight''" "or_lease_id r2 = lid" "or_status r3 = ''acknowledged''" "or_attempts r3 = 1"
    "or_envelope r3 = envelope_to_dict e" "or_target_url r3 = url"
    using assms(16) by (simp_all add: r1_def r2_def r3_def new_outbox_record_def leased_def attempted_def Let_def)
  have e1: "enqueue n b e v False now ob = (?ob1, Inr r1)" unfolding r1_def by (rule enqueue_new [OF assms(5,7) ds assms(10)])
  have "claimable now False r1" using f assms(15) by (simp add: claimable_def)
  then have e2: "outbox_claim b mid 30000 now False lid ?ob1 = (?ob2, Inr (Some r2))"
    using claim_stored [OF _ _ assms(9) put_fits [OF fits(1)] decode_written [OF ok(1)], of 30000 now False lid] by (simp add: r2_def)
  obtain a ib' where a: "acknowledge n e order_id head receiver t ib = (ib', Inr (a, True))" "verify_ack n a = (True, ''ok'')" "ak_receiver_did a = ce_target_did e" "ak_message_id a = ce_message_id e"
    "ak_order_id a = PStr order_id" "ak_received_chain_head a = PStr head"
    using assms(5) by (auto simp: verify_envelope_iff intro: acknowledge_progress [OF assms(1-4) _ assms(12-14,16,11)])
  have e3: "record_attempt b mid t [] (or_lease_id r2) 0 t True ?ob2 = (?ob3, Inr r3)"
    unfolding r3_def by (rule attempt_acknowledged [OF assms(9) put_fits [OF fits(2)] ok(2) f(3) assms(16)])
  have "\<not> claimable u g r3" for u g using f(5) by (simp add: claimable_def)
  then have "outbox_claim b mid 30000 u g l ?ob3 = (?ob3, Inr None)" for u g l
    using claim_stored [OF _ _ assms(9) put_fits [OF fits(3)] decode_written [OF ok(3)], of 30000 u g l] by simp
  moreover have "enqueue n b e v allow u ?ob3 = (?ob3, Inr r3)" for allow u
    using enqueue_acknowledged [OF assms(5,6) _ ds put_fits [OF fits(3)] ok(3) f(7,5)] assms(7) f(8) by simp
  ultimately show ?thesis using e1 e2 a e3 f(5,6) assms(8)
    by (intro exI [of _ ?ob1] exI [of _ r1] exI [of _ ?ob2] exI [of _ r2] exI [of _ ib'] exI [of _ a] exI [of _ ?ob3] exI [of _ r3] conjI) simp_all
qed

section \<open>A message that gets stuck\<close>

lemma oversized_rejects:
  assumes "oversized s ob" "message_stem mid = Inr s"
  shows "\<exists>x. outbox_get b mid ob = (ob, Inl x)" "\<exists>x. record_attempt b mid acked error lid retry now retryable ob = (ob, Inl x)"
proof -
  obtain x where "find_record s ob = Inl x" using assms(1) by (auto simp: oversized_def find_record_def load_record_def envelope_rejected_def)
  then show "\<exists>x. outbox_get b mid ob = (ob, Inl x)" using assms(2) by (simp add: outbox_get_def)
  have "(\<exists>x. load_record (map_of (ob_live ob) s) = Inl x) \<or> load_record (map_of (ob_live ob) s) = Inr None"
    using assms(1) by (auto simp: oversized_def load_record_def envelope_rejected_def)
  then show "\<exists>x. record_attempt b mid acked error lid retry now retryable ob = (ob, Inl x)"
    using assms(2) by (auto simp: record_attempt_def ensure_def envelope_rejected_def)
qed

lemma member_inside: "(x, v) \<in> set d \<Longrightarrow> length (text_indent k v) \<le> length (text_members k d)"
proof (induction d)
  case (Cons p d)
  then show ?case by (cases p; cases d) auto
qed simp

lemma dict_inside: "(x, v) \<in> set d \<Longrightarrow> length (text_indent (Suc k) v) \<le> length (text_indent k (PDict d))"
  using member_inside [of x v d "Suc k"] by (cases d) auto

lemma text_inside: "length (text_indent 2 (ce_payload e)) \<le> length (text_indent 0 (PDict (record_dict (new_outbox_record (envelope_to_dict e) url))))"
proof -
  have "(PStr ''payload'', ce_payload e) \<in> set (envelope_to_dict e)" by (simp add: envelope_to_dict_def envelope_signing_body_def obj_def)
  from dict_inside [OF this, of 1] have "length (text_indent 2 (ce_payload e)) \<le> length (text_indent 1 (PDict (envelope_to_dict e)))" by (simp add: numeral_2_eq_2 del: text_indent.simps)
  also have "(PStr ''envelope'', PDict (envelope_to_dict e)) \<in> set (record_dict (new_outbox_record (envelope_to_dict e) url))"
    by (simp add: record_dict_def new_outbox_record_def obj_def)
  from dict_inside [OF this, of 0] have "length (text_indent 1 (PDict (envelope_to_dict e))) \<le> length (text_indent 0 (PDict (record_dict (new_outbox_record (envelope_to_dict e) url))))"
    by (simp del: text_indent.simps)
  finally show ?thesis .
qed

text \<open>C37. An accepted message can be undeliverable for ever. The limit on a payload counts its canonical bytes, the limit on a stored record counts the indented text of the file: a payload within
  the first limit whose indented text is over the second is signed, verified and queued without an error, but no sequence of operations reads its record again: the message cannot be looked up, claimed or
  reported, at any later time.\<close>

theorem oversized_record_stuck:
  assumes "ed25519_ok n" "signer_ok n sender" "as_did sender = Inr src" "is_did_key (PStr target)" "payload_fits payload" "0 < now" "normalize_target_url b v = Inr url"
    "max_outbox_record_bytes < length (text_indent 2 (PDict payload))"
  shows "\<exists>e mid r ob. sign_envelope n sender target payload now = Inr e \<and> ce_message_id e = PStr mid \<and> enqueue n b e v False now \<lparr>ob_live = [], ob_archive = []\<rparr> = (ob, Inr r)
    \<and> (\<forall>ops. list_all op_ok ops \<longrightarrow> (\<exists>x. snd (outbox_get b mid (run_ops n b ops ob)) = Inl x)
         \<and> (\<forall>ms t f l r'. snd (outbox_claim b mid ms t f l (run_ops n b ops ob)) \<noteq> Inr (Some r'))
         \<and> (\<forall>acked error lid retry t retryable. \<exists>x. snd (record_attempt b mid acked error lid retry t retryable (run_ops n b ops ob)) = Inl x))"
proof -
  obtain e where e: "sign_envelope n sender target payload now = Inr e" "verify_envelope n e = (True, ''ok'')" "ce_payload e = PDict payload"
    by (rule sign_envelope_ok [OF assms(1-6)])
  have dig: "is_digest (ce_message_id e)" using e(2) by (intro envelope_ok_digest) (simp add: verify_envelope_iff)
  then obtain mid where mid: "ce_message_id e = PStr mid" using is_digest_str by blast
  define s where "s = drop 7 mid"
  have st: "digest_stem (ce_message_id e) = Inr s" "message_stem mid = Inr s" using dig by (simp_all add: digest_stem_def message_stem_def mid s_def)
  let ?r = "new_outbox_record (envelope_to_dict e) url" and ?e = "\<lparr>ob_live = [], ob_archive = []\<rparr> :: outbox"
  let ?ob = "put_live s ?r ?e"
  have q: "enqueue n b e v False now ?e = (?ob, Inr ?r)" by (rule enqueue_new [OF e(2) assms(7) st(1)]) (simp add: find_record_def load_record_def)
  have "max_outbox_record_bytes < length (utf8 (text_indent 0 (PDict (record_dict ?r))))"
    using assms(8) text_inside [of e url] utf8_longer [of "text_indent 0 (PDict (record_dict ?r))"] e(3) by (simp del: text_indent.simps)
  then have big: "oversized s ?ob" by (simp add: oversized_def put_live_def written_file_def del: text_indent.simps)
  have over: "oversized s (run_ops n b ops ?ob)" if "list_all op_ok ops" for ops
  proof -
    have "op_allowed (\<lambda>_. True) op" for op by (cases op) simp_all
    then have "list_all (op_allowed (\<lambda>_. True)) ops" by (simp add: list_all_iff)
    then show ?thesis using ops_evolve [OF that, of "\<lambda>_. True"] big unfolding evolves_def by blast
  qed
  have "(\<exists>x. snd (outbox_get b mid (run_ops n b ops ?ob)) = Inl x) \<and> (\<forall>ms t f l r'. snd (outbox_claim b mid ms t f l (run_ops n b ops ?ob)) \<noteq> Inr (Some r'))
      \<and> (\<forall>acked error lid retry t retryable. \<exists>x. snd (record_attempt b mid acked error lid retry t retryable (run_ops n b ops ?ob)) = Inl x)" if "list_all op_ok ops" for ops
    using oversized_rejects [OF over [OF that] st(2)] oversized_not_claimed [OF over [OF that] st(2)] by (metis snd_conv)
  then show ?thesis using e(1) mid q by blast
qed

section \<open>Witnesses\<close>

definition demo_url :: string where
  "demo_url = ''https://b.example''"

lemma demo_url: "normalize_target_url (\<lambda>_. False) (PStr demo_url) = Inr demo_url"
  unfolding demo_url_def by code_simp

lemma small_record_fits:
  assumes "verify_envelope demo_nacl e = (True, ''ok'')" "ce_source_did e = PStr (demo_did 0)" "ce_target_did e = PStr (demo_did 1)" "ce_payload e = PDict []" "ce_created_at_ms e = PInt 5"
    "or_envelope r = envelope_to_dict e" "or_target_url r = demo_url" "length (or_status r) \<le> 20" "length (or_last_error r) \<le> 20" "length (or_lease_id r) \<le> 32" "or_route_history r = None"
    "length (int_str (or_attempts r)) \<le> 20" "length (int_str (or_acknowledged_at_ms r)) \<le> 20" "length (int_str (or_blocked_at_ms r)) \<le> 20" "length (int_str (or_last_attempt_at_ms r)) \<le> 20"
    "length (int_str (or_next_attempt_at_ms r)) \<le> 20" "length (int_str (or_lease_expires_at_ms r)) \<le> 20"
  shows "record_fits r"
proof -
  have ok: "envelope_ok e" "signed_by demo_nacl (ce_source_did e) (envelope_signing_body e) (ce_signature e)" using assms(1) by (simp_all add: verify_envelope_iff)
  obtain mid where mid: "ce_message_id e = PStr mid" "length mid = 71" using envelope_ok_digest [OF ok(1)] by (auto simp: is_digest_def split: pyval.splits)
  obtain sg where sg: "ce_signature e = PStr (b64u_encode sg)" "length (b64u_encode sg) \<le> 128"
    using ok(2) by (rule signed_byE) (metis length_b64u mult_2 numeral_Bit0)
  have k: "ce_kind e = PStr envelope_kind" using ok(1) by (simp add: envelope_ok_def)
  have d: "length (demo_did 0) \<le> 111" "length (demo_did 1) \<le> 111" by (rule demo_did)+
  have b: "json_bound (PDict (record_dict r)) \<le> 20000"
    using mid sg d assms(8-10,12-17)
    by (simp add: record_dict_def obj_def assms(2-7,11) envelope_to_dict_def envelope_signing_body_def k key_text_def envelope_kind_def demo_url_def int_str_5)
  have "json_depth (PDict (record_dict r)) \<le> 3"
    by (simp add: record_dict_def obj_def assms(2-7,11) envelope_to_dict_def envelope_signing_body_def k mid(1) sg(1))
  then have "length (text_indent 0 (PDict (record_dict r))) \<le> 10 * json_bound (PDict (record_dict r))" by (intro length_text_indent) simp
  then show ?thesis using b length_utf8 [of "text_indent 0 (PDict (record_dict r))"] by (simp add: record_fits_def max_outbox_record_bytes_def del: text_indent.simps json_bound.simps)
qed

lemma demo_queued:
  obtains e mid s r1 where "verify_envelope demo_nacl e = (True, ''ok'')" "ce_target_did e = PStr (demo_did 1)" "ce_payload e = PDict []" "ce_message_id e = PStr mid" "message_stem mid = Inr s"
    "r1 = new_outbox_record (envelope_to_dict e) demo_url" "record_fits r1" "record_fits (leased 6 30000 ''l1'' r1)" "record_fits (attempted 7 [] 0 7 True (leased 6 30000 ''l1'' r1))"
    "record_ok (\<lambda>_. False) r1" "record_ok (\<lambda>_. False) (leased 6 30000 ''l1'' r1)"
proof -
  obtain e where e: "verify_envelope demo_nacl e = (True, ''ok'')" "ce_source_did e = PStr (demo_did 0)" "ce_target_did e = PStr (demo_did 1)" "ce_payload e = PDict []" "ce_created_at_ms e = PInt 5"
    by (rule demo_envelope)
  have dig: "is_digest (ce_message_id e)" using e(1) by (intro envelope_ok_digest) (simp add: verify_envelope_iff)
  then obtain mid where mid: "ce_message_id e = PStr mid" using is_digest_str by blast
  define r1 where "r1 = new_outbox_record (envelope_to_dict e) demo_url"
  have i: "length (int_str 0) = 1" "length (int_str 1) = 1" "length (int_str 7) = 1" "length (int_str 30006) = 5" by (simp_all add: int_str_def nat_str.simps)
  note fit = small_record_fits [OF e]
  have "record_fits r1" by (rule fit) (simp_all add: r1_def new_outbox_record_def i)
  moreover have "record_fits (leased 6 30000 ''l1'' r1)" by (rule fit) (simp_all add: r1_def new_outbox_record_def leased_def i)
  moreover have "record_fits (attempted 7 [] 0 7 True (leased 6 30000 ''l1'' r1))" by (rule fit) (simp_all add: r1_def new_outbox_record_def leased_def attempted_def Let_def i)
  moreover have o: "record_ok (\<lambda>_. False) r1" unfolding r1_def by (rule new_record_ok [OF demo_url])
  moreover have "record_ok (\<lambda>_. False) (leased 6 30000 ''l1'' r1)" by (rule leased_ok [OF o]) simp_all
  ultimately show thesis using that [OF e(1,3,4) mid _ r1_def] dig by (simp add: message_stem_def digest_stem_def mid)
qed

theorem delivery_acknowledged_witness:
  "\<exists>e mid ob3 r3 ib' a. verify_envelope demo_nacl e = (True, ''ok'') \<and> ce_message_id e = PStr mid
     \<and> acknowledge demo_nacl e ''o1'' (''sha256:'' @ sha256_hex []) (demo_identity 1) 7 [] = (ib', Inr (a, True)) \<and> verify_ack demo_nacl a = (True, ''ok'')
     \<and> or_status r3 = ''acknowledged'' \<and> enqueue demo_nacl (\<lambda>_. False) e (PStr demo_url) False 9 ob3 = (ob3, Inr r3)"
proof -
  obtain e mid s r1 where e: "verify_envelope demo_nacl e = (True, ''ok'')" "ce_target_did e = PStr (demo_did 1)" "ce_payload e = PDict []" "ce_message_id e = PStr mid" "message_stem mid = Inr s"
    "r1 = new_outbox_record (envelope_to_dict e) demo_url" "record_fits r1" "record_fits (leased 6 30000 ''l1'' r1)" "record_fits (attempted 7 [] 0 7 True (leased 6 30000 ''l1'' r1))"
    by (rule demo_queued)
  have k: "keys_once (ce_payload e)" by (simp add: e(3))
  have f: "find_record s \<lparr>ob_live = [], ob_archive = []\<rparr> = Inr None" by (simp add: find_record_def load_record_def)
  have g: "get_ack demo_nacl e ''o1'' (''sha256:'' @ sha256_hex []) [] = Inr None" using e(4,5) by (simp add: get_ack_def message_stem_def)
  have n: "''o1'' \<noteq> []" "length ''o1'' \<le> 160" "(0 :: int) < 6" "(0 :: int) < 7" "''l1'' \<noteq> []" by simp_all
  from delivery_acknowledged [OF demo_nacl_ok demo_signer demo_did(1) e(2,1) k demo_url e(4,5) f g digest_ok n e(7-9) [unfolded e(6)]]
  show ?thesis using e(1,4) by blast
qed

theorem outbox_keeps_messages_witness:
  "\<exists>r r' stem ob mid. message_view (\<lambda>_. False) stem ob = Some r \<and> or_envelope r' = or_envelope r
     \<and> message_view (\<lambda>_. False) stem (run_ops demo_nacl (\<lambda>_. False) [Claim mid 30000 6 False ''l1'', Get mid] ob) = Some r'"
proof -
  obtain e mid s r1 where e: "message_stem mid = Inr s" "record_fits r1" "record_fits (leased 6 30000 ''l1'' r1)" "record_ok (\<lambda>_. False) r1" "record_ok (\<lambda>_. False) (leased 6 30000 ''l1'' r1)"
    "r1 = new_outbox_record (envelope_to_dict e) demo_url" by (rule demo_queued)
  let ?b = "\<lambda>_ :: string. False"
  let ?ob = "put_live s r1 \<lparr>ob_live = [], ob_archive = []\<rparr>" and ?r = "leased 6 30000 ''l1'' r1"
  have v: "message_view ?b s ?ob = Some r1" using view_decoded [OF find_live [OF put_fits [OF e(2)]] decode_written [OF e(4)]] .
  have "claimable 6 False r1" by (simp add: e(6) new_outbox_record_def claimable_def)
  then have c: "outbox_claim ?b mid 30000 6 False ''l1'' ?ob = (put_live s ?r ?ob, Inr (Some ?r))"
    using claim_stored [OF _ _ e(1) put_fits [OF e(2)] decode_written [OF e(4)], of 30000 6 False "''l1''"] by simp
  have "dget (record_dict ?r) ''last_error'' = Some (PStr (or_last_error ?r))" by (simp add: record_dict_def obj_def)
  then have "fst (outbox_get ?b mid (put_live s ?r ?ob)) = put_live s ?r ?ob"
    using e(1) find_live [OF put_fits [OF e(3)]] decode_written [OF e(5)] by (simp add: outbox_get_def record_dict_fields)
  then have "\<not> oversized s (run_ops demo_nacl ?b [Claim mid 30000 6 False ''l1'', Get mid] ?ob)"
    using find_not_oversized [OF find_live [OF put_fits [OF e(3)]]] c by (simp add: run_ops_def)
  from outbox_keeps_messages [OF _ v this] v show ?thesis by (simp del: run_op.simps) blast
qed

theorem outbox_claim_excludes_witness:
  "\<exists>mid ob ob1 r. outbox_claim (\<lambda>_. False) mid 30000 6 False ''l1'' ob = (ob1, Inr (Some r))
     \<and> snd (outbox_claim (\<lambda>_. False) mid 30000 9 True ''l2'' (run_ops demo_nacl (\<lambda>_. False) [Attempt mid 8 [] ''l2'' 0 8 True] ob1)) \<noteq> Inr (Some r)"
proof -
  obtain e mid s r1 where e: "message_stem mid = Inr s" "record_fits r1" "record_ok (\<lambda>_. False) r1" "r1 = new_outbox_record (envelope_to_dict e) demo_url" by (rule demo_queued)
  let ?b = "\<lambda>_ :: string. False"
  let ?ob = "put_live s r1 \<lparr>ob_live = [], ob_archive = []\<rparr>" and ?r = "leased 6 30000 ''l1'' r1"
  have "claimable 6 False r1" by (simp add: e(4) new_outbox_record_def claimable_def)
  then have c: "outbox_claim ?b mid 30000 6 False ''l1'' ?ob = (put_live s ?r ?ob, Inr (Some ?r))"
    using claim_stored [OF _ _ e(1) put_fits [OF e(2)] decode_written [OF e(3)], of 30000 6 False "''l1''"] by simp
  have "list_all op_ok [Attempt mid 8 [] ''l2'' 0 8 True]" "list_all (op_allowed (lease_kept ''l1'' (6 + 30000))) [Attempt mid 8 [] ''l2'' 0 8 True]" by (simp_all add: lease_kept_def)
  from outbox_claim_excludes [OF c e(1) _ _ this, of demo_nacl] c show ?thesis by (intro exI conjI) (rule c, simp del: run_op.simps)
qed

text \<open>A list of 90,000 zeros: two bytes each in canonical form, over ten in the indented file.\<close>

definition zeros :: nat where
  "zeros = 90000"

definition long_payload :: pydict where
  "long_payload = [(PStr ''a'', PList (replicate zeros (PInt 0)))]"

lemma int_str_0: "int_str 0 = ''0''"
  by (simp add: int_str_def nat_str_zero)

lemma zeros_bound: "bound_list (replicate k (PInt 0)) = 2 * k" "wf_json_list (replicate k (PInt 0))"
  by (induction k) (simp_all add: int_str_0)

lemma zeros_text: "(2 * d + 2) * k \<le> length (text_elems d (replicate (Suc k) (PInt 0)))"
proof (induction k)
  case (Suc k)
  then show ?case by (simp add: int_str_0)
qed simp

lemma long_payload_fits: "payload_fits long_payload"
proof -
  have w: "wf_json (PDict long_payload)" by (simp add: long_payload_def is_str_def zeros_bound)
  have "length (json_dumps False (PDict long_payload)) \<le> json_bound (PDict long_payload)"
    unfolding json_dumps_def using length_dump(1) bound_canon(1) by metis
  also have "\<dots> = 2 * zeros + 14" by (simp add: long_payload_def zeros_bound key_text_def)
  finally show ?thesis using w length_utf8 [of "json_dumps False (PDict long_payload)"] by (simp add: payload_fits_def max_payload_bytes_def zeros_def del: wf_json.simps)
qed

lemma long_payload_text: "max_outbox_record_bytes < length (text_indent 2 (PDict long_payload))"
proof -
  have z: "zeros = Suc 89999" by (simp add: zeros_def)
  have "10 * 89999 \<le> length (text_elems 4 (replicate zeros (PInt 0)))" using zeros_text [of 4 89999] by (simp add: z del: replicate.simps)
  also have "\<dots> \<le> length (text_indent 3 (PList (replicate zeros (PInt 0))))" by (cases "replicate zeros (PInt 0)") (simp_all add: numeral_eq_Suc)
  also have "\<dots> \<le> length (text_indent 2 (PDict long_payload))"
    using dict_inside [of "PStr ''a''" "PList (replicate zeros (PInt 0))" long_payload 2] by (simp add: long_payload_def del: text_indent.simps)
  finally show ?thesis by (simp add: max_outbox_record_bytes_def)
qed

theorem oversized_record_stuck_witness:
  "\<exists>e mid r ob. sign_envelope demo_nacl (demo_identity 0) (demo_did 1) long_payload 5 = Inr e
     \<and> enqueue demo_nacl (\<lambda>_. False) e (PStr demo_url) False 5 \<lparr>ob_live = [], ob_archive = []\<rparr> = (ob, Inr r) \<and> ce_message_id e = PStr mid
     \<and> snd (outbox_claim (\<lambda>_. False) mid 30000 9 True ''l1'' (run_ops demo_nacl (\<lambda>_. False) [Get mid] ob)) \<noteq> Inr (Some r)"
proof -
  have t: "(0 :: int) < 5" by simp
  obtain e mid r ob where x: "sign_envelope demo_nacl (demo_identity 0) (demo_did 1) long_payload 5 = Inr e" "ce_message_id e = PStr mid"
    "enqueue demo_nacl (\<lambda>_. False) e (PStr demo_url) False 5 \<lparr>ob_live = [], ob_archive = []\<rparr> = (ob, Inr r)"
    and stuck: "\<forall>ops. list_all op_ok ops \<longrightarrow> (\<exists>x. snd (outbox_get (\<lambda>_. False) mid (run_ops demo_nacl (\<lambda>_. False) ops ob)) = Inl x)
         \<and> (\<forall>ms t f l r'. snd (outbox_claim (\<lambda>_. False) mid ms t f l (run_ops demo_nacl (\<lambda>_. False) ops ob)) \<noteq> Inr (Some r'))
         \<and> (\<forall>acked error lid retry t retryable. \<exists>x. snd (record_attempt (\<lambda>_. False) mid acked error lid retry t retryable (run_ops demo_nacl (\<lambda>_. False) ops ob)) = Inl x)"
    using oversized_record_stuck [OF demo_nacl_ok demo_signer [of 0] demo_did(1) [of 0] signer_did_key [OF demo_nacl_ok demo_signer [of 1] demo_did(1) [of 1]] long_payload_fits t demo_url long_payload_text]
    by (elim exE conjE)
  have "list_all op_ok [Get mid]" by simp
  with stuck have "snd (outbox_claim (\<lambda>_. False) mid 30000 9 True ''l1'' (run_ops demo_nacl (\<lambda>_. False) [Get mid] ob)) \<noteq> Inr (Some r)" by blast
  with x show ?thesis by blast
qed

end
