(* ===== verification/Reconciler.thy ===== *)
theory Reconciler
  imports Outbox_Delivery
begin

text \<open>
  \<open>nth_dao/commerce/reconciliation.py\<close>: one pass of the worker that retries deliveries. The dispatcher is a callback, a parameter with its own state that may also work on the outbox; the clock
  and the fresh lease identifiers are read per candidate (with \<open>now_ms_override\<close> the clock is constant). The product of the delay with the floating-point jitter ratio is a function
  of the configuration. The thread around the pass, its start and stop, and the maintenance callback, which runs after the deliveries and only adds to counters, are left out.
\<close>

section \<open>Configuration and delay\<close>

record reconciler_config =
  rc_lease_ms :: int
  rc_batch_limit :: int
  rc_base_backoff_ms :: int
  rc_max_backoff_ms :: int
  rc_jitter :: "int \<Rightarrow> int"
  rc_archive_after_s :: int

definition config_ok :: "reconciler_config \<Rightarrow> bool" where
  "config_ok cf \<longleftrightarrow> 1000 \<le> rc_lease_ms cf \<and> rc_lease_ms cf \<le> 300000 \<and> 1 \<le> rc_batch_limit cf \<and> rc_batch_limit cf \<le> 1000 \<and> 1 \<le> rc_base_backoff_ms cf
     \<and> rc_base_backoff_ms cf \<le> rc_max_backoff_ms cf \<and> rc_max_backoff_ms cf \<le> 86400000 \<and> (rc_archive_after_s cf = 0 \<or> 86400 \<le> rc_archive_after_s cf)"

definition delivery_delay_ms :: "reconciler_config \<Rightarrow> int \<Rightarrow> string \<Rightarrow> int res" where
  "delivery_delay_ms cf prior_attempts message_id =
     (if prior_attempts < 0 then raise ValueError ''prior_attempts must be a non-negative integer''
      else let base_delay = min (rc_max_backoff_ms cf) (rc_base_backoff_ms cf * 2 ^ nat (min prior_attempts 30)); jitter_window = rc_jitter cf base_delay in
        if message_id = [] \<or> jitter_window \<le> 0 \<or> rc_max_backoff_ms cf \<le> base_delay then Inr base_delay
        else Inr (min (rc_max_backoff_ms cf) (base_delay + int (from_bytes_big (take 8 (sha256 (utf8 message_id)))) mod (jitter_window + 1))))"

section \<open>One candidate\<close>

type_synonym 'w dispatcher = "outbox_record \<Rightarrow> int \<Rightarrow> 'w \<times> outbox \<Rightarrow> ('w \<times> outbox) \<times> pyval res"

datatype outcome = Acknowledged | Failed string

definition normalize_any_error :: "pyval \<Rightarrow> bool \<Rightarrow> string" where
  "normalize_any_error error retryable = (case error of
     PStr s \<Rightarrow> normalize_outbox_error s retryable
   | _ \<Rightarrow> if retryable then ''delivery-failed'' else ''delivery-permanently-rejected'')"

definition envelope_message_id :: "outbox_record \<Rightarrow> string" where
  "envelope_message_id r = py_str (dget_or (or_envelope r) ''message_id'' (PStr []))"

definition failure_code :: "pydict \<Rightarrow> outbox_record \<Rightarrow> string" where
  "failure_code result current =
     (if or_status current = ''inflight'' then ''delivery-lease-superseded''
      else let error = dget_or result ''error'' PNone in
        normalize_any_error (if truthy error then error else PStr (or_last_error current)) (or_status current \<noteq> ''blocked''))"

definition holds_lease :: "outbox_record \<Rightarrow> outbox_record \<Rightarrow> bool" where
  "holds_lease r current \<longleftrightarrow> or_status current = ''inflight'' \<and> or_lease_id current = or_lease_id r"

text \<open>The guarded part: dispatch, then read what became of the message.\<close>

definition try_dispatch :: "(string \<Rightarrow> bool) \<Rightarrow> 'w dispatcher \<Rightarrow> int \<Rightarrow> outbox_record \<Rightarrow> string \<Rightarrow> int \<Rightarrow> 'w \<times> outbox \<Rightarrow> ('w \<times> outbox) \<times> outcome res" where
  "try_dispatch bracketed dispatch now r message_id retry_after_ms s =
     (case dispatch r retry_after_ms s of
        ((w, ob), Inl x) \<Rightarrow> ((w, ob), Inl x)
      | ((w, ob), Inr (PDict result)) \<Rightarrow>
          (case outbox_get bracketed message_id ob of
             (ob1, Inl x) \<Rightarrow> ((w, ob1), Inl x)
           | (ob1, Inr None) \<Rightarrow> ((w, ob1), Inr (Failed ''outbox-record-missing''))
           | (ob1, Inr (Some current)) \<Rightarrow>
               if or_status current = ''acknowledged'' then ((w, ob1), Inr Acknowledged)
               else if holds_lease r current
               then (case record_attempt bracketed message_id 0 ''dispatcher-contract-error'' (or_lease_id r) retry_after_ms now True ob1 of
                   (ob2, Inl x) \<Rightarrow> ((w, ob2), Inl x)
                 | (ob2, Inr current) \<Rightarrow> ((w, ob2), Inr (Failed (failure_code result current))))
               else ((w, ob1), Inr (Failed (failure_code result current))))
      | ((w, ob), Inr _) \<Rightarrow> ((w, ob), raise TypeError ''commerce dispatcher returned a non-object result''))"

text \<open>The handler of an exception: release the lease if it is still held.\<close>

definition persist_caught :: "exn \<Rightarrow> bool" where
  "persist_caught x \<longleftrightarrow> is_value_error x \<or> exn_cls x \<in> {OSError, RuntimeError, TypeError}"

definition release_failed :: "(string \<Rightarrow> bool) \<Rightarrow> int \<Rightarrow> outbox_record \<Rightarrow> string \<Rightarrow> int \<Rightarrow> outbox \<Rightarrow> outbox \<times> outcome res" where
  "release_failed bracketed now r message_id retry_after_ms ob =
     (case outbox_get bracketed message_id ob of
        (ob1, Inl x) \<Rightarrow> (ob1, if persist_caught x then Inr (Failed ''delivery-persistence-error'') else Inl x)
      | (ob1, Inr None) \<Rightarrow> (ob1, Inr (Failed ''delivery-runtime-error''))
      | (ob1, Inr (Some current)) \<Rightarrow>
          if or_status current = ''acknowledged'' then (ob1, Inr Acknowledged)
          else if holds_lease r current
          then (case record_attempt bracketed message_id 0 ''delivery-runtime-error'' (or_lease_id r) retry_after_ms now True ob1 of
              (ob2, Inl x) \<Rightarrow> (ob2, if persist_caught x then Inr (Failed ''delivery-persistence-error'') else Inl x)
            | (ob2, Inr _) \<Rightarrow> (ob2, Inr (Failed ''delivery-runtime-error'')))
          else (ob1, Inr (Failed ''delivery-runtime-error'')))"

definition deliver :: "(string \<Rightarrow> bool) \<Rightarrow> 'w dispatcher \<Rightarrow> reconciler_config \<Rightarrow> int \<Rightarrow> outbox_record \<Rightarrow> 'w \<times> outbox \<Rightarrow> ('w \<times> outbox) \<times> outcome res" where
  "deliver bracketed dispatch cf now r s =
     (let message_id = envelope_message_id r in
      case delivery_delay_ms cf (or_attempts r) message_id of
        Inl x \<Rightarrow> (s, Inl x)
      | Inr retry_after_ms \<Rightarrow>
          (case try_dispatch bracketed dispatch now r message_id retry_after_ms s of
             (s1, Inr out) \<Rightarrow> (s1, Inr out)
           | ((w, ob), Inl _) \<Rightarrow> (case release_failed bracketed now r message_id retry_after_ms ob of (ob1, out) \<Rightarrow> ((w, ob1), out))))"

section \<open>One pass\<close>

record tally =
  ty_claimed :: nat
  ty_acknowledged :: nat
  ty_failed :: nat
  ty_last_error :: string

definition no_tally :: tally where
  "no_tally = \<lparr>ty_claimed = 0, ty_acknowledged = 0, ty_failed = 0, ty_last_error = []\<rparr>"

definition count_outcome :: "outcome \<Rightarrow> tally \<Rightarrow> tally" where
  "count_outcome out t = (case out of
     Acknowledged \<Rightarrow> t\<lparr>ty_acknowledged := ty_acknowledged t + 1\<rparr>
   | Failed error \<Rightarrow> t\<lparr>ty_failed := ty_failed t + 1, ty_last_error := error\<rparr>)"

record surroundings =
  su_clock :: "nat \<Rightarrow> int"
  su_lease :: "nat \<Rightarrow> string"
  su_stop :: "nat \<Rightarrow> bool"

fun run_candidates :: "(string \<Rightarrow> bool) \<Rightarrow> 'w dispatcher \<Rightarrow> reconciler_config \<Rightarrow> surroundings \<Rightarrow> nat \<Rightarrow> outbox_record list \<Rightarrow> tally \<Rightarrow> 'w \<times> outbox \<Rightarrow> ('w \<times> outbox) \<times> tally \<times> unit res" where
  "run_candidates bracketed dispatch cf su i [] t s = (s, t, Inr ())"
| "run_candidates bracketed dispatch cf su i (c # cs) t (w, ob) =
     (if su_stop su i then ((w, ob), t, Inr ())
      else case outbox_claim bracketed (envelope_message_id c) (rc_lease_ms cf) (su_clock su (2 * i)) False (su_lease su i) ob of
        (ob1, Inl x) \<Rightarrow> if exn_cls x = CommerceEnvelopeRejected then run_candidates bracketed dispatch cf su (Suc i) cs t (w, ob1) else ((w, ob1), t, Inl x)
      | (ob1, Inr None) \<Rightarrow> run_candidates bracketed dispatch cf su (Suc i) cs t (w, ob1)
      | (ob1, Inr (Some r)) \<Rightarrow>
          let t1 = t\<lparr>ty_claimed := ty_claimed t + 1\<rparr> in
          (case deliver bracketed dispatch cf (su_clock su (2 * i + 1)) r (w, ob1) of
             (s2, Inl x) \<Rightarrow> (s2, t1, Inl x)
           | (s2, Inr out) \<Rightarrow> run_candidates bracketed dispatch cf su (Suc i) cs (count_outcome out t1) s2))"

record reconciler_state =
  rs_last_run_at_ms :: int
  rs_last_success_at_ms :: int
  rs_last_error :: string
  rs_claimed_total :: nat
  rs_acknowledged_total :: nat
  rs_failed_total :: nat

definition count_pass :: "int \<Rightarrow> tally \<Rightarrow> reconciler_state \<Rightarrow> reconciler_state" where
  "count_pass now t st = st\<lparr>rs_last_run_at_ms := now, rs_claimed_total := rs_claimed_total st + ty_claimed t, rs_acknowledged_total := rs_acknowledged_total st + ty_acknowledged t,
     rs_failed_total := rs_failed_total st + ty_failed t, rs_last_success_at_ms := (if ty_acknowledged t \<noteq> 0 then now else rs_last_success_at_ms st),
     rs_last_error := (if ty_last_error t \<noteq> [] then ty_last_error t else if ty_acknowledged t \<noteq> 0 then [] else rs_last_error st)\<rparr>"

definition archive_after :: "(string \<Rightarrow> bool) \<Rightarrow> reconciler_config \<Rightarrow> int \<Rightarrow> outbox \<Rightarrow> outbox \<times> unit res" where
  "archive_after bracketed cf now ob =
     (if rc_archive_after_s cf = 0 then (ob, Inr ())
      else case archive_acknowledged bracketed (now - rc_archive_after_s cf * 1000) (rc_batch_limit cf) ob of
        (ob1, Inl x) \<Rightarrow> (ob1, Inl x)
      | (ob1, Inr _) \<Rightarrow> (ob1, Inr ()))"

text \<open>A pass with its result: the counts, or nothing counted when another pass holds the lock.\<close>

definition run_once :: "(string \<Rightarrow> bool) \<Rightarrow> 'w dispatcher \<Rightarrow> reconciler_config \<Rightarrow> surroundings \<Rightarrow> bool \<Rightarrow> reconciler_state \<times> 'w \<times> outbox
    \<Rightarrow> (reconciler_state \<times> 'w \<times> outbox) \<times> (bool \<times> nat \<times> nat \<times> nat) res" where
  "run_once bracketed dispatch cf su busy s = (case s of (st, w, ob) \<Rightarrow>
     if busy then ((st, w, ob), Inr (True, 0, 0, 0))
     else (case outbox_pending bracketed (rc_batch_limit cf) ob of
        Inl x \<Rightarrow> ((count_pass (su_clock su 0) (no_tally\<lparr>ty_last_error := ''delivery-runtime-error''\<rparr>) st, w, ob), Inl x)
      | Inr candidates \<Rightarrow>
          let now = su_clock su (2 * length candidates) in
          (case run_candidates bracketed dispatch cf su 0 candidates no_tally (w, ob) of
             ((w1, ob1), t, Inl x) \<Rightarrow> ((count_pass now (t\<lparr>ty_last_error := ''delivery-runtime-error''\<rparr>) st, w1, ob1), Inl x)
           | ((w1, ob1), t, Inr _) \<Rightarrow>
               (case archive_after bracketed cf now ob1 of
                  (ob2, Inl x) \<Rightarrow> ((count_pass now (t\<lparr>ty_last_error := ''delivery-runtime-error''\<rparr>) st, w1, ob2), Inl x)
                | (ob2, Inr _) \<Rightarrow> ((count_pass now t st, w1, ob2), Inr (False, ty_claimed t, ty_acknowledged t, ty_failed t))))))"

section \<open>The delay is in bounds\<close>

lemma delivery_delay_bounds:
  assumes "config_ok cf" "0 \<le> attempts"
  obtains d where "delivery_delay_ms cf attempts mid = Inr d" "rc_base_backoff_ms cf \<le> d" "d \<le> rc_max_backoff_ms cf"
proof -
  define d where "d = min (rc_max_backoff_ms cf) (rc_base_backoff_ms cf * 2 ^ nat (min attempts 30))"
  have "(1 :: int) \<le> 2 ^ nat (min attempts 30)" by simp
  then have "rc_base_backoff_ms cf * 1 \<le> rc_base_backoff_ms cf * 2 ^ nat (min attempts 30)" using assms(1) by (intro mult_left_mono) (simp_all add: config_ok_def)
  then have b: "rc_base_backoff_ms cf \<le> d" "d \<le> rc_max_backoff_ms cf" using assms(1) by (simp_all add: config_ok_def d_def)
  have eq: "delivery_delay_ms cf attempts mid = (if mid = [] \<or> rc_jitter cf d \<le> 0 \<or> rc_max_backoff_ms cf \<le> d then Inr d
      else Inr (min (rc_max_backoff_ms cf) (d + int (from_bytes_big (take 8 (sha256 (utf8 mid)))) mod (rc_jitter cf d + 1))))"
    using assms(2) unfolding delivery_delay_ms_def Let_def d_def by (simp only: not_less [symmetric] if_False)
  show thesis
  proof (cases "mid = [] \<or> rc_jitter cf d \<le> 0 \<or> rc_max_backoff_ms cf \<le> d")
    case True
    then show thesis using that [of d] b by (simp only: eq if_True)
  next
    case False
    define j where "j = int (from_bytes_big (take 8 (sha256 (utf8 mid)))) mod (rc_jitter cf d + 1)"
    have "0 \<le> j" using False unfolding j_def by (intro pos_mod_sign) linarith
    moreover have "delivery_delay_ms cf attempts mid = Inr (min (rc_max_backoff_ms cf) (d + j))" using False by (simp only: eq j_def if_False)
    ultimately show thesis using that b by simp
  qed
qed

section \<open>A lease is released\<close>

lemma get_view:
  assumes "message_view b s ob = Some r" "message_stem mid = Inr s"
  obtains ob1 where "outbox_get b mid ob = (ob1, Inr (Some r))" "oversized s ob1 \<or> message_view b s ob1 = Some r" "live_kept b s ob \<Longrightarrow> live_kept b s ob1"
proof -
  obtain a d where d: "find_record s ob = Inr (Some (a, d))" "decode_outbox_record b d = Inr r"
    using assms(1) by (auto simp: message_view_def split: sum.splits option.splits)
  then obtain ob1 where g: "outbox_get b mid ob = (ob1, Inr (Some r))" using assms(2) by (simp add: outbox_get_def)
  have "evolves (\<lambda>_. False) b s ob ob1" using get_evolves [of "\<lambda>_. False" b s ob mid] by (simp add: g)
  moreover have "msg_run (\<lambda>_. False) r r' \<Longrightarrow> r' = r" for r' unfolding msg_run_def by (induction rule: rtranclp_induct) auto
  ultimately show thesis using that g assms(1) unfolding evolves_def by blast
qed

lemma find_error: "find_record s ob = Inl x \<Longrightarrow> persist_caught x"
  by (auto simp: find_record_def bindR_Inl_iff load_record_def envelope_rejected_def persist_caught_def is_value_error_def split: option.splits outbox_file.splits pyval.splits)

lemma get_oversized:
  assumes "oversized s ob" "message_stem mid = Inr s"
  obtains x where "outbox_get b mid ob = (ob, Inl x)" "persist_caught x"
proof -
  obtain x where "find_record s ob = Inl x" using assms(1) by (auto simp: oversized_def find_record_def load_record_def envelope_rejected_def)
  then show thesis using that [of x] find_error assms(2) by (simp add: outbox_get_def)
qed

text \<open>Reporting a failure under the lease that is held.\<close>

lemma live_view:
  assumes "message_view b s ob = Some r" "map_of (ob_live ob) s \<noteq> None"
  obtains d where "load_record (map_of (ob_live ob) s) = Inr (Some d)" "decode_outbox_record b d = Inr r"
proof -
  obtain f where f: "map_of (ob_live ob) s = Some f" using assms(2) by blast
  obtain a d where d: "find_record s ob = Inr (Some (a, d))" "decode_outbox_record b d = Inr r"
    using assms(1) by (auto simp: message_view_def split: sum.splits option.splits)
  have "load_record (Some f) \<noteq> Inr None" by (auto simp: load_record_def envelope_rejected_def split: outbox_file.splits pyval.splits)
  then show thesis using that d f by (auto simp: find_record_def bindR_Inr_iff split: option.splits)
qed

lemma report_failure:
  assumes "message_view b s ob = Some r" "live_kept b s ob" "message_stem mid = Inr s" "or_status r = ''inflight''" "0 < now" "0 \<le> retry" "retry \<le> 86400000"
  obtains ob1 r' where "record_attempt b mid 0 error (or_lease_id r) retry now True ob = (ob1, Inr r')" "oversized s ob1 \<or> message_view b s ob1 = Some r'"
    "or_status r' = ''pending''" "or_envelope r' = or_envelope r"
proof -
  have "map_of (ob_live ob) s \<noteq> None" using assms(1,2,4) by (simp add: live_kept_def)
  then obtain d where d: "load_record (map_of (ob_live ob) s) = Inr (Some d)" "decode_outbox_record b d = Inr r" using live_view assms(1) by blast
  have ok: "record_ok b r" by (rule decode_ok [OF d(2)])
  then have l: "or_lease_id r \<noteq> []" using assms(4) by (simp add: record_ok_def)
  let ?r = "attempted 0 error retry now True r"
  have "record_attempt b mid 0 error (or_lease_id r) retry now True ob = (put_live s ?r ob, Inr ?r)" using d l assms(3,4,6,7) by (simp add: record_attempt_def)
  moreover have "record_ok b ?r" using attempted_ok [OF ok assms(5)] assms(6) by simp
  ultimately show thesis using that [of "put_live s ?r ob" ?r] put_live_view [of b ?r s ob] by (simp add: attempted_def Let_def)
qed

text \<open>What a delivery leaves behind.\<close>

definition settled :: "(string \<Rightarrow> bool) \<Rightarrow> string \<Rightarrow> outbox_record \<Rightarrow> outbox \<Rightarrow> outcome \<Rightarrow> bool" where
  "settled b s r ob out \<longleftrightarrow> oversized s ob \<or> (\<exists>r'. message_view b s ob = Some r' \<and> or_envelope r' = or_envelope r \<and> \<not> holds_lease r r' \<and> (out = Acknowledged \<longleftrightarrow> or_status r' = ''acknowledged''))"

lemma release_settles:
  assumes "oversized s ob \<or> message_view b s ob = Some r' \<and> live_kept b s ob \<and> or_envelope r' = or_envelope r" "message_stem mid = Inr s" "0 < now" "0 \<le> retry" "retry \<le> 86400000"
  obtains ob1 out where "release_failed b now r mid retry ob = (ob1, Inr out)" "settled b s r ob1 out"
  using assms(1)
proof
  assume o: "oversized s ob"
  then obtain x where x: "outbox_get b mid ob = (ob, Inl x)" "persist_caught x" using assms(2) by (rule get_oversized)
  then have "release_failed b now r mid retry ob = (ob, Inr (Failed ''delivery-persistence-error''))" by (simp add: release_failed_def)
  then show thesis using that o by (simp add: settled_def)
next
  assume v: "message_view b s ob = Some r' \<and> live_kept b s ob \<and> or_envelope r' = or_envelope r"
  then obtain ob1 where g: "outbox_get b mid ob = (ob1, Inr (Some r'))" "oversized s ob1 \<or> message_view b s ob1 = Some r'" "live_kept b s ob1"
    using get_view [of b s ob r' mid] assms(2) by blast
  show thesis
  proof (cases "or_status r' \<noteq> ''acknowledged'' \<and> holds_lease r r'")
    case False
    then have "\<exists>out. release_failed b now r mid retry ob = (ob1, Inr out) \<and> (out = Acknowledged \<longleftrightarrow> or_status r' = ''acknowledged'')" by (auto simp: release_failed_def g(1))
    then show thesis using that g(2) v False by (auto simp: settled_def holds_lease_def)
  next
    case True
    then have h: "or_status r' = ''inflight''" "or_lease_id r = or_lease_id r'" by (simp_all add: holds_lease_def)
    show thesis using g(2)
    proof
      assume o: "oversized s ob1"
      obtain x where x: "record_attempt b mid 0 ''delivery-runtime-error'' (or_lease_id r) retry now True ob1 = (ob1, Inl x)" using oversized_rejects(2) [OF o assms(2)] by blast
      show thesis
      proof (cases "persist_caught x")
        case True2: True
        then have "release_failed b now r mid retry ob = (ob1, Inr (Failed ''delivery-persistence-error''))" using True x by (simp add: release_failed_def g(1))
        then show thesis using that o by (simp add: settled_def)
      next
        case False
        then show thesis using x o assms(2,4,5)
          by (auto simp: record_attempt_def oversized_def load_record_def envelope_rejected_def persist_caught_def is_value_error_def)
      qed
    next
      assume "message_view b s ob1 = Some r'"
      then obtain ob2 r2 where a: "record_attempt b mid 0 ''delivery-runtime-error'' (or_lease_id r') retry now True ob1 = (ob2, Inr r2)" "oversized s ob2 \<or> message_view b s ob2 = Some r2"
        "or_status r2 = ''pending''" "or_envelope r2 = or_envelope r'" using report_failure [OF _ g(3) assms(2) h(1) assms(3-5)] by metis
      then have "release_failed b now r mid retry ob = (ob2, Inr (Failed ''delivery-runtime-error''))" using True h(2) by (simp add: release_failed_def g(1))
      then show thesis using that a v by (auto simp: settled_def holds_lease_def)
    qed
  qed
qed

definition tracked :: "(string \<Rightarrow> bool) \<Rightarrow> string \<Rightarrow> outbox_record \<Rightarrow> outbox \<Rightarrow> bool" where
  "tracked b s r ob \<longleftrightarrow> oversized s ob \<or> (\<exists>r'. message_view b s ob = Some r' \<and> live_kept b s ob \<and> or_envelope r' = or_envelope r)"

lemma try_settles:
  assumes "dispatch r retry (w, ob) = ((w1, ob1), res)" "tracked b s r ob1" "message_stem mid = Inr s" "0 < now" "0 \<le> retry" "retry \<le> 86400000"
    "try_dispatch b dispatch now r mid retry (w, ob) = ((w2, ob2), out)"
  shows "case out of Inl _ \<Rightarrow> tracked b s r ob2 | Inr oc \<Rightarrow> settled b s r ob2 oc"
proof (cases "\<exists>result. res = Inr (PDict result)")
  case False
  then have "ob2 = ob1 \<and> (\<exists>x. out = Inl x)" using assms(1,7) by (auto simp: try_dispatch_def split: sum.splits pyval.splits)
  then show ?thesis using assms(2) by auto
next
  case True
  then obtain result where res: "res = Inr (PDict result)" by blast
  note t = assms(7) [unfolded try_dispatch_def assms(1) res, simplified]
  from assms(2) [unfolded tracked_def] show ?thesis
  proof
    assume o: "oversized s ob1"
    then obtain x where "outbox_get b mid ob1 = (ob1, Inl x)" using assms(3) by (rule get_oversized)
    then show ?thesis using t o by (auto simp: tracked_def)
  next
    assume "\<exists>r'. message_view b s ob1 = Some r' \<and> live_kept b s ob1 \<and> or_envelope r' = or_envelope r"
    then obtain r' where v: "message_view b s ob1 = Some r'" "live_kept b s ob1" "or_envelope r' = or_envelope r" by blast
    obtain ob' where g: "outbox_get b mid ob1 = (ob', Inr (Some r'))" "oversized s ob' \<or> message_view b s ob' = Some r'" "live_kept b s ob'"
      using get_view [OF v(1) assms(3)] v(2) by blast
    show ?thesis
    proof (cases "or_status r' \<noteq> ''acknowledged'' \<and> holds_lease r r'")
      case False
      then show ?thesis using t g(2) v(3) by (auto simp: g(1) settled_def holds_lease_def split: if_splits)
    next
      case True
      then have h: "or_status r' = ''inflight''" "or_lease_id r = or_lease_id r'" by (simp_all add: holds_lease_def)
      show ?thesis using g(2)
      proof
        assume o: "oversized s ob'"
        obtain x where "record_attempt b mid 0 ''dispatcher-contract-error'' (or_lease_id r) retry now True ob' = (ob', Inl x)" using oversized_rejects(2) [OF o assms(3)] by blast
        then show ?thesis using t True o by (auto simp: g(1) tracked_def)
      next
        assume "message_view b s ob' = Some r'"
        then obtain ob3 r2 where a: "record_attempt b mid 0 ''dispatcher-contract-error'' (or_lease_id r') retry now True ob' = (ob3, Inr r2)" "oversized s ob3 \<or> message_view b s ob3 = Some r2"
          "or_status r2 = ''pending''" "or_envelope r2 = or_envelope r'" using report_failure [OF _ g(3) assms(3) h(1) assms(4-6)] by metis
        then show ?thesis using t True h(2) v(3) by (auto simp: g(1) settled_def holds_lease_def)
      qed
    qed
  qed
qed

text \<open>A dispatcher that works on the outbox through its operations.\<close>

definition uses_operations :: "nacl \<Rightarrow> (string \<Rightarrow> bool) \<Rightarrow> 'w dispatcher \<Rightarrow> bool" where
  "uses_operations n b dispatch \<longleftrightarrow> (\<forall>r k w ob. \<exists>ops. list_all op_ok ops \<and> snd (fst (dispatch r k (w, ob))) = run_ops n b ops ob)"

lemma dispatch_tracked:
  assumes "uses_operations n b dispatch" "dispatch r k (w, ob) = ((w1, ob1), res)" "oversized s ob \<or> message_view b s ob = Some r" "live_kept b s ob"
  shows "tracked b s r ob1"
proof -
  obtain ops where o: "list_all op_ok ops" "ob1 = run_ops n b ops ob" using assms(1,2) unfolding uses_operations_def by (metis fst_conv snd_conv)
  have "op_allowed (\<lambda>_. True) op" for op by (cases op) simp_all
  then have "evolves (\<lambda>_. True) b s ob ob1" unfolding o(2) by (intro ops_evolve [OF o(1)]) (simp add: list_all_iff)
  then show ?thesis using assms(3,4) run_keeps unfolding evolves_def tracked_def by blast
qed

text \<open>C14. A worker does not strand a message. The dispatcher may run any sequence of the outbox's operations (it touches the outbox in no other way), and may return a result, a value of the
  wrong type, or raise; the reconciler then ends the delivery without an exception. Unless the record of the message, rewritten on the way, has outgrown the size limit of record files
  (no operation can read such a record any more, see \<open>oversized_record_stuck\<close>, so its lease is not released either), the message still carries the same envelope and is no longer held
  under the lease of that delivery: it is acknowledged, and counted as such exactly then, or it can be tried again or was taken over under another lease.\<close>

theorem reconciler_releases_lease:
  assumes "config_ok cf" "uses_operations n b dispatch" "outbox_claim b mid lease_ms t False lid ob = (ob1, Inr (Some r))" "message_stem mid = Inr s" "envelope_message_id r = mid"
    "0 < t" "lid \<noteq> []" "0 < now" "deliver b dispatch cf now r (w, ob1) = ((w2, ob2), out)"
  shows "\<exists>oc. out = Inr oc \<and> (oversized s ob2 \<or> (\<exists>r'. message_view b s ob2 = Some r' \<and> or_envelope r' = or_envelope r \<and> \<not> (or_status r' = ''inflight'' \<and> or_lease_id r' = lid)
     \<and> (oc = Acknowledged \<longleftrightarrow> or_status r' = ''acknowledged'')))"
proof -
  obtain r0 where r0: "r = leased t lease_ms lid r0" "ob1 = put_live s r ob" "record_ok b r0" "0 < lease_ms" using claim_takes_view [OF assms(3,4)] by blast
  have ok: "record_ok b r" unfolding r0(1) using r0(3,4) assms(6,7) by (intro leased_ok) simp_all
  have v: "oversized s ob1 \<or> message_view b s ob1 = Some r" "live_kept b s ob1" unfolding r0(2) using put_live_view [OF ok] by (simp_all add: live_kept_def put_live_def)
  have lid: "or_lease_id r = lid" by (simp add: r0(1) leased_def)
  have att: "0 \<le> or_attempts r" using ok by (simp add: record_ok_def)
  obtain k where k: "delivery_delay_ms cf (or_attempts r) mid = Inr k" "rc_base_backoff_ms cf \<le> k" "k \<le> rc_max_backoff_ms cf" by (rule delivery_delay_bounds [OF assms(1) att])
  then have kb: "0 \<le> k" "k \<le> 86400000" using assms(1) by (simp_all add: config_ok_def)
  obtain w1 ob' res where d: "dispatch r k (w, ob1) = ((w1, ob'), res)" by (metis prod.exhaust)
  obtain w3 ob3 res3 where td: "try_dispatch b dispatch now r mid k (w, ob1) = ((w3, ob3), res3)" by (metis prod.exhaust)
  note st = try_settles [OF d dispatch_tracked [OF assms(2) d v] assms(4,8) kb td]
  have "\<exists>oc. out = Inr oc \<and> settled b s r ob2 oc"
  proof (cases res3)
    case (Inr oc)
    then show ?thesis using st assms(9) by (auto simp: deliver_def assms(5) k(1) td)
  next
    case (Inl x)
    then have "tracked b s r ob3" using st by simp
    then obtain r' where "oversized s ob3 \<or> message_view b s ob3 = Some r' \<and> live_kept b s ob3 \<and> or_envelope r' = or_envelope r" unfolding tracked_def by blast
    then obtain ob4 oc where "release_failed b now r mid k ob3 = (ob4, Inr oc)" "settled b s r ob4 oc" using assms(4,8) kb by (rule release_settles)
    then show ?thesis using assms(9) Inl by (auto simp: deliver_def assms(5) k(1) td)
  qed
  then show ?thesis by (auto simp: settled_def holds_lease_def lid)
qed

section \<open>A batch that waits\<close>

text \<open>A message that is waiting for its next attempt, as it is stored under its name.\<close>

definition backed_off :: "(string \<Rightarrow> bool) \<Rightarrow> outbox \<Rightarrow> (nat \<Rightarrow> int) \<Rightarrow> string \<Rightarrow> outbox_record \<Rightarrow> bool" where
  "backed_off b ob clock s r \<longleftrightarrow> (\<exists>d. load_record (map_of (ob_live ob) s) = Inr (Some d) \<and> decode_outbox_record b d = Inr r) \<and> or_status r = ''pending''
     \<and> (\<forall>i. clock i < or_next_attempt_at_ms r) \<and> message_stem (envelope_message_id r) = Inr s"

lemma list_rows_prefix:
  assumes "list_all (\<lambda>s. backed_off b ob clock s (f s)) ss" "ss \<noteq> []" "length rows + length ss = limit"
  shows "list_rows b [''pending'', ''inflight''] limit ob rows (ss @ rest) = Inr (rows @ map f ss)"
  using assms
proof (induction ss arbitrary: rows)
  case (Cons s ss)
  obtain d where d: "load_record (map_of (ob_live ob) s) = Inr (Some d)" "decode_outbox_record b d = Inr (f s)" "or_status (f s) = ''pending''" using Cons.prems(1) by (auto simp: backed_off_def)
  show ?case
  proof (cases "ss = []")
    case True
    then show ?thesis using d Cons.prems(3) by simp
  next
    case False
    then have "\<not> limit \<le> length (rows @ [f s])" using Cons.prems(3) by (cases ss) auto
    then show ?thesis using d Cons.IH [of "rows @ [f s]"] False Cons.prems by simp
  qed
qed simp

lemma waiting_not_claimed:
  assumes "config_ok cf" "backed_off b ob clock s r"
  shows "outbox_claim b (envelope_message_id r) (rc_lease_ms cf) (clock i) False lid ob = (ob, Inr None)"
proof -
  obtain d where d: "load_record (map_of (ob_live ob) s) = Inr (Some d)" "decode_outbox_record b d = Inr r" using assms(2) by (auto simp: backed_off_def)
  have "\<not> claimable (clock i) False r" using assms(2) by (simp add: backed_off_def claimable_def)
  then show ?thesis using claim_stored [OF _ _ _ d, of "rc_lease_ms cf" "envelope_message_id r" "clock i" False lid] assms by (simp add: config_ok_def backed_off_def)
qed

lemma waiting_pass:
  assumes "config_ok cf" "list_all (\<lambda>s. backed_off b ob (su_clock su) s (f s)) ss"
  shows "run_candidates b dispatch cf su i (map f ss) t (w, ob) = ((w, ob), t, Inr ())"
  using assms(2)
proof (induction ss arbitrary: i)
  case (Cons s ss)
  then show ?case using waiting_not_claimed [OF assms(1), of b ob "su_clock su" s "f s" "2 * i" "su_lease su i"] by simp
qed simp

text \<open>C38. Messages that wait can block the ones that are due. A pass looks at the first records of the outbox that are not finished, in the order of their digests and up to the batch limit,
  and asks whether they are due only when it claims them: when the first ones all wait for a later attempt, the pass claims nothing, calls no dispatcher and changes nothing, whatever due messages lie behind
  them.\<close>

theorem waiting_batch_blocks_due:
  assumes "config_ok cf" "rc_archive_after_s cf = 0" "live_stems ob = ss @ rest" "length ss = nat (rc_batch_limit cf)" "list_all (\<lambda>s. backed_off b ob (su_clock su) s (f s)) ss"
  shows "run_once b dispatch cf su False (st, w, ob) = ((st\<lparr>rs_last_run_at_ms := su_clock su (2 * length ss)\<rparr>, w, ob), Inr (False, 0, 0, 0))"
proof -
  have l: "1 \<le> rc_batch_limit cf" "rc_batch_limit cf \<le> 1000" using assms(1) by (simp_all add: config_ok_def)
  then have "ss \<noteq> []" using assms(4) by auto
  then have "outbox_pending b (rc_batch_limit cf) ob = Inr (map f ss)"
    using list_rows_prefix [OF assms(5), of "[]" "nat (rc_batch_limit cf)" rest] l assms(3,4) by (simp add: outbox_pending_def list_statuses_def)
  then show ?thesis using waiting_pass [OF assms(1,5), of dispatch 0 no_tally w] assms(2) by (simp add: run_once_def archive_after_def count_pass_def no_tally_def)
qed

section \<open>Witnesses\<close>

definition demo_config :: reconciler_config where
  "demo_config = \<lparr>rc_lease_ms = 30000, rc_batch_limit = 1, rc_base_backoff_ms = 1000, rc_max_backoff_ms = 300000, rc_jitter = (\<lambda>d. d div 5), rc_archive_after_s = 0\<rparr>"

lemma demo_config_ok: "config_ok demo_config"
  by (simp add: demo_config_def config_ok_def)

text \<open>A dispatcher that acknowledges nothing and raises.\<close>

definition broken_dispatcher :: "unit dispatcher" where
  "broken_dispatcher r k s = (s, raise RuntimeError ''peer is gone'')"

lemma broken_uses_operations: "uses_operations n b broken_dispatcher"
  by (auto simp: uses_operations_def broken_dispatcher_def run_ops_def intro!: exI [of _ "[]"])

theorem reconciler_releases_lease_witness:
  "\<exists>mid s ob ob1 r w2 ob2 oc. outbox_claim (\<lambda>_. False) mid 30000 6 False ''l1'' ob = (ob1, Inr (Some r)) \<and> message_stem mid = Inr s
     \<and> deliver (\<lambda>_. False) broken_dispatcher demo_config 7 r ((), ob1) = ((w2, ob2), Inr oc)
     \<and> (oversized s ob2 \<or> (\<exists>r'. message_view (\<lambda>_. False) s ob2 = Some r' \<and> \<not> (or_status r' = ''inflight'' \<and> or_lease_id r' = ''l1'')))"
proof -
  obtain e mid s r1 where e: "ce_message_id e = PStr mid" "message_stem mid = Inr s" "record_fits r1" "record_ok (\<lambda>_. False) r1" "r1 = new_outbox_record (envelope_to_dict e) demo_url" by (rule demo_queued)
  let ?b = "\<lambda>_ :: string. False"
  let ?ob = "put_live s r1 \<lparr>ob_live = [], ob_archive = []\<rparr>" and ?r = "leased 6 30000 ''l1'' r1"
  have "claimable 6 False r1" by (simp add: e(5) new_outbox_record_def claimable_def)
  then have c: "outbox_claim ?b mid 30000 6 False ''l1'' ?ob = (put_live s ?r ?ob, Inr (Some ?r))"
    using claim_stored [OF _ _ e(2) put_fits [OF e(3)] decode_written [OF e(4)], of 30000 6 False "''l1''"] by simp
  have m: "envelope_message_id ?r = mid"
    by (simp add: envelope_message_id_def leased_def e(1,5) new_outbox_record_def envelope_to_dict_def envelope_signing_body_def obj_def dget_or_def)
  obtain w2 ob2 out where d: "deliver ?b broken_dispatcher demo_config 7 ?r ((), put_live s ?r ?ob) = ((w2, ob2), out)" by (metis prod.exhaust)
  from reconciler_releases_lease [OF demo_config_ok broken_uses_operations c e(2) m _ _ _ d] d c e(2) show ?thesis by fastforce
qed

definition stem_of :: "char \<Rightarrow> string" where
  "stem_of c = replicate 64 c"

definition waiting_record :: "char \<Rightarrow> int \<Rightarrow> outbox_record" where
  "waiting_record c next_at = (new_outbox_record (obj [(''message_id'', PStr (id_of_stem (stem_of c)))]) demo_url)\<lparr>or_next_attempt_at_ms := next_at\<rparr>"

definition waiting_outbox :: outbox where
  "waiting_outbox = \<lparr>ob_live = [(stem_of (CHR ''0''), Stored (PDict (record_dict (waiting_record (CHR ''0'') 9000)))),
     (stem_of (CHR ''1''), Stored (PDict (record_dict (waiting_record (CHR ''1'') 0))))], ob_archive = []\<rparr>"

lemma waiting_record_ok: "0 \<le> k \<Longrightarrow> record_ok (\<lambda>_. False) (waiting_record c k)"
  using new_record_ok [OF demo_url] by (simp add: record_ok_def waiting_record_def)

lemma waiting_stems: "message_stem (id_of_stem (stem_of (CHR ''0''))) = Inr (stem_of (CHR ''0''))" "message_stem (id_of_stem (stem_of (CHR ''1''))) = Inr (stem_of (CHR ''1''))"
  "stem_of (CHR ''0'') \<noteq> stem_of (CHR ''1'')" "sort [stem_of (CHR ''0''), stem_of (CHR ''1'')] = [stem_of (CHR ''0''), stem_of (CHR ''1'')]"
  by code_simp+

lemma waiting_message_id: "envelope_message_id (waiting_record c k) = id_of_stem (stem_of c)"
  by (simp add: envelope_message_id_def waiting_record_def new_outbox_record_def obj_def dget_or_def)

text \<open>The second message is due, and a claim of it would succeed.\<close>

theorem waiting_batch_blocks_due_witness:
  "\<exists>su st st' ob1 r. run_once (\<lambda>_. False) broken_dispatcher demo_config su False (st, (), waiting_outbox) = ((st', (), waiting_outbox), Inr (False, 0, 0, 0))
     \<and> outbox_claim (\<lambda>_. False) (id_of_stem (stem_of (CHR ''1''))) 30000 (su_clock su 0) False ''l1'' waiting_outbox = (ob1, Inr (Some r))"
proof -
  define su where "su = \<lparr>su_clock = \<lambda>_. 6, su_lease = \<lambda>_. ''l1'', su_stop = \<lambda>_. False\<rparr>"
  let ?b = "\<lambda>_ :: string. False" and ?r = "waiting_record (CHR ''1'') 0"
  have l: "load_record (map_of (ob_live waiting_outbox) (stem_of (CHR ''0''))) = Inr (Some (record_dict (waiting_record (CHR ''0'') 9000)))"
    "load_record (map_of (ob_live waiting_outbox) (stem_of (CHR ''1''))) = Inr (Some (record_dict ?r))"
    using waiting_stems(3) by (simp_all add: waiting_outbox_def load_record_def)
  have s: "live_stems waiting_outbox = [stem_of (CHR ''0'')] @ [stem_of (CHR ''1'')]" using waiting_stems(4) by (simp add: live_stems_def waiting_outbox_def)
  have w: "list_all (\<lambda>s. backed_off ?b waiting_outbox (su_clock su) s (waiting_record (CHR ''0'') 9000)) [stem_of (CHR ''0'')]"
    using l(1) decode_written [OF waiting_record_ok] waiting_stems(1)
    by (simp add: backed_off_def waiting_message_id su_def) (simp add: waiting_record_def new_outbox_record_def)
  have "claimable 6 False ?r" by (simp add: waiting_record_def new_outbox_record_def claimable_def)
  then have c: "\<exists>ob1 r. outbox_claim ?b (id_of_stem (stem_of (CHR ''1''))) 30000 (su_clock su 0) False ''l1'' waiting_outbox = (ob1, Inr (Some r))"
    using claim_stored [OF _ _ waiting_stems(2) l(2) decode_written [OF waiting_record_ok], of 30000 6 False "''l1''"] by (simp add: su_def)
  have n: "rc_archive_after_s demo_config = 0" "length [stem_of (CHR ''0'')] = nat (rc_batch_limit demo_config)" by (simp_all add: demo_config_def)
  note x = waiting_batch_blocks_due [OF demo_config_ok n(1) s n(2) w, of broken_dispatcher]
  show ?thesis using x c by blast
qed

end
