(* ===== verification/Spec2Isabelle.thy ===== *)
theory Spec2Isabelle
  imports Canonical_Json Base64url Did_Key Identity Spine_Event Spine_Log Spine_Recovery Spine_Unique
    Signed_Statement Projection Governance Dispute Cap_Token Authz Mission Mission_Store Mission_Runner Money Settlement Trade Trade_Chain Trade_Ops Trade_Run Receipt
    Vocabulary Announcement Market_Feed Reputation Market_Claim Market_Match Federation
    Payment_Event Payment_Chain Payment_Store Payment_Journal Payment_Recovery Payment_Ops Payment_Run
    Payment_Exec Payment_Flow Payment_Witness Trade_Binding Envelope Json_Indent Outbox Outbox_Run Outbox_Delivery Reconciler
begin

text \<open>
  \<^bold>\<open>Nth DAO: a verification of its trust core, its trades and payments, its market and its mission orchestration.\<close>

  The program (\<open>src/nth_dao\<close>) lets software agents cooperate without a central server. Agents are Ed25519 key
  pairs named by \<open>did:key\<close> identifiers. What they do is recorded as signed, hash-chained events in an
  append-only log, the spine; governance, disputes and capability grants are statements signed by their authors
  that the node records as events, and projections replay the log into the state in force. Missions are divided into
  steps that agents claim, complete, hand over or fail. A trade is a chain of signed events of its own, from opening over
  delivery and verdict to a settlement or a resolved dispute; a payment attempt is another chain, kept by the payer, that survives crashes
  and guards against paying twice. Work is offered in signed announcements, found through feeds and digests, and claimed with a signed receipt.

  \<^bold>\<open>Layers and theories.\<close>
  \<^item> \<open>Prelude\<close>: exceptions as values (\<open>res\<close>, \<open>bindR\<close>, \<open>ensure\<close>), text, hexadecimal and UTF-8 codecs, decimal numerals,
    association lists, positional notation (locales \<open>radix\<close>, \<open>codec\<close>, \<open>codec_chain\<close>), \<open>util/io.py\<close>: \<open>safe_id\<close>.
  \<^item> \<open>Py_Value\<close>: the dynamic values of the language and the operations the code applies to values of unknown type.
  \<^item> \<open>Json_Text\<close>: \<open>json.dumps\<close> and \<open>json.loads\<close>; the parser takes fuel, and the length of the text is always enough
    (shown by the round trips, which are proved for the parser at that fuel).
  \<^item> \<open>Canonical_Json\<close> (\<open>canonical_json.py\<close>), \<open>Base64url\<close> (\<open>b64u.py\<close>), \<open>Sha256\<close> (the hash, computed),
    \<open>Did_Key\<close> (\<open>did_key.py\<close>), \<open>Identity\<close> (\<open>identity.py\<close>). Ed25519 itself is PyNaCl's: the record \<open>nacl\<close> holds its functions as
    parameters and \<open>ed25519_ok\<close> states the documented law that signatures verify under the derived public key;
    no unforgeability is assumed. \<open>demo_nacl\<close> instantiates it in the witnesses.
  \<^item> \<open>Hash_Chain\<close>: the locale of hash-chained histories, interpreted by the spine.
  \<^item> \<open>Spine_Event\<close> (\<open>spine/event.py\<close>), \<open>Spine_Log\<close>, \<open>Spine_Recovery\<close>, \<open>Spine_Unique\<close> (\<open>spine/log.py\<close>): the log file as bytes, the
    append intent beside it, every write as a step so that a crash can come between any two of them, the
    recovery, the idempotent batch append and the queries.
  \<^item> \<open>Signed_Statement\<close>: the signing and checking code that governance, dispute and request statements share, as the
    locale \<open>statement_kind\<close>; \<open>Projection\<close> (\<open>spine/projection.py\<close>): replay, and the contract of a projection as a locale.
  \<^item> \<open>Governance\<close>, \<open>Dispute\<close>, \<open>Authz\<close> (the packages of these names): statements, recording, projections; each interprets both
    locales. \<open>Cap_Token\<close> (\<open>cap_token.py\<close>): capability tokens and their store.
  \<^item> \<open>Mission\<close>, \<open>Mission_Store\<close>, \<open>Mission_Runner\<close> (\<open>orchestration/mission.py\<close>, \<open>mission_store.py\<close>, \<open>mission_runner.py\<close>): steps and acceptance
    rules, the store with compare-and-swap updates, and the agents. The locale \<open>step_table\<close> is what the agents rely on;
    its interpretation \<open>runner\<close> carries single operations over to arbitrary interleavings of agents.
  \<^item> \<open>Money\<close>, \<open>Settlement\<close>, \<open>Trade\<close> (\<open>commerce/money.py\<close>, \<open>settlement.py\<close>, \<open>trade.py\<close>): amounts, settlement adapters over a payment
    rail given as a parameter, trade events, replay, transitions, replication and \<open>settle_trade\<close>. \<open>Json_Size\<close> bounds encoded lengths, \<open>Json_Indent\<close> is the
    indented text of the files that \<open>atomic_write_json\<close> writes;
    \<open>Trade_Chain\<close> holds the abstract lifecycle and what a verified chain guarantees, \<open>Trade_Ops\<close> what the transitions keep,
    \<open>Trade_Run\<close> the honest run and the concrete trades of the witnesses.
  \<^item> \<open>Payment_Event\<close>, \<open>Payment_Store\<close> (\<open>commerce/payment_attempt.py\<close>): the events of an attempt with their verifier and projection; the documents,
    the journal of signed head anchors beside them, every write as a step, and the operations of the store. \<open>Payment_Chain\<close> has the abstract lifecycle and what
    a verified attempt guarantees, \<open>Payment_Journal\<close> the bytes of the journal, \<open>Payment_Recovery\<close> crashes and rollback, \<open>Payment_Ops\<close>
    what the operations do, \<open>Payment_Run\<close> an honest attempt and the witnesses. The external witness is a parameter of the store;
    \<open>Payment_Witness\<close> (\<open>commerce/payment_witness.py\<close>) is the file that serves as one, with what the store relies on as the locale \<open>head_log\<close>.
    \<open>Payment_Exec\<close> is the executor that pays the attempts and the reconciler that looks payments up, \<open>Payment_Flow\<close> their honest run from attempt to settled trade.
  \<^item> \<open>Trade_Binding\<close> (\<open>commerce/binding.py\<close>, \<open>verifier.py\<close>): the check that anchors a trade in a signed announcement and a signed claim, and the verdict on a test execution.
  \<^item> \<open>Envelope\<close>, \<open>Outbox\<close> (\<open>commerce/outbox.py\<close>): signed envelopes and acknowledgements, the inbox, and the outbox with its files, leases, routes and archive.
    \<open>Outbox_Run\<close> has the life of one message as a step relation, which the operations follow, \<open>Outbox_Delivery\<close> a whole delivery and the size of a stored record.
    \<open>Reconciler\<close> (\<open>commerce/reconciliation.py\<close>): the worker's pass, with the dispatcher as a parameter that may use the outbox through its operations (\<open>uses_operations\<close>).
  \<^item> \<open>Receipt\<close> (\<open>execution_receipt.py\<close>): the signed timeline of an execution, its receipt, the check of its capability token, and chains of receipts.
  \<^item> \<open>Vocabulary\<close>, \<open>Announcement\<close>, \<open>Market_Feed\<close> (\<open>market/vocabulary.py\<close>, \<open>announcement.py\<close>, \<open>feed.py\<close>, \<open>projection.py\<close>): capability names, signed announcements,
    the feed a reader polls with a cursor and the view replayed from the spine. \<open>Reputation\<close>, \<open>Market_Claim\<close>, \<open>Market_Match\<close>, \<open>Federation\<close>
    (\<open>market/reputation.py\<close>, \<open>claim.py\<close>, \<open>subscription.py\<close>, \<open>match.py\<close>, \<open>federation.py\<close>): profiles, claims with their store, subscriptions, and signed digests.

  \<^bold>\<open>State and steps.\<close> Objects with state are records, and a method that changes state returns the new state
  beside its result; a raised exception is \<open>Inl\<close> of its class and message. The clock, fresh identifiers and random
  bytes are arguments. Locks are not modelled: an operation under a lock is one step, and interleavings are
  sequences of such steps. Two steps of the model span more than the code holds a lock for: a run of the payment executor (claim, rail call, record), where the rail
  is documented to deduplicate concurrent calls, and a poll of the feed against a publication, which lock different files. Association lists keep the insertion order of dicts.

  \<^bold>\<open>What is shown.\<close> Serialization is injective up to key order and round-trips; \<open>did:key\<close> names and keys correspond one
  to one; signatures made verify. The log refines a list of events, an append is atomic under a crash at
  any write, a head hash commits to the whole history (or exhibits a hash collision), and repeating an
  idempotent write changes nothing. The policy in force changes only by authorized signed statements; dispute records and
  decided requests never change; accepted tokens are valid, unexpired, unrevoked and sufficient. A claimed step
  that is not waiting for review excludes all other agents until it is handed off, its owner changes only by its own handoff, its audit trail only grows, and a step is
  done only with an accepted output, in every interleaving. A verified trade is a run of the lifecycle by the bound parties, a settled one
  was delivered, approved or resolved by the bound party, and pays exactly the signed terms, a dispute moves exactly the agreed amount, every transition
  that goes through leaves a verifiable chain (a settlement or resolution exactly when it meets the terms), and an honest trade goes through. A verified payment attempt is a run of its lifecycle, settles at most once and for the agreed sum,
  and never has two live leases; a write of it that stops anywhere leaves the old or the new chain while the clock does not go back and the document fits its file, and an older document that is put back
  is refused, with the file witness even together with its journal. The executor pays only claimed attempts of verified trades, no obligation twice whatever happens to the files,
  its retries back off within their bounds, and an honest payment settles its trade. A bound trade with terms pays the announced reward to the agent that claimed the
  work. The outbox loses no message within the size limit of its records, a lease excludes every other worker, the reconciler releases the lease of every delivery whose record is readable, the inbox answers a message once, and a delivery ends acknowledged. An accepted receipt binds its timeline to its signer, receipts form one chain, an announcement has one claimant in every order of claims, a
  reader that keeps polling a quiet feed drains it and gets every live announcement once, and discovery through digests finds what a page of the feed offers under the node's own authority. Theorems of the error kind prove defects of the code:
  the manifest lists them as findings.

  \<^bold>\<open>Bounds.\<close> Python's integers are \<open>int\<close>; bytes are \<open>8 word\<close> and the hash works on \<open>32 word\<close>. The size limits of the log (line,
  batch, intent), of announcements, digests, payment events, documents and journals, envelopes and outbox records are the code's. Recursions are structural or have a termination proof; the only fuel is the
  JSON parser's.

  \<^bold>\<open>Not modelled.\<close> Code points above 255, the interpreter's recursion and 4300-digit limits, the texts of library exceptions
  where only their class matters, operating-system errors of file operations, the log's in-memory cache and
  its storage tokens, mission templates and reviews, the superseded format of payment attempts and its migration, claim intents and
  acknowledgements and resource profiles of the market, and the packages around this core: the web server and its
  front end, plugins, discovery and transport (a2a, nostr), orders, listings (whose stores answer the feed's binding check as a parameter) and checkout, the thread around the reconciler, trade rules, delivery, and team
  tools. They are I/O, presentation or further applications of the same signed-statement pattern.
\<close>

end
